(* ===== verification/Prelude.thy ===== *)
theory Prelude
  imports Main "HOL-Library.AList" "HOL-Library.Word" "HOL-Library.Multiset"
begin

unbundle bit_operations_syntax

text \<open>
  Shared library of the development.

  The C code keeps its objects in keyed trees (red-black trees and radix trees) and in doubly
  linked lists. A keyed tree is an association list with one entry per key; the three tree calls
  the code makes are \<open>tree_get\<close> (exact lookup), \<open>tree_put\<close> (insert of a new key, or update of
  the node in place) and \<open>tree_del\<close> (remove). The contract a client of such a tree relies on is
  the locale \<open>keyed_tree\<close>, interpreted at the end of this theory on the association lists.

  \<open>asum f t\<close> adds \<open>f\<close> over the nodes of a tree; every reference count of the code is compared
  with such a sum.
\<close>

named_theorems tree_simps \<open>lookups after tree updates\<close>
named_theorems step_defs \<open>definitions of the operations of a component\<close>

type_synonym u8 = "8 word"
type_synonym u16 = "16 word"
type_synonym u32 = "32 word"
type_synonym u64 = "64 word"

section \<open>Keyed trees\<close>

type_synonym ('k, 'v) tree = "('k \<times> 'v) list"

definition tree_get :: "('k, 'v) tree \<Rightarrow> 'k \<Rightarrow> 'v option" where
  "tree_get t k = map_of t k"

definition tree_put :: "'k \<Rightarrow> 'v \<Rightarrow> ('k, 'v) tree \<Rightarrow> ('k, 'v) tree" where
  "tree_put k v t = AList.update k v t"

definition tree_del :: "'k \<Rightarrow> ('k, 'v) tree \<Rightarrow> ('k, 'v) tree" where
  "tree_del k t = AList.delete k t"

definition tree_wf :: "('k, 'v) tree \<Rightarrow> bool" where
  "tree_wf t \<longleftrightarrow> distinct (map fst t)"

definition asum :: "('v \<Rightarrow> nat) \<Rightarrow> ('k, 'v) tree \<Rightarrow> nat" where
  "asum f t = sum_list (map (f \<circ> snd) t)"

lemma tree_get_Nil [simp, tree_simps]: "tree_get [] k = None"
  by (simp add: tree_get_def)

lemma tree_get_Cons [tree_simps]:
  "tree_get ((k, v) # t) k' = (if k' = k then Some v else tree_get t k')"
  by (simp add: tree_get_def)

lemma tree_get_put [simp, tree_simps]:
  "tree_get (tree_put k v t) k' = (if k' = k then Some v else tree_get t k')"
  by (simp add: tree_get_def tree_put_def update_conv')

lemma tree_get_del [simp, tree_simps]:
  "tree_get (tree_del k t) k' = (if k' = k then None else tree_get t k')"
  by (simp add: tree_get_def tree_del_def delete_conv')

lemma tree_wf_Nil [simp]: "tree_wf []"
  by (simp add: tree_wf_def)

lemma tree_wf_put [simp, intro]: "tree_wf t \<Longrightarrow> tree_wf (tree_put k v t)"
  by (simp add: tree_wf_def tree_put_def distinct_update)

lemma tree_wf_del [simp, intro]: "tree_wf t \<Longrightarrow> tree_wf (tree_del k t)"
  by (simp add: tree_wf_def tree_del_def distinct_delete)

lemma tree_get_in_set: "tree_get t k = Some v \<Longrightarrow> (k, v) \<in> set t"
  by (simp add: tree_get_def map_of_SomeD)

lemma tree_get_iff_in_set: "tree_wf t \<Longrightarrow> tree_get t k = Some v \<longleftrightarrow> (k, v) \<in> set t"
  by (simp add: tree_wf_def tree_get_def map_of_eq_Some_iff)

lemma unit_option_None [simp]: "((x :: unit option) \<noteq> Some ()) \<longleftrightarrow> x = None"
  by (cases x) simp_all

lemma tree_get_all_None: "(\<forall>k. tree_get t k = None) \<longleftrightarrow> t = []"
proof (cases t)
  case (Cons p t')
  then have "tree_get t (fst p) \<noteq> None" by (cases p) (simp add: tree_get_def)
  then show ?thesis using Cons by auto
qed simp

lemma tree_put_not_Nil [simp]: "tree_put k v t \<noteq> []"
  using tree_get_all_None [of "tree_put k v t"] by (auto split: if_splits)

lemma tree_put_put [simp]: "tree_put k v (tree_put k w t) = tree_put k v t"
  by (simp add: tree_put_def)

lemma tree_put_same: "tree_get t k = Some v \<Longrightarrow> tree_put k v t = t"
  by (simp add: tree_put_def tree_get_def update_triv)

lemma tree_del_absent: "tree_get t k = None \<Longrightarrow> tree_del k t = t"
  by (induction t) (auto simp: tree_del_def tree_get_def split: if_splits)

lemma tree_del_put [simp]: "tree_del k (tree_put k v t) = tree_del k t"
  by (induction t) (auto simp: tree_del_def tree_put_def AList.delete_eq)

lemma tree_del_put_new: "tree_get t k = None \<Longrightarrow> tree_del k (tree_put k v t) = t"
  by (induction t) (auto simp: tree_del_def tree_put_def tree_get_def split: if_splits)

lemma length_put: "tree_get t k = Some v \<Longrightarrow> length (tree_put k w t) = length t"
  by (induction t) (auto simp: tree_put_def tree_get_def split: if_splits)

lemma length_put_new: "tree_get t k = None \<Longrightarrow> length (tree_put k w t) = length t + 1"
  by (induction t) (auto simp: tree_put_def tree_get_def split: if_splits)

lemma length_del: "length (tree_del k t) \<le> length t"
  by (simp add: tree_del_def AList.delete_eq length_filter_le)

text \<open>The keys of a tree.\<close>

definition tree_dom :: "('k, 'v) tree \<Rightarrow> 'k set" where
  "tree_dom t = {k. tree_get t k \<noteq> None}"

lemma finite_tree_dom [simp]: "finite (tree_dom t)"
proof -
  have "tree_dom t = dom (map_of t)" by (auto simp: tree_dom_def tree_get_def)
  then show ?thesis by (simp add: finite_dom_map_of)
qed

lemma tree_dom_put [simp]: "tree_dom (tree_put k v t) = insert k (tree_dom t)"
  by (auto simp: tree_dom_def)

lemma tree_dom_del [simp]: "tree_dom (tree_del k t) = tree_dom t - {k}"
  by (auto simp: tree_dom_def)

lemma tree_dom_iff: "k \<in> tree_dom t \<longleftrightarrow> tree_get t k \<noteq> None"
  by (simp add: tree_dom_def)

subsection \<open>Sums over a tree\<close>

lemma asum_Nil [simp]: "asum f [] = 0"
  by (simp add: asum_def)

lemma asum_Cons [simp]: "asum f ((k, v) # t) = f v + asum f t"
  by (simp add: asum_def)

lemma asum_new [simp]:
  "tree_get t k = None \<Longrightarrow> asum f (tree_put k v t) = asum f t + f v"
  by (induction t) (auto simp: tree_put_def tree_get_def split: if_splits)

lemma asum_put:
  assumes "tree_wf t" "tree_get t k = Some v0"
  shows "asum f (tree_put k v t) + f v0 = asum f t + f v"
  using assms
proof (induction t)
  case (Cons p t)
  obtain k1 v1 where p: "p = (k1, v1)" by force
  show ?case
  proof (cases "k1 = k")
    case True
    with Cons.prems p show ?thesis by (simp add: tree_put_def tree_get_def)
  next
    case False
    with Cons.prems p have "tree_wf t" "tree_get t k = Some v0"
      by (auto simp: tree_wf_def tree_get_def)
    from Cons.IH [OF this] False p show ?thesis by (simp add: tree_put_def)
  qed
qed simp

lemma asum_put_same:
  assumes "tree_wf t" "tree_get t k = Some v0" "f v = f v0"
  shows "asum f (tree_put k v t) = asum f t"
  using asum_put [OF assms(1,2), of f v] assms(3) by simp

lemma asum_del:
  assumes "tree_wf t" "tree_get t k = Some v0"
  shows "asum f (tree_del k t) + f v0 = asum f t"
  using assms
proof (induction t)
  case (Cons p t)
  obtain k1 v1 where p: "p = (k1, v1)" by force
  show ?case
  proof (cases "k1 = k")
    case True
    with Cons.prems p have "tree_get t k = None"
      by (auto simp: tree_wf_def tree_get_def map_of_eq_None_iff)
    then have "tree_del k t = t" by (rule tree_del_absent)
    with True Cons.prems p show ?thesis by (simp add: tree_del_def tree_get_def AList.delete_eq)
  next
    case False
    with Cons.prems p have "tree_wf t" "tree_get t k = Some v0"
      by (auto simp: tree_wf_def tree_get_def)
    from Cons.IH [OF this] False p show ?thesis by (simp add: tree_del_def AList.delete_eq)
  qed
qed simp

lemma asum_del_same:
  assumes "tree_wf t" "\<And>v. tree_get t k = Some v \<Longrightarrow> f v = 0"
  shows "asum f (tree_del k t) = asum f t"
proof (cases "tree_get t k")
  case None
  then show ?thesis by (simp add: tree_del_absent)
next
  case (Some v0)
  with asum_del [OF assms(1) Some, of f] assms(2) show ?thesis by simp
qed

lemma asum_ge: "tree_get t k = Some v \<Longrightarrow> f v \<le> asum f t"
  by (induction t) (auto simp: tree_get_def split: if_splits)

lemma asum_zero_get: "asum f t = 0 \<Longrightarrow> tree_get t k = Some v \<Longrightarrow> f v = 0"
  using asum_ge [of t k v f] by simp

lemma asum_zeroI: "(\<And>k v. (k, v) \<in> set t \<Longrightarrow> f v = 0) \<Longrightarrow> asum f t = 0"
  by (fastforce simp: asum_def)

lemma asum_mono: "(\<And>v. f v \<le> g v) \<Longrightarrow> asum f t \<le> asum g t"
  by (induction t) (simp_all add: asum_def add_mono)

lemma asum_cong: "(\<And>k v. (k, v) \<in> set t \<Longrightarrow> f v = g v) \<Longrightarrow> asum f t = asum g t"
  unfolding asum_def by (rule arg_cong [where f = sum_list], rule map_cong) auto

section \<open>Counters of machine width\<close>

lemma of_nat_u32_zero:
  assumes "n < 2 ^ 32"
  shows "(of_nat n :: u32) = 0 \<longleftrightarrow> n = 0"
  using assms by (simp add: word_of_nat_eq_0_iff) (auto dest: dvd_imp_le)

lemma unat_of_nat_u32: "n < 2 ^ 32 \<Longrightarrow> unat (of_nat n :: u32) = n"
  by (simp add: unat_of_nat take_bit_nat_eq_self)

section \<open>The contract of a keyed tree\<close>

text \<open>
  What a client of a tree relies on. \<open>wf\<close> is the structural invariant of the tree.
\<close>

locale keyed_tree =
  fixes get :: "'t \<Rightarrow> 'k \<Rightarrow> 'v option"
    and put :: "'k \<Rightarrow> 'v \<Rightarrow> 't \<Rightarrow> 't"
    and del :: "'k \<Rightarrow> 't \<Rightarrow> 't"
    and wf :: "'t \<Rightarrow> bool"
  assumes get_put: "get (put k v t) k' = (if k' = k then Some v else get t k')"
    and get_del: "get (del k t) k' = (if k' = k then None else get t k')"
    and wf_put: "wf t \<Longrightarrow> wf (put k v t)"
    and wf_del: "wf t \<Longrightarrow> wf (del k t)"
begin

lemma insert_then_remove: "get t k = None \<Longrightarrow> get (del k (put k v t)) = get t"
  by (auto simp: get_put get_del)

lemma remove_then_insert: "get t k = Some v \<Longrightarrow> get (put k v (del k t)) = get t"
  by (auto simp: get_put get_del)

lemma put_put: "get (put k v' (put k v t)) = get (put k v' t)"
  by (auto simp: get_put)

lemma lookup_other: "k' \<noteq> k \<Longrightarrow> get (put k v t) k' = get t k'"
  by (simp add: get_put)

lemma removed_is_absent: "get (del k t) k = None"
  by (simp add: get_del)

end

interpretation alt: keyed_tree tree_get tree_put tree_del tree_wf
  by unfold_locales auto

section \<open>The contract of a member list with rollback\<close>

text \<open>
  A loop that applies a step to each element until one fails; it returns how many succeeded.
\<close>

fun try_all :: "('a \<Rightarrow> 's \<Rightarrow> bool \<times> 's) \<Rightarrow> 'a list \<Rightarrow> 's \<Rightarrow> nat \<times> 's" where
  "try_all f [] s = (0, s)"
| "try_all f (x # xs) s =
     (let (ok, s) = f x s
      in if ok then (let (j, s) = try_all f xs s in (j + 1, s)) else (0, s))"

text \<open>
  The interface a client of a member list uses: adding may fail and then changes nothing, removing
  a member takes it out once. \<open>mem\<close> is the multiset the list stands for, \<open>cap\<close> bounds its size,
  \<open>can\<close> tells which elements may be added and \<open>frame\<close> what an operation leaves alone.
\<close>

locale member_list =
  fixes add :: "'a \<Rightarrow> 's \<Rightarrow> bool \<times> 's"
    and del :: "'a \<Rightarrow> 's \<Rightarrow> 's"
    and mem :: "'s \<Rightarrow> 'a multiset"
    and inv :: "'s \<Rightarrow> bool"
    and can :: "'a \<Rightarrow> 's \<Rightarrow> bool"
    and frame :: "'s \<Rightarrow> 's \<Rightarrow> bool"
    and cap :: nat
  assumes add: "inv s \<Longrightarrow> can a s \<Longrightarrow> size (mem s) + 1 < cap \<Longrightarrow> add a s = (ok, s') \<Longrightarrow>
      inv s' \<and> frame s s' \<and> mem s' = (if ok then add_mset a (mem s) else mem s)"
    and del: "inv s \<Longrightarrow> inv (del a s) \<and> frame s (del a s) \<and> mem (del a s) = mem s - {#a#}"
    and frame_refl: "frame s s"
    and frame_trans: "frame s s' \<Longrightarrow> frame s' s'' \<Longrightarrow> frame s s''"
    and can_frame: "frame s s' \<Longrightarrow> can a s' = can a s"
begin

lemma add_all:
  assumes "inv s" "\<And>a. a \<in> set as \<Longrightarrow> can a s" "size (mem s) + length as < cap"
    and "try_all add as s = (j, s')"
  shows "inv s' \<and> frame s s' \<and> j \<le> length as \<and> mem s' = mem s + mset (take j as)"
  using assms
proof (induction as arbitrary: s j s')
  case Nil
  then show ?case by (simp add: frame_refl)
next
  case (Cons a as)
  obtain ok s1 where s1: "add a s = (ok, s1)" by force
  have a: "inv s1" "frame s s1" "mem s1 = (if ok then add_mset a (mem s) else mem s)"
    using add [OF Cons.prems(1) _ _ s1] Cons.prems(2,3) by auto
  show ?case
  proof (cases ok)
    case False
    then show ?thesis using a s1 Cons.prems(4) by simp
  next
    case True
    obtain k s2 where s2: "try_all add as s1 = (k, s2)" by force
    have "inv s2 \<and> frame s1 s2 \<and> k \<le> length as \<and> mem s2 = mem s1 + mset (take k as)"
      using a True Cons.prems can_frame [OF a(2)] by (intro Cons.IH [OF _ _ _ s2]) auto
    then show ?thesis using a s1 s2 True Cons.prems(4) by (auto intro: frame_trans)
  qed
qed

text \<open>When no step fails the loop runs to the end.\<close>

lemma add_all_total:
  assumes "inv s" "\<And>a. a \<in> set as \<Longrightarrow> can a s" "size (mem s) + length as < cap"
    and "try_all add as s = (j, s')" and "\<And>a s. inv s \<Longrightarrow> can a s \<Longrightarrow> fst (add a s)"
  shows "j = length as"
  using assms(1-4)
proof (induction as arbitrary: s j s')
  case (Cons a as)
  obtain ok s1 where s1: "add a s = (ok, s1)" by force
  have ok using assms(5) [of s a] Cons.prems s1 by auto
  have a: "inv s1" "frame s s1" "mem s1 = add_mset a (mem s)"
    using add [OF Cons.prems(1) _ _ s1] Cons.prems(2,3) \<open>ok\<close> by auto
  obtain k s2 where s2: "try_all add as s1 = (k, s2)" by force
  have "k = length as"
    using a Cons.prems can_frame [OF a(2)] by (intro Cons.IH [OF _ _ _ s2]) auto
  then show ?case using s1 s2 \<open>ok\<close> Cons.prems(4) by auto
qed simp

lemma del_all:
  "inv s \<Longrightarrow> inv (fold del as s) \<and> frame s (fold del as s) \<and> mem (fold del as s) = mem s - mset as"
proof (induction as arbitrary: s)
  case Nil
  then show ?case by (simp add: frame_refl)
next
  case (Cons a as)
  from del [OF Cons.prems, of a] Cons.IH [of "del a s"] show ?case
    by (auto intro: frame_trans)
qed

text \<open>A client that undoes what it added is back at the members it started from.\<close>

lemma rollback:
  assumes "inv s" "\<And>a. a \<in> set as \<Longrightarrow> can a s" "size (mem s) + length as < cap"
    and "try_all add as s = (j, s')"
  shows "inv (fold del (take j as) s') \<and> frame s (fold del (take j as) s') \<and>
    mem (fold del (take j as) s') = mem s"
  using add_all [OF assms] del_all [of s' "take j as"] by (auto intro: frame_trans)

end

end
