(* ===== verification/Sai_Types.thy ===== *)
theory Sai_Types
  imports Prelude
begin

text \<open>
  The SAI types that several components share: object ids and their types, status codes. Both are
  declared in the SAI headers, which are not part of the repository; the constructors are the values
  the code names, and \<open>SAI_STATUS_CODE\<close> and \<open>SAI_OBJECT_TYPE\<close> stand for any other value.

  \<open>UNDEFINED_BEHAVIOUR\<close> is not a status. A call of the L3 component returns it when the code does
  something that C does not define on the way (it unlinks a node that is in no list, or writes past
  the end of an array): nothing is known of the state after such a call, and the runs of the component
  do not go on from it.
\<close>

type_synonym oid = u64
type_synonym vlan_id = u16
type_synonym mac = "48 word"
type_synonym addr = nat

datatype sai_status =
    SAI_STATUS_SUCCESS
  | SAI_STATUS_FAILURE
  | SAI_STATUS_NO_MEMORY
  | SAI_STATUS_NOT_SUPPORTED
  | SAI_STATUS_NOT_IMPLEMENTED
  | SAI_STATUS_INVALID_PARAMETER
  | SAI_STATUS_INVALID_OBJECT_TYPE
  | SAI_STATUS_INVALID_OBJECT_ID
  | SAI_STATUS_OBJECT_IN_USE
  | SAI_STATUS_INSUFFICIENT_RESOURCES
  | SAI_STATUS_ITEM_ALREADY_EXISTS
  | SAI_STATUS_ITEM_NOT_FOUND
  | SAI_STATUS_ADDR_NOT_FOUND
  | SAI_STATUS_MANDATORY_ATTRIBUTE_MISSING
  | SAI_STATUS_INVALID_ATTRIBUTE_0
  | SAI_STATUS_INVALID_ATTR_VALUE_0
  | SAI_STATUS_UNKNOWN_ATTRIBUTE_0
  | SAI_STATUS_BUFFER_OVERFLOW
  | SAI_STATUS_UNINITIALIZED
  | SAI_STATUS_INVALID_PORT_MEMBER
  | SAI_STATUS_INVALID_VLAN_ID
  | SAI_STATUS_ATTR_NOT_SUPPORTED_0
  | SAI_STATUS_TABLE_FULL
  | SAI_STATUS_CODE int
  | UNDEFINED_BEHAVIOUR

datatype sai_object_type =
    SAI_OBJECT_TYPE_PORT
  | SAI_OBJECT_TYPE_LAG
  | SAI_OBJECT_TYPE_VIRTUAL_ROUTER
  | SAI_OBJECT_TYPE_ROUTER_INTERFACE
  | SAI_OBJECT_TYPE_NEXT_HOP
  | SAI_OBJECT_TYPE_NEXT_HOP_GROUP
  | SAI_OBJECT_TYPE_UDF
  | SAI_OBJECT_TYPE_UDF_MATCH
  | SAI_OBJECT_TYPE_UDF_GROUP
  | SAI_OBJECT_TYPE_HASH
  | SAI_OBJECT_TYPE_STP_INSTANCE
  | SAI_OBJECT_TYPE_LAG_MEMBER
  | SAI_OBJECT_TYPE_MIRROR
  | SAI_OBJECT_TYPE_SAMPLEPACKET
  | SAI_OBJECT_TYPE_POLICER
  | SAI_OBJECT_TYPE_QUEUE
  | SAI_OBJECT_TYPE_PRIORITY_GROUP
  | SAI_OBJECT_TYPE int

abbreviation SAI_NULL_OBJECT_ID :: oid where
  "SAI_NULL_OBJECT_ID \<equiv> 0"

end
