(* ===== verification/Fib_Base.thy ===== *)
theory Fib_Base
  imports Sai_Types
begin

text \<open>
  The L3 forwarding database shared by the files of \<^verbatim>\<open>src/src/routing\<close>: the node types, the
  global configuration of trees, the method tables of the hardware layer, the allocators of
  \<^verbatim>\<open>sai_l3_mem.c\<close> and the inline helpers of \<^verbatim>\<open>src/inc/sai_l3_api_utils.h\<close>.

  The struct declarations are in headers of another repository; the records hold the fields the
  code under \<^verbatim>\<open>src\<close> reads or writes. Next hop nodes and next hop group nodes are shared by
  pointer, so they live in a heap indexed by addresses; virtual routers, router interfaces and
  routes are reached through their tree only and are stored there by value.
\<close>

section \<open>SAI types\<close>

datatype sai_packet_action =
    SAI_PACKET_ACTION_FORWARD
  | SAI_PACKET_ACTION_TRAP
  | SAI_PACKET_ACTION_LOG
  | SAI_PACKET_ACTION int

text \<open>An address of an unknown family carries no address the code reads.\<close>

datatype sai_ip_address = Ip4 u32 | Ip6 "128 word" | IpFamily int

datatype sai_next_hop_type = SAI_NEXT_HOP_IP | SAI_NEXT_HOP_TYPE int
datatype sai_next_hop_group_type = SAI_NEXT_HOP_GROUP_ECMP | SAI_NEXT_HOP_GROUP_TYPE int

datatype sai_rif_type =
    SAI_ROUTER_INTERFACE_TYPE_PORT
  | SAI_ROUTER_INTERFACE_TYPE_VLAN
  | SAI_FIB_RIF_TYPE_NONE
  | SAI_ROUTER_INTERFACE_TYPE int

datatype nh_owner = SAI_FIB_OWNER_NEXT_HOP | SAI_FIB_OWNER_NEIGHBOR

section \<open>Nodes\<close>

record nh_key =
  nk_type :: sai_next_hop_type
  nk_rif_id :: oid
  nk_ip_addr :: sai_ip_address

record nh_node =
  nh_key :: nh_key
  nh_next_hop_id :: oid
  nh_vrf_id :: oid
  nh_owner_flag :: u32
  nh_packet_action :: sai_packet_action
  nh_mac_addr :: mac
  nh_meta_data :: u32
  nh_no_host_route :: bool
  nh_port_id :: oid
  nh_ref_count :: u32
  nh_group_list :: "(addr, u32) tree"

record nh_group =
  grp_id :: oid
  grp_type :: sai_next_hop_group_type
  grp_nh_count :: u32
  grp_ref_count :: u32
  grp_nh_list :: "(addr, u32) tree"

text \<open>The forwarding object of a route: \<open>nh_type\<close> and the pointer of the union \<open>nh_info\<close>.\<close>

datatype route_nh = RouteNhNone | RouteNh addr | RouteNhGroup addr

text \<open>
  The key of a route is the address and the key length in bits: the radix library compares the family
  and the address up to that length and no further, so the key keeps those bits and clears the others.
  \<open>radix_route_key\<close> is the key a lookup or an insertion with an address and a prefix length denotes.
\<close>

type_synonym route_key = "sai_ip_address \<times> nat"

definition BITS_PER_BYTE :: nat where
  "BITS_PER_BYTE = 8"

definition addr_family_bytes :: nat where
  "addr_family_bytes = 4"

definition sai_fib_route_key_len_get :: "nat \<Rightarrow> nat" where
  "sai_fib_route_key_len_get prefix_len = addr_family_bytes * BITS_PER_BYTE + prefix_len"

definition radix_key :: "sai_ip_address \<Rightarrow> nat \<Rightarrow> route_key" where
  "radix_key ip key_len =
     (let n = key_len - addr_family_bytes * BITS_PER_BYTE
      in case ip of
        Ip4 a \<Rightarrow> (Ip4 (a AND NOT (mask (32 - n))), key_len)
      | Ip6 a \<Rightarrow> (Ip6 (a AND NOT (mask (128 - n))), key_len)
      | IpFamily f \<Rightarrow> (IpFamily f, key_len))"

definition radix_route_key :: "sai_ip_address \<Rightarrow> nat \<Rightarrow> route_key" where
  "radix_route_key ip prefix_len = radix_key ip (sai_fib_route_key_len_get prefix_len)"

record route_node =
  rt_vrf_id :: oid
  rt_prefix :: sai_ip_address
  rt_prefix_len :: nat
  rt_nh :: route_nh
  rt_packet_action :: sai_packet_action
  rt_trap_priority :: u8
  rt_meta_data :: u32

record vrf_node =
  vrf_id :: oid
  vrf_v4_admin_state :: bool
  vrf_v6_admin_state :: bool
  vrf_ip_options_pkt_action :: sai_packet_action
  vrf_ttl0_1_pkt_action :: sai_packet_action
  vrf_src_mac :: mac
  vrf_num_rif :: u32
  vrf_rif_list :: "oid list"
  vrf_nh_tree :: "(nh_key, addr) tree"
  vrf_route_tree :: "(route_key, route_node) tree"

record rif_node =
  rif_id :: oid
  rif_vrf_id :: oid
  rif_type :: sai_rif_type
  rif_port_id :: oid
  rif_vlan_id :: vlan_id
  rif_v4_admin_state :: bool
  rif_v6_admin_state :: bool
  rif_mtu :: u32
  rif_ip_options_pkt_action :: sai_packet_action
  rif_src_mac :: mac
  rif_ref_count :: u32

text \<open>
  The global configuration (\<open>sai_fib_access_global_config\<close>), the two heaps, and \<open>hw\<close>: the state
  of everything outside this code (the hardware, the allocator, the other modules). \<open>hw\<close> has an
  arbitrary type.
\<close>

record 'h fib =
  vrf_tree :: "(oid, vrf_node) tree"
  router_interface_tree :: "(oid, rif_node) tree"
  nh_id_tree :: "(oid, addr) tree"
  nh_group_tree :: "(oid, addr) tree"
  neighbor_mac_tree :: "(vlan_id \<times> mac, addr list) tree"
  nh_heap :: "(addr, nh_node) tree"
  grp_heap :: "(addr, nh_group) tree"
  next_addr :: addr
  max_ecmp_paths :: u32
  num_virtual_routers :: u32
  hw :: 'h

section \<open>Attributes\<close>

text \<open>
  An attribute is its id together with the member of the value union that the code reads for that
  id; an id the component does not know is the last constructor.
\<close>

datatype vr_attr =
    SAI_VIRTUAL_ROUTER_ATTR_SRC_MAC_ADDRESS mac
  | SAI_VIRTUAL_ROUTER_ATTR_ADMIN_V4_STATE bool
  | SAI_VIRTUAL_ROUTER_ATTR_ADMIN_V6_STATE bool
  | SAI_VIRTUAL_ROUTER_ATTR_VIOLATION_TTL1_ACTION sai_packet_action
  | SAI_VIRTUAL_ROUTER_ATTR_VIOLATION_IP_OPTIONS sai_packet_action
  | VR_ATTR_UNKNOWN int

datatype rif_attr =
    SAI_ROUTER_INTERFACE_ATTR_VIRTUAL_ROUTER_ID oid
  | SAI_ROUTER_INTERFACE_ATTR_TYPE sai_rif_type
  | SAI_ROUTER_INTERFACE_ATTR_PORT_ID oid
  | SAI_ROUTER_INTERFACE_ATTR_VLAN_ID vlan_id
  | SAI_ROUTER_INTERFACE_ATTR_SRC_MAC_ADDRESS mac
  | SAI_ROUTER_INTERFACE_ATTR_ADMIN_V4_STATE bool
  | SAI_ROUTER_INTERFACE_ATTR_ADMIN_V6_STATE bool
  | SAI_ROUTER_INTERFACE_ATTR_MTU u32
  | RIF_ATTR_UNKNOWN int

datatype nh_attr =
    SAI_NEXT_HOP_ATTR_TYPE sai_next_hop_type
  | SAI_NEXT_HOP_ATTR_IP sai_ip_address
  | SAI_NEXT_HOP_ATTR_ROUTER_INTERFACE_ID oid
  | NH_ATTR_UNKNOWN int

datatype nhg_attr =
    SAI_NEXT_HOP_GROUP_ATTR_TYPE sai_next_hop_group_type
  | SAI_NEXT_HOP_GROUP_ATTR_NEXT_HOP_LIST "oid list"
  | SAI_NEXT_HOP_GROUP_ATTR_NEXT_HOP_COUNT
  | NHG_ATTR_UNKNOWN int

datatype neighbor_attr =
    SAI_NEIGHBOR_ATTR_DST_MAC_ADDRESS mac
  | SAI_NEIGHBOR_ATTR_PACKET_ACTION sai_packet_action
  | SAI_NEIGHBOR_ATTR_NO_HOST_ROUTE bool
  | SAI_NEIGHBOR_ATTR_META_DATA u32
  | NEIGHBOR_ATTR_UNKNOWN int

datatype route_attr =
    SAI_ROUTE_ATTR_NEXT_HOP_ID oid
  | SAI_ROUTE_ATTR_PACKET_ACTION sai_packet_action
  | SAI_ROUTE_ATTR_TRAP_PRIORITY u8
  | SAI_ROUTE_ATTR_META_DATA u32
  | ROUTE_ATTR_UNKNOWN int

text \<open>The attribute flag words are sets of the flags that the code sets and tests.\<close>

datatype fib_attr_flag =
    SAI_FIB_SRC_MAC_ATTR_FLAG
  | SAI_FIB_V4_ADMIN_STATE_ATTR_FLAG
  | SAI_FIB_V6_ADMIN_STATE_ATTR_FLAG
  | SAI_FIB_TTL_VIOLATION_ATTR_FLAG
  | SAI_FIB_IP_OPTIONS_ATTR_FLAG
  | SAI_FIB_MTU_ATTR_FLAG
  | SAI_FIB_NEIGHBOR_DEST_MAC_ATTR_FLAG
  | SAI_FIB_NEIGHBOR_PKT_ACTION_ATTR_FLAG
  | SAI_FIB_NEIGHBOR_NO_HOST_ROUTE_ATTR_FLAG
  | SAI_FIB_NEIGHBOR_META_DATA_ATTR_FLAG
  | SAI_FIB_NEIGHBOR_PORT_ID_ATTR_FLAG

datatype sai_port_fwd_mode =
    SAI_PORT_FWD_MODE_UNKNOWN
  | SAI_PORT_FWD_MODE_SWITCHING
  | SAI_PORT_FWD_MODE_ROUTING

section \<open>The environment\<close>

text \<open>
  Code that is not under \<^verbatim>\<open>src\<close>. \<open>l3_util\<close> holds the pure utilities of the common library, and the
  remaining records are the method tables that \<open>sai_*_npu_api_get()\<close> returns, one per component:
  each call reads and changes \<open>hw\<close> and returns its status. A table entry gets what the code hands
  over; it does not change the software state.
\<close>

record l3_util =
  sai_object_type_query :: "oid \<Rightarrow> sai_object_type"
  sai_uoid_create :: "sai_object_type \<Rightarrow> u64 \<Rightarrow> oid"
  sai_fib_attr_status_code_get :: "sai_status \<Rightarrow> nat \<Rightarrow> sai_status"
  sai_packet_action_validate :: "sai_packet_action \<Rightarrow> bool"
  sai_fib_is_ip_addr_zero :: "sai_ip_address \<Rightarrow> bool"
  sai_fib_is_ip_addr_loopback :: "sai_ip_address \<Rightarrow> bool"
  sai_fib_ip_addr_copy :: "sai_ip_address \<Rightarrow> sai_ip_address \<Rightarrow> sai_status \<times> sai_ip_address"
  std_ip_v4_mask_to_prefix_len :: "u32 \<Rightarrow> nat"
  std_ip_v6_mask_to_prefix_len :: "128 word \<Rightarrow> nat"
  owner_bit :: "nh_owner \<Rightarrow> nat"
  sai_fib_is_owner_next_hop :: "u32 \<Rightarrow> bool"
  sai_fib_is_owner_neighbor :: "u32 \<Rightarrow> bool"
  sai_fib_get_vrf_node_for_rif ::
    "(oid, rif_node) tree \<Rightarrow> (oid, vrf_node) tree \<Rightarrow> oid \<Rightarrow> vrf_node option"
  sai_fib_ip_next_hop_node_get ::
    "(oid, rif_node) tree \<Rightarrow> (oid, vrf_node) tree \<Rightarrow> oid \<Rightarrow> sai_ip_address \<Rightarrow> addr option"
  sai_is_valid_vlan_id :: "vlan_id \<Rightarrow> bool"
  sai_fib_is_mac_address_zero :: "mac \<Rightarrow> bool"
  sai_fib_rif_is_node_info_duplicate :: "rif_node \<Rightarrow> rif_node \<Rightarrow> bool"
  sai_fib_rif_is_attachment_lag :: "rif_node \<Rightarrow> bool"
  SAI_FIB_V4_ADMIN_STATE_DFLT :: bool
  SAI_FIB_V6_ADMIN_STATE_DFLT :: bool
  SAI_FIB_IP_OPT_PKT_ACTION_DFLT :: sai_packet_action
  SAI_FIB_TTL_VIOLATION_PKT_ACTION_DFLT :: sai_packet_action
  SAI_FIB_MTU_DFLT :: u32

text \<open>
  Other modules and libraries: \<open>calloc\<close> (whether the allocation succeeds), the insertions and
  creations of the tree libraries (whether they succeed on a key that is not in the tree), ports,
  LAGs, VLANs, the L2 FDB.
\<close>

record 'h platform =
  calloc_ok :: "'h \<Rightarrow> bool \<times> 'h"
  std_rbtree_insert_ok :: "'h \<Rightarrow> bool \<times> 'h"
  std_radix_insert_ok :: "'h \<Rightarrow> bool \<times> 'h"
  std_radix_create_ok :: "'h \<Rightarrow> bool \<times> 'h"
  sai_switch_mac_address_get :: "'h \<Rightarrow> mac"
  sai_switch_cpu_port_obj_id_get :: "'h \<Rightarrow> oid"
  sai_is_port_valid :: "oid \<Rightarrow> 'h \<Rightarrow> bool"
  sai_is_lag_created :: "oid \<Rightarrow> 'h \<Rightarrow> bool"
  sai_is_vlan_created :: "vlan_id \<Rightarrow> 'h \<Rightarrow> bool"
  sai_port_forward_mode_get :: "oid \<Rightarrow> 'h \<Rightarrow> (sai_status \<times> sai_port_fwd_mode) \<times> 'h"
  sai_port_forward_mode_set :: "oid \<Rightarrow> sai_port_fwd_mode \<Rightarrow> 'h \<Rightarrow> sai_status \<times> 'h"
  sai_lag_port_count_get :: "oid \<Rightarrow> 'h \<Rightarrow> (sai_status \<times> nat) \<times> 'h"
  sai_lag_port_list_get :: "oid \<Rightarrow> nat \<Rightarrow> 'h \<Rightarrow> (sai_status \<times> oid list) \<times> 'h"
  sai_lag_update_rif_id :: "oid \<Rightarrow> oid \<Rightarrow> 'h \<Rightarrow> 'h"
  get_fdb_entry_port :: "vlan_id \<Rightarrow> mac \<Rightarrow> 'h \<Rightarrow> (sai_status \<times> oid) \<times> 'h"
  sai_l2_register_fdb_entry :: "vlan_id \<Rightarrow> mac \<Rightarrow> 'h \<Rightarrow> sai_status \<times> 'h"
  sai_l2_deregister_fdb_entry :: "vlan_id \<Rightarrow> mac \<Rightarrow> 'h \<Rightarrow> sai_status \<times> 'h"
  route_meta_data_range :: "'h \<Rightarrow> (sai_status \<times> u32 \<times> u32) \<times> 'h"
  neighbor_meta_data_range :: "'h \<Rightarrow> (sai_status \<times> u32 \<times> u32) \<times> 'h"

record 'h router_npu_api =
  vr_create :: "vrf_node \<Rightarrow> 'h \<Rightarrow> (sai_status \<times> u64) \<times> 'h"
  vr_remove :: "vrf_node \<Rightarrow> 'h \<Rightarrow> sai_status \<times> 'h"
  vr_attr_validate :: "vr_attr \<Rightarrow> 'h \<Rightarrow> sai_status \<times> 'h"
  vr_attr_set :: "vrf_node \<Rightarrow> fib_attr_flag set \<Rightarrow> 'h \<Rightarrow> sai_status \<times> 'h"
  vr_attr_get :: "vrf_node \<Rightarrow> nat \<Rightarrow> 'h \<Rightarrow> (sai_status \<times> vr_attr list) \<times> 'h"
  ecmp_max_paths_set :: "u32 \<Rightarrow> 'h \<Rightarrow> sai_status \<times> 'h"

record 'h rif_npu_api =
  rif_create :: "rif_node \<Rightarrow> 'h \<Rightarrow> (sai_status \<times> u64) \<times> 'h"
  rif_remove :: "rif_node \<Rightarrow> 'h \<Rightarrow> sai_status \<times> 'h"
  rif_attr_validate :: "sai_rif_type \<Rightarrow> rif_attr \<Rightarrow> 'h \<Rightarrow> sai_status \<times> 'h"
  rif_attr_set :: "rif_node \<Rightarrow> fib_attr_flag set \<Rightarrow> 'h \<Rightarrow> sai_status \<times> 'h"
  rif_attr_get :: "rif_node \<Rightarrow> nat \<Rightarrow> 'h \<Rightarrow> (sai_status \<times> rif_attr list) \<times> 'h"
  rif_lag_member_update :: "rif_node \<Rightarrow> oid list \<Rightarrow> bool \<Rightarrow> 'h \<Rightarrow> sai_status \<times> 'h"

record 'h nexthop_npu_api =
  nexthop_create :: "nh_node \<Rightarrow> 'h \<Rightarrow> (sai_status \<times> u64) \<times> 'h"
  nexthop_remove :: "nh_node \<Rightarrow> 'h \<Rightarrow> sai_status \<times> 'h"
  nexthop_attribute_get :: "nh_node \<Rightarrow> nat \<Rightarrow> 'h \<Rightarrow> (sai_status \<times> nh_attr list) \<times> 'h"

record 'h nh_group_npu_api =
  nh_group_create :: "nh_group \<Rightarrow> u32 \<Rightarrow> addr list \<Rightarrow> 'h \<Rightarrow> (sai_status \<times> u64) \<times> 'h"
  nh_group_remove :: "nh_group \<Rightarrow> 'h \<Rightarrow> sai_status \<times> 'h"
  add_nh_to_group :: "nh_group \<Rightarrow> u32 \<Rightarrow> addr list \<Rightarrow> 'h \<Rightarrow> sai_status \<times> 'h"
  remove_nh_from_group :: "nh_group \<Rightarrow> u32 \<Rightarrow> addr list \<Rightarrow> 'h \<Rightarrow> sai_status \<times> 'h"
  nh_group_attr_get :: "nh_group \<Rightarrow> nat \<Rightarrow> 'h \<Rightarrow> (sai_status \<times> nhg_attr list) \<times> 'h"

record 'h neighbor_npu_api =
  neighbor_create :: "nh_node \<Rightarrow> 'h \<Rightarrow> sai_status \<times> 'h"
  neighbor_remove :: "nh_node \<Rightarrow> 'h \<Rightarrow> sai_status \<times> 'h"
  neighbor_attr_set :: "nh_node \<Rightarrow> fib_attr_flag set \<Rightarrow> 'h \<Rightarrow> sai_status \<times> 'h"
  neighbor_attr_get :: "nh_node \<Rightarrow> nat \<Rightarrow> 'h \<Rightarrow> (sai_status \<times> neighbor_attr list) \<times> 'h"

record 'h route_npu_api =
  route_create :: "route_node \<Rightarrow> 'h \<Rightarrow> sai_status \<times> 'h"
  route_remove :: "route_node \<Rightarrow> 'h \<Rightarrow> sai_status \<times> 'h"
  route_attr_get :: "route_node \<Rightarrow> nat \<Rightarrow> 'h \<Rightarrow> (sai_status \<times> route_attr list) \<times> 'h"

record 'h l3_env =
  util :: l3_util
  plat :: "'h platform"
  router_npu :: "'h router_npu_api"
  rif_npu :: "'h rif_npu_api"
  nexthop_npu :: "'h nexthop_npu_api"
  nh_group_npu :: "'h nh_group_npu_api"
  neighbor_npu :: "'h neighbor_npu_api"
  route_npu :: "'h route_npu_api"

abbreviation is_obj_id :: "'h l3_env \<Rightarrow> sai_object_type \<Rightarrow> oid \<Rightarrow> bool" where
  "is_obj_id e ty x \<equiv> sai_object_type_query (util e) x = ty"

text \<open>A call outside this code runs on \<open>hw\<close> and leaves the rest of the state alone.\<close>

definition hw_call :: "('h \<Rightarrow> 'a \<times> 'h) \<Rightarrow> 'h fib \<Rightarrow> 'a \<times> 'h fib" where
  "hw_call f s = (let (r, h) = f (hw s) in (r, s\<lparr>hw := h\<rparr>))"

lemma hw_call_eqD: "hw_call f s = (r, s') \<Longrightarrow> \<exists>h. f (hw s) = (r, h) \<and> s' = s\<lparr>hw := h\<rparr>"
  by (auto simp: hw_call_def split: prod.splits)

section \<open>Lookups and in-place updates of nodes\<close>

abbreviation vrf_at :: "'h fib \<Rightarrow> oid \<Rightarrow> vrf_node option" where
  "vrf_at s i \<equiv> tree_get (vrf_tree s) i"

abbreviation rif_at :: "'h fib \<Rightarrow> oid \<Rightarrow> rif_node option" where
  "rif_at s i \<equiv> tree_get (router_interface_tree s) i"

abbreviation nh_at :: "'h fib \<Rightarrow> addr \<Rightarrow> nh_node option" where
  "nh_at s a \<equiv> tree_get (nh_heap s) a"

abbreviation grp_at :: "'h fib \<Rightarrow> addr \<Rightarrow> nh_group option" where
  "grp_at s g \<equiv> tree_get (grp_heap s) g"

definition set_nh :: "addr \<Rightarrow> nh_node \<Rightarrow> 'h fib \<Rightarrow> 'h fib" where
  "set_nh a n s = s\<lparr>nh_heap := tree_put a n (nh_heap s)\<rparr>"

definition set_grp :: "addr \<Rightarrow> nh_group \<Rightarrow> 'h fib \<Rightarrow> 'h fib" where
  "set_grp g n s = s\<lparr>grp_heap := tree_put g n (grp_heap s)\<rparr>"

definition set_vrf :: "oid \<Rightarrow> vrf_node \<Rightarrow> 'h fib \<Rightarrow> 'h fib" where
  "set_vrf i v s = s\<lparr>vrf_tree := tree_put i v (vrf_tree s)\<rparr>"

definition set_rif :: "oid \<Rightarrow> rif_node \<Rightarrow> 'h fib \<Rightarrow> 'h fib" where
  "set_rif i r s = s\<lparr>router_interface_tree := tree_put i r (router_interface_tree s)\<rparr>"

lemmas set_defs = set_nh_def set_grp_def set_vrf_def set_rif_def

text \<open>
  Two lookups of the common library that go through more than one tree. What they return is part of
  \<open>util_ok\<close>: the virtual router that a router interface belongs to, and the node that the next hop
  tree of that virtual router has for the key made of the interface and the address.
\<close>

definition vrf_for_rif :: "l3_util \<Rightarrow> 'h fib \<Rightarrow> oid \<Rightarrow> vrf_node option" where
  "vrf_for_rif u s r = sai_fib_get_vrf_node_for_rif u (router_interface_tree s) (vrf_tree s) r"

definition ip_next_hop_node_get :: "l3_util \<Rightarrow> 'h fib \<Rightarrow> oid \<Rightarrow> sai_ip_address \<Rightarrow> addr option" where
  "ip_next_hop_node_get u s r ip =
     sai_fib_ip_next_hop_node_get u (router_interface_tree s) (vrf_tree s) r ip"

section \<open>Allocators (sai\_l3\_mem.c)\<close>

text \<open>\<open>calloc\<close> returns a fresh zeroed node or NULL; zero reads as the raw zero of each enum.\<close>

definition nh_zero :: nh_node where
  "nh_zero =
     \<lparr>nh_key = \<lparr>nk_type = SAI_NEXT_HOP_TYPE 0, nk_rif_id = 0, nk_ip_addr = IpFamily 0\<rparr>,
      nh_next_hop_id = 0, nh_vrf_id = 0, nh_owner_flag = 0,
      nh_packet_action = SAI_PACKET_ACTION 0, nh_mac_addr = 0, nh_meta_data = 0,
      nh_no_host_route = False, nh_port_id = 0, nh_ref_count = 0, nh_group_list = []\<rparr>"

definition grp_zero :: nh_group where
  "grp_zero = \<lparr>grp_id = 0, grp_type = SAI_NEXT_HOP_GROUP_TYPE 0, grp_nh_count = 0,
               grp_ref_count = 0, grp_nh_list = []\<rparr>"

definition vrf_zero :: vrf_node where
  "vrf_zero =
     \<lparr>vrf_id = 0, vrf_v4_admin_state = False, vrf_v6_admin_state = False,
      vrf_ip_options_pkt_action = SAI_PACKET_ACTION 0,
      vrf_ttl0_1_pkt_action = SAI_PACKET_ACTION 0, vrf_src_mac = 0, vrf_num_rif = 0,
      vrf_rif_list = [], vrf_nh_tree = [], vrf_route_tree = []\<rparr>"

definition rif_zero :: rif_node where
  "rif_zero =
     \<lparr>rif_id = 0, rif_vrf_id = 0, rif_type = SAI_ROUTER_INTERFACE_TYPE 0, rif_port_id = 0,
      rif_vlan_id = 0, rif_v4_admin_state = False, rif_v6_admin_state = False, rif_mtu = 0,
      rif_ip_options_pkt_action = SAI_PACKET_ACTION 0, rif_src_mac = 0, rif_ref_count = 0\<rparr>"

definition route_zero :: route_node where
  "route_zero =
     \<lparr>rt_vrf_id = 0, rt_prefix = IpFamily 0, rt_prefix_len = 0, rt_nh = RouteNhNone,
      rt_packet_action = SAI_PACKET_ACTION 0, rt_trap_priority = 0, rt_meta_data = 0\<rparr>"

definition sai_fib_vrf_node_alloc :: "'h l3_env \<Rightarrow> 'h fib \<Rightarrow> vrf_node option \<times> 'h fib" where
  "sai_fib_vrf_node_alloc e s =
     (let (ok, s) = hw_call (calloc_ok (plat e)) s in (if ok then Some vrf_zero else None, s))"

definition sai_fib_rif_node_alloc :: "'h l3_env \<Rightarrow> 'h fib \<Rightarrow> rif_node option \<times> 'h fib" where
  "sai_fib_rif_node_alloc e s =
     (let (ok, s) = hw_call (calloc_ok (plat e)) s in (if ok then Some rif_zero else None, s))"

definition sai_fib_route_node_alloc :: "'h l3_env \<Rightarrow> 'h fib \<Rightarrow> route_node option \<times> 'h fib" where
  "sai_fib_route_node_alloc e s =
     (let (ok, s) = hw_call (calloc_ok (plat e)) s in (if ok then Some route_zero else None, s))"

definition sai_fib_nh_node_alloc :: "'h l3_env \<Rightarrow> 'h fib \<Rightarrow> addr option \<times> 'h fib" where
  "sai_fib_nh_node_alloc e s =
     (let (ok, s) = hw_call (calloc_ok (plat e)) s
      in if ok then (Some (next_addr s), set_nh (next_addr s) nh_zero (s\<lparr>next_addr := next_addr s + 1\<rparr>))
         else (None, s))"

definition sai_fib_nh_node_free :: "addr \<Rightarrow> 'h fib \<Rightarrow> 'h fib" where
  "sai_fib_nh_node_free a s = s\<lparr>nh_heap := tree_del a (nh_heap s)\<rparr>"

definition sai_fib_nh_group_node_alloc :: "'h l3_env \<Rightarrow> 'h fib \<Rightarrow> addr option \<times> 'h fib" where
  "sai_fib_nh_group_node_alloc e s =
     (let (ok, s) = hw_call (calloc_ok (plat e)) s
      in if ok then (Some (next_addr s), set_grp (next_addr s) grp_zero (s\<lparr>next_addr := next_addr s + 1\<rparr>))
         else (None, s))"

definition sai_fib_nh_group_node_free :: "addr \<Rightarrow> 'h fib \<Rightarrow> 'h fib" where
  "sai_fib_nh_group_node_free g s = s\<lparr>grp_heap := tree_del g (grp_heap s)\<rparr>"

text \<open>A link node is zeroed; only whether it could be allocated matters to its user.\<close>

definition sai_fib_weighted_link_node_alloc :: "'h l3_env \<Rightarrow> 'h fib \<Rightarrow> u32 option \<times> 'h fib" where
  "sai_fib_weighted_link_node_alloc e s =
     (let (ok, s) = hw_call (calloc_ok (plat e)) s in (if ok then Some 0 else None, s))"

definition sai_fib_neighbor_mac_entry_node_alloc :: "'h l3_env \<Rightarrow> 'h fib \<Rightarrow> bool \<times> 'h fib" where
  "sai_fib_neighbor_mac_entry_node_alloc e s = hw_call (calloc_ok (plat e)) s"

text \<open>
  Inserting a key in a tree: the library may fail, and a key that is in the tree is never
  inserted a second time. The caller puts the node when the answer is yes.
\<close>

definition rbtree_insert_ok :: "'h l3_env \<Rightarrow> ('k, 'v) tree \<Rightarrow> 'k \<Rightarrow> 'h fib \<Rightarrow> bool \<times> 'h fib" where
  "rbtree_insert_ok e t k s =
     (let (ok, s) = hw_call (std_rbtree_insert_ok (plat e)) s in (ok \<and> tree_get t k = None, s))"

definition radix_insert_ok :: "'h l3_env \<Rightarrow> ('k, 'v) tree \<Rightarrow> 'k \<Rightarrow> 'h fib \<Rightarrow> bool \<times> 'h fib" where
  "radix_insert_ok e t k s =
     (let (ok, s) = hw_call (std_radix_insert_ok (plat e)) s in (ok \<and> tree_get t k = None, s))"

section \<open>Owner flags (sai\_l3\_api\_utils.h)\<close>

definition sai_fib_set_next_hop_owner :: "l3_util \<Rightarrow> nh_owner \<Rightarrow> nh_node \<Rightarrow> nh_node" where
  "sai_fib_set_next_hop_owner u f n =
     n\<lparr>nh_owner_flag := nh_owner_flag n OR push_bit (owner_bit u f) 1\<rparr>"

definition sai_fib_reset_next_hop_owner :: "l3_util \<Rightarrow> nh_owner \<Rightarrow> nh_node \<Rightarrow> nh_node" where
  "sai_fib_reset_next_hop_owner u f n =
     n\<lparr>nh_owner_flag := nh_owner_flag n AND NOT (push_bit (owner_bit u f) 1)\<rparr>"

text \<open>Testing one owner: \<open>sai_fib_is_owner_next_hop\<close> and \<open>sai_fib_is_owner_neighbor\<close>.\<close>

definition is_owner :: "l3_util \<Rightarrow> nh_owner \<Rightarrow> nh_node \<Rightarrow> bool" where
  "is_owner u f n =
     (case f of SAI_FIB_OWNER_NEXT_HOP \<Rightarrow> sai_fib_is_owner_next_hop u (nh_owner_flag n)
      | SAI_FIB_OWNER_NEIGHBOR \<Rightarrow> sai_fib_is_owner_neighbor u (nh_owner_flag n))"

text \<open>No bit but those of the two owners is ever set.\<close>

definition owner_bits_ok :: "l3_util \<Rightarrow> nh_node \<Rightarrow> bool" where
  "owner_bits_ok u n \<longleftrightarrow>
     (\<forall>k < 32. bit (nh_owner_flag n) k \<longrightarrow>
        k = owner_bit u SAI_FIB_OWNER_NEXT_HOP \<or> k = owner_bit u SAI_FIB_OWNER_NEIGHBOR)"

text \<open>
  What the code relies on in code it does not contain: the two owners have different bits of the
  32-bit flag word, and the owner tests test them; the index of an attribute never turns its error
  into success; copying an address that is IPv4 or IPv6 copies it; two interface nodes whose
  information is duplicate agree on the settable attributes; the two lookups above return what the
  trees hold.
\<close>

definition util_ok :: "l3_util \<Rightarrow> bool" where
  "util_ok u \<longleftrightarrow>
     owner_bit u SAI_FIB_OWNER_NEXT_HOP \<noteq> owner_bit u SAI_FIB_OWNER_NEIGHBOR \<and>
     owner_bit u SAI_FIB_OWNER_NEXT_HOP < 32 \<and> owner_bit u SAI_FIB_OWNER_NEIGHBOR < 32 \<and>
     (\<forall>st i. st \<noteq> SAI_STATUS_SUCCESS \<longrightarrow> sai_fib_attr_status_code_get u st i \<noteq> SAI_STATUS_SUCCESS) \<and>
     (\<forall>d w. sai_fib_ip_addr_copy u d (Ip4 w) = (SAI_STATUS_SUCCESS, Ip4 w)) \<and>
     (\<forall>d w. sai_fib_ip_addr_copy u d (Ip6 w) = (SAI_STATUS_SUCCESS, Ip6 w)) \<and>
     (\<forall>a b. sai_fib_rif_is_node_info_duplicate u a b \<longrightarrow>
        rif_src_mac a = rif_src_mac b \<and> rif_v4_admin_state a = rif_v4_admin_state b \<and>
        rif_v6_admin_state a = rif_v6_admin_state b \<and> rif_mtu a = rif_mtu b) \<and>
     (\<forall>f. sai_fib_is_owner_next_hop u f = bit f (owner_bit u SAI_FIB_OWNER_NEXT_HOP)) \<and>
     (\<forall>f. sai_fib_is_owner_neighbor u f = bit f (owner_bit u SAI_FIB_OWNER_NEIGHBOR)) \<and>
     (\<forall>R V r. sai_fib_get_vrf_node_for_rif u R V r =
        (case tree_get R r of None \<Rightarrow> None | Some rif \<Rightarrow> tree_get V (rif_vrf_id rif))) \<and>
     (\<forall>R V r ip. sai_fib_ip_next_hop_node_get u R V r ip =
        (case tree_get R r of
           None \<Rightarrow> None
         | Some rif \<Rightarrow>
             (case tree_get V (rif_vrf_id rif) of
                None \<Rightarrow> None
              | Some v \<Rightarrow> tree_get (vrf_nh_tree v)
                  \<lparr>nk_type = SAI_NEXT_HOP_IP, nk_rif_id = r, nk_ip_addr = ip\<rparr>)))"

lemma is_owner_bit: "util_ok u \<Longrightarrow> is_owner u f n = bit (nh_owner_flag n) (owner_bit u f)"
  by (cases f) (simp_all add: util_ok_def is_owner_def)

lemma vrf_for_rif_eq:
  "util_ok u \<Longrightarrow> vrf_for_rif u s r =
     (case rif_at s r of None \<Rightarrow> None | Some rif \<Rightarrow> vrf_at s (rif_vrf_id rif))"
  by (simp add: util_ok_def vrf_for_rif_def)

lemma ip_next_hop_node_get_eq:
  "util_ok u \<Longrightarrow> ip_next_hop_node_get u s r ip =
     (case vrf_for_rif u s r of
        None \<Rightarrow> None
      | Some v \<Rightarrow> tree_get (vrf_nh_tree v)
          \<lparr>nk_type = SAI_NEXT_HOP_IP, nk_rif_id = r, nk_ip_addr = ip\<rparr>)"
  by (simp add: util_ok_def vrf_for_rif_def ip_next_hop_node_get_def split: option.splits)

lemma ip_addr_copy_eq:
  "util_ok u \<Longrightarrow> sai_fib_ip_addr_copy u d ip = (SAI_STATUS_SUCCESS, ip) \<or> (\<exists>f. ip = IpFamily f)"
  by (cases ip) (simp_all add: util_ok_def)

lemma util_ok_status [simp]:
  "util_ok u \<Longrightarrow> st \<noteq> SAI_STATUS_SUCCESS \<Longrightarrow> sai_fib_attr_status_code_get u st i \<noteq> SAI_STATUS_SUCCESS"
  by (simp add: util_ok_def)

lemma owner_bit_less [simp]: "util_ok u \<Longrightarrow> owner_bit u f < 32"
  by (cases f; unfold util_ok_def; blast)

lemma owner_bit_inj [simp]: "util_ok u \<Longrightarrow> owner_bit u f = owner_bit u g \<longleftrightarrow> f = g"
  by (cases f; cases g; unfold util_ok_def; metis)

lemma bit_flag [simp]: "bit (2 ^ k :: u32) j \<longleftrightarrow> j = k \<and> k < 32"
  by (auto simp: bit_exp_iff)

lemma is_owner_set [simp]:
  "util_ok u \<Longrightarrow> is_owner u f (sai_fib_set_next_hop_owner u g n) \<longleftrightarrow> f = g \<or> is_owner u f n"
  by (auto simp: is_owner_bit sai_fib_set_next_hop_owner_def bit_or_iff)

lemma is_owner_reset [simp]:
  "util_ok u \<Longrightarrow> is_owner u f (sai_fib_reset_next_hop_owner u g n) \<longleftrightarrow> f \<noteq> g \<and> is_owner u f n"
  by (auto simp: is_owner_bit sai_fib_reset_next_hop_owner_def bit_and_iff bit_not_iff)

lemma owner_bits_ok_set [simp]:
  "util_ok u \<Longrightarrow> owner_bits_ok u n \<Longrightarrow> owner_bits_ok u (sai_fib_set_next_hop_owner u g n)"
  by (cases g) (auto simp: owner_bits_ok_def sai_fib_set_next_hop_owner_def bit_or_iff)

lemma owner_bits_ok_reset [simp]:
  "util_ok u \<Longrightarrow> owner_bits_ok u n \<Longrightarrow> owner_bits_ok u (sai_fib_reset_next_hop_owner u g n)"
  by (auto simp: owner_bits_ok_def sai_fib_reset_next_hop_owner_def bit_and_iff)

lemma owner_flag_zero_iff:
  assumes "util_ok u" "owner_bits_ok u n"
  shows "nh_owner_flag n = 0 \<longleftrightarrow>
    \<not> is_owner u SAI_FIB_OWNER_NEXT_HOP n \<and> \<not> is_owner u SAI_FIB_OWNER_NEIGHBOR n"
proof
  assume no: "\<not> is_owner u SAI_FIB_OWNER_NEXT_HOP n \<and> \<not> is_owner u SAI_FIB_OWNER_NEIGHBOR n"
  show "nh_owner_flag n = 0"
  proof (rule bit_word_eqI)
    fix k assume "k < LENGTH(32)"
    with no assms show "bit (nh_owner_flag n) k = bit (0 :: u32) k"
      by (auto simp: owner_bits_ok_def is_owner_bit)
  qed
qed (use assms in \<open>simp add: is_owner_bit\<close>)

lemma owner_sel [simp]:
  "nh_key (sai_fib_set_next_hop_owner u f n) = nh_key n"
  "nh_key (sai_fib_reset_next_hop_owner u f n) = nh_key n"
  "nh_vrf_id (sai_fib_set_next_hop_owner u f n) = nh_vrf_id n"
  "nh_vrf_id (sai_fib_reset_next_hop_owner u f n) = nh_vrf_id n"
  "nh_next_hop_id (sai_fib_set_next_hop_owner u f n) = nh_next_hop_id n"
  "nh_next_hop_id (sai_fib_reset_next_hop_owner u f n) = nh_next_hop_id n"
  "nh_ref_count (sai_fib_set_next_hop_owner u f n) = nh_ref_count n"
  "nh_ref_count (sai_fib_reset_next_hop_owner u f n) = nh_ref_count n"
  "nh_group_list (sai_fib_set_next_hop_owner u f n) = nh_group_list n"
  "nh_group_list (sai_fib_reset_next_hop_owner u f n) = nh_group_list n"
  "nh_mac_addr (sai_fib_set_next_hop_owner u f n) = nh_mac_addr n"
  "nh_mac_addr (sai_fib_reset_next_hop_owner u f n) = nh_mac_addr n"
  "nh_port_id (sai_fib_set_next_hop_owner u f n) = nh_port_id n"
  "nh_port_id (sai_fib_reset_next_hop_owner u f n) = nh_port_id n"
  by (simp_all add: sai_fib_set_next_hop_owner_def sai_fib_reset_next_hop_owner_def)

lemma is_owner_upd [simp]:
  "is_owner u f (n\<lparr>nh_next_hop_id := a\<rparr>) = is_owner u f n"
  "is_owner u f (n\<lparr>nh_ref_count := b\<rparr>) = is_owner u f n"
  "is_owner u f (n\<lparr>nh_group_list := c\<rparr>) = is_owner u f n"
  "is_owner u f (n\<lparr>nh_mac_addr := d\<rparr>) = is_owner u f n"
  "is_owner u f (n\<lparr>nh_port_id := p\<rparr>) = is_owner u f n"
  "is_owner u f (n\<lparr>nh_packet_action := k\<rparr>) = is_owner u f n"
  "is_owner u f (n\<lparr>nh_meta_data := m\<rparr>) = is_owner u f n"
  by (simp_all add: is_owner_def split: nh_owner.splits)

lemma owner_bits_ok_upd [simp]:
  "owner_bits_ok u (n\<lparr>nh_next_hop_id := a\<rparr>) = owner_bits_ok u n"
  "owner_bits_ok u (n\<lparr>nh_ref_count := b\<rparr>) = owner_bits_ok u n"
  "owner_bits_ok u (n\<lparr>nh_group_list := c\<rparr>) = owner_bits_ok u n"
  "owner_bits_ok u (n\<lparr>nh_mac_addr := d\<rparr>) = owner_bits_ok u n"
  "owner_bits_ok u (n\<lparr>nh_port_id := p\<rparr>) = owner_bits_ok u n"
  "owner_bits_ok u (n\<lparr>nh_packet_action := k\<rparr>) = owner_bits_ok u n"
  "owner_bits_ok u (n\<lparr>nh_meta_data := m\<rparr>) = owner_bits_ok u n"
  by (simp_all add: owner_bits_ok_def)

section \<open>What an external call can change\<close>

definition hw_only :: "'h fib \<Rightarrow> 'h fib \<Rightarrow> bool" where
  "hw_only s s' \<longleftrightarrow> (\<exists>h. s' = s\<lparr>hw := h\<rparr>)"

lemma hw_only_refl [simp]: "hw_only s s"
  by (auto simp: hw_only_def intro: exI [where x = "hw s"])

lemma hw_only_upd [simp]: "hw_only s (s\<lparr>hw := h\<rparr>)"
  by (auto simp: hw_only_def)

lemma hw_only_trans: "hw_only s s' \<Longrightarrow> hw_only s' s'' \<Longrightarrow> hw_only s s''"
  by (auto simp: hw_only_def)

lemma hw_call_only: "hw_call f s = (r, s') \<Longrightarrow> hw_only s s'"
  by (auto simp: hw_only_def dest: hw_call_eqD)

lemma hw_only_sel:
  assumes "hw_only s s'"
  shows "vrf_tree s' = vrf_tree s" "router_interface_tree s' = router_interface_tree s"
    "nh_id_tree s' = nh_id_tree s" "nh_group_tree s' = nh_group_tree s"
    "neighbor_mac_tree s' = neighbor_mac_tree s" "nh_heap s' = nh_heap s" "grp_heap s' = grp_heap s"
    "next_addr s' = next_addr s" "max_ecmp_paths s' = max_ecmp_paths s"
    "num_virtual_routers s' = num_virtual_routers s"
  using assms by (auto simp: hw_only_def)

end
