(* ===== verification/Fib_Inv.thy ===== *)
theory Fib_Inv
  imports Fib_Base
begin

text \<open>
  Well-formedness of the L3 database and how the primitive updates keep it. Every counter the code
  maintains is tied to what it counts: the reference count of a router interface to the next hop
  nodes on it, that of a next hop or group to the routes that forward to it, the number of next hops
  of a group to the sum of its weights, the number of interfaces of a virtual router to its list.
  Every pointer held by a tree, a list or a route has a node.
\<close>

section \<open>What the counters count\<close>

definition rif_refs :: "'h fib \<Rightarrow> oid \<Rightarrow> nat" where
  "rif_refs s r = asum (\<lambda>n. if nk_rif_id (nh_key n) = r then 1 else 0) (nh_heap s)"

definition vrf_route_refs :: "route_nh \<Rightarrow> vrf_node \<Rightarrow> nat" where
  "vrf_route_refs t v = asum (\<lambda>r. if rt_nh r = t then 1 else 0) (vrf_route_tree v)"

definition route_refs :: "'h fib \<Rightarrow> route_nh \<Rightarrow> nat" where
  "route_refs s t = asum (vrf_route_refs t) (vrf_tree s)"

definition total_routes :: "'h fib \<Rightarrow> nat" where
  "total_routes s = asum (\<lambda>v. length (vrf_route_tree v)) (vrf_tree s)"

definition group_weight :: "nh_group \<Rightarrow> nat" where
  "group_weight p = asum unat (grp_nh_list p)"

text \<open>The weight of the link from group \<open>g\<close> to next hop \<open>a\<close>, seen from either side.\<close>

definition grp_link :: "'h fib \<Rightarrow> addr \<Rightarrow> addr \<Rightarrow> u32 option" where
  "grp_link s g a = (case grp_at s g of None \<Rightarrow> None | Some p \<Rightarrow> tree_get (grp_nh_list p) a)"

definition nh_link :: "'h fib \<Rightarrow> addr \<Rightarrow> addr \<Rightarrow> u32 option" where
  "nh_link s a g = (case nh_at s a of None \<Rightarrow> None | Some n \<Rightarrow> tree_get (nh_group_list n) g)"

section \<open>The invariant\<close>

definition trees_ok :: "'h fib \<Rightarrow> bool" where
  "trees_ok s \<longleftrightarrow>
     tree_wf (vrf_tree s) \<and> tree_wf (router_interface_tree s) \<and> tree_wf (nh_id_tree s) \<and>
     tree_wf (nh_group_tree s) \<and> tree_wf (neighbor_mac_tree s) \<and> tree_wf (nh_heap s) \<and>
     tree_wf (grp_heap s) \<and>
     (\<forall>i v. vrf_at s i = Some v \<longrightarrow> tree_wf (vrf_nh_tree v) \<and> tree_wf (vrf_route_tree v)) \<and>
     (\<forall>a n. nh_at s a = Some n \<longrightarrow> a < next_addr s \<and> tree_wf (nh_group_list n)) \<and>
     (\<forall>g p. grp_at s g = Some p \<longrightarrow> g < next_addr s \<and> tree_wf (grp_nh_list p))"

definition vrf_ok :: "'h fib \<Rightarrow> bool" where
  "vrf_ok s \<longleftrightarrow>
     (\<forall>i v. vrf_at s i = Some v \<longrightarrow>
        vrf_id v = i \<and> vrf_num_rif v = of_nat (length (vrf_rif_list v)) \<and>
        distinct (vrf_rif_list v) \<and>
        (\<forall>r \<in> set (vrf_rif_list v). \<exists>rif. rif_at s r = Some rif \<and> rif_vrf_id rif = i))"

definition rif_ok :: "'h fib \<Rightarrow> bool" where
  "rif_ok s \<longleftrightarrow>
     (\<forall>r rif. rif_at s r = Some rif \<longrightarrow>
        rif_id rif = r \<and>
        (\<exists>v. vrf_at s (rif_vrf_id rif) = Some v \<and> r \<in> set (vrf_rif_list v)) \<and>
        rif_ref_count rif = of_nat (rif_refs s r))"

definition nh_ok :: "l3_util \<Rightarrow> 'h fib \<Rightarrow> bool" where
  "nh_ok u s \<longleftrightarrow>
     (\<forall>a n. nh_at s a = Some n \<longrightarrow>
        nk_type (nh_key n) = SAI_NEXT_HOP_IP \<and>
        (\<exists>v. vrf_at s (nh_vrf_id n) = Some v \<and> tree_get (vrf_nh_tree v) (nh_key n) = Some a) \<and>
        (\<exists>rif. rif_at s (nk_rif_id (nh_key n)) = Some rif \<and> rif_vrf_id rif = nh_vrf_id n) \<and>
        owner_bits_ok u n \<and>
        nh_ref_count n = of_nat (route_refs s (RouteNh a)))"

definition nh_tree_ok :: "'h fib \<Rightarrow> bool" where
  "nh_tree_ok s \<longleftrightarrow>
     (\<forall>i v k a. vrf_at s i = Some v \<longrightarrow> tree_get (vrf_nh_tree v) k = Some a \<longrightarrow>
        (\<exists>n. nh_at s a = Some n \<and> nh_key n = k \<and> nh_vrf_id n = i))"

definition nh_id_ok :: "l3_util \<Rightarrow> 'h fib \<Rightarrow> bool" where
  "nh_id_ok u s \<longleftrightarrow>
     (\<forall>i a. tree_get (nh_id_tree s) i = Some a \<longrightarrow>
        (\<exists>n. nh_at s a = Some n \<and> nh_next_hop_id n = i \<and> is_owner u SAI_FIB_OWNER_NEXT_HOP n))"

definition route_target_ok :: "l3_util \<Rightarrow> 'h fib \<Rightarrow> route_nh \<Rightarrow> bool" where
  "route_target_ok u s t =
     (case t of
        RouteNhNone \<Rightarrow> True
      | RouteNh a \<Rightarrow>
          (case nh_at s a of None \<Rightarrow> False | Some n \<Rightarrow> is_owner u SAI_FIB_OWNER_NEXT_HOP n)
      | RouteNhGroup g \<Rightarrow> grp_at s g \<noteq> None)"

definition route_ok :: "l3_util \<Rightarrow> 'h fib \<Rightarrow> bool" where
  "route_ok u s \<longleftrightarrow>
     (\<forall>i v k r. vrf_at s i = Some v \<longrightarrow> tree_get (vrf_route_tree v) k = Some r \<longrightarrow>
        rt_vrf_id r = i \<and> route_target_ok u s (rt_nh r))"

definition grp_ok :: "'h fib \<Rightarrow> bool" where
  "grp_ok s \<longleftrightarrow>
     (\<forall>g p. grp_at s g = Some p \<longrightarrow>
        grp_ref_count p = of_nat (route_refs s (RouteNhGroup g)) \<and>
        grp_nh_count p = of_nat (group_weight p) \<and> group_weight p < 2 ^ 32)"

definition grp_tree_ok :: "'h fib \<Rightarrow> bool" where
  "grp_tree_ok s \<longleftrightarrow>
     (\<forall>i g. tree_get (nh_group_tree s) i = Some g \<longrightarrow> (\<exists>p. grp_at s g = Some p \<and> grp_id p = i))"

definition link_ok :: "l3_util \<Rightarrow> 'h fib \<Rightarrow> bool" where
  "link_ok u s \<longleftrightarrow>
     (\<forall>g a. grp_link s g a = nh_link s a g) \<and>
     (\<forall>g a w. grp_link s g a = Some w \<longrightarrow>
        w \<noteq> 0 \<and> (\<exists>n. nh_at s a = Some n \<and> is_owner u SAI_FIB_OWNER_NEXT_HOP n))"

definition mac_member_ok :: "l3_util \<Rightarrow> 'h fib \<Rightarrow> vlan_id \<times> mac \<Rightarrow> addr \<Rightarrow> bool" where
  "mac_member_ok u s k a \<longleftrightarrow>
     (\<exists>n rif. nh_at s a = Some n \<and> is_owner u SAI_FIB_OWNER_NEIGHBOR n \<and>
        rif_at s (nk_rif_id (nh_key n)) = Some rif \<and>
        rif_type rif = SAI_ROUTER_INTERFACE_TYPE_VLAN \<and>
        k = (rif_vlan_id rif, nh_mac_addr n))"

definition mac_ok :: "l3_util \<Rightarrow> 'h fib \<Rightarrow> bool" where
  "mac_ok u s \<longleftrightarrow>
     (\<forall>k L. tree_get (neighbor_mac_tree s) k = Some L \<longrightarrow>
        L \<noteq> [] \<and> distinct L \<and> (\<forall>a \<in> set L. mac_member_ok u s k a))"

definition fib_inv :: "l3_util \<Rightarrow> 'h fib \<Rightarrow> bool" where
  "fib_inv u s \<longleftrightarrow>
     trees_ok s \<and> vrf_ok s \<and> rif_ok s \<and> nh_ok u s \<and> nh_tree_ok s \<and> nh_id_ok u s \<and>
     route_ok u s \<and> grp_ok s \<and> grp_tree_ok s \<and> link_ok u s \<and> mac_ok u s"

text \<open>
  Between two API calls every next hop node has an owner: it is freed with its last owner.
\<close>

definition nh_owned :: "'h fib \<Rightarrow> bool" where
  "nh_owned s \<longleftrightarrow> (\<forall>a n. nh_at s a = Some n \<longrightarrow> nh_owner_flag n \<noteq> 0)"

text \<open>
  The database fits the 32-bit counters: fewer than \<open>2 ^ 32\<close> next hop nodes, routes and, per virtual
  router, interfaces.
\<close>

definition fib_bounded :: "'h fib \<Rightarrow> bool" where
  "fib_bounded s \<longleftrightarrow>
     length (nh_heap s) < 2 ^ 32 \<and> total_routes s < 2 ^ 32 \<and>
     (\<forall>i v. vrf_at s i = Some v \<longrightarrow> length (vrf_rif_list v) < 2 ^ 32)"

lemmas inv_defs = trees_ok_def vrf_ok_def rif_ok_def nh_ok_def nh_tree_ok_def nh_id_ok_def
  route_ok_def grp_ok_def grp_tree_ok_def link_ok_def mac_ok_def

lemmas count_defs = rif_refs_def route_refs_def grp_link_def nh_link_def

lemma fib_invI:
  "trees_ok s \<Longrightarrow> vrf_ok s \<Longrightarrow> rif_ok s \<Longrightarrow> nh_ok u s \<Longrightarrow> nh_tree_ok s \<Longrightarrow> nh_id_ok u s \<Longrightarrow>
   route_ok u s \<Longrightarrow> grp_ok s \<Longrightarrow> grp_tree_ok s \<Longrightarrow> link_ok u s \<Longrightarrow> mac_ok u s \<Longrightarrow> fib_inv u s"
  by (simp add: fib_inv_def)

lemma fib_invD:
  assumes "fib_inv u s"
  shows "trees_ok s" "vrf_ok s" "rif_ok s" "nh_ok u s" "nh_tree_ok s" "nh_id_ok u s"
    "route_ok u s" "grp_ok s" "grp_tree_ok s" "link_ok u s" "mac_ok u s"
  using assms by (simp_all add: fib_inv_def)

section \<open>Reading the invariant\<close>

lemma route_okD:
  "route_ok u s \<Longrightarrow> vrf_at s i = Some v \<Longrightarrow> tree_get (vrf_route_tree v) k = Some r \<Longrightarrow>
   rt_vrf_id r = i \<and> route_target_ok u s (rt_nh r)"
  unfolding route_ok_def by blast

lemma link_okD:
  "link_ok u s \<Longrightarrow> grp_link s g a = Some w \<Longrightarrow>
   w \<noteq> 0 \<and> (\<exists>n. nh_at s a = Some n \<and> is_owner u SAI_FIB_OWNER_NEXT_HOP n)"
  unfolding link_ok_def by blast

lemma link_ok_sym: "link_ok u s \<Longrightarrow> grp_link s g a = nh_link s a g"
  unfolding link_ok_def by blast

lemma mac_okD:
  "mac_ok u s \<Longrightarrow> tree_get (neighbor_mac_tree s) k = Some L \<Longrightarrow>
   L \<noteq> [] \<and> distinct L \<and> (\<forall>a \<in> set L. mac_member_ok u s k a)"
  unfolding mac_ok_def by blast

lemma nh_okD:
  assumes "nh_ok u s" "nh_at s a = Some n"
  obtains v rif where "nk_type (nh_key n) = SAI_NEXT_HOP_IP"
    "vrf_at s (nh_vrf_id n) = Some v" "tree_get (vrf_nh_tree v) (nh_key n) = Some a"
    "rif_at s (nk_rif_id (nh_key n)) = Some rif" "rif_vrf_id rif = nh_vrf_id n"
    "owner_bits_ok u n" "nh_ref_count n = of_nat (route_refs s (RouteNh a))"
  using assms unfolding nh_ok_def by blast

lemma rif_okD:
  assumes "rif_ok s" "rif_at s r = Some rif"
  obtains v where "rif_id rif = r" "vrf_at s (rif_vrf_id rif) = Some v" "r \<in> set (vrf_rif_list v)"
    "rif_ref_count rif = of_nat (rif_refs s r)"
  using assms unfolding rif_ok_def by blast

lemma nh_id_okD:
  "nh_id_ok u s \<Longrightarrow> tree_get (nh_id_tree s) i = Some a \<Longrightarrow>
   \<exists>n. nh_at s a = Some n \<and> nh_next_hop_id n = i \<and> is_owner u SAI_FIB_OWNER_NEXT_HOP n"
  unfolding nh_id_ok_def by blast

lemma nh_tree_okD:
  "nh_tree_ok s \<Longrightarrow> vrf_at s i = Some v \<Longrightarrow> tree_get (vrf_nh_tree v) k = Some a \<Longrightarrow>
   \<exists>n. nh_at s a = Some n \<and> nh_key n = k \<and> nh_vrf_id n = i"
  unfolding nh_tree_ok_def by blast

section \<open>Frame rules\<close>

text \<open>The invariant reads neither \<open>hw\<close> nor the two scalar settings; fresh addresses only grow.\<close>

lemma fib_inv_hw [simp]: "fib_inv u (s\<lparr>hw := h\<rparr>) = fib_inv u s"
  by (simp add: fib_inv_def inv_defs count_defs route_target_ok_def mac_member_ok_def cong: route_nh.case_cong)

lemma fib_inv_max_ecmp [simp]: "fib_inv u (s\<lparr>max_ecmp_paths := m\<rparr>) = fib_inv u s"
  by (simp add: fib_inv_def inv_defs count_defs route_target_ok_def mac_member_ok_def cong: route_nh.case_cong)

lemma fib_inv_num_vrs [simp]: "fib_inv u (s\<lparr>num_virtual_routers := m\<rparr>) = fib_inv u s"
  by (simp add: fib_inv_def inv_defs count_defs route_target_ok_def mac_member_ok_def cong: route_nh.case_cong)

lemma fib_bounded_hw [simp]: "fib_bounded (s\<lparr>hw := h\<rparr>) = fib_bounded s"
  by (simp add: fib_bounded_def total_routes_def)

lemma trees_ok_next_addr: "trees_ok s \<Longrightarrow> next_addr s \<le> m \<Longrightarrow> trees_ok (s\<lparr>next_addr := m\<rparr>)"
  unfolding trees_ok_def by (simp, meson less_le_trans)

lemma fib_inv_next_addr:
  assumes "fib_inv u s" "next_addr s \<le> m"
  shows "fib_inv u (s\<lparr>next_addr := m\<rparr>)"
proof -
  have "trees_ok (s\<lparr>next_addr := m\<rparr>)"
    using fib_invD(1) [OF assms(1)] assms(2) by (rule trees_ok_next_addr)
  moreover have "fib_inv u (s\<lparr>next_addr := m\<rparr>) = (trees_ok (s\<lparr>next_addr := m\<rparr>) \<and> fib_inv u s)"
    using assms(1) unfolding fib_inv_def
    by (simp add: vrf_ok_def rif_ok_def nh_ok_def nh_tree_ok_def nh_id_ok_def route_ok_def grp_ok_def
        grp_tree_ok_def link_ok_def mac_ok_def count_defs route_target_ok_def mac_member_ok_def
        cong: route_nh.case_cong)
  ultimately show ?thesis using assms(1) by simp
qed

lemma fresh_addr:
  assumes "trees_ok s"
  shows "nh_at s (next_addr s) = None" "grp_at s (next_addr s) = None"
proof -
  have h: "a < next_addr s" if "nh_at s a = Some n" for a n
    using assms that unfolding trees_ok_def by blast
  have g: "g < next_addr s" if "grp_at s g = Some p" for g p
    using assms that unfolding trees_ok_def by blast
  show "nh_at s (next_addr s) = None" using h [of "next_addr s"] by (cases "nh_at s (next_addr s)") auto
  show "grp_at s (next_addr s) = None" using g [of "next_addr s"] by (cases "grp_at s (next_addr s)") auto
qed

section \<open>Reference counts\<close>

lemma route_refs_target_pos:
  assumes "vrf_at s i = Some v" "tree_get (vrf_route_tree v) k = Some r"
  shows "route_refs s (rt_nh r) > 0"
proof -
  have "1 \<le> vrf_route_refs (rt_nh r) v"
    using asum_ge [OF assms(2), of "\<lambda>r'. if rt_nh r' = rt_nh r then 1 else 0"]
    by (simp add: vrf_route_refs_def)
  also have "\<dots> \<le> route_refs s (rt_nh r)"
    unfolding route_refs_def by (rule asum_ge [OF assms(1)])
  finally show ?thesis by simp
qed

lemma rif_refs_pos:
  "nh_at s a = Some n \<Longrightarrow> rif_refs s (nk_rif_id (nh_key n)) > 0"
  using asum_ge [of "nh_heap s" a n "\<lambda>m. if nk_rif_id (nh_key m) = nk_rif_id (nh_key n) then 1 else 0"]
  by (simp add: rif_refs_def)

lemma asum_le_length: "(\<And>v. f v \<le> 1) \<Longrightarrow> asum f t \<le> length t"
proof (induction t)
  case (Cons p t)
  then have "f (snd p) \<le> 1" "asum f t \<le> length t" by auto
  then show ?case by (simp add: asum_def)
qed simp

lemma route_refs_le_total: "route_refs s t \<le> total_routes s"
  unfolding route_refs_def total_routes_def
  by (rule asum_mono) (simp add: vrf_route_refs_def asum_le_length)

lemma rif_refs_le_heap: "rif_refs s r \<le> length (nh_heap s)"
  unfolding rif_refs_def by (rule asum_le_length) simp

lemma route_refs_zero:
  "fib_bounded s \<Longrightarrow> (of_nat (route_refs s t) :: u32) = 0 \<longleftrightarrow> route_refs s t = 0"
  using route_refs_le_total [of s t] by (intro of_nat_u32_zero) (auto simp: fib_bounded_def)

lemma rif_refs_zero:
  "fib_bounded s \<Longrightarrow> (of_nat (rif_refs s r) :: u32) = 0 \<longleftrightarrow> rif_refs s r = 0"
  using rif_refs_le_heap [of s r] by (intro of_nat_u32_zero) (auto simp: fib_bounded_def)

lemma rif_refs_word_pos:
  assumes "length (nh_heap s) < 2 ^ 32" "nh_at s a = Some n"
  shows "(of_nat (rif_refs s (nk_rif_id (nh_key n))) :: u32) > 0"
proof -
  have "rif_refs s (nk_rif_id (nh_key n)) < 2 ^ 32"
    using assms(1) rif_refs_le_heap [of s "nk_rif_id (nh_key n)"] by simp
  then have "(of_nat (rif_refs s (nk_rif_id (nh_key n))) :: u32) \<noteq> 0"
    using rif_refs_pos [OF assms(2)] by (simp add: of_nat_u32_zero)
  then show ?thesis by (simp add: word_gt_0)
qed

text \<open>A router interface with reference count 0 has no next hop node left on it.\<close>

lemma rif_unused:
  assumes "fib_inv u s" "fib_bounded s" "rif_at s r = Some rif" "rif_ref_count rif = 0"
    and "nh_at s a = Some n"
  shows "nk_rif_id (nh_key n) \<noteq> r"
  using assms rif_refs_zero [of s r] rif_refs_pos [of s a n]
  by (auto simp: fib_inv_def rif_ok_def)

lemma nh_unused:
  assumes "fib_inv u s" "fib_bounded s" "nh_at s a = Some n" "nh_ref_count n = 0"
  shows "route_refs s (RouteNh a) = 0"
  using assms route_refs_zero [of s "RouteNh a"] by (auto simp: fib_inv_def nh_ok_def)

lemma grp_unused:
  assumes "fib_inv u s" "fib_bounded s" "grp_at s g = Some p" "grp_ref_count p = 0"
  shows "route_refs s (RouteNhGroup g) = 0"
  using assms route_refs_zero [of s "RouteNhGroup g"] by (auto simp: fib_inv_def grp_ok_def)

text \<open>A node that lost the neighbor and the next hop owner is referred to by no one.\<close>

lemma no_links_if_not_owner:
  assumes "fib_inv u s" "nh_at s a = Some n" "\<not> is_owner u SAI_FIB_OWNER_NEXT_HOP n"
  shows "route_refs s (RouteNh a) = 0" "nh_group_list n = []" "tree_get (nh_id_tree s) i \<noteq> Some a"
proof -
  show "nh_group_list n = []"
  proof -
    have "tree_get (nh_group_list n) g = None" for g
    proof (rule ccontr)
      assume "tree_get (nh_group_list n) g \<noteq> None"
      then obtain w where "grp_link s g a = Some w"
        using link_ok_sym [of u s g a] assms(1,2) by (auto simp: fib_inv_def nh_link_def)
      then show False using link_okD [of u s g a w] assms by (auto simp: fib_inv_def)
    qed
    then show ?thesis using tree_get_all_None by blast
  qed
  show "tree_get (nh_id_tree s) i \<noteq> Some a"
    using nh_id_okD [of u s i a] assms by (auto simp: fib_inv_def)
  show "route_refs s (RouteNh a) = 0"
  proof -
    have "vrf_route_refs (RouteNh a) v = 0" if "(i, v) \<in> set (vrf_tree s)" for i v
    proof -
      have v: "vrf_at s i = Some v"
        using that assms(1) by (simp add: fib_inv_def trees_ok_def tree_get_iff_in_set)
      have wf: "tree_wf (vrf_route_tree v)"
        using assms(1) v by (auto simp: fib_inv_def trees_ok_def)
      have "rt_nh r \<noteq> RouteNh a" if "(k, r) \<in> set (vrf_route_tree v)" for k r
      proof
        assume r: "rt_nh r = RouteNh a"
        have "tree_get (vrf_route_tree v) k = Some r"
          using that wf by (simp add: tree_get_iff_in_set)
        from route_okD [OF fib_invD(7) [OF assms(1)] v this]
        have "route_target_ok u s (rt_nh r)" by simp
        then show False using r assms by (simp add: route_target_ok_def)
      qed
      then show ?thesis unfolding vrf_route_refs_def by (intro asum_zeroI) auto
    qed
    then show ?thesis unfolding route_refs_def by (intro asum_zeroI) auto
  qed
qed

section \<open>Updating a next hop node in place\<close>

text \<open>
  The node keeps its key, virtual router, reference count and links. It may give up the next hop
  owner only if nothing relies on it, and what other trees say about it stays true.
\<close>

definition nh_update_ok :: "l3_util \<Rightarrow> 'h fib \<Rightarrow> addr \<Rightarrow> nh_node \<Rightarrow> nh_node \<Rightarrow> bool" where
  "nh_update_ok u s a n n' \<longleftrightarrow>
     nh_key n' = nh_key n \<and> nh_vrf_id n' = nh_vrf_id n \<and> nh_ref_count n' = nh_ref_count n \<and>
     nh_group_list n' = nh_group_list n \<and> owner_bits_ok u n' \<and>
     (is_owner u SAI_FIB_OWNER_NEXT_HOP n' \<or>
        route_refs s (RouteNh a) = 0 \<and> nh_group_list n = [] \<and>
        (\<forall>i. tree_get (nh_id_tree s) i \<noteq> Some a)) \<and>
     (\<forall>i. tree_get (nh_id_tree s) i = Some a \<longrightarrow> nh_next_hop_id n' = i) \<and>
     (\<forall>k L. tree_get (neighbor_mac_tree s) k = Some L \<longrightarrow> a \<in> set L \<longrightarrow>
        is_owner u SAI_FIB_OWNER_NEIGHBOR n' \<and> nh_mac_addr n' = nh_mac_addr n)"

lemma route_refs_set_nh [simp]: "route_refs (set_nh a n s) t = route_refs s t"
  by (simp add: route_refs_def set_nh_def)

lemma fib_set_nh_sel [simp]:
  "vrf_tree (set_nh a n s) = vrf_tree s"
  "router_interface_tree (set_nh a n s) = router_interface_tree s"
  "nh_id_tree (set_nh a n s) = nh_id_tree s"
  "nh_group_tree (set_nh a n s) = nh_group_tree s"
  "neighbor_mac_tree (set_nh a n s) = neighbor_mac_tree s"
  "nh_heap (set_nh a n s) = tree_put a n (nh_heap s)"
  "grp_heap (set_nh a n s) = grp_heap s"
  "next_addr (set_nh a n s) = next_addr s"
  "max_ecmp_paths (set_nh a n s) = max_ecmp_paths s"
  "hw (set_nh a n s) = hw s"
  "num_virtual_routers (set_nh a n s) = num_virtual_routers s"
  by (simp_all add: set_nh_def)

lemma rif_refs_set_nh:
  assumes "tree_wf (nh_heap s)" "nh_at s a = Some n" "nh_key n' = nh_key n"
  shows "rif_refs (set_nh a n' s) r = rif_refs s r"
  using assms by (simp add: rif_refs_def asum_put_same)

lemma route_target_zero:
  assumes "vrf_at s i = Some v" "tree_get (vrf_route_tree v) k = Some r" "route_refs s t = 0"
  shows "rt_nh r \<noteq> t"
  using route_refs_target_pos [OF assms(1,2)] assms(3) by auto

lemma inv_set_nh:
  assumes inv: "fib_inv u s" and a: "nh_at s a = Some n" and upd: "nh_update_ok u s a n n'"
  shows "fib_inv u (set_nh a n' s)"
proof (rule fib_invI)
  note d = fib_invD [OF inv]
  note upd' = upd [unfolded nh_update_ok_def]
  have k: "nh_key n' = nh_key n" and wf: "tree_wf (nh_heap s)"
    using upd' d(1) by (auto simp: trees_ok_def)
  note rr = rif_refs_set_nh [OF wf a k]
  show "trees_ok (set_nh a n' s)"
    using d(1) a upd' by (auto simp: trees_ok_def)
  show "vrf_ok (set_nh a n' s)" using d(2) by (simp add: vrf_ok_def)
  show "rif_ok (set_nh a n' s)" using d(3) by (simp add: rif_ok_def rr)
  show "nh_ok u (set_nh a n' s)" using d(4) a upd' by (simp add: nh_ok_def)
  show "nh_tree_ok (set_nh a n' s)" using d(5) a upd' by (simp add: nh_tree_ok_def) (metis option.inject)
  show "nh_id_ok u (set_nh a n' s)" using d(6) a upd' by (auto simp: nh_id_ok_def)
  show "route_ok u (set_nh a n' s)"
    unfolding route_ok_def
  proof (intro allI impI conjI)
    fix i v k r
    assume "vrf_at (set_nh a n' s) i = Some v" and r: "tree_get (vrf_route_tree v) k = Some r"
    then have v: "vrf_at s i = Some v" by simp
    from route_okD [OF d(7) v r] show "rt_vrf_id r = i" by simp
    from route_okD [OF d(7) v r] have t: "route_target_ok u s (rt_nh r)" by simp
    from route_refs_target_pos [OF v r] t a upd'
    show "route_target_ok u (set_nh a n' s) (rt_nh r)"
      by (auto simp: route_target_ok_def split: route_nh.splits option.splits)
  qed
  show "grp_ok (set_nh a n' s)" using d(8) by (simp add: grp_ok_def)
  show "grp_tree_ok (set_nh a n' s)" using d(9) by (simp add: grp_tree_ok_def)
  have link: "grp_link (set_nh a n' s) = grp_link s" "nh_link (set_nh a n' s) = nh_link s"
    using a upd' by (auto simp: grp_link_def nh_link_def fun_eq_iff split: option.splits)
  show "link_ok u (set_nh a n' s)"
    using d(10) a upd' unfolding link_ok_def link
    by (auto simp: nh_link_def)
  show "mac_ok u (set_nh a n' s)"
    using d(11) a upd' unfolding mac_ok_def mac_member_ok_def
    by (simp split: if_splits) (smt (verit) option.inject)
qed


section \<open>Selectors of the update functions\<close>

lemma fib_set_vrf_sel [simp]:
  "vrf_tree (set_vrf i v s) = tree_put i v (vrf_tree s)"
  "router_interface_tree (set_vrf i v s) = router_interface_tree s"
  "nh_id_tree (set_vrf i v s) = nh_id_tree s"
  "nh_group_tree (set_vrf i v s) = nh_group_tree s"
  "neighbor_mac_tree (set_vrf i v s) = neighbor_mac_tree s"
  "nh_heap (set_vrf i v s) = nh_heap s"
  "grp_heap (set_vrf i v s) = grp_heap s"
  "next_addr (set_vrf i v s) = next_addr s"
  "max_ecmp_paths (set_vrf i v s) = max_ecmp_paths s"
  "hw (set_vrf i v s) = hw s"
  "num_virtual_routers (set_vrf i v s) = num_virtual_routers s"
  by (simp_all add: set_vrf_def)

lemma fib_set_rif_sel [simp]:
  "vrf_tree (set_rif i r s) = vrf_tree s"
  "router_interface_tree (set_rif i r s) = tree_put i r (router_interface_tree s)"
  "nh_id_tree (set_rif i r s) = nh_id_tree s"
  "nh_group_tree (set_rif i r s) = nh_group_tree s"
  "neighbor_mac_tree (set_rif i r s) = neighbor_mac_tree s"
  "nh_heap (set_rif i r s) = nh_heap s"
  "grp_heap (set_rif i r s) = grp_heap s"
  "next_addr (set_rif i r s) = next_addr s"
  "max_ecmp_paths (set_rif i r s) = max_ecmp_paths s"
  "hw (set_rif i r s) = hw s"
  "num_virtual_routers (set_rif i r s) = num_virtual_routers s"
  by (simp_all add: set_rif_def)

lemma fib_set_grp_sel [simp]:
  "vrf_tree (set_grp g p s) = vrf_tree s"
  "router_interface_tree (set_grp g p s) = router_interface_tree s"
  "nh_id_tree (set_grp g p s) = nh_id_tree s"
  "nh_group_tree (set_grp g p s) = nh_group_tree s"
  "neighbor_mac_tree (set_grp g p s) = neighbor_mac_tree s"
  "nh_heap (set_grp g p s) = nh_heap s"
  "grp_heap (set_grp g p s) = tree_put g p (grp_heap s)"
  "next_addr (set_grp g p s) = next_addr s"
  "max_ecmp_paths (set_grp g p s) = max_ecmp_paths s"
  "hw (set_grp g p s) = hw s"
  "num_virtual_routers (set_grp g p s) = num_virtual_routers s"
  by (simp_all add: set_grp_def)

lemma set_twice [simp]:
  "set_grp g p (set_grp g q s) = set_grp g p s"
  "set_nh a n (set_nh a m s) = set_nh a n s"
  "set_vrf i v (set_vrf i w s) = set_vrf i v s"
  "set_rif r x (set_rif r y s) = set_rif r x s"
  by (simp_all add: set_defs)

lemma set_nh_set_grp: "set_nh a n (set_grp g p s) = set_grp g p (set_nh a n s)"
  by (simp add: set_nh_def set_grp_def)

lemma set_same:
  "nh_at s a = Some n \<Longrightarrow> set_nh a n s = s"
  "grp_at s g = Some p \<Longrightarrow> set_grp g p s = s"
  "vrf_at s i = Some v \<Longrightarrow> set_vrf i v s = s"
  "rif_at s r = Some x \<Longrightarrow> set_rif r x s = s"
  by (simp_all add: set_defs tree_put_same)

lemma set_hw [simp]:
  "set_nh a n (s\<lparr>hw := h\<rparr>) = (set_nh a n s)\<lparr>hw := h\<rparr>"
  "set_grp g p (s\<lparr>hw := h\<rparr>) = (set_grp g p s)\<lparr>hw := h\<rparr>"
  "set_vrf i v (s\<lparr>hw := h\<rparr>) = (set_vrf i v s)\<lparr>hw := h\<rparr>"
  "set_rif r x (s\<lparr>hw := h\<rparr>) = (set_rif r x s)\<lparr>hw := h\<rparr>"
  by (simp_all add: set_defs)

lemma hw_upd_sel [simp]: "hw (s\<lparr>hw := h\<rparr>) = h" "s\<lparr>hw := h\<rparr>\<lparr>hw := h'\<rparr> = s\<lparr>hw := h'\<rparr>"
  by simp_all

lemma counts_frame [simp]:
  "rif_refs (set_vrf i v s) = rif_refs s"
  "rif_refs (set_rif i r s) = rif_refs s"
  "rif_refs (set_grp g p s) = rif_refs s"
  "route_refs (set_rif i r s) = route_refs s"
  "route_refs (set_grp g p s) = route_refs s"
  by (simp_all add: rif_refs_def route_refs_def fun_eq_iff)

lemma links_frame [simp]:
  "grp_link (set_vrf i v s) = grp_link s"
  "grp_link (set_rif i r s) = grp_link s"
  "grp_link (set_nh a n s) = grp_link s"
  "nh_link (set_vrf i v s) = nh_link s"
  "nh_link (set_rif i r s) = nh_link s"
  "nh_link (set_grp g p s) = nh_link s"
  by (simp_all add: grp_link_def nh_link_def fun_eq_iff)

lemma target_frame [simp]:
  "route_target_ok u (set_vrf i v s) t = route_target_ok u s t"
  "route_target_ok u (set_rif i r s) t = route_target_ok u s t"
  by (simp_all add: route_target_ok_def cong: route_nh.case_cong)

lemma mac_member_frame [simp]:
  "mac_member_ok u (set_vrf i v s) k a = mac_member_ok u s k a"
  "mac_member_ok u (set_grp g p s) k a = mac_member_ok u s k a"
  by (simp_all add: mac_member_ok_def)

section \<open>Virtual routers\<close>

text \<open>Attributes of a virtual router.\<close>

definition vrf_same_shape :: "vrf_node \<Rightarrow> vrf_node \<Rightarrow> bool" where
  "vrf_same_shape v v' \<longleftrightarrow>
     vrf_id v' = vrf_id v \<and> vrf_num_rif v' = vrf_num_rif v \<and> vrf_rif_list v' = vrf_rif_list v \<and>
     vrf_nh_tree v' = vrf_nh_tree v \<and> vrf_route_tree v' = vrf_route_tree v"

lemma route_refs_set_vrf_same:
  assumes "tree_wf (vrf_tree s)" "vrf_at s i = Some v" "vrf_route_tree v' = vrf_route_tree v"
  shows "route_refs (set_vrf i v' s) t = route_refs s t"
  using assms by (simp add: route_refs_def vrf_route_refs_def asum_put_same)

lemma inv_set_vrf_attr:
  assumes inv: "fib_inv u s" and i: "vrf_at s i = Some v" and sh: "vrf_same_shape v v'"
  shows "fib_inv u (set_vrf i v' s)"
proof (rule fib_invI)
  note d = fib_invD [OF inv]
  have "tree_wf (vrf_tree s)" using d(1) by (simp add: trees_ok_def)
  with i sh have rr: "route_refs (set_vrf i v' s) t = route_refs s t" for t
    by (intro route_refs_set_vrf_same) (auto simp: vrf_same_shape_def)
  note sh' = sh [unfolded vrf_same_shape_def]
  show "trees_ok (set_vrf i v' s)" using d(1) i sh' by (auto simp: trees_ok_def)
  show "vrf_ok (set_vrf i v' s)" using d(2) i sh' by (auto simp: vrf_ok_def)
  show "rif_ok (set_vrf i v' s)" using d(3) i sh' by (simp add: rif_ok_def) (metis option.inject)
  show "nh_ok u (set_vrf i v' s)" using d(4) i sh' by (simp add: nh_ok_def rr) (metis option.inject)
  show "nh_tree_ok (set_vrf i v' s)"
    using nh_tree_okD [OF d(5)] i sh' unfolding nh_tree_ok_def by (simp split: if_splits)
  show "nh_id_ok u (set_vrf i v' s)" using d(6) by (simp add: nh_id_ok_def)
  show "route_ok u (set_vrf i v' s)"
    using route_okD [OF d(7)] i sh' unfolding route_ok_def by (simp split: if_splits)
  show "grp_ok (set_vrf i v' s)" using d(8) by (simp add: grp_ok_def rr)
  show "grp_tree_ok (set_vrf i v' s)" using d(9) by (simp add: grp_tree_ok_def)
  show "link_ok u (set_vrf i v' s)" using d(10) by (simp add: link_ok_def)
  show "mac_ok u (set_vrf i v' s)" using d(11) by (simp add: mac_ok_def)
qed

text \<open>Creating and removing a virtual router.\<close>

lemma inv_new_vrf:
  assumes inv: "fib_inv u s" and i: "vrf_at s i = None"
    and v: "vrf_id v = i" "vrf_num_rif v = 0" "vrf_rif_list v = []" "vrf_nh_tree v = []"
      "vrf_route_tree v = []"
  shows "fib_inv u (set_vrf i v s)"
proof (rule fib_invI)
  note d = fib_invD [OF inv]
  have rr: "route_refs (set_vrf i v s) t = route_refs s t" for t
    using i v by (simp add: route_refs_def vrf_route_refs_def)
  show "trees_ok (set_vrf i v s)" using d(1) v by (auto simp: trees_ok_def)
  show "vrf_ok (set_vrf i v s)" using d(2) v by (auto simp: vrf_ok_def)
  show "rif_ok (set_vrf i v s)" using d(3) i by (simp add: rif_ok_def) (metis option.distinct(1))
  show "nh_ok u (set_vrf i v s)" using d(4) i by (simp add: nh_ok_def rr) (metis option.distinct(1))
  show "nh_tree_ok (set_vrf i v s)"
    using nh_tree_okD [OF d(5)] v unfolding nh_tree_ok_def by (simp split: if_splits)
  show "nh_id_ok u (set_vrf i v s)" using d(6) by (simp add: nh_id_ok_def)
  show "route_ok u (set_vrf i v s)"
    using route_okD [OF d(7)] v unfolding route_ok_def by (simp split: if_splits)
  show "grp_ok (set_vrf i v s)" using d(8) by (simp add: grp_ok_def rr)
  show "grp_tree_ok (set_vrf i v s)" using d(9) by (simp add: grp_tree_ok_def)
  show "link_ok u (set_vrf i v s)" using d(10) by (simp add: link_ok_def)
  show "mac_ok u (set_vrf i v s)" using d(11) by (simp add: mac_ok_def)
qed

lemma inv_del_vrf:
  assumes inv: "fib_inv u s" and i: "vrf_at s i = Some v"
    and v: "vrf_rif_list v = []" "vrf_nh_tree v = []" "vrf_route_tree v = []"
  shows "fib_inv u (s\<lparr>vrf_tree := tree_del i (vrf_tree s)\<rparr>)" (is "fib_inv u ?s")
proof (rule fib_invI)
  note d = fib_invD [OF inv]
  have wf: "tree_wf (vrf_tree s)" using d(1) by (simp add: trees_ok_def)
  have "asum (vrf_route_refs t) (tree_del i (vrf_tree s)) = asum (vrf_route_refs t) (vrf_tree s)" for t
    by (rule asum_del_same [OF wf]) (use i v in \<open>simp add: vrf_route_refs_def\<close>)
  then have rr: "route_refs ?s t = route_refs s t" for t by (simp add: route_refs_def)
  have rf: "rif_refs ?s = rif_refs s" by (simp add: rif_refs_def fun_eq_iff)
  have ln: "grp_link ?s = grp_link s" "nh_link ?s = nh_link s"
    by (simp_all add: grp_link_def nh_link_def fun_eq_iff)
  have tg: "route_target_ok u ?s t = route_target_ok u s t" for t
    by (simp add: route_target_ok_def cong: route_nh.case_cong)
  show "trees_ok ?s" using d(1) by (auto simp: trees_ok_def)
  show "vrf_ok ?s" using d(2) by (auto simp: vrf_ok_def)
  show "rif_ok ?s" using d(3) i v by (simp add: rif_ok_def rf) (metis empty_iff list.set(1) option.inject)
  show "nh_ok u ?s" using d(4) i v by (simp add: nh_ok_def rr) (metis option.distinct(1) option.inject tree_get_Nil)
  show "nh_tree_ok ?s" using nh_tree_okD [OF d(5)] unfolding nh_tree_ok_def by (simp split: if_splits)
  show "nh_id_ok u ?s" using d(6) by (simp add: nh_id_ok_def)
  show "route_ok u ?s" using route_okD [OF d(7)] unfolding route_ok_def tg by (simp split: if_splits)
  show "grp_ok ?s" using d(8) by (simp add: grp_ok_def rr)
  show "grp_tree_ok ?s" using d(9) by (simp add: grp_tree_ok_def)
  show "link_ok u ?s" using d(10) by (simp add: link_ok_def ln)
  show "mac_ok u ?s" using d(11) by (simp add: mac_ok_def mac_member_ok_def)
qed

section \<open>Router interfaces\<close>

text \<open>What may not change about a router interface once it exists.\<close>

definition rif_same_shape :: "rif_node \<Rightarrow> rif_node \<Rightarrow> bool" where
  "rif_same_shape r r' \<longleftrightarrow>
     rif_id r' = rif_id r \<and> rif_vrf_id r' = rif_vrf_id r \<and> rif_type r' = rif_type r \<and>
     rif_vlan_id r' = rif_vlan_id r \<and> rif_ref_count r' = rif_ref_count r"

lemma inv_set_rif_attr:
  assumes inv: "fib_inv u s" and i: "rif_at s i = Some r" and sh: "rif_same_shape r r'"
  shows "fib_inv u (set_rif i r' s)"
proof (rule fib_invI)
  note d = fib_invD [OF inv]
  note sh' = sh [unfolded rif_same_shape_def]
  show "trees_ok (set_rif i r' s)" using d(1) by (auto simp: trees_ok_def)
  show "vrf_ok (set_rif i r' s)" using d(2) i sh' by (simp add: vrf_ok_def) (metis option.inject)
  show "rif_ok (set_rif i r' s)" using d(3) i sh' by (simp add: rif_ok_def)
  show "nh_ok u (set_rif i r' s)" using d(4) i sh' by (simp add: nh_ok_def) (metis option.inject)
  show "nh_tree_ok (set_rif i r' s)" using d(5) unfolding nh_tree_ok_def by simp
  show "nh_id_ok u (set_rif i r' s)" using d(6) by (simp add: nh_id_ok_def)
  show "route_ok u (set_rif i r' s)" using d(7) unfolding route_ok_def by simp
  show "grp_ok (set_rif i r' s)" using d(8) by (simp add: grp_ok_def)
  show "grp_tree_ok (set_rif i r' s)" using d(9) by (simp add: grp_tree_ok_def)
  show "link_ok u (set_rif i r' s)" using d(10) by (simp add: link_ok_def)
  have "mac_member_ok u (set_rif i r' s) k a" if m: "mac_member_ok u s k a" for k a
    using m i sh' unfolding mac_member_ok_def by fastforce
  then show "mac_ok u (set_rif i r' s)" using mac_okD [OF d(11)] unfolding mac_ok_def by simp
qed

lemma no_nh_on_missing_rif:
  assumes "fib_inv u s" "rif_at s r = None"
  shows "rif_refs s r = 0"
  unfolding rif_refs_def
proof (rule asum_zeroI)
  fix a n assume "(a, n) \<in> set (nh_heap s)"
  then have "nh_at s a = Some n"
    using assms(1) by (simp add: fib_inv_def trees_ok_def tree_get_iff_in_set)
  then have "rif_at s (nk_rif_id (nh_key n)) \<noteq> None"
    using assms(1) by (auto simp: fib_inv_def nh_ok_def)
  then show "(if nk_rif_id (nh_key n) = r then 1 else (0::nat)) = 0" using assms(2) by auto
qed

definition vrf_add_rif :: "oid \<Rightarrow> vrf_node \<Rightarrow> vrf_node" where
  "vrf_add_rif r v = v\<lparr>vrf_rif_list := vrf_rif_list v @ [r], vrf_num_rif := vrf_num_rif v + 1\<rparr>"

text \<open>
  The C list links the interface nodes; removing a node takes out its own link, which is the last one
  with its id when an id was linked twice.
\<close>

definition vrf_del_rif :: "oid \<Rightarrow> vrf_node \<Rightarrow> vrf_node" where
  "vrf_del_rif r v =
     v\<lparr>vrf_rif_list := rev (remove1 r (rev (vrf_rif_list v))), vrf_num_rif := vrf_num_rif v - 1\<rparr>"

lemma vrf_del_add_rif: "vrf_del_rif r (vrf_add_rif r v) = v"
  by (simp add: vrf_del_rif_def vrf_add_rif_def)

lemma inv_new_rif:
  assumes inv: "fib_inv u s" and r: "rif_at s r = None"
    and rif: "rif_id rif = r" "rif_ref_count rif = 0" and i: "vrf_at s (rif_vrf_id rif) = Some v"
  shows "fib_inv u (set_rif r rif (set_vrf (rif_vrf_id rif) (vrf_add_rif r v) s))" (is "fib_inv u ?s")
proof (rule fib_invI)
  note d = fib_invD [OF inv]
  have wf: "tree_wf (vrf_tree s)" using d(1) by (simp add: trees_ok_def)
  note rr = route_refs_set_vrf_same [OF wf i]
  have new: "r \<notin> set (vrf_rif_list w)" if "vrf_at s j = Some w" for j w
    using d(2) that r unfolding vrf_ok_def by (metis option.distinct(1))
  have sel: "vrf_id (vrf_add_rif r v) = vrf_id v" "vrf_nh_tree (vrf_add_rif r v) = vrf_nh_tree v"
    "vrf_route_tree (vrf_add_rif r v) = vrf_route_tree v"
    "vrf_rif_list (vrf_add_rif r v) = vrf_rif_list v @ [r]"
    "vrf_num_rif (vrf_add_rif r v) = vrf_num_rif v + 1"
    by (simp_all add: vrf_add_rif_def)
  show "trees_ok ?s" using d(1) i by (auto simp: trees_ok_def sel)
  show "vrf_ok ?s" using d(2) i new by (simp add: vrf_ok_def sel) (metis option.inject)
  show "rif_ok ?s"
    using d(3) i rif no_nh_on_missing_rif [OF inv r]
    by (simp add: rif_ok_def sel) (metis Un_iff option.inject)
  show "nh_ok u ?s" using d(4) i r by (simp add: nh_ok_def rr sel) (metis option.distinct(1) option.inject)
  show "nh_tree_ok ?s" using nh_tree_okD [OF d(5)] i unfolding nh_tree_ok_def by (simp add: sel split: if_splits)
  show "nh_id_ok u ?s" using d(6) by (simp add: nh_id_ok_def)
  show "route_ok u ?s" using route_okD [OF d(7)] i unfolding route_ok_def by (simp add: sel split: if_splits)
  show "grp_ok ?s" using d(8) by (simp add: grp_ok_def rr sel)
  show "grp_tree_ok ?s" using d(9) by (simp add: grp_tree_ok_def)
  show "link_ok u ?s" using d(10) by (simp add: link_ok_def)
  have "mac_member_ok u ?s k a" if m: "mac_member_ok u s k a" for k a
    using m r unfolding mac_member_ok_def by fastforce
  then show "mac_ok u ?s" using mac_okD [OF d(11)] unfolding mac_ok_def by simp
qed

lemma inv_del_rif:
  assumes inv: "fib_inv u s" and r: "rif_at s r = Some rif" and z: "rif_refs s r = 0"
    and i: "vrf_at s (rif_vrf_id rif) = Some v"
  shows "fib_inv u ((set_vrf (rif_vrf_id rif) (vrf_del_rif r v) s)
            \<lparr>router_interface_tree := tree_del r (router_interface_tree s)\<rparr>)" (is "fib_inv u ?s")
proof (rule fib_invI)
  note d = fib_invD [OF inv]
  have wf: "tree_wf (vrf_tree s)" using d(1) by (simp add: trees_ok_def)
  have fr: "route_refs ?s t = route_refs (set_vrf (rif_vrf_id rif) (vrf_del_rif r v) s) t"
    "rif_refs ?s = rif_refs s" "grp_link ?s = grp_link s" "nh_link ?s = nh_link s"
    "route_target_ok u ?s t' = route_target_ok u s t'" for t t'
    by (simp_all add: route_refs_def rif_refs_def grp_link_def nh_link_def fun_eq_iff
        route_target_ok_def cong: route_nh.case_cong)
  note rr = route_refs_set_vrf_same [OF wf i]
  have mem: "r \<in> set (vrf_rif_list v)" "distinct (vrf_rif_list v)"
    using d(2,3) i r unfolding vrf_ok_def rif_ok_def by (auto, metis option.inject)
  have sel: "vrf_id (vrf_del_rif r v) = vrf_id v" "vrf_nh_tree (vrf_del_rif r v) = vrf_nh_tree v"
    "vrf_route_tree (vrf_del_rif r v) = vrf_route_tree v"
    "set (vrf_rif_list (vrf_del_rif r v)) = set (vrf_rif_list v) - {r}"
    "distinct (vrf_rif_list (vrf_del_rif r v))"
    using mem by (simp_all add: vrf_del_rif_def)
  have "length (vrf_rif_list v) = Suc (length (remove1 r (rev (vrf_rif_list v))))"
    using mem by (simp add: length_remove1) (metis Suc_pred length_pos_if_in_set)
  then have num: "vrf_num_rif (vrf_del_rif r v) = of_nat (length (vrf_rif_list (vrf_del_rif r v)))"
    using d(2) i by (auto simp: vrf_del_rif_def vrf_ok_def)
  have other: "nk_rif_id (nh_key n) \<noteq> r" if "nh_at s a = Some n" for a n
    using rif_refs_pos [OF that] z by auto
  show "trees_ok ?s" using d(1) i by (auto simp: trees_ok_def sel)
  show "vrf_ok ?s" using d(2) i num by (auto simp: vrf_ok_def sel) (metis option.inject r)
  show "rif_ok ?s" using d(3) i by (simp add: rif_ok_def sel fr) (metis Diff_iff option.inject singletonD)
  show "nh_ok u ?s" using d(4) i other by (simp add: nh_ok_def rr sel fr) (metis option.inject)
  show "nh_tree_ok ?s" using nh_tree_okD [OF d(5)] i unfolding nh_tree_ok_def by (simp add: sel split: if_splits)
  show "nh_id_ok u ?s" using d(6) by (simp add: nh_id_ok_def)
  show "route_ok u ?s" using route_okD [OF d(7)] i unfolding route_ok_def fr by (simp add: sel split: if_splits)
  show "grp_ok ?s" using d(8) by (simp add: grp_ok_def rr sel fr)
  show "grp_tree_ok ?s" using d(9) by (simp add: grp_tree_ok_def)
  show "link_ok u ?s" using d(10) by (simp add: link_ok_def fr)
  have "mac_member_ok u ?s k a" if m: "mac_member_ok u s k a" for k a
    using m other unfolding mac_member_ok_def by fastforce
  then show "mac_ok u ?s" using mac_okD [OF d(11)] unfolding mac_ok_def by simp
qed

section \<open>The id tree of next hops\<close>

lemma inv_nh_id_tree:
  assumes inv: "fib_inv u s" and wf: "tree_wf t"
    and ok: "\<And>i a. tree_get t i = Some a \<Longrightarrow>
      \<exists>n. nh_at s a = Some n \<and> nh_next_hop_id n = i \<and> is_owner u SAI_FIB_OWNER_NEXT_HOP n"
  shows "fib_inv u (s\<lparr>nh_id_tree := t\<rparr>)"
  using inv wf ok
  by (simp add: fib_inv_def inv_defs count_defs route_target_ok_def mac_member_ok_def
      cong: route_nh.case_cong)

lemma inv_nh_id_put:
  assumes "fib_inv u s" "nh_at s a = Some n" "nh_next_hop_id n = i"
    "is_owner u SAI_FIB_OWNER_NEXT_HOP n"
  shows "fib_inv u (s\<lparr>nh_id_tree := tree_put i a (nh_id_tree s)\<rparr>)"
  using assms nh_id_okD [OF fib_invD(6) [OF assms(1)]] fib_invD(1) [OF assms(1)]
  by (intro inv_nh_id_tree) (auto simp: trees_ok_def split: if_splits)

lemma inv_nh_id_del:
  assumes "fib_inv u s"
  shows "fib_inv u (s\<lparr>nh_id_tree := tree_del i (nh_id_tree s)\<rparr>)"
  using assms nh_id_okD [OF fib_invD(6) [OF assms(1)]] fib_invD(1) [OF assms(1)]
  by (intro inv_nh_id_tree) (auto simp: trees_ok_def split: if_splits)

section \<open>Groups\<close>

lemma inv_nh_group_tree:
  assumes inv: "fib_inv u s" and wf: "tree_wf t"
    and ok: "\<And>i g. tree_get t i = Some g \<Longrightarrow> \<exists>p. grp_at s g = Some p \<and> grp_id p = i"
  shows "fib_inv u (s\<lparr>nh_group_tree := t\<rparr>)"
  using inv wf ok
  by (simp add: fib_inv_def inv_defs count_defs route_target_ok_def mac_member_ok_def
      cong: route_nh.case_cong)

lemma grp_tree_okD:
  "grp_tree_ok s \<Longrightarrow> tree_get (nh_group_tree s) i = Some g \<Longrightarrow> \<exists>p. grp_at s g = Some p \<and> grp_id p = i"
  by (simp add: grp_tree_ok_def)

lemma inv_nh_group_put:
  assumes "fib_inv u s" "grp_at s g = Some p" "grp_id p = i"
  shows "fib_inv u (s\<lparr>nh_group_tree := tree_put i g (nh_group_tree s)\<rparr>)"
  using assms grp_tree_okD [OF fib_invD(9) [OF assms(1)]] fib_invD(1) [OF assms(1)]
  by (intro inv_nh_group_tree) (auto simp: trees_ok_def split: if_splits)

lemma inv_nh_group_del:
  assumes "fib_inv u s"
  shows "fib_inv u (s\<lparr>nh_group_tree := tree_del i (nh_group_tree s)\<rparr>)"
  using assms grp_tree_okD [OF fib_invD(9) [OF assms(1)]] fib_invD(1) [OF assms(1)]
  by (intro inv_nh_group_tree) (auto simp: trees_ok_def split: if_splits)

text \<open>A group changes its id only while it is not in the tree; links and counters stay.\<close>

lemma inv_set_grp_attr:
  assumes inv: "fib_inv u s" and g: "grp_at s g = Some p"
    and same: "grp_ref_count p' = grp_ref_count p" "grp_nh_count p' = grp_nh_count p"
      "grp_nh_list p' = grp_nh_list p"
    and gid: "grp_id p' = grp_id p \<or> (\<forall>i. tree_get (nh_group_tree s) i \<noteq> Some g)"
  shows "fib_inv u (set_grp g p' s)"
proof (rule fib_invI)
  note d = fib_invD [OF inv]
  have wt: "group_weight p' = group_weight p" using same by (simp add: group_weight_def)
  have ln: "grp_link (set_grp g p' s) = grp_link s"
    using g same by (auto simp: grp_link_def fun_eq_iff)
  have tg: "route_target_ok u s t \<Longrightarrow> route_target_ok u (set_grp g p' s) t" for t
    by (auto simp: route_target_ok_def split: route_nh.splits)
  show "trees_ok (set_grp g p' s)" using d(1) g same by (auto simp: trees_ok_def)
  show "vrf_ok (set_grp g p' s)" using d(2) by (simp add: vrf_ok_def)
  show "rif_ok (set_grp g p' s)" using d(3) by (simp add: rif_ok_def)
  show "nh_ok u (set_grp g p' s)" using d(4) by (simp add: nh_ok_def)
  show "nh_tree_ok (set_grp g p' s)" using d(5) by (simp add: nh_tree_ok_def)
  show "nh_id_ok u (set_grp g p' s)" using d(6) by (simp add: nh_id_ok_def)
  show "route_ok u (set_grp g p' s)" using route_okD [OF d(7)] tg unfolding route_ok_def by simp
  show "grp_ok (set_grp g p' s)" using d(8) g same by (simp add: grp_ok_def wt)
  show "grp_tree_ok (set_grp g p' s)" using grp_tree_okD [OF d(9)] g gid unfolding grp_tree_ok_def by fastforce
  show "link_ok u (set_grp g p' s)" using d(10) by (simp add: link_ok_def ln)
  show "mac_ok u (set_grp g p' s)" using d(11) by (simp add: mac_ok_def)
qed

lemma no_route_to_missing_group:
  assumes inv: "fib_inv u s" and g: "grp_at s g = None"
  shows "route_refs s (RouteNhGroup g) = 0"
  unfolding route_refs_def
proof (rule asum_zeroI)
  fix i v assume "(i, v) \<in> set (vrf_tree s)"
  then have v: "vrf_at s i = Some v"
    using inv by (simp add: fib_inv_def trees_ok_def tree_get_iff_in_set)
  show "vrf_route_refs (RouteNhGroup g) v = 0"
    unfolding vrf_route_refs_def
  proof (rule asum_zeroI)
    fix k r assume "(k, r) \<in> set (vrf_route_tree v)"
    then have "tree_get (vrf_route_tree v) k = Some r"
      using inv v by (auto simp: fib_inv_def trees_ok_def tree_get_iff_in_set)
    from route_okD [OF fib_invD(7) [OF inv] v this] g
    show "(if rt_nh r = RouteNhGroup g then 1 else (0::nat)) = 0"
      by (auto simp: route_target_ok_def)
  qed
qed

lemma inv_new_grp:
  assumes inv: "fib_inv u s" and g: "grp_at s g = None" "g < next_addr s"
    and p: "grp_ref_count p = 0" "grp_nh_count p = 0" "grp_nh_list p = []"
  shows "fib_inv u (set_grp g p s)"
proof (rule fib_invI)
  note d = fib_invD [OF inv]
  have ln: "grp_link (set_grp g p s) = grp_link s"
    using g p by (auto simp: grp_link_def fun_eq_iff)
  have tg: "route_target_ok u s t \<Longrightarrow> route_target_ok u (set_grp g p s) t" for t
    by (auto simp: route_target_ok_def split: route_nh.splits)
  show "trees_ok (set_grp g p s)" using d(1) g p by (auto simp: trees_ok_def)
  show "vrf_ok (set_grp g p s)" using d(2) by (simp add: vrf_ok_def)
  show "rif_ok (set_grp g p s)" using d(3) by (simp add: rif_ok_def)
  show "nh_ok u (set_grp g p s)" using d(4) by (simp add: nh_ok_def)
  show "nh_tree_ok (set_grp g p s)" using d(5) by (simp add: nh_tree_ok_def)
  show "nh_id_ok u (set_grp g p s)" using d(6) by (simp add: nh_id_ok_def)
  show "route_ok u (set_grp g p s)" using route_okD [OF d(7)] tg unfolding route_ok_def by simp
  show "grp_ok (set_grp g p s)"
    using d(8) p no_route_to_missing_group [OF inv g(1)] by (simp add: grp_ok_def group_weight_def)
  show "grp_tree_ok (set_grp g p s)" using grp_tree_okD [OF d(9)] g unfolding grp_tree_ok_def by fastforce
  show "link_ok u (set_grp g p s)" using d(10) by (simp add: link_ok_def ln)
  show "mac_ok u (set_grp g p s)" using d(11) by (simp add: mac_ok_def)
qed

lemma inv_del_grp:
  assumes inv: "fib_inv u s" and g: "grp_at s g = Some p" "grp_nh_list p = []"
    and z: "route_refs s (RouteNhGroup g) = 0" and t: "\<And>i. tree_get (nh_group_tree s) i \<noteq> Some g"
  shows "fib_inv u (s\<lparr>grp_heap := tree_del g (grp_heap s)\<rparr>)" (is "fib_inv u ?s")
proof (rule fib_invI)
  note d = fib_invD [OF inv]
  have fr: "route_refs ?s = route_refs s" "rif_refs ?s = rif_refs s" "nh_link ?s = nh_link s"
    by (simp_all add: route_refs_def rif_refs_def nh_link_def fun_eq_iff)
  have ln: "grp_link ?s = grp_link s"
    using g by (auto simp: grp_link_def fun_eq_iff)
  show "trees_ok ?s" using d(1) by (auto simp: trees_ok_def)
  show "vrf_ok ?s" using d(2) by (simp add: vrf_ok_def)
  show "rif_ok ?s" using d(3) by (simp add: rif_ok_def fr)
  show "nh_ok u ?s" using d(4) by (simp add: nh_ok_def fr)
  show "nh_tree_ok ?s" using d(5) by (simp add: nh_tree_ok_def)
  show "nh_id_ok u ?s" using d(6) by (simp add: nh_id_ok_def)
  show "route_ok u ?s"
    unfolding route_ok_def
  proof (intro allI impI)
    fix i v k r assume "vrf_at ?s i = Some v" and r: "tree_get (vrf_route_tree v) k = Some r"
    then have v: "vrf_at s i = Some v" by simp
    from route_okD [OF d(7) v r] route_target_zero [OF v r z]
    show "rt_vrf_id r = i \<and> route_target_ok u ?s (rt_nh r)"
      by (auto simp: route_target_ok_def split: route_nh.splits)
  qed
  show "grp_ok ?s" using d(8) by (simp add: grp_ok_def fr)
  show "grp_tree_ok ?s" using grp_tree_okD [OF d(9)] t unfolding grp_tree_ok_def by fastforce
  show "link_ok u ?s" using d(10) by (simp add: link_ok_def ln fr)
  show "mac_ok u ?s" using d(11) by (simp add: mac_ok_def mac_member_ok_def)
qed

section \<open>The neighbor MAC tree\<close>

lemma inv_mac_tree:
  assumes inv: "fib_inv u s" and wf: "tree_wf t"
    and ok: "\<And>k L. tree_get t k = Some L \<Longrightarrow>
      L \<noteq> [] \<and> distinct L \<and> (\<forall>a \<in> set L. mac_member_ok u s k a)"
  shows "fib_inv u (s\<lparr>neighbor_mac_tree := t\<rparr>)"
  using inv wf ok
  by (simp add: fib_inv_def inv_defs count_defs route_target_ok_def mac_member_ok_def
      cong: route_nh.case_cong)

lemma inv_mac_put:
  assumes "fib_inv u s" "L \<noteq> []" "distinct L" "\<And>a. a \<in> set L \<Longrightarrow> mac_member_ok u s k a"
  shows "fib_inv u (s\<lparr>neighbor_mac_tree := tree_put k L (neighbor_mac_tree s)\<rparr>)"
  using assms mac_okD [OF fib_invD(11) [OF assms(1)]] fib_invD(1) [OF assms(1)]
  by (intro inv_mac_tree) (auto simp: trees_ok_def split: if_splits)

lemma inv_mac_del:
  assumes "fib_inv u s"
  shows "fib_inv u (s\<lparr>neighbor_mac_tree := tree_del k (neighbor_mac_tree s)\<rparr>)"
  using assms mac_okD [OF fib_invD(11) [OF assms(1)]] fib_invD(1) [OF assms(1)]
  by (intro inv_mac_tree) (auto simp: trees_ok_def split: if_splits)

section \<open>Creating and freeing a next hop node\<close>

lemma inv_new_nh:
  assumes inv: "fib_inv u s" and a: "nh_at s a = None" "a < next_addr s"
    and i: "vrf_at s (nh_vrf_id n) = Some v" and k: "tree_get (vrf_nh_tree v) (nh_key n) = None"
    and r: "rif_at s (nk_rif_id (nh_key n)) = Some rif" "rif_vrf_id rif = nh_vrf_id n"
    and n: "nk_type (nh_key n) = SAI_NEXT_HOP_IP" "owner_bits_ok u n" "nh_ref_count n = 0"
      "nh_group_list n = []"
  shows "fib_inv u
    (set_rif (nk_rif_id (nh_key n)) (rif\<lparr>rif_ref_count := rif_ref_count rif + 1\<rparr>)
      (set_vrf (nh_vrf_id n) (v\<lparr>vrf_nh_tree := tree_put (nh_key n) a (vrf_nh_tree v)\<rparr>)
        (set_nh a n s)))" (is "fib_inv u (set_rif ?r ?rif' (set_vrf ?i ?v' (set_nh a n s)))" is "fib_inv u ?s")
proof (rule fib_invI)
  note d = fib_invD [OF inv]
  have wf: "tree_wf (vrf_tree s)" using d(1) by (simp add: trees_ok_def)
  have rr: "route_refs ?s t = route_refs s t" for t
    using route_refs_set_vrf_same [OF _ i, of ?v' t] wf by (simp add: route_refs_def)
  have rf: "rif_refs ?s r' = (if r' = ?r then rif_refs s r' + 1 else rif_refs s r')" for r'
    using a by (simp add: rif_refs_def)
  have z: "route_refs s (RouteNh a) = 0"
  proof -
    have "vrf_route_refs (RouteNh a) w = 0" if "(j, w) \<in> set (vrf_tree s)" for j w
    proof -
      have w: "vrf_at s j = Some w" using that wf by (simp add: tree_get_iff_in_set)
      show ?thesis unfolding vrf_route_refs_def
      proof (rule asum_zeroI)
        fix k r assume "(k, r) \<in> set (vrf_route_tree w)"
        then have "tree_get (vrf_route_tree w) k = Some r"
          using d(1) w by (auto simp: trees_ok_def tree_get_iff_in_set)
        from route_okD [OF d(7) w this] a
        show "(if rt_nh r = RouteNh a then 1 else (0::nat)) = 0"
          by (auto simp: route_target_ok_def)
      qed
    qed
    then show ?thesis unfolding route_refs_def by (intro asum_zeroI) auto
  qed
  have ln: "nh_link ?s = nh_link s" using a n by (auto simp: nh_link_def fun_eq_iff)
  have tg: "route_target_ok u s t \<Longrightarrow> route_target_ok u ?s t" for t
    using a by (auto simp: route_target_ok_def split: route_nh.splits option.splits)
  show "trees_ok ?s" using d(1) i a n by (auto simp: trees_ok_def)
  show "vrf_ok ?s" using d(2) i r by (simp add: vrf_ok_def) (metis option.inject)
  show "rif_ok ?s"
    unfolding rif_ok_def
  proof (intro allI impI)
    fix r1 m assume "rif_at ?s r1 = Some m"
    then obtain m0 where m0: "rif_at s r1 = Some m0"
      and m: "m = (if r1 = ?r then ?rif' else m0)" using r by (auto split: if_splits)
    obtain w where "rif_id m0 = r1" "vrf_at s (rif_vrf_id m0) = Some w" "r1 \<in> set (vrf_rif_list w)"
      "rif_ref_count m0 = of_nat (rif_refs s r1)" by (rule rif_okD [OF d(3) m0])
    then show "rif_id m = r1 \<and>
        (\<exists>v. vrf_at ?s (rif_vrf_id m) = Some v \<and> r1 \<in> set (vrf_rif_list v)) \<and>
        rif_ref_count m = of_nat (rif_refs ?s r1)"
      using m m0 r i rf [of r1] by auto
  qed
  show "nh_ok u ?s"
    unfolding nh_ok_def
  proof (intro allI impI)
    fix b m assume m: "nh_at ?s b = Some m"
    show "nk_type (nh_key m) = SAI_NEXT_HOP_IP \<and>
        (\<exists>v. vrf_at ?s (nh_vrf_id m) = Some v \<and> tree_get (vrf_nh_tree v) (nh_key m) = Some b) \<and>
        (\<exists>rif. rif_at ?s (nk_rif_id (nh_key m)) = Some rif \<and> rif_vrf_id rif = nh_vrf_id m) \<and>
        owner_bits_ok u m \<and> nh_ref_count m = of_nat (route_refs ?s (RouteNh b))"
    proof (cases "b = a")
      case True
      with m r n z rr show ?thesis by simp
    next
      case False
      with m have "nh_at s b = Some m" by simp
      then obtain w rif1 where "nk_type (nh_key m) = SAI_NEXT_HOP_IP"
        "vrf_at s (nh_vrf_id m) = Some w" "tree_get (vrf_nh_tree w) (nh_key m) = Some b"
        "rif_at s (nk_rif_id (nh_key m)) = Some rif1" "rif_vrf_id rif1 = nh_vrf_id m"
        "owner_bits_ok u m" "nh_ref_count m = of_nat (route_refs s (RouteNh b))"
        by (rule nh_okD [OF d(4)])
      with i k r show ?thesis unfolding rr by auto
    qed
  qed
  show "nh_tree_ok ?s"
    using nh_tree_okD [OF d(5)] i k a unfolding nh_tree_ok_def
    by (simp split: if_splits) (metis option.distinct(1) option.inject)
  show "nh_id_ok u ?s" using nh_id_okD [OF d(6)] a unfolding nh_id_ok_def by fastforce
  show "route_ok u ?s"
    using route_okD [OF d(7)] i tg unfolding route_ok_def by (simp split: if_splits)
  show "grp_ok ?s" using d(8) unfolding grp_ok_def rr by simp
  show "grp_tree_ok ?s" using d(9) by (simp add: grp_tree_ok_def)
  show "link_ok u ?s"
    using link_okD [OF d(10)] link_ok_sym [OF d(10)] a unfolding link_ok_def ln by fastforce
  have "mac_member_ok u ?s k b" if m: "mac_member_ok u s k b" for k b
    using m r a unfolding mac_member_ok_def by fastforce
  then show "mac_ok u ?s" using mac_okD [OF d(11)] unfolding mac_ok_def by simp
qed

lemma inv_del_nh:
  assumes u: "util_ok u" and inv: "fib_inv u s" and a: "nh_at s a = Some n" and own: "nh_owner_flag n = 0"
    and i: "vrf_at s (nh_vrf_id n) = Some v"
    and r: "rif_at s (nk_rif_id (nh_key n)) = Some rif"
  shows "fib_inv u (sai_fib_nh_node_free a
    (set_rif (nk_rif_id (nh_key n)) (rif\<lparr>rif_ref_count := rif_ref_count rif - 1\<rparr>)
      (set_vrf (nh_vrf_id n) (v\<lparr>vrf_nh_tree := tree_del (nh_key n) (vrf_nh_tree v)\<rparr>) s)))"
    (is "fib_inv u (sai_fib_nh_node_free a (set_rif ?r ?rif' (set_vrf ?i ?v' s)))" is "fib_inv u ?s")
proof (rule fib_invI)
  note d = fib_invD [OF inv]
  have wf: "tree_wf (vrf_tree s)" "tree_wf (nh_heap s)" using d(1) by (simp_all add: trees_ok_def)
  have sel: "vrf_tree ?s = tree_put ?i ?v' (vrf_tree s)"
    "router_interface_tree ?s = tree_put ?r ?rif' (router_interface_tree s)"
    "nh_heap ?s = tree_del a (nh_heap s)" "grp_heap ?s = grp_heap s" "nh_id_tree ?s = nh_id_tree s"
    "nh_group_tree ?s = nh_group_tree s" "neighbor_mac_tree ?s = neighbor_mac_tree s"
    "next_addr ?s = next_addr s"
    by (simp_all add: sai_fib_nh_node_free_def)
  have notown: "\<not> is_owner u f n" for f
    using own u by (simp add: is_owner_bit)
  note none = no_links_if_not_owner [OF inv a notown]
  have rr: "route_refs ?s t = route_refs s t" for t
    using route_refs_set_vrf_same [OF wf(1) i, of ?v' t] by (simp add: route_refs_def sel)
  have rf: "rif_refs ?s r' + (if r' = ?r then 1 else 0) = rif_refs s r'" for r'
    using asum_del [OF wf(2) a, of "\<lambda>n. if nk_rif_id (nh_key n) = r' then 1 else 0"]
    by (auto simp: rif_refs_def sel)
  have ln: "nh_link ?s = nh_link s" "grp_link ?s = grp_link s"
    using a none(2) by (auto simp: nh_link_def grp_link_def fun_eq_iff sel)
  have uniq: "b = a" if "tree_get (vrf_nh_tree w) (nh_key n) = Some b" "vrf_at s (nh_vrf_id n) = Some w" for b w
    using nh_okD [OF d(4) a] that by (metis option.inject)
  show "trees_ok ?s" using d(1) i by (auto simp: trees_ok_def sel)
  show "vrf_ok ?s" using d(2) i r by (simp add: vrf_ok_def sel) (metis option.inject)
  show "rif_ok ?s"
  proof -
    have "of_nat (rif_refs s ?r) = (of_nat (rif_refs ?s ?r + 1) :: u32)"
      using rf [of ?r] by simp
    then have dec: "(of_nat (rif_refs s ?r) :: u32) - 1 = of_nat (rif_refs ?s ?r)" by simp
    show ?thesis
      unfolding rif_ok_def
    proof (intro allI impI)
      fix r1 m assume "rif_at ?s r1 = Some m"
      then obtain m0 where m0: "rif_at s r1 = Some m0"
        and m: "m = (if r1 = ?r then ?rif' else m0)" using r by (auto simp: sel split: if_splits)
      obtain w where w: "rif_id m0 = r1" "vrf_at s (rif_vrf_id m0) = Some w"
        "r1 \<in> set (vrf_rif_list w)" and cnt: "rif_ref_count m0 = of_nat (rif_refs s r1)"
        by (rule rif_okD [OF d(3) m0])
      have "rif_ref_count m = of_nat (rif_refs ?s r1)"
      proof (cases "r1 = ?r")
        case True
        with m m0 r cnt have "rif_ref_count m = of_nat (rif_refs s ?r) - 1" by simp
        then show ?thesis unfolding True dec .
      next
        case False
        with rf [of r1] have "rif_refs ?s r1 = rif_refs s r1" by simp
        with False m cnt show ?thesis by (simp only: if_False)
      qed
      moreover have "rif_id m = r1" "rif_vrf_id m = rif_vrf_id m0" using m w m0 r by auto
      moreover have "\<exists>v. vrf_at ?s (rif_vrf_id m0) = Some v \<and> r1 \<in> set (vrf_rif_list v)"
        using w i by (auto simp: sel)
      ultimately show "rif_id m = r1 \<and>
          (\<exists>v. vrf_at ?s (rif_vrf_id m) = Some v \<and> r1 \<in> set (vrf_rif_list v)) \<and>
          rif_ref_count m = of_nat (rif_refs ?s r1)" by (simp only: simp_thms)
    qed
  qed
  show "nh_ok u ?s"
    unfolding nh_ok_def
  proof (intro allI impI)
    fix b m assume "nh_at ?s b = Some m"
    then have m: "nh_at s b = Some m" "b \<noteq> a" by (auto simp: sel split: if_splits)
    obtain w rif1 where w: "nk_type (nh_key m) = SAI_NEXT_HOP_IP"
      "vrf_at s (nh_vrf_id m) = Some w" "tree_get (vrf_nh_tree w) (nh_key m) = Some b"
      "rif_at s (nk_rif_id (nh_key m)) = Some rif1" "rif_vrf_id rif1 = nh_vrf_id m"
      "owner_bits_ok u m" "nh_ref_count m = of_nat (route_refs s (RouteNh b))"
      by (rule nh_okD [OF d(4) m(1)])
    have "nh_key m \<noteq> nh_key n \<or> nh_vrf_id m \<noteq> nh_vrf_id n"
      using m(2) uniq [of w b] w(2,3) by auto
    with w i r show "nk_type (nh_key m) = SAI_NEXT_HOP_IP \<and>
        (\<exists>v. vrf_at ?s (nh_vrf_id m) = Some v \<and> tree_get (vrf_nh_tree v) (nh_key m) = Some b) \<and>
        (\<exists>rif. rif_at ?s (nk_rif_id (nh_key m)) = Some rif \<and> rif_vrf_id rif = nh_vrf_id m) \<and>
        owner_bits_ok u m \<and> nh_ref_count m = of_nat (route_refs ?s (RouteNh b))"
      unfolding rr sel by auto
  qed
  show "nh_tree_ok ?s"
    unfolding nh_tree_ok_def
  proof (intro allI impI)
    fix j w k b assume w: "vrf_at ?s j = Some w" and b: "tree_get (vrf_nh_tree w) k = Some b"
    obtain w0 where w0: "vrf_at s j = Some w0" "tree_get (vrf_nh_tree w0) k = Some b"
      and ne: "j = nh_vrf_id n \<longrightarrow> k \<noteq> nh_key n"
      using w b i by (auto simp: sel split: if_splits)
    from nh_tree_okD [OF d(5) w0] obtain m
      where m: "nh_at s b = Some m" "nh_key m = k" "nh_vrf_id m = j" by auto
    with ne a have "b \<noteq> a" by auto
    with m show "\<exists>m. nh_at ?s b = Some m \<and> nh_key m = k \<and> nh_vrf_id m = j" by (simp add: sel)
  qed
  show "nh_id_ok u ?s" using nh_id_okD [OF d(6)] none(3) unfolding nh_id_ok_def sel by fastforce
  show "route_ok u ?s"
    unfolding route_ok_def
  proof (intro allI impI)
    fix j w k b assume w: "vrf_at ?s j = Some w" and b: "tree_get (vrf_route_tree w) k = Some b"
    obtain w0 where w0: "vrf_at s j = Some w0" "tree_get (vrf_route_tree w0) k = Some b"
      using w b i by (auto simp: sel split: if_splits)
    from route_okD [OF d(7) w0] route_target_zero [OF w0 none(1)]
    show "rt_vrf_id b = j \<and> route_target_ok u ?s (rt_nh b)"
      by (auto simp: route_target_ok_def sel split: route_nh.splits)
  qed
  show "grp_ok ?s" using d(8) by (simp add: grp_ok_def rr sel)
  show "grp_tree_ok ?s" using d(9) by (simp add: grp_tree_ok_def sel)
  show "link_ok u ?s"
    using link_okD [OF d(10)] link_ok_sym [OF d(10)] a notown unfolding link_ok_def ln sel by fastforce
  have "mac_member_ok u ?s k b" if m: "mac_member_ok u s k b" for k b
    using m r a notown unfolding mac_member_ok_def sel by fastforce
  then show "mac_ok u ?s" using mac_okD [OF d(11)] unfolding mac_ok_def sel by simp
qed

lemma hw_only_inv: "hw_only s s' \<Longrightarrow> fib_inv u s' = fib_inv u s"
  by (auto simp: hw_only_def)

lemma hw_only_bounded: "hw_only s s' \<Longrightarrow> fib_bounded s' = fib_bounded s"
  by (auto simp: hw_only_def)

end
