(* ===== verification/Fib_Group.thy ===== *)
theory Fib_Group
  imports Fib_Inv
begin

text \<open>
  Next hop groups: \<^verbatim>\<open>src/src/routing/sai_l3_next_hop_group.c\<close>. A group and its next hops point at
  each other through two weighted link lists, one in the group (\<open>grp_nh_list\<close>) and one in each next
  hop (\<open>nh_group_list\<close>); a next hop added more than once has that weight (WCMP). The first part
  translates the file function by function, the second shows what the link lists compute.

  A list argument stands for the array of that many entries; \<open>ap_next_hop\<close> is the scratch array of
  next hop nodes that a list attribute overwrites from its first entry on. A pointer whose node is
  not in the heap is dereferenced nowhere: the invariant of \<open>Fib_Inv\<close> rules it out, and the
  definitions leave the state alone there.
\<close>

section \<open>Checks\<close>

definition sai_fib_next_hop_group_type_validate :: "sai_next_hop_group_type \<Rightarrow> bool" where
  "sai_fib_next_hop_group_type_validate ty =
     (case ty of SAI_NEXT_HOP_GROUP_ECMP \<Rightarrow> True | _ \<Rightarrow> False)"

definition sai_fib_is_nh_group_used :: "nh_group \<Rightarrow> bool" where
  "sai_fib_is_nh_group_used g \<longleftrightarrow> grp_ref_count g \<noteq> 0"

definition sai_fib_is_nh_group_size_valid :: "'h fib \<Rightarrow> nh_group \<Rightarrow> u32 \<Rightarrow> bool" where
  "sai_fib_is_nh_group_size_valid s g next_hop_count =
     (if grp_nh_count g + next_hop_count > max_ecmp_paths s then False else True)"

section \<open>The two weighted link lists\<close>

definition sai_fib_nh_add_group_link_node ::
    "'h l3_env \<Rightarrow> addr \<Rightarrow> addr \<Rightarrow> 'h fib \<Rightarrow> bool \<times> 'h fib" where
  "sai_fib_nh_add_group_link_node e a g s =
     (case nh_at s a of
        None \<Rightarrow> (False, s)
      | Some n \<Rightarrow>
          (case tree_get (nh_group_list n) g of
             Some w \<Rightarrow>
               (True, set_nh a (n\<lparr>nh_group_list := tree_put g (w + 1) (nh_group_list n)\<rparr>) s)
           | None \<Rightarrow>
               (let (link, s) = sai_fib_weighted_link_node_alloc e s
                in case link of
                     None \<Rightarrow> (False, s)
                   | Some w \<Rightarrow>
                       (True, set_nh a (n\<lparr>nh_group_list := tree_put g (w + 1) (nh_group_list n)\<rparr>) s))))"

definition sai_fib_nh_remove_group_link_node :: "addr \<Rightarrow> addr \<Rightarrow> 'h fib \<Rightarrow> 'h fib" where
  "sai_fib_nh_remove_group_link_node a g s =
     (case nh_at s a of
        None \<Rightarrow> s
      | Some n \<Rightarrow>
          (case tree_get (nh_group_list n) g of
             None \<Rightarrow> s
           | Some w \<Rightarrow>
               if w > 0 then
                 (if w - 1 = 0
                  then set_nh a (n\<lparr>nh_group_list := tree_del g (nh_group_list n)\<rparr>) s
                  else set_nh a (n\<lparr>nh_group_list := tree_put g (w - 1) (nh_group_list n)\<rparr>) s)
               else s))"

definition sai_fib_nh_find_and_remove_group_node :: "addr \<Rightarrow> addr \<Rightarrow> 'h fib \<Rightarrow> 'h fib" where
  "sai_fib_nh_find_and_remove_group_node a g s =
     (case nh_at s a of
        None \<Rightarrow> s
      | Some n \<Rightarrow>
          (case tree_get (nh_group_list n) g of
             Some _ \<Rightarrow> sai_fib_nh_remove_group_link_node a g s
           | None \<Rightarrow> s))"

definition sai_fib_nh_group_add_nh_link_node ::
    "'h l3_env \<Rightarrow> addr \<Rightarrow> addr \<Rightarrow> 'h fib \<Rightarrow> bool \<times> 'h fib" where
  "sai_fib_nh_group_add_nh_link_node e g a s =
     (case grp_at s g of
        None \<Rightarrow> (False, s)
      | Some p \<Rightarrow>
          (case tree_get (grp_nh_list p) a of
             Some w \<Rightarrow>
               (True, set_grp g (p\<lparr>grp_nh_list := tree_put a (w + 1) (grp_nh_list p)\<rparr>) s)
           | None \<Rightarrow>
               (let (link, s) = sai_fib_weighted_link_node_alloc e s
                in case link of
                     None \<Rightarrow> (False, s)
                   | Some w \<Rightarrow>
                       (True, set_grp g (p\<lparr>grp_nh_list := tree_put a (w + 1) (grp_nh_list p)\<rparr>) s))))"

definition sai_fib_nh_group_remove_nh_link_node :: "addr \<Rightarrow> addr \<Rightarrow> 'h fib \<Rightarrow> 'h fib" where
  "sai_fib_nh_group_remove_nh_link_node g a s =
     (case grp_at s g of
        None \<Rightarrow> s
      | Some p \<Rightarrow>
          (case tree_get (grp_nh_list p) a of
             None \<Rightarrow> s
           | Some w \<Rightarrow>
               if w > 0 then
                 (if w - 1 = 0
                  then set_grp g (p\<lparr>grp_nh_list := tree_del a (grp_nh_list p)\<rparr>) s
                  else set_grp g (p\<lparr>grp_nh_list := tree_put a (w - 1) (grp_nh_list p)\<rparr>) s)
               else s))"

definition grp_count_add :: "addr \<Rightarrow> u32 \<Rightarrow> 'h fib \<Rightarrow> 'h fib" where
  "grp_count_add g d s =
     (case grp_at s g of None \<Rightarrow> s | Some p \<Rightarrow> set_grp g (p\<lparr>grp_nh_count := grp_nh_count p + d\<rparr>) s)"

definition sai_fib_nh_group_find_and_remove_nh_node :: "addr \<Rightarrow> addr \<Rightarrow> 'h fib \<Rightarrow> 'h fib" where
  "sai_fib_nh_group_find_and_remove_nh_node g a s =
     (case grp_at s g of
        None \<Rightarrow> s
      | Some p \<Rightarrow>
          (case tree_get (grp_nh_list p) a of
             Some _ \<Rightarrow> grp_count_add g (- 1) (sai_fib_nh_group_remove_nh_link_node g a s)
           | None \<Rightarrow> s))"

fun sai_fib_nh_group_remove_from_lists :: "addr \<Rightarrow> addr list \<Rightarrow> 'h fib \<Rightarrow> 'h fib" where
  "sai_fib_nh_group_remove_from_lists g [] s = s"
| "sai_fib_nh_group_remove_from_lists g (a # as) s =
     sai_fib_nh_group_remove_from_lists g as
       (sai_fib_nh_group_find_and_remove_nh_node g a
         (sai_fib_nh_find_and_remove_group_node a g s))"

text \<open>
  The body of the loop of \<open>sai_fib_nh_group_add_in_lists\<close> (false: it breaks), and the loop, which
  returns the index it stopped at.
\<close>

definition add_in_lists_step :: "'h l3_env \<Rightarrow> addr \<Rightarrow> addr \<Rightarrow> 'h fib \<Rightarrow> bool \<times> 'h fib" where
  "add_in_lists_step e g a s =
     (let (ok, s) = sai_fib_nh_add_group_link_node e a g s
      in if \<not> ok then (False, s)
         else let (ok, s) = sai_fib_nh_group_add_nh_link_node e g a s
              in if \<not> ok then (False, sai_fib_nh_remove_group_link_node a g s)
                 else (True, grp_count_add g 1 s))"

fun add_in_lists_loop ::
    "'h l3_env \<Rightarrow> addr \<Rightarrow> addr list \<Rightarrow> nat \<Rightarrow> 'h fib \<Rightarrow> nat \<times> 'h fib" where
  "add_in_lists_loop e g [] i s = (i, s)"
| "add_in_lists_loop e g (a # as) i s =
     (let (ok, s) = add_in_lists_step e g a s
      in if ok then add_in_lists_loop e g as (i + 1) s else (i, s))"

definition sai_fib_nh_group_add_in_lists ::
    "'h l3_env \<Rightarrow> addr \<Rightarrow> addr list \<Rightarrow> 'h fib \<Rightarrow> sai_status \<times> 'h fib" where
  "sai_fib_nh_group_add_in_lists e g ap_next_hop s =
     (let (nh_index, s) = add_in_lists_loop e g ap_next_hop 0 s
      in if nh_index \<noteq> 0 \<and> nh_index \<noteq> length ap_next_hop
         then (SAI_STATUS_NO_MEMORY,
               sai_fib_nh_group_remove_from_lists g (take nh_index ap_next_hop) s)
         else (SAI_STATUS_SUCCESS, s))"

section \<open>Attribute lists\<close>

text \<open>
  Resolving the next hop ids: the nodes, or the status of the first id that is refused. With
  \<open>is_remove\<close> each must be a member of the group. The nodes are written to an array that every caller
  allocates with \<open>sai_fib_max_ecmp_paths_get\<close> entries; \<open>room\<close> is what is left of it. The function does
  not look at the size of the array: a write past its end is not defined.
\<close>

fun fill_from_nh_id_list_loop ::
    "'h l3_env \<Rightarrow> 'h fib \<Rightarrow> addr \<Rightarrow> oid list \<Rightarrow> bool \<Rightarrow> nat \<Rightarrow> sai_status + addr list" where
  "fill_from_nh_id_list_loop e s g [] is_remove room = Inr []"
| "fill_from_nh_id_list_loop e s g (x # xs) is_remove room =
     (if \<not> is_obj_id e SAI_OBJECT_TYPE_NEXT_HOP x then Inl SAI_STATUS_INVALID_OBJECT_TYPE
      else case tree_get (nh_id_tree s) x of
        None \<Rightarrow> Inl SAI_STATUS_INVALID_OBJECT_ID
      | Some a \<Rightarrow>
          if is_remove \<and>
             (case grp_at s g of None \<Rightarrow> True | Some p \<Rightarrow> tree_get (grp_nh_list p) a = None)
          then Inl SAI_STATUS_INVALID_OBJECT_ID
          else if room = 0 then Inl UNDEFINED_BEHAVIOUR
          else map_sum id (\<lambda>as. a # as) (fill_from_nh_id_list_loop e s g xs is_remove (room - 1)))"

definition sai_fib_next_hop_fill_from_nh_id_list ::
    "'h l3_env \<Rightarrow> 'h fib \<Rightarrow> addr \<Rightarrow> oid list \<Rightarrow> bool \<Rightarrow> sai_status + addr list" where
  "sai_fib_next_hop_fill_from_nh_id_list e s g ids is_remove =
     (if (of_nat (length ids) :: u32) = 0 then Inl SAI_STATUS_INVALID_PARAMETER
      else fill_from_nh_id_list_loop e s g ids is_remove (unat (max_ecmp_paths s)))"

text \<open>Writing nodes to the scratch array from its first entry on.\<close>

definition ap_write :: "addr list \<Rightarrow> addr list \<Rightarrow> addr list" where
  "ap_write new old = new @ drop (length new) old"

definition sai_fib_next_hop_group_next_hop_list_set ::
    "'h l3_env \<Rightarrow> addr \<Rightarrow> oid list \<Rightarrow> bool \<Rightarrow> addr list \<Rightarrow> 'h fib \<Rightarrow> sai_status \<times> addr list \<times> 'h fib" where
  "sai_fib_next_hop_group_next_hop_list_set e g ids is_create_req ap s =
     (if \<not> is_create_req then (SAI_STATUS_INVALID_ATTRIBUTE_0, ap, s)
      else case grp_at s g of
        None \<Rightarrow> (SAI_STATUS_FAILURE, ap, s)
      | Some p \<Rightarrow>
          if \<not> sai_fib_is_nh_group_size_valid s p (of_nat (length ids))
          then (SAI_STATUS_INSUFFICIENT_RESOURCES, ap, s)
          else case sai_fib_next_hop_fill_from_nh_id_list e s g ids False of
            Inl status \<Rightarrow> (status, ap, s)
          | Inr nodes \<Rightarrow>
              (let (status, s) = sai_fib_nh_group_add_in_lists e g nodes s
               in (status, ap_write nodes ap, s)))"

definition sai_fib_next_hop_group_type_set ::
    "addr \<Rightarrow> sai_next_hop_group_type \<Rightarrow> bool \<Rightarrow> 'h fib \<Rightarrow> sai_status \<times> 'h fib" where
  "sai_fib_next_hop_group_type_set g ty is_create_req s =
     (if \<not> is_create_req then (SAI_STATUS_INVALID_ATTRIBUTE_0, s)
      else if \<not> sai_fib_next_hop_group_type_validate ty then (SAI_STATUS_INVALID_ATTR_VALUE_0, s)
      else case grp_at s g of
        None \<Rightarrow> (SAI_STATUS_FAILURE, s)
      | Some p \<Rightarrow> (SAI_STATUS_SUCCESS, set_grp g (p\<lparr>grp_type := ty\<rparr>) s))"

text \<open>One attribute: its status, the two flags \<open>attr_flag\<close> holds, the array and the state.\<close>

definition group_attr_set ::
    "'h l3_env \<Rightarrow> addr \<Rightarrow> nhg_attr \<Rightarrow> bool \<Rightarrow> bool \<times> bool \<Rightarrow> addr list \<Rightarrow> 'h fib
     \<Rightarrow> sai_status \<times> (bool \<times> bool) \<times> addr list \<times> 'h fib" where
  "group_attr_set e g attr is_create flags ap s =
     (case attr of
        SAI_NEXT_HOP_GROUP_ATTR_TYPE ty \<Rightarrow>
          (let (status, s) = sai_fib_next_hop_group_type_set g ty is_create s
           in (status, (True, snd flags), ap, s))
      | SAI_NEXT_HOP_GROUP_ATTR_NEXT_HOP_LIST ids \<Rightarrow>
          (let (status, ap, s) = sai_fib_next_hop_group_next_hop_list_set e g ids is_create ap s
           in (status, (fst flags, True), ap, s))
      | SAI_NEXT_HOP_GROUP_ATTR_NEXT_HOP_COUNT \<Rightarrow> (SAI_STATUS_INVALID_ATTRIBUTE_0, flags, ap, s)
      | NHG_ATTR_UNKNOWN _ \<Rightarrow> (SAI_STATUS_UNKNOWN_ATTRIBUTE_0, flags, ap, s))"

fun group_info_fill_loop ::
    "'h l3_env \<Rightarrow> addr \<Rightarrow> nhg_attr list \<Rightarrow> nat \<Rightarrow> bool \<Rightarrow> bool \<times> bool \<Rightarrow> addr list \<Rightarrow> 'h fib
     \<Rightarrow> sai_status \<times> (bool \<times> bool) \<times> addr list \<times> 'h fib" where
  "group_info_fill_loop e g [] i is_create flags ap s = (SAI_STATUS_SUCCESS, flags, ap, s)"
| "group_info_fill_loop e g (attr # attrs) i is_create flags ap s =
     (let (status, flags, ap, s) = group_attr_set e g attr is_create flags ap s
      in if status \<noteq> SAI_STATUS_SUCCESS
         then (if status = UNDEFINED_BEHAVIOUR then status else sai_fib_attr_status_code_get (util e) status i,
               flags, ap, s)
         else group_info_fill_loop e g attrs (i + 1) is_create flags ap s)"

definition sai_fib_next_hop_group_info_fill ::
    "'h l3_env \<Rightarrow> addr \<Rightarrow> nhg_attr list \<Rightarrow> bool \<Rightarrow> addr list \<Rightarrow> 'h fib
     \<Rightarrow> sai_status \<times> addr list \<times> 'h fib" where
  "sai_fib_next_hop_group_info_fill e g attrs is_create ap s =
     (if attrs = [] then (SAI_STATUS_INVALID_PARAMETER, ap, s)
      else let (status, (type_set, list_set), ap, s) =
                 group_info_fill_loop e g attrs 0 is_create (False, False) ap s
           in if status \<noteq> SAI_STATUS_SUCCESS then (status, ap, s)
              else if is_create \<and> (\<not> type_set \<or> \<not> list_set)
              then (SAI_STATUS_MANDATORY_ATTRIBUTE_MISSING, ap, s)
              else (SAI_STATUS_SUCCESS, ap, s))"

section \<open>Removing all next hops of a group\<close>

text \<open>
  The loop runs over the links of the group as they are at its start: the successor is read before
  a link is removed.
\<close>

fun remove_all_nh_loop :: "addr \<Rightarrow> (addr \<times> u32) list \<Rightarrow> 'h fib \<Rightarrow> 'h fib" where
  "remove_all_nh_loop g [] s = s"
| "remove_all_nh_loop g ((a, _) # links) s =
     (let s = (case grp_at s g of
                 None \<Rightarrow> s
               | Some p \<Rightarrow> set_grp g (p\<lparr>grp_nh_list := tree_put a 1 (grp_nh_list p)\<rparr>) s);
          s = sai_fib_nh_group_remove_nh_link_node g a s;
          s = (case nh_at s a of
                 None \<Rightarrow> s
               | Some n \<Rightarrow>
                   (case tree_get (nh_group_list n) g of
                      None \<Rightarrow> s
                    | Some _ \<Rightarrow>
                        sai_fib_nh_remove_group_link_node a g
                          (set_nh a (n\<lparr>nh_group_list := tree_put g 1 (nh_group_list n)\<rparr>) s)))
      in remove_all_nh_loop g links s)"

definition sai_fib_nh_group_remove_all_nh :: "addr \<Rightarrow> 'h fib \<Rightarrow> 'h fib" where
  "sai_fib_nh_group_remove_all_nh g s =
     (case grp_at s g of
        None \<Rightarrow> s
      | Some p \<Rightarrow>
          (let s = remove_all_nh_loop g (grp_nh_list p) s
           in case grp_at s g of
                None \<Rightarrow> s
              | Some p \<Rightarrow> set_grp g (p\<lparr>grp_nh_count := 0\<rparr>) s))"

section \<open>The API\<close>

text \<open>
  Creation. The result has the group id when \<open>*p_next_hop_group_id\<close> was written. A failed insertion
  into the group tree leaves the loop with the success status of the hardware call.
\<close>

definition group_create_npu ::
    "'h l3_env \<Rightarrow> addr \<Rightarrow> addr list \<Rightarrow> 'h fib \<Rightarrow> sai_status \<times> oid option \<times> 'h fib" where
  "group_create_npu e g ap s =
     (case grp_at s g of
        None \<Rightarrow> (SAI_STATUS_FAILURE, None, s)
      | Some p \<Rightarrow>
          (let ((status, hw_id), s) = hw_call (nh_group_create (nh_group_npu e) p (grp_nh_count p) ap) s
           in if status \<noteq> SAI_STATUS_SUCCESS then (status, None, s)
              else let gid = sai_uoid_create (util e) SAI_OBJECT_TYPE_NEXT_HOP_GROUP hw_id;
                       p = p\<lparr>grp_id := gid\<rparr>;
                       s = set_grp g p s;
                       (ok, s) = rbtree_insert_ok e (nh_group_tree s) gid s
                   in if ok
                      then (status, Some gid, s\<lparr>nh_group_tree := tree_put gid g (nh_group_tree s)\<rparr>)
                      else let (_, s) = hw_call (nh_group_remove (nh_group_npu e) p) s
                           in (status, Some gid, s)))"

definition sai_fib_next_hop_group_create ::
    "'h l3_env \<Rightarrow> nhg_attr list \<Rightarrow> 'h fib \<Rightarrow> sai_status \<times> oid option \<times> 'h fib" where
  "sai_fib_next_hop_group_create e attrs s =
     (let (node, s) = sai_fib_nh_group_node_alloc e s
      in case node of
        None \<Rightarrow> (SAI_STATUS_NO_MEMORY, None, s)
      | Some g \<Rightarrow>
          (let (list_ok, s) = hw_call (calloc_ok (plat e)) s
           in if \<not> list_ok then (SAI_STATUS_NO_MEMORY, None, sai_fib_nh_group_node_free g s)
              else let (status, ap, s) = sai_fib_next_hop_group_info_fill e g attrs True [] s;
                       (status, out, s) =
                         (if status \<noteq> SAI_STATUS_SUCCESS then (status, None, s)
                          else group_create_npu e g ap s)
                   in if status \<noteq> SAI_STATUS_SUCCESS
                      then (status, out,
                            sai_fib_nh_group_node_free g
                              (case grp_at s g of
                                 None \<Rightarrow> s
                               | Some p \<Rightarrow>
                                   if grp_nh_count p \<noteq> 0 then sai_fib_nh_group_remove_all_nh g s else s))
                      else (status, out, s)))"

definition sai_fib_next_hop_group_remove ::
    "'h l3_env \<Rightarrow> oid \<Rightarrow> 'h fib \<Rightarrow> sai_status \<times> 'h fib" where
  "sai_fib_next_hop_group_remove e nh_group_id s =
     (if \<not> is_obj_id e SAI_OBJECT_TYPE_NEXT_HOP_GROUP nh_group_id
      then (SAI_STATUS_INVALID_OBJECT_TYPE, s)
      else case tree_get (nh_group_tree s) nh_group_id of
        None \<Rightarrow> (SAI_STATUS_INVALID_OBJECT_ID, s)
      | Some g \<Rightarrow>
          (case grp_at s g of
             None \<Rightarrow> (SAI_STATUS_INVALID_OBJECT_ID, s)
           | Some p \<Rightarrow>
               if sai_fib_is_nh_group_used p then (SAI_STATUS_OBJECT_IN_USE, s)
               else let (status, s) = hw_call (nh_group_remove (nh_group_npu e) p) s
                    in if status \<noteq> SAI_STATUS_SUCCESS then (status, s)
                       else let s = (if grp_nh_count p \<noteq> 0
                                     then sai_fib_nh_group_remove_all_nh g s else s);
                                s = s\<lparr>nh_group_tree := tree_del (grp_id p) (nh_group_tree s)\<rparr>
                            in (status, sai_fib_nh_group_node_free g s)))"

definition sai_fib_next_hop_add_to_group ::
    "'h l3_env \<Rightarrow> oid \<Rightarrow> oid list \<Rightarrow> 'h fib \<Rightarrow> sai_status \<times> 'h fib" where
  "sai_fib_next_hop_add_to_group e nh_group_id ids s =
     (if \<not> is_obj_id e SAI_OBJECT_TYPE_NEXT_HOP_GROUP nh_group_id
      then (SAI_STATUS_INVALID_OBJECT_TYPE, s)
      else let (list_ok, s) = hw_call (calloc_ok (plat e)) s
           in if \<not> list_ok then (SAI_STATUS_NO_MEMORY, s)
              else case tree_get (nh_group_tree s) nh_group_id of
                None \<Rightarrow> (SAI_STATUS_INVALID_OBJECT_ID, s)
              | Some g \<Rightarrow>
                  (case grp_at s g of
                     None \<Rightarrow> (SAI_STATUS_INVALID_OBJECT_ID, s)
                   | Some p \<Rightarrow>
                       if \<not> sai_fib_is_nh_group_size_valid s p (of_nat (length ids))
                       then (SAI_STATUS_INSUFFICIENT_RESOURCES, s)
                       else case sai_fib_next_hop_fill_from_nh_id_list e s g ids False of
                         Inl status \<Rightarrow> (status, s)
                       | Inr ap \<Rightarrow>
                           (let (status, s) = sai_fib_nh_group_add_in_lists e g ap s
                            in if status \<noteq> SAI_STATUS_SUCCESS then (status, s)
                               else case grp_at s g of
                                 None \<Rightarrow> (SAI_STATUS_FAILURE, s)
                               | Some p \<Rightarrow>
                                   (let (status, s) =
                                          hw_call (add_nh_to_group (nh_group_npu e) p
                                                     (of_nat (length ids)) ap) s
                                    in if status \<noteq> SAI_STATUS_SUCCESS
                                       then (status, sai_fib_nh_group_remove_from_lists g ap s)
                                       else (status, s)))))"

definition sai_fib_next_hop_remove_from_group ::
    "'h l3_env \<Rightarrow> oid \<Rightarrow> oid list \<Rightarrow> 'h fib \<Rightarrow> sai_status \<times> 'h fib" where
  "sai_fib_next_hop_remove_from_group e nh_group_id ids s =
     (if \<not> is_obj_id e SAI_OBJECT_TYPE_NEXT_HOP_GROUP nh_group_id
      then (SAI_STATUS_INVALID_OBJECT_TYPE, s)
      else let (list_ok, s) = hw_call (calloc_ok (plat e)) s
           in if \<not> list_ok then (SAI_STATUS_NO_MEMORY, s)
              else case tree_get (nh_group_tree s) nh_group_id of
                None \<Rightarrow> (SAI_STATUS_INVALID_OBJECT_ID, s)
              | Some g \<Rightarrow>
                  (case grp_at s g of
                     None \<Rightarrow> (SAI_STATUS_INVALID_OBJECT_ID, s)
                   | Some p \<Rightarrow>
                       (case sai_fib_next_hop_fill_from_nh_id_list e s g ids True of
                          Inl status \<Rightarrow> (status, s)
                        | Inr ap \<Rightarrow>
                            (let (status, s) =
                                   hw_call (remove_nh_from_group (nh_group_npu e) p
                                              (of_nat (length ids)) ap) s
                             in if status \<noteq> SAI_STATUS_SUCCESS then (status, s)
                                else (status, sai_fib_nh_group_remove_from_lists g ap s)))))"

definition sai_fib_next_hop_group_attribute_set :: "oid \<Rightarrow> nhg_attr \<Rightarrow> 'h fib \<Rightarrow> sai_status \<times> 'h fib" where
  "sai_fib_next_hop_group_attribute_set nh_group_id attr s = (SAI_STATUS_NOT_IMPLEMENTED, s)"

definition sai_fib_next_hop_group_attribute_get ::
    "'h l3_env \<Rightarrow> oid \<Rightarrow> nat \<Rightarrow> 'h fib \<Rightarrow> (sai_status \<times> nhg_attr list) \<times> 'h fib" where
  "sai_fib_next_hop_group_attribute_get e nh_group_id attr_count s =
     (if \<not> is_obj_id e SAI_OBJECT_TYPE_NEXT_HOP_GROUP nh_group_id
      then ((SAI_STATUS_INVALID_OBJECT_TYPE, []), s)
      else if attr_count = 0 then ((SAI_STATUS_INVALID_PARAMETER, []), s)
      else case tree_get (nh_group_tree s) nh_group_id of
        None \<Rightarrow> ((SAI_STATUS_INVALID_OBJECT_ID, []), s)
      | Some g \<Rightarrow>
          (case grp_at s g of
             None \<Rightarrow> ((SAI_STATUS_INVALID_OBJECT_ID, []), s)
           | Some p \<Rightarrow> hw_call (nh_group_attr_get (nh_group_npu e) p attr_count) s))"

section \<open>What the link lists compute\<close>

lemma link_hw [simp]:
  "grp_link (s\<lparr>hw := h\<rparr>) = grp_link s" "nh_link (s\<lparr>hw := h\<rparr>) = nh_link s"
  by (simp_all add: grp_link_def nh_link_def fun_eq_iff)

text \<open>Both sides of a link get the value \<open>ow\<close>, no link or a weight; the group's count is adjusted.\<close>

definition set_link :: "u32 option \<Rightarrow> 'k \<Rightarrow> ('k, u32) tree \<Rightarrow> ('k, u32) tree" where
  "set_link ow k t = (case ow of None \<Rightarrow> tree_del k t | Some w \<Rightarrow> tree_put k w t)"

definition put_link :: "addr \<Rightarrow> addr \<Rightarrow> u32 option \<Rightarrow> u32 \<Rightarrow> nh_group \<Rightarrow> nh_node \<Rightarrow> 'h fib \<Rightarrow> 'h fib" where
  "put_link g a ow d p n s =
     set_grp g (p\<lparr>grp_nh_list := set_link ow a (grp_nh_list p), grp_nh_count := grp_nh_count p + d\<rparr>)
       (set_nh a (n\<lparr>nh_group_list := set_link ow g (nh_group_list n)\<rparr>) s)"

lemma set_link_get [simp]: "tree_get (set_link ow k t) k' = (if k' = k then ow else tree_get t k')"
  by (simp add: set_link_def split: option.splits)

lemma set_link_wf [simp]: "tree_wf t \<Longrightarrow> tree_wf (set_link ow k t)"
  by (simp add: set_link_def split: option.splits)

lemma inv_put_link:
  assumes inv: "fib_inv u s" and g: "grp_at s g = Some p" and a: "nh_at s a = Some n"
    and own: "is_owner u SAI_FIB_OWNER_NEXT_HOP n" and ow: "ow \<noteq> Some 0"
    and cnt: "grp_nh_count p + d = of_nat (asum unat (set_link ow a (grp_nh_list p)))"
    and lim: "asum unat (set_link ow a (grp_nh_list p)) < 2 ^ 32"
  shows "fib_inv u (put_link g a ow d p n s)" (is "fib_inv u ?s")
proof (rule fib_invI)
  note d = fib_invD [OF inv]
  have wf: "tree_wf (nh_heap s)" using d(1) by (simp add: trees_ok_def)
  let ?n = "n\<lparr>nh_group_list := set_link ow g (nh_group_list n)\<rparr>"
  have sel: "vrf_tree ?s = vrf_tree s" "router_interface_tree ?s = router_interface_tree s"
    "nh_id_tree ?s = nh_id_tree s" "nh_group_tree ?s = nh_group_tree s"
    "neighbor_mac_tree ?s = neighbor_mac_tree s" "next_addr ?s = next_addr s"
    "nh_heap ?s = tree_put a ?n (nh_heap s)"
    "grp_heap ?s = tree_put g (p\<lparr>grp_nh_list := set_link ow a (grp_nh_list p),
       grp_nh_count := grp_nh_count p + d\<rparr>) (grp_heap s)"
    by (simp_all add: put_link_def)
  have rr: "route_refs ?s = route_refs s" by (simp add: route_refs_def fun_eq_iff sel)
  have rf: "rif_refs ?s = rif_refs s" using wf a by (simp add: rif_refs_def fun_eq_iff sel asum_put_same)
  have gl: "grp_link ?s h b = (if h = g \<and> b = a then ow else grp_link s h b)" for h b
    using g by (simp add: grp_link_def sel)
  have nl: "nh_link ?s b h = (if h = g \<and> b = a then ow else nh_link s b h)" for h b
    using a by (simp add: nh_link_def sel)
  have tg: "route_target_ok u s t \<Longrightarrow> route_target_ok u ?s t" for t
    using a by (auto simp: route_target_ok_def sel split: route_nh.splits option.splits)
  show "trees_ok ?s" using d(1) g a by (auto simp: trees_ok_def sel)
  show "vrf_ok ?s" using d(2) by (simp add: vrf_ok_def sel)
  show "rif_ok ?s" using d(3) by (simp add: rif_ok_def sel rf)
  show "nh_ok u ?s" using d(4) a by (simp add: nh_ok_def sel rr)
  show "nh_tree_ok ?s" using nh_tree_okD [OF d(5)] a unfolding nh_tree_ok_def sel by fastforce
  show "nh_id_ok u ?s" using nh_id_okD [OF d(6)] a unfolding nh_id_ok_def sel by fastforce
  show "route_ok u ?s" using route_okD [OF d(7)] tg unfolding route_ok_def sel by simp
  show "grp_ok ?s" using d(8) g cnt lim by (simp add: grp_ok_def rr sel group_weight_def)
  show "grp_tree_ok ?s" using grp_tree_okD [OF d(9)] g unfolding grp_tree_ok_def sel by fastforce
  show "link_ok u ?s"
    using link_okD [OF d(10)] link_ok_sym [OF d(10)] a own ow
    unfolding link_ok_def gl nl by (simp add: sel split: if_splits) (metis option.inject)
  have "mac_member_ok u ?s k b" if m: "mac_member_ok u s k b" for k b
    using m a unfolding mac_member_ok_def sel by fastforce
  then show "mac_ok u ?s" using mac_okD [OF d(11)] unfolding mac_ok_def sel by simp
qed

subsection \<open>Weighted links as a multiset\<close>

text \<open>A weighted link list stands for the multiset that holds each node as often as its weight.\<close>

primrec weights :: "('k \<times> u32) list \<Rightarrow> 'k multiset" where
  "weights [] = {#}"
| "weights (l # t) = replicate_mset (unat (snd l)) (fst l) + weights t"

definition group_members :: "'h fib \<Rightarrow> addr \<Rightarrow> addr multiset" where
  "group_members s g = (case grp_at s g of None \<Rightarrow> {#} | Some p \<Rightarrow> weights (grp_nh_list p))"

definition link_weight :: "u32 option \<Rightarrow> nat" where
  "link_weight ow = (case ow of None \<Rightarrow> 0 | Some w \<Rightarrow> unat w)"

definition link_inc :: "u32 option \<Rightarrow> u32" where
  "link_inc ow = (case ow of None \<Rightarrow> 1 | Some w \<Rightarrow> w + 1)"

definition link_dec :: "u32 \<Rightarrow> u32 option" where
  "link_dec w = (if w - 1 = 0 then None else Some (w - 1))"

lemma size_weights: "size (weights t) = asum unat t"
  by (induction t) (auto simp: asum_def)

lemma weights_absent: "tree_get t k = None \<Longrightarrow> count (weights t) k = 0"
  by (induction t) (auto simp: tree_get_def split: if_splits)

lemma count_weights: "tree_wf t \<Longrightarrow> count (weights t) k = link_weight (tree_get t k)"
proof (induction t)
  case (Cons l t)
  obtain j w where l: "l = (j, w)" by force
  with Cons.prems have wf: "tree_wf t" and j: "tree_get t j = None"
    by (auto simp: tree_wf_def tree_get_def map_of_eq_None_iff)
  show ?case
    using Cons.IH [OF wf] weights_absent [OF j] j l
    by (auto simp: tree_get_Cons link_weight_def)
qed (simp add: link_weight_def)

lemma weights_set_link:
  assumes "tree_wf t"
  shows "count (weights (set_link ow k t)) j = (if j = k then link_weight ow else count (weights t) j)"
  using assms by (simp add: count_weights)

lemma unat_plus_one: "unat w + 1 < 2 ^ 32 \<Longrightarrow> unat (w + 1 :: u32) = unat w + 1"
  by (subst unat_add_lem [THEN iffD1]) auto

lemma unat_minus_one_u32: "w \<noteq> (0 :: u32) \<Longrightarrow> unat (w - 1) = unat w - 1"
  by (metis unat_minus_one)

lemma link_weight_inc:
  "link_weight ow + 1 < 2 ^ 32 \<Longrightarrow> link_weight (Some (link_inc ow)) = link_weight ow + 1"
  by (cases ow) (simp_all add: link_weight_def link_inc_def unat_plus_one)

lemma link_weight_dec: "w \<noteq> 0 \<Longrightarrow> link_weight (link_dec w) = unat w - 1"
  by (auto simp: link_weight_def link_dec_def unat_minus_one_u32)

lemma link_inc_pos: "link_weight ow + 1 < 2 ^ 32 \<Longrightarrow> link_inc ow \<noteq> 0"
  using link_weight_inc [of ow] by (auto simp: link_weight_def)

lemma link_dec_pos: "link_dec w \<noteq> Some 0"
  by (simp add: link_dec_def)

lemma weights_inc:
  assumes "tree_wf t" "size (weights t) + 1 < 2 ^ 32"
  shows "weights (set_link (Some (link_inc (tree_get t k))) k t) = add_mset k (weights t)"
proof (rule multiset_eqI)
  fix j
  have "count (weights t) k \<le> size (weights t)" by (rule count_le_size)
  then have "link_weight (tree_get t k) + 1 < 2 ^ 32"
    using assms by (simp add: count_weights)
  then show "count (weights (set_link (Some (link_inc (tree_get t k))) k t)) j
      = count (add_mset k (weights t)) j"
    using assms(1) by (auto simp: weights_set_link link_weight_inc count_weights)
qed

lemma weights_dec:
  assumes "tree_wf t" "tree_get t k = Some w" "w \<noteq> 0"
  shows "weights (set_link (link_dec w) k t) = weights t - {#k#}"
  using assms link_weight_dec [OF assms(3)]
  by (intro multiset_eqI) (auto simp: weights_set_link count_weights link_weight_def)

subsection \<open>One link step on the state\<close>

text \<open>Everything but the link lists, the member counts and \<open>hw\<close> is the same.\<close>

definition strip_nh :: "nh_node \<Rightarrow> nh_node" where
  "strip_nh n = n\<lparr>nh_group_list := []\<rparr>"

definition strip_grp :: "nh_group \<Rightarrow> nh_group" where
  "strip_grp p = p\<lparr>grp_nh_list := [], grp_nh_count := 0\<rparr>"

definition same_but_links :: "'h fib \<Rightarrow> 'h fib \<Rightarrow> bool" where
  "same_but_links s s' \<longleftrightarrow>
     (\<exists>nh grp h. s' = s\<lparr>nh_heap := nh, grp_heap := grp, hw := h\<rparr>) \<and>
     (\<forall>a. map_option strip_nh (nh_at s' a) = map_option strip_nh (nh_at s a)) \<and>
     (\<forall>g. map_option strip_grp (grp_at s' g) = map_option strip_grp (grp_at s g))"

definition only_group :: "addr \<Rightarrow> 'h fib \<Rightarrow> 'h fib \<Rightarrow> bool" where
  "only_group g s s' \<longleftrightarrow>
     same_but_links s s' \<and> (\<forall>h. h \<noteq> g \<longrightarrow> group_members s' h = group_members s h)"

lemma only_group_refl [simp]: "only_group g s s"
  by (auto simp: only_group_def same_but_links_def intro!: exI [where x = "nh_heap s"]
      exI [where x = "grp_heap s"] exI [where x = "hw s"])

lemma only_group_trans: "only_group g s s' \<Longrightarrow> only_group g s' s'' \<Longrightarrow> only_group g s s''"
  by (fastforce simp: only_group_def same_but_links_def)

lemma only_group_hw: "only_group g s s' \<Longrightarrow> only_group g s (s'\<lparr>hw := h\<rparr>)"
  unfolding only_group_def same_but_links_def group_members_def by fastforce

lemma only_groupD:
  assumes "only_group g s s'"
  shows "vrf_tree s' = vrf_tree s" "router_interface_tree s' = router_interface_tree s"
    "nh_id_tree s' = nh_id_tree s" "nh_group_tree s' = nh_group_tree s"
    "neighbor_mac_tree s' = neighbor_mac_tree s" "next_addr s' = next_addr s"
    "max_ecmp_paths s' = max_ecmp_paths s" "num_virtual_routers s' = num_virtual_routers s"
  using assms by (auto simp: only_group_def same_but_links_def)

lemma only_group_nh:
  "only_group g s s' \<Longrightarrow> map_option strip_nh (nh_at s' a) = map_option strip_nh (nh_at s a)"
  by (simp add: only_group_def same_but_links_def)

lemma only_group_grp:
  "only_group g s s' \<Longrightarrow> map_option strip_grp (grp_at s' h) = map_option strip_grp (grp_at s h)"
  by (simp add: only_group_def same_but_links_def)

lemma only_group_set_grp:
  assumes "grp_at s g = Some p" "strip_grp q = strip_grp p"
  shows "only_group g s (set_grp g q s)"
proof -
  have "set_grp g q s = s\<lparr>nh_heap := nh_heap s, grp_heap := tree_put g q (grp_heap s), hw := hw s\<rparr>"
    by (simp add: set_grp_def)
  then have "\<exists>nh grp h. set_grp g q s = s\<lparr>nh_heap := nh, grp_heap := grp, hw := h\<rparr>" by blast
  moreover have "\<forall>h. h \<noteq> g \<longrightarrow> group_members (set_grp g q s) h = group_members s h"
    by (simp add: group_members_def)
  ultimately show ?thesis
    using assms by (simp add: only_group_def same_but_links_def)
qed

lemma group_list_wf: "fib_inv u s \<Longrightarrow> grp_at s g = Some p \<Longrightarrow> tree_wf (grp_nh_list p)"
  by (auto simp: fib_inv_def trees_ok_def)

text \<open>A node that may be linked: a next hop node of the heap that has the next hop owner.\<close>

definition linkable :: "l3_util \<Rightarrow> addr \<Rightarrow> 'h fib \<Rightarrow> bool" where
  "linkable u a s \<longleftrightarrow> (\<exists>n. nh_at s a = Some n \<and> is_owner u SAI_FIB_OWNER_NEXT_HOP n)"

lemma is_owner_strip: "is_owner u f (strip_nh n) = is_owner u f n"
  by (cases f) (simp_all add: strip_nh_def is_owner_def)

lemma linkable_only_group:
  assumes "only_group g s s'"
  shows "linkable u a s' = linkable u a s"
proof -
  from only_group_nh [OF assms, of a]
  have "(\<exists>n. nh_at s' a = Some n \<and> is_owner u SAI_FIB_OWNER_NEXT_HOP (strip_nh n)) =
        (\<exists>n. nh_at s a = Some n \<and> is_owner u SAI_FIB_OWNER_NEXT_HOP (strip_nh n))"
    by (cases "nh_at s a"; cases "nh_at s' a") auto
  then show ?thesis by (simp add: linkable_def is_owner_strip)
qed

lemma put_link_only_group:
  assumes "grp_at s g = Some p" "nh_at s a = Some n"
  shows "only_group g s ((put_link g a ow d p n s)\<lparr>hw := h\<rparr>)"
proof -
  have "(put_link g a ow d p n s)\<lparr>hw := h\<rparr> = s\<lparr>nh_heap := nh_heap (put_link g a ow d p n s),
      grp_heap := grp_heap (put_link g a ow d p n s), hw := h\<rparr>"
    by (simp add: put_link_def set_grp_def set_nh_def)
  then have "\<exists>nh grp k. (put_link g a ow d p n s)\<lparr>hw := h\<rparr> = s\<lparr>nh_heap := nh, grp_heap := grp, hw := k\<rparr>"
    by blast
  then show ?thesis
    using assms by (simp add: only_group_def same_but_links_def)
      (simp add: put_link_def group_members_def strip_nh_def strip_grp_def)
qed

lemma group_members_put_link:
  "group_members ((put_link g a ow d p n s)\<lparr>hw := h\<rparr>) g = weights (set_link ow a (grp_nh_list p))"
  by (simp add: put_link_def group_members_def)

definition group_inv :: "l3_util \<Rightarrow> addr \<Rightarrow> 'h fib \<Rightarrow> bool" where
  "group_inv u g s \<longleftrightarrow> fib_inv u s \<and> grp_at s g \<noteq> None"

lemma group_invD:
  assumes "group_inv u g s"
  obtains p where "fib_inv u s" "grp_at s g = Some p" "tree_wf (grp_nh_list p)"
    "group_members s g = weights (grp_nh_list p)" "grp_nh_count p = of_nat (size (group_members s g))"
    "size (group_members s g) < 2 ^ 32"
proof -
  from assms obtain p where p: "fib_inv u s" "grp_at s g = Some p" by (auto simp: group_inv_def)
  from fib_invD [OF p(1)] p(2) have "tree_wf (grp_nh_list p)" "grp_nh_count p = of_nat (group_weight p)"
    "group_weight p < 2 ^ 32" by (auto simp: trees_ok_def grp_ok_def)
  with p show thesis by (intro that [of p]) (simp_all add: group_members_def size_weights group_weight_def)
qed

lemma group_inv_put_link:
  assumes "group_inv u g s" and p: "grp_at s g = Some p" and a: "nh_at s a = Some n"
    and own: "is_owner u SAI_FIB_OWNER_NEXT_HOP n" and ow: "ow \<noteq> Some 0"
    and cnt: "grp_nh_count p + d = of_nat (size (weights (set_link ow a (grp_nh_list p))))"
    and lim: "size (weights (set_link ow a (grp_nh_list p))) < 2 ^ 32"
  shows "group_inv u g ((put_link g a ow d p n s)\<lparr>hw := h\<rparr>)"
  using assms inv_put_link [OF _ p a own ow, of d]
  by (simp add: group_inv_def size_weights) (simp add: put_link_def)

lemma linked_both:
  assumes "fib_inv u s" "grp_at s g = Some p" "nh_at s a = Some n"
  shows "tree_get (grp_nh_list p) a = tree_get (nh_group_list n) g"
  using link_ok_sym [OF fib_invD(10) [OF assms(1)], of g a] assms(2,3)
  by (simp add: grp_link_def nh_link_def)

lemma link_alloc_eqD:
  "sai_fib_weighted_link_node_alloc e s = (r, s') \<Longrightarrow>
   \<exists>h. s' = s\<lparr>hw := h\<rparr> \<and> (r = Some 0 \<or> r = None)"
  by (auto simp: sai_fib_weighted_link_node_alloc_def split: prod.splits if_splits dest!: hw_call_eqD)

lemma put_link_apply:
  assumes "grp_at s g = Some p" "nh_at s a = Some n"
  shows "put_link g a (Some w) d p n s =
     set_grp g (p\<lparr>grp_nh_list := tree_put a w (grp_nh_list p), grp_nh_count := grp_nh_count p + d\<rparr>)
       (set_nh a (n\<lparr>nh_group_list := tree_put g w (nh_group_list n)\<rparr>) s)"
    "put_link g a None d p n s =
     set_grp g (p\<lparr>grp_nh_list := tree_del a (grp_nh_list p), grp_nh_count := grp_nh_count p + d\<rparr>)
       (set_nh a (n\<lparr>nh_group_list := tree_del g (nh_group_list n)\<rparr>) s)"
  by (simp_all add: put_link_def set_link_def)

lemma add_step_eq:
  assumes inv: "fib_inv u s" and p: "grp_at s g = Some p" and a: "nh_at s a = Some n"
    and step: "add_in_lists_step e g a s = (ok, s')"
  shows "\<exists>h. s' = (if ok then put_link g a (Some (link_inc (tree_get (grp_nh_list p) a))) 1 p n s
                   else s)\<lparr>hw := h\<rparr>"
proof (cases "tree_get (grp_nh_list p) a")
  case (Some w)
  then have "tree_get (nh_group_list n) g = Some w" using linked_both [OF inv p a] by simp
  with Some p a step have "ok" "s' = put_link g a (Some (w + 1)) 1 p n s"
    by (auto simp: add_in_lists_step_def sai_fib_nh_add_group_link_node_def
        sai_fib_nh_group_add_nh_link_node_def grp_count_add_def put_link_apply)
  then show ?thesis using Some by (intro exI [where x = "hw s'"]) (simp add: link_inc_def)
next
  case None
  then have nn: "tree_get (nh_group_list n) g = None" using linked_both [OF inv p a] by simp
  obtain r1 s1 where a1: "sai_fib_weighted_link_node_alloc e s = (r1, s1)" by force
  then obtain h1 where s1: "s1 = s\<lparr>hw := h1\<rparr>" "r1 = Some 0 \<or> r1 = None"
    using link_alloc_eqD [OF a1] by auto
  show ?thesis
  proof (cases r1)
    case None
    with a nn a1 s1 step show ?thesis
      by (auto simp: add_in_lists_step_def sai_fib_nh_add_group_link_node_def)
  next
    case (Some w1)
    with s1 have r1: "r1 = Some 0" by simp
    let ?s2 = "set_nh a (n\<lparr>nh_group_list := tree_put g 1 (nh_group_list n)\<rparr>) s1"
    obtain r2 s3 where a2: "sai_fib_weighted_link_node_alloc e ?s2 = (r2, s3)" by force
    then obtain h2 where s3: "s3 = ?s2\<lparr>hw := h2\<rparr>" "r2 = Some 0 \<or> r2 = None"
      using link_alloc_eqD [OF a2] by auto
    show ?thesis
    proof (cases r2)
      case None
      have "ok = False" "s' = sai_fib_nh_remove_group_link_node a g s3"
        using None p a nn a1 a2 r1 s1 step \<open>tree_get (grp_nh_list p) a = None\<close>
        by (auto simp: add_in_lists_step_def sai_fib_nh_add_group_link_node_def
            sai_fib_nh_group_add_nh_link_node_def)
      then show ?thesis
        using s3 s1 nn set_same(1) [OF a]
        by (auto simp: sai_fib_nh_remove_group_link_node_def tree_del_absent)
    next
      case (Some w2)
      with s3 have r2: "r2 = Some 0" by simp
      have "ok" "s' = grp_count_add g 1
          (set_grp g (p\<lparr>grp_nh_list := tree_put a 1 (grp_nh_list p)\<rparr>) s3)"
        using r2 p a nn a1 a2 r1 s1 step \<open>tree_get (grp_nh_list p) a = None\<close>
        by (auto simp: add_in_lists_step_def sai_fib_nh_add_group_link_node_def
            sai_fib_nh_group_add_nh_link_node_def)
      then show ?thesis
        using s3 s1 p a \<open>tree_get (grp_nh_list p) a = None\<close>
        by (auto simp: grp_count_add_def put_link_apply link_inc_def)
    qed
  qed
qed

definition remove_in_lists_step :: "addr \<Rightarrow> addr \<Rightarrow> 'h fib \<Rightarrow> 'h fib" where
  "remove_in_lists_step g a s =
     sai_fib_nh_group_find_and_remove_nh_node g a (sai_fib_nh_find_and_remove_group_node a g s)"

lemma remove_step_eq:
  assumes inv: "fib_inv u s" and p: "grp_at s g = Some p" and w: "tree_get (grp_nh_list p) a = Some w"
  shows "\<exists>n. nh_at s a = Some n \<and> is_owner u SAI_FIB_OWNER_NEXT_HOP n \<and> w \<noteq> 0 \<and>
    remove_in_lists_step g a s = put_link g a (link_dec w) (- 1) p n s"
proof -
  have "grp_link s g a = Some w" using p w by (simp add: grp_link_def)
  with link_okD [OF fib_invD(10) [OF inv]] obtain n where n: "w \<noteq> 0" "nh_at s a = Some n"
    "is_owner u SAI_FIB_OWNER_NEXT_HOP n" by blast
  then have "tree_get (nh_group_list n) g = Some w" using linked_both [OF inv p] w by simp
  with n p w show ?thesis
    by (auto simp: remove_in_lists_step_def sai_fib_nh_group_find_and_remove_nh_node_def
        sai_fib_nh_find_and_remove_group_node_def sai_fib_nh_group_remove_nh_link_node_def
        sai_fib_nh_remove_group_link_node_def grp_count_add_def link_dec_def put_link_apply word_gt_0)
qed

lemma remove_step_absent:
  assumes inv: "fib_inv u s" and p: "grp_at s g = Some p" and w: "tree_get (grp_nh_list p) a = None"
  shows "remove_in_lists_step g a s = s"
  using linked_both [OF inv p, of a] p w
  by (auto simp: remove_in_lists_step_def sai_fib_nh_group_find_and_remove_nh_node_def
      sai_fib_nh_find_and_remove_group_node_def split: option.splits)

lemma remove_from_lists_fold:
  "sai_fib_nh_group_remove_from_lists g as s = fold (remove_in_lists_step g) as s"
  by (induction as arbitrary: s) (simp_all add: remove_in_lists_step_def)

subsection \<open>The link lists provide a member list\<close>

lemma linkableD: "linkable u a s \<Longrightarrow> (\<And>n. nh_at s a = Some n \<Longrightarrow> is_owner u SAI_FIB_OWNER_NEXT_HOP n \<Longrightarrow> P) \<Longrightarrow> P"
  by (auto simp: linkable_def)

lemma add_step_members:
  assumes inv: "group_inv u g s" and can: "linkable u a s"
    and cap: "size (group_members s g) + 1 < 2 ^ 32"
    and step: "add_in_lists_step e g a s = (ok, s')"
  shows "group_inv u g s' \<and> only_group g s s' \<and>
    group_members s' g = (if ok then add_mset a (group_members s g) else group_members s g)"
proof -
  from inv obtain p where p: "fib_inv u s" "grp_at s g = Some p" "tree_wf (grp_nh_list p)"
    "group_members s g = weights (grp_nh_list p)"
    "grp_nh_count p = of_nat (size (group_members s g))" by (rule group_invD)
  from can obtain n where n: "nh_at s a = Some n" "is_owner u SAI_FIB_OWNER_NEXT_HOP n"
    by (rule linkableD)
  let ?ow = "Some (link_inc (tree_get (grp_nh_list p) a))"
  have w: "weights (set_link ?ow a (grp_nh_list p)) = add_mset a (group_members s g)"
    using weights_inc [OF p(3)] cap p(4) by simp
  have ne: "?ow \<noteq> Some 0"
    using link_inc_pos [of "tree_get (grp_nh_list p) a"] count_le_size [of "group_members s g" a] cap
    by (simp add: p(4) count_weights [OF p(3)])
  from add_step_eq [OF p(1,2) n(1) step] obtain h
    where s': "s' = (if ok then put_link g a ?ow 1 p n s else s)\<lparr>hw := h\<rparr>" by auto
  show ?thesis
  proof (cases ok)
    case True
    have "group_inv u g ((put_link g a ?ow 1 p n s)\<lparr>hw := h\<rparr>)"
      using cap by (intro group_inv_put_link inv p n ne) (simp_all add: w p(5))
    then show ?thesis
      using True s' put_link_only_group [OF p(2) n(1)] by (simp add: group_members_put_link w)
  next
    case False
    then show ?thesis
      using s' inv only_group_hw [of g s s h] by (simp add: group_inv_def group_members_def)
  qed
qed

lemma remove_step_members:
  assumes inv: "group_inv u g s"
  shows "group_inv u g (remove_in_lists_step g a s) \<and> only_group g s (remove_in_lists_step g a s) \<and>
    group_members (remove_in_lists_step g a s) g = group_members s g - {#a#}"
proof -
  from inv obtain p where p: "fib_inv u s" "grp_at s g = Some p" "tree_wf (grp_nh_list p)"
    "group_members s g = weights (grp_nh_list p)"
    "grp_nh_count p = of_nat (size (group_members s g))" "size (group_members s g) < 2 ^ 32"
    by (rule group_invD)
  show ?thesis
  proof (cases "tree_get (grp_nh_list p) a")
    case None
    then have "a \<notin># group_members s g"
      using weights_absent by (auto simp: p(4) not_in_iff)
    then show ?thesis using remove_step_absent [OF p(1,2) None] inv by (simp add: diff_single_trivial)
  next
    case (Some w)
    then obtain n where n: "nh_at s a = Some n" "is_owner u SAI_FIB_OWNER_NEXT_HOP n" "w \<noteq> 0"
      "remove_in_lists_step g a s = put_link g a (link_dec w) (- 1) p n s"
      using remove_step_eq [OF p(1,2)] by blast
    have in_g: "a \<in># group_members s g"
      using n(3) Some count_weights [OF p(3), of a] unfolding p(4)
      by (simp add: link_weight_def unat_gt_0 flip: count_greater_zero_iff)
    have w: "weights (set_link (link_dec w) a (grp_nh_list p)) = group_members s g - {#a#}"
      using weights_dec [OF p(3) Some n(3)] p(4) by simp
    have sz: "size (group_members s g) = size (group_members s g - {#a#}) + 1"
      using in_g by (metis insert_DiffM size_add_mset Suc_eq_plus1)
    have "group_inv u g ((put_link g a (link_dec w) (- 1) p n s)\<lparr>hw := hw s\<rparr>)"
      using sz p(6) by (intro group_inv_put_link inv p n link_dec_pos) (simp_all add: w p(5) sz)
    moreover have "(put_link g a (link_dec w) (- 1) p n s)\<lparr>hw := hw s\<rparr> = remove_in_lists_step g a s"
      by (simp add: n(4) put_link_def set_grp_def set_nh_def)
    ultimately show ?thesis
      using put_link_only_group [OF p(2) n(1), where ow = "link_dec w" and d = "- 1" and h = "hw s"]
        group_members_put_link [where g = g and a = a and ow = "link_dec w" and d = "- 1" and p = p
          and n = n and s = s and h = "hw s"] w by simp
  qed
qed

interpretation links: member_list "add_in_lists_step e g" "remove_in_lists_step g"
    "\<lambda>s. group_members s g" "group_inv u g" "linkable u" "only_group g" "2 ^ 32" for e u g
proof unfold_locales
  show "group_inv u g s' \<and> only_group g s s' \<and>
      group_members s' g = (if ok then add_mset a (group_members s g) else group_members s g)"
    if "group_inv u g s" "linkable u a s" "size (group_members s g) + 1 < 2 ^ 32"
      "add_in_lists_step e g a s = (ok, s')" for s a s' ok
    using that by (rule add_step_members)
qed (rule remove_step_members only_group_refl only_group_trans linkable_only_group; assumption?)+

lemma add_in_lists_loop_try:
  "add_in_lists_loop e g as i s = (let (j, s) = try_all (add_in_lists_step e g) as s in (i + j, s))"
  by (induction as arbitrary: i s) (auto split: prod.splits)

text \<open>
  Adding next hops to the lists: they are all added, or an allocation failed. When the first
  allocation fails the status is success although nothing was added; when a later one fails the
  members added so far are taken out again.
\<close>

lemma add_in_lists_members:
  assumes inv: "group_inv u g s" and can: "\<And>a. a \<in> set as \<Longrightarrow> linkable u a s"
    and cap: "size (group_members s g) + length as < 2 ^ 32"
    and run: "sai_fib_nh_group_add_in_lists e g as s = (status, s')"
  shows "group_inv u g s' \<and> only_group g s s' \<and>
    (status = SAI_STATUS_SUCCESS \<and> group_members s' g = group_members s g + mset as \<or>
     (status = SAI_STATUS_SUCCESS \<or> status = SAI_STATUS_NO_MEMORY) \<and>
       group_members s' g = group_members s g)"
proof -
  obtain j s1 where s1: "try_all (add_in_lists_step e g) as s = (j, s1)" by force
  note all = links.add_all [OF inv can cap s1]
  note undo = links.rollback [OF inv can cap s1]
  show ?thesis
  proof (cases "j \<noteq> 0 \<and> j \<noteq> length as")
    case True
    then have "status = SAI_STATUS_NO_MEMORY" "s' = fold (remove_in_lists_step g) (take j as) s1"
      using run s1 by (auto simp: sai_fib_nh_group_add_in_lists_def add_in_lists_loop_try
          remove_from_lists_fold)
    then show ?thesis using undo by simp
  next
    case False
    then have "status = SAI_STATUS_SUCCESS" "s' = s1"
      using run s1 by (auto simp: sai_fib_nh_group_add_in_lists_def add_in_lists_loop_try split: if_splits)
    then show ?thesis using all False by auto
  qed
qed

lemma remove_from_lists_members:
  assumes "group_inv u g s"
  shows "group_inv u g (sai_fib_nh_group_remove_from_lists g as s) \<and>
    only_group g s (sai_fib_nh_group_remove_from_lists g as s) \<and>
    group_members (sai_fib_nh_group_remove_from_lists g as s) g = group_members s g - mset as"
  using links.del_all [OF assms] by (simp add: remove_from_lists_fold)

subsection \<open>Emptying a group\<close>

text \<open>
  The count is reset once, after the loop; \<open>fix_count\<close> is the state with the count its links
  demand, which satisfies the invariant at every iteration.
\<close>

definition fix_count :: "addr \<Rightarrow> 'h fib \<Rightarrow> 'h fib" where
  "fix_count g s =
     (case grp_at s g of
        None \<Rightarrow> s
      | Some p \<Rightarrow> set_grp g (p\<lparr>grp_nh_count := of_nat (group_weight p)\<rparr>) s)"

lemma fix_count_id: "fib_inv u s \<Longrightarrow> fix_count g s = s"
  using fib_invD(8) [of u s]
  by (auto simp: fix_count_def grp_ok_def intro!: set_same(2) split: option.splits)

lemma remove_all_nh_step:
  assumes inv: "fib_inv u (fix_count g s)" and p: "grp_at s g = Some p"
    and l: "grp_nh_list p = (a, w) # links"
  obtains s' p' where "remove_all_nh_loop g ((a, w) # links) s = remove_all_nh_loop g links s'"
    "fib_inv u (fix_count g s')" "grp_at s' g = Some p'" "grp_nh_list p' = links" "only_group g s s'"
proof -
  let ?t = "fix_count g s" and ?q = "p\<lparr>grp_nh_count := of_nat (group_weight p)\<rparr>"
  have t: "?t = set_grp g ?q s" "grp_at ?t g = Some ?q" "nh_at ?t = nh_at s"
    using p by (simp_all add: fix_count_def)
  have w: "tree_get (grp_nh_list ?q) a = Some w" by (simp add: l tree_get_Cons)
  from remove_step_eq [OF inv t(2) w] obtain n where n: "nh_at s a = Some n"
    "is_owner u SAI_FIB_OWNER_NEXT_HOP n" by (auto simp: t(3))
  have nw: "tree_get (nh_group_list n) g = Some w"
    using linked_both [OF inv t(2), of a n] w n by (simp add: t(3))
  have wf: "tree_wf ((a, w) # links)"
    using group_list_wf [OF inv t(2)] l by simp
  then have d: "tree_del a ((a, w) # links) = links"
    using tree_del_absent [of links a]
    by (auto simp: tree_wf_def tree_del_def tree_get_def AList.delete_eq map_of_eq_None_iff)
  have "group_weight ?q < 2 ^ 32" using fib_invD(8) [OF inv] t(2) unfolding grp_ok_def by blast
  then have wt: "group_weight p = unat w + asum unat links" "group_weight p < 2 ^ 32"
    using l by (simp_all add: group_weight_def)
  have ad: "asum unat (set_link None a (grp_nh_list ?q)) = asum unat links"
    by (simp add: l set_link_def d)
  let ?s' = "put_link g a None 0 p n s"
  have "fib_inv u (put_link g a None (- w) ?q n ?t)"
    using wt unfolding t(1)
    using ad by (intro inv_put_link inv [unfolded t(1)]) (simp_all add: n)
  moreover have "put_link g a None (- w) ?q n ?t = fix_count g ?s'"
    using wt p by (simp add: t(1) put_link_def fix_count_def set_link_def l d group_weight_def set_nh_set_grp)
  ultimately have 1: "fib_inv u (fix_count g ?s')" by simp
  have 2: "remove_all_nh_loop g ((a, w) # links) s = remove_all_nh_loop g links ?s'"
    using p n nw by (simp add: sai_fib_nh_group_remove_nh_link_node_def
        sai_fib_nh_remove_group_link_node_def put_link_def set_link_def set_nh_set_grp Let_def)
  have 3: "grp_at ?s' g = Some (p\<lparr>grp_nh_list := links\<rparr>)"
    by (simp add: put_link_def set_link_def l d)
  have 4: "only_group g s ?s'"
    using put_link_only_group [OF p n(1), where ow = None and d = 0 and h = "hw s"]
    by (simp add: put_link_def set_grp_def set_nh_def)
  show thesis by (rule that [OF 2 1 3 _ 4]) simp
qed

lemma remove_all_nh_loop_empties:
  "fib_inv u (fix_count g s) \<Longrightarrow> grp_at s g = Some p \<Longrightarrow> grp_nh_list p = links \<Longrightarrow>
   \<exists>p'. fib_inv u (fix_count g (remove_all_nh_loop g links s)) \<and>
     grp_at (remove_all_nh_loop g links s) g = Some p' \<and> grp_nh_list p' = [] \<and>
     only_group g s (remove_all_nh_loop g links s)"
proof (induction links arbitrary: s p)
  case (Cons l links)
  obtain a w where l: "l = (a, w)" by force
  from remove_all_nh_step [OF Cons.prems(1,2) Cons.prems(3) [unfolded l]] obtain s' p' where
    s': "remove_all_nh_loop g (l # links) s = remove_all_nh_loop g links s'"
    "fib_inv u (fix_count g s')" "grp_at s' g = Some p'" "grp_nh_list p' = links" "only_group g s s'"
    unfolding l by blast
  from Cons.IH [OF s'(2-4)] s'(5) show ?case
    unfolding s'(1) using only_group_trans by blast
qed simp

lemma remove_all_nh_empties:
  assumes "group_inv u g s"
  shows "\<exists>p'. fib_inv u (sai_fib_nh_group_remove_all_nh g s) \<and>
     grp_at (sai_fib_nh_group_remove_all_nh g s) g = Some p' \<and> grp_nh_list p' = [] \<and>
     grp_nh_count p' = 0 \<and> only_group g s (sai_fib_nh_group_remove_all_nh g s)"
proof -
  from assms obtain p where p: "fib_inv u s" "grp_at s g = Some p" by (auto simp: group_inv_def)
  have "fib_inv u (fix_count g s)" using p fix_count_id [OF p(1)] by simp
  from remove_all_nh_loop_empties [OF this p(2) refl] obtain p' where
    p': "fib_inv u (fix_count g (remove_all_nh_loop g (grp_nh_list p) s))"
    "grp_at (remove_all_nh_loop g (grp_nh_list p) s) g = Some p'" "grp_nh_list p' = []"
    "only_group g s (remove_all_nh_loop g (grp_nh_list p) s)" by blast
  let ?s = "remove_all_nh_loop g (grp_nh_list p) s"
  have e: "sai_fib_nh_group_remove_all_nh g s = fix_count g ?s"
    using p p' by (simp add: sai_fib_nh_group_remove_all_nh_def fix_count_def group_weight_def)
  have "only_group g ?s (fix_count g ?s)"
    using p'(2) only_group_set_grp [OF p'(2)] by (simp add: fix_count_def strip_grp_def)
  with p' show ?thesis
    unfolding e by (auto simp: fix_count_def group_weight_def intro: only_group_trans)
qed

subsection \<open>When allocation never fails\<close>

definition calloc_total :: "'h l3_env \<Rightarrow> bool" where
  "calloc_total e \<longleftrightarrow> (\<forall>h. fst (calloc_ok (plat e) h))"

lemma link_alloc_total:
  "calloc_total e \<Longrightarrow> fst (sai_fib_weighted_link_node_alloc e s) = Some 0"
  by (auto simp: sai_fib_weighted_link_node_alloc_def calloc_total_def hw_call_def split: prod.splits)
     (metis fst_conv)

lemma add_step_total:
  assumes tot: "calloc_total e" and inv: "group_inv u g s" and can: "linkable u a s"
  shows "fst (add_in_lists_step e g a s)"
proof -
  from inv obtain p where p: "grp_at s g = Some p" by (auto simp: group_inv_def)
  from can obtain n where n: "nh_at s a = Some n" by (rule linkableD)
  obtain ok s1 where s1: "sai_fib_nh_add_group_link_node e a g s = (ok, s1)" by force
  obtain r t where t: "sai_fib_weighted_link_node_alloc e s = (r, t)" by force
  have r: "r = Some 0" using link_alloc_total [OF tot, of s] t by simp
  from link_alloc_eqD [OF t] obtain h where h: "t = s\<lparr>hw := h\<rparr>" by auto
  have s1': "ok" "grp_at s1 g = Some p"
    using s1 t r h n p by (auto simp: sai_fib_nh_add_group_link_node_def split: option.splits)
  obtain r1 t1 where t1: "sai_fib_weighted_link_node_alloc e s1 = (r1, t1)" by force
  have "r1 = Some 0" using link_alloc_total [OF tot, of s1] t1 by simp
  then have "fst (sai_fib_nh_group_add_nh_link_node e g a s1)"
    using s1'(2) t1 by (auto simp: sai_fib_nh_group_add_nh_link_node_def split: option.splits)
  then show ?thesis using s1 s1'(1) by (auto simp: add_in_lists_step_def split: prod.splits)
qed

lemma add_in_lists_total:
  assumes tot: "calloc_total e" and inv: "group_inv u g s"
    and can: "\<And>a. a \<in> set as \<Longrightarrow> linkable u a s"
    and cap: "size (group_members s g) + length as < 2 ^ 32"
    and run: "sai_fib_nh_group_add_in_lists e g as s = (status, s')"
  shows "status = SAI_STATUS_SUCCESS \<and> group_members s' g = group_members s g + mset as"
proof -
  obtain j s1 where s1: "try_all (add_in_lists_step e g) as s = (j, s1)" by force
  have "j = length as" using links.add_all_total [OF inv can cap s1] add_step_total [OF tot] by blast
  then show ?thesis
    using run s1 links.add_all [OF inv can cap s1]
    by (auto simp: sai_fib_nh_group_add_in_lists_def add_in_lists_loop_try)
qed

text \<open>
  When the allocation of the first link fails, the loop stops at index 0, which the test after it
  takes for an empty list: the call answers success.
\<close>

lemma add_in_lists_first_alloc_fails:
  assumes "nh_at s a = Some n" "tree_get (nh_group_list n) g = None"
    and "calloc_ok (plat e) (hw s) = (False, h)"
  shows "sai_fib_nh_group_add_in_lists e g (a # as) s = (SAI_STATUS_SUCCESS, s\<lparr>hw := h\<rparr>)"
  using assms
  by (simp add: sai_fib_nh_group_add_in_lists_def add_in_lists_step_def Let_def
      sai_fib_nh_add_group_link_node_def sai_fib_weighted_link_node_alloc_def hw_call_def)

end
