(* ===== verification/Fib_Group_Api.thy ===== *)
theory Fib_Group_Api
  imports Fib_Group
begin

text \<open>
  What the next hop group API guarantees: every call keeps the invariant of the database, a group's
  members change as the multiset operations say, a refused call changes nothing, and a failed
  creation leaves no trace.
\<close>

section \<open>Resolving ids\<close>

lemma fill_loop_linkable:
  "fib_inv (util e) s \<Longrightarrow> fill_from_nh_id_list_loop e s g ids rm k = Inr ap \<Longrightarrow>
   list_all2 (\<lambda>x a. tree_get (nh_id_tree s) x = Some a \<and> linkable (util e) a s) ids ap"
proof (induction ids arbitrary: ap k)
  case (Cons x xs)
  then obtain a as k' where a: "tree_get (nh_id_tree s) x = Some a" "ap = a # as"
    "fill_from_nh_id_list_loop e s g xs rm k' = Inr as"
    by (auto split: if_splits option.splits simp: map_sum_def split: sum.splits)
  moreover have "linkable (util e) a s"
    using nh_id_okD [OF fib_invD(6) [OF Cons.prems(1)] a(1)] by (auto simp: linkable_def)
  ultimately show ?case using Cons.IH [OF Cons.prems(1) a(3)] by simp
qed simp

lemma fill_linkable:
  assumes "fib_inv (util e) s" "sai_fib_next_hop_fill_from_nh_id_list e s g ids rm = Inr ap"
  shows "length ap = length ids" "\<And>a. a \<in> set ap \<Longrightarrow> linkable (util e) a s"
    "list_all2 (\<lambda>x a. tree_get (nh_id_tree s) x = Some a) ids ap"
proof -
  have l: "list_all2 (\<lambda>x a. tree_get (nh_id_tree s) x = Some a \<and> linkable (util e) a s) ids ap"
    using assms by (intro fill_loop_linkable [of _ _ g _ rm "unat (max_ecmp_paths s)"])
      (auto simp: sai_fib_next_hop_fill_from_nh_id_list_def split: if_splits)
  then show "length ap = length ids" by (simp add: list_all2_lengthD)
  show "linkable (util e) a s" if "a \<in> set ap" for a
    using l that by (auto simp: list_all2_conv_all_nth in_set_conv_nth)
  show "list_all2 (\<lambda>x a. tree_get (nh_id_tree s) x = Some a) ids ap"
    using l by (rule list_all2_mono) auto
qed

lemma fill_remove_members:
  assumes "fib_inv (util e) s" "grp_at s g = Some p"
    and "sai_fib_next_hop_fill_from_nh_id_list e s g ids True = Inr ap" "a \<in> set ap"
  shows "a \<in># group_members s g"
proof -
  have loop: "fill_from_nh_id_list_loop e s g ids True k = Inr as \<Longrightarrow> a \<in> set as \<Longrightarrow>
      tree_get (grp_nh_list p) a \<noteq> None" for k as
  proof (induction ids arbitrary: as k)
    case (Cons x xs)
    then show ?case using assms(2)
      by (auto split: if_splits option.splits sum.splits simp: map_sum_def)
  qed simp
  have "tree_get (grp_nh_list p) a \<noteq> None"
    using assms(3,4) by (intro loop) (auto simp: sai_fib_next_hop_fill_from_nh_id_list_def split: if_splits)
  then obtain w where w: "tree_get (grp_nh_list p) a = Some w" by auto
  with link_okD [OF fib_invD(10) [OF assms(1)], of g a w] assms(2) have "w \<noteq> 0"
    by (simp add: grp_link_def)
  with w show ?thesis
    using count_weights [OF group_list_wf [OF assms(1,2)], of a] assms(2)
    by (simp add: group_members_def link_weight_def unat_gt_0 flip: count_greater_zero_iff)
qed

lemma fill_hw [simp]:
  "fill_from_nh_id_list_loop e (s\<lparr>hw := h\<rparr>) g ids rm k = fill_from_nh_id_list_loop e s g ids rm k"
  "sai_fib_next_hop_fill_from_nh_id_list e (s\<lparr>hw := h\<rparr>) g ids rm =
   sai_fib_next_hop_fill_from_nh_id_list e s g ids rm"
proof -
  show *: "fill_from_nh_id_list_loop e (s\<lparr>hw := h\<rparr>) g ids rm k = fill_from_nh_id_list_loop e s g ids rm k" for k
    by (induction ids arbitrary: k) (auto split: option.splits)
  show "sai_fib_next_hop_fill_from_nh_id_list e (s\<lparr>hw := h\<rparr>) g ids rm =
   sai_fib_next_hop_fill_from_nh_id_list e s g ids rm"
    by (simp add: sai_fib_next_hop_fill_from_nh_id_list_def *)
qed

lemma fill_error:
  "sai_fib_next_hop_fill_from_nh_id_list e s g ids rm = Inl st \<Longrightarrow> st \<noteq> SAI_STATUS_SUCCESS"
proof -
  have "fill_from_nh_id_list_loop e s g ids rm k = Inl st \<Longrightarrow> st \<noteq> SAI_STATUS_SUCCESS" for k
    by (induction ids arbitrary: st k) (auto split: if_splits option.splits sum.splits simp: map_sum_def)
  then show "sai_fib_next_hop_fill_from_nh_id_list e s g ids rm = Inl st \<Longrightarrow> st \<noteq> SAI_STATUS_SUCCESS"
    by (auto simp: sai_fib_next_hop_fill_from_nh_id_list_def split: if_splits)
qed

section \<open>Adding next hops to a group\<close>

text \<open>The members of the group and what is added to it fit the 32-bit count.\<close>

definition group_room :: "'h fib \<Rightarrow> oid \<Rightarrow> nat \<Rightarrow> bool" where
  "group_room s i k \<longleftrightarrow>
     (\<forall>g. tree_get (nh_group_tree s) i = Some g \<longrightarrow> size (group_members s g) + k < 2 ^ 32)"

lemma group_inv_hw [simp]: "group_inv u g (s\<lparr>hw := h\<rparr>) = group_inv u g s"
  by (simp add: group_inv_def)

lemma group_members_hw [simp]: "group_members (s\<lparr>hw := h\<rparr>) g = group_members s g"
  by (simp add: group_members_def)

lemma linkable_hw [simp]: "linkable u a (s\<lparr>hw := h\<rparr>) = linkable u a s"
  by (simp add: linkable_def)

lemma group_tree_inv:
  assumes "fib_inv u s" "tree_get (nh_group_tree s) i = Some g"
  obtains p where "grp_at s g = Some p" "grp_id p = i" "group_inv u g s"
  using grp_tree_okD [OF fib_invD(9) [OF assms(1)] assms(2)] assms(1) by (auto simp: group_inv_def)

text \<open>
  A call that gets past its checks resolves the ids to \<open>ap\<close>; \<open>refused\<close> is a call that stops before.
\<close>

lemma add_to_group_cases:
  assumes inv: "fib_inv (util e) s" and room: "group_room s gid (length ids)"
    and call: "sai_fib_next_hop_add_to_group e gid ids s = (status, s')"
  obtains (refused) "status \<noteq> SAI_STATUS_SUCCESS" "hw_only s s'"
  | (run) g ap t t' where "tree_get (nh_group_tree s) gid = Some g" "hw_only s t"
      "sai_fib_next_hop_fill_from_nh_id_list e s g ids False = Inr ap"
      "length ap = length ids" "\<And>a. a \<in> set ap \<Longrightarrow> linkable (util e) a t"
      "group_inv (util e) g t" "size (group_members t g) + length ap < 2 ^ 32"
      "\<exists>p. grp_at s g = Some p \<and> sai_fib_is_nh_group_size_valid s p (of_nat (length ids))"
      "sai_fib_nh_group_add_in_lists e g ap t = (SAI_STATUS_SUCCESS, t')"
      "status = SAI_STATUS_SUCCESS \<and> hw_only t' s' \<or>
       status \<noteq> SAI_STATUS_SUCCESS \<and> (\<exists>h. s' = sai_fib_nh_group_remove_from_lists g ap (t'\<lparr>hw := h\<rparr>))"
  | (nomem) g ap t where "tree_get (nh_group_tree s) gid = Some g" "hw_only s t"
      "\<And>a. a \<in> set ap \<Longrightarrow> linkable (util e) a t" "length ap = length ids"
      "group_inv (util e) g t" "size (group_members t g) + length ap < 2 ^ 32"
      "sai_fib_nh_group_add_in_lists e g ap t = (status, s')" "status \<noteq> SAI_STATUS_SUCCESS"
proof -
  obtain ok t where t: "hw_call (calloc_ok (plat e)) s = (ok, t)" by force
  then obtain h where h: "t = s\<lparr>hw := h\<rparr>" by (auto dest: hw_call_eqD)
  note defs = sai_fib_next_hop_add_to_group_def
  show thesis
  proof (cases "is_obj_id e SAI_OBJECT_TYPE_NEXT_HOP_GROUP gid \<and> ok")
    case False
    then show thesis using call t h refused by (auto simp: defs split: if_splits)
  next
    case 1: True
    show thesis
    proof (cases "tree_get (nh_group_tree s) gid")
      case None
      then show thesis using call t h 1 refused by (auto simp: defs)
    next
      case g: (Some g)
      obtain p where p: "grp_at s g = Some p" "group_inv (util e) g s" by (rule group_tree_inv [OF inv g])
      show thesis
      proof (cases "sai_fib_is_nh_group_size_valid s p (of_nat (length ids))")
        case False
        then have "sai_fib_is_nh_group_size_valid t p (of_nat (length ids)) = False"
          by (simp add: h sai_fib_is_nh_group_size_valid_def)
        then show thesis using call t h 1 g p refused by (auto simp: defs)
      next
        case sz: True
        then have sz': "sai_fib_is_nh_group_size_valid t p (of_nat (length ids))"
          by (simp add: h sai_fib_is_nh_group_size_valid_def)
        show thesis
        proof (cases "sai_fib_next_hop_fill_from_nh_id_list e s g ids False")
          case (Inl st)
          then have "st \<noteq> SAI_STATUS_SUCCESS"
            by (rule fill_error)
          then show thesis using call t h 1 g p sz' Inl refused by (auto simp: defs)
        next
          case ap: (Inr ap)
          note fl = fill_linkable [OF inv ap]
          have pre: "group_inv (util e) g t" "size (group_members t g) + length ap < 2 ^ 32"
            "\<And>a. a \<in> set ap \<Longrightarrow> linkable (util e) a t"
            using p(2) room g fl by (auto simp: h group_room_def)
          obtain st t' where t': "sai_fib_nh_group_add_in_lists e g ap t = (st, t')" by force
          note mem = add_in_lists_members [OF pre(1,3,2) t']
          show thesis
          proof (cases "st = SAI_STATUS_SUCCESS")
            case False
            then have "status = st" "s' = t'" using call t h 1 g p sz' ap t' by (auto simp: defs)
            then show thesis using nomem [OF g _ pre(3) fl(1) pre(1,2)] False t' h by simp
          next
            case True
            from mem obtain q where q: "grp_at t' g = Some q" by (auto simp: group_inv_def)
            obtain st2 t2 where t2: "hw_call (add_nh_to_group (nh_group_npu e) q (of_nat (length ids)) ap) t'
                = (st2, t2)" by force
            then obtain h2 where h2: "t2 = t'\<lparr>hw := h2\<rparr>" by (auto dest: hw_call_eqD)
            have "status = st2" "s' = (if st2 \<noteq> SAI_STATUS_SUCCESS
                then sai_fib_nh_group_remove_from_lists g ap t2 else t2)"
              using call t h 1 g p sz' ap t' True q t2 by (auto simp: defs split: if_splits)
            then show thesis
              using run [OF g _ ap fl(1) pre(3) pre(1,2) _ t' [unfolded True]] h h2 p sz
              by (cases "st2 = SAI_STATUS_SUCCESS") auto
          qed
        qed
      qed
    qed
  qed
qed

lemma add_to_group_inv:
  assumes "fib_inv (util e) s" "group_room s gid (length ids)"
    and "sai_fib_next_hop_add_to_group e gid ids s = (status, s')"
  shows "fib_inv (util e) s'"
  using assms
proof (cases rule: add_to_group_cases)
  case refused
  then show ?thesis using assms by (simp add: hw_only_inv)
next
  case (run g ap t t')
  from add_in_lists_members [OF run(6,5,7,9)] have "group_inv (util e) g t'" by blast
  then show ?thesis
    using run(10) remove_from_lists_members [of "util e" g "t'\<lparr>hw := _\<rparr>" ap]
    by (auto simp: group_inv_def hw_only_inv)
next
  case (nomem g ap t)
  from add_in_lists_members [OF nomem(5,3,6,7)] show ?thesis by (auto simp: group_inv_def)
qed

text \<open>
  With an allocator that never fails: success means that exactly the given next hops were added, one
  unit of weight per occurrence, and anything else leaves every group as it was.
\<close>

lemma add_to_group_members:
  assumes inv: "fib_inv (util e) s" and room: "group_room s gid (length ids)" and tot: "calloc_total e"
    and call: "sai_fib_next_hop_add_to_group e gid ids s = (status, s')"
  shows "if status = SAI_STATUS_SUCCESS
     then \<exists>g ap. tree_get (nh_group_tree s) gid = Some g \<and>
        list_all2 (\<lambda>x a. tree_get (nh_id_tree s) x = Some a) ids ap \<and>
        group_members s' g = group_members s g + mset ap \<and>
        (\<forall>h. h \<noteq> g \<longrightarrow> group_members s' h = group_members s h)
     else \<forall>h. group_members s' h = group_members s h"
  using inv room call
proof (cases rule: add_to_group_cases)
  case refused
  then show ?thesis by (auto simp: hw_only_def)
next
  case (run g ap t t')
  note mem = add_in_lists_members [OF run(6,5,7,9)] and all = add_in_lists_total [OF tot run(6,5,7,9)]
  have eq: "group_members t h = group_members s h" for h using run(2) by (auto simp: hw_only_def)
  from run(10) consider (ok) "status = SAI_STATUS_SUCCESS" "hw_only t' s'"
    | (bad) h where "status \<noteq> SAI_STATUS_SUCCESS"
        "s' = sai_fib_nh_group_remove_from_lists g ap (t'\<lparr>hw := h\<rparr>)" by blast
  then show ?thesis
  proof cases
    case ok
    then have "group_members s' h = group_members t' h" for h by (auto simp: hw_only_def)
    then show ?thesis
      using ok run(1) fill_linkable(3) [OF inv run(3)] mem all eq by (auto simp: only_group_def)
  next
    case bad
    have "group_inv (util e) g (t'\<lparr>hw := h\<rparr>)" using mem by simp
    from remove_from_lists_members [OF this, of ap] bad mem all eq show ?thesis
      by (simp add: only_group_def) (metis add_diff_cancel_right')
  qed
next
  case (nomem g ap t)
  with add_in_lists_total [OF tot nomem(5,3,6,7)] show ?thesis by blast
qed

section \<open>Removing next hops from a group\<close>

lemma remove_from_group_cases:
  assumes inv: "fib_inv (util e) s"
    and call: "sai_fib_next_hop_remove_from_group e gid ids s = (status, s')"
  shows "status \<noteq> SAI_STATUS_SUCCESS \<and> hw_only s s' \<or>
    status = SAI_STATUS_SUCCESS \<and>
    (\<exists>g p ap h. tree_get (nh_group_tree s) gid = Some g \<and> grp_at s g = Some p \<and>
       sai_fib_next_hop_fill_from_nh_id_list e s g ids True = Inr ap \<and>
       s' = sai_fib_nh_group_remove_from_lists g ap (s\<lparr>hw := h\<rparr>))"
  using call
  by (auto simp: sai_fib_next_hop_remove_from_group_def fill_error
      split: if_splits prod.splits option.splits sum.splits dest!: hw_call_eqD)

text \<open>The array of a removal has one entry per allowed next hop of a group, however long the list is.\<close>

lemma fill_overrun:
  assumes "\<And>x. x \<in> set ids \<Longrightarrow> is_obj_id e SAI_OBJECT_TYPE_NEXT_HOP x \<and>
      (\<exists>a. tree_get (nh_id_tree s) x = Some a \<and> tree_get (grp_nh_list p) a \<noteq> None)"
    and "grp_at s g = Some p" and "k < length ids"
  shows "fill_from_nh_id_list_loop e s g ids True k = Inl UNDEFINED_BEHAVIOUR"
  using assms
proof (induction ids arbitrary: k)
  case (Cons x xs)
  from Cons.prems(1) [of x] obtain a where x: "is_obj_id e SAI_OBJECT_TYPE_NEXT_HOP x"
    "tree_get (nh_id_tree s) x = Some a" "tree_get (grp_nh_list p) a \<noteq> None" by auto
  show ?case
  proof (cases k)
    case (Suc j)
    then show ?thesis using x Cons.prems Cons.IH [of j] by auto
  qed (use x Cons.prems(2) in auto)
qed simp

lemma remove_from_group_overrun:
  assumes "is_obj_id e SAI_OBJECT_TYPE_NEXT_HOP_GROUP gid" "fst (calloc_ok (plat e) (hw s))"
    and "tree_get (nh_group_tree s) gid = Some g" "grp_at s g = Some p"
    and "\<And>x. x \<in> set ids \<Longrightarrow> is_obj_id e SAI_OBJECT_TYPE_NEXT_HOP x \<and>
      (\<exists>a. tree_get (nh_id_tree s) x = Some a \<and> tree_get (grp_nh_list p) a \<noteq> None)"
    and "unat (max_ecmp_paths s) < length ids" "length ids < 2 ^ 32"
  shows "fst (sai_fib_next_hop_remove_from_group e gid ids s) = UNDEFINED_BEHAVIOUR"
proof -
  obtain h where "calloc_ok (plat e) (hw s) = (True, h)" using assms(2) by (metis prod.collapse)
  moreover have "(of_nat (length ids) :: u32) \<noteq> 0"
    using assms(6,7) by (auto simp: word_unat_eq_iff unat_of_nat)
  ultimately show ?thesis
    using assms(1,3,4) fill_overrun [OF assms(5,4,6)]
    by (simp add: sai_fib_next_hop_remove_from_group_def hw_call_def sai_fib_next_hop_fill_from_nh_id_list_def)
qed

lemma remove_from_group_members:
  assumes inv: "fib_inv (util e) s"
    and call: "sai_fib_next_hop_remove_from_group e gid ids s = (status, s')"
  shows "fib_inv (util e) s' \<and>
    (if status = SAI_STATUS_SUCCESS
     then \<exists>g ap. tree_get (nh_group_tree s) gid = Some g \<and>
        list_all2 (\<lambda>x a. tree_get (nh_id_tree s) x = Some a) ids ap \<and>
        set ap \<subseteq> set_mset (group_members s g) \<and>
        group_members s' g = group_members s g - mset ap \<and>
        (\<forall>h. h \<noteq> g \<longrightarrow> group_members s' h = group_members s h)
     else \<forall>h. group_members s' h = group_members s h)"
proof -
  from remove_from_group_cases [OF assms] show ?thesis
  proof (elim disjE conjE exE)
    assume "status \<noteq> SAI_STATUS_SUCCESS" "hw_only s s'"
    then show ?thesis using inv by (auto simp: hw_only_def)
  next
    fix g p ap h
    assume ok: "status = SAI_STATUS_SUCCESS" and g: "tree_get (nh_group_tree s) gid = Some g"
      and p: "grp_at s g = Some p" and ap: "sai_fib_next_hop_fill_from_nh_id_list e s g ids True = Inr ap"
      and s': "s' = sai_fib_nh_group_remove_from_lists g ap (s\<lparr>hw := h\<rparr>)"
    have "group_inv (util e) g (s\<lparr>hw := h\<rparr>)" using inv p by (simp add: group_inv_def)
    from remove_from_lists_members [OF this, of ap] s' ok g fill_linkable(3) [OF inv ap]
      fill_remove_members [OF inv p ap]
    show ?thesis by (auto simp: group_inv_def only_group_def)
  qed
qed

section \<open>Removing a group\<close>

lemma strip_grp_sel [simp]:
  "grp_id (strip_grp p) = grp_id p" "grp_ref_count (strip_grp p) = grp_ref_count p"
  by (simp_all add: strip_grp_def)

lemma only_group_grpD:
  assumes "only_group g s s'" "grp_at s h = Some p" "grp_at s' h = Some p'"
  shows "grp_id p' = grp_id p" "grp_ref_count p' = grp_ref_count p"
  using only_group_grp [OF assms(1), of h] assms(2,3)
  by (simp_all) (metis strip_grp_sel)+

lemma only_group_route_refs: "only_group g s s' \<Longrightarrow> route_refs s' t = route_refs s t"
  by (simp add: route_refs_def only_groupD)

lemma group_node_free_inv:
  assumes inv: "fib_inv u s" and p: "grp_at s g = Some p" "grp_nh_list p = []"
    and z: "route_refs s (RouteNhGroup g) = 0"
  shows "fib_inv u (sai_fib_nh_group_node_free g (s\<lparr>nh_group_tree := tree_del (grp_id p) (nh_group_tree s)\<rparr>))"
  unfolding sai_fib_nh_group_node_free_def
proof (rule inv_del_grp [where p = p])
  show "tree_get (nh_group_tree (s\<lparr>nh_group_tree := tree_del (grp_id p) (nh_group_tree s)\<rparr>)) i \<noteq> Some g" for i
    using grp_tree_okD [OF fib_invD(9) [OF inv], of i g] p by auto
  show "route_refs (s\<lparr>nh_group_tree := tree_del (grp_id p) (nh_group_tree s)\<rparr>) (RouteNhGroup g) = 0"
    using z by (simp add: route_refs_def)
qed (use inv p in \<open>simp_all add: inv_nh_group_del\<close>)

lemma group_remove_cases:
  assumes "sai_fib_next_hop_group_remove e gid s = (status, s')"
  shows "status \<noteq> SAI_STATUS_SUCCESS \<and> hw_only s s' \<or>
    status = SAI_STATUS_SUCCESS \<and>
    (\<exists>g p h t. tree_get (nh_group_tree s) gid = Some g \<and> grp_at s g = Some p \<and> grp_ref_count p = 0 \<and>
       t = (if grp_nh_count p \<noteq> 0 then sai_fib_nh_group_remove_all_nh g (s\<lparr>hw := h\<rparr>) else s\<lparr>hw := h\<rparr>) \<and>
       s' = sai_fib_nh_group_node_free g (t\<lparr>nh_group_tree := tree_del (grp_id p) (nh_group_tree t)\<rparr>))"
  using assms
  by (auto simp: sai_fib_next_hop_group_remove_def sai_fib_is_nh_group_used_def Let_def
      split: if_splits prod.splits option.splits dest!: hw_call_eqD)

lemma empty_group:
  assumes "fib_inv u s" "grp_at s g = Some p" "grp_nh_count p = 0"
  shows "grp_nh_list p = []"
proof -
  have "(of_nat (group_weight p) :: u32) = 0" "group_weight p < 2 ^ 32"
    using fib_invD(8) [OF assms(1)] assms(2,3) by (auto simp: grp_ok_def)
  then have z: "group_weight p = 0" using of_nat_u32_zero by blast
  have "tree_get (grp_nh_list p) a = None" for a
  proof (rule ccontr)
    assume "tree_get (grp_nh_list p) a \<noteq> None"
    then obtain w where w: "tree_get (grp_nh_list p) a = Some w" by auto
    with link_okD [OF fib_invD(10) [OF assms(1)], of g a w] assms(2) have "w \<noteq> 0"
      by (simp add: grp_link_def)
    moreover have "unat w = 0" using asum_zero_get [OF z [unfolded group_weight_def] w] .
    ultimately show False by (simp add: unat_eq_0)
  qed
  then show ?thesis using tree_get_all_None by blast
qed

lemma group_remove_result:
  assumes inv: "fib_inv (util e) s" and bnd: "fib_bounded s"
    and call: "sai_fib_next_hop_group_remove e gid s = (status, s')"
  shows "fib_inv (util e) s' \<and>
    (if status = SAI_STATUS_SUCCESS
     then \<exists>g. tree_get (nh_group_tree s) gid = Some g \<and> route_refs s (RouteNhGroup g) = 0 \<and>
        grp_at s' g = None \<and> nh_group_tree s' = tree_del gid (nh_group_tree s) \<and>
        (\<forall>a. nh_link s' a g = None) \<and>
        (\<forall>h. h \<noteq> g \<longrightarrow> group_members s' h = group_members s h)
     else hw_only s s')"
proof -
  from group_remove_cases [OF call] show ?thesis
  proof (elim disjE conjE exE)
    assume "status \<noteq> SAI_STATUS_SUCCESS" "hw_only s s'"
    then show ?thesis using inv by (simp add: hw_only_inv)
  next
    fix g p h t
    assume ok: "status = SAI_STATUS_SUCCESS" and g: "tree_get (nh_group_tree s) gid = Some g"
      and p: "grp_at s g = Some p" "grp_ref_count p = 0"
      and t: "t = (if grp_nh_count p \<noteq> 0 then sai_fib_nh_group_remove_all_nh g (s\<lparr>hw := h\<rparr>) else s\<lparr>hw := h\<rparr>)"
      and s': "s' = sai_fib_nh_group_node_free g (t\<lparr>nh_group_tree := tree_del (grp_id p) (nh_group_tree t)\<rparr>)"
    have gi: "group_inv (util e) g (s\<lparr>hw := h\<rparr>)" using inv p by (simp add: group_inv_def)
    obtain q where q: "fib_inv (util e) t" "grp_at t g = Some q" "grp_nh_list q = []"
      "only_group g (s\<lparr>hw := h\<rparr>) t"
    proof (cases "grp_nh_count p = 0")
      case True
      then show thesis using that [of p] inv p t empty_group [OF inv p(1)] by simp
    next
      case False
      then show thesis using that remove_all_nh_empties [OF gi] t by auto
    qed
    have z: "route_refs s (RouteNhGroup g) = 0" by (rule grp_unused [OF inv bnd p])
    have rr: "route_refs t (RouteNhGroup g) = 0"
      using z only_group_route_refs [OF q(4)] by (simp add: route_refs_def)
    have gid: "grp_id q = grp_id p" "grp_id p = gid"
      using only_group_grpD(1) [OF q(4) _ q(2)] grp_tree_okD [OF fib_invD(9) [OF inv] g] p(1) by auto
    have s'': "fib_inv (util e) s'"
      using group_node_free_inv [OF q(1-3) rr] by (simp add: s' gid)
    have at: "grp_at s' g = None" by (simp add: s' sai_fib_nh_group_node_free_def)
    then have "nh_link s' a g = None" for a
      using link_ok_sym [OF fib_invD(10) [OF s''], of g a] by (simp add: grp_link_def)
    moreover have "group_members s' k = group_members s k" if "k \<noteq> g" for k
      using q(4) that by (simp add: s' sai_fib_nh_group_node_free_def group_members_def only_group_def)
    moreover have "nh_group_tree s' = tree_del gid (nh_group_tree s)"
      using only_groupD(4) [OF q(4)] by (simp add: s' gid sai_fib_nh_group_node_free_def)
    ultimately show ?thesis using s'' ok g z at by auto
  qed
qed

section \<open>Creating a group\<close>

text \<open>Only group \<open>g\<close> and the links to it differ.\<close>

definition group_frame :: "addr \<Rightarrow> 'h fib \<Rightarrow> 'h fib \<Rightarrow> bool" where
  "group_frame g s s' \<longleftrightarrow>
     vrf_tree s' = vrf_tree s \<and> router_interface_tree s' = router_interface_tree s \<and>
     nh_id_tree s' = nh_id_tree s \<and> neighbor_mac_tree s' = neighbor_mac_tree s \<and>
     max_ecmp_paths s' = max_ecmp_paths s \<and> num_virtual_routers s' = num_virtual_routers s \<and>
     (\<forall>a. map_option strip_nh (nh_at s' a) = map_option strip_nh (nh_at s a)) \<and>
     (\<forall>h. h \<noteq> g \<longrightarrow> map_option strip_grp (grp_at s' h) = map_option strip_grp (grp_at s h) \<and>
        group_members s' h = group_members s h)"

lemma group_frame_refl [simp]: "group_frame g s s"
  by (simp add: group_frame_def)

lemma group_frame_trans: "group_frame g s s' \<Longrightarrow> group_frame g s' s'' \<Longrightarrow> group_frame g s s''"
  by (simp add: group_frame_def)

lemma only_group_frame: "only_group g s s' \<Longrightarrow> group_frame g s s'"
  by (auto simp: group_frame_def only_groupD only_group_nh only_group_grp)
     (auto simp: only_group_def)

lemma hw_only_frame: "hw_only s s' \<Longrightarrow> group_frame g s s'"
  by (auto simp: hw_only_def group_frame_def)

lemma set_grp_frame: "group_frame g s (set_grp g p s)"
  by (simp add: group_frame_def group_members_def set_grp_def)

fun attr_ids :: "nhg_attr list \<Rightarrow> oid list" where
  "attr_ids [] = []"
| "attr_ids (SAI_NEXT_HOP_GROUP_ATTR_NEXT_HOP_LIST ids # attrs) = ids @ attr_ids attrs"
| "attr_ids (_ # attrs) = attr_ids attrs"

text \<open>What filling in attributes keeps: the group is not yet in the tree of groups.\<close>

definition fill_inv :: "l3_util \<Rightarrow> addr \<Rightarrow> 'h fib \<Rightarrow> bool" where
  "fill_inv u g s \<longleftrightarrow> group_inv u g s \<and> (\<forall>i. tree_get (nh_group_tree s) i \<noteq> Some g)"

definition fill_frame :: "addr \<Rightarrow> 'h fib \<Rightarrow> 'h fib \<Rightarrow> bool" where
  "fill_frame g s s' \<longleftrightarrow> group_frame g s s' \<and> nh_group_tree s' = nh_group_tree s"

lemma type_set_keeps:
  assumes "fill_inv u g s" "sai_fib_next_hop_group_type_set g ty c s = (status, s')"
  shows "fill_inv u g s' \<and> fill_frame g s s' \<and> group_members s' g = group_members s g"
proof -
  have inv: "fib_inv u s" "\<And>i. tree_get (nh_group_tree s) i \<noteq> Some g"
    using assms(1) by (auto simp: fill_inv_def group_inv_def)
  from assms(2) have "s' = s \<or> (\<exists>p. grp_at s g = Some p \<and> s' = set_grp g (p\<lparr>grp_type := ty\<rparr>) s)"
    by (auto simp: sai_fib_next_hop_group_type_set_def split: if_splits option.splits)
  then show ?thesis
  proof (elim disjE exE conjE)
    fix p assume p: "grp_at s g = Some p" and s': "s' = set_grp g (p\<lparr>grp_type := ty\<rparr>) s"
    have "fib_inv u s'" unfolding s' by (rule inv_set_grp_attr [OF inv(1) p]) simp_all
    then show ?thesis
      using p inv(2) set_grp_frame by (simp add: s' fill_inv_def fill_frame_def group_inv_def group_members_def)
  qed (use assms(1) in \<open>simp add: fill_frame_def\<close>)
qed

lemma list_set_keeps:
  assumes "fill_inv (util e) g s" "size (group_members s g) + length ids < 2 ^ 32"
    and "sai_fib_next_hop_group_next_hop_list_set e g ids c ap s = (status, ap', s')"
  shows "fill_inv (util e) g s' \<and> fill_frame g s s' \<and>
    size (group_members s' g) \<le> size (group_members s g) + length ids \<and>
    (calloc_total e \<longrightarrow> status = SAI_STATUS_SUCCESS \<longrightarrow>
       (\<exists>as. list_all2 (\<lambda>x a. tree_get (nh_id_tree s) x = Some a) ids as \<and>
         group_members s' g = group_members s g + mset as))"
proof -
  have inv: "fib_inv (util e) s" "group_inv (util e) g s" "\<And>i. tree_get (nh_group_tree s) i \<noteq> Some g"
    using assms(1) by (auto simp: fill_inv_def group_inv_def)
  from assms(3) have "status \<noteq> SAI_STATUS_SUCCESS \<and> s' = s \<or>
    (\<exists>as. sai_fib_next_hop_fill_from_nh_id_list e s g ids False = Inr as \<and>
      sai_fib_nh_group_add_in_lists e g as s = (status, s'))"
    by (auto simp: sai_fib_next_hop_group_next_hop_list_set_def fill_error
        split: if_splits option.splits sum.splits prod.splits)
  then show ?thesis
  proof (elim disjE exE conjE)
    fix as assume as: "sai_fib_next_hop_fill_from_nh_id_list e s g ids False = Inr as"
      and add: "sai_fib_nh_group_add_in_lists e g as s = (status, s')"
    note fl = fill_linkable [OF inv(1) as]
    have cap: "size (group_members s g) + length as < 2 ^ 32" using assms(2) fl(1) by simp
    note mem = add_in_lists_members [OF inv(2) fl(2) cap add]
    have "nh_group_tree s' = nh_group_tree s" using mem only_groupD(4) by blast
    then show ?thesis
      using mem inv fl add_in_lists_total [OF _ inv(2) fl(2) cap add]
      by (auto simp: fill_inv_def fill_frame_def intro: only_group_frame)
  qed (use assms(1) in \<open>simp add: fill_frame_def\<close>)
qed

definition attr_len :: "nhg_attr \<Rightarrow> nat" where
  "attr_len attr = length (attr_ids [attr])"

lemma attr_set_keeps:
  assumes "fill_inv (util e) g s" "size (group_members s g) + attr_len attr < 2 ^ 32"
    and "group_attr_set e g attr c fl ap s = (status, fl', ap', s')"
  shows "fill_inv (util e) g s' \<and> fill_frame g s s' \<and>
    size (group_members s' g) \<le> size (group_members s g) + attr_len attr \<and>
    (calloc_total e \<longrightarrow> status = SAI_STATUS_SUCCESS \<longrightarrow>
       (\<exists>as. list_all2 (\<lambda>x a. tree_get (nh_id_tree s) x = Some a) (attr_ids [attr]) as \<and>
         group_members s' g = group_members s g + mset as))"
proof (cases attr)
  case (SAI_NEXT_HOP_GROUP_ATTR_TYPE ty)
  then obtain st where "sai_fib_next_hop_group_type_set g ty c s = (st, s')"
    using assms(3) by (auto simp: group_attr_set_def split: prod.splits)
  from type_set_keeps [OF assms(1) this] SAI_NEXT_HOP_GROUP_ATTR_TYPE show ?thesis by simp
next
  case (SAI_NEXT_HOP_GROUP_ATTR_NEXT_HOP_LIST ids)
  then have "sai_fib_next_hop_group_next_hop_list_set e g ids c ap s = (status, ap', s')"
    using assms(3) by (auto simp: group_attr_set_def split: prod.splits)
  from list_set_keeps [OF assms(1) _ this] assms(2) SAI_NEXT_HOP_GROUP_ATTR_NEXT_HOP_LIST
  show ?thesis by (simp add: attr_len_def)
qed (use assms in \<open>auto simp: group_attr_set_def fill_frame_def\<close>)

lemma attr_ids_Cons: "attr_ids (attr # attrs) = attr_ids [attr] @ attr_ids attrs"
  by (cases attr) simp_all

lemma fill_loop_keeps:
  assumes "util_ok (util e)"
  shows "fill_inv (util e) g s \<Longrightarrow> size (group_members s g) + length (attr_ids attrs) < 2 ^ 32 \<Longrightarrow>
    group_info_fill_loop e g attrs i c fl ap s = (status, fl', ap', s') \<Longrightarrow>
    fill_inv (util e) g s' \<and> fill_frame g s s' \<and>
    (calloc_total e \<longrightarrow> status = SAI_STATUS_SUCCESS \<longrightarrow>
       (\<exists>as. list_all2 (\<lambda>x a. tree_get (nh_id_tree s) x = Some a) (attr_ids attrs) as \<and>
         group_members s' g = group_members s g + mset as))"
proof (induction attrs arbitrary: i fl ap s)
  case (Cons attr attrs)
  obtain st fl1 ap1 s1 where s1: "group_attr_set e g attr c fl ap s = (st, fl1, ap1, s1)"
    by (metis prod_cases4)
  have "size (group_members s g) + attr_len attr < 2 ^ 32"
    using Cons.prems(2) by (simp add: attr_ids_Cons [of attr attrs] attr_len_def)
  note one = attr_set_keeps [OF Cons.prems(1) this s1]
  show ?case
  proof (cases "st = SAI_STATUS_SUCCESS")
    case False
    then have "status \<noteq> SAI_STATUS_SUCCESS" "s' = s1"
      using Cons.prems(3) s1 util_ok_status [OF assms False, of i] by (auto split: if_split_asm)
    then show ?thesis using one by simp
  next
    case True
    then have "group_info_fill_loop e g attrs (i + 1) c fl1 ap1 s1 = (status, fl', ap', s')"
      using Cons.prems(3) s1 by simp
    note IH = Cons.IH [OF _ _ this]
    have sz: "size (group_members s1 g) + length (attr_ids attrs) < 2 ^ 32"
      using Cons.prems(2) one by (simp add: attr_ids_Cons [of attr attrs] attr_len_def)
    have ids: "nh_id_tree s1 = nh_id_tree s" using one by (simp add: group_frame_def fill_frame_def)
    have "fill_inv (util e) g s1" using one by simp
    from IH [OF this sz] one True show ?thesis
      unfolding attr_ids_Cons [of attr attrs] ids
      by (auto simp: fill_frame_def intro: group_frame_trans) (metis (no_types, lifting) list_all2_appendI mset_append union_assoc)
  qed
qed (simp add: fill_frame_def)

lemma grp_node_allocD:
  assumes "fib_inv u s" "sai_fib_nh_group_node_alloc e s = (r, t)"
  shows "r = None \<and> hw_only s t \<or>
    r = Some (next_addr s) \<and> grp_at s (next_addr s) = None \<and> fill_inv u (next_addr s) t \<and>
    group_frame (next_addr s) s t \<and> nh_group_tree t = nh_group_tree s \<and>
    group_members t (next_addr s) = {#} \<and> grp_at t (next_addr s) = Some grp_zero"
proof -
  let ?g = "next_addr s"
  have fresh: "grp_at s ?g = None" using fib_invD(1) [OF assms(1)] by (rule fresh_addr(2))
  obtain ok t0 where t0: "hw_call (calloc_ok (plat e)) s = (ok, t0)" by force
  then obtain h where h: "t0 = s\<lparr>hw := h\<rparr>" by (auto dest: hw_call_eqD)
  show ?thesis
  proof (cases ok)
    case False
    then have "r = None" "t = s\<lparr>hw := h\<rparr>"
      using assms(2) t0 h by (simp_all add: sai_fib_nh_group_node_alloc_def)
    then show ?thesis by simp
  next
    case True
    then have r: "r = Some ?g" and t: "t = set_grp ?g grp_zero (s\<lparr>hw := h, next_addr := ?g + 1\<rparr>)"
      using assms(2) t0 h by (simp_all add: sai_fib_nh_group_node_alloc_def)
    have "fib_inv u (s\<lparr>hw := h, next_addr := ?g + 1\<rparr>)"
      using fib_inv_next_addr [of u "s\<lparr>hw := h\<rparr>" "?g + 1"] assms(1) by simp
    then have "fib_inv u t" unfolding t using fresh by (intro inv_new_grp) (simp_all add: grp_zero_def)
    moreover have "tree_get (nh_group_tree s) i \<noteq> Some ?g" for i
      using grp_tree_okD [OF fib_invD(9) [OF assms(1)], of i ?g] fresh by auto
    ultimately show ?thesis
      using r fresh by (simp add: t fill_inv_def group_inv_def group_frame_def group_members_def grp_zero_def)
  qed
qed

lemma create_npu_result:
  assumes "fill_inv u g s" "group_create_npu e g ap s = (status, out, s')"
  shows "status \<noteq> SAI_STATUS_SUCCESS \<and> out = None \<and> hw_only s s' \<or>
    status = SAI_STATUS_SUCCESS \<and> fib_inv u s' \<and> group_frame g s s' \<and>
    group_members s' g = group_members s g \<and>
    (\<exists>gid p q. out = Some gid \<and> grp_at s g = Some p \<and> grp_at s' g = Some q \<and>
       q = p\<lparr>grp_id := gid\<rparr> \<and>
       (nh_group_tree s' = nh_group_tree s \<or>
        tree_get (nh_group_tree s) gid = None \<and>
        nh_group_tree s' = tree_put gid g (nh_group_tree s)))"
proof -
  from assms(1) obtain p where p: "fib_inv u s" "grp_at s g = Some p"
    "\<And>i. tree_get (nh_group_tree s) i \<noteq> Some g" by (auto simp: fill_inv_def group_inv_def)
  have inv: "fib_inv u (set_grp g (p\<lparr>grp_id := gid\<rparr>) (s\<lparr>hw := h\<rparr>))" for gid h
    using p by (intro inv_set_grp_attr [where p = p]) simp_all
  have inv': "fib_inv u ((set_grp g (p\<lparr>grp_id := gid\<rparr>) (s\<lparr>hw := h\<rparr>))
    \<lparr>nh_group_tree := tree_put gid g (nh_group_tree s)\<rparr>)" for gid h
    using inv_nh_group_put [OF inv [of gid h], of g] by simp
  from assms(2) p(2) show ?thesis
    using inv inv'
    by (auto simp: group_create_npu_def rbtree_insert_ok_def Let_def group_frame_def group_members_def
        split: prod.splits if_splits dest!: hw_call_eqD)
qed

lemma info_fill_keeps:
  assumes "util_ok (util e)" "fill_inv (util e) g s"
    and "size (group_members s g) + length (attr_ids attrs) < 2 ^ 32"
    and call: "sai_fib_next_hop_group_info_fill e g attrs c ap s = (status, ap', s')"
  shows "fill_inv (util e) g s' \<and> group_frame g s s' \<and> nh_group_tree s' = nh_group_tree s \<and>
    (calloc_total e \<longrightarrow> status = SAI_STATUS_SUCCESS \<longrightarrow>
       (\<exists>as. list_all2 (\<lambda>x a. tree_get (nh_id_tree s) x = Some a) (attr_ids attrs) as \<and>
         group_members s' g = group_members s g + mset as))"
proof (cases "attrs = []")
  case False
  obtain st t1 t2 ap1 s1 where s1: "group_info_fill_loop e g attrs 0 c (False, False) ap s
      = (st, (t1, t2), ap1, s1)" by (metis prod.exhaust)
  have "s' = s1" "status = SAI_STATUS_SUCCESS \<Longrightarrow> st = SAI_STATUS_SUCCESS"
    using call s1 False by (auto simp: sai_fib_next_hop_group_info_fill_def split: if_splits)
  with fill_loop_keeps [OF assms(1-3) s1] show ?thesis unfolding fill_frame_def by blast
qed (use assms in \<open>simp add: sai_fib_next_hop_group_info_fill_def\<close>)

lemma empty_new_group:
  assumes "fill_inv u g s" "hw_only s s'"
  defines "x \<equiv> (case grp_at s' g of None \<Rightarrow> s'
     | Some p \<Rightarrow> if grp_nh_count p \<noteq> 0 then sai_fib_nh_group_remove_all_nh g s' else s')"
  shows "fill_inv u g x \<and> group_frame g s x \<and> (\<exists>q. grp_at x g = Some q \<and> grp_nh_list q = []) \<and>
    nh_group_tree x = nh_group_tree s"
proof -
  from assms(2) obtain h where h: "s' = s\<lparr>hw := h\<rparr>" by (auto simp: hw_only_def)
  have fi: "fill_inv u g s'" using assms(1) by (simp add: h fill_inv_def)
  then obtain p where p: "grp_at s' g = Some p" "group_inv u g s'" by (auto simp: fill_inv_def group_inv_def)
  show ?thesis
  proof (cases "grp_nh_count p = 0")
    case True
    then have "x = s'" using p by (simp add: x_def)
    then show ?thesis
      using fi p True empty_group [of u s' g p] assms(2)
      by (auto simp: group_inv_def hw_only_sel intro: hw_only_frame)
  next
    case False
    then have x: "x = sai_fib_nh_group_remove_all_nh g s'" using p by (simp add: x_def)
    from remove_all_nh_empties [OF p(2)] obtain q where q: "fib_inv u x" "grp_at x g = Some q"
      "grp_nh_list q = []" "only_group g s' x" by (auto simp: x)
    have "nh_group_tree x = nh_group_tree s" using only_groupD(4) [OF q(4)] by (simp add: h)
    moreover have "group_frame g s x"
      using hw_only_frame [OF assms(2)] only_group_frame [OF q(4)] by (rule group_frame_trans)
    ultimately show ?thesis using q assms(1) by (auto simp: fill_inv_def group_inv_def)
  qed
qed

text \<open>
  A failed creation leaves no trace: the node is freed, every link made so far is taken out, and no
  tree changes. A creation that answers success has written the id of a node that is in the heap,
  with the given next hops as its members when allocation never fails; the id is in the tree of
  groups unless the insertion failed, which the answer does not tell.
\<close>

lemma group_create_result:
  assumes u: "util_ok (util e)" and inv: "fib_inv (util e) s" and room: "length (attr_ids attrs) < 2 ^ 32"
    and call: "sai_fib_next_hop_group_create e attrs s = (status, out, s')"
  shows "fib_inv (util e) s' \<and> group_frame (next_addr s) s s' \<and>
    (if status = SAI_STATUS_SUCCESS
     then \<exists>gid p. out = Some gid \<and> grp_at s' (next_addr s) = Some p \<and> grp_id p = gid \<and>
        (nh_group_tree s' = nh_group_tree s \<or>
         tree_get (nh_group_tree s) gid = None \<and>
         nh_group_tree s' = tree_put gid (next_addr s) (nh_group_tree s)) \<and>
        (calloc_total e \<longrightarrow>
           (\<exists>as. list_all2 (\<lambda>x a. tree_get (nh_id_tree s) x = Some a) (attr_ids attrs) as \<and>
              group_members s' (next_addr s) = mset as))
     else out = None \<and> grp_at s' (next_addr s) = grp_at s (next_addr s) \<and>
        nh_group_tree s' = nh_group_tree s)"
proof -
  let ?g = "next_addr s"
  obtain r t where t: "sai_fib_nh_group_node_alloc e s = (r, t)" by force
  from grp_node_allocD [OF inv t] show ?thesis
  proof (elim disjE conjE)
    assume "r = None" "hw_only s t"
    then show ?thesis
      using call t inv hw_only_sel(4,7) [of s t]
      by (auto simp: sai_fib_next_hop_group_create_def hw_only_inv hw_only_frame)
  next
    assume r: "r = Some ?g" and fresh: "grp_at s ?g = None" and fi: "fill_inv (util e) ?g t"
      and fr: "group_frame ?g s t" and tt: "nh_group_tree t = nh_group_tree s"
      and em: "group_members t ?g = {#}" "grp_at t ?g = Some grp_zero"
    obtain ok t1 where t1: "hw_call (calloc_ok (plat e)) t = (ok, t1)" by force
    obtain h1 where h1: "t1 = t\<lparr>hw := h1\<rparr>" using t1 by (auto dest: hw_call_eqD)
    have fi1: "fill_inv (util e) ?g t1" using fi by (simp add: h1 fill_inv_def)
    have drop: "fib_inv (util e) (sai_fib_nh_group_node_free ?g x) \<and>
        group_frame ?g s (sai_fib_nh_group_node_free ?g x)"
      if "fill_inv (util e) ?g x" "group_frame ?g s x" "\<exists>q. grp_at x ?g = Some q \<and> grp_nh_list q = []" for x
    proof -
      from that obtain q where q: "grp_at x ?g = Some q" "grp_nh_list q = []" by blast
      have "route_refs x (RouteNhGroup ?g) = route_refs s (RouteNhGroup ?g)"
        using that(2) by (simp add: group_frame_def route_refs_def)
      then have "route_refs x (RouteNhGroup ?g) = 0"
        using no_route_to_missing_group [OF inv fresh] by simp
      then have "fib_inv (util e) (sai_fib_nh_group_node_free ?g x)"
        unfolding sai_fib_nh_group_node_free_def using that(1) q
        by (intro inv_del_grp) (auto simp: fill_inv_def group_inv_def)
      moreover have "group_frame ?g x (sai_fib_nh_group_node_free ?g x)"
        by (simp add: group_frame_def sai_fib_nh_group_node_free_def group_members_def)
      ultimately show ?thesis using that(2) group_frame_trans by blast
    qed
    show ?thesis
    proof (cases ok)
      case False
      then have "status = SAI_STATUS_NO_MEMORY" "out = None" "s' = sai_fib_nh_group_node_free ?g t1"
        using call t r t1 by (auto simp: sai_fib_next_hop_group_create_def)
      moreover have "group_frame ?g s t1" "\<exists>q. grp_at t1 ?g = Some q \<and> grp_nh_list q = []"
        "nh_group_tree t1 = nh_group_tree s"
        using fr em tt by (auto simp: h1 group_frame_def group_members_def grp_zero_def)
      ultimately show ?thesis
        using drop [OF fi1] fresh by (simp add: sai_fib_nh_group_node_free_def)
    next
      case True
      obtain st ap s2 where s2: "sai_fib_next_hop_group_info_fill e ?g attrs True [] t1 = (st, ap, s2)"
        by (metis prod_cases3)
      have fr1: "group_frame ?g s t1" "nh_group_tree t1 = nh_group_tree s" "group_members t1 ?g = {#}"
        "nh_id_tree t1 = nh_id_tree s"
        using fr tt em by (auto simp: h1 group_frame_def group_members_def)
      have k: "fill_inv (util e) ?g s2" "group_frame ?g t1 s2" "nh_group_tree s2 = nh_group_tree t1"
        and mem: "calloc_total e \<Longrightarrow> st = SAI_STATUS_SUCCESS \<Longrightarrow>
          \<exists>as. list_all2 (\<lambda>x a. tree_get (nh_id_tree s) x = Some a) (attr_ids attrs) as \<and>
            group_members s2 ?g = mset as"
        using info_fill_keeps [OF u fi1 _ s2] room fr1 by auto
      have fr2: "group_frame ?g s s2" using fr1(1) k(2) by (rule group_frame_trans)
      obtain st2 out2 s3 where s3: "(if st \<noteq> SAI_STATUS_SUCCESS then (st, None, s2)
          else group_create_npu e ?g ap s2) = (st2, out2, s3)" by (metis prod_cases3)
      have fin: "status = st2" "out = out2" "s' = (if st2 = SAI_STATUS_SUCCESS then s3 else
          sai_fib_nh_group_node_free ?g (case grp_at s3 ?g of None \<Rightarrow> s3
            | Some p \<Rightarrow> if grp_nh_count p \<noteq> 0 then sai_fib_nh_group_remove_all_nh ?g s3 else s3))"
        using call t r t1 True s2 s3 by (auto simp: sai_fib_next_hop_group_create_def split: if_splits)
      show ?thesis
      proof (cases "st2 = SAI_STATUS_SUCCESS")
        case True
        then have st: "st = SAI_STATUS_SUCCESS" "group_create_npu e ?g ap s2 = (st2, out2, s3)"
          using s3 by (auto split: if_splits)
        from create_npu_result [OF k(1) st(2)] True fin mem st(1) group_frame_trans [OF fr2] fr1(2) k(3)
        show ?thesis by auto
      next
        case False
        then have s3: "hw_only s2 s3" "out2 = None"
          using s3 create_npu_result [OF k(1), of e ap st2 out2 s3] by (auto split: if_splits)
        then obtain h3 where h3: "s3 = s2\<lparr>hw := h3\<rparr>" by (auto simp: hw_only_def)
        obtain x where x: "s' = sai_fib_nh_group_node_free ?g x" "fill_inv (util e) ?g x"
          "group_frame ?g s2 x" "\<exists>q. grp_at x ?g = Some q \<and> grp_nh_list q = []"
          "nh_group_tree x = nh_group_tree s2"
          using empty_new_group [OF k(1) s3(1)] fin False by auto
        from drop [OF x(2) group_frame_trans [OF fr2 x(3)] x(4)] x False fin s3(2) fresh fr1(2) k(3)
        show ?thesis by (simp add: sai_fib_nh_group_node_free_def)
      qed
    qed
  qed
qed

end
