(* ===== verification/Fib_Vrf.thy ===== *)
theory Fib_Vrf
  imports Fib_Inv
begin

text \<open>
  Virtual routers: \<^verbatim>\<open>src/src/routing/sai_l3_vrf.c\<close>. A virtual router owns the tree of its next hops,
  the tree of its routes and the list of its router interfaces, and is removed only when all three
  are empty. A node is passed by value until it is in the tree of virtual routers; its two trees are
  then empty, so freeing it has no effect on the model.
\<close>

definition SAI_FIB_VRF_MAX_ATTR_COUNT :: nat where
  "SAI_FIB_VRF_MAX_ATTR_COUNT = 5"

section \<open>Attributes\<close>

definition sai_fib_vrf_mac_attr_set :: "l3_util \<Rightarrow> mac \<Rightarrow> vrf_node \<Rightarrow> sai_status \<times> vrf_node" where
  "sai_fib_vrf_mac_attr_set u m v =
     (if sai_fib_is_mac_address_zero u m then (SAI_STATUS_INVALID_ATTR_VALUE_0, v)
      else (SAI_STATUS_SUCCESS, v\<lparr>vrf_src_mac := m\<rparr>))"

definition sai_fib_vrf_v4_admin_state_attr_set :: "bool \<Rightarrow> vrf_node \<Rightarrow> sai_status \<times> vrf_node" where
  "sai_fib_vrf_v4_admin_state_attr_set st v = (SAI_STATUS_SUCCESS, v\<lparr>vrf_v4_admin_state := st\<rparr>)"

definition sai_fib_vrf_v6_admin_state_attr_set :: "bool \<Rightarrow> vrf_node \<Rightarrow> sai_status \<times> vrf_node" where
  "sai_fib_vrf_v6_admin_state_attr_set st v = (SAI_STATUS_SUCCESS, v\<lparr>vrf_v6_admin_state := st\<rparr>)"

definition sai_fib_vrf_ip_options_attr_set ::
    "l3_util \<Rightarrow> sai_packet_action \<Rightarrow> vrf_node \<Rightarrow> sai_status \<times> vrf_node" where
  "sai_fib_vrf_ip_options_attr_set u act v =
     (if \<not> sai_packet_action_validate u act then (SAI_STATUS_INVALID_ATTR_VALUE_0, v)
      else (SAI_STATUS_SUCCESS, v\<lparr>vrf_ip_options_pkt_action := act\<rparr>))"

definition sai_fib_vrf_ttl_violation_attr_set ::
    "l3_util \<Rightarrow> sai_packet_action \<Rightarrow> vrf_node \<Rightarrow> sai_status \<times> vrf_node" where
  "sai_fib_vrf_ttl_violation_attr_set u act v =
     (if \<not> sai_packet_action_validate u act then (SAI_STATUS_INVALID_ATTR_VALUE_0, v)
      else (SAI_STATUS_SUCCESS, v\<lparr>vrf_ttl0_1_pkt_action := act\<rparr>))"

definition sai_fib_vrf_create_params_validate :: "vr_attr list \<Rightarrow> sai_status" where
  "sai_fib_vrf_create_params_validate attrs =
     (if length attrs > SAI_FIB_VRF_MAX_ATTR_COUNT then SAI_STATUS_INVALID_PARAMETER
      else SAI_STATUS_SUCCESS)"

definition sai_fib_vrf_attributes_init :: "'h l3_env \<Rightarrow> 'h fib \<Rightarrow> vrf_node \<Rightarrow> vrf_node" where
  "sai_fib_vrf_attributes_init e s v =
     v\<lparr>vrf_v4_admin_state := SAI_FIB_V4_ADMIN_STATE_DFLT (util e),
       vrf_v6_admin_state := SAI_FIB_V6_ADMIN_STATE_DFLT (util e),
       vrf_ip_options_pkt_action := SAI_FIB_IP_OPT_PKT_ACTION_DFLT (util e),
       vrf_ttl0_1_pkt_action := SAI_FIB_TTL_VIOLATION_PKT_ACTION_DFLT (util e),
       vrf_src_mac := sai_switch_mac_address_get (plat e) (hw s)\<rparr>"

text \<open>The \<open>switch\<close> of the parser: status, node and the flag it sets.\<close>

definition vrf_attr_set :: "l3_util \<Rightarrow> vr_attr \<Rightarrow> vrf_node \<Rightarrow> sai_status \<times> vrf_node \<times> fib_attr_flag set" where
  "vrf_attr_set u attr v =
     (case attr of
        SAI_VIRTUAL_ROUTER_ATTR_SRC_MAC_ADDRESS m \<Rightarrow>
          (let (st, v) = sai_fib_vrf_mac_attr_set u m v in (st, v, {SAI_FIB_SRC_MAC_ATTR_FLAG}))
      | SAI_VIRTUAL_ROUTER_ATTR_ADMIN_V4_STATE b \<Rightarrow>
          (let (st, v) = sai_fib_vrf_v4_admin_state_attr_set b v
           in (st, v, {SAI_FIB_V4_ADMIN_STATE_ATTR_FLAG}))
      | SAI_VIRTUAL_ROUTER_ATTR_ADMIN_V6_STATE b \<Rightarrow>
          (let (st, v) = sai_fib_vrf_v6_admin_state_attr_set b v
           in (st, v, {SAI_FIB_V6_ADMIN_STATE_ATTR_FLAG}))
      | SAI_VIRTUAL_ROUTER_ATTR_VIOLATION_TTL1_ACTION act \<Rightarrow>
          (let (st, v) = sai_fib_vrf_ttl_violation_attr_set u act v
           in (st, v, {SAI_FIB_TTL_VIOLATION_ATTR_FLAG}))
      | SAI_VIRTUAL_ROUTER_ATTR_VIOLATION_IP_OPTIONS act \<Rightarrow>
          (let (st, v) = sai_fib_vrf_ip_options_attr_set u act v
           in (st, v, {SAI_FIB_IP_OPTIONS_ATTR_FLAG}))
      | VR_ATTR_UNKNOWN _ \<Rightarrow> (SAI_STATUS_UNKNOWN_ATTRIBUTE_0, v, {}))"

fun vrf_attributes_parse_loop ::
    "'h l3_env \<Rightarrow> vr_attr list \<Rightarrow> nat \<Rightarrow> fib_attr_flag set \<Rightarrow> vrf_node \<Rightarrow> 'h fib
     \<Rightarrow> sai_status \<times> fib_attr_flag set \<times> vrf_node \<times> 'h fib" where
  "vrf_attributes_parse_loop e [] i flags v s = (SAI_STATUS_SUCCESS, flags, v, s)"
| "vrf_attributes_parse_loop e (attr # attrs) i flags v s =
     (let (status, v, f) = vrf_attr_set (util e) attr v;
          flags = flags \<union> f;
          (status, s) = (if status = SAI_STATUS_SUCCESS
                         then hw_call (vr_attr_validate (router_npu e) attr) s else (status, s))
      in if status \<noteq> SAI_STATUS_SUCCESS
         then (sai_fib_attr_status_code_get (util e) status i, flags, v, s)
         else vrf_attributes_parse_loop e attrs (i + 1) flags v s)"

definition sai_fib_vrf_attributes_parse ::
    "'h l3_env \<Rightarrow> vr_attr list \<Rightarrow> vrf_node \<Rightarrow> 'h fib
     \<Rightarrow> sai_status \<times> fib_attr_flag set \<times> vrf_node \<times> 'h fib" where
  "sai_fib_vrf_attributes_parse e attrs v s =
     (let (status, flags, v, s) = vrf_attributes_parse_loop e attrs 0 {} v s
      in if status \<noteq> SAI_STATUS_SUCCESS then (status, flags, v, s)
         else if sai_fib_is_mac_address_zero (util e) (vrf_src_mac v)
         then (SAI_STATUS_ADDR_NOT_FOUND, flags, v, s)
         else (SAI_STATUS_SUCCESS, flags, v, s))"

section \<open>The trees of a virtual router\<close>

definition sai_fib_vrf_node_trees_create ::
    "'h l3_env \<Rightarrow> vrf_node \<Rightarrow> 'h fib \<Rightarrow> sai_status \<times> vrf_node \<times> 'h fib" where
  "sai_fib_vrf_node_trees_create e v s =
     (let (ok, s) = hw_call (std_radix_create_ok (plat e)) s
      in if \<not> ok
         then let (_, s) = hw_call (vr_remove (router_npu e) v) s in (SAI_STATUS_NO_MEMORY, v, s)
         else let v = v\<lparr>vrf_nh_tree := []\<rparr>;
                  (ok, s) = hw_call (std_radix_create_ok (plat e)) s
              in if \<not> ok
                 then let (_, s) = hw_call (vr_remove (router_npu e) v) s in (SAI_STATUS_NO_MEMORY, v, s)
                 else (SAI_STATUS_SUCCESS, v\<lparr>vrf_route_tree := []\<rparr>, s))"

definition sai_fib_vrf_node_insert_to_tree ::
    "'h l3_env \<Rightarrow> vrf_node \<Rightarrow> 'h fib \<Rightarrow> sai_status \<times> 'h fib" where
  "sai_fib_vrf_node_insert_to_tree e v s =
     (let (ok, s) = rbtree_insert_ok e (vrf_tree s) (vrf_id v) s
      in if \<not> ok
         then let (_, s) = hw_call (vr_remove (router_npu e) v) s in (SAI_STATUS_FAILURE, s)
         else (SAI_STATUS_SUCCESS, set_vrf (vrf_id v) v s))"

text \<open>
  Both look up the key of zero bytes and then its successor. The radix library orders keys by their
  bytes, so no key precedes that of zero bytes and the entries after it are those with another key;
  \<open>radix_getnext_zero\<close> is the first of them. For the routes the zero key has the length of the empty
  prefix: it is the key of the IPv4 default route.
\<close>

definition radix_getnext_zero :: "('k, 'v) tree \<Rightarrow> 'k \<Rightarrow> ('k \<times> 'v) option" where
  "radix_getnext_zero t zero_key = find (\<lambda>node. fst node \<noteq> zero_key) t"

definition sai_fib_vrf_is_nh_tree_empty :: "vrf_node \<Rightarrow> bool" where
  "sai_fib_vrf_is_nh_tree_empty v =
     (let nh_node_key = \<lparr>nk_type = SAI_NEXT_HOP_IP, nk_rif_id = 0, nk_ip_addr = Ip4 0\<rparr>
      in if tree_get (vrf_nh_tree v) nh_node_key \<noteq> None then False
         else if radix_getnext_zero (vrf_nh_tree v) nh_node_key \<noteq> None then False
         else True)"

definition sai_fib_vrf_is_route_tree_empty :: "vrf_node \<Rightarrow> bool" where
  "sai_fib_vrf_is_route_tree_empty v =
     (let route_node_key = radix_route_key (Ip4 0) 0
      in if tree_get (vrf_route_tree v) route_node_key \<noteq> None then False
         else if radix_getnext_zero (vrf_route_tree v) route_node_key \<noteq> None then False
         else True)"

text \<open>The two lookups together miss no entry.\<close>

lemma radix_zero_lookups:
  "(if tree_get t k \<noteq> None then False else if radix_getnext_zero t k \<noteq> None then False else True) = (t = [])"
proof -
  have "tree_get t k = None \<and> radix_getnext_zero t k = None \<longleftrightarrow> t = []"
    by (cases t) (auto simp: tree_get_def radix_getnext_zero_def)
  then show ?thesis by auto
qed

lemma vrf_tree_empty_iff [simp]:
  "sai_fib_vrf_is_nh_tree_empty v \<longleftrightarrow> vrf_nh_tree v = []"
  "sai_fib_vrf_is_route_tree_empty v \<longleftrightarrow> vrf_route_tree v = []"
  unfolding sai_fib_vrf_is_nh_tree_empty_def sai_fib_vrf_is_route_tree_empty_def Let_def
  by (rule radix_zero_lookups)+

section \<open>The API\<close>

definition sai_fib_virtual_router_create ::
    "'h l3_env \<Rightarrow> vr_attr list \<Rightarrow> 'h fib \<Rightarrow> sai_status \<times> oid option \<times> 'h fib" where
  "sai_fib_virtual_router_create e attrs s =
     (let status = sai_fib_vrf_create_params_validate attrs
      in if status \<noteq> SAI_STATUS_SUCCESS then (status, None, s)
         else let (node, s) = sai_fib_vrf_node_alloc e s
         in case node of
              None \<Rightarrow> (SAI_STATUS_NO_MEMORY, None, s)
            | Some v \<Rightarrow>
                (let v = sai_fib_vrf_attributes_init e s v;
                     (status, flags, v, s) = sai_fib_vrf_attributes_parse e attrs v s
                 in if status \<noteq> SAI_STATUS_SUCCESS then (status, None, s)
                    else let ((status, hw_id), s) = hw_call (vr_create (router_npu e) v) s
                    in if status \<noteq> SAI_STATUS_SUCCESS then (status, None, s)
                       else let vid = sai_uoid_create (util e) SAI_OBJECT_TYPE_VIRTUAL_ROUTER hw_id;
                                v = v\<lparr>vrf_id := vid, vrf_rif_list := []\<rparr>;
                                (status, v, s) = sai_fib_vrf_node_trees_create e v s
                       in if status \<noteq> SAI_STATUS_SUCCESS then (status, Some vid, s)
                          else let (status, s) = sai_fib_vrf_node_insert_to_tree e v s
                          in if status \<noteq> SAI_STATUS_SUCCESS then (status, Some vid, s)
                             else (SAI_STATUS_SUCCESS, Some vid,
                                   s\<lparr>num_virtual_routers := num_virtual_routers s + 1\<rparr>)))"

definition sai_fib_virtual_router_remove :: "'h l3_env \<Rightarrow> oid \<Rightarrow> 'h fib \<Rightarrow> sai_status \<times> 'h fib" where
  "sai_fib_virtual_router_remove e vr_id s =
     (if \<not> is_obj_id e SAI_OBJECT_TYPE_VIRTUAL_ROUTER vr_id then (SAI_STATUS_INVALID_OBJECT_TYPE, s)
      else case vrf_at s vr_id of
        None \<Rightarrow> (SAI_STATUS_INVALID_OBJECT_ID, s)
      | Some v \<Rightarrow>
          if vrf_num_rif v \<noteq> 0 then (SAI_STATUS_OBJECT_IN_USE, s)
          else if \<not> sai_fib_vrf_is_nh_tree_empty v then (SAI_STATUS_OBJECT_IN_USE, s)
          else if \<not> sai_fib_vrf_is_route_tree_empty v then (SAI_STATUS_OBJECT_IN_USE, s)
          else let (status, s) = hw_call (vr_remove (router_npu e) v) s
               in if status \<noteq> SAI_STATUS_SUCCESS then (status, s)
                  else let s = s\<lparr>vrf_tree := tree_del (vrf_id v) (vrf_tree s)\<rparr>;
                           s = s\<lparr>num_virtual_routers := num_virtual_routers s - 1\<rparr>
                       in (status, s))"

definition sai_fib_virtual_router_attribute_set ::
    "'h l3_env \<Rightarrow> oid \<Rightarrow> vr_attr \<Rightarrow> 'h fib \<Rightarrow> sai_status \<times> 'h fib" where
  "sai_fib_virtual_router_attribute_set e vr_id attr s =
     (if \<not> is_obj_id e SAI_OBJECT_TYPE_VIRTUAL_ROUTER vr_id then (SAI_STATUS_INVALID_OBJECT_TYPE, s)
      else case vrf_at s vr_id of
        None \<Rightarrow> (SAI_STATUS_INVALID_OBJECT_ID, s)
      | Some v \<Rightarrow>
          (let (status, flags, vrf_node_in, s) = sai_fib_vrf_attributes_parse e [attr] v s
           in if status \<noteq> SAI_STATUS_SUCCESS then (status, s)
              else let (status, s) = hw_call (vr_attr_set (router_npu e) vrf_node_in flags) s
                   in if status \<noteq> SAI_STATUS_SUCCESS then (status, s)
                      else (status, set_vrf vr_id vrf_node_in s)))"

definition sai_fib_virtual_router_attribute_get ::
    "'h l3_env \<Rightarrow> oid \<Rightarrow> nat \<Rightarrow> 'h fib \<Rightarrow> (sai_status \<times> vr_attr list) \<times> 'h fib" where
  "sai_fib_virtual_router_attribute_get e vr_id attr_count s =
     (if \<not> is_obj_id e SAI_OBJECT_TYPE_VIRTUAL_ROUTER vr_id
      then ((SAI_STATUS_INVALID_OBJECT_TYPE, []), s)
      else if attr_count = 0 \<or> attr_count > SAI_FIB_VRF_MAX_ATTR_COUNT
      then ((SAI_STATUS_INVALID_PARAMETER, []), s)
      else case vrf_at s vr_id of
        None \<Rightarrow> ((SAI_STATUS_INVALID_OBJECT_ID, []), s)
      | Some v \<Rightarrow> hw_call (vr_attr_get (router_npu e) v attr_count) s)"

definition sai_router_ecmp_max_paths_set :: "'h l3_env \<Rightarrow> u32 \<Rightarrow> 'h fib \<Rightarrow> sai_status \<times> 'h fib" where
  "sai_router_ecmp_max_paths_set e max_paths s =
     (let (status, s) = hw_call (ecmp_max_paths_set (router_npu e) max_paths) s
      in if status \<noteq> SAI_STATUS_SUCCESS then (status, s)
         else (status, s\<lparr>max_ecmp_paths := max_paths\<rparr>))"

section \<open>The list of router interfaces\<close>

definition sai_fib_vrf_rif_list_update :: "rif_node \<Rightarrow> bool \<Rightarrow> 'h fib \<Rightarrow> sai_status \<times> 'h fib" where
  "sai_fib_vrf_rif_list_update rif is_add s =
     (case vrf_at s (rif_vrf_id rif) of
        None \<Rightarrow> (SAI_STATUS_FAILURE, s)
      | Some v \<Rightarrow>
          if is_add
          then (SAI_STATUS_SUCCESS, set_vrf (rif_vrf_id rif) (vrf_add_rif (rif_id rif) v) s)
          else (SAI_STATUS_SUCCESS, set_vrf (rif_vrf_id rif) (vrf_del_rif (rif_id rif) v) s))"

section \<open>Parsing keeps the shape of the node\<close>

lemma vrf_same_shape_refl [simp]: "vrf_same_shape v v"
  by (simp add: vrf_same_shape_def)

lemma vrf_same_shape_trans: "vrf_same_shape v w \<Longrightarrow> vrf_same_shape w x \<Longrightarrow> vrf_same_shape v x"
  by (simp add: vrf_same_shape_def)

lemma vrf_attr_set_shape: "vrf_attr_set u attr v = (st, v', f) \<Longrightarrow> vrf_same_shape v v'"
  by (cases attr)
     (auto simp: vrf_attr_set_def vrf_same_shape_def sai_fib_vrf_mac_attr_set_def
       sai_fib_vrf_v4_admin_state_attr_set_def sai_fib_vrf_v6_admin_state_attr_set_def
       sai_fib_vrf_ttl_violation_attr_set_def sai_fib_vrf_ip_options_attr_set_def split: if_splits)

lemma vrf_parse_loop_shape:
  "vrf_attributes_parse_loop e attrs i fl v s = (st, fl', v', s') \<Longrightarrow>
   vrf_same_shape v v' \<and> hw_only s s'"
proof (induction attrs arbitrary: i fl v s)
  case (Cons attr attrs)
  obtain st1 v1 f1 where one: "vrf_attr_set (util e) attr v = (st1, v1, f1)" by (metis prod_cases3)
  obtain st2 s2 where two: "(if st1 = SAI_STATUS_SUCCESS
      then hw_call (vr_attr_validate (router_npu e) attr) s else (st1, s)) = (st2, s2)" by force
  have s2: "hw_only s s2" using two by (auto split: if_splits dest: hw_call_only)
  show ?case
  proof (cases "st2 = SAI_STATUS_SUCCESS")
    case True
    then have "vrf_attributes_parse_loop e attrs (i + 1) (fl \<union> f1) v1 s2 = (st, fl', v', s')"
      using Cons.prems one two by (simp add: Let_def)
    from Cons.IH [OF this] vrf_attr_set_shape [OF one] s2 show ?thesis
      using vrf_same_shape_trans hw_only_trans by blast
  next
    case False
    then show ?thesis using Cons.prems one two s2 vrf_attr_set_shape [OF one] by (simp add: Let_def)
  qed
qed simp

lemma vrf_parse_result:
  assumes "sai_fib_vrf_attributes_parse e attrs v s = (st, fl, v', s')"
  shows "vrf_same_shape v v' \<and> hw_only s s' \<and>
    (st = SAI_STATUS_SUCCESS \<longrightarrow> \<not> sai_fib_is_mac_address_zero (util e) (vrf_src_mac v'))"
proof -
  obtain st1 fl1 v1 s1 where "vrf_attributes_parse_loop e attrs 0 {} v s = (st1, fl1, v1, s1)"
    by (metis prod_cases4)
  with vrf_parse_loop_shape [OF this] assms show ?thesis
    by (auto simp: sai_fib_vrf_attributes_parse_def split: if_splits)
qed

section \<open>What the operations do\<close>

text \<open>The counter of virtual routers, and that every virtual router has a MAC address.\<close>

definition num_vrs_ok :: "'h fib \<Rightarrow> bool" where
  "num_vrs_ok s \<longleftrightarrow> num_virtual_routers s = of_nat (card (tree_dom (vrf_tree s)))"

definition vr_mac_ok :: "l3_util \<Rightarrow> 'h fib \<Rightarrow> bool" where
  "vr_mac_ok u s \<longleftrightarrow> (\<forall>i v. vrf_at s i = Some v \<longrightarrow> \<not> sai_fib_is_mac_address_zero u (vrf_src_mac v))"

lemma vrf_trees_create_result:
  "sai_fib_vrf_node_trees_create e v s = (st, v', s') \<Longrightarrow>
   hw_only s s' \<and> (st = SAI_STATUS_SUCCESS \<longrightarrow> v' = v\<lparr>vrf_nh_tree := [], vrf_route_tree := []\<rparr>)"
  by (auto simp: sai_fib_vrf_node_trees_create_def Let_def split: prod.splits if_splits
      dest!: hw_call_eqD)

lemma vrf_insert_result:
  "sai_fib_vrf_node_insert_to_tree e v s = (st, s') \<Longrightarrow>
   (st = SAI_STATUS_SUCCESS \<and> vrf_at s (vrf_id v) = None \<and> (\<exists>h. s' = (set_vrf (vrf_id v) v s)\<lparr>hw := h\<rparr>)) \<or>
   (st \<noteq> SAI_STATUS_SUCCESS \<and> hw_only s s')"
  by (auto simp: sai_fib_vrf_node_insert_to_tree_def rbtree_insert_ok_def
      split: prod.splits if_splits dest!: hw_call_eqD)

lemma virtual_router_create_result:
  assumes call: "sai_fib_virtual_router_create e attrs s = (status, out, s')"
  shows "if status = SAI_STATUS_SUCCESS
    then \<exists>i v h. out = Some i \<and> vrf_at s i = None \<and> vrf_id v = i \<and> vrf_num_rif v = 0 \<and>
      vrf_rif_list v = [] \<and> vrf_nh_tree v = [] \<and> vrf_route_tree v = [] \<and>
      \<not> sai_fib_is_mac_address_zero (util e) (vrf_src_mac v) \<and>
      s' = (set_vrf i v s)\<lparr>hw := h, num_virtual_routers := num_virtual_routers s + 1\<rparr>
    else hw_only s s'"
proof (cases "sai_fib_vrf_create_params_validate attrs = SAI_STATUS_SUCCESS")
  case False
  then show ?thesis using call by (auto simp: sai_fib_virtual_router_create_def)
next
  case ok: True
  obtain node t1 where t1: "sai_fib_vrf_node_alloc e s = (node, t1)" by force
  then have h1: "hw_only s t1" "node = None \<or> node = Some vrf_zero"
    by (auto simp: sai_fib_vrf_node_alloc_def split: prod.splits if_splits dest!: hw_call_only)
  show ?thesis
  proof (cases node)
    case None
    then show ?thesis using call ok t1 h1 by (auto simp: sai_fib_virtual_router_create_def)
  next
    case (Some v0)
    then have v0: "v0 = vrf_zero" using h1 by simp
    obtain st2 fl v1 t2 where t2: "sai_fib_vrf_attributes_parse e attrs
        (sai_fib_vrf_attributes_init e t1 v0) t1 = (st2, fl, v1, t2)" by (metis prod_cases4)
    note p = vrf_parse_result [OF t2]
    have h2: "hw_only s t2" using p h1(1) hw_only_trans by blast
    have sh: "vrf_num_rif v1 = 0" "vrf_nh_tree v1 = []" "vrf_route_tree v1 = []"
      using p by (simp_all add: v0 vrf_same_shape_def sai_fib_vrf_attributes_init_def vrf_zero_def)
    obtain st3 hid t3 where t3: "hw_call (vr_create (router_npu e) v1) t2 = ((st3, hid), t3)"
      by (metis prod.exhaust)
    have h3: "hw_only s t3" using h2 hw_call_only [OF t3] by (rule hw_only_trans)
    let ?i = "sai_uoid_create (util e) SAI_OBJECT_TYPE_VIRTUAL_ROUTER hid"
    let ?v = "v1\<lparr>vrf_id := ?i, vrf_rif_list := []\<rparr>"
    obtain st4 v4 t4 where t4: "sai_fib_vrf_node_trees_create e ?v t3 = (st4, v4, t4)"
      by (metis prod_cases3)
    have h4: "hw_only s t4" "st4 = SAI_STATUS_SUCCESS \<Longrightarrow> v4 = ?v"
      using vrf_trees_create_result [OF t4] h3 hw_only_trans sh by (blast, auto)
    obtain st5 t5 where t5: "sai_fib_vrf_node_insert_to_tree e v4 t4 = (st5, t5)" by force
    note ins = vrf_insert_result [OF t5]
    have all: "status = (if st2 \<noteq> SAI_STATUS_SUCCESS then st2 else if st3 \<noteq> SAI_STATUS_SUCCESS then st3
        else if st4 \<noteq> SAI_STATUS_SUCCESS then st4 else st5) \<and>
      (status \<noteq> SAI_STATUS_SUCCESS \<longrightarrow> s' = t2 \<or> s' = t3 \<or> s' = t4 \<or> st5 \<noteq> SAI_STATUS_SUCCESS \<and> s' = t5) \<and>
      (status = SAI_STATUS_SUCCESS \<longrightarrow> out = Some ?i \<and>
        s' = t5\<lparr>num_virtual_routers := num_virtual_routers t5 + 1\<rparr>)"
      using call ok t1 Some t2 t3 t4 t5
      by (simp add: sai_fib_virtual_router_create_def Let_def split: if_splits)
    show ?thesis
    proof (cases "status = SAI_STATUS_SUCCESS")
      case True
      then have st: "st2 = SAI_STATUS_SUCCESS" "st4 = SAI_STATUS_SUCCESS" "st5 = SAI_STATUS_SUCCESS"
        using all by (auto split: if_splits)
      then obtain h5 where h5: "vrf_at t4 ?i = None" "t5 = (set_vrf ?i ?v t4)\<lparr>hw := h5\<rparr>"
        using ins h4(2) by auto
      obtain h where h: "t4 = s\<lparr>hw := h\<rparr>" using h4(1) by (auto simp: hw_only_def)
      have "s' = (set_vrf ?i ?v s)\<lparr>hw := h5, num_virtual_routers := num_virtual_routers s + 1\<rparr>"
        using all True h5(2) by (simp add: h)
      moreover have "out = Some ?i" "vrf_at s ?i = None" "\<not> sai_fib_is_mac_address_zero (util e) (vrf_src_mac ?v)"
        using all True h5(1) p st(1) by (auto simp: h)
      ultimately show ?thesis
        unfolding True simp_thms(6) if_True
        using sh by (intro exI [where x = ?i] exI [where x = ?v] exI [where x = h5]) simp
    next
      case False
      then have "hw_only s s'"
        using all ins h2 h3 h4(1) by (auto split: if_splits intro: hw_only_trans)
      then show ?thesis using False by simp
    qed
  qed
qed

lemma virtual_router_create_inv:
  assumes inv: "fib_inv u s" and call: "sai_fib_virtual_router_create e attrs s = (status, out, s')"
  shows "fib_inv u s'"
proof (cases "status = SAI_STATUS_SUCCESS")
  case True
  with virtual_router_create_result [OF call] obtain i v h where
    "vrf_at s i = None" "vrf_id v = i" "vrf_num_rif v = 0" "vrf_rif_list v = []" "vrf_nh_tree v = []"
    "vrf_route_tree v = []" and s': "s' = (set_vrf i v s)\<lparr>hw := h, num_virtual_routers := num_virtual_routers s + 1\<rparr>"
    by auto
  then have "fib_inv u (set_vrf i v s)" by (intro inv_new_vrf [OF inv]) 
  then have "fib_inv u ((set_vrf i v s)\<lparr>hw := h\<rparr>)" by simp
  then have "fib_inv u ((set_vrf i v s)\<lparr>hw := h\<rparr>\<lparr>num_virtual_routers := num_virtual_routers s + 1\<rparr>)"
    unfolding fib_inv_num_vrs .
  then show ?thesis by (simp add: s')
next
  case False
  with virtual_router_create_result [OF call] inv show ?thesis by (simp add: hw_only_inv)
qed

text \<open>A virtual router is removed only when nothing is left in it.\<close>

lemma virtual_router_remove_result:
  assumes inv: "fib_inv u s" and bnd: "fib_bounded s"
    and call: "sai_fib_virtual_router_remove e i s = (status, s')"
  shows "if status = SAI_STATUS_SUCCESS
    then \<exists>v h. vrf_at s i = Some v \<and> vrf_rif_list v = [] \<and> vrf_nh_tree v = [] \<and> vrf_route_tree v = [] \<and>
      s' = s\<lparr>hw := h, vrf_tree := tree_del i (vrf_tree s),
             num_virtual_routers := num_virtual_routers s - 1\<rparr>
    else hw_only s s'"
proof -
  have rl: "vrf_rif_list v = []" "vrf_id v = i" if "vrf_at s i = Some v" "vrf_num_rif v = 0" for v
  proof -
    have "(of_nat (length (vrf_rif_list v)) :: u32) = 0" "vrf_id v = i"
      using fib_invD(2) [OF inv] that unfolding vrf_ok_def by metis+
    moreover have "length (vrf_rif_list v) < 2 ^ 32" using bnd that(1) unfolding fib_bounded_def by blast
    ultimately show "vrf_rif_list v = []" "vrf_id v = i" by (auto simp: of_nat_u32_zero)
  qed
  have id: "vrf_at s i = Some v \<Longrightarrow> vrf_id v = i" for v
    using fib_invD(2) [OF inv] unfolding vrf_ok_def by blast
  show ?thesis
  proof (cases "vrf_at s i")
    case None
    then show ?thesis using call by (auto simp: sai_fib_virtual_router_remove_def split: if_splits)
  next
    case (Some v)
    obtain st t where t: "hw_call (vr_remove (router_npu e) v) s = (st, t)" by force
    then obtain h where h: "t = s\<lparr>hw := h\<rparr>" by (auto dest: hw_call_eqD)
    show ?thesis
      using call Some t rl(1) [OF Some] id [OF Some]
      by (auto simp: sai_fib_virtual_router_remove_def h split: if_splits)
  qed
qed

lemma virtual_router_remove_inv:
  assumes inv: "fib_inv u s" and bnd: "fib_bounded s"
    and call: "sai_fib_virtual_router_remove e i s = (status, s')"
  shows "fib_inv u s'"
proof (cases "status = SAI_STATUS_SUCCESS")
  case True
  with virtual_router_remove_result [OF assms] obtain v h where
    v: "vrf_at s i = Some v" "vrf_rif_list v = []" "vrf_nh_tree v = []" "vrf_route_tree v = []" and
    s': "s' = s\<lparr>hw := h\<rparr>\<lparr>vrf_tree := tree_del i (vrf_tree (s\<lparr>hw := h\<rparr>))\<rparr>\<lparr>num_virtual_routers := num_virtual_routers s - 1\<rparr>"
    by auto
  have "fib_inv u (s\<lparr>hw := h\<rparr>)" "vrf_at (s\<lparr>hw := h\<rparr>) i = Some v" using inv v by simp_all
  from inv_del_vrf [OF this v(2-4)] show ?thesis unfolding s' fib_inv_num_vrs .
next
  case False
  with virtual_router_remove_result [OF assms] inv show ?thesis by (simp add: hw_only_inv)
qed

lemma virtual_router_attribute_set_result:
  assumes call: "sai_fib_virtual_router_attribute_set e i attr s = (status, s')"
  shows "if status = SAI_STATUS_SUCCESS
    then \<exists>v v' h. vrf_at s i = Some v \<and> vrf_same_shape v v' \<and>
      \<not> sai_fib_is_mac_address_zero (util e) (vrf_src_mac v') \<and> s' = (set_vrf i v' s)\<lparr>hw := h\<rparr>
    else hw_only s s'"
proof (cases "is_obj_id e SAI_OBJECT_TYPE_VIRTUAL_ROUTER i \<and> vrf_at s i \<noteq> None")
  case False
  then show ?thesis using call
    by (auto simp: sai_fib_virtual_router_attribute_set_def split: if_splits)
next
  case True
  then obtain v where v: "vrf_at s i = Some v" by auto
  obtain st fl v1 t where t: "sai_fib_vrf_attributes_parse e [attr] v s = (st, fl, v1, t)"
    by (metis prod_cases4)
  note p = vrf_parse_result [OF t]
  then obtain h where h: "t = s\<lparr>hw := h\<rparr>" by (auto simp: hw_only_def)
  obtain st2 t2 where t2: "hw_call (vr_attr_set (router_npu e) v1 fl) t = (st2, t2)" by force
  then obtain h2 where h2: "t2 = s\<lparr>hw := h2\<rparr>" by (auto simp: h dest: hw_call_eqD)
  show ?thesis
    using call True v t p t2
    by (auto simp: sai_fib_virtual_router_attribute_set_def h h2 split: if_splits)
qed

lemma virtual_router_attribute_set_inv:
  assumes inv: "fib_inv u s" and call: "sai_fib_virtual_router_attribute_set e i attr s = (status, s')"
  shows "fib_inv u s'"
  using virtual_router_attribute_set_result [OF call] inv inv_set_vrf_attr [OF inv]
  by (auto simp: hw_only_inv split: if_splits)

lemma ecmp_max_paths_set_inv:
  assumes inv: "fib_inv u s" and call: "sai_router_ecmp_max_paths_set e m s = (status, s')"
  shows "fib_inv u s'"
  using call inv by (auto simp: sai_router_ecmp_max_paths_set_def split: prod.splits if_splits dest!: hw_call_eqD)

lemma virtual_router_attribute_get_hw:
  "sai_fib_virtual_router_attribute_get e i k s = (r, s') \<Longrightarrow> hw_only s s'"
  by (auto simp: sai_fib_virtual_router_attribute_get_def split: if_splits option.splits dest: hw_call_only)

section \<open>Initialisation\<close>

text \<open>
  \<open>sai_router_init\<close>: the set-up of the global configuration and of the hardware layer are other code;
  the second component of the result says whether the LAG and the FDB callback were registered.
\<close>

definition sai_router_init ::
    "('h fib \<Rightarrow> sai_status \<times> 'h fib) \<Rightarrow> ('h \<Rightarrow> sai_status \<times> 'h) \<Rightarrow> 'h fib
     \<Rightarrow> sai_status \<times> bool \<times> 'h fib" where
  "sai_router_init sai_fib_global_init fib_init s =
     (let (sai_rc, s) = sai_fib_global_init s
      in if sai_rc \<noteq> SAI_STATUS_SUCCESS then (sai_rc, False, s)
         else let (sai_rc, s) = hw_call fib_init s
              in if sai_rc \<noteq> SAI_STATUS_SUCCESS then (sai_rc, False, s)
                 else (sai_rc, True, s))"

lemma router_init_registers:
  "sai_router_init gi ni s = (st, reg, s') \<Longrightarrow> reg \<longleftrightarrow> st = SAI_STATUS_SUCCESS"
  by (auto simp: sai_router_init_def Let_def split: prod.splits if_splits)

end
