(* ===== verification/Fib_Rif.thy ===== *)
theory Fib_Rif
  imports Fib_Vrf
begin

text \<open>
  Router interfaces: \<^verbatim>\<open>src/src/routing/sai_l3_router_interface.c\<close>. An interface is attached to a port,
  a LAG or a VLAN; its ports are switched to routing mode while it exists. The union
  \<open>attachment\<close> is kept as two fields, and \<open>rif_attachment_port_id\<close> reads its port member.

  Ports, LAGs and VLANs are other components; their state is part of \<open>hw\<close> and the calls to them are
  entries of \<open>platform\<close>.
\<close>

definition SAI_FIB_RIF_MAX_ATTR_COUNT :: nat where
  "SAI_FIB_RIF_MAX_ATTR_COUNT = 8"

definition SAI_FIB_RIF_MANDATORY_ATTR_COUNT :: nat where
  "SAI_FIB_RIF_MANDATORY_ATTR_COUNT = 3"

section \<open>Attributes\<close>

definition sai_fib_is_rif_type_valid :: "sai_rif_type \<Rightarrow> bool" where
  "sai_fib_is_rif_type_valid ty \<longleftrightarrow>
     ty = SAI_ROUTER_INTERFACE_TYPE_PORT \<or> ty = SAI_ROUTER_INTERFACE_TYPE_VLAN"

definition sai_fib_rif_is_port_valid :: "'h l3_env \<Rightarrow> 'h fib \<Rightarrow> oid \<Rightarrow> bool" where
  "sai_fib_rif_is_port_valid e s p \<longleftrightarrow>
     sai_is_port_valid (plat e) p (hw s) \<and> p \<noteq> sai_switch_cpu_port_obj_id_get (plat e) (hw s)"

definition sai_fib_rif_is_attr_mandatory_for_create :: "rif_attr \<Rightarrow> bool" where
  "sai_fib_rif_is_attr_mandatory_for_create attr =
     (case attr of
        SAI_ROUTER_INTERFACE_ATTR_VIRTUAL_ROUTER_ID _ \<Rightarrow> True
      | SAI_ROUTER_INTERFACE_ATTR_TYPE _ \<Rightarrow> True
      | SAI_ROUTER_INTERFACE_ATTR_PORT_ID _ \<Rightarrow> True
      | SAI_ROUTER_INTERFACE_ATTR_VLAN_ID _ \<Rightarrow> True
      | _ \<Rightarrow> False)"

definition sai_fib_rif_port_or_vlan_id_get :: "rif_node \<Rightarrow> u64" where
  "sai_fib_rif_port_or_vlan_id_get r =
     (if rif_type r = SAI_ROUTER_INTERFACE_TYPE_PORT then rif_port_id r else ucast (rif_vlan_id r))"

text \<open>The member \<open>port_id\<close> of the union, whatever was written to it.\<close>

definition rif_attachment_port_id :: "rif_node \<Rightarrow> oid" where
  "rif_attachment_port_id r =
     (if rif_type r = SAI_ROUTER_INTERFACE_TYPE_VLAN then ucast (rif_vlan_id r) else rif_port_id r)"

definition sai_fib_rif_vrf_attr_set ::
    "'h l3_env \<Rightarrow> 'h fib \<Rightarrow> oid \<Rightarrow> rif_node \<Rightarrow> sai_status \<times> rif_node" where
  "sai_fib_rif_vrf_attr_set e s vr_id r =
     (if \<not> is_obj_id e SAI_OBJECT_TYPE_VIRTUAL_ROUTER vr_id then (SAI_STATUS_INVALID_ATTR_VALUE_0, r)
      else case vrf_at s vr_id of
        None \<Rightarrow> (SAI_STATUS_INVALID_ATTR_VALUE_0, r)
      | Some _ \<Rightarrow> (SAI_STATUS_SUCCESS, r\<lparr>rif_vrf_id := vr_id\<rparr>))"

definition sai_fib_rif_type_attr_set :: "sai_rif_type \<Rightarrow> rif_node \<Rightarrow> sai_status \<times> rif_node" where
  "sai_fib_rif_type_attr_set ty r =
     (if \<not> sai_fib_is_rif_type_valid ty then (SAI_STATUS_INVALID_ATTR_VALUE_0, r)
      else (SAI_STATUS_SUCCESS, r\<lparr>rif_type := ty\<rparr>))"

definition sai_fib_rif_mac_attr_set :: "l3_util \<Rightarrow> mac \<Rightarrow> rif_node \<Rightarrow> sai_status \<times> rif_node" where
  "sai_fib_rif_mac_attr_set u m r =
     (if sai_fib_is_mac_address_zero u m then (SAI_STATUS_INVALID_ATTR_VALUE_0, r)
      else (SAI_STATUS_SUCCESS, r\<lparr>rif_src_mac := m\<rparr>))"

definition sai_fib_rif_v4_admin_state_attr_set :: "bool \<Rightarrow> rif_node \<Rightarrow> sai_status \<times> rif_node" where
  "sai_fib_rif_v4_admin_state_attr_set st r = (SAI_STATUS_SUCCESS, r\<lparr>rif_v4_admin_state := st\<rparr>)"

definition sai_fib_rif_v6_admin_state_attr_set :: "bool \<Rightarrow> rif_node \<Rightarrow> sai_status \<times> rif_node" where
  "sai_fib_rif_v6_admin_state_attr_set st r = (SAI_STATUS_SUCCESS, r\<lparr>rif_v6_admin_state := st\<rparr>)"

definition sai_fib_rif_mtu_attr_set :: "u32 \<Rightarrow> rif_node \<Rightarrow> sai_status \<times> rif_node" where
  "sai_fib_rif_mtu_attr_set m r = (SAI_STATUS_SUCCESS, r\<lparr>rif_mtu := m\<rparr>)"

definition sai_fib_rif_port_id_set ::
    "'h l3_env \<Rightarrow> 'h fib \<Rightarrow> oid \<Rightarrow> rif_node \<Rightarrow> sai_status \<times> rif_node" where
  "sai_fib_rif_port_id_set e s p r =
     (let is_port = is_obj_id e SAI_OBJECT_TYPE_PORT p;
          is_lag = is_obj_id e SAI_OBJECT_TYPE_LAG p
      in if \<not> is_lag \<and> \<not> is_port then (SAI_STATUS_INVALID_ATTR_VALUE_0, r)
         else if is_lag \<and> \<not> sai_is_lag_created (plat e) p (hw s) \<or>
                 is_port \<and> \<not> sai_fib_rif_is_port_valid e s p
         then (SAI_STATUS_INVALID_ATTR_VALUE_0, r)
         else (SAI_STATUS_SUCCESS, r\<lparr>rif_port_id := p\<rparr>))"

definition sai_fib_rif_vlan_id_set ::
    "'h l3_env \<Rightarrow> 'h fib \<Rightarrow> vlan_id \<Rightarrow> rif_node \<Rightarrow> sai_status \<times> rif_node" where
  "sai_fib_rif_vlan_id_set e s vlan r =
     (if \<not> sai_is_valid_vlan_id (util e) vlan then (SAI_STATUS_INVALID_ATTR_VALUE_0, r)
      else if \<not> sai_is_vlan_created (plat e) vlan (hw s) then (SAI_STATUS_INVALID_ATTR_VALUE_0, r)
      else (SAI_STATUS_SUCCESS, r\<lparr>rif_vlan_id := vlan\<rparr>))"

text \<open>The flags are (port set, VLAN set, virtual router set).\<close>

type_synonym rif_flags = "bool \<times> bool \<times> bool"

definition sai_fib_rif_create_attr_validate ::
    "rif_attr \<Rightarrow> sai_rif_type \<Rightarrow> rif_flags \<Rightarrow> sai_status \<times> rif_flags" where
  "sai_fib_rif_create_attr_validate attr ty fl =
     (case fl of (is_port_set, is_vlan_set, is_vrf_set) \<Rightarrow>
        (case attr of
           SAI_ROUTER_INTERFACE_ATTR_VIRTUAL_ROUTER_ID _ \<Rightarrow>
             (SAI_STATUS_SUCCESS, (is_port_set, is_vlan_set, True))
         | SAI_ROUTER_INTERFACE_ATTR_TYPE _ \<Rightarrow>
             if is_port_set \<and> ty = SAI_ROUTER_INTERFACE_TYPE_VLAN \<or>
                is_vlan_set \<and> ty = SAI_ROUTER_INTERFACE_TYPE_PORT
             then (SAI_STATUS_INVALID_ATTRIBUTE_0, fl) else (SAI_STATUS_SUCCESS, fl)
         | SAI_ROUTER_INTERFACE_ATTR_PORT_ID _ \<Rightarrow>
             if is_vlan_set \<or> ty = SAI_ROUTER_INTERFACE_TYPE_VLAN
             then (SAI_STATUS_INVALID_ATTRIBUTE_0, fl)
             else (SAI_STATUS_SUCCESS, (True, is_vlan_set, is_vrf_set))
         | SAI_ROUTER_INTERFACE_ATTR_VLAN_ID _ \<Rightarrow>
             if is_port_set \<or> ty = SAI_ROUTER_INTERFACE_TYPE_PORT
             then (SAI_STATUS_INVALID_ATTRIBUTE_0, fl)
             else (SAI_STATUS_SUCCESS, (is_port_set, True, is_vrf_set))
         | _ \<Rightarrow> (SAI_STATUS_SUCCESS, fl)))"

definition sai_fib_rif_create_attr_set ::
    "'h l3_env \<Rightarrow> 'h fib \<Rightarrow> rif_attr \<Rightarrow> rif_node \<Rightarrow> sai_status \<times> rif_node" where
  "sai_fib_rif_create_attr_set e s attr r =
     (case attr of
        SAI_ROUTER_INTERFACE_ATTR_VIRTUAL_ROUTER_ID i \<Rightarrow> sai_fib_rif_vrf_attr_set e s i r
      | SAI_ROUTER_INTERFACE_ATTR_TYPE ty \<Rightarrow> sai_fib_rif_type_attr_set ty r
      | SAI_ROUTER_INTERFACE_ATTR_PORT_ID p \<Rightarrow> sai_fib_rif_port_id_set e s p r
      | SAI_ROUTER_INTERFACE_ATTR_VLAN_ID vlan \<Rightarrow> sai_fib_rif_vlan_id_set e s vlan r
      | _ \<Rightarrow> (SAI_STATUS_UNKNOWN_ATTRIBUTE_0, r))"

definition sai_fib_rif_optional_attr_set ::
    "l3_util \<Rightarrow> rif_attr \<Rightarrow> rif_node \<Rightarrow> sai_status \<times> rif_node \<times> fib_attr_flag set" where
  "sai_fib_rif_optional_attr_set u attr r =
     (case attr of
        SAI_ROUTER_INTERFACE_ATTR_SRC_MAC_ADDRESS m \<Rightarrow>
          (let (st, r) = sai_fib_rif_mac_attr_set u m r in (st, r, {SAI_FIB_SRC_MAC_ATTR_FLAG}))
      | SAI_ROUTER_INTERFACE_ATTR_ADMIN_V4_STATE b \<Rightarrow>
          (let (st, r) = sai_fib_rif_v4_admin_state_attr_set b r
           in (st, r, {SAI_FIB_V4_ADMIN_STATE_ATTR_FLAG}))
      | SAI_ROUTER_INTERFACE_ATTR_ADMIN_V6_STATE b \<Rightarrow>
          (let (st, r) = sai_fib_rif_v6_admin_state_attr_set b r
           in (st, r, {SAI_FIB_V6_ADMIN_STATE_ATTR_FLAG}))
      | SAI_ROUTER_INTERFACE_ATTR_MTU m \<Rightarrow>
          (let (st, r) = sai_fib_rif_mtu_attr_set m r in (st, r, {SAI_FIB_MTU_ATTR_FLAG}))
      | _ \<Rightarrow> (SAI_STATUS_UNKNOWN_ATTRIBUTE_0, r, {}))"

definition sai_fib_rif_attributes_init :: "'h l3_env \<Rightarrow> 'h fib \<Rightarrow> rif_node \<Rightarrow> rif_node" where
  "sai_fib_rif_attributes_init e s r =
     r\<lparr>rif_src_mac := sai_switch_mac_address_get (plat e) (hw s),
       rif_v4_admin_state := SAI_FIB_V4_ADMIN_STATE_DFLT (util e),
       rif_v6_admin_state := SAI_FIB_V6_ADMIN_STATE_DFLT (util e),
       rif_mtu := SAI_FIB_MTU_DFLT (util e),
       rif_ip_options_pkt_action := SAI_FIB_IP_OPT_PKT_ACTION_DFLT (util e),
       rif_type := SAI_FIB_RIF_TYPE_NONE\<rparr>"

definition sai_fib_rif_inherit_vrf_attributes ::
    "'h fib \<Rightarrow> fib_attr_flag set \<Rightarrow> rif_node \<Rightarrow> sai_status \<times> rif_node" where
  "sai_fib_rif_inherit_vrf_attributes s flags r =
     (case vrf_at s (rif_vrf_id r) of
        None \<Rightarrow> (SAI_STATUS_FAILURE, r)
      | Some v \<Rightarrow>
          (let r = (if SAI_FIB_V4_ADMIN_STATE_ATTR_FLAG \<notin> flags
                    then r\<lparr>rif_v4_admin_state := vrf_v4_admin_state v\<rparr> else r);
               r = (if SAI_FIB_V6_ADMIN_STATE_ATTR_FLAG \<notin> flags
                    then r\<lparr>rif_v6_admin_state := vrf_v6_admin_state v\<rparr> else r);
               r = (if SAI_FIB_SRC_MAC_ATTR_FLAG \<notin> flags
                    then r\<lparr>rif_src_mac := vrf_src_mac v\<rparr> else r)
           in (SAI_STATUS_SUCCESS, r\<lparr>rif_ip_options_pkt_action := vrf_ip_options_pkt_action v\<rparr>)))"

text \<open>Two interfaces are duplicates when type, attachment and MAC address are the same.\<close>

definition rif_same_attachment :: "rif_node \<Rightarrow> rif_node \<Rightarrow> bool" where
  "rif_same_attachment r d \<longleftrightarrow>
     rif_type r = rif_type d \<and>
     sai_fib_rif_port_or_vlan_id_get r = sai_fib_rif_port_or_vlan_id_get d \<and>
     rif_src_mac r = rif_src_mac d"

definition sai_fib_rif_is_duplicate :: "'h fib \<Rightarrow> rif_node \<Rightarrow> bool" where
  "sai_fib_rif_is_duplicate s r \<longleftrightarrow>
     list_ex (\<lambda>(_, d). rif_same_attachment r d) (router_interface_tree s)"

fun rif_attributes_parse_loop ::
    "'h l3_env \<Rightarrow> rif_attr list \<Rightarrow> nat \<Rightarrow> sai_rif_type \<Rightarrow> rif_flags \<Rightarrow> fib_attr_flag set \<Rightarrow> rif_node \<Rightarrow> 'h fib
     \<Rightarrow> sai_status \<times> sai_rif_type \<times> rif_flags \<times> fib_attr_flag set \<times> rif_node \<times> 'h fib" where
  "rif_attributes_parse_loop e [] i ty fl flags r s = (SAI_STATUS_SUCCESS, ty, fl, flags, r, s)"
| "rif_attributes_parse_loop e (attr # attrs) i ty fl flags r s =
     (let (status, ty, fl, flags, r) =
            (if sai_fib_rif_is_attr_mandatory_for_create attr
             then let ty = (case attr of SAI_ROUTER_INTERFACE_ATTR_TYPE t \<Rightarrow> t | _ \<Rightarrow> rif_type r);
                      (status, fl) = sai_fib_rif_create_attr_validate attr ty fl
                  in if status \<noteq> SAI_STATUS_SUCCESS then (status, ty, fl, flags, r)
                     else let (status, r) = sai_fib_rif_create_attr_set e s attr r
                          in (status, ty, fl, flags, r)
             else let (status, r, f) = sai_fib_rif_optional_attr_set (util e) attr r
                  in (status, ty, fl, flags \<union> f, r));
          (status, s) = (if status = SAI_STATUS_SUCCESS
                         then hw_call (rif_attr_validate (rif_npu e) (rif_type r) attr) s
                         else (status, s))
      in if status \<noteq> SAI_STATUS_SUCCESS
         then (sai_fib_attr_status_code_get (util e) status i, ty, fl, flags, r, s)
         else rif_attributes_parse_loop e attrs (i + 1) ty fl flags r s)"

definition sai_fib_rif_attributes_parse ::
    "'h l3_env \<Rightarrow> rif_attr list \<Rightarrow> rif_node \<Rightarrow> 'h fib \<Rightarrow> sai_status \<times> rif_node \<times> 'h fib" where
  "sai_fib_rif_attributes_parse e attrs r s =
     (let (status, ty, (is_port_set, is_vlan_set, is_vrf_set), flags, r, s) =
            rif_attributes_parse_loop e attrs 0 SAI_FIB_RIF_TYPE_NONE (False, False, False) {} r s
      in if status \<noteq> SAI_STATUS_SUCCESS then (status, r, s)
         else if \<not> is_port_set \<and> \<not> is_vlan_set \<or> \<not> is_vrf_set \<or> ty = SAI_FIB_RIF_TYPE_NONE
         then (SAI_STATUS_MANDATORY_ATTRIBUTE_MISSING, r, s)
         else let (_, r) = sai_fib_rif_inherit_vrf_attributes s flags r
              in if sai_fib_rif_is_duplicate s r then (SAI_STATUS_ITEM_ALREADY_EXISTS, r, s)
                 else (SAI_STATUS_SUCCESS, r, s))"

definition sai_fib_rif_is_create_attr_count_valid :: "nat \<Rightarrow> bool" where
  "sai_fib_rif_is_create_attr_count_valid n =
     (if n < SAI_FIB_RIF_MANDATORY_ATTR_COUNT \<or> n > SAI_FIB_RIF_MAX_ATTR_COUNT then False else True)"

section \<open>Routing mode of the ports\<close>

text \<open>The status of setting the mode is not looked at.\<close>

definition sai_port_routing_mode_set :: "'h l3_env \<Rightarrow> oid \<Rightarrow> 'h fib \<Rightarrow> sai_status \<times> 'h fib" where
  "sai_port_routing_mode_set e p s =
     (let ((status, mode), s) = hw_call (sai_port_forward_mode_get (plat e) p) s
      in if status \<noteq> SAI_STATUS_SUCCESS then (status, s)
         else if mode = SAI_PORT_FWD_MODE_SWITCHING then (SAI_STATUS_OBJECT_IN_USE, s)
         else if mode = SAI_PORT_FWD_MODE_UNKNOWN
         then let (_, s) = hw_call (sai_port_forward_mode_set (plat e) p SAI_PORT_FWD_MODE_ROUTING) s
              in (status, s)
         else (status, s))"

definition sai_port_routing_mode_reset :: "'h l3_env \<Rightarrow> oid \<Rightarrow> 'h fib \<Rightarrow> sai_status \<times> 'h fib" where
  "sai_port_routing_mode_reset e p s =
     (let ((status, mode), s) = hw_call (sai_port_forward_mode_get (plat e) p) s
      in if status \<noteq> SAI_STATUS_SUCCESS then (status, s)
         else if mode = SAI_PORT_FWD_MODE_UNKNOWN then (status, s)
         else hw_call (sai_port_forward_mode_set (plat e) p SAI_PORT_FWD_MODE_UNKNOWN) s)"

definition port_routing_mode_update :: "'h l3_env \<Rightarrow> bool \<Rightarrow> oid \<Rightarrow> 'h fib \<Rightarrow> sai_status \<times> 'h fib" where
  "port_routing_mode_update e is_set p s =
     (if is_set then sai_port_routing_mode_set e p s else sai_port_routing_mode_reset e p s)"

text \<open>
  The first loop: the status of the last call and the ports before the one that failed. The C code
  reads an uninitialised status for an empty list; no caller passes one, and the model returns
  success there.
\<close>

fun mode_update_loop ::
    "'h l3_env \<Rightarrow> bool \<Rightarrow> oid list \<Rightarrow> 'h fib \<Rightarrow> sai_status \<times> oid list \<times> 'h fib" where
  "mode_update_loop e is_set [] s = (SAI_STATUS_SUCCESS, [], s)"
| "mode_update_loop e is_set (p # ps) s =
     (let (status, s) = port_routing_mode_update e is_set p s
      in if status \<noteq> SAI_STATUS_SUCCESS then (status, [], s)
         else let (status, done, s) = mode_update_loop e is_set ps s in (status, p # done, s))"

fun mode_cleanup_loop :: "'h l3_env \<Rightarrow> bool \<Rightarrow> oid list \<Rightarrow> 'h fib \<Rightarrow> 'h fib" where
  "mode_cleanup_loop e is_set [] s = s"
| "mode_cleanup_loop e is_set (p # ps) s =
     (let (_, s) = port_routing_mode_update e (\<not> is_set) p s in mode_cleanup_loop e is_set ps s)"

definition sai_port_list_routing_mode_update ::
    "'h l3_env \<Rightarrow> oid list \<Rightarrow> bool \<Rightarrow> 'h fib \<Rightarrow> sai_status \<times> 'h fib" where
  "sai_port_list_routing_mode_update e ports is_set s =
     (let (status, done, s) = mode_update_loop e is_set ports s
      in if status \<noteq> SAI_STATUS_SUCCESS then (status, mode_cleanup_loop e is_set done s)
         else (status, s))"

definition sai_fib_rif_routing_config_update ::
    "'h l3_env \<Rightarrow> rif_node \<Rightarrow> bool \<Rightarrow> 'h fib \<Rightarrow> sai_status \<times> 'h fib" where
  "sai_fib_rif_routing_config_update e r is_set s =
     (if rif_type r = SAI_ROUTER_INTERFACE_TYPE_VLAN then (SAI_STATUS_SUCCESS, s)
      else let sai_oid = rif_attachment_port_id r
           in if is_obj_id e SAI_OBJECT_TYPE_LAG sai_oid
              then let ((status, count), s) = hw_call (sai_lag_port_count_get (plat e) sai_oid) s
                   in if status \<noteq> SAI_STATUS_SUCCESS then (status, s)
                      else if count = 0 then (SAI_STATUS_SUCCESS, s)
                      else let ((status, ports), s) =
                                 hw_call (sai_lag_port_list_get (plat e) sai_oid count) s
                           in if status \<noteq> SAI_STATUS_SUCCESS then (status, s)
                              else sai_port_list_routing_mode_update e ports is_set s
              else sai_port_list_routing_mode_update e [sai_oid] is_set s)"

section \<open>The API\<close>

definition sai_fib_rif_free_resources ::
    "'h l3_env \<Rightarrow> rif_node \<Rightarrow> bool \<Rightarrow> bool \<Rightarrow> bool \<Rightarrow> 'h fib \<Rightarrow> 'h fib" where
  "sai_fib_rif_free_resources e r is_rif_set_in_npu is_rif_set_in_vrf_list is_routing_cfg_set s =
     (let s = (if is_rif_set_in_npu then snd (hw_call (rif_remove (rif_npu e) r) s) else s);
          s = (if is_rif_set_in_vrf_list then snd (sai_fib_vrf_rif_list_update r False s) else s)
      in if is_routing_cfg_set then snd (sai_fib_rif_routing_config_update e r False s) else s)"

text \<open>
  The body of the creation after the node is set up: its status, the three flags that tell what to
  undo, the node and the id that was written.
\<close>

definition rif_create_steps ::
    "'h l3_env \<Rightarrow> rif_attr list \<Rightarrow> rif_node \<Rightarrow> 'h fib
     \<Rightarrow> sai_status \<times> (bool \<times> bool \<times> bool) \<times> rif_node \<times> oid option \<times> 'h fib" where
  "rif_create_steps e attrs r s =
     (let (status, r, s) = sai_fib_rif_attributes_parse e attrs r s
      in if status \<noteq> SAI_STATUS_SUCCESS then (status, (False, False, False), r, None, s)
         else let (status, s) = sai_fib_rif_routing_config_update e r True s
         in if status \<noteq> SAI_STATUS_SUCCESS then (status, (False, False, False), r, None, s)
            else let ((status, hw_id), s) = hw_call (rif_create (rif_npu e) r) s
            in if status \<noteq> SAI_STATUS_SUCCESS then (status, (False, False, True), r, None, s)
               else let rid = sai_uoid_create (util e) SAI_OBJECT_TYPE_ROUTER_INTERFACE hw_id;
                        r = r\<lparr>rif_id := rid\<rparr>;
                        (status, s) = sai_fib_vrf_rif_list_update r True s
               in if status \<noteq> SAI_STATUS_SUCCESS then (status, (True, False, True), r, Some rid, s)
                  else let (ok, s) = rbtree_insert_ok e (router_interface_tree s) rid s
                  in if \<not> ok then (SAI_STATUS_FAILURE, (True, True, True), r, Some rid, s)
                     else (SAI_STATUS_SUCCESS, (True, True, True), r, Some rid, set_rif rid r s))"

definition sai_fib_router_interface_create ::
    "'h l3_env \<Rightarrow> rif_attr list \<Rightarrow> 'h fib \<Rightarrow> sai_status \<times> oid option \<times> 'h fib" where
  "sai_fib_router_interface_create e attrs s =
     (if \<not> sai_fib_rif_is_create_attr_count_valid (length attrs)
      then (SAI_STATUS_INVALID_PARAMETER, None, s)
      else let (node, s) = sai_fib_rif_node_alloc e s
           in case node of
                None \<Rightarrow> (SAI_STATUS_NO_MEMORY, None, s)
              | Some r \<Rightarrow>
                  (let (status, (in_npu, in_vrf, cfg), r, out, s) =
                         rif_create_steps e attrs (sai_fib_rif_attributes_init e s r) s
                   in if status = SAI_STATUS_SUCCESS
                      then let lag_id = (if sai_fib_rif_is_attachment_lag (util e) r
                                         then rif_attachment_port_id r else SAI_NULL_OBJECT_ID)
                           in if lag_id \<noteq> SAI_NULL_OBJECT_ID
                              then (status, out,
                                    s\<lparr>hw := sai_lag_update_rif_id (plat e) lag_id (rif_id r) (hw s)\<rparr>)
                              else (status, out, s)
                      else (status, out, sai_fib_rif_free_resources e r in_npu in_vrf cfg s)))"

definition sai_fib_router_interface_remove :: "'h l3_env \<Rightarrow> oid \<Rightarrow> 'h fib \<Rightarrow> sai_status \<times> 'h fib" where
  "sai_fib_router_interface_remove e rid s =
     (if \<not> is_obj_id e SAI_OBJECT_TYPE_ROUTER_INTERFACE rid then (SAI_STATUS_INVALID_OBJECT_TYPE, s)
      else case rif_at s rid of
        None \<Rightarrow> (SAI_STATUS_INVALID_OBJECT_ID, s)
      | Some r \<Rightarrow>
          if rif_ref_count r \<noteq> 0 then (SAI_STATUS_OBJECT_IN_USE, s)
          else let (status, s) = hw_call (rif_remove (rif_npu e) r) s
               in if status \<noteq> SAI_STATUS_SUCCESS then (status, s)
                  else let lag_id = (if sai_fib_rif_is_attachment_lag (util e) r
                                     then rif_attachment_port_id r else SAI_NULL_OBJECT_ID);
                           (_, s) = sai_fib_vrf_rif_list_update r False s;
                           s = s\<lparr>router_interface_tree :=
                                   tree_del (rif_id r) (router_interface_tree s)\<rparr>;
                           (_, s) = sai_fib_rif_routing_config_update e r False s
                       in (status,
                           if lag_id \<noteq> SAI_NULL_OBJECT_ID
                           then s\<lparr>hw := sai_lag_update_rif_id (plat e) lag_id SAI_NULL_OBJECT_ID (hw s)\<rparr>
                           else s))"

definition sai_fib_router_interface_attribute_set ::
    "'h l3_env \<Rightarrow> oid \<Rightarrow> rif_attr \<Rightarrow> 'h fib \<Rightarrow> sai_status \<times> 'h fib" where
  "sai_fib_router_interface_attribute_set e rid attr s =
     (if \<not> is_obj_id e SAI_OBJECT_TYPE_ROUTER_INTERFACE rid then (SAI_STATUS_INVALID_OBJECT_TYPE, s)
      else case rif_at s rid of
        None \<Rightarrow> (SAI_STATUS_INVALID_OBJECT_ID, s)
      | Some r \<Rightarrow>
          if sai_fib_rif_is_attr_mandatory_for_create attr then (SAI_STATUS_INVALID_ATTRIBUTE_0, s)
          else let (status, s) = hw_call (rif_attr_validate (rif_npu e) (rif_type r) attr) s
               in if status \<noteq> SAI_STATUS_SUCCESS then (status, s)
                  else let (status, rif_node_in, flags) = sai_fib_rif_optional_attr_set (util e) attr r
                       in if status \<noteq> SAI_STATUS_SUCCESS then (status, s)
                          else if sai_fib_rif_is_node_info_duplicate (util e) rif_node_in r
                          then (status, s)
                          else let (status, s) = hw_call (rif_attr_set (rif_npu e) rif_node_in flags) s
                               in if status \<noteq> SAI_STATUS_SUCCESS then (status, s)
                                  else (status, set_rif rid rif_node_in s))"

definition sai_fib_router_interface_attribute_get ::
    "'h l3_env \<Rightarrow> oid \<Rightarrow> nat \<Rightarrow> 'h fib \<Rightarrow> (sai_status \<times> rif_attr list) \<times> 'h fib" where
  "sai_fib_router_interface_attribute_get e rid attr_count s =
     (if \<not> is_obj_id e SAI_OBJECT_TYPE_ROUTER_INTERFACE rid
      then ((SAI_STATUS_INVALID_OBJECT_TYPE, []), s)
      else if attr_count = 0 \<or> attr_count > SAI_FIB_RIF_MAX_ATTR_COUNT
      then ((SAI_STATUS_INVALID_PARAMETER, []), s)
      else case rif_at s rid of
        None \<Rightarrow> ((SAI_STATUS_INVALID_OBJECT_ID, []), s)
      | Some r \<Rightarrow> hw_call (rif_attr_get (rif_npu e) r attr_count) s)"

section \<open>The LAG callback\<close>

datatype sai_lag_operation = SAI_LAG_OPER_ADD_PORTS | SAI_LAG_OPER_DEL_PORTS | SAI_LAG_OPER int

definition sai_rif_lag_member_update ::
    "'h l3_env \<Rightarrow> oid \<Rightarrow> oid \<Rightarrow> oid list \<Rightarrow> bool \<Rightarrow> 'h fib \<Rightarrow> sai_status \<times> 'h fib" where
  "sai_rif_lag_member_update e rid lag_id ports is_add s =
     (if ports = [] then (SAI_STATUS_INVALID_PARAMETER, s)
      else let (status, s) = sai_port_list_routing_mode_update e ports is_add s
           in if status \<noteq> SAI_STATUS_SUCCESS then (status, s)
              else let (status, s) =
                         (case rif_at s rid of
                            None \<Rightarrow> (SAI_STATUS_INVALID_OBJECT_ID, s)
                          | Some r \<Rightarrow>
                              if rif_attachment_port_id r \<noteq> lag_id then (SAI_STATUS_FAILURE, s)
                              else hw_call (rif_lag_member_update (rif_npu e) r ports is_add) s)
                   in if status \<noteq> SAI_STATUS_SUCCESS
                      then let (_, s) = sai_port_list_routing_mode_update e ports (\<not> is_add) s
                           in (status, s)
                      else (status, s))"

definition sai_rif_lag_callback ::
    "'h l3_env \<Rightarrow> oid \<Rightarrow> oid \<Rightarrow> oid list \<Rightarrow> sai_lag_operation \<Rightarrow> 'h fib \<Rightarrow> sai_status \<times> 'h fib" where
  "sai_rif_lag_callback e lag_id rid ports lag_opcode s =
     (if lag_opcode \<noteq> SAI_LAG_OPER_ADD_PORTS \<and> lag_opcode \<noteq> SAI_LAG_OPER_DEL_PORTS
      then (SAI_STATUS_SUCCESS, s)
      else sai_rif_lag_member_update e rid lag_id ports (lag_opcode = SAI_LAG_OPER_ADD_PORTS) s)"

section \<open>Routing mode touches only the ports\<close>

lemma routing_mode_hw:
  "sai_port_routing_mode_set e p s = (st, s') \<Longrightarrow> hw_only s s'"
  "sai_port_routing_mode_reset e p s = (st, s') \<Longrightarrow> hw_only s s'"
  by (auto simp: sai_port_routing_mode_set_def sai_port_routing_mode_reset_def Let_def
      split: prod.splits if_splits dest!: hw_call_eqD)

lemma mode_update_hw: "port_routing_mode_update e b p s = (st, s') \<Longrightarrow> hw_only s s'"
  by (auto simp: port_routing_mode_update_def split: if_splits dest: routing_mode_hw)

lemma mode_update_loop_hw:
  "mode_update_loop e b ps s = (st, dn, s') \<Longrightarrow> hw_only s s' \<and> (st = SAI_STATUS_SUCCESS \<longrightarrow> dn = ps)"
proof (induction ps arbitrary: s dn s' st)
  case (Cons p ps)
  obtain st1 s1 where one: "port_routing_mode_update e b p s = (st1, s1)" by force
  note h = mode_update_hw [OF one]
  obtain st2 d2 s2 where two: "mode_update_loop e b ps s1 = (st2, d2, s2)" by (metis prod_cases3)
  from Cons.IH [OF two] Cons.prems one two h show ?case
    by (auto split: if_splits intro: hw_only_trans)
qed simp

lemma mode_cleanup_loop_hw: "hw_only s (mode_cleanup_loop e b ps s)"
proof (induction ps arbitrary: s)
  case (Cons p ps)
  obtain st1 s1 where one: "port_routing_mode_update e (\<not> b) p s = (st1, s1)" by force
  with Cons.IH [of s1] mode_update_hw [OF one] show ?case by (auto intro: hw_only_trans)
qed simp

lemma port_list_update_hw:
  "sai_port_list_routing_mode_update e ports b s = (st, s') \<Longrightarrow> hw_only s s'"
  by (auto simp: sai_port_list_routing_mode_update_def split: prod.splits if_splits
      dest!: mode_update_loop_hw intro: hw_only_trans mode_cleanup_loop_hw)

lemma routing_config_hw: "sai_fib_rif_routing_config_update e r b s = (st, s') \<Longrightarrow> hw_only s s'"
  by (auto simp: sai_fib_rif_routing_config_update_def Let_def split: prod.splits if_splits
      dest!: hw_call_only port_list_update_hw intro: hw_only_trans)

text \<open>
  A failed update of a list of ports undoes exactly the ports that were updated: all those before
  the one that failed.
\<close>

lemma mode_update_loop_done:
  assumes "mode_update_loop e b ps s = (st, dn, s')" "st \<noteq> SAI_STATUS_SUCCESS"
  shows "\<exists>p rest. ps = dn @ p # rest"
  using assms
proof (induction ps arbitrary: s dn)
  case (Cons p ps)
  obtain st1 s1 where one: "port_routing_mode_update e b p s = (st1, s1)" by force
  show ?case
  proof (cases "st1 = SAI_STATUS_SUCCESS")
    case True
    obtain st2 d2 s2 where two: "mode_update_loop e b ps s1 = (st2, d2, s2)" by (metis prod_cases3)
    from Cons.prems one True two have "st2 = st" "s2 = s'" "dn = p # d2" by auto
    with Cons.IH [of s1 d2] two Cons.prems(2) show ?thesis by auto
  next
    case False
    then show ?thesis using Cons.prems one by auto
  qed
qed simp

section \<open>Parsing\<close>

text \<open>What the parser has established, by the flags it has set.\<close>

definition rif_parsed :: "'h l3_env \<Rightarrow> 'h fib \<Rightarrow> sai_rif_type \<Rightarrow> rif_flags \<Rightarrow> rif_node \<Rightarrow> bool" where
  "rif_parsed e s ty fl r \<longleftrightarrow>
     (case fl of (p, v, w) \<Rightarrow>
        ty = rif_type r \<and> (rif_type r = SAI_FIB_RIF_TYPE_NONE \<or> sai_fib_is_rif_type_valid (rif_type r)) \<and>
        \<not> (p \<and> v) \<and> (p \<longrightarrow> rif_type r \<noteq> SAI_ROUTER_INTERFACE_TYPE_VLAN \<and>
           (is_obj_id e SAI_OBJECT_TYPE_PORT (rif_port_id r) \<or> is_obj_id e SAI_OBJECT_TYPE_LAG (rif_port_id r))) \<and>
        (v \<longrightarrow> rif_type r \<noteq> SAI_ROUTER_INTERFACE_TYPE_PORT \<and>
           sai_is_valid_vlan_id (util e) (rif_vlan_id r)) \<and>
        (w \<longrightarrow> vrf_at s (rif_vrf_id r) \<noteq> None))"

definition rif_kept :: "rif_node \<Rightarrow> rif_node \<Rightarrow> bool" where
  "rif_kept r r' \<longleftrightarrow> rif_id r' = rif_id r \<and> rif_ref_count r' = rif_ref_count r"

lemma rif_optional_attr_keeps:
  "sai_fib_rif_optional_attr_set u attr r = (st, r', f) \<Longrightarrow>
   rif_same_shape r r' \<and> rif_port_id r' = rif_port_id r"
  by (cases attr)
     (auto simp: sai_fib_rif_optional_attr_set_def rif_same_shape_def sai_fib_rif_mac_attr_set_def
       sai_fib_rif_v4_admin_state_attr_set_def sai_fib_rif_v6_admin_state_attr_set_def
       sai_fib_rif_mtu_attr_set_def split: if_splits)

lemma rif_mandatory_attr_parsed:
  assumes "rif_parsed e s ty fl r" "sai_fib_rif_is_attr_mandatory_for_create attr"
    and "ty' = (case attr of SAI_ROUTER_INTERFACE_ATTR_TYPE t \<Rightarrow> t | _ \<Rightarrow> rif_type r)"
    and "sai_fib_rif_create_attr_validate attr ty' fl = (SAI_STATUS_SUCCESS, fl')"
    and "sai_fib_rif_create_attr_set e s attr r = (SAI_STATUS_SUCCESS, r')"
  shows "rif_parsed e s ty' fl' r' \<and> rif_kept r r'"
proof (cases attr)
  case (SAI_ROUTER_INTERFACE_ATTR_PORT_ID p)
  then show ?thesis using assms
    by (cases fl) (auto simp: rif_parsed_def rif_kept_def sai_fib_rif_create_attr_validate_def
        sai_fib_rif_create_attr_set_def sai_fib_rif_port_id_set_def Let_def split: if_splits)
next
  case (SAI_ROUTER_INTERFACE_ATTR_VLAN_ID vl)
  then show ?thesis using assms
    by (cases fl) (auto simp: rif_parsed_def rif_kept_def sai_fib_rif_create_attr_validate_def
        sai_fib_rif_create_attr_set_def sai_fib_rif_vlan_id_set_def split: if_splits)
next
  case (SAI_ROUTER_INTERFACE_ATTR_TYPE t)
  obtain p v w where fl: "fl = (p, v, w)" by (metis prod_cases3)
  have ty: "ty' = t" using assms(3) SAI_ROUTER_INTERFACE_ATTR_TYPE by simp
  have val: "fl' = fl" "\<not> (p \<and> t = SAI_ROUTER_INTERFACE_TYPE_VLAN)" "\<not> (v \<and> t = SAI_ROUTER_INTERFACE_TYPE_PORT)"
    using assms(4) by (simp_all add: SAI_ROUTER_INTERFACE_ATTR_TYPE ty fl sai_fib_rif_create_attr_validate_def
        split: if_split_asm)
  have "sai_fib_is_rif_type_valid t" "r' = r\<lparr>rif_type := t\<rparr>"
    using assms(5) by (simp_all add: SAI_ROUTER_INTERFACE_ATTR_TYPE sai_fib_rif_create_attr_set_def
        sai_fib_rif_type_attr_set_def split: if_split_asm)
  then show ?thesis using assms(1) val by (simp add: ty fl rif_parsed_def rif_kept_def)
next
  case (SAI_ROUTER_INTERFACE_ATTR_VIRTUAL_ROUTER_ID i)
  then show ?thesis using assms
    by (cases fl) (auto simp: rif_parsed_def rif_kept_def sai_fib_rif_create_attr_validate_def
        sai_fib_rif_create_attr_set_def sai_fib_rif_vrf_attr_set_def split: if_splits option.splits)
qed (use assms in \<open>simp_all add: sai_fib_rif_is_attr_mandatory_for_create_def\<close>)

lemma rif_parsed_shape:
  "rif_parsed e s ty fl r \<Longrightarrow> rif_same_shape r r' \<Longrightarrow> rif_port_id r' = rif_port_id r \<Longrightarrow>
   rif_parsed e s ty fl r' \<and> rif_kept r r'"
  by (cases fl) (simp add: rif_parsed_def rif_same_shape_def rif_kept_def)

lemma rif_parsed_hw: "hw_only s s' \<Longrightarrow> rif_parsed e s' ty fl r = rif_parsed e s ty fl r"
  by (simp add: rif_parsed_def hw_only_sel)

text \<open>One round of the loop, with the results of its calls named.\<close>

lemma rif_parse_loop_Cons:
  assumes "rif_attributes_parse_loop e (attr # attrs) i ty fl flags r s = res"
  obtains (round) st1 ty1 fl1 flags1 r1 st2 s2 where
    "(if sai_fib_rif_is_attr_mandatory_for_create attr
      then let ty = (case attr of SAI_ROUTER_INTERFACE_ATTR_TYPE t \<Rightarrow> t | _ \<Rightarrow> rif_type r);
               (status, fl) = sai_fib_rif_create_attr_validate attr ty fl
           in if status \<noteq> SAI_STATUS_SUCCESS then (status, ty, fl, flags, r)
              else let (status, r) = sai_fib_rif_create_attr_set e s attr r
                   in (status, ty, fl, flags, r)
      else let (status, r, f) = sai_fib_rif_optional_attr_set (util e) attr r
           in (status, ty, fl, flags \<union> f, r)) = (st1, ty1, fl1, flags1, r1)"
    "(if st1 = SAI_STATUS_SUCCESS
      then hw_call (rif_attr_validate (rif_npu e) (rif_type r1) attr) s else (st1, s)) = (st2, s2)"
    "res = (if st2 \<noteq> SAI_STATUS_SUCCESS
            then (sai_fib_attr_status_code_get (util e) st2 i, ty1, fl1, flags1, r1, s2)
            else rif_attributes_parse_loop e attrs (i + 1) ty1 fl1 flags1 r1 s2)"
proof -
  let ?one = "(if sai_fib_rif_is_attr_mandatory_for_create attr
      then let ty = (case attr of SAI_ROUTER_INTERFACE_ATTR_TYPE t \<Rightarrow> t | _ \<Rightarrow> rif_type r);
               (status, fl) = sai_fib_rif_create_attr_validate attr ty fl
           in if status \<noteq> SAI_STATUS_SUCCESS then (status, ty, fl, flags, r)
              else let (status, r) = sai_fib_rif_create_attr_set e s attr r
                   in (status, ty, fl, flags, r)
      else let (status, r, f) = sai_fib_rif_optional_attr_set (util e) attr r
           in (status, ty, fl, flags \<union> f, r))"
  obtain st1 ty1 fl1 flags1 r1 where one: "?one = (st1, ty1, fl1, flags1, r1)" by (rule prod_cases5)
  obtain st2 s2 where two: "(if st1 = SAI_STATUS_SUCCESS
      then hw_call (rif_attr_validate (rif_npu e) (rif_type r1) attr) s else (st1, s)) = (st2, s2)"
    by (rule prod.exhaust)
  have "rif_attributes_parse_loop e (attr # attrs) i ty fl flags r s
    = (if st2 \<noteq> SAI_STATUS_SUCCESS
       then (sai_fib_attr_status_code_get (util e) st2 i, ty1, fl1, flags1, r1, s2)
       else rif_attributes_parse_loop e attrs (i + 1) ty1 fl1 flags1 r1 s2)"
    unfolding rif_attributes_parse_loop.simps one by (simp add: two)
  with assms have "res = (if st2 \<noteq> SAI_STATUS_SUCCESS
       then (sai_fib_attr_status_code_get (util e) st2 i, ty1, fl1, flags1, r1, s2)
       else rif_attributes_parse_loop e attrs (i + 1) ty1 fl1 flags1 r1 s2)"
    by (rule trans [OF sym])
  with one two show thesis by (rule round)
qed

lemma rif_parse_loop_hw:
  "rif_attributes_parse_loop e attrs i ty fl flags r s = (st, ty', fl', flags', r', s') \<Longrightarrow>
   hw_only s s'"
proof (induction attrs arbitrary: i ty fl flags r s)
  case (Cons attr attrs)
  from Cons.prems show ?case
  proof (cases rule: rif_parse_loop_Cons)
    case (round st1 ty1 fl1 flags1 r1 st2 s2)
    have "hw_only s s2" using round(2) by (auto split: if_splits dest: hw_call_only)
    with round(3) Cons.IH [of "i + 1" ty1 fl1 flags1 r1 s2] show ?thesis
      by (cases "st2 = SAI_STATUS_SUCCESS") (auto intro: hw_only_trans)
  qed
qed simp

lemma rif_parse_loop_parsed:
  assumes u: "util_ok (util e)"
  shows "rif_parsed e s ty fl r \<Longrightarrow>
    rif_attributes_parse_loop e attrs i ty fl flags r s = (SAI_STATUS_SUCCESS, ty', fl', flags', r', s') \<Longrightarrow>
    rif_parsed e s' ty' fl' r' \<and> rif_kept r r' \<and> hw_only s s'"
proof (induction attrs arbitrary: i ty fl flags r s)
  case Nil
  then show ?case by (simp add: rif_kept_def)
next
  case (Cons attr attrs)
  from Cons.prems(2) show ?case
  proof (cases rule: rif_parse_loop_Cons)
    case (round st1 ty1 fl1 flags1 r1 st2 s2)
    note one = round(1) and two = round(2)
    have s2: "hw_only s s2" using two by (auto split: if_splits dest: hw_call_only)
    from round(3) have st: "st2 = SAI_STATUS_SUCCESS"
      and rest: "rif_attributes_parse_loop e attrs (i + 1) ty1 fl1 flags1 r1 s2
        = (SAI_STATUS_SUCCESS, ty', fl', flags', r', s')"
      using util_ok_status [OF u, of st2 i] by (auto split: if_split_asm)
    from st two have st1: "st1 = SAI_STATUS_SUCCESS" by (simp split: if_split_asm)
    have "rif_parsed e s ty1 fl1 r1 \<and> rif_kept r r1"
    proof (cases "sai_fib_rif_is_attr_mandatory_for_create attr")
      case True
      let ?ty = "(case attr of SAI_ROUTER_INTERFACE_ATTR_TYPE t \<Rightarrow> t | _ \<Rightarrow> rif_type r)"
      obtain st3 fl3 where v: "sai_fib_rif_create_attr_validate attr ?ty fl = (st3, fl3)"
        by (rule prod.exhaust)
      obtain st4 r4 where c: "sai_fib_rif_create_attr_set e s attr r = (st4, r4)" by force
      have "st3 = SAI_STATUS_SUCCESS" "st4 = SAI_STATUS_SUCCESS" "ty1 = ?ty" "fl1 = fl3" "r1 = r4"
        using one True v c st1 by (simp_all add: Let_def split: if_split_asm)
      with rif_mandatory_attr_parsed [OF Cons.prems(1) True refl] v c show ?thesis by simp
    next
      case False
      obtain st3 r3 f3 where o: "sai_fib_rif_optional_attr_set (util e) attr r = (st3, r3, f3)"
        by (metis prod_cases3)
      have "ty1 = ty" "fl1 = fl" "r1 = r3" using one False o by simp_all
      with rif_parsed_shape [OF Cons.prems(1)] rif_optional_attr_keeps [OF o] show ?thesis by simp
    qed
    then have "rif_parsed e s2 ty1 fl1 r1" "rif_kept r r1" using rif_parsed_hw [OF s2] by simp_all
    from Cons.IH [OF this(1) rest] this(2) s2 show ?thesis
      by (auto simp: rif_kept_def intro: hw_only_trans)
  qed
qed


lemma rif_inherit_keeps:
  "sai_fib_rif_inherit_vrf_attributes s flags r = (st, r') \<Longrightarrow>
   rif_same_shape r r' \<and> rif_port_id r' = rif_port_id r"
  by (auto simp: sai_fib_rif_inherit_vrf_attributes_def rif_same_shape_def Let_def split: option.splits)

text \<open>
  What an interface is attached to once it exists: a port interface to a port or a LAG, a VLAN
  interface to a VLAN id in range.
\<close>

definition rif_attached :: "'h l3_env \<Rightarrow> rif_node \<Rightarrow> bool" where
  "rif_attached e r \<longleftrightarrow>
     rif_type r = SAI_ROUTER_INTERFACE_TYPE_PORT \<and>
       (is_obj_id e SAI_OBJECT_TYPE_PORT (rif_port_id r) \<or> is_obj_id e SAI_OBJECT_TYPE_LAG (rif_port_id r)) \<or>
     rif_type r = SAI_ROUTER_INTERFACE_TYPE_VLAN \<and> sai_is_valid_vlan_id (util e) (rif_vlan_id r)"

lemma rif_duplicate_hw: "hw_only s s' \<Longrightarrow> sai_fib_rif_is_duplicate s' r = sai_fib_rif_is_duplicate s r"
  by (simp add: sai_fib_rif_is_duplicate_def hw_only_sel)

lemma rif_duplicate_id: "sai_fib_rif_is_duplicate s (r\<lparr>rif_id := i\<rparr>) = sai_fib_rif_is_duplicate s r"
  by (simp add: sai_fib_rif_is_duplicate_def rif_same_attachment_def sai_fib_rif_port_or_vlan_id_get_def)

lemma rif_parse_result:
  assumes u: "util_ok (util e)" and ty: "rif_type r = SAI_FIB_RIF_TYPE_NONE"
    and call: "sai_fib_rif_attributes_parse e attrs r s = (st, r', s')"
  shows "hw_only s s' \<and>
    (st = SAI_STATUS_SUCCESS \<longrightarrow>
       rif_attached e r' \<and> rif_kept r r' \<and> vrf_at s (rif_vrf_id r') \<noteq> None \<and>
       \<not> sai_fib_rif_is_duplicate s r')"
proof -
  obtain st1 ty1 p v w fl1 r1 s1 where loop:
    "rif_attributes_parse_loop e attrs 0 SAI_FIB_RIF_TYPE_NONE (False, False, False) {} r s
      = (st1, ty1, (p, v, w), fl1, r1, s1)"
    by (metis prod.exhaust)
  obtain st2 r2 where inh: "sai_fib_rif_inherit_vrf_attributes s1 fl1 r1 = (st2, r2)" by force
  note hw1 = rif_parse_loop_hw [OF loop]
  have s': "s' = s1"
    using call loop inh by (simp add: sai_fib_rif_attributes_parse_def split: if_split_asm)
  show ?thesis
  proof (cases "st = SAI_STATUS_SUCCESS")
    case True
    with call loop inh have ok: "st1 = SAI_STATUS_SUCCESS" "p \<or> v" "w" "ty1 \<noteq> SAI_FIB_RIF_TYPE_NONE"
      "\<not> sai_fib_rif_is_duplicate s1 r2" "r' = r2"
      by (auto simp: sai_fib_rif_attributes_parse_def split: if_split_asm)
    have "rif_parsed e s SAI_FIB_RIF_TYPE_NONE (False, False, False) r" using ty by (simp add: rif_parsed_def)
    from rif_parse_loop_parsed [OF u this loop [unfolded ok(1)]]
    have "rif_parsed e s1 ty1 (p, v, w) r1" "rif_kept r r1" by simp_all
    with rif_parsed_shape [OF this(1)] rif_inherit_keeps [OF inh]
    have "rif_parsed e s1 ty1 (p, v, w) r2" "rif_kept r r2" by (auto simp: rif_kept_def)
    with ok hw1 s' show ?thesis
      by (auto simp: rif_parsed_def rif_attached_def sai_fib_is_rif_type_valid_def hw_only_sel
          rif_duplicate_hw)
  qed (use hw1 s' in simp)
qed

section \<open>What the operations do\<close>

lemma rif_list_update_eq:
  "vrf_at s (rif_vrf_id r) = Some v \<Longrightarrow>
   sai_fib_vrf_rif_list_update r True s =
     (SAI_STATUS_SUCCESS, set_vrf (rif_vrf_id r) (vrf_add_rif (rif_id r) v) s)"
  "vrf_at s (rif_vrf_id r) = Some v \<Longrightarrow>
   sai_fib_vrf_rif_list_update r False s =
     (SAI_STATUS_SUCCESS, set_vrf (rif_vrf_id r) (vrf_del_rif (rif_id r) v) s)"
  by (simp_all add: sai_fib_vrf_rif_list_update_def)

lemma hw_only_set_vrf: "hw_only s s' \<Longrightarrow> hw_only (set_vrf i v s) (set_vrf i v s')"
  by (auto simp: hw_only_def)

lemma hw_only_set_rif: "hw_only s s' \<Longrightarrow> hw_only (set_rif i r s) (set_rif i r s')"
  by (auto simp: hw_only_def)

text \<open>
  The creation puts the interface in its virtual router's list and in the tree, or undoes whatever it
  did to the software state.
\<close>

definition rif_added :: "rif_node \<Rightarrow> vrf_node \<Rightarrow> 'h fib \<Rightarrow> 'h fib" where
  "rif_added r v s = set_rif (rif_id r) r (set_vrf (rif_vrf_id r) (vrf_add_rif (rif_id r) v) s)"

lemma rif_create_steps_result:
  assumes u: "util_ok (util e)" and wf: "tree_wf (vrf_tree s)" and ty: "rif_type r0 = SAI_FIB_RIF_TYPE_NONE"
    and call: "rif_create_steps e attrs r0 s = (st, (n, l, c), r, out, s1)"
  shows "if st = SAI_STATUS_SUCCESS
    then \<exists>v. out = Some (rif_id r) \<and> rif_at s (rif_id r) = None \<and> vrf_at s (rif_vrf_id r) = Some v \<and>
           rif_attached e r \<and> rif_ref_count r = rif_ref_count r0 \<and>
           \<not> sai_fib_rif_is_duplicate s r \<and> hw_only (rif_added r v s) s1
    else if l then \<exists>v. vrf_at s (rif_vrf_id r) = Some v \<and>
           hw_only (set_vrf (rif_vrf_id r) (vrf_add_rif (rif_id r) v) s) s1
    else hw_only s s1"
proof -
  obtain st1 r1 s2 where p: "sai_fib_rif_attributes_parse e attrs r0 s = (st1, r1, s2)" by (metis prod_cases3)
  note P = rif_parse_result [OF u ty p]
  show ?thesis
  proof (cases "st1 = SAI_STATUS_SUCCESS")
    case False
    then show ?thesis using call p P by (auto simp: rif_create_steps_def)
  next
    case True
    obtain st2 s3 where rc: "sai_fib_rif_routing_config_update e r1 True s2 = (st2, s3)" by force
    have h3: "hw_only s s3" using P routing_config_hw [OF rc] hw_only_trans by blast
    show ?thesis
    proof (cases "st2 = SAI_STATUS_SUCCESS")
      case False
      then show ?thesis using call p True rc h3 by (auto simp: rif_create_steps_def)
    next
      case True2: True
      obtain st3 hid s4 where np: "hw_call (rif_create (rif_npu e) r1) s3 = ((st3, hid), s4)"
        by (metis prod.exhaust)
      have h4: "hw_only s s4" using h3 hw_call_only [OF np] hw_only_trans by blast
      show ?thesis
      proof (cases "st3 = SAI_STATUS_SUCCESS")
        case False
        then show ?thesis using call p True rc True2 np h4 by (auto simp: rif_create_steps_def)
      next
        case True3: True
        let ?r = "r1\<lparr>rif_id := sai_uoid_create (util e) SAI_OBJECT_TYPE_ROUTER_INTERFACE hid\<rparr>"
        from P True obtain v where v: "vrf_at s (rif_vrf_id r1) = Some v" by blast
        with h4 have v4: "vrf_at s4 (rif_vrf_id ?r) = Some v" by (simp add: hw_only_sel)
        let ?s5 = "set_vrf (rif_vrf_id ?r) (vrf_add_rif (rif_id ?r) v) s4"
        obtain ok s6 where ins: "rbtree_insert_ok e (router_interface_tree ?s5) (rif_id ?r) ?s5 = (ok, s6)"
          by force
        have h6: "hw_only ?s5 s6" "ok \<longrightarrow> rif_at s (rif_id ?r) = None"
          using ins h4 by (auto simp: rbtree_insert_ok_def hw_only_sel split: prod.splits dest!: hw_call_eqD)
        have h5: "hw_only (set_vrf (rif_vrf_id ?r) (vrf_add_rif (rif_id ?r) v) s) s6"
          using hw_only_set_vrf [OF h4] h6(1) hw_only_trans by blast
        have c: "rif_create_steps e attrs r0 s =
          (if \<not> ok then (SAI_STATUS_FAILURE, (True, True, True), ?r, Some (rif_id ?r), s6)
           else (SAI_STATUS_SUCCESS, (True, True, True), ?r, Some (rif_id ?r), set_rif (rif_id ?r) ?r s6))"
          using p True rc True2 np True3 rif_list_update_eq(1) [OF v4] ins
          by (simp add: rif_create_steps_def Let_def)
        show ?thesis
        proof (cases ok)
          case False
          with c call v h5 show ?thesis by auto
        next
          case True4: True
          have "rif_attached e ?r" "rif_ref_count ?r = rif_ref_count r0" "\<not> sai_fib_rif_is_duplicate s ?r"
            using P True by (simp_all add: rif_attached_def rif_kept_def rif_duplicate_id)
          with c call v h5 h6(2) True4 show ?thesis by (auto simp: rif_added_def intro: hw_only_set_rif)
        qed
      qed
    qed
  qed
qed


lemma rif_free_resources_hw:
  assumes "if l then \<exists>v. vrf_at s (rif_vrf_id r) = Some v \<and> tree_wf (vrf_tree s) \<and>
           hw_only (set_vrf (rif_vrf_id r) (vrf_add_rif (rif_id r) v) s) s1
    else hw_only s s1"
  shows "hw_only s (sai_fib_rif_free_resources e r n l c s1)"
proof -
  obtain s2 where s2: "(if n then snd (hw_call (rif_remove (rif_npu e) r) s1) else s1) = s2" by simp
  have h2: "hw_only s1 s2" using s2 by (auto simp: hw_call_def split: prod.splits)
  obtain s3 where s3: "(if l then snd (sai_fib_vrf_rif_list_update r False s2) else s2) = s3" by simp
  have h3: "hw_only s s3"
  proof (cases l)
    case False
    then show ?thesis using assms h2 s3 by (auto intro: hw_only_trans)
  next
    case True
    with assms obtain v where v: "vrf_at s (rif_vrf_id r) = Some v"
      and h: "hw_only (set_vrf (rif_vrf_id r) (vrf_add_rif (rif_id r) v) s) s1" by auto
    let ?w = "vrf_add_rif (rif_id r) v"
    have h': "hw_only (set_vrf (rif_vrf_id r) ?w s) s2" using h h2 hw_only_trans by blast
    then have at: "vrf_at s2 (rif_vrf_id r) = Some ?w" by (simp add: hw_only_sel)
    have "s3 = set_vrf (rif_vrf_id r) v s2"
      using s3 True rif_list_update_eq(2) [OF at] by (simp add: vrf_del_add_rif)
    with hw_only_set_vrf [OF h', of "rif_vrf_id r" v] v show ?thesis by (simp add: set_same)
  qed
  obtain st s4 where s4: "sai_fib_rif_routing_config_update e r False s3 = (st, s4)" by force
  have "sai_fib_rif_free_resources e r n l c s1 = (if c then s4 else s3)"
    using s2 s3 s4 by (simp add: sai_fib_rif_free_resources_def)
  with h3 routing_config_hw [OF s4] show ?thesis by (auto intro: hw_only_trans)
qed

lemma router_interface_create_result:
  assumes u: "util_ok (util e)" and wf: "tree_wf (vrf_tree s)"
    and call: "sai_fib_router_interface_create e attrs s = (status, out, s')"
  shows "if status = SAI_STATUS_SUCCESS
    then \<exists>r v. out = Some (rif_id r) \<and> rif_at s (rif_id r) = None \<and> vrf_at s (rif_vrf_id r) = Some v \<and>
           rif_attached e r \<and> rif_ref_count r = 0 \<and> \<not> sai_fib_rif_is_duplicate s r \<and>
           hw_only (rif_added r v s) s'
    else hw_only s s'"
proof (cases "sai_fib_rif_is_create_attr_count_valid (length attrs)")
  case False
  then show ?thesis using call by (auto simp: sai_fib_router_interface_create_def)
next
  case True
  obtain node s1 where al: "sai_fib_rif_node_alloc e s = (node, s1)" by force
  have h1: "hw_only s s1" "node = None \<or> node = Some rif_zero"
    using al by (auto simp: sai_fib_rif_node_alloc_def split: prod.splits if_splits dest!: hw_call_only)
  show ?thesis
  proof (cases node)
    case None
    then show ?thesis using call True al h1 by (auto simp: sai_fib_router_interface_create_def)
  next
    case (Some r0)
    then have r0: "r0 = rif_zero" using h1(2) by simp
    let ?r0 = "sai_fib_rif_attributes_init e s1 rif_zero"
    obtain st n l c r o1 s2 where steps: "rif_create_steps e attrs ?r0 s1 = (st, (n, l, c), r, o1, s2)"
      by (metis prod.exhaust)
    have "rif_type ?r0 = SAI_FIB_RIF_TYPE_NONE" "rif_ref_count ?r0 = 0"
      by (simp_all add: sai_fib_rif_attributes_init_def rif_zero_def)
    note S = rif_create_steps_result [OF u _ this(1) steps, unfolded this(2)]
    have wf1: "tree_wf (vrf_tree s1)" using wf h1 by (simp add: hw_only_sel)
    show ?thesis
    proof (cases "st = SAI_STATUS_SUCCESS")
      case ok: True
      have st: "status = SAI_STATUS_SUCCESS \<and> out = o1 \<and> hw_only s2 s'"
        using call True al Some r0 steps ok
        by (auto simp: sai_fib_router_interface_create_def Let_def split: if_splits)
      from S [OF wf1] ok h1(1) obtain v where v: "o1 = Some (rif_id r)" "rif_at s (rif_id r) = None"
        "vrf_at s (rif_vrf_id r) = Some v" "rif_attached e r" "rif_ref_count r = 0"
        "\<not> sai_fib_rif_is_duplicate s r" and h2: "hw_only (rif_added r v s1) s2"
        by (auto simp: hw_only_sel rif_duplicate_hw)
      have "hw_only (rif_added r v s) (rif_added r v s1)"
        using h1(1) by (simp add: rif_added_def hw_only_set_rif hw_only_set_vrf)
      with h2 st have "hw_only (rif_added r v s) s'" using hw_only_trans by blast
      with v st show ?thesis by auto
    next
      case bad: False
      have st: "status = st" "s' = sai_fib_rif_free_resources e r n l c s2"
        using call True al Some r0 steps bad
        by (auto simp: sai_fib_router_interface_create_def Let_def split: if_splits)
      have "hw_only s1 s'" unfolding st(2)
        by (rule rif_free_resources_hw) (use S [OF wf1] bad wf1 in \<open>auto split: if_splits\<close>)
      with h1(1) st(1) bad show ?thesis using hw_only_trans by auto
    qed
  qed
qed

lemma router_interface_create_inv:
  assumes inv: "fib_inv (util e) s" and u: "util_ok (util e)"
    and call: "sai_fib_router_interface_create e attrs s = (status, out, s')"
  shows "fib_inv (util e) s'"
proof -
  have wf: "tree_wf (vrf_tree s)" using inv by (simp add: fib_inv_def trees_ok_def)
  from router_interface_create_result [OF u wf call] show ?thesis
    by (auto split: if_splits simp: hw_only_inv inv inv_new_rif rif_added_def)
qed


text \<open>Nothing is on an interface that is removed: its reference count is exact.\<close>

definition rif_gone :: "rif_node \<Rightarrow> vrf_node \<Rightarrow> 'h fib \<Rightarrow> 'h fib" where
  "rif_gone r v s = (set_vrf (rif_vrf_id r) (vrf_del_rif (rif_id r) v) s)
     \<lparr>router_interface_tree := tree_del (rif_id r) (router_interface_tree s)\<rparr>"

lemma router_interface_remove_result:
  assumes inv: "fib_inv (util e) s"
    and call: "sai_fib_router_interface_remove e rid s = (status, s')"
  shows "if status = SAI_STATUS_SUCCESS
    then \<exists>r v. rif_at s rid = Some r \<and> rif_id r = rid \<and> rif_ref_count r = 0 \<and>
           vrf_at s (rif_vrf_id r) = Some v \<and> hw_only (rif_gone r v s) s'
    else hw_only s s'"
proof (cases "is_obj_id e SAI_OBJECT_TYPE_ROUTER_INTERFACE rid \<and> (\<exists>r. rif_at s rid = Some r \<and> rif_ref_count r = 0)")
  case False
  then show ?thesis using call
    by (auto simp: sai_fib_router_interface_remove_def split: if_splits option.splits)
next
  case True
  then obtain r where r: "rif_at s rid = Some r" "rif_ref_count r = 0" by auto
  have "rif_ok s" using inv by (simp add: fib_inv_def)
  with r(1) obtain v where v: "rif_id r = rid" "vrf_at s (rif_vrf_id r) = Some v"
    unfolding rif_ok_def by blast
  obtain st s1 where np: "hw_call (rif_remove (rif_npu e) r) s = (st, s1)" by force
  note h1 = hw_call_only [OF np]
  show ?thesis
  proof (cases "st = SAI_STATUS_SUCCESS")
    case False
    then show ?thesis using call True r np h1 by (auto simp: sai_fib_router_interface_remove_def)
  next
    case ok: True
    have v1: "vrf_at s1 (rif_vrf_id r) = Some v" using v h1 by (simp add: hw_only_sel)
    let ?s2 = "rif_gone r v s1"
    obtain st3 s3 where rc: "sai_fib_rif_routing_config_update e r False ?s2 = (st3, s3)" by force
    have gone: "(set_vrf (rif_vrf_id r) (vrf_del_rif (rif_id r) v) s1)
        \<lparr>router_interface_tree := tree_del (rif_id r) (router_interface_tree s1)\<rparr> = ?s2"
      by (simp add: rif_gone_def)
    have st: "status = SAI_STATUS_SUCCESS \<and> hw_only s3 s'"
      using call True r np ok rif_list_update_eq(2) [OF v1] rc
      by (auto simp: sai_fib_router_interface_remove_def Let_def gone split: if_splits)
    have "rif_gone r v (s\<lparr>hw := h\<rparr>) = (rif_gone r v s)\<lparr>hw := h\<rparr>" for h
      by (simp add: rif_gone_def set_vrf_def)
    with h1 have "hw_only (rif_gone r v s) ?s2" by (auto simp: hw_only_def)
    with routing_config_hw [OF rc] st have "hw_only (rif_gone r v s) s'" using hw_only_trans by blast
    with st r v show ?thesis by auto
  qed
qed

lemma router_interface_remove_inv:
  assumes inv: "fib_inv (util e) s" and b: "fib_bounded s"
    and call: "sai_fib_router_interface_remove e rid s = (status, s')"
  shows "fib_inv (util e) s'"
proof (cases "status = SAI_STATUS_SUCCESS")
  case True
  from router_interface_remove_result [OF inv call] True obtain r v where r: "rif_at s rid = Some r"
    "rif_id r = rid" "rif_ref_count r = 0" "vrf_at s (rif_vrf_id r) = Some v" "hw_only (rif_gone r v s) s'"
    by auto
  have "rif_refs s rid = 0"
    using rif_refs_zero [OF b, of rid] inv r(1,3) by (auto simp: fib_inv_def rif_ok_def)
  from inv_del_rif [OF inv r(1) this r(4)] r(2,5) show ?thesis by (simp add: hw_only_inv rif_gone_def)
next
  case False
  then show ?thesis using router_interface_remove_result [OF inv call] inv by (simp add: hw_only_inv)
qed

lemma router_interface_attribute_set_result:
  assumes call: "sai_fib_router_interface_attribute_set e rid attr s = (status, s')"
  shows "hw_only s s' \<or>
    (\<exists>r r' f. status = SAI_STATUS_SUCCESS \<and> rif_at s rid = Some r \<and>
       sai_fib_rif_optional_attr_set (util e) attr r = (SAI_STATUS_SUCCESS, r', f) \<and>
       rif_same_shape r r' \<and> rif_port_id r' = rif_port_id r \<and> hw_only (set_rif rid r' s) s')"
proof (cases "is_obj_id e SAI_OBJECT_TYPE_ROUTER_INTERFACE rid \<and> rif_at s rid \<noteq> None \<and>
    \<not> sai_fib_rif_is_attr_mandatory_for_create attr")
  case False
  then show ?thesis using call
    by (auto simp: sai_fib_router_interface_attribute_set_def split: if_splits option.splits)
next
  case True
  then obtain r where r: "rif_at s rid = Some r" by auto
  obtain st1 s1 where va: "hw_call (rif_attr_validate (rif_npu e) (rif_type r) attr) s = (st1, s1)" by force
  obtain st2 r' f where o: "sai_fib_rif_optional_attr_set (util e) attr r = (st2, r', f)" by (metis prod_cases3)
  obtain st3 s2 where np: "hw_call (rif_attr_set (rif_npu e) r' f) s1 = (st3, s2)" by force
  note h = hw_call_only [OF va] hw_call_only [OF np]
  have h2: "hw_only s s2" using h hw_only_trans by blast
  have h3: "hw_only (set_rif rid r' s) (set_rif rid r' s2)" using h2 by (rule hw_only_set_rif)
  note k = rif_optional_attr_keeps [OF o]
  show ?thesis
    using call True r va o np h h2 h3 k
    by (simp add: sai_fib_router_interface_attribute_set_def split: if_split_asm)
qed

lemma router_interface_attribute_set_inv:
  assumes "fib_inv (util e) s"
    and "sai_fib_router_interface_attribute_set e rid attr s = (status, s')"
  shows "fib_inv (util e) s'"
  using router_interface_attribute_set_result [OF assms(2)] assms(1)
  by (auto simp: hw_only_inv inv_set_rif_attr)

lemma router_interface_attribute_get_hw:
  "sai_fib_router_interface_attribute_get e rid n s = (r, s') \<Longrightarrow> hw_only s s'"
  by (auto simp: sai_fib_router_interface_attribute_get_def split: if_splits option.splits
      dest: hw_call_only)

lemma rif_lag_callback_hw:
  assumes "sai_rif_lag_callback e lag rid ports opc s = (status, s')"
  shows "hw_only s s'"
proof -
  have "hw_only s s'" if "sai_rif_lag_member_update e rid lag ports a s = (status, s')" for a
    using that
    by (auto simp: sai_rif_lag_member_update_def Let_def split: if_splits prod.splits option.splits
        dest!: port_list_update_hw hw_call_only intro: hw_only_trans)
  with assms show ?thesis by (auto simp: sai_rif_lag_callback_def split: if_splits)
qed

end
