(* ===== verification/Fib_NextHop.thy ===== *)
theory Fib_NextHop
  imports Fib_Inv
begin

text \<open>
  Next hops: \<^verbatim>\<open>src/src/routing/sai_l3_next_hop.c\<close>. A next hop node is shared by its two owners, the
  next hop API and the neighbor API: it is created with its first owner, found by interface and
  address in the tree of its virtual router, and freed with its last owner. The node holds one
  reference on its router interface.

  The first part translates the file function by function; a pointer argument is the address of the
  node, and \<open>nh_info\<close>, the node on the caller's stack, is passed by value. The second part shows
  that the operations keep the invariant and what each returns.
\<close>

section \<open>Attributes\<close>

definition sai_fib_next_hop_type_validate :: "sai_next_hop_type \<Rightarrow> bool" where
  "sai_fib_next_hop_type_validate ty = (case ty of SAI_NEXT_HOP_IP \<Rightarrow> True | _ \<Rightarrow> False)"

definition sai_fib_next_hop_rif_validate :: "'h fib \<Rightarrow> oid \<Rightarrow> bool" where
  "sai_fib_next_hop_rif_validate s r = (case rif_at s r of Some _ \<Rightarrow> True | None \<Rightarrow> False)"

definition sai_fib_next_hop_ip_address_validate :: "l3_util \<Rightarrow> sai_ip_address \<Rightarrow> sai_status" where
  "sai_fib_next_hop_ip_address_validate u ip =
     (case ip of
        IpFamily _ \<Rightarrow> SAI_STATUS_INVALID_PARAMETER
      | _ \<Rightarrow> if sai_fib_is_ip_addr_zero u ip \<or> sai_fib_is_ip_addr_loopback u ip
            then SAI_STATUS_INVALID_PARAMETER
            else SAI_STATUS_SUCCESS)"

definition sai_fib_next_hop_rif_set ::
    "'h l3_env \<Rightarrow> 'h fib \<Rightarrow> oid \<Rightarrow> bool \<Rightarrow> nh_node \<Rightarrow> sai_status \<times> nh_node" where
  "sai_fib_next_hop_rif_set e s oid is_create_req nh_info =
     (if \<not> is_create_req then (SAI_STATUS_INVALID_ATTRIBUTE_0, nh_info)
      else if \<not> is_obj_id e SAI_OBJECT_TYPE_ROUTER_INTERFACE oid
      then (SAI_STATUS_INVALID_ATTR_VALUE_0, nh_info)
      else if \<not> sai_fib_next_hop_rif_validate s oid then (SAI_STATUS_INVALID_ATTR_VALUE_0, nh_info)
      else case vrf_for_rif (util e) s oid of
        None \<Rightarrow> (SAI_STATUS_INVALID_OBJECT_ID, nh_info)
      | Some v \<Rightarrow>
          (SAI_STATUS_SUCCESS,
           nh_info\<lparr>nh_key := (nh_key nh_info)\<lparr>nk_rif_id := oid\<rparr>, nh_vrf_id := vrf_id v\<rparr>))"

definition sai_fib_next_hop_type_set ::
    "sai_next_hop_type \<Rightarrow> bool \<Rightarrow> nh_node \<Rightarrow> sai_status \<times> nh_node" where
  "sai_fib_next_hop_type_set ty is_create_req nh_info =
     (if \<not> is_create_req then (SAI_STATUS_INVALID_ATTRIBUTE_0, nh_info)
      else if \<not> sai_fib_next_hop_type_validate ty then (SAI_STATUS_INVALID_ATTR_VALUE_0, nh_info)
      else (SAI_STATUS_SUCCESS, nh_info\<lparr>nh_key := (nh_key nh_info)\<lparr>nk_type := ty\<rparr>\<rparr>))"

definition sai_fib_next_hop_ip_addr_set ::
    "l3_util \<Rightarrow> sai_ip_address \<Rightarrow> bool \<Rightarrow> nh_node \<Rightarrow> sai_status \<times> nh_node" where
  "sai_fib_next_hop_ip_addr_set u ip is_create_req nh_info =
     (if \<not> is_create_req then (SAI_STATUS_INVALID_ATTRIBUTE_0, nh_info)
      else if sai_fib_next_hop_ip_address_validate u ip \<noteq> SAI_STATUS_SUCCESS
      then (SAI_STATUS_INVALID_ATTR_VALUE_0, nh_info)
      else let (status, copied) = sai_fib_ip_addr_copy u (nk_ip_addr (nh_key nh_info)) ip;
               nh_info = nh_info\<lparr>nh_key := (nh_key nh_info)\<lparr>nk_ip_addr := copied\<rparr>\<rparr>
           in if status \<noteq> SAI_STATUS_SUCCESS then (SAI_STATUS_INVALID_ATTR_VALUE_0, nh_info)
              else (SAI_STATUS_SUCCESS, nh_info))"

definition sai_fib_next_hop_default_attr_set :: "nh_node \<Rightarrow> nh_node" where
  "sai_fib_next_hop_default_attr_set n = n\<lparr>nh_packet_action := SAI_PACKET_ACTION_TRAP\<rparr>"

definition sai_fib_next_hop_info_reset :: "l3_util \<Rightarrow> nh_node \<Rightarrow> nh_node" where
  "sai_fib_next_hop_info_reset u n =
     (sai_fib_reset_next_hop_owner u SAI_FIB_OWNER_NEXT_HOP n)\<lparr>nh_next_hop_id := 0\<rparr>"

text \<open>The loop over the attributes: its status, the flags (type, address, interface) and the info.\<close>

definition nh_attr_set ::
    "'h l3_env \<Rightarrow> 'h fib \<Rightarrow> nh_attr \<Rightarrow> bool \<Rightarrow> (bool \<times> bool \<times> bool) \<Rightarrow> nh_node
     \<Rightarrow> sai_status \<times> (bool \<times> bool \<times> bool) \<times> nh_node" where
  "nh_attr_set e s attr is_create flags nh_info =
     (case flags of (ty_set, ip_set, rif_set) \<Rightarrow>
        (case attr of
           SAI_NEXT_HOP_ATTR_TYPE ty \<Rightarrow>
             (let (st, nh_info) = sai_fib_next_hop_type_set ty is_create nh_info
              in (st, (True, ip_set, rif_set), nh_info))
         | SAI_NEXT_HOP_ATTR_IP ip \<Rightarrow>
             (let (st, nh_info) = sai_fib_next_hop_ip_addr_set (util e) ip is_create nh_info
              in (st, (ty_set, True, rif_set), nh_info))
         | SAI_NEXT_HOP_ATTR_ROUTER_INTERFACE_ID r \<Rightarrow>
             (let (st, nh_info) = sai_fib_next_hop_rif_set e s r is_create nh_info
              in (st, (ty_set, ip_set, True), nh_info))
         | NH_ATTR_UNKNOWN _ \<Rightarrow> (SAI_STATUS_UNKNOWN_ATTRIBUTE_0, flags, nh_info)))"

fun nh_info_fill_loop ::
    "'h l3_env \<Rightarrow> 'h fib \<Rightarrow> nh_attr list \<Rightarrow> nat \<Rightarrow> bool \<Rightarrow> (bool \<times> bool \<times> bool) \<Rightarrow> nh_node
     \<Rightarrow> sai_status \<times> (bool \<times> bool \<times> bool) \<times> nh_node" where
  "nh_info_fill_loop e s [] i is_create flags nh_info = (SAI_STATUS_SUCCESS, flags, nh_info)"
| "nh_info_fill_loop e s (attr # attrs) i is_create flags nh_info =
     (let (status, flags, nh_info) = nh_attr_set e s attr is_create flags nh_info
      in if status \<noteq> SAI_STATUS_SUCCESS
         then (sai_fib_attr_status_code_get (util e) status i, flags, nh_info)
         else nh_info_fill_loop e s attrs (i + 1) is_create flags nh_info)"

definition sai_fib_next_hop_info_fill ::
    "'h l3_env \<Rightarrow> 'h fib \<Rightarrow> nh_attr list \<Rightarrow> bool \<Rightarrow> nh_node \<Rightarrow> sai_status \<times> nh_node" where
  "sai_fib_next_hop_info_fill e s attrs is_create nh_info =
     (if attrs = [] then (SAI_STATUS_INVALID_PARAMETER, nh_info)
      else let (status, (ty_set, ip_set, rif_set), nh_info) =
                 nh_info_fill_loop e s attrs 0 is_create (False, False, False) nh_info
           in if status \<noteq> SAI_STATUS_SUCCESS then (status, nh_info)
              else if is_create \<and> (\<not> ty_set \<or> \<not> rif_set)
              then (SAI_STATUS_MANDATORY_ATTRIBUTE_MISSING, nh_info)
              else if nk_type (nh_key nh_info) = SAI_NEXT_HOP_IP \<and> is_create \<and> \<not> ip_set
              then (SAI_STATUS_MANDATORY_ATTRIBUTE_MISSING, nh_info)
              else (SAI_STATUS_SUCCESS, nh_info))"

section \<open>The two databases of next hops\<close>

definition sai_fib_insert_nh_node_in_vrf_database ::
    "'h l3_env \<Rightarrow> oid \<Rightarrow> addr \<Rightarrow> 'h fib \<Rightarrow> sai_status \<times> 'h fib" where
  "sai_fib_insert_nh_node_in_vrf_database e i a s =
     (case (vrf_at s i, nh_at s a) of
        (Some v, Some n) \<Rightarrow>
          (let (ok, s) = radix_insert_ok e (vrf_nh_tree v) (nh_key n) s
           in if \<not> ok then (SAI_STATUS_FAILURE, s)
              else (SAI_STATUS_SUCCESS,
                    set_vrf i (v\<lparr>vrf_nh_tree := tree_put (nh_key n) a (vrf_nh_tree v)\<rparr>) s))
      | _ \<Rightarrow> (SAI_STATUS_FAILURE, s))"

definition sai_fib_remove_nh_node_from_vrf_database :: "oid \<Rightarrow> addr \<Rightarrow> 'h fib \<Rightarrow> 'h fib" where
  "sai_fib_remove_nh_node_from_vrf_database i a s =
     (case (vrf_at s i, nh_at s a) of
        (Some v, Some n) \<Rightarrow> set_vrf i (v\<lparr>vrf_nh_tree := tree_del (nh_key n) (vrf_nh_tree v)\<rparr>) s
      | _ \<Rightarrow> s)"

definition sai_fib_insert_nh_node_in_nh_id_database ::
    "'h l3_env \<Rightarrow> addr \<Rightarrow> 'h fib \<Rightarrow> sai_status \<times> 'h fib" where
  "sai_fib_insert_nh_node_in_nh_id_database e a s =
     (case nh_at s a of
        None \<Rightarrow> (SAI_STATUS_FAILURE, s)
      | Some n \<Rightarrow>
          (let (ok, s) = rbtree_insert_ok e (nh_id_tree s) (nh_next_hop_id n) s
           in if \<not> ok then (SAI_STATUS_FAILURE, s)
              else (SAI_STATUS_SUCCESS,
                    s\<lparr>nh_id_tree := tree_put (nh_next_hop_id n) a (nh_id_tree s)\<rparr>)))"

definition sai_fib_remove_nh_node_from_nh_id_database :: "addr \<Rightarrow> 'h fib \<Rightarrow> sai_status \<times> 'h fib" where
  "sai_fib_remove_nh_node_from_nh_id_database a s =
     (case nh_at s a of
        None \<Rightarrow> (SAI_STATUS_FAILURE, s)
      | Some n \<Rightarrow>
          (let p_tmp_node = tree_get (nh_id_tree s) (nh_next_hop_id n);
               s = s\<lparr>nh_id_tree := tree_del (nh_next_hop_id n) (nh_id_tree s)\<rparr>
           in if p_tmp_node \<noteq> Some a then (SAI_STATUS_FAILURE, s) else (SAI_STATUS_SUCCESS, s)))"

section \<open>The reference a node holds on its router interface\<close>

definition sai_fib_nh_rif_ref_count_incr :: "addr \<Rightarrow> 'h fib \<Rightarrow> 'h fib" where
  "sai_fib_nh_rif_ref_count_incr a s =
     (case nh_at s a of
        None \<Rightarrow> s
      | Some n \<Rightarrow>
          (case rif_at s (nk_rif_id (nh_key n)) of
             None \<Rightarrow> s
           | Some rif \<Rightarrow>
               set_rif (nk_rif_id (nh_key n)) (rif\<lparr>rif_ref_count := rif_ref_count rif + 1\<rparr>) s))"

definition sai_fib_nh_rif_ref_count_decr :: "addr \<Rightarrow> 'h fib \<Rightarrow> 'h fib" where
  "sai_fib_nh_rif_ref_count_decr a s =
     (case nh_at s a of
        None \<Rightarrow> s
      | Some n \<Rightarrow>
          (case rif_at s (nk_rif_id (nh_key n)) of
             None \<Rightarrow> s
           | Some rif \<Rightarrow>
               if rif_ref_count rif > 0
               then set_rif (nk_rif_id (nh_key n)) (rif\<lparr>rif_ref_count := rif_ref_count rif - 1\<rparr>) s
               else s))"

section \<open>Creating and freeing a node\<close>

text \<open>The node, or the status that \<open>*p_status\<close> gets when the result is NULL.\<close>

definition sai_fib_ip_next_hop_node_create ::
    "'h l3_env \<Rightarrow> oid \<Rightarrow> nh_node \<Rightarrow> 'h fib \<Rightarrow> (sai_status + addr) \<times> 'h fib" where
  "sai_fib_ip_next_hop_node_create e i nh_info s =
     (case vrf_at s i of
        None \<Rightarrow> (Inl SAI_STATUS_INVALID_OBJECT_ID, s)
      | Some v \<Rightarrow>
          (let (node, s) = sai_fib_nh_node_alloc e s
           in case node of
                None \<Rightarrow> (Inl SAI_STATUS_NO_MEMORY, s)
              | Some a \<Rightarrow>
                  (let s = set_nh a nh_info s;
                       (status, s) = sai_fib_insert_nh_node_in_vrf_database e i a s
                   in if status \<noteq> SAI_STATUS_SUCCESS then (Inl status, sai_fib_nh_node_free a s)
                      else let s = set_nh a (nh_info\<lparr>nh_group_list := []\<rparr>) s;
                               s = sai_fib_nh_rif_ref_count_incr a s
                           in (Inr a, s))))"

definition sai_fib_check_and_delete_ip_next_hop_node ::
    "oid \<Rightarrow> addr \<Rightarrow> 'h fib \<Rightarrow> sai_status \<times> 'h fib" where
  "sai_fib_check_and_delete_ip_next_hop_node i a s =
     (case nh_at s a of
        None \<Rightarrow> (SAI_STATUS_SUCCESS, s)
      | Some n \<Rightarrow>
          if nh_owner_flag n = 0
          then (case vrf_at s i of
                  None \<Rightarrow> (SAI_STATUS_INVALID_OBJECT_ID, s)
                | Some v \<Rightarrow>
                    (let s = sai_fib_remove_nh_node_from_vrf_database i a s;
                         s = sai_fib_nh_rif_ref_count_decr a s;
                         s = sai_fib_nh_node_free a s
                     in (SAI_STATUS_SUCCESS, s)))
          else (SAI_STATUS_SUCCESS, s))"

section \<open>IP next hops\<close>

definition sai_fib_is_next_hop_used :: "nh_node \<Rightarrow> bool" where
  "sai_fib_is_next_hop_used n \<longleftrightarrow> nh_ref_count n \<noteq> 0"

definition sai_fib_is_next_hop_in_nh_group :: "nh_node \<Rightarrow> bool" where
  "sai_fib_is_next_hop_in_nh_group n \<longleftrightarrow> nh_group_list n \<noteq> []"

text \<open>The part of \<open>sai_fib_ip_next_hop_create\<close> that runs once there is a node.\<close>

definition ip_next_hop_create_npu ::
    "'h l3_env \<Rightarrow> addr \<Rightarrow> 'h fib \<Rightarrow> (sai_status + addr) \<times> 'h fib" where
  "ip_next_hop_create_npu e a s =
     (case nh_at s a of
        None \<Rightarrow> (Inl SAI_STATUS_FAILURE, s)
      | Some n \<Rightarrow>
          (let n = sai_fib_set_next_hop_owner (util e) SAI_FIB_OWNER_NEXT_HOP n;
               s = set_nh a n s;
               ((status, hw_id), s) = hw_call (nexthop_create (nexthop_npu e) n) s
           in if status \<noteq> SAI_STATUS_SUCCESS
              then let s = set_nh a (sai_fib_next_hop_info_reset (util e) n) s;
                       (_, s) = sai_fib_check_and_delete_ip_next_hop_node (nh_vrf_id n) a s
                   in (Inl status, s)
              else (Inr a,
                    set_nh a (n\<lparr>nh_next_hop_id :=
                      sai_uoid_create (util e) SAI_OBJECT_TYPE_NEXT_HOP hw_id\<rparr>) s)))"

definition sai_fib_ip_next_hop_create ::
    "'h l3_env \<Rightarrow> nh_node \<Rightarrow> 'h fib \<Rightarrow> (sai_status + addr) \<times> 'h fib" where
  "sai_fib_ip_next_hop_create e nh_info s =
     (case ip_next_hop_node_get (util e) s (nk_rif_id (nh_key nh_info)) (nk_ip_addr (nh_key nh_info)) of
        Some a \<Rightarrow>
          (case nh_at s a of
             None \<Rightarrow> (Inl SAI_STATUS_FAILURE, s)
           | Some n \<Rightarrow>
               if is_owner (util e) SAI_FIB_OWNER_NEXT_HOP n
               then (Inl SAI_STATUS_ITEM_ALREADY_EXISTS, s)
               else ip_next_hop_create_npu e a s)
      | None \<Rightarrow>
          (let (res, s) = sai_fib_ip_next_hop_node_create e (nh_vrf_id nh_info) nh_info s
           in case res of
                Inl status \<Rightarrow> (Inl status, s)
              | Inr a \<Rightarrow> ip_next_hop_create_npu e a s))"

definition sai_fib_ip_next_hop_remove :: "'h l3_env \<Rightarrow> addr \<Rightarrow> 'h fib \<Rightarrow> sai_status \<times> 'h fib" where
  "sai_fib_ip_next_hop_remove e a s =
     (case nh_at s a of
        None \<Rightarrow> (SAI_STATUS_FAILURE, s)
      | Some n \<Rightarrow>
          if sai_fib_is_next_hop_in_nh_group n then (SAI_STATUS_FAILURE, s)
          else let (status, s) = hw_call (nexthop_remove (nexthop_npu e) n) s
               in if status \<noteq> SAI_STATUS_SUCCESS then (status, s)
                  else let s = set_nh a (sai_fib_next_hop_info_reset (util e) n) s;
                           (_, s) = sai_fib_check_and_delete_ip_next_hop_node (nh_vrf_id n) a s
                       in (SAI_STATUS_SUCCESS, s))"

section \<open>The API\<close>

definition sai_fib_next_hop_create ::
    "'h l3_env \<Rightarrow> nh_attr list \<Rightarrow> 'h fib \<Rightarrow> sai_status \<times> oid option \<times> 'h fib" where
  "sai_fib_next_hop_create e attrs s =
     (let (status, nh_info) = sai_fib_next_hop_info_fill e s attrs True
                                (sai_fib_next_hop_default_attr_set nh_zero)
      in if status \<noteq> SAI_STATUS_SUCCESS then (status, None, s)
         else if nk_type (nh_key nh_info) \<noteq> SAI_NEXT_HOP_IP then (SAI_STATUS_NOT_SUPPORTED, None, s)
         else let (res, s) = sai_fib_ip_next_hop_create e nh_info s
              in case res of
                   Inl status \<Rightarrow> (status, None, s)
                 | Inr a \<Rightarrow>
                     (let (status, s) = sai_fib_insert_nh_node_in_nh_id_database e a s
                      in if status \<noteq> SAI_STATUS_SUCCESS
                         then let (_, s) = sai_fib_ip_next_hop_remove e a s in (status, None, s)
                         else (SAI_STATUS_SUCCESS, map_option nh_next_hop_id (nh_at s a), s)))"

definition sai_fib_next_hop_remove :: "'h l3_env \<Rightarrow> oid \<Rightarrow> 'h fib \<Rightarrow> sai_status \<times> 'h fib" where
  "sai_fib_next_hop_remove e next_hop_id s =
     (if \<not> is_obj_id e SAI_OBJECT_TYPE_NEXT_HOP next_hop_id then (SAI_STATUS_INVALID_OBJECT_TYPE, s)
      else case tree_get (nh_id_tree s) next_hop_id of
        None \<Rightarrow> (SAI_STATUS_INVALID_OBJECT_ID, s)
      | Some a \<Rightarrow>
          (case nh_at s a of
             None \<Rightarrow> (SAI_STATUS_INVALID_OBJECT_ID, s)
           | Some n \<Rightarrow>
               if \<not> is_owner (util e) SAI_FIB_OWNER_NEXT_HOP n then (SAI_STATUS_INVALID_OBJECT_ID, s)
               else if sai_fib_is_next_hop_used n then (SAI_STATUS_OBJECT_IN_USE, s)
               else let (status, s) = sai_fib_remove_nh_node_from_nh_id_database a s
                    in if status \<noteq> SAI_STATUS_SUCCESS then (SAI_STATUS_FAILURE, s)
                       else let (status, s) =
                                  (if nk_type (nh_key n) = SAI_NEXT_HOP_IP
                                   then sai_fib_ip_next_hop_remove e a s
                                   else (SAI_STATUS_NOT_SUPPORTED, s))
                            in if status \<noteq> SAI_STATUS_SUCCESS
                               then let (_, s) = sai_fib_insert_nh_node_in_nh_id_database e a s
                                    in (status, s)
                               else (status, s)))"

definition sai_fib_next_hop_attribute_set :: "oid \<Rightarrow> nh_attr \<Rightarrow> 'h fib \<Rightarrow> sai_status \<times> 'h fib" where
  "sai_fib_next_hop_attribute_set next_hop_id attr s = (SAI_STATUS_NOT_SUPPORTED, s)"

definition sai_fib_next_hop_attribute_get ::
    "'h l3_env \<Rightarrow> oid \<Rightarrow> nat \<Rightarrow> 'h fib \<Rightarrow> (sai_status \<times> nh_attr list) \<times> 'h fib" where
  "sai_fib_next_hop_attribute_get e next_hop_id attr_count s =
     (if \<not> is_obj_id e SAI_OBJECT_TYPE_NEXT_HOP next_hop_id
      then ((SAI_STATUS_INVALID_OBJECT_TYPE, []), s)
      else if attr_count = 0 then ((SAI_STATUS_INVALID_PARAMETER, []), s)
      else case tree_get (nh_id_tree s) next_hop_id of
        None \<Rightarrow> ((SAI_STATUS_INVALID_OBJECT_ID, []), s)
      | Some a \<Rightarrow>
          (case nh_at s a of
             None \<Rightarrow> ((SAI_STATUS_INVALID_OBJECT_ID, []), s)
           | Some n \<Rightarrow>
               if \<not> is_owner (util e) SAI_FIB_OWNER_NEXT_HOP n
               then ((SAI_STATUS_INVALID_OBJECT_ID, []), s)
               else hw_call (nexthop_attribute_get (nexthop_npu e) n attr_count) s))"

section \<open>Nodes\<close>

definition hw_addr_only :: "'h fib \<Rightarrow> 'h fib \<Rightarrow> bool" where
  "hw_addr_only s s' \<longleftrightarrow> (\<exists>h m. next_addr s \<le> m \<and> s' = s\<lparr>hw := h, next_addr := m\<rparr>)"

lemma hw_addr_only_inv: "hw_addr_only s s' \<Longrightarrow> fib_inv u s \<Longrightarrow> fib_inv u s'"
  unfolding hw_addr_only_def using fib_inv_next_addr [of u "s\<lparr>hw := _\<rparr>"] by auto

lemma hw_addr_onlyI: "next_addr s \<le> m \<Longrightarrow> hw_addr_only s (s\<lparr>hw := h, next_addr := m\<rparr>)"
  by (auto simp: hw_addr_only_def)

lemma hw_addr_only_hw:
  assumes "hw_addr_only s s'" "hw_only s' s''"
  shows "hw_addr_only s s''"
proof -
  from assms obtain h m k where m: "next_addr s \<le> m" and s'': "s'' = s\<lparr>hw := h, next_addr := m\<rparr>\<lparr>hw := k\<rparr>"
    by (auto simp: hw_addr_only_def hw_only_def)
  have "s'' = s\<lparr>hw := k, next_addr := m\<rparr>" unfolding s'' by simp
  then show ?thesis using hw_addr_onlyI [OF m] by metis
qed

lemma hw_only_addr: "hw_only s s' \<Longrightarrow> hw_addr_only s s'"
  by (auto simp: hw_only_def hw_addr_only_def intro!: exI [where x = "next_addr s"])

lemma hw_addr_only_sel:
  assumes "hw_addr_only s s'"
  shows "vrf_tree s' = vrf_tree s" "router_interface_tree s' = router_interface_tree s"
    "nh_id_tree s' = nh_id_tree s" "nh_group_tree s' = nh_group_tree s"
    "neighbor_mac_tree s' = neighbor_mac_tree s" "nh_heap s' = nh_heap s" "grp_heap s' = grp_heap s"
    "max_ecmp_paths s' = max_ecmp_paths s" "num_virtual_routers s' = num_virtual_routers s"
  using assms by (auto simp: hw_addr_only_def)

text \<open>The state with one more node, and with one less.\<close>

definition node_added :: "addr \<Rightarrow> nh_node \<Rightarrow> vrf_node \<Rightarrow> rif_node \<Rightarrow> 'h fib \<Rightarrow> 'h fib" where
  "node_added a n v rif s =
     set_rif (nk_rif_id (nh_key n)) (rif\<lparr>rif_ref_count := rif_ref_count rif + 1\<rparr>)
       (set_vrf (nh_vrf_id n) (v\<lparr>vrf_nh_tree := tree_put (nh_key n) a (vrf_nh_tree v)\<rparr>)
         (set_nh a n s))"

definition node_freed :: "addr \<Rightarrow> nh_node \<Rightarrow> vrf_node \<Rightarrow> rif_node \<Rightarrow> 'h fib \<Rightarrow> 'h fib" where
  "node_freed a n v rif s =
     sai_fib_nh_node_free a
       (set_rif (nk_rif_id (nh_key n)) (rif\<lparr>rif_ref_count := rif_ref_count rif - 1\<rparr>)
         (set_vrf (nh_vrf_id n) (v\<lparr>vrf_nh_tree := tree_del (nh_key n) (vrf_nh_tree v)\<rparr>) s))"

definition nh_info_ok :: "l3_util \<Rightarrow> 'h fib \<Rightarrow> nh_node \<Rightarrow> bool" where
  "nh_info_ok u s n \<longleftrightarrow>
     nk_type (nh_key n) = SAI_NEXT_HOP_IP \<and> owner_bits_ok u n \<and> nh_ref_count n = 0 \<and>
     (\<exists>rif. rif_at s (nk_rif_id (nh_key n)) = Some rif \<and> rif_vrf_id rif = nh_vrf_id n)"

lemma node_create_result:
  assumes inv: "fib_inv u s" and i: "vrf_at s (nh_vrf_id n) = Some v"
    and r: "rif_at s (nk_rif_id (nh_key n)) = Some rif"
    and call: "sai_fib_ip_next_hop_node_create e (nh_vrf_id n) n s = (res, s')"
  shows "(\<exists>st. res = Inl st \<and> st \<noteq> SAI_STATUS_SUCCESS \<and> hw_addr_only s s') \<or>
    res = Inr (next_addr s) \<and> tree_get (vrf_nh_tree v) (nh_key n) = None \<and>
    (\<exists>h. s' = node_added (next_addr s) (n\<lparr>nh_group_list := []\<rparr>) v rif
               (s\<lparr>hw := h, next_addr := next_addr s + 1\<rparr>))"
proof -
  let ?a = "next_addr s"
  have fresh: "nh_at s ?a = None" by (rule fresh_addr(1) [OF fib_invD(1) [OF inv]])
  obtain ok t where t: "hw_call (calloc_ok (plat e)) s = (ok, t)" by force
  then obtain h where h: "t = s\<lparr>hw := h\<rparr>" by (auto dest: hw_call_eqD)
  show ?thesis
  proof (cases ok)
    case False
    then have "res = Inl SAI_STATUS_NO_MEMORY" "s' = t"
      using call i t by (auto simp: sai_fib_ip_next_hop_node_create_def sai_fib_nh_node_alloc_def)
    then show ?thesis using h hw_only_addr [of s t] by auto
  next
    case True
    let ?t = "set_nh ?a n (s\<lparr>hw := h, next_addr := ?a + 1\<rparr>)"
    obtain ok2 t2 where t2: "radix_insert_ok e (vrf_nh_tree v) (nh_key n) ?t = (ok2, t2)" by force
    then obtain h2 where h2: "t2 = ?t\<lparr>hw := h2\<rparr>" and none: "ok2 \<Longrightarrow> tree_get (vrf_nh_tree v) (nh_key n) = None"
      by (auto simp: radix_insert_ok_def split: prod.splits dest!: hw_call_eqD)
    show ?thesis
    proof (cases ok2)
      case False
      then have "res = Inl SAI_STATUS_FAILURE" "s' = sai_fib_nh_node_free ?a t2"
        using call i t h True t2 by (auto simp: sai_fib_ip_next_hop_node_create_def
            sai_fib_nh_node_alloc_def sai_fib_insert_nh_node_in_vrf_database_def set_defs)
      moreover have "sai_fib_nh_node_free ?a t2 = s\<lparr>hw := h2, next_addr := ?a + 1\<rparr>"
        using fresh by (simp add: h2 sai_fib_nh_node_free_def set_nh_def tree_del_absent)
      ultimately show ?thesis using hw_addr_onlyI [of s "?a + 1" h2] by simp
    next
      case ok2: True
      have "res = Inr ?a" "s' = node_added ?a (n\<lparr>nh_group_list := []\<rparr>) v rif
          (s\<lparr>hw := h2, next_addr := ?a + 1\<rparr>)"
        using call i r t h True t2 ok2 by (auto simp: sai_fib_ip_next_hop_node_create_def node_added_def
            sai_fib_nh_node_alloc_def sai_fib_insert_nh_node_in_vrf_database_def h2
            sai_fib_nh_rif_ref_count_incr_def set_defs)
      then show ?thesis using none ok2 by blast
    qed
  qed
qed

lemma node_added_inv:
  assumes inv: "fib_inv u s" and a: "nh_at s a = None" "a < next_addr s"
    and i: "vrf_at s (nh_vrf_id n) = Some v" and k: "tree_get (vrf_nh_tree v) (nh_key n) = None"
    and n: "nh_info_ok u s n" "nh_group_list n = []"
    and r: "rif_at s (nk_rif_id (nh_key n)) = Some rif"
  shows "fib_inv u (node_added a n v rif s)"
  unfolding node_added_def using n r
  by (intro inv_new_nh [OF inv a i k r]) (auto simp: nh_info_ok_def)

lemma node_freed_inv:
  assumes "util_ok u" "fib_inv u s" "nh_at s a = Some n" "nh_owner_flag n = 0"
    and "vrf_at s (nh_vrf_id n) = Some v" "rif_at s (nk_rif_id (nh_key n)) = Some rif"
  shows "fib_inv u (node_freed a n v rif s)"
  unfolding node_freed_def using assms by (rule inv_del_nh)

lemma check_and_delete_result:
  assumes inv: "fib_inv u s" and len: "length (nh_heap s) < 2 ^ 32" and a: "nh_at s a = Some n"
  obtains v rif where "vrf_at s (nh_vrf_id n) = Some v" "rif_at s (nk_rif_id (nh_key n)) = Some rif"
    "sai_fib_check_and_delete_ip_next_hop_node (nh_vrf_id n) a s =
     (SAI_STATUS_SUCCESS, if nh_owner_flag n = 0 then node_freed a n v rif s else s)"
proof -
  obtain v rif where v: "vrf_at s (nh_vrf_id n) = Some v" "rif_at s (nk_rif_id (nh_key n)) = Some rif"
    by (rule nh_okD [OF fib_invD(4) [OF inv] a])
  obtain w where "rif_ref_count rif = of_nat (rif_refs s (nk_rif_id (nh_key n)))"
    by (rule rif_okD [OF fib_invD(3) [OF inv] v(2)])
  then have "rif_ref_count rif > 0" using rif_refs_word_pos [OF len a] by simp
  then show thesis
    using that [OF v] v a by (simp add: sai_fib_check_and_delete_ip_next_hop_node_def node_freed_def
        sai_fib_remove_nh_node_from_vrf_database_def sai_fib_nh_rif_ref_count_decr_def)
qed

text \<open>
  After the last owner of a node is gone the node is, and its reference on the interface with it;
  otherwise nothing changes.
\<close>

lemma check_and_delete_inv:
  assumes u: "util_ok u" and inv: "fib_inv u s" and len: "length (nh_heap s) < 2 ^ 32"
    and a: "nh_at s a = Some n"
  shows "fib_inv u (snd (sai_fib_check_and_delete_ip_next_hop_node (nh_vrf_id n) a s))"
proof -
  obtain v rif where v: "vrf_at s (nh_vrf_id n) = Some v" "rif_at s (nk_rif_id (nh_key n)) = Some rif"
    "sai_fib_check_and_delete_ip_next_hop_node (nh_vrf_id n) a s =
     (SAI_STATUS_SUCCESS, if nh_owner_flag n = 0 then node_freed a n v rif s else s)"
    by (rule check_and_delete_result [OF inv len a])
  then show ?thesis using inv node_freed_inv [OF u inv a _ v(1,2)] by simp
qed

section \<open>What a next hop operation leaves alone\<close>

text \<open>
  Trees of groups, MAC addresses and the routes stay; every other node stays; the nodes of a virtual
  router and the reference counts of interfaces follow the nodes.
\<close>

definition nh_frame :: "addr \<Rightarrow> 'h fib \<Rightarrow> 'h fib \<Rightarrow> bool" where
  "nh_frame a s s' \<longleftrightarrow>
     nh_group_tree s' = nh_group_tree s \<and> neighbor_mac_tree s' = neighbor_mac_tree s \<and>
     grp_heap s' = grp_heap s \<and> max_ecmp_paths s' = max_ecmp_paths s \<and>
     num_virtual_routers s' = num_virtual_routers s \<and>
     (\<forall>b. b \<noteq> a \<longrightarrow> nh_at s' b = nh_at s b) \<and>
     (\<forall>i. map_option (vrf_nh_tree_update (\<lambda>_. [])) (vrf_at s' i) =
          map_option (vrf_nh_tree_update (\<lambda>_. [])) (vrf_at s i)) \<and>
     (\<forall>r. map_option (rif_ref_count_update (\<lambda>_. 0)) (rif_at s' r) =
          map_option (rif_ref_count_update (\<lambda>_. 0)) (rif_at s r))"

lemma nh_frame_refl [simp]: "nh_frame a s s"
  by (simp add: nh_frame_def)

lemma nh_frame_trans: "nh_frame a s s' \<Longrightarrow> nh_frame a s' s'' \<Longrightarrow> nh_frame a s s''"
  by (simp add: nh_frame_def)

lemma nh_frame_hw_addr: "hw_addr_only s s' \<Longrightarrow> nh_frame a s s'"
  by (simp add: nh_frame_def hw_addr_only_sel)

lemma nh_frame_set_nh: "nh_frame a s (set_nh a n s)"
  by (simp add: nh_frame_def)

lemma nh_frame_id_tree: "nh_frame a s (s\<lparr>nh_id_tree := t\<rparr>)"
  by (simp add: nh_frame_def)

lemma nh_frame_added:
  "vrf_at s (nh_vrf_id n) = Some v \<Longrightarrow> rif_at s (nk_rif_id (nh_key n)) = Some rif \<Longrightarrow>
   nh_frame a s (node_added a n v rif s)"
  by (simp add: nh_frame_def node_added_def)

lemma nh_frame_freed:
  "vrf_at s (nh_vrf_id n) = Some v \<Longrightarrow> rif_at s (nk_rif_id (nh_key n)) = Some rif \<Longrightarrow>
   nh_frame a s (node_freed a n v rif s)"
  by (simp add: nh_frame_def node_freed_def sai_fib_nh_node_free_def)

lemma nh_owned_frame:
  assumes "nh_owned s" "nh_frame a s s'" "\<And>n. nh_at s' a = Some n \<Longrightarrow> nh_owner_flag n \<noteq> 0"
  shows "nh_owned s'"
  unfolding nh_owned_def
proof (intro allI impI)
  fix b n assume b: "nh_at s' b = Some n"
  show "nh_owner_flag n \<noteq> 0"
  proof (cases "b = a")
    case True
    with b assms(3) show ?thesis by simp
  next
    case False
    with b assms(2) have "nh_at s b = Some n" by (simp add: nh_frame_def)
    with assms(1) show ?thesis unfolding nh_owned_def by blast
  qed
qed

section \<open>Filling in the attributes\<close>

definition info_shape :: "'h fib \<Rightarrow> bool \<times> bool \<times> bool \<Rightarrow> nh_node \<Rightarrow> bool" where
  "info_shape s fl n \<longleftrightarrow>
     nh_owner_flag n = 0 \<and> nh_ref_count n = 0 \<and> nh_group_list n = [] \<and>
     (fst fl \<longrightarrow> nk_type (nh_key n) = SAI_NEXT_HOP_IP) \<and>
     (snd (snd fl) \<longrightarrow> (\<exists>rif v. rif_at s (nk_rif_id (nh_key n)) = Some rif \<and>
        rif_vrf_id rif = nh_vrf_id n \<and> vrf_at s (nh_vrf_id n) = Some v))"

lemma nh_attr_set_shape:
  assumes u: "util_ok (util e)" and inv: "fib_inv (util e) s" and sh: "info_shape s fl n"
    and call: "nh_attr_set e s attr True fl n = (SAI_STATUS_SUCCESS, fl', n')"
  shows "info_shape s fl' n'"
proof (cases attr)
  case (SAI_NEXT_HOP_ATTR_ROUTER_INTERFACE_ID r)
  then obtain ty ip rs where fl: "fl = (ty, ip, rs)" "fl' = (ty, ip, True)"
    and set: "sai_fib_next_hop_rif_set e s r True n = (SAI_STATUS_SUCCESS, n')"
    using call by (cases fl) (auto simp: nh_attr_set_def split: prod.splits)
  from set obtain rif v where v: "rif_at s r = Some rif" "vrf_at s (rif_vrf_id rif) = Some v"
    "n' = n\<lparr>nh_key := (nh_key n)\<lparr>nk_rif_id := r\<rparr>, nh_vrf_id := vrf_id v\<rparr>"
    by (auto simp: sai_fib_next_hop_rif_set_def vrf_for_rif_eq [OF u] split: if_splits option.splits)
  moreover have "vrf_id v = rif_vrf_id rif"
    using fib_invD(2) [OF inv] v(2) by (simp add: vrf_ok_def)
  ultimately show ?thesis using sh fl by (simp add: info_shape_def)
next
  case (SAI_NEXT_HOP_ATTR_TYPE ty)
  then show ?thesis using call sh
    by (cases fl) (auto simp: nh_attr_set_def info_shape_def sai_fib_next_hop_type_set_def
        sai_fib_next_hop_type_validate_def split: if_splits sai_next_hop_type.splits)
next
  case (SAI_NEXT_HOP_ATTR_IP ip)
  then show ?thesis using call sh
    by (cases fl) (auto simp: nh_attr_set_def info_shape_def sai_fib_next_hop_ip_addr_set_def Let_def
        split: if_splits prod.splits)
qed (use call in \<open>cases fl; simp add: nh_attr_set_def\<close>)

lemma nh_info_fill_loop_shape:
  assumes u: "util_ok (util e)" and inv: "fib_inv (util e) s"
  shows "info_shape s fl n \<Longrightarrow> nh_info_fill_loop e s attrs i True fl n = (SAI_STATUS_SUCCESS, fl', n') \<Longrightarrow>
    info_shape s fl' n'"
proof (induction attrs arbitrary: i fl n)
  case (Cons attr attrs)
  obtain st fl1 n1 where one: "nh_attr_set e s attr True fl n = (st, fl1, n1)" by (metis prod_cases3)
  with Cons.prems(2) u have st: "st = SAI_STATUS_SUCCESS"
    "nh_info_fill_loop e s attrs (i + 1) True fl1 n1 = (SAI_STATUS_SUCCESS, fl', n')"
    by (auto split: if_splits)
  from nh_attr_set_shape [OF u inv Cons.prems(1)] one st(1) have "info_shape s fl1 n1" by simp
  from Cons.IH [OF this st(2)] show ?case .
qed simp

lemma nh_info_fill_ok:
  assumes u: "util_ok (util e)" and inv: "fib_inv (util e) s"
    and call: "sai_fib_next_hop_info_fill e s attrs True (sai_fib_next_hop_default_attr_set nh_zero)
      = (SAI_STATUS_SUCCESS, n)"
  shows "nh_info_ok (util e) s n \<and> nh_owner_flag n = 0 \<and> nh_group_list n = [] \<and>
    (\<exists>v. vrf_at s (nh_vrf_id n) = Some v)"
proof -
  obtain st ty ip rs n1 where loop: "nh_info_fill_loop e s attrs 0 True (False, False, False)
      (sai_fib_next_hop_default_attr_set nh_zero) = (st, (ty, ip, rs), n1)" by (metis prod_cases3)
  with call have st: "st = SAI_STATUS_SUCCESS" "n1 = n" "ty" "rs"
    by (auto simp: sai_fib_next_hop_info_fill_def split: if_splits)
  have "info_shape s (False, False, False) (sai_fib_next_hop_default_attr_set nh_zero)"
    by (simp add: info_shape_def nh_zero_def sai_fib_next_hop_default_attr_set_def)
  from nh_info_fill_loop_shape [OF u inv this loop [unfolded st]] st(3,4) show ?thesis
    by (auto simp: info_shape_def nh_info_ok_def owner_bits_ok_def)
qed

section \<open>Creating an IP next hop\<close>

lemma info_reset_set_owner:
  assumes "util_ok u" "\<not> is_owner u SAI_FIB_OWNER_NEXT_HOP n"
  shows "sai_fib_next_hop_info_reset u (sai_fib_set_next_hop_owner u SAI_FIB_OWNER_NEXT_HOP n)
    = n\<lparr>nh_next_hop_id := 0\<rparr>"
proof -
  let ?k = "owner_bit u SAI_FIB_OWNER_NEXT_HOP"
  have "(nh_owner_flag n OR push_bit ?k 1) AND NOT (push_bit ?k 1) = nh_owner_flag n"
    using assms by (intro bit_word_eqI) (auto simp: bit_or_iff bit_and_iff bit_not_iff is_owner_bit)
  then show ?thesis
    by (simp add: sai_fib_next_hop_info_reset_def sai_fib_set_next_hop_owner_def
        sai_fib_reset_next_hop_owner_def)
qed

lemma owned_node_unlinked:
  assumes "fib_inv u s" "nh_at s a = Some n" "\<not> is_owner u SAI_FIB_OWNER_NEXT_HOP n"
  shows "route_refs s (RouteNh a) = 0 \<and> nh_group_list n = [] \<and> (\<forall>i. tree_get (nh_id_tree s) i \<noteq> Some a)"
  using no_links_if_not_owner [OF assms] by blast

lemma mac_owner:
  assumes "fib_inv u s" "nh_at s a = Some n"
    "tree_get (neighbor_mac_tree s) k = Some L" "a \<in> set L"
  shows "is_owner u SAI_FIB_OWNER_NEIGHBOR n"
  using mac_okD [OF fib_invD(11) [OF assms(1)] assms(3)] assms(2,4) by (auto simp: mac_member_ok_def)

lemma nh_owner_bits: "fib_inv u s \<Longrightarrow> nh_at s a = Some n \<Longrightarrow> owner_bits_ok u n"
  by (auto simp: fib_inv_def nh_ok_def)

lemma inv_node_id:
  assumes u: "util_ok u" and inv: "fib_inv u s" and a: "nh_at s a = Some n"
    and no: "\<not> is_owner u SAI_FIB_OWNER_NEXT_HOP n"
  shows "fib_inv u (set_nh a (n\<lparr>nh_next_hop_id := i\<rparr>) s)"
    "fib_inv u (set_nh a ((sai_fib_set_next_hop_owner u SAI_FIB_OWNER_NEXT_HOP n)\<lparr>nh_next_hop_id := i\<rparr>) s)"
  using owned_node_unlinked [OF inv a no] mac_owner [OF inv a] u nh_owner_bits [OF inv a]
  by (auto intro!: inv_set_nh [OF inv a] simp: nh_update_ok_def)

lemma create_npu_result':
  assumes u: "util_ok (util e)" and inv: "fib_inv (util e) s" and len: "length (nh_heap s) < 2 ^ 32"
    and a: "nh_at s a = Some n" and no: "\<not> is_owner (util e) SAI_FIB_OWNER_NEXT_HOP n"
    and call: "ip_next_hop_create_npu e a s = (res, s')"
  defines "n0 \<equiv> n\<lparr>nh_next_hop_id := 0\<rparr>"
  shows "(\<exists>st v rif h. res = Inl st \<and> st \<noteq> SAI_STATUS_SUCCESS \<and>
      vrf_at s (nh_vrf_id n) = Some v \<and> rif_at s (nk_rif_id (nh_key n)) = Some rif \<and>
      s' = (if nh_owner_flag n = 0 then node_freed a n0 v rif (set_nh a n0 s) else set_nh a n0 s)\<lparr>hw := h\<rparr>) \<or>
    (\<exists>i h. res = Inr a \<and> s' = (set_nh a ((sai_fib_set_next_hop_owner (util e) SAI_FIB_OWNER_NEXT_HOP n)
        \<lparr>nh_next_hop_id := i\<rparr>) s)\<lparr>hw := h\<rparr>)"
proof -
  let ?n = "sai_fib_set_next_hop_owner (util e) SAI_FIB_OWNER_NEXT_HOP n"
  obtain st hid t where t: "hw_call (nexthop_create (nexthop_npu e) ?n) (set_nh a ?n s) = ((st, hid), t)"
    by (metis prod.exhaust)
  then obtain h where h: "t = (set_nh a ?n s)\<lparr>hw := h\<rparr>" by (auto dest: hw_call_eqD)
  show ?thesis
  proof (cases "st = SAI_STATUS_SUCCESS")
    case True
    then show ?thesis using call a t h by (auto simp: ip_next_hop_create_npu_def)
  next
    case False
    let ?s0 = "(set_nh a n0 s)\<lparr>hw := h\<rparr>"
    have n0: "nh_at ?s0 a = Some n0" "nh_vrf_id n0 = nh_vrf_id n" "nh_key n0 = nh_key n"
      "nh_owner_flag n0 = nh_owner_flag n" by (simp_all add: n0_def)
    have "fib_inv (util e) ?s0" using inv_node_id(1) [OF u inv a no] by (simp add: n0_def)
    moreover have "length (nh_heap ?s0) < 2 ^ 32" using len a by (simp add: length_put)
    ultimately obtain v rif where v: "vrf_at ?s0 (nh_vrf_id n0) = Some v"
      "rif_at ?s0 (nk_rif_id (nh_key n0)) = Some rif"
      "sai_fib_check_and_delete_ip_next_hop_node (nh_vrf_id n0) a ?s0 =
       (SAI_STATUS_SUCCESS, if nh_owner_flag n0 = 0 then node_freed a n0 v rif ?s0 else ?s0)"
      using n0(1) by (rule check_and_delete_result)
    have "node_freed a n0 v rif ?s0 = (node_freed a n0 v rif (set_nh a n0 s))\<lparr>hw := h\<rparr>"
      by (simp add: node_freed_def sai_fib_nh_node_free_def set_defs)
    then show ?thesis
      using call a t h False v info_reset_set_owner [OF u no]
      by (auto simp: ip_next_hop_create_npu_def n0(2-4) n0_def [symmetric])
  qed
qed

lemma added_freed:
  assumes "nh_at s a = None" "vrf_at s (nh_vrf_id n) = Some v"
    "tree_get (vrf_nh_tree v) (nh_key n) = None" "rif_at s (nk_rif_id (nh_key n)) = Some rif"
    and m: "nh_key m = nh_key n" "nh_vrf_id m = nh_vrf_id n"
    and v': "vrf_at (node_added a n v rif s) (nh_vrf_id n) = Some v'"
      "rif_at (node_added a n v rif s) (nk_rif_id (nh_key n)) = Some rif'"
  shows "node_freed a m v' rif' (set_nh a m (node_added a n v rif s)) = s"
proof -
  have "v' = v\<lparr>vrf_nh_tree := tree_put (nh_key n) a (vrf_nh_tree v)\<rparr>"
    "rif' = rif\<lparr>rif_ref_count := rif_ref_count rif + 1\<rparr>"
    using v' by (auto simp: node_added_def)
  then show ?thesis
    using assms(1-6)
    by (simp add: node_freed_def node_added_def sai_fib_nh_node_free_def set_defs tree_del_absent tree_put_same)
qed

definition nh_created :: "l3_util \<Rightarrow> nh_key \<Rightarrow> addr \<Rightarrow> 'h fib \<Rightarrow> 'h fib \<Rightarrow> bool" where
  "nh_created u k a s s' \<longleftrightarrow>
     nh_frame a s s' \<and> nh_id_tree s' = nh_id_tree s \<and> (\<forall>i. tree_get (nh_id_tree s) i \<noteq> Some a) \<and>
     route_refs s' (RouteNh a) = 0 \<and> length (nh_heap s') \<le> length (nh_heap s) + 1 \<and>
     (\<exists>n. nh_at s' a = Some n \<and> nh_key n = k \<and> is_owner u SAI_FIB_OWNER_NEXT_HOP n \<and>
        nh_group_list n = [])"

lemma route_refs_nh_id [simp]: "route_refs (node_added a n v rif s) t = route_refs (set_vrf (nh_vrf_id n)
    (v\<lparr>vrf_nh_tree := tree_put (nh_key n) a (vrf_nh_tree v)\<rparr>) s) t"
  by (simp add: node_added_def route_refs_def)

text \<open>The node existed as a neighbor.\<close>

lemma ip_create_existing:
  assumes u: "util_ok (util e)" and inv: "fib_inv (util e) s" and own: "nh_owned s"
    and len: "length (nh_heap s) < 2 ^ 32"
    and a: "nh_at s a = Some n" and no: "\<not> is_owner (util e) SAI_FIB_OWNER_NEXT_HOP n"
    and call: "ip_next_hop_create_npu e a s = (res, s')"
  shows "fib_inv (util e) s' \<and>
    (case res of
       Inl st \<Rightarrow> st \<noteq> SAI_STATUS_SUCCESS \<and> (\<exists>h. s' = (set_nh a (n\<lparr>nh_next_hop_id := 0\<rparr>) s)\<lparr>hw := h\<rparr>)
     | Inr b \<Rightarrow> b = a \<and> nh_created (util e) (nh_key n) a s s')"
proof -
  have fl: "nh_owner_flag n \<noteq> 0" using own a by (auto simp: nh_owned_def)
  note unl = owned_node_unlinked [OF inv a no]
  from create_npu_result' [OF u inv len a no call] fl consider
      (bad) st h where "res = Inl st" "st \<noteq> SAI_STATUS_SUCCESS"
        "s' = (set_nh a (n\<lparr>nh_next_hop_id := 0\<rparr>) s)\<lparr>hw := h\<rparr>"
    | (ok) i h where "res = Inr a" "s' = (set_nh a ((sai_fib_set_next_hop_owner (util e)
        SAI_FIB_OWNER_NEXT_HOP n)\<lparr>nh_next_hop_id := i\<rparr>) s)\<lparr>hw := h\<rparr>" by auto
  then show ?thesis
  proof cases
    case bad
    then show ?thesis using inv_node_id(1) [OF u inv a no] by auto
  next
    case ok
    have "nh_frame a s s'" using nh_frame_set_nh by (simp add: ok nh_frame_def)
    then show ?thesis
      using ok inv_node_id(2) [OF u inv a no] unl a u
      by (simp add: nh_created_def length_put route_refs_def)
  qed
qed

text \<open>A new node: a failed creation gives the state back.\<close>

lemma ip_create_new:
  assumes u: "util_ok (util e)" and inv: "fib_inv (util e) s"
    and len: "length (nh_heap s) + 1 < 2 ^ 32"
    and n: "nh_info_ok (util e) s n" "nh_owner_flag n = 0" "nh_group_list n = []"
    and v: "vrf_at s (nh_vrf_id n) = Some v" and r: "rif_at s (nk_rif_id (nh_key n)) = Some rif"
    and a: "nh_at s a = None" "a < next_addr s" and k: "tree_get (vrf_nh_tree v) (nh_key n) = None"
    and call: "ip_next_hop_create_npu e a (node_added a n v rif s) = (res, s')"
  shows "fib_inv (util e) s' \<and>
    (case res of
       Inl st \<Rightarrow> st \<noteq> SAI_STATUS_SUCCESS \<and> hw_only s s'
     | Inr b \<Rightarrow> b = a \<and> nh_created (util e) (nh_key n) a s s')"
proof -
  let ?s = "node_added a n v rif s"
  have inv1: "fib_inv (util e) ?s" by (rule node_added_inv [OF inv a v k n(1,3) r])
  have at: "nh_at ?s a = Some n" by (simp add: node_added_def)
  have len1: "length (nh_heap ?s) < 2 ^ 32" "length (nh_heap ?s) = length (nh_heap s) + 1"
    using len a by (simp_all add: node_added_def length_put_new)
  have no: "\<not> is_owner (util e) SAI_FIB_OWNER_NEXT_HOP n" using n(2) u by (simp add: is_owner_bit)
  note unl = owned_node_unlinked [OF inv1 at no]
  from create_npu_result' [OF u inv1 len1(1) at no call] n(2) consider
      (bad) st v' rif' h where "res = Inl st" "st \<noteq> SAI_STATUS_SUCCESS"
        "vrf_at ?s (nh_vrf_id n) = Some v'" "rif_at ?s (nk_rif_id (nh_key n)) = Some rif'"
        "s' = (node_freed a (n\<lparr>nh_next_hop_id := 0\<rparr>) v' rif' (set_nh a (n\<lparr>nh_next_hop_id := 0\<rparr>) ?s))\<lparr>hw := h\<rparr>"
    | (ok) i h where "res = Inr a" "s' = (set_nh a ((sai_fib_set_next_hop_owner (util e)
        SAI_FIB_OWNER_NEXT_HOP n)\<lparr>nh_next_hop_id := i\<rparr>) ?s)\<lparr>hw := h\<rparr>" by auto
  then show ?thesis
  proof cases
    case bad
    have "s' = s\<lparr>hw := h\<rparr>"
      unfolding bad(5) by (subst added_freed [OF a(1) v k r _ _ bad(3,4)]) simp_all
    then show ?thesis using bad inv by simp
  next
    case ok
    have "nh_frame a s ?s" by (rule nh_frame_added [OF v r])
    then have fr: "nh_frame a s s'" by (simp add: ok nh_frame_def)
    have "nh_id_tree ?s = nh_id_tree s" by (simp add: node_added_def)
    then show ?thesis
      using ok fr inv_node_id(2) [OF u inv1 at no] unl at u len1(2)
      by (simp add: nh_created_def length_put route_refs_def del: route_refs_nh_id)
  qed
qed

lemma lookup_node:
  assumes u: "util_ok u" and inv: "fib_inv u s" and a: "ip_next_hop_node_get u s r ip = Some a"
  obtains n where "nh_at s a = Some n" "nh_key n = \<lparr>nk_type = SAI_NEXT_HOP_IP, nk_rif_id = r, nk_ip_addr = ip\<rparr>"
proof -
  from a obtain rif v where "rif_at s r = Some rif" "vrf_at s (rif_vrf_id rif) = Some v"
    "tree_get (vrf_nh_tree v) \<lparr>nk_type = SAI_NEXT_HOP_IP, nk_rif_id = r, nk_ip_addr = ip\<rparr> = Some a"
    by (auto simp: ip_next_hop_node_get_eq [OF u] vrf_for_rif_eq [OF u] split: option.splits)
  with nh_tree_okD [OF fib_invD(5) [OF inv]] that show thesis by blast
qed

lemma ip_create_result:
  assumes u: "util_ok (util e)" and inv: "fib_inv (util e) s" and own: "nh_owned s"
    and len: "length (nh_heap s) + 1 < 2 ^ 32"
    and n: "nh_info_ok (util e) s n" "nh_owner_flag n = 0" "nh_group_list n = []"
    and v: "vrf_at s (nh_vrf_id n) = Some v"
    and call: "sai_fib_ip_next_hop_create e n s = (res, s')"
  shows "fib_inv (util e) s' \<and>
    (case res of
       Inl st \<Rightarrow> st \<noteq> SAI_STATUS_SUCCESS \<and>
         (hw_addr_only s s' \<or>
          (\<exists>a m h. nh_at s a = Some m \<and> \<not> is_owner (util e) SAI_FIB_OWNER_NEXT_HOP m \<and>
             s' = (set_nh a (m\<lparr>nh_next_hop_id := 0\<rparr>) s)\<lparr>hw := h\<rparr>))
     | Inr a \<Rightarrow> nh_created (util e) (nh_key n) a s s')"
proof -
  have ty: "nk_type (nh_key n) = SAI_NEXT_HOP_IP" using n(1) by (simp add: nh_info_ok_def)
  from n(1) obtain rif where r: "rif_at s (nk_rif_id (nh_key n)) = Some rif" "rif_vrf_id rif = nh_vrf_id n"
    by (auto simp: nh_info_ok_def)
  note look = lookup_node [OF u inv]
  have nn: "n\<lparr>nh_group_list := []\<rparr> = n" using n(3) by (cases n) simp
  show ?thesis
  proof (cases "ip_next_hop_node_get (util e) s (nk_rif_id (nh_key n)) (nk_ip_addr (nh_key n))")
    case (Some a)
    from look [OF Some] obtain m where m: "nh_at s a = Some m" "nh_key m = nh_key n"
      using ty by (metis nh_key.surjective old.unit.exhaust)
    show ?thesis
    proof (cases "is_owner (util e) SAI_FIB_OWNER_NEXT_HOP m")
      case True
      then show ?thesis using call Some m inv hw_only_addr [of s s]
        by (auto simp: sai_fib_ip_next_hop_create_def)
    next
      case False
      then have "ip_next_hop_create_npu e a s = (res, s')"
        using call Some m by (auto simp: sai_fib_ip_next_hop_create_def)
      from ip_create_existing [OF u inv own _ m(1) False this] len show ?thesis
        using m False by (auto split: sum.splits)
    qed
  next
    case None
    obtain res1 t where t: "sai_fib_ip_next_hop_node_create e (nh_vrf_id n) n s = (res1, t)" by force
    from node_create_result [OF inv v r(1) t] show ?thesis
    proof (elim disjE exE conjE)
      fix st assume "res1 = Inl st" "st \<noteq> SAI_STATUS_SUCCESS" "hw_addr_only s t"
      then show ?thesis using call None t hw_addr_only_inv [OF _ inv]
        by (auto simp: sai_fib_ip_next_hop_create_def)
    next
      fix h assume res1: "res1 = Inr (next_addr s)" and k: "tree_get (vrf_nh_tree v) (nh_key n) = None"
        and t': "t = node_added (next_addr s) (n\<lparr>nh_group_list := []\<rparr>) v rif
          (s\<lparr>hw := h, next_addr := next_addr s + 1\<rparr>)"
      let ?s = "s\<lparr>hw := h, next_addr := next_addr s + 1\<rparr>"
      have hs: "hw_addr_only s ?s" by (rule hw_addr_onlyI) simp
      have "ip_next_hop_create_npu e (next_addr s) (node_added (next_addr s) n v rif ?s) = (res, s')"
        using call None t res1 t' nn by (auto simp: sai_fib_ip_next_hop_create_def)
      from ip_create_new [OF u hw_addr_only_inv [OF hs inv] _ _ n(2,3) _ _ _ _ k this]
      have *: "fib_inv (util e) s' \<and> (case res of
          Inl st \<Rightarrow> st \<noteq> SAI_STATUS_SUCCESS \<and> hw_only ?s s'
        | Inr b \<Rightarrow> b = next_addr s \<and> nh_created (util e) (nh_key n) (next_addr s) ?s s')"
        using len n(1) v r fresh_addr(1) [OF fib_invD(1) [OF inv]] by (simp add: nh_info_ok_def)
      have "hw_only ?s s' \<Longrightarrow> hw_addr_only s s'" using hw_addr_only_hw [OF hs] by blast
      moreover have "nh_created u k a ?s s' \<Longrightarrow> nh_created u k a s s'" for u k a
        by (simp add: nh_created_def nh_frame_def)
      ultimately show ?thesis using * by (auto split: sum.splits)
    qed
  qed
qed

section \<open>Removing an IP next hop\<close>

lemma owner_flag_reset:
  "nh_owner_flag (sai_fib_next_hop_info_reset u n)
     = nh_owner_flag (sai_fib_reset_next_hop_owner u SAI_FIB_OWNER_NEXT_HOP n)"
  by (simp add: sai_fib_next_hop_info_reset_def)

lemma inv_info_reset:
  assumes u: "util_ok u" and inv: "fib_inv u s" and a: "nh_at s a = Some n"
    and free: "route_refs s (RouteNh a) = 0" "nh_group_list n = []" "\<And>i. tree_get (nh_id_tree s) i \<noteq> Some a"
  shows "fib_inv u (set_nh a (sai_fib_next_hop_info_reset u n) s)"
  using free mac_owner [OF inv a] u nh_owner_bits [OF inv a]
  by (auto intro!: inv_set_nh [OF inv a] simp: nh_update_ok_def sai_fib_next_hop_info_reset_def)

text \<open>
  A removed next hop is gone, or is a neighbor only; the node is not in a group and no route or id
  refers to it.
\<close>

definition nh_gone :: "l3_util \<Rightarrow> addr \<Rightarrow> 'h fib \<Rightarrow> bool" where
  "nh_gone u a s \<longleftrightarrow>
     (case nh_at s a of
        None \<Rightarrow> True
      | Some n \<Rightarrow> \<not> is_owner u SAI_FIB_OWNER_NEXT_HOP n \<and> is_owner u SAI_FIB_OWNER_NEIGHBOR n)"

lemma ip_remove_result:
  assumes u: "util_ok (util e)" and inv: "fib_inv (util e) s" and len: "length (nh_heap s) < 2 ^ 32"
    and a: "nh_at s a = Some n" and free: "route_refs s (RouteNh a) = 0"
      "\<And>i. tree_get (nh_id_tree s) i \<noteq> Some a"
    and call: "sai_fib_ip_next_hop_remove e a s = (status, s')"
  shows "if status = SAI_STATUS_SUCCESS
    then nh_group_list n = [] \<and> fib_inv (util e) s' \<and> nh_frame a s s' \<and> nh_gone (util e) a s' \<and>
      nh_id_tree s' = nh_id_tree s \<and> length (nh_heap s') \<le> length (nh_heap s)
    else hw_only s s'"
proof -
  let ?n = "sai_fib_next_hop_info_reset (util e) n"
  obtain st t where t: "hw_call (nexthop_remove (nexthop_npu e) n) s = (st, t)" by force
  then obtain h where h: "t = s\<lparr>hw := h\<rparr>" by (auto dest: hw_call_eqD)
  show ?thesis
  proof (cases "nh_group_list n = [] \<and> st = SAI_STATUS_SUCCESS")
    case False
    then have "status \<noteq> SAI_STATUS_SUCCESS \<and> hw_only s s'"
      using call a t h by (auto simp: sai_fib_ip_next_hop_remove_def sai_fib_is_next_hop_in_nh_group_def
          split: if_splits)
    then show ?thesis by simp
  next
    case True
    let ?t = "(set_nh a ?n s)\<lparr>hw := h\<rparr>"
    have inv1: "fib_inv (util e) ?t" using inv_info_reset [OF u inv a free(1) _ free(2)] True by simp
    have n1: "nh_at ?t a = Some ?n" "nh_vrf_id ?n = nh_vrf_id n" by (simp_all add: sai_fib_next_hop_info_reset_def)
    have len1: "length (nh_heap ?t) < 2 ^ 32" using len a by (simp add: length_put)
    obtain v rif where v: "vrf_at ?t (nh_vrf_id ?n) = Some v" "rif_at ?t (nk_rif_id (nh_key ?n)) = Some rif"
      "sai_fib_check_and_delete_ip_next_hop_node (nh_vrf_id ?n) a ?t =
       (SAI_STATUS_SUCCESS, if nh_owner_flag ?n = 0 then node_freed a ?n v rif ?t else ?t)"
      by (rule check_and_delete_result [OF inv1 len1 n1(1)])
    have st: "status = SAI_STATUS_SUCCESS" "s' = (if nh_owner_flag ?n = 0 then node_freed a ?n v rif ?t else ?t)"
      using call a t h True v(3) n1(2)
      by (auto simp: sai_fib_ip_next_hop_remove_def sai_fib_is_next_hop_in_nh_group_def)
    have fr: "nh_frame a s ?t" by (simp add: nh_frame_def)
    have bits: "owner_bits_ok (util e) ?n"
      using nh_owner_bits [OF inv1 n1(1)] .
    have "fib_inv (util e) s'"
      using st(2) inv1 node_freed_inv [OF u inv1 n1(1) _ v(1,2)] by simp
    moreover have "nh_frame a s s'"
      using st(2) fr nh_frame_trans [OF fr nh_frame_freed [OF v(1,2)]] by simp
    moreover have "nh_gone (util e) a s'"
      using st(2) owner_flag_zero_iff [OF u bits] u n1(1)
      by (simp add: nh_gone_def node_freed_def sai_fib_nh_node_free_def sai_fib_next_hop_info_reset_def)
    moreover have "nh_id_tree s' = nh_id_tree s \<and> length (nh_heap s') \<le> length (nh_heap s)"
      using st(2) a length_del [of a "nh_heap ?t"]
      by (simp add: node_freed_def sai_fib_nh_node_free_def length_put)
    ultimately show ?thesis using st(1) True by simp
  qed
qed

section \<open>The API\<close>

lemma owner_flag_nonzero: "util_ok u \<Longrightarrow> is_owner u f n \<Longrightarrow> nh_owner_flag n \<noteq> 0"
  by (auto simp: is_owner_bit)

lemma nh_gone_owned:
  "util_ok u \<Longrightarrow> nh_owned s \<Longrightarrow> nh_frame a s s' \<Longrightarrow> nh_gone u a s' \<Longrightarrow> nh_owned s'"
  by (erule nh_owned_frame) (auto simp: nh_gone_def dest: owner_flag_nonzero)

text \<open>Every node is found under its key.\<close>

lemma node_lookup:
  assumes u: "util_ok u" and inv: "fib_inv u s" and a: "nh_at s a = Some n"
  shows "ip_next_hop_node_get u s (nk_rif_id (nh_key n)) (nk_ip_addr (nh_key n)) = Some a"
proof -
  obtain v rif where v: "nk_type (nh_key n) = SAI_NEXT_HOP_IP" "vrf_at s (nh_vrf_id n) = Some v"
    "tree_get (vrf_nh_tree v) (nh_key n) = Some a" "rif_at s (nk_rif_id (nh_key n)) = Some rif"
    "rif_vrf_id rif = nh_vrf_id n" by (rule nh_okD [OF fib_invD(4) [OF inv] a])
  have "\<lparr>nk_type = SAI_NEXT_HOP_IP, nk_rif_id = nk_rif_id (nh_key n), nk_ip_addr = nk_ip_addr (nh_key n)\<rparr>
      = nh_key n" using v(1) by (cases "nh_key n") simp
  then have "tree_get (vrf_nh_tree v) \<lparr>nk_type = SAI_NEXT_HOP_IP, nk_rif_id = nk_rif_id (nh_key n),
      nk_ip_addr = nk_ip_addr (nh_key n)\<rparr> = Some a" using v(3) by (simp only:)
  with v show ?thesis by (simp add: ip_next_hop_node_get_eq [OF u] vrf_for_rif_eq [OF u])
qed

lemma id_insert_result:
  assumes inv: "fib_inv u s" and a: "nh_at s a = Some n" and own: "is_owner u SAI_FIB_OWNER_NEXT_HOP n"
    and call: "sai_fib_insert_nh_node_in_nh_id_database e a s = (status, s')"
  shows "fib_inv u s' \<and>
    (if status = SAI_STATUS_SUCCESS
     then tree_get (nh_id_tree s) (nh_next_hop_id n) = None \<and>
       (\<exists>h. s' = s\<lparr>hw := h, nh_id_tree := tree_put (nh_next_hop_id n) a (nh_id_tree s)\<rparr>)
     else hw_only s s')"
  using call a inv inv_nh_id_put [OF _ _ refl own, of "s\<lparr>hw := _\<rparr>" a]
  by (auto simp: sai_fib_insert_nh_node_in_nh_id_database_def rbtree_insert_ok_def
      split: prod.splits if_splits dest!: hw_call_eqD)

lemma next_hop_create_result:
  assumes u: "util_ok (util e)" and inv: "fib_inv (util e) s" and own: "nh_owned s"
    and len: "length (nh_heap s) + 1 < 2 ^ 32"
    and call: "sai_fib_next_hop_create e attrs s = (status, out, s')"
  shows "fib_inv (util e) s' \<and> nh_owned s' \<and>
    (if status = SAI_STATUS_SUCCESS
     then \<exists>a n info. out = Some (nh_next_hop_id n) \<and> nh_at s' a = Some n \<and>
        is_owner (util e) SAI_FIB_OWNER_NEXT_HOP n \<and>
        sai_fib_next_hop_info_fill e s attrs True (sai_fib_next_hop_default_attr_set nh_zero)
          = (SAI_STATUS_SUCCESS, info) \<and> nh_key n = nh_key info \<and>
        tree_get (nh_id_tree s) (nh_next_hop_id n) = None \<and>
        nh_id_tree s' = tree_put (nh_next_hop_id n) a (nh_id_tree s) \<and> nh_frame a s s'
     else out = None \<and> nh_id_tree s' = nh_id_tree s \<and> (\<exists>a. nh_frame a s s'))"
proof -
  obtain st info where info: "sai_fib_next_hop_info_fill e s attrs True
      (sai_fib_next_hop_default_attr_set nh_zero) = (st, info)" by force
  show ?thesis
  proof (cases "st = SAI_STATUS_SUCCESS")
    case False
    then have "status = st" "out = None" "s' = s" using call info by (auto simp: sai_fib_next_hop_create_def)
    then show ?thesis using False inv own nh_frame_refl by auto
  next
    case True
    note ok = nh_info_fill_ok [OF u inv info [unfolded True]]
    then obtain v where v: "vrf_at s (nh_vrf_id info) = Some v" by blast
    have ty: "nk_type (nh_key info) = SAI_NEXT_HOP_IP" using ok by (simp add: nh_info_ok_def)
    obtain res t where t: "sai_fib_ip_next_hop_create e info s = (res, t)" by force
    note cr = ip_create_result [OF u inv own len _ _ _ v t]
    show ?thesis
    proof (cases res)
      case (Inl st2)
      then have "status = st2" "out = None" "s' = t"
        using call info True ty t by (auto simp: sai_fib_next_hop_create_def)
      moreover from Inl cr ok have st2: "st2 \<noteq> SAI_STATUS_SUCCESS" "fib_inv (util e) t"
        "hw_addr_only s t \<or> (\<exists>a m h. nh_at s a = Some m \<and> \<not> is_owner (util e) SAI_FIB_OWNER_NEXT_HOP m \<and>
             t = (set_nh a (m\<lparr>nh_next_hop_id := 0\<rparr>) s)\<lparr>hw := h\<rparr>)" by auto
      moreover from st2(3) own have "nh_owned t \<and> nh_id_tree t = nh_id_tree s \<and> (\<exists>a. nh_frame a s t)"
        by (elim disjE exE conjE) (auto simp: hw_addr_only_sel nh_owned_def nh_frame_def)
      ultimately show ?thesis by simp
    next
      case (Inr a)
      with cr ok have inv1: "fib_inv (util e) t" and c: "nh_created (util e) (nh_key info) a s t" by auto
      from c obtain n where n: "nh_at t a = Some n" "nh_key n = nh_key info"
        "is_owner (util e) SAI_FIB_OWNER_NEXT_HOP n" by (auto simp: nh_created_def)
      note c' = c [unfolded nh_created_def]
      have own1: "nh_owned t"
        using nh_owned_frame [OF own, of a t] c' n owner_flag_nonzero [OF u n(3)] by auto
      obtain st3 t3 where t3: "sai_fib_insert_nh_node_in_nh_id_database e a t = (st3, t3)" by force
      note ins = id_insert_result [OF inv1 n(1,3) t3]
      show ?thesis
      proof (cases "st3 = SAI_STATUS_SUCCESS")
        case True
        then obtain h where t3': "t3 = t\<lparr>hw := h, nh_id_tree := tree_put (nh_next_hop_id n) a (nh_id_tree t)\<rparr>"
          using ins by auto
        have "status = SAI_STATUS_SUCCESS" "out = Some (nh_next_hop_id n)" "s' = t3"
          using call info \<open>st = _\<close> ty t Inr t3 True n(1) t3' by (auto simp: sai_fib_next_hop_create_def)
        moreover have "nh_frame a s t3" using c' by (simp add: t3' nh_frame_def)
        moreover have "nh_owned t3" using own1 by (simp add: t3' nh_owned_def)
        ultimately show ?thesis
          using ins True n info \<open>st = _\<close> c' by (auto simp: t3' intro!: exI [where x = a])
      next
        case False
        then have h3: "hw_only t t3" using ins by simp
        obtain st4 t4 where t4: "sai_fib_ip_next_hop_remove e a t3 = (st4, t4)" by force
        have res4: "status = st3" "out = None" "s' = t4"
          using call info \<open>st = _\<close> ty t Inr t3 False t4 by (auto simp: sai_fib_next_hop_create_def)
        have n3: "nh_at t3 a = Some n" "route_refs t3 (RouteNh a) = 0" "\<And>i. tree_get (nh_id_tree t3) i \<noteq> Some a"
          "length (nh_heap t3) < 2 ^ 32" "fib_inv (util e) t3" "nh_frame a s t3" "nh_owned t3"
          using h3 c' n len inv1 own1
          by (auto simp: hw_only_inv hw_only_sel route_refs_def nh_frame_def nh_owned_def)
        from ip_remove_result [OF u n3(5,4,1,2,3) t4] have
          "fib_inv (util e) t4 \<and> nh_owned t4 \<and> nh_id_tree t4 = nh_id_tree t3 \<and> nh_frame a t3 t4"
          using n3(5,7) nh_gone_owned [OF u n3(7)]
          by (auto simp: hw_only_inv hw_only_sel nh_owned_def nh_frame_def split: if_splits)
        then show ?thesis
          using res4 False h3 c' nh_frame_trans [OF n3(6)] by (auto simp: hw_only_sel)
      qed
    qed
  qed
qed

definition rbtree_total :: "'h l3_env \<Rightarrow> bool" where
  "rbtree_total e \<longleftrightarrow> (\<forall>h. fst (std_rbtree_insert_ok (plat e) h))"

lemma rbtree_totalD:
  assumes "rbtree_total e" "tree_get t k = None"
  shows "fst (rbtree_insert_ok e t k s)"
proof -
  have "fst (std_rbtree_insert_ok (plat e) (hw s))" using assms(1) by (simp add: rbtree_total_def)
  then show ?thesis
    using assms(2) by (cases "std_rbtree_insert_ok (plat e) (hw s)")
      (simp add: rbtree_insert_ok_def hw_call_def)
qed

lemma next_hop_remove_cases:
  assumes inv: "fib_inv (util e) s" and call: "sai_fib_next_hop_remove e x s = (status, s')"
  shows "status \<noteq> SAI_STATUS_SUCCESS \<and> s' = s \<or>
    (\<exists>a n st t. tree_get (nh_id_tree s) x = Some a \<and> nh_at s a = Some n \<and> nh_next_hop_id n = x \<and>
       is_owner (util e) SAI_FIB_OWNER_NEXT_HOP n \<and> nh_ref_count n = 0 \<and>
       sai_fib_ip_next_hop_remove e a (s\<lparr>nh_id_tree := tree_del x (nh_id_tree s)\<rparr>) = (st, t) \<and> status = st \<and>
       s' = (if st = SAI_STATUS_SUCCESS then t
             else snd (sai_fib_insert_nh_node_in_nh_id_database e a t)))"
proof -
  have ty: "nk_type (nh_key n) = SAI_NEXT_HOP_IP" if "nh_at s a = Some n" for a n
    using fib_invD(4) [OF inv] that by (simp add: nh_ok_def)
  have id: "nh_next_hop_id n = x" if "tree_get (nh_id_tree s) x = Some a" "nh_at s a = Some n" for a n
    using nh_id_okD [OF fib_invD(6) [OF inv] that(1)] that(2) by simp
  show ?thesis
    using call
    by (auto simp: sai_fib_next_hop_remove_def sai_fib_remove_nh_node_from_nh_id_database_def id ty Let_def
        sai_fib_is_next_hop_used_def split: if_splits option.splits prod.splits)
qed

lemma next_hop_remove_result:
  assumes u: "util_ok (util e)" and inv: "fib_inv (util e) s" and own: "nh_owned s"
    and bnd: "fib_bounded s"
    and call: "sai_fib_next_hop_remove e x s = (status, s')"
  shows "fib_inv (util e) s' \<and> nh_owned s' \<and>
    (if status = SAI_STATUS_SUCCESS
     then \<exists>a n. tree_get (nh_id_tree s) x = Some a \<and> nh_at s a = Some n \<and>
        route_refs s (RouteNh a) = 0 \<and> nh_group_list n = [] \<and>
        nh_id_tree s' = tree_del x (nh_id_tree s) \<and> nh_gone (util e) a s' \<and> nh_frame a s s'
     else (\<forall>i. i \<noteq> x \<longrightarrow> tree_get (nh_id_tree s') i = tree_get (nh_id_tree s) i) \<and>
        (rbtree_total e \<longrightarrow> tree_get (nh_id_tree s') x = tree_get (nh_id_tree s) x) \<and>
        nh_heap s' = nh_heap s \<and> (\<forall>a. nh_frame a s s'))"
proof -
  from next_hop_remove_cases [OF inv call] show ?thesis
  proof (elim disjE exE conjE)
    assume "status \<noteq> SAI_STATUS_SUCCESS" "s' = s"
    then show ?thesis using inv own by simp
  next
    fix a n st t
    let ?s = "s\<lparr>nh_id_tree := tree_del x (nh_id_tree s)\<rparr>"
    assume x: "tree_get (nh_id_tree s) x = Some a" and n: "nh_at s a = Some n" "nh_next_hop_id n = x"
      and ow: "is_owner (util e) SAI_FIB_OWNER_NEXT_HOP n" and ref: "nh_ref_count n = 0"
      and rm: "sai_fib_ip_next_hop_remove e a ?s = (st, t)" and st: "status = st"
      and s': "s' = (if st = SAI_STATUS_SUCCESS then t
             else snd (sai_fib_insert_nh_node_in_nh_id_database e a t))"
    have inv1: "fib_inv (util e) ?s" by (rule inv_nh_id_del [OF inv])
    have z: "route_refs s (RouteNh a) = 0" by (rule nh_unused [OF inv bnd n(1) ref])
    have no: "tree_get (nh_id_tree ?s) i \<noteq> Some a" for i
      using nh_id_okD [OF fib_invD(6) [OF inv], of i a] n by auto
    have "length (nh_heap ?s) < 2 ^ 32" using bnd by (simp add: fib_bounded_def)
    note res = ip_remove_result [OF u inv1 this _ _ no rm]
    have own1: "nh_owned ?s" using own by (simp add: nh_owned_def)
    show ?thesis
    proof (cases "st = SAI_STATUS_SUCCESS")
      case True
      with res n z have "nh_group_list n = []" "fib_inv (util e) t" "nh_frame a ?s t"
        "nh_gone (util e) a t" "nh_id_tree t = nh_id_tree ?s" by (auto simp: route_refs_def)
      then show ?thesis
        using True st s' x n z nh_gone_owned [OF u own1] by (auto simp: nh_frame_def)
    next
      case False
      with res n z have h: "hw_only ?s t" by (auto simp: route_refs_def)
      obtain st2 t2 where t2: "sai_fib_insert_nh_node_in_nh_id_database e a t = (st2, t2)" by force
      have nt: "nh_at t a = Some n" "fib_inv (util e) t" "nh_id_tree t = tree_del x (nh_id_tree s)"
        using h n inv1 by (simp_all add: hw_only_sel hw_only_inv)
      note ins = id_insert_result [OF nt(2,1) ow t2]
      have tot: "rbtree_total e \<Longrightarrow> st2 = SAI_STATUS_SUCCESS"
        using t2 nt n rbtree_totalD [of e "nh_id_tree t" x t]
        by (auto simp: sai_fib_insert_nh_node_in_nh_id_database_def split: prod.splits)
      have t2s: "s' = t2" using False s' t2 by simp
      show ?thesis
        using False st ins tot h nt(3) n x own
        by (auto simp: t2s hw_only_sel nh_owned_def nh_frame_def split: if_splits)
    qed
  qed
qed

lemma next_hop_attribute_get_hw:
  "sai_fib_next_hop_attribute_get e x k s = (r, s') \<Longrightarrow> hw_only s s'"
  by (auto simp: sai_fib_next_hop_attribute_get_def split: if_splits option.splits dest: hw_call_only)

end
