(* ===== verification/Fib_Neighbor.thy ===== *)
theory Fib_Neighbor
  imports Fib_NextHop
begin

text \<open>
  Neighbors: \<^verbatim>\<open>src/src/routing/sai_l3_neighbor.c\<close>. A neighbor is the second owner of a next hop node.
  A neighbor on a VLAN interface is also linked in the list of its (VLAN, MAC) entry, through which
  FDB events reach it.

  The first part translates the file function by function; the second part shows that the operations
  keep the invariant, that the MAC lists hold exactly what they should, and what each call returns.
\<close>

section \<open>Attributes\<close>

record neighbor_entry =
  ne_rif_id :: oid
  ne_ip_address :: sai_ip_address

definition sai_fib_neighbor_dest_mac_set :: "l3_util \<Rightarrow> mac \<Rightarrow> nh_node \<Rightarrow> sai_status \<times> nh_node" where
  "sai_fib_neighbor_dest_mac_set u m nh_info =
     (if sai_fib_is_mac_address_zero u m then (SAI_STATUS_INVALID_ATTR_VALUE_0, nh_info)
      else (SAI_STATUS_SUCCESS, nh_info\<lparr>nh_mac_addr := m\<rparr>))"

definition sai_fib_neighbor_pkt_action_set ::
    "l3_util \<Rightarrow> sai_packet_action \<Rightarrow> nh_node \<Rightarrow> sai_status \<times> nh_node" where
  "sai_fib_neighbor_pkt_action_set u act nh_info =
     (if \<not> sai_packet_action_validate u act then (SAI_STATUS_INVALID_ATTR_VALUE_0, nh_info)
      else (SAI_STATUS_SUCCESS, nh_info\<lparr>nh_packet_action := act\<rparr>))"

definition sai_fib_neighbor_default_attr_set :: "nh_node \<Rightarrow> nh_node" where
  "sai_fib_neighbor_default_attr_set n =
     n\<lparr>nh_packet_action := SAI_PACKET_ACTION_FORWARD, nh_no_host_route := False,
       nh_port_id := SAI_NULL_OBJECT_ID\<rparr>"

definition sai_fib_neighbor_info_reset :: "l3_util \<Rightarrow> nh_node \<Rightarrow> nh_node" where
  "sai_fib_neighbor_info_reset u n =
     sai_fib_reset_next_hop_owner u SAI_FIB_OWNER_NEIGHBOR
       (n\<lparr>nh_packet_action := SAI_PACKET_ACTION_TRAP, nh_mac_addr := 0, nh_meta_data := 0,
          nh_port_id := SAI_NULL_OBJECT_ID\<rparr>)"

text \<open>One attribute: status, node and the flag that the switch sets, if any.\<close>

definition neighbor_attr_fill ::
    "'h l3_env \<Rightarrow> neighbor_attr \<Rightarrow> nh_node \<Rightarrow> 'h fib
     \<Rightarrow> sai_status \<times> nh_node \<times> fib_attr_flag set \<times> 'h fib" where
  "neighbor_attr_fill e attr nh_info s =
     (case attr of
        SAI_NEIGHBOR_ATTR_DST_MAC_ADDRESS m \<Rightarrow>
          (let (status, nh_info) = sai_fib_neighbor_dest_mac_set (util e) m nh_info
           in (status, nh_info, {SAI_FIB_NEIGHBOR_DEST_MAC_ATTR_FLAG}, s))
      | SAI_NEIGHBOR_ATTR_PACKET_ACTION act \<Rightarrow>
          (let (status, nh_info) = sai_fib_neighbor_pkt_action_set (util e) act nh_info
           in (status, nh_info, {SAI_FIB_NEIGHBOR_PKT_ACTION_ATTR_FLAG}, s))
      | SAI_NEIGHBOR_ATTR_NO_HOST_ROUTE b \<Rightarrow>
          (SAI_STATUS_SUCCESS, nh_info\<lparr>nh_no_host_route := b\<rparr>,
           {SAI_FIB_NEIGHBOR_NO_HOST_ROUTE_ATTR_FLAG}, s)
      | SAI_NEIGHBOR_ATTR_META_DATA m \<Rightarrow>
          (let ((status, lo, hi), s) = hw_call (neighbor_meta_data_range (plat e)) s
           in if status \<noteq> SAI_STATUS_SUCCESS then (status, nh_info, {}, s)
              else if m < lo \<or> m > hi then (SAI_STATUS_INVALID_ATTR_VALUE_0, nh_info, {}, s)
              else (SAI_STATUS_SUCCESS, nh_info\<lparr>nh_meta_data := m\<rparr>,
                    {SAI_FIB_NEIGHBOR_META_DATA_ATTR_FLAG}, s))
      | NEIGHBOR_ATTR_UNKNOWN _ \<Rightarrow> (SAI_STATUS_UNKNOWN_ATTRIBUTE_0, nh_info, {}, s))"

fun neighbor_info_fill_loop ::
    "'h l3_env \<Rightarrow> neighbor_attr list \<Rightarrow> nat \<Rightarrow> fib_attr_flag set \<Rightarrow> nh_node \<Rightarrow> 'h fib
     \<Rightarrow> sai_status \<times> nh_node \<times> fib_attr_flag set \<times> 'h fib" where
  "neighbor_info_fill_loop e [] i flags nh_info s = (SAI_STATUS_SUCCESS, nh_info, flags, s)"
| "neighbor_info_fill_loop e (attr # attrs) i flags nh_info s =
     (let (status, nh_info, f, s) = neighbor_attr_fill e attr nh_info s
      in if status \<noteq> SAI_STATUS_SUCCESS
         then (sai_fib_attr_status_code_get (util e) status i, nh_info, flags \<union> f, s)
         else neighbor_info_fill_loop e attrs (i + 1) (flags \<union> f) nh_info s)"

definition sai_fib_neighbor_info_fill ::
    "'h l3_env \<Rightarrow> neighbor_attr list \<Rightarrow> bool \<Rightarrow> nh_node \<Rightarrow> 'h fib
     \<Rightarrow> sai_status \<times> nh_node \<times> fib_attr_flag set \<times> 'h fib" where
  "sai_fib_neighbor_info_fill e attrs is_create_req nh_info s =
     (if attrs = [] then (SAI_STATUS_INVALID_PARAMETER, nh_info, {}, s)
      else let (status, nh_info, flags, s) = neighbor_info_fill_loop e attrs 0 {} nh_info s
           in if status \<noteq> SAI_STATUS_SUCCESS then (status, nh_info, flags, s)
              else if is_create_req \<and> SAI_FIB_NEIGHBOR_DEST_MAC_ATTR_FLAG \<notin> flags
              then (SAI_STATUS_MANDATORY_ATTRIBUTE_MISSING, nh_info, flags, s)
              else (SAI_STATUS_SUCCESS, nh_info, flags, s))"

section \<open>Keys\<close>

definition sai_fib_neighbor_entry_validate :: "l3_util \<Rightarrow> 'h fib \<Rightarrow> neighbor_entry \<Rightarrow> sai_status" where
  "sai_fib_neighbor_entry_validate u s ne =
     (case rif_at s (ne_rif_id ne) of
        None \<Rightarrow> SAI_STATUS_INVALID_OBJECT_ID
      | Some _ \<Rightarrow> sai_fib_next_hop_ip_address_validate u (ne_ip_address ne))"

definition sai_fib_neighbor_ip_next_hop_node_key_fill ::
    "l3_util \<Rightarrow> neighbor_entry \<Rightarrow> sai_status \<times> nh_key" where
  "sai_fib_neighbor_ip_next_hop_node_key_fill u ne =
     (let (status, ip) = sai_fib_ip_addr_copy u (nk_ip_addr (nh_key nh_zero)) (ne_ip_address ne)
      in (status, \<lparr>nk_type = SAI_NEXT_HOP_IP, nk_rif_id = ne_rif_id ne, nk_ip_addr = ip\<rparr>))"

definition sai_fib_neighbor_attr_copy :: "nh_node \<Rightarrow> nh_node \<Rightarrow> nh_node" where
  "sai_fib_neighbor_attr_copy dest src =
     dest\<lparr>nh_mac_addr := nh_mac_addr src, nh_packet_action := nh_packet_action src\<rparr>"

definition sai_fib_neighbor_key_validate_and_fill ::
    "l3_util \<Rightarrow> 'h fib \<Rightarrow> neighbor_entry \<Rightarrow> nh_node \<Rightarrow> sai_status \<times> nh_node" where
  "sai_fib_neighbor_key_validate_and_fill u s ne nh_info =
     (let status = sai_fib_neighbor_entry_validate u s ne
      in if status \<noteq> SAI_STATUS_SUCCESS then (status, nh_info)
         else case vrf_for_rif u s (ne_rif_id ne) of
                None \<Rightarrow> (SAI_STATUS_ITEM_NOT_FOUND, nh_info)
              | Some v \<Rightarrow>
                  (let (_, key) = sai_fib_neighbor_ip_next_hop_node_key_fill u ne
                   in (SAI_STATUS_SUCCESS, nh_info\<lparr>nh_vrf_id := vrf_id v, nh_key := key\<rparr>)))"

section \<open>The egress port\<close>

text \<open>The port of a port interface, or the port that the L2 FDB has for the VLAN and MAC address.\<close>

definition sai_fib_neighbor_port_id_resolve ::
    "'h l3_env \<Rightarrow> nh_node \<Rightarrow> 'h fib \<Rightarrow> sai_status \<times> nh_node \<times> 'h fib" where
  "sai_fib_neighbor_port_id_resolve e n s =
     (case rif_at s (nk_rif_id (nh_key n)) of
        None \<Rightarrow> (SAI_STATUS_INVALID_OBJECT_ID, n, s)
      | Some rif \<Rightarrow>
          if rif_type rif = SAI_ROUTER_INTERFACE_TYPE_PORT
          then (SAI_STATUS_SUCCESS, n\<lparr>nh_port_id := rif_port_id rif\<rparr>, s)
          else let ((status, port), s) =
                     hw_call (get_fdb_entry_port (plat e) (rif_vlan_id rif) (nh_mac_addr n)) s
               in if status \<noteq> SAI_STATUS_SUCCESS then (status, n, s)
                  else (SAI_STATUS_SUCCESS, n\<lparr>nh_port_id := port\<rparr>, s))"

section \<open>The MAC entries\<close>

definition sai_fib_neighbor_fdb_entry_reg ::
    "'h l3_env \<Rightarrow> vlan_id \<times> mac \<Rightarrow> 'h fib \<Rightarrow> sai_status \<times> 'h fib" where
  "sai_fib_neighbor_fdb_entry_reg e key s =
     hw_call (sai_l2_register_fdb_entry (plat e) (fst key) (snd key)) s"

definition sai_fib_neighbor_fdb_entry_dereg ::
    "'h l3_env \<Rightarrow> vlan_id \<times> mac \<Rightarrow> 'h fib \<Rightarrow> sai_status \<times> 'h fib" where
  "sai_fib_neighbor_fdb_entry_dereg e key s =
     hw_call (sai_l2_deregister_fdb_entry (plat e) (fst key) (snd key)) s"

text \<open>
  \<open>std_dll_remove\<close> follows the links of the node, so removing a node that is not in the list is not
  defined.
\<close>

definition sai_fib_neighbor_mac_entry_remove ::
    "'h l3_env \<Rightarrow> addr \<Rightarrow> 'h fib \<Rightarrow> sai_status \<times> 'h fib" where
  "sai_fib_neighbor_mac_entry_remove e a s =
     (case nh_at s a of
        None \<Rightarrow> (SAI_STATUS_ITEM_NOT_FOUND, s)
      | Some n \<Rightarrow>
          (case rif_at s (nk_rif_id (nh_key n)) of
             None \<Rightarrow> (SAI_STATUS_ITEM_NOT_FOUND, s)
           | Some rif \<Rightarrow>
               if rif_type rif \<noteq> SAI_ROUTER_INTERFACE_TYPE_VLAN then (SAI_STATUS_SUCCESS, s)
               else let key = (rif_vlan_id rif, nh_mac_addr n)
                    in case tree_get (neighbor_mac_tree s) key of
                         None \<Rightarrow> (SAI_STATUS_ITEM_NOT_FOUND, s)
                       | Some L \<Rightarrow>
                           if a \<notin> set L then (UNDEFINED_BEHAVIOUR, s)
                           else if remove1 a L = []
                           then let s = s\<lparr>neighbor_mac_tree := tree_del key (neighbor_mac_tree s)\<rparr>;
                                    (_, s) = sai_fib_neighbor_fdb_entry_dereg e key s
                                in (SAI_STATUS_SUCCESS, s)
                           else (SAI_STATUS_SUCCESS,
                                 s\<lparr>neighbor_mac_tree :=
                                     tree_put key (remove1 a L) (neighbor_mac_tree s)\<rparr>)))"

definition sai_fib_neighbor_mac_entry_insert ::
    "'h l3_env \<Rightarrow> addr \<Rightarrow> 'h fib \<Rightarrow> sai_status \<times> 'h fib" where
  "sai_fib_neighbor_mac_entry_insert e a s =
     (case nh_at s a of
        None \<Rightarrow> (SAI_STATUS_ITEM_NOT_FOUND, s)
      | Some n \<Rightarrow>
          (case rif_at s (nk_rif_id (nh_key n)) of
             None \<Rightarrow> (SAI_STATUS_ITEM_NOT_FOUND, s)
           | Some rif \<Rightarrow>
               if rif_type rif \<noteq> SAI_ROUTER_INTERFACE_TYPE_VLAN then (SAI_STATUS_SUCCESS, s)
               else let key = (rif_vlan_id rif, nh_mac_addr n)
                    in case tree_get (neighbor_mac_tree s) key of
                         Some L \<Rightarrow>
                           (SAI_STATUS_SUCCESS,
                            s\<lparr>neighbor_mac_tree := tree_put key (L @ [a]) (neighbor_mac_tree s)\<rparr>)
                       | None \<Rightarrow>
                           (let (ok, s) = sai_fib_neighbor_mac_entry_node_alloc e s
                            in if \<not> ok then (SAI_STATUS_NO_MEMORY, s)
                               else let (ok, s) = radix_insert_ok e (neighbor_mac_tree s) key s
                               in if \<not> ok then (SAI_STATUS_FAILURE, s)
                                  else let s = s\<lparr>neighbor_mac_tree :=
                                                   tree_put key [a] (neighbor_mac_tree s)\<rparr>;
                                           (status, s) = sai_fib_neighbor_fdb_entry_reg e key s
                                  in if status \<noteq> SAI_STATUS_SUCCESS
                                     then let (_, s) = sai_fib_neighbor_mac_entry_remove e a s
                                          in (status, s)
                                     else (SAI_STATUS_SUCCESS, s))))"

section \<open>The API\<close>

definition sai_fib_neighbor_node_create ::
    "'h l3_env \<Rightarrow> nh_node \<Rightarrow> 'h fib \<Rightarrow> (sai_status + addr) \<times> 'h fib" where
  "sai_fib_neighbor_node_create e nh_info s =
     (case ip_next_hop_node_get (util e) s (nk_rif_id (nh_key nh_info)) (nk_ip_addr (nh_key nh_info)) of
        Some a \<Rightarrow>
          (case nh_at s a of
             None \<Rightarrow> (Inl SAI_STATUS_FAILURE, s)
           | Some n \<Rightarrow>
               if is_owner (util e) SAI_FIB_OWNER_NEIGHBOR n
               then (Inl SAI_STATUS_ITEM_ALREADY_EXISTS, s)
               else (Inr a,
                     set_nh a (sai_fib_set_next_hop_owner (util e) SAI_FIB_OWNER_NEIGHBOR
                                 (sai_fib_neighbor_attr_copy n nh_info)) s))
      | None \<Rightarrow>
          (let (res, s) = sai_fib_ip_next_hop_node_create e (nh_vrf_id nh_info) nh_info s
           in case res of
                Inl status \<Rightarrow> (Inl status, s)
              | Inr a \<Rightarrow>
                  (case nh_at s a of
                     None \<Rightarrow> (Inl SAI_STATUS_FAILURE, s)
                   | Some n \<Rightarrow>
                       (Inr a, set_nh a (sai_fib_set_next_hop_owner (util e)
                                           SAI_FIB_OWNER_NEIGHBOR n) s))))"

text \<open>
  What the creation does with the node, and the undoing when any of it fails: the flag is false when
  the undoing is not defined.
\<close>

definition neighbor_create_steps :: "'h l3_env \<Rightarrow> addr \<Rightarrow> 'h fib \<Rightarrow> sai_status \<times> 'h fib" where
  "neighbor_create_steps e a s =
     (case nh_at s a of
        None \<Rightarrow> (SAI_STATUS_FAILURE, s)
      | Some n \<Rightarrow>
          (let (status, n, s) = sai_fib_neighbor_port_id_resolve e n s;
               s = set_nh a n s
           in if status \<noteq> SAI_STATUS_SUCCESS then (status, s)
              else let (status, s) = sai_fib_neighbor_mac_entry_insert e a s
                   in if status \<noteq> SAI_STATUS_SUCCESS then (status, s)
                      else hw_call (neighbor_create (neighbor_npu e) n) s))"

definition neighbor_create_undo :: "'h l3_env \<Rightarrow> addr \<Rightarrow> 'h fib \<Rightarrow> bool \<times> 'h fib" where
  "neighbor_create_undo e a s =
     (let (removed, s) = sai_fib_neighbor_mac_entry_remove e a s
      in if removed = UNDEFINED_BEHAVIOUR then (False, s)
         else case nh_at s a of
           None \<Rightarrow> (True, s)
         | Some n \<Rightarrow>
             (let s = set_nh a (sai_fib_neighbor_info_reset (util e) n) s
              in (True, snd (sai_fib_check_and_delete_ip_next_hop_node (nh_vrf_id n) a s))))"

definition sai_fib_neighbor_create ::
    "'h l3_env \<Rightarrow> neighbor_entry \<Rightarrow> neighbor_attr list \<Rightarrow> 'h fib \<Rightarrow> sai_status \<times> 'h fib" where
  "sai_fib_neighbor_create e ne attrs s =
     (let (status, nh_info) = sai_fib_neighbor_key_validate_and_fill (util e) s ne
                                (sai_fib_neighbor_default_attr_set nh_zero)
      in if status \<noteq> SAI_STATUS_SUCCESS then (status, s)
         else let (status, nh_info, flags, s) = sai_fib_neighbor_info_fill e attrs True nh_info s
              in if status \<noteq> SAI_STATUS_SUCCESS then (status, s)
                 else let (res, s) = sai_fib_neighbor_node_create e nh_info s
                      in case res of
                           Inl status \<Rightarrow> (status, s)
                         | Inr a \<Rightarrow>
                             (let (status, s) = neighbor_create_steps e a s
                              in if status = SAI_STATUS_SUCCESS then (status, s)
                                 else let (defined, s) = neighbor_create_undo e a s
                                      in (if defined then status else UNDEFINED_BEHAVIOUR, s)))"

text \<open>The lookup that removal and the attribute calls share: the status when there is no neighbor.\<close>

definition neighbor_node_find :: "'h l3_env \<Rightarrow> 'h fib \<Rightarrow> neighbor_entry \<Rightarrow> sai_status + addr \<times> nh_node" where
  "neighbor_node_find e s ne =
     (let (_, nh_key) = sai_fib_neighbor_ip_next_hop_node_key_fill (util e) ne
      in case ip_next_hop_node_get (util e) s (ne_rif_id ne) (nk_ip_addr nh_key) of
           None \<Rightarrow> Inl SAI_STATUS_ITEM_NOT_FOUND
         | Some a \<Rightarrow>
             (case nh_at s a of
                None \<Rightarrow> Inl SAI_STATUS_ITEM_NOT_FOUND
              | Some n \<Rightarrow>
                  if \<not> is_owner (util e) SAI_FIB_OWNER_NEIGHBOR n then Inl SAI_STATUS_ITEM_NOT_FOUND
                  else Inr (a, n)))"

definition sai_fib_neighbor_remove :: "'h l3_env \<Rightarrow> neighbor_entry \<Rightarrow> 'h fib \<Rightarrow> sai_status \<times> 'h fib" where
  "sai_fib_neighbor_remove e ne s =
     (let status = sai_fib_neighbor_entry_validate (util e) s ne
      in if status \<noteq> SAI_STATUS_SUCCESS then (status, s)
         else case neighbor_node_find e s ne of
           Inl status \<Rightarrow> (status, s)
         | Inr (a, nh_node_copy) \<Rightarrow>
             (let (status, s) = sai_fib_neighbor_mac_entry_remove e a s
              in if status \<noteq> SAI_STATUS_SUCCESS then (status, s)
                 else let n = sai_fib_neighbor_info_reset (util e) nh_node_copy;
                          s = set_nh a n s;
                          (status, s) = hw_call (neighbor_remove (neighbor_npu e) n) s
                      in if status \<noteq> SAI_STATUS_SUCCESS
                         then let s = set_nh a nh_node_copy s;
                                  (_, s) = sai_fib_neighbor_mac_entry_insert e a s
                              in (status, s)
                         else let (_, s) = sai_fib_check_and_delete_ip_next_hop_node (nh_vrf_id n) a s
                              in (status, s)))"

definition sai_fib_neighbor_attribute_set ::
    "'h l3_env \<Rightarrow> neighbor_entry \<Rightarrow> neighbor_attr \<Rightarrow> 'h fib \<Rightarrow> sai_status \<times> 'h fib" where
  "sai_fib_neighbor_attribute_set e ne attr s =
     (let status = sai_fib_neighbor_entry_validate (util e) s ne
      in if status \<noteq> SAI_STATUS_SUCCESS then (status, s)
         else case neighbor_node_find e s ne of
           Inl status \<Rightarrow> (status, s)
         | Inr (a, n) \<Rightarrow>
             (let (status, nh_node_copy, attr_flag, s) = sai_fib_neighbor_info_fill e [attr] False n s
              in if status \<noteq> SAI_STATUS_SUCCESS then (status, s)
                 else let (status, nh_node_copy, s) =
                            (if SAI_FIB_NEIGHBOR_DEST_MAC_ATTR_FLAG \<in> attr_flag
                             then sai_fib_neighbor_port_id_resolve e nh_node_copy s
                             else (SAI_STATUS_SUCCESS, nh_node_copy, s))
                 in if status \<noteq> SAI_STATUS_SUCCESS then (status, s)
                    else let (status, s) =
                               hw_call (neighbor_attr_set (neighbor_npu e) nh_node_copy attr_flag) s
                    in if status \<noteq> SAI_STATUS_SUCCESS then (status, s)
                       else if SAI_FIB_NEIGHBOR_DEST_MAC_ATTR_FLAG \<in> attr_flag
                       then let (removed, s) = sai_fib_neighbor_mac_entry_remove e a s
                            in if removed = UNDEFINED_BEHAVIOUR then (removed, s)
                               else let s = set_nh a nh_node_copy s;
                                        (_, s) = sai_fib_neighbor_mac_entry_insert e a s
                                    in (SAI_STATUS_SUCCESS, s)
                       else (SAI_STATUS_SUCCESS, set_nh a nh_node_copy s)))"

definition sai_fib_neighbor_attribute_get ::
    "'h l3_env \<Rightarrow> neighbor_entry \<Rightarrow> nat \<Rightarrow> 'h fib \<Rightarrow> (sai_status \<times> neighbor_attr list) \<times> 'h fib" where
  "sai_fib_neighbor_attribute_get e ne attr_count s =
     (if attr_count = 0 then ((SAI_STATUS_INVALID_PARAMETER, []), s)
      else case neighbor_node_find e s ne of
        Inl status \<Rightarrow> ((status, []), s)
      | Inr (a, n) \<Rightarrow> hw_call (neighbor_attr_get (neighbor_npu e) n attr_count) s)"

section \<open>FDB events\<close>

fun port_id_set_loop ::
    "'h l3_env \<Rightarrow> oid \<Rightarrow> addr list \<Rightarrow> sai_status \<Rightarrow> 'h fib \<Rightarrow> sai_status \<times> 'h fib" where
  "port_id_set_loop e port_id [] status s = (status, s)"
| "port_id_set_loop e port_id (a # L) status s =
     (case nh_at s a of
        None \<Rightarrow> port_id_set_loop e port_id L status s
      | Some n \<Rightarrow>
          if nh_port_id n = port_id then port_id_set_loop e port_id L status s
          else let n' = n\<lparr>nh_port_id := port_id\<rparr>;
                   s = set_nh a n' s;
                   (status, s) = hw_call (neighbor_attr_set (neighbor_npu e) n'
                                            {SAI_FIB_NEIGHBOR_PORT_ID_ATTR_FLAG}) s;
                   s = (if status \<noteq> SAI_STATUS_SUCCESS then set_nh a n s else s)
               in port_id_set_loop e port_id L status s)"

definition sai_fib_neighbor_port_id_set ::
    "'h l3_env \<Rightarrow> vlan_id \<times> mac \<Rightarrow> oid \<Rightarrow> 'h fib \<Rightarrow> sai_status \<times> 'h fib" where
  "sai_fib_neighbor_port_id_set e key port_id s =
     (if port_id = SAI_NULL_OBJECT_ID then (SAI_STATUS_SUCCESS, s)
      else case tree_get (neighbor_mac_tree s) key of
        None \<Rightarrow> (SAI_STATUS_SUCCESS, s)
      | Some L \<Rightarrow> port_id_set_loop e port_id L SAI_STATUS_SUCCESS s)"

datatype sai_fdb_event = SAI_FDB_EVENT_LEARNED | SAI_FDB_EVENT int

record fdb_notification =
  fdb_event :: sai_fdb_event
  fdb_key :: "vlan_id \<times> mac"
  fdb_port_id :: oid

fun fdb_callback_loop :: "'h l3_env \<Rightarrow> fdb_notification list \<Rightarrow> oid \<Rightarrow> 'h fib \<Rightarrow> 'h fib" where
  "fdb_callback_loop e [] port_id s = s"
| "fdb_callback_loop e (upd # upds) port_id s =
     (let port_id = (if fdb_event upd = SAI_FDB_EVENT_LEARNED then fdb_port_id upd else port_id);
          (_, s) = sai_fib_neighbor_port_id_set e (fdb_key upd) port_id s
      in fdb_callback_loop e upds port_id s)"

definition sai_neighbor_fdb_callback ::
    "'h l3_env \<Rightarrow> fdb_notification list \<Rightarrow> 'h fib \<Rightarrow> sai_status \<times> 'h fib" where
  "sai_neighbor_fdb_callback e fdb_upd s =
     (SAI_STATUS_SUCCESS, fdb_callback_loop e fdb_upd SAI_NULL_OBJECT_ID s)"

definition sai_fib_neighbor_remove_all_entries :: "'h fib \<Rightarrow> sai_status \<times> 'h fib" where
  "sai_fib_neighbor_remove_all_entries s = (SAI_STATUS_NOT_IMPLEMENTED, s)"


section \<open>Attributes and ports change nothing else\<close>

text \<open>The part of a node that no neighbor attribute reaches.\<close>

definition nh_same_links :: "nh_node \<Rightarrow> nh_node \<Rightarrow> bool" where
  "nh_same_links n n' \<longleftrightarrow>
     nh_key n' = nh_key n \<and> nh_vrf_id n' = nh_vrf_id n \<and> nh_next_hop_id n' = nh_next_hop_id n \<and>
     nh_ref_count n' = nh_ref_count n \<and> nh_group_list n' = nh_group_list n \<and>
     nh_owner_flag n' = nh_owner_flag n"

lemma nh_same_links_refl [simp]: "nh_same_links n n"
  by (simp add: nh_same_links_def)

lemma nh_same_links_trans: "nh_same_links n m \<Longrightarrow> nh_same_links m k \<Longrightarrow> nh_same_links n k"
  by (simp add: nh_same_links_def)

lemma nh_same_links_owner: "nh_same_links n n' \<Longrightarrow> is_owner u f n' = is_owner u f n"
  by (cases f) (simp_all add: nh_same_links_def is_owner_def)

lemma nh_same_links_bits: "nh_same_links n n' \<Longrightarrow> owner_bits_ok u n' = owner_bits_ok u n"
  by (simp add: nh_same_links_def owner_bits_ok_def)

text \<open>
  A MAC address that was filled in is not zero, and an attribute that is not the MAC address leaves
  it alone.
\<close>

definition mac_filled :: "l3_util \<Rightarrow> fib_attr_flag set \<Rightarrow> nh_node \<Rightarrow> nh_node \<Rightarrow> bool" where
  "mac_filled u flags n n' \<longleftrightarrow>
     (if SAI_FIB_NEIGHBOR_DEST_MAC_ATTR_FLAG \<in> flags
      then \<not> sai_fib_is_mac_address_zero u (nh_mac_addr n') else nh_mac_addr n' = nh_mac_addr n)"

lemma neighbor_attr_fill_result:
  "neighbor_attr_fill e attr n s = (st, n', f, s') \<Longrightarrow>
   nh_same_links n n' \<and> nh_port_id n' = nh_port_id n \<and> hw_only s s' \<and>
   (st = SAI_STATUS_SUCCESS \<longrightarrow> mac_filled (util e) f n n')"
  by (cases attr)
     (auto simp: neighbor_attr_fill_def nh_same_links_def mac_filled_def
       sai_fib_neighbor_dest_mac_set_def sai_fib_neighbor_pkt_action_set_def
       split: if_splits prod.splits dest!: hw_call_only)

lemma mac_filled_trans:
  "mac_filled u f n m \<Longrightarrow> mac_filled u g m k \<Longrightarrow> mac_filled u (f \<union> g) n k"
  by (auto simp: mac_filled_def split: if_splits)

lemma neighbor_fill_loop_result:
  assumes u: "util_ok (util e)"
  shows "neighbor_info_fill_loop e attrs i fl n s = (st, n', fl', s') \<Longrightarrow> mac_filled (util e) fl n0 n \<Longrightarrow>
   nh_same_links n n' \<and> nh_port_id n' = nh_port_id n \<and> hw_only s s' \<and>
   (st = SAI_STATUS_SUCCESS \<longrightarrow> mac_filled (util e) fl' n0 n')"
proof (induction attrs arbitrary: i fl n s)
  case (Cons attr attrs)
  obtain st1 n1 f1 s1 where one: "neighbor_attr_fill e attr n s = (st1, n1, f1, s1)"
    by (metis prod_cases4)
  note r = neighbor_attr_fill_result [OF one]
  show ?case
  proof (cases "st1 = SAI_STATUS_SUCCESS")
    case False
    then show ?thesis using Cons.prems(1) one r util_ok_status [OF u False, of i] by auto
  next
    case True
    with r Cons.prems(2) have m: "mac_filled (util e) (fl \<union> f1) n0 n1" using mac_filled_trans by blast
    have "neighbor_info_fill_loop e attrs (i + 1) (fl \<union> f1) n1 s1 = (st, n', fl', s')"
      using Cons.prems(1) one True by simp
    from Cons.IH [OF this m] r show ?thesis using nh_same_links_trans hw_only_trans by metis
  qed
qed simp

lemma neighbor_info_fill_result:
  assumes u: "util_ok (util e)" and call: "sai_fib_neighbor_info_fill e attrs c n s = (st, n', fl, s')"
  shows "nh_same_links n n' \<and> nh_port_id n' = nh_port_id n \<and> hw_only s s' \<and>
   (st = SAI_STATUS_SUCCESS \<longrightarrow> mac_filled (util e) fl n n' \<and>
      (c \<longrightarrow> \<not> sai_fib_is_mac_address_zero (util e) (nh_mac_addr n')))"
proof -
  obtain st1 n1 f1 s1 where loop: "neighbor_info_fill_loop e attrs 0 {} n s = (st1, n1, f1, s1)"
    by (metis prod_cases4)
  have "mac_filled (util e) {} n n" by (simp add: mac_filled_def)
  from neighbor_fill_loop_result [OF u loop this] call loop show ?thesis
    by (auto simp: sai_fib_neighbor_info_fill_def mac_filled_def split: if_splits)
qed

lemma port_id_resolve_result:
  assumes "sai_fib_neighbor_port_id_resolve e n s = (st, n', s')"
  shows "nh_same_links n n' \<and> nh_mac_addr n' = nh_mac_addr n \<and> hw_only s s' \<and> (\<exists>p. n' = n\<lparr>nh_port_id := p\<rparr>)"
proof -
  have "n' = n \<or> (\<exists>p. n' = n\<lparr>nh_port_id := p\<rparr>)" "hw_only s s'"
    using assms by (auto simp: sai_fib_neighbor_port_id_resolve_def split: option.splits if_splits
        prod.splits dest!: hw_call_only)
  then show ?thesis by (auto simp: nh_same_links_def intro: exI [where x = "nh_port_id n"])
qed

section \<open>The MAC lists\<close>

definition mac_listed :: "'h fib \<Rightarrow> addr \<Rightarrow> bool" where
  "mac_listed s a \<longleftrightarrow> (\<exists>k L. tree_get (neighbor_mac_tree s) k = Some L \<and> a \<in> set L)"

definition mac_only :: "'h fib \<Rightarrow> 'h fib \<Rightarrow> bool" where
  "mac_only s s' \<longleftrightarrow> (\<exists>t h. s' = s\<lparr>neighbor_mac_tree := t, hw := h\<rparr>)"

lemma mac_onlyI [simp, intro]: "mac_only s (s\<lparr>neighbor_mac_tree := t, hw := h\<rparr>)"
  by (auto simp: mac_only_def)

lemma mac_only_hw: "hw_only s s' \<Longrightarrow> mac_only s s'"
  by (auto simp: hw_only_def mac_only_def intro!: exI [where x = "neighbor_mac_tree s"])

lemma mac_only_tree [simp]: "mac_only s (s\<lparr>neighbor_mac_tree := t\<rparr>)"
  by (auto simp: mac_only_def intro!: exI [where x = "hw s"])

lemma mac_only_trans:
  assumes "mac_only s s'" "mac_only s' s''"
  shows "mac_only s s''"
proof -
  from assms obtain t h t' h' where "s' = s\<lparr>neighbor_mac_tree := t, hw := h\<rparr>"
    "s'' = s'\<lparr>neighbor_mac_tree := t', hw := h'\<rparr>" by (auto simp: mac_only_def)
  then have "s'' = s\<lparr>neighbor_mac_tree := t', hw := h'\<rparr>" by simp
  then show ?thesis by (simp only: mac_onlyI)
qed

lemma mac_only_sel:
  assumes "mac_only s s'"
  shows "vrf_tree s' = vrf_tree s" "router_interface_tree s' = router_interface_tree s"
    "nh_id_tree s' = nh_id_tree s" "nh_group_tree s' = nh_group_tree s"
    "nh_heap s' = nh_heap s" "grp_heap s' = grp_heap s" "next_addr s' = next_addr s"
    "max_ecmp_paths s' = max_ecmp_paths s" "num_virtual_routers s' = num_virtual_routers s"
  using assms by (auto simp: mac_only_def)

lemma mac_member_sel:
  "nh_heap s' = nh_heap s \<Longrightarrow> router_interface_tree s' = router_interface_tree s \<Longrightarrow>
   mac_member_ok u s' k a = mac_member_ok u s k a"
  by (simp add: mac_member_ok_def)

text \<open>A listed node is in the one list its interface and MAC address give.\<close>

lemma mac_listed_key:
  assumes inv: "fib_inv u s" and a: "nh_at s a = Some n"
    and r: "rif_at s (nk_rif_id (nh_key n)) = Some rif"
    and L: "tree_get (neighbor_mac_tree s) k = Some L" "a \<in> set L"
  shows "rif_type rif = SAI_ROUTER_INTERFACE_TYPE_VLAN" "k = (rif_vlan_id rif, nh_mac_addr n)"
    "is_owner u SAI_FIB_OWNER_NEIGHBOR n"
  using mac_okD [OF fib_invD(11) [OF inv] L(1)] L(2) a r by (auto simp: mac_member_ok_def)

lemma nh_rif:
  assumes "fib_inv u s" "nh_at s a = Some n"
  obtains rif where "rif_at s (nk_rif_id (nh_key n)) = Some rif" "rif_vrf_id rif = nh_vrf_id n"
  by (rule nh_okD [OF fib_invD(4) [OF assms(1)] assms(2)])

text \<open>
  What linking or unlinking the node \<open>a\<close> does: only the MAC lists change, no other node is linked or
  unlinked, and \<open>listed\<close> says whether \<open>a\<close> is linked afterwards.
\<close>

definition mac_step :: "addr \<Rightarrow> bool \<Rightarrow> 'h fib \<Rightarrow> 'h fib \<Rightarrow> bool" where
  "mac_step a listed s s' \<longleftrightarrow>
     mac_only s s' \<and> mac_listed s' a = listed \<and> (\<forall>b. b \<noteq> a \<longrightarrow> mac_listed s' b = mac_listed s b)"

lemma mac_step_hw: "hw_only s s' \<Longrightarrow> mac_step a (mac_listed s a) s s'"
  by (simp add: mac_step_def mac_only_hw mac_listed_def hw_only_sel)

lemma mac_step_trans: "mac_step a l s s' \<Longrightarrow> mac_step a l' s' s'' \<Longrightarrow> mac_step a l' s s''"
  by (auto simp: mac_step_def intro: mac_only_trans)

lemma mac_listed_hw: "hw_only s s' \<Longrightarrow> mac_listed s' a = mac_listed s a"
  by (simp add: mac_listed_def hw_only_sel)

lemma mac_step_hw_trans: "mac_step a l s s' \<Longrightarrow> hw_only s' s'' \<Longrightarrow> mac_step a l s s''"
  using mac_step_hw [of s' s'' a] mac_step_trans by (metis mac_step_def)

lemma mac_step_remove:
  assumes inv: "fib_inv u s" and k: "tree_get (neighbor_mac_tree s) k = Some L"
    and a: "nh_at s a = Some n" "rif_at s (nk_rif_id (nh_key n)) = Some rif"
      "k = (rif_vlan_id rif, nh_mac_addr n)"
    and t: "t = (if remove1 a L = [] then tree_del k (neighbor_mac_tree s)
                 else tree_put k (remove1 a L) (neighbor_mac_tree s))"
  shows "fib_inv u (s\<lparr>neighbor_mac_tree := t\<rparr>) \<and> mac_step a False s (s\<lparr>neighbor_mac_tree := t\<rparr>)"
proof -
  have L: "distinct L" "\<And>b. b \<in> set L \<Longrightarrow> mac_member_ok u s k b"
    using mac_okD [OF fib_invD(11) [OF inv] k] by auto
  have wf: "tree_wf (neighbor_mac_tree s)" using fib_invD(1) [OF inv] by (simp add: trees_ok_def)
  have inv': "fib_inv u (s\<lparr>neighbor_mac_tree := t\<rparr>)"
    unfolding t using inv_mac_del [OF inv] inv_mac_put [OF inv, of "remove1 a L" k] L
    by (auto dest: notin_set_remove1)
  have get: "tree_get t j = (if j = k then (if remove1 a L = [] then None else Some (remove1 a L))
      else tree_get (neighbor_mac_tree s) j)" for j
    unfolding t using wf by simp
  have other: "a \<notin> set M" if "tree_get (neighbor_mac_tree s) j = Some M" "j \<noteq> k" for j M
    using mac_listed_key(2) [OF inv a(1,2) that(1)] that(2) a(3) by auto
  have "\<not> mac_listed (s\<lparr>neighbor_mac_tree := t\<rparr>) a"
    using other L(1) by (auto simp: mac_listed_def get split: if_splits)
  moreover have "mac_listed (s\<lparr>neighbor_mac_tree := t\<rparr>) b = mac_listed s b" if "b \<noteq> a" for b
  proof -
    have "b \<in> set (remove1 a L) \<longleftrightarrow> b \<in> set L" using that by simp
    then have "(\<exists>M. tree_get t j = Some M \<and> b \<in> set M) \<longleftrightarrow>
        (\<exists>M. tree_get (neighbor_mac_tree s) j = Some M \<and> b \<in> set M)" for j
      using k by (auto simp: get)
    then show ?thesis by (simp add: mac_listed_def)
  qed
  ultimately show ?thesis using inv' by (simp add: mac_step_def)
qed

lemma mac_step_insert:
  assumes inv: "fib_inv u s" and a: "nh_at s a = Some n" "is_owner u SAI_FIB_OWNER_NEIGHBOR n"
    and r: "rif_at s (nk_rif_id (nh_key n)) = Some rif" "rif_type rif = SAI_ROUTER_INTERFACE_TYPE_VLAN"
    and k: "k = (rif_vlan_id rif, nh_mac_addr n)" and no: "\<not> mac_listed s a"
    and t: "t = tree_put k ((case tree_get (neighbor_mac_tree s) k of None \<Rightarrow> [] | Some L \<Rightarrow> L) @ [a]) (neighbor_mac_tree s)"
  shows "fib_inv u (s\<lparr>neighbor_mac_tree := t\<rparr>) \<and> mac_step a True s (s\<lparr>neighbor_mac_tree := t\<rparr>)"
proof -
  let ?L = "(case tree_get (neighbor_mac_tree s) k of None \<Rightarrow> [] | Some L \<Rightarrow> L)"
  have aL: "a \<notin> set ?L"
  proof (cases "tree_get (neighbor_mac_tree s) k")
    case (Some L)
    then have "a \<notin> set L" using no unfolding mac_listed_def by blast
    with Some show ?thesis by simp
  qed simp
  have "mac_member_ok u s k a" using a r k by (auto simp: mac_member_ok_def)
  moreover have "distinct ?L \<and> (\<forall>b \<in> set ?L. mac_member_ok u s k b)"
    using mac_okD [OF fib_invD(11) [OF inv]] by (auto split: option.splits)
  ultimately have inv': "fib_inv u (s\<lparr>neighbor_mac_tree := t\<rparr>)"
    unfolding t using aL by (intro inv_mac_put [OF inv]) auto
  have "mac_listed (s\<lparr>neighbor_mac_tree := t\<rparr>) a"
    unfolding mac_listed_def by (rule exI [where x = k]) (simp add: t)
  moreover have "mac_listed (s\<lparr>neighbor_mac_tree := t\<rparr>) b = mac_listed s b" if "b \<noteq> a" for b
    unfolding mac_listed_def
  proof (rule iff_exI)
    fix j
    show "(\<exists>L. tree_get (neighbor_mac_tree (s\<lparr>neighbor_mac_tree := t\<rparr>)) j = Some L \<and> b \<in> set L) \<longleftrightarrow>
      (\<exists>L. tree_get (neighbor_mac_tree s) j = Some L \<and> b \<in> set L)"
      using that by (cases "tree_get (neighbor_mac_tree s) k") (simp_all add: t)
  qed
  ultimately show ?thesis using inv' by (simp add: mac_step_def)
qed


lemma mac_entry_remove_result:
  assumes inv: "fib_inv u s" and a: "nh_at s a = Some n"
    and call: "sai_fib_neighbor_mac_entry_remove e a s = (st, s')"
  shows "fib_inv u s' \<and> mac_step a False s s'"
proof -
  obtain rif where r: "rif_at s (nk_rif_id (nh_key n)) = Some rif" by (rule nh_rif [OF inv a])
  let ?k = "(rif_vlan_id rif, nh_mac_addr n)"
  show ?thesis
  proof (cases "rif_type rif = SAI_ROUTER_INTERFACE_TYPE_VLAN \<and>
      (\<exists>L. tree_get (neighbor_mac_tree s) ?k = Some L \<and> a \<in> set L)")
    case False
    then have "s' = s" using call a r
      by (auto simp: sai_fib_neighbor_mac_entry_remove_def Let_def split: if_splits option.splits)
    moreover have "\<not> mac_listed s a"
      using mac_listed_key [OF inv a r] False unfolding mac_listed_def by metis
    ultimately show ?thesis using inv mac_step_hw [of s s a] by simp
  next
    case True
    then obtain L where L: "tree_get (neighbor_mac_tree s) ?k = Some L" "a \<in> set L" by auto
    let ?t = "if remove1 a L = [] then tree_del ?k (neighbor_mac_tree s)
      else tree_put ?k (remove1 a L) (neighbor_mac_tree s)"
    have h: "hw_only (s\<lparr>neighbor_mac_tree := ?t\<rparr>) s'"
      using call a r True L
      by (auto simp: sai_fib_neighbor_mac_entry_remove_def sai_fib_neighbor_fdb_entry_dereg_def Let_def
          split: if_splits prod.splits dest!: hw_call_only)
    from mac_step_remove [OF inv L(1) a r refl refl]
    have "fib_inv u (s\<lparr>neighbor_mac_tree := ?t\<rparr>)" "mac_step a False s (s\<lparr>neighbor_mac_tree := ?t\<rparr>)"
      by (rule conjunct1, rule conjunct2)
    with hw_only_inv [OF h] mac_step_hw_trans [OF _ h] show ?thesis by blast
  qed
qed

lemma mac_entry_remove_undefined:
  "sai_fib_neighbor_mac_entry_remove e a s = (UNDEFINED_BEHAVIOUR, s') \<Longrightarrow> s' = s"
  by (auto simp: sai_fib_neighbor_mac_entry_remove_def Let_def split: if_splits option.splits prod.splits)

lemma mac_entry_insert_result:
  assumes inv: "fib_inv u s" and a: "nh_at s a = Some n" "is_owner u SAI_FIB_OWNER_NEIGHBOR n"
    and no: "\<not> mac_listed s a"
    and call: "sai_fib_neighbor_mac_entry_insert e a s = (st, s')"
  shows "fib_inv u s' \<and> mac_step a (mac_listed s' a) s s' \<and>
    (mac_listed s' a \<longleftrightarrow> st = SAI_STATUS_SUCCESS \<and>
       (\<exists>rif. rif_at s (nk_rif_id (nh_key n)) = Some rif \<and> rif_type rif = SAI_ROUTER_INTERFACE_TYPE_VLAN))"
proof -
  obtain rif where r: "rif_at s (nk_rif_id (nh_key n)) = Some rif" by (rule nh_rif [OF inv a(1)])
  let ?k = "(rif_vlan_id rif, nh_mac_addr n)"
  note ins = mac_step_insert [OF _ _ a(2) _ _ refl _ refl]
  consider (port) "rif_type rif \<noteq> SAI_ROUTER_INTERFACE_TYPE_VLAN"
    | (old) L where "rif_type rif = SAI_ROUTER_INTERFACE_TYPE_VLAN" "tree_get (neighbor_mac_tree s) ?k = Some L"
    | (new) "rif_type rif = SAI_ROUTER_INTERFACE_TYPE_VLAN" "tree_get (neighbor_mac_tree s) ?k = None"
    by fastforce
  then show ?thesis
  proof cases
    case port
    then have "s' = s" using call a r by (simp add: sai_fib_neighbor_mac_entry_insert_def)
    then show ?thesis using inv no port r mac_step_hw [of s s a] by simp
  next
    case old
    then have "st = SAI_STATUS_SUCCESS"
      "s' = s\<lparr>neighbor_mac_tree := tree_put ?k (L @ [a]) (neighbor_mac_tree s)\<rparr>"
      using call a r by (simp_all add: sai_fib_neighbor_mac_entry_insert_def)
    with ins [OF inv a(1) r old(1) no] old r show ?thesis by (simp add: mac_step_def)
  next
    case new
    obtain ok1 s1 where al: "sai_fib_neighbor_mac_entry_node_alloc e s = (ok1, s1)" by force
    obtain ok2 s2 where ri: "radix_insert_ok e (neighbor_mac_tree s1) ?k s1 = (ok2, s2)" by force
    have h1: "hw_only s s1" using al by (auto simp: sai_fib_neighbor_mac_entry_node_alloc_def dest: hw_call_only)
    have "hw_only s1 s2" using ri by (auto simp: radix_insert_ok_def split: prod.splits dest!: hw_call_only)
    with h1 have h2: "hw_only s s2" by (rule hw_only_trans)
    show ?thesis
    proof (cases "ok1 \<and> ok2")
      case False
      then have "st \<noteq> SAI_STATUS_SUCCESS" "hw_only s s'" using call a r new al ri h1 h2
        by (auto simp: sai_fib_neighbor_mac_entry_insert_def Let_def split: if_splits)
      then show ?thesis using no inv mac_step_hw [of s s' a] by (simp add: hw_only_inv mac_listed_hw)
    next
      case True
      let ?s3 = "s2\<lparr>neighbor_mac_tree := tree_put ?k [a] (neighbor_mac_tree s2)\<rparr>"
      obtain st4 s4 where reg: "sai_fib_neighbor_fdb_entry_reg e ?k ?s3 = (st4, s4)" by force
      have h4: "hw_only ?s3 s4" using reg by (auto simp: sai_fib_neighbor_fdb_entry_reg_def dest: hw_call_only)
      have inv2: "fib_inv u s2" "\<not> mac_listed s2 a" "nh_at s2 a = Some n"
        "rif_at s2 (nk_rif_id (nh_key n)) = Some rif" "tree_get (neighbor_mac_tree s2) ?k = None"
        using inv h2 no a r new(2) by (simp_all add: hw_only_inv mac_listed_hw hw_only_sel)
      from ins [OF inv2(1,3,4) new(1) inv2(2)] inv2(5)
      have 3: "fib_inv u ?s3" "mac_step a True s2 ?s3" by simp_all
      have 4: "fib_inv u s4" "mac_step a True s s4"
        using 3(1) hw_only_inv [OF h4] mac_step_trans [OF mac_step_hw [OF h2] mac_step_hw_trans [OF 3(2) h4]]
        by simp_all
      show ?thesis
      proof (cases "st4 = SAI_STATUS_SUCCESS")
        case True
        then have "st = SAI_STATUS_SUCCESS" "s' = s4" using call a r new al ri reg \<open>ok1 \<and> ok2\<close>
          by (auto simp: sai_fib_neighbor_mac_entry_insert_def Let_def split: if_splits)
        then show ?thesis using 4 r new(1) by (auto simp: mac_step_def)
      next
        case False
        obtain st5 s5 where rm: "sai_fib_neighbor_mac_entry_remove e a s4 = (st5, s5)" by force
        have "st = st4" "s' = s5" using call a r new al ri reg \<open>ok1 \<and> ok2\<close> False rm
          by (auto simp: sai_fib_neighbor_mac_entry_insert_def Let_def split: if_splits)
        moreover have "mac_only s s4" using 4(2) by (simp add: mac_step_def)
        then have "nh_at s4 a = Some n" using a by (simp add: mac_only_sel)
        from mac_entry_remove_result [OF 4(1) this rm] have "fib_inv u s5" "mac_step a False s4 s5" by simp_all
        ultimately show ?thesis using False mac_step_trans [OF 4(2)] by (auto simp: mac_step_def)
      qed
    qed
  qed
qed


section \<open>Changing the neighbor side of a node\<close>

lemma inv_neighbor_set:
  assumes inv: "fib_inv u s" and a: "nh_at s a = Some n"
    and same: "nh_key n' = nh_key n" "nh_vrf_id n' = nh_vrf_id n" "nh_next_hop_id n' = nh_next_hop_id n"
      "nh_ref_count n' = nh_ref_count n" "nh_group_list n' = nh_group_list n"
    and own: "owner_bits_ok u n'" "is_owner u SAI_FIB_OWNER_NEXT_HOP n' = is_owner u SAI_FIB_OWNER_NEXT_HOP n"
    and mac: "mac_listed s a \<Longrightarrow> is_owner u SAI_FIB_OWNER_NEIGHBOR n' \<and> nh_mac_addr n' = nh_mac_addr n"
  shows "fib_inv u (set_nh a n' s)"
proof (rule inv_set_nh [OF inv a])
  have "nh_next_hop_id n' = i" if "tree_get (nh_id_tree s) i = Some a" for i
    using nh_id_okD [OF fib_invD(6) [OF inv] that] a same by auto
  moreover have "is_owner u SAI_FIB_OWNER_NEIGHBOR n' \<and> nh_mac_addr n' = nh_mac_addr n"
    if "tree_get (neighbor_mac_tree s) k = Some L" "a \<in> set L" for k L
    using that mac unfolding mac_listed_def by blast
  ultimately show "nh_update_ok u s a n n'"
    using same own owned_node_unlinked [OF inv a] unfolding nh_update_ok_def by blast
qed

lemma inv_neighbor_attrs:
  assumes "fib_inv u s" "nh_at s a = Some n" "nh_same_links n n'"
    and "mac_listed s a \<Longrightarrow> nh_mac_addr n' = nh_mac_addr n"
  shows "fib_inv u (set_nh a n' s)"
proof (rule inv_neighbor_set [OF assms(1,2)])
  note sl = assms(3)
  show "owner_bits_ok u n'" using nh_owner_bits [OF assms(1,2)] by (simp add: nh_same_links_bits [OF sl])
  show "is_owner u SAI_FIB_OWNER_NEIGHBOR n' \<and> nh_mac_addr n' = nh_mac_addr n" if l: "mac_listed s a"
    using l mac_owner [OF assms(1,2)] assms(4) unfolding nh_same_links_owner [OF sl] mac_listed_def by blast
qed (use assms(3) nh_same_links_owner [OF assms(3)] in \<open>simp_all add: nh_same_links_def\<close>)

lemma info_reset_facts:
  assumes "util_ok u"
  shows "is_owner u f (sai_fib_neighbor_info_reset u n) \<longleftrightarrow>
      f = SAI_FIB_OWNER_NEXT_HOP \<and> is_owner u SAI_FIB_OWNER_NEXT_HOP n"
    "nh_key (sai_fib_neighbor_info_reset u n) = nh_key n"
    "nh_vrf_id (sai_fib_neighbor_info_reset u n) = nh_vrf_id n"
    "nh_next_hop_id (sai_fib_neighbor_info_reset u n) = nh_next_hop_id n"
    "nh_ref_count (sai_fib_neighbor_info_reset u n) = nh_ref_count n"
    "nh_group_list (sai_fib_neighbor_info_reset u n) = nh_group_list n"
    "owner_bits_ok u n \<Longrightarrow> owner_bits_ok u (sai_fib_neighbor_info_reset u n)"
  using assms
  by (cases f; simp add: sai_fib_neighbor_info_reset_def owner_bits_ok_def [of _ "n\<lparr>nh_packet_action := _,
      nh_mac_addr := _, nh_meta_data := _, nh_port_id := _\<rparr>"])+

lemma inv_neighbor_reset:
  assumes u: "util_ok u" and inv: "fib_inv u s" and a: "nh_at s a = Some n" and no: "\<not> mac_listed s a"
  shows "fib_inv u (set_nh a (sai_fib_neighbor_info_reset u n) s)"
  using no nh_owner_bits [OF inv a]
  by (intro inv_neighbor_set [OF inv a]) (simp_all add: info_reset_facts [OF u])

text \<open>The neighbors, and what an operation on the neighbor at \<open>a\<close> leaves alone.\<close>

definition neighbor_at :: "l3_util \<Rightarrow> 'h fib \<Rightarrow> addr \<Rightarrow> bool" where
  "neighbor_at u s a \<longleftrightarrow> (\<exists>n. nh_at s a = Some n \<and> is_owner u SAI_FIB_OWNER_NEIGHBOR n)"

definition neighbor_frame :: "addr \<Rightarrow> 'h fib \<Rightarrow> 'h fib \<Rightarrow> bool" where
  "neighbor_frame a s s' \<longleftrightarrow>
     nh_frame a (s\<lparr>neighbor_mac_tree := neighbor_mac_tree s'\<rparr>) s' \<and> nh_id_tree s' = nh_id_tree s \<and>
     (\<forall>b. b \<noteq> a \<longrightarrow> mac_listed s' b = mac_listed s b)"

lemma neighbor_frame_trans:
  "neighbor_frame a s s' \<Longrightarrow> neighbor_frame a s' s'' \<Longrightarrow> neighbor_frame a s s''"
  by (auto simp: neighbor_frame_def nh_frame_def)

lemma neighbor_frame_nh:
  "nh_frame a s s' \<Longrightarrow> nh_id_tree s' = nh_id_tree s \<Longrightarrow> neighbor_frame a s s'"
  by (simp add: neighbor_frame_def nh_frame_def mac_listed_def)

lemma neighbor_frame_set_nh [simp]: "neighbor_frame a s (set_nh a n s)"
  by (simp add: neighbor_frame_nh nh_frame_set_nh)

lemma neighbor_frame_mac: "mac_step a l s s' \<Longrightarrow> neighbor_frame a s s'"
  by (auto simp: neighbor_frame_def nh_frame_def mac_step_def mac_only_def)

lemma neighbor_frame_hw: "hw_addr_only s s' \<Longrightarrow> neighbor_frame a s s'"
  by (simp add: neighbor_frame_def nh_frame_def mac_listed_def hw_addr_only_sel)

lemma neighbor_frame_other: "neighbor_frame a s s' \<Longrightarrow> b \<noteq> a \<Longrightarrow> neighbor_at u s' b = neighbor_at u s b"
  by (simp add: neighbor_frame_def nh_frame_def neighbor_at_def)

lemma nh_owned_neighbor_frame:
  assumes "nh_owned s" "neighbor_frame a s s'" "\<And>n. nh_at s' a = Some n \<Longrightarrow> nh_owner_flag n \<noteq> 0"
  shows "nh_owned s'"
  using nh_owned_frame [of "s\<lparr>neighbor_mac_tree := neighbor_mac_tree s'\<rparr>" a s'] assms
  by (simp add: neighbor_frame_def nh_owned_def)

section \<open>Creating a neighbor\<close>

text \<open>The node of a new neighbor: a next hop that becomes a neighbor too, or a new node.\<close>

definition neighbor_node_ok :: "l3_util \<Rightarrow> nh_node \<Rightarrow> addr \<Rightarrow> 'h fib \<Rightarrow> 'h fib \<Rightarrow> bool" where
  "neighbor_node_ok u n a s s' \<longleftrightarrow>
     fib_inv u s' \<and> neighbor_frame a s s' \<and> \<not> neighbor_at u s a \<and> \<not> mac_listed s a \<and>
     \<not> mac_listed s' a \<and> length (nh_heap s') \<le> length (nh_heap s) + 1 \<and>
     (\<exists>m. nh_at s' a = Some m \<and> is_owner u SAI_FIB_OWNER_NEIGHBOR m \<and> nh_key m = nh_key n \<and>
        nh_mac_addr m = nh_mac_addr n \<and> nh_packet_action m = nh_packet_action n)"

lemma owner_set_action [simp]: "nh_packet_action (sai_fib_set_next_hop_owner u f n) = nh_packet_action n"
  by (simp add: sai_fib_set_next_hop_owner_def)

lemma not_neighbor_unlisted:
  assumes "fib_inv u s" "\<not> neighbor_at u s a"
  shows "\<not> mac_listed s a"
proof
  assume "mac_listed s a"
  then obtain k L where L: "tree_get (neighbor_mac_tree s) k = Some L" "a \<in> set L"
    by (auto simp: mac_listed_def)
  from mac_okD [OF fib_invD(11) [OF assms(1)] L(1)] L(2) have "neighbor_at u s a"
    by (auto simp: mac_member_ok_def neighbor_at_def)
  with assms(2) show False ..
qed

lemma neighbor_node_create_result:
  assumes u: "util_ok (util e)" and inv: "fib_inv (util e) s" and len: "length (nh_heap s) + 1 < 2 ^ 32"
    and n: "nh_info_ok (util e) s n" "nh_owner_flag n = 0" "nh_group_list n = []"
    and v: "vrf_at s (nh_vrf_id n) = Some v"
    and call: "sai_fib_neighbor_node_create e n s = (res, s')"
  shows "case res of Inl st \<Rightarrow> st \<noteq> SAI_STATUS_SUCCESS \<and> hw_addr_only s s'
    | Inr a \<Rightarrow> neighbor_node_ok (util e) n a s s'"
proof (cases "ip_next_hop_node_get (util e) s (nk_rif_id (nh_key n)) (nk_ip_addr (nh_key n))")
  case (Some a)
  then obtain m where m: "nh_at s a = Some m" "nh_key m = \<lparr>nk_type = SAI_NEXT_HOP_IP,
      nk_rif_id = nk_rif_id (nh_key n), nk_ip_addr = nk_ip_addr (nh_key n)\<rparr>"
    by (rule lookup_node [OF u inv])
  show ?thesis
  proof (cases "is_owner (util e) SAI_FIB_OWNER_NEIGHBOR m")
    case True
    then show ?thesis using call Some m by (auto simp: sai_fib_neighbor_node_create_def hw_only_addr)
  next
    case False
    then have no: "\<not> neighbor_at (util e) s a" using m by (simp add: neighbor_at_def)
    note unl = not_neighbor_unlisted [OF inv no]
    let ?m = "sai_fib_set_next_hop_owner (util e) SAI_FIB_OWNER_NEIGHBOR (sai_fib_neighbor_attr_copy m n)"
    have c: "res = Inr a" "s' = set_nh a ?m s"
      using call Some m False by (simp_all add: sai_fib_neighbor_node_create_def)
    have i: "fib_inv (util e) s'" unfolding c(2)
      using unl u nh_owner_bits [OF inv m(1)]
      by (intro inv_neighbor_set [OF inv m(1)]) (simp_all add: sai_fib_neighbor_attr_copy_def)
    have "nh_key n = nh_key m" using m(2) n(1) by (simp add: nh_info_ok_def)
    then show ?thesis
      using c i u m unl no by (simp add: neighbor_node_ok_def mac_listed_def length_put
          sai_fib_neighbor_attr_copy_def)
  qed
next
  case None
  obtain rif where r: "rif_at s (nk_rif_id (nh_key n)) = Some rif" "rif_vrf_id rif = nh_vrf_id n"
    using n(1) by (auto simp: nh_info_ok_def)
  obtain res1 s1 where nc: "sai_fib_ip_next_hop_node_create e (nh_vrf_id n) n s = (res1, s1)" by force
  have gl: "n\<lparr>nh_group_list := []\<rparr> = n" using n(3) by simp
  from node_create_result [OF inv v r(1) nc] consider
      (bad) st where "res1 = Inl st" "st \<noteq> SAI_STATUS_SUCCESS" "hw_addr_only s s1"
    | (ok) h where "res1 = Inr (next_addr s)" "tree_get (vrf_nh_tree v) (nh_key n) = None"
        "s1 = node_added (next_addr s) n v rif (s\<lparr>hw := h, next_addr := next_addr s + 1\<rparr>)"
    unfolding gl by blast
  then show ?thesis
  proof cases
    case bad
    then show ?thesis using call None nc by (auto simp: sai_fib_neighbor_node_create_def)
  next
    case ok
    let ?a = "next_addr s"
    let ?t = "s\<lparr>hw := h, next_addr := ?a + 1\<rparr>"
    let ?m = "sai_fib_set_next_hop_owner (util e) SAI_FIB_OWNER_NEIGHBOR n"
    have fresh: "nh_at s ?a = None" by (rule fresh_addr(1) [OF fib_invD(1) [OF inv]])
    have t: "hw_addr_only s ?t" by (rule hw_addr_onlyI) simp
    have inv1: "fib_inv (util e) s1" unfolding ok(3)
      by (rule node_added_inv [where v = v])
         (use hw_addr_only_inv [OF t inv] fresh v ok(2) n r in \<open>simp_all add: nh_info_ok_def\<close>)
    have at: "nh_at s1 ?a = Some n" by (simp add: ok(3) node_added_def)
    have c: "res = Inr ?a" "s' = set_nh ?a ?m s1"
      using call None nc ok(1) at by (simp_all add: sai_fib_neighbor_node_create_def)
    have no: "\<not> neighbor_at (util e) s ?a" using fresh by (simp add: neighbor_at_def)
    note unl = not_neighbor_unlisted [OF inv no]
    have unl1: "\<not> mac_listed s1 ?a" using unl by (simp add: mac_listed_def ok(3) node_added_def)
    have i: "fib_inv (util e) s'" unfolding c(2)
      using unl1 u nh_owner_bits [OF inv1 at] by (intro inv_neighbor_set [OF inv1 at]) simp_all
    have "nh_frame ?a ?t s1" unfolding ok(3) by (rule nh_frame_added) (use v r in simp_all)
    then have "neighbor_frame ?a s s1"
      using neighbor_frame_nh [of ?a ?t s1] neighbor_frame_hw [OF t] neighbor_frame_trans
      by (simp add: ok(3) node_added_def) blast
    then have "neighbor_frame ?a s s'" unfolding c(2) using neighbor_frame_set_nh neighbor_frame_trans by blast
    moreover have "length (nh_heap s') \<le> length (nh_heap s) + 1"
      using fresh by (simp add: c(2) ok(3) node_added_def length_put_new)
    ultimately show ?thesis
      using c i u unl no unl1 by (simp add: neighbor_node_ok_def mac_listed_def)
  qed
qed


lemma mac_step_heap: "mac_step a l s s' \<Longrightarrow> nh_heap s' = nh_heap s"
  by (simp add: mac_step_def mac_only_sel)

lemma mac_step_listed: "mac_step a l s s' \<Longrightarrow> mac_listed s' a = l"
  by (simp add: mac_step_def)

lemma mac_listed_set_nh [simp]: "mac_listed (set_nh a n s) b = mac_listed s b"
  by (simp add: mac_listed_def)

text \<open>A neighbor on a VLAN interface, which FDB events can reach.\<close>

definition on_vlan :: "'h fib \<Rightarrow> nh_node \<Rightarrow> bool" where
  "on_vlan s n \<longleftrightarrow> (\<exists>rif. rif_at s (nk_rif_id (nh_key n)) = Some rif \<and>
     rif_type rif = SAI_ROUTER_INTERFACE_TYPE_VLAN)"

lemma create_steps_result:
  assumes inv: "fib_inv (util e) s" and a: "nh_at s a = Some n"
    and own: "is_owner (util e) SAI_FIB_OWNER_NEIGHBOR n" and no: "\<not> mac_listed s a"
    and call: "neighbor_create_steps e a s = (st, s')"
  shows "fib_inv (util e) s' \<and> neighbor_frame a s s' \<and> length (nh_heap s') = length (nh_heap s) \<and>
    (\<exists>p. nh_at s' a = Some (n\<lparr>nh_port_id := p\<rparr>)) \<and>
    (st = SAI_STATUS_SUCCESS \<longrightarrow> (mac_listed s' a \<longleftrightarrow> on_vlan s n))"
proof -
  obtain st1 n1 s1 where res: "sai_fib_neighbor_port_id_resolve e n s = (st1, n1, s1)" by (metis prod_cases3)
  from port_id_resolve_result [OF res] obtain p where n1: "nh_same_links n n1" "hw_only s s1"
    "n1 = n\<lparr>nh_port_id := p\<rparr>" by auto
  let ?s2 = "set_nh a n1 s1"
  have at1: "nh_at s1 a = Some n" using a n1(2) by (simp add: hw_only_sel)
  have inv2: "fib_inv (util e) ?s2"
    using n1 inv by (intro inv_neighbor_attrs [OF _ at1]) (simp_all add: hw_only_inv)
  have no2: "\<not> mac_listed ?s2 a" using no mac_listed_hw [OF n1(2)] by simp
  have fr2: "neighbor_frame a s ?s2"
    using neighbor_frame_hw [OF hw_only_addr [OF n1(2)]] neighbor_frame_set_nh neighbor_frame_trans by blast
  have len2: "length (nh_heap ?s2) = length (nh_heap s)" using at1 n1(2) by (simp add: length_put hw_only_sel)
  show ?thesis
  proof (cases "st1 = SAI_STATUS_SUCCESS")
    case False
    then have "s' = ?s2" "st \<noteq> SAI_STATUS_SUCCESS" using call a res by (simp_all add: neighbor_create_steps_def)
    then show ?thesis using inv2 fr2 len2 n1(3) by auto
  next
    case True
    obtain st3 s3 where ins: "sai_fib_neighbor_mac_entry_insert e a ?s2 = (st3, s3)" by force
    have own2: "nh_at ?s2 a = Some n1" "is_owner (util e) SAI_FIB_OWNER_NEIGHBOR n1"
      using own n1(1) by (simp_all add: nh_same_links_owner)
    note I = mac_entry_insert_result [OF inv2 own2 no2 ins]
    have "mac_listed s3 a \<longleftrightarrow> st3 = SAI_STATUS_SUCCESS \<and> on_vlan s n"
      using conjunct2 [OF conjunct2 [OF I]] n1(2,3) by (simp add: on_vlan_def hw_only_sel)
    with I have 3: "fib_inv (util e) s3" "mac_step a (mac_listed s3 a) ?s2 s3"
      "mac_listed s3 a \<longleftrightarrow> st3 = SAI_STATUS_SUCCESS \<and> on_vlan s n" by blast+
    have fr3: "neighbor_frame a s s3" using fr2 neighbor_frame_mac [OF 3(2)] neighbor_frame_trans by blast
    have at3: "nh_at s3 a = Some n1" "length (nh_heap s3) = length (nh_heap s)"
      using mac_step_heap [OF 3(2)] len2 by simp_all
    show ?thesis
    proof (cases "st3 = SAI_STATUS_SUCCESS")
      case False
      then have "s' = s3" "st \<noteq> SAI_STATUS_SUCCESS"
        using call a res True ins by (simp_all add: neighbor_create_steps_def)
      then show ?thesis using 3(1) fr3 at3 n1(3) by auto
    next
      case True3: True
      have h: "hw_only s3 s'" using call a res True ins True3
        by (auto simp: neighbor_create_steps_def dest: hw_call_only)
      then have "neighbor_frame a s s'"
        using fr3 neighbor_frame_hw [OF hw_only_addr [OF h]] neighbor_frame_trans by blast
      then show ?thesis using 3 True3 at3 n1(3) h
        by (auto simp: hw_only_inv hw_only_sel mac_listed_hw)
    qed
  qed
qed

lemma create_undo_result:
  assumes u: "util_ok (util e)" and inv: "fib_inv (util e) s" and len: "length (nh_heap s) < 2 ^ 32"
    and a: "nh_at s a = Some n" and call: "neighbor_create_undo e a s = (True, s')"
  shows "fib_inv (util e) s' \<and> neighbor_frame a s s' \<and> \<not> neighbor_at (util e) s' a \<and> \<not> mac_listed s' a \<and>
    (\<forall>m. nh_at s' a = Some m \<longrightarrow> nh_owner_flag m \<noteq> 0)"
proof -
  obtain st1 s1 where rm: "sai_fib_neighbor_mac_entry_remove e a s = (st1, s1)" by force
  have st1: "st1 \<noteq> UNDEFINED_BEHAVIOUR" using call rm by (auto simp: neighbor_create_undo_def)
  from mac_entry_remove_result [OF inv a rm] have 1: "fib_inv (util e) s1" "mac_step a False s s1" by simp_all
  have at1: "nh_at s1 a = Some n" using a mac_step_heap [OF 1(2)] by simp
  note no1 = mac_step_listed [OF 1(2)]
  let ?n = "sai_fib_neighbor_info_reset (util e) n"
  let ?s2 = "set_nh a ?n s1"
  have 2: "fib_inv (util e) ?s2" using inv_neighbor_reset [OF u 1(1) at1] no1 by simp
  have len2: "length (nh_heap ?s2) < 2 ^ 32" using len at1 mac_step_heap [OF 1(2)] by (simp add: length_put)
  have at2: "nh_at ?s2 a = Some ?n" by simp
  obtain v rif where v: "vrf_at ?s2 (nh_vrf_id ?n) = Some v" "rif_at ?s2 (nk_rif_id (nh_key ?n)) = Some rif"
    "sai_fib_check_and_delete_ip_next_hop_node (nh_vrf_id ?n) a ?s2 =
     (SAI_STATUS_SUCCESS, if nh_owner_flag ?n = 0 then node_freed a ?n v rif ?s2 else ?s2)"
    by (rule check_and_delete_result [OF 2 len2 at2])
  have s': "s' = (if nh_owner_flag ?n = 0 then node_freed a ?n v rif ?s2 else ?s2)"
    using call rm st1 at1 v(3) by (simp add: neighbor_create_undo_def info_reset_facts [OF u])
  have fr2: "neighbor_frame a s ?s2"
    using neighbor_frame_mac [OF 1(2)] neighbor_frame_set_nh neighbor_frame_trans by blast
  have "neighbor_frame a ?s2 (node_freed a ?n v rif ?s2)"
    by (rule neighbor_frame_nh [OF nh_frame_freed [OF v(1,2)]]) (simp add: node_freed_def sai_fib_nh_node_free_def)
  then have fr: "neighbor_frame a s s'" using fr2 neighbor_frame_trans by (simp add: s') blast
  have "fib_inv (util e) (node_freed a ?n v rif ?s2)" if "nh_owner_flag ?n = 0"
    by (rule node_freed_inv [OF u 2 at2 that v(1,2)])
  then have "fib_inv (util e) s'" using 2 by (simp add: s')
  moreover have gone: "nh_at (node_freed a ?n v rif ?s2) a = None"
    using 2 by (simp add: node_freed_def sai_fib_nh_node_free_def fib_inv_def trees_ok_def)
  moreover have "neighbor_mac_tree s' = neighbor_mac_tree s1"
    by (simp add: s' node_freed_def sai_fib_nh_node_free_def)
  then have "\<not> mac_listed s' a" using no1 by (simp add: mac_listed_def)
  ultimately show ?thesis
    using fr by (simp add: s' neighbor_at_def info_reset_facts [OF u])
qed

text \<open>Undoing is not defined exactly when it unlinks a node that is not linked; nothing was done before.\<close>

lemma create_undo_undefined:
  assumes inv: "fib_inv (util e) s" and a: "nh_at s a = Some n"
    and call: "neighbor_create_undo e a s = (False, s')"
  shows "fib_inv (util e) s' \<and> mac_step a False s s'"
proof -
  obtain st1 s1 where rm: "sai_fib_neighbor_mac_entry_remove e a s = (st1, s1)" by force
  then have "s' = s1" using call by (auto simp: neighbor_create_undo_def split: if_splits option.splits)
  with mac_entry_remove_result [OF inv a rm] show ?thesis by simp
qed

lemma neighbor_key_result:
  assumes u: "util_ok (util e)" and inv: "fib_inv (util e) s"
    and call: "sai_fib_neighbor_key_validate_and_fill (util e) s ne n = (st, n')"
  shows "if st = SAI_STATUS_SUCCESS
    then sai_fib_neighbor_entry_validate (util e) s ne = SAI_STATUS_SUCCESS \<and>
      (\<exists>rif v. rif_at s (ne_rif_id ne) = Some rif \<and> vrf_at s (rif_vrf_id rif) = Some v \<and>
         n' = n\<lparr>nh_vrf_id := rif_vrf_id rif, nh_key := snd (sai_fib_neighbor_ip_next_hop_node_key_fill (util e) ne)\<rparr>)
    else True"
proof -
  have "vrf_id v = i" if "vrf_at s i = Some v" for i v
    using fib_invD(2) [OF inv] that by (simp add: vrf_ok_def)
  with call show ?thesis
    by (auto simp: sai_fib_neighbor_key_validate_and_fill_def vrf_for_rif_eq [OF u] Let_def
        split: if_splits option.splits prod.splits)
qed


text \<open>
  After a successful creation the entry has a neighbor, which had none before, with a MAC address that
  is not zero, linked exactly if it is on a VLAN; a failed one leaves every neighbor and every MAC
  list as they were, if what it does is defined.
\<close>

definition neighbor_created :: "'h l3_env \<Rightarrow> neighbor_entry \<Rightarrow> 'h fib \<Rightarrow> 'h fib \<Rightarrow> bool" where
  "neighbor_created e ne s s' \<longleftrightarrow>
     (\<exists>a n. \<not> neighbor_at (util e) s a \<and> neighbor_frame a s s' \<and>
        neighbor_node_find e s' ne = Inr (a, n) \<and>
        \<not> sai_fib_is_mac_address_zero (util e) (nh_mac_addr n) \<and> (mac_listed s' a \<longleftrightarrow> on_vlan s' n))"

definition neighbors_kept :: "l3_util \<Rightarrow> 'h fib \<Rightarrow> 'h fib \<Rightarrow> bool" where
  "neighbors_kept u s s' \<longleftrightarrow>
     (\<forall>b. neighbor_at u s' b = neighbor_at u s b \<and> mac_listed s' b = mac_listed s b) \<and>
     (\<exists>a. neighbor_frame a s s')"

lemma neighbors_kept_hw:
  assumes "hw_addr_only s s'"
  shows "neighbors_kept u s s'"
proof -
  have "\<exists>a. neighbor_frame a s s'" using neighbor_frame_hw [OF assms] by blast
  then show ?thesis using assms by (simp add: neighbors_kept_def neighbor_at_def mac_listed_def hw_addr_only_sel)
qed

lemma neighbors_kept_hw2:
  assumes "hw_only s s1" "hw_addr_only s1 s2"
  shows "neighbors_kept u s s2"
proof -
  from assms obtain h k m where "next_addr s \<le> m" "s2 = (s\<lparr>hw := h\<rparr>)\<lparr>hw := k, next_addr := m\<rparr>"
    by (auto simp: hw_only_def hw_addr_only_def)
  then have "hw_addr_only s s2" using hw_addr_onlyI [of s m k] by simp
  then show ?thesis by (rule neighbors_kept_hw)
qed

lemma on_vlan_frame: "neighbor_frame a s s' \<Longrightarrow> on_vlan s' n = on_vlan s n"
proof -
  assume "neighbor_frame a s s'"
  then have "map_option (rif_ref_count_update (\<lambda>_. 0)) (rif_at s' r) =
      map_option (rif_ref_count_update (\<lambda>_. 0)) (rif_at s r)" for r
    by (simp add: neighbor_frame_def nh_frame_def)
  from this [of "nk_rif_id (nh_key n)"] show ?thesis
    unfolding on_vlan_def
    by (cases "rif_at s (nk_rif_id (nh_key n))"; cases "rif_at s' (nk_rif_id (nh_key n))")
       (auto dest: arg_cong [where f = rif_type])
qed

text \<open>What validation and parsing hand to the creation of the node.\<close>

lemma neighbor_info_ready:
  assumes u: "util_ok (util e)" and inv: "fib_inv (util e) s" and len: "length (nh_heap s) + 1 < 2 ^ 32"
    and k: "sai_fib_neighbor_key_validate_and_fill (util e) s ne (sai_fib_neighbor_default_attr_set nh_zero)
      = (SAI_STATUS_SUCCESS, n1)"
    and f: "sai_fib_neighbor_info_fill e attrs True n1 s = (SAI_STATUS_SUCCESS, n2, fl, s1)"
  defines "key \<equiv> snd (sai_fib_neighbor_ip_next_hop_node_key_fill (util e) ne)"
  shows "nk_type key = SAI_NEXT_HOP_IP" "nk_rif_id key = ne_rif_id ne" "nh_key n2 = key"
    "\<not> sai_fib_is_mac_address_zero (util e) (nh_mac_addr n2)"
    "fib_inv (util e) s1" "length (nh_heap s1) + 1 < 2 ^ 32"
    "sai_fib_neighbor_node_create e n2 s1 = (res, s2) \<Longrightarrow>
     (case res of Inl st \<Rightarrow> st \<noteq> SAI_STATUS_SUCCESS \<and> hw_addr_only s1 s2
      | Inr a \<Rightarrow> neighbor_node_ok (util e) n2 a s1 s2)"
proof -
  let ?n0 = "sai_fib_neighbor_default_attr_set nh_zero"
  note F = neighbor_info_fill_result [OF u f]
  have s1: "hw_only s s1" using F by simp
  from neighbor_key_result [OF u inv k]
  obtain rif v where rv: "rif_at s (ne_rif_id ne) = Some rif" "vrf_at s (rif_vrf_id rif) = Some v"
    and n1: "n1 = ?n0\<lparr>nh_vrf_id := rif_vrf_id rif, nh_key := key\<rparr>" by (auto simp: key_def)
  show key: "nk_type key = SAI_NEXT_HOP_IP" "nk_rif_id key = ne_rif_id ne"
    by (simp_all add: key_def sai_fib_neighbor_ip_next_hop_node_key_fill_def split: prod.splits)
  have n2: "nh_key n2 = key" "nh_vrf_id n2 = rif_vrf_id rif" "nh_owner_flag n2 = 0"
    "nh_ref_count n2 = 0" "nh_group_list n2 = []" "\<not> sai_fib_is_mac_address_zero (util e) (nh_mac_addr n2)"
    using F n1 by (simp_all add: nh_same_links_def sai_fib_neighbor_default_attr_set_def nh_zero_def)
  then show "nh_key n2 = key" "\<not> sai_fib_is_mac_address_zero (util e) (nh_mac_addr n2)" by simp_all
  show inv1: "fib_inv (util e) s1" "length (nh_heap s1) + 1 < 2 ^ 32"
    using inv len s1 by (simp_all add: hw_only_inv hw_only_sel)
  have info: "nh_info_ok (util e) s1 n2"
    using n2 key rv s1 by (simp add: nh_info_ok_def owner_bits_ok_def hw_only_sel)
  have v1: "vrf_at s1 (nh_vrf_id n2) = Some v" using rv n2 s1 by (simp add: hw_only_sel)
  show "sai_fib_neighbor_node_create e n2 s1 = (res, s2) \<Longrightarrow>
     (case res of Inl st \<Rightarrow> st \<noteq> SAI_STATUS_SUCCESS \<and> hw_addr_only s1 s2
      | Inr a \<Rightarrow> neighbor_node_ok (util e) n2 a s1 s2)"
    by (rule neighbor_node_create_result [OF u inv1 info n2(3,5) v1])
qed

lemma created_node_unlisted:
  assumes "util_ok (util e)" "fib_inv (util e) s" "length (nh_heap s) + 1 < 2 ^ 32"
    and "sai_fib_neighbor_key_validate_and_fill (util e) s ne (sai_fib_neighbor_default_attr_set nh_zero)
      = (SAI_STATUS_SUCCESS, n1)"
    and "sai_fib_neighbor_info_fill e attrs True n1 s = (SAI_STATUS_SUCCESS, n2, fl, s1)"
    and "sai_fib_neighbor_node_create e n2 s1 = (Inr a, s2)"
  shows "fib_inv (util e) s2 \<and> \<not> mac_listed s2 a"
  using neighbor_info_ready(7) [OF assms] by (simp add: neighbor_node_ok_def)

lemma neighbor_create_result:
  assumes u: "util_ok (util e)" and inv: "fib_inv (util e) s" and own: "nh_owned s"
    and len: "length (nh_heap s) + 1 < 2 ^ 32"
    and call: "sai_fib_neighbor_create e ne attrs s = (st, s')"
  shows "fib_inv (util e) s' \<and> nh_owned s' \<and>
    (if st = SAI_STATUS_SUCCESS then neighbor_created e ne s s'
     else if st = UNDEFINED_BEHAVIOUR then \<exists>a. neighbor_frame a s s'
     else neighbors_kept (util e) s s')"
proof -
  let ?n0 = "sai_fib_neighbor_default_attr_set nh_zero"
  obtain st1 n1 where k: "sai_fib_neighbor_key_validate_and_fill (util e) s ne ?n0 = (st1, n1)" by force
  obtain st2 n2 fl s1 where f: "sai_fib_neighbor_info_fill e attrs True n1 s = (st2, n2, fl, s1)"
    by (metis prod_cases4)
  note F = neighbor_info_fill_result [OF u f]
  have s1: "hw_only s s1" using F by simp
  show ?thesis
  proof (cases "st1 = SAI_STATUS_SUCCESS \<and> st2 = SAI_STATUS_SUCCESS")
    case False
    then have "hw_only s s'" "st \<noteq> SAI_STATUS_SUCCESS"
      using call k f s1 by (auto simp: sai_fib_neighbor_create_def Let_def split: if_splits)
    moreover from this have "\<exists>a. neighbor_frame a s s'" using neighbor_frame_hw [OF hw_only_addr] by blast
    moreover have "neighbors_kept (util e) s s'" using \<open>hw_only s s'\<close> by (intro neighbors_kept_hw hw_only_addr)
    ultimately show ?thesis using inv own by (simp add: hw_only_inv nh_owned_def hw_only_sel)
  next
    case ok: True
    let ?key = "snd (sai_fib_neighbor_ip_next_hop_node_key_fill (util e) ne)"
    have kf: "sai_fib_neighbor_key_validate_and_fill (util e) s ne ?n0 = (SAI_STATUS_SUCCESS, n1)"
      "sai_fib_neighbor_info_fill e attrs True n1 s = (SAI_STATUS_SUCCESS, n2, fl, s1)"
      using k f ok by simp_all
    note R = neighbor_info_ready [OF u inv len kf]
    note key = R(1,2) and n2 = R(3,4)
    have inv1: "fib_inv (util e) s1" "length (nh_heap s1) + 1 < 2 ^ 32" "nh_owned s1"
      using R(5,6) own s1 by (simp_all add: hw_only_sel nh_owned_def)
    obtain res s2 where nc: "sai_fib_neighbor_node_create e n2 s1 = (res, s2)" by force
    note N = R(7) [OF nc]
    note kept1 = neighbors_kept_hw [OF hw_only_addr [OF s1]]
    show ?thesis
    proof (cases res)
      case (Inl st3)
      then have "st = st3" "s' = s2" using call k f ok nc by (simp_all add: sai_fib_neighbor_create_def)
      then have kept2: "neighbors_kept (util e) s s'" and st: "st \<noteq> SAI_STATUS_SUCCESS"
        and s2: "hw_addr_only s1 s'" using N Inl neighbors_kept_hw2 [OF s1, of s2] by auto
      then have "\<exists>a. neighbor_frame a s s'" by (simp add: neighbors_kept_def)
      then show ?thesis using kept2 st inv1 s2
        by (simp add: hw_addr_only_inv nh_owned_def hw_addr_only_sel)
    next
      case (Inr a)
      with N have ok2: "neighbor_node_ok (util e) n2 a s1 s2" by simp
      then obtain m where m: "nh_at s2 a = Some m" "is_owner (util e) SAI_FIB_OWNER_NEIGHBOR m"
        "nh_key m = ?key" "nh_mac_addr m = nh_mac_addr n2"
        unfolding neighbor_node_ok_def n2(1) by blast
      have N2: "fib_inv (util e) s2" "neighbor_frame a s1 s2" "\<not> neighbor_at (util e) s a"
        "\<not> mac_listed s2 a" "\<not> mac_listed s a" "length (nh_heap s2) < 2 ^ 32"
        using ok2 kept1 inv1(2) by (auto simp: neighbor_node_ok_def neighbors_kept_def)
      obtain st3 s3 where cs: "neighbor_create_steps e a s2 = (st3, s3)" by force
      from create_steps_result [OF N2(1) m(1,2) N2(4) cs] obtain p where
        3: "fib_inv (util e) s3" "neighbor_frame a s2 s3" "length (nh_heap s3) = length (nh_heap s2)"
          "nh_at s3 a = Some (m\<lparr>nh_port_id := p\<rparr>)"
        and l3: "st3 = SAI_STATUS_SUCCESS \<longrightarrow> (mac_listed s3 a \<longleftrightarrow> on_vlan s2 m)" by auto
      have fr: "neighbor_frame a s s3"
        using neighbor_frame_hw [OF hw_only_addr [OF s1]] N2(2) 3(2) neighbor_frame_trans by blast
      show ?thesis
      proof (cases "st3 = SAI_STATUS_SUCCESS")
        case True
        then have c: "st = SAI_STATUS_SUCCESS" "s' = s3"
          using call k f ok nc Inr cs by (simp_all add: sai_fib_neighbor_create_def)
        let ?m = "m\<lparr>nh_port_id := p\<rparr>"
        have "ip_next_hop_node_get (util e) s3 (nk_rif_id (nh_key ?m)) (nk_ip_addr (nh_key ?m)) = Some a"
          by (rule node_lookup [OF u 3(1,4)])
        then have find: "neighbor_node_find e s3 ne = Inr (a, ?m)"
          using m(2,3) key 3(4) by (auto simp: neighbor_node_find_def split: prod.splits)
        have "on_vlan s3 ?m = on_vlan s2 m" using on_vlan_frame [OF 3(2)] by (simp add: on_vlan_def)
        then have "neighbor_created e ne s s3"
          unfolding neighbor_created_def using N2(3) fr find m(4) n2(2) l3 True
          by (intro exI [where x = a] exI [where x = ?m]) simp
        moreover have "nh_owned s3"
          by (rule nh_owned_neighbor_frame [OF own fr])
             (use 3(4) owner_flag_nonzero [OF u m(2)] in auto)
        ultimately show ?thesis using c 3(1) by simp
      next
        case False
        obtain ok4 s4 where un: "neighbor_create_undo e a s3 = (ok4, s4)" by force
        have c: "st = (if ok4 then st3 else UNDEFINED_BEHAVIOUR)" "s' = s4"
          using False call k f ok nc Inr cs un by (simp_all add: sai_fib_neighbor_create_def)
        have len3: "length (nh_heap s3) < 2 ^ 32" using N2(6) 3(3) by simp
        show ?thesis
        proof (cases ok4)
        case False
        from create_undo_undefined [OF 3(1,4)] un False
        have U: "fib_inv (util e) s'" "mac_step a False s3 s'" unfolding c(2) by simp_all
        have fr': "neighbor_frame a s s'" using fr neighbor_frame_mac [OF U(2)] neighbor_frame_trans by blast
        have "nh_at s' a = Some (m\<lparr>nh_port_id := p\<rparr>)" using 3(4) mac_step_heap [OF U(2)] by simp
        then have "nh_owned s'"
          by (intro nh_owned_neighbor_frame [OF own fr']) (use owner_flag_nonzero [OF u m(2)] in auto)
        then show ?thesis using c(1) False U(1) fr' by auto
        next
        case True
        then have "neighbor_create_undo e a s3 = (True, s')" using un c(2) by simp
        from create_undo_result [OF u 3(1) len3 3(4) this]
        have U: "fib_inv (util e) s'" "neighbor_frame a s3 s'" "\<not> neighbor_at (util e) s' a"
          "\<not> mac_listed s' a" "\<And>m. nh_at s' a = Some m \<Longrightarrow> nh_owner_flag m \<noteq> 0"
          by blast+
        have fr': "neighbor_frame a s s'" using fr U(2) neighbor_frame_trans by blast
        have "neighbor_at (util e) s' b = neighbor_at (util e) s b \<and> mac_listed s' b = mac_listed s b" for b
          using U(3,4) N2(3,5) neighbor_frame_other [OF fr'] fr'
          by (cases "b = a") (simp_all add: neighbor_frame_def)
        then have "neighbors_kept (util e) s s'" using fr' unfolding neighbors_kept_def by blast
        moreover have "\<exists>a. neighbor_frame a s s'" using fr' by blast
        ultimately show ?thesis using c True \<open>st3 \<noteq> SAI_STATUS_SUCCESS\<close> U nh_owned_neighbor_frame [OF own fr']
          by simp
        qed
      qed
    qed
  qed
qed


text \<open>
  The creation that is not defined: the egress port cannot be resolved while another neighbor on the
  VLAN has the MAC address. The node is not in the list yet, and undoing unlinks it from the list.
\<close>

lemma create_undefined:
  assumes inv: "fib_inv (util e) s" and n: "nh_at s a = Some n" and no: "\<not> mac_listed s a"
    and r: "rif_at s (nk_rif_id (nh_key n)) = Some rif" "rif_type rif = SAI_ROUTER_INTERFACE_TYPE_VLAN"
    and L: "tree_get (neighbor_mac_tree s) (rif_vlan_id rif, nh_mac_addr n) = Some L"
    and f: "fst (fst (get_fdb_entry_port (plat e) (rif_vlan_id rif) (nh_mac_addr n) (hw s))) \<noteq> SAI_STATUS_SUCCESS"
  shows "\<exists>st s1. neighbor_create_steps e a s = (st, s1) \<and> st \<noteq> SAI_STATUS_SUCCESS \<and>
    neighbor_create_undo e a s1 = (False, s1)"
proof -
  obtain st port h where g: "get_fdb_entry_port (plat e) (rif_vlan_id rif) (nh_mac_addr n) (hw s) = ((st, port), h)"
    by (metis prod.exhaust)
  let ?s = "set_nh a n (s\<lparr>hw := h\<rparr>)"
  have "neighbor_create_steps e a s = (st, ?s)" "st \<noteq> SAI_STATUS_SUCCESS"
    using n r f g by (simp_all add: neighbor_create_steps_def sai_fib_neighbor_port_id_resolve_def hw_call_def)
  moreover have "a \<notin> set L" using no L unfolding mac_listed_def by blast
  then have "sai_fib_neighbor_mac_entry_remove e a ?s = (UNDEFINED_BEHAVIOUR, ?s)"
    using r L by (simp add: sai_fib_neighbor_mac_entry_remove_def)
  then have "neighbor_create_undo e a ?s = (False, ?s)" by (simp add: neighbor_create_undo_def)
  ultimately show ?thesis by blast
qed

section \<open>Removing a neighbor\<close>

lemma neighbor_node_findD:
  "neighbor_node_find e s ne = Inr (a, n) \<Longrightarrow>
   nh_at s a = Some n \<and> is_owner (util e) SAI_FIB_OWNER_NEIGHBOR n"
  by (auto simp: neighbor_node_find_def split: prod.splits option.splits if_splits)

lemma neighbor_node_find_not_success:
  "neighbor_node_find e s ne = Inl st \<Longrightarrow> st \<noteq> SAI_STATUS_SUCCESS"
  by (auto simp: neighbor_node_find_def split: prod.splits option.splits if_splits)

definition neighbor_removed :: "'h l3_env \<Rightarrow> neighbor_entry \<Rightarrow> 'h fib \<Rightarrow> 'h fib \<Rightarrow> bool" where
  "neighbor_removed e ne s s' \<longleftrightarrow>
     (\<exists>a n. neighbor_node_find e s ne = Inr (a, n) \<and> neighbor_frame a s s' \<and>
        \<not> neighbor_at (util e) s' a \<and> \<not> mac_listed s' a \<and>
        nh_at s' a = (if is_owner (util e) SAI_FIB_OWNER_NEXT_HOP n
                      then Some (sai_fib_neighbor_info_reset (util e) n) else None))"

lemma neighbor_remove_result:
  assumes u: "util_ok (util e)" and inv: "fib_inv (util e) s" and own: "nh_owned s"
    and len: "length (nh_heap s) < 2 ^ 32"
    and call: "sai_fib_neighbor_remove e ne s = (st, s')"
  shows "fib_inv (util e) s' \<and> nh_owned s' \<and>
    (if st = SAI_STATUS_SUCCESS then neighbor_removed e ne s s'
     else nh_heap s' = nh_heap s \<and> (\<forall>b. neighbor_at (util e) s' b = neighbor_at (util e) s b) \<and>
       (\<exists>a. neighbor_frame a s s'))"
proof (cases "sai_fib_neighbor_entry_validate (util e) s ne = SAI_STATUS_SUCCESS \<and>
    (\<exists>p. neighbor_node_find e s ne = Inr p)")
  case False
  then have "s' = s" "st \<noteq> SAI_STATUS_SUCCESS" using call neighbor_node_find_not_success [of e s ne]
    by (auto simp: sai_fib_neighbor_remove_def Let_def split: if_splits sum.splits)
  moreover have "\<exists>a. neighbor_frame a s s" using neighbor_frame_hw [OF hw_only_addr [OF hw_only_refl]] by blast
  ultimately show ?thesis using inv own by simp
next
  case True
  then obtain a n where fnd: "neighbor_node_find e s ne = Inr (a, n)" by auto
  note a = conjunct1 [OF neighbor_node_findD [OF fnd]] and nb = conjunct2 [OF neighbor_node_findD [OF fnd]]
  obtain st1 s1 where rm: "sai_fib_neighbor_mac_entry_remove e a s = (st1, s1)" by force
  from mac_entry_remove_result [OF inv a rm] have 1: "fib_inv (util e) s1" "mac_step a False s s1" by simp_all
  have heap1: "nh_heap s1 = nh_heap s" by (rule mac_step_heap [OF 1(2)])
  then have at1: "nh_at s1 a = Some n" using a by simp
  note no1 = mac_step_listed [OF 1(2)]
  show ?thesis
  proof (cases "st1 = SAI_STATUS_SUCCESS")
    case False
    then have "s' = s1" "st \<noteq> SAI_STATUS_SUCCESS"
      using call True fnd rm by (simp_all add: sai_fib_neighbor_remove_def)
    moreover have "\<exists>a. neighbor_frame a s s1" using neighbor_frame_mac [OF 1(2)] by blast
    ultimately show ?thesis using 1(1) heap1 own by (simp add: nh_owned_def neighbor_at_def)
  next
    case ok1: True
    let ?n = "sai_fib_neighbor_info_reset (util e) n"
    let ?s2 = "set_nh a ?n s1"
    obtain st3 s3 where np: "hw_call (neighbor_remove (neighbor_npu e) ?n) ?s2 = (st3, s3)" by force
    note h3 = hw_call_only [OF np]
    have inv2: "fib_inv (util e) ?s2" using inv_neighbor_reset [OF u 1(1) at1] no1 by simp
    show ?thesis
    proof (cases "st3 = SAI_STATUS_SUCCESS")
      case False
      let ?s4 = "set_nh a n s3"
      obtain st5 s5 where ins: "sai_fib_neighbor_mac_entry_insert e a ?s4 = (st5, s5)" by force
      have c: "st = st3" "s' = s5"
        using call True fnd rm ok1 np False ins by (simp_all add: sai_fib_neighbor_remove_def Let_def)
      from h3 obtain h where "s3 = ?s2\<lparr>hw := h\<rparr>" by (auto simp: hw_only_def)
      then have s4: "?s4 = s1\<lparr>hw := h\<rparr>" using at1 by (simp add: set_same)
      have "nh_at ?s4 a = Some n" "fib_inv (util e) ?s4" "\<not> mac_listed ?s4 a"
        unfolding s4 using at1 1(1) no1 by (simp_all add: mac_listed_def)
      from mac_entry_insert_result [OF this(2,1) nb this(3) ins]
      have 5: "fib_inv (util e) s5" "mac_step a (mac_listed s5 a) ?s4 s5" by blast+
      have "nh_heap s5 = nh_heap s" using mac_step_heap [OF 5(2)] heap1 unfolding s4 by simp
      moreover have "neighbor_frame a s1 ?s4" unfolding s4 by (rule neighbor_frame_hw [OF hw_only_addr [OF hw_only_upd]])
      then have "\<exists>a. neighbor_frame a s s5"
        using neighbor_frame_trans [OF neighbor_frame_mac [OF 1(2)]
          neighbor_frame_trans [OF _ neighbor_frame_mac [OF 5(2)]]] by blast
      ultimately show ?thesis using c False 5(1) own by (simp add: nh_owned_def neighbor_at_def)
    next
      case ok3: True
      have inv3: "fib_inv (util e) s3" using hw_only_inv [OF h3] inv2 by simp
      have at3: "nh_at s3 a = Some ?n" using h3 by (simp add: hw_only_sel)
      have len3: "length (nh_heap s3) < 2 ^ 32" using len h3 at1 heap1 by (simp add: hw_only_sel length_put)
      obtain v rif where v: "vrf_at s3 (nh_vrf_id ?n) = Some v" "rif_at s3 (nk_rif_id (nh_key ?n)) = Some rif"
        "sai_fib_check_and_delete_ip_next_hop_node (nh_vrf_id ?n) a s3 =
         (SAI_STATUS_SUCCESS, if nh_owner_flag ?n = 0 then node_freed a ?n v rif s3 else s3)"
        by (rule check_and_delete_result [OF inv3 len3 at3])
      let ?s' = "if nh_owner_flag ?n = 0 then node_freed a ?n v rif s3 else s3"
      have c: "st = SAI_STATUS_SUCCESS" "s' = ?s'"
        using call True fnd rm ok1 np ok3 v(3) by (simp_all add: sai_fib_neighbor_remove_def Let_def)
      have flag: "nh_owner_flag ?n = 0 \<longleftrightarrow> \<not> is_owner (util e) SAI_FIB_OWNER_NEXT_HOP n"
        using owner_flag_zero_iff [OF u, of ?n] nh_owner_bits [OF inv a] by (simp add: info_reset_facts [OF u])
      have "fib_inv (util e) (node_freed a ?n v rif s3)" if "nh_owner_flag ?n = 0"
        by (rule node_freed_inv [OF u inv3 at3 that v(1,2)])
      then have inv': "fib_inv (util e) s'" using inv3 by (simp add: c(2))
      have "neighbor_frame a s3 (node_freed a ?n v rif s3)"
        by (rule neighbor_frame_nh [OF nh_frame_freed [OF v(1,2)]]) (simp add: node_freed_def sai_fib_nh_node_free_def)
      moreover have "neighbor_frame a s s3"
        using neighbor_frame_mac [OF 1(2)] neighbor_frame_set_nh neighbor_frame_hw [OF hw_only_addr [OF h3]]
          neighbor_frame_trans by blast
      ultimately have fr: "neighbor_frame a s s'" using neighbor_frame_trans by (simp add: c(2)) blast
      have "nh_at (node_freed a ?n v rif s3) a = None"
        using fib_invD(1) [OF inv3] by (simp add: node_freed_def sai_fib_nh_node_free_def trees_ok_def)
      then have at': "nh_at s' a = (if is_owner (util e) SAI_FIB_OWNER_NEXT_HOP n then Some ?n else None)"
        using at3 flag by (simp add: c(2))
      have "neighbor_mac_tree s' = neighbor_mac_tree s1"
        using h3 by (simp add: c(2) node_freed_def sai_fib_nh_node_free_def hw_only_sel)
      then have no': "\<not> mac_listed s' a" using no1 by (simp add: mac_listed_def)
      have "\<not> neighbor_at (util e) s' a"
        using at' by (auto simp: neighbor_at_def info_reset_facts [OF u])
      then have "neighbor_removed e ne s s'"
        using fnd fr no' at' unfolding neighbor_removed_def by blast
      moreover have "nh_owned s'"
        by (rule nh_owned_neighbor_frame [OF own fr]) (use at' flag in \<open>auto split: if_splits\<close>)
      ultimately show ?thesis using c(1) inv' by simp
    qed
  qed
qed


section \<open>Setting an attribute\<close>

text \<open>
  What a successful call does to the node: the attribute is filled in, and with a new MAC address the
  egress port is resolved again. Failed calls change nothing.
\<close>

definition neighbor_updated :: "'h l3_env \<Rightarrow> neighbor_entry \<Rightarrow> neighbor_attr \<Rightarrow> 'h fib \<Rightarrow> 'h fib \<Rightarrow> bool" where
  "neighbor_updated e ne attr s s' \<longleftrightarrow>
     (\<exists>a n n1 fl s1 n' p. neighbor_node_find e s ne = Inr (a, n) \<and>
        neighbor_attr_fill e attr n s = (SAI_STATUS_SUCCESS, n1, fl, s1) \<and>
        n' = (if SAI_FIB_NEIGHBOR_DEST_MAC_ATTR_FLAG \<in> fl then n1\<lparr>nh_port_id := p\<rparr> else n1) \<and>
        nh_at s' a = Some n' \<and> neighbor_frame a s s')"

lemma neighbor_frame_neighbors:
  assumes "neighbor_frame a s s'" "neighbor_at u s a" "neighbor_at u s' a"
  shows "neighbor_at u s' b = neighbor_at u s b"
  using assms neighbor_frame_other [OF assms(1), of b u] by (cases "b = a") auto

lemma neighbor_attribute_set_result:
  assumes u: "util_ok (util e)" and inv: "fib_inv (util e) s" and own: "nh_owned s"
    and call: "sai_fib_neighbor_attribute_set e ne attr s = (st, s')"
  shows "fib_inv (util e) s' \<and> nh_owned s' \<and>
    (\<forall>b. neighbor_at (util e) s' b = neighbor_at (util e) s b) \<and>
    (if st = SAI_STATUS_SUCCESS then neighbor_updated e ne attr s s' else hw_only s s')"
proof (cases "sai_fib_neighbor_entry_validate (util e) s ne = SAI_STATUS_SUCCESS \<and>
    (\<exists>p. neighbor_node_find e s ne = Inr p)")
  case False
  then have "s' = s" "st \<noteq> SAI_STATUS_SUCCESS" using call neighbor_node_find_not_success [of e s ne]
    by (auto simp: sai_fib_neighbor_attribute_set_def Let_def split: if_splits sum.splits)
  then show ?thesis using inv own by simp
next
  case True
  then obtain a n where fnd: "neighbor_node_find e s ne = Inr (a, n)" by auto
  note a = conjunct1 [OF neighbor_node_findD [OF fnd]] and nb = conjunct2 [OF neighbor_node_findD [OF fnd]]
  obtain st1 n1 fl s1 where f: "neighbor_attr_fill e attr n s = (st1, n1, fl, s1)" by (metis prod_cases4)
  note F = neighbor_attr_fill_result [OF f]
  obtain st2 n2 s2 where p: "(if SAI_FIB_NEIGHBOR_DEST_MAC_ATTR_FLAG \<in> fl
      then sai_fib_neighbor_port_id_resolve e n1 s1 else (SAI_STATUS_SUCCESS, n1, s1)) = (st2, n2, s2)"
    by (metis prod_cases3)
  have P: "nh_same_links n1 n2 \<and> nh_mac_addr n2 = nh_mac_addr n1 \<and> hw_only s1 s2 \<and>
      (\<exists>q. n2 = (if SAI_FIB_NEIGHBOR_DEST_MAC_ATTR_FLAG \<in> fl then n1\<lparr>nh_port_id := q\<rparr> else n1))"
    using p port_id_resolve_result [of e n1 s1 st2 n2 s2] by (cases "SAI_FIB_NEIGHBOR_DEST_MAC_ATTR_FLAG \<in> fl") auto
  obtain st3 s3 where np: "hw_call (neighbor_attr_set (neighbor_npu e) n2 fl) s2 = (st3, s3)" by force
  note h3 = hw_call_only [OF np]
  have h: "hw_only s s3" using F P h3 hw_only_trans by blast
  have fill: "sai_fib_neighbor_info_fill e [attr] False n s =
      (if st1 \<noteq> SAI_STATUS_SUCCESS then (sai_fib_attr_status_code_get (util e) st1 0, n1, fl, s1)
       else (SAI_STATUS_SUCCESS, n1, fl, s1))"
    using f util_ok_status [OF u, of st1 0] by (simp add: sai_fib_neighbor_info_fill_def)
  show ?thesis
  proof (cases "st1 = SAI_STATUS_SUCCESS \<and> st2 = SAI_STATUS_SUCCESS \<and> st3 = SAI_STATUS_SUCCESS")
    case False
    have "st \<noteq> SAI_STATUS_SUCCESS \<and> hw_only s s'"
    proof (cases "st1 = SAI_STATUS_SUCCESS")
      case st1: False
      then have "st = sai_fib_attr_status_code_get (util e) st1 0" "s' = s1"
        using call True fnd fill util_ok_status [OF u st1, of 0]
        by (simp_all add: sai_fib_neighbor_attribute_set_def)
      then show ?thesis using F util_ok_status [OF u st1, of 0] by simp
    next
      case st1: True
      have "hw_only s s2" using F P hw_only_trans by blast
      with h False st1 show ?thesis using call True fnd fill p np
        by (auto simp: sai_fib_neighbor_attribute_set_def split: if_split_asm)
    qed
    then have "hw_only s s'" "st \<noteq> SAI_STATUS_SUCCESS" by simp_all
    then show ?thesis using inv own by (simp add: hw_only_inv nh_owned_def hw_only_sel neighbor_at_def)
  next
    case ok: True
    have sl: "nh_same_links n n2" using F P nh_same_links_trans by blast
    have nb2: "is_owner (util e) SAI_FIB_OWNER_NEIGHBOR n2" using nb by (simp add: nh_same_links_owner [OF sl])
    have inv3: "fib_inv (util e) s3" "nh_at s3 a = Some n" using inv a h by (simp_all add: hw_only_inv hw_only_sel)
    have fr3: "neighbor_frame a s s3" by (rule neighbor_frame_hw [OF hw_only_addr [OF h]])
    show ?thesis
    proof (cases "SAI_FIB_NEIGHBOR_DEST_MAC_ATTR_FLAG \<in> fl \<and>
        fst (sai_fib_neighbor_mac_entry_remove e a s3) = UNDEFINED_BEHAVIOUR")
    case bad: True
    then obtain s4 where rm: "sai_fib_neighbor_mac_entry_remove e a s3 = (UNDEFINED_BEHAVIOUR, s4)"
      by (metis prod.collapse)
    have "st = UNDEFINED_BEHAVIOUR" "s' = s3"
      using call True fnd fill p np ok bad rm mac_entry_remove_undefined [OF rm]
      by (simp_all add: sai_fib_neighbor_attribute_set_def)
    then show ?thesis using inv own h by (simp add: hw_only_inv nh_owned_def hw_only_sel neighbor_at_def)
    next
    case dfd: False
    have "st = SAI_STATUS_SUCCESS \<and> fib_inv (util e) s' \<and> neighbor_frame a s s' \<and> nh_at s' a = Some n2"
    proof (cases "SAI_FIB_NEIGHBOR_DEST_MAC_ATTR_FLAG \<in> fl")
      case True2: True
      obtain st4 s4 where rm: "sai_fib_neighbor_mac_entry_remove e a s3 = (st4, s4)" by force
      from mac_entry_remove_result [OF inv3 rm] have 4: "fib_inv (util e) s4" "mac_step a False s3 s4" by simp_all
      have at4: "nh_at s4 a = Some n" using mac_step_heap [OF 4(2)] inv3(2) by simp
      note no4 = mac_step_listed [OF 4(2)]
      let ?s5 = "set_nh a n2 s4"
      have 5: "fib_inv (util e) ?s5" using no4 by (intro inv_neighbor_attrs [OF 4(1) at4 sl]) simp
      obtain st6 s6 where ins: "sai_fib_neighbor_mac_entry_insert e a ?s5 = (st6, s6)" by force
      have at5: "nh_at ?s5 a = Some n2" "\<not> mac_listed ?s5 a" using no4 by simp_all
      from mac_entry_insert_result [OF 5 at5(1) nb2 at5(2) ins]
      have 6: "fib_inv (util e) s6" "mac_step a (mac_listed s6 a) ?s5 s6" by blast+
      have c: "st = SAI_STATUS_SUCCESS" "s' = s6"
        using call True fnd fill p np ok True2 rm ins dfd by (simp_all add: sai_fib_neighbor_attribute_set_def)
      have "neighbor_frame a s s6"
        by (rule neighbor_frame_trans [OF fr3 neighbor_frame_trans [OF neighbor_frame_mac [OF 4(2)]
              neighbor_frame_trans [OF neighbor_frame_set_nh neighbor_frame_mac [OF 6(2)]]]])
      then show ?thesis using c 6(1) mac_step_heap [OF 6(2)] by simp
    next
      case noflag: False
      then have mac: "nh_mac_addr n2 = nh_mac_addr n" using F P ok by (simp add: mac_filled_def)
      have c: "st = SAI_STATUS_SUCCESS" "s' = set_nh a n2 s3"
        using call True fnd fill p np ok noflag by (simp_all add: sai_fib_neighbor_attribute_set_def)
      have "fib_inv (util e) s'" unfolding c(2) using mac by (intro inv_neighbor_attrs [OF inv3 sl])
      then show ?thesis using c neighbor_frame_trans [OF fr3 neighbor_frame_set_nh] by simp
    qed
    then have st: "st = SAI_STATUS_SUCCESS" and inv': "fib_inv (util e) s'"
      and fr: "neighbor_frame a s s'" and at': "nh_at s' a = Some n2" by simp_all
    have "nh_owned s'"
      by (rule nh_owned_neighbor_frame [OF own fr]) (use at' owner_flag_nonzero [OF u nb2] in auto)
    moreover have "neighbor_at (util e) s' b = neighbor_at (util e) s b" for b
      using a nb at' nb2 by (intro neighbor_frame_neighbors [OF fr]) (auto simp: neighbor_at_def)
    moreover have "neighbor_updated e ne attr s s'"
      using fnd f P ok at' fr unfolding neighbor_updated_def by blast
    ultimately show ?thesis using st inv' by simp
    qed
  qed
qed

lemma neighbor_attribute_get_hw:
  "sai_fib_neighbor_attribute_get e ne n s = (r, s') \<Longrightarrow> hw_only s s'"
  by (auto simp: sai_fib_neighbor_attribute_get_def split: if_splits sum.splits prod.splits dest: hw_call_only)


section \<open>FDB events\<close>

text \<open>
  An event changes egress ports only: of the nodes in \<open>A\<close>, and each of those either to \<open>p\<close> or not at
  all.
\<close>

definition ports_only :: "addr set \<Rightarrow> oid \<Rightarrow> 'h fib \<Rightarrow> 'h fib \<Rightarrow> bool" where
  "ports_only A p s s' \<longleftrightarrow>
     (\<exists>H h. s' = s\<lparr>nh_heap := H, hw := h\<rparr> \<and>
        (\<forall>b. b \<notin> A \<longrightarrow> tree_get H b = nh_at s b) \<and>
        (\<forall>b n. nh_at s b = Some n \<longrightarrow> tree_get H b = Some n \<or> tree_get H b = Some (n\<lparr>nh_port_id := p\<rparr>)) \<and>
        (\<forall>b. nh_at s b = None \<longrightarrow> tree_get H b = None))"

lemma ports_only_refl [simp]: "ports_only A p s s"
  by (auto simp: ports_only_def intro!: exI [where x = "nh_heap s"] exI [where x = "hw s"])

lemma port_id_set_loop_Cons:
  assumes "nh_at s a = Some n" "nh_port_id n \<noteq> p"
    and np: "hw_call (neighbor_attr_set (neighbor_npu e) (n\<lparr>nh_port_id := p\<rparr>) {SAI_FIB_NEIGHBOR_PORT_ID_ATTR_FLAG})
      (set_nh a (n\<lparr>nh_port_id := p\<rparr>) s) = (st1, s1)"
  obtains h where "s1 = (set_nh a (n\<lparr>nh_port_id := p\<rparr>) s)\<lparr>hw := h\<rparr>"
    "port_id_set_loop e p (a # L) st s = port_id_set_loop e p L st1
      (if st1 = SAI_STATUS_SUCCESS then s1 else s\<lparr>hw := h\<rparr>)"
proof -
  from np obtain h where h: "s1 = (set_nh a (n\<lparr>nh_port_id := p\<rparr>) s)\<lparr>hw := h\<rparr>" by (auto dest: hw_call_eqD)
  have undo: "set_nh a n s1 = s\<lparr>hw := h\<rparr>" using assms(1) by (simp add: h set_same)
  show thesis by (rule that [OF h]) (use assms undo in simp)
qed

lemma port_id_set_loop_inv:
  "fib_inv u s \<Longrightarrow> nh_owned s \<Longrightarrow> port_id_set_loop e p L st s = (st', s') \<Longrightarrow>
   fib_inv u s' \<and> nh_owned s' \<and> ports_only (set L) p s s'"
proof (induction L arbitrary: s st)
  case (Cons a L)
  have weak: "ports_only (set (a # L)) p s s'" if "ports_only (set L) p s s'"
    using that unfolding ports_only_def by auto
  show ?case
  proof (cases "\<exists>n. nh_at s a = Some n \<and> nh_port_id n \<noteq> p")
    case False
    then have "port_id_set_loop e p L st s = (st', s')" using Cons.prems(3) by (auto split: option.splits)
    from Cons.IH [OF Cons.prems(1,2) this] weak show ?thesis by blast
  next
    case True
    then obtain n where n: "nh_at s a = Some n" "nh_port_id n \<noteq> p" by auto
    let ?n = "n\<lparr>nh_port_id := p\<rparr>"
    obtain st1 s1 where np: "hw_call (neighbor_attr_set (neighbor_npu e) ?n
        {SAI_FIB_NEIGHBOR_PORT_ID_ATTR_FLAG}) (set_nh a ?n s) = (st1, s1)" by force
    obtain h where h: "s1 = (set_nh a ?n s)\<lparr>hw := h\<rparr>"
      "port_id_set_loop e p (a # L) st s = port_id_set_loop e p L st1
        (if st1 = SAI_STATUS_SUCCESS then s1 else s\<lparr>hw := h\<rparr>)"
      by (rule port_id_set_loop_Cons [OF n np])
    let ?t = "if st1 = SAI_STATUS_SUCCESS then s1 else s\<lparr>hw := h\<rparr>"
    have "fib_inv u (set_nh a ?n s)"
      by (rule inv_neighbor_attrs [OF Cons.prems(1) n(1)]) (simp_all add: nh_same_links_def)
    then have t: "fib_inv u ?t" using Cons.prems(1) by (simp add: h(1))
    have own: "nh_owned ?t"
      using Cons.prems(2) n(1) unfolding nh_owned_def by (auto simp: h(1))
    have "port_id_set_loop e p L st1 ?t = (st', s')" using Cons.prems(3) h(2) by simp
    from Cons.IH [OF t own this] have IH: "fib_inv u s'" "nh_owned s'" "ports_only (set L) p ?t s'" by simp_all
    then obtain H k where H: "s' = ?t\<lparr>nh_heap := H, hw := k\<rparr>" "\<forall>b. b \<notin> set L \<longrightarrow> tree_get H b = nh_at ?t b"
      "\<forall>b m. nh_at ?t b = Some m \<longrightarrow> tree_get H b = Some m \<or> tree_get H b = Some (m\<lparr>nh_port_id := p\<rparr>)"
      "\<forall>b. nh_at ?t b = None \<longrightarrow> tree_get H b = None" unfolding ports_only_def by blast
    have "s' = s\<lparr>nh_heap := H, hw := k\<rparr>" unfolding H(1) by (simp add: h(1) set_nh_def)
    moreover have at: "nh_at ?t b = (if b = a \<and> st1 = SAI_STATUS_SUCCESS then Some ?n else nh_at s b)" for b
      by (simp add: h(1))
    have "\<forall>b. b \<notin> set (a # L) \<longrightarrow> tree_get H b = nh_at s b" using H(2) at by auto
    moreover have "\<forall>b m. nh_at s b = Some m \<longrightarrow> tree_get H b = Some m \<or> tree_get H b = Some (m\<lparr>nh_port_id := p\<rparr>)"
    proof (intro allI impI)
      fix b m assume m: "nh_at s b = Some m"
      show "tree_get H b = Some m \<or> tree_get H b = Some (m\<lparr>nh_port_id := p\<rparr>)"
      proof (cases "b = a \<and> st1 = SAI_STATUS_SUCCESS")
        case True
        then have "nh_at ?t b = Some ?n" "m = n" using at m n(1) by simp_all
        with H(3) show ?thesis by fastforce
      next
        case False
        then have "nh_at ?t b = Some m" using at [of b] m by auto
        with H(3) show ?thesis by blast
      qed
    qed
    moreover have "\<forall>b. nh_at s b = None \<longrightarrow> tree_get H b = None"
      using H(4) at n(1) by (metis option.distinct(1))
    ultimately have "ports_only (set (a # L)) p s s'" unfolding ports_only_def by blast
    with IH show ?thesis by blast
  qed
qed simp

text \<open>When the hardware accepts every port, all neighbors of the entry get it.\<close>

definition neighbor_attr_accepting :: "'h l3_env \<Rightarrow> bool" where
  "neighbor_attr_accepting e \<longleftrightarrow> (\<forall>n f h. fst (neighbor_attr_set (neighbor_npu e) n f h) = SAI_STATUS_SUCCESS)"

lemma nh_port_same: "nh_port_id_update (\<lambda>_. nh_port_id n) n = n"
  by (cases n) simp

lemma port_id_set_loop_accepting:
  assumes acc: "neighbor_attr_accepting e"
  shows "port_id_set_loop e p L SAI_STATUS_SUCCESS s = (st', s') \<Longrightarrow> distinct L \<Longrightarrow>
   st' = SAI_STATUS_SUCCESS \<and>
   (\<forall>b. nh_at s' b = (if b \<in> set L then map_option (nh_port_id_update (\<lambda>_. p)) (nh_at s b) else nh_at s b))"
proof (induction L arbitrary: s)
  case (Cons a L)
  show ?case
  proof (cases "\<exists>n. nh_at s a = Some n \<and> nh_port_id n \<noteq> p")
    case False
    then have "port_id_set_loop e p L SAI_STATUS_SUCCESS s = (st', s')"
      using Cons.prems(1) by (auto split: option.splits)
    from Cons.IH [OF this] Cons.prems(2) False show ?thesis
      by (cases "nh_at s a") (auto simp: nh_port_same)
  next
    case True
    then obtain n where n: "nh_at s a = Some n" "nh_port_id n \<noteq> p" by auto
    let ?n = "n\<lparr>nh_port_id := p\<rparr>"
    obtain st1 s1 where np: "hw_call (neighbor_attr_set (neighbor_npu e) ?n
        {SAI_FIB_NEIGHBOR_PORT_ID_ATTR_FLAG}) (set_nh a ?n s) = (st1, s1)" by force
    have st1: "st1 = SAI_STATUS_SUCCESS"
      using hw_call_eqD [OF np] acc unfolding neighbor_attr_accepting_def by (metis fst_conv)
    obtain h where h: "s1 = (set_nh a ?n s)\<lparr>hw := h\<rparr>"
      "port_id_set_loop e p (a # L) SAI_STATUS_SUCCESS s = port_id_set_loop e p L st1
        (if st1 = SAI_STATUS_SUCCESS then s1 else s\<lparr>hw := h\<rparr>)"
      by (rule port_id_set_loop_Cons [OF n np])
    then have "port_id_set_loop e p L SAI_STATUS_SUCCESS s1 = (st', s')" using Cons.prems(1) st1 by simp
    from Cons.IH [OF this] Cons.prems(2) n h(1) show ?thesis by auto
  qed
qed simp

lemma neighbor_port_id_set_inv:
  assumes "fib_inv u s" "nh_owned s" "sai_fib_neighbor_port_id_set e k p s = (st, s')"
  shows "fib_inv u s' \<and> nh_owned s' \<and>
    ports_only (case tree_get (neighbor_mac_tree s) k of None \<Rightarrow> {} | Some L \<Rightarrow> set L) p s s'"
  using assms port_id_set_loop_inv [OF assms(1,2)]
  by (auto simp: sai_fib_neighbor_port_id_set_def split: if_splits option.splits)

lemma fdb_callback_inv:
  assumes "fib_inv u s" "nh_owned s"
  shows "fib_inv u (fdb_callback_loop e upds p s) \<and> nh_owned (fdb_callback_loop e upds p s)"
  using assms
proof (induction upds arbitrary: p s)
  case (Cons upd upds)
  obtain st s1 where one: "sai_fib_neighbor_port_id_set e (fdb_key upd)
      (if fdb_event upd = SAI_FDB_EVENT_LEARNED then fdb_port_id upd else p) s = (st, s1)" by force
  from neighbor_port_id_set_inv [OF Cons.prems one] have "fib_inv u s1" "nh_owned s1" by simp_all
  from Cons.IH [OF this] one show ?case by simp
qed simp

end
