(* ===== verification/Fib_Ledger.thy ===== *)
theory Fib_Ledger
  imports Fib_Inv
begin

text \<open>
  The contract between routes and what they forward to. A route holds one reference on its next hop
  or next hop group, and the reference count of either must be the number of routes that hold one.
  While a route is being stored the counts are off; a ledger says by how much for every target, and
  each primitive update changes the ledger in a known way. An operation of the route component is
  correct when its ledger ends at zero.
\<close>

section \<open>The interface\<close>

definition held_by :: "'t option \<Rightarrow> 't \<Rightarrow> 'c::zero_neq_one" where
  "held_by x t = (if x = Some t then 1 else 0)"

locale ref_ledger =
  fixes inv :: "('t \<Rightarrow> 'c::ring_1) \<Rightarrow> 's \<Rightarrow> bool"
    and adjust :: "'t \<Rightarrow> 'c \<Rightarrow> 's \<Rightarrow> 's"
    and get :: "'s \<Rightarrow> 'k \<Rightarrow> 'r option"
    and put :: "'k \<Rightarrow> 'r \<Rightarrow> 's \<Rightarrow> 's"
    and del :: "'k \<Rightarrow> 's \<Rightarrow> 's"
    and target :: "'r \<Rightarrow> 't"
    and storable :: "'s \<Rightarrow> 'k \<Rightarrow> 'r \<Rightarrow> bool"
  assumes adjust: "inv L s \<Longrightarrow> inv (L(t := L t + d)) (adjust t d s)"
    and put: "inv L s \<Longrightarrow> storable s k r \<Longrightarrow>
      inv (\<lambda>t. L t + held_by (map_option target (get s k)) t - held_by (Some (target r)) t) (put k r s)"
    and del: "inv L s \<Longrightarrow> get s k = Some r \<Longrightarrow>
      inv (\<lambda>t. L t + held_by (Some (target r)) t) (del k s)"
    and get_adjust: "get (adjust t d s) = get s"
    and storable_adjust: "storable (adjust t d s) k r = storable s k r"
begin

lemma insert:
  assumes "inv (\<lambda>_. 0) s" "get s k = None" "storable s k r"
  shows "inv (\<lambda>_. 0) (adjust (target r) 1 (put k r s))"
proof -
  let ?L = "\<lambda>t. - held_by (Some (target r)) t :: 'c"
  have "inv ?L (put k r s)" using put [OF assms(1,3)] assms(2) by (simp add: held_by_def)
  from adjust [OF this, of "target r" 1] have "inv (?L(target r := ?L (target r) + 1)) (adjust (target r) 1 (put k r s))" .
  moreover have "?L(target r := ?L (target r) + 1) = (\<lambda>_. 0)" by (auto simp: held_by_def)
  ultimately show ?thesis by simp
qed

lemma remove:
  assumes "inv (\<lambda>_. 0) s" "get s k = Some r"
  shows "inv (\<lambda>_. 0) (del k (adjust (target r) (- 1) s))"
proof -
  let ?L = "(\<lambda>_. 0)(target r := 0 + (- 1) :: 'c)"
  have 1: "inv ?L (adjust (target r) (- 1) s)" using adjust [OF assms(1)] .
  have "get (adjust (target r) (- 1) s) k = Some r" using assms(2) by (simp add: get_adjust)
  from del [OF 1 this] have "inv (\<lambda>t. ?L t + held_by (Some (target r)) t) (del k (adjust (target r) (- 1) s))" .
  moreover have "(\<lambda>t. ?L t + held_by (Some (target r)) t) = (\<lambda>_. 0)" by (auto simp: held_by_def)
  ultimately show ?thesis by simp
qed

text \<open>Replacing a route moves its reference, or leaves the counts alone if the target is the same.\<close>

lemma replace:
  assumes "inv (\<lambda>_. 0) s" "get s k = Some r0" "storable s k r"
  shows "inv (\<lambda>_. 0) (put k r (if target r0 = target r then s
    else adjust (target r) 1 (adjust (target r0) (- 1) s)))"
proof (cases "target r0 = target r")
  case True
  from put [OF assms(1,3)] show ?thesis using True assms(2) by simp
next
  case False
  let ?s = "adjust (target r) 1 (adjust (target r0) (- 1) s)"
  let ?L = "(\<lambda>_. 0)(target r0 := 0 + (- 1) :: 'c)"
  let ?M = "?L(target r := ?L (target r) + 1)"
  have "inv ?M ?s" using adjust [OF adjust [OF assms(1)]] .
  moreover have "storable ?s k r" "get ?s k = Some r0" using assms by (simp_all add: storable_adjust get_adjust)
  ultimately have "inv (\<lambda>t. ?M t + held_by (Some (target r0)) t - held_by (Some (target r)) t) (put k r ?s)"
    using put by fastforce
  moreover have "(\<lambda>t. ?M t + held_by (Some (target r0)) t - held_by (Some (target r)) t) = (\<lambda>_. 0)"
    using False by (auto simp: held_by_def fun_eq_iff)
  ultimately show ?thesis using False by simp
qed

end

section \<open>The database with a ledger\<close>

definition nh_shape_ok :: "l3_util \<Rightarrow> 'h fib \<Rightarrow> bool" where
  "nh_shape_ok u s \<longleftrightarrow>
     (\<forall>a n. nh_at s a = Some n \<longrightarrow>
        nk_type (nh_key n) = SAI_NEXT_HOP_IP \<and>
        (\<exists>v. vrf_at s (nh_vrf_id n) = Some v \<and> tree_get (vrf_nh_tree v) (nh_key n) = Some a) \<and>
        (\<exists>rif. rif_at s (nk_rif_id (nh_key n)) = Some rif \<and> rif_vrf_id rif = nh_vrf_id n) \<and>
        owner_bits_ok u n)"

definition grp_shape_ok :: "'h fib \<Rightarrow> bool" where
  "grp_shape_ok s \<longleftrightarrow>
     (\<forall>g p. grp_at s g = Some p \<longrightarrow>
        grp_nh_count p = of_nat (group_weight p) \<and> group_weight p < 2 ^ 32)"

definition ref_count_of :: "'h fib \<Rightarrow> route_nh \<Rightarrow> u32 option" where
  "ref_count_of s t =
     (case t of RouteNhNone \<Rightarrow> None
      | RouteNh a \<Rightarrow> map_option nh_ref_count (nh_at s a)
      | RouteNhGroup g \<Rightarrow> map_option grp_ref_count (grp_at s g))"

definition ledger_ok :: "(route_nh \<Rightarrow> u32) \<Rightarrow> 'h fib \<Rightarrow> bool" where
  "ledger_ok L s \<longleftrightarrow> (\<forall>t c. ref_count_of s t = Some c \<longrightarrow> c = of_nat (route_refs s t) + L t)"

definition ledger_inv :: "l3_util \<Rightarrow> (route_nh \<Rightarrow> u32) \<Rightarrow> 'h fib \<Rightarrow> bool" where
  "ledger_inv u L s \<longleftrightarrow>
     trees_ok s \<and> vrf_ok s \<and> rif_ok s \<and> nh_shape_ok u s \<and> nh_tree_ok s \<and> nh_id_ok u s \<and>
     route_ok u s \<and> grp_shape_ok s \<and> grp_tree_ok s \<and> link_ok u s \<and> mac_ok u s \<and> ledger_ok L s"

lemma ledger_invD:
  assumes "ledger_inv u L s"
  shows "trees_ok s" "vrf_ok s" "rif_ok s" "nh_shape_ok u s" "nh_tree_ok s" "nh_id_ok u s"
    "route_ok u s" "grp_shape_ok s" "grp_tree_ok s" "link_ok u s" "mac_ok u s" "ledger_ok L s"
  using assms by (simp_all add: ledger_inv_def)

lemma ledger_okD:
  "ledger_ok L s \<Longrightarrow> nh_at s a = Some n \<Longrightarrow> nh_ref_count n = of_nat (route_refs s (RouteNh a)) + L (RouteNh a)"
  "ledger_ok L s \<Longrightarrow> grp_at s g = Some p \<Longrightarrow>
   grp_ref_count p = of_nat (route_refs s (RouteNhGroup g)) + L (RouteNhGroup g)"
  by (auto simp: ledger_ok_def ref_count_of_def)

lemma ledger_okI:
  assumes "\<And>a n. nh_at s a = Some n \<Longrightarrow> nh_ref_count n = of_nat (route_refs s (RouteNh a)) + L (RouteNh a)"
    and "\<And>g p. grp_at s g = Some p \<Longrightarrow>
      grp_ref_count p = of_nat (route_refs s (RouteNhGroup g)) + L (RouteNhGroup g)"
  shows "ledger_ok L s"
  using assms by (auto simp: ledger_ok_def ref_count_of_def split: route_nh.splits)

lemma ledger_inv_zero: "ledger_inv u (\<lambda>_. 0) s = fib_inv u s"
proof
  assume l: "ledger_inv u (\<lambda>_. 0) s"
  note ok = l [unfolded ledger_inv_def]
  have z: "ledger_ok (\<lambda>_. 0) s" using ok by simp
  have "nh_ok u s"
    using ok ledger_okD(1) [OF z] unfolding nh_ok_def nh_shape_ok_def by (metis add.right_neutral)
  moreover have "grp_ok s"
    using ok ledger_okD(2) [OF z] unfolding grp_ok_def grp_shape_ok_def by (metis add.right_neutral)
  ultimately show "fib_inv u s" using ok by (simp add: fib_inv_def)
next
  assume inv: "fib_inv u s"
  note d = fib_invD [OF inv]
  have "nh_shape_ok u s" using d(4) unfolding nh_ok_def nh_shape_ok_def by metis
  moreover have "grp_shape_ok s" using d(8) by (simp add: grp_ok_def grp_shape_ok_def)
  moreover have "ledger_ok (\<lambda>_. 0) s"
    using d(4,8) by (intro ledger_okI) (auto simp: nh_ok_def grp_ok_def)
  ultimately show "ledger_inv u (\<lambda>_. 0) s" using d by (simp add: ledger_inv_def)
qed

section \<open>Adjusting a reference count\<close>

definition adjust_refs :: "route_nh \<Rightarrow> u32 \<Rightarrow> 'h fib \<Rightarrow> 'h fib" where
  "adjust_refs t d s =
     (case t of
        RouteNhNone \<Rightarrow> s
      | RouteNh a \<Rightarrow>
          (case nh_at s a of None \<Rightarrow> s
           | Some n \<Rightarrow> set_nh a (n\<lparr>nh_ref_count := nh_ref_count n + d\<rparr>) s)
      | RouteNhGroup g \<Rightarrow>
          (case grp_at s g of None \<Rightarrow> s
           | Some p \<Rightarrow> set_grp g (p\<lparr>grp_ref_count := grp_ref_count p + d\<rparr>) s))"

lemma adjust_refs_sel [simp]:
  "vrf_tree (adjust_refs t d s) = vrf_tree s"
  "router_interface_tree (adjust_refs t d s) = router_interface_tree s"
  "nh_id_tree (adjust_refs t d s) = nh_id_tree s"
  "nh_group_tree (adjust_refs t d s) = nh_group_tree s"
  "neighbor_mac_tree (adjust_refs t d s) = neighbor_mac_tree s"
  "next_addr (adjust_refs t d s) = next_addr s"
  "max_ecmp_paths (adjust_refs t d s) = max_ecmp_paths s"
  "num_virtual_routers (adjust_refs t d s) = num_virtual_routers s"
  "hw (adjust_refs t d s) = hw s"
  by (simp_all add: adjust_refs_def split: route_nh.split option.split)

lemma adjust_refs_nh:
  "nh_at (adjust_refs t d s) a =
     (if t = RouteNh a then map_option (\<lambda>n. n\<lparr>nh_ref_count := nh_ref_count n + d\<rparr>) (nh_at s a) else nh_at s a)"
  by (auto simp: adjust_refs_def split: route_nh.split option.split)

lemma adjust_refs_grp:
  "grp_at (adjust_refs t d s) g =
     (if t = RouteNhGroup g then map_option (\<lambda>p. p\<lparr>grp_ref_count := grp_ref_count p + d\<rparr>) (grp_at s g)
      else grp_at s g)"
  by (auto simp: adjust_refs_def split: route_nh.split option.split)

lemma route_refs_adjust [simp]: "route_refs (adjust_refs t d s) t' = route_refs s t'"
  by (simp add: route_refs_def)

lemma route_target_ok_adjust [simp]: "route_target_ok u (adjust_refs t d s) t' = route_target_ok u s t'"
  by (simp add: route_target_ok_def adjust_refs_nh adjust_refs_grp split: route_nh.split option.split)

lemma links_adjust [simp]:
  "grp_link (adjust_refs t d s) = grp_link s" "nh_link (adjust_refs t d s) = nh_link s"
  by (auto simp: grp_link_def nh_link_def fun_eq_iff adjust_refs_nh adjust_refs_grp split: option.split)

lemma rif_refs_adjust:
  assumes "tree_wf (nh_heap s)"
  shows "rif_refs (adjust_refs t d s) r = rif_refs s r"
proof (cases "\<exists>a n. t = RouteNh a \<and> nh_at s a = Some n")
  case True
  then obtain a n where "t = RouteNh a" "nh_at s a = Some n" by auto
  then show ?thesis using rif_refs_set_nh [OF assms, of a n] by (simp add: adjust_refs_def)
next
  case False
  then show ?thesis by (auto simp: adjust_refs_def rif_refs_def split: route_nh.split option.split)
qed

lemma adjust_refs_nhD:
  "nh_at (adjust_refs t d s) a = Some n \<Longrightarrow>
   \<exists>n0. nh_at s a = Some n0 \<and> n = (if t = RouteNh a then n0\<lparr>nh_ref_count := nh_ref_count n0 + d\<rparr> else n0)"
  by (auto simp: adjust_refs_nh split: if_splits)

lemma adjust_refs_grpD:
  "grp_at (adjust_refs t d s) g = Some p \<Longrightarrow>
   \<exists>p0. grp_at s g = Some p0 \<and> p = (if t = RouteNhGroup g then p0\<lparr>grp_ref_count := grp_ref_count p0 + d\<rparr> else p0)"
  by (auto simp: adjust_refs_grp split: if_splits)

lemma mac_member_adjust [simp]: "mac_member_ok u (adjust_refs t d s) k a = mac_member_ok u s k a"
  by (auto simp: mac_member_ok_def adjust_refs_nh)

lemma ledger_adjust:
  assumes "ledger_inv u L s"
  shows "ledger_inv u (L(t := L t + d)) (adjust_refs t d s)" (is "ledger_inv u ?L ?s")
proof -
  note ok = assms [unfolded ledger_inv_def]
  have wf: "tree_wf (nh_heap s)" using ok by (simp add: trees_ok_def)
  note rr = rif_refs_adjust [OF wf]
  have "tree_wf (nh_heap ?s)" "tree_wf (grp_heap ?s)"
    using ok by (auto simp: trees_ok_def adjust_refs_def split: route_nh.split option.split)
  moreover have "a < next_addr s \<and> tree_wf (nh_group_list n)" if "nh_at ?s a = Some n" for a n
    using ok adjust_refs_nhD [OF that] by (auto simp: trees_ok_def)
  moreover have "g < next_addr s \<and> tree_wf (grp_nh_list p)" if "grp_at ?s g = Some p" for g p
    using ok adjust_refs_grpD [OF that] by (auto simp: trees_ok_def)
  ultimately have "trees_ok ?s" using ok by (simp add: trees_ok_def)
  moreover have "nh_shape_ok u ?s"
    unfolding nh_shape_ok_def
  proof (intro allI impI)
    fix a n assume "nh_at ?s a = Some n"
    then obtain n0 where "nh_at s a = Some n0"
      "n = (if t = RouteNh a then n0\<lparr>nh_ref_count := nh_ref_count n0 + d\<rparr> else n0)"
      using adjust_refs_nhD by metis
    with ok show "nk_type (nh_key n) = SAI_NEXT_HOP_IP \<and>
        (\<exists>v. vrf_at ?s (nh_vrf_id n) = Some v \<and> tree_get (vrf_nh_tree v) (nh_key n) = Some a) \<and>
        (\<exists>rif. rif_at ?s (nk_rif_id (nh_key n)) = Some rif \<and> rif_vrf_id rif = nh_vrf_id n) \<and>
        owner_bits_ok u n"
      by (simp add: nh_shape_ok_def)
  qed
  moreover have "nh_tree_ok ?s"
    unfolding nh_tree_ok_def
  proof (intro allI impI)
    fix i v k a assume "vrf_at ?s i = Some v" "tree_get (vrf_nh_tree v) k = Some a"
    then obtain n where "nh_at s a = Some n" "nh_key n = k" "nh_vrf_id n = i"
      using ok nh_tree_okD by (metis adjust_refs_sel(1))
    then show "\<exists>n. nh_at ?s a = Some n \<and> nh_key n = k \<and> nh_vrf_id n = i"
      by (auto simp: adjust_refs_nh)
  qed
  moreover have "nh_id_ok u ?s"
    unfolding nh_id_ok_def
  proof (intro allI impI)
    fix i a assume "tree_get (nh_id_tree ?s) i = Some a"
    then obtain n where "nh_at s a = Some n" "nh_next_hop_id n = i" "is_owner u SAI_FIB_OWNER_NEXT_HOP n"
      using ok nh_id_okD by (metis adjust_refs_sel(3))
    then show "\<exists>n. nh_at ?s a = Some n \<and> nh_next_hop_id n = i \<and> is_owner u SAI_FIB_OWNER_NEXT_HOP n"
      by (auto simp: adjust_refs_nh)
  qed
  moreover have "route_ok u ?s" using ok by (simp add: route_ok_def)
  moreover have "group_weight (p\<lparr>grp_ref_count := c\<rparr>) = group_weight p" for p c
    by (simp add: group_weight_def)
  then have "grp_shape_ok ?s" using ok by (auto simp: grp_shape_ok_def adjust_refs_grp split: if_splits)
  moreover have "grp_tree_ok ?s" using ok by (fastforce simp: grp_tree_ok_def adjust_refs_grp)
  moreover have "link_ok u ?s"
    using ok unfolding link_ok_def links_adjust by (fastforce simp: adjust_refs_nh)
  moreover have "ledger_ok ?L ?s"
  proof (rule ledger_okI)
    fix a n assume "nh_at ?s a = Some n"
    then show "nh_ref_count n = of_nat (route_refs ?s (RouteNh a)) + ?L (RouteNh a)"
      using ok ledger_okD(1) [of L s a] by (auto simp: adjust_refs_nh split: if_splits)
  next
    fix g p assume "grp_at ?s g = Some p"
    then show "grp_ref_count p = of_nat (route_refs ?s (RouteNhGroup g)) + ?L (RouteNhGroup g)"
      using ok ledger_okD(2) [of L s g] by (auto simp: adjust_refs_grp split: if_splits)
  qed
  ultimately show ?thesis
    using ok by (simp add: ledger_inv_def vrf_ok_def rif_ok_def rr mac_ok_def)
qed


section \<open>Storing and removing a route\<close>

definition set_routes :: "oid \<Rightarrow> (route_key, route_node) tree \<Rightarrow> 'h fib \<Rightarrow> 'h fib" where
  "set_routes i T s =
     (case vrf_at s i of None \<Rightarrow> s | Some v \<Rightarrow> set_vrf i (v\<lparr>vrf_route_tree := T\<rparr>) s)"

definition routes_of :: "'h fib \<Rightarrow> oid \<Rightarrow> (route_key, route_node) tree" where
  "routes_of s i = (case vrf_at s i of None \<Rightarrow> [] | Some v \<Rightarrow> vrf_route_tree v)"

definition route_at :: "'h fib \<Rightarrow> oid \<times> route_key \<Rightarrow> route_node option" where
  "route_at s ik = tree_get (routes_of s (fst ik)) (snd ik)"

definition put_route :: "oid \<times> route_key \<Rightarrow> route_node \<Rightarrow> 'h fib \<Rightarrow> 'h fib" where
  "put_route ik r s = set_routes (fst ik) (tree_put (snd ik) r (routes_of s (fst ik))) s"

definition del_route :: "oid \<times> route_key \<Rightarrow> 'h fib \<Rightarrow> 'h fib" where
  "del_route ik s = set_routes (fst ik) (tree_del (snd ik) (routes_of s (fst ik))) s"

text \<open>A route may be stored in an existing virtual router when what it forwards to exists.\<close>

definition route_storable :: "l3_util \<Rightarrow> 'h fib \<Rightarrow> oid \<times> route_key \<Rightarrow> route_node \<Rightarrow> bool" where
  "route_storable u s ik r \<longleftrightarrow>
     vrf_at s (fst ik) \<noteq> None \<and> rt_vrf_id r = fst ik \<and> route_target_ok u s (rt_nh r)"

lemma route_at_SomeD: "route_at s ik = Some r \<Longrightarrow> \<exists>v. vrf_at s (fst ik) = Some v \<and> tree_get (vrf_route_tree v) (snd ik) = Some r"
  by (auto simp: route_at_def routes_of_def split: option.splits)

lemma set_routes_sel [simp]:
  "router_interface_tree (set_routes i T s) = router_interface_tree s"
  "nh_id_tree (set_routes i T s) = nh_id_tree s"
  "nh_group_tree (set_routes i T s) = nh_group_tree s"
  "neighbor_mac_tree (set_routes i T s) = neighbor_mac_tree s"
  "nh_heap (set_routes i T s) = nh_heap s"
  "grp_heap (set_routes i T s) = grp_heap s"
  "next_addr (set_routes i T s) = next_addr s"
  "max_ecmp_paths (set_routes i T s) = max_ecmp_paths s"
  "num_virtual_routers (set_routes i T s) = num_virtual_routers s"
  "hw (set_routes i T s) = hw s"
  by (simp_all add: set_routes_def split: option.split)

lemma vrf_at_set_routes:
  "vrf_at (set_routes i T s) j = (if j = i then map_option (vrf_route_tree_update (\<lambda>_. T)) (vrf_at s j) else vrf_at s j)"
  by (auto simp: set_routes_def split: option.split)

lemma route_at_set_routes:
  "vrf_at s i \<noteq> None \<Longrightarrow>
   route_at (set_routes i T s) jk = (if fst jk = i then tree_get T (snd jk) else route_at s jk)"
  by (auto simp: route_at_def routes_of_def vrf_at_set_routes split: option.split)

lemma route_at_put [simp]:
  "vrf_at s (fst ik) \<noteq> None \<Longrightarrow> route_at (put_route ik r s) jk = (if jk = ik then Some r else route_at s jk)"
  by (cases ik; cases jk) (auto simp: put_route_def route_at_set_routes, simp_all add: route_at_def)

lemma route_at_del [simp]:
  "vrf_at s (fst ik) \<noteq> None \<Longrightarrow> route_at (del_route ik s) jk = (if jk = ik then None else route_at s jk)"
  by (cases ik; cases jk) (auto simp: del_route_def route_at_set_routes, simp_all add: route_at_def)

lemma route_at_adjust [simp]: "route_at (adjust_refs t d s) = route_at s"
  by (simp add: route_at_def routes_of_def fun_eq_iff)

text \<open>Changing the routes of a virtual router shifts the ledger by the change in what they hold.\<close>

lemma ledger_set_routes:
  assumes l: "ledger_inv u L s" and i: "vrf_at s i = Some v" and wf: "tree_wf T"
    and ok: "\<And>k r. tree_get T k = Some r \<Longrightarrow> rt_vrf_id r = i \<and> route_target_ok u s (rt_nh r)"
    and c: "\<And>t. of_nat (asum (\<lambda>r. if rt_nh r = t then 1 else 0) T) + D t =
      (of_nat (vrf_route_refs t v) :: u32)"
  shows "ledger_inv u (\<lambda>t. L t + D t) (set_routes i T s)" (is "ledger_inv u ?L ?s")
proof -
  note d = ledger_invD [OF l]
  have wv: "tree_wf (vrf_tree s)" using d(1) by (simp add: trees_ok_def)
  let ?v = "v\<lparr>vrf_route_tree := T\<rparr>"
  have s: "?s = set_vrf i ?v s" using i by (simp add: set_routes_def)
  have rr: "(of_nat (route_refs ?s t) :: u32) + D t = of_nat (route_refs s t)" for t
  proof -
    have "route_refs ?s t + vrf_route_refs t v = route_refs s t + vrf_route_refs t ?v"
      unfolding s route_refs_def using asum_put [OF wv i] by simp
    then have e: "(of_nat (route_refs ?s t) :: u32) + of_nat (vrf_route_refs t v) =
        of_nat (route_refs s t) + of_nat (vrf_route_refs t ?v)" by (metis of_nat_add)
    have "of_nat (vrf_route_refs t v) = of_nat (vrf_route_refs t ?v) + D t"
      using c [of t] by (simp add: vrf_route_refs_def)
    from e [unfolded this] have "(of_nat (route_refs ?s t) + D t) + of_nat (vrf_route_refs t ?v) =
        of_nat (route_refs s t) + of_nat (vrf_route_refs t ?v)" by (simp only: ac_simps)
    then show ?thesis by (rule add_right_imp_eq)
  qed
  have tg: "route_target_ok u ?s t = route_target_ok u s t" for t
    by (simp add: route_target_ok_def s cong: route_nh.case_cong)
  have "trees_ok ?s" using d(1) i wf by (auto simp: trees_ok_def s)
  moreover have "vrf_ok ?s" using d(2) i by (auto simp: vrf_ok_def s)
  moreover have "rif_ok ?s" using d(3) i by (simp add: rif_ok_def s rif_refs_def) (metis option.inject)
  moreover have "nh_shape_ok u ?s" using d(4) i by (simp add: nh_shape_ok_def s) (metis option.inject)
  moreover have "nh_tree_ok ?s"
    using nh_tree_okD [OF d(5)] i unfolding nh_tree_ok_def by (simp add: s split: if_splits)
  moreover have "nh_id_ok u ?s" using d(6) by (simp add: nh_id_ok_def s)
  moreover have "route_ok u ?s"
    using i ok route_okD [OF d(7)] unfolding route_ok_def tg by (simp add: s split: if_splits)
  moreover have "grp_shape_ok ?s" using d(8) by (simp add: grp_shape_ok_def s)
  moreover have "grp_tree_ok ?s" using d(9) by (simp add: grp_tree_ok_def s)
  moreover have "link_ok u ?s" using d(10) by (simp add: link_ok_def s)
  moreover have "mac_ok u ?s" using d(11) by (simp add: mac_ok_def s)
  moreover have "ledger_ok ?L ?s"
  proof (rule ledger_okI)
    fix a n assume "nh_at ?s a = Some n"
    then have "nh_ref_count n = of_nat (route_refs s (RouteNh a)) + L (RouteNh a)"
      using ledger_okD(1) [OF d(12)] by simp
    then show "nh_ref_count n = of_nat (route_refs ?s (RouteNh a)) + ?L (RouteNh a)"
      unfolding rr [of "RouteNh a", symmetric] by (simp only: ac_simps)
  next
    fix g p assume "grp_at ?s g = Some p"
    then have "grp_ref_count p = of_nat (route_refs s (RouteNhGroup g)) + L (RouteNhGroup g)"
      using ledger_okD(2) [OF d(12)] by simp
    then show "grp_ref_count p = of_nat (route_refs ?s (RouteNhGroup g)) + ?L (RouteNhGroup g)"
      unfolding rr [of "RouteNhGroup g", symmetric] by (simp only: ac_simps)
  qed
  ultimately show ?thesis by (simp add: ledger_inv_def)
qed

lemma ledger_put:
  assumes l: "ledger_inv u L s" and st: "route_storable u s ik r"
  shows "ledger_inv u (\<lambda>t. L t + held_by (map_option rt_nh (route_at s ik)) t - held_by (Some (rt_nh r)) t)
    (put_route ik r s)"
proof -
  obtain v where v: "vrf_at s (fst ik) = Some v" using st by (auto simp: route_storable_def)
  have wf: "tree_wf (vrf_route_tree v)" and rok: "route_ok u s"
    using l v by (auto simp: ledger_inv_def trees_ok_def)
  let ?T = "tree_put (snd ik) r (vrf_route_tree v)"
  let ?D = "\<lambda>t. held_by (map_option rt_nh (route_at s ik)) t - held_by (Some (rt_nh r)) t :: u32"
  let ?f = "\<lambda>t (r :: route_node). if rt_nh r = t then 1 else 0 :: nat"
  have "of_nat (asum (?f t) ?T) + ?D t = (of_nat (vrf_route_refs t v) :: u32)" for t
  proof (cases "tree_get (vrf_route_tree v) (snd ik)")
    case None
    then have "asum (?f t) ?T = vrf_route_refs t v + ?f t r" by (simp add: vrf_route_refs_def)
    with None v show ?thesis by (simp add: held_by_def route_at_def routes_of_def)
  next
    case (Some r0)
    from asum_put [OF wf Some, of "?f t" r] have "asum (?f t) ?T + ?f t r0 = vrf_route_refs t v + ?f t r"
      by (simp add: vrf_route_refs_def)
    then have "(of_nat (asum (?f t) ?T) :: u32) + of_nat (?f t r0) = of_nat (vrf_route_refs t v) + of_nat (?f t r)"
      by (metis of_nat_add)
    with Some v show ?thesis by (auto simp: held_by_def route_at_def routes_of_def split: if_splits)
  qed
  moreover have "rt_vrf_id r' = fst ik \<and> route_target_ok u s (rt_nh r')" if "tree_get ?T k = Some r'" for k r'
    using that route_okD [OF rok v] st by (auto simp: route_storable_def split: if_splits)
  ultimately have "ledger_inv u (\<lambda>t. L t + ?D t) (set_routes (fst ik) ?T s)"
    using wf by (intro ledger_set_routes [OF l v]) auto
  then show ?thesis using v by (simp add: put_route_def routes_of_def algebra_simps)
qed

lemma ledger_del:
  assumes l: "ledger_inv u L s" and r: "route_at s ik = Some r"
  shows "ledger_inv u (\<lambda>t. L t + held_by (Some (rt_nh r)) t) (del_route ik s)"
proof -
  obtain v where v: "vrf_at s (fst ik) = Some v" "tree_get (vrf_route_tree v) (snd ik) = Some r"
    using route_at_SomeD [OF r] by auto
  have wf: "tree_wf (vrf_route_tree v)" and rok: "route_ok u s"
    using l v by (auto simp: ledger_inv_def trees_ok_def)
  let ?T = "tree_del (snd ik) (vrf_route_tree v)"
  let ?f = "\<lambda>t (r :: route_node). if rt_nh r = t then 1 else 0 :: nat"
  have "of_nat (asum (?f t) ?T) + held_by (Some (rt_nh r)) t = (of_nat (vrf_route_refs t v) :: u32)" for t
  proof -
    from asum_del [OF wf v(2), of "?f t"] have "asum (?f t) ?T + ?f t r = vrf_route_refs t v"
      by (simp add: vrf_route_refs_def)
    then have "(of_nat (asum (?f t) ?T) :: u32) + of_nat (?f t r) = of_nat (vrf_route_refs t v)"
      by (metis of_nat_add)
    then show ?thesis by (auto simp: held_by_def split: if_splits)
  qed
  moreover have "rt_vrf_id r' = fst ik \<and> route_target_ok u s (rt_nh r')" if "tree_get ?T k = Some r'" for k r'
    using that route_okD [OF rok v(1)] by (auto split: if_splits)
  ultimately have "ledger_inv u (\<lambda>t. L t + held_by (Some (rt_nh r)) t) (set_routes (fst ik) ?T s)"
    using wf by (intro ledger_set_routes [OF l v(1)]) auto
  then show ?thesis using v by (simp add: del_route_def routes_of_def)
qed

interpretation ledger: ref_ledger "ledger_inv u" adjust_refs route_at put_route del_route rt_nh
  "route_storable u" for u
  by unfold_locales
     (simp_all add: ledger_adjust ledger_put ledger_del route_storable_def)

text \<open>The three ways a route changes, on the invariant itself.\<close>

lemmas ledger_rules = ledger.insert [unfolded ledger_inv_zero] ledger.remove [unfolded ledger_inv_zero]
  ledger.replace [unfolded ledger_inv_zero]

end
