(* ===== verification/Fib_Route.thy ===== *)
theory Fib_Route
  imports Fib_Ledger
begin

text \<open>
  Routes: \<^verbatim>\<open>src/src/routing/sai_l3_route.c\<close>. A route lives in the radix tree of its virtual router
  under the first \<open>prefix_len\<close> bits of its address, and holds one reference on the next hop or next
  hop group it forwards to. The first part translates the file function by function; the second
  part shows that the reference counts stay exact, through the ledger of \<^verbatim>\<open>Fib_Ledger\<close>, and what
  each call returns.

  Addresses and masks are the numbers that the network byte order stands for.
\<close>

definition SAI_FIB_ROUTE_MAX_ATTR_COUNT :: nat where
  "SAI_FIB_ROUTE_MAX_ATTR_COUNT = 4"

text \<open>The destination of a route entry: address and mask of one family, or an unknown family.\<close>

datatype sai_ip_prefix = Prefix4 u32 u32 | Prefix6 "128 word" "128 word" | PrefixFamily int

record route_entry =
  re_vr_id :: oid
  re_destination :: sai_ip_prefix

section \<open>Reference counts\<close>

definition sai_fib_route_is_nh_info_match :: "route_node \<Rightarrow> route_node \<Rightarrow> bool" where
  "sai_fib_route_is_nh_info_match r1 r2 \<longleftrightarrow> rt_nh r1 = rt_nh r2"

definition sai_fib_route_nh_ref_count_incr :: "route_node \<Rightarrow> 'h fib \<Rightarrow> 'h fib" where
  "sai_fib_route_nh_ref_count_incr r s =
     (case rt_nh r of
        RouteNh a \<Rightarrow>
          (case nh_at s a of
             Some n \<Rightarrow> set_nh a (n\<lparr>nh_ref_count := nh_ref_count n + 1\<rparr>) s
           | None \<Rightarrow> s)
      | RouteNhGroup g \<Rightarrow>
          (case grp_at s g of
             Some p \<Rightarrow> set_grp g (p\<lparr>grp_ref_count := grp_ref_count p + 1\<rparr>) s
           | None \<Rightarrow> s)
      | RouteNhNone \<Rightarrow> s)"

definition sai_fib_route_nh_ref_count_decr :: "route_node \<Rightarrow> 'h fib \<Rightarrow> 'h fib" where
  "sai_fib_route_nh_ref_count_decr r s =
     (case rt_nh r of
        RouteNh a \<Rightarrow>
          (case nh_at s a of
             Some n \<Rightarrow> set_nh a (n\<lparr>nh_ref_count := nh_ref_count n - 1\<rparr>) s
           | None \<Rightarrow> s)
      | RouteNhGroup g \<Rightarrow>
          (case grp_at s g of
             Some p \<Rightarrow> set_grp g (p\<lparr>grp_ref_count := grp_ref_count p - 1\<rparr>) s
           | None \<Rightarrow> s)
      | RouteNhNone \<Rightarrow> s)"

section \<open>Validation and attributes\<close>

definition sai_fib_uc_route_entry_validate :: "route_entry \<Rightarrow> sai_status" where
  "sai_fib_uc_route_entry_validate re =
     (case re_destination re of
        PrefixFamily _ \<Rightarrow> SAI_STATUS_INVALID_PARAMETER
      | _ \<Rightarrow> SAI_STATUS_SUCCESS)"

definition sai_fib_route_input_params_validate :: "route_entry \<Rightarrow> nat \<Rightarrow> sai_status" where
  "sai_fib_route_input_params_validate re attr_count =
     (let sai_rc = sai_fib_uc_route_entry_validate re
      in if sai_rc \<noteq> SAI_STATUS_SUCCESS then sai_rc
         else if attr_count = 0 \<or> attr_count > SAI_FIB_ROUTE_MAX_ATTR_COUNT
         then SAI_STATUS_INVALID_PARAMETER
         else SAI_STATUS_SUCCESS)"

definition sai_fib_route_nh_id_attr_set :: "'h fib \<Rightarrow> oid \<Rightarrow> route_node \<Rightarrow> sai_status \<times> route_node" where
  "sai_fib_route_nh_id_attr_set s nh_id r =
     (case tree_get (nh_id_tree s) nh_id of
        None \<Rightarrow> (SAI_STATUS_INVALID_ATTR_VALUE_0, r)
      | Some a \<Rightarrow> (SAI_STATUS_SUCCESS, r\<lparr>rt_nh := RouteNh a\<rparr>))"

definition sai_fib_route_nh_grp_id_attr_set :: "'h fib \<Rightarrow> oid \<Rightarrow> route_node \<Rightarrow> sai_status \<times> route_node" where
  "sai_fib_route_nh_grp_id_attr_set s nh_grp_id r =
     (case tree_get (nh_group_tree s) nh_grp_id of
        None \<Rightarrow> (SAI_STATUS_INVALID_ATTR_VALUE_0, r)
      | Some g \<Rightarrow> (SAI_STATUS_SUCCESS, r\<lparr>rt_nh := RouteNhGroup g\<rparr>))"

definition sai_fib_route_pkt_action_attr_set ::
    "l3_util \<Rightarrow> sai_packet_action \<Rightarrow> route_node \<Rightarrow> sai_status \<times> route_node" where
  "sai_fib_route_pkt_action_attr_set u act r =
     (if \<not> sai_packet_action_validate u act then (SAI_STATUS_INVALID_ATTR_VALUE_0, r)
      else (SAI_STATUS_SUCCESS, r\<lparr>rt_packet_action := act\<rparr>))"

text \<open>One attribute of the list.\<close>

definition route_attr_set ::
    "'h l3_env \<Rightarrow> route_attr \<Rightarrow> route_node \<Rightarrow> 'h fib \<Rightarrow> sai_status \<times> route_node \<times> 'h fib" where
  "route_attr_set e attr r s =
     (case attr of
        SAI_ROUTE_ATTR_NEXT_HOP_ID oid \<Rightarrow>
          (let nh_type = sai_object_type_query (util e) oid
           in if nh_type = SAI_OBJECT_TYPE_NEXT_HOP
              then let (sai_rc, r) = sai_fib_route_nh_id_attr_set s oid r in (sai_rc, r, s)
              else if nh_type = SAI_OBJECT_TYPE_NEXT_HOP_GROUP
              then let (sai_rc, r) = sai_fib_route_nh_grp_id_attr_set s oid r in (sai_rc, r, s)
              else (SAI_STATUS_INVALID_ATTR_VALUE_0, r, s))
      | SAI_ROUTE_ATTR_PACKET_ACTION act \<Rightarrow>
          (let (sai_rc, r) = sai_fib_route_pkt_action_attr_set (util e) act r in (sai_rc, r, s))
      | SAI_ROUTE_ATTR_TRAP_PRIORITY p \<Rightarrow> (SAI_STATUS_SUCCESS, r\<lparr>rt_trap_priority := p\<rparr>, s)
      | SAI_ROUTE_ATTR_META_DATA m \<Rightarrow>
          (let ((sai_rc, lo, hi), s) = hw_call (route_meta_data_range (plat e)) s
           in if sai_rc \<noteq> SAI_STATUS_SUCCESS then (sai_rc, r, s)
              else if m < lo \<or> m > hi then (SAI_STATUS_INVALID_ATTR_VALUE_0, r, s)
              else (SAI_STATUS_SUCCESS, r\<lparr>rt_meta_data := m\<rparr>, s))
      | ROUTE_ATTR_UNKNOWN _ \<Rightarrow> (SAI_STATUS_UNKNOWN_ATTRIBUTE_0, r, s))"

fun route_attributes_parse_loop ::
    "'h l3_env \<Rightarrow> route_attr list \<Rightarrow> nat \<Rightarrow> route_node \<Rightarrow> 'h fib \<Rightarrow> sai_status \<times> route_node \<times> 'h fib" where
  "route_attributes_parse_loop e [] i r s = (SAI_STATUS_SUCCESS, r, s)"
| "route_attributes_parse_loop e (attr # attrs) i r s =
     (let (sai_rc, r, s) = route_attr_set e attr r s
      in if sai_rc \<noteq> SAI_STATUS_SUCCESS
         then (sai_fib_attr_status_code_get (util e) sai_rc i, r, s)
         else route_attributes_parse_loop e attrs (i + 1) r s)"

definition sai_fib_route_attributes_parse ::
    "'h l3_env \<Rightarrow> route_attr list \<Rightarrow> route_node \<Rightarrow> 'h fib \<Rightarrow> sai_status \<times> route_node \<times> 'h fib" where
  "sai_fib_route_attributes_parse e attrs r s =
     (let (sai_rc, r, s) = route_attributes_parse_loop e attrs 0 r s
      in if sai_rc \<noteq> SAI_STATUS_SUCCESS then (sai_rc, r, s)
         else if (rt_packet_action r = SAI_PACKET_ACTION_FORWARD \<or> rt_packet_action r = SAI_PACKET_ACTION_LOG)
                 \<and> rt_nh r = RouteNhNone
         then (SAI_STATUS_MANDATORY_ATTRIBUTE_MISSING, r, s)
         else (SAI_STATUS_SUCCESS, r, s))"

section \<open>The tree of routes\<close>

definition sai_fib_route_entry_prefix_len_get :: "l3_util \<Rightarrow> route_entry \<Rightarrow> nat" where
  "sai_fib_route_entry_prefix_len_get u re =
     (case re_destination re of
        Prefix4 a m \<Rightarrow> std_ip_v4_mask_to_prefix_len u m
      | Prefix6 a m \<Rightarrow> std_ip_v6_mask_to_prefix_len u m
      | PrefixFamily _ \<Rightarrow> 0)"

definition sai_fib_route_entry_ip_prefix_fill :: "route_entry \<Rightarrow> sai_ip_address" where
  "sai_fib_route_entry_ip_prefix_fill re =
     (case re_destination re of
        Prefix4 a m \<Rightarrow> Ip4 a
      | Prefix6 a m \<Rightarrow> Ip6 a
      | PrefixFamily f \<Rightarrow> IpFamily f)"

definition route_entry_key :: "l3_util \<Rightarrow> route_entry \<Rightarrow> route_key" where
  "route_entry_key u re =
     radix_route_key (sai_fib_route_entry_ip_prefix_fill re) (sai_fib_route_entry_prefix_len_get u re)"

definition sai_fib_route_node_get :: "l3_util \<Rightarrow> 'h fib \<Rightarrow> route_entry \<Rightarrow> route_node option" where
  "sai_fib_route_node_get u s re =
     (case vrf_at s (re_vr_id re) of
        None \<Rightarrow> None
      | Some v \<Rightarrow> tree_get (vrf_route_tree v) (route_entry_key u re))"

definition sai_fib_route_node_init :: "l3_util \<Rightarrow> route_entry \<Rightarrow> route_node" where
  "sai_fib_route_node_init u re =
     route_zero\<lparr>rt_vrf_id := re_vr_id re,
       rt_prefix := sai_fib_route_entry_ip_prefix_fill re,
       rt_prefix_len := sai_fib_route_entry_prefix_len_get u re,
       rt_nh := RouteNhNone,
       rt_packet_action := SAI_PACKET_ACTION_FORWARD,
       rt_trap_priority := 0\<rparr>"

definition sai_fib_route_node_insert_to_tree ::
    "'h l3_env \<Rightarrow> oid \<Rightarrow> vrf_node \<Rightarrow> route_node \<Rightarrow> 'h fib \<Rightarrow> sai_status \<times> 'h fib" where
  "sai_fib_route_node_insert_to_tree e i v r s =
     (let key = radix_route_key (rt_prefix r) (rt_prefix_len r);
          (ok, s) = radix_insert_ok e (vrf_route_tree v) key s
      in if \<not> ok then (SAI_STATUS_FAILURE, s)
         else (SAI_STATUS_SUCCESS,
               set_vrf i (v\<lparr>vrf_route_tree := tree_put key r (vrf_route_tree v)\<rparr>) s))"

section \<open>The API\<close>

definition sai_fib_route_create ::
    "'h l3_env \<Rightarrow> route_entry \<Rightarrow> route_attr list \<Rightarrow> 'h fib \<Rightarrow> sai_status \<times> 'h fib" where
  "sai_fib_route_create e re attrs s =
     (let sai_rc = sai_fib_route_input_params_validate re (length attrs)
      in if sai_rc \<noteq> SAI_STATUS_SUCCESS then (sai_rc, s)
         else case vrf_at s (re_vr_id re) of
           None \<Rightarrow> (SAI_STATUS_INVALID_OBJECT_ID, s)
         | Some v \<Rightarrow>
             if sai_fib_route_node_get (util e) s re \<noteq> None then (SAI_STATUS_ITEM_ALREADY_EXISTS, s)
             else let (node, s) = sai_fib_route_node_alloc e s
                  in case node of
                    None \<Rightarrow> (SAI_STATUS_NO_MEMORY, s)
                  | Some _ \<Rightarrow>
                      (let (sai_rc, r, s) =
                             sai_fib_route_attributes_parse e attrs (sai_fib_route_node_init (util e) re) s
                       in if sai_rc \<noteq> SAI_STATUS_SUCCESS then (sai_rc, s)
                          else let (sai_rc, s) = hw_call (route_create (route_npu e) r) s
                          in if sai_rc \<noteq> SAI_STATUS_SUCCESS then (sai_rc, s)
                             else let (sai_rc, s) =
                                        sai_fib_route_node_insert_to_tree e (re_vr_id re) v r s
                             in if sai_rc \<noteq> SAI_STATUS_SUCCESS then (sai_rc, s)
                                else (sai_rc, sai_fib_route_nh_ref_count_incr r s)))"

definition sai_fib_route_remove :: "'h l3_env \<Rightarrow> route_entry \<Rightarrow> 'h fib \<Rightarrow> sai_status \<times> 'h fib" where
  "sai_fib_route_remove e re s =
     (let sai_rc = sai_fib_uc_route_entry_validate re
      in if sai_rc \<noteq> SAI_STATUS_SUCCESS then (sai_rc, s)
         else case vrf_at s (re_vr_id re) of
           None \<Rightarrow> (SAI_STATUS_INVALID_OBJECT_ID, s)
         | Some v \<Rightarrow>
             (case sai_fib_route_node_get (util e) s re of
                None \<Rightarrow> (SAI_STATUS_ITEM_NOT_FOUND, s)
              | Some r \<Rightarrow>
                  (let (sai_rc, s) = hw_call (route_remove (route_npu e) r) s
                   in if sai_rc \<noteq> SAI_STATUS_SUCCESS then (sai_rc, s)
                      else let s = sai_fib_route_nh_ref_count_decr r s
                           in (sai_rc,
                               set_vrf (re_vr_id re)
                                 (v\<lparr>vrf_route_tree := tree_del (route_entry_key (util e) re) (vrf_route_tree v)\<rparr>)
                                 s))))"

definition sai_fib_route_attribute_set ::
    "'h l3_env \<Rightarrow> route_entry \<Rightarrow> route_attr \<Rightarrow> 'h fib \<Rightarrow> sai_status \<times> 'h fib" where
  "sai_fib_route_attribute_set e re attr s =
     (let sai_rc = sai_fib_route_input_params_validate re 1
      in if sai_rc \<noteq> SAI_STATUS_SUCCESS then (sai_rc, s)
         else case vrf_at s (re_vr_id re) of
           None \<Rightarrow> (SAI_STATUS_INVALID_OBJECT_ID, s)
         | Some v \<Rightarrow>
             (case sai_fib_route_node_get (util e) s re of
                None \<Rightarrow> (SAI_STATUS_ITEM_NOT_FOUND, s)
              | Some r \<Rightarrow>
                  (let (sai_rc, route_node_in, s) = sai_fib_route_attributes_parse e [attr] r s
                   in if sai_rc \<noteq> SAI_STATUS_SUCCESS then (sai_rc, s)
                      else let (sai_rc, s) = hw_call (route_create (route_npu e) route_node_in) s
                      in if sai_rc \<noteq> SAI_STATUS_SUCCESS then (sai_rc, s)
                         else let s = (if \<not> sai_fib_route_is_nh_info_match r route_node_in
                                       then sai_fib_route_nh_ref_count_incr route_node_in
                                              (sai_fib_route_nh_ref_count_decr r s)
                                       else s)
                              in (sai_rc,
                                  set_vrf (re_vr_id re)
                                    (v\<lparr>vrf_route_tree :=
                                        tree_put (route_entry_key (util e) re) route_node_in (vrf_route_tree v)\<rparr>)
                                    s))))"

definition sai_fib_route_attribute_get ::
    "'h l3_env \<Rightarrow> route_entry \<Rightarrow> nat \<Rightarrow> 'h fib \<Rightarrow> (sai_status \<times> route_attr list) \<times> 'h fib" where
  "sai_fib_route_attribute_get e re attr_count s =
     (if attr_count = 0 then ((SAI_STATUS_INVALID_PARAMETER, []), s)
      else case sai_fib_route_node_get (util e) s re of
        None \<Rightarrow> ((SAI_STATUS_ITEM_NOT_FOUND, []), s)
      | Some r \<Rightarrow> hw_call (route_attr_get (route_npu e) r attr_count) s)"

section \<open>Reference counts are ledger adjustments\<close>

lemma route_refs_incr: "sai_fib_route_nh_ref_count_incr r s = adjust_refs (rt_nh r) 1 s"
  by (simp add: sai_fib_route_nh_ref_count_incr_def adjust_refs_def split: route_nh.split)

lemma route_refs_decr: "sai_fib_route_nh_ref_count_decr r s = adjust_refs (rt_nh r) (- 1) s"
  by (simp add: sai_fib_route_nh_ref_count_decr_def adjust_refs_def split: route_nh.split option.split)

lemma route_node_get_at:
  "sai_fib_route_node_get u s re = route_at s (re_vr_id re, route_entry_key u re)"
  by (simp add: sai_fib_route_node_get_def route_at_def routes_of_def split: option.split)

lemma put_route_eq:
  "vrf_at s i = Some v \<Longrightarrow>
   put_route (i, k) r s = set_vrf i (v\<lparr>vrf_route_tree := tree_put k r (vrf_route_tree v)\<rparr>) s"
  "vrf_at s i = Some v \<Longrightarrow>
   del_route (i, k) s = set_vrf i (v\<lparr>vrf_route_tree := tree_del k (vrf_route_tree v)\<rparr>) s"
  by (simp_all add: put_route_def del_route_def set_routes_def routes_of_def)

lemma adjust_refs_hw [simp]: "adjust_refs t d (s\<lparr>hw := h\<rparr>) = (adjust_refs t d s)\<lparr>hw := h\<rparr>"
  by (simp add: adjust_refs_def split: route_nh.split option.split)

lemma route_storable_hw: "hw_only s s' \<Longrightarrow> route_storable u s' ik r = route_storable u s ik r"
  by (simp add: route_storable_def route_target_ok_def hw_only_sel cong: route_nh.case_cong)

lemma route_at_hw: "hw_only s s' \<Longrightarrow> route_at s' ik = route_at s ik"
  by (simp add: route_at_def routes_of_def hw_only_sel)

lemma adjust_refs_set_vrf: "adjust_refs t d (set_vrf i v s) = set_vrf i v (adjust_refs t d s)"
  by (simp add: adjust_refs_def set_defs split: route_nh.split option.split)

section \<open>Parsing\<close>

text \<open>A route that forwards or logs has something to forward to.\<close>

definition route_fwd :: "route_node \<Rightarrow> bool" where
  "route_fwd r \<longleftrightarrow>
     (rt_packet_action r = SAI_PACKET_ACTION_FORWARD \<or> rt_packet_action r = SAI_PACKET_ACTION_LOG \<longrightarrow>
      rt_nh r \<noteq> RouteNhNone)"

definition same_entry :: "route_node \<Rightarrow> route_node \<Rightarrow> bool" where
  "same_entry r r' \<longleftrightarrow>
     rt_vrf_id r' = rt_vrf_id r \<and> rt_prefix r' = rt_prefix r \<and> rt_prefix_len r' = rt_prefix_len r"

lemma same_entry_trans: "same_entry r m \<Longrightarrow> same_entry m k \<Longrightarrow> same_entry r k"
  by (simp add: same_entry_def)

lemma route_target_hw: "hw_only s s' \<Longrightarrow> route_target_ok u s' t = route_target_ok u s t"
  by (simp add: route_target_ok_def hw_only_sel cong: route_nh.case_cong)

lemma route_attr_set_result:
  assumes inv: "fib_inv (util e) s" and tg: "route_target_ok (util e) s (rt_nh r)"
    and call: "route_attr_set e attr r s = (st, r', s')"
  shows "hw_only s s' \<and> same_entry r r' \<and> route_target_ok (util e) s (rt_nh r')"
proof (cases attr)
  case (SAI_ROUTE_ATTR_NEXT_HOP_ID oid)
  have "route_target_ok (util e) s (RouteNh a)" if "tree_get (nh_id_tree s) oid = Some a" for a
    using nh_id_okD [OF fib_invD(6) [OF inv] that] by (auto simp: route_target_ok_def)
  moreover have "route_target_ok (util e) s (RouteNhGroup g)" if "tree_get (nh_group_tree s) oid = Some g" for g
    using grp_tree_okD [OF fib_invD(9) [OF inv] that] by (auto simp: route_target_ok_def)
  ultimately show ?thesis using call tg SAI_ROUTE_ATTR_NEXT_HOP_ID
    by (auto simp: route_attr_set_def sai_fib_route_nh_id_attr_set_def sai_fib_route_nh_grp_id_attr_set_def
        same_entry_def Let_def split: if_splits option.splits)
next
  case (SAI_ROUTE_ATTR_META_DATA m)
  then show ?thesis using call tg
    by (auto simp: route_attr_set_def same_entry_def split: prod.splits if_splits dest: hw_call_only)
qed (use call tg in \<open>auto simp: route_attr_set_def same_entry_def sai_fib_route_pkt_action_attr_set_def
      split: if_splits\<close>)

lemma route_parse_loop_result:
  "fib_inv (util e) s \<Longrightarrow> route_target_ok (util e) s (rt_nh r) \<Longrightarrow>
   route_attributes_parse_loop e attrs i r s = (st, r', s') \<Longrightarrow>
   hw_only s s' \<and> same_entry r r' \<and> route_target_ok (util e) s (rt_nh r')"
proof (induction attrs arbitrary: i r s)
  case (Cons attr attrs)
  obtain st1 r1 s1 where one: "route_attr_set e attr r s = (st1, r1, s1)" by (metis prod_cases3)
  from route_attr_set_result [OF Cons.prems(1,2) one]
  have 1: "hw_only s s1" "same_entry r r1" "route_target_ok (util e) s (rt_nh r1)" by simp_all
  show ?case
  proof (cases "st1 = SAI_STATUS_SUCCESS")
    case False
    then show ?thesis using Cons.prems(3) one 1 by auto
  next
    case True
    have "fib_inv (util e) s1" "route_target_ok (util e) s1 (rt_nh r1)"
      using Cons.prems(1) 1 by (simp_all add: hw_only_inv route_target_hw)
    moreover have "route_attributes_parse_loop e attrs (i + 1) r1 s1 = (st, r', s')"
      using Cons.prems(3) one True by simp
    ultimately have "hw_only s1 s' \<and> same_entry r1 r' \<and> route_target_ok (util e) s1 (rt_nh r')"
      by (rule Cons.IH)
    with 1 show ?thesis using hw_only_trans same_entry_trans route_target_hw by metis
  qed
qed (simp add: same_entry_def)

lemma route_parse_result:
  assumes "fib_inv (util e) s" "route_target_ok (util e) s (rt_nh r)"
    and call: "sai_fib_route_attributes_parse e attrs r s = (st, r', s')"
  shows "hw_only s s' \<and> (st = SAI_STATUS_SUCCESS \<longrightarrow>
    same_entry r r' \<and> route_target_ok (util e) s (rt_nh r') \<and> route_fwd r')"
proof -
  obtain st1 r1 s1 where loop: "route_attributes_parse_loop e attrs 0 r s = (st1, r1, s1)"
    by (metis prod_cases3)
  from route_parse_loop_result [OF assms(1,2) loop] call loop show ?thesis
    by (auto simp: sai_fib_route_attributes_parse_def route_fwd_def split: if_splits)
qed

section \<open>What the operations do\<close>

definition routes_ok :: "'h fib \<Rightarrow> bool" where
  "routes_ok s \<longleftrightarrow>
     (\<forall>ik r. route_at s ik = Some r \<longrightarrow>
        route_fwd r \<and> snd ik = radix_route_key (rt_prefix r) (rt_prefix_len r))"

definition entry_at :: "l3_util \<Rightarrow> route_entry \<Rightarrow> oid \<times> route_key" where
  "entry_at u re = (re_vr_id re, route_entry_key u re)"

text \<open>The state with one more route, with one less, and with one route changed.\<close>

definition route_added :: "oid \<times> route_key \<Rightarrow> route_node \<Rightarrow> 'h fib \<Rightarrow> 'h fib" where
  "route_added ik r s = adjust_refs (rt_nh r) 1 (put_route ik r s)"

definition route_gone :: "oid \<times> route_key \<Rightarrow> route_node \<Rightarrow> 'h fib \<Rightarrow> 'h fib" where
  "route_gone ik r s = del_route ik (adjust_refs (rt_nh r) (- 1) s)"

definition route_changed :: "oid \<times> route_key \<Rightarrow> route_node \<Rightarrow> route_node \<Rightarrow> 'h fib \<Rightarrow> 'h fib" where
  "route_changed ik r0 r s = put_route ik r
     (if rt_nh r0 = rt_nh r then s else adjust_refs (rt_nh r) 1 (adjust_refs (rt_nh r0) (- 1) s))"

lemma route_step_hw:
  "hw_only s s' \<Longrightarrow> hw_only (route_added ik r s) (route_added ik r s')"
  "hw_only s s' \<Longrightarrow> hw_only (route_gone ik r s) (route_gone ik r s')"
  "hw_only s s' \<Longrightarrow> hw_only (route_changed ik r0 r s) (route_changed ik r0 r s')"
proof -
  have sr: "set_routes i T (s\<lparr>hw := h\<rparr>) = (set_routes i T s)\<lparr>hw := h\<rparr>" for i T h and s :: "'b fib"
    by (simp add: set_routes_def set_vrf_def split: option.split)
  have ro: "routes_of (s\<lparr>hw := h\<rparr>) i = routes_of s i" for i h and s :: "'b fib"
    by (simp add: routes_of_def)
  show "hw_only s s' \<Longrightarrow> hw_only (route_added ik r s) (route_added ik r s')"
    "hw_only s s' \<Longrightarrow> hw_only (route_gone ik r s) (route_gone ik r s')"
    "hw_only s s' \<Longrightarrow> hw_only (route_changed ik r0 r s) (route_changed ik r0 r s')"
    by (auto simp: hw_only_def route_added_def route_gone_def route_changed_def put_route_def del_route_def sr ro)
qed

lemma route_create_result:
  assumes inv: "fib_inv (util e) s"
    and call: "sai_fib_route_create e re attrs s = (st, s')"
  shows "if st = SAI_STATUS_SUCCESS
    then \<exists>r. route_at s (entry_at (util e) re) = None \<and>
           route_storable (util e) s (entry_at (util e) re) r \<and> route_fwd r \<and>
           snd (entry_at (util e) re) = radix_route_key (rt_prefix r) (rt_prefix_len r) \<and>
           hw_only (route_added (entry_at (util e) re) r s) s'
    else hw_only s s'"
proof (cases "sai_fib_route_input_params_validate re (length attrs) = SAI_STATUS_SUCCESS \<and>
    vrf_at s (re_vr_id re) \<noteq> None \<and> sai_fib_route_node_get (util e) s re = None")
  case False
  then show ?thesis using call by (auto simp: sai_fib_route_create_def Let_def split: if_splits option.splits)
next
  case True
  then obtain v where v: "vrf_at s (re_vr_id re) = Some v" by auto
  let ?k = "route_entry_key (util e) re" and ?r0 = "sai_fib_route_node_init (util e) re"
  obtain node s1 where al: "sai_fib_route_node_alloc e s = (node, s1)" by force
  have h1: "hw_only s s1" using al by (auto simp: sai_fib_route_node_alloc_def split: prod.splits dest!: hw_call_only)
  show ?thesis
  proof (cases node)
    case None
    then show ?thesis using call True v al h1 by (auto simp: sai_fib_route_create_def)
  next
    case (Some x)
    obtain st2 r s2 where p: "sai_fib_route_attributes_parse e attrs ?r0 s1 = (st2, r, s2)" by (metis prod_cases3)
    have inv1: "fib_inv (util e) s1" using inv h1 by (simp add: hw_only_inv)
    have r0: "rt_vrf_id ?r0 = re_vr_id re" "radix_route_key (rt_prefix ?r0) (rt_prefix_len ?r0) = ?k" "rt_nh ?r0 = RouteNhNone"
      by (simp_all add: sai_fib_route_node_init_def route_entry_key_def)
    have "route_target_ok (util e) s1 (rt_nh ?r0)" by (simp add: r0 route_target_ok_def)
    note P = route_parse_result [OF inv1 this p]
    have h2: "hw_only s s2" using P h1 hw_only_trans by blast
    show ?thesis
    proof (cases "st2 = SAI_STATUS_SUCCESS")
      case False
      then show ?thesis using call True v al Some p h2 by (auto simp: sai_fib_route_create_def)
    next
      case ok2: True
      with P have r: "same_entry ?r0 r" "route_target_ok (util e) s (rt_nh r)" "route_fwd r"
        using route_target_hw [OF h1] by auto
      obtain st3 s3 where np: "hw_call (route_create (route_npu e) r) s2 = (st3, s3)" by force
      have h3: "hw_only s s3" using h2 hw_call_only [OF np] hw_only_trans by blast
      show ?thesis
      proof (cases "st3 = SAI_STATUS_SUCCESS")
        case False
        then show ?thesis using call True v al Some p ok2 np h3 by (auto simp: sai_fib_route_create_def)
      next
        case ok3: True
        have key: "radix_route_key (rt_prefix r) (rt_prefix_len r) = ?k" using r(1) r0 by (simp add: same_entry_def)
        obtain ok s4 where ri: "radix_insert_ok e (vrf_route_tree v) ?k s3 = (ok, s4)" by force
        have h4: "hw_only s s4" "ok \<Longrightarrow> tree_get (vrf_route_tree v) ?k = None"
          using ri h3 hw_only_trans by (auto simp: radix_insert_ok_def split: prod.splits dest!: hw_call_only)
        show ?thesis
        proof (cases ok)
          case False
          then show ?thesis using call True v al Some p ok2 np ok3 ri key h4
            by (auto simp: sai_fib_route_create_def sai_fib_route_node_insert_to_tree_def)
        next
          case ok: True
          have v4: "vrf_at s4 (re_vr_id re) = Some v" using v h4 by (simp add: hw_only_sel)
          have "st = SAI_STATUS_SUCCESS" "s' = route_added (re_vr_id re, ?k) r s4"
            using call True v al Some p ok2 np ok3 ri key ok
            by (simp_all add: sai_fib_route_create_def sai_fib_route_node_insert_to_tree_def
                route_added_def put_route_eq(1) [OF v4] route_refs_incr)
          moreover have "route_storable (util e) s (re_vr_id re, ?k) r"
            using v r r0 by (simp add: route_storable_def same_entry_def)
          ultimately show ?thesis
            using route_step_hw(1) [OF h4(1), of "(re_vr_id re, ?k)" r] r(3) key True
            by (simp add: entry_at_def route_node_get_at) (intro exI [where x = r], simp)
        qed
      qed
    qed
  qed
qed


lemma route_remove_result:
  assumes call: "sai_fib_route_remove e re s = (st, s')"
  shows "if st = SAI_STATUS_SUCCESS
    then \<exists>r. route_at s (entry_at (util e) re) = Some r \<and> hw_only (route_gone (entry_at (util e) re) r s) s'
    else hw_only s s'"
proof (cases "sai_fib_uc_route_entry_validate re = SAI_STATUS_SUCCESS \<and>
    sai_fib_route_node_get (util e) s re \<noteq> None")
  case False
  then show ?thesis using call by (auto simp: sai_fib_route_remove_def Let_def split: if_splits option.splits)
next
  case True
  let ?k = "route_entry_key (util e) re"
  from True obtain v r where v: "vrf_at s (re_vr_id re) = Some v" and r: "sai_fib_route_node_get (util e) s re = Some r"
    by (auto simp: sai_fib_route_node_get_def split: option.splits)
  obtain st1 s1 where np: "hw_call (route_remove (route_npu e) r) s = (st1, s1)" by force
  note h1 = hw_call_only [OF np]
  show ?thesis
  proof (cases "st1 = SAI_STATUS_SUCCESS")
    case False
    then show ?thesis using call True v r np h1 by (auto simp: sai_fib_route_remove_def)
  next
    case ok: True
    have v1: "vrf_at (adjust_refs (rt_nh r) (- 1) s1) (re_vr_id re) = Some v" using v h1 by (simp add: hw_only_sel)
    have "st = SAI_STATUS_SUCCESS" "s' = route_gone (re_vr_id re, ?k) r s1"
      using call True v r np ok
      by (simp_all add: sai_fib_route_remove_def route_gone_def put_route_eq(2) [OF v1] route_refs_decr)
    then show ?thesis using route_step_hw(2) [OF h1, of "(re_vr_id re, ?k)" r] r
      by (simp add: entry_at_def route_node_get_at)
  qed
qed

lemma route_attribute_set_result:
  assumes inv: "fib_inv (util e) s"
    and call: "sai_fib_route_attribute_set e re attr s = (st, s')"
  shows "if st = SAI_STATUS_SUCCESS
    then \<exists>r0 r. route_at s (entry_at (util e) re) = Some r0 \<and> same_entry r0 r \<and> route_fwd r \<and>
           route_storable (util e) s (entry_at (util e) re) r \<and>
           hw_only (route_changed (entry_at (util e) re) r0 r s) s'
    else hw_only s s'"
proof (cases "sai_fib_route_input_params_validate re 1 = SAI_STATUS_SUCCESS \<and>
    sai_fib_route_node_get (util e) s re \<noteq> None")
  case False
  then show ?thesis using call by (auto simp: sai_fib_route_attribute_set_def Let_def split: if_splits option.splits)
next
  case True
  let ?k = "route_entry_key (util e) re"
  from True obtain v r0 where v: "vrf_at s (re_vr_id re) = Some v" and r0: "sai_fib_route_node_get (util e) s re = Some r0"
    and g: "tree_get (vrf_route_tree v) ?k = Some r0"
    by (auto simp: sai_fib_route_node_get_def split: option.splits)
  note ok0 = route_okD [OF fib_invD(7) [OF inv] v g]
  obtain st1 r s1 where p: "sai_fib_route_attributes_parse e [attr] r0 s = (st1, r, s1)" by (metis prod_cases3)
  note P = route_parse_result [OF inv conjunct2 [OF ok0] p]
  show ?thesis
  proof (cases "st1 = SAI_STATUS_SUCCESS")
    case False
    then show ?thesis using call True v r0 p P by (auto simp: sai_fib_route_attribute_set_def)
  next
    case ok1: True
    with P have r: "same_entry r0 r" "route_target_ok (util e) s (rt_nh r)" "route_fwd r" "hw_only s s1" by simp_all
    obtain st2 s2 where np: "hw_call (route_create (route_npu e) r) s1 = (st2, s2)" by force
    have h2: "hw_only s s2" using r(4) hw_call_only [OF np] hw_only_trans by blast
    show ?thesis
    proof (cases "st2 = SAI_STATUS_SUCCESS")
      case False
      then show ?thesis using call True v r0 p ok1 np h2 by (auto simp: sai_fib_route_attribute_set_def)
    next
      case ok2: True
      let ?s3 = "if rt_nh r0 = rt_nh r then s2 else adjust_refs (rt_nh r) 1 (adjust_refs (rt_nh r0) (- 1) s2)"
      have v3: "vrf_at ?s3 (re_vr_id re) = Some v" using v h2 by (simp add: hw_only_sel)
      have "(st, s') = (SAI_STATUS_SUCCESS, set_vrf (re_vr_id re)
          (v\<lparr>vrf_route_tree := tree_put ?k r (vrf_route_tree v)\<rparr>) ?s3)"
        using call True v r0 p ok1 np ok2
        by (simp add: sai_fib_route_attribute_set_def route_refs_incr route_refs_decr
            sai_fib_route_is_nh_info_match_def split: if_split_asm)
      then have st: "st = SAI_STATUS_SUCCESS" "s' = route_changed (re_vr_id re, ?k) r0 r s2"
        by (simp_all add: route_changed_def put_route_eq(1) [OF v3])
      have "route_storable (util e) s (re_vr_id re, ?k) r"
        using v r ok0 by (simp add: route_storable_def same_entry_def)
      with st route_step_hw(3) [OF h2, of "(re_vr_id re, ?k)" r0 r] r r0 show ?thesis
        by (auto simp: entry_at_def route_node_get_at)
    qed
  qed
qed

lemma route_attribute_get_hw: "sai_fib_route_attribute_get e re n s = (r, s') \<Longrightarrow> hw_only s s'"
  by (auto simp: sai_fib_route_attribute_get_def split: if_splits option.splits dest: hw_call_only)

section \<open>The invariants\<close>

lemma route_create_inv:
  assumes inv: "fib_inv (util e) s" and call: "sai_fib_route_create e re attrs s = (st, s')"
  shows "fib_inv (util e) s'"
  using route_create_result [OF inv call] inv ledger_rules(1) [OF inv, of "entry_at (util e) re"]
  by (auto simp: hw_only_inv route_added_def split: if_split_asm)

lemma route_remove_inv:
  assumes inv: "fib_inv (util e) s" and call: "sai_fib_route_remove e re s = (st, s')"
  shows "fib_inv (util e) s'"
  using route_remove_result [OF call] inv ledger_rules(2) [OF inv, of "entry_at (util e) re"]
  by (auto simp: hw_only_inv route_gone_def split: if_split_asm)

lemma route_attribute_set_inv:
  assumes inv: "fib_inv (util e) s" and call: "sai_fib_route_attribute_set e re attr s = (st, s')"
  shows "fib_inv (util e) s'"
proof (cases "st = SAI_STATUS_SUCCESS")
  case True
  then obtain r0 r where r: "route_at s (entry_at (util e) re) = Some r0"
    "route_storable (util e) s (entry_at (util e) re) r" "hw_only (route_changed (entry_at (util e) re) r0 r s) s'"
    using route_attribute_set_result [OF inv call] by auto
  from ledger_rules(3) [OF inv r(1,2)] r(3) show ?thesis by (simp add: hw_only_inv route_changed_def)
next
  case False
  then show ?thesis using route_attribute_set_result [OF inv call] inv by (simp add: hw_only_inv)
qed

text \<open>What a successful call leaves in the trees of routes.\<close>

lemma route_at_added:
  "vrf_at s (fst ik) \<noteq> None \<Longrightarrow> route_at (route_added ik r s) jk = (if jk = ik then Some r else route_at s jk)"
  by (simp add: route_added_def)

lemma route_at_gone:
  "vrf_at s (fst ik) \<noteq> None \<Longrightarrow> route_at (route_gone ik r s) jk = (if jk = ik then None else route_at s jk)"
  by (simp add: route_gone_def)

lemma route_at_changed:
  "vrf_at s (fst ik) \<noteq> None \<Longrightarrow>
   route_at (route_changed ik r0 r s) jk = (if jk = ik then Some r else route_at s jk)"
  by (simp add: route_changed_def)

lemma routes_okD:
  "routes_ok s \<Longrightarrow> route_at s ik = Some r \<Longrightarrow>
   route_fwd r \<and> snd ik = radix_route_key (rt_prefix r) (rt_prefix_len r)"
  unfolding routes_ok_def by blast

lemma routes_ok_hw: "hw_only s s' \<Longrightarrow> routes_ok s' = routes_ok s"
  by (simp add: routes_ok_def route_at_hw)

lemma routes_ok_upd:
  assumes ok: "routes_ok s" and at: "\<And>jk. route_at s' jk = (if jk = ik then x else route_at s jk)"
    and x: "\<And>r. x = Some r \<Longrightarrow> route_fwd r \<and> snd ik = radix_route_key (rt_prefix r) (rt_prefix_len r)"
  shows "routes_ok s'"
  unfolding routes_ok_def
proof (intro allI impI)
  fix jk r assume r: "route_at s' jk = Some r"
  show "route_fwd r \<and> snd jk = radix_route_key (rt_prefix r) (rt_prefix_len r)"
  proof (cases "jk = ik")
    case True
    then show ?thesis using r x by (simp add: at)
  next
    case False
    then show ?thesis using r routes_okD [OF ok] by (simp add: at)
  qed
qed

lemma route_create_routes_ok:
  assumes "fib_inv (util e) s" "routes_ok s" "sai_fib_route_create e re attrs s = (st, s')"
  shows "routes_ok s'"
proof (cases "st = SAI_STATUS_SUCCESS")
  case True
  with route_create_result [OF assms(1,3)] obtain r where r: "route_storable (util e) s (entry_at (util e) re) r"
    "route_fwd r" "snd (entry_at (util e) re) = radix_route_key (rt_prefix r) (rt_prefix_len r)"
    "hw_only (route_added (entry_at (util e) re) r s) s'" by auto
  have "vrf_at s (fst (entry_at (util e) re)) \<noteq> None" using r(1) by (simp add: route_storable_def)
  from routes_ok_upd [OF assms(2) route_at_added [OF this], of r] r(2-4) show ?thesis by (simp add: routes_ok_hw)
qed (use route_create_result [OF assms(1,3)] assms(2) in \<open>simp add: routes_ok_hw\<close>)

lemma route_remove_routes_ok:
  assumes "routes_ok s" "sai_fib_route_remove e re s = (st, s')"
  shows "routes_ok s'"
proof (cases "st = SAI_STATUS_SUCCESS")
  case True
  with route_remove_result [OF assms(2)] obtain r where r: "route_at s (entry_at (util e) re) = Some r"
    "hw_only (route_gone (entry_at (util e) re) r s) s'" by auto
  have "vrf_at s (fst (entry_at (util e) re)) \<noteq> None" using route_at_SomeD [OF r(1)] by auto
  from routes_ok_upd [OF assms(1) route_at_gone [OF this], of r] r(2) show ?thesis by (simp add: routes_ok_hw)
qed (use route_remove_result [OF assms(2)] assms(1) in \<open>simp add: routes_ok_hw\<close>)

lemma route_attribute_set_routes_ok:
  assumes "fib_inv (util e) s" "routes_ok s" "sai_fib_route_attribute_set e re attr s = (st, s')"
  shows "routes_ok s'"
proof (cases "st = SAI_STATUS_SUCCESS")
  case True
  with route_attribute_set_result [OF assms(1,3)] obtain r0 r where r0: "route_at s (entry_at (util e) re) = Some r0"
    and r: "same_entry r0 r" "route_fwd r" "hw_only (route_changed (entry_at (util e) re) r0 r s) s'" by auto
  have "vrf_at s (fst (entry_at (util e) re)) \<noteq> None" using route_at_SomeD [OF r0] by auto
  from routes_ok_upd [OF assms(2) route_at_changed [OF this], of r r0] r routes_okD [OF assms(2) r0]
  show ?thesis by (simp add: routes_ok_hw same_entry_def)
qed (use route_attribute_set_result [OF assms(1,3)] assms(2) in \<open>simp add: routes_ok_hw\<close>)

end
