(* ===== verification/Fib_System.thy ===== *)
theory Fib_System
  imports Fib_Group_Api Fib_Rif Fib_Neighbor Fib_Route
begin

text \<open>
  The L3 component as a whole: the calls of its API tables and callbacks as one datatype, their
  dispatch, and the transition system they span. Every call runs under the lock of the component
  (\<open>sai_fib_lock\<close>), so a history is a sequence of calls.
\<close>

section \<open>Calls\<close>

datatype fib_call =
    VirtualRouterCreate "vr_attr list"
  | VirtualRouterRemove oid
  | VirtualRouterAttributeSet oid vr_attr
  | VirtualRouterAttributeGet oid nat
  | EcmpMaxPathsSet u32
  | RouterInterfaceCreate "rif_attr list"
  | RouterInterfaceRemove oid
  | RouterInterfaceAttributeSet oid rif_attr
  | RouterInterfaceAttributeGet oid nat
  | RifLagCallback oid oid "oid list" sai_lag_operation
  | NextHopCreate "nh_attr list"
  | NextHopRemove oid
  | NextHopAttributeSet oid nh_attr
  | NextHopAttributeGet oid nat
  | NextHopGroupCreate "nhg_attr list"
  | NextHopGroupRemove oid
  | NextHopGroupAttributeSet oid nhg_attr
  | NextHopGroupAttributeGet oid nat
  | AddNextHopToGroup oid "oid list"
  | RemoveNextHopFromGroup oid "oid list"
  | NeighborCreate neighbor_entry "neighbor_attr list"
  | NeighborRemove neighbor_entry
  | NeighborAttributeSet neighbor_entry neighbor_attr
  | NeighborAttributeGet neighbor_entry nat
  | NeighborRemoveAll
  | NeighborFdbCallback "fdb_notification list"
  | RouteCreate route_entry "route_attr list"
  | RouteRemove route_entry
  | RouteAttributeSet route_entry route_attr
  | RouteAttributeGet route_entry nat

definition fib_exec :: "'h l3_env \<Rightarrow> fib_call \<Rightarrow> 'h fib \<Rightarrow> sai_status \<times> 'h fib" where
  "fib_exec e c s =
     (case c of
        VirtualRouterCreate attrs \<Rightarrow> (let (st, _, s) = sai_fib_virtual_router_create e attrs s in (st, s))
      | VirtualRouterRemove i \<Rightarrow> sai_fib_virtual_router_remove e i s
      | VirtualRouterAttributeSet i attr \<Rightarrow> sai_fib_virtual_router_attribute_set e i attr s
      | VirtualRouterAttributeGet i n \<Rightarrow>
          (let ((st, _), s) = sai_fib_virtual_router_attribute_get e i n s in (st, s))
      | EcmpMaxPathsSet m \<Rightarrow> sai_router_ecmp_max_paths_set e m s
      | RouterInterfaceCreate attrs \<Rightarrow> (let (st, _, s) = sai_fib_router_interface_create e attrs s in (st, s))
      | RouterInterfaceRemove i \<Rightarrow> sai_fib_router_interface_remove e i s
      | RouterInterfaceAttributeSet i attr \<Rightarrow> sai_fib_router_interface_attribute_set e i attr s
      | RouterInterfaceAttributeGet i n \<Rightarrow>
          (let ((st, _), s) = sai_fib_router_interface_attribute_get e i n s in (st, s))
      | RifLagCallback lag r ports opc \<Rightarrow> sai_rif_lag_callback e lag r ports opc s
      | NextHopCreate attrs \<Rightarrow> (let (st, _, s) = sai_fib_next_hop_create e attrs s in (st, s))
      | NextHopRemove i \<Rightarrow> sai_fib_next_hop_remove e i s
      | NextHopAttributeSet i attr \<Rightarrow> sai_fib_next_hop_attribute_set i attr s
      | NextHopAttributeGet i n \<Rightarrow> (let ((st, _), s) = sai_fib_next_hop_attribute_get e i n s in (st, s))
      | NextHopGroupCreate attrs \<Rightarrow> (let (st, _, s) = sai_fib_next_hop_group_create e attrs s in (st, s))
      | NextHopGroupRemove i \<Rightarrow> sai_fib_next_hop_group_remove e i s
      | NextHopGroupAttributeSet i attr \<Rightarrow> sai_fib_next_hop_group_attribute_set i attr s
      | NextHopGroupAttributeGet i n \<Rightarrow>
          (let ((st, _), s) = sai_fib_next_hop_group_attribute_get e i n s in (st, s))
      | AddNextHopToGroup i ids \<Rightarrow> sai_fib_next_hop_add_to_group e i ids s
      | RemoveNextHopFromGroup i ids \<Rightarrow> sai_fib_next_hop_remove_from_group e i ids s
      | NeighborCreate ne attrs \<Rightarrow> sai_fib_neighbor_create e ne attrs s
      | NeighborRemove ne \<Rightarrow> sai_fib_neighbor_remove e ne s
      | NeighborAttributeSet ne attr \<Rightarrow> sai_fib_neighbor_attribute_set e ne attr s
      | NeighborAttributeGet ne n \<Rightarrow> (let ((st, _), s) = sai_fib_neighbor_attribute_get e ne n s in (st, s))
      | NeighborRemoveAll \<Rightarrow> sai_fib_neighbor_remove_all_entries s
      | NeighborFdbCallback upds \<Rightarrow> sai_neighbor_fdb_callback e upds s
      | RouteCreate re attrs \<Rightarrow> sai_fib_route_create e re attrs s
      | RouteRemove re \<Rightarrow> sai_fib_route_remove e re s
      | RouteAttributeSet re attr \<Rightarrow> sai_fib_route_attribute_set e re attr s
      | RouteAttributeGet re n \<Rightarrow> (let ((st, _), s) = sai_fib_route_attribute_get e re n s in (st, s)))"

text \<open>
  The counters of the code are 32 bits wide; a call fits when they cannot overflow: there is room for
  one more next hop node, and a group that grows stays below \<open>2 ^ 32\<close> members.
\<close>

definition call_fits :: "fib_call \<Rightarrow> 'h fib \<Rightarrow> bool" where
  "call_fits c s \<longleftrightarrow>
     fib_bounded s \<and> length (nh_heap s) + 1 < 2 ^ 32 \<and>
     (case c of
        NextHopGroupCreate attrs \<Rightarrow> length (attr_ids attrs) < 2 ^ 32
      | AddNextHopToGroup i ids \<Rightarrow> group_room s i (length ids)
      | _ \<Rightarrow> True)"

definition fib_initial :: "'h fib \<Rightarrow> bool" where
  "fib_initial s \<longleftrightarrow>
     vrf_tree s = [] \<and> router_interface_tree s = [] \<and> nh_id_tree s = [] \<and> nh_group_tree s = [] \<and>
     neighbor_mac_tree s = [] \<and> nh_heap s = [] \<and> grp_heap s = [] \<and> num_virtual_routers s = 0"

text \<open>
  A step is a call whose behaviour is defined. A call that is not (an undone creation of a neighbor
  that was never linked, an array written past its end) has no step: a run that gets there ends.
\<close>

inductive fib_step :: "'h l3_env \<Rightarrow> 'h fib \<Rightarrow> fib_call \<Rightarrow> sai_status \<Rightarrow> 'h fib \<Rightarrow> bool" for e where
  call: "call_fits c s \<Longrightarrow> fib_exec e c s = (st, s') \<Longrightarrow> st \<noteq> UNDEFINED_BEHAVIOUR \<Longrightarrow> fib_step e s c st s'"

inductive_cases fib_stepE [elim!]: "fib_step e s c st s'"
inductive_simps fib_step_simps: "fib_step e s c st s'"

inductive fib_reachable :: "'h l3_env \<Rightarrow> 'h fib \<Rightarrow> bool" for e where
  initial: "fib_initial s \<Longrightarrow> fib_reachable e s"
| step: "fib_reachable e s \<Longrightarrow> fib_step e s c st s' \<Longrightarrow> fib_reachable e s'"

text \<open>
  Between calls other modules change \<open>hw\<close> as they like; a call with \<open>EcmpMaxPathsSet\<close> is the only one
  that changes the limit of groups.
\<close>

section \<open>What a call leaves alone\<close>

definition routes_kept :: "'h fib \<Rightarrow> 'h fib \<Rightarrow> bool" where
  "routes_kept s s' \<longleftrightarrow> (\<forall>ik. route_at s' ik = route_at s ik)"

definition vrfs_kept :: "'h fib \<Rightarrow> 'h fib \<Rightarrow> bool" where
  "vrfs_kept s s' \<longleftrightarrow>
     num_virtual_routers s' = num_virtual_routers s \<and>
     (\<forall>i. map_option vrf_src_mac (vrf_at s' i) = map_option vrf_src_mac (vrf_at s i))"

definition rif_view :: "rif_node \<Rightarrow> sai_rif_type \<times> oid \<times> vlan_id" where
  "rif_view r = (rif_type r, rif_port_id r, rif_vlan_id r)"

definition rifs_kept :: "'h fib \<Rightarrow> 'h fib \<Rightarrow> bool" where
  "rifs_kept s s' \<longleftrightarrow> (\<forall>r. map_option rif_view (rif_at s' r) = map_option rif_view (rif_at s r))"

definition all_kept :: "'h fib \<Rightarrow> 'h fib \<Rightarrow> bool" where
  "all_kept s s' \<longleftrightarrow> routes_kept s s' \<and> vrfs_kept s s' \<and> rifs_kept s s'"

text \<open>Every interface is attached to something.\<close>

definition rifs_attached :: "'h l3_env \<Rightarrow> 'h fib \<Rightarrow> bool" where
  "rifs_attached e s \<longleftrightarrow> (\<forall>i r. rif_at s i = Some r \<longrightarrow> rif_attached e r)"

definition sys_inv :: "'h l3_env \<Rightarrow> 'h fib \<Rightarrow> bool" where
  "sys_inv e s \<longleftrightarrow>
     fib_inv (util e) s \<and> nh_owned s \<and> routes_ok s \<and> num_vrs_ok s \<and> vr_mac_ok (util e) s \<and>
     rifs_attached e s"

lemma rif_attached_view: "rif_view r = rif_view r' \<Longrightarrow> rif_attached e r = rif_attached e r'"
  by (simp add: rif_view_def rif_attached_def)

lemma rifs_kept_attached:
  assumes k: "rifs_kept s s'" and at: "rifs_attached e s"
  shows "rifs_attached e s'"
  unfolding rifs_attached_def
proof (intro allI impI)
  fix i r assume r: "rif_at s' i = Some r"
  have "map_option rif_view (rif_at s i) = Some (rif_view r)" using k r unfolding rifs_kept_def by (metis option.simps(9))
  then obtain r0 where "rif_at s i = Some r0" "rif_view r0 = rif_view r" by auto
  with at rif_attached_view show "rif_attached e r" unfolding rifs_attached_def by metis
qed

lemma map_option_dom:
  assumes "\<forall>i. map_option f (tree_get t' i) = map_option f (tree_get t i)"
  shows "tree_dom t' = tree_dom t"
  using assms unfolding tree_dom_def by (metis option.map_disc_iff)

lemma vrfs_kept_ok:
  assumes k: "vrfs_kept s s'"
  shows "num_vrs_ok s \<Longrightarrow> num_vrs_ok s'" "vr_mac_ok u s \<Longrightarrow> vr_mac_ok u s'"
proof -
  have d: "tree_dom (vrf_tree s') = tree_dom (vrf_tree s)"
    using k unfolding vrfs_kept_def by (intro map_option_dom [of vrf_src_mac]) simp
  then show "num_vrs_ok s \<Longrightarrow> num_vrs_ok s'" using k by (simp add: num_vrs_ok_def vrfs_kept_def)
  assume m: "vr_mac_ok u s"
  show "vr_mac_ok u s'"
    unfolding vr_mac_ok_def
  proof (intro allI impI)
    fix i v assume v: "vrf_at s' i = Some v"
    have "map_option vrf_src_mac (vrf_at s i) = Some (vrf_src_mac v)"
      using k v unfolding vrfs_kept_def by (metis option.simps(9))
    then obtain v0 where "vrf_at s i = Some v0" "vrf_src_mac v0 = vrf_src_mac v" by auto
    then show "\<not> sai_fib_is_mac_address_zero u (vrf_src_mac v)" using m unfolding vr_mac_ok_def by metis
  qed
qed

lemma all_kept_inv:
  assumes "all_kept s s'" "sys_inv e s" "fib_inv (util e) s'" "nh_owned s'"
  shows "sys_inv e s'"
proof -
  have "routes_ok s'" using assms(1,2) by (simp add: all_kept_def routes_kept_def sys_inv_def routes_ok_def)
  moreover have "rifs_attached e s'" using assms(1,2) rifs_kept_attached by (auto simp: all_kept_def sys_inv_def)
  ultimately show ?thesis using assms vrfs_kept_ok [of s s'] by (simp add: all_kept_def sys_inv_def)
qed

subsection \<open>The frames of the components\<close>

lemma all_kept_trees:
  assumes "vrf_tree s' = vrf_tree s" "router_interface_tree s' = router_interface_tree s"
    "num_virtual_routers s' = num_virtual_routers s"
  shows "all_kept s s'"
  using assms by (simp add: all_kept_def routes_kept_def vrfs_kept_def rifs_kept_def route_at_def routes_of_def)

lemma all_kept_hw: "hw_only s s' \<Longrightarrow> all_kept s s'"
  by (rule all_kept_trees) (simp_all add: hw_only_sel)

lemma all_kept_group: "group_frame g s s' \<Longrightarrow> all_kept s s'"
  by (rule all_kept_trees) (simp_all add: group_frame_def)

lemma all_kept_nh:
  assumes f: "nh_frame a s s'"
  shows "all_kept s s'"
proof -
  have v: "map_option (vrf_nh_tree_update (\<lambda>_. [])) (vrf_at s' i) = map_option (vrf_nh_tree_update (\<lambda>_. [])) (vrf_at s i)"
    and r: "map_option (rif_ref_count_update (\<lambda>_. 0)) (rif_at s' j) = map_option (rif_ref_count_update (\<lambda>_. 0)) (rif_at s j)" for i j
    using f by (simp_all add: nh_frame_def)
  have "routes_of s' i = routes_of s i" "map_option vrf_src_mac (vrf_at s' i) = map_option vrf_src_mac (vrf_at s i)" for i
    using v [of i] by (cases "vrf_at s i"; cases "vrf_at s' i";
        auto simp: routes_of_def dest: arg_cong [where f = vrf_route_tree] arg_cong [where f = vrf_src_mac])+
  moreover have "map_option rif_view (rif_at s' i) = map_option rif_view (rif_at s i)" for i
    using r [of i] by (cases "rif_at s i"; cases "rif_at s' i") (auto simp: rif_view_def
        dest: arg_cong [where f = rif_type] arg_cong [where f = rif_port_id] arg_cong [where f = rif_vlan_id])
  ultimately show ?thesis
    using f by (simp add: all_kept_def routes_kept_def route_at_def vrfs_kept_def rifs_kept_def nh_frame_def)
qed

lemma all_kept_neighbor:
  assumes "neighbor_frame a s s'"
  shows "all_kept s s'"
proof -
  have "all_kept (s\<lparr>neighbor_mac_tree := neighbor_mac_tree s'\<rparr>) s'"
    using assms by (intro all_kept_nh [of a]) (simp add: neighbor_frame_def)
  then show ?thesis
    by (simp add: all_kept_def routes_kept_def vrfs_kept_def rifs_kept_def route_at_def routes_of_def)
qed


section \<open>Every call keeps the invariant\<close>

text \<open>The invariant is about the software: of the environment it depends on the utilities only.\<close>

lemma sys_inv_util: "util e' = util e \<Longrightarrow> sys_inv e' s = sys_inv e s"
  by (simp add: sys_inv_def rifs_attached_def rif_attached_def)

lemma sys_invD:
  assumes "sys_inv e s"
  shows "fib_inv (util e) s" "nh_owned s" "routes_ok s" "num_vrs_ok s" "vr_mac_ok (util e) s" "rifs_attached e s"
  using assms by (simp_all add: sys_inv_def)

text \<open>What a call that is not about routes does: the invariant holds again and every route is kept.\<close>

definition sys_ok :: "'h l3_env \<Rightarrow> 'h fib \<Rightarrow> 'h fib \<Rightarrow> bool" where
  "sys_ok e s s' \<longleftrightarrow> sys_inv e s' \<and> routes_kept s s'"

lemma all_kept_ok:
  "all_kept s s' \<Longrightarrow> sys_inv e s \<Longrightarrow> fib_inv (util e) s' \<Longrightarrow> nh_owned s' \<Longrightarrow> sys_ok e s s'"
  by (simp add: sys_ok_def all_kept_inv) (simp add: all_kept_def)

lemma sys_ok_trans: "sys_ok e s s' \<Longrightarrow> sys_ok e s' s'' \<Longrightarrow> sys_ok e s s''"
  by (simp add: sys_ok_def routes_kept_def)

lemma sys_okI: "sys_inv e s' \<Longrightarrow> (\<And>i. routes_of s' i = routes_of s i) \<Longrightarrow> sys_ok e s s'"
  by (simp add: sys_ok_def routes_kept_def route_at_def)

lemma nh_owned_heap: "nh_heap s' = nh_heap s \<Longrightarrow> nh_owned s' = nh_owned s"
  by (simp add: nh_owned_def)

lemma sys_ok_hw: "sys_inv e s \<Longrightarrow> hw_only s s' \<Longrightarrow> sys_ok e s s'"
  by (rule all_kept_ok [OF all_kept_hw])
    (simp_all add: sys_invD hw_only_inv nh_owned_heap [of s' s] hw_only_sel)

subsection \<open>Virtual routers\<close>

lemma routes_ok_vrfs: "routes_ok s \<Longrightarrow> (\<And>i. routes_of s' i = routes_of s i) \<Longrightarrow> routes_ok s'"
  by (simp add: routes_ok_def route_at_def)

lemma virtual_router_create_sys:
  assumes inv: "sys_inv e s" and call: "sai_fib_virtual_router_create e attrs s = (st, out, s')"
  shows "sys_ok e s s'"
proof (cases "st = SAI_STATUS_SUCCESS")
  case False
  then show ?thesis using virtual_router_create_result [OF call] inv by (simp add: sys_ok_hw)
next
  case True
  with virtual_router_create_result [OF call] obtain i v h where v: "vrf_at s i = None" "vrf_route_tree v = []"
    "\<not> sai_fib_is_mac_address_zero (util e) (vrf_src_mac v)"
    "s' = (set_vrf i v s)\<lparr>hw := h, num_virtual_routers := num_virtual_routers s + 1\<rparr>" by auto
  note d = sys_invD [OF inv]
  have ro: "routes_of s' j = routes_of s j" for j
    using v by (cases "j = i") (simp_all add: routes_of_def)
  then have "routes_ok s'" by (rule routes_ok_vrfs [OF d(3)])
  moreover have "num_vrs_ok s'" using d(4) v(1) by (simp add: num_vrs_ok_def v(4) tree_dom_iff)
  moreover have "vr_mac_ok (util e) s'" using d(5) v(3) by (auto simp: vr_mac_ok_def v(4))
  moreover have "rifs_attached e s'" using d(6) by (simp add: rifs_attached_def v(4))
  moreover have "nh_owned s'" using d(2) by (simp add: nh_owned_def v(4))
  ultimately have "sys_inv e s'" using virtual_router_create_inv [OF d(1) call] by (simp add: sys_inv_def)
  then show ?thesis using ro by (rule sys_okI)
qed

lemma virtual_router_remove_sys:
  assumes inv: "sys_inv e s" and b: "fib_bounded s" and call: "sai_fib_virtual_router_remove e i s = (st, s')"
  shows "sys_ok e s s'"
proof (cases "st = SAI_STATUS_SUCCESS")
  case False
  then show ?thesis using virtual_router_remove_result [OF sys_invD(1) [OF inv] b call] inv by (simp add: sys_ok_hw)
next
  case True
  note d = sys_invD [OF inv]
  from virtual_router_remove_result [OF d(1) b call] True obtain v h where e: "vrf_route_tree v = []" and v: "vrf_at s i = Some v"
    "s' = s\<lparr>hw := h, vrf_tree := tree_del i (vrf_tree s), num_virtual_routers := num_virtual_routers s - 1\<rparr>" by auto
  have ro: "routes_of s' j = routes_of s j" for j
    using v e by (cases "j = i") (simp_all add: routes_of_def)
  then have "routes_ok s'" by (rule routes_ok_vrfs [OF d(3)])
  moreover have "num_vrs_ok s'"
  proof -
    have "i \<in> tree_dom (vrf_tree s)" using v(1) by (simp add: tree_dom_iff)
    then have "card (tree_dom (vrf_tree s)) = Suc (card (tree_dom (vrf_tree s) - {i}))"
      by (rule card.remove [OF finite_tree_dom])
    with d(4) have "num_virtual_routers s = of_nat (card (tree_dom (vrf_tree s) - {i})) + 1"
      unfolding num_vrs_ok_def by (metis of_nat_Suc add.commute)
    then show ?thesis by (simp add: num_vrs_ok_def v(2))
  qed
  moreover have "vr_mac_ok (util e) s'" using d(5) by (simp add: vr_mac_ok_def v(2))
  moreover have "rifs_attached e s'" using d(6) by (simp add: rifs_attached_def v(2))
  moreover have "nh_owned s'" using d(2) by (simp add: nh_owned_def v(2))
  ultimately have "sys_inv e s'" using virtual_router_remove_inv [OF d(1) b call] by (simp add: sys_inv_def)
  then show ?thesis using ro by (rule sys_okI)
qed

lemma virtual_router_attribute_set_sys:
  assumes inv: "sys_inv e s" and call: "sai_fib_virtual_router_attribute_set e i attr s = (st, s')"
  shows "sys_ok e s s'"
proof (cases "st = SAI_STATUS_SUCCESS")
  case False
  then show ?thesis using virtual_router_attribute_set_result [OF call] inv by (simp add: sys_ok_hw)
next
  case True
  note d = sys_invD [OF inv]
  from virtual_router_attribute_set_result [OF call] True obtain v v' h where v: "vrf_at s i = Some v"
    "vrf_route_tree v' = vrf_route_tree v" "\<not> sai_fib_is_mac_address_zero (util e) (vrf_src_mac v')"
    "s' = (set_vrf i v' s)\<lparr>hw := h\<rparr>" by (auto simp: vrf_same_shape_def)
  have ro: "routes_of s' j = routes_of s j" for j
    using v by (cases "j = i") (simp_all add: routes_of_def)
  then have "routes_ok s'" by (rule routes_ok_vrfs [OF d(3)])
  moreover have "insert i (tree_dom (vrf_tree s)) = tree_dom (vrf_tree s)"
    using v(1) by (auto simp: tree_dom_iff)
  then have "num_vrs_ok s'" using d(4) by (simp add: num_vrs_ok_def v(4))
  moreover have "vr_mac_ok (util e) s'" using d(5) v(3) by (auto simp: vr_mac_ok_def v(4))
  moreover have "rifs_attached e s'" using d(6) by (simp add: rifs_attached_def v(4))
  moreover have "nh_owned s'" using d(2) by (simp add: nh_owned_def v(4))
  ultimately have "sys_inv e s'" using virtual_router_attribute_set_inv [OF d(1) call] by (simp add: sys_inv_def)
  then show ?thesis using ro by (rule sys_okI)
qed

lemma ecmp_max_paths_set_sys:
  assumes inv: "sys_inv e s" and call: "sai_router_ecmp_max_paths_set e m s = (st, s')"
  shows "sys_ok e s s'"
proof -
  have t: "vrf_tree s' = vrf_tree s" "router_interface_tree s' = router_interface_tree s" "nh_heap s' = nh_heap s"
    "num_virtual_routers s' = num_virtual_routers s"
    using call by (auto simp: sai_router_ecmp_max_paths_set_def split: prod.splits if_splits dest!: hw_call_eqD)
  have "nh_owned s'" using sys_invD(2) [OF inv] nh_owned_heap [OF t(3)] by simp
  with all_kept_ok [OF all_kept_trees [OF t(1,2,4)] inv] ecmp_max_paths_set_inv [OF sys_invD(1) [OF inv] call]
  show ?thesis by blast
qed

subsection \<open>Router interfaces\<close>

lemma router_interface_create_sys:
  assumes u: "util_ok (util e)" and inv: "sys_inv e s"
    and call: "sai_fib_router_interface_create e attrs s = (st, out, s')"
  shows "sys_ok e s s'"
proof -
  note d = sys_invD [OF inv]
  have wf: "tree_wf (vrf_tree s)" using d(1) by (simp add: fib_inv_def trees_ok_def)
  note R = router_interface_create_result [OF u wf call]
  show ?thesis
  proof (cases "st = SAI_STATUS_SUCCESS")
    case False
    then show ?thesis using R inv by (simp add: sys_ok_hw)
  next
    case True
    with R obtain r v where v: "vrf_at s (rif_vrf_id r) = Some v" "rif_attached e r" "hw_only (rif_added r v s) s'"
      by auto
    let ?s = "rif_added r v s"
    have add: "vrf_src_mac (vrf_add_rif i v) = vrf_src_mac v" "vrf_route_tree (vrf_add_rif i v) = vrf_route_tree v" for i
      by (simp_all add: vrf_add_rif_def)
    have ro: "routes_of ?s j = routes_of s j" for j
      using v(1) add by (cases "j = rif_vrf_id r") (simp_all add: routes_of_def rif_added_def)
    then have "routes_ok ?s" by (rule routes_ok_vrfs [OF d(3)])
    moreover have "vrfs_kept s ?s" using v(1) add by (simp add: vrfs_kept_def rif_added_def)
    from vrfs_kept_ok [OF this] d have "num_vrs_ok ?s" "vr_mac_ok (util e) ?s" by simp_all
    moreover have "rifs_attached e ?s" using d(6) v(2) by (simp add: rifs_attached_def rif_added_def)
    moreover have "nh_owned ?s" using d(2) by (simp add: nh_owned_def rif_added_def)
    moreover have "fib_inv (util e) ?s"
      using router_interface_create_inv [OF d(1) u call] hw_only_inv [OF v(3)] by simp
    ultimately have i: "sys_inv e ?s" by (simp add: sys_inv_def)
    from sys_ok_trans [OF sys_okI [OF i ro] sys_ok_hw [OF i v(3)]] show ?thesis .
  qed
qed

lemma router_interface_remove_sys:
  assumes inv: "sys_inv e s" and b: "fib_bounded s"
    and call: "sai_fib_router_interface_remove e rid s = (st, s')"
  shows "sys_ok e s s'"
proof -
  note d = sys_invD [OF inv]
  note R = router_interface_remove_result [OF d(1) call]
  show ?thesis
  proof (cases "st = SAI_STATUS_SUCCESS")
    case False
    then show ?thesis using R inv by (simp add: sys_ok_hw)
  next
    case True
    with R obtain r v where v: "vrf_at s (rif_vrf_id r) = Some v" "hw_only (rif_gone r v s) s'" by auto
    let ?s = "rif_gone r v s"
    have del: "vrf_src_mac (vrf_del_rif i v) = vrf_src_mac v" "vrf_route_tree (vrf_del_rif i v) = vrf_route_tree v" for i
      by (simp_all add: vrf_del_rif_def)
    have ro: "routes_of ?s j = routes_of s j" for j
      using v(1) del by (cases "j = rif_vrf_id r") (simp_all add: routes_of_def rif_gone_def)
    then have "routes_ok ?s" by (rule routes_ok_vrfs [OF d(3)])
    moreover have "vrfs_kept s ?s" using v(1) del by (simp add: vrfs_kept_def rif_gone_def)
    from vrfs_kept_ok [OF this] d have "num_vrs_ok ?s" "vr_mac_ok (util e) ?s" by simp_all
    moreover have "rifs_attached e ?s" using d(6) by (simp add: rifs_attached_def rif_gone_def)
    moreover have "nh_owned ?s" using d(2) by (simp add: nh_owned_def rif_gone_def)
    moreover have "fib_inv (util e) ?s"
      using router_interface_remove_inv [OF d(1) b call] hw_only_inv [OF v(2)] by simp
    ultimately have i: "sys_inv e ?s" by (simp add: sys_inv_def)
    from sys_ok_trans [OF sys_okI [OF i ro] sys_ok_hw [OF i v(2)]] show ?thesis .
  qed
qed

lemma router_interface_attribute_set_sys:
  assumes inv: "sys_inv e s" and call: "sai_fib_router_interface_attribute_set e rid attr s = (st, s')"
  shows "sys_ok e s s'"
proof -
  note d = sys_invD [OF inv]
  from router_interface_attribute_set_result [OF call] show ?thesis
  proof (elim disjE exE conjE)
    assume "hw_only s s'"
    with inv show ?thesis by (rule sys_ok_hw)
  next
    fix r r' f
    assume r: "rif_at s rid = Some r" and sh: "rif_same_shape r r'" "rif_port_id r' = rif_port_id r"
      and h: "hw_only (set_rif rid r' s) s'"
    have "rif_view r' = rif_view r" using sh by (simp add: rif_same_shape_def rif_view_def)
    then have "all_kept s (set_rif rid r' s)"
      using r by (simp add: all_kept_def routes_kept_def vrfs_kept_def rifs_kept_def route_at_def routes_of_def)
    then have k: "sys_ok e s (set_rif rid r' s)"
      using all_kept_ok [OF _ inv] inv_set_rif_attr [OF d(1) r sh(1)] d(2) by (simp add: nh_owned_def)
    then have "sys_inv e (set_rif rid r' s)" by (simp add: sys_ok_def)
    from sys_ok_trans [OF k sys_ok_hw [OF this h]] show ?thesis .
  qed
qed

subsection \<open>Groups\<close>

lemma nh_owned_group:
  assumes "nh_owned s" "group_frame g s s'"
  shows "nh_owned s'"
  unfolding nh_owned_def
proof (intro allI impI)
  fix a n assume n: "nh_at s' a = Some n"
  have "map_option strip_nh (nh_at s a) = Some (strip_nh n)"
    using assms(2) n unfolding group_frame_def by (metis option.simps(9))
  then obtain n0 where "nh_at s a = Some n0" "strip_nh n0 = strip_nh n" by auto
  then have "nh_owner_flag n = nh_owner_flag n0" by (auto simp: strip_nh_def dest: arg_cong [where f = nh_owner_flag])
  then show "nh_owner_flag n \<noteq> 0" using assms(1) \<open>nh_at s a = _\<close> by (auto simp: nh_owned_def)
qed

lemma group_sys:
  assumes "sys_inv e s" "group_frame g s s'" "fib_inv (util e) s'"
  shows "sys_ok e s s'"
  using all_kept_ok [OF all_kept_group [OF assms(2)] assms(1,3)] nh_owned_group [OF sys_invD(2) [OF assms(1)] assms(2)]
  by simp

lemma add_to_group_frame:
  assumes "fib_inv (util e) s" "group_room s gid (length ids)"
    and "sai_fib_next_hop_add_to_group e gid ids s = (st, s')"
  obtains g where "group_frame g s s'" "nh_group_tree s' = nh_group_tree s"
  using assms
proof (cases rule: add_to_group_cases)
  case refused
  then show thesis using that hw_only_frame hw_only_sel(4) by blast
next
  case (run g ap t t')
  from add_in_lists_members [OF run(6,5,7,9)] have t': "group_inv (util e) g t'" "only_group g t t'" by blast+
  have fr: "group_frame g s t'" by (rule group_frame_trans [OF hw_only_frame [OF run(2)] only_group_frame [OF t'(2)]])
  have tr: "nh_group_tree t' = nh_group_tree s" using only_groupD(4) [OF t'(2)] hw_only_sel(4) [OF run(2)] by simp
  from run(10) show thesis
  proof (elim disjE conjE exE)
    assume h: "hw_only t' s'"
    from group_frame_trans [OF fr hw_only_frame [OF h]] hw_only_sel(4) [OF h] tr show thesis by (simp add: that)
  next
    fix h assume s': "s' = sai_fib_nh_group_remove_from_lists g ap (t'\<lparr>hw := h\<rparr>)"
    have "group_inv (util e) g (t'\<lparr>hw := h\<rparr>)" using t'(1) by simp
    from remove_from_lists_members [OF this, of ap] have o: "only_group g (t'\<lparr>hw := h\<rparr>) s'" by (simp add: s')
    from group_frame_trans [OF group_frame_trans [OF fr hw_only_frame [OF hw_only_upd]] only_group_frame [OF o]]
      only_groupD(4) [OF o] tr show thesis by (simp add: that)
  qed
next
  case (nomem g ap t)
  from add_in_lists_members [OF nomem(5,3,6,7)] have o: "only_group g t s'" by blast
  from group_frame_trans [OF hw_only_frame [OF nomem(2)] only_group_frame [OF o]]
    only_groupD(4) [OF o] hw_only_sel(4) [OF nomem(2)] show thesis by (simp add: that)
qed

lemma remove_from_group_frame:
  assumes inv: "fib_inv (util e) s" and call: "sai_fib_next_hop_remove_from_group e gid ids s = (st, s')"
  obtains g where "group_frame g s s'"
proof -
  from remove_from_group_cases [OF assms] show thesis
  proof (elim disjE conjE exE)
    assume "hw_only s s'"
    then show thesis using that hw_only_frame by blast
  next
    fix g p ap h
    assume p: "grp_at s g = Some p" and s': "s' = sai_fib_nh_group_remove_from_lists g ap (s\<lparr>hw := h\<rparr>)"
    have "group_inv (util e) g (s\<lparr>hw := h\<rparr>)" using inv p by (simp add: group_inv_def)
    from remove_from_lists_members [OF this, of ap] have "only_group g (s\<lparr>hw := h\<rparr>) s'" by (simp add: s')
    then have "group_frame g (s\<lparr>hw := h\<rparr>) s'" by (rule only_group_frame)
    from group_frame_trans [OF hw_only_frame [OF hw_only_upd] this] show thesis by (rule that)
  qed
qed

lemma group_remove_frame:
  assumes inv: "fib_inv (util e) s" and call: "sai_fib_next_hop_group_remove e gid s = (st, s')"
  obtains g where "group_frame g s s'"
proof -
  from group_remove_cases [OF call] show thesis
  proof (elim disjE conjE exE)
    assume "hw_only s s'"
    then show thesis using that hw_only_frame by blast
  next
    fix g p h t
    assume p: "grp_at s g = Some p"
      and t: "t = (if grp_nh_count p \<noteq> 0 then sai_fib_nh_group_remove_all_nh g (s\<lparr>hw := h\<rparr>) else s\<lparr>hw := h\<rparr>)"
      and s': "s' = sai_fib_nh_group_node_free g (t\<lparr>nh_group_tree := tree_del (grp_id p) (nh_group_tree t)\<rparr>)"
    have gi: "group_inv (util e) g (s\<lparr>hw := h\<rparr>)" using inv p by (simp add: group_inv_def)
    have "group_frame g (s\<lparr>hw := h\<rparr>) t"
      using remove_all_nh_empties [OF gi] only_group_frame by (auto simp: t)
    moreover have "group_frame g t s'"
      by (simp add: s' group_frame_def sai_fib_nh_group_node_free_def group_members_def)
    ultimately have "group_frame g (s\<lparr>hw := h\<rparr>) s'" by (rule group_frame_trans)
    from group_frame_trans [OF hw_only_frame [OF hw_only_upd] this] show thesis by (rule that)
  qed
qed

lemma group_attribute_get_hw: "sai_fib_next_hop_group_attribute_get e i n s = (r, s') \<Longrightarrow> hw_only s s'"
  by (auto simp: sai_fib_next_hop_group_attribute_get_def split: if_splits option.splits dest: hw_call_only)

subsection \<open>Next hops\<close>

lemma next_hop_create_sys:
  assumes u: "util_ok (util e)" and inv: "sys_inv e s" and fits: "length (nh_heap s) + 1 < 2 ^ 32"
    and call: "sai_fib_next_hop_create e attrs s = (st, out, s')"
  shows "sys_ok e s s'"
proof -
  note d = sys_invD [OF inv]
  note R = next_hop_create_result [OF u d(1,2) fits call]
  from R obtain a where "nh_frame a s s'" by (auto split: if_splits)
  from all_kept_ok [OF all_kept_nh [OF this] inv] R show ?thesis by blast
qed

lemma next_hop_remove_sys:
  assumes u: "util_ok (util e)" and inv: "sys_inv e s" and b: "fib_bounded s"
    and call: "sai_fib_next_hop_remove e x s = (st, s')"
  shows "sys_ok e s s'"
proof -
  note d = sys_invD [OF inv]
  note R = next_hop_remove_result [OF u d(1,2) b call]
  from R obtain a where "nh_frame a s s'" by (auto split: if_splits)
  from all_kept_ok [OF all_kept_nh [OF this] inv] R show ?thesis by blast
qed

subsection \<open>Neighbors\<close>

lemma neighbor_create_sys:
  assumes u: "util_ok (util e)" and inv: "sys_inv e s" and fits: "length (nh_heap s) + 1 < 2 ^ 32"
    and call: "sai_fib_neighbor_create e ne attrs s = (st, s')"
  shows "sys_ok e s s'"
proof -
  note d = sys_invD [OF inv]
  note R = neighbor_create_result [OF u d(1,2) fits call]
  from R obtain a where "neighbor_frame a s s'"
    by (auto simp: neighbor_created_def neighbors_kept_def split: if_splits)
  from all_kept_ok [OF all_kept_neighbor [OF this] inv] R show ?thesis by blast
qed

lemma neighbor_remove_sys:
  assumes u: "util_ok (util e)" and inv: "sys_inv e s" and fits: "length (nh_heap s) + 1 < 2 ^ 32"
    and call: "sai_fib_neighbor_remove e ne s = (st, s')"
  shows "sys_ok e s s'"
proof -
  note d = sys_invD [OF inv]
  have "length (nh_heap s) < 2 ^ 32" using fits by simp
  note R = neighbor_remove_result [OF u d(1,2) this call]
  from R obtain a where "neighbor_frame a s s'" by (auto simp: neighbor_removed_def split: if_splits)
  from all_kept_ok [OF all_kept_neighbor [OF this] inv] R show ?thesis by blast
qed

lemma neighbor_attribute_set_sys:
  assumes u: "util_ok (util e)" and inv: "sys_inv e s"
    and call: "sai_fib_neighbor_attribute_set e ne attr s = (st, s')"
  shows "sys_ok e s s'"
proof -
  note d = sys_invD [OF inv]
  note R = neighbor_attribute_set_result [OF u d(1,2) call]
  show ?thesis
  proof (cases "st = SAI_STATUS_SUCCESS")
    case True
    with R obtain a where "neighbor_frame a s s'" by (auto simp: neighbor_updated_def)
    from all_kept_ok [OF all_kept_neighbor [OF this] inv] R show ?thesis by blast
  next
    case False
    with R show ?thesis using sys_ok_hw [OF inv] by simp
  qed
qed

lemma ports_only_kept: "ports_only A p s s' \<Longrightarrow> all_kept s s'"
  by (rule all_kept_trees) (auto simp: ports_only_def)

lemma all_kept_refl [simp]: "all_kept s s"
  by (simp add: all_kept_trees)

lemma neighbor_port_id_set_sys:
  assumes inv: "sys_inv e s" and call: "sai_fib_neighbor_port_id_set e k p s = (st, s')"
  shows "sys_ok e s s'"
proof -
  note d = sys_invD [OF inv]
  from neighbor_port_id_set_inv [OF d(1,2) call] have i: "fib_inv (util e) s'" "nh_owned s'" by simp_all
  have "all_kept s s'"
  proof (cases "\<exists>L. tree_get (neighbor_mac_tree s) k = Some L")
    case False
    then have "s' = s" using call by (auto simp: sai_fib_neighbor_port_id_set_def split: option.splits)
    then show ?thesis by simp
  next
    case True
    then obtain L where "port_id_set_loop e p L SAI_STATUS_SUCCESS s = (st, s') \<or> s' = s"
      using call by (auto simp: sai_fib_neighbor_port_id_set_def split: option.splits if_splits)
    then show ?thesis using port_id_set_loop_inv [OF d(1,2)] ports_only_kept by (metis all_kept_refl)
  qed
  from all_kept_ok [OF this inv i] show ?thesis .
qed

lemma fdb_callback_sys: "sys_inv e s \<Longrightarrow> sys_ok e s (fdb_callback_loop e upds p s)"
proof (induction upds arbitrary: p s)
  case (Cons upd upds)
  obtain st s1 where one: "sai_fib_neighbor_port_id_set e (fdb_key upd)
      (if fdb_event upd = SAI_FDB_EVENT_LEARNED then fdb_port_id upd else p) s = (st, s1)" by force
  note s1 = neighbor_port_id_set_sys [OF Cons.prems one]
  then have "sys_inv e s1" by (simp add: sys_ok_def)
  from sys_ok_trans [OF s1 Cons.IH [OF this]] one show ?case by simp
qed (simp add: sys_ok_hw)

subsection \<open>Routes\<close>

text \<open>A call on routes keeps virtual routers but for their routes, interfaces and the owners of nodes.\<close>

definition route_call_frame :: "'h fib \<Rightarrow> 'h fib \<Rightarrow> bool" where
  "route_call_frame s s' \<longleftrightarrow>
     router_interface_tree s' = router_interface_tree s \<and> vrfs_kept s s' \<and>
     (\<forall>a. map_option nh_owner_flag (nh_at s' a) = map_option nh_owner_flag (nh_at s a))"

lemma route_call_frame_trans:
  "route_call_frame s s' \<Longrightarrow> route_call_frame s' s'' \<Longrightarrow> route_call_frame s s''"
  by (simp add: route_call_frame_def vrfs_kept_def)

lemma route_call_frame_refl [simp]: "route_call_frame s s"
  by (simp add: route_call_frame_def vrfs_kept_def)

lemma route_call_frame_hw: "hw_only s s' \<Longrightarrow> route_call_frame s s'"
  by (simp add: route_call_frame_def vrfs_kept_def hw_only_sel)

lemma route_call_frame_adjust: "route_call_frame s (adjust_refs t d s)"
  by (simp add: route_call_frame_def vrfs_kept_def adjust_refs_nh option.map_comp comp_def)

lemma route_call_frame_set_routes: "route_call_frame s (set_routes i T s)"
  by (simp add: route_call_frame_def vrfs_kept_def vrf_at_set_routes option.map_comp comp_def)

lemma route_step_frame:
  "route_call_frame s (route_added ik r s)"
  "route_call_frame s (route_gone ik r s)"
  "route_call_frame s (route_changed ik r0 r s)"
proof -
  show "route_call_frame s (route_added ik r s)" unfolding route_added_def put_route_def
    by (rule route_call_frame_trans [OF route_call_frame_set_routes route_call_frame_adjust])
  show "route_call_frame s (route_gone ik r s)" unfolding route_gone_def del_route_def
    by (rule route_call_frame_trans [OF route_call_frame_adjust route_call_frame_set_routes])
  have "route_call_frame s (adjust_refs (rt_nh r) 1 (adjust_refs (rt_nh r0) (- 1) s))"
    by (rule route_call_frame_trans [OF route_call_frame_adjust route_call_frame_adjust])
  from route_call_frame_trans [OF this route_call_frame_set_routes]
  show "route_call_frame s (route_changed ik r0 r s)"
    by (simp add: route_changed_def put_route_def route_call_frame_set_routes)
qed

lemma route_call_sys:
  assumes inv: "sys_inv e s" and f: "route_call_frame s s'" and "fib_inv (util e) s'" "routes_ok s'"
  shows "sys_inv e s'"
proof -
  note d = sys_invD [OF inv]
  have "rifs_attached e s'" using d(6) f by (simp add: rifs_attached_def route_call_frame_def)
  moreover have "nh_owned s'"
    unfolding nh_owned_def
  proof (intro allI impI)
    fix a n assume n: "nh_at s' a = Some n"
    have "map_option nh_owner_flag (nh_at s a) = Some (nh_owner_flag n)"
      using f n unfolding route_call_frame_def by (metis option.simps(9))
    then show "nh_owner_flag n \<noteq> 0" using d(2) by (auto simp: nh_owned_def)
  qed
  moreover have "num_vrs_ok s'" "vr_mac_ok (util e) s'"
    using vrfs_kept_ok [of s s'] f d(4,5) by (simp_all add: route_call_frame_def)
  ultimately show ?thesis using assms(3,4) by (simp add: sys_inv_def)
qed

lemma route_create_sys:
  assumes inv: "sys_inv e s" and call: "sai_fib_route_create e re attrs s = (st, s')"
  shows "sys_inv e s'"
proof -
  note d = sys_invD [OF inv]
  have "route_call_frame s s'"
    using route_create_result [OF d(1) call] route_step_frame(1) route_call_frame_hw route_call_frame_trans
    by (metis (no_types, lifting))
  then show ?thesis
    using route_call_sys [OF inv] route_create_inv [OF d(1) call] route_create_routes_ok [OF d(1,3) call] by blast
qed

lemma route_remove_sys:
  assumes inv: "sys_inv e s" and call: "sai_fib_route_remove e re s = (st, s')"
  shows "sys_inv e s'"
proof -
  note d = sys_invD [OF inv]
  have "route_call_frame s s'"
    using route_remove_result [OF call] route_step_frame(2) route_call_frame_hw route_call_frame_trans
    by (metis (no_types, lifting))
  then show ?thesis
    using route_call_sys [OF inv] route_remove_inv [OF d(1) call] route_remove_routes_ok [OF d(3) call] by blast
qed

lemma route_attribute_set_sys:
  assumes inv: "sys_inv e s" and call: "sai_fib_route_attribute_set e re attr s = (st, s')"
  shows "sys_inv e s'"
proof -
  note d = sys_invD [OF inv]
  have "route_call_frame s s'"
    using route_attribute_set_result [OF d(1) call] route_step_frame(3) route_call_frame_hw route_call_frame_trans
    by (metis (no_types, lifting))
  then show ?thesis
    using route_call_sys [OF inv] route_attribute_set_inv [OF d(1) call]
      route_attribute_set_routes_ok [OF d(1,3) call] by blast
qed

subsection \<open>Calls on groups\<close>

lemma next_hop_group_create_sys:
  assumes u: "util_ok (util e)" and inv: "sys_inv e s" and room: "length (attr_ids attrs) < 2 ^ 32"
    and call: "sai_fib_next_hop_group_create e attrs s = (st, out, s')"
  shows "sys_ok e s s'"
  using group_create_result [OF u sys_invD(1) [OF inv] room call] group_sys [OF inv] by blast

lemma next_hop_group_remove_sys:
  assumes inv: "sys_inv e s" and b: "fib_bounded s" and call: "sai_fib_next_hop_group_remove e i s = (st, s')"
  shows "sys_ok e s s'"
proof -
  note d = sys_invD(1) [OF inv]
  obtain g where "group_frame g s s'" by (rule group_remove_frame [OF d call])
  then show ?thesis using group_sys [OF inv] group_remove_result [OF d b call] by blast
qed

lemma add_to_group_sys:
  assumes inv: "sys_inv e s" and room: "group_room s i (length ids)"
    and call: "sai_fib_next_hop_add_to_group e i ids s = (st, s')"
  shows "sys_ok e s s'"
proof -
  note d = sys_invD(1) [OF inv]
  obtain g where "group_frame g s s'" by (rule add_to_group_frame [OF d room call])
  then show ?thesis using group_sys [OF inv] add_to_group_inv [OF d room call] by blast
qed

lemma remove_from_group_sys:
  assumes inv: "sys_inv e s" and call: "sai_fib_next_hop_remove_from_group e i ids s = (st, s')"
  shows "sys_ok e s s'"
proof -
  note d = sys_invD(1) [OF inv]
  obtain g where "group_frame g s s'" by (rule remove_from_group_frame [OF d call])
  then show ?thesis using group_sys [OF inv] remove_from_group_members [OF d call] by blast
qed

section \<open>Every reachable state\<close>

text \<open>
  The routing table as a map from virtual router and prefix to the route, and what a call may do to it:
  only the three calls on routes change it, each at the entry it names, and only when they succeed.
\<close>

fun on_routes :: "fib_call \<Rightarrow> bool" where
  "on_routes (RouteCreate re attrs) = True"
| "on_routes (RouteRemove re) = True"
| "on_routes (RouteAttributeSet re attr) = True"
| "on_routes c = False"

type_synonym route_table = "oid \<times> route_key \<Rightarrow> route_node option"

fun route_table_step :: "l3_util \<Rightarrow> fib_call \<Rightarrow> sai_status \<Rightarrow> route_table \<Rightarrow> route_table \<Rightarrow> bool" where
  "route_table_step u (RouteCreate re attrs) SAI_STATUS_SUCCESS m m' =
     (m (entry_at u re) = None \<and>
      (\<exists>r. m' = m(entry_at u re \<mapsto> r) \<and> rt_vrf_id r = re_vr_id re \<and> route_fwd r))"
| "route_table_step u (RouteRemove re) SAI_STATUS_SUCCESS m m' =
     (m (entry_at u re) \<noteq> None \<and> m' = m(entry_at u re := None))"
| "route_table_step u (RouteAttributeSet re attr) SAI_STATUS_SUCCESS m m' =
     (\<exists>r0 r. m (entry_at u re) = Some r0 \<and> same_entry r0 r \<and> route_fwd r \<and> m' = m(entry_at u re \<mapsto> r))"
| "route_table_step u c st m m' = (m' = m)"

lemma route_table_step_failed: "st \<noteq> SAI_STATUS_SUCCESS \<Longrightarrow> route_table_step u c st m m' = (m' = m)"
  by (cases "(u, c, st, m, m')" rule: route_table_step.cases) simp_all

lemma fib_exec_other:
  assumes u: "util_ok (util e)" and inv: "sys_inv e s" and fits: "call_fits c s" and other: "\<not> on_routes c"
    and call: "fib_exec e c s = (st, s')"
  shows "sys_ok e s s'"
proof -
  have b: "fib_bounded s" "length (nh_heap s) + 1 < 2 ^ 32" using fits by (simp_all add: call_fits_def)
  show ?thesis
  proof (cases c)
    case (NextHopGroupCreate attrs)
    with call fits show ?thesis
      by (auto simp: fib_exec_def call_fits_def split: prod.splits intro: next_hop_group_create_sys [OF u inv])
  next
    case (NextHopGroupRemove i)
    with call show ?thesis by (intro next_hop_group_remove_sys [OF inv b(1)]) (simp add: fib_exec_def)
  next
    case (AddNextHopToGroup i ids)
    with call fits show ?thesis
      by (intro add_to_group_sys [OF inv]) (simp_all add: fib_exec_def call_fits_def)
  next
    case (RemoveNextHopFromGroup i ids)
    with call show ?thesis by (intro remove_from_group_sys [OF inv]) (simp add: fib_exec_def)
  next
    case (NeighborFdbCallback upds)
    with call show ?thesis using fdb_callback_sys [OF inv] by (auto simp: fib_exec_def sai_neighbor_fdb_callback_def)
  next
    case (VirtualRouterCreate attrs)
    with call show ?thesis by (auto simp: fib_exec_def split: prod.splits intro: virtual_router_create_sys [OF inv])
  next
    case (VirtualRouterRemove i)
    with call show ?thesis by (intro virtual_router_remove_sys [OF inv b(1)]) (simp add: fib_exec_def)
  next
    case (VirtualRouterAttributeSet i attr)
    with call show ?thesis by (intro virtual_router_attribute_set_sys [OF inv]) (simp add: fib_exec_def)
  next
    case (VirtualRouterAttributeGet i n)
    with call show ?thesis by (auto simp: fib_exec_def split: prod.splits intro: sys_ok_hw [OF inv virtual_router_attribute_get_hw])
  next
    case (EcmpMaxPathsSet m)
    with call show ?thesis by (intro ecmp_max_paths_set_sys [OF inv]) (simp add: fib_exec_def)
  next
    case (RouterInterfaceCreate attrs)
    with call show ?thesis by (auto simp: fib_exec_def split: prod.splits intro: router_interface_create_sys [OF u inv])
  next
    case (RouterInterfaceRemove i)
    with call show ?thesis by (intro router_interface_remove_sys [OF inv b(1)]) (simp add: fib_exec_def)
  next
    case (RouterInterfaceAttributeSet i attr)
    with call show ?thesis by (intro router_interface_attribute_set_sys [OF inv]) (simp add: fib_exec_def)
  next
    case (RouterInterfaceAttributeGet i n)
    with call show ?thesis by (auto simp: fib_exec_def split: prod.splits intro: sys_ok_hw [OF inv router_interface_attribute_get_hw])
  next
    case (RifLagCallback lag r ports opc)
    with call have "sai_rif_lag_callback e lag r ports opc s = (st, s')" by (simp add: fib_exec_def)
    from sys_ok_hw [OF inv rif_lag_callback_hw [OF this]] show ?thesis .
  next
    case (NextHopCreate attrs)
    with call show ?thesis by (auto simp: fib_exec_def split: prod.splits intro: next_hop_create_sys [OF u inv b(2)])
  next
    case (NextHopRemove i)
    with call show ?thesis by (intro next_hop_remove_sys [OF u inv b(1)]) (simp add: fib_exec_def)
  next
    case (NextHopAttributeSet i attr)
    with call sys_ok_hw [OF inv hw_only_refl] show ?thesis by (simp add: fib_exec_def sai_fib_next_hop_attribute_set_def)
  next
    case (NextHopAttributeGet i n)
    with call show ?thesis by (auto simp: fib_exec_def split: prod.splits intro: sys_ok_hw [OF inv next_hop_attribute_get_hw])
  next
    case (NextHopGroupAttributeSet i attr)
    with call sys_ok_hw [OF inv hw_only_refl] show ?thesis by (simp add: fib_exec_def sai_fib_next_hop_group_attribute_set_def)
  next
    case (NextHopGroupAttributeGet i n)
    with call show ?thesis by (auto simp: fib_exec_def split: prod.splits intro: sys_ok_hw [OF inv group_attribute_get_hw])
  next
    case (NeighborCreate ne attrs)
    with call show ?thesis by (intro neighbor_create_sys [OF u inv b(2)]) (simp add: fib_exec_def)
  next
    case (NeighborRemove ne)
    with call show ?thesis by (intro neighbor_remove_sys [OF u inv b(2)]) (simp add: fib_exec_def)
  next
    case (NeighborAttributeSet ne attr)
    with call show ?thesis by (intro neighbor_attribute_set_sys [OF u inv]) (simp add: fib_exec_def)
  next
    case (NeighborAttributeGet ne n)
    with call show ?thesis by (auto simp: fib_exec_def split: prod.splits intro: sys_ok_hw [OF inv neighbor_attribute_get_hw])
  next
    case NeighborRemoveAll
    with call sys_ok_hw [OF inv hw_only_refl] show ?thesis by (simp add: fib_exec_def sai_fib_neighbor_remove_all_entries_def)
  next
    case (RouteAttributeGet re n)
    with call show ?thesis by (auto simp: fib_exec_def split: prod.splits intro: sys_ok_hw [OF inv route_attribute_get_hw])
  qed (use other in simp_all)
qed

lemma route_call_steps:
  assumes inv: "sys_inv e s"
  shows "sai_fib_route_create e re attrs s = (st, s') \<Longrightarrow>
      route_table_step (util e) (RouteCreate re attrs) st (route_at s) (route_at s')"
    and "sai_fib_route_remove e re s = (st, s') \<Longrightarrow>
      route_table_step (util e) (RouteRemove re) st (route_at s) (route_at s')"
    and "sai_fib_route_attribute_set e re attr s = (st, s') \<Longrightarrow>
      route_table_step (util e) (RouteAttributeSet re attr) st (route_at s) (route_at s')"
proof -
  note i = sys_invD(1) [OF inv]
  let ?k = "entry_at (util e) re"
  have same: "route_at t = route_at s" if "hw_only s t" for t using route_at_hw [OF that] by (simp add: fun_eq_iff)
  have upd: "route_at t = (route_at s)(?k := x)" if "\<And>jk. route_at t jk = (if jk = ?k then x else route_at s jk)" for t x
    using that by (simp add: fun_eq_iff)
  show "route_table_step (util e) (RouteCreate re attrs) st (route_at s) (route_at s')"
    if c: "sai_fib_route_create e re attrs s = (st, s')"
  proof (cases "st = SAI_STATUS_SUCCESS")
    case True
    with route_create_result [OF i c] obtain r where r: "route_at s ?k = None" "route_storable (util e) s ?k r"
      "route_fwd r" "hw_only (route_added ?k r s) s'" by auto
    have "vrf_at s (fst ?k) \<noteq> None" "rt_vrf_id r = re_vr_id re" using r(2) by (simp_all add: route_storable_def entry_at_def)
    note v = this
    have "route_at s' = (route_at s)(?k \<mapsto> r)"
      by (rule upd) (simp only: route_at_hw [OF r(4)] route_at_added [OF v(1)])
    then show ?thesis using r(1,3) v(2) unfolding True route_table_step.simps by blast
  next
    case False
    with route_create_result [OF i c] have "hw_only s s'" by (simp only: if_False)
    from same [OF this] show ?thesis by (simp only: route_table_step_failed [OF False])
  qed
  show "route_table_step (util e) (RouteRemove re) st (route_at s) (route_at s')"
    if c: "sai_fib_route_remove e re s = (st, s')"
  proof (cases "st = SAI_STATUS_SUCCESS")
    case True
    with route_remove_result [OF c] obtain r where r: "route_at s ?k = Some r" "hw_only (route_gone ?k r s) s'" by auto
    have v: "vrf_at s (fst ?k) \<noteq> None" using route_at_SomeD [OF r(1)] by auto
    have "route_at s' = (route_at s)(?k := None)"
      by (rule upd) (simp only: route_at_hw [OF r(2)] route_at_gone [OF v])
    then show ?thesis using r(1) unfolding True route_table_step.simps by blast
  next
    case False
    with route_remove_result [OF c] have "hw_only s s'" by (simp only: if_False)
    from same [OF this] show ?thesis by (simp only: route_table_step_failed [OF False])
  qed
  show "route_table_step (util e) (RouteAttributeSet re attr) st (route_at s) (route_at s')"
    if c: "sai_fib_route_attribute_set e re attr s = (st, s')"
  proof (cases "st = SAI_STATUS_SUCCESS")
    case True
    with route_attribute_set_result [OF i c] obtain r0 r where r: "route_at s ?k = Some r0" "same_entry r0 r"
      "route_fwd r" "hw_only (route_changed ?k r0 r s) s'" by auto
    have v: "vrf_at s (fst ?k) \<noteq> None" using route_at_SomeD [OF r(1)] by auto
    have "route_at s' = (route_at s)(?k \<mapsto> r)"
      by (rule upd) (simp only: route_at_hw [OF r(4)] route_at_changed [OF v])
    then show ?thesis using r(1-3) unfolding True route_table_step.simps by blast
  next
    case False
    with route_attribute_set_result [OF i c] have "hw_only s s'" by (simp only: if_False)
    from same [OF this] show ?thesis by (simp only: route_table_step_failed [OF False])
  qed
qed

lemma fib_exec_refines:
  assumes u: "util_ok (util e)" and inv: "sys_inv e s" and fits: "call_fits c s"
    and call: "fib_exec e c s = (st, s')"
  shows "sys_inv e s' \<and> route_table_step (util e) c st (route_at s) (route_at s')"
proof (cases "on_routes c")
  case True
  then show ?thesis
    using call route_call_steps [OF inv] route_create_sys [OF inv] route_remove_sys [OF inv] route_attribute_set_sys [OF inv]
    by (cases c rule: on_routes.cases) (simp_all add: fib_exec_def)
next
  case False
  from fib_exec_other [OF u inv fits False call] have "sys_inv e s'" "route_at s' = route_at s"
    by (simp_all add: sys_ok_def routes_kept_def fun_eq_iff)
  then show ?thesis using False by (cases c rule: on_routes.cases) simp_all
qed

lemmas fib_exec_sys = fib_exec_refines [THEN conjunct1]

text \<open>Nothing is stored before the first call, and every call that fits keeps the invariant.\<close>

lemma fib_initial_sys: "fib_initial s \<Longrightarrow> sys_inv e s"
  by (simp add: fib_initial_def sys_inv_def fib_inv_def trees_ok_def vrf_ok_def rif_ok_def nh_ok_def nh_tree_ok_def
      nh_id_ok_def route_ok_def grp_ok_def grp_tree_ok_def link_ok_def mac_ok_def nh_link_def grp_link_def nh_owned_def routes_ok_def route_at_def routes_of_def
      num_vrs_ok_def vr_mac_ok_def rifs_attached_def tree_dom_def)

lemma fib_reachable_sys:
  assumes u: "util_ok (util e)" and "fib_reachable e s"
  shows "sys_inv e s"
  using assms(2)
proof induction
  case (initial s)
  then show ?case by (rule fib_initial_sys)
next
  case (step s c st s')
  then show ?case using fib_exec_sys [OF u] by blast
qed

end
