(* ===== verification/Fib_Demo.thy ===== *)
theory Fib_Demo
  imports Fib_System
begin

text \<open>
  A concrete environment and a small history of calls in it: one virtual router, one port and one VLAN
  interface, two next hops, a group, a neighbor and routes. The states of this history are the concrete
  inputs at which the properties of the L3 component are applied.
\<close>

section \<open>An environment in which every call succeeds\<close>

text \<open>
  Object ids are blocks of 100 per type; the hardware state is the next free number and every
  allocation, insertion and hardware call succeeds.
\<close>

definition demo_type_query :: "oid \<Rightarrow> sai_object_type" where
  "demo_type_query x =
     (if x < 100 then SAI_OBJECT_TYPE_PORT
      else if x < 200 then SAI_OBJECT_TYPE_LAG
      else if x < 300 then SAI_OBJECT_TYPE_VIRTUAL_ROUTER
      else if x < 400 then SAI_OBJECT_TYPE_ROUTER_INTERFACE
      else if x < 500 then SAI_OBJECT_TYPE_NEXT_HOP
      else if x < 600 then SAI_OBJECT_TYPE_NEXT_HOP_GROUP
      else SAI_OBJECT_TYPE 0)"

definition demo_uoid_create :: "sai_object_type \<Rightarrow> u64 \<Rightarrow> oid" where
  "demo_uoid_create ty n =
     (case ty of
        SAI_OBJECT_TYPE_PORT \<Rightarrow> n
      | SAI_OBJECT_TYPE_LAG \<Rightarrow> 100 + n
      | SAI_OBJECT_TYPE_VIRTUAL_ROUTER \<Rightarrow> 200 + n
      | SAI_OBJECT_TYPE_ROUTER_INTERFACE \<Rightarrow> 300 + n
      | SAI_OBJECT_TYPE_NEXT_HOP \<Rightarrow> 400 + n
      | SAI_OBJECT_TYPE_NEXT_HOP_GROUP \<Rightarrow> 500 + n
      | _ \<Rightarrow> 600 + n)"

definition demo_owner_bit :: "nh_owner \<Rightarrow> nat" where
  "demo_owner_bit f = (case f of SAI_FIB_OWNER_NEXT_HOP \<Rightarrow> 0 | SAI_FIB_OWNER_NEIGHBOR \<Rightarrow> 1)"

definition demo_util :: l3_util where
  "demo_util =
     \<lparr>sai_object_type_query = demo_type_query,
      sai_uoid_create = demo_uoid_create,
      sai_fib_attr_status_code_get = (\<lambda>st i. st),
      sai_packet_action_validate = (\<lambda>a. case a of SAI_PACKET_ACTION _ \<Rightarrow> False | _ \<Rightarrow> True),
      sai_fib_is_ip_addr_zero = (\<lambda>ip. case ip of Ip4 w \<Rightarrow> w = 0 | Ip6 w \<Rightarrow> w = 0 | IpFamily _ \<Rightarrow> False),
      sai_fib_is_ip_addr_loopback = (\<lambda>ip. ip = Ip4 0x7F000001 \<or> ip = Ip6 1),
      sai_fib_ip_addr_copy = (\<lambda>d ip. case ip of IpFamily _ \<Rightarrow> (SAI_STATUS_INVALID_PARAMETER, d)
                                   | _ \<Rightarrow> (SAI_STATUS_SUCCESS, ip)),
      std_ip_v4_mask_to_prefix_len = (\<lambda>m. if m = 0xFFFFFF00 then 24 else if m = 0 then 0 else 32),
      std_ip_v6_mask_to_prefix_len = (\<lambda>m. if m = 0 then 0 else 128),
      owner_bit = demo_owner_bit,
      sai_fib_is_owner_next_hop = (\<lambda>f. bit f 0),
      sai_fib_is_owner_neighbor = (\<lambda>f. bit f 1),
      sai_fib_get_vrf_node_for_rif = (\<lambda>R V r.
        case tree_get R r of None \<Rightarrow> None | Some rif \<Rightarrow> tree_get V (rif_vrf_id rif)),
      sai_fib_ip_next_hop_node_get = (\<lambda>R V r ip.
        case tree_get R r of None \<Rightarrow> None
        | Some rif \<Rightarrow> (case tree_get V (rif_vrf_id rif) of None \<Rightarrow> None
          | Some v \<Rightarrow> tree_get (vrf_nh_tree v) \<lparr>nk_type = SAI_NEXT_HOP_IP, nk_rif_id = r, nk_ip_addr = ip\<rparr>)),
      sai_is_valid_vlan_id = (\<lambda>v. 0 < v \<and> v < 4095),
      sai_fib_is_mac_address_zero = (\<lambda>m. m = 0),
      sai_fib_rif_is_node_info_duplicate = (\<lambda>a b.
        rif_src_mac a = rif_src_mac b \<and> rif_v4_admin_state a = rif_v4_admin_state b \<and>
        rif_v6_admin_state a = rif_v6_admin_state b \<and> rif_mtu a = rif_mtu b),
      sai_fib_rif_is_attachment_lag = (\<lambda>r. rif_type r = SAI_ROUTER_INTERFACE_TYPE_PORT \<and>
        demo_type_query (rif_port_id r) = SAI_OBJECT_TYPE_LAG),
      SAI_FIB_V4_ADMIN_STATE_DFLT = True,
      SAI_FIB_V6_ADMIN_STATE_DFLT = True,
      SAI_FIB_IP_OPT_PKT_ACTION_DFLT = SAI_PACKET_ACTION_TRAP,
      SAI_FIB_TTL_VIOLATION_PKT_ACTION_DFLT = SAI_PACKET_ACTION_TRAP,
      SAI_FIB_MTU_DFLT = 1514\<rparr>"

lemma demo_util_ok: "util_ok demo_util"
  by (simp add: util_ok_def demo_util_def demo_owner_bit_def)

definition demo_platform :: "u64 platform" where
  "demo_platform =
     \<lparr>calloc_ok = (\<lambda>h. (True, h)),
      std_rbtree_insert_ok = (\<lambda>h. (True, h)),
      std_radix_insert_ok = (\<lambda>h. (True, h)),
      std_radix_create_ok = (\<lambda>h. (True, h)),
      sai_switch_mac_address_get = (\<lambda>h. 0x010203040506),
      sai_switch_cpu_port_obj_id_get = (\<lambda>h. 99),
      sai_is_port_valid = (\<lambda>p h. p < 99),
      sai_is_lag_created = (\<lambda>l h. 100 \<le> l \<and> l < 110),
      sai_is_vlan_created = (\<lambda>v h. v < 100),
      sai_port_forward_mode_get = (\<lambda>p h. ((SAI_STATUS_SUCCESS, SAI_PORT_FWD_MODE_UNKNOWN), h)),
      sai_port_forward_mode_set = (\<lambda>p m h. (SAI_STATUS_SUCCESS, h)),
      sai_lag_port_count_get = (\<lambda>l h. ((SAI_STATUS_SUCCESS, 0), h)),
      sai_lag_port_list_get = (\<lambda>l n h. ((SAI_STATUS_SUCCESS, []), h)),
      sai_lag_update_rif_id = (\<lambda>l r h. h),
      get_fdb_entry_port = (\<lambda>v m h. ((SAI_STATUS_SUCCESS, 7), h)),
      sai_l2_register_fdb_entry = (\<lambda>v m h. (SAI_STATUS_SUCCESS, h)),
      sai_l2_deregister_fdb_entry = (\<lambda>v m h. (SAI_STATUS_SUCCESS, h)),
      route_meta_data_range = (\<lambda>h. ((SAI_STATUS_SUCCESS, 0, 255), h)),
      neighbor_meta_data_range = (\<lambda>h. ((SAI_STATUS_SUCCESS, 0, 255), h))\<rparr>"

definition demo_env :: "u64 l3_env" where
  "demo_env =
     \<lparr>util = demo_util,
      plat = demo_platform,
      router_npu =
        \<lparr>vr_create = (\<lambda>v h. ((SAI_STATUS_SUCCESS, h), h + 1)),
         vr_remove = (\<lambda>v h. (SAI_STATUS_SUCCESS, h)),
         vr_attr_validate = (\<lambda>a h. (SAI_STATUS_SUCCESS, h)),
         vr_attr_set = (\<lambda>v fl h. (SAI_STATUS_SUCCESS, h)),
         vr_attr_get = (\<lambda>v n h. ((SAI_STATUS_SUCCESS, []), h)),
         ecmp_max_paths_set = (\<lambda>m h. (SAI_STATUS_SUCCESS, h))\<rparr>,
      rif_npu =
        \<lparr>rif_create = (\<lambda>r h. ((SAI_STATUS_SUCCESS, h), h + 1)),
         rif_remove = (\<lambda>r h. (SAI_STATUS_SUCCESS, h)),
         rif_attr_validate = (\<lambda>ty a h. (SAI_STATUS_SUCCESS, h)),
         rif_attr_set = (\<lambda>r fl h. (SAI_STATUS_SUCCESS, h)),
         rif_attr_get = (\<lambda>r n h. ((SAI_STATUS_SUCCESS, []), h)),
         rif_lag_member_update = (\<lambda>r ps a h. (SAI_STATUS_SUCCESS, h))\<rparr>,
      nexthop_npu =
        \<lparr>nexthop_create = (\<lambda>n h. ((SAI_STATUS_SUCCESS, h), h + 1)),
         nexthop_remove = (\<lambda>n h. (SAI_STATUS_SUCCESS, h)),
         nexthop_attribute_get = (\<lambda>n k h. ((SAI_STATUS_SUCCESS, []), h))\<rparr>,
      nh_group_npu =
        \<lparr>nh_group_create = (\<lambda>g n as h. ((SAI_STATUS_SUCCESS, h), h + 1)),
         nh_group_remove = (\<lambda>g h. (SAI_STATUS_SUCCESS, h)),
         add_nh_to_group = (\<lambda>g n as h. (SAI_STATUS_SUCCESS, h)),
         remove_nh_from_group = (\<lambda>g n as h. (SAI_STATUS_SUCCESS, h)),
         nh_group_attr_get = (\<lambda>g n h. ((SAI_STATUS_SUCCESS, []), h))\<rparr>,
      neighbor_npu =
        \<lparr>neighbor_create = (\<lambda>n h. (SAI_STATUS_SUCCESS, h)),
         neighbor_remove = (\<lambda>n h. (SAI_STATUS_SUCCESS, h)),
         neighbor_attr_set = (\<lambda>n fl h. (SAI_STATUS_SUCCESS, h)),
         neighbor_attr_get = (\<lambda>n k h. ((SAI_STATUS_SUCCESS, []), h))\<rparr>,
      route_npu =
        \<lparr>route_create = (\<lambda>r h. (SAI_STATUS_SUCCESS, h)),
         route_remove = (\<lambda>r h. (SAI_STATUS_SUCCESS, h)),
         route_attr_get = (\<lambda>r n h. ((SAI_STATUS_SUCCESS, []), h))\<rparr>\<rparr>"

lemma demo_env_util [simp]: "util demo_env = demo_util"
  by (simp add: demo_env_def)

section \<open>A history\<close>

definition demo_start :: "u64 fib" where
  "demo_start =
     \<lparr>vrf_tree = [], router_interface_tree = [], nh_id_tree = [], nh_group_tree = [], neighbor_mac_tree = [],
      nh_heap = [], grp_heap = [], next_addr = 0, max_ecmp_paths = 16, num_virtual_routers = 0, hw = 1\<rparr>"

definition demo_calls :: "fib_call list" where
  "demo_calls =
     [VirtualRouterCreate [],
      RouterInterfaceCreate
        [SAI_ROUTER_INTERFACE_ATTR_VIRTUAL_ROUTER_ID 201,
         SAI_ROUTER_INTERFACE_ATTR_TYPE SAI_ROUTER_INTERFACE_TYPE_PORT,
         SAI_ROUTER_INTERFACE_ATTR_PORT_ID 5],
      RouterInterfaceCreate
        [SAI_ROUTER_INTERFACE_ATTR_VIRTUAL_ROUTER_ID 201,
         SAI_ROUTER_INTERFACE_ATTR_TYPE SAI_ROUTER_INTERFACE_TYPE_VLAN,
         SAI_ROUTER_INTERFACE_ATTR_VLAN_ID 10],
      NextHopCreate
        [SAI_NEXT_HOP_ATTR_TYPE SAI_NEXT_HOP_IP,
         SAI_NEXT_HOP_ATTR_IP (Ip4 0x0A000001),
         SAI_NEXT_HOP_ATTR_ROUTER_INTERFACE_ID 302],
      NextHopCreate
        [SAI_NEXT_HOP_ATTR_TYPE SAI_NEXT_HOP_IP,
         SAI_NEXT_HOP_ATTR_IP (Ip4 0x0A000002),
         SAI_NEXT_HOP_ATTR_ROUTER_INTERFACE_ID 303],
      NextHopGroupCreate
        [SAI_NEXT_HOP_GROUP_ATTR_TYPE SAI_NEXT_HOP_GROUP_ECMP,
         SAI_NEXT_HOP_GROUP_ATTR_NEXT_HOP_LIST [404, 405]],
      NeighborCreate
        \<lparr>ne_rif_id = 303, ne_ip_address = Ip4 0x0A000002\<rparr>
        [SAI_NEIGHBOR_ATTR_DST_MAC_ADDRESS 0x0A0B0C0D0E0F],
      RouteCreate
        \<lparr>re_vr_id = 201, re_destination = Prefix4 0xC0A80100 0xFFFFFF00\<rparr>
        [SAI_ROUTE_ATTR_NEXT_HOP_ID 404]]"

fun run_calls :: "'h l3_env \<Rightarrow> fib_call list \<Rightarrow> 'h fib \<Rightarrow> sai_status list \<times> 'h fib" where
  "run_calls e [] s = ([], s)"
| "run_calls e (c # cs) s =
     (let (st, s) = fib_exec e c s; (sts, s) = run_calls e cs s in (st # sts, s))"

text \<open>
  A check with small numbers that a history fits: fewer than 16 nodes, routes and members; and that
  every call of it is defined.
\<close>

definition call_small :: "fib_call \<Rightarrow> 'h fib \<Rightarrow> bool" where
  "call_small c s \<longleftrightarrow>
     length (nh_heap s) + 1 < 16 \<and> total_routes s < 16 \<and>
     list_all (\<lambda>(_, v). length (vrf_rif_list v) < 16) (vrf_tree s) \<and>
     (case c of
        NextHopGroupCreate attrs \<Rightarrow> length (attr_ids attrs) < 16
      | AddNextHopToGroup i ids \<Rightarrow>
          (case tree_get (nh_group_tree s) i of
             None \<Rightarrow> True
           | Some g \<Rightarrow> size (group_members s g) + length ids < 16)
      | _ \<Rightarrow> True)"

lemma call_small_fits:
  assumes "call_small c s"
  shows "call_fits c s"
proof -
  have less: "n < 2 ^ 32" if "n < 16" for n :: nat using that by simp
  have "length (vrf_rif_list v) < 2 ^ 32" if "vrf_at s i = Some v" for i v
    using assms tree_get_in_set [OF that] by (intro less) (auto simp: call_small_def list_all_iff)
  then have "fib_bounded s" using assms less by (simp add: fib_bounded_def call_small_def)
  moreover have "group_room s i (length ids)" if "c = AddNextHopToGroup i ids" for i ids
    using assms that less by (auto simp: call_small_def group_room_def)
  ultimately show ?thesis using assms less by (auto simp: call_fits_def call_small_def split: fib_call.split)
qed

fun calls_small :: "'h l3_env \<Rightarrow> fib_call list \<Rightarrow> 'h fib \<Rightarrow> bool" where
  "calls_small e [] s = True"
| "calls_small e (c # cs) s =
     (call_small c s \<and> fst (fib_exec e c s) \<noteq> UNDEFINED_BEHAVIOUR \<and> calls_small e cs (snd (fib_exec e c s)))"

lemma run_calls_reachable:
  "fib_reachable e s \<Longrightarrow> calls_small e cs s \<Longrightarrow> fib_reachable e (snd (run_calls e cs s))"
proof (induction cs arbitrary: s)
  case (Cons c cs)
  obtain st t where c: "fib_exec e c s = (st, t)" by force
  have "fib_step e s c st t" using Cons.prems c call_small_fits by (auto intro: fib_step.call)
  with Cons.prems(1) have "fib_reachable e t" by (rule fib_reachable.step)
  with Cons.IH [of t] Cons.prems show ?case by (simp add: c case_prod_unfold Let_def)
qed simp

lemma demo_start_initial: "fib_initial demo_start"
  by (simp add: fib_initial_def demo_start_def)

definition demo_state :: "u64 fib" where
  "demo_state = snd (run_calls demo_env demo_calls demo_start)"

lemma demo_calls_small: "calls_small demo_env demo_calls demo_start"
  by code_simp

lemma demo_state_reachable: "fib_reachable demo_env demo_state"
  unfolding demo_state_def
  by (rule run_calls_reachable [OF fib_reachable.initial [OF demo_start_initial] demo_calls_small])

lemma demo_state_sys: "sys_inv demo_env demo_state"
  using fib_reachable_sys [OF _ demo_state_reachable] demo_util_ok by simp

end
