(* ===== verification/Fib_Properties.thy ===== *)
theory Fib_Properties
  imports Fib_Demo
begin

text \<open>
  The properties of the L3 component (\<^verbatim>\<open>src/src/routing\<close>), each with its use on the history of
  \<open>Fib_Demo\<close>. They are stated over a state with \<open>sys_inv\<close>, which every reachable state has.
\<close>

section \<open>Facts shared by the properties\<close>

text \<open>A result is its two components, so that a concrete call can be handed to a property.\<close>

lemma pair_eq: "p = (fst p, snd p)"
  by simp

lemma triple_eq: "p = (fst p, fst (snd p), snd (snd p))"
  by simp

lemma route_create_remove:
  assumes inv: "sys_inv e s" and c: "sai_fib_route_create e re attrs s = (SAI_STATUS_SUCCESS, s1)"
    and d: "sai_fib_route_remove e re s1 = (SAI_STATUS_SUCCESS, s2)"
  shows "route_at s2 jk = route_at s jk" "nh_at s2 a = nh_at s a" "grp_at s2 g = grp_at s g"
    "router_interface_tree s2 = router_interface_tree s"
proof -
  note i = sys_invD [OF inv]
  let ?k = "entry_at (util e) re"
  from route_create_result [OF i(1) c] obtain r where r: "route_at s ?k = None"
    "route_storable (util e) s ?k r" "hw_only (route_added ?k r s) s1" by auto
  have v: "vrf_at s (fst ?k) \<noteq> None" using r(2) by (simp add: route_storable_def)
  have at1: "route_at s1 jk = (if jk = ?k then Some r else route_at s jk)" for jk
    using route_at_hw [OF r(3)] route_at_added [OF v] by simp
  from route_remove_result [OF d] obtain r' where r': "route_at s1 ?k = Some r'"
    "hw_only (route_gone ?k r' s1) s2" by auto
  have eq: "r' = r" using r'(1) at1 [of ?k] by simp
  have v1: "vrf_at s1 (fst ?k) \<noteq> None" using route_at_SomeD [OF r'(1)] by auto
  show "route_at s2 jk = route_at s jk"
    using route_at_hw [OF r'(2)] route_at_gone [OF v1] at1 r(1) by simp
  show "nh_at s2 a = nh_at s a" "grp_at s2 g = grp_at s g" "router_interface_tree s2 = router_interface_tree s"
    using r(3) r'(2)
    by (simp_all add: eq hw_only_sel route_added_def route_gone_def put_route_def del_route_def adjust_refs_nh
        adjust_refs_grp option.map_comp comp_def option.map_ident)
qed

lemma list_all2_functional:
  "list_all2 (\<lambda>x a. f x = Some a) xs as \<Longrightarrow> list_all2 (\<lambda>x a. f x = Some a) xs bs \<Longrightarrow> bs = as"
proof (induction xs arbitrary: as bs)
  case (Cons x xs)
  then show ?case by (auto simp: list_all2_Cons1)
qed simp

lemma group_add_remove:
  assumes inv: "sys_inv e s" and room: "group_room s gid (length ids)" and tot: "calloc_total e"
    and c: "sai_fib_next_hop_add_to_group e gid ids s = (SAI_STATUS_SUCCESS, s1)"
    and d: "sai_fib_next_hop_remove_from_group e gid ids s1 = (SAI_STATUS_SUCCESS, s2)"
  shows "group_members s2 h = group_members s h"
proof -
  note i = sys_invD(1) [OF inv]
  have i1: "fib_inv (util e) s1" by (rule add_to_group_inv [OF i room c])
  obtain x where "group_frame x s s1" "nh_group_tree s1 = nh_group_tree s" by (rule add_to_group_frame [OF i room c])
  then have ids: "nh_id_tree s1 = nh_id_tree s" "nh_group_tree s1 = nh_group_tree s"
    by (simp_all add: group_frame_def)
  from add_to_group_members [OF i room tot c] obtain g ap where
    g: "tree_get (nh_group_tree s) gid = Some g" "list_all2 (\<lambda>x a. tree_get (nh_id_tree s) x = Some a) ids ap"
      "group_members s1 g = group_members s g + mset ap" "\<forall>h. h \<noteq> g \<longrightarrow> group_members s1 h = group_members s h"
    by auto
  from remove_from_group_members [OF i1 d] obtain g' bp where
    h: "tree_get (nh_group_tree s1) gid = Some g'" "list_all2 (\<lambda>x a. tree_get (nh_id_tree s1) x = Some a) ids bp"
      "group_members s2 g' = group_members s1 g' - mset bp" "\<forall>h. h \<noteq> g' \<longrightarrow> group_members s2 h = group_members s1 h"
    by auto
  have "g' = g" using g(1) h(1) ids by simp
  moreover have "bp = ap" using list_all2_functional [OF g(2)] h(2) by (simp add: ids)
  ultimately show ?thesis using g h by (cases "h = g") simp_all
qed

section \<open>Success, exactly\<close>

lemma virtual_router_remove_success_iff:
  assumes inv: "sys_inv e s" and b: "fib_bounded s"
  shows "fst (sai_fib_virtual_router_remove e i s) = SAI_STATUS_SUCCESS \<longleftrightarrow>
     is_obj_id e SAI_OBJECT_TYPE_VIRTUAL_ROUTER i \<and>
     (\<exists>v. vrf_at s i = Some v \<and> vrf_rif_list v = [] \<and> vrf_nh_tree v = [] \<and> vrf_route_tree v = [] \<and>
          fst (vr_remove (router_npu e) v (hw s)) = SAI_STATUS_SUCCESS)" (is "?L \<longleftrightarrow> ?R")
proof -
  note i = sys_invD(1) [OF inv]
  have n: "vrf_num_rif v = 0 \<longleftrightarrow> vrf_rif_list v = []" if "vrf_at s i = Some v" for v
    using fib_invD(2) [OF i] b that by (auto simp: vrf_ok_def fib_bounded_def word_unat_eq_iff unat_of_nat take_bit_nat_eq_self)
  show ?thesis
    using n by (auto simp: sai_fib_virtual_router_remove_def hw_call_def Let_def split: option.splits prod.splits if_splits)
qed

section \<open>The database as a whole\<close>

text \<open>
  C1: every state that the L3 API reaches from the empty database, by any sequence of calls whose
  behaviour C defines, with any failures of allocation, trees and hardware, satisfies the system invariant: all pointers are
  live, every counter is exactly the number of what it counts, links between groups and next hops are
  symmetric, the MAC lists hold exactly neighbors on VLAN interfaces, and every node has an owner. A run
  ends where a call unlinks a node that was never linked or writes past an array
  (\<open>UNDEFINED_BEHAVIOUR\<close>); the properties on failed creation and on the removal from a group say when.
\<close>

theorem reachable_invariant:
  assumes "util_ok (util e)" and "fib_reachable e s"
  shows "sys_inv e s"
  using assms by (rule fib_reachable_sys)

theorem reachable_invariant_witness: "sys_inv demo_env demo_state"
  using reachable_invariant [OF _ demo_state_reachable] demo_util_ok by simp

text \<open>
  C2: one call refines one step on the routing table, seen as a map from virtual router and prefix to
  the route: creation adds one entry that was free, removal deletes one that was there, setting an
  attribute replaces a route by one for the same prefix; every other call and every failed call leaves
  the table as it is.
\<close>

theorem exec_refines_route_table:
  assumes "util_ok (util e)" and "sys_inv e s" and "call_fits c s" and "fib_exec e c s = (st, s')"
  shows "route_table_step (util e) c st (route_at s) (route_at s')"
  using fib_exec_refines [OF assms] by simp

definition demo_route :: route_entry where
  "demo_route = \<lparr>re_vr_id = 201, re_destination = Prefix4 0x0B000000 0xFFFFFF00\<rparr>"

definition demo_attrs :: "route_attr list" where
  "demo_attrs = [SAI_ROUTE_ATTR_NEXT_HOP_ID 506]"

lemma demo_state_small: "call_small (RouteCreate demo_route demo_attrs) demo_state"
  by code_simp

theorem exec_refines_route_table_witness:
  "fst (fib_exec demo_env (RouteCreate demo_route demo_attrs) demo_state) = SAI_STATUS_SUCCESS \<and>
   route_table_step demo_util (RouteCreate demo_route demo_attrs) SAI_STATUS_SUCCESS (route_at demo_state)
     (route_at (snd (fib_exec demo_env (RouteCreate demo_route demo_attrs) demo_state)))"
proof -
  have st: "fst (fib_exec demo_env (RouteCreate demo_route demo_attrs) demo_state) = SAI_STATUS_SUCCESS"
    by code_simp
  from exec_refines_route_table [OF _ demo_state_sys call_small_fits [OF demo_state_small] pair_eq]
  show ?thesis using demo_util_ok st by simp
qed

text \<open>
  No route dangles. In a reachable state a route lies in an existing virtual router, its next hop
  exists and is a next hop (not only a neighbor), its group exists, and a route that forwards or logs
  has one of the two.
\<close>

theorem route_targets_exist:
  assumes "sys_inv e s" and "route_at s ik = Some r"
  shows "rt_vrf_id r = fst ik \<and> vrf_at s (fst ik) \<noteq> None \<and> route_target_ok (util e) s (rt_nh r) \<and> route_fwd r"
proof -
  note i = sys_invD [OF assms(1)]
  from route_at_SomeD [OF assms(2)] obtain v where v: "vrf_at s (fst ik) = Some v"
    "tree_get (vrf_route_tree v) (snd ik) = Some r" by auto
  with fib_invD(7) [OF i(1)] have "rt_vrf_id r = fst ik \<and> route_target_ok (util e) s (rt_nh r)"
    unfolding route_ok_def by blast
  then show ?thesis using v routes_okD [OF i(3) assms(2)] by simp
qed

theorem route_targets_exist_witness:
  "\<exists>r. route_at demo_state (201, (Ip4 0xC0A80100, 56)) = Some r \<and> rt_nh r = RouteNh 0 \<and>
     route_target_ok demo_util demo_state (rt_nh r)"
proof -
  have "map_option rt_nh (route_at demo_state (201, (Ip4 0xC0A80100, 56))) = Some (RouteNh 0)" by code_simp
  then obtain r where r: "route_at demo_state (201, (Ip4 0xC0A80100, 56)) = Some r" "rt_nh r = RouteNh 0" by auto
  from route_targets_exist [OF demo_state_sys r(1)] r show ?thesis by simp
qed

section \<open>Routes\<close>

text \<open>
  C3: creating a route and removing it again gives back the routing table, every next hop and group
  with its reference count, and the interfaces.
\<close>

theorem route_create_remove_roundtrip:
  assumes "sys_inv e s" and "sai_fib_route_create e re attrs s = (SAI_STATUS_SUCCESS, s1)"
    and "sai_fib_route_remove e re s1 = (SAI_STATUS_SUCCESS, s2)"
  shows "(\<forall>ik. route_at s2 ik = route_at s ik) \<and> (\<forall>a. nh_at s2 a = nh_at s a) \<and>
    (\<forall>g. grp_at s2 g = grp_at s g) \<and> router_interface_tree s2 = router_interface_tree s"
  using route_create_remove [OF assms] by simp

definition demo_with_route :: "u64 fib" where
  "demo_with_route = snd (sai_fib_route_create demo_env demo_route demo_attrs demo_state)"

theorem route_create_remove_roundtrip_witness:
  "fst (sai_fib_route_create demo_env demo_route demo_attrs demo_state) = SAI_STATUS_SUCCESS \<and>
   fst (sai_fib_route_remove demo_env demo_route demo_with_route) = SAI_STATUS_SUCCESS \<and>
   (\<forall>g. grp_at (snd (sai_fib_route_remove demo_env demo_route demo_with_route)) g = grp_at demo_state g)"
proof -
  have 1: "fst (sai_fib_route_create demo_env demo_route demo_attrs demo_state) = SAI_STATUS_SUCCESS" by code_simp
  have 2: "fst (sai_fib_route_remove demo_env demo_route demo_with_route) = SAI_STATUS_SUCCESS" by code_simp
  have "sai_fib_route_create demo_env demo_route demo_attrs demo_state = (SAI_STATUS_SUCCESS, demo_with_route)"
    using 1 by (simp add: demo_with_route_def prod_eq_iff)
  moreover have "sai_fib_route_remove demo_env demo_route demo_with_route =
      (SAI_STATUS_SUCCESS, snd (sai_fib_route_remove demo_env demo_route demo_with_route))"
    using 2 by (simp add: prod_eq_iff)
  ultimately show ?thesis using route_create_remove_roundtrip [OF demo_state_sys] 1 2 by blast
qed

section \<open>Virtual routers and router interfaces\<close>

text \<open>
  C4: a virtual router can be removed exactly when it exists, has no interface, no next hop and no
  route, and the hardware layer agrees; the counter of interfaces the code tests never lies.
\<close>

theorem virtual_router_remove_succeeds_iff:
  assumes "sys_inv e s" and "fib_bounded s"
  shows "fst (sai_fib_virtual_router_remove e i s) = SAI_STATUS_SUCCESS \<longleftrightarrow>
     is_obj_id e SAI_OBJECT_TYPE_VIRTUAL_ROUTER i \<and>
     (\<exists>v. vrf_at s i = Some v \<and> vrf_rif_list v = [] \<and> vrf_nh_tree v = [] \<and> vrf_route_tree v = [] \<and>
          fst (vr_remove (router_npu e) v (hw s)) = SAI_STATUS_SUCCESS)"
  using assms by (rule virtual_router_remove_success_iff)

lemma demo_state_bounded: "fib_bounded demo_state"
  using call_small_fits [OF demo_state_small] by (simp add: call_fits_def)

theorem virtual_router_remove_succeeds_iff_witness:
  "fst (sai_fib_virtual_router_remove demo_env 201 demo_state) \<noteq> SAI_STATUS_SUCCESS \<and>
   fst (sai_fib_virtual_router_remove demo_env 201 demo_state) = SAI_STATUS_OBJECT_IN_USE \<and>
   (\<exists>v. vrf_at demo_state 201 = Some v \<and> vrf_rif_list v \<noteq> [])"
proof -
  have 1: "map_option vrf_rif_list (vrf_at demo_state 201) = Some [302, 303]" by code_simp
  have 2: "fst (sai_fib_virtual_router_remove demo_env 201 demo_state) = SAI_STATUS_OBJECT_IN_USE" by code_simp
  show ?thesis
    using virtual_router_remove_succeeds_iff [OF demo_state_sys demo_state_bounded, of 201] 1 2 by auto
qed

text \<open>
  C5: a router interface that is created is attached to a port, a LAG or a valid VLAN, duplicates no
  interface on the same attachment with the same MAC address, has a fresh id and an existing virtual
  router, and is added to exactly that router; a failed creation leaves the database as it was.
\<close>

theorem router_interface_create_effect:
  assumes "util_ok (util e)" and "sys_inv e s"
    and "sai_fib_router_interface_create e attrs s = (st, out, s')"
  shows "if st = SAI_STATUS_SUCCESS
    then \<exists>r v. out = Some (rif_id r) \<and> rif_at s (rif_id r) = None \<and> vrf_at s (rif_vrf_id r) = Some v \<and>
           rif_attached e r \<and> rif_ref_count r = 0 \<and> \<not> sai_fib_rif_is_duplicate s r \<and>
           hw_only (rif_added r v s) s'
    else hw_only s s'"
proof -
  have "tree_wf (vrf_tree s)" using fib_invD(1) [OF sys_invD(1) [OF assms(2)]] by (simp add: trees_ok_def)
  from router_interface_create_result [OF assms(1) this assms(3)] show ?thesis .
qed

definition demo_rif_attrs :: "rif_attr list" where
  "demo_rif_attrs =
     [SAI_ROUTER_INTERFACE_ATTR_VIRTUAL_ROUTER_ID 201,
      SAI_ROUTER_INTERFACE_ATTR_TYPE SAI_ROUTER_INTERFACE_TYPE_PORT,
      SAI_ROUTER_INTERFACE_ATTR_PORT_ID 6]"

theorem router_interface_create_effect_witness:
  "\<exists>r v. rif_at demo_state (rif_id r) = None \<and> vrf_at demo_state (rif_vrf_id r) = Some v \<and>
     hw_only (rif_added r v demo_state) (snd (snd (sai_fib_router_interface_create demo_env demo_rif_attrs demo_state)))"
proof -
  have "fst (sai_fib_router_interface_create demo_env demo_rif_attrs demo_state) = SAI_STATUS_SUCCESS" by code_simp
  with router_interface_create_effect [OF _ demo_state_sys triple_eq, of demo_rif_attrs] show ?thesis
    using demo_util_ok by auto
qed

text \<open>
  A router interface is removed only when no next hop node uses it, and then from its virtual
  router and the interface tree and from nothing else.
\<close>

theorem router_interface_remove_effect:
  assumes "sys_inv e s" and "fib_bounded s" and "sai_fib_router_interface_remove e rid s = (st, s')"
  shows "if st = SAI_STATUS_SUCCESS
    then \<exists>r v. rif_at s rid = Some r \<and> rif_refs s rid = 0 \<and> vrf_at s (rif_vrf_id r) = Some v \<and>
           hw_only (rif_gone r v s) s'
    else hw_only s s'"
proof (cases "st = SAI_STATUS_SUCCESS")
  case True
  note i = sys_invD(1) [OF assms(1)]
  from router_interface_remove_result [OF i assms(3)] True obtain r v where r: "rif_at s rid = Some r"
    "rif_ref_count r = 0" "vrf_at s (rif_vrf_id r) = Some v" "hw_only (rif_gone r v s) s'" by auto
  have "rif_refs s rid < 2 ^ 32" using rif_refs_le_heap [of s rid] assms(2) by (simp add: fib_bounded_def)
  moreover have "rif_ref_count r = of_nat (rif_refs s rid)" using fib_invD(3) [OF i] r(1) unfolding rif_ok_def by blast
  ultimately have "rif_refs s rid = 0" using r(2) by (simp add: word_unat_eq_iff unat_of_nat)
  with r True show ?thesis by auto
next
  case False
  then show ?thesis using router_interface_remove_result [OF sys_invD(1) [OF assms(1)] assms(3)] by simp
qed

theorem router_interface_remove_effect_witness:
  "fst (sai_fib_router_interface_remove demo_env 302 demo_state) = SAI_STATUS_OBJECT_IN_USE \<and>
   hw_only demo_state (snd (sai_fib_router_interface_remove demo_env 302 demo_state))"
proof -
  have 1: "fst (sai_fib_router_interface_remove demo_env 302 demo_state) = SAI_STATUS_OBJECT_IN_USE" by code_simp
  from router_interface_remove_effect [OF demo_state_sys demo_state_bounded pair_eq, of 302] 1 show ?thesis by simp
qed

section \<open>Next hops and groups\<close>

text \<open>
  A next hop that is created gets a fresh id for the interface and address of its attributes and
  owns its node as a next hop; a failed creation leaves the ids as they were. Apart from that node,
  no other node, group, MAC list, interface (but for the count) or route changes.
\<close>

theorem next_hop_create_effect:
  assumes "util_ok (util e)" and "sys_inv e s" and "length (nh_heap s) + 1 < 2 ^ 32"
    and "sai_fib_next_hop_create e attrs s = (st, out, s')"
  shows "if st = SAI_STATUS_SUCCESS
    then \<exists>a n info. out = Some (nh_next_hop_id n) \<and> nh_at s' a = Some n \<and>
        is_owner (util e) SAI_FIB_OWNER_NEXT_HOP n \<and>
        sai_fib_next_hop_info_fill e s attrs True (sai_fib_next_hop_default_attr_set nh_zero)
          = (SAI_STATUS_SUCCESS, info) \<and> nh_key n = nh_key info \<and>
        tree_get (nh_id_tree s) (nh_next_hop_id n) = None \<and>
        nh_id_tree s' = tree_put (nh_next_hop_id n) a (nh_id_tree s) \<and> nh_frame a s s'
    else out = None \<and> nh_id_tree s' = nh_id_tree s \<and> (\<exists>a. nh_frame a s s')"
  using next_hop_create_result [OF assms(1) sys_invD(1,2) [OF assms(2)] assms(3,4)] by blast

definition demo_nh_attrs :: "nh_attr list" where
  "demo_nh_attrs =
     [SAI_NEXT_HOP_ATTR_TYPE SAI_NEXT_HOP_IP, SAI_NEXT_HOP_ATTR_IP (Ip4 0x0A000009),
      SAI_NEXT_HOP_ATTR_ROUTER_INTERFACE_ID 303]"

lemma demo_state_heap: "length (nh_heap demo_state) + 1 < 2 ^ 32"
  using call_small_fits [OF demo_state_small] by (simp add: call_fits_def)

theorem next_hop_create_effect_witness:
  "fst (snd (sai_fib_next_hop_create demo_env demo_nh_attrs demo_state)) = Some 407 \<and>
   (\<exists>a. nh_id_tree (snd (snd (sai_fib_next_hop_create demo_env demo_nh_attrs demo_state))) =
     tree_put 407 a (nh_id_tree demo_state))"
proof -
  let ?r = "sai_fib_next_hop_create demo_env demo_nh_attrs demo_state"
  have "fst ?r = SAI_STATUS_SUCCESS" "fst (snd ?r) = Some 407" by code_simp+
  with next_hop_create_effect [OF _ demo_state_sys demo_state_heap triple_eq, of demo_nh_attrs] show ?thesis
    using demo_util_ok by auto
qed

text \<open>
  A next hop is removed only when no route and no group uses it; its id is gone and its node is
  freed unless it is still a neighbor. A failed removal keeps every node, and its id when the tree
  library does not fail.
\<close>

theorem next_hop_remove_effect:
  assumes "util_ok (util e)" and "sys_inv e s" and "fib_bounded s" and "sai_fib_next_hop_remove e x s = (st, s')"
  shows "if st = SAI_STATUS_SUCCESS
    then \<exists>a n. tree_get (nh_id_tree s) x = Some a \<and> nh_at s a = Some n \<and>
        route_refs s (RouteNh a) = 0 \<and> nh_group_list n = [] \<and>
        nh_id_tree s' = tree_del x (nh_id_tree s) \<and> nh_gone (util e) a s' \<and> nh_frame a s s'
    else (rbtree_total e \<longrightarrow> (\<forall>i. tree_get (nh_id_tree s') i = tree_get (nh_id_tree s) i)) \<and>
        nh_heap s' = nh_heap s"
  using next_hop_remove_result [OF assms(1) sys_invD(1,2) [OF assms(2)] assms(3,4)] by (auto split: if_splits)

theorem next_hop_remove_effect_witness:
  "fst (sai_fib_next_hop_remove demo_env 404 demo_state) = SAI_STATUS_OBJECT_IN_USE \<and>
   nh_heap (snd (sai_fib_next_hop_remove demo_env 404 demo_state)) = nh_heap demo_state"
proof -
  have 1: "fst (sai_fib_next_hop_remove demo_env 404 demo_state) = SAI_STATUS_OBJECT_IN_USE" by code_simp
  from next_hop_remove_effect [OF _ demo_state_sys demo_state_bounded pair_eq, of 404] 1 show ?thesis
    using demo_util_ok by simp
qed

text \<open>
  C6: when no allocation fails and the group has room (its members and the new ones are fewer than
  \<open>2 ^ 32\<close>), adding next hops to a group adds exactly the multiset of the given next hops to its
  members and nothing to any other group, or fails and changes no group. When an allocation fails the
  call may report success with nothing added.
\<close>

theorem add_to_group_effect:
  assumes "sys_inv e s" and "group_room s gid (length ids)" and "calloc_total e"
    and "sai_fib_next_hop_add_to_group e gid ids s = (st, s')"
  shows "if st = SAI_STATUS_SUCCESS
     then \<exists>g ap. tree_get (nh_group_tree s) gid = Some g \<and>
        list_all2 (\<lambda>x a. tree_get (nh_id_tree s) x = Some a) ids ap \<and>
        group_members s' g = group_members s g + mset ap \<and>
        (\<forall>h. h \<noteq> g \<longrightarrow> group_members s' h = group_members s h)
     else \<forall>h. group_members s' h = group_members s h"
  using add_to_group_members [OF sys_invD(1) [OF assms(1)] assms(2-4)] .

lemma demo_calloc_total: "calloc_total demo_env"
  by (simp add: calloc_total_def demo_env_def demo_platform_def)

lemma demo_group_room: "group_room demo_state 506 (length [404, 404 :: oid])"
proof -
  have "call_small (AddNextHopToGroup 506 [404, 404]) demo_state" by code_simp
  from call_small_fits [OF this] show ?thesis by (simp add: call_fits_def)
qed

theorem add_to_group_effect_witness:
  "\<exists>g ap. tree_get (nh_group_tree demo_state) 506 = Some g \<and>
     group_members (snd (sai_fib_next_hop_add_to_group demo_env 506 [404, 404] demo_state)) g =
     group_members demo_state g + mset ap \<and> length ap = 2"
proof -
  let ?r = "sai_fib_next_hop_add_to_group demo_env 506 [404, 404] demo_state"
  have 1: "fst ?r = SAI_STATUS_SUCCESS" by code_simp
  from add_to_group_effect [OF demo_state_sys demo_group_room demo_calloc_total pair_eq] 1 obtain g ap where
    "tree_get (nh_group_tree demo_state) 506 = Some g" "list_all2 (\<lambda>x a. tree_get (nh_id_tree demo_state) x = Some a) [404, 404] ap"
    "group_members (snd ?r) g = group_members demo_state g + mset ap" by auto
  then show ?thesis using list_all2_lengthD by (metis length_Cons list.size(3) numeral_2_eq_2)
qed

text \<open>
  C7: when no allocation fails and the group has room for the new members, adding next hops to a
  group and removing the same next hops again, both successfully, leaves every group with the members
  it had, however often a next hop occurs in the list or was in the group before.
\<close>

theorem group_add_remove_roundtrip:
  assumes "sys_inv e s" and "group_room s gid (length ids)" and "calloc_total e"
    and "sai_fib_next_hop_add_to_group e gid ids s = (SAI_STATUS_SUCCESS, s1)"
    and "sai_fib_next_hop_remove_from_group e gid ids s1 = (SAI_STATUS_SUCCESS, s2)"
  shows "group_members s2 h = group_members s h"
  using assms by (rule group_add_remove)

definition demo_more_members :: "u64 fib" where
  "demo_more_members = snd (sai_fib_next_hop_add_to_group demo_env 506 [404, 404] demo_state)"

theorem group_add_remove_roundtrip_witness:
  "fst (sai_fib_next_hop_add_to_group demo_env 506 [404, 404] demo_state) = SAI_STATUS_SUCCESS \<and>
   fst (sai_fib_next_hop_remove_from_group demo_env 506 [404, 404] demo_more_members) = SAI_STATUS_SUCCESS \<and>
   group_members (snd (sai_fib_next_hop_remove_from_group demo_env 506 [404, 404] demo_more_members)) 2 =
     group_members demo_state 2"
proof -
  have 1: "fst (sai_fib_next_hop_add_to_group demo_env 506 [404, 404] demo_state) = SAI_STATUS_SUCCESS"
    and 2: "fst (sai_fib_next_hop_remove_from_group demo_env 506 [404, 404] demo_more_members) = SAI_STATUS_SUCCESS"
    by code_simp+
  have r: "sai_fib_next_hop_add_to_group demo_env 506 [404, 404] demo_state = (SAI_STATUS_SUCCESS, demo_more_members)"
    using 1 by (simp add: demo_more_members_def prod_eq_iff)
  have q: "sai_fib_next_hop_remove_from_group demo_env 506 [404, 404] demo_more_members =
      (SAI_STATUS_SUCCESS, snd (sai_fib_next_hop_remove_from_group demo_env 506 [404, 404] demo_more_members))"
    using 2 by (simp add: prod_eq_iff)
  from group_add_remove_roundtrip [OF demo_state_sys demo_group_room demo_calloc_total r q] 1 2 show ?thesis by blast
qed

text \<open>
  C13: removing next hops from a group with a list of more entries than a group may have, each a member
  of the group, is not defined: the list is written to an array with one entry per allowed next hop of
  a group, and the removal, unlike the addition, does not check its length.
\<close>

theorem remove_list_overruns_array:
  assumes "is_obj_id e SAI_OBJECT_TYPE_NEXT_HOP_GROUP gid" and "fst (calloc_ok (plat e) (hw s))"
    and "tree_get (nh_group_tree s) gid = Some g" and "grp_at s g = Some p"
    and "\<And>x. x \<in> set ids \<Longrightarrow> is_obj_id e SAI_OBJECT_TYPE_NEXT_HOP x \<and>
      (\<exists>a. tree_get (nh_id_tree s) x = Some a \<and> tree_get (grp_nh_list p) a \<noteq> None)"
    and "unat (max_ecmp_paths s) < length ids" and "length ids < 2 ^ 32"
  shows "fst (sai_fib_next_hop_remove_from_group e gid ids s) = UNDEFINED_BEHAVIOUR"
  using assms by (rule remove_from_group_overrun)

theorem remove_list_overruns_array_witness:
  "fst (sai_fib_next_hop_remove_from_group demo_env 506 (replicate 17 404) demo_state) = UNDEFINED_BEHAVIOUR"
proof -
  have "is_obj_id demo_env SAI_OBJECT_TYPE_NEXT_HOP_GROUP 506" "fst (calloc_ok (plat demo_env) (hw demo_state))"
    and g: "tree_get (nh_group_tree demo_state) 506 = Some 2"
    and x: "is_obj_id demo_env SAI_OBJECT_TYPE_NEXT_HOP 404" "tree_get (nh_id_tree demo_state) 404 = Some 0"
    and m: "unat (max_ecmp_paths demo_state) = 16"
    and p: "map_option (\<lambda>p. tree_get (grp_nh_list p) 0 \<noteq> None) (grp_at demo_state 2) = Some True" by code_simp+
  from p obtain p where p: "grp_at demo_state 2 = Some p" "tree_get (grp_nh_list p) 0 \<noteq> None" by auto
  show ?thesis
    by (rule remove_list_overruns_array [where g = 2 and p = p]; (fact | use x p m in auto)?)
qed

text \<open>
  C8: a group is removed only when no route forwards to it; no next hop keeps a link to it, and the
  members of every other group stay.
\<close>

theorem group_remove_effect:
  assumes "sys_inv e s" and "fib_bounded s" and "sai_fib_next_hop_group_remove e gid s = (st, s')"
  shows "if st = SAI_STATUS_SUCCESS
     then \<exists>g. tree_get (nh_group_tree s) gid = Some g \<and> route_refs s (RouteNhGroup g) = 0 \<and>
        grp_at s' g = None \<and> nh_group_tree s' = tree_del gid (nh_group_tree s) \<and>
        (\<forall>a. nh_link s' a g = None) \<and> (\<forall>h. h \<noteq> g \<longrightarrow> group_members s' h = group_members s h)
     else hw_only s s'"
  using group_remove_result [OF sys_invD(1) [OF assms(1)] assms(2,3)] by blast

theorem group_remove_effect_witness:
  "\<exists>g. tree_get (nh_group_tree demo_state) 506 = Some g \<and>
     grp_at (snd (sai_fib_next_hop_group_remove demo_env 506 demo_state)) g = None"
proof -
  have "fst (sai_fib_next_hop_group_remove demo_env 506 demo_state) = SAI_STATUS_SUCCESS" by code_simp
  with group_remove_effect [OF demo_state_sys demo_state_bounded pair_eq, of 506] show ?thesis by auto
qed

text \<open>
  C9: when the very first link node cannot be allocated, adding next hops to the lists of a group
  reports success although nothing was added: the rollback is guarded by \<open>nh_index\<close> being non-zero.
\<close>

theorem add_in_lists_hides_failure:
  assumes "nh_at s a = Some n" and "tree_get (nh_group_list n) g = None"
    and "calloc_ok (plat e) (hw s) = (False, h)"
  shows "sai_fib_nh_group_add_in_lists e g (a # as) s = (SAI_STATUS_SUCCESS, s\<lparr>hw := h\<rparr>)"
  using assms by (rule add_in_lists_first_alloc_fails)

definition demo_no_memory :: "u64 l3_env" where
  "demo_no_memory = demo_env\<lparr>plat := demo_platform\<lparr>calloc_ok := (\<lambda>h. (False, h))\<rparr>\<rparr>"

theorem add_in_lists_hides_failure_witness:
  "sai_fib_nh_group_add_in_lists demo_no_memory 9 [0, 1] demo_state = (SAI_STATUS_SUCCESS, demo_state)"
proof -
  have "map_option (\<lambda>n. tree_get (nh_group_list n) 9) (nh_at demo_state 0) = Some None" by code_simp
  then obtain n where "nh_at demo_state 0 = Some n" "tree_get (nh_group_list n) 9 = None" by auto
  from add_in_lists_hides_failure [OF this, of demo_no_memory "hw demo_state" "[1]"] show ?thesis
    by (simp add: demo_no_memory_def)
qed

section \<open>Neighbors\<close>

text \<open>
  C10: creating a neighbor succeeds only for an entry that had none; the entry then has a node with a
  MAC address that is not zero, listed in the MAC view exactly when its interface is a VLAN interface.
  A failed creation whose behaviour is defined leaves the neighbors and the MAC view as they were.
\<close>

theorem neighbor_create_effect:
  assumes "util_ok (util e)" and "sys_inv e s" and "length (nh_heap s) + 1 < 2 ^ 32"
    and "sai_fib_neighbor_create e ne attrs s = (st, s')"
  shows "if st = SAI_STATUS_SUCCESS
    then \<exists>a n. \<not> neighbor_at (util e) s a \<and> neighbor_node_find e s' ne = Inr (a, n) \<and>
      \<not> sai_fib_is_mac_address_zero (util e) (nh_mac_addr n) \<and> (mac_listed s' a \<longleftrightarrow> on_vlan s' n) \<and>
      (\<forall>b. b \<noteq> a \<longrightarrow> nh_at s' b = nh_at s b)
    else st \<noteq> UNDEFINED_BEHAVIOUR \<longrightarrow>
      (\<forall>b. neighbor_at (util e) s' b = neighbor_at (util e) s b \<and> mac_listed s' b = mac_listed s b)"
  using neighbor_create_result [OF assms(1) sys_invD(1,2) [OF assms(2)] assms(3,4)]
  by (auto simp: neighbor_created_def neighbors_kept_def neighbor_frame_def nh_frame_def split: if_splits)

theorem neighbor_create_effect_witness:
  "\<exists>a n. neighbor_node_find demo_env
     (snd (sai_fib_neighbor_create demo_env \<lparr>ne_rif_id = 302, ne_ip_address = Ip4 0x0A000005\<rparr>
        [SAI_NEIGHBOR_ATTR_DST_MAC_ADDRESS 0x77] demo_state))
     \<lparr>ne_rif_id = 302, ne_ip_address = Ip4 0x0A000005\<rparr> = Inr (a, n)"
proof -
  let ?n = "\<lparr>ne_rif_id = 302, ne_ip_address = Ip4 0x0A000005\<rparr>" and ?l = "[SAI_NEIGHBOR_ATTR_DST_MAC_ADDRESS 0x77]"
  have "fst (sai_fib_neighbor_create demo_env ?n ?l demo_state) = SAI_STATUS_SUCCESS" by code_simp
  with neighbor_create_effect [OF _ demo_state_sys demo_state_heap pair_eq, of ?n ?l] demo_util_ok
  show ?thesis by auto
qed

text \<open>
  C12: a creation fails in a way that is not defined when the FDB lookup of the egress port fails and
  the MAC list of its VLAN and address already exists: the new node was not put in the list, and the
  clean-up unlinks it from the list.
\<close>

theorem neighbor_create_undefined:
  assumes "util_ok (util e)" and "sys_inv e s" and "length (nh_heap s) + 1 < 2 ^ 32"
    and "sai_fib_neighbor_key_validate_and_fill (util e) s ne (sai_fib_neighbor_default_attr_set nh_zero)
      = (SAI_STATUS_SUCCESS, n1)"
    and "sai_fib_neighbor_info_fill e attrs True n1 s = (SAI_STATUS_SUCCESS, n2, fl, s1)"
    and "sai_fib_neighbor_node_create e n2 s1 = (Inr a, s2)" and "nh_at s2 a = Some n"
    and "rif_at s2 (nk_rif_id (nh_key n)) = Some rif" and "rif_type rif = SAI_ROUTER_INTERFACE_TYPE_VLAN"
    and "tree_get (neighbor_mac_tree s2) (rif_vlan_id rif, nh_mac_addr n) = Some L"
    and "fst (fst (get_fdb_entry_port (plat e) (rif_vlan_id rif) (nh_mac_addr n) (hw s2))) \<noteq> SAI_STATUS_SUCCESS"
  shows "fst (sai_fib_neighbor_create e ne attrs s) = UNDEFINED_BEHAVIOUR"
proof -
  from created_node_unlisted [OF assms(1) sys_invD(1) [OF assms(2)] assms(3-6)]
  have "fib_inv (util e) s2" "\<not> mac_listed s2 a" by simp_all
  from create_undefined [OF this(1) assms(7) this(2) assms(8-11)] assms(4-6) show ?thesis
    by (auto simp: sai_fib_neighbor_create_def)
qed

text \<open>The demo platform with an FDB that does not know the address, and a second neighbor with it.\<close>

definition demo_no_fdb :: "u64 l3_env" where
  "demo_no_fdb = demo_env\<lparr>plat := demo_platform\<lparr>get_fdb_entry_port := (\<lambda>v m h. ((SAI_STATUS_ADDR_NOT_FOUND, 0), h))\<rparr>\<rparr>"

definition demo_twin :: neighbor_entry where
  "demo_twin = \<lparr>ne_rif_id = 303, ne_ip_address = Ip4 0x0A000077\<rparr>"

definition demo_twin_attrs :: "neighbor_attr list" where
  "demo_twin_attrs = [SAI_NEIGHBOR_ATTR_DST_MAC_ADDRESS 0x0A0B0C0D0E0F]"

theorem neighbor_create_undefined_witness:
  "fst (sai_fib_neighbor_create demo_no_fdb demo_twin demo_twin_attrs demo_state) = UNDEFINED_BEHAVIOUR"
proof -
  let ?k = "sai_fib_neighbor_key_validate_and_fill demo_util demo_state demo_twin (sai_fib_neighbor_default_attr_set nh_zero)"
  let ?f = "sai_fib_neighbor_info_fill demo_no_fdb demo_twin_attrs True (snd ?k) demo_state"
  let ?c = "sai_fib_neighbor_node_create demo_no_fdb (fst (snd ?f)) (snd (snd (snd ?f)))"
  let ?s = "snd ?c"
  have u: "util demo_no_fdb = demo_util" by (simp add: demo_no_fdb_def)
  have k: "fst ?k = SAI_STATUS_SUCCESS" and f: "fst ?f = SAI_STATUS_SUCCESS" and c: "fst ?c = Inr 3"
    by code_simp+
  have "map_option (\<lambda>n. (nk_rif_id (nh_key n), nh_mac_addr n)) (nh_at ?s 3) = Some (303, 0x0A0B0C0D0E0F)"
    by code_simp
  then obtain n where n: "nh_at ?s 3 = Some n" "nk_rif_id (nh_key n) = 303" "nh_mac_addr n = 0x0A0B0C0D0E0F" by auto
  have "map_option (\<lambda>r. (rif_type r, rif_vlan_id r)) (rif_at ?s 303) = Some (SAI_ROUTER_INTERFACE_TYPE_VLAN, 10)"
    by code_simp
  then obtain rif where r: "rif_at ?s 303 = Some rif" "rif_type rif = SAI_ROUTER_INTERFACE_TYPE_VLAN"
    "rif_vlan_id rif = 10" by auto
  have L: "tree_get (neighbor_mac_tree ?s) (10, 0x0A0B0C0D0E0F) = Some [1]" by code_simp
  have sys: "sys_inv demo_no_fdb demo_state" using sys_inv_util [of demo_no_fdb demo_env demo_state] demo_state_sys by (simp add: u)
  show ?thesis
    by (rule neighbor_create_undefined [where rif = rif and L = "[1]" and n = n and s = demo_state
          and ne = demo_twin and ?n1.0 = "snd ?k" and ?n2.0 = "fst (snd ?f)" and fl = "fst (snd (snd ?f))"
          and ?s1.0 = "snd (snd (snd ?f))" and a = 3 and ?s2.0 = ?s, OF _ sys demo_state_heap])
      (use k f c n r L demo_util_ok in \<open>simp_all add: u prod_eq_iff demo_no_fdb_def\<close>)
qed

text \<open>
  C11: when the hardware layer never refuses a change of a neighbor, the callback with one single
  update, a learned FDB entry, moves exactly the neighbors that are listed for its VLAN and MAC address
  to the learned port: no neighbor is missed and no other node changes.
\<close>

theorem fdb_learn_moves_neighbors:
  assumes "sys_inv e s" and "neighbor_attr_accepting e" and "fdb_event upd = SAI_FDB_EVENT_LEARNED"
    and "fdb_port_id upd \<noteq> SAI_NULL_OBJECT_ID" and "tree_get (neighbor_mac_tree s) (fdb_key upd) = Some L"
    and "sai_neighbor_fdb_callback e [upd] s = (st, s')"
  shows "nh_at s' b =
    (if b \<in> set L then map_option (nh_port_id_update (\<lambda>_. fdb_port_id upd)) (nh_at s b) else nh_at s b)"
proof -
  have "distinct L" using mac_okD [OF fib_invD(11) [OF sys_invD(1) [OF assms(1)]] assms(5)] by simp
  moreover obtain st1 where "port_id_set_loop e (fdb_port_id upd) L SAI_STATUS_SUCCESS s = (st1, s')"
    using assms(3-6) by (auto simp: sai_neighbor_fdb_callback_def sai_fib_neighbor_port_id_set_def Let_def case_prod_unfold
        intro: pair_eq)
  ultimately show ?thesis using port_id_set_loop_accepting [OF assms(2)] by blast
qed

theorem fdb_learn_moves_neighbors_witness:
  "map_option nh_port_id (nh_at (snd (sai_neighbor_fdb_callback demo_env
     [\<lparr>fdb_event = SAI_FDB_EVENT_LEARNED, fdb_key = (10, 0x0A0B0C0D0E0F), fdb_port_id = 8\<rparr>] demo_state)) 1) = Some 8"
proof -
  let ?u = "\<lparr>fdb_event = SAI_FDB_EVENT_LEARNED, fdb_key = (10, 0x0A0B0C0D0E0F), fdb_port_id = 8\<rparr>"
  have L: "tree_get (neighbor_mac_tree demo_state) (fdb_key ?u) = Some [1]"
    and n: "map_option nh_port_id (nh_at demo_state 1) = Some 7" by code_simp+
  have acc: "neighbor_attr_accepting demo_env" by (simp add: neighbor_attr_accepting_def demo_env_def)
  from fdb_learn_moves_neighbors [OF demo_state_sys acc _ _ L pair_eq, of 1] n show ?thesis
    by (auto simp: option.map_comp comp_def)
qed

end
