(* ===== verification/Sai_Lib.thy ===== *)
theory Sai_Lib
  imports Sai_Types
begin

text \<open>
  What the components outside \<^verbatim>\<open>src/src/routing\<close> share: the state of a component together with the
  world outside it, the common library as a record of parameters with the behaviour it documents,
  attribute tables and their check, lists with a count and a buffer, and handles of trees.
\<close>

section \<open>A component and the world\<close>

text \<open>\<open>sw\<close> is the software state of the component, \<open>ext\<close> is everything outside the repository.\<close>

record ('d, 'h) comp =
  sw :: 'd
  ext :: 'h

definition ext_call :: "('h \<Rightarrow> 'a \<times> 'h) \<Rightarrow> ('d, 'h) comp \<Rightarrow> 'a \<times> ('d, 'h) comp" where
  "ext_call f s = (let (r, h) = f (ext s) in (r, s\<lparr>ext := h\<rparr>))"

definition upd_sw :: "('d \<Rightarrow> 'd) \<Rightarrow> ('d, 'h) comp \<Rightarrow> ('d, 'h) comp" where
  "upd_sw f s = s\<lparr>sw := f (sw s)\<rparr>"

lemma upd_sw_sel [simp]: "sw (upd_sw f s) = f (sw s)" "ext (upd_sw f s) = ext s"
  by (simp_all add: upd_sw_def)

lemma ext_call_sw: "ext_call f s = (r, s') \<Longrightarrow> sw s' = sw s"
  by (auto simp: ext_call_def split: prod.splits)

lemma sw_snd_ext_call [simp]: "sw (snd (ext_call f s)) = sw s"
  by (simp add: ext_call_def split: prod.splits)

section \<open>Attributes\<close>

text \<open>
  An attribute id is its name, or a number that no table names. The flags of a table entry are those
  of \<open>dn_sai_attribute_entry_t\<close>, in its order.
\<close>

type_synonym attr_id = "string + int"

datatype dn_sai_operations = SAI_OP_CREATE | SAI_OP_SET | SAI_OP_GET

record attr_entry =
  ae_id :: string
  ae_mandatory_for_create :: bool
  ae_valid_for_create :: bool
  ae_valid_for_set :: bool
  ae_valid_for_get :: bool
  ae_is_implemented :: bool
  ae_is_supported :: bool

definition attr_entry_of :: "string \<Rightarrow> bool \<Rightarrow> bool \<Rightarrow> bool \<Rightarrow> bool \<Rightarrow> bool \<Rightarrow> bool \<Rightarrow> attr_entry" where
  "attr_entry_of n m c s g i p =
     \<lparr>ae_id = n, ae_mandatory_for_create = m, ae_valid_for_create = c, ae_valid_for_set = s,
      ae_valid_for_get = g, ae_is_implemented = i, ae_is_supported = p\<rparr>"

fun valid_for :: "dn_sai_operations \<Rightarrow> attr_entry \<Rightarrow> bool" where
  "valid_for SAI_OP_CREATE a = ae_valid_for_create a"
| "valid_for SAI_OP_SET a = ae_valid_for_set a"
| "valid_for SAI_OP_GET a = ae_valid_for_get a"

text \<open>What an accepted list of attribute ids has: known ids, allowed for the operation, and, for a
  creation, every mandatory id.\<close>

definition attrs_accepted :: "attr_entry list \<Rightarrow> dn_sai_operations \<Rightarrow> attr_id list \<Rightarrow> bool" where
  "attrs_accepted tab opr ids \<longleftrightarrow>
     (\<forall>i \<in> set ids. \<exists>a \<in> set tab. i = Inl (ae_id a) \<and> valid_for opr a) \<and>
     (opr = SAI_OP_CREATE \<longrightarrow> (\<forall>a \<in> set tab. ae_mandatory_for_create a \<longrightarrow> Inl (ae_id a) \<in> set ids))"

lemma accepted_mandatory:
  "attrs_accepted tab SAI_OP_CREATE ids \<Longrightarrow> a \<in> set tab \<Longrightarrow> ae_mandatory_for_create a \<Longrightarrow> Inl (ae_id a) \<in> set ids"
  by (simp add: attrs_accepted_def)

lemma accepted_valid:
  "attrs_accepted tab opr ids \<Longrightarrow> i \<in> set ids \<Longrightarrow> \<exists>a \<in> set tab. i = Inl (ae_id a) \<and> valid_for opr a"
  by (simp add: attrs_accepted_def)

section \<open>The common library\<close>

record 'h sai_lib =
  lib_object_type :: "oid \<Rightarrow> sai_object_type"
  lib_uoid_create :: "sai_object_type \<Rightarrow> u64 \<Rightarrow> oid"
  lib_npu_obj_id :: "oid \<Rightarrow> u64"
  lib_indexed_ret_val :: "sai_status \<Rightarrow> nat \<Rightarrow> sai_status"
  lib_attribute_validate :: "attr_entry list \<Rightarrow> dn_sai_operations \<Rightarrow> attr_id list \<Rightarrow> sai_status"
  lib_calloc_ok :: "'h \<Rightarrow> bool \<times> 'h"
  lib_rbtree_create_ok :: "'h \<Rightarrow> bool \<times> 'h"
  lib_rbtree_insert_ok :: "'h \<Rightarrow> bool \<times> 'h"

text \<open>
  An object id carries its type and a 48 bit index; indexing a status neither makes nor hides an error;
  a list of attributes passes the check only when the table allows it.
\<close>

definition named_type :: "sai_object_type \<Rightarrow> bool" where
  "named_type ty \<longleftrightarrow> (case ty of SAI_OBJECT_TYPE _ \<Rightarrow> False | _ \<Rightarrow> True)"

definition lib_ok :: "'h sai_lib \<Rightarrow> bool" where
  "lib_ok l \<longleftrightarrow>
     (\<forall>ty i. named_type ty \<longrightarrow> lib_object_type l (lib_uoid_create l ty i) = ty) \<and>
     (\<forall>ty i. named_type ty \<longrightarrow> i < 2 ^ 48 \<longrightarrow> lib_npu_obj_id l (lib_uoid_create l ty i) = i) \<and>
     (\<forall>st i. lib_indexed_ret_val l st i = SAI_STATUS_SUCCESS \<longleftrightarrow> st = SAI_STATUS_SUCCESS) \<and>
     (\<forall>tab opr ids. lib_attribute_validate l tab opr ids = SAI_STATUS_SUCCESS \<longrightarrow> attrs_accepted tab opr ids)"

lemma lib_okD:
  assumes "lib_ok l"
  shows "named_type ty \<Longrightarrow> lib_object_type l (lib_uoid_create l ty i) = ty"
    and "lib_indexed_ret_val l st k = SAI_STATUS_SUCCESS \<longleftrightarrow> st = SAI_STATUS_SUCCESS"
    and "lib_attribute_validate l tab opr ids = SAI_STATUS_SUCCESS \<Longrightarrow> attrs_accepted tab opr ids"
    and "named_type ty \<Longrightarrow> i < 2 ^ 48 \<Longrightarrow> lib_npu_obj_id l (lib_uoid_create l ty i) = i"
  using assms unfolding lib_ok_def by blast+

text \<open>Insertion in a red-black tree: it may fail, and it never inserts a key a second time.\<close>

definition lib_insert_ok :: "'h sai_lib \<Rightarrow> ('k, 'v) tree \<Rightarrow> 'k \<Rightarrow> ('d, 'h) comp \<Rightarrow> bool \<times> ('d, 'h) comp" where
  "lib_insert_ok l t k s = (let (ok, s) = ext_call (lib_rbtree_insert_ok l) s in (ok \<and> tree_get t k = None, s))"

text \<open>The insertion fails only on a key that is in the tree.\<close>

definition insert_total :: "'h sai_lib \<Rightarrow> bool" where
  "insert_total l \<longleftrightarrow> (\<forall>h. fst (lib_rbtree_insert_ok l h))"

lemma lib_insert_okD:
  assumes "lib_insert_ok l t k s = (ok, s')"
  shows "sw s' = sw s \<and> (ok \<longrightarrow> tree_get t k = None) \<and> (insert_total l \<longrightarrow> ok = (tree_get t k = None))"
proof -
  have "fst (lib_rbtree_insert_ok l (ext s))" if "insert_total l" using that by (simp add: insert_total_def)
  then show ?thesis using assms by (auto simp: lib_insert_ok_def ext_call_def split: prod.splits)
qed

text \<open>The handle of a tree: not created, usable, or destroyed but still stored.\<close>

datatype tree_handle = TreeNull | TreeLive | TreeDestroyed

section \<open>Lists with a count\<close>

record 'a sai_list =
  sl_count :: u32
  sl_list :: "'a list option"

text \<open>\<open>memcpy\<close> of \<open>xs\<close> to the start of a buffer.\<close>

definition buf_write :: "'a list \<Rightarrow> 'a list \<Rightarrow> 'a list" where
  "buf_write xs buf = xs @ drop (length xs) buf"

lemma buf_write_full [simp]: "length xs = length buf \<Longrightarrow> buf_write xs buf = xs"
  by (simp add: buf_write_def)

lemma take_buf_write [simp]: "take (length xs) (buf_write xs buf) = xs"
  by (simp add: buf_write_def)

lemma length_buf_write: "length xs \<le> length buf \<Longrightarrow> length (buf_write xs buf) = length buf"
  by (simp add: buf_write_def)

text \<open>The elements the count covers.\<close>

definition sl_elems :: "'a sai_list \<Rightarrow> 'a list" where
  "sl_elems l = (case sl_list l of None \<Rightarrow> [] | Some xs \<Rightarrow> take (unat (sl_count l)) xs)"

text \<open>A buffer holds at least as many elements as its count says, as the caller of the API promises.\<close>

definition sl_ok :: "'a sai_list \<Rightarrow> bool" where
  "sl_ok l \<longleftrightarrow> (case sl_list l of None \<Rightarrow> True | Some xs \<Rightarrow> unat (sl_count l) \<le> length xs)"

end
