(* ===== verification/Udf_Base.thy ===== *)
theory Udf_Base
  imports Sai_Lib
begin

text \<open>
  The user defined field (UDF) component: its database (\<^verbatim>\<open>src/inc/sai_udf_api_utils.h\<close>), the
  attribute tables, lookups (\<^verbatim>\<open>src/src/udf/sai_udf_utils.c\<close>) and its initialisation.

  A UDF node is shared by pointer between the tree of UDFs and the list of its group, so it lives in a
  heap; so do the buffers of hash masks, which a temporary copy of a node shares with the node. A group
  is reached through the tree of groups, and a pointer to a group is its key.
\<close>

section \<open>Nodes\<close>

datatype sai_udf_group_type = SAI_UDF_GROUP_GENERIC | SAI_UDF_GROUP_HASH | SAI_UDF_GROUP_TYPE int
datatype sai_udf_base = SAI_UDF_BASE_L2 | SAI_UDF_BASE_L3 | SAI_UDF_BASE_L4 | SAI_UDF_BASE int

record udf_group =
  ug_group_obj_id :: oid
  ug_type :: sai_udf_group_type
  ug_length :: u16
  ug_udf_count :: u32
  ug_udf_list :: "addr list"

record udf_node =
  un_udf_obj_id :: oid
  un_match_obj_id :: oid
  un_p_udf_group :: "oid option"
  un_base :: sai_udf_base
  un_offset :: u16
  un_mask_count :: u32
  un_mask_list :: "addr option"

record dn_sai_udf_global_t =
  udf_group_tree :: "(oid, udf_group) tree"
  udf_obj_tree :: "(oid, addr) tree"
  udf_heap :: "(addr, udf_node) tree"
  mask_heap :: "(addr, u8 list) tree"
  udf_next_addr :: addr
  udf_group_handle :: tree_handle
  udf_obj_handle :: tree_handle
  udf_init_complete :: bool

type_synonym 'h udf_state = "(dn_sai_udf_global_t, 'h) comp"

section \<open>Attributes\<close>

datatype udf_group_attr =
    SAI_UDF_GROUP_ATTR_TYPE sai_udf_group_type
  | SAI_UDF_ATTR_LENGTH u16
  | SAI_UDF_GROUP_ATTR_UDF_LIST "oid sai_list"
  | UDF_GROUP_ATTR_UNKNOWN int

datatype udf_attr =
    SAI_UDF_ATTR_MATCH_ID oid
  | SAI_UDF_ATTR_GROUP_ID oid
  | SAI_UDF_ATTR_BASE sai_udf_base
  | SAI_UDF_ATTR_OFFSET u16
  | SAI_UDF_ATTR_HASH_MASK "u8 sai_list"
  | UDF_ATTR_UNKNOWN int

text \<open>The attributes of a match object are only handed through: an id and the bytes of the value.\<close>

type_synonym udf_match_attr = "attr_id \<times> u8 list"

fun udf_group_attr_id :: "udf_group_attr \<Rightarrow> attr_id" where
  "udf_group_attr_id (SAI_UDF_GROUP_ATTR_TYPE _) = Inl ''SAI_UDF_GROUP_ATTR_TYPE''"
| "udf_group_attr_id (SAI_UDF_ATTR_LENGTH _) = Inl ''SAI_UDF_ATTR_LENGTH''"
| "udf_group_attr_id (SAI_UDF_GROUP_ATTR_UDF_LIST _) = Inl ''SAI_UDF_GROUP_ATTR_UDF_LIST''"
| "udf_group_attr_id (UDF_GROUP_ATTR_UNKNOWN i) = Inr i"

fun udf_attr_id :: "udf_attr \<Rightarrow> attr_id" where
  "udf_attr_id (SAI_UDF_ATTR_MATCH_ID _) = Inl ''SAI_UDF_ATTR_MATCH_ID''"
| "udf_attr_id (SAI_UDF_ATTR_GROUP_ID _) = Inl ''SAI_UDF_ATTR_GROUP_ID''"
| "udf_attr_id (SAI_UDF_ATTR_BASE _) = Inl ''SAI_UDF_ATTR_BASE''"
| "udf_attr_id (SAI_UDF_ATTR_OFFSET _) = Inl ''SAI_UDF_ATTR_OFFSET''"
| "udf_attr_id (SAI_UDF_ATTR_HASH_MASK _) = Inl ''SAI_UDF_ATTR_HASH_MASK''"
| "udf_attr_id (UDF_ATTR_UNKNOWN i) = Inr i"

definition dn_sai_udf_group_attr :: "attr_entry list" where
  "dn_sai_udf_group_attr =
     [attr_entry_of ''SAI_UDF_GROUP_ATTR_TYPE'' False True False True True True,
      attr_entry_of ''SAI_UDF_ATTR_LENGTH'' True True False True True True,
      attr_entry_of ''SAI_UDF_GROUP_ATTR_UDF_LIST'' False False False True True True]"

definition dn_sai_udf_attr :: "attr_entry list" where
  "dn_sai_udf_attr =
     [attr_entry_of ''SAI_UDF_ATTR_MATCH_ID'' True True False True True True,
      attr_entry_of ''SAI_UDF_ATTR_GROUP_ID'' True True False True True True,
      attr_entry_of ''SAI_UDF_ATTR_BASE'' False True True True True True,
      attr_entry_of ''SAI_UDF_ATTR_OFFSET'' True True True True True True,
      attr_entry_of ''SAI_UDF_ATTR_HASH_MASK'' False True True True True True]"

definition dn_sai_udf_match_attr :: "attr_entry list" where
  "dn_sai_udf_match_attr =
     [attr_entry_of ''SAI_UDF_MATCH_ATTR_L2_TYPE'' False True False True True True,
      attr_entry_of ''SAI_UDF_MATCH_ATTR_L3_TYPE'' False True False True True True,
      attr_entry_of ''SAI_UDF_MATCH_ATTR_GRE_TYPE'' False True False True True True,
      attr_entry_of ''SAI_UDF_MATCH_ATTR_PRIORITY'' False True False True True True]"

definition dn_sai_udf_attr_table_get :: "sai_object_type \<Rightarrow> attr_entry list option" where
  "dn_sai_udf_attr_table_get obj_type =
     (if obj_type = SAI_OBJECT_TYPE_UDF then Some dn_sai_udf_attr
      else if obj_type = SAI_OBJECT_TYPE_UDF_GROUP then Some dn_sai_udf_group_attr
      else if obj_type = SAI_OBJECT_TYPE_UDF_MATCH then Some dn_sai_udf_match_attr
      else None)"

definition dn_sai_udf_attr_list_validate ::
    "'h sai_lib \<Rightarrow> sai_object_type \<Rightarrow> attr_id list \<Rightarrow> dn_sai_operations \<Rightarrow> sai_status" where
  "dn_sai_udf_attr_list_validate l obj_type ids op_type =
     (case dn_sai_udf_attr_table_get obj_type of
        None \<Rightarrow> SAI_STATUS_FAILURE
      | Some p_attr_table \<Rightarrow> lib_attribute_validate l p_attr_table op_type ids)"

section \<open>The hardware layer\<close>

text \<open>
  What the hardware layer is given of a UDF: the node, its group and the bytes of its mask, which it
  reaches through the pointers of the node.
\<close>

type_synonym udf_view = "udf_node \<times> udf_group option \<times> u8 list option"

record 'h udf_npu_api =
  npu_udf_init :: "'h \<Rightarrow> sai_status \<times> 'h"
  npu_udf_deinit :: "'h \<Rightarrow> unit \<times> 'h"
  npu_udf_group_create :: "udf_group \<Rightarrow> 'h \<Rightarrow> (sai_status \<times> u64) \<times> 'h"
  npu_udf_group_remove :: "udf_group \<Rightarrow> 'h \<Rightarrow> sai_status \<times> 'h"
  npu_udf_group_hw_id_get :: "udf_group \<Rightarrow> 'h \<Rightarrow> (sai_status \<times> u64) \<times> 'h"
  npu_udf_create :: "udf_view \<Rightarrow> 'h \<Rightarrow> (sai_status \<times> u64) \<times> 'h"
  npu_udf_remove :: "udf_view \<Rightarrow> 'h \<Rightarrow> sai_status \<times> 'h"
  npu_udf_attribute_set :: "udf_view \<Rightarrow> udf_attr \<Rightarrow> 'h \<Rightarrow> sai_status \<times> 'h"
  npu_udf_match_create :: "udf_match_attr list \<Rightarrow> 'h \<Rightarrow> (sai_status \<times> u64) \<times> 'h"
  npu_udf_match_remove :: "oid \<Rightarrow> 'h \<Rightarrow> sai_status \<times> 'h"
  npu_udf_match_attribute_get :: "oid \<Rightarrow> udf_match_attr list \<Rightarrow> 'h \<Rightarrow> (sai_status \<times> udf_match_attr list) \<times> 'h"

record 'h udf_env =
  ulib :: "'h sai_lib"
  udf_npu :: "'h udf_npu_api"
  SAI_UDF_DFLT_HASH_MASK_COUNT :: nat

section \<open>Lookups\<close>

definition udf_at :: "dn_sai_udf_global_t \<Rightarrow> addr \<Rightarrow> udf_node option" where
  "udf_at d a = tree_get (udf_heap d) a"

definition dn_sai_udf_node_get :: "dn_sai_udf_global_t \<Rightarrow> oid \<Rightarrow> addr option" where
  "dn_sai_udf_node_get d udf_id = tree_get (udf_obj_tree d) udf_id"

definition dn_sai_udf_group_node_get :: "dn_sai_udf_global_t \<Rightarrow> oid \<Rightarrow> udf_group option" where
  "dn_sai_udf_group_node_get d udf_group_id = tree_get (udf_group_tree d) udf_group_id"

definition dn_sai_udf_group_get_first_udf_node :: "udf_group \<Rightarrow> addr option" where
  "dn_sai_udf_group_get_first_udf_node g = (case ug_udf_list g of [] \<Rightarrow> None | a # _ \<Rightarrow> Some a)"

fun next_in :: "'a list \<Rightarrow> 'a \<Rightarrow> 'a option" where
  "next_in (x # y # ys) a = (if x = a then Some y else next_in (y # ys) a)"
| "next_in _ a = None"

definition dn_sai_udf_group_get_next_udf_node :: "udf_group \<Rightarrow> addr \<Rightarrow> addr option" where
  "dn_sai_udf_group_get_next_udf_node g a = next_in (ug_udf_list g) a"

text \<open>The group that a node points to, and the bytes of its mask.\<close>

definition group_of :: "dn_sai_udf_global_t \<Rightarrow> udf_node \<Rightarrow> udf_group option" where
  "group_of d n = Option.bind (un_p_udf_group n) (tree_get (udf_group_tree d))"

definition mask_of :: "dn_sai_udf_global_t \<Rightarrow> udf_node \<Rightarrow> u8 list option" where
  "mask_of d n = Option.bind (un_mask_list n) (tree_get (mask_heap d))"

definition view_of :: "dn_sai_udf_global_t \<Rightarrow> udf_node \<Rightarrow> udf_view" where
  "view_of d n = (n, group_of d n, mask_of d n)"

section \<open>Initialisation\<close>

definition udf_global_zero :: dn_sai_udf_global_t where
  "udf_global_zero =
     \<lparr>udf_group_tree = [], udf_obj_tree = [], udf_heap = [], mask_heap = [], udf_next_addr = 0,
      udf_group_handle = TreeNull, udf_obj_handle = TreeNull, udf_init_complete = False\<rparr>"

text \<open>Destroying a tree frees the tree and leaves its handle as it is.\<close>

definition group_tree_destroy :: "dn_sai_udf_global_t \<Rightarrow> dn_sai_udf_global_t" where
  "group_tree_destroy d = d\<lparr>udf_group_tree := [], udf_group_handle := TreeDestroyed\<rparr>"

definition obj_tree_destroy :: "dn_sai_udf_global_t \<Rightarrow> dn_sai_udf_global_t" where
  "obj_tree_destroy d = d\<lparr>udf_obj_tree := [], udf_obj_handle := TreeDestroyed\<rparr>"

definition sai_udf_deinit :: "'h udf_env \<Rightarrow> 'h udf_state \<Rightarrow> 'h udf_state" where
  "sai_udf_deinit e s =
     (let s = (if udf_init_complete (sw s) then snd (ext_call (npu_udf_deinit (udf_npu e)) s) else s);
          s = (if udf_group_handle (sw s) \<noteq> TreeNull then upd_sw group_tree_destroy s else s);
          s = (if udf_obj_handle (sw s) \<noteq> TreeNull then upd_sw obj_tree_destroy s else s)
      in upd_sw (\<lambda>d. d\<lparr>udf_init_complete := False\<rparr>) s)"

text \<open>The block of the initialisation; its caller cleans up when the status is an error.\<close>

definition udf_init_steps :: "'h udf_env \<Rightarrow> 'h udf_state \<Rightarrow> sai_status \<times> 'h udf_state" where
  "udf_init_steps e s =
     (let (ok, s) = ext_call (lib_rbtree_create_ok (ulib e)) s
      in if \<not> ok then (SAI_STATUS_UNINITIALIZED, s)
         else let s = upd_sw (\<lambda>d. d\<lparr>udf_group_handle := TreeLive\<rparr>) s;
                  (ok, s) = ext_call (lib_rbtree_create_ok (ulib e)) s
              in if \<not> ok then (SAI_STATUS_UNINITIALIZED, s)
                 else let s = upd_sw (\<lambda>d. d\<lparr>udf_obj_handle := TreeLive\<rparr>) s;
                          (status, s) = ext_call (npu_udf_init (udf_npu e)) s
                      in if status \<noteq> SAI_STATUS_SUCCESS then (status, s)
                         else (status, upd_sw (\<lambda>d. d\<lparr>udf_init_complete := True\<rparr>) s))"

definition sai_udf_init :: "'h udf_env \<Rightarrow> 'h udf_state \<Rightarrow> sai_status \<times> 'h udf_state" where
  "sai_udf_init e s =
     (if udf_init_complete (sw s) then (SAI_STATUS_SUCCESS, s)
      else let s = upd_sw (\<lambda>_. udf_global_zero) s;
               (status, s) = udf_init_steps e s
           in if status \<noteq> SAI_STATUS_SUCCESS then (status, sai_udf_deinit e s) else (status, s))"

end
