(* ===== verification/Udf_Api.thy ===== *)
theory Udf_Api
  imports Udf_Base
begin

text \<open>
  The operations of UDF groups (\<^verbatim>\<open>src/src/udf/sai_udf_group.c\<close>), of UDFs and of match objects
  (\<^verbatim>\<open>src/src/udf/sai_udf.c\<close>). The lock is taken and released around each body.
\<close>

section \<open>Groups\<close>

definition udf_group_zero :: udf_group where
  "udf_group_zero =
     \<lparr>ug_group_obj_id = 0, ug_type = SAI_UDF_GROUP_TYPE 0, ug_length = 0, ug_udf_count = 0, ug_udf_list = []\<rparr>"

definition dn_sai_udf_group_node_alloc :: "'h udf_env \<Rightarrow> 'h udf_state \<Rightarrow> udf_group option \<times> 'h udf_state" where
  "dn_sai_udf_group_node_alloc e s =
     (let (ok, s) = ext_call (lib_calloc_ok (ulib e)) s in (if ok then Some udf_group_zero else None, s))"

definition dn_sai_udf_group_init :: "udf_group \<Rightarrow> udf_group" where
  "dn_sai_udf_group_init g = g\<lparr>ug_type := SAI_UDF_GROUP_GENERIC, ug_udf_list := []\<rparr>"

definition dn_sai_udf_group_type_set :: "udf_group \<Rightarrow> sai_udf_group_type \<Rightarrow> sai_status \<times> udf_group" where
  "dn_sai_udf_group_type_set g ty =
     (if \<not> (ty = SAI_UDF_GROUP_GENERIC \<or> ty = SAI_UDF_GROUP_HASH) then (SAI_STATUS_INVALID_ATTR_VALUE_0, g)
      else (SAI_STATUS_SUCCESS, g\<lparr>ug_type := ty\<rparr>))"

definition dn_sai_udf_group_length_set :: "udf_group \<Rightarrow> u16 \<Rightarrow> sai_status \<times> udf_group" where
  "dn_sai_udf_group_length_set g n =
     (if n = 0 then (SAI_STATUS_INVALID_ATTR_VALUE_0, g) else (SAI_STATUS_SUCCESS, g\<lparr>ug_length := n\<rparr>))"

definition udf_group_attr_set_one :: "udf_group \<Rightarrow> udf_group_attr \<Rightarrow> sai_status \<times> udf_group" where
  "udf_group_attr_set_one g attr =
     (case attr of
        SAI_UDF_GROUP_ATTR_TYPE ty \<Rightarrow> dn_sai_udf_group_type_set g ty
      | SAI_UDF_ATTR_LENGTH n \<Rightarrow> dn_sai_udf_group_length_set g n
      | SAI_UDF_GROUP_ATTR_UDF_LIST _ \<Rightarrow> (SAI_STATUS_INVALID_ATTRIBUTE_0, g)
      | UDF_GROUP_ATTR_UNKNOWN _ \<Rightarrow> (SAI_STATUS_UNKNOWN_ATTRIBUTE_0, g))"

fun dn_sai_udf_group_attr_set ::
    "'h udf_env \<Rightarrow> nat \<Rightarrow> udf_group_attr list \<Rightarrow> udf_group \<Rightarrow> sai_status \<times> udf_group" where
  "dn_sai_udf_group_attr_set e idx [] g = (SAI_STATUS_SUCCESS, g)"
| "dn_sai_udf_group_attr_set e idx (attr # attrs) g =
     (let (status, g) = udf_group_attr_set_one g attr
      in if status \<noteq> SAI_STATUS_SUCCESS then (lib_indexed_ret_val (ulib e) status idx, g)
         else dn_sai_udf_group_attr_set e (idx + 1) attrs g)"

text \<open>
  The block of the creation: status, the hardware id that was assigned, and the node. A failed
  insertion leaves the block with the status of the hardware call.
\<close>

definition udf_group_create_steps ::
    "'h udf_env \<Rightarrow> udf_group_attr list \<Rightarrow> udf_group \<Rightarrow> 'h udf_state
     \<Rightarrow> sai_status \<times> u64 \<times> udf_group \<times> 'h udf_state" where
  "udf_group_create_steps e attrs g s =
     (let (status, g) = dn_sai_udf_group_attr_set e 0 attrs g
      in if status \<noteq> SAI_STATUS_SUCCESS then (status, 0, g, s)
         else let ((status, hw_id), s) = ext_call (npu_udf_group_create (udf_npu e) g) s
              in if status \<noteq> SAI_STATUS_SUCCESS then (status, hw_id, g, s)
                 else let gid = lib_uoid_create (ulib e) SAI_OBJECT_TYPE_UDF_GROUP hw_id;
                          g = g\<lparr>ug_group_obj_id := gid\<rparr>;
                          (ok, s) = lib_insert_ok (ulib e) (udf_group_tree (sw s)) gid s
                      in if \<not> ok then (status, hw_id, g, s)
                         else (status, hw_id, g,
                               upd_sw (\<lambda>d. d\<lparr>udf_group_tree := tree_put gid g (udf_group_tree d)\<rparr>) s))"

definition dn_sai_udf_group_create ::
    "'h udf_env \<Rightarrow> udf_group_attr list \<Rightarrow> 'h udf_state \<Rightarrow> sai_status \<times> oid option \<times> 'h udf_state" where
  "dn_sai_udf_group_create e attrs s =
     (let status = dn_sai_udf_attr_list_validate (ulib e) SAI_OBJECT_TYPE_UDF_GROUP
                     (map udf_group_attr_id attrs) SAI_OP_CREATE
      in if status \<noteq> SAI_STATUS_SUCCESS then (status, None, s)
         else let (p_udf_group, s) = dn_sai_udf_group_node_alloc e s
              in case p_udf_group of
                   None \<Rightarrow> (SAI_STATUS_NO_MEMORY, None, s)
                 | Some g \<Rightarrow>
                     (let (status, hw_id, g, s) =
                            udf_group_create_steps e attrs (dn_sai_udf_group_init g) s
                      in if status \<noteq> SAI_STATUS_SUCCESS
                         then (status, None,
                               if hw_id \<noteq> 0 then snd (ext_call (npu_udf_group_remove (udf_npu e) g) s) else s)
                         else (status, Some (ug_group_obj_id g), s)))"

text \<open>The block of the removal. The status it leaves is not what the caller returns.\<close>

definition udf_group_remove_steps :: "'h udf_env \<Rightarrow> oid \<Rightarrow> 'h udf_state \<Rightarrow> sai_status \<times> 'h udf_state" where
  "udf_group_remove_steps e udf_group_id s =
     (case dn_sai_udf_group_node_get (sw s) udf_group_id of
        None \<Rightarrow> (SAI_STATUS_INVALID_OBJECT_ID, s)
      | Some g \<Rightarrow>
          if ug_udf_count g \<noteq> 0 then (SAI_STATUS_OBJECT_IN_USE, s)
          else let s = upd_sw (\<lambda>d. d\<lparr>udf_group_tree := tree_del udf_group_id (udf_group_tree d)\<rparr>) s;
                   (status, s) = ext_call (npu_udf_group_remove (udf_npu e) g) s
               in if status \<noteq> SAI_STATUS_SUCCESS
                  then let (ok, s) = lib_insert_ok (ulib e) (udf_group_tree (sw s)) udf_group_id s
                       in (status,
                           if ok then upd_sw (\<lambda>d. d\<lparr>udf_group_tree := tree_put udf_group_id g (udf_group_tree d)\<rparr>) s
                           else s)
                  else (status, s))"

definition dn_sai_udf_group_remove :: "'h udf_env \<Rightarrow> oid \<Rightarrow> 'h udf_state \<Rightarrow> sai_status \<times> 'h udf_state" where
  "dn_sai_udf_group_remove e udf_group_id s =
     (if lib_object_type (ulib e) udf_group_id \<noteq> SAI_OBJECT_TYPE_UDF_GROUP
      then (SAI_STATUS_INVALID_OBJECT_TYPE, s)
      else let (status, s) = udf_group_remove_steps e udf_group_id s in (SAI_STATUS_SUCCESS, s))"

definition dn_sai_udf_group_set_attribute :: "oid \<Rightarrow> udf_group_attr \<Rightarrow> sai_status" where
  "dn_sai_udf_group_set_attribute udf_group_id attr = SAI_STATUS_NOT_SUPPORTED"

text \<open>The ids of the UDFs of a group in the order of its list.\<close>

definition udf_ids :: "dn_sai_udf_global_t \<Rightarrow> udf_group \<Rightarrow> oid list" where
  "udf_ids d g = map (\<lambda>a. case udf_at d a of Some n \<Rightarrow> un_udf_obj_id n | None \<Rightarrow> 0) (ug_udf_list g)"

definition dn_sai_udf_group_udf_list_fill ::
    "dn_sai_udf_global_t \<Rightarrow> udf_group \<Rightarrow> oid sai_list \<Rightarrow> sai_status \<times> oid sai_list" where
  "dn_sai_udf_group_udf_list_fill d g udf_list =
     (case sl_list udf_list of
        None \<Rightarrow> (SAI_STATUS_BUFFER_OVERFLOW, udf_list\<lparr>sl_count := ug_udf_count g\<rparr>)
      | Some buf \<Rightarrow>
          if ug_udf_count g > sl_count udf_list
          then (SAI_STATUS_BUFFER_OVERFLOW, udf_list\<lparr>sl_count := ug_udf_count g\<rparr>)
          else (SAI_STATUS_SUCCESS,
                \<lparr>sl_count = ug_udf_count g, sl_list = Some (buf_write (udf_ids d g) buf)\<rparr>))"

definition udf_group_attr_get_one ::
    "dn_sai_udf_global_t \<Rightarrow> udf_group \<Rightarrow> udf_group_attr \<Rightarrow> sai_status \<times> udf_group_attr" where
  "udf_group_attr_get_one d g attr =
     (case attr of
        SAI_UDF_GROUP_ATTR_TYPE _ \<Rightarrow> (SAI_STATUS_SUCCESS, SAI_UDF_GROUP_ATTR_TYPE (ug_type g))
      | SAI_UDF_ATTR_LENGTH _ \<Rightarrow> (SAI_STATUS_SUCCESS, SAI_UDF_ATTR_LENGTH (ug_length g))
      | SAI_UDF_GROUP_ATTR_UDF_LIST l \<Rightarrow>
          (let (status, l) = dn_sai_udf_group_udf_list_fill d g l in (status, SAI_UDF_GROUP_ATTR_UDF_LIST l))
      | UDF_GROUP_ATTR_UNKNOWN i \<Rightarrow> (SAI_STATUS_UNKNOWN_ATTRIBUTE_0, attr))"

text \<open>The list of attributes is filled in place; the loop stops at the first error.\<close>

fun dn_sai_udf_group_attr_get ::
    "'h udf_env \<Rightarrow> dn_sai_udf_global_t \<Rightarrow> nat \<Rightarrow> udf_group \<Rightarrow> udf_group_attr list
     \<Rightarrow> sai_status \<times> udf_group_attr list" where
  "dn_sai_udf_group_attr_get e d idx g [] = (SAI_STATUS_SUCCESS, [])"
| "dn_sai_udf_group_attr_get e d idx g (attr # attrs) =
     (let (status, attr) = udf_group_attr_get_one d g attr
      in if status \<noteq> SAI_STATUS_SUCCESS then (lib_indexed_ret_val (ulib e) status idx, attr # attrs)
         else let (status, attrs) = dn_sai_udf_group_attr_get e d (idx + 1) g attrs in (status, attr # attrs))"

definition dn_sai_udf_group_get_attribute ::
    "'h udf_env \<Rightarrow> oid \<Rightarrow> udf_group_attr list \<Rightarrow> 'h udf_state \<Rightarrow> sai_status \<times> udf_group_attr list" where
  "dn_sai_udf_group_get_attribute e udf_group_id attrs s =
     (if lib_object_type (ulib e) udf_group_id \<noteq> SAI_OBJECT_TYPE_UDF_GROUP
      then (SAI_STATUS_INVALID_OBJECT_TYPE, attrs)
      else case dn_sai_udf_group_node_get (sw s) udf_group_id of
             None \<Rightarrow> (SAI_STATUS_INVALID_OBJECT_ID, attrs)
           | Some g \<Rightarrow> dn_sai_udf_group_attr_get e (sw s) 0 g attrs)"

definition dn_sai_udf_group_hw_id_get ::
    "'h udf_env \<Rightarrow> oid \<Rightarrow> 'h udf_state \<Rightarrow> sai_status \<times> u64 option \<times> 'h udf_state" where
  "dn_sai_udf_group_hw_id_get e udf_group_id s =
     (if lib_object_type (ulib e) udf_group_id \<noteq> SAI_OBJECT_TYPE_UDF_GROUP
      then (SAI_STATUS_INVALID_OBJECT_TYPE, None, s)
      else case dn_sai_udf_group_node_get (sw s) udf_group_id of
             None \<Rightarrow> (SAI_STATUS_INVALID_OBJECT_ID, None, s)
           | Some g \<Rightarrow>
               (let ((status, hw_id), s) = ext_call (npu_udf_group_hw_id_get (udf_npu e) g) s
                in (status, Some hw_id, s)))"

definition dn_sai_udf_group_type_get ::
    "'h sai_lib \<Rightarrow> dn_sai_udf_global_t \<Rightarrow> oid \<Rightarrow> sai_status \<times> sai_udf_group_type option" where
  "dn_sai_udf_group_type_get l d udf_group_id =
     (if lib_object_type l udf_group_id \<noteq> SAI_OBJECT_TYPE_UDF_GROUP then (SAI_STATUS_INVALID_OBJECT_TYPE, None)
      else case dn_sai_udf_group_node_get d udf_group_id of
             None \<Rightarrow> (SAI_STATUS_INVALID_OBJECT_ID, None)
           | Some g \<Rightarrow> (SAI_STATUS_SUCCESS, Some (ug_type g)))"

section \<open>Hash masks\<close>

definition udf_node_zero :: udf_node where
  "udf_node_zero =
     \<lparr>un_udf_obj_id = 0, un_match_obj_id = 0, un_p_udf_group = None, un_base = SAI_UDF_BASE 0,
      un_offset = 0, un_mask_count = 0, un_mask_list = None\<rparr>"

text \<open>A node under creation is private to its call; it is in the heap once it is in the tree.\<close>

definition dn_sai_udf_node_alloc :: "'h udf_env \<Rightarrow> 'h udf_state \<Rightarrow> udf_node option \<times> 'h udf_state" where
  "dn_sai_udf_node_alloc e s =
     (let (ok, s) = ext_call (lib_calloc_ok (ulib e)) s in (if ok then Some udf_node_zero else None, s))"

definition mask_put :: "addr \<Rightarrow> u8 list \<Rightarrow> dn_sai_udf_global_t \<Rightarrow> dn_sai_udf_global_t" where
  "mask_put m bs d = d\<lparr>mask_heap := tree_put m bs (mask_heap d)\<rparr>"

definition dn_sai_udf_hash_mask_alloc :: "'h udf_env \<Rightarrow> nat \<Rightarrow> 'h udf_state \<Rightarrow> addr option \<times> 'h udf_state" where
  "dn_sai_udf_hash_mask_alloc e cnt s =
     (let (ok, s) = ext_call (lib_calloc_ok (ulib e)) s
      in if ok
         then (Some (udf_next_addr (sw s)),
               upd_sw (\<lambda>d. mask_put (udf_next_addr d) (replicate cnt 0) (d\<lparr>udf_next_addr := udf_next_addr d + 1\<rparr>)) s)
         else (None, s))"

definition mask_free :: "udf_node \<Rightarrow> dn_sai_udf_global_t \<Rightarrow> dn_sai_udf_global_t" where
  "mask_free n d =
     (case un_mask_list n of None \<Rightarrow> d | Some m \<Rightarrow> d\<lparr>mask_heap := tree_del m (mask_heap d)\<rparr>)"

text \<open>
  A node without a group does not get here: a group id is mandatory on creation. The code would follow
  a null pointer; the model answers \<open>SAI_STATUS_FAILURE\<close>.
\<close>

definition dn_sai_udf_default_hash_mask_fill ::
    "'h udf_env \<Rightarrow> udf_node \<Rightarrow> 'h udf_state \<Rightarrow> sai_status \<times> udf_node \<times> 'h udf_state" where
  "dn_sai_udf_default_hash_mask_fill e n s =
     (case group_of (sw s) n of
        None \<Rightarrow> (SAI_STATUS_FAILURE, n, s)
      | Some g \<Rightarrow>
          if ug_type g \<noteq> SAI_UDF_GROUP_HASH then (SAI_STATUS_SUCCESS, n, s)
          else let udf_length = unat (ug_length g);
                   (list, s) = dn_sai_udf_hash_mask_alloc e udf_length s
               in case list of
                    None \<Rightarrow> (SAI_STATUS_NO_MEMORY, n\<lparr>un_mask_list := None\<rparr>, s)
                  | Some m \<Rightarrow>
                      (SAI_STATUS_SUCCESS, n\<lparr>un_mask_list := Some m, un_mask_count := of_nat udf_length\<rparr>,
                       upd_sw (mask_put m (replicate udf_length 0xFF)) s))"

text \<open>\<open>memcpy\<close> of the caller's mask into the buffer of the node.\<close>

definition mask_copy :: "addr \<Rightarrow> u8 sai_list \<Rightarrow> dn_sai_udf_global_t \<Rightarrow> dn_sai_udf_global_t" where
  "mask_copy m msk d =
     (case tree_get (mask_heap d) m of
        None \<Rightarrow> d
      | Some buf \<Rightarrow> mask_put m (buf_write (sl_elems msk) buf) d)"

definition dn_sai_udf_hash_mask_set ::
    "'h udf_env \<Rightarrow> udf_node \<Rightarrow> u8 sai_list \<Rightarrow> 'h udf_state \<Rightarrow> sai_status \<times> udf_node \<times> 'h udf_state" where
  "dn_sai_udf_hash_mask_set e n hash_mask s =
     (case group_of (sw s) n of
        None \<Rightarrow> (SAI_STATUS_FAILURE, n, s)
      | Some g \<Rightarrow>
          if ug_type g \<noteq> SAI_UDF_GROUP_HASH then (SAI_STATUS_INVALID_ATTRIBUTE_0, n, s)
          else if sl_count hash_mask = 0 \<or> sl_list hash_mask = None then (SAI_STATUS_INVALID_ATTR_VALUE_0, n, s)
          else if ucast (ug_length g) \<noteq> sl_count hash_mask then (SAI_STATUS_INVALID_ATTR_VALUE_0, n, s)
          else let (list, s) =
                     (case un_mask_list n of
                        None \<Rightarrow> dn_sai_udf_hash_mask_alloc e (unat (sl_count hash_mask)) s
                      | Some m \<Rightarrow> (Some m, s))
               in case list of
                    None \<Rightarrow> (SAI_STATUS_NO_MEMORY, n, s)
                  | Some m \<Rightarrow>
                      (SAI_STATUS_SUCCESS, n\<lparr>un_mask_list := Some m, un_mask_count := sl_count hash_mask\<rparr>,
                       upd_sw (mask_copy m hash_mask) s))"

section \<open>UDF attributes\<close>

definition dn_sai_udf_match_id_set :: "'h udf_env \<Rightarrow> udf_node \<Rightarrow> oid \<Rightarrow> sai_status \<times> udf_node" where
  "dn_sai_udf_match_id_set e n i =
     (if lib_object_type (ulib e) i \<noteq> SAI_OBJECT_TYPE_UDF_MATCH then (SAI_STATUS_INVALID_ATTR_VALUE_0, n)
      else (SAI_STATUS_SUCCESS, n\<lparr>un_match_obj_id := i\<rparr>))"

definition dn_sai_udf_group_id_set ::
    "'h udf_env \<Rightarrow> dn_sai_udf_global_t \<Rightarrow> udf_node \<Rightarrow> oid \<Rightarrow> sai_status \<times> udf_node" where
  "dn_sai_udf_group_id_set e d n i =
     (if lib_object_type (ulib e) i \<noteq> SAI_OBJECT_TYPE_UDF_GROUP then (SAI_STATUS_INVALID_ATTR_VALUE_0, n)
      else case dn_sai_udf_group_node_get d i of
             None \<Rightarrow> (SAI_STATUS_INVALID_OBJECT_ID, n)
           | Some g \<Rightarrow> (SAI_STATUS_SUCCESS, n\<lparr>un_p_udf_group := Some i\<rparr>))"

definition dn_sai_udf_base_set :: "udf_node \<Rightarrow> sai_udf_base \<Rightarrow> sai_status \<times> udf_node" where
  "dn_sai_udf_base_set n b =
     (if \<not> (b = SAI_UDF_BASE_L2 \<or> b = SAI_UDF_BASE_L3 \<or> b = SAI_UDF_BASE_L4)
      then (SAI_STATUS_INVALID_ATTR_VALUE_0, n)
      else (SAI_STATUS_SUCCESS, n\<lparr>un_base := b\<rparr>))"

text \<open>
  The loop over the attributes: an error status, or the node and the hash mask that is set after the
  loop with the index of its attribute (the last one of the list).
\<close>

fun udf_attr_set_loop ::
    "'h udf_env \<Rightarrow> dn_sai_udf_global_t \<Rightarrow> nat \<Rightarrow> udf_attr list \<Rightarrow> udf_node \<times> (u8 sai_list \<times> nat) option
     \<Rightarrow> sai_status + udf_node \<times> (u8 sai_list \<times> nat) option" where
  "udf_attr_set_loop e d idx [] (n, msk) = Inr (n, msk)"
| "udf_attr_set_loop e d idx (attr # attrs) (n, msk) =
     (let (status, n, msk) =
            (case attr of
               SAI_UDF_ATTR_MATCH_ID i \<Rightarrow> (let (st, n) = dn_sai_udf_match_id_set e n i in (st, n, msk))
             | SAI_UDF_ATTR_GROUP_ID i \<Rightarrow> (let (st, n) = dn_sai_udf_group_id_set e d n i in (st, n, msk))
             | SAI_UDF_ATTR_BASE b \<Rightarrow> (let (st, n) = dn_sai_udf_base_set n b in (st, n, msk))
             | SAI_UDF_ATTR_OFFSET k \<Rightarrow> (SAI_STATUS_SUCCESS, n\<lparr>un_offset := k\<rparr>, msk)
             | SAI_UDF_ATTR_HASH_MASK m \<Rightarrow> (SAI_STATUS_SUCCESS, n, Some (m, idx))
             | UDF_ATTR_UNKNOWN _ \<Rightarrow> (SAI_STATUS_UNKNOWN_ATTRIBUTE_0, n, msk))
      in if status \<noteq> SAI_STATUS_SUCCESS then Inl (lib_indexed_ret_val (ulib e) status idx)
         else udf_attr_set_loop e d (idx + 1) attrs (n, msk))"

definition dn_sai_udf_attr_set ::
    "'h udf_env \<Rightarrow> udf_attr list \<Rightarrow> dn_sai_operations \<Rightarrow> udf_node \<Rightarrow> 'h udf_state
     \<Rightarrow> sai_status \<times> udf_node \<times> 'h udf_state" where
  "dn_sai_udf_attr_set e attrs op_type n s =
     (case udf_attr_set_loop e (sw s) 0 attrs (n, None) of
        Inl status \<Rightarrow> (status, n, s)
      | Inr (n, Some (msk, idx)) \<Rightarrow>
          (let (status, n, s) = dn_sai_udf_hash_mask_set e n msk s
           in (lib_indexed_ret_val (ulib e) status idx, n, s))
      | Inr (n, None) \<Rightarrow>
          if op_type = SAI_OP_CREATE then dn_sai_udf_default_hash_mask_fill e n s
          else (SAI_STATUS_SUCCESS, n, s))"

section \<open>UDFs\<close>

definition dn_sai_udf_group_udf_list_update :: "oid \<Rightarrow> addr \<Rightarrow> bool \<Rightarrow> dn_sai_udf_global_t \<Rightarrow> dn_sai_udf_global_t" where
  "dn_sai_udf_group_udf_list_update gid a is_add d =
     (case tree_get (udf_group_tree d) gid of
        None \<Rightarrow> d
      | Some g \<Rightarrow>
          (let g = (if is_add
                    then g\<lparr>ug_udf_list := ug_udf_list g @ [a], ug_udf_count := ug_udf_count g + 1\<rparr>
                    else g\<lparr>ug_udf_list := remove1 a (ug_udf_list g), ug_udf_count := ug_udf_count g - 1\<rparr>)
           in d\<lparr>udf_group_tree := tree_put gid g (udf_group_tree d)\<rparr>))"

text \<open>The list update follows the group pointer of a node.\<close>

definition udf_list_update :: "udf_node \<Rightarrow> addr \<Rightarrow> bool \<Rightarrow> dn_sai_udf_global_t \<Rightarrow> dn_sai_udf_global_t" where
  "udf_list_update n a is_add d =
     (case un_p_udf_group n of None \<Rightarrow> d | Some gid \<Rightarrow> dn_sai_udf_group_udf_list_update gid a is_add d)"

definition dn_sai_udf_node_init :: "udf_node \<Rightarrow> udf_node" where
  "dn_sai_udf_node_init n = n\<lparr>un_base := SAI_UDF_BASE_L2, un_p_udf_group := None\<rparr>"

text \<open>The inserted node gets its address, and joins the list of its group.\<close>

definition udf_insert :: "udf_node \<Rightarrow> dn_sai_udf_global_t \<Rightarrow> dn_sai_udf_global_t" where
  "udf_insert n d =
     (let a = udf_next_addr d;
          d = d\<lparr>udf_next_addr := a + 1, udf_heap := tree_put a n (udf_heap d),
                udf_obj_tree := tree_put (un_udf_obj_id n) a (udf_obj_tree d)\<rparr>
      in udf_list_update n a True d)"

definition udf_create_steps ::
    "'h udf_env \<Rightarrow> udf_attr list \<Rightarrow> udf_node \<Rightarrow> 'h udf_state \<Rightarrow> sai_status \<times> u64 \<times> udf_node \<times> 'h udf_state" where
  "udf_create_steps e attrs n s =
     (let (status, n, s) = dn_sai_udf_attr_set e attrs SAI_OP_CREATE n s
      in if status \<noteq> SAI_STATUS_SUCCESS then (status, 0, n, s)
         else let ((status, hw_id), s) = ext_call (npu_udf_create (udf_npu e) (view_of (sw s) n)) s
              in if status \<noteq> SAI_STATUS_SUCCESS then (status, hw_id, n, s)
                 else let uid = lib_uoid_create (ulib e) SAI_OBJECT_TYPE_UDF hw_id;
                          n = n\<lparr>un_udf_obj_id := uid\<rparr>;
                          (ok, s) = lib_insert_ok (ulib e) (udf_obj_tree (sw s)) uid s
                      in if \<not> ok then (status, hw_id, n, s)
                         else (status, hw_id, n, upd_sw (udf_insert n) s))"

definition dn_sai_udf_create ::
    "'h udf_env \<Rightarrow> udf_attr list \<Rightarrow> 'h udf_state \<Rightarrow> sai_status \<times> oid option \<times> 'h udf_state" where
  "dn_sai_udf_create e attrs s =
     (let status = dn_sai_udf_attr_list_validate (ulib e) SAI_OBJECT_TYPE_UDF (map udf_attr_id attrs) SAI_OP_CREATE
      in if status \<noteq> SAI_STATUS_SUCCESS then (status, None, s)
         else let (p_udf, s) = dn_sai_udf_node_alloc e s
              in case p_udf of
                   None \<Rightarrow> (SAI_STATUS_NO_MEMORY, None, s)
                 | Some n \<Rightarrow>
                     (let (status, hw_id, n, s) = udf_create_steps e attrs (dn_sai_udf_node_init n) s
                      in if status \<noteq> SAI_STATUS_SUCCESS
                         then (let s = (if hw_id \<noteq> 0
                                        then snd (ext_call (npu_udf_remove (udf_npu e) (view_of (sw s) n)) s) else s)
                               in (status, None, upd_sw (mask_free n) s))
                         else (status, Some (un_udf_obj_id n), s)))"

definition dn_sai_udf_node_free :: "addr \<Rightarrow> udf_node \<Rightarrow> dn_sai_udf_global_t \<Rightarrow> dn_sai_udf_global_t" where
  "dn_sai_udf_node_free a n d = (let d = mask_free n d in d\<lparr>udf_heap := tree_del a (udf_heap d)\<rparr>)"

definition udf_remove_steps :: "'h udf_env \<Rightarrow> oid \<Rightarrow> addr \<Rightarrow> udf_node \<Rightarrow> 'h udf_state \<Rightarrow> sai_status \<times> 'h udf_state" where
  "udf_remove_steps e udf_id a n s =
     (let s = upd_sw (\<lambda>d. d\<lparr>udf_obj_tree := tree_del udf_id (udf_obj_tree d)\<rparr>) s;
          (status, s) = ext_call (npu_udf_remove (udf_npu e) (view_of (sw s) n)) s
      in if status \<noteq> SAI_STATUS_SUCCESS
         then let (ok, s) = lib_insert_ok (ulib e) (udf_obj_tree (sw s)) udf_id s
              in (status,
                  if ok then upd_sw (\<lambda>d. d\<lparr>udf_obj_tree := tree_put udf_id a (udf_obj_tree d)\<rparr>) s else s)
         else (status, upd_sw (\<lambda>d. dn_sai_udf_node_free a n (udf_list_update n a False d)) s))"

definition dn_sai_udf_remove :: "'h udf_env \<Rightarrow> oid \<Rightarrow> 'h udf_state \<Rightarrow> sai_status \<times> 'h udf_state" where
  "dn_sai_udf_remove e udf_id s =
     (if lib_object_type (ulib e) udf_id \<noteq> SAI_OBJECT_TYPE_UDF then (SAI_STATUS_INVALID_OBJECT_TYPE, s)
      else case dn_sai_udf_node_get (sw s) udf_id of
             None \<Rightarrow> (SAI_STATUS_INVALID_OBJECT_ID, s)
           | Some a \<Rightarrow>
               (case udf_at (sw s) a of
                  None \<Rightarrow> (SAI_STATUS_INVALID_OBJECT_ID, s)
                | Some n \<Rightarrow> udf_remove_steps e udf_id a n s))"

text \<open>
  The temporary copy of the node shares the buffer of its mask; the copy replaces the node only when
  the hardware layer accepts it.
\<close>

definition dn_sai_udf_set_attribute :: "'h udf_env \<Rightarrow> oid \<Rightarrow> udf_attr \<Rightarrow> 'h udf_state \<Rightarrow> sai_status \<times> 'h udf_state" where
  "dn_sai_udf_set_attribute e udf_id attr s =
     (if lib_object_type (ulib e) udf_id \<noteq> SAI_OBJECT_TYPE_UDF then (SAI_STATUS_INVALID_OBJECT_TYPE, s)
      else let status = dn_sai_udf_attr_list_validate (ulib e) SAI_OBJECT_TYPE_UDF [udf_attr_id attr] SAI_OP_SET
           in if status \<noteq> SAI_STATUS_SUCCESS then (status, s)
              else case dn_sai_udf_node_get (sw s) udf_id of
                     None \<Rightarrow> (SAI_STATUS_INVALID_OBJECT_ID, s)
                   | Some a \<Rightarrow>
                       (case udf_at (sw s) a of
                          None \<Rightarrow> (SAI_STATUS_INVALID_OBJECT_ID, s)
                        | Some udf_obj_info \<Rightarrow>
                            (let (status, udf_obj_info, s) = dn_sai_udf_attr_set e [attr] SAI_OP_SET udf_obj_info s
                             in if status \<noteq> SAI_STATUS_SUCCESS then (status, s)
                                else let (status, s) =
                                           ext_call (npu_udf_attribute_set (udf_npu e) (view_of (sw s) udf_obj_info) attr) s
                                     in if status \<noteq> SAI_STATUS_SUCCESS then (status, s)
                                        else (status,
                                              upd_sw (\<lambda>d. d\<lparr>udf_heap := tree_put a udf_obj_info (udf_heap d)\<rparr>) s))))"

text \<open>
  The array of the default mask is initialised with two bytes \<open>0xFF\<close>; its size is a constant of another
  repository.
\<close>

definition dflt_hash_mask :: "nat \<Rightarrow> u8 list" where
  "dflt_hash_mask k = take k ([0xFF, 0xFF] @ replicate (k - 2) 0)"

definition dn_sai_udf_hash_mask_fill ::
    "'h udf_env \<Rightarrow> dn_sai_udf_global_t \<Rightarrow> udf_node \<Rightarrow> u8 sai_list \<Rightarrow> sai_status \<times> u8 sai_list" where
  "dn_sai_udf_hash_mask_fill e d n p_list_attr =
     (let (cnt, bytes) =
            (if un_mask_count n \<noteq> 0
             then (un_mask_count n, case mask_of d n of None \<Rightarrow> [] | Some bs \<Rightarrow> take (unat (un_mask_count n)) bs)
             else (of_nat (SAI_UDF_DFLT_HASH_MASK_COUNT e), dflt_hash_mask (SAI_UDF_DFLT_HASH_MASK_COUNT e)))
      in case sl_list p_list_attr of
           None \<Rightarrow> (SAI_STATUS_BUFFER_OVERFLOW, p_list_attr\<lparr>sl_count := cnt\<rparr>)
         | Some buf \<Rightarrow>
             if cnt > sl_count p_list_attr then (SAI_STATUS_BUFFER_OVERFLOW, p_list_attr\<lparr>sl_count := cnt\<rparr>)
             else (SAI_STATUS_SUCCESS, \<lparr>sl_count = cnt, sl_list = Some (buf_write bytes buf)\<rparr>))"

definition udf_attr_get_one ::
    "'h udf_env \<Rightarrow> dn_sai_udf_global_t \<Rightarrow> udf_node \<Rightarrow> udf_attr \<Rightarrow> sai_status \<times> udf_attr" where
  "udf_attr_get_one e d n attr =
     (case attr of
        SAI_UDF_ATTR_MATCH_ID _ \<Rightarrow> (SAI_STATUS_SUCCESS, SAI_UDF_ATTR_MATCH_ID (un_match_obj_id n))
      | SAI_UDF_ATTR_GROUP_ID _ \<Rightarrow>
          (SAI_STATUS_SUCCESS,
           SAI_UDF_ATTR_GROUP_ID (case group_of d n of None \<Rightarrow> 0 | Some g \<Rightarrow> ug_group_obj_id g))
      | SAI_UDF_ATTR_BASE _ \<Rightarrow> (SAI_STATUS_SUCCESS, SAI_UDF_ATTR_BASE (un_base n))
      | SAI_UDF_ATTR_OFFSET _ \<Rightarrow> (SAI_STATUS_SUCCESS, SAI_UDF_ATTR_OFFSET (un_offset n))
      | SAI_UDF_ATTR_HASH_MASK l \<Rightarrow>
          (let (status, l) = dn_sai_udf_hash_mask_fill e d n l in (status, SAI_UDF_ATTR_HASH_MASK l))
      | UDF_ATTR_UNKNOWN i \<Rightarrow> (SAI_STATUS_UNKNOWN_ATTRIBUTE_0, attr))"

fun dn_sai_udf_attr_get ::
    "'h udf_env \<Rightarrow> dn_sai_udf_global_t \<Rightarrow> nat \<Rightarrow> udf_node \<Rightarrow> udf_attr list \<Rightarrow> sai_status \<times> udf_attr list" where
  "dn_sai_udf_attr_get e d idx n [] = (SAI_STATUS_SUCCESS, [])"
| "dn_sai_udf_attr_get e d idx n (attr # attrs) =
     (let (status, attr) = udf_attr_get_one e d n attr
      in if status \<noteq> SAI_STATUS_SUCCESS then (lib_indexed_ret_val (ulib e) status idx, attr # attrs)
         else let (status, attrs) = dn_sai_udf_attr_get e d (idx + 1) n attrs in (status, attr # attrs))"

definition dn_sai_udf_get_attribute ::
    "'h udf_env \<Rightarrow> oid \<Rightarrow> udf_attr list \<Rightarrow> 'h udf_state \<Rightarrow> sai_status \<times> udf_attr list" where
  "dn_sai_udf_get_attribute e udf_id attrs s =
     (if lib_object_type (ulib e) udf_id \<noteq> SAI_OBJECT_TYPE_UDF then (SAI_STATUS_INVALID_OBJECT_TYPE, attrs)
      else case Option.bind (dn_sai_udf_node_get (sw s) udf_id) (udf_at (sw s)) of
             None \<Rightarrow> (SAI_STATUS_INVALID_OBJECT_ID, attrs)
           | Some n \<Rightarrow> dn_sai_udf_attr_get e (sw s) 0 n attrs)"

section \<open>Match objects\<close>

text \<open>The component keeps no state for a match object.\<close>

definition dn_sai_udf_match_create ::
    "'h udf_env \<Rightarrow> udf_match_attr list \<Rightarrow> 'h udf_state \<Rightarrow> sai_status \<times> oid option \<times> 'h udf_state" where
  "dn_sai_udf_match_create e attrs s =
     (let status = dn_sai_udf_attr_list_validate (ulib e) SAI_OBJECT_TYPE_UDF_MATCH (map fst attrs) SAI_OP_CREATE
      in if status \<noteq> SAI_STATUS_SUCCESS then (status, None, s)
         else let ((status, hw_id), s) = ext_call (npu_udf_match_create (udf_npu e) attrs) s
              in if status \<noteq> SAI_STATUS_SUCCESS then (status, None, s)
                 else (status, Some (lib_uoid_create (ulib e) SAI_OBJECT_TYPE_UDF_MATCH hw_id), s))"

definition dn_sai_udf_match_remove :: "'h udf_env \<Rightarrow> oid \<Rightarrow> 'h udf_state \<Rightarrow> sai_status \<times> 'h udf_state" where
  "dn_sai_udf_match_remove e udf_match_id s =
     (if lib_object_type (ulib e) udf_match_id \<noteq> SAI_OBJECT_TYPE_UDF_MATCH
      then (SAI_STATUS_INVALID_OBJECT_TYPE, s)
      else ext_call (npu_udf_match_remove (udf_npu e) udf_match_id) s)"

definition dn_sai_udf_match_set_attribute :: "oid \<Rightarrow> udf_match_attr \<Rightarrow> sai_status" where
  "dn_sai_udf_match_set_attribute udf_match_id attr = SAI_STATUS_NOT_SUPPORTED"

definition dn_sai_udf_match_get_attribute ::
    "'h udf_env \<Rightarrow> oid \<Rightarrow> udf_match_attr list \<Rightarrow> 'h udf_state \<Rightarrow> (sai_status \<times> udf_match_attr list) \<times> 'h udf_state" where
  "dn_sai_udf_match_get_attribute e udf_match_id attrs s =
     (if lib_object_type (ulib e) udf_match_id \<noteq> SAI_OBJECT_TYPE_UDF_MATCH
      then ((SAI_STATUS_INVALID_OBJECT_TYPE, attrs), s)
      else ext_call (npu_udf_match_attribute_get (udf_npu e) udf_match_id attrs) s)"

end
