(* ===== verification/Udf_Inv.thy ===== *)
theory Udf_Inv
  imports Udf_Api
begin

text \<open>
  The invariant of the UDF database, and the updates of one node, one group or one mask that keep it.
\<close>

section \<open>The invariant\<close>

text \<open>
  The mask of a UDF in a hash group has exactly the length of its group; other UDFs have no mask.
\<close>

definition mask_ok :: "dn_sai_udf_global_t \<Rightarrow> udf_group \<Rightarrow> udf_node \<Rightarrow> bool" where
  "mask_ok d g n \<longleftrightarrow>
     (if ug_type g = SAI_UDF_GROUP_HASH
      then un_mask_count n = ucast (ug_length g) \<and>
        (\<exists>bs. mask_of d n = Some bs \<and> length bs = unat (ug_length g))
      else un_mask_list n = None \<and> un_mask_count n = 0)"

definition group_ok :: "dn_sai_udf_global_t \<Rightarrow> oid \<Rightarrow> udf_group \<Rightarrow> bool" where
  "group_ok d i g \<longleftrightarrow>
     ug_group_obj_id g = i \<and> ug_length g \<noteq> 0 \<and> distinct (ug_udf_list g) \<and>
     ug_udf_count g = of_nat (length (ug_udf_list g)) \<and>
     (\<forall>a \<in> set (ug_udf_list g). \<exists>n. udf_at d a = Some n \<and> un_p_udf_group n = Some i)"

definition node_ok :: "dn_sai_udf_global_t \<Rightarrow> addr \<Rightarrow> udf_node \<Rightarrow> bool" where
  "node_ok d a n \<longleftrightarrow>
     (\<exists>i g. un_p_udf_group n = Some i \<and> tree_get (udf_group_tree d) i = Some g \<and> a \<in> set (ug_udf_list g) \<and>
        mask_ok d g n)"

definition mask_unused :: "dn_sai_udf_global_t \<Rightarrow> addr \<Rightarrow> bool" where
  "mask_unused d m \<longleftrightarrow> (\<forall>a n. udf_at d a = Some n \<longrightarrow> un_mask_list n \<noteq> Some m)"

definition udf_inv :: "dn_sai_udf_global_t \<Rightarrow> bool" where
  "udf_inv d \<longleftrightarrow>
     (\<forall>a \<ge> udf_next_addr d. udf_at d a = None \<and> tree_get (mask_heap d) a = None) \<and>
     (\<forall>i g. tree_get (udf_group_tree d) i = Some g \<longrightarrow> group_ok d i g) \<and>
     (\<forall>a n. udf_at d a = Some n \<longrightarrow> node_ok d a n) \<and>
     (\<forall>u a. tree_get (udf_obj_tree d) u = Some a \<longrightarrow> (\<exists>n. udf_at d a = Some n \<and> un_udf_obj_id n = u)) \<and>
     (\<forall>a b n k m. udf_at d a = Some n \<longrightarrow> udf_at d b = Some k \<longrightarrow> un_mask_list n = Some m \<longrightarrow>
        un_mask_list k = Some m \<longrightarrow> a = b)"

lemma udf_invD:
  assumes "udf_inv d"
  shows "udf_next_addr d \<le> a \<Longrightarrow> udf_at d a = None \<and> tree_get (mask_heap d) a = None"
    and "tree_get (udf_group_tree d) i = Some g \<Longrightarrow> group_ok d i g"
    and "udf_at d a = Some n \<Longrightarrow> node_ok d a n"
    and "tree_get (udf_obj_tree d) u = Some a \<Longrightarrow> \<exists>n. udf_at d a = Some n \<and> un_udf_obj_id n = u"
    and "udf_at d a = Some n \<Longrightarrow> udf_at d b = Some k \<Longrightarrow> un_mask_list n = Some m \<Longrightarrow> un_mask_list k = Some m \<Longrightarrow> a = b"
  using assms unfolding udf_inv_def by blast+

lemma udf_invI:
  assumes "\<And>a. udf_next_addr d \<le> a \<Longrightarrow> udf_at d a = None \<and> tree_get (mask_heap d) a = None"
    and "\<And>i g. tree_get (udf_group_tree d) i = Some g \<Longrightarrow> group_ok d i g"
    and "\<And>a n. udf_at d a = Some n \<Longrightarrow> node_ok d a n"
    and "\<And>u a. tree_get (udf_obj_tree d) u = Some a \<Longrightarrow> \<exists>n. udf_at d a = Some n \<and> un_udf_obj_id n = u"
    and "\<And>a b n k m. udf_at d a = Some n \<Longrightarrow> udf_at d b = Some k \<Longrightarrow> un_mask_list n = Some m \<Longrightarrow>
      un_mask_list k = Some m \<Longrightarrow> a = b"
  shows "udf_inv d"
  using assms unfolding udf_inv_def by blast

text \<open>What the parts of the invariant depend on.\<close>

lemma node_ok_cong:
  "udf_group_tree d' = udf_group_tree d \<Longrightarrow> mask_of d' n = mask_of d n \<Longrightarrow> node_ok d' a n = node_ok d a n"
  by (simp add: node_ok_def mask_ok_def)

lemma group_ok_cong: "udf_at d' = udf_at d \<Longrightarrow> group_ok d' i g = group_ok d i g"
  by (simp add: group_ok_def)

lemma mask_ok_cong: "mask_of d' n = mask_of d n \<Longrightarrow> mask_ok d' g n = mask_ok d g n"
  by (simp add: mask_ok_def)

lemma node_okI:
  "un_p_udf_group n = Some i \<Longrightarrow> tree_get (udf_group_tree d) i = Some g \<Longrightarrow> a \<in> set (ug_udf_list g) \<Longrightarrow>
    mask_ok d g n \<Longrightarrow> node_ok d a n"
  unfolding node_ok_def by blast

lemma node_okE:
  assumes "node_ok d a n"
  obtains i g where "un_p_udf_group n = Some i" "tree_get (udf_group_tree d) i = Some g" "a \<in> set (ug_udf_list g)"
    "mask_ok d g n"
  using assms unfolding node_ok_def by blast

lemma udf_at_cong: "udf_heap d' = udf_heap d \<Longrightarrow> udf_at d' = udf_at d"
  by (simp add: udf_at_def fun_eq_iff)

lemma udf_fresh: "udf_inv d \<Longrightarrow> udf_at d a = Some n \<Longrightarrow> a < udf_next_addr d"
  using udf_invD(1) [of d a] by (metis not_le option.distinct(1))

lemma mask_fresh: "udf_inv d \<Longrightarrow> tree_get (mask_heap d) a = Some bs \<Longrightarrow> a < udf_next_addr d"
  using udf_invD(1) [of d a] by (metis not_le option.distinct(1))

lemma node_mask_live: "node_ok d a n \<Longrightarrow> un_mask_list n = Some m \<Longrightarrow> \<exists>bs. tree_get (mask_heap d) m = Some bs"
  by (auto simp: node_ok_def mask_ok_def mask_of_def split: if_splits)

lemma mask_unused_fresh: "udf_inv d \<Longrightarrow> mask_unused d (udf_next_addr d)"
  unfolding mask_unused_def
  using udf_invD(1) [of d "udf_next_addr d"] udf_invD(3) node_mask_live by (metis order_refl option.distinct(1))

text \<open>The number of UDFs of a group, with fewer than 2^32 addresses ever used.\<close>

definition udf_small :: "dn_sai_udf_global_t \<Rightarrow> bool" where
  "udf_small d \<longleftrightarrow> udf_next_addr d < 2 ^ 32"

lemma group_list_length:
  assumes "udf_inv d" "tree_get (udf_group_tree d) i = Some g"
  shows "length (ug_udf_list g) \<le> udf_next_addr d"
proof -
  have g: "group_ok d i g" using udf_invD(2) [OF assms] .
  then have "set (ug_udf_list g) \<subseteq> {..< udf_next_addr d}" using udf_fresh [OF assms(1)] by (auto simp: group_ok_def)
  then have "card (set (ug_udf_list g)) \<le> udf_next_addr d" using card_mono [of "{..< udf_next_addr d}"] by simp
  then show ?thesis using g by (simp add: group_ok_def distinct_card)
qed

lemma udf_count_zero:
  assumes "udf_inv d" "udf_small d" "tree_get (udf_group_tree d) i = Some g"
  shows "ug_udf_count g = 0 \<longleftrightarrow> ug_udf_list g = []"
proof -
  have "length (ug_udf_list g) < 2 ^ 32" using group_list_length [OF assms(1,3)] assms(2) by (simp add: udf_small_def)
  then show ?thesis using udf_invD(2) [OF assms(1,3)] of_nat_u32_zero by (auto simp: group_ok_def)
qed

section \<open>Updates of masks\<close>

lemma mask_put_sel [simp]:
  "udf_heap (mask_put m bs d) = udf_heap d" "udf_group_tree (mask_put m bs d) = udf_group_tree d"
  "udf_obj_tree (mask_put m bs d) = udf_obj_tree d" "udf_next_addr (mask_put m bs d) = udf_next_addr d"
  "mask_heap (mask_put m bs d) = tree_put m bs (mask_heap d)" "udf_at (mask_put m bs d) a = udf_at d a"
  by (simp_all add: mask_put_def udf_at_def)

lemma mask_of_put:
  "mask_of (mask_put m bs d) n = (if un_mask_list n = Some m then Some bs else mask_of d n)"
  by (auto simp: mask_of_def split: option.splits bind_splits)

text \<open>Writing an unused or fresh buffer.\<close>

lemma inv_mask_put_unused:
  assumes inv: "udf_inv d" and un: "mask_unused d m" and lt: "m < udf_next_addr d"
  shows "udf_inv (mask_put m bs d)"
proof (rule udf_invI)
  have "mask_of (mask_put m bs d) n = mask_of d n" if "udf_at d a = Some n" for a n
    using un that by (auto simp: mask_of_put mask_unused_def)
  then show "node_ok (mask_put m bs d) a n" if "udf_at (mask_put m bs d) a = Some n" for a n
    using udf_invD(3) [OF inv, of a n] node_ok_cong [of "mask_put m bs d" d] that by simp
qed (use udf_invD [OF inv] lt in \<open>auto simp: group_ok_def\<close>)

lemma inv_next_addr:
  assumes "udf_inv d"
  shows "udf_inv (d\<lparr>udf_next_addr := udf_next_addr d + 1\<rparr>)"
  (is "udf_inv ?d")
proof (rule udf_invI)
  have at: "udf_at ?d = udf_at d" by (rule udf_at_cong) simp
  have mk: "mask_of ?d n = mask_of d n" for n by (simp add: mask_of_def)
  show "node_ok ?d a n" if "udf_at ?d a = Some n" for a n
    using udf_invD(3) [OF assms, of a n] node_ok_cong [OF _ mk] that at by simp
  show "group_ok ?d i g" if "tree_get (udf_group_tree ?d) i = Some g" for i g
    using udf_invD(2) [OF assms, of i g] group_ok_cong [OF at] that by simp
qed (use udf_invD [OF assms] in \<open>auto simp: udf_at_def\<close>)

text \<open>Overwriting the buffer of a node with as many bytes.\<close>

lemma inv_mask_put_same:
  assumes inv: "udf_inv d" and m: "tree_get (mask_heap d) m = Some old" and len: "length bs = length old"
  shows "udf_inv (mask_put m bs d)"
proof (rule udf_invI)
  have "mask_ok (mask_put m bs d) g n" if "mask_ok d g n" for g n
    using that m len by (auto simp: mask_ok_def mask_of_put) (auto simp: mask_of_def)
  then show "node_ok (mask_put m bs d) a n" if "udf_at (mask_put m bs d) a = Some n" for a n
    using udf_invD(3) [OF inv, of a n] that unfolding node_ok_def by auto
qed (use udf_invD [OF inv] m mask_fresh [OF inv m] in \<open>auto simp: group_ok_def\<close>)

lemma mask_free_sel [simp]:
  "udf_heap (mask_free n d) = udf_heap d" "udf_group_tree (mask_free n d) = udf_group_tree d"
  "udf_obj_tree (mask_free n d) = udf_obj_tree d" "udf_next_addr (mask_free n d) = udf_next_addr d"
  "udf_at (mask_free n d) a = udf_at d a"
  by (simp_all add: mask_free_def udf_at_def split: option.splits)

lemma mask_of_free: "un_mask_list k \<noteq> un_mask_list n \<Longrightarrow> mask_of (mask_free n d) k = mask_of d k"
  by (auto simp: mask_of_def mask_free_def split: option.splits bind_splits)

lemma inv_mask_free:
  assumes inv: "udf_inv d" and un: "\<forall>m. un_mask_list n = Some m \<longrightarrow> mask_unused d m"
  shows "udf_inv (mask_free n d)"
proof (rule udf_invI)
  fix a k
  assume a: "udf_at (mask_free n d) a = Some k"
  have "un_mask_list k \<noteq> un_mask_list n \<or> un_mask_list n = None"
    using un a by (cases "un_mask_list n") (auto simp: mask_unused_def)
  then have "mask_of (mask_free n d) k = mask_of d k"
    by (metis mask_free_def mask_of_free option.case(1))
  then show "node_ok (mask_free n d) a k"
    using udf_invD(3) [OF inv, of a k] node_ok_cong [of "mask_free n d" d] a by simp
next
  show "udf_at (mask_free n d) a = None \<and> tree_get (mask_heap (mask_free n d)) a = None"
    if "udf_next_addr (mask_free n d) \<le> a" for a
    using udf_invD(1) [OF inv, of a] that by (simp add: mask_free_def udf_at_def split: option.splits)
qed (use udf_invD [OF inv] in \<open>auto simp: group_ok_def\<close>)

section \<open>Updates of groups\<close>

lemma group_tree_upd_sel [simp]:
  "udf_at (d\<lparr>udf_group_tree := t\<rparr>) a = udf_at d a" "mask_of (d\<lparr>udf_group_tree := t\<rparr>) n = mask_of d n"
  by (simp_all add: udf_at_def mask_of_def)

lemma inv_group_put:
  assumes inv: "udf_inv d" and new: "tree_get (udf_group_tree d) i = None"
    and g: "ug_group_obj_id g = i" "ug_length g \<noteq> 0" "ug_udf_list g = []" "ug_udf_count g = 0"
  shows "udf_inv (d\<lparr>udf_group_tree := tree_put i g (udf_group_tree d)\<rparr>)"
proof (rule udf_invI)
  fix a n
  assume "udf_at (d\<lparr>udf_group_tree := tree_put i g (udf_group_tree d)\<rparr>) a = Some n"
  then have "node_ok d a n" using udf_invD(3) [OF inv] by simp
  then obtain j h where j: "un_p_udf_group n = Some j" "tree_get (udf_group_tree d) j = Some h"
    "a \<in> set (ug_udf_list h)" "mask_ok d h n" by (rule node_okE)
  then have "j \<noteq> i" using new by auto
  with j show "node_ok (d\<lparr>udf_group_tree := tree_put i g (udf_group_tree d)\<rparr>) a n"
    by (auto simp: node_ok_def mask_ok_def)
qed (use udf_invD [OF inv] g in \<open>auto simp: group_ok_def split: if_splits\<close>)

lemma inv_group_del:
  assumes inv: "udf_inv d" and i: "tree_get (udf_group_tree d) i = Some g" "ug_udf_list g = []"
  shows "udf_inv (d\<lparr>udf_group_tree := tree_del i (udf_group_tree d)\<rparr>)"
proof (rule udf_invI)
  fix a n
  assume "udf_at (d\<lparr>udf_group_tree := tree_del i (udf_group_tree d)\<rparr>) a = Some n"
  then have "node_ok d a n" using udf_invD(3) [OF inv] by simp
  then obtain j h where j: "un_p_udf_group n = Some j" "tree_get (udf_group_tree d) j = Some h"
    "a \<in> set (ug_udf_list h)" "mask_ok d h n" by (rule node_okE)
  then have "j \<noteq> i" using i by auto
  with j show "node_ok (d\<lparr>udf_group_tree := tree_del i (udf_group_tree d)\<rparr>) a n"
    by (auto simp: node_ok_def mask_ok_def)
qed (use udf_invD [OF inv] in \<open>auto simp: group_ok_def split: if_splits\<close>)

section \<open>Updates of nodes\<close>

text \<open>The attributes that neither the group nor the mask depends on.\<close>

lemma inv_node_attrs:
  assumes inv: "udf_inv d" and a: "udf_at d a = Some n"
    and n': "un_p_udf_group n' = un_p_udf_group n" "un_mask_list n' = un_mask_list n"
      "un_mask_count n' = un_mask_count n" "un_udf_obj_id n' = un_udf_obj_id n"
  shows "udf_inv (d\<lparr>udf_heap := tree_put a n' (udf_heap d)\<rparr>)" (is "udf_inv ?d")
proof (rule udf_invI)
  have at: "udf_at ?d b = (if b = a then Some n' else udf_at d b)" for b by (simp add: udf_at_def)
  have mk: "mask_of ?d k = mask_of d k" for k by (simp add: mask_of_def)
  show "group_ok ?d i g" if "tree_get (udf_group_tree ?d) i = Some g" for i g
    using udf_invD(2) [OF inv, of i g] that a n' by (auto simp: group_ok_def at)
  show "node_ok ?d b k" if "udf_at ?d b = Some k" for b k
    using that udf_invD(3) [OF inv a] udf_invD(3) [OF inv, of b k] n'
    by (auto simp: at node_ok_def mask_ok_def mk split: if_splits) (auto simp: mask_of_def)
  show "\<exists>n. udf_at ?d b = Some n \<and> un_udf_obj_id n = u" if "tree_get (udf_obj_tree ?d) u = Some b" for u b
    using udf_invD(4) [OF inv, of u b] that a n' by (auto simp: at)
  show "b = c" if "udf_at ?d b = Some x" "udf_at ?d c = Some y" "un_mask_list x = Some m" "un_mask_list y = Some m"
    for b c x y m
  proof -
    have old: "\<exists>k0. udf_at d e = Some k0 \<and> un_mask_list k0 = un_mask_list k" if "udf_at ?d e = Some k" for e k
      using that a n' by (auto simp: at split: if_splits)
    from old [OF that(1)] old [OF that(2)] that(3,4) show ?thesis using udf_invD(5) [OF inv] by metis
  qed
  show "udf_at ?d b = None \<and> tree_get (mask_heap ?d) b = None" if "udf_next_addr ?d \<le> b" for b
    using that udf_invD(1) [OF inv, of b] a by (auto simp: at)
qed

text \<open>The tree of ids: any of its entries may go, and a node may be entered under its id.\<close>

lemma obj_tree_upd_sel [simp]:
  "udf_at (d\<lparr>udf_obj_tree := t\<rparr>) = udf_at d" "mask_of (d\<lparr>udf_obj_tree := t\<rparr>) = mask_of d"
  by (simp_all add: udf_at_def mask_of_def fun_eq_iff)

lemma inv_obj_tree:
  assumes inv: "udf_inv d"
    and t: "\<And>u a. tree_get t u = Some a \<Longrightarrow> \<exists>n. udf_at d a = Some n \<and> un_udf_obj_id n = u"
  shows "udf_inv (d\<lparr>udf_obj_tree := t\<rparr>)" (is "udf_inv ?d")
proof (rule udf_invI)
  show "node_ok ?d a n" if "udf_at ?d a = Some n" for a n
    using udf_invD(3) [OF inv, of a n] node_ok_cong [of ?d d] that by simp
  show "group_ok ?d i g" if "tree_get (udf_group_tree ?d) i = Some g" for i g
    using udf_invD(2) [OF inv, of i g] group_ok_cong [of ?d d] that by simp
qed (use udf_invD [OF inv] t in auto)

section \<open>Joining and leaving a group\<close>

lemma list_update_tree:
  "tree_get (udf_group_tree (dn_sai_udf_group_udf_list_update i a add d)) j =
     (if j = i then map_option (\<lambda>g. if add
          then g\<lparr>ug_udf_list := ug_udf_list g @ [a], ug_udf_count := ug_udf_count g + 1\<rparr>
          else g\<lparr>ug_udf_list := remove1 a (ug_udf_list g), ug_udf_count := ug_udf_count g - 1\<rparr>)
        (tree_get (udf_group_tree d) i)
      else tree_get (udf_group_tree d) j)"
  by (simp add: dn_sai_udf_group_udf_list_update_def Let_def split: option.splits)

lemma list_update_sel [simp]:
  "udf_heap (dn_sai_udf_group_udf_list_update i a add d) = udf_heap d"
  "mask_heap (dn_sai_udf_group_udf_list_update i a add d) = mask_heap d"
  "udf_obj_tree (dn_sai_udf_group_udf_list_update i a add d) = udf_obj_tree d"
  "udf_next_addr (dn_sai_udf_group_udf_list_update i a add d) = udf_next_addr d"
  by (simp_all add: dn_sai_udf_group_udf_list_update_def Let_def split: option.splits)

lemma udf_insert_tree:
  assumes "un_p_udf_group n = Some i" "tree_get (udf_group_tree d) i = Some g"
  shows "tree_get (udf_group_tree (udf_insert n d)) j =
    (if j = i then Some (g\<lparr>ug_udf_list := ug_udf_list g @ [udf_next_addr d], ug_udf_count := ug_udf_count g + 1\<rparr>)
     else tree_get (udf_group_tree d) j)"
  using assms by (simp add: udf_insert_def Let_def udf_list_update_def list_update_tree)

lemma udf_insert_sel [simp]:
  "udf_heap (udf_insert n d) = tree_put (udf_next_addr d) n (udf_heap d)"
  "mask_heap (udf_insert n d) = mask_heap d"
  "udf_obj_tree (udf_insert n d) = tree_put (un_udf_obj_id n) (udf_next_addr d) (udf_obj_tree d)"
  "udf_next_addr (udf_insert n d) = udf_next_addr d + 1"
  by (simp_all add: udf_insert_def Let_def udf_list_update_def split: option.splits)

lemma inv_udf_insert:
  assumes inv: "udf_inv d" and i: "un_p_udf_group n = Some i" "tree_get (udf_group_tree d) i = Some g"
    and mk: "mask_ok d g n" and un: "\<forall>m. un_mask_list n = Some m \<longrightarrow> mask_unused d m"
  shows "udf_inv (udf_insert n d)" (is "udf_inv ?d")
proof (rule udf_invI)
  let ?a = "udf_next_addr d"
  note tr = udf_insert_tree [OF i]
  have fresh: "udf_at d ?a = None" using udf_invD(1) [OF inv, of ?a] by simp
  have at: "udf_at ?d b = (if b = ?a then Some n else udf_at d b)" for b by (simp add: udf_at_def)
  have mof: "mask_of ?d k = mask_of d k" for k by (simp add: mask_of_def)
  have new: "?a \<notin> set (ug_udf_list h)" if "tree_get (udf_group_tree d) j = Some h" for j h
    using udf_invD(2) [OF inv that] fresh by (auto simp: group_ok_def)
  show "group_ok ?d j h" if "tree_get (udf_group_tree ?d) j = Some h" for j h
    using that udf_invD(2) [OF inv i(2)] udf_invD(2) [OF inv, of j] new [OF i(2)] fresh i
    by (auto simp: tr group_ok_def at split: if_splits)
  show "node_ok ?d b k" if b: "udf_at ?d b = Some k" for b k
  proof (cases "b = ?a")
    case True
    then have "k = n" using b by (simp add: at)
    show ?thesis
      by (rule node_okI [where i = i]) (use True i mk \<open>k = n\<close> in \<open>auto simp: tr mask_ok_def mof\<close>)
  next
    case False
    then have "node_ok d b k" using b udf_invD(3) [OF inv] by (simp add: at)
    then obtain j h where j: "un_p_udf_group k = Some j" "tree_get (udf_group_tree d) j = Some h"
      "b \<in> set (ug_udf_list h)" "mask_ok d h k" by (rule node_okE)
    then show ?thesis
      using i by (cases "j = i") (auto simp: tr node_ok_def mask_ok_def mof)
  qed
  show "\<exists>n. udf_at ?d b = Some n \<and> un_udf_obj_id n = u" if "tree_get (udf_obj_tree ?d) u = Some b" for u b
    using that udf_invD(4) [OF inv, of u b] fresh by (auto simp: at split: if_splits)
  show "b = c" if "udf_at ?d b = Some x" "udf_at ?d c = Some y" "un_mask_list x = Some m" "un_mask_list y = Some m"
    for b c x y m
    using that un udf_invD(5) [OF inv] by (auto simp: at mask_unused_def split: if_splits)
  show "udf_at ?d b = None \<and> tree_get (mask_heap ?d) b = None" if "udf_next_addr ?d \<le> b" for b
    using that udf_invD(1) [OF inv, of b] by (auto simp: at)
qed

text \<open>The removal of a node that no id leads to any more.\<close>

definition udf_drop :: "addr \<Rightarrow> udf_node \<Rightarrow> dn_sai_udf_global_t \<Rightarrow> dn_sai_udf_global_t" where
  "udf_drop a n d = dn_sai_udf_node_free a n (udf_list_update n a False d)"

lemma udf_drop_sel:
  "udf_heap (udf_drop a n d) = tree_del a (udf_heap d)" "udf_obj_tree (udf_drop a n d) = udf_obj_tree d"
  "udf_next_addr (udf_drop a n d) = udf_next_addr d"
  "un_mask_list k \<noteq> un_mask_list n \<or> un_mask_list n = None \<Longrightarrow> mask_of (udf_drop a n d) k = mask_of d k"
  by (auto simp: udf_drop_def dn_sai_udf_node_free_def Let_def udf_list_update_def mask_free_def mask_of_def
      split: option.splits bind_splits)

lemma udf_drop_mask_heap: "tree_get (mask_heap d) b = None \<Longrightarrow> tree_get (mask_heap (udf_drop a n d)) b = None"
  by (auto simp: udf_drop_def dn_sai_udf_node_free_def Let_def udf_list_update_def mask_free_def split: option.splits)

lemma udf_drop_tree:
  assumes "un_p_udf_group n = Some i" "tree_get (udf_group_tree d) i = Some g"
  shows "tree_get (udf_group_tree (udf_drop a n d)) j =
    (if j = i then Some (g\<lparr>ug_udf_list := remove1 a (ug_udf_list g), ug_udf_count := ug_udf_count g - 1\<rparr>)
     else tree_get (udf_group_tree d) j)"
  using assms by (simp add: udf_drop_def dn_sai_udf_node_free_def Let_def udf_list_update_def list_update_tree)

lemma inv_udf_drop:
  assumes inv: "udf_inv d" and a: "udf_at d a = Some n" and no: "\<And>u. tree_get (udf_obj_tree d) u \<noteq> Some a"
  shows "udf_inv (udf_drop a n d)" (is "udf_inv ?d")
proof -
  obtain i g where i: "un_p_udf_group n = Some i" "tree_get (udf_group_tree d) i = Some g" "a \<in> set (ug_udf_list g)"
    "mask_ok d g n" by (rule node_okE [OF udf_invD(3) [OF inv a]])
  note tr = udf_drop_tree [OF i(1,2), of a]
  have at: "udf_at ?d b = (if b = a then None else udf_at d b)" for b by (simp add: udf_at_def udf_drop_sel)
  have mof: "mask_of ?d k = mask_of d k" if "udf_at ?d b = Some k" for b k
    by (rule udf_drop_sel(4)) (use that a udf_invD(5) [OF inv] in \<open>cases "un_mask_list n"; auto simp: at split: if_splits\<close>)
  have g: "group_ok d i g" by (rule udf_invD(2) [OF inv i(2)])
  have len: "Suc (length (remove1 a (ug_udf_list g))) = length (ug_udf_list g)"
    using i(3) by (simp add: length_remove1) (metis Suc_pred length_pos_if_in_set)
  have cnt: "ug_udf_count g - 1 = of_nat (length (remove1 a (ug_udf_list g)))"
    using g by (simp add: group_ok_def flip: len)
  have other: "a \<notin> set (ug_udf_list h)" if "tree_get (udf_group_tree d) j = Some h" "j \<noteq> i" for j h
    using udf_invD(2) [OF inv that(1)] that(2) a i(1) by (auto simp: group_ok_def)
  show ?thesis
  proof (rule udf_invI)
    show "group_ok ?d j h" if j: "tree_get (udf_group_tree ?d) j = Some h" for j h
    proof (cases "j = i")
      case True
      then have "h = g\<lparr>ug_udf_list := remove1 a (ug_udf_list g), ug_udf_count := ug_udf_count g - 1\<rparr>"
        using j by (simp add: tr)
      then show ?thesis using True g cnt by (auto simp: group_ok_def at)
    next
      case False
      then show ?thesis using j udf_invD(2) [OF inv, of j h] other [of j h] by (auto simp: tr group_ok_def at)
    qed
    show "node_ok ?d b k" if b: "udf_at ?d b = Some k" for b k
    proof -
      have ba: "b \<noteq> a" "udf_at d b = Some k" using b by (auto simp: at split: if_splits)
      obtain j h where j: "un_p_udf_group k = Some j" "tree_get (udf_group_tree d) j = Some h"
        "b \<in> set (ug_udf_list h)" "mask_ok d h k" by (rule node_okE [OF udf_invD(3) [OF inv ba(2)]])
      then show ?thesis
        using ba i by (cases "j = i") (auto simp: tr node_ok_def mask_ok_def mof [OF b])
    qed
    show "\<exists>n. udf_at ?d b = Some n \<and> un_udf_obj_id n = u" if "tree_get (udf_obj_tree ?d) u = Some b" for u b
      using that udf_invD(4) [OF inv, of u b] no [of u] by (auto simp: at udf_drop_sel)
    show "b = c" if "udf_at ?d b = Some x" "udf_at ?d c = Some y" "un_mask_list x = Some m" "un_mask_list y = Some m"
      for b c x y m
      using that udf_invD(5) [OF inv] by (auto simp: at split: if_splits)
    show "udf_at ?d b = None \<and> tree_get (mask_heap ?d) b = None" if "udf_next_addr ?d \<le> b" for b
      using that udf_invD(1) [OF inv, of b] udf_drop_mask_heap [of d b] by (auto simp: at udf_drop_sel)
  qed
qed

end
