(* ===== verification/Udf_Ops.thy ===== *)
theory Udf_Ops
  imports Udf_Inv
begin

text \<open>
  What each UDF operation does to the database, on success and on failure, and that it keeps the
  invariant. The results are stated on the tables a client of the API sees: a map from UDF ids to
  their attributes and a map from group ids to type, length and the ids of the group.
\<close>

section \<open>The tables a client sees\<close>

record udf_info =
  ui_match :: oid
  ui_group :: "oid option"
  ui_base :: sai_udf_base
  ui_offset :: u16
  ui_mask :: "u8 list option"

definition udf_info_of :: "dn_sai_udf_global_t \<Rightarrow> udf_node \<Rightarrow> udf_info" where
  "udf_info_of d n =
     \<lparr>ui_match = un_match_obj_id n, ui_group = un_p_udf_group n, ui_base = un_base n,
      ui_offset = un_offset n, ui_mask = mask_of d n\<rparr>"

definition udf_table :: "dn_sai_udf_global_t \<Rightarrow> oid \<Rightarrow> udf_info option" where
  "udf_table d u = map_option (udf_info_of d) (Option.bind (tree_get (udf_obj_tree d) u) (udf_at d))"

definition group_table :: "dn_sai_udf_global_t \<Rightarrow> oid \<Rightarrow> (sai_udf_group_type \<times> u16 \<times> oid list) option" where
  "group_table d i = map_option (\<lambda>g. (ug_type g, ug_length g, udf_ids d g)) (tree_get (udf_group_tree d) i)"

text \<open>Both tables are the same.\<close>

definition tables_same :: "dn_sai_udf_global_t \<Rightarrow> dn_sai_udf_global_t \<Rightarrow> bool" where
  "tables_same d d' \<longleftrightarrow> (\<forall>u. udf_table d' u = udf_table d u) \<and> (\<forall>i. group_table d' i = group_table d i)"

lemma tables_same_refl [simp]: "tables_same d d"
  by (simp add: tables_same_def)

lemma udf_ids_cong: "udf_at d' = udf_at d \<Longrightarrow> udf_ids d' g = udf_ids d g"
  by (simp add: udf_ids_def)

text \<open>A buffer that no node uses is not in the tables.\<close>

lemma tables_same_unused:
  assumes "udf_at d' = udf_at d" "udf_obj_tree d' = udf_obj_tree d" "udf_group_tree d' = udf_group_tree d"
    and "\<And>a n. udf_at d a = Some n \<Longrightarrow> mask_of d' n = mask_of d n"
  shows "tables_same d d'"
proof -
  have "udf_table d' u = udf_table d u" for u
  proof (cases "Option.bind (tree_get (udf_obj_tree d) u) (udf_at d)")
    case (Some n)
    then obtain a where "udf_at d a = Some n" by (auto simp: bind_eq_Some_conv)
    then show ?thesis using Some assms by (simp add: udf_table_def udf_info_of_def)
  qed (simp add: udf_table_def assms)
  moreover have "group_table d' i = group_table d i" for i
    by (simp add: group_table_def assms(3) udf_ids_cong [OF assms(1)])
  ultimately show ?thesis by (simp add: tables_same_def)
qed

section \<open>Attributes\<close>

lemma unat_length_u32 [simp]: "unat (ucast (k :: u16) :: u32) = unat k"
  by (simp add: unsigned_ucast_eq take_bit_nat_eq_self unsigned_less [THEN order_less_le_trans])

lemma udf_attr_set_loop_result:
  "udf_attr_set_loop e d idx attrs (n, mk) = Inr (n', mk') \<Longrightarrow>
    un_mask_list n' = un_mask_list n \<and> un_mask_count n' = un_mask_count n \<and> un_udf_obj_id n' = un_udf_obj_id n \<and>
    ((\<exists>i g. un_p_udf_group n' = Some i \<and> tree_get (udf_group_tree d) i = Some g) \<or>
     (un_p_udf_group n' = un_p_udf_group n \<and> (\<forall>i. SAI_UDF_ATTR_GROUP_ID i \<notin> set attrs)))"
proof (induction attrs arbitrary: idx n mk)
  case (Cons attr attrs)
  from Cons.prems show ?case
    by (cases attr)
      (auto simp: dn_sai_udf_match_id_set_def dn_sai_udf_group_id_set_def dn_sai_udf_base_set_def
        dn_sai_udf_group_node_get_def Let_def split: if_splits option.splits dest!: Cons.IH)
qed simp

lemma udf_attr_set_loop_mask:
  "udf_attr_set_loop e d idx attrs (n, mk) = Inr (n', Some (m, k)) \<Longrightarrow>
    mk = Some (m, k) \<or> SAI_UDF_ATTR_HASH_MASK m \<in> set attrs"
proof (induction attrs arbitrary: idx n mk)
  case (Cons attr attrs)
  from Cons.prems show ?case
    by (cases attr) (auto simp: Let_def split: if_splits prod.splits dest!: Cons.IH)
qed simp

text \<open>A fresh buffer.\<close>

definition mask_new :: "u8 list \<Rightarrow> dn_sai_udf_global_t \<Rightarrow> dn_sai_udf_global_t" where
  "mask_new bs d = mask_put (udf_next_addr d) bs (d\<lparr>udf_next_addr := udf_next_addr d + 1\<rparr>)"

lemma mask_new_sel [simp]:
  "udf_heap (mask_new bs d) = udf_heap d" "udf_group_tree (mask_new bs d) = udf_group_tree d"
  "udf_obj_tree (mask_new bs d) = udf_obj_tree d" "udf_next_addr (mask_new bs d) = udf_next_addr d + 1"
  "mask_heap (mask_new bs d) = tree_put (udf_next_addr d) bs (mask_heap d)" "udf_at (mask_new bs d) a = udf_at d a"
  by (simp_all add: mask_new_def udf_at_def)

lemma mask_put_new [simp]: "mask_put (udf_next_addr d) cs (mask_new bs d) = mask_new cs d"
  by (simp add: mask_new_def mask_put_def)

lemma inv_mask_new: "udf_inv d \<Longrightarrow> udf_inv (mask_new bs d)"
  unfolding mask_new_def
  by (rule inv_mask_put_unused) (auto dest: inv_next_addr mask_unused_fresh simp: mask_unused_def udf_at_def)

lemma mask_of_new: "mask_of (mask_new bs d) n = (if un_mask_list n = Some (udf_next_addr d) then Some bs else mask_of d n)"
  by (simp add: mask_new_def mask_of_put) (simp add: mask_of_def)

lemma mask_alloc_result:
  "dn_sai_udf_hash_mask_alloc e k s = (r, s') \<Longrightarrow>
    (r = None \<and> sw s' = sw s) \<or> (r = Some (udf_next_addr (sw s)) \<and> sw s' = mask_new (replicate k 0) (sw s))"
  by (auto simp: dn_sai_udf_hash_mask_alloc_def mask_new_def dest!: ext_call_sw split: prod.splits if_splits)

lemma length_sl_elems: "length (sl_elems l) \<le> unat (sl_count l)"
  by (simp add: sl_elems_def split: option.splits)

text \<open>Setting a mask on a node without one allocates it, on a node with one overwrites it.\<close>

lemma hash_mask_set_result:
  assumes "dn_sai_udf_hash_mask_set e n mk s = (st, n', s')"
  shows "if st = SAI_STATUS_SUCCESS
    then \<exists>g m. group_of (sw s) n = Some g \<and> ug_type g = SAI_UDF_GROUP_HASH \<and>
        sl_count mk = ucast (ug_length g) \<and>
        n' = n\<lparr>un_mask_list := Some m, un_mask_count := sl_count mk\<rparr> \<and>
        (case un_mask_list n of
           None \<Rightarrow> m = udf_next_addr (sw s) \<and>
             sw s' = mask_new (buf_write (sl_elems mk) (replicate (unat (ug_length g)) 0)) (sw s)
         | Some k \<Rightarrow> m = k \<and> sw s' = mask_copy k mk (sw s))
    else n' = n \<and> sw s' = sw s"
proof (cases "group_of (sw s) n")
  case None
  then show ?thesis using assms by (simp add: dn_sai_udf_hash_mask_set_def)
next
  case (Some g)
  have copy: "mask_copy (udf_next_addr d) mk (mask_new bs d) = mask_new (buf_write (sl_elems mk) bs) d" for bs d
    by (simp add: mask_copy_def)
  have len: "ucast (ug_length g) = sl_count mk \<Longrightarrow> unat (ug_length g) = unat (sl_count mk)"
    by (metis unat_length_u32)
  from assms Some show ?thesis
    by (cases "un_mask_list n")
      (auto simp: dn_sai_udf_hash_mask_set_def copy len split: if_splits prod.splits option.splits
        dest!: mask_alloc_result)
qed

lemma default_mask_result:
  assumes "dn_sai_udf_default_hash_mask_fill e n s = (st, n', s')" "un_mask_list n = None"
  shows "if st = SAI_STATUS_SUCCESS
    then \<exists>g. group_of (sw s) n = Some g \<and>
        (if ug_type g = SAI_UDF_GROUP_HASH
         then n' = n\<lparr>un_mask_list := Some (udf_next_addr (sw s)), un_mask_count := ucast (ug_length g)\<rparr> \<and>
           sw s' = mask_new (replicate (unat (ug_length g)) 0xFF) (sw s)
         else n' = n \<and> sw s' = sw s)
    else n' = n \<and> sw s' = sw s"
  using assms
  by (auto simp: dn_sai_udf_default_hash_mask_fill_def Let_def of_nat_unat split: if_splits prod.splits option.splits
      dest!: mask_alloc_result)

text \<open>The node of a creation: its group, its mask, and what became of the database.\<close>

definition node_made :: "dn_sai_udf_global_t \<Rightarrow> udf_node \<Rightarrow> dn_sai_udf_global_t \<Rightarrow> bool" where
  "node_made d n d' \<longleftrightarrow>
     (\<exists>i g. un_p_udf_group n = Some i \<and> tree_get (udf_group_tree d) i = Some g \<and> mask_ok d' g n) \<and>
     (d' = d \<and> un_mask_list n = None \<or> (\<exists>bs. d' = mask_new bs d \<and> un_mask_list n = Some (udf_next_addr d)))"

lemma attr_set_create:
  assumes ok: "lib_ok (ulib e)" and gid: "\<exists>i. SAI_UDF_ATTR_GROUP_ID i \<in> set attrs"
    and n: "un_mask_list n = None" "un_mask_count n = 0"
    and r: "dn_sai_udf_attr_set e attrs SAI_OP_CREATE n s = (st, n', s')"
  shows "if st = SAI_STATUS_SUCCESS then node_made (sw s) n' (sw s')
    else un_mask_list n' = None \<and> sw s' = sw s"
proof (cases "udf_attr_set_loop e (sw s) 0 attrs (n, None)")
  case (Inl status)
  have "status \<noteq> SAI_STATUS_SUCCESS"
    if "udf_attr_set_loop e (sw s) idx attrs (n, mk) = Inl status" for idx attrs n mk status
    using that
    by (induction attrs arbitrary: idx n mk) (auto simp: Let_def lib_okD(2) [OF ok] split: if_splits prod.splits)
  with Inl r n show ?thesis by (simp add: dn_sai_udf_attr_set_def)
next
  case (Inr p)
  obtain k mk where p: "p = (k, mk)" by force
  from udf_attr_set_loop_result [OF Inr [unfolded p]] gid n obtain i g where
    k: "un_mask_list k = None" "un_mask_count k = 0" "un_p_udf_group k = Some i"
      "tree_get (udf_group_tree (sw s)) i = Some g" by auto
  then have g: "group_of (sw s) k = Some g" by (simp add: group_of_def)
  show ?thesis
  proof (cases mk)
    case None
    then have d: "dn_sai_udf_default_hash_mask_fill e k s = (st, n', s')"
      using r Inr p by (simp add: dn_sai_udf_attr_set_def)
    from default_mask_result [OF d k(1)] g k show ?thesis
      by (auto simp: node_made_def mask_ok_def mask_of_new split: if_splits)
  next
    case (Some q)
    obtain m idx where q: "q = (m, idx)" by force
    obtain st0 where d: "dn_sai_udf_hash_mask_set e k m s = (st0, n', s')" "st = lib_indexed_ret_val (ulib e) st0 idx"
      using r Inr p Some q by (auto simp: dn_sai_udf_attr_set_def split: prod.splits)
    have l: "length (buf_write (sl_elems m) (replicate (unat (ug_length g)) (0::u8))) = unat (ug_length g)"
      if "sl_count m = ucast (ug_length g)"
      using length_sl_elems [of m] that by (simp add: length_buf_write)
    from hash_mask_set_result [OF d(1)] g k l d(2) show ?thesis
      by (auto simp: node_made_def mask_ok_def mask_of_new lib_okD(2) [OF ok] split: if_splits)
  qed
qed

section \<open>The tables after a node joins or leaves\<close>

lemma udf_table_insert:
  assumes inv: "udf_inv d" and i: "un_p_udf_group n = Some i" "tree_get (udf_group_tree d) i = Some g"
  shows "udf_table (udf_insert n d) = (udf_table d)(un_udf_obj_id n \<mapsto> udf_info_of d n)"
proof
  fix u
  have fresh: "udf_at d (udf_next_addr d) = None" using udf_invD(1) [OF inv] by simp
  have "mask_of (udf_insert n d) = mask_of d" by (simp add: mask_of_def fun_eq_iff)
  then have info: "udf_info_of (udf_insert n d) = udf_info_of d" by (simp add: udf_info_of_def fun_eq_iff)
  have at: "udf_at (udf_insert n d) b = (if b = udf_next_addr d then Some n else udf_at d b)" for b
    by (simp add: udf_at_def)
  have "b \<noteq> udf_next_addr d" if "tree_get (udf_obj_tree d) u = Some b" for b
    using udf_invD(4) [OF inv that] fresh by auto
  then show "udf_table (udf_insert n d) u = ((udf_table d)(un_udf_obj_id n \<mapsto> udf_info_of d n)) u"
    by (cases "tree_get (udf_obj_tree d) u") (auto simp: udf_table_def info at)
qed

lemma group_table_insert:
  assumes inv: "udf_inv d" and i: "un_p_udf_group n = Some i" "tree_get (udf_group_tree d) i = Some g"
  shows "group_table (udf_insert n d) =
    (group_table d)(i \<mapsto> (ug_type g, ug_length g, udf_ids d g @ [un_udf_obj_id n]))"
proof
  fix j
  have fresh: "udf_at d (udf_next_addr d) = None" using udf_invD(1) [OF inv] by simp
  have at: "udf_at (udf_insert n d) b = (if b = udf_next_addr d then Some n else udf_at d b)" for b
    by (simp add: udf_at_def)
  have new: "udf_next_addr d \<notin> set (ug_udf_list h)" if "tree_get (udf_group_tree d) j = Some h" for j h
    using udf_invD(2) [OF inv that] fresh by (auto simp: group_ok_def)
  have ids: "udf_ids (udf_insert n d) h = udf_ids d h" if "tree_get (udf_group_tree d) j = Some h" for j h
    using new [OF that] by (auto simp: udf_ids_def at)
  show "group_table (udf_insert n d) j =
      ((group_table d)(i \<mapsto> (ug_type g, ug_length g, udf_ids d g @ [un_udf_obj_id n]))) j"
    using ids [OF i(2)] ids [of j]
    by (cases "tree_get (udf_group_tree d) j") (auto simp: group_table_def udf_insert_tree [OF i] udf_ids_def at)
qed

lemma udf_table_drop:
  assumes inv: "udf_inv d" and a: "udf_at d a = Some n" and no: "\<And>u. tree_get (udf_obj_tree d) u \<noteq> Some a"
  shows "udf_table (udf_drop a n d) = udf_table d"
proof
  fix u
  have "udf_info_of (udf_drop a n d) k = udf_info_of d k" if "udf_at d b = Some k" "b \<noteq> a" for b k
  proof -
    have "un_mask_list k \<noteq> un_mask_list n \<or> un_mask_list n = None"
      using udf_invD(5) [OF inv a that(1)] that(2) by (cases "un_mask_list n") auto
    then show ?thesis by (simp add: udf_info_of_def udf_drop_sel)
  qed
  moreover have "udf_at (udf_drop a n d) b = udf_at d b" if "b \<noteq> a" for b
    using that by (simp add: udf_at_def udf_drop_sel)
  ultimately show "udf_table (udf_drop a n d) u = udf_table d u"
    using no [of u]
    by (cases "tree_get (udf_obj_tree d) u"; cases "udf_at d (the (tree_get (udf_obj_tree d) u))")
      (auto simp: udf_table_def udf_drop_sel)
qed

lemma mset_map_remove1: "a \<in> set xs \<Longrightarrow> mset (map f (remove1 a xs)) = mset (map f xs) - {#f a#}"
  by (simp add: image_mset_Diff)

lemma group_table_drop:
  assumes inv: "udf_inv d" and a: "udf_at d a = Some n"
    and i: "un_p_udf_group n = Some i" "tree_get (udf_group_tree d) i = Some g"
  shows "\<exists>ids. group_table (udf_drop a n d) = (group_table d)(i \<mapsto> (ug_type g, ug_length g, ids)) \<and>
    mset ids = mset (udf_ids d g) - {#un_udf_obj_id n#}"
proof -
  let ?ids = "map (\<lambda>a. case udf_at d a of Some n \<Rightarrow> un_udf_obj_id n | None \<Rightarrow> 0) (remove1 a (ug_udf_list g))"
  have g: "group_ok d i g" by (rule udf_invD(2) [OF inv i(2)])
  have ag: "a \<in> set (ug_udf_list g)" using udf_invD(3) [OF inv a] i by (auto elim!: node_okE)
  have at: "udf_at (udf_drop a n d) b = (if b = a then None else udf_at d b)" for b
    by (simp add: udf_at_def udf_drop_sel)
  have other: "a \<notin> set (ug_udf_list h)" if "tree_get (udf_group_tree d) j = Some h" "j \<noteq> i" for j h
    using udf_invD(2) [OF inv that(1)] that(2) a i(1) by (auto simp: group_ok_def)
  have "a \<notin> set (remove1 a (ug_udf_list g))" using g by (simp add: group_ok_def)
  then have ids: "udf_ids (udf_drop a n d) (g\<lparr>ug_udf_list := remove1 a (ug_udf_list g), ug_udf_count := c\<rparr>) = ?ids" for c
    by (auto simp: udf_ids_def at)
  have "udf_ids (udf_drop a n d) h = udf_ids d h" if "tree_get (udf_group_tree d) j = Some h" "j \<noteq> i" for j h
    using other [OF that] by (auto simp: udf_ids_def at)
  then have "group_table (udf_drop a n d) j = ((group_table d)(i \<mapsto> (ug_type g, ug_length g, ?ids))) j" for j
    by (cases "tree_get (udf_group_tree d) j") (auto simp: group_table_def udf_drop_tree [OF i] ids)
  moreover have "mset ?ids = mset (udf_ids d g) - {#un_udf_obj_id n#}"
    using mset_map_remove1 [OF ag, of "\<lambda>a. case udf_at d a of Some n \<Rightarrow> un_udf_obj_id n | None \<Rightarrow> 0"] a
    by (simp only: udf_ids_def option.case)
  ultimately show ?thesis by blast
qed

section \<open>Groups\<close>

lemma group_attr_set_result:
  assumes "lib_ok (ulib e)" "dn_sai_udf_group_attr_set e idx attrs g = (st, g')"
  shows "ug_udf_list g' = ug_udf_list g \<and> ug_udf_count g' = ug_udf_count g \<and>
    (ug_type g \<in> {SAI_UDF_GROUP_GENERIC, SAI_UDF_GROUP_HASH} \<longrightarrow>
       ug_type g' \<in> {SAI_UDF_GROUP_GENERIC, SAI_UDF_GROUP_HASH}) \<and>
    (st = SAI_STATUS_SUCCESS \<longrightarrow>
       (\<forall>n. SAI_UDF_ATTR_LENGTH n \<in> set attrs \<longrightarrow> ug_length g' \<noteq> 0) \<and> (ug_length g \<noteq> 0 \<longrightarrow> ug_length g' \<noteq> 0))"
  using assms(2)
proof (induction attrs arbitrary: idx g)
  case (Cons attr attrs)
  obtain st1 g1 where 1: "udf_group_attr_set_one g attr = (st1, g1)" by force
  then have g1: "ug_udf_list g1 = ug_udf_list g" "ug_udf_count g1 = ug_udf_count g"
    "ug_type g \<in> {SAI_UDF_GROUP_GENERIC, SAI_UDF_GROUP_HASH} \<longrightarrow> ug_type g1 \<in> {SAI_UDF_GROUP_GENERIC, SAI_UDF_GROUP_HASH}"
    "st1 = SAI_STATUS_SUCCESS \<longrightarrow> (\<forall>n. attr = SAI_UDF_ATTR_LENGTH n \<longrightarrow> ug_length g1 \<noteq> 0) \<and> (ug_length g \<noteq> 0 \<longrightarrow> ug_length g1 \<noteq> 0)"
    by (auto simp: udf_group_attr_set_one_def dn_sai_udf_group_type_set_def dn_sai_udf_group_length_set_def
        split: udf_group_attr.splits if_splits)
  show ?case
  proof (cases "st1 = SAI_STATUS_SUCCESS")
    case True
    then have "dn_sai_udf_group_attr_set e (idx + 1) attrs g1 = (st, g')" using 1 Cons.prems by simp
    from Cons.IH [OF this] True g1 show ?thesis by auto
  next
    case False
    then have "st \<noteq> SAI_STATUS_SUCCESS" "g' = g1" using 1 Cons.prems lib_okD(2) [OF assms(1)] by auto
    then show ?thesis using g1 by simp
  qed
qed simp

lemma group_create_accepted:
  assumes "lib_ok (ulib e)"
    and "dn_sai_udf_attr_list_validate (ulib e) SAI_OBJECT_TYPE_UDF_GROUP (map udf_group_attr_id attrs) SAI_OP_CREATE
      = SAI_STATUS_SUCCESS"
  shows "\<exists>n. SAI_UDF_ATTR_LENGTH n \<in> set attrs"
proof -
  have "attrs_accepted dn_sai_udf_group_attr SAI_OP_CREATE (map udf_group_attr_id attrs)"
    using assms lib_okD(3) [OF assms(1)] by (simp add: dn_sai_udf_attr_list_validate_def dn_sai_udf_attr_table_get_def)
  from accepted_mandatory [OF this, of "dn_sai_udf_group_attr ! 1"]
  have "Inl ''SAI_UDF_ATTR_LENGTH'' \<in> set (map udf_group_attr_id attrs)"
    by (simp add: dn_sai_udf_group_attr_def attr_entry_of_def)
  then obtain a where a: "a \<in> set attrs" "udf_group_attr_id a = Inl ''SAI_UDF_ATTR_LENGTH''" by auto
  show ?thesis by (cases a; use a in auto)
qed

text \<open>A group that was created: it is new and has no UDF.\<close>

definition group_added :: "dn_sai_udf_global_t \<Rightarrow> oid \<Rightarrow> dn_sai_udf_global_t \<Rightarrow> bool" where
  "group_added d i d' \<longleftrightarrow>
     (\<exists>g. tree_get (udf_group_tree d) i = None \<and> ug_group_obj_id g = i \<and> ug_length g \<noteq> 0 \<and>
        ug_type g \<in> {SAI_UDF_GROUP_GENERIC, SAI_UDF_GROUP_HASH} \<and> ug_udf_list g = [] \<and> ug_udf_count g = 0 \<and>
        d' = d\<lparr>udf_group_tree := tree_put i g (udf_group_tree d)\<rparr>)"

lemma udf_group_create_result:
  assumes ok: "lib_ok (ulib e)" and r: "dn_sai_udf_group_create e attrs s = (st, out, s')"
  shows "if st = SAI_STATUS_SUCCESS
    then \<exists>i. out = Some i \<and>
      (group_added (sw s) i (sw s') \<or>
       (sw s' = sw s \<and> (insert_total (ulib e) \<longrightarrow> tree_get (udf_group_tree (sw s)) i \<noteq> None)))
    else out = None \<and> sw s' = sw s"
proof (cases "dn_sai_udf_attr_list_validate (ulib e) SAI_OBJECT_TYPE_UDF_GROUP (map udf_group_attr_id attrs) SAI_OP_CREATE
      = SAI_STATUS_SUCCESS")
  case False
  then show ?thesis using r by (auto simp: dn_sai_udf_group_create_def)
next
  case True
  let ?g = "dn_sai_udf_group_init udf_group_zero"
  obtain k where k: "SAI_UDF_ATTR_LENGTH k \<in> set attrs" using group_create_accepted [OF ok True] by blast
  obtain st1 g1 where g1: "dn_sai_udf_group_attr_set e 0 attrs ?g = (st1, g1)" by force
  from group_attr_set_result [OF ok this] k have g: "ug_udf_list g1 = []" "ug_udf_count g1 = 0"
    "ug_type g1 \<in> {SAI_UDF_GROUP_GENERIC, SAI_UDF_GROUP_HASH}" "st1 = SAI_STATUS_SUCCESS \<longrightarrow> ug_length g1 \<noteq> 0"
    by (auto simp: dn_sai_udf_group_init_def udf_group_zero_def)
  have add: "group_added d i (d\<lparr>udf_group_tree := tree_put i (g1\<lparr>ug_group_obj_id := i\<rparr>) (udf_group_tree d)\<rparr>)"
    if "st1 = SAI_STATUS_SUCCESS" "tree_get (udf_group_tree d) i = None" for d i
    unfolding group_added_def by (rule exI [where x = "g1\<lparr>ug_group_obj_id := i\<rparr>"]) (use that g in simp)
  from r True g1 show ?thesis
    by (auto simp: dn_sai_udf_group_create_def dn_sai_udf_group_node_alloc_def udf_group_create_steps_def Let_def
        split: if_splits prod.splits option.splits
        dest!: ext_call_sw lib_insert_okD intro!: add)
qed

lemma udf_group_create_inv:
  assumes "lib_ok (ulib e)" "udf_inv (sw s)" "dn_sai_udf_group_create e attrs s = (st, out, s')"
  shows "udf_inv (sw s')"
proof -
  from udf_group_create_result [OF assms(1,3)] consider "sw s' = sw s" | i where "group_added (sw s) i (sw s')"
    by (auto split: if_splits)
  then show ?thesis
  proof cases
    case (2 i)
    then show ?thesis using inv_group_put [OF assms(2)] by (auto simp: group_added_def)
  qed (simp add: assms(2))
qed

end
