(* ===== verification/Udf_Results.thy ===== *)
theory Udf_Results
  imports Udf_Ops
begin

text \<open>
  The results of removing groups, and of creating, removing and changing UDFs.
\<close>

section \<open>Removing a group\<close>

lemma group_put_back:
  assumes "tree_get t i = Some g"
  shows "tree_get (tree_put i g (tree_del i t)) j = tree_get t j"
  using assms by simp

text \<open>A group leaves the tree only when it has no UDF.\<close>

definition group_gone :: "dn_sai_udf_global_t \<Rightarrow> oid \<Rightarrow> dn_sai_udf_global_t \<Rightarrow> bool" where
  "group_gone d i d' \<longleftrightarrow>
     (\<exists>g. tree_get (udf_group_tree d) i = Some g \<and> ug_udf_count g = 0) \<and>
     d' = d\<lparr>udf_group_tree := tree_del i (udf_group_tree d)\<rparr>"

text \<open>The same database but for the layout of the tree of groups.\<close>

definition groups_same :: "dn_sai_udf_global_t \<Rightarrow> dn_sai_udf_global_t \<Rightarrow> bool" where
  "groups_same d d' \<longleftrightarrow>
     (\<exists>t. d' = d\<lparr>udf_group_tree := t\<rparr> \<and> (\<forall>j. tree_get t j = tree_get (udf_group_tree d) j))"

lemma groups_same_refl [simp]: "groups_same d d"
  unfolding groups_same_def by (rule exI [where x = "udf_group_tree d"]) simp

lemma groups_same_tables: "groups_same d d' \<Longrightarrow> tables_same d d'"
proof -
  assume "groups_same d d'"
  then obtain t where t: "d' = d\<lparr>udf_group_tree := t\<rparr>" "\<And>j. tree_get t j = tree_get (udf_group_tree d) j"
    by (auto simp: groups_same_def)
  have at: "udf_at d' = udf_at d" using t by (simp add: fun_eq_iff)
  have mk: "udf_info_of d' = udf_info_of d" using t by (simp add: udf_info_of_def fun_eq_iff)
  show ?thesis
    by (simp add: tables_same_def udf_table_def group_table_def udf_ids_cong [OF at] at mk) (simp add: t)
qed

lemma groups_same_inv: "udf_inv d \<Longrightarrow> groups_same d d' \<Longrightarrow> udf_inv d'"
proof -
  assume inv: "udf_inv d" and "groups_same d d'"
  then obtain t where t: "d' = d\<lparr>udf_group_tree := t\<rparr>" "\<And>j. tree_get t j = tree_get (udf_group_tree d) j"
    by (auto simp: groups_same_def)
  have "node_ok d' a n = node_ok d a n" "group_ok d' i g = group_ok d i g" for a n i g
    by (simp_all add: t node_ok_def mask_ok_def group_ok_def)
  then show ?thesis using udf_invD [OF inv] by (intro udf_invI) (auto simp: t)
qed

lemma udf_group_remove_steps_result:
  assumes r: "udf_group_remove_steps e i s = (st, s')"
  shows "if st = SAI_STATUS_SUCCESS then group_gone (sw s) i (sw s')
    else groups_same (sw s) (sw s') \<or> (\<not> insert_total (ulib e) \<and> group_gone (sw s) i (sw s'))"
proof -
  have put_back: "groups_same d (d\<lparr>udf_group_tree := tree_put i g (tree_del i (udf_group_tree d))\<rparr>)"
    if "tree_get (udf_group_tree d) i = Some g" for d g
    unfolding groups_same_def using that by (auto intro!: exI [where x = "tree_put i g (tree_del i (udf_group_tree d))"])
  from r show ?thesis
    by (auto simp: udf_group_remove_steps_def dn_sai_udf_group_node_get_def Let_def group_gone_def put_back
        split: option.splits if_splits prod.splits dest!: ext_call_sw lib_insert_okD)
qed

lemma udf_group_remove_result:
  assumes r: "dn_sai_udf_group_remove e i s = (st, s')"
  shows "st = (if lib_object_type (ulib e) i = SAI_OBJECT_TYPE_UDF_GROUP then SAI_STATUS_SUCCESS
      else SAI_STATUS_INVALID_OBJECT_TYPE)"
    and "groups_same (sw s) (sw s') \<or> group_gone (sw s) i (sw s')"
  using r udf_group_remove_steps_result [of e i s]
  by (auto simp: dn_sai_udf_group_remove_def split: if_splits prod.splits)

lemma group_gone_inv:
  assumes "udf_inv d" "udf_small d" "group_gone d i d'"
  shows "udf_inv d'"
  using assms inv_group_del udf_count_zero [OF assms(1,2)] by (auto simp: group_gone_def)

lemma udf_group_remove_inv:
  assumes "udf_inv (sw s)" "udf_small (sw s)" "dn_sai_udf_group_remove e i s = (st, s')"
  shows "udf_inv (sw s')"
  using udf_group_remove_result(2) [OF assms(3)] group_gone_inv [OF assms(1,2)] groups_same_inv [OF assms(1)] by blast

section \<open>Creating a UDF\<close>

lemma udf_create_accepted:
  assumes "lib_ok l"
    and "dn_sai_udf_attr_list_validate l SAI_OBJECT_TYPE_UDF (map udf_attr_id attrs) SAI_OP_CREATE = SAI_STATUS_SUCCESS"
  shows "\<exists>i. SAI_UDF_ATTR_GROUP_ID i \<in> set attrs"
proof -
  have "attrs_accepted dn_sai_udf_attr SAI_OP_CREATE (map udf_attr_id attrs)"
    using assms lib_okD(3) [OF assms(1)] by (simp add: dn_sai_udf_attr_list_validate_def dn_sai_udf_attr_table_get_def)
  from accepted_mandatory [OF this, of "dn_sai_udf_attr ! 1"]
  have "Inl ''SAI_UDF_ATTR_GROUP_ID'' \<in> set (map udf_attr_id attrs)"
    by (simp add: dn_sai_udf_attr_def attr_entry_of_def)
  then obtain a where a: "a \<in> set attrs" "udf_attr_id a = Inl ''SAI_UDF_ATTR_GROUP_ID''" by auto
  show ?thesis by (cases a; use a in auto)
qed

text \<open>What a node that was made does not disturb.\<close>

lemma node_made_inv: "udf_inv d \<Longrightarrow> node_made d n d' \<Longrightarrow> udf_inv d'"
  by (auto simp: node_made_def inv_mask_new)

lemma node_made_tables:
  assumes "udf_inv d" "node_made d n d'"
  shows "tables_same d d'"
proof -
  have "mask_of (mask_new bs d) k = mask_of d k" if "udf_at d a = Some k" for a k bs
    using mask_unused_fresh [OF assms(1)] that by (simp add: mask_of_new mask_unused_def)
  then have "tables_same d (mask_new bs d)" for bs by (intro tables_same_unused) (auto simp: fun_eq_iff)
  with assms(2) show ?thesis by (auto simp: node_made_def)
qed

lemma node_made_unused: "udf_inv d \<Longrightarrow> node_made d n d' \<Longrightarrow> un_mask_list n = Some m \<Longrightarrow> mask_unused d' m"
  using mask_unused_fresh by (auto simp: node_made_def mask_unused_def)

lemma node_made_obj_id: "node_made d n d' \<Longrightarrow> node_made d (n\<lparr>un_udf_obj_id := u\<rparr>) d'"
proof -
  have "mask_ok d' g (n\<lparr>un_udf_obj_id := u\<rparr>) = mask_ok d' g n" for g by (simp add: mask_ok_def mask_of_def)
  then show "node_made d n d' \<Longrightarrow> node_made d (n\<lparr>un_udf_obj_id := u\<rparr>) d'" by (simp add: node_made_def)
qed

lemma mask_free_tables:
  assumes "udf_inv d" "\<forall>m. un_mask_list n = Some m \<longrightarrow> mask_unused d m"
  shows "tables_same d (mask_free n d)"
proof (rule tables_same_unused)
  show "mask_of (mask_free n d) k = mask_of d k" if "udf_at d a = Some k" for a k
  proof (cases "un_mask_list n")
    case (Some m)
    then have "un_mask_list k \<noteq> un_mask_list n" using assms(2) that by (auto simp: mask_unused_def)
    then show ?thesis by (rule mask_of_free)
  qed (simp add: mask_free_def)
qed (simp_all add: fun_eq_iff)

lemma tables_same_trans: "tables_same d d' \<Longrightarrow> tables_same d' d'' \<Longrightarrow> tables_same d d''"
  by (simp add: tables_same_def)

text \<open>A UDF that was created: a new row, and a new last id of its group.\<close>

definition udf_added :: "dn_sai_udf_global_t \<Rightarrow> oid \<Rightarrow> dn_sai_udf_global_t \<Rightarrow> bool" where
  "udf_added d u d' \<longleftrightarrow>
     (\<exists>info i ty len ids. udf_table d u = None \<and> group_table d i = Some (ty, len, ids) \<and> ui_group info = Some i \<and>
        (if ty = SAI_UDF_GROUP_HASH then \<exists>bs. ui_mask info = Some bs \<and> length bs = unat len else ui_mask info = None) \<and>
        udf_table d' = (udf_table d)(u \<mapsto> info) \<and> group_table d' = (group_table d)(i \<mapsto> (ty, len, ids @ [u])))"

lemma udf_insert_added:
  assumes inv: "udf_inv d" and mk: "node_made d n d1" and u: "tree_get (udf_obj_tree d1) (un_udf_obj_id n) = None"
  shows "udf_inv (udf_insert n d1) \<and> udf_added d (un_udf_obj_id n) (udf_insert n d1)"
proof -
  obtain i g where i: "un_p_udf_group n = Some i" "tree_get (udf_group_tree d) i = Some g" "mask_ok d1 g n"
    using mk by (auto simp: node_made_def)
  have g1: "tree_get (udf_group_tree d1) i = Some g" using i(2) mk by (auto simp: node_made_def)
  have inv1: "udf_inv d1" by (rule node_made_inv [OF inv mk])
  have same: "udf_table d1 = udf_table d" "group_table d1 = group_table d"
    using node_made_tables [OF inv mk] by (simp_all add: tables_same_def fun_eq_iff)
  have "udf_inv (udf_insert n d1)"
    by (rule inv_udf_insert [OF inv1 i(1) g1 i(3)]) (use node_made_unused [OF inv mk] in blast)
  moreover have "udf_table d (un_udf_obj_id n) = None" using u by (simp add: udf_table_def flip: same)
  moreover have "if ug_type g = SAI_UDF_GROUP_HASH
      then \<exists>bs. ui_mask (udf_info_of d1 n) = Some bs \<and> length bs = unat (ug_length g)
      else ui_mask (udf_info_of d1 n) = None"
    using i(3) by (auto simp: mask_ok_def udf_info_of_def mask_of_def)
  moreover have "group_table d i = Some (ug_type g, ug_length g, udf_ids d1 g)"
    using g1 by (simp add: group_table_def flip: same)
  moreover have "ui_group (udf_info_of d1 n) = Some i" using i(1) by (simp add: udf_info_of_def)
  ultimately show ?thesis
    unfolding udf_added_def udf_table_insert [OF inv1 i(1) g1] group_table_insert [OF inv1 i(1) g1] same by blast
qed

lemma udf_create_steps_result:
  assumes ok: "lib_ok (ulib e)" and inv: "udf_inv (sw s)" and gid: "\<exists>i. SAI_UDF_ATTR_GROUP_ID i \<in> set attrs"
    and n: "un_mask_list n = None" "un_mask_count n = 0"
    and r: "udf_create_steps e attrs n s = (st, hw_id, n', s')"
  shows "if st = SAI_STATUS_SUCCESS
    then udf_inv (sw s') \<and> (udf_added (sw s) (un_udf_obj_id n') (sw s') \<or>
      tables_same (sw s) (sw s') \<and> (insert_total (ulib e) \<longrightarrow> tree_get (udf_obj_tree (sw s)) (un_udf_obj_id n') \<noteq> None))
    else udf_inv (sw s') \<and> tables_same (sw s) (sw s') \<and> (\<forall>m. un_mask_list n' = Some m \<longrightarrow> mask_unused (sw s') m)"
proof -
  obtain st1 n1 s1 where 1: "dn_sai_udf_attr_set e attrs SAI_OP_CREATE n s = (st1, n1, s1)" by (metis prod_cases3)
  note as = attr_set_create [OF ok gid n 1]
  show ?thesis
  proof (cases "st1 = SAI_STATUS_SUCCESS")
    case False
    then show ?thesis using as r 1 inv by (simp add: udf_create_steps_def)
  next
    case True
    then have mk: "node_made (sw s) n1 (sw s1)" using as by simp
    note keep = node_made_inv [OF inv mk] node_made_tables [OF inv mk] node_made_unused [OF inv mk]
    have tree: "udf_obj_tree (sw s1) = udf_obj_tree (sw s)" using mk by (auto simp: node_made_def)
    obtain st2 hw s2 where 2: "ext_call (npu_udf_create (udf_npu e) (view_of (sw s1) n1)) s1 = ((st2, hw), s2)"
      by (metis prod_cases3 prod.collapse)
    then have s2: "sw s2 = sw s1" by (rule ext_call_sw)
    let ?u = "lib_uoid_create (ulib e) SAI_OBJECT_TYPE_UDF hw"
    let ?n = "n1\<lparr>un_udf_obj_id := ?u\<rparr>"
    obtain ok3 s3 where 3: "lib_insert_ok (ulib e) (udf_obj_tree (sw s2)) ?u s2 = (ok3, s3)" by force
    note s3 = lib_insert_okD [OF 3]
    have "udf_inv (udf_insert ?n (sw s1)) \<and> udf_added (sw s) ?u (udf_insert ?n (sw s1))" if ok3
      using udf_insert_added [OF inv node_made_obj_id [OF mk]] s3 s2 that by simp
    moreover have "udf_create_steps e attrs n s =
        (if st2 \<noteq> SAI_STATUS_SUCCESS then (st2, hw, n1, s2)
         else (st2, hw, ?n, if ok3 then upd_sw (udf_insert ?n) s3 else s3))"
      using 1 2 3 True by (simp add: udf_create_steps_def Let_def)
    ultimately show ?thesis
      using r s2 s3 keep tree by (cases ok3) (auto split: if_splits)
  qed
qed

lemma udf_create_result:
  assumes ok: "lib_ok (ulib e)" and inv: "udf_inv (sw s)" and r: "dn_sai_udf_create e attrs s = (st, out, s')"
  shows "udf_inv (sw s') \<and>
    (if st = SAI_STATUS_SUCCESS
     then \<exists>u. out = Some u \<and> (udf_added (sw s) u (sw s') \<or>
       tables_same (sw s) (sw s') \<and> (insert_total (ulib e) \<longrightarrow> tree_get (udf_obj_tree (sw s)) u \<noteq> None))
     else out = None \<and> tables_same (sw s) (sw s'))"
proof (cases "dn_sai_udf_attr_list_validate (ulib e) SAI_OBJECT_TYPE_UDF (map udf_attr_id attrs) SAI_OP_CREATE = SAI_STATUS_SUCCESS")
  case False
  then show ?thesis using r inv by (auto simp: dn_sai_udf_create_def)
next
  case True
  note gid = udf_create_accepted [OF ok True]
  obtain p s1 where 1: "dn_sai_udf_node_alloc e s = (p, s1)" by force
  then have s1: "sw s1 = sw s" "p = None \<or> p = Some udf_node_zero"
    by (auto simp: dn_sai_udf_node_alloc_def split: prod.splits if_splits dest!: ext_call_sw)
  show ?thesis
  proof (cases p)
    case None
    then show ?thesis using r True 1 s1 inv by (simp add: dn_sai_udf_create_def)
  next
    case (Some n0)
    obtain st2 hw n2 s2 where 2: "udf_create_steps e attrs (dn_sai_udf_node_init n0) s1 = (st2, hw, n2, s2)"
      by (metis prod_cases4)
    have "un_mask_list (dn_sai_udf_node_init n0) = None" "un_mask_count (dn_sai_udf_node_init n0) = 0"
      using Some s1 by (auto simp: dn_sai_udf_node_init_def udf_node_zero_def)
    note cs = udf_create_steps_result [OF ok inv [folded s1(1)] gid this 2]
    show ?thesis
    proof (cases "st2 = SAI_STATUS_SUCCESS")
      case True
      then show ?thesis
        using cs r 1 2 Some s1 \<open>dn_sai_udf_attr_list_validate _ _ _ _ = _\<close> by (auto simp: dn_sai_udf_create_def)
    next
      case False
      then have k: "udf_inv (sw s2)" "tables_same (sw s) (sw s2)" "\<forall>m. un_mask_list n2 = Some m \<longrightarrow> mask_unused (sw s2) m"
        using cs s1 by simp_all
      have "st = st2" "out = None" "sw s' = mask_free n2 (sw s2)"
        using r 1 2 Some False \<open>dn_sai_udf_attr_list_validate _ _ _ _ = _\<close> by (auto simp: dn_sai_udf_create_def)
      then show ?thesis
        using False k inv_mask_free [OF k(1,3)] tables_same_trans [OF k(2) mask_free_tables [OF k(1,3)]] by simp
    qed
  qed
qed

section \<open>Removing a UDF\<close>

definition udf_gone :: "dn_sai_udf_global_t \<Rightarrow> oid \<Rightarrow> dn_sai_udf_global_t \<Rightarrow> bool" where
  "udf_gone d u d' \<longleftrightarrow>
     (\<exists>info i ty len ids ids'. udf_table d u = Some info \<and> ui_group info = Some i \<and>
        group_table d i = Some (ty, len, ids) \<and> mset ids' = mset ids - {#u#} \<and>
        udf_table d' = (udf_table d)(u := None) \<and> group_table d' = (group_table d)(i \<mapsto> (ty, len, ids')))"

lemma obj_del_tables:
  "udf_table (d\<lparr>udf_obj_tree := tree_del u (udf_obj_tree d)\<rparr>) = (udf_table d)(u := None)"
  "group_table (d\<lparr>udf_obj_tree := tree_del u (udf_obj_tree d)\<rparr>) = group_table d"
proof -
  have "udf_info_of (d\<lparr>udf_obj_tree := tree_del u (udf_obj_tree d)\<rparr>) = udf_info_of d"
    by (simp add: udf_info_of_def fun_eq_iff)
  then show "udf_table (d\<lparr>udf_obj_tree := tree_del u (udf_obj_tree d)\<rparr>) = (udf_table d)(u := None)"
    by (intro ext) (simp add: udf_table_def)
  show "group_table (d\<lparr>udf_obj_tree := tree_del u (udf_obj_tree d)\<rparr>) = group_table d"
    by (simp add: group_table_def udf_ids_def fun_eq_iff)
qed

lemma obj_del_inv: "udf_inv d \<Longrightarrow> udf_inv (d\<lparr>udf_obj_tree := tree_del u (udf_obj_tree d)\<rparr>)"
  by (rule inv_obj_tree) (auto dest: udf_invD(4) split: if_splits)

lemma obj_put_back:
  assumes "udf_inv d" "tree_get (udf_obj_tree d) u = Some a"
  shows "udf_inv (d\<lparr>udf_obj_tree := tree_put u a (tree_del u (udf_obj_tree d))\<rparr>) \<and>
    tables_same d (d\<lparr>udf_obj_tree := tree_put u a (tree_del u (udf_obj_tree d))\<rparr>)"
proof -
  let ?d = "d\<lparr>udf_obj_tree := tree_put u a (tree_del u (udf_obj_tree d))\<rparr>"
  have "udf_inv ?d" by (rule inv_obj_tree [OF assms(1)]) (use assms in \<open>auto dest: udf_invD(4) split: if_splits\<close>)
  moreover have "udf_info_of ?d = udf_info_of d" by (simp add: udf_info_of_def fun_eq_iff)
  then have "udf_table ?d v = udf_table d v" for v by (simp add: udf_table_def assms(2))
  moreover have "group_table ?d i = group_table d i" for i by (simp add: group_table_def udf_ids_def)
  ultimately show ?thesis by (simp add: tables_same_def)
qed

lemma udf_drop_gone:
  assumes inv: "udf_inv d" and u: "tree_get (udf_obj_tree d) u = Some a" and a: "udf_at d a = Some n"
  shows "udf_inv (udf_drop a n (d\<lparr>udf_obj_tree := tree_del u (udf_obj_tree d)\<rparr>)) \<and>
    udf_gone d u (udf_drop a n (d\<lparr>udf_obj_tree := tree_del u (udf_obj_tree d)\<rparr>))"
proof -
  let ?d = "d\<lparr>udf_obj_tree := tree_del u (udf_obj_tree d)\<rparr>"
  have id: "un_udf_obj_id n = u" using udf_invD(4) [OF inv u] a by simp
  have no: "tree_get (udf_obj_tree ?d) v \<noteq> Some a" for v using udf_invD(4) [OF inv, of v a] a id by auto
  have inv1: "udf_inv ?d" by (rule obj_del_inv [OF inv])
  have at: "udf_at ?d a = Some n" using a by simp
  obtain i g where i: "un_p_udf_group n = Some i" "tree_get (udf_group_tree d) i = Some g"
    by (rule node_okE [OF udf_invD(3) [OF inv a]])
  from group_table_drop [OF inv1 at i(1)] i(2) obtain ids where ids:
    "group_table (udf_drop a n ?d) = (group_table ?d)(i \<mapsto> (ug_type g, ug_length g, ids))"
    "mset ids = mset (udf_ids ?d g) - {#u#}" by (auto simp: id)
  have "udf_ids ?d g = udf_ids d g" by (simp add: udf_ids_def)
  moreover have "udf_table d u = Some (udf_info_of d n)" using u a by (simp add: udf_table_def)
  moreover have "group_table d i = Some (ug_type g, ug_length g, udf_ids d g)" using i by (simp add: group_table_def)
  ultimately have "udf_gone d u (udf_drop a n ?d)"
    unfolding udf_gone_def udf_table_drop [OF inv1 at no] ids(1) obj_del_tables using ids(2) i(1)
    by (intro exI [where x = "udf_info_of d n"] exI [where x = i] exI [where x = "ug_type g"]
        exI [where x = "ug_length g"] exI [where x = "udf_ids d g"] exI [where x = ids]) (simp add: udf_info_of_def)
  with inv_udf_drop [OF inv1 at no] show ?thesis by simp
qed

lemma udf_remove_result:
  assumes inv: "udf_inv (sw s)" and r: "dn_sai_udf_remove e u s = (st, s')"
  shows "udf_inv (sw s') \<and>
    (if st = SAI_STATUS_SUCCESS then udf_gone (sw s) u (sw s')
     else tables_same (sw s) (sw s') \<or>
       (\<not> insert_total (ulib e) \<and> udf_table (sw s') = (udf_table (sw s))(u := None) \<and>
        group_table (sw s') = group_table (sw s)))"
proof -
  let ?del = "\<lambda>d. d\<lparr>udf_obj_tree := tree_del u (udf_obj_tree d)\<rparr>"
  consider "st \<noteq> SAI_STATUS_SUCCESS" "s' = s"
    | a n where "tree_get (udf_obj_tree (sw s)) u = Some a" "udf_at (sw s) a = Some n"
        "udf_remove_steps e u a n s = (st, s')"
    using r by (auto simp: dn_sai_udf_remove_def dn_sai_udf_node_get_def split: if_splits option.splits)
  then show ?thesis
  proof cases
    case 1
    then show ?thesis using inv by simp
  next
    case (2 a n)
    obtain st1 s1 where 1: "ext_call (npu_udf_remove (udf_npu e) (view_of (?del (sw s)) n)) (upd_sw ?del s) = (st1, s1)"
      by force
    then have s1: "sw s1 = ?del (sw s)" using ext_call_sw by fastforce
    obtain ok s2 where ins: "lib_insert_ok (ulib e) (udf_obj_tree (sw s1)) u s1 = (ok, s2)" by force
    have s2: "sw s2 = sw s1" "insert_total (ulib e) \<longrightarrow> ok" using lib_insert_okD [OF ins] s1 by auto
    have "udf_remove_steps e u a n s =
      (if st1 \<noteq> SAI_STATUS_SUCCESS
       then (st1, if ok then upd_sw (\<lambda>d. d\<lparr>udf_obj_tree := tree_put u a (udf_obj_tree d)\<rparr>) s2 else s2)
       else (st1, upd_sw (udf_drop a n) s1))"
      using 1 ins by (simp add: udf_remove_steps_def Let_def udf_drop_def)
    then show ?thesis
      using 2 s1 s2 udf_drop_gone [OF inv 2(1,2)] obj_put_back [OF inv 2(1)] obj_del_inv [OF inv] obj_del_tables
      by (auto split: if_splits)
  qed
qed

section \<open>Changing a UDF\<close>

lemma udf_set_accepted:
  assumes "lib_ok l"
    and "dn_sai_udf_attr_list_validate l SAI_OBJECT_TYPE_UDF [udf_attr_id attr] SAI_OP_SET = SAI_STATUS_SUCCESS"
  shows "(\<exists>b. attr = SAI_UDF_ATTR_BASE b) \<or> (\<exists>k. attr = SAI_UDF_ATTR_OFFSET k) \<or> (\<exists>m. attr = SAI_UDF_ATTR_HASH_MASK m)"
proof -
  have "attrs_accepted dn_sai_udf_attr SAI_OP_SET [udf_attr_id attr]"
    using assms lib_okD(3) [OF assms(1)] by (simp add: dn_sai_udf_attr_list_validate_def dn_sai_udf_attr_table_get_def)
  from accepted_valid [OF this, of "udf_attr_id attr"] show ?thesis
    unfolding dn_sai_udf_attr_def attr_entry_of_def by (cases attr) simp_all
qed

text \<open>
  What one attribute makes of a row. A rejected mask stays in the buffer, see
  \<open>udf_set_attribute_result\<close>.
\<close>

fun attr_applied :: "udf_attr \<Rightarrow> udf_info \<Rightarrow> udf_info" where
  "attr_applied (SAI_UDF_ATTR_MATCH_ID i) r = r\<lparr>ui_match := i\<rparr>"
| "attr_applied (SAI_UDF_ATTR_GROUP_ID i) r = r\<lparr>ui_group := Some i\<rparr>"
| "attr_applied (SAI_UDF_ATTR_BASE b) r = r\<lparr>ui_base := b\<rparr>"
| "attr_applied (SAI_UDF_ATTR_OFFSET k) r = r\<lparr>ui_offset := k\<rparr>"
| "attr_applied (SAI_UDF_ATTR_HASH_MASK m) r = r\<lparr>ui_mask := Some (buf_write (sl_elems m) (the (ui_mask r)))\<rparr>"
| "attr_applied (UDF_ATTR_UNKNOWN i) r = r"


lemma mask_copy_at: "un_mask_list n = Some m \<Longrightarrow> mask_of d n = Some bs \<Longrightarrow>
    mask_copy m l d = mask_put m (buf_write (sl_elems l) bs) d"
  by (simp add: mask_copy_def mask_of_def)

text \<open>Writing the mask of one node changes its row and no other.\<close>

lemma mask_copy_tables:
  assumes inv: "udf_inv d" and a: "udf_at d a = Some n" and m: "un_mask_list n = Some m" "mask_of d n = Some bs"
    and len: "length (sl_elems l) \<le> length bs"
  shows "udf_inv (mask_copy m l d) \<and> group_table (mask_copy m l d) = group_table d \<and>
    (\<forall>v k. k \<noteq> n \<longrightarrow> udf_at d v = Some k \<longrightarrow> udf_info_of (mask_copy m l d) k = udf_info_of d k) \<and>
    udf_info_of (mask_copy m l d) n = (udf_info_of d n)\<lparr>ui_mask := Some (buf_write (sl_elems l) bs)\<rparr>"
proof -
  note eq = mask_copy_at [OF m, of l]
  have "udf_inv (mask_copy m l d)"
    unfolding eq using inv_mask_put_same [OF inv, of m bs "buf_write (sl_elems l) bs"] m len
    by (simp add: mask_of_def length_buf_write)
  moreover have "group_table (mask_copy m l d) = group_table d"
    by (simp add: eq group_table_def udf_ids_def fun_eq_iff)
  moreover have "udf_info_of (mask_copy m l d) k = udf_info_of d k" if "k \<noteq> n" "udf_at d v = Some k" for v k
  proof -
    have "un_mask_list k \<noteq> Some m"
    proof
      assume "un_mask_list k = Some m"
      then have "v = a" using udf_invD(5) [OF inv that(2) a _ m(1)] by simp
      then show False using that a by simp
    qed
    then show ?thesis by (simp add: eq udf_info_of_def mask_of_put)
  qed
  moreover have "udf_info_of (mask_copy m l d) n = (udf_info_of d n)\<lparr>ui_mask := Some (buf_write (sl_elems l) bs)\<rparr>"
    by (simp add: eq udf_info_of_def mask_of_put m)
  ultimately show ?thesis by blast
qed

end
