(* ===== verification/Udf_Set.thy ===== *)
theory Udf_Set
  imports Udf_Results
begin

text \<open>
  Setting an attribute of a UDF. The node is changed in a copy that the hardware layer must accept, but
  the copy shares the buffer of the hash mask.
\<close>

lemma udf_row:
  assumes "udf_inv d" "tree_get (udf_obj_tree d) u = Some a" "udf_at d a = Some n"
  shows "udf_table d u = Some (udf_info_of d n)"
    and "tree_get (udf_obj_tree d) v = Some a \<Longrightarrow> v = u"
  using assms udf_invD(4) [OF assms(1), of v a] udf_invD(4) [OF assms(1,2)] by (auto simp: udf_table_def)

lemma mask_written_table:
  assumes inv: "udf_inv d" and u: "tree_get (udf_obj_tree d) u = Some a" and a: "udf_at d a = Some n"
    and m: "un_mask_list n = Some m" "mask_of d n = Some bs" and len: "length (sl_elems l) \<le> length bs"
  shows "udf_table (mask_copy m l d) =
    (udf_table d)(u \<mapsto> (udf_info_of d n)\<lparr>ui_mask := Some (buf_write (sl_elems l) bs)\<rparr>)" (is "?t = ?r")
proof
  fix v
  note k = mask_copy_tables [OF inv a m len]
  have sel: "udf_obj_tree (mask_copy m l d) = udf_obj_tree d" "udf_at (mask_copy m l d) = udf_at d"
    by (simp_all add: mask_copy_at [OF m] fun_eq_iff)
  show "?t v = ?r v"
  proof (cases "Option.bind (tree_get (udf_obj_tree d) v) (udf_at d)")
    case (Some k')
    then obtain b where b: "tree_get (udf_obj_tree d) v = Some b" "udf_at d b = Some k'" by (auto simp: bind_eq_Some_conv)
    show ?thesis
    proof (cases "k' = n")
      case True
      then have "v = u" using udf_invD(4) [OF inv b(1)] udf_invD(4) [OF inv u] b(2) a by simp
      then show ?thesis using True Some k by (simp add: udf_table_def sel)
    next
      case False
      then have "v \<noteq> u" using b u a by auto
      then show ?thesis using False Some k b(2) by (simp add: udf_table_def sel)
    qed
  next
    case None
    then have "v \<noteq> u" using u a by auto
    then show ?thesis using None by (simp add: udf_table_def sel)
  qed
qed

lemma node_attrs_table:
  assumes inv: "udf_inv d" and u: "tree_get (udf_obj_tree d) u = Some a" and a: "udf_at d a = Some n"
    and n': "un_udf_obj_id n' = un_udf_obj_id n"
  shows "udf_table (d\<lparr>udf_heap := tree_put a n' (udf_heap d)\<rparr>) = (udf_table d)(u \<mapsto> udf_info_of d n')" (is "?t = ?r")
    and "group_table (d\<lparr>udf_heap := tree_put a n' (udf_heap d)\<rparr>) = group_table d"
proof -
  let ?d = "d\<lparr>udf_heap := tree_put a n' (udf_heap d)\<rparr>"
  have at: "udf_at ?d b = (if b = a then Some n' else udf_at d b)" for b by (simp add: udf_at_def)
  have info: "udf_info_of ?d = udf_info_of d" by (simp add: udf_info_of_def mask_of_def fun_eq_iff)
  have "?t v = ?r v" for v
    using udf_row(2) [OF inv u a, of v] u by (cases "tree_get (udf_obj_tree d) v") (auto simp: udf_table_def at info)
  then show "?t = ?r" ..
  have "udf_ids ?d g = udf_ids d g" for g using a n' by (simp add: udf_ids_def at)
  then show "group_table ?d = group_table d" by (simp add: group_table_def fun_eq_iff)
qed

text \<open>One attribute on the copy of the node.\<close>

lemma attr_set_one:
  assumes ok: "lib_ok (ulib e)" and inv: "udf_inv (sw s)" and a: "udf_at (sw s) a = Some n"
    and attr: "(\<exists>b. attr = SAI_UDF_ATTR_BASE b) \<or> (\<exists>k. attr = SAI_UDF_ATTR_OFFSET k) \<or> (\<exists>m. attr = SAI_UDF_ATTR_HASH_MASK m)"
    and r: "dn_sai_udf_attr_set e [attr] SAI_OP_SET n s = (st, n', s1)"
  shows "if st \<noteq> SAI_STATUS_SUCCESS then sw s1 = sw s
    else if \<exists>l. attr = SAI_UDF_ATTR_HASH_MASK l
    then \<exists>l m bs. attr = SAI_UDF_ATTR_HASH_MASK l \<and> n' = n \<and> un_mask_list n = Some m \<and> mask_of (sw s) n = Some bs \<and>
      length bs = unat (sl_count l) \<and> sw s1 = mask_copy m l (sw s)
    else sw s1 = sw s \<and> un_p_udf_group n' = un_p_udf_group n \<and> un_mask_list n' = un_mask_list n \<and>
      un_mask_count n' = un_mask_count n \<and> un_udf_obj_id n' = un_udf_obj_id n \<and>
      udf_info_of (sw s) n' = attr_applied attr (udf_info_of (sw s) n)"
proof (cases "\<exists>l. attr = SAI_UDF_ATTR_HASH_MASK l")
  case False
  then show ?thesis
    using r attr
    by (auto simp: dn_sai_udf_attr_set_def dn_sai_udf_base_set_def udf_info_of_def mask_of_def lib_okD(2) [OF ok]
        split: if_splits)
next
  case True
  then obtain l where l: "attr = SAI_UDF_ATTR_HASH_MASK l" by blast
  obtain st0 where h: "dn_sai_udf_hash_mask_set e n l s = (st0, n', s1)" "st = lib_indexed_ret_val (ulib e) st0 0"
    using r l by (auto simp: dn_sai_udf_attr_set_def split: prod.splits)
  have st: "st = SAI_STATUS_SUCCESS \<longleftrightarrow> st0 = SAI_STATUS_SUCCESS" using h(2) lib_okD(2) [OF ok] by simp
  note res = hash_mask_set_result [OF h(1)]
  show ?thesis
  proof (cases "st0 = SAI_STATUS_SUCCESS")
    case True
    then obtain g m where g: "group_of (sw s) n = Some g" "ug_type g = SAI_UDF_GROUP_HASH"
      "sl_count l = ucast (ug_length g)" "n' = n\<lparr>un_mask_list := Some m, un_mask_count := sl_count l\<rparr>"
      and m: "case un_mask_list n of None \<Rightarrow> m = udf_next_addr (sw s) \<and>
             sw s1 = mask_new (buf_write (sl_elems l) (replicate (unat (ug_length g)) 0)) (sw s)
         | Some k \<Rightarrow> m = k \<and> sw s1 = mask_copy k l (sw s)"
      using res by auto
    obtain i g' where i: "un_p_udf_group n = Some i" "tree_get (udf_group_tree (sw s)) i = Some g'" "mask_ok (sw s) g' n"
      by (rule node_okE [OF udf_invD(3) [OF inv a]])
    then have "g' = g" using g(1) by (simp add: group_of_def)
    with i(3) g obtain k bs where k: "un_mask_list n = Some k" "mask_of (sw s) n = Some bs"
      "length bs = unat (ug_length g)" "un_mask_count n = sl_count l"
      by (cases "un_mask_list n") (auto simp: mask_ok_def mask_of_def)
    have "n' = n" using g(4) k m by simp
    then show ?thesis using True st l k m g(3) by auto
  next
    case False
    then show ?thesis using res st by simp
  qed
qed

lemma udf_set_attribute_result:
  assumes ok: "lib_ok (ulib e)" and inv: "udf_inv (sw s)" and r: "dn_sai_udf_set_attribute e u attr s = (st, s')"
  shows "udf_inv (sw s') \<and> group_table (sw s') = group_table (sw s) \<and>
    (if st = SAI_STATUS_SUCCESS
     then \<exists>info. udf_table (sw s) u = Some info \<and> udf_table (sw s') = (udf_table (sw s))(u \<mapsto> attr_applied attr info)
     else udf_table (sw s') = udf_table (sw s) \<or>
       (\<exists>l info. attr = SAI_UDF_ATTR_HASH_MASK l \<and> udf_table (sw s) u = Some info \<and>
          udf_table (sw s') = (udf_table (sw s))(u \<mapsto> attr_applied attr info)))"
proof -
  consider "st \<noteq> SAI_STATUS_SUCCESS" "s' = s"
    | a n st1 n1 s1 where "tree_get (udf_obj_tree (sw s)) u = Some a" "udf_at (sw s) a = Some n"
        "dn_sai_udf_attr_list_validate (ulib e) SAI_OBJECT_TYPE_UDF [udf_attr_id attr] SAI_OP_SET = SAI_STATUS_SUCCESS"
        "dn_sai_udf_attr_set e [attr] SAI_OP_SET n s = (st1, n1, s1)"
        "if st1 \<noteq> SAI_STATUS_SUCCESS then st = st1 \<and> s' = s1
         else if st \<noteq> SAI_STATUS_SUCCESS then sw s' = sw s1
         else sw s' = (sw s1)\<lparr>udf_heap := tree_put a n1 (udf_heap (sw s1))\<rparr>"
    using r
    by (auto simp: dn_sai_udf_set_attribute_def dn_sai_udf_node_get_def Let_def
        split: if_splits option.splits prod.splits dest!: ext_call_sw)
  then show ?thesis
  proof cases
    case 1
    then show ?thesis using inv by simp
  next
    case (2 a n st1 n1 s1)
    note one = attr_set_one [OF ok inv 2(2) udf_set_accepted [OF ok 2(3)] 2(4)]
    note row = udf_row(1) [OF inv 2(1,2)]
    show ?thesis
    proof (cases "st1 = SAI_STATUS_SUCCESS")
      case False
      then show ?thesis using one 2(5) inv by simp
    next
      case True
      show ?thesis
      proof (cases "\<exists>l. attr = SAI_UDF_ATTR_HASH_MASK l")
        case False
        then have k: "sw s1 = sw s" "un_p_udf_group n1 = un_p_udf_group n" "un_mask_list n1 = un_mask_list n"
          "un_mask_count n1 = un_mask_count n" "un_udf_obj_id n1 = un_udf_obj_id n"
          "udf_info_of (sw s) n1 = attr_applied attr (udf_info_of (sw s) n)" using one True by auto
        show ?thesis
          using 2(5) True k(1,6) row inv_node_attrs [OF inv 2(2) k(2-5)] node_attrs_table [OF inv 2(1,2) k(5)] inv
          by (cases "st = SAI_STATUS_SUCCESS") auto
      next
        case mask: True
        with one True obtain l m bs where k: "attr = SAI_UDF_ATTR_HASH_MASK l" "n1 = n" "un_mask_list n = Some m"
          "mask_of (sw s) n = Some bs" "length bs = unat (sl_count l)" "sw s1 = mask_copy m l (sw s)" by auto
        have len: "length (sl_elems l) \<le> length bs" using length_sl_elems [of l] k(5) by simp
        have "udf_heap (sw s1) = udf_heap (sw s)" using k(6) by (simp add: mask_copy_at [OF k(3,4)])
        then have "tree_put a n1 (udf_heap (sw s1)) = udf_heap (sw s1)"
          using 2(2) k(2) by (simp add: tree_put_same udf_at_def)
        then have s': "sw s' = mask_copy m l (sw s)" using 2(5) True k(6) by (auto split: if_splits)
        have "attr_applied attr (udf_info_of (sw s) n) = (udf_info_of (sw s) n)\<lparr>ui_mask := Some (buf_write (sl_elems l) bs)\<rparr>"
          using k(1,4) by (simp add: udf_info_of_def)
        then show ?thesis
          using s' k(1) row mask_copy_tables [OF inv 2(2) k(3,4) len] mask_written_table [OF inv 2(1,2) k(3,4) len]
          by simp
      qed
    qed
  qed
qed

end
