(* ===== verification/Udf_System.thy ===== *)
theory Udf_System
  imports Udf_Set
begin

text \<open>
  The UDF component as a state machine: its calls, the states they reach, and a concrete environment
  and history on which the properties are evaluated.
\<close>

section \<open>Calls\<close>

datatype udf_call =
    UdfInit
  | UdfDeinit
  | UdfGroupCreate "udf_group_attr list"
  | UdfGroupRemove oid
  | UdfCreate "udf_attr list"
  | UdfRemove oid
  | UdfSet oid udf_attr
  | UdfMatchCreate "udf_match_attr list"
  | UdfMatchRemove oid
  | UdfMatchGet oid "udf_match_attr list"
  | UdfGroupHwId oid

definition udf_exec :: "'h udf_env \<Rightarrow> udf_call \<Rightarrow> 'h udf_state \<Rightarrow> sai_status \<times> 'h udf_state" where
  "udf_exec e c s =
     (case c of
        UdfInit \<Rightarrow> sai_udf_init e s
      | UdfDeinit \<Rightarrow> (SAI_STATUS_SUCCESS, sai_udf_deinit e s)
      | UdfGroupCreate attrs \<Rightarrow> (let (st, out, s) = dn_sai_udf_group_create e attrs s in (st, s))
      | UdfGroupRemove i \<Rightarrow> dn_sai_udf_group_remove e i s
      | UdfCreate attrs \<Rightarrow> (let (st, out, s) = dn_sai_udf_create e attrs s in (st, s))
      | UdfRemove u \<Rightarrow> dn_sai_udf_remove e u s
      | UdfSet u attr \<Rightarrow> dn_sai_udf_set_attribute e u attr s
      | UdfMatchCreate attrs \<Rightarrow> (let (st, out, s) = dn_sai_udf_match_create e attrs s in (st, s))
      | UdfMatchRemove i \<Rightarrow> dn_sai_udf_match_remove e i s
      | UdfMatchGet i attrs \<Rightarrow> (let ((st, attrs), s) = dn_sai_udf_match_get_attribute e i attrs s in (st, s))
      | UdfGroupHwId i \<Rightarrow> (let (st, out, s) = dn_sai_udf_group_hw_id_get e i s in (st, s)))"

text \<open>
  Between initialisation and deinitialisation the database satisfies its invariant. A call of the API
  needs an initialised component: otherwise the code follows the handle of a tree that does not exist.
\<close>

definition udf_sys :: "dn_sai_udf_global_t \<Rightarrow> bool" where
  "udf_sys d \<longleftrightarrow>
     (udf_init_complete d \<longrightarrow> udf_group_handle d = TreeLive \<and> udf_obj_handle d = TreeLive \<and> udf_inv d)"

definition udf_enabled :: "udf_call \<Rightarrow> dn_sai_udf_global_t \<Rightarrow> bool" where
  "udf_enabled c d \<longleftrightarrow> c = UdfInit \<or> udf_init_complete d \<and> udf_small d"

inductive udf_reachable :: "'h udf_env \<Rightarrow> 'h udf_state \<Rightarrow> bool" for e where
  udf_start: "sw s = udf_global_zero \<Longrightarrow> udf_reachable e s"
| udf_step: "udf_reachable e s \<Longrightarrow> udf_enabled c (sw s) \<Longrightarrow> udf_exec e c s = (st, s') \<Longrightarrow> udf_reachable e s'"

inductive_cases udf_reachableE: "udf_reachable e s"

lemma udf_inv_zero: "udf_inv (udf_global_zero\<lparr>udf_group_handle := h, udf_obj_handle := k, udf_init_complete := b\<rparr>)"
  by (simp add: udf_inv_def udf_global_zero_def udf_at_def)

lemma deinit_not_complete: "\<not> udf_init_complete (sw (sai_udf_deinit e s))"
  by (simp add: sai_udf_deinit_def Let_def)

lemma udf_init_steps_sys:
  assumes "udf_init_steps e s = (st, s')" "sw s = udf_global_zero" "st = SAI_STATUS_SUCCESS"
  shows "udf_sys (sw s')"
proof -
  have zero: "udf_inv (udf_global_zero\<lparr>udf_group_handle := TreeLive, udf_obj_handle := TreeLive, udf_init_complete := True\<rparr>)"
    by (rule udf_inv_zero)
  from assms show ?thesis
    by (auto simp: udf_init_steps_def Let_def udf_sys_def zero split: prod.splits if_splits dest!: ext_call_sw)
qed

lemma udf_init_sys:
  assumes "sai_udf_init e s = (st, s')" "udf_sys (sw s)"
  shows "udf_sys (sw s')"
proof (cases "udf_init_complete (sw s)")
  case True
  then show ?thesis using assms by (simp add: sai_udf_init_def)
next
  case False
  obtain st1 s1 where 1: "udf_init_steps e (upd_sw (\<lambda>_. udf_global_zero) s) = (st1, s1)" by force
  show ?thesis
  proof (cases "st1 = SAI_STATUS_SUCCESS")
    case True
    then have "s' = s1" using assms(1) False 1 by (auto simp: sai_udf_init_def)
    then show ?thesis using udf_init_steps_sys [OF 1 _ True] by simp
  next
    case st: False
    then have "s' = sai_udf_deinit e s1" using assms(1) False 1 by (auto simp: sai_udf_init_def)
    then show ?thesis by (simp add: udf_sys_def deinit_not_complete)
  qed
qed

text \<open>No call of the API but these two touches the handles.\<close>

definition same_handles :: "dn_sai_udf_global_t \<Rightarrow> dn_sai_udf_global_t \<Rightarrow> bool" where
  "same_handles d d' \<longleftrightarrow> udf_group_handle d' = udf_group_handle d \<and> udf_obj_handle d' = udf_obj_handle d \<and>
     udf_init_complete d' = udf_init_complete d"

lemma same_handles_refl [simp]: "same_handles d d"
  by (simp add: same_handles_def)

lemma same_handles_trans: "same_handles d d' \<Longrightarrow> same_handles d' d'' \<Longrightarrow> same_handles d d''"
  by (simp add: same_handles_def)

lemma same_handles_updates [simp]:
  "same_handles d (d\<lparr>udf_group_tree := t\<rparr>)" "same_handles d (d\<lparr>udf_obj_tree := t'\<rparr>)"
  "same_handles d (d\<lparr>udf_heap := h\<rparr>)" "same_handles d (mask_put m bs d)" "same_handles d (mask_new bs d)"
  "same_handles d (mask_free n d)" "same_handles d (mask_copy m l d)" "same_handles d (udf_insert n d)"
  "same_handles d (udf_drop a n d)"
  by (simp_all add: same_handles_def mask_put_def mask_new_def mask_free_def mask_copy_def udf_insert_def Let_def
      udf_list_update_def dn_sai_udf_group_udf_list_update_def udf_drop_def dn_sai_udf_node_free_def split: option.splits)

lemma attr_set_handles:
  assumes "dn_sai_udf_attr_set e attrs opr n s = (st, n', s')"
  shows "same_handles (sw s) (sw s')"
proof -
  have m: "same_handles (sw s) (sw s')" if "dn_sai_udf_hash_mask_set e k l s = (st, n', s')" for k l st
    using hash_mask_set_result [OF that] by (auto split: if_splits option.splits)
  have d: "same_handles (sw s) (sw s')" if "dn_sai_udf_default_hash_mask_fill e k s = (st, n', s')" for k st
    using that
    by (auto simp: dn_sai_udf_default_hash_mask_fill_def Let_def split: if_splits option.splits prod.splits
        dest!: mask_alloc_result)
  from assms show ?thesis
    by (auto simp: dn_sai_udf_attr_set_def split: sum.splits option.splits prod.splits if_splits dest: m d)
qed

lemma udf_create_handles:
  assumes "dn_sai_udf_create e attrs s = (st, out, s')"
  shows "same_handles (sw s) (sw s')"
proof -
  have st: "same_handles (sw s1) (sw s2)" if "udf_create_steps e attrs n s1 = (st, hw, n', s2)" for n s1 st hw n' s2
  proof -
    obtain st1 n1 s3 where 1: "dn_sai_udf_attr_set e attrs SAI_OP_CREATE n s1 = (st1, n1, s3)" by (metis prod_cases3)
    have "same_handles (sw s3) (sw s2)" if "st1 = SAI_STATUS_SUCCESS"
      using that 1 \<open>udf_create_steps e attrs n s1 = _\<close>
      by (auto simp: udf_create_steps_def Let_def split: prod.splits if_splits dest!: ext_call_sw lib_insert_okD)
    moreover have "s2 = s3" if "st1 \<noteq> SAI_STATUS_SUCCESS"
      using that 1 \<open>udf_create_steps e attrs n s1 = _\<close> by (simp add: udf_create_steps_def)
    ultimately show ?thesis using same_handles_trans [OF attr_set_handles [OF 1]] attr_set_handles [OF 1] by blast
  qed
  have al: "sw s1 = sw s" if "dn_sai_udf_node_alloc e s = (p, s1)" for p s1
    using that by (auto simp: dn_sai_udf_node_alloc_def split: prod.splits if_splits dest!: ext_call_sw)
  from assms show ?thesis
    by (auto simp: dn_sai_udf_create_def Let_def split: prod.splits if_splits option.splits
        dest!: al st intro: same_handles_trans)
qed

lemma udf_exec_handles:
  assumes "udf_exec e c s = (st, s')" "c \<noteq> UdfInit" "c \<noteq> UdfDeinit"
  shows "same_handles (sw s) (sw s')"
proof (cases c)
  case (UdfGroupCreate attrs)
  then obtain out where "dn_sai_udf_group_create e attrs s = (st, out, s')"
    using assms(1) by (auto simp: udf_exec_def split: prod.splits)
  then show ?thesis
    by (auto simp: dn_sai_udf_group_create_def dn_sai_udf_group_node_alloc_def udf_group_create_steps_def Let_def
        split: prod.splits if_splits option.splits dest!: ext_call_sw lib_insert_okD)
next
  case (UdfGroupRemove i)
  then have "dn_sai_udf_group_remove e i s = (st, s')" using assms(1) by (simp add: udf_exec_def)
  then show ?thesis using udf_group_remove_result(2) by (force simp: groups_same_def group_gone_def)
next
  case (UdfCreate attrs)
  then show ?thesis using assms(1) udf_create_handles by (auto simp: udf_exec_def split: prod.splits)
next
  case (UdfRemove u)
  then show ?thesis using assms(1)
    by (auto simp: udf_exec_def dn_sai_udf_remove_def udf_remove_steps_def Let_def same_handles_def
        split: prod.splits if_splits option.splits dest!: ext_call_sw lib_insert_okD)
      (simp_all add: udf_drop_def [symmetric] same_handles_updates(9) [unfolded same_handles_def])
next
  case (UdfSet u attr)
  then show ?thesis using assms(1)
    by (auto simp: udf_exec_def dn_sai_udf_set_attribute_def Let_def split: prod.splits if_splits option.splits
        dest!: ext_call_sw attr_set_handles simp del: dn_sai_udf_attr_set_def) (simp_all add: same_handles_def)
qed (use assms in \<open>auto simp: udf_exec_def dn_sai_udf_match_create_def dn_sai_udf_match_remove_def
      dn_sai_udf_match_get_attribute_def dn_sai_udf_group_hw_id_get_def Let_def
      split: prod.splits if_splits option.splits dest!: ext_call_sw\<close>)

lemma udf_exec_inv:
  assumes "lib_ok (ulib e)" "udf_inv (sw s)" "udf_small (sw s)" "udf_exec e c s = (st, s')" "c \<noteq> UdfInit" "c \<noteq> UdfDeinit"
  shows "udf_inv (sw s')"
proof (cases c)
  case (UdfGroupCreate attrs)
  then show ?thesis using assms udf_group_create_inv [OF assms(1,2)] by (auto simp: udf_exec_def split: prod.splits)
next
  case (UdfGroupRemove i)
  then show ?thesis using assms udf_group_remove_inv [OF assms(2,3)] by (auto simp: udf_exec_def)
next
  case (UdfCreate attrs)
  then show ?thesis using assms udf_create_result [OF assms(1,2)] by (auto simp: udf_exec_def split: prod.splits)
next
  case (UdfRemove u)
  then show ?thesis using assms udf_remove_result [OF assms(2)] by (auto simp: udf_exec_def)
next
  case (UdfSet u attr)
  then show ?thesis using assms udf_set_attribute_result [OF assms(1,2)] by (auto simp: udf_exec_def)
qed (use assms in \<open>auto simp: udf_exec_def dn_sai_udf_match_create_def dn_sai_udf_match_remove_def
      dn_sai_udf_match_get_attribute_def dn_sai_udf_group_hw_id_get_def Let_def
      split: prod.splits if_splits option.splits dest!: ext_call_sw\<close>)

lemma udf_exec_sys:
  assumes "lib_ok (ulib e)" "udf_sys (sw s)" "udf_enabled c (sw s)" "udf_exec e c s = (st, s')"
  shows "udf_sys (sw s')"
proof -
  consider "c = UdfInit" | "c = UdfDeinit" | "c \<noteq> UdfInit" "c \<noteq> UdfDeinit" by blast
  then show ?thesis
  proof cases
    case 1
    then show ?thesis using assms udf_init_sys by (simp add: udf_exec_def)
  next
    case 2
    then show ?thesis using assms(4) by (auto simp: udf_exec_def udf_sys_def deinit_not_complete)
  next
    case 3
    with assms have "udf_init_complete (sw s)" "udf_small (sw s)" by (auto simp: udf_enabled_def)
    then show ?thesis
      using udf_exec_handles [OF assms(4) 3] udf_exec_inv [OF assms(1) _ _ assms(4) 3] assms(2)
      by (simp add: udf_sys_def same_handles_def)
  qed
qed

lemma udf_reachable_sys:
  assumes "lib_ok (ulib e)"
  shows "udf_reachable e s \<Longrightarrow> udf_sys (sw s)"
proof (induction rule: udf_reachable.induct)
  case (udf_start s)
  then show ?case by (simp add: udf_sys_def udf_global_zero_def)
next
  case (udf_step s c st s')
  then show ?case using udf_exec_sys [OF assms] by blast
qed

end
