(* ===== verification/Hash_Api.thy ===== *)
theory Hash_Api
  imports Udf_System
begin

text \<open>
  Hash objects and the hash attributes of the switch (\<^verbatim>\<open>src/src/hash/sai_hash_obj.c\<close>,
  \<^verbatim>\<open>src/inc/sai_hash_api_utils.h\<close>). A hash object names native packet fields and UDF groups; a hash
  attribute of the switch points to a hash object, which counts the attributes that point to it.

  The component reads the UDF database, which is part of the state here. An object is reached through
  its tree only, and a pointer to it is its id. The lock is a flag: two paths of the code return with
  the lock held, and a later call that needs it never returns, which is the result \<open>None\<close>.
\<close>

section \<open>State\<close>

datatype hash_type =
    DN_SAI_ECMP_NON_IP_HASH
  | DN_SAI_LAG_NON_IP_HASH
  | DN_SAI_ECMP_IPV4_HASH
  | DN_SAI_ECMP_IPV4_IN_IPV4_HASH
  | DN_SAI_ECMP_IPV6_HASH
  | DN_SAI_LAG_IPV4_HASH
  | DN_SAI_LAG_IPV4_IN_IPV4_HASH
  | DN_SAI_LAG_IPV6_HASH

datatype switch_hash_attr =
    SAI_SWITCH_ATTR_ECMP_HASH
  | SAI_SWITCH_ATTR_LAG_HASH
  | SAI_SWITCH_ATTR_ECMP_HASH_IPV4
  | SAI_SWITCH_ATTR_ECMP_HASH_IPV4_IN_IPV4
  | SAI_SWITCH_ATTR_ECMP_HASH_IPV6
  | SAI_SWITCH_ATTR_LAG_HASH_IPV4
  | SAI_SWITCH_ATTR_LAG_HASH_IPV4_IN_IPV4
  | SAI_SWITCH_ATTR_LAG_HASH_IPV6
  | SWITCH_ATTR_OTHER int

text \<open>The lists of an object are their elements: the code keeps the count and the buffer together.\<close>

record hash_object =
  ho_obj_id :: oid
  ho_native_fields :: "u32 list"
  ho_udf_groups :: "oid list"
  ho_ref_count :: u32

record hash_db =
  hash_obj_tree :: "(oid, hash_object) tree"
  hash_obj_types :: "hash_type \<Rightarrow> oid option"
  hash_index_bitmap :: "bool list"
  hash_init_complete :: bool
  hash_locked :: bool
  hash_udf :: dn_sai_udf_global_t

type_synonym 'h hash_state = "(hash_db, 'h) comp"

datatype hash_attr =
    SAI_HASH_NATIVE_FIELD_LIST "u32 sai_list"
  | SAI_HASH_UDF_GROUP_LIST "oid sai_list"
  | HASH_ATTR_UNKNOWN int

fun hash_attr_id :: "hash_attr \<Rightarrow> attr_id" where
  "hash_attr_id (SAI_HASH_NATIVE_FIELD_LIST _) = Inl ''SAI_HASH_NATIVE_FIELD_LIST''"
| "hash_attr_id (SAI_HASH_UDF_GROUP_LIST _) = Inl ''SAI_HASH_UDF_GROUP_LIST''"
| "hash_attr_id (HASH_ATTR_UNKNOWN i) = Inr i"

definition dn_sai_hash_attr :: "attr_entry list" where
  "dn_sai_hash_attr =
     [attr_entry_of ''SAI_HASH_NATIVE_FIELD_LIST'' False True True True True True,
      attr_entry_of ''SAI_HASH_UDF_GROUP_LIST'' False True True True True True]"

text \<open>
  The environment: the common library, the bitmap library, the defaults and the hardware call of the
  switch. \<open>uninit_status\<close> is what an uninitialised status variable happens to hold.
\<close>

record 'h hash_env =
  hlib :: "'h sai_lib"
  std_translate :: "switch_hash_attr list \<Rightarrow> hash_type list \<Rightarrow> switch_hash_attr \<Rightarrow> hash_type \<Rightarrow> hash_type"
  std_find_first_bit :: "bool list \<Rightarrow> nat option"
  std_bitmap_create_array :: "nat \<Rightarrow> 'h \<Rightarrow> bool list option \<times> 'h"
  sai_switch_default_native_hash_fields_get :: "'h \<Rightarrow> (sai_status \<times> u32 list) \<times> 'h"
  switch_hash_fields_set :: "switch_hash_attr \<Rightarrow> u32 list \<Rightarrow> oid list \<Rightarrow> 'h \<Rightarrow> sai_status \<times> 'h"
  uninit_status :: sai_status

definition DN_SAI_MAX_HASH_INDEX :: nat where
  "DN_SAI_MAX_HASH_INDEX = 256"

section \<open>The attributes of the switch\<close>

definition dn_switch_hash_attr_id :: "switch_hash_attr list" where
  "dn_switch_hash_attr_id =
     [SAI_SWITCH_ATTR_ECMP_HASH, SAI_SWITCH_ATTR_LAG_HASH, SAI_SWITCH_ATTR_ECMP_HASH_IPV4,
      SAI_SWITCH_ATTR_ECMP_HASH_IPV4_IN_IPV4, SAI_SWITCH_ATTR_ECMP_HASH_IPV6, SAI_SWITCH_ATTR_LAG_HASH_IPV4,
      SAI_SWITCH_ATTR_LAG_HASH_IPV4_IN_IPV4, SAI_SWITCH_ATTR_LAG_HASH_IPV6]"

definition dn_sai_hash_obj_types :: "hash_type list" where
  "dn_sai_hash_obj_types =
     [DN_SAI_ECMP_NON_IP_HASH, DN_SAI_LAG_NON_IP_HASH, DN_SAI_ECMP_IPV4_HASH, DN_SAI_ECMP_IPV4_IN_IPV4_HASH,
      DN_SAI_ECMP_IPV6_HASH, DN_SAI_LAG_IPV4_HASH, DN_SAI_LAG_IPV4_IN_IPV4_HASH, DN_SAI_LAG_IPV6_HASH]"

text \<open>
  \<open>translate\<close> of the standard library gives the value at the position of the key, or the default; it is
  a parameter.
\<close>

definition dn_sai_switch_attr_id_to_hash_type :: "'h hash_env \<Rightarrow> switch_hash_attr \<Rightarrow> hash_type" where
  "dn_sai_switch_attr_id_to_hash_type e attr_id =
     std_translate e dn_switch_hash_attr_id dn_sai_hash_obj_types attr_id DN_SAI_ECMP_NON_IP_HASH"

definition dn_sai_switch_attr_hash_obj_get :: "'h hash_env \<Rightarrow> hash_db \<Rightarrow> switch_hash_attr \<Rightarrow> oid option" where
  "dn_sai_switch_attr_hash_obj_get e d attr_id = hash_obj_types d (dn_sai_switch_attr_id_to_hash_type e attr_id)"

definition dn_sai_switch_attr_hash_obj_set :: "'h hash_env \<Rightarrow> switch_hash_attr \<Rightarrow> oid option \<Rightarrow> hash_db \<Rightarrow> hash_db" where
  "dn_sai_switch_attr_hash_obj_set e attr_id p d =
     d\<lparr>hash_obj_types := (hash_obj_types d)(dn_sai_switch_attr_id_to_hash_type e attr_id := p)\<rparr>"

definition dn_sai_hash_obj_node_get :: "hash_db \<Rightarrow> oid \<Rightarrow> hash_object option" where
  "dn_sai_hash_obj_node_get d i = tree_get (hash_obj_tree d) i"

definition dn_sai_hash_is_obj_used :: "hash_object \<Rightarrow> bool" where
  "dn_sai_hash_is_obj_used ob \<longleftrightarrow> ho_ref_count ob \<noteq> 0"

definition hash_obj_put :: "oid \<Rightarrow> hash_object \<Rightarrow> hash_db \<Rightarrow> hash_db" where
  "hash_obj_put i ob d = d\<lparr>hash_obj_tree := tree_put i ob (hash_obj_tree d)\<rparr>"

section \<open>Locking\<close>

text \<open>
  A body that runs under the lock. It returns with the lock free unless it says otherwise; a body
  behind a lock that is held never runs.
\<close>

definition with_lock :: "('h hash_state \<Rightarrow> 'a) \<Rightarrow> 'h hash_state \<Rightarrow> 'a option" where
  "with_lock body s = (if hash_locked (sw s) then None else Some (body s))"

definition leak_lock :: "'h hash_state \<Rightarrow> 'h hash_state" where
  "leak_lock s = upd_sw (\<lambda>d. d\<lparr>hash_locked := True\<rparr>) s"

section \<open>Attributes\<close>

text \<open>Whatever the operation is, the list is checked as if for a creation.\<close>

definition dn_sai_hash_attr_list_validate :: "'h hash_env \<Rightarrow> attr_id list \<Rightarrow> dn_sai_operations \<Rightarrow> sai_status" where
  "dn_sai_hash_attr_list_validate e ids op_type =
     lib_attribute_validate (hlib e) dn_sai_hash_attr SAI_OP_CREATE ids"

text \<open>An empty list needs no buffer.\<close>

definition list_alloc :: "'h hash_env \<Rightarrow> 'a sai_list \<Rightarrow> 'h hash_state \<Rightarrow> bool \<times> 'h hash_state" where
  "list_alloc e l s = (if sl_count l = 0 then (True, s) else ext_call (lib_calloc_ok (hlib e)) s)"

definition dn_sai_hash_native_field_list_set ::
    "'h hash_env \<Rightarrow> hash_object \<Rightarrow> u32 sai_list \<Rightarrow> 'h hash_state \<Rightarrow> sai_status \<times> hash_object \<times> 'h hash_state" where
  "dn_sai_hash_native_field_list_set e ob l s =
     (let (ok, s) = list_alloc e l s
      in if \<not> ok then (SAI_STATUS_NO_MEMORY, ob, s)
         else (SAI_STATUS_SUCCESS, ob\<lparr>ho_native_fields := sl_elems l\<rparr>, s))"

fun udf_group_list_valid :: "'h sai_lib \<Rightarrow> dn_sai_udf_global_t \<Rightarrow> oid list \<Rightarrow> bool" where
  "udf_group_list_valid l u [] = True"
| "udf_group_list_valid l u (i # is) =
     (if lib_object_type l i \<noteq> SAI_OBJECT_TYPE_UDF_GROUP then False
      else if dn_sai_udf_group_type_get l u i \<noteq> (SAI_STATUS_SUCCESS, Some SAI_UDF_GROUP_HASH) then False
      else udf_group_list_valid l u is)"

definition dn_sai_hash_udf_group_list_validate :: "'h hash_env \<Rightarrow> hash_db \<Rightarrow> oid sai_list \<Rightarrow> bool" where
  "dn_sai_hash_udf_group_list_validate e d l = udf_group_list_valid (hlib e) (hash_udf d) (sl_elems l)"

definition dn_sai_hash_udf_group_list_set ::
    "'h hash_env \<Rightarrow> hash_object \<Rightarrow> oid sai_list \<Rightarrow> 'h hash_state \<Rightarrow> sai_status \<times> hash_object \<times> 'h hash_state" where
  "dn_sai_hash_udf_group_list_set e ob l s =
     (if sl_count l \<noteq> 0 \<and> \<not> dn_sai_hash_udf_group_list_validate e (sw s) l
      then (SAI_STATUS_INVALID_ATTR_VALUE_0, ob, s)
      else let (ok, s) = list_alloc e l s
           in if \<not> ok then (SAI_STATUS_NO_MEMORY, ob, s)
              else (SAI_STATUS_SUCCESS, ob\<lparr>ho_udf_groups := sl_elems l\<rparr>, s))"

fun dn_sai_hash_attr_set ::
    "'h hash_env \<Rightarrow> nat \<Rightarrow> hash_attr list \<Rightarrow> hash_object \<Rightarrow> 'h hash_state \<Rightarrow> sai_status \<times> hash_object \<times> 'h hash_state" where
  "dn_sai_hash_attr_set e idx [] ob s = (SAI_STATUS_SUCCESS, ob, s)"
| "dn_sai_hash_attr_set e idx (attr # attrs) ob s =
     (let (status, ob, s) =
            (case attr of
               SAI_HASH_NATIVE_FIELD_LIST l \<Rightarrow> dn_sai_hash_native_field_list_set e ob l s
             | SAI_HASH_UDF_GROUP_LIST l \<Rightarrow> dn_sai_hash_udf_group_list_set e ob l s
             | HASH_ATTR_UNKNOWN _ \<Rightarrow> (SAI_STATUS_SUCCESS, ob, s))
      in if status \<noteq> SAI_STATUS_SUCCESS then (lib_indexed_ret_val (hlib e) status idx, ob, s)
         else dn_sai_hash_attr_set e (idx + 1) attrs ob s)"

section \<open>Creation\<close>

definition hash_object_zero :: hash_object where
  "hash_object_zero = \<lparr>ho_obj_id = 0, ho_native_fields = [], ho_udf_groups = [], ho_ref_count = 0\<rparr>"

text \<open>
  The creation in its three stages: outside the lock the attributes are checked and a free index is
  read from the bitmap; under the lock the object is built and inserted; outside the lock again the
  index is marked as used. A failed insertion leaves the status SUCCESS.
\<close>

definition hash_create_pick ::
    "'h hash_env \<Rightarrow> hash_attr list \<Rightarrow> 'h hash_state \<Rightarrow> (sai_status + nat) \<times> 'h hash_state" where
  "hash_create_pick e attrs s =
     (let status = dn_sai_hash_attr_list_validate e (map hash_attr_id attrs) SAI_OP_CREATE
      in if status \<noteq> SAI_STATUS_SUCCESS then (Inl status, s)
         else case std_find_first_bit e (hash_index_bitmap (sw s)) of
                None \<Rightarrow> (Inl SAI_STATUS_INSUFFICIENT_RESOURCES, s)
              | Some hash_index \<Rightarrow>
                  (let (ok, s) = ext_call (lib_calloc_ok (hlib e)) s
                   in if \<not> ok then (Inl SAI_STATUS_NO_MEMORY, s) else (Inr hash_index, s)))"

definition hash_create_insert ::
    "'h hash_env \<Rightarrow> hash_attr list \<Rightarrow> nat \<Rightarrow> 'h hash_state \<Rightarrow> sai_status \<times> oid \<times> 'h hash_state" where
  "hash_create_insert e attrs hash_index s =
     (let (status, ob, s) = dn_sai_hash_attr_set e 0 attrs hash_object_zero s
      in if status \<noteq> SAI_STATUS_SUCCESS then (status, 0, s)
         else let i = lib_uoid_create (hlib e) SAI_OBJECT_TYPE_HASH (of_nat hash_index);
                  ob = ob\<lparr>ho_obj_id := i\<rparr>;
                  (ok, s) = lib_insert_ok (hlib e) (hash_obj_tree (sw s)) i s
              in if \<not> ok then (status, i, s) else (status, i, upd_sw (hash_obj_put i ob) s))"

definition hash_create_finish :: "sai_status \<Rightarrow> oid \<Rightarrow> nat \<Rightarrow> 'h hash_state \<Rightarrow> sai_status \<times> oid option \<times> 'h hash_state" where
  "hash_create_finish status i hash_index s =
     (if status \<noteq> SAI_STATUS_SUCCESS then (status, None, s)
      else (status, Some i, upd_sw (\<lambda>d. d\<lparr>hash_index_bitmap := (hash_index_bitmap d)[hash_index := False]\<rparr>) s))"

definition dn_sai_hash_obj_create ::
    "'h hash_env \<Rightarrow> hash_attr list \<Rightarrow> 'h hash_state \<Rightarrow> (sai_status \<times> oid option \<times> 'h hash_state) option" where
  "dn_sai_hash_obj_create e attrs s =
     (case hash_create_pick e attrs s of
        (Inl status, s) \<Rightarrow> Some (status, None, s)
      | (Inr hash_index, s) \<Rightarrow>
          map_option (\<lambda>(status, i, s). hash_create_finish status i hash_index s)
            (with_lock (hash_create_insert e attrs hash_index) s))"

section \<open>Removal\<close>

definition hash_remove_steps :: "'h hash_env \<Rightarrow> oid \<Rightarrow> 'h hash_state \<Rightarrow> sai_status \<times> 'h hash_state" where
  "hash_remove_steps e i s =
     (case dn_sai_hash_obj_node_get (sw s) i of
        None \<Rightarrow> (SAI_STATUS_INVALID_OBJECT_ID, s)
      | Some ob \<Rightarrow>
          if dn_sai_hash_is_obj_used ob then (SAI_STATUS_OBJECT_IN_USE, s)
          else let hash_index = unat (lib_npu_obj_id (hlib e) i)
               in (SAI_STATUS_SUCCESS,
                   upd_sw (\<lambda>d. d\<lparr>hash_obj_tree := tree_del i (hash_obj_tree d),
                                hash_index_bitmap := (hash_index_bitmap d)[hash_index := True]\<rparr>) s))"

definition dn_sai_hash_obj_remove :: "'h hash_env \<Rightarrow> oid \<Rightarrow> 'h hash_state \<Rightarrow> (sai_status \<times> 'h hash_state) option" where
  "dn_sai_hash_obj_remove e i s =
     (if lib_object_type (hlib e) i \<noteq> SAI_OBJECT_TYPE_HASH then Some (SAI_STATUS_INVALID_OBJECT_TYPE, s)
      else with_lock (hash_remove_steps e i) s)"

section \<open>Setting an attribute\<close>

text \<open>
  The loop over the attributes of the switch that point to the object: the status, whether a call
  succeeded, and the attributes before the one that failed.
\<close>

fun set_in_hw_loop ::
    "'h hash_env \<Rightarrow> oid \<Rightarrow> u32 list \<Rightarrow> oid list \<Rightarrow> switch_hash_attr list \<Rightarrow> switch_hash_attr list \<Rightarrow> sai_status \<Rightarrow> bool
     \<Rightarrow> 'h hash_state \<Rightarrow> sai_status \<times> bool \<times> switch_hash_attr list \<times> 'h hash_state" where
  "set_in_hw_loop e i nf ug before [] status is_set s = (status, is_set, before, s)"
| "set_in_hw_loop e i nf ug before (attr_id # attrs) status is_set s =
     (if dn_sai_switch_attr_hash_obj_get e (sw s) attr_id = Some i
      then let (status, s) = ext_call (switch_hash_fields_set e attr_id nf ug) s
           in if status \<noteq> SAI_STATUS_SUCCESS then (status, is_set, before, s)
              else set_in_hw_loop e i nf ug (before @ [attr_id]) attrs status True s
      else set_in_hw_loop e i nf ug (before @ [attr_id]) attrs status is_set s)"

fun reset_in_hw_loop :: "'h hash_env \<Rightarrow> oid \<Rightarrow> hash_object \<Rightarrow> switch_hash_attr list \<Rightarrow> 'h hash_state \<Rightarrow> 'h hash_state" where
  "reset_in_hw_loop e i ob [] s = s"
| "reset_in_hw_loop e i ob (attr_id # attrs) s =
     reset_in_hw_loop e i ob attrs
       (if dn_sai_switch_attr_hash_obj_get e (sw s) attr_id = Some i
        then snd (ext_call (switch_hash_fields_set e attr_id (ho_native_fields ob) (ho_udf_groups ob)) s) else s)"

definition dn_sai_hash_obj_set_in_hw ::
    "'h hash_env \<Rightarrow> oid \<Rightarrow> hash_object \<Rightarrow> hash_attr \<Rightarrow> 'h hash_state \<Rightarrow> sai_status \<times> 'h hash_state" where
  "dn_sai_hash_obj_set_in_hw e i ob attr s =
     (case (case attr of
              SAI_HASH_NATIVE_FIELD_LIST l \<Rightarrow> Some (sl_elems l, ho_udf_groups ob)
            | SAI_HASH_UDF_GROUP_LIST l \<Rightarrow> Some (ho_native_fields ob, sl_elems l)
            | HASH_ATTR_UNKNOWN _ \<Rightarrow> None) of
        None \<Rightarrow> (SAI_STATUS_UNKNOWN_ATTRIBUTE_0, s)
      | Some (nf, ug) \<Rightarrow>
          (let (status, is_set, before, s) =
                 set_in_hw_loop e i nf ug [] dn_switch_hash_attr_id (uninit_status e) False s
           in if status = SAI_STATUS_SUCCESS then (status, s)
              else (status, if is_set then reset_in_hw_loop e i ob before s else s)))"

text \<open>The path on which a list of UDF groups is not valid returns with the lock held.\<close>

definition hash_set_steps :: "'h hash_env \<Rightarrow> oid \<Rightarrow> hash_attr \<Rightarrow> 'h hash_state \<Rightarrow> sai_status \<times> 'h hash_state" where
  "hash_set_steps e i attr s =
     (case dn_sai_hash_obj_node_get (sw s) i of
        None \<Rightarrow> (SAI_STATUS_INVALID_OBJECT_ID, s)
      | Some ob \<Rightarrow>
          if (case attr of SAI_HASH_UDF_GROUP_LIST l \<Rightarrow> \<not> dn_sai_hash_udf_group_list_validate e (sw s) l | _ \<Rightarrow> False)
          then (SAI_STATUS_INVALID_ATTR_VALUE_0, leak_lock s)
          else let (status, s) =
                     (if dn_sai_hash_is_obj_used ob then dn_sai_hash_obj_set_in_hw e i ob attr s
                      else (SAI_STATUS_SUCCESS, s))
               in if status \<noteq> SAI_STATUS_SUCCESS then (status, s)
                  else let (status, ob, s) = dn_sai_hash_attr_set e 0 [attr] ob s
                       in (status, upd_sw (hash_obj_put i ob) s))"

definition dn_sai_hash_obj_set_attr ::
    "'h hash_env \<Rightarrow> oid \<Rightarrow> hash_attr \<Rightarrow> 'h hash_state \<Rightarrow> (sai_status \<times> 'h hash_state) option" where
  "dn_sai_hash_obj_set_attr e i attr s =
     (if lib_object_type (hlib e) i \<noteq> SAI_OBJECT_TYPE_HASH then Some (SAI_STATUS_INVALID_OBJECT_TYPE, s)
      else let status = dn_sai_hash_attr_list_validate e [hash_attr_id attr] SAI_OP_SET
           in if status \<noteq> SAI_STATUS_SUCCESS then Some (status, s)
              else with_lock (hash_set_steps e i attr) s)"

section \<open>Getting attributes\<close>

definition fill_list :: "'a list \<Rightarrow> 'a sai_list \<Rightarrow> sai_status \<times> 'a sai_list" where
  "fill_list xs l =
     (if sl_count l < of_nat (length xs) then (SAI_STATUS_BUFFER_OVERFLOW, l\<lparr>sl_count := of_nat (length xs)\<rparr>)
      else (SAI_STATUS_SUCCESS, \<lparr>sl_count = of_nat (length xs), sl_list = map_option (buf_write xs) (sl_list l)\<rparr>))"

fun dn_sai_hash_attr_get ::
    "'h hash_env \<Rightarrow> nat \<Rightarrow> hash_object \<Rightarrow> hash_attr list \<Rightarrow> sai_status \<times> hash_attr list" where
  "dn_sai_hash_attr_get e idx ob [] = (SAI_STATUS_SUCCESS, [])"
| "dn_sai_hash_attr_get e idx ob (attr # attrs) =
     (let (status, attr) =
            (case attr of
               SAI_HASH_NATIVE_FIELD_LIST l \<Rightarrow>
                 (let (st, l) = fill_list (ho_native_fields ob) l in (st, SAI_HASH_NATIVE_FIELD_LIST l))
             | SAI_HASH_UDF_GROUP_LIST l \<Rightarrow>
                 (let (st, l) = fill_list (ho_udf_groups ob) l in (st, SAI_HASH_UDF_GROUP_LIST l))
             | HASH_ATTR_UNKNOWN _ \<Rightarrow> (SAI_STATUS_SUCCESS, attr))
      in if status \<noteq> SAI_STATUS_SUCCESS then (lib_indexed_ret_val (hlib e) status idx, attr # attrs)
         else let (status, attrs) = dn_sai_hash_attr_get e (idx + 1) ob attrs in (status, attr # attrs))"

definition dn_sai_hash_obj_get_attr ::
    "'h hash_env \<Rightarrow> oid \<Rightarrow> hash_attr list \<Rightarrow> 'h hash_state \<Rightarrow> (sai_status \<times> hash_attr list) option" where
  "dn_sai_hash_obj_get_attr e i attrs s =
     (if lib_object_type (hlib e) i \<noteq> SAI_OBJECT_TYPE_HASH then Some (SAI_STATUS_INVALID_OBJECT_TYPE, attrs)
      else let status = dn_sai_hash_attr_list_validate e (map hash_attr_id attrs) SAI_OP_GET
           in if status \<noteq> SAI_STATUS_SUCCESS then Some (status, attrs)
              else with_lock (\<lambda>s. case dn_sai_hash_obj_node_get (sw s) i of
                     None \<Rightarrow> (SAI_STATUS_INVALID_OBJECT_ID, attrs)
                   | Some ob \<Rightarrow> dn_sai_hash_attr_get e 0 ob attrs) s)"

section \<open>The hash attributes of the switch\<close>

definition ref_count_add :: "u32 \<Rightarrow> oid option \<Rightarrow> hash_db \<Rightarrow> hash_db" where
  "ref_count_add k p d =
     (case p of
        None \<Rightarrow> d
      | Some i \<Rightarrow>
          (case tree_get (hash_obj_tree d) i of
             None \<Rightarrow> d
           | Some ob \<Rightarrow> hash_obj_put i (ob\<lparr>ho_ref_count := ho_ref_count ob + k\<rparr>) d))"

text \<open>
  The path on which the id is not of a hash object returns with the lock held. The old object loses a
  reference before the new one gets one.
\<close>

definition switch_hash_set_steps ::
    "'h hash_env \<Rightarrow> switch_hash_attr \<Rightarrow> oid \<Rightarrow> 'h hash_state \<Rightarrow> sai_status \<times> 'h hash_state" where
  "switch_hash_set_steps e attr_id hash_obj_id s =
     (if hash_obj_id \<noteq> SAI_NULL_OBJECT_ID \<and> lib_object_type (hlib e) hash_obj_id \<noteq> SAI_OBJECT_TYPE_HASH
      then (SAI_STATUS_INVALID_OBJECT_TYPE, leak_lock s)
      else case (if hash_obj_id = SAI_NULL_OBJECT_ID then Some (None, [], [])
                 else map_option (\<lambda>ob. (Some hash_obj_id, ho_native_fields ob, ho_udf_groups ob))
                        (dn_sai_hash_obj_node_get (sw s) hash_obj_id)) of
             None \<Rightarrow> (SAI_STATUS_INVALID_OBJECT_ID, s)
           | Some (p_hash_obj, nf, ug) \<Rightarrow>
               (let (status, s) = ext_call (switch_hash_fields_set e attr_id nf ug) s
                in if status \<noteq> SAI_STATUS_SUCCESS then (status, s)
                   else let s = upd_sw (\<lambda>d. ref_count_add (- 1) (dn_sai_switch_attr_hash_obj_get e d attr_id) d) s;
                            s = upd_sw (dn_sai_switch_attr_hash_obj_set e attr_id p_hash_obj) s
                        in (status, upd_sw (ref_count_add 1 p_hash_obj) s)))"

definition dn_sai_switch_hash_attr_set ::
    "'h hash_env \<Rightarrow> switch_hash_attr \<Rightarrow> oid \<Rightarrow> 'h hash_state \<Rightarrow> (sai_status \<times> 'h hash_state) option" where
  "dn_sai_switch_hash_attr_set e attr_id hash_obj_id s = with_lock (switch_hash_set_steps e attr_id hash_obj_id) s"

definition dn_sai_switch_hash_attr_get :: "'h hash_env \<Rightarrow> switch_hash_attr \<Rightarrow> 'h hash_state \<Rightarrow> oid option" where
  "dn_sai_switch_hash_attr_get e attr_id s =
     with_lock (\<lambda>s. case dn_sai_switch_attr_hash_obj_get e (sw s) attr_id of
                     None \<Rightarrow> SAI_NULL_OBJECT_ID
                   | Some i \<Rightarrow> (case dn_sai_hash_obj_node_get (sw s) i of None \<Rightarrow> i | Some ob \<Rightarrow> ho_obj_id ob)) s"

section \<open>Initialisation\<close>

definition dn_sai_hash_default_hash_obj_remove ::
    "'h hash_env \<Rightarrow> switch_hash_attr \<Rightarrow> 'h hash_state \<Rightarrow> (sai_status \<times> 'h hash_state) option" where
  "dn_sai_hash_default_hash_obj_remove e attr_id s =
     (case dn_sai_switch_attr_hash_obj_get e (sw s) attr_id of
        None \<Rightarrow> Some (SAI_STATUS_SUCCESS, s)
      | Some i \<Rightarrow>
          (case dn_sai_switch_hash_attr_set e attr_id SAI_NULL_OBJECT_ID s of
             None \<Rightarrow> None
           | Some (status, s) \<Rightarrow>
               if status \<noteq> SAI_STATUS_SUCCESS then Some (status, s) else dn_sai_hash_obj_remove e i s))"

text \<open>The database of hash objects after \<open>memset\<close>; the UDF database and the lock are other variables.\<close>

definition hash_db_clear :: "hash_db \<Rightarrow> hash_db" where
  "hash_db_clear d =
     d\<lparr>hash_obj_tree := [], hash_obj_types := (\<lambda>_. None), hash_index_bitmap := [], hash_init_complete := False\<rparr>"

definition sai_hash_obj_deinit :: "'h hash_env \<Rightarrow> 'h hash_state \<Rightarrow> 'h hash_state option" where
  "sai_hash_obj_deinit e s =
     map_option (upd_sw hash_db_clear)
       (if hash_init_complete (sw s)
        then Option.bind (dn_sai_hash_default_hash_obj_remove e SAI_SWITCH_ATTR_ECMP_HASH s)
               (\<lambda>(_, s). map_option snd (dn_sai_hash_default_hash_obj_remove e SAI_SWITCH_ATTR_LAG_HASH s))
        else Some s)"

definition dn_sai_hash_default_hash_obj_create ::
    "'h hash_env \<Rightarrow> switch_hash_attr \<Rightarrow> 'h hash_state \<Rightarrow> (sai_status \<times> 'h hash_state) option" where
  "dn_sai_hash_default_hash_obj_create e attr_id s =
     (let ((status, fields), s) = ext_call (sai_switch_default_native_hash_fields_get e) s
      in if status \<noteq> SAI_STATUS_SUCCESS then Some (status, s)
         else case dn_sai_hash_obj_create e
                     [SAI_HASH_NATIVE_FIELD_LIST \<lparr>sl_count = of_nat (length fields), sl_list = Some fields\<rparr>] s of
                None \<Rightarrow> None
              | Some (status, None, s) \<Rightarrow> Some (status, s)
              | Some (status, Some i, s) \<Rightarrow>
                  (case dn_sai_switch_hash_attr_set e attr_id i s of
                     None \<Rightarrow> None
                   | Some (status, s) \<Rightarrow>
                       if status \<noteq> SAI_STATUS_SUCCESS
                       then map_option (\<lambda>(_, s). (status, s)) (dn_sai_hash_obj_remove e i s)
                       else Some (status, s)))"

definition hash_init_steps :: "'h hash_env \<Rightarrow> 'h hash_state \<Rightarrow> (sai_status \<times> 'h hash_state) option" where
  "hash_init_steps e s =
     (let (ok, s) = ext_call (lib_rbtree_create_ok (hlib e)) s
      in if \<not> ok then Some (SAI_STATUS_UNINITIALIZED, s)
         else let (bm, s) = ext_call (std_bitmap_create_array e DN_SAI_MAX_HASH_INDEX) s
              in case bm of
                   None \<Rightarrow> Some (SAI_STATUS_UNINITIALIZED, s)
                 | Some bits \<Rightarrow>
                     Option.bind
                       (dn_sai_hash_default_hash_obj_create e SAI_SWITCH_ATTR_ECMP_HASH
                          (upd_sw (\<lambda>d. d\<lparr>hash_index_bitmap := bits\<rparr>) s))
                       (\<lambda>(status, s).
                          if status \<noteq> SAI_STATUS_SUCCESS then Some (status, s)
                          else map_option
                                 (\<lambda>(status, s). (status,
                                    if status \<noteq> SAI_STATUS_SUCCESS then s
                                    else upd_sw (\<lambda>d. d\<lparr>hash_init_complete := True\<rparr>) s))
                                 (dn_sai_hash_default_hash_obj_create e SAI_SWITCH_ATTR_LAG_HASH s)))"

definition sai_hash_obj_init :: "'h hash_env \<Rightarrow> 'h hash_state \<Rightarrow> (sai_status \<times> 'h hash_state) option" where
  "sai_hash_obj_init e s =
     (if hash_init_complete (sw s) then Some (SAI_STATUS_SUCCESS, s)
      else Option.bind (hash_init_steps e (upd_sw hash_db_clear s))
             (\<lambda>(status, s).
                if status \<noteq> SAI_STATUS_SUCCESS then map_option (\<lambda>s. (status, s)) (sai_hash_obj_deinit e s)
                else Some (status, s)))"

end
