(* ===== verification/Hash_Inv.thy ===== *)
theory Hash_Inv
  imports Hash_Api
begin

text \<open>
  The invariant of the hash objects: each is counted by exactly the attributes of the switch that point
  to it, every pointer is live, and the index of an object is not free.
\<close>

section \<open>The environment\<close>

text \<open>
  Documented behaviour of the standard library: a search in a bitmap finds a set bit when there is one,
  a new bitmap has the size asked for, and \<open>translate\<close> maps by position.
\<close>

fun translate_spec :: "'a list \<Rightarrow> 'b list \<Rightarrow> 'a \<Rightarrow> 'b \<Rightarrow> 'b" where
  "translate_spec (x # xs) (y # ys) k dflt = (if x = k then y else translate_spec xs ys k dflt)"
| "translate_spec _ _ k dflt = dflt"

definition hash_env_ok :: "'h hash_env \<Rightarrow> bool" where
  "hash_env_ok e \<longleftrightarrow> lib_ok (hlib e) \<and>
     (\<forall>bm k. std_find_first_bit e bm = Some k \<longrightarrow> k < length bm \<and> bm ! k) \<and>
     (\<forall>bm. std_find_first_bit e bm = None \<longrightarrow> (\<forall>k < length bm. \<not> bm ! k)) \<and>
     (\<forall>n h bs h'. std_bitmap_create_array e n h = (Some bs, h') \<longrightarrow> length bs = n) \<and>
     (\<forall>xs ys k dflt. std_translate e xs ys k dflt = translate_spec xs ys k dflt)"

lemma hash_env_okD:
  assumes "hash_env_ok e"
  shows "lib_ok (hlib e)" "std_find_first_bit e bm = Some k \<Longrightarrow> k < length bm \<and> bm ! k"
    "std_find_first_bit e bm = None \<Longrightarrow> k < length bm \<Longrightarrow> \<not> bm ! k"
    "std_bitmap_create_array e n h = (Some bs, h') \<Longrightarrow> length bs = n"
    "std_translate e xs ys a dflt = translate_spec xs ys a dflt"
  using assms unfolding hash_env_ok_def by blast+

definition hash_oid :: "'h hash_env \<Rightarrow> nat \<Rightarrow> oid" where
  "hash_oid e k = lib_uoid_create (hlib e) SAI_OBJECT_TYPE_HASH (of_nat k)"

lemma unat_of_nat_index: "k < 256 \<Longrightarrow> unat (of_nat k :: u64) = k"
  by (simp add: unat_of_nat take_bit_nat_eq_self)

lemma of_nat_index_less: "k < 256 \<Longrightarrow> (of_nat k :: u64) < 2 ^ 48"
  by (simp add: word_less_nat_alt unat_of_nat_index)

lemma hash_oid_index: "hash_env_ok e \<Longrightarrow> k < 256 \<Longrightarrow> unat (lib_npu_obj_id (hlib e) (hash_oid e k)) = k"
  using lib_okD(4) [OF hash_env_okD(1), of e SAI_OBJECT_TYPE_HASH "of_nat k"] of_nat_index_less [of k]
    unat_of_nat_index [of k]
  by (simp add: hash_oid_def named_type_def)

lemma hash_oid_inj: "hash_env_ok e \<Longrightarrow> k < 256 \<Longrightarrow> j < 256 \<Longrightarrow> hash_oid e k = hash_oid e j \<Longrightarrow> k = j"
  by (metis hash_oid_index)

section \<open>The invariant\<close>

text \<open>How many attributes of the switch point to an object.\<close>

definition hash_refs :: "hash_db \<Rightarrow> oid \<Rightarrow> nat" where
  "hash_refs d i = length (filter (\<lambda>t. hash_obj_types d t = Some i) dn_sai_hash_obj_types)"

definition hash_obj_ok :: "'h hash_env \<Rightarrow> hash_db \<Rightarrow> oid \<Rightarrow> hash_object \<Rightarrow> bool" where
  "hash_obj_ok e d i ob \<longleftrightarrow>
     ho_obj_id ob = i \<and> ho_ref_count ob = of_nat (hash_refs d i) \<and>
     (\<exists>k < length (hash_index_bitmap d). i = hash_oid e k \<and> \<not> hash_index_bitmap d ! k)"

definition hash_inv :: "'h hash_env \<Rightarrow> hash_db \<Rightarrow> bool" where
  "hash_inv e d \<longleftrightarrow>
     length (hash_index_bitmap d) \<le> DN_SAI_MAX_HASH_INDEX \<and>
     (\<forall>i ob. tree_get (hash_obj_tree d) i = Some ob \<longrightarrow> hash_obj_ok e d i ob) \<and>
     (\<forall>t i. hash_obj_types d t = Some i \<longrightarrow> tree_get (hash_obj_tree d) i \<noteq> None)"

lemma hash_invD:
  assumes "hash_inv e d"
  shows "length (hash_index_bitmap d) \<le> 256"
    and "tree_get (hash_obj_tree d) i = Some ob \<Longrightarrow> hash_obj_ok e d i ob"
    and "hash_obj_types d t = Some i \<Longrightarrow> tree_get (hash_obj_tree d) i \<noteq> None"
  using assms unfolding hash_inv_def DN_SAI_MAX_HASH_INDEX_def by blast+

lemma hash_refs_le: "hash_refs d i \<le> 8"
proof -
  have "hash_refs d i \<le> length dn_sai_hash_obj_types" by (simp add: hash_refs_def)
  then show ?thesis by (simp add: dn_sai_hash_obj_types_def)
qed

lemma all_hash_types: "t \<in> set dn_sai_hash_obj_types" "distinct dn_sai_hash_obj_types"
  by (cases t; simp add: dn_sai_hash_obj_types_def) (simp add: dn_sai_hash_obj_types_def)

lemma hash_refs_zero: "hash_refs d i = 0 \<longleftrightarrow> (\<forall>t. hash_obj_types d t \<noteq> Some i)"
  using all_hash_types by (auto simp: hash_refs_def filter_empty_conv)

lemma hash_used_iff:
  assumes "hash_inv e d" "tree_get (hash_obj_tree d) i = Some ob"
  shows "dn_sai_hash_is_obj_used ob \<longleftrightarrow> (\<exists>t. hash_obj_types d t = Some i)"
proof -
  have "ho_ref_count ob = of_nat (hash_refs d i)" using hash_invD(2) [OF assms] by (simp add: hash_obj_ok_def)
  moreover have "hash_refs d i < 2 ^ 32" using hash_refs_le [of d i] by simp
  ultimately have "dn_sai_hash_is_obj_used ob \<longleftrightarrow> hash_refs d i \<noteq> 0"
    by (simp add: dn_sai_hash_is_obj_used_def of_nat_u32_zero)
  then show ?thesis by (simp add: hash_refs_zero)
qed

text \<open>An index whose bit is set belongs to no object.\<close>

lemma free_index:
  assumes "hash_env_ok e" "hash_inv e d" "k < length (hash_index_bitmap d)" "hash_index_bitmap d ! k"
  shows "tree_get (hash_obj_tree d) (hash_oid e k) = None"
proof (rule ccontr)
  assume "tree_get (hash_obj_tree d) (hash_oid e k) \<noteq> None"
  then obtain ob j where "j < length (hash_index_bitmap d)" "hash_oid e k = hash_oid e j" "\<not> hash_index_bitmap d ! j"
    using hash_invD(2) [OF assms(2)] by (auto simp: hash_obj_ok_def)
  then show False using hash_oid_inj [OF assms(1), of k j] hash_invD(1) [OF assms(2)] assms(3,4) by simp
qed

section \<open>Updates that keep it\<close>

text \<open>The fields the invariant does not look at.\<close>

definition hash_same :: "hash_db \<Rightarrow> hash_db \<Rightarrow> bool" where
  "hash_same d d' \<longleftrightarrow> hash_obj_tree d' = hash_obj_tree d \<and> hash_obj_types d' = hash_obj_types d \<and>
     hash_index_bitmap d' = hash_index_bitmap d"

lemma hash_same_refl [simp]: "hash_same d d"
  by (simp add: hash_same_def)

lemma hash_same_inv: "hash_same d d' \<Longrightarrow> hash_inv e d' = hash_inv e d"
  by (simp add: hash_same_def hash_inv_def hash_obj_ok_def hash_refs_def)

lemma hash_obj_put_sel [simp]:
  "hash_obj_tree (hash_obj_put i ob d) = tree_put i ob (hash_obj_tree d)"
  "hash_obj_types (hash_obj_put i ob d) = hash_obj_types d"
  "hash_index_bitmap (hash_obj_put i ob d) = hash_index_bitmap d"
  "hash_locked (hash_obj_put i ob d) = hash_locked d" "hash_udf (hash_obj_put i ob d) = hash_udf d"
  "hash_init_complete (hash_obj_put i ob d) = hash_init_complete d"
  "hash_refs (hash_obj_put i ob d) j = hash_refs d j"
  by (simp_all add: hash_obj_put_def hash_refs_def)

text \<open>The lists of an object may change.\<close>

lemma hash_inv_lists:
  assumes "hash_inv e d" "tree_get (hash_obj_tree d) i = Some ob"
    and "ho_obj_id ob' = ho_obj_id ob" "ho_ref_count ob' = ho_ref_count ob"
  shows "hash_inv e (hash_obj_put i ob' d)"
  using assms hash_invD(2) [OF assms(1)] unfolding hash_inv_def by (auto simp: hash_obj_ok_def)

text \<open>A new object takes a free index.\<close>

definition hash_taken :: "oid \<Rightarrow> hash_object \<Rightarrow> nat \<Rightarrow> hash_db \<Rightarrow> hash_db" where
  "hash_taken i ob k d = (hash_obj_put i ob d)\<lparr>hash_index_bitmap := (hash_index_bitmap d)[k := False]\<rparr>"

lemma hash_inv_new:
  assumes ok: "hash_env_ok e" and inv: "hash_inv e d" and k: "k < length (hash_index_bitmap d)" "hash_index_bitmap d ! k"
    and ob: "ho_obj_id ob = hash_oid e k" "ho_ref_count ob = 0"
  shows "hash_inv e (hash_taken (hash_oid e k) ob k d)"
proof -
  let ?i = "hash_oid e k"
  have new: "tree_get (hash_obj_tree d) ?i = None" by (rule free_index [OF ok inv k])
  then have "hash_refs d ?i = 0" using hash_invD(3) [OF inv, of _ ?i] by (auto simp: hash_refs_zero)
  moreover have "hash_refs (hash_taken ?i ob k d) j = hash_refs d j" for j by (simp add: hash_taken_def hash_refs_def)
  moreover have "\<exists>j < length (hash_index_bitmap d). i = hash_oid e j \<and> \<not> (hash_index_bitmap d)[k := False] ! j"
    if "tree_get (hash_obj_tree d) i = Some ob'" for i ob'
    using hash_invD(2) [OF inv that] k by (auto simp: hash_obj_ok_def nth_list_update)
  ultimately show ?thesis
    using hash_invD [OF inv] k ob
    by (auto simp: hash_inv_def hash_taken_def hash_obj_ok_def DN_SAI_MAX_HASH_INDEX_def)
qed

text \<open>An object that no attribute points to gives its index back.\<close>

definition hash_released :: "oid \<Rightarrow> nat \<Rightarrow> hash_db \<Rightarrow> hash_db" where
  "hash_released i k d =
     d\<lparr>hash_obj_tree := tree_del i (hash_obj_tree d), hash_index_bitmap := (hash_index_bitmap d)[k := True]\<rparr>"

lemma hash_inv_released:
  assumes ok: "hash_env_ok e" and inv: "hash_inv e d" and i: "i = hash_oid e k" "k < 256"
    and no: "\<forall>t. hash_obj_types d t \<noteq> Some i"
  shows "hash_inv e (hash_released i k d)"
proof -
  have "\<exists>m < length (hash_index_bitmap d). j = hash_oid e m \<and> \<not> (hash_index_bitmap d)[k := True] ! m"
    if j: "tree_get (hash_obj_tree d) j = Some ob" "j \<noteq> i" for j ob
  proof -
    obtain m where "m < length (hash_index_bitmap d)" "j = hash_oid e m" "\<not> hash_index_bitmap d ! m"
      using hash_invD(2) [OF inv j(1)] by (auto simp: hash_obj_ok_def)
    moreover from this(2) have "m \<noteq> k" using j(2) i by auto
    ultimately show ?thesis by (intro exI [where x = m]) simp
  qed
  moreover have "hash_refs (hash_released i k d) j = hash_refs d j" for j by (simp add: hash_released_def hash_refs_def)
  ultimately show ?thesis
    using hash_invD [OF inv] no
    by (auto simp: hash_inv_def hash_released_def hash_obj_ok_def DN_SAI_MAX_HASH_INDEX_def)
qed

text \<open>Pointing an attribute somewhere else.\<close>

definition hash_pointed :: "hash_type \<Rightarrow> oid option \<Rightarrow> hash_db \<Rightarrow> hash_db" where
  "hash_pointed t p d =
     ref_count_add 1 p
       ((ref_count_add (- 1) (hash_obj_types d t) d)\<lparr>hash_obj_types := (hash_obj_types d)(t := p)\<rparr>)"

lemma ref_count_add_sel [simp]:
  "hash_obj_types (ref_count_add k p d) = hash_obj_types d"
  "hash_index_bitmap (ref_count_add k p d) = hash_index_bitmap d"
  "hash_locked (ref_count_add k p d) = hash_locked d" "hash_udf (ref_count_add k p d) = hash_udf d"
  "hash_init_complete (ref_count_add k p d) = hash_init_complete d"
  by (simp_all add: ref_count_add_def split: option.splits)

lemma ref_count_add_tree:
  "tree_get (hash_obj_tree (ref_count_add k p d)) i =
     map_option (\<lambda>ob. if p = Some i then ob\<lparr>ho_ref_count := ho_ref_count ob + k\<rparr> else ob) (tree_get (hash_obj_tree d) i)"
  by (cases p; cases "tree_get (hash_obj_tree d) i") (auto simp: ref_count_add_def split: option.splits)

lemma length_filter_upd:
  assumes "distinct ts" "\<And>u. u \<noteq> t \<Longrightarrow> g u = f u"
  shows "length (filter (\<lambda>u. g u = Some i) ts) + (if f t = Some i \<and> t \<in> set ts then 1 else 0) =
     length (filter (\<lambda>u. f u = Some i) ts) + (if g t = Some i \<and> t \<in> set ts then 1 else 0)"
  using assms(1)
proof (induction ts)
  case (Cons a ts)
  show ?case
  proof (cases "a = t")
    case True
    then have "g u = f u" if "u \<in> set ts" for u using that Cons.prems assms(2) [of u] by auto
    then have "filter (\<lambda>u. g u = Some i) ts = filter (\<lambda>u. f u = Some i) ts" by (intro filter_cong) simp_all
    then show ?thesis using True Cons.prems by simp
  next
    case False
    then show ?thesis using Cons assms(2) [of a] by (auto split: if_splits)
  qed
qed simp

lemma hash_refs_pointed:
  "hash_refs (hash_pointed t p d) i + (if hash_obj_types d t = Some i then 1 else 0) =
     hash_refs d i + (if p = Some i then 1 else 0)"
  using length_filter_upd [OF all_hash_types(2), of t "(hash_obj_types d)(t := p)" "hash_obj_types d" i] all_hash_types(1) [of t]
  by (simp add: hash_refs_def hash_pointed_def)

lemma hash_inv_pointed:
  assumes inv: "hash_inv e d" and p: "\<And>i. p = Some i \<Longrightarrow> tree_get (hash_obj_tree d) i \<noteq> None"
  shows "hash_inv e (hash_pointed t p d)"
proof -
  let ?d = "hash_pointed t p d"
  have tree: "tree_get (hash_obj_tree ?d) i = map_option (\<lambda>ob. ob\<lparr>ho_ref_count :=
      ho_ref_count ob - (if hash_obj_types d t = Some i then 1 else 0) + (if p = Some i then 1 else 0)\<rparr>)
      (tree_get (hash_obj_tree d) i)" for i
    by (auto simp: hash_pointed_def ref_count_add_tree option.map_comp comp_def intro!: option.map_cong0)
  have refs: "(of_nat (hash_refs ?d i) :: u32) =
      of_nat (hash_refs d i) - (if hash_obj_types d t = Some i then 1 else 0) + (if p = Some i then 1 else 0)" for i
  proof -
    have "(of_nat (hash_refs ?d i + (if hash_obj_types d t = Some i then 1 else 0)) :: u32) =
        of_nat (hash_refs d i + (if p = Some i then 1 else 0))" by (simp only: hash_refs_pointed)
    then show ?thesis by (simp add: algebra_simps split: if_splits)
  qed
  have bm: "hash_index_bitmap ?d = hash_index_bitmap d" by (simp add: hash_pointed_def)
  have ty: "hash_obj_types ?d = (hash_obj_types d)(t := p)" by (simp add: hash_pointed_def)
  have "hash_obj_ok e ?d i ob'" if "tree_get (hash_obj_tree ?d) i = Some ob'" for i ob'
    using that hash_invD(2) [OF inv, of i] by (auto simp: tree hash_obj_ok_def refs bm)
  moreover have "tree_get (hash_obj_tree ?d) i \<noteq> None" if "hash_obj_types ?d u = Some i" for u i
    using that p hash_invD(3) [OF inv, of u i] by (auto simp: ty tree split: if_splits)
  ultimately show ?thesis
    using hash_invD(1) [OF inv] unfolding hash_inv_def DN_SAI_MAX_HASH_INDEX_def bm by blast
qed

end
