(* ===== verification/Hash_Ops.thy ===== *)
theory Hash_Ops
  imports Hash_Inv
begin

text \<open>
  What each operation of the hash objects does to the database, on every path, and that it keeps the
  invariant.
\<close>

section \<open>Attributes\<close>

text \<open>The lists of the object after the attributes were applied, in order.\<close>

fun hash_attr_applied :: "hash_attr \<Rightarrow> hash_object \<Rightarrow> hash_object" where
  "hash_attr_applied (SAI_HASH_NATIVE_FIELD_LIST l) ob = ob\<lparr>ho_native_fields := sl_elems l\<rparr>"
| "hash_attr_applied (SAI_HASH_UDF_GROUP_LIST l) ob = ob\<lparr>ho_udf_groups := sl_elems l\<rparr>"
| "hash_attr_applied (HASH_ATTR_UNKNOWN i) ob = ob"

lemma hash_attr_applied_keeps [simp]:
  "ho_obj_id (hash_attr_applied a ob) = ho_obj_id ob" "ho_ref_count (hash_attr_applied a ob) = ho_ref_count ob"
  by (cases a; simp)+

lemma hash_attrs_applied_keeps [simp]:
  "ho_obj_id (fold hash_attr_applied as ob) = ho_obj_id ob"
  "ho_ref_count (fold hash_attr_applied as ob) = ho_ref_count ob"
  by (induction as arbitrary: ob) simp_all

lemma list_alloc_sw: "list_alloc e l s = (ok, s') \<Longrightarrow> sw s' = sw s"
  by (auto simp: list_alloc_def split: if_splits dest: ext_call_sw)

lemma native_field_list_set_result:
  assumes "dn_sai_hash_native_field_list_set e ob l s = (st, ob', s')"
  shows "sw s' = sw s \<and>
    ob' = (if st = SAI_STATUS_SUCCESS then hash_attr_applied (SAI_HASH_NATIVE_FIELD_LIST l) ob else ob)"
  using assms
  by (auto simp: dn_sai_hash_native_field_list_set_def split: prod.splits if_splits dest: list_alloc_sw)

lemma udf_group_list_set_result:
  assumes "dn_sai_hash_udf_group_list_set e ob l s = (st, ob', s')"
  shows "sw s' = sw s \<and>
    ob' = (if st = SAI_STATUS_SUCCESS then hash_attr_applied (SAI_HASH_UDF_GROUP_LIST l) ob else ob)"
  using assms
  by (auto simp: dn_sai_hash_udf_group_list_set_def split: prod.splits if_splits dest: list_alloc_sw)

lemma hash_attr_set_result:
  assumes "hash_env_ok e"
  shows "dn_sai_hash_attr_set e idx attrs ob s = (st, ob', s') \<Longrightarrow>
    sw s' = sw s \<and> ho_obj_id ob' = ho_obj_id ob \<and> ho_ref_count ob' = ho_ref_count ob \<and>
    (st = SAI_STATUS_SUCCESS \<longrightarrow> ob' = fold hash_attr_applied attrs ob)"
proof (induction attrs arbitrary: idx ob s)
  case (Cons attr attrs)
  obtain st1 ob1 s1 where 1: "(case attr of
               SAI_HASH_NATIVE_FIELD_LIST l \<Rightarrow> dn_sai_hash_native_field_list_set e ob l s
             | SAI_HASH_UDF_GROUP_LIST l \<Rightarrow> dn_sai_hash_udf_group_list_set e ob l s
             | HASH_ATTR_UNKNOWN _ \<Rightarrow> (SAI_STATUS_SUCCESS, ob, s)) = (st1, ob1, s1)" by (metis prod_cases3)
  then have r: "sw s1 = sw s" "ob1 = (if st1 = SAI_STATUS_SUCCESS then hash_attr_applied attr ob else ob)"
    by (cases attr; auto dest: native_field_list_set_result udf_group_list_set_result)+
  note idx = lib_okD(2) [OF hash_env_okD(1) [OF assms]]
  show ?case
  proof (cases "st1 = SAI_STATUS_SUCCESS")
    case True
    then have "dn_sai_hash_attr_set e (idx + 1) attrs ob1 s1 = (st, ob', s')" using Cons.prems 1 by simp
    from Cons.IH [OF this] r True show ?thesis by simp
  next
    case False
    then have "st = lib_indexed_ret_val (hlib e) st1 idx" "ob' = ob" "s' = s1" using Cons.prems 1 r by auto
    then show ?thesis using r False idx [of st1 idx] by simp
  qed
qed simp

section \<open>Creation\<close>

text \<open>The object a creation makes.\<close>

definition hash_made :: "oid \<Rightarrow> hash_attr list \<Rightarrow> hash_object" where
  "hash_made i attrs = (fold hash_attr_applied attrs hash_object_zero)\<lparr>ho_obj_id := i\<rparr>"

lemma hash_made_sel [simp]: "ho_obj_id (hash_made i attrs) = i" "ho_ref_count (hash_made i attrs) = 0"
  by (simp_all add: hash_made_def hash_object_zero_def)

lemma hash_create_pick_result:
  assumes "hash_env_ok e" "hash_create_pick e attrs s = (r, s')"
  shows "sw s' = sw s \<and> (case r of Inl st \<Rightarrow> st \<noteq> SAI_STATUS_SUCCESS
      | Inr k \<Rightarrow> k < length (hash_index_bitmap (sw s)) \<and> hash_index_bitmap (sw s) ! k \<and>
               std_find_first_bit e (hash_index_bitmap (sw s)) = Some k)"
  using assms(2) hash_env_okD(2) [OF assms(1)]
  by (auto simp: hash_create_pick_def Let_def split: if_splits option.splits prod.splits dest: ext_call_sw)

lemma hash_create_insert_result:
  assumes "hash_env_ok e" "hash_create_insert e attrs k s = (st, i, s')"
  shows "if st = SAI_STATUS_SUCCESS
    then i = hash_oid e k \<and>
      (tree_get (hash_obj_tree (sw s)) i = None \<and> sw s' = hash_obj_put i (hash_made i attrs) (sw s) \<or>
       (insert_total (hlib e) \<longrightarrow> tree_get (hash_obj_tree (sw s)) i \<noteq> None) \<and> sw s' = sw s)
    else sw s' = sw s"
proof -
  obtain st1 ob s1 where 1: "dn_sai_hash_attr_set e 0 attrs hash_object_zero s = (st1, ob, s1)" by (metis prod_cases3)
  note r = hash_attr_set_result [OF assms(1) 1]
  show ?thesis
  proof (cases "st1 = SAI_STATUS_SUCCESS")
    case True
    with assms(2) 1 r show ?thesis
      by (auto simp: hash_create_insert_def Let_def hash_oid_def hash_made_def split: prod.splits if_splits
          dest!: lib_insert_okD)
  next
    case False
    with assms(2) 1 r show ?thesis by (auto simp: hash_create_insert_def)
  qed
qed

text \<open>
  A creation that succeeds takes a free index; a failed one changes nothing. Only an insertion that the
  tree refuses for lack of memory makes a successful creation without an object.
\<close>

lemma hash_create_result:
  assumes ok: "hash_env_ok e" and inv: "hash_inv e (sw s)"
    and c: "dn_sai_hash_obj_create e attrs s = Some (st, out, s')"
  shows "if st = SAI_STATUS_SUCCESS
    then \<exists>k. k < length (hash_index_bitmap (sw s)) \<and> hash_index_bitmap (sw s) ! k \<and> out = Some (hash_oid e k) \<and>
      (sw s' = hash_taken (hash_oid e k) (hash_made (hash_oid e k) attrs) k (sw s) \<or>
       \<not> insert_total (hlib e) \<and> sw s' = (sw s)\<lparr>hash_index_bitmap := (hash_index_bitmap (sw s))[k := False]\<rparr>)
    else out = None \<and> sw s' = sw s"
proof -
  obtain r s1 where 1: "hash_create_pick e attrs s = (r, s1)" by force
  note p = hash_create_pick_result [OF ok 1]
  show ?thesis
  proof (cases r)
    case (Inl st1)
    then show ?thesis using c 1 p by (auto simp: dn_sai_hash_obj_create_def)
  next
    case (Inr k)
    with p have k: "k < length (hash_index_bitmap (sw s))" "hash_index_bitmap (sw s) ! k" "sw s1 = sw s" by auto
    obtain st1 i s2 where 2: "hash_create_insert e attrs k s1 = (st1, i, s2)" by (metis prod_cases3)
    have f: "hash_create_finish st1 i k s2 = (st, out, s')"
      using c 1 2 Inr by (auto simp: dn_sai_hash_obj_create_def with_lock_def split: if_splits)
    have n: "tree_get (hash_obj_tree (sw s)) (hash_oid e k) = None" by (rule free_index [OF ok inv k(1,2)])
    show ?thesis
      using f hash_create_insert_result [OF ok 2] k n
      by (auto simp: hash_create_finish_def hash_taken_def split: if_splits)
  qed
qed

lemma hash_inv_bit_cleared:
  assumes "hash_inv e d"
  shows "hash_inv e (d\<lparr>hash_index_bitmap := (hash_index_bitmap d)[k := False]\<rparr>)"
proof -
  have "\<exists>j < length (hash_index_bitmap d). i = hash_oid e j \<and> \<not> (hash_index_bitmap d)[k := False] ! j"
    if ob: "tree_get (hash_obj_tree d) i = Some ob" for i ob
  proof -
    obtain j where "j < length (hash_index_bitmap d)" "i = hash_oid e j" "\<not> hash_index_bitmap d ! j"
      using hash_invD(2) [OF assms ob] by (auto simp: hash_obj_ok_def)
    then show ?thesis by (intro exI [where x = j]) (cases "j = k"; simp)
  qed
  then show ?thesis
    using hash_invD [OF assms] by (auto simp: hash_inv_def hash_obj_ok_def hash_refs_def DN_SAI_MAX_HASH_INDEX_def)
qed

lemma hash_create_inv:
  assumes ok: "hash_env_ok e" and inv: "hash_inv e (sw s)"
    and c: "dn_sai_hash_obj_create e attrs s = Some (st, out, s')"
  shows "hash_inv e (sw s')"
  using hash_create_result [OF assms] hash_inv_new [OF ok inv] hash_inv_bit_cleared [OF inv] inv
  by (auto split: if_splits)

section \<open>Removal\<close>

text \<open>The status of a removal.\<close>

definition hash_remove_status :: "'h hash_env \<Rightarrow> oid \<Rightarrow> hash_db \<Rightarrow> sai_status" where
  "hash_remove_status e i d =
     (if lib_object_type (hlib e) i \<noteq> SAI_OBJECT_TYPE_HASH then SAI_STATUS_INVALID_OBJECT_TYPE
      else if tree_get (hash_obj_tree d) i = None then SAI_STATUS_INVALID_OBJECT_ID
      else if \<exists>t \<in> set dn_sai_hash_obj_types. hash_obj_types d t = Some i then SAI_STATUS_OBJECT_IN_USE
      else SAI_STATUS_SUCCESS)"

lemma hash_remove_result:
  assumes ok: "hash_env_ok e" and inv: "hash_inv e (sw s)"
    and c: "dn_sai_hash_obj_remove e i s = Some (st, s')"
  shows "st = hash_remove_status e i (sw s) \<and>
    (if st = SAI_STATUS_SUCCESS
     then \<exists>k < 256. i = hash_oid e k \<and> (\<forall>t. hash_obj_types (sw s) t \<noteq> Some i) \<and> sw s' = hash_released i k (sw s)
     else sw s' = sw s)"
proof (cases "lib_object_type (hlib e) i = SAI_OBJECT_TYPE_HASH")
  case False
  then show ?thesis using c by (auto simp: dn_sai_hash_obj_remove_def hash_remove_status_def)
next
  case True
  with c have r: "hash_remove_steps e i s = (st, s')"
    by (auto simp: dn_sai_hash_obj_remove_def with_lock_def split: if_splits)
  show ?thesis
  proof (cases "tree_get (hash_obj_tree (sw s)) i")
    case None
    then show ?thesis using r True by (auto simp: hash_remove_steps_def dn_sai_hash_obj_node_get_def hash_remove_status_def)
  next
    case (Some ob)
    then obtain k where k: "k < length (hash_index_bitmap (sw s))" "i = hash_oid e k"
      using hash_invD(2) [OF inv] by (auto simp: hash_obj_ok_def)
    then have k': "k < 256" using hash_invD(1) [OF inv] by simp
    note u = hash_used_iff [OF inv Some]
    show ?thesis
      using r True Some u k(2) k' hash_oid_index [OF ok k'] all_hash_types(1)
      by (auto simp: hash_remove_steps_def dn_sai_hash_obj_node_get_def hash_remove_status_def hash_released_def Let_def
          split: if_splits)
  qed
qed

lemma hash_remove_inv:
  assumes ok: "hash_env_ok e" and inv: "hash_inv e (sw s)"
    and c: "dn_sai_hash_obj_remove e i s = Some (st, s')"
  shows "hash_inv e (sw s')"
  using hash_remove_result [OF assms] hash_inv_released [OF ok inv] inv by (auto split: if_splits)

section \<open>Setting an attribute\<close>

lemma set_in_hw_loop_sw: "set_in_hw_loop e i nf ug bs as st b s = (st', b', bs', s') \<Longrightarrow> sw s' = sw s"
  by (induction e i nf ug bs as st b s rule: set_in_hw_loop.induct)
    (auto split: if_splits prod.splits dest: ext_call_sw)

lemma reset_in_hw_loop_sw: "sw (reset_in_hw_loop e i ob as s) = sw s"
  by (induction e i ob as s rule: reset_in_hw_loop.induct) auto

lemma set_in_hw_sw: "dn_sai_hash_obj_set_in_hw e i ob attr s = (st, s') \<Longrightarrow> sw s' = sw s"
  by (auto simp: dn_sai_hash_obj_set_in_hw_def reset_in_hw_loop_sw split: option.splits prod.splits if_splits
      dest!: set_in_hw_loop_sw)

text \<open>
  The database afterwards: unchanged, with the lock leaked when a list of UDF groups is not valid, or with
  new lists in the object.
\<close>

definition hash_list_bad :: "'h hash_env \<Rightarrow> hash_attr \<Rightarrow> hash_db \<Rightarrow> bool" where
  "hash_list_bad e attr d \<longleftrightarrow>
     (case attr of SAI_HASH_UDF_GROUP_LIST l \<Rightarrow> \<not> dn_sai_hash_udf_group_list_validate e d l | _ \<Rightarrow> False)"

lemma hash_set_steps_result:
  assumes ok: "hash_env_ok e" and c: "hash_set_steps e i attr s = (st, s')"
  shows "sw s' = sw s \<or>
    (\<exists>ob. tree_get (hash_obj_tree (sw s)) i = Some ob \<and>
       (if hash_list_bad e attr (sw s)
        then st = SAI_STATUS_INVALID_ATTR_VALUE_0 \<and> sw s' = (sw s)\<lparr>hash_locked := True\<rparr>
        else \<exists>ob'. ho_obj_id ob' = ho_obj_id ob \<and> ho_ref_count ob' = ho_ref_count ob \<and>
          (st = SAI_STATUS_SUCCESS \<longrightarrow> ob' = hash_attr_applied attr ob) \<and> sw s' = hash_obj_put i ob' (sw s)))"
proof (cases "tree_get (hash_obj_tree (sw s)) i")
  case None
  then show ?thesis using c by (simp add: hash_set_steps_def dn_sai_hash_obj_node_get_def)
next
  case (Some ob)
  show ?thesis
  proof (cases "hash_list_bad e attr (sw s)")
    case True
    then show ?thesis using c Some
      by (auto simp: hash_set_steps_def dn_sai_hash_obj_node_get_def hash_list_bad_def leak_lock_def)
  next
    case False
    obtain st1 s1 where 1: "(if dn_sai_hash_is_obj_used ob then dn_sai_hash_obj_set_in_hw e i ob attr s
                             else (SAI_STATUS_SUCCESS, s)) = (st1, s1)" by force
    then have s1: "sw s1 = sw s" using set_in_hw_sw [of e i ob attr s st1 s1] by (auto split: if_splits)
    obtain st2 ob2 s2 where 2: "dn_sai_hash_attr_set e 0 [attr] ob s1 = (st2, ob2, s2)" by (metis prod_cases3)
    have c': "(st, s') = (if st1 \<noteq> SAI_STATUS_SUCCESS then (st1, s1) else (st2, upd_sw (hash_obj_put i ob2) s2))"
      using c Some False 1 2
      by (simp add: hash_set_steps_def dn_sai_hash_obj_node_get_def hash_list_bad_def Let_def
          del: dn_sai_hash_attr_set.simps split: if_splits)
    show ?thesis
    proof (cases "st1 = SAI_STATUS_SUCCESS")
      case True
      then show ?thesis using c' s1 Some False hash_attr_set_result [OF ok 2] by auto
    next
      case False
      then show ?thesis using c' s1 by simp
    qed
  qed
qed

lemma hash_set_attr_steps:
  assumes "dn_sai_hash_obj_set_attr e i attr s = Some (st, s')"
  shows "st \<noteq> SAI_STATUS_SUCCESS \<and> s' = s \<or> \<not> hash_locked (sw s) \<and> hash_set_steps e i attr s = (st, s')"
  using assms by (auto simp: dn_sai_hash_obj_set_attr_def Let_def with_lock_def split: if_splits)

lemma hash_set_attr_inv:
  assumes ok: "hash_env_ok e" and inv: "hash_inv e (sw s)"
    and c: "dn_sai_hash_obj_set_attr e i attr s = Some (st, s')"
  shows "hash_inv e (sw s')"
proof -
  have "hash_inv e ((sw s)\<lparr>hash_locked := True\<rparr>) = hash_inv e (sw s)"
    by (rule hash_same_inv) (simp add: hash_same_def)
  then have "hash_inv e (sw s')" if "hash_set_steps e i attr s = (st, s')"
    using hash_set_steps_result [OF ok that] hash_inv_lists [OF inv] inv by (auto split: if_splits)
  then show ?thesis using hash_set_attr_steps [OF c] inv by blast
qed

section \<open>The attributes of the switch\<close>

lemma switch_hash_set_result:
  assumes c: "switch_hash_set_steps e attr_id i s = (st, s')"
  shows "sw s' = (sw s)\<lparr>hash_locked := True\<rparr> \<and> st = SAI_STATUS_INVALID_OBJECT_TYPE \<and>
      i \<noteq> SAI_NULL_OBJECT_ID \<and> lib_object_type (hlib e) i \<noteq> SAI_OBJECT_TYPE_HASH \<or>
    st \<noteq> SAI_STATUS_SUCCESS \<and> sw s' = sw s \<or>
    st = SAI_STATUS_SUCCESS \<and> (i \<noteq> SAI_NULL_OBJECT_ID \<longrightarrow> tree_get (hash_obj_tree (sw s)) i \<noteq> None) \<and>
      sw s' = hash_pointed (dn_sai_switch_attr_id_to_hash_type e attr_id)
        (if i = SAI_NULL_OBJECT_ID then None else Some i) (sw s)"
  using c
  by (auto simp: switch_hash_set_steps_def Let_def leak_lock_def dn_sai_hash_obj_node_get_def hash_pointed_def
      dn_sai_switch_attr_hash_obj_get_def dn_sai_switch_attr_hash_obj_set_def
      split: if_splits option.splits prod.splits dest!: ext_call_sw)

lemma switch_hash_set_inv:
  assumes inv: "hash_inv e (sw s)" and c: "dn_sai_switch_hash_attr_set e attr_id i s = Some (st, s')"
  shows "hash_inv e (sw s')"
proof -
  have "hash_inv e ((sw s)\<lparr>hash_locked := True\<rparr>) = hash_inv e (sw s)"
    by (rule hash_same_inv) (simp add: hash_same_def)
  moreover have "switch_hash_set_steps e attr_id i s = (st, s')"
    using c by (auto simp: dn_sai_switch_hash_attr_set_def with_lock_def split: if_splits)
  ultimately show ?thesis
    using switch_hash_set_result [of e attr_id i s st s'] inv
    by (auto intro!: hash_inv_pointed [OF inv] split: if_splits)
qed

end
