(* ===== verification/Hash_System.thy ===== *)
theory Hash_System
  imports Hash_Ops
begin

text \<open>
  The hash objects together with the UDF component they read, as one state machine: the calls of both,
  in any order, whatever fails outside.
\<close>

section \<open>Calls\<close>

datatype hash_call =
    HashInit
  | HashDeinit
  | HashCreate "hash_attr list"
  | HashRemove oid
  | HashSet oid hash_attr
  | HashGet oid "hash_attr list"
  | SwitchHashSet switch_hash_attr oid
  | SwitchHashGet switch_hash_attr
  | HashUdf udf_call

text \<open>A call of the UDF component sees its own database and the world, and nothing of the hash objects.\<close>

definition udf_part :: "'h hash_state \<Rightarrow> 'h udf_state" where
  "udf_part s = \<lparr>sw = hash_udf (sw s), ext = ext s\<rparr>"

definition in_udf :: "('h udf_state \<Rightarrow> 'a \<times> 'h udf_state) \<Rightarrow> 'h hash_state \<Rightarrow> 'a \<times> 'h hash_state" where
  "in_udf f s = (let (r, u) = f (udf_part s) in (r, \<lparr>sw = (sw s)\<lparr>hash_udf := sw u\<rparr>, ext = ext u\<rparr>))"

definition hash_exec :: "'h udf_env \<Rightarrow> 'h hash_env \<Rightarrow> hash_call \<Rightarrow> 'h hash_state \<Rightarrow> (sai_status \<times> 'h hash_state) option" where
  "hash_exec ue e c s =
     (case c of
        HashInit \<Rightarrow> sai_hash_obj_init e s
      | HashDeinit \<Rightarrow> map_option (Pair SAI_STATUS_SUCCESS) (sai_hash_obj_deinit e s)
      | HashCreate attrs \<Rightarrow> map_option (\<lambda>(st, out, s). (st, s)) (dn_sai_hash_obj_create e attrs s)
      | HashRemove i \<Rightarrow> dn_sai_hash_obj_remove e i s
      | HashSet i attr \<Rightarrow> dn_sai_hash_obj_set_attr e i attr s
      | HashGet i attrs \<Rightarrow> map_option (\<lambda>(st, attrs). (st, s)) (dn_sai_hash_obj_get_attr e i attrs s)
      | SwitchHashSet a i \<Rightarrow> dn_sai_switch_hash_attr_set e a i s
      | SwitchHashGet a \<Rightarrow> map_option (\<lambda>_. (SAI_STATUS_SUCCESS, s)) (dn_sai_switch_hash_attr_get e a s)
      | HashUdf uc \<Rightarrow> Some (in_udf (udf_exec ue uc) s))"

text \<open>A call of a component needs that component to be initialised.\<close>

definition hash_enabled :: "hash_call \<Rightarrow> hash_db \<Rightarrow> bool" where
  "hash_enabled c d \<longleftrightarrow>
     (case c of HashInit \<Rightarrow> udf_init_complete (hash_udf d) | HashDeinit \<Rightarrow> True
      | HashUdf uc \<Rightarrow> udf_enabled uc (hash_udf d)
      | _ \<Rightarrow> hash_init_complete d)"

definition hash_db_zero :: hash_db where
  "hash_db_zero =
     \<lparr>hash_obj_tree = [], hash_obj_types = (\<lambda>_. None), hash_index_bitmap = [], hash_init_complete = False,
      hash_locked = False, hash_udf = udf_global_zero\<rparr>"

inductive hash_reachable :: "'h udf_env \<Rightarrow> 'h hash_env \<Rightarrow> 'h hash_state \<Rightarrow> bool" for ue e where
  hash_start: "sw s = hash_db_zero \<Longrightarrow> hash_reachable ue e s"
| hash_step: "hash_reachable ue e s \<Longrightarrow> hash_enabled c (sw s) \<Longrightarrow> hash_exec ue e c s = Some (st, s') \<Longrightarrow>
    hash_reachable ue e s'"

inductive_cases hash_reachableE: "hash_reachable ue e s"

section \<open>Initialisation\<close>

lemma hash_inv_clear: "hash_inv e (hash_db_clear d)"
  by (simp add: hash_inv_def hash_db_clear_def)

text \<open>
  The default objects are made and removed with the calls of the API: what those keep, and no call
  outside touches, is kept.
\<close>

definition api_keeps :: "'h hash_env \<Rightarrow> ('h hash_state \<Rightarrow> bool) \<Rightarrow> bool" where
  "api_keeps e P \<longleftrightarrow>
     (\<forall>s s'. sw s' = sw s \<longrightarrow> P s \<longrightarrow> P s') \<and>
     (\<forall>attrs s st out s'. dn_sai_hash_obj_create e attrs s = Some (st, out, s') \<longrightarrow> P s \<longrightarrow> P s') \<and>
     (\<forall>i s st s'. dn_sai_hash_obj_remove e i s = Some (st, s') \<longrightarrow> P s \<longrightarrow> P s') \<and>
     (\<forall>a i s st s'. dn_sai_switch_hash_attr_set e a i s = Some (st, s') \<longrightarrow> P s \<longrightarrow> P s')"

lemma api_keepsD:
  assumes "api_keeps e P"
  shows "sw s' = sw s \<Longrightarrow> P s \<Longrightarrow> P s'"
    "dn_sai_hash_obj_create e attrs s = Some (st, out, s') \<Longrightarrow> P s \<Longrightarrow> P s'"
    "dn_sai_hash_obj_remove e i s = Some (st, s') \<Longrightarrow> P s \<Longrightarrow> P s'"
    "dn_sai_switch_hash_attr_set e a i s = Some (st, s') \<Longrightarrow> P s \<Longrightarrow> P s'"
  using assms unfolding api_keeps_def by blast+

lemma default_create_keeps:
  assumes K: "api_keeps e P" and "P s" and c: "dn_sai_hash_default_hash_obj_create e a s = Some (st, s')"
  shows "P s'"
proof -
  obtain st1 fields s1 where 1: "ext_call (sai_switch_default_native_hash_fields_get e) s = ((st1, fields), s1)"
    by (metis surj_pair)
  have p1: "P s1" using api_keepsD(1) [OF K ext_call_sw [OF 1] assms(2)] .
  show ?thesis
  proof (cases "st1 = SAI_STATUS_SUCCESS")
    case False
    then show ?thesis using c 1 p1 by (simp add: dn_sai_hash_default_hash_obj_create_def)
  next
    case True
    note c' = c [unfolded dn_sai_hash_default_hash_obj_create_def 1 Let_def, simplified True, simplified]
    obtain st2 out s2 where 2: "dn_sai_hash_obj_create e
        [SAI_HASH_NATIVE_FIELD_LIST \<lparr>sl_count = of_nat (length fields), sl_list = Some fields\<rparr>] s1 = Some (st2, out, s2)"
      using c' by (auto split: option.splits)
    have p2: "P s2" by (rule api_keepsD(2) [OF K 2 p1])
    show ?thesis
    proof (cases out)
      case None
      then show ?thesis using c' 2 p2 by simp
    next
      case (Some i)
      then obtain st3 s3 where 3: "dn_sai_switch_hash_attr_set e a i s2 = Some (st3, s3)"
        using c' 2 by (auto split: option.splits)
      have p3: "P s3" by (rule api_keepsD(4) [OF K 3 p2])
      show ?thesis
        using c' 2 3 p3 Some api_keepsD(3) [OF K, of i s3] by (auto split: if_splits)
    qed
  qed
qed

lemma default_remove_keeps:
  assumes K: "api_keeps e P" and "P s" and c: "dn_sai_hash_default_hash_obj_remove e a s = Some (st, s')"
  shows "P s'"
proof (cases "dn_sai_switch_attr_hash_obj_get e (sw s) a")
  case None
  then show ?thesis using assms by (simp add: dn_sai_hash_default_hash_obj_remove_def)
next
  case (Some i)
  then obtain st1 s1 where 1: "dn_sai_switch_hash_attr_set e a SAI_NULL_OBJECT_ID s = Some (st1, s1)"
    using c by (auto simp: dn_sai_hash_default_hash_obj_remove_def split: option.splits)
  have "P s1" by (rule api_keepsD(4) [OF K 1 assms(2)])
  then show ?thesis
    using c Some 1 api_keepsD(3) [OF K, of i s1]
    by (auto simp: dn_sai_hash_default_hash_obj_remove_def split: if_splits)
qed

lemma deinit_keeps:
  assumes K: "api_keeps e P" and "P s" and clear: "\<And>s. P s \<Longrightarrow> P (upd_sw hash_db_clear s)"
    and c: "sai_hash_obj_deinit e s = Some s'"
  shows "P s'"
proof (cases "hash_init_complete (sw s)")
  case False
  then show ?thesis using assms by (auto simp: sai_hash_obj_deinit_def)
next
  case True
  then obtain st1 s1 st2 s2 where 1: "dn_sai_hash_default_hash_obj_remove e SAI_SWITCH_ATTR_ECMP_HASH s = Some (st1, s1)"
    "dn_sai_hash_default_hash_obj_remove e SAI_SWITCH_ATTR_LAG_HASH s1 = Some (st2, s2)" "s' = upd_sw hash_db_clear s2"
    using c by (auto simp: sai_hash_obj_deinit_def bind_eq_Some_conv)
  then show ?thesis using clear default_remove_keeps [OF K] assms(2) by blast
qed

lemma init_steps_keep:
  assumes K: "api_keeps e P" and "P s" and c: "hash_init_steps e s = Some (st, s')"
    and bits: "\<And>s bits. P s \<Longrightarrow> length bits = DN_SAI_MAX_HASH_INDEX \<Longrightarrow> sw s = sw s0 \<Longrightarrow>
      P (upd_sw (\<lambda>d. d\<lparr>hash_index_bitmap := bits\<rparr>) s)"
    and fin: "\<And>s. P s \<Longrightarrow> P (upd_sw (\<lambda>d. d\<lparr>hash_init_complete := True\<rparr>) s)"
    and ok: "hash_env_ok e" and s0: "sw s = sw s0"
  shows "P s'"
proof -
  obtain k s1 where 1: "ext_call (lib_rbtree_create_ok (hlib e)) s = (k, s1)" by force
  have p1: "P s1" using api_keepsD(1) [OF K ext_call_sw [OF 1] assms(2)] .
  obtain bm s2 where 2: "ext_call (std_bitmap_create_array e DN_SAI_MAX_HASH_INDEX) s1 = (bm, s2)" by force
  have p2: "P s2" using api_keepsD(1) [OF K ext_call_sw [OF 2] p1] .
  have sw2: "sw s2 = sw s0" using ext_call_sw [OF 1] ext_call_sw [OF 2] s0 by simp
  consider "\<not> k" | "k" "bm = None" | b where "k" "bm = Some b" by blast
  then show ?thesis
  proof cases
    case (3 b)
    let ?s3 = "upd_sw (\<lambda>d. d\<lparr>hash_index_bitmap := b\<rparr>) s2"
    have "length b = DN_SAI_MAX_HASH_INDEX"
      using 2 3 hash_env_okD(4) [OF ok] by (auto simp: ext_call_def split: prod.splits)
    then have p3: "P ?s3" using bits p2 sw2 by blast
    obtain st4 s4 where 4: "dn_sai_hash_default_hash_obj_create e SAI_SWITCH_ATTR_ECMP_HASH ?s3 = Some (st4, s4)"
      using c 1 2 3 by (auto simp: hash_init_steps_def bind_eq_Some_conv Let_def)
    have p4: "P s4" by (rule default_create_keeps [OF K p3 4])
    show ?thesis
      using c 1 2 3 4 p4 fin default_create_keeps [OF K p4]
      by (auto simp: hash_init_steps_def Let_def split: if_splits)
  qed (use c 1 2 p1 p2 in \<open>auto simp: hash_init_steps_def Let_def\<close>)
qed

lemma api_keeps_inv:
  assumes "hash_env_ok e"
  shows "api_keeps e (\<lambda>s. hash_inv e (sw s))"
  unfolding api_keeps_def
proof (intro conjI allI impI)
  show "hash_inv e (sw s')" if "hash_inv e (sw s)" "dn_sai_hash_obj_create e attrs s = Some (st, out, s')" for attrs s st out s'
    using hash_create_inv [OF assms that] .
  show "hash_inv e (sw s')" if "hash_inv e (sw s)" "dn_sai_hash_obj_remove e i s = Some (st, s')" for i s st s'
    using hash_remove_inv [OF assms that] .
  show "hash_inv e (sw s')" if "hash_inv e (sw s)" "dn_sai_switch_hash_attr_set e a i s = Some (st, s')" for a i s st s'
    using switch_hash_set_inv [OF that] .
qed simp

lemma hash_deinit_inv: "sai_hash_obj_deinit e s = Some s' \<Longrightarrow> hash_inv e (sw s')"
  by (auto simp: sai_hash_obj_deinit_def hash_inv_clear)

lemma hash_inv_bitmap:
  assumes "hash_inv e (hash_db_clear d)" "length bits = DN_SAI_MAX_HASH_INDEX"
  shows "hash_inv e ((hash_db_clear d)\<lparr>hash_index_bitmap := bits\<rparr>)"
  using assms by (simp add: hash_inv_def hash_db_clear_def)

lemma hash_init_inv:
  assumes ok: "hash_env_ok e" and inv: "hash_inv e (sw s)" and c: "sai_hash_obj_init e s = Some (st, s')"
  shows "hash_inv e (sw s')"
proof (cases "hash_init_complete (sw s)")
  case True
  then show ?thesis using c inv by (simp add: sai_hash_obj_init_def)
next
  case False
  let ?s = "upd_sw hash_db_clear s"
  have fin: "hash_inv e (d\<lparr>hash_init_complete := True\<rparr>) = hash_inv e d" for d
    by (rule hash_same_inv) (simp add: hash_same_def)
  have "hash_inv e (sw s2)" if "hash_init_steps e ?s = Some (st2, s2)" for st2 s2
    by (rule init_steps_keep [OF api_keeps_inv [OF ok] _ that _ _ ok refl])
      (simp_all add: hash_inv_clear fin hash_inv_bitmap)
  then show ?thesis
    using c False by (auto simp: sai_hash_obj_init_def bind_eq_Some_conv split: if_splits dest: hash_deinit_inv)
qed

section \<open>Every call\<close>

lemma hash_exec_inv:
  assumes ok: "hash_env_ok e" and inv: "hash_inv e (sw s)" and c: "hash_exec ue e c s = Some (st, s')"
  shows "hash_inv e (sw s')"
proof (cases c)
  case HashInit
  then show ?thesis using c hash_init_inv [OF ok inv] by (simp add: hash_exec_def)
next
  case HashDeinit
  then show ?thesis using c hash_deinit_inv by (auto simp: hash_exec_def)
next
  case (HashCreate attrs)
  then show ?thesis using c hash_create_inv [OF ok inv] by (auto simp: hash_exec_def)
next
  case (HashRemove i)
  then show ?thesis using c hash_remove_inv [OF ok inv] by (simp add: hash_exec_def)
next
  case (HashSet i attr)
  then show ?thesis using c hash_set_attr_inv [OF ok inv] by (simp add: hash_exec_def)
next
  case (SwitchHashSet a i)
  then show ?thesis using c switch_hash_set_inv [OF inv] by (simp add: hash_exec_def)
next
  case (HashUdf uc)
  have "hash_inv e ((sw s)\<lparr>hash_udf := u\<rparr>) = hash_inv e (sw s)" for u
    by (rule hash_same_inv) (simp add: hash_same_def)
  then show ?thesis using c inv HashUdf by (auto simp: hash_exec_def in_udf_def split: prod.splits)
qed (use c inv in \<open>auto simp: hash_exec_def\<close>)

text \<open>Only the calls of the UDF component change its database.\<close>

lemma hash_attr_set_udf: "hash_env_ok e \<Longrightarrow> dn_sai_hash_attr_set e k as ob s = (st, ob', s') \<Longrightarrow> sw s' = sw s"
  using hash_attr_set_result by blast

definition udf_kept :: "'h hash_state \<Rightarrow> 'h hash_state \<Rightarrow> bool" where
  "udf_kept s s' \<longleftrightarrow> hash_udf (sw s') = hash_udf (sw s)"

lemma udf_kept_refl [simp]: "udf_kept s s"
  by (simp add: udf_kept_def)

lemma udf_kept_trans: "udf_kept s s1 \<Longrightarrow> udf_kept s1 s' \<Longrightarrow> udf_kept s s'"
  by (simp add: udf_kept_def)

lemma hash_create_udf:
  assumes ok: "hash_env_ok e" and c: "dn_sai_hash_obj_create e attrs s = Some (st, out, s')"
  shows "udf_kept s s'"
proof -
  obtain r s1 where 1: "hash_create_pick e attrs s = (r, s1)" by force
  have k1: "sw s1 = sw s" using hash_create_pick_result [OF ok 1] by simp
  show ?thesis
  proof (cases r)
    case (Inr k)
    obtain st1 i s2 where 2: "hash_create_insert e attrs k s1 = (st1, i, s2)" by (metis prod_cases3)
    have "hash_udf (sw s2) = hash_udf (sw s1)"
      using hash_create_insert_result [OF ok 2] by (auto split: if_splits)
    then show ?thesis using c 1 2 k1 Inr
      by (auto simp: dn_sai_hash_obj_create_def with_lock_def hash_create_finish_def udf_kept_def split: if_splits)
  qed (use c 1 k1 in \<open>auto simp: dn_sai_hash_obj_create_def udf_kept_def\<close>)
qed

lemma hash_remove_udf: "dn_sai_hash_obj_remove e i s = Some (st, s') \<Longrightarrow> udf_kept s s'"
  by (auto simp: dn_sai_hash_obj_remove_def hash_remove_steps_def with_lock_def udf_kept_def Let_def
      split: if_splits option.splits)

lemma hash_set_udf: "hash_env_ok e \<Longrightarrow> dn_sai_hash_obj_set_attr e i attr s = Some (st, s') \<Longrightarrow> udf_kept s s'"
  using hash_set_attr_steps [of e i attr s st s'] hash_set_steps_result [of e i attr s st s']
  by (auto simp: udf_kept_def split: if_splits)

lemma switch_hash_set_udf: "dn_sai_switch_hash_attr_set e a i s = Some (st, s') \<Longrightarrow> udf_kept s s'"
  using switch_hash_set_result [of e a i s st s']
  by (auto simp: dn_sai_switch_hash_attr_set_def with_lock_def udf_kept_def hash_pointed_def split: if_splits)

lemma api_keeps_udf: "hash_env_ok e \<Longrightarrow> api_keeps e (\<lambda>s. hash_udf (sw s) = u)"
  unfolding api_keeps_def
  using hash_create_udf [of e] hash_remove_udf [of e] switch_hash_set_udf [of e] by (auto simp: udf_kept_def)

lemma hash_deinit_udf:
  assumes "hash_env_ok e" "sai_hash_obj_deinit e s = Some s'"
  shows "udf_kept s s'"
  using deinit_keeps [OF api_keeps_udf [OF assms(1)] refl _ assms(2)] by (simp add: udf_kept_def hash_db_clear_def)

lemma hash_init_udf:
  assumes ok: "hash_env_ok e" and c: "sai_hash_obj_init e s = Some (st, s')"
  shows "udf_kept s s'"
proof (cases "hash_init_complete (sw s)")
  case True
  then show ?thesis using c by (simp add: sai_hash_obj_init_def)
next
  case False
  let ?s = "upd_sw hash_db_clear s"
  have start: "hash_udf (sw ?s) = hash_udf (sw s)" by (simp add: hash_db_clear_def)
  have "udf_kept s s2" if "hash_init_steps e ?s = Some (st2, s2)" for st2 s2
    using init_steps_keep [OF api_keeps_udf [OF ok] start that _ _ ok refl] by (simp add: udf_kept_def)
  then show ?thesis
    using c False
    by (auto simp: sai_hash_obj_init_def bind_eq_Some_conv split: if_splits
        dest!: hash_deinit_udf [OF ok] intro: udf_kept_trans)
qed

lemma hash_exec_udf:
  assumes ok: "hash_env_ok e" and c: "hash_exec ue e c s = Some (st, s')" and "\<forall>uc. c \<noteq> HashUdf uc"
  shows "udf_kept s s'"
  using assms(2,3)
  by (cases c)
    (auto simp: hash_exec_def dest: hash_init_udf [OF ok] hash_deinit_udf [OF ok] hash_create_udf [OF ok] hash_remove_udf
      hash_set_udf [OF ok] switch_hash_set_udf)

section \<open>Reachable states\<close>

lemma hash_reachable_sys:
  assumes "hash_env_ok e" "lib_ok (ulib ue)"
  shows "hash_reachable ue e s \<Longrightarrow> hash_inv e (sw s) \<and> udf_sys (hash_udf (sw s))"
proof (induction rule: hash_reachable.induct)
  case (hash_start s)
  then show ?case by (simp add: hash_inv_def hash_db_zero_def udf_sys_def udf_global_zero_def)
next
  case (hash_step s c st s')
  then have inv: "hash_inv e (sw s')" using hash_exec_inv [OF assms(1)] by blast
  show ?case
  proof (cases "\<exists>uc. c = HashUdf uc")
    case True
    then obtain uc where uc: "c = HashUdf uc" by blast
    obtain r u where u: "udf_exec ue uc (udf_part s) = (r, u)" by force
    have "udf_sys (sw (udf_part s))" using hash_step.IH by (simp add: udf_part_def)
    moreover have "udf_enabled uc (sw (udf_part s))" using hash_step.hyps(2) uc by (simp add: hash_enabled_def udf_part_def)
    ultimately have "udf_sys (sw u)" using udf_exec_sys [OF assms(2) _ _ u] by blast
    then show ?thesis using inv hash_step.hyps(3) u uc by (auto simp: hash_exec_def in_udf_def)
  next
    case False
    then show ?thesis using inv hash_step hash_exec_udf [OF assms(1), of ue c s st s'] by (auto simp: udf_kept_def)
  qed
qed

end
