(* ===== verification/Sai_Demo.thy ===== *)
theory Sai_Demo
  imports Sai_Lib
begin

text \<open>
  A common library that has the documented behaviour \<open>lib_ok\<close>, at which the properties of the
  components are applied: object ids hold the type above a 48 bit index, every allocation and insertion
  succeeds, and a list of attributes is accepted exactly when its table allows it.
\<close>

definition type_code :: "sai_object_type \<Rightarrow> u64" where
  "type_code ty =
     (case ty of
        SAI_OBJECT_TYPE_PORT \<Rightarrow> 1 | SAI_OBJECT_TYPE_LAG \<Rightarrow> 2 | SAI_OBJECT_TYPE_VIRTUAL_ROUTER \<Rightarrow> 3
      | SAI_OBJECT_TYPE_ROUTER_INTERFACE \<Rightarrow> 4 | SAI_OBJECT_TYPE_NEXT_HOP \<Rightarrow> 5
      | SAI_OBJECT_TYPE_NEXT_HOP_GROUP \<Rightarrow> 6 | SAI_OBJECT_TYPE_UDF \<Rightarrow> 7 | SAI_OBJECT_TYPE_UDF_MATCH \<Rightarrow> 8
      | SAI_OBJECT_TYPE_UDF_GROUP \<Rightarrow> 9 | SAI_OBJECT_TYPE_HASH \<Rightarrow> 10
      | SAI_OBJECT_TYPE_STP_INSTANCE \<Rightarrow> 11 | SAI_OBJECT_TYPE_LAG_MEMBER \<Rightarrow> 12 | SAI_OBJECT_TYPE_MIRROR \<Rightarrow> 13
      | SAI_OBJECT_TYPE_SAMPLEPACKET \<Rightarrow> 14 | SAI_OBJECT_TYPE_POLICER \<Rightarrow> 15
      | SAI_OBJECT_TYPE_QUEUE \<Rightarrow> 16 | SAI_OBJECT_TYPE_PRIORITY_GROUP \<Rightarrow> 17 | SAI_OBJECT_TYPE _ \<Rightarrow> 0)"

definition code_type :: "u64 \<Rightarrow> sai_object_type" where
  "code_type c =
     (if c = 1 then SAI_OBJECT_TYPE_PORT else if c = 2 then SAI_OBJECT_TYPE_LAG
      else if c = 3 then SAI_OBJECT_TYPE_VIRTUAL_ROUTER else if c = 4 then SAI_OBJECT_TYPE_ROUTER_INTERFACE
      else if c = 5 then SAI_OBJECT_TYPE_NEXT_HOP else if c = 6 then SAI_OBJECT_TYPE_NEXT_HOP_GROUP
      else if c = 7 then SAI_OBJECT_TYPE_UDF else if c = 8 then SAI_OBJECT_TYPE_UDF_MATCH
      else if c = 9 then SAI_OBJECT_TYPE_UDF_GROUP else if c = 10 then SAI_OBJECT_TYPE_HASH
      else if c = 11 then SAI_OBJECT_TYPE_STP_INSTANCE else if c = 12 then SAI_OBJECT_TYPE_LAG_MEMBER
      else if c = 13 then SAI_OBJECT_TYPE_MIRROR else if c = 14 then SAI_OBJECT_TYPE_SAMPLEPACKET
      else if c = 15 then SAI_OBJECT_TYPE_POLICER else if c = 16 then SAI_OBJECT_TYPE_QUEUE
      else if c = 17 then SAI_OBJECT_TYPE_PRIORITY_GROUP
      else SAI_OBJECT_TYPE 0)"

definition demo_oid :: "sai_object_type \<Rightarrow> u64 \<Rightarrow> oid" where
  "demo_oid ty i = push_bit 48 (type_code ty) OR take_bit 48 i"

definition demo_lib :: "'h sai_lib" where
  "demo_lib =
     \<lparr>lib_object_type = (\<lambda>x. code_type (drop_bit 48 x)), lib_uoid_create = demo_oid,
      lib_npu_obj_id = take_bit 48, lib_indexed_ret_val = (\<lambda>st i. st),
      lib_attribute_validate = (\<lambda>tab opr ids.
        if attrs_accepted tab opr ids then SAI_STATUS_SUCCESS else SAI_STATUS_INVALID_ATTRIBUTE_0),
      lib_calloc_ok = (\<lambda>h. (True, h)), lib_rbtree_create_ok = (\<lambda>h. (True, h)),
      lib_rbtree_insert_ok = (\<lambda>h. (True, h))\<rparr>"

lemma drop_demo_oid: "drop_bit 48 (demo_oid ty i) = type_code ty"
proof -
  have "drop_bit 48 (push_bit 48 (type_code ty)) = type_code ty" by (cases ty) (simp_all add: type_code_def)
  moreover have "drop_bit 48 (take_bit 48 i) = (0 :: u64)" by (simp add: drop_bit_take_bit)
  ultimately show ?thesis by (simp add: demo_oid_def drop_bit_or)
qed

lemma take_demo_oid: "take_bit 48 (demo_oid ty i) = take_bit 48 i"
  by (simp add: demo_oid_def take_bit_push_bit)

lemma demo_lib_ok: "lib_ok demo_lib"
proof -
  have "code_type (type_code ty) = ty" if "named_type ty" for ty
    using that by (cases ty) (simp_all add: named_type_def code_type_def type_code_def)
  moreover have "take_bit 48 i = i" if "i < 2 ^ 48" for i :: u64
    using that by (simp add: take_bit_eq_mod mod_word_less)
  ultimately show ?thesis
    by (simp add: lib_ok_def demo_lib_def drop_demo_oid take_demo_oid split: if_splits)
qed

lemma demo_insert_total: "insert_total demo_lib"
  by (simp add: insert_total_def demo_lib_def)

end
