(* ===== verification/Hash_Properties.thy ===== *)
theory Hash_Properties
  imports Hash_System Sai_Demo
begin

text \<open>
  The properties of the hash objects (\<^verbatim>\<open>src/src/hash\<close>), alone and together with the UDF component, each
  with its use on a concrete history.
\<close>

section \<open>A concrete environment and history\<close>

text \<open>
  The search for a free index starts at the first. The switch accepts every list of fields but the one that starts with
  field 0, and counts the calls. The UDF layer of the hardware counts the objects it creates.
\<close>

fun first_bit :: "bool list \<Rightarrow> nat option" where
  "first_bit [] = None"
| "first_bit (b # bs) = (if b then Some 0 else map_option Suc (first_bit bs))"

definition demo_hash_env :: "u64 hash_env" where
  "demo_hash_env =
     \<lparr>hlib = demo_lib, std_translate = translate_spec, std_find_first_bit = first_bit,
      std_bitmap_create_array = (\<lambda>n h. (Some (replicate n True), h)),
      sai_switch_default_native_hash_fields_get = (\<lambda>h. ((SAI_STATUS_SUCCESS, [1, 2]), h)),
      switch_hash_fields_set = (\<lambda>a nf ug h. (if take 1 nf = [0] then SAI_STATUS_FAILURE else SAI_STATUS_SUCCESS, h + 1)),
      uninit_status = SAI_STATUS_FAILURE\<rparr>"

lemma first_bit_spec:
  "first_bit bs = Some k \<Longrightarrow> k < length bs \<and> bs ! k"
  "first_bit bs = None \<Longrightarrow> j < length bs \<Longrightarrow> \<not> bs ! j"
  by (induction bs arbitrary: k j) (auto split: if_splits simp: less_Suc_eq_0_disj nth_Cons')

lemma demo_hash_env_ok: "hash_env_ok demo_hash_env"
  unfolding hash_env_ok_def by (auto simp: demo_hash_env_def demo_lib_ok first_bit_spec)

definition demo_hash_udf_env :: "u64 udf_env" where
  "demo_hash_udf_env =
     \<lparr>ulib = demo_lib,
      udf_npu =
        \<lparr>npu_udf_init = (\<lambda>h. (SAI_STATUS_SUCCESS, h)), npu_udf_deinit = (\<lambda>h. ((), h)),
         npu_udf_group_create = (\<lambda>g h. ((SAI_STATUS_SUCCESS, h), h + 1)),
         npu_udf_group_remove = (\<lambda>g h. (SAI_STATUS_SUCCESS, h)),
         npu_udf_group_hw_id_get = (\<lambda>g h. ((SAI_STATUS_SUCCESS, 0), h)),
         npu_udf_create = (\<lambda>v h. ((SAI_STATUS_SUCCESS, h), h + 1)),
         npu_udf_remove = (\<lambda>v h. (SAI_STATUS_SUCCESS, h)),
         npu_udf_attribute_set = (\<lambda>v a h. (SAI_STATUS_SUCCESS, h)),
         npu_udf_match_create = (\<lambda>attrs h. ((SAI_STATUS_SUCCESS, h), h + 1)),
         npu_udf_match_remove = (\<lambda>i h. (SAI_STATUS_SUCCESS, h)),
         npu_udf_match_attribute_get = (\<lambda>i attrs h. ((SAI_STATUS_SUCCESS, attrs), h))\<rparr>,
      SAI_UDF_DFLT_HASH_MASK_COUNT = 2\<rparr>"

lemma demo_hash_lib [simp]:
  "lib_ok (ulib demo_hash_udf_env)" "hlib demo_hash_env = demo_lib" "ulib demo_hash_udf_env = demo_lib"
  by (simp_all add: demo_hash_udf_env_def demo_hash_env_def demo_lib_ok)

abbreviation demo_hash :: "u64 \<Rightarrow> oid" where "demo_hash k \<equiv> demo_oid SAI_OBJECT_TYPE_HASH k"
abbreviation demo_hash_group :: oid where "demo_hash_group \<equiv> demo_oid SAI_OBJECT_TYPE_UDF_GROUP 3"

definition demo_groups :: "oid sai_list" where
  "demo_groups = \<lparr>sl_count = 1, sl_list = Some [demo_hash_group]\<rparr>"

definition demo_fields :: "u32 list \<Rightarrow> u32 sai_list" where
  "demo_fields xs = \<lparr>sl_count = of_nat (length xs), sl_list = Some xs\<rparr>"

text \<open>After both components came up: a UDF group, and a hash object that lists it.\<close>

definition demo_hash_calls :: "hash_call list" where
  "demo_hash_calls =
     [HashUdf UdfInit, HashInit,
      HashUdf (UdfGroupCreate [SAI_UDF_GROUP_ATTR_TYPE SAI_UDF_GROUP_HASH, SAI_UDF_ATTR_LENGTH 2]),
      HashCreate [SAI_HASH_NATIVE_FIELD_LIST (demo_fields [3, 4]), SAI_HASH_UDF_GROUP_LIST demo_groups]]"

definition hash_few :: "hash_call \<Rightarrow> hash_db \<Rightarrow> bool" where
  "hash_few c d \<longleftrightarrow>
     (case c of HashInit \<Rightarrow> udf_init_complete (hash_udf d)
      | HashUdf uc \<Rightarrow> (case uc of UdfInit \<Rightarrow> True | _ \<Rightarrow> udf_init_complete (hash_udf d) \<and> udf_next_addr (hash_udf d) < 50)
      | _ \<Rightarrow> hash_init_complete d)"

lemma hash_few_enabled: "hash_few c d \<Longrightarrow> hash_enabled c d"
  by (auto simp: hash_few_def hash_enabled_def udf_enabled_def udf_small_def split: hash_call.splits udf_call.splits)

fun hash_run :: "'h udf_env \<Rightarrow> 'h hash_env \<Rightarrow> hash_call list \<Rightarrow> 'h hash_state \<Rightarrow> 'h hash_state option" where
  "hash_run ue e [] s = Some s"
| "hash_run ue e (c # cs) s =
     (if hash_few c (sw s) then Option.bind (hash_exec ue e c s) (\<lambda>(st, s). hash_run ue e cs s) else None)"

lemma hash_run_reachable: "hash_run ue e cs s = Some s' \<Longrightarrow> hash_reachable ue e s \<Longrightarrow> hash_reachable ue e s'"
proof (induction cs arbitrary: s)
  case (Cons c cs)
  then obtain st s1 where "hash_enabled c (sw s)" "hash_exec ue e c s = Some (st, s1)" "hash_run ue e cs s1 = Some s'"
    by (auto simp: bind_eq_Some_conv hash_few_enabled split: if_splits)
  then show ?case using Cons.IH hash_step [OF Cons.prems(2)] by blast
qed simp

definition demo_hash_state :: "u64 hash_state" where
  "demo_hash_state = the (hash_run demo_hash_udf_env demo_hash_env demo_hash_calls \<lparr>sw = hash_db_zero, ext = 1\<rparr>)"

lemma demo_hash_reachable: "hash_reachable demo_hash_udf_env demo_hash_env demo_hash_state"
proof -
  have "hash_run demo_hash_udf_env demo_hash_env demo_hash_calls \<lparr>sw = hash_db_zero, ext = 1\<rparr> \<noteq> None" by code_simp
  then obtain s where "hash_run demo_hash_udf_env demo_hash_env demo_hash_calls \<lparr>sw = hash_db_zero, ext = 1\<rparr> = Some s"
    by blast
  from hash_run_reachable [OF this hash_start] this show ?thesis by (simp add: demo_hash_state_def)
qed

lemma demo_hash_inv: "hash_inv demo_hash_env (sw demo_hash_state)"
  using hash_reachable_sys [OF demo_hash_env_ok demo_hash_lib(1) demo_hash_reachable] by simp

section \<open>The database\<close>

text \<open>
  C18: in any sequence of calls of the hash objects and of the UDF component, whatever fails outside, each
  hash object is counted by exactly the attributes of the switch that point to it, every such pointer is
  to a live object, the index of an object is not free, and the UDF database is consistent.
\<close>

theorem hash_reachable_invariant:
  assumes "hash_env_ok e" and "lib_ok (ulib ue)" and "hash_reachable ue e s"
  shows "hash_inv e (sw s) \<and> (if udf_init_complete (hash_udf (sw s)) then udf_inv (hash_udf (sw s)) else True)"
  using hash_reachable_sys [OF assms] by (simp add: udf_sys_def)

theorem hash_reachable_invariant_witness:
  "hash_inv demo_hash_env (sw demo_hash_state) \<and> udf_inv (hash_udf (sw demo_hash_state))"
proof -
  have "udf_init_complete (hash_udf (sw demo_hash_state))" by code_simp
  with hash_reachable_invariant [OF demo_hash_env_ok demo_hash_lib(1) demo_hash_reachable] show ?thesis by simp
qed

text \<open>
  A creation that succeeds adds one object, under an id that no object had, with the lists of the
  attributes and no references, and points no attribute of the switch anywhere else; one that fails
  changes nothing. So sequential creations never collide.
\<close>

theorem hash_create_effect:
  assumes "hash_env_ok e" and "insert_total (hlib e)" and "hash_inv e (sw s)"
    and "dn_sai_hash_obj_create e attrs s = Some (st, out, s')"
  shows "if st = SAI_STATUS_SUCCESS
    then \<exists>i. out = Some i \<and> tree_get (hash_obj_tree (sw s)) i = None \<and>
      tree_get (hash_obj_tree (sw s')) = (tree_get (hash_obj_tree (sw s)))(i \<mapsto> hash_made i attrs) \<and>
      hash_obj_types (sw s') = hash_obj_types (sw s)
    else out = None \<and> sw s' = sw s"
  using hash_create_result [OF assms(1,3,4)] assms(2) free_index [OF assms(1,3)]
  by (auto simp: hash_taken_def fun_eq_iff split: if_splits)

definition demo_hash_create :: "(sai_status \<times> oid option \<times> u64 hash_state) option" where
  "demo_hash_create = dn_sai_hash_obj_create demo_hash_env [SAI_HASH_NATIVE_FIELD_LIST (demo_fields [7])] demo_hash_state"

theorem hash_create_effect_witness:
  "tree_get (hash_obj_tree (sw (snd (snd (the demo_hash_create))))) (demo_hash 3) =
     Some \<lparr>ho_obj_id = demo_hash 3, ho_native_fields = [7], ho_udf_groups = [], ho_ref_count = 0\<rparr>"
proof -
  have "map_option (\<lambda>(st, out, s). (st, out)) demo_hash_create = Some (SAI_STATUS_SUCCESS, Some (demo_hash 3))"
    by code_simp
  then obtain s' where s': "demo_hash_create = Some (SAI_STATUS_SUCCESS, Some (demo_hash 3), s')" by auto
  moreover have "hash_made (demo_hash 3) [SAI_HASH_NATIVE_FIELD_LIST (demo_fields [7])] =
      \<lparr>ho_obj_id = demo_hash 3, ho_native_fields = [7], ho_udf_groups = [], ho_ref_count = 0\<rparr>" by code_simp
  moreover have "insert_total (hlib demo_hash_env)" by (simp add: demo_insert_total)
  ultimately have "tree_get (hash_obj_tree (sw s')) (demo_hash 3) =
      Some \<lparr>ho_obj_id = demo_hash 3, ho_native_fields = [7], ho_udf_groups = [], ho_ref_count = 0\<rparr>"
    using hash_create_effect [OF demo_hash_env_ok _ demo_hash_inv s' [unfolded demo_hash_create_def]] by auto
  then show ?thesis unfolding s' by simp
qed

text \<open>
  C19: with the lock free, a removal always returns, with the status its arguments determine: it succeeds
  exactly when the object exists and no attribute of the switch points to it. Then the object is gone and
  nothing else; otherwise nothing changes.
\<close>

theorem hash_remove_decided:
  assumes "hash_env_ok e" and "hash_inv e (sw s)" and "\<not> hash_locked (sw s)"
  shows "\<exists>s'. dn_sai_hash_obj_remove e i s = Some (hash_remove_status e i (sw s), s') \<and>
    (if hash_remove_status e i (sw s) = SAI_STATUS_SUCCESS
     then tree_get (hash_obj_tree (sw s')) = (tree_get (hash_obj_tree (sw s)))(i := None) \<and>
       hash_obj_types (sw s') = hash_obj_types (sw s)
     else sw s' = sw s)"
proof -
  have "dn_sai_hash_obj_remove e i s \<noteq> None"
    using assms(3) by (simp add: dn_sai_hash_obj_remove_def with_lock_def)
  then obtain st s' where r: "dn_sai_hash_obj_remove e i s = Some (st, s')" by auto
  note res = hash_remove_result [OF assms(1,2) r]
  show ?thesis
    by (intro exI [where x = s']) (use r res in \<open>auto simp: hash_released_def fun_eq_iff split: if_splits\<close>)
qed

theorem hash_remove_decided_witness:
  "hash_remove_status demo_hash_env (demo_hash 2) (sw demo_hash_state) = SAI_STATUS_SUCCESS \<and>
   hash_remove_status demo_hash_env (demo_hash 0) (sw demo_hash_state) = SAI_STATUS_OBJECT_IN_USE \<and>
   tree_get (hash_obj_tree (sw (snd (the (dn_sai_hash_obj_remove demo_hash_env (demo_hash 2) demo_hash_state))))) (demo_hash 2) = None"
proof -
  have "hash_remove_status demo_hash_env (demo_hash 2) (sw demo_hash_state) = SAI_STATUS_SUCCESS"
    "hash_remove_status demo_hash_env (demo_hash 0) (sw demo_hash_state) = SAI_STATUS_OBJECT_IN_USE"
    "\<not> hash_locked (sw demo_hash_state)" by code_simp+
  with hash_remove_decided [OF demo_hash_env_ok demo_hash_inv, of "demo_hash 2"] show ?thesis by auto
qed

section \<open>The attributes of the switch\<close>

text \<open>
  C20: after an attribute of the switch was set to a hash object, or to none, reading it gives that id
  back, and every other hash attribute reads as before.
\<close>

lemma hash_attr_types_distinct:
  assumes "hash_env_ok e" "a \<in> set dn_switch_hash_attr_id" "b \<in> set dn_switch_hash_attr_id"
    "dn_sai_switch_attr_id_to_hash_type e a = dn_sai_switch_attr_id_to_hash_type e b"
  shows "a = b"
  using assms(2-4) hash_env_okD(5) [OF assms(1)]
  by (auto simp: dn_sai_switch_attr_id_to_hash_type_def dn_switch_hash_attr_id_def dn_sai_hash_obj_types_def)

lemma hash_pointed_id:
  assumes "tree_get (hash_obj_tree (hash_pointed t p d)) i = Some ob'"
  shows "\<exists>ob. tree_get (hash_obj_tree d) i = Some ob \<and> ho_obj_id ob' = ho_obj_id ob"
  using assms by (auto simp: hash_pointed_def ref_count_add_tree split: if_splits)

theorem switch_hash_set_get:
  assumes "hash_env_ok e" and "hash_inv e (sw s)" and "a \<in> set dn_switch_hash_attr_id"
    and "dn_sai_switch_hash_attr_set e a i s = Some (SAI_STATUS_SUCCESS, s')"
  shows "dn_sai_switch_hash_attr_get e a s' = Some i \<and>
    map (\<lambda>b. dn_sai_switch_hash_attr_get e b s') (remove1 a dn_switch_hash_attr_id) =
    map (\<lambda>b. dn_sai_switch_hash_attr_get e b s) (remove1 a dn_switch_hash_attr_id)"
proof -
  let ?t = "dn_sai_switch_attr_id_to_hash_type e"
  let ?p = "if i = SAI_NULL_OBJECT_ID then None else Some i"
  have steps: "\<not> hash_locked (sw s)" "switch_hash_set_steps e a i s = (SAI_STATUS_SUCCESS, s')"
    using assms(4) by (auto simp: dn_sai_switch_hash_attr_set_def with_lock_def split: if_splits)
  then have s': "sw s' = hash_pointed (?t a) ?p (sw s)"
    using switch_hash_set_result [OF steps(2)] by auto
  have inv': "hash_inv e (sw s')" by (rule switch_hash_set_inv [OF assms(2,4)])
  have get: "dn_sai_switch_hash_attr_get e b r =
      Some (case hash_obj_types (sw r) (?t b) of None \<Rightarrow> SAI_NULL_OBJECT_ID | Some j \<Rightarrow> j)"
    if "hash_inv e (sw r)" "\<not> hash_locked (sw r)" for b r
    using hash_invD(2) [OF that(1)] that
    by (auto simp: dn_sai_switch_hash_attr_get_def with_lock_def dn_sai_switch_attr_hash_obj_get_def
        dn_sai_hash_obj_node_get_def hash_obj_ok_def split: option.splits)
  have l: "\<not> hash_locked (sw s')" using steps(1) s' by (simp add: hash_pointed_def)
  have ty: "hash_obj_types (sw s') = (hash_obj_types (sw s))(?t a := ?p)" by (simp add: s' hash_pointed_def)
  have "?t b \<noteq> ?t a" if "b \<in> set (remove1 a dn_switch_hash_attr_id)" for b
  proof -
    have "distinct dn_switch_hash_attr_id" by (simp add: dn_switch_hash_attr_id_def)
    with that have "b \<in> set dn_switch_hash_attr_id" "b \<noteq> a" by (simp_all add: set_remove1_eq)
    then show ?thesis using hash_attr_types_distinct [OF assms(1) _ assms(3)] by blast
  qed
  then show ?thesis
    by (simp add: get [OF inv' l] get [OF assms(2) steps(1)] ty)
qed

definition demo_hash_pointed :: "u64 hash_state" where
  "demo_hash_pointed =
     snd (the (dn_sai_switch_hash_attr_set demo_hash_env SAI_SWITCH_ATTR_LAG_HASH_IPV4 (demo_hash 2) demo_hash_state))"

theorem switch_hash_set_get_witness:
  "dn_sai_switch_hash_attr_get demo_hash_env SAI_SWITCH_ATTR_LAG_HASH_IPV4 demo_hash_pointed = Some (demo_hash 2)"
proof -
  let ?r = "dn_sai_switch_hash_attr_set demo_hash_env SAI_SWITCH_ATTR_LAG_HASH_IPV4 (demo_hash 2) demo_hash_state"
  have "map_option fst ?r = Some SAI_STATUS_SUCCESS" by code_simp
  then have r: "?r = Some (SAI_STATUS_SUCCESS, demo_hash_pointed)" by (auto simp: demo_hash_pointed_def)
  have "SAI_SWITCH_ATTR_LAG_HASH_IPV4 \<in> set dn_switch_hash_attr_id" by (simp add: dn_switch_hash_attr_id_def)
  from switch_hash_set_get [OF demo_hash_env_ok demo_hash_inv this r] show ?thesis by simp
qed

section \<open>The lock\<close>

text \<open>No call gives a lock back that an earlier call kept.\<close>

lemma hash_create_locked:
  assumes "hash_env_ok e" "dn_sai_hash_obj_create e attrs s = Some (st, out, s')" "hash_locked (sw s)"
  shows "sw s' = sw s \<and> st \<noteq> SAI_STATUS_SUCCESS"
proof -
  obtain r s1 where "hash_create_pick e attrs s = (r, s1)" by force
  with hash_create_pick_result [OF assms(1) this] assms(2,3) show ?thesis
    by (auto simp: dn_sai_hash_obj_create_def with_lock_def split: sum.splits)
qed

lemma hash_remove_locked:
  "dn_sai_hash_obj_remove e i s = Some (st, s') \<Longrightarrow> hash_locked (sw s) \<Longrightarrow> sw s' = sw s"
  by (auto simp: dn_sai_hash_obj_remove_def with_lock_def split: if_splits)

lemma switch_hash_set_locked: "hash_locked (sw s) \<Longrightarrow> dn_sai_switch_hash_attr_set e a i s = None"
  by (simp add: dn_sai_switch_hash_attr_set_def with_lock_def)

lemma api_keeps_locked:
  assumes "hash_env_ok e"
  shows "api_keeps e (\<lambda>s. hash_locked (sw s))"
  unfolding api_keeps_def
proof (intro conjI allI impI)
  show "hash_locked (sw s')" if "hash_locked (sw s)" "dn_sai_hash_obj_create e attrs s = Some (st, out, s')" for attrs s st out s'
    using hash_create_locked [OF assms that(2,1)] that(1) by simp
  show "hash_locked (sw s')" if "hash_locked (sw s)" "dn_sai_hash_obj_remove e i s = Some (st, s')" for i s st s'
    using hash_remove_locked [OF that(2,1)] that(1) by simp
  show "hash_locked (sw s')" if "hash_locked (sw s)" "dn_sai_switch_hash_attr_set e a i s = Some (st, s')" for a i s st s'
    using switch_hash_set_locked [OF that(1)] that(2) by simp
qed simp

lemma hash_deinit_locked:
  assumes "hash_env_ok e" "sai_hash_obj_deinit e s = Some s'" "hash_locked (sw s)"
  shows "hash_locked (sw s')"
  by (rule deinit_keeps [OF api_keeps_locked [OF assms(1)] assms(3) _ assms(2)]) (simp add: hash_db_clear_def)

lemma hash_init_locked:
  assumes ok: "hash_env_ok e" and c: "sai_hash_obj_init e s = Some (st, s')" and l: "hash_locked (sw s)"
  shows "hash_locked (sw s')"
proof (cases "hash_init_complete (sw s)")
  case True
  then show ?thesis using c l by (simp add: sai_hash_obj_init_def)
next
  case False
  let ?s = "upd_sw hash_db_clear s"
  have start: "hash_locked (sw ?s)" using l by (simp add: hash_db_clear_def)
  have "hash_locked (sw s2)" if "hash_init_steps e ?s = Some (st2, s2)" for st2 s2
    by (rule init_steps_keep [OF api_keeps_locked [OF ok] start that _ _ ok refl]) simp_all
  then show ?thesis
    using c False
    by (auto simp: sai_hash_obj_init_def bind_eq_Some_conv split: if_splits dest: hash_deinit_locked [OF ok])
qed

lemma hash_exec_locked:
  assumes ok: "hash_env_ok e" and c: "hash_exec ue e c s = Some (st, s')" and l: "hash_locked (sw s)"
  shows "hash_locked (sw s')"
proof (cases c)
  case HashInit
  then show ?thesis using c l hash_init_locked [OF ok] by (auto simp: hash_exec_def)
next
  case HashDeinit
  then show ?thesis using c l hash_deinit_locked [OF ok] by (auto simp: hash_exec_def)
next
  case (HashCreate attrs)
  then show ?thesis using c l hash_create_locked [OF ok] by (auto simp: hash_exec_def)
next
  case (HashRemove i)
  then show ?thesis using c l hash_remove_locked [of e i s st s'] by (simp add: hash_exec_def)
next
  case (HashSet i attr)
  then show ?thesis using c l hash_set_attr_steps [of e i attr s st s'] by (auto simp: hash_exec_def)
next
  case (SwitchHashSet a i)
  then show ?thesis using c l by (simp add: hash_exec_def switch_hash_set_locked)
qed (use c l in \<open>auto simp: hash_exec_def in_udf_def split: prod.splits\<close>)

text \<open>The calls that return in a state, one after the other.\<close>

inductive hash_follows :: "'h udf_env \<Rightarrow> 'h hash_env \<Rightarrow> 'h hash_state \<Rightarrow> 'h hash_state \<Rightarrow> bool" for ue e where
  follows_refl: "hash_follows ue e s s"
| follows_step: "hash_follows ue e s s1 \<Longrightarrow> hash_exec ue e c s1 = Some (st, s2) \<Longrightarrow> hash_follows ue e s s2"

lemma hash_follows_locked:
  assumes "hash_env_ok e"
  shows "hash_follows ue e s s' \<Longrightarrow> hash_locked (sw s) \<Longrightarrow> hash_locked (sw s')"
  by (induction rule: hash_follows.induct) (auto dest: hash_exec_locked [OF assms])

text \<open>
  C21: setting a list of UDF groups that is not valid on a hash object, and setting an attribute of the
  switch to an id that is not of a hash object, return with the lock held. Whatever calls are made and
  return afterwards, every later call that reads or sets an attribute of the switch or removes a hash
  object never returns.
\<close>

theorem hash_lock_leaked:
  assumes "hash_env_ok e" and "\<not> hash_locked (sw s)"
    and "if c = HashSet i (SAI_HASH_UDF_GROUP_LIST l)
         then lib_object_type (hlib e) i = SAI_OBJECT_TYPE_HASH \<and> tree_get (hash_obj_tree (sw s)) i \<noteq> None \<and>
           dn_sai_hash_attr_list_validate e [Inl ''SAI_HASH_UDF_GROUP_LIST''] SAI_OP_SET = SAI_STATUS_SUCCESS \<and>
           \<not> dn_sai_hash_udf_group_list_validate e (sw s) l
         else c = SwitchHashSet a i \<and> i \<noteq> SAI_NULL_OBJECT_ID \<and> lib_object_type (hlib e) i \<noteq> SAI_OBJECT_TYPE_HASH"
  shows "\<exists>st s'. hash_exec ue e c s = Some (st, s') \<and> st \<noteq> SAI_STATUS_SUCCESS \<and>
    (\<forall>s''. hash_follows ue e s' s'' \<longrightarrow>
      (\<forall>b j. dn_sai_switch_hash_attr_set e b j s'' = None \<and> dn_sai_switch_hash_attr_get e b s'' = None \<and>
        (lib_object_type (hlib e) j = SAI_OBJECT_TYPE_HASH \<longrightarrow> dn_sai_hash_obj_remove e j s'' = None)))"
proof -
  have "\<exists>st. hash_exec ue e c s = Some (st, leak_lock s) \<and> st \<noteq> SAI_STATUS_SUCCESS"
    using assms(2,3)
    by (auto simp: hash_exec_def dn_sai_hash_obj_set_attr_def dn_sai_switch_hash_attr_set_def with_lock_def
        hash_set_steps_def switch_hash_set_steps_def dn_sai_hash_obj_node_get_def split: if_splits option.splits)
  moreover have "hash_locked (sw s'')" if "hash_follows ue e (leak_lock s) s''" for s''
    using hash_follows_locked [OF assms(1) that] by (simp add: leak_lock_def)
  then have "dn_sai_switch_hash_attr_set e b j s'' = None \<and> dn_sai_switch_hash_attr_get e b s'' = None \<and>
        (lib_object_type (hlib e) j = SAI_OBJECT_TYPE_HASH \<longrightarrow> dn_sai_hash_obj_remove e j s'' = None)"
    if "hash_follows ue e (leak_lock s) s''" for s'' b j
    using that
    by (simp add: switch_hash_set_locked dn_sai_switch_hash_attr_get_def dn_sai_hash_obj_remove_def with_lock_def)
  ultimately show ?thesis by blast
qed

definition demo_bad_groups :: "oid sai_list" where
  "demo_bad_groups = \<lparr>sl_count = 1, sl_list = Some [demo_hash 2]\<rparr>"

theorem hash_lock_leaked_witness:
  "\<exists>st s'. hash_exec demo_hash_udf_env demo_hash_env (HashSet (demo_hash 2) (SAI_HASH_UDF_GROUP_LIST demo_bad_groups))
       demo_hash_state = Some (st, s') \<and> dn_sai_switch_hash_attr_get demo_hash_env SAI_SWITCH_ATTR_LAG_HASH s' = None"
proof -
  have "\<not> hash_locked (sw demo_hash_state)" "lib_object_type (hlib demo_hash_env) (demo_hash 2) = SAI_OBJECT_TYPE_HASH"
    "tree_get (hash_obj_tree (sw demo_hash_state)) (demo_hash 2) \<noteq> None"
    "dn_sai_hash_attr_list_validate demo_hash_env [Inl ''SAI_HASH_UDF_GROUP_LIST''] SAI_OP_SET = SAI_STATUS_SUCCESS"
    "\<not> dn_sai_hash_udf_group_list_validate demo_hash_env (sw demo_hash_state) demo_bad_groups" by code_simp+
  with hash_lock_leaked [OF demo_hash_env_ok this(1), where i = "demo_hash 2" and l = demo_bad_groups
      and c = "HashSet (demo_hash 2) (SAI_HASH_UDF_GROUP_LIST demo_bad_groups)" and ue = demo_hash_udf_env]
  show ?thesis using follows_refl by fastforce
qed

section \<open>Two creations at once\<close>

text \<open>
  C22: a creation reads a free index before it takes the lock and marks it after it gave the lock back.
  When two creations read before either marks, both report success with the same id, but only the object
  of the first is in the tree: the second insertion is refused and the refusal is not reported. The id
  that the second caller got stands for the object of the first.
\<close>

theorem hash_create_race:
  assumes "hash_env_ok e" and "insert_total (hlib e)" and "hash_inv e (sw s)"
    and "hash_create_pick e as1 s = (Inr k1, s1)" and "hash_create_pick e as2 s1 = (Inr k2, s2)"
    and "hash_create_insert e as1 k1 s2 = (SAI_STATUS_SUCCESS, i1, s3)"
    and "hash_create_insert e as2 k2 s3 = (SAI_STATUS_SUCCESS, i2, s4)"
    and "hash_create_finish SAI_STATUS_SUCCESS i1 k1 s4 = (st1, out1, s5)"
    and "hash_create_finish SAI_STATUS_SUCCESS i2 k2 s5 = (st2, out2, s6)"
  shows "st1 = SAI_STATUS_SUCCESS \<and> st2 = SAI_STATUS_SUCCESS \<and> out1 = Some i1 \<and> out2 = Some i1 \<and>
    tree_get (hash_obj_tree (sw s6)) = (tree_get (hash_obj_tree (sw s)))(i1 \<mapsto> hash_made i1 as1)"
proof -
  note p1 = hash_create_pick_result [OF assms(1,4)]
  note p2 = hash_create_pick_result [OF assms(1,5)]
  have k: "k2 = k1" "sw s2 = sw s" using p1 p2 by auto
  have new: "tree_get (hash_obj_tree (sw s)) (hash_oid e k1) = None"
    using p1 by (intro free_index [OF assms(1,3)]) auto
  have i1: "i1 = hash_oid e k1" "sw s3 = hash_obj_put i1 (hash_made i1 as1) (sw s)"
    using hash_create_insert_result [OF assms(1,6)] assms(2) k new by auto
  then have "i2 = i1" "sw s4 = sw s3"
    using hash_create_insert_result [OF assms(1,7)] k by auto
  with assms(8,9) i1 show ?thesis by (auto simp: hash_create_finish_def fun_eq_iff)
qed

definition demo_race_attrs :: "u32 \<Rightarrow> hash_attr list" where
  "demo_race_attrs f = [SAI_HASH_NATIVE_FIELD_LIST (demo_fields [f])]"

theorem hash_create_race_witness:
  "let s2 = snd (hash_create_pick demo_hash_env (demo_race_attrs 6)
                  (snd (hash_create_pick demo_hash_env (demo_race_attrs 5) demo_hash_state)));
       s3 = snd (snd (hash_create_insert demo_hash_env (demo_race_attrs 5) 3 s2));
       s4 = snd (snd (hash_create_insert demo_hash_env (demo_race_attrs 6) 3 s3));
       s6 = snd (snd (hash_create_finish SAI_STATUS_SUCCESS (demo_hash 3) 3
                  (snd (snd (hash_create_finish SAI_STATUS_SUCCESS (demo_hash 3) 3 s4)))))
   in tree_get (hash_obj_tree (sw s6)) (demo_hash 3) = Some (hash_made (demo_hash 3) (demo_race_attrs 5))"
proof -
  let ?p1 = "hash_create_pick demo_hash_env (demo_race_attrs 5) demo_hash_state"
  let ?p2 = "hash_create_pick demo_hash_env (demo_race_attrs 6) (snd ?p1)"
  let ?n1 = "hash_create_insert demo_hash_env (demo_race_attrs 5) 3 (snd ?p2)"
  let ?n2 = "hash_create_insert demo_hash_env (demo_race_attrs 6) 3 (snd (snd ?n1))"
  have "fst ?p1 = Inr 3" "fst ?p2 = Inr 3" "(fst ?n1, fst (snd ?n1)) = (SAI_STATUS_SUCCESS, demo_hash 3)"
    "(fst ?n2, fst (snd ?n2)) = (SAI_STATUS_SUCCESS, demo_hash 3)" by code_simp+
  then have r: "?p1 = (Inr 3, snd ?p1)" "?p2 = (Inr 3, snd ?p2)"
    "?n1 = (SAI_STATUS_SUCCESS, demo_hash 3, snd (snd ?n1))" "?n2 = (SAI_STATUS_SUCCESS, demo_hash 3, snd (snd ?n2))"
    by (simp_all add: prod_eq_iff)
  have "insert_total (hlib demo_hash_env)" by (simp add: demo_insert_total)
  from hash_create_race [OF demo_hash_env_ok this demo_hash_inv r] show ?thesis
    by (simp add: hash_create_finish_def Let_def)
qed

section \<open>Hash objects and UDF groups\<close>

lemma removed_group_not_valid:
  "g \<in> set is \<Longrightarrow> group_table u g = None \<Longrightarrow> \<not> udf_group_list_valid l u is"
  by (induction "is") (auto simp: group_table_def dn_sai_udf_group_type_get_def dn_sai_udf_group_node_get_def)

text \<open>
  The UDF component does not know the hash objects: a UDF group that a hash object lists can be
  removed. The hash object keeps listing it, and is still used by the switch as it is; setting its own
  list of groups again then fails and leaves the lock held.
\<close>

theorem hash_lists_removed_group:
  assumes "hash_env_ok e" and "\<not> hash_locked (sw s)"
    and "lib_object_type (hlib e) i = SAI_OBJECT_TYPE_HASH"
    and "dn_sai_hash_attr_list_validate e [Inl ''SAI_HASH_UDF_GROUP_LIST''] SAI_OP_SET = SAI_STATUS_SUCCESS"
    and "tree_get (hash_obj_tree (sw s)) i = Some ob" and "g \<in> set (ho_udf_groups ob)"
    and "in_udf (dn_sai_udf_group_remove ue g) s = (st, s')" and "group_table (hash_udf (sw s')) g = None"
  shows "tree_get (hash_obj_tree (sw s')) i = Some ob \<and> hash_obj_types (sw s') = hash_obj_types (sw s) \<and>
    (sl_elems l = ho_udf_groups ob \<longrightarrow>
      (\<exists>s''. dn_sai_hash_obj_set_attr e i (SAI_HASH_UDF_GROUP_LIST l) s' = Some (SAI_STATUS_INVALID_ATTR_VALUE_0, s'') \<and>
        hash_locked (sw s'')))"
proof -
  have same: "hash_obj_tree (sw s') = hash_obj_tree (sw s)" "hash_obj_types (sw s') = hash_obj_types (sw s)"
    "hash_locked (sw s') = hash_locked (sw s)"
    using assms(7) by (auto simp: in_udf_def split: prod.splits)
  have "\<not> dn_sai_hash_udf_group_list_validate e (sw s') l" if "sl_elems l = ho_udf_groups ob"
    using removed_group_not_valid [OF assms(6,8)] that by (simp add: dn_sai_hash_udf_group_list_validate_def)
  then show ?thesis
    using assms(2-5) same
    by (auto simp: dn_sai_hash_obj_set_attr_def with_lock_def hash_set_steps_def dn_sai_hash_obj_node_get_def leak_lock_def)
qed

definition demo_group_removed :: "u64 hash_state" where
  "demo_group_removed = snd (in_udf (dn_sai_udf_group_remove demo_hash_udf_env demo_hash_group) demo_hash_state)"

theorem hash_lists_removed_group_witness:
  "(\<exists>ob. tree_get (hash_obj_tree (sw demo_group_removed)) (demo_hash 2) = Some ob \<and> demo_hash_group \<in> set (ho_udf_groups ob)) \<and>
   group_table (hash_udf (sw demo_group_removed)) demo_hash_group = None"
proof -
  let ?ob = "the (tree_get (hash_obj_tree (sw demo_hash_state)) (demo_hash 2))"
  have l: "\<not> hash_locked (sw demo_hash_state)" and ty: "lib_object_type (hlib demo_hash_env) (demo_hash 2) = SAI_OBJECT_TYPE_HASH"
    and v: "dn_sai_hash_attr_list_validate demo_hash_env [Inl ''SAI_HASH_UDF_GROUP_LIST''] SAI_OP_SET = SAI_STATUS_SUCCESS"
    and ob: "tree_get (hash_obj_tree (sw demo_hash_state)) (demo_hash 2) = Some ?ob"
    and g: "demo_hash_group \<in> set (ho_udf_groups ?ob)"
    and no: "group_table (hash_udf (sw demo_group_removed)) demo_hash_group = None" by code_simp+
  have "in_udf (dn_sai_udf_group_remove demo_hash_udf_env demo_hash_group) demo_hash_state =
      (fst (in_udf (dn_sai_udf_group_remove demo_hash_udf_env demo_hash_group) demo_hash_state), demo_group_removed)"
    by (simp add: demo_group_removed_def)
  from hash_lists_removed_group [OF demo_hash_env_ok l ty v ob g this no] g no show ?thesis by auto
qed

end
