(* ===== verification/Udf_Properties.thy ===== *)
theory Udf_Properties
  imports Udf_System Sai_Demo
begin

text \<open>
  The properties of the UDF component (\<^verbatim>\<open>src/src/udf\<close>), each with its use on a concrete history.
\<close>

section \<open>A concrete environment and history\<close>

text \<open>
  The hardware layer counts the objects it creates and accepts everything, but for masks whose first
  byte is zero. The history makes a hash group and two UDFs in it.
\<close>

definition demo_udf_npu :: "u64 udf_npu_api" where
  "demo_udf_npu =
     \<lparr>npu_udf_init = (\<lambda>h. (SAI_STATUS_SUCCESS, h)), npu_udf_deinit = (\<lambda>h. ((), h)),
      npu_udf_group_create = (\<lambda>g h. ((SAI_STATUS_SUCCESS, h), h + 1)),
      npu_udf_group_remove = (\<lambda>g h. (SAI_STATUS_SUCCESS, h)),
      npu_udf_group_hw_id_get = (\<lambda>g h. ((SAI_STATUS_SUCCESS, take_bit 48 (ug_group_obj_id g)), h)),
      npu_udf_create = (\<lambda>v h. ((SAI_STATUS_SUCCESS, h), h + 1)),
      npu_udf_remove = (\<lambda>v h. (SAI_STATUS_SUCCESS, h)),
      npu_udf_attribute_set = (\<lambda>v a h.
        (if (case snd (snd v) of None \<Rightarrow> False | Some bs \<Rightarrow> take 1 bs = [0])
         then SAI_STATUS_FAILURE else SAI_STATUS_SUCCESS, h)),
      npu_udf_match_create = (\<lambda>attrs h. ((SAI_STATUS_SUCCESS, h), h + 1)),
      npu_udf_match_remove = (\<lambda>i h. (SAI_STATUS_SUCCESS, h)),
      npu_udf_match_attribute_get = (\<lambda>i attrs h. ((SAI_STATUS_SUCCESS, attrs), h))\<rparr>"

definition demo_udf_env :: "u64 udf_env" where
  "demo_udf_env = \<lparr>ulib = demo_lib, udf_npu = demo_udf_npu, SAI_UDF_DFLT_HASH_MASK_COUNT = 2\<rparr>"

abbreviation demo_group :: oid where "demo_group \<equiv> demo_oid SAI_OBJECT_TYPE_UDF_GROUP 1"
abbreviation demo_udf :: oid where "demo_udf \<equiv> demo_oid SAI_OBJECT_TYPE_UDF 2"

definition demo_udf_attrs :: "udf_attr list" where
  "demo_udf_attrs =
     [SAI_UDF_ATTR_MATCH_ID (demo_oid SAI_OBJECT_TYPE_UDF_MATCH 9), SAI_UDF_ATTR_GROUP_ID demo_group,
      SAI_UDF_ATTR_OFFSET 4, SAI_UDF_ATTR_HASH_MASK \<lparr>sl_count = 2, sl_list = Some [0x12, 0x34]\<rparr>]"

definition demo_udf_calls :: "udf_call list" where
  "demo_udf_calls =
     [UdfInit,
      UdfGroupCreate [SAI_UDF_GROUP_ATTR_TYPE SAI_UDF_GROUP_HASH, SAI_UDF_ATTR_LENGTH 2],
      UdfCreate demo_udf_attrs,
      UdfCreate [SAI_UDF_ATTR_OFFSET 6, SAI_UDF_ATTR_GROUP_ID demo_group,
                 SAI_UDF_ATTR_MATCH_ID (demo_oid SAI_OBJECT_TYPE_UDF_MATCH 9)]]"

fun udf_run :: "'h udf_env \<Rightarrow> udf_call list \<Rightarrow> 'h udf_state \<Rightarrow> 'h udf_state" where
  "udf_run e [] s = s"
| "udf_run e (c # cs) s = udf_run e cs (snd (udf_exec e c s))"

text \<open>A call that is enabled because few addresses were used.\<close>

definition udf_few :: "udf_call \<Rightarrow> dn_sai_udf_global_t \<Rightarrow> bool" where
  "udf_few c d \<longleftrightarrow> (case c of UdfInit \<Rightarrow> True | _ \<Rightarrow> udf_init_complete d \<and> udf_next_addr d < 50)"

lemma udf_few_enabled: "udf_few c d \<Longrightarrow> udf_enabled c d"
  by (cases c) (simp_all add: udf_few_def udf_enabled_def udf_small_def)

fun udf_run_enabled :: "'h udf_env \<Rightarrow> udf_call list \<Rightarrow> 'h udf_state \<Rightarrow> bool" where
  "udf_run_enabled e [] s = True"
| "udf_run_enabled e (c # cs) s = (udf_few c (sw s) \<and> udf_run_enabled e cs (snd (udf_exec e c s)))"

lemma udf_run_reachable: "udf_reachable e s \<Longrightarrow> udf_run_enabled e cs s \<Longrightarrow> udf_reachable e (udf_run e cs s)"
proof (induction cs arbitrary: s)
  case (Cons c cs)
  then have "udf_enabled c (sw s)" by (simp add: udf_few_enabled)
  from udf_step [OF Cons.prems(1) this surjective_pairing] Cons show ?case by simp
qed simp

definition demo_udf_start :: "u64 udf_state" where
  "demo_udf_start = \<lparr>sw = udf_global_zero, ext = 1\<rparr>"

definition demo_udf_state :: "u64 udf_state" where
  "demo_udf_state = udf_run demo_udf_env demo_udf_calls demo_udf_start"

lemma demo_udf_reachable: "udf_reachable demo_udf_env demo_udf_state"
  unfolding demo_udf_state_def
proof (rule udf_run_reachable)
  show "udf_reachable demo_udf_env demo_udf_start" by (rule udf_start) (simp add: demo_udf_start_def)
  show "udf_run_enabled demo_udf_env demo_udf_calls demo_udf_start" by code_simp
qed

lemma demo_udf_lib [simp]: "lib_ok (ulib demo_udf_env)" "insert_total (ulib demo_udf_env)"
  by (simp_all add: demo_udf_env_def demo_lib_ok demo_insert_total)

lemma demo_udf_complete: "udf_init_complete (sw demo_udf_state)" "udf_small (sw demo_udf_state)"
proof -
  have "udf_few (UdfRemove 0) (sw demo_udf_state)" by code_simp
  from udf_few_enabled [OF this] show "udf_init_complete (sw demo_udf_state)" "udf_small (sw demo_udf_state)"
    by (simp_all add: udf_enabled_def)
qed

section \<open>The database\<close>

text \<open>
  C14: whatever calls are made and whatever allocation, tree insertion or hardware call fails, an
  initialised UDF database is consistent: each UDF is once in the list of exactly its group, the group
  counts its list, ids lead to the node that has them, and the hash mask of each UDF of a hash group is
  a live buffer of its own with exactly the length of the group.
\<close>

theorem udf_reachable_invariant:
  assumes "lib_ok (ulib e)" and "udf_reachable e s" and "udf_init_complete (sw s)"
  shows "udf_inv (sw s)"
  using udf_reachable_sys [OF assms(1,2)] assms(3) by (simp add: udf_sys_def)

theorem udf_reachable_invariant_witness: "udf_inv (sw demo_udf_state)"
  using udf_reachable_invariant [OF _ demo_udf_reachable demo_udf_complete(1)] by simp

lemma demo_udf_inv: "udf_inv (sw demo_udf_state)"
  using udf_reachable_sys [OF demo_udf_lib(1) demo_udf_reachable] demo_udf_complete(1) by (simp add: udf_sys_def)

lemma udf_table_None: "udf_inv d \<Longrightarrow> udf_table d u = None \<longleftrightarrow> tree_get (udf_obj_tree d) u = None"
  using udf_invD(4) [of d u] by (cases "tree_get (udf_obj_tree d) u") (force simp: udf_table_def)+

lemma udf_added_new: "udf_added d u d' \<Longrightarrow> udf_table d u = None"
  by (auto simp: udf_added_def)

text \<open>
  Creating a UDF adds one row under its id and that id at the end of its group, with a mask of the
  length of the group exactly when it is a hash group; a failed creation changes no table. When the
  hardware layer returns the index of a UDF that exists, the code reports success and changes nothing.
\<close>

theorem udf_create_effect:
  assumes "lib_ok (ulib e)" and "insert_total (ulib e)" and "udf_inv (sw s)"
    and "dn_sai_udf_create e attrs s = (st, out, s')"
  shows "if st = SAI_STATUS_SUCCESS
    then \<exists>u. out = Some u \<and>
      (if udf_table (sw s) u = None then udf_added (sw s) u (sw s') else tables_same (sw s) (sw s'))
    else out = None \<and> tables_same (sw s) (sw s')"
  using udf_create_result [OF assms(1,3,4)] assms(2) udf_table_None [OF assms(3)] udf_added_new [of "sw s"]
  by (auto split: if_splits)

lemma fst_snd3: "p = (fst p, fst (snd p), snd (snd p))"
  by simp

definition demo_third_udf :: "udf_attr list" where
  "demo_third_udf =
     [SAI_UDF_ATTR_GROUP_ID demo_group, SAI_UDF_ATTR_OFFSET 8,
      SAI_UDF_ATTR_MATCH_ID (demo_oid SAI_OBJECT_TYPE_UDF_MATCH 9)]"

theorem udf_create_effect_witness:
  "udf_added (sw demo_udf_state) (demo_oid SAI_OBJECT_TYPE_UDF 4)
     (sw (snd (snd (dn_sai_udf_create demo_udf_env demo_third_udf demo_udf_state))))"
proof -
  let ?r = "dn_sai_udf_create demo_udf_env demo_third_udf demo_udf_state"
  have "fst ?r = SAI_STATUS_SUCCESS" "fst (snd ?r) = Some (demo_oid SAI_OBJECT_TYPE_UDF 4)"
    "udf_table (sw demo_udf_state) (demo_oid SAI_OBJECT_TYPE_UDF 4) = None" by code_simp+
  with udf_create_effect [OF demo_udf_lib demo_udf_inv fst_snd3, of demo_third_udf] show ?thesis by simp
qed

text \<open>
  C15: creating a UDF and removing it again gives back the table of UDFs and, for every group, its type,
  its length and its ids up to their order.
\<close>

definition group_rows_same :: "dn_sai_udf_global_t \<Rightarrow> dn_sai_udf_global_t \<Rightarrow> bool" where
  "group_rows_same d d' \<longleftrightarrow>
     (\<forall>i. map_option (\<lambda>(ty, len, ids). (ty, len, mset ids)) (group_table d' i) =
          map_option (\<lambda>(ty, len, ids). (ty, len, mset ids)) (group_table d i))"

theorem udf_create_remove_roundtrip:
  assumes "lib_ok (ulib e)" and "insert_total (ulib e)" and "udf_inv (sw s)"
    and "dn_sai_udf_create e attrs s = (SAI_STATUS_SUCCESS, Some u, s1)" and "udf_table (sw s) u = None"
    and "dn_sai_udf_remove e u s1 = (SAI_STATUS_SUCCESS, s2)"
  shows "udf_table (sw s2) = udf_table (sw s) \<and> group_rows_same (sw s) (sw s2)"
proof -
  have c: "udf_inv (sw s1)" "udf_added (sw s) u (sw s1)"
    using udf_create_result [OF assms(1,3,4)] assms(2,5) udf_table_None [OF assms(3)] by auto
  then obtain info i ty len ids where a: "group_table (sw s) i = Some (ty, len, ids)" "ui_group info = Some i"
    "udf_table (sw s1) = (udf_table (sw s))(u \<mapsto> info)"
    "group_table (sw s1) = (group_table (sw s))(i \<mapsto> (ty, len, ids @ [u]))" by (auto simp: udf_added_def)
  have "udf_gone (sw s1) u (sw s2)" using udf_remove_result [OF c(1) assms(6)] by simp
  then obtain ids' where r: "mset ids' = mset (ids @ [u]) - {#u#}"
    "udf_table (sw s2) = (udf_table (sw s1))(u := None)"
    "group_table (sw s2) = (group_table (sw s1))(i \<mapsto> (ty, len, ids'))" using a by (auto simp: udf_gone_def)
  show ?thesis using a r assms(5) by (auto simp: group_rows_same_def)
qed

definition demo_udf_more :: "u64 udf_state" where
  "demo_udf_more = snd (snd (dn_sai_udf_create demo_udf_env demo_third_udf demo_udf_state))"

theorem udf_create_remove_roundtrip_witness:
  "udf_table (sw (snd (dn_sai_udf_remove demo_udf_env (demo_oid SAI_OBJECT_TYPE_UDF 4) demo_udf_more))) =
     udf_table (sw demo_udf_state)"
proof -
  let ?u = "demo_oid SAI_OBJECT_TYPE_UDF 4"
  have "fst (dn_sai_udf_create demo_udf_env demo_third_udf demo_udf_state) = SAI_STATUS_SUCCESS"
    "fst (snd (dn_sai_udf_create demo_udf_env demo_third_udf demo_udf_state)) = Some ?u"
    and n: "udf_table (sw demo_udf_state) ?u = None" by code_simp+
  then have c: "dn_sai_udf_create demo_udf_env demo_third_udf demo_udf_state =
      (SAI_STATUS_SUCCESS, Some ?u, demo_udf_more)" by (simp add: demo_udf_more_def prod_eq_iff)
  have "fst (dn_sai_udf_remove demo_udf_env ?u demo_udf_more) = SAI_STATUS_SUCCESS" by code_simp
  then have r: "dn_sai_udf_remove demo_udf_env ?u demo_udf_more =
      (SAI_STATUS_SUCCESS, snd (dn_sai_udf_remove demo_udf_env ?u demo_udf_more))" by (simp add: prod_eq_iff)
  from udf_create_remove_roundtrip [OF demo_udf_lib demo_udf_inv c n r] show ?thesis by simp
qed

section \<open>Groups\<close>

text \<open>
  C16: removing a UDF group reports success for every id of the group type, whether or not the group
  exists, has UDFs, or is refused by the hardware layer; what happened shows only in the database, where
  a group goes only when no UDF is in it.
\<close>

theorem udf_group_remove_hides_status:
  assumes "udf_inv (sw s)" and "udf_small (sw s)" and "lib_object_type (ulib e) i = SAI_OBJECT_TYPE_UDF_GROUP"
    and "dn_sai_udf_group_remove e i s = (st, s')"
  shows "st = SAI_STATUS_SUCCESS \<and>
    (tables_same (sw s) (sw s') \<or>
     (\<exists>ty len. group_table (sw s) i = Some (ty, len, []) \<and> group_table (sw s') = (group_table (sw s))(i := None)))"
proof -
  have "\<exists>ty len. group_table d i = Some (ty, len, []) \<and> group_table d' = (group_table d)(i := None)"
    if inv: "udf_inv d" "udf_small d" and gone: "group_gone d i d'" for d d'
  proof -
    obtain g where g: "tree_get (udf_group_tree d) i = Some g" "ug_udf_count g = 0"
      "d' = d\<lparr>udf_group_tree := tree_del i (udf_group_tree d)\<rparr>" using gone by (auto simp: group_gone_def)
    then have "ug_udf_list g = []" using udf_count_zero [OF inv g(1)] by simp
    then show ?thesis using g by (auto simp: group_table_def udf_ids_def)
  qed
  then show ?thesis
    using udf_group_remove_result [OF assms(4)] groups_same_tables assms(1-3) by metis
qed

theorem udf_group_remove_hides_status_witness:
  "fst (dn_sai_udf_group_remove demo_udf_env demo_group demo_udf_state) = SAI_STATUS_SUCCESS \<and>
   fst (udf_group_remove_steps demo_udf_env demo_group demo_udf_state) = SAI_STATUS_OBJECT_IN_USE"
proof -
  have "lib_object_type (ulib demo_udf_env) demo_group = SAI_OBJECT_TYPE_UDF_GROUP"
    and u: "fst (udf_group_remove_steps demo_udf_env demo_group demo_udf_state) = SAI_STATUS_OBJECT_IN_USE" by code_simp+
  from udf_group_remove_hides_status [OF demo_udf_inv demo_udf_complete(2) this(1) surjective_pairing] u
  show ?thesis by simp
qed

section \<open>Attributes\<close>

text \<open>
  Setting an attribute changes the row of that UDF as the attribute says, and nothing else; a failed
  call changes nothing, but for one case: a hash mask that the hardware layer rejects stays in the
  buffer, which the temporary copy of the node shares with the node.
\<close>

theorem udf_set_attribute_effect:
  assumes "lib_ok (ulib e)" and "udf_inv (sw s)" and "dn_sai_udf_set_attribute e u attr s = (st, s')"
  shows "group_table (sw s') = group_table (sw s) \<and>
    (if st = SAI_STATUS_SUCCESS
     then \<exists>info. udf_table (sw s) u = Some info \<and> udf_table (sw s') = (udf_table (sw s))(u \<mapsto> attr_applied attr info)
     else udf_table (sw s') = udf_table (sw s) \<or>
       (\<exists>l info. attr = SAI_UDF_ATTR_HASH_MASK l \<and> udf_table (sw s) u = Some info \<and>
          udf_table (sw s') = (udf_table (sw s))(u \<mapsto> attr_applied attr info)))"
  using udf_set_attribute_result [OF assms] by blast

text \<open>At the rejected mask the row has changed although the call failed.\<close>

definition demo_bad_mask :: udf_attr where
  "demo_bad_mask = SAI_UDF_ATTR_HASH_MASK \<lparr>sl_count = 2, sl_list = Some [0, 7]\<rparr>"

theorem udf_set_attribute_effect_witness:
  "fst (dn_sai_udf_set_attribute demo_udf_env demo_udf demo_bad_mask demo_udf_state) = SAI_STATUS_FAILURE \<and>
   map_option ui_mask (udf_table (sw demo_udf_state) demo_udf) = Some (Some [0x12, 0x34]) \<and>
   map_option ui_mask (udf_table (sw (snd (dn_sai_udf_set_attribute demo_udf_env demo_udf demo_bad_mask demo_udf_state)))
     demo_udf) = Some (Some [0, 7]) \<and>
   group_table (sw (snd (dn_sai_udf_set_attribute demo_udf_env demo_udf demo_bad_mask demo_udf_state))) =
     group_table (sw demo_udf_state)"
proof -
  have "fst (dn_sai_udf_set_attribute demo_udf_env demo_udf demo_bad_mask demo_udf_state) = SAI_STATUS_FAILURE"
    "map_option ui_mask (udf_table (sw demo_udf_state) demo_udf) = Some (Some [0x12, 0x34])"
    "map_option ui_mask (udf_table (sw (snd (dn_sai_udf_set_attribute demo_udf_env demo_udf demo_bad_mask demo_udf_state)))
     demo_udf) = Some (Some [0, 7])" by code_simp+
  with udf_set_attribute_effect [OF demo_udf_lib(1) demo_udf_inv surjective_pairing, of demo_udf demo_bad_mask]
  show ?thesis by simp
qed

text \<open>
  C17: the copy of a hash mask into the buffer of a stored UDF never leaves the buffer: when the code gets
  to the \<open>memcpy\<close>, the buffer has exactly as many bytes as are copied, and a mask that was set is read
  back byte by byte.
\<close>

theorem hash_mask_set_in_bounds:
  assumes "udf_inv (sw s)" and "udf_at (sw s) a = Some n" and "sl_ok l"
    and "dn_sai_udf_hash_mask_set e n l s = (SAI_STATUS_SUCCESS, n', s')"
  shows "\<exists>m buf. un_mask_list n = Some m \<and> tree_get (mask_heap (sw s)) m = Some buf \<and>
    length buf = unat (sl_count l) \<and> tree_get (mask_heap (sw s')) m = Some (sl_elems l) \<and>
    dn_sai_udf_hash_mask_fill e (sw s') n' l = (SAI_STATUS_SUCCESS, l\<lparr>sl_list := Some (buf_write (sl_elems l) (the (sl_list l)))\<rparr>)"
proof -
  obtain g m where g: "group_of (sw s) n = Some g" "sl_count l = ucast (ug_length g)"
    "n' = n\<lparr>un_mask_list := Some m, un_mask_count := sl_count l\<rparr>" "ug_type g = SAI_UDF_GROUP_HASH"
    and m: "case un_mask_list n of None \<Rightarrow> m = udf_next_addr (sw s) \<and>
             sw s' = mask_new (buf_write (sl_elems l) (replicate (unat (ug_length g)) 0)) (sw s)
         | Some k \<Rightarrow> m = k \<and> sw s' = mask_copy k l (sw s)"
    using hash_mask_set_result [OF assms(4)] by auto
  obtain i g' where i: "un_p_udf_group n = Some i" "tree_get (udf_group_tree (sw s)) i = Some g'" "mask_ok (sw s) g' n"
    by (rule node_okE [OF udf_invD(3) [OF assms(1,2)]])
  have len: "ug_length g \<noteq> 0" using udf_invD(2) [OF assms(1) i(2)] i g(1) by (auto simp: group_of_def group_ok_def)
  from i g obtain buf where b: "un_mask_list n = Some m" "tree_get (mask_heap (sw s)) m = Some buf"
    "length buf = unat (sl_count l)" using m by (cases "un_mask_list n") (auto simp: group_of_def mask_ok_def mask_of_def)
  have l: "length (sl_elems l) = unat (sl_count l)" "sl_list l \<noteq> None"
  proof -
    show "sl_list l \<noteq> None" using assms(4) g(1,2,4) by (auto simp: dn_sai_udf_hash_mask_set_def split: if_splits)
    then show "length (sl_elems l) = unat (sl_count l)" using assms(3) by (auto simp: sl_elems_def sl_ok_def)
  qed
  have s': "sw s' = mask_put m (sl_elems l) (sw s)" using m b l by (simp add: mask_copy_def)
  have "sl_count l \<noteq> 0" using len g(2) by (metis unat_length_u32 unat_0 unsigned_0 word_unat_eq_iff)
  then have "dn_sai_udf_hash_mask_fill e (sw s') n' l =
      (SAI_STATUS_SUCCESS, l\<lparr>sl_list := Some (buf_write (sl_elems l) (the (sl_list l)))\<rparr>)"
    using l by (auto simp: dn_sai_udf_hash_mask_fill_def g(3) s' mask_of_def)
  with b s' show ?thesis by simp
qed

definition demo_new_mask :: "u8 sai_list" where
  "demo_new_mask = \<lparr>sl_count = 2, sl_list = Some [0x56, 0x78]\<rparr>"

definition demo_udf_node :: udf_node where
  "demo_udf_node = the (udf_at (sw demo_udf_state) (the (tree_get (udf_obj_tree (sw demo_udf_state)) demo_udf)))"

theorem hash_mask_set_in_bounds_witness:
  "\<exists>m buf. un_mask_list demo_udf_node = Some m \<and> tree_get (mask_heap (sw demo_udf_state)) m = Some buf \<and>
     length buf = 2"
proof -
  let ?r = "dn_sai_udf_hash_mask_set demo_udf_env demo_udf_node demo_new_mask demo_udf_state"
  have "fst ?r = SAI_STATUS_SUCCESS" by code_simp
  then have r: "?r = (SAI_STATUS_SUCCESS, fst (snd ?r), snd (snd ?r))" by (simp add: prod_eq_iff)
  have n: "udf_at (sw demo_udf_state) (the (tree_get (udf_obj_tree (sw demo_udf_state)) demo_udf)) = Some demo_udf_node"
    by code_simp
  have "sl_ok demo_new_mask" by (simp add: sl_ok_def demo_new_mask_def)
  from hash_mask_set_in_bounds [OF demo_udf_inv n this r] show ?thesis by (auto simp: demo_new_mask_def)
qed

end
