(* ===== verification/Stp_Api.thy ===== *)
theory Stp_Api
  imports Sai_Lib
begin

text \<open>
  STP instances and the VLANs attached to them (\<^verbatim>\<open>src/src/switching/sai_stp.c\<close>,
  \<^verbatim>\<open>src/src/switching/sai_stp_utils.c\<close>). Each instance keeps a tree of its VLANs, and a table gives for
  each VLAN the instance it was last attached to.
\<close>

section \<open>State\<close>

type_synonym vlan_id = u16

text \<open>\<open>si_vlan_tree\<close> is \<open>None\<close> for a tree that was not created.\<close>

record dn_sai_stp_info_t =
  stp_inst_id :: oid
  si_vlan_tree :: "(vlan_id, vlan_id) tree option"

record stp_db =
  stp_info_handle :: tree_handle
  stp_info_tree :: "(oid, dn_sai_stp_info_t) tree"
  g_def_stp_id :: oid
  g_stp_vlan_map :: "vlan_id \<Rightarrow> oid"

type_synonym 'h stp_state = "(stp_db, 'h) comp"

datatype stp_attr =
    SAI_STP_ATTR_VLAN_LIST "vlan_id sai_list"
  | STP_ATTR_OTHER int int

datatype sai_port_stp_port_state_t =
    SAI_PORT_STP_STATE_LEARNING | SAI_PORT_STP_STATE_FORWARDING | SAI_PORT_STP_STATE_BLOCKING

text \<open>The hardware layer of STP, the ports, and two constants of the platform.\<close>

record 'h stp_env =
  slib :: "'h sai_lib"
  npu_stp_init :: "'h \<Rightarrow> (sai_status \<times> u64 \<times> u64) \<times> 'h"
  npu_instance_create :: "'h \<Rightarrow> (sai_status \<times> u64) \<times> 'h"
  npu_instance_remove :: "oid \<Rightarrow> 'h \<Rightarrow> sai_status \<times> 'h"
  npu_stp_vlan_add :: "oid \<Rightarrow> u64 \<Rightarrow> 'h \<Rightarrow> sai_status \<times> 'h"
  npu_stp_vlan_remove :: "oid \<Rightarrow> u64 \<Rightarrow> 'h \<Rightarrow> sai_status \<times> 'h"
  npu_stp_attribute_get :: "oid \<Rightarrow> stp_attr list \<Rightarrow> 'h \<Rightarrow> (sai_status \<times> stp_attr list) \<times> 'h"
  npu_port_state_set :: "oid \<Rightarrow> oid \<Rightarrow> sai_port_stp_port_state_t \<Rightarrow> 'h \<Rightarrow> sai_status \<times> 'h"
  npu_port_state_get :: "oid \<Rightarrow> oid \<Rightarrow> 'h \<Rightarrow> (sai_status \<times> sai_port_stp_port_state_t) \<times> 'h"
  npu_vlan_stp_get :: "vlan_id \<Rightarrow> 'h \<Rightarrow> (sai_status \<times> u64) \<times> 'h"
  npu_default_instance_get :: "'h \<Rightarrow> (sai_status \<times> u64) \<times> 'h"
  sai_is_port_valid :: "oid \<Rightarrow> 'h \<Rightarrow> bool"
  SAI_INIT_DEFAULT_VLAN :: vlan_id
  sai_internal_vlan_id :: vlan_id

definition stp_oid :: "'h stp_env \<Rightarrow> u64 \<Rightarrow> oid" where
  "stp_oid e n = lib_uoid_create (slib e) SAI_OBJECT_TYPE_STP_INSTANCE n"

definition sai_is_obj_id_stp_instance :: "'h stp_env \<Rightarrow> oid \<Rightarrow> bool" where
  "sai_is_obj_id_stp_instance e i \<longleftrightarrow> lib_object_type (slib e) i = SAI_OBJECT_TYPE_STP_INSTANCE"

definition stp_info_put :: "dn_sai_stp_info_t \<Rightarrow> stp_db \<Rightarrow> stp_db" where
  "stp_info_put p d = d\<lparr>stp_info_tree := tree_put (stp_inst_id p) p (stp_info_tree d)\<rparr>"

definition stp_info_del :: "oid \<Rightarrow> stp_db \<Rightarrow> stp_db" where
  "stp_info_del i d = d\<lparr>stp_info_tree := tree_del i (stp_info_tree d)\<rparr>"

definition stp_map_set :: "vlan_id \<Rightarrow> oid \<Rightarrow> stp_db \<Rightarrow> stp_db" where
  "stp_map_set v i d = d\<lparr>g_stp_vlan_map := (g_stp_vlan_map d)(v := i)\<rparr>"

text \<open>The node of an instance, and the checks that come before it.\<close>

definition stp_lookup :: "stp_db \<Rightarrow> oid \<Rightarrow> sai_status + dn_sai_stp_info_t" where
  "stp_lookup d i =
     (if stp_info_handle d = TreeNull then Inl SAI_STATUS_FAILURE
      else case tree_get (stp_info_tree d) i of
             None \<Rightarrow> Inl SAI_STATUS_INVALID_OBJECT_ID
           | Some p \<Rightarrow> Inr p)"

definition sai_stp_is_valid_stp_instance :: "stp_db \<Rightarrow> oid \<Rightarrow> bool" where
  "sai_stp_is_valid_stp_instance d i \<longleftrightarrow> (case stp_lookup d i of Inl _ \<Rightarrow> False | Inr _ \<Rightarrow> True)"

section \<open>Instances\<close>

definition sai_stp_instance_create :: "'h stp_env \<Rightarrow> 'h stp_state \<Rightarrow> sai_status \<times> oid option \<times> 'h stp_state" where
  "sai_stp_instance_create e s =
     (if stp_info_handle (sw s) = TreeNull then (SAI_STATUS_FAILURE, None, s)
      else let (ok, s) = ext_call (lib_calloc_ok (slib e)) s
           in if \<not> ok then (SAI_STATUS_NO_MEMORY, None, s)
              else let ((error, npu_object_id), s) = ext_call (npu_instance_create e) s
                   in if error \<noteq> SAI_STATUS_SUCCESS then (error, None, s)
                      else let i = stp_oid e npu_object_id;
                               (ok, s) = lib_insert_ok (slib e) (stp_info_tree (sw s)) i s
                           in if \<not> ok then (SAI_STATUS_FAILURE, None, snd (ext_call (npu_instance_remove e i) s))
                              else let s = upd_sw (stp_info_put \<lparr>stp_inst_id = i, si_vlan_tree = None\<rparr>) s;
                                       (ok, s) = ext_call (lib_rbtree_create_ok (slib e)) s
                                   in if \<not> ok
                                      then (SAI_STATUS_FAILURE, None,
                                            snd (ext_call (npu_instance_remove e i) (upd_sw (stp_info_del i) s)))
                                      else (SAI_STATUS_SUCCESS, Some i,
                                            upd_sw (stp_info_put \<lparr>stp_inst_id = i, si_vlan_tree = Some []\<rparr>) s))"

definition sai_stp_instance_remove :: "'h stp_env \<Rightarrow> oid \<Rightarrow> 'h stp_state \<Rightarrow> sai_status \<times> 'h stp_state" where
  "sai_stp_instance_remove e i s =
     (if \<not> sai_is_obj_id_stp_instance e i then (SAI_STATUS_INVALID_OBJECT_TYPE, s)
      else case stp_lookup (sw s) i of
             Inl error \<Rightarrow> (error, s)
           | Inr p \<Rightarrow>
               if (case si_vlan_tree p of None \<Rightarrow> False | Some vt \<Rightarrow> vt \<noteq> []) then (SAI_STATUS_OBJECT_IN_USE, s)
               else let (error, s) = ext_call (npu_instance_remove e (stp_inst_id p)) s
                    in if error \<noteq> SAI_STATUS_SUCCESS then (error, s)
                       else (SAI_STATUS_SUCCESS, upd_sw (stp_info_del i) s))"

section \<open>VLANs of an instance\<close>

text \<open>The VLAN id comes as 64 bits; the key of the tree is its low 16 bits.\<close>

definition sai_stp_vlan_add :: "'h stp_env \<Rightarrow> oid \<Rightarrow> u64 \<Rightarrow> 'h stp_state \<Rightarrow> sai_status \<times> 'h stp_state" where
  "sai_stp_vlan_add e i vlan_id s =
     (if \<not> sai_is_obj_id_stp_instance e i then (SAI_STATUS_INVALID_OBJECT_TYPE, s)
      else case stp_lookup (sw s) i of
             Inl error \<Rightarrow> (error, s)
           | Inr p \<Rightarrow>
               (case si_vlan_tree p of
                  None \<Rightarrow> (SAI_STATUS_FAILURE, s)
                | Some vt \<Rightarrow>
                    if tree_get vt (ucast vlan_id) \<noteq> None then (SAI_STATUS_ITEM_ALREADY_EXISTS, s)
                    else let (ok, s) = ext_call (lib_calloc_ok (slib e)) s
                         in if \<not> ok then (SAI_STATUS_NO_MEMORY, s)
                            else let (error, s) = ext_call (npu_stp_vlan_add e i vlan_id) s
                                 in if error \<noteq> SAI_STATUS_SUCCESS then (error, s)
                                    else let (ok, s) = lib_insert_ok (slib e) vt (ucast vlan_id) s
                                         in if \<not> ok
                                            then (SAI_STATUS_FAILURE, snd (ext_call (npu_stp_vlan_remove e i vlan_id) s))
                                            else (SAI_STATUS_SUCCESS,
                                                  upd_sw (stp_info_put (p\<lparr>si_vlan_tree :=
                                                    Some (tree_put (ucast vlan_id) (ucast vlan_id) vt)\<rparr>)) s)))"

definition sai_stp_vlan_remove :: "'h stp_env \<Rightarrow> oid \<Rightarrow> u64 \<Rightarrow> 'h stp_state \<Rightarrow> sai_status \<times> 'h stp_state" where
  "sai_stp_vlan_remove e i vlan_id s =
     (if \<not> sai_is_obj_id_stp_instance e i then (SAI_STATUS_INVALID_OBJECT_TYPE, s)
      else case stp_lookup (sw s) i of
             Inl error \<Rightarrow> (error, s)
           | Inr p \<Rightarrow>
               (case si_vlan_tree p of
                  None \<Rightarrow> (SAI_STATUS_FAILURE, s)
                | Some vt \<Rightarrow>
                    if tree_get vt (ucast vlan_id) = None then (SAI_STATUS_ITEM_NOT_FOUND, s)
                    else let (error, s) = ext_call (npu_stp_vlan_remove e i vlan_id) s
                         in if error \<noteq> SAI_STATUS_SUCCESS then (error, s)
                            else (SAI_STATUS_SUCCESS,
                                  upd_sw (stp_info_put (p\<lparr>si_vlan_tree := Some (tree_del (ucast vlan_id) vt)\<rparr>)) s)))"

section \<open>Attributes and port states\<close>

definition sai_stp_attribute_set :: "'h stp_env \<Rightarrow> oid \<Rightarrow> stp_attr \<Rightarrow> 'h stp_state \<Rightarrow> sai_status" where
  "sai_stp_attribute_set e i attr s =
     (if \<not> sai_is_obj_id_stp_instance e i then SAI_STATUS_INVALID_OBJECT_TYPE
      else case stp_lookup (sw s) i of
             Inl error \<Rightarrow> error
           | Inr p \<Rightarrow> (case attr of SAI_STP_ATTR_VLAN_LIST _ \<Rightarrow> SAI_STATUS_INVALID_ATTRIBUTE_0
                                  | STP_ATTR_OTHER _ _ \<Rightarrow> SAI_STATUS_UNKNOWN_ATTRIBUTE_0))"

definition sai_stp_attribute_get ::
    "'h stp_env \<Rightarrow> oid \<Rightarrow> stp_attr list \<Rightarrow> 'h stp_state \<Rightarrow> (sai_status \<times> stp_attr list) \<times> 'h stp_state" where
  "sai_stp_attribute_get e i attrs s =
     (if \<not> sai_is_obj_id_stp_instance e i then ((SAI_STATUS_INVALID_OBJECT_TYPE, attrs), s)
      else case stp_lookup (sw s) i of
             Inl error \<Rightarrow> ((error, attrs), s)
           | Inr p \<Rightarrow> ext_call (npu_stp_attribute_get e i attrs) s)"

text \<open>These two do not check that the component was initialised.\<close>

definition sai_stp_port_state_set ::
    "'h stp_env \<Rightarrow> oid \<Rightarrow> oid \<Rightarrow> sai_port_stp_port_state_t \<Rightarrow> 'h stp_state \<Rightarrow> sai_status \<times> 'h stp_state" where
  "sai_stp_port_state_set e i port_id port_state s =
     (if \<not> sai_is_obj_id_stp_instance e i then (SAI_STATUS_INVALID_OBJECT_TYPE, s)
      else if \<not> sai_is_port_valid e port_id (ext s) then (SAI_STATUS_INVALID_OBJECT_ID, s)
      else if tree_get (stp_info_tree (sw s)) i = None then (SAI_STATUS_INVALID_OBJECT_ID, s)
      else ext_call (npu_port_state_set e i port_id port_state) s)"

definition sai_stp_port_state_get ::
    "'h stp_env \<Rightarrow> oid \<Rightarrow> oid \<Rightarrow> 'h stp_state \<Rightarrow> (sai_status \<times> sai_port_stp_port_state_t option) \<times> 'h stp_state" where
  "sai_stp_port_state_get e i port_id s =
     (if \<not> sai_is_obj_id_stp_instance e i then ((SAI_STATUS_INVALID_OBJECT_TYPE, None), s)
      else if \<not> sai_is_port_valid e port_id (ext s) then ((SAI_STATUS_INVALID_OBJECT_ID, None), s)
      else if tree_get (stp_info_tree (sw s)) i = None then ((SAI_STATUS_INVALID_OBJECT_ID, None), s)
      else let ((error, st), s) = ext_call (npu_port_state_get e i port_id) s in ((error, Some st), s))"

section \<open>The instance of a VLAN\<close>

text \<open>Used by the VLAN component, with VLAN ids that are valid indexes of the table.\<close>

definition sai_stp_vlan_destroy :: "'h stp_env \<Rightarrow> vlan_id \<Rightarrow> 'h stp_state \<Rightarrow> sai_status \<times> 'h stp_state" where
  "sai_stp_vlan_destroy e v s =
     (let (ret, s) = sai_stp_vlan_remove e (g_stp_vlan_map (sw s) v) (ucast v) s
      in if ret \<noteq> SAI_STATUS_SUCCESS then (ret, s) else (ret, upd_sw (stp_map_set v 0) s))"

text \<open>When the VLAN cannot be added to the new instance it is added to the old one again, come what may.\<close>

definition sai_stp_vlan_handle :: "'h stp_env \<Rightarrow> vlan_id \<Rightarrow> oid \<Rightarrow> 'h stp_state \<Rightarrow> sai_status \<times> 'h stp_state" where
  "sai_stp_vlan_handle e v i s =
     (if \<not> sai_stp_is_valid_stp_instance (sw s) i then (SAI_STATUS_INVALID_OBJECT_ID, s)
      else let (ret, s) = sai_stp_vlan_remove e (g_stp_vlan_map (sw s) v) (ucast v) s
           in if ret \<noteq> SAI_STATUS_SUCCESS then (ret, s)
              else let (ret, s) = sai_stp_vlan_add e i (ucast v) s
                   in if ret \<noteq> SAI_STATUS_SUCCESS
                      then (ret, snd (sai_stp_vlan_add e (g_stp_vlan_map (sw s) v) (ucast v) s))
                      else (ret, upd_sw (stp_map_set v i) s))"

definition sai_stp_default_stp_vlan_update :: "'h stp_env \<Rightarrow> vlan_id \<Rightarrow> 'h stp_state \<Rightarrow> sai_status \<times> 'h stp_state" where
  "sai_stp_default_stp_vlan_update e v s =
     (let (ret, s) =
            (if g_stp_vlan_map (sw s) v \<noteq> 0
             then let (ret, s) = sai_stp_vlan_remove e (g_stp_vlan_map (sw s) v) (ucast v) s
                  in if ret \<noteq> SAI_STATUS_SUCCESS then (ret, s) else (ret, upd_sw (stp_map_set v 0) s)
             else (SAI_STATUS_SUCCESS, s))
      in if ret \<noteq> SAI_STATUS_SUCCESS then (ret, s)
         else let (ret, s) = sai_stp_vlan_add e (g_def_stp_id (sw s)) (ucast v) s
              in if ret \<noteq> SAI_STATUS_SUCCESS then (ret, s)
                 else (ret, upd_sw (\<lambda>d. stp_map_set v (g_def_stp_id d) d) s))"

section \<open>Initialisation\<close>

definition sai_internal_instance_update_cache ::
    "'h stp_env \<Rightarrow> oid \<Rightarrow> vlan_id \<Rightarrow> bool \<Rightarrow> 'h stp_state \<Rightarrow> sai_status \<times> 'h stp_state" where
  "sai_internal_instance_update_cache e i v add_vlan_to_npu s =
     (if stp_info_handle (sw s) = TreeNull then (SAI_STATUS_FAILURE, s)
      else let (ok, s) = ext_call (lib_calloc_ok (slib e)) s
      in if \<not> ok then (SAI_STATUS_NO_MEMORY, s)
      else let (ok, s) = lib_insert_ok (slib e) (stp_info_tree (sw s)) i s
      in if \<not> ok then (SAI_STATUS_FAILURE, s)
      else let s = upd_sw (stp_info_put \<lparr>stp_inst_id = i, si_vlan_tree = None\<rparr>) s;
               (ok, s) = ext_call (lib_rbtree_create_ok (slib e)) s
      in if \<not> ok then (SAI_STATUS_FAILURE, upd_sw (stp_info_del i) s)
      else let (ok, s) = ext_call (lib_calloc_ok (slib e)) s
      in if \<not> ok then (SAI_STATUS_NO_MEMORY, upd_sw (stp_info_del i) s)
      else let (error, s) = (if add_vlan_to_npu then ext_call (npu_stp_vlan_add e i (ucast v)) s
                             else (SAI_STATUS_SUCCESS, s))
      in if error \<noteq> SAI_STATUS_SUCCESS then (error, upd_sw (stp_info_del i) s)
      else let (ok, s) = lib_insert_ok (slib e) ([] :: (vlan_id, vlan_id) tree) v s
      in if \<not> ok
         then let s = (if add_vlan_to_npu then snd (ext_call (npu_stp_vlan_remove e i (ucast v)) s) else s)
              in (SAI_STATUS_FAILURE, upd_sw (stp_info_del i) s)
         else (SAI_STATUS_SUCCESS,
               upd_sw (\<lambda>d. stp_map_set v i (stp_info_put \<lparr>stp_inst_id = i, si_vlan_tree = Some [(v, v)]\<rparr> d)) s))"

definition stp_init_steps :: "'h stp_env \<Rightarrow> 'h stp_state \<Rightarrow> sai_status \<times> 'h stp_state" where
  "stp_init_steps e s =
     (let ((ret, def_stp_id, l3_stp_id), s) = ext_call (npu_stp_init e) s
      in if ret \<noteq> SAI_STATUS_SUCCESS then (ret, s)
         else let s = upd_sw (\<lambda>d. d\<lparr>g_def_stp_id := stp_oid e def_stp_id\<rparr>) s;
                  (ret, s) = sai_internal_instance_update_cache e (stp_oid e def_stp_id) (SAI_INIT_DEFAULT_VLAN e) False s
              in if ret \<noteq> SAI_STATUS_SUCCESS then (ret, s)
                 else sai_internal_instance_update_cache e (stp_oid e l3_stp_id) (sai_internal_vlan_id e) True s)"

text \<open>A failed initialisation destroys the tree and keeps its handle.\<close>

definition sai_stp_init :: "'h stp_env \<Rightarrow> 'h stp_state \<Rightarrow> sai_status \<times> 'h stp_state" where
  "sai_stp_init e s =
     (let (ok, s) = ext_call (lib_rbtree_create_ok (slib e)) s
      in if \<not> ok then (SAI_STATUS_FAILURE, upd_sw (\<lambda>d. d\<lparr>stp_info_handle := TreeNull, stp_info_tree := []\<rparr>) s)
         else let (ret, s) = stp_init_steps e (upd_sw (\<lambda>d. d\<lparr>stp_info_handle := TreeLive, stp_info_tree := []\<rparr>) s)
              in (ret, if ret \<noteq> SAI_STATUS_SUCCESS
                       then upd_sw (\<lambda>d. d\<lparr>stp_info_handle := TreeDestroyed, stp_info_tree := []\<rparr>) s else s))"

section \<open>Queries\<close>

definition sai_stp_vlan_stp_get :: "'h stp_env \<Rightarrow> vlan_id \<Rightarrow> 'h stp_state \<Rightarrow> (sai_status \<times> oid option) \<times> 'h stp_state" where
  "sai_stp_vlan_stp_get e v s =
     (let ((ret, npu_object_id), s) = ext_call (npu_vlan_stp_get e v) s
      in ((ret, if ret \<noteq> SAI_STATUS_SUCCESS then None else Some (stp_oid e npu_object_id)), s))"

definition sai_l2_stp_default_instance_id_get ::
    "'h stp_env \<Rightarrow> 'h stp_state \<Rightarrow> (sai_status \<times> oid option) \<times> 'h stp_state" where
  "sai_l2_stp_default_instance_id_get e s =
     (let ((ret, def_stp_id), s) = ext_call (npu_default_instance_get e) s
      in ((ret, if ret \<noteq> SAI_STATUS_SUCCESS then None else Some (stp_oid e def_stp_id)), s))"

end
