(* ===== verification/Stp_Inv.thy ===== *)
theory Stp_Inv
  imports Stp_Api
begin

text \<open>
  What the operations on STP instances do, seen from the VLANs: the abstract state is the instance each
  VLAN is attached to, if any. The invariant says that a VLAN is in the tree of at most one instance,
  the one the table names.
\<close>

section \<open>The abstract state\<close>

definition stp_attached :: "stp_db \<Rightarrow> oid \<Rightarrow> vlan_id \<Rightarrow> bool" where
  "stp_attached d i v \<longleftrightarrow>
     (case tree_get (stp_info_tree d) i of
        None \<Rightarrow> False
      | Some p \<Rightarrow> (case si_vlan_tree p of None \<Rightarrow> False | Some vt \<Rightarrow> tree_get vt v \<noteq> None))"

definition stp_of :: "stp_db \<Rightarrow> vlan_id \<Rightarrow> oid option" where
  "stp_of d v = (if stp_attached d (g_stp_vlan_map d v) v then Some (g_stp_vlan_map d v) else None)"

definition stp_node_ok :: "'h stp_env \<Rightarrow> oid \<Rightarrow> dn_sai_stp_info_t \<Rightarrow> bool" where
  "stp_node_ok e i p \<longleftrightarrow> stp_inst_id p = i \<and> sai_is_obj_id_stp_instance e i \<and> si_vlan_tree p \<noteq> None"

definition stp_inv :: "'h stp_env \<Rightarrow> stp_db \<Rightarrow> bool" where
  "stp_inv e d \<longleftrightarrow>
     (stp_info_handle d \<noteq> TreeLive \<longrightarrow> stp_info_tree d = []) \<and>
     (\<forall>i p. tree_get (stp_info_tree d) i = Some p \<longrightarrow> stp_node_ok e i p) \<and>
     (\<forall>i v. stp_attached d i v \<longrightarrow> g_stp_vlan_map d v = i)"

lemma stp_invD:
  assumes "stp_inv e d"
  shows "stp_info_handle d \<noteq> TreeLive \<Longrightarrow> stp_info_tree d = []"
    "tree_get (stp_info_tree d) i = Some p \<Longrightarrow> stp_node_ok e i p"
    "stp_attached d i v \<Longrightarrow> g_stp_vlan_map d v = i"
  using assms unfolding stp_inv_def by blast+

lemma stp_of_iff: "stp_inv e d \<Longrightarrow> stp_of d v = Some i \<longleftrightarrow> stp_attached d i v"
  by (auto simp: stp_of_def dest: stp_invD(3))

lemma stp_of_None_iff: "stp_inv e d \<Longrightarrow> stp_of d v = None \<longleftrightarrow> (\<forall>i. \<not> stp_attached d i v)"
  by (auto simp: stp_of_def dest: stp_invD(3))

text \<open>
  The environment: the null id is of no STP instance, and the default VLAN is not the internal one.
\<close>

definition stp_env_ok :: "'h stp_env \<Rightarrow> bool" where
  "stp_env_ok e \<longleftrightarrow> lib_ok (slib e) \<and> \<not> sai_is_obj_id_stp_instance e 0 \<and> SAI_INIT_DEFAULT_VLAN e \<noteq> sai_internal_vlan_id e"

lemma stp_oid_type: "stp_env_ok e \<Longrightarrow> sai_is_obj_id_stp_instance e (stp_oid e n)"
  by (simp add: stp_env_ok_def sai_is_obj_id_stp_instance_def stp_oid_def lib_okD(1) named_type_def)

section \<open>Updates\<close>

text \<open>The VLANs of an instance become those of another tree.\<close>

definition stp_vlans_set :: "oid \<Rightarrow> (vlan_id, vlan_id) tree \<Rightarrow> stp_db \<Rightarrow> stp_db" where
  "stp_vlans_set i vt d = stp_info_put \<lparr>stp_inst_id = i, si_vlan_tree = Some vt\<rparr> d"

lemma stp_updates_sel [simp]:
  "stp_info_handle (stp_vlans_set i vt d) = stp_info_handle d" "g_def_stp_id (stp_vlans_set i vt d) = g_def_stp_id d"
  "g_stp_vlan_map (stp_vlans_set i vt d) = g_stp_vlan_map d"
  "stp_info_tree (stp_vlans_set i vt d) = tree_put i \<lparr>stp_inst_id = i, si_vlan_tree = Some vt\<rparr> (stp_info_tree d)"
  "stp_info_handle (stp_map_set v i d) = stp_info_handle d" "g_def_stp_id (stp_map_set v i d) = g_def_stp_id d"
  "g_stp_vlan_map (stp_map_set v i d) = (g_stp_vlan_map d)(v := i)" "stp_info_tree (stp_map_set v i d) = stp_info_tree d"
  "stp_info_handle (stp_info_del i d) = stp_info_handle d" "g_def_stp_id (stp_info_del i d) = g_def_stp_id d"
  "g_stp_vlan_map (stp_info_del i d) = g_stp_vlan_map d" "stp_info_tree (stp_info_del i d) = tree_del i (stp_info_tree d)"
  "stp_info_handle (stp_info_put p d) = stp_info_handle d" "g_def_stp_id (stp_info_put p d) = g_def_stp_id d"
  "g_stp_vlan_map (stp_info_put p d) = g_stp_vlan_map d"
  "stp_info_tree (stp_info_put p d) = tree_put (stp_inst_id p) p (stp_info_tree d)"
  by (simp_all add: stp_vlans_set_def stp_map_set_def stp_info_del_def stp_info_put_def)

lemma attached_updates [simp]:
  "stp_attached (stp_vlans_set i vt d) j w = (if j = i then tree_get vt w \<noteq> None else stp_attached d j w)"
  "stp_attached (stp_map_set v i d) j w = stp_attached d j w"
  "stp_attached (stp_info_del i d) j w = (j \<noteq> i \<and> stp_attached d j w)"
  by (simp_all add: stp_attached_def)

lemma stp_inv_vlans_set:
  assumes "stp_inv e d" "stp_info_handle d = TreeLive" "sai_is_obj_id_stp_instance e i"
    and "\<And>w. tree_get vt w \<noteq> None \<Longrightarrow> g_stp_vlan_map d w = i"
  shows "stp_inv e (stp_vlans_set i vt d)"
  using assms stp_invD [OF assms(1)] unfolding stp_inv_def by (auto simp: stp_node_ok_def)

lemma stp_inv_map_set:
  assumes "stp_inv e d" "\<And>j. j \<noteq> i \<Longrightarrow> \<not> stp_attached d j v"
  shows "stp_inv e (stp_map_set v i d)"
proof -
  have "((g_stp_vlan_map d)(v := i)) w = j" if "stp_attached d j w" for j w
    using assms(2) [of j] stp_invD(3) [OF assms(1) that] that by (cases "w = v") auto
  then show ?thesis using stp_invD(1,2) [OF assms(1)] by (simp add: stp_inv_def)
qed

lemma stp_inv_del:
  assumes "stp_inv e d"
  shows "stp_inv e (stp_info_del i d)"
proof -
  have "tree_del i [] = ([] :: (oid, dn_sai_stp_info_t) tree)" by (simp add: tree_del_absent)
  then show ?thesis using stp_invD [OF assms] by (simp add: stp_inv_def)
qed

section \<open>VLANs of an instance\<close>

lemma stp_lookup_Inr:
  "stp_lookup d i = Inr p \<longleftrightarrow> stp_info_handle d \<noteq> TreeNull \<and> tree_get (stp_info_tree d) i = Some p"
  by (auto simp: stp_lookup_def split: option.splits)

lemma ucast_vlan [simp]: "ucast (ucast (v :: vlan_id) :: u64) = v"
  by (rule bit_word_eqI) (simp add: bit_simps)

lemma stp_node_eq: "stp_node_ok e i p \<Longrightarrow> si_vlan_tree p = Some vt \<Longrightarrow> p = \<lparr>stp_inst_id = i, si_vlan_tree = Some vt\<rparr>"
  by (cases p) (simp add: stp_node_ok_def)

lemma stp_node_form:
  assumes "stp_inv e d" "tree_get (stp_info_tree d) i = Some p"
  shows "stp_info_handle d = TreeLive" "\<exists>vt. p = \<lparr>stp_inst_id = i, si_vlan_tree = Some vt\<rparr>"
proof -
  show "stp_info_handle d = TreeLive" using assms(2) stp_invD(1) [OF assms(1)] by (cases "stp_info_handle d = TreeLive") auto
  have ok: "stp_node_ok e i p" by (rule stp_invD(2) [OF assms])
  then obtain vt where "si_vlan_tree p = Some vt" by (auto simp: stp_node_ok_def)
  then show "\<exists>vt. p = \<lparr>stp_inst_id = i, si_vlan_tree = Some vt\<rparr>" using stp_node_eq [OF ok] by blast
qed

lemma stp_vlan_add_result:
  assumes inv: "stp_inv e (sw s)" and c: "sai_stp_vlan_add e i (ucast v) s = (st, s')"
  shows "if st = SAI_STATUS_SUCCESS
    then \<exists>vt. tree_get (stp_info_tree (sw s)) i = Some \<lparr>stp_inst_id = i, si_vlan_tree = Some vt\<rparr> \<and>
      stp_info_handle (sw s) = TreeLive \<and> tree_get vt v = None \<and> sw s' = stp_vlans_set i (tree_put v v vt) (sw s)
    else sw s' = sw s"
proof (cases "sai_is_obj_id_stp_instance e i \<and> (\<exists>p. stp_lookup (sw s) i = Inr p)")
  case False
  then have "st \<noteq> SAI_STATUS_SUCCESS \<and> s' = s"
    using c by (auto simp: sai_stp_vlan_add_def stp_lookup_def split: sum.splits if_splits option.splits)
  then show ?thesis by simp
next
  case True
  then obtain p where p: "stp_lookup (sw s) i = Inr p" "tree_get (stp_info_tree (sw s)) i = Some p"
    by (auto simp: stp_lookup_Inr)
  obtain vt where vt: "p = \<lparr>stp_inst_id = i, si_vlan_tree = Some vt\<rparr>" using stp_node_form(2) [OF inv p(2)] by blast
  note h = stp_node_form(1) [OF inv p(2)]
  show ?thesis
    using c True p h
    by (auto simp: sai_stp_vlan_add_def vt stp_vlans_set_def split: if_splits prod.splits dest!: ext_call_sw lib_insert_okD)
qed

lemma stp_vlan_remove_result:
  assumes inv: "stp_inv e (sw s)" and c: "sai_stp_vlan_remove e i (ucast v) s = (st, s')"
  shows "if st = SAI_STATUS_SUCCESS
    then stp_attached (sw s) i v \<and>
      (\<exists>vt. tree_get (stp_info_tree (sw s)) i = Some \<lparr>stp_inst_id = i, si_vlan_tree = Some vt\<rparr> \<and>
        stp_info_handle (sw s) = TreeLive \<and> sw s' = stp_vlans_set i (tree_del v vt) (sw s))
    else sw s' = sw s"
proof (cases "sai_is_obj_id_stp_instance e i \<and> (\<exists>p. stp_lookup (sw s) i = Inr p)")
  case False
  then have "st \<noteq> SAI_STATUS_SUCCESS \<and> s' = s"
    using c by (auto simp: sai_stp_vlan_remove_def stp_lookup_def split: sum.splits if_splits option.splits)
  then show ?thesis by simp
next
  case True
  then obtain p where p: "stp_lookup (sw s) i = Inr p" "tree_get (stp_info_tree (sw s)) i = Some p"
    by (auto simp: stp_lookup_Inr)
  obtain vt where vt: "p = \<lparr>stp_inst_id = i, si_vlan_tree = Some vt\<rparr>" using stp_node_form(2) [OF inv p(2)] by blast
  note h = stp_node_form(1) [OF inv p(2)]
  show ?thesis
    using c True p h
    by (auto simp: sai_stp_vlan_remove_def vt stp_vlans_set_def stp_attached_def split: if_splits prod.splits
        dest!: ext_call_sw)
qed

text \<open>
  Seen from outside: an addition attaches exactly that VLAN, a removal detaches it, and neither touches
  the table.
\<close>

definition stp_attach :: "oid \<Rightarrow> vlan_id \<Rightarrow> stp_db \<Rightarrow> stp_db \<Rightarrow> bool" where
  "stp_attach i v d d' \<longleftrightarrow> \<not> stp_attached d i v \<and> (\<forall>j w. stp_attached d' j w = (stp_attached d j w \<or> j = i \<and> w = v)) \<and>
     g_stp_vlan_map d' = g_stp_vlan_map d \<and> g_def_stp_id d' = g_def_stp_id d"

definition stp_detach :: "oid \<Rightarrow> vlan_id \<Rightarrow> stp_db \<Rightarrow> stp_db \<Rightarrow> bool" where
  "stp_detach i v d d' \<longleftrightarrow> stp_attached d i v \<and> (\<forall>j w. stp_attached d' j w = (stp_attached d j w \<and> \<not> (j = i \<and> w = v))) \<and>
     g_stp_vlan_map d' = g_stp_vlan_map d \<and> g_def_stp_id d' = g_def_stp_id d"

lemma stp_vlan_add_effect:
  assumes inv: "stp_inv e (sw s)" and c: "sai_stp_vlan_add e i (ucast v) s = (st, s')"
  shows "if st = SAI_STATUS_SUCCESS then stp_attach i v (sw s) (sw s') else sw s' = sw s"
  using stp_vlan_add_result [OF assms]
  by (auto simp: stp_attach_def stp_attached_def split: if_splits)

lemma stp_vlan_remove_effect:
  assumes inv: "stp_inv e (sw s)" and c: "sai_stp_vlan_remove e i (ucast v) s = (st, s')"
  shows "if st = SAI_STATUS_SUCCESS then stp_detach i v (sw s) (sw s') \<and> stp_inv e (sw s') else sw s' = sw s"
proof -
  have "stp_inv e (stp_vlans_set i (tree_del v vt) (sw s))"
    if "tree_get (stp_info_tree (sw s)) i = Some \<lparr>stp_inst_id = i, si_vlan_tree = Some vt\<rparr>"
      "stp_info_handle (sw s) = TreeLive" for vt
  proof (rule stp_inv_vlans_set [OF inv that(2)])
    show "sai_is_obj_id_stp_instance e i" using stp_invD(2) [OF inv that(1)] by (simp add: stp_node_ok_def)
    show "g_stp_vlan_map (sw s) w = i" if w: "tree_get (tree_del v vt) w \<noteq> None" for w
      using w \<open>tree_get (stp_info_tree (sw s)) i = _\<close> stp_invD(3) [OF inv, of i w]
      by (simp add: stp_attached_def split: if_splits)
  qed
  then show ?thesis
    using stp_vlan_remove_result [OF assms]
    by (auto simp: stp_detach_def stp_attached_def split: if_splits)
qed

text \<open>After an addition the invariant holds again once the table names the instance.\<close>

lemma stp_vlan_add_inv:
  assumes inv: "stp_inv e (sw s)" and no: "\<forall>j. \<not> stp_attached (sw s) j v"
    and c: "sai_stp_vlan_add e i (ucast v) s = (SAI_STATUS_SUCCESS, s')"
  shows "stp_inv e (stp_map_set v i (sw s'))"
proof -
  obtain vt where vt: "tree_get (stp_info_tree (sw s)) i = Some \<lparr>stp_inst_id = i, si_vlan_tree = Some vt\<rparr>"
    "stp_info_handle (sw s) = TreeLive" "tree_get vt v = None" "sw s' = stp_vlans_set i (tree_put v v vt) (sw s)"
    using stp_vlan_add_result [OF inv c] by auto
  have "stp_inv e (stp_map_set v i (sw s))" using stp_inv_map_set [OF inv] no by blast
  moreover have "stp_map_set v i (sw s') = stp_vlans_set i (tree_put v v vt) (stp_map_set v i (sw s))"
    by (simp add: vt(4) stp_map_set_def stp_vlans_set_def stp_info_put_def)
  moreover have "g_stp_vlan_map (sw s) w = i" if "tree_get vt w \<noteq> None" for w
    using stp_invD(3) [OF inv, of i w] vt(1) that by (simp add: stp_attached_def)
  moreover have "sai_is_obj_id_stp_instance e i" using stp_invD(2) [OF inv vt(1)] by (simp add: stp_node_ok_def)
  ultimately show ?thesis using stp_inv_vlans_set [of e "stp_map_set v i (sw s)" i "tree_put v v vt"] vt(2)
    by (auto split: if_splits)
qed

end
