(* ===== verification/Stp_System.thy ===== *)
theory Stp_System
  imports Stp_Inv
begin

text \<open>
  The STP component as a state machine: instances come and go, the VLAN component moves VLANs between
  them, and any call of the hardware or the library may fail.
\<close>

section \<open>Moving VLANs\<close>

text \<open>
  What a move may do to the instance of each VLAN: it succeeds and the VLAN is in the new instance, or it
  fails and the VLAN is where it was or in no instance. No other VLAN is touched.
\<close>

definition stp_moved :: "vlan_id \<Rightarrow> oid option \<Rightarrow> sai_status \<Rightarrow> stp_db \<Rightarrow> stp_db \<Rightarrow> bool" where
  "stp_moved v to st d d' \<longleftrightarrow>
     (if st = SAI_STATUS_SUCCESS then stp_of d' = (stp_of d)(v := to)
      else stp_of d' = stp_of d \<or> stp_of d' = (stp_of d)(v := None))"

lemma stp_map_set_same: "g_stp_vlan_map d v = i \<Longrightarrow> stp_map_set v i d = d"
  by (simp add: stp_map_set_def fun_upd_idem)

lemma option_eqI: "(\<And>j. x = Some j \<longleftrightarrow> y = Some j) \<Longrightarrow> x = y"
  by (cases x; cases y) auto

lemma stp_of_cong:
  assumes "stp_inv e d" "stp_inv e d'" "\<And>j w. stp_attached d' j w = stp_attached d j w"
  shows "stp_of d' = stp_of d"
  using assms(3) by (intro ext option_eqI) (simp add: stp_of_iff [OF assms(1)] stp_of_iff [OF assms(2)])

lemma stp_of_detach:
  assumes "stp_inv e d" "stp_inv e d'" "stp_detach i v d d'"
  shows "stp_of d' = (stp_of d)(v := None)"
proof (intro ext option_eqI)
  fix w j
  have at: "stp_attached d k u = (stp_of d u = Some k)" "stp_attached d' k u = (stp_of d' u = Some k)" for k u
    by (simp_all add: stp_of_iff [OF assms(1)] stp_of_iff [OF assms(2)])
  show "stp_of d' w = Some j \<longleftrightarrow> ((stp_of d)(v := None)) w = Some j"
    using assms(3) by (auto simp: stp_detach_def at)
qed

lemma stp_of_attach:
  assumes "stp_attach i v d d'" and no: "\<forall>j. \<not> stp_attached d j v"
  shows "stp_of (stp_map_set v i d') = (stp_of d)(v := Some i)"
proof
  fix w
  show "stp_of (stp_map_set v i d') w = ((stp_of d)(v := Some i)) w"
    using assms(1) by (cases "w = v") (simp_all add: stp_attach_def stp_of_def)
qed

lemma detached_none:
  assumes "stp_inv e d" "stp_detach i v d d'"
  shows "\<forall>j. \<not> stp_attached d' j v"
proof
  fix j
  have "stp_of d v = Some i" using assms(2) by (simp add: stp_of_iff [OF assms(1)] stp_detach_def)
  then show "\<not> stp_attached d' j v"
    using assms(2) stp_of_iff [OF assms(1), of v j] by (auto simp: stp_detach_def)
qed

lemma stp_vlan_destroy_effect:
  assumes inv: "stp_inv e (sw s)" and c: "sai_stp_vlan_destroy e v s = (st, s')"
  shows "stp_inv e (sw s')" "stp_moved v None st (sw s) (sw s')"
    "if st = SAI_STATUS_SUCCESS then stp_of (sw s) v \<noteq> None else sw s' = sw s"
proof -
  obtain st1 s1 where 1: "sai_stp_vlan_remove e (g_stp_vlan_map (sw s) v) (ucast v) s = (st1, s1)" by force
  note r = stp_vlan_remove_effect [OF inv 1]
  have "stp_inv e (sw s') \<and> stp_moved v None st (sw s) (sw s') \<and>
    (if st = SAI_STATUS_SUCCESS then stp_of (sw s) v \<noteq> None else sw s' = sw s)"
  proof (cases "st1 = SAI_STATUS_SUCCESS")
    case True
    then have d: "stp_detach (g_stp_vlan_map (sw s) v) v (sw s) (sw s1)" "stp_inv e (sw s1)" using r by simp_all
    have s': "st = SAI_STATUS_SUCCESS" "sw s' = stp_map_set v 0 (sw s1)"
      using c 1 True by (auto simp: sai_stp_vlan_destroy_def)
    have i: "stp_inv e (stp_map_set v 0 (sw s1))" using stp_inv_map_set [OF d(2)] detached_none [OF inv d(1)] by blast
    have "stp_of (stp_map_set v 0 (sw s1)) = stp_of (sw s1)" by (rule stp_of_cong [OF d(2) i]) simp
    then show ?thesis
      using s' i stp_of_detach [OF inv d(2,1)] d(1) by (auto simp: stp_moved_def stp_detach_def stp_of_def)
  next
    case False
    then show ?thesis using c 1 r inv by (auto simp: sai_stp_vlan_destroy_def stp_moved_def)
  qed
  then show "stp_inv e (sw s')" "stp_moved v None st (sw s) (sw s')"
    "if st = SAI_STATUS_SUCCESS then stp_of (sw s) v \<noteq> None else sw s' = sw s" by blast+
qed

lemma stp_vlan_handle_effect:
  assumes inv: "stp_inv e (sw s)" and c: "sai_stp_vlan_handle e v i s = (st, s')"
  shows "stp_inv e (sw s')" "stp_moved v (Some i) st (sw s) (sw s')"
    "stp_of (sw s) v = None \<Longrightarrow> st \<noteq> SAI_STATUS_SUCCESS \<and> sw s' = sw s"
proof -
  let ?old = "g_stp_vlan_map (sw s) v"
  have "stp_inv e (sw s') \<and> stp_moved v (Some i) st (sw s) (sw s') \<and>
    (stp_of (sw s) v = None \<longrightarrow> st \<noteq> SAI_STATUS_SUCCESS \<and> sw s' = sw s)"
  proof (cases "sai_stp_is_valid_stp_instance (sw s) i")
    case False
    then show ?thesis using c inv by (auto simp: sai_stp_vlan_handle_def stp_moved_def)
  next
    case valid: True
    obtain st1 s1 where 1: "sai_stp_vlan_remove e ?old (ucast v) s = (st1, s1)" by force
    note r = stp_vlan_remove_effect [OF inv 1]
    show ?thesis
    proof (cases "st1 = SAI_STATUS_SUCCESS")
      case False
      then show ?thesis using c 1 r inv valid by (auto simp: sai_stp_vlan_handle_def stp_moved_def)
    next
      case True
      then have d: "stp_detach ?old v (sw s) (sw s1)" "stp_inv e (sw s1)" using r by simp_all
      then have of: "stp_of (sw s) v = Some ?old" by (auto simp: stp_detach_def stp_of_def)
      note none = detached_none [OF inv d(1)]
      note o1 = stp_of_detach [OF inv d(2,1)]
      obtain st2 s2 where 2: "sai_stp_vlan_add e i (ucast v) s1 = (st2, s2)" by force
      note a = stp_vlan_add_effect [OF d(2) 2]
      show ?thesis
      proof (cases "st2 = SAI_STATUS_SUCCESS")
        case True
        then have s': "st = SAI_STATUS_SUCCESS" "sw s' = stp_map_set v i (sw s2)"
          using c 1 2 valid \<open>st1 = _\<close> by (auto simp: sai_stp_vlan_handle_def)
        have "stp_inv e (sw s')" using stp_vlan_add_inv [OF d(2) none] 2 True s' by simp
        moreover have "stp_of (sw s') = (stp_of (sw s1))(v := Some i)"
          using stp_of_attach [OF _ none] a True s'(2) by simp
        ultimately show ?thesis using o1 s'(1) of by (simp add: stp_moved_def)
      next
        case False
        obtain st3 s3 where 3: "sai_stp_vlan_add e (g_stp_vlan_map (sw s2) v) (ucast v) s2 = (st3, s3)" by force
        have sw2: "sw s2 = sw s1" using a False by simp
        have old: "g_stp_vlan_map (sw s1) v = ?old" using d(1) by (simp add: stp_detach_def)
        have s': "st = st2" "s' = s3" using c 1 2 3 valid \<open>st1 = _\<close> False by (auto simp: sai_stp_vlan_handle_def)
        have i2: "stp_inv e (sw s2)" using d(2) sw2 by simp
        note b = stp_vlan_add_effect [OF i2 3]
        show ?thesis
        proof (cases "st3 = SAI_STATUS_SUCCESS")
          case True
          then have at: "stp_attach ?old v (sw s1) (sw s3)" using b sw2 old by simp
          then have same: "stp_map_set v ?old (sw s3) = sw s3" using old by (intro stp_map_set_same) (simp add: stp_attach_def)
          have "stp_inv e (sw s3)" using stp_vlan_add_inv [OF i2 _ 3 [unfolded True]] none sw2 old same by simp
          moreover have "stp_of (sw s3) = (stp_of (sw s1))(v := Some ?old)"
            using stp_of_attach [OF at none] same by simp
          ultimately show ?thesis using o1 s' of False by (auto simp: stp_moved_def fun_upd_idem)
        next
          case st3: False
          then show ?thesis using b sw2 s' d(2) o1 of False by (auto simp: stp_moved_def)
        qed
      qed
    qed
  qed
  then show "stp_inv e (sw s')" "stp_moved v (Some i) st (sw s) (sw s')"
    "stp_of (sw s) v = None \<Longrightarrow> st \<noteq> SAI_STATUS_SUCCESS \<and> sw s' = sw s" by blast+
qed

lemma stp_default_update_effect:
  assumes ok: "stp_env_ok e" and inv: "stp_inv e (sw s)" and c: "sai_stp_default_stp_vlan_update e v s = (st, s')"
  shows "stp_inv e (sw s')" "stp_moved v (Some (g_def_stp_id (sw s))) st (sw s) (sw s')"
    "stp_of (sw s) v = None \<Longrightarrow> g_stp_vlan_map (sw s) v \<noteq> 0 \<Longrightarrow> st \<noteq> SAI_STATUS_SUCCESS \<and> sw s' = sw s"
    "g_def_stp_id (sw s') = g_def_stp_id (sw s)"
proof -
  let ?old = "g_stp_vlan_map (sw s) v" and ?def = "g_def_stp_id (sw s)"
  obtain st1 s1 where 1: "(if ?old \<noteq> 0
             then let (ret, s) = sai_stp_vlan_remove e ?old (ucast v) s
                  in if ret \<noteq> SAI_STATUS_SUCCESS then (ret, s) else (ret, upd_sw (stp_map_set v 0) s)
             else (SAI_STATUS_SUCCESS, s)) = (st1, s1)" by force
  have z: "\<not> stp_attached (sw s) 0 v"
    using stp_invD(2) [OF inv, of 0] ok by (auto simp: stp_attached_def stp_node_ok_def stp_env_ok_def split: option.splits)
  have first: "if st1 = SAI_STATUS_SUCCESS
      then stp_inv e (sw s1) \<and> (\<forall>j. \<not> stp_attached (sw s1) j v) \<and> stp_of (sw s1) = (stp_of (sw s))(v := None) \<and>
        g_def_stp_id (sw s1) = ?def \<and> (?old \<noteq> 0 \<longrightarrow> stp_of (sw s) v \<noteq> None)
      else sw s1 = sw s"
  proof (cases "?old = 0")
    case True
    then have "st1 = SAI_STATUS_SUCCESS" "s1 = s" using 1 by simp_all
    moreover have none: "\<forall>j. \<not> stp_attached (sw s) j v" using stp_invD(3) [OF inv] z True by metis
    then have "stp_of (sw s) v = None" by (simp add: stp_of_def)
    ultimately show ?thesis using inv none True by (simp add: fun_upd_idem)
  next
    case False
    obtain st2 s2 where 2: "sai_stp_vlan_destroy e v s = (st2, s2)" by force
    then have "st1 = st2" "s1 = s2" using 1 False by (auto simp: sai_stp_vlan_destroy_def)
    moreover have "g_def_stp_id (sw s2) = ?def"
    proof -
      obtain st3 s3 where 3: "sai_stp_vlan_remove e ?old (ucast v) s = (st3, s3)" by force
      show ?thesis using stp_vlan_remove_effect [OF inv 3] 2 3
        by (auto simp: sai_stp_vlan_destroy_def stp_detach_def split: if_splits)
    qed
    moreover note e2 = stp_vlan_destroy_effect [OF inv 2]
    have "\<forall>j. \<not> stp_attached (sw s2) j v" if "st2 = SAI_STATUS_SUCCESS"
    proof -
      have "stp_of (sw s2) v = None" using e2(2) that by (simp add: stp_moved_def)
      then show ?thesis using stp_of_None_iff [OF e2(1)] by simp
    qed
    ultimately show ?thesis using e2 by (auto simp: stp_moved_def split: if_splits)
  qed
  have "stp_inv e (sw s') \<and> stp_moved v (Some ?def) st (sw s) (sw s') \<and>
    (stp_of (sw s) v = None \<and> ?old \<noteq> 0 \<longrightarrow> st \<noteq> SAI_STATUS_SUCCESS \<and> sw s' = sw s) \<and> g_def_stp_id (sw s') = ?def"
  proof (cases "st1 = SAI_STATUS_SUCCESS")
    case False
    then have "st = st1" "s' = s1" using c 1 by (auto simp: sai_stp_default_stp_vlan_update_def Let_def)
    then show ?thesis using first False inv by (simp add: stp_moved_def)
  next
    case True
    then have f: "stp_inv e (sw s1)" "\<forall>j. \<not> stp_attached (sw s1) j v" "stp_of (sw s1) = (stp_of (sw s))(v := None)"
        "g_def_stp_id (sw s1) = ?def" "?old \<noteq> 0 \<longrightarrow> stp_of (sw s) v \<noteq> None" using first by simp_all
    obtain st2 s2 where 2: "sai_stp_vlan_add e (g_def_stp_id (sw s1)) (ucast v) s1 = (st2, s2)" by force
    note a = stp_vlan_add_effect [OF f(1) 2]
    have c': "(st, s') = (if st2 \<noteq> SAI_STATUS_SUCCESS then (st2, s2) else (st2, upd_sw (\<lambda>d. stp_map_set v (g_def_stp_id d) d) s2))"
      using c 1 2 True by (auto simp: sai_stp_default_stp_vlan_update_def Let_def)
    show ?thesis
    proof (cases "st2 = SAI_STATUS_SUCCESS")
      case False
      then show ?thesis using a c' f by (auto simp: stp_moved_def)
    next
      case st2: True
      then have at: "stp_attach ?def v (sw s1) (sw s2)" using a f(4) by simp
      then have s': "st = SAI_STATUS_SUCCESS" "sw s' = stp_map_set v ?def (sw s2)"
        using c' st2 f(4) by (auto simp: stp_attach_def)
      have "stp_inv e (sw s')" using stp_vlan_add_inv [OF f(1,2) 2 [unfolded st2]] s' f(4) by simp
      moreover have "stp_of (sw s') = (stp_of (sw s1))(v := Some ?def)"
        using stp_of_attach [OF at f(2)] s'(2) by simp
      ultimately show ?thesis using f s' at by (auto simp: stp_moved_def stp_attach_def)
    qed
  qed
  then show "stp_inv e (sw s')" "stp_moved v (Some ?def) st (sw s) (sw s')"
    "stp_of (sw s) v = None \<Longrightarrow> ?old \<noteq> 0 \<Longrightarrow> st \<noteq> SAI_STATUS_SUCCESS \<and> sw s' = sw s"
    "g_def_stp_id (sw s') = ?def" by blast+
qed

text \<open>The table changes at that VLAN only.\<close>

lemma vlan_add_map:
  "stp_inv e (sw s) \<Longrightarrow> sai_stp_vlan_add e i (ucast (v :: vlan_id)) s = (st, s') \<Longrightarrow>
    g_stp_vlan_map (sw s') = g_stp_vlan_map (sw s)"
  using stp_vlan_add_effect [of e s i v st s'] by (auto simp: stp_attach_def split: if_splits)

lemma vlan_remove_map:
  "stp_inv e (sw s) \<Longrightarrow> sai_stp_vlan_remove e i (ucast (v :: vlan_id)) s = (st, s') \<Longrightarrow>
    g_stp_vlan_map (sw s') = g_stp_vlan_map (sw s) \<and> stp_inv e (sw s') \<and> g_def_stp_id (sw s') = g_def_stp_id (sw s)"
  using stp_vlan_remove_effect [of e s i v st s'] by (auto simp: stp_detach_def split: if_splits)

lemma moves_map:
  assumes inv: "stp_inv e (sw s)" and w: "w \<noteq> v"
  shows "sai_stp_vlan_destroy e v s = (st, s') \<Longrightarrow> g_stp_vlan_map (sw s') w = g_stp_vlan_map (sw s) w"
    and "sai_stp_vlan_handle e v i s = (st, s') \<Longrightarrow> g_stp_vlan_map (sw s') w = g_stp_vlan_map (sw s) w"
    and "sai_stp_default_stp_vlan_update e v s = (st, s') \<Longrightarrow> g_stp_vlan_map (sw s') w = g_stp_vlan_map (sw s) w"
proof -
  let ?old = "g_stp_vlan_map (sw s) v"
  obtain st1 s1 where 1: "sai_stp_vlan_remove e ?old (ucast v) s = (st1, s1)" by force
  have r: "g_stp_vlan_map (sw s1) = g_stp_vlan_map (sw s)" "stp_inv e (sw s1)" using vlan_remove_map [OF inv 1] by simp_all
  show "g_stp_vlan_map (sw s') w = g_stp_vlan_map (sw s) w" if "sai_stp_vlan_destroy e v s = (st, s')"
    using that 1 r w by (auto simp: sai_stp_vlan_destroy_def split: if_splits)
  obtain st2 s2 where 2: "sai_stp_vlan_add e i (ucast v) s1 = (st2, s2)" by force
  obtain st3 s3 where 3: "sai_stp_vlan_add e (g_stp_vlan_map (sw s2) v) (ucast v) s2 = (st3, s3)" by force
  have "g_stp_vlan_map (sw s3) = g_stp_vlan_map (sw s2)" if "st2 \<noteq> SAI_STATUS_SUCCESS"
    using vlan_add_map [OF _ 3] stp_vlan_add_effect [OF r(2) 2] r(2) that by simp
  then show "g_stp_vlan_map (sw s') w = g_stp_vlan_map (sw s) w" if "sai_stp_vlan_handle e v i s = (st, s')"
    using that 1 2 3 r w vlan_add_map [OF r(2) 2]
    by (auto simp: sai_stp_vlan_handle_def split: if_splits)
  obtain st4 s4 where 4: "(if ?old \<noteq> 0
             then let (ret, s) = sai_stp_vlan_remove e ?old (ucast v) s
                  in if ret \<noteq> SAI_STATUS_SUCCESS then (ret, s) else (ret, upd_sw (stp_map_set v 0) s)
             else (SAI_STATUS_SUCCESS, s)) = (st4, s4)" by force
  have m4: "g_stp_vlan_map (sw s4) w = g_stp_vlan_map (sw s) w" using 4 1 r w by (auto split: if_splits)
  obtain st5 s5 where 5: "sai_stp_vlan_add e (g_def_stp_id (sw s4)) (ucast v) s4 = (st5, s5)" by force
  have i4: "stp_inv e (sw s4)" if "st4 = SAI_STATUS_SUCCESS"
  proof (cases "?old = 0")
    case True
    then show ?thesis using 4 inv by simp
  next
    case False
    then have "sai_stp_vlan_destroy e v s = (st4, s4)" using 4 by (auto simp: sai_stp_vlan_destroy_def)
    from stp_vlan_destroy_effect(1) [OF inv this] show ?thesis .
  qed
  show "g_stp_vlan_map (sw s') w = g_stp_vlan_map (sw s) w" if "sai_stp_default_stp_vlan_update e v s = (st, s')"
    using that 4 5 m4 w vlan_add_map [OF i4 5]
    by (auto simp: sai_stp_default_stp_vlan_update_def Let_def split: if_splits)
qed

section \<open>Instances\<close>

lemma stp_create_result:
  assumes inv: "stp_inv e (sw s)" and c: "sai_stp_instance_create e s = (st, out, s')"
  shows "if st = SAI_STATUS_SUCCESS
    then \<exists>n. out = Some (stp_oid e n) \<and> tree_get (stp_info_tree (sw s)) (stp_oid e n) = None \<and>
      stp_info_handle (sw s) \<noteq> TreeNull \<and> sw s' = stp_vlans_set (stp_oid e n) [] (sw s)
    else out = None \<and> sw s' = sw s"
  using c
  by (auto simp: sai_stp_instance_create_def Let_def stp_vlans_set_def stp_info_put_def stp_info_del_def tree_del_put_new tree_del_absent
      split: if_splits prod.splits dest!: ext_call_sw lib_insert_okD)

lemma stp_remove_result:
  assumes inv: "stp_inv e (sw s)" and c: "sai_stp_instance_remove e i s = (st, s')"
  shows "if st = SAI_STATUS_SUCCESS
    then (\<forall>v. stp_of (sw s) v \<noteq> Some i) \<and> tree_get (stp_info_tree (sw s)) i \<noteq> None \<and> sw s' = stp_info_del i (sw s)
    else sw s' = sw s"
proof (cases "sai_is_obj_id_stp_instance e i \<and> (\<exists>p. stp_lookup (sw s) i = Inr p)")
  case False
  then have "st \<noteq> SAI_STATUS_SUCCESS \<and> s' = s"
    using c by (auto simp: sai_stp_instance_remove_def stp_lookup_def split: sum.splits if_splits option.splits)
  then show ?thesis by simp
next
  case True
  then obtain p where p: "stp_lookup (sw s) i = Inr p" "tree_get (stp_info_tree (sw s)) i = Some p"
    by (auto simp: stp_lookup_Inr)
  obtain vt where vt: "p = \<lparr>stp_inst_id = i, si_vlan_tree = Some vt\<rparr>" using stp_node_form(2) [OF inv p(2)] by blast
  have "stp_of (sw s) v \<noteq> Some i" if "vt = []" for v
    using p(2) vt that by (simp add: stp_of_iff [OF inv] stp_attached_def)
  then show ?thesis
    using c True p by (auto simp: sai_stp_instance_remove_def vt split: if_splits prod.splits dest!: ext_call_sw)
qed

section \<open>Initialisation\<close>

lemma stp_update_cache_result:
  assumes c: "sai_internal_instance_update_cache e i v b s = (st, s')"
  shows "if st = SAI_STATUS_SUCCESS
    then tree_get (stp_info_tree (sw s)) i = None \<and> stp_info_handle (sw s) \<noteq> TreeNull \<and>
      sw s' = stp_map_set v i (stp_vlans_set i [(v, v)] (sw s))
    else sw s' = sw s"
  using c
  by (auto simp: sai_internal_instance_update_cache_def Let_def stp_vlans_set_def stp_info_put_def stp_info_del_def
      tree_del_put_new tree_del_absent split: if_splits prod.splits dest!: ext_call_sw lib_insert_okD)

lemma stp_init_inv:
  assumes ok: "stp_env_ok e" and inv: "stp_inv e (sw s)" and c: "sai_stp_init e s = (st, s')"
  shows "stp_inv e (sw s')"
proof -
  have empty: "stp_inv e d" if "stp_info_tree d = []" for d
    using that by (simp add: stp_inv_def stp_attached_def)
  obtain k s1 where 1: "ext_call (lib_rbtree_create_ok (slib e)) s = (k, s1)" by force
  let ?s = "upd_sw (\<lambda>d. d\<lparr>stp_info_handle := TreeLive, stp_info_tree := []\<rparr>) s1"
  obtain st2 s2 where 2: "stp_init_steps e ?s = (st2, s2)" by force
  have "stp_inv e (sw s2)" if st2: "st2 = SAI_STATUS_SUCCESS"
  proof -
    obtain r n l s3 where 3: "ext_call (npu_stp_init e) ?s = ((r, n, l), s3)" by (metis surj_pair)
    let ?s4 = "upd_sw (\<lambda>d. d\<lparr>g_def_stp_id := stp_oid e n\<rparr>) s3"
    obtain st5 s5 where 5: "sai_internal_instance_update_cache e (stp_oid e n) (SAI_INIT_DEFAULT_VLAN e) False ?s4 = (st5, s5)"
      by force
    from 2 3 5 st2 have st: "r = SAI_STATUS_SUCCESS" "st5 = SAI_STATUS_SUCCESS"
      and 6: "sai_internal_instance_update_cache e (stp_oid e l) (sai_internal_vlan_id e) True s5 = (SAI_STATUS_SUCCESS, s2)"
      by (auto simp: stp_init_steps_def Let_def split: if_splits)
    have t3: "stp_info_tree (sw ?s4) = []" "stp_info_handle (sw ?s4) = TreeLive" using ext_call_sw [OF 3] by simp_all
    let ?v = "SAI_INIT_DEFAULT_VLAN e" and ?i = "stp_oid e n" and ?w = "sai_internal_vlan_id e" and ?l = "stp_oid e l"
    have s5: "sw s5 = stp_map_set ?v ?i (stp_vlans_set ?i [(?v, ?v)] (sw ?s4))"
      using stp_update_cache_result [OF 5] st by simp
    have s2: "sw s2 = stp_map_set ?w ?l (stp_vlans_set ?l [(?w, ?w)] (sw s5))" "tree_get (stp_info_tree (sw s5)) ?l = None"
      using stp_update_cache_result [OF 6] by simp_all
    have at: "stp_attached (sw s5) j u = (j = ?i \<and> u = ?v)" for j u
      using t3 by (simp add: s5 stp_attached_def tree_get_Cons)
    have n: "?v \<noteq> ?w" "?l \<noteq> ?i" using ok s2(2) by (auto simp: stp_env_ok_def s5)
    have "stp_info_tree (sw s2) = tree_put ?l \<lparr>stp_inst_id = ?l, si_vlan_tree = Some [(?w, ?w)]\<rparr>
        (tree_put ?i \<lparr>stp_inst_id = ?i, si_vlan_tree = Some [(?v, ?v)]\<rparr> [])" using t3 by (simp add: s2(1) s5)
    then have nodes: "stp_node_ok e j p" if "tree_get (stp_info_tree (sw s2)) j = Some p" for j p
      using that stp_oid_type [OF ok] by (auto simp: stp_node_ok_def split: if_splits)
    have "stp_attached (sw s2) j u = (j = ?l \<and> u = ?w \<or> j = ?i \<and> u = ?v)" for j u
      using n by (auto simp: s2(1) at tree_get_Cons)
    then have "g_stp_vlan_map (sw s2) u = j" if "stp_attached (sw s2) j u" for j u
      using that n by (auto simp: s2(1) s5)
    moreover have "stp_info_handle (sw s2) = TreeLive" using t3(2) by (simp add: s2(1) s5)
    ultimately show ?thesis using nodes by (simp add: stp_inv_def)
  qed
  then show ?thesis using c 1 2 empty by (auto simp: sai_stp_init_def Let_def split: if_splits)
qed

section \<open>Calls\<close>

datatype stp_call =
    StpInit
  | StpInstanceCreate
  | StpInstanceRemove oid
  | StpVlanDestroy vlan_id
  | StpVlanHandle vlan_id oid
  | StpDefaultUpdate vlan_id
  | StpAttributeGet oid "stp_attr list"
  | StpPortStateSet oid oid sai_port_stp_port_state_t
  | StpPortStateGet oid oid

definition stp_exec :: "'h stp_env \<Rightarrow> stp_call \<Rightarrow> 'h stp_state \<Rightarrow> sai_status \<times> 'h stp_state" where
  "stp_exec e c s =
     (case c of
        StpInit \<Rightarrow> sai_stp_init e s
      | StpInstanceCreate \<Rightarrow> (let (st, out, s) = sai_stp_instance_create e s in (st, s))
      | StpInstanceRemove i \<Rightarrow> sai_stp_instance_remove e i s
      | StpVlanDestroy v \<Rightarrow> sai_stp_vlan_destroy e v s
      | StpVlanHandle v i \<Rightarrow> sai_stp_vlan_handle e v i s
      | StpDefaultUpdate v \<Rightarrow> sai_stp_default_stp_vlan_update e v s
      | StpAttributeGet i attrs \<Rightarrow> (let ((st, attrs), s) = sai_stp_attribute_get e i attrs s in (st, s))
      | StpPortStateSet i p ps \<Rightarrow> sai_stp_port_state_set e i p ps s
      | StpPortStateGet i p \<Rightarrow> (let ((st, ps), s) = sai_stp_port_state_get e i p s in (st, s)))"

lemma stp_reads_sw:
  "sai_stp_attribute_get e i attrs s = (r, s') \<Longrightarrow> sw s' = sw s"
  "sai_stp_port_state_set e i p ps s = (st, s') \<Longrightarrow> sw s' = sw s"
  "sai_stp_port_state_get e i p s = (q, s') \<Longrightarrow> sw s' = sw s"
  by (auto simp: sai_stp_attribute_get_def sai_stp_port_state_set_def sai_stp_port_state_get_def
      split: if_splits sum.splits prod.splits dest: ext_call_sw)

text \<open>A destroyed tree is used again only by an initialisation.\<close>

definition stp_enabled :: "stp_call \<Rightarrow> stp_db \<Rightarrow> bool" where
  "stp_enabled c d \<longleftrightarrow> c = StpInit \<or> stp_info_handle d = TreeLive"

definition stp_db_zero :: stp_db where
  "stp_db_zero = \<lparr>stp_info_handle = TreeNull, stp_info_tree = [], g_def_stp_id = 0, g_stp_vlan_map = (\<lambda>_. 0)\<rparr>"

inductive stp_reachable :: "'h stp_env \<Rightarrow> 'h stp_state \<Rightarrow> bool" for e where
  stp_start: "sw s = stp_db_zero \<Longrightarrow> stp_reachable e s"
| stp_step: "stp_reachable e s \<Longrightarrow> stp_enabled c (sw s) \<Longrightarrow> stp_exec e c s = (st, s') \<Longrightarrow> stp_reachable e s'"

inductive_cases stp_reachableE: "stp_reachable e s"

lemma stp_exec_inv:
  assumes ok: "stp_env_ok e" and inv: "stp_inv e (sw s)" and en: "stp_enabled c (sw s)" and c: "stp_exec e c s = (st, s')"
  shows "stp_inv e (sw s')"
proof (cases c)
  case StpInit
  then show ?thesis using c stp_init_inv [OF ok inv] by (simp add: stp_exec_def)
next
  case StpInstanceCreate
  then obtain out where "sai_stp_instance_create e s = (st, out, s')" using c by (auto simp: stp_exec_def split: prod.splits)
  from stp_create_result [OF inv this] en StpInstanceCreate inv show ?thesis
    by (auto simp: stp_enabled_def stp_oid_type [OF ok] intro!: stp_inv_vlans_set split: if_splits)
next
  case (StpInstanceRemove i)
  then show ?thesis using c stp_remove_result [OF inv, of i st s'] stp_inv_del [OF inv] inv
    by (auto simp: stp_exec_def split: if_splits)
next
  case (StpVlanDestroy v)
  then show ?thesis using c stp_vlan_destroy_effect(1) [OF inv] by (simp add: stp_exec_def)
next
  case (StpVlanHandle v i)
  then show ?thesis using c stp_vlan_handle_effect(1) [OF inv] by (simp add: stp_exec_def)
next
  case (StpDefaultUpdate v)
  then show ?thesis using c stp_default_update_effect(1) [OF ok inv] by (simp add: stp_exec_def)
qed (use c inv in \<open>auto simp: stp_exec_def dest: stp_reads_sw split: prod.splits\<close>)

lemma stp_reachable_inv:
  assumes "stp_env_ok e"
  shows "stp_reachable e s \<Longrightarrow> stp_inv e (sw s)"
proof (induction rule: stp_reachable.induct)
  case (stp_start s)
  then show ?case by (simp add: stp_inv_def stp_db_zero_def stp_attached_def)
next
  case (stp_step s c st s')
  then show ?case using stp_exec_inv [OF assms] by blast
qed

section \<open>Lost VLANs\<close>

text \<open>A VLAN that is in no instance although the table names one.\<close>

definition stp_lost :: "stp_db \<Rightarrow> vlan_id \<Rightarrow> bool" where
  "stp_lost d v \<longleftrightarrow> stp_of d v = None \<and> g_stp_vlan_map d v \<noteq> 0"

lemma stp_exec_lost:
  assumes ok: "stp_env_ok e" and inv: "stp_inv e (sw s)" and lost: "stp_lost (sw s) v"
    and c: "stp_exec e c s = (st, s')" "c \<noteq> StpInit"
  shows "stp_lost (sw s') v"
proof -
  have no: "stp_of (sw s) v = None" "g_stp_vlan_map (sw s) v \<noteq> 0" using lost by (auto simp: stp_lost_def)
  have moved: "stp_lost (sw s') v"
    if "stp_moved w to st (sw s) (sw s')" "v \<noteq> w" "g_stp_vlan_map (sw s') v = g_stp_vlan_map (sw s) v" for w to
    using that no by (auto simp: stp_moved_def stp_lost_def split: if_splits)
  show ?thesis
  proof (cases c)
    case StpInstanceCreate
    then obtain out where "sai_stp_instance_create e s = (st, out, s')" using c by (auto simp: stp_exec_def split: prod.splits)
    from stp_create_result [OF inv this] lost show ?thesis
      by (auto simp: stp_lost_def stp_of_def split: if_splits)
  next
    case (StpInstanceRemove i)
    then show ?thesis using c stp_remove_result [OF inv, of i st s'] lost
      by (auto simp: stp_exec_def stp_lost_def stp_of_def split: if_splits)
  next
    case (StpVlanDestroy w)
    then have d: "sai_stp_vlan_destroy e w s = (st, s')" using c by (simp add: stp_exec_def)
    show ?thesis
    proof (cases "w = v")
      case True
      then have "sw s' = sw s" using stp_vlan_destroy_effect(3) [OF inv d] no(1) by (auto split: if_splits)
      then show ?thesis using lost by simp
    next
      case False
      then show ?thesis using moved [OF stp_vlan_destroy_effect(2) [OF inv d]] moves_map(1) [OF inv _ d, of v] by simp
    qed
  next
    case (StpVlanHandle w i)
    then have d: "sai_stp_vlan_handle e w i s = (st, s')" using c by (simp add: stp_exec_def)
    show ?thesis
    proof (cases "w = v")
      case True
      then show ?thesis using stp_vlan_handle_effect(3) [OF inv d] no(1) lost by simp
    next
      case False
      then show ?thesis using moved [OF stp_vlan_handle_effect(2) [OF inv d]] moves_map(2) [OF inv _ d, of v] by simp
    qed
  next
    case (StpDefaultUpdate w)
    then have d: "sai_stp_default_stp_vlan_update e w s = (st, s')" using c by (simp add: stp_exec_def)
    show ?thesis
    proof (cases "w = v")
      case True
      then show ?thesis using stp_default_update_effect(3) [OF ok inv d] no lost by simp
    next
      case False
      then show ?thesis using moved [OF stp_default_update_effect(2) [OF ok inv d]] moves_map(3) [OF inv _ d, of v] by simp
    qed
  qed (use c lost in \<open>auto simp: stp_exec_def dest: stp_reads_sw split: prod.splits\<close>)
qed

end
