(* ===== verification/Vlan_Api.thy ===== *)
theory Vlan_Api
  imports Stp_System
begin

text \<open>
  VLANs and their ports (\<^verbatim>\<open>src/src/switching/sai_vlan.c\<close>). The cache of VLANs belongs to another
  repository: its state has the type \<open>'c\<close> and its operations are parameters. The STP component, which
  the VLAN component calls, is part of the state.
\<close>

section \<open>State\<close>

datatype sai_vlan_tagging_mode =
    SAI_VLAN_PORT_UNTAGGED | SAI_VLAN_PORT_TAGGED | SAI_VLAN_PORT_PRIORITY_TAGGED | TAGGING_MODE_OTHER int

datatype sai_port_fwd_mode = SAI_PORT_FWD_MODE_UNKNOWN | SAI_PORT_FWD_MODE_SWITCHING | SAI_PORT_FWD_MODE_ROUTING

record sai_vlan_port =
  vp_port_id :: oid
  vp_tagging_mode :: sai_vlan_tagging_mode

record 'c vlan_db =
  v_stp :: stp_db
  v_cache :: 'c

type_synonym ('c, 'h) vlan_state = "('c vlan_db, 'h) comp"

datatype vlan_attr =
    SAI_VLAN_ATTR_PORT_LIST "sai_vlan_port sai_list"
  | SAI_VLAN_ATTR_MAX_LEARNED_ADDRESSES u32
  | SAI_VLAN_ATTR_STP_INSTANCE oid
  | SAI_VLAN_ATTR_LEARN_DISABLE bool
  | SAI_VLAN_ATTR_META_DATA u32
  | VLAN_ATTR_UNKNOWN int

datatype port_attr_set = SAI_PORT_ATTR_PORT_VLAN_ID vlan_id | SAI_PORT_ATTR_DEFAULT_VLAN_PRIORITY u8

datatype sai_port_event = SAI_PORT_EVENT_ADD | SAI_PORT_EVENT_DELETE | SAI_PORT_EVENT_OTHER int

record ('c, 'h) vlan_env =
  vstp :: "'h stp_env"
  sai_vlan_cache_init :: "'c \<Rightarrow> sai_status \<times> 'c"
  sai_is_vlan_created :: "'c \<Rightarrow> vlan_id \<Rightarrow> bool"
  sai_insert_vlan_in_list :: "vlan_id \<Rightarrow> 'c \<Rightarrow> sai_status \<times> 'c"
  sai_remove_vlan_from_list :: "vlan_id \<Rightarrow> 'c \<Rightarrow> 'c"
  sai_is_valid_vlan_port_member :: "'c \<Rightarrow> vlan_id \<Rightarrow> sai_vlan_port \<Rightarrow> bool"
  sai_is_port_in_different_tagging_mode :: "'c \<Rightarrow> vlan_id \<Rightarrow> sai_vlan_port \<Rightarrow> bool"
  sai_add_vlan_port_node :: "vlan_id \<Rightarrow> sai_vlan_port \<Rightarrow> 'c \<Rightarrow> sai_status \<times> 'c"
  sai_remove_vlan_port_node :: "vlan_id \<Rightarrow> sai_vlan_port \<Rightarrow> 'c \<Rightarrow> 'c"
  sai_vlan_port_list_get :: "'c \<Rightarrow> vlan_id \<Rightarrow> sai_vlan_port sai_list \<Rightarrow> sai_status \<times> sai_vlan_port sai_list"
  sai_vlan_max_learn_adddress_cache_write :: "vlan_id \<Rightarrow> u32 \<Rightarrow> 'c \<Rightarrow> 'c"
  sai_vlan_learn_disable_cache_write :: "vlan_id \<Rightarrow> bool \<Rightarrow> 'c \<Rightarrow> 'c"
  sai_vlan_meta_data_cache_write :: "vlan_id \<Rightarrow> u32 \<Rightarrow> 'c \<Rightarrow> 'c"
  sai_is_valid_vlan_id :: "vlan_id \<Rightarrow> bool"
  sai_is_internal_vlan_id :: "vlan_id \<Rightarrow> bool"
  sai_is_valid_vlan_tagging_mode :: "sai_vlan_tagging_mode \<Rightarrow> bool"
  sai_port_forward_mode_info :: "oid \<Rightarrow> 'h \<Rightarrow> sai_port_fwd_mode option"
  sai_port_info_ids :: "'h \<Rightarrow> oid list"
  sai_port_api_set_port_attribute :: "oid \<Rightarrow> port_attr_set \<Rightarrow> 'h \<Rightarrow> sai_status \<times> 'h"
  sai_port_event_internal_notif_register :: "'h \<Rightarrow> sai_status \<times> 'h"
  npu_vlan_init :: "'h \<Rightarrow> sai_status \<times> 'h"
  npu_vlan_create :: "vlan_id \<Rightarrow> 'h \<Rightarrow> sai_status \<times> 'h"
  npu_vlan_delete :: "vlan_id \<Rightarrow> 'h \<Rightarrow> sai_status \<times> 'h"
  npu_add_ports_to_vlan :: "vlan_id \<Rightarrow> sai_vlan_port list \<Rightarrow> 'h \<Rightarrow> sai_status \<times> 'h"
  npu_remove_ports_from_vlan :: "vlan_id \<Rightarrow> sai_vlan_port list \<Rightarrow> 'h \<Rightarrow> sai_status \<times> 'h"
  npu_set_vlan_max_learned_address :: "vlan_id \<Rightarrow> u32 \<Rightarrow> 'h \<Rightarrow> sai_status \<times> 'h"
  npu_get_vlan_max_learned_address :: "vlan_id \<Rightarrow> 'h \<Rightarrow> (sai_status \<times> u32) \<times> 'h"
  npu_disable_vlan_learn_set :: "vlan_id \<Rightarrow> bool \<Rightarrow> 'h \<Rightarrow> sai_status \<times> 'h"
  npu_disable_vlan_learn_get :: "vlan_id \<Rightarrow> 'h \<Rightarrow> (sai_status \<times> bool) \<times> 'h"
  npu_set_vlan_meta_data :: "vlan_id \<Rightarrow> u32 \<Rightarrow> 'h \<Rightarrow> sai_status \<times> 'h"
  npu_get_vlan_meta_data :: "vlan_id \<Rightarrow> 'h \<Rightarrow> (sai_status \<times> u32) \<times> 'h"
  npu_get_vlan_stats :: "vlan_id \<Rightarrow> int list \<Rightarrow> 'h \<Rightarrow> (sai_status \<times> u64 list) \<times> 'h"
  npu_clear_vlan_stats :: "vlan_id \<Rightarrow> int list \<Rightarrow> 'h \<Rightarrow> sai_status \<times> 'h"
  sai_switch_get_max_lport :: u32
  SAI_MIN_VLAN_TAG_ID :: nat
  SAI_MAX_VLAN_TAG_ID :: nat
  SAI_DEF_VLAN_TAGGING_MODE :: sai_vlan_tagging_mode
  SAI_DFLT_VLAN_PRIORITY :: u8

text \<open>A call of the STP component sees its own part of the state.\<close>

definition in_stp :: "('h stp_state \<Rightarrow> 'a \<times> 'h stp_state) \<Rightarrow> ('c, 'h) vlan_state \<Rightarrow> 'a \<times> ('c, 'h) vlan_state" where
  "in_stp f s = (let (r, u) = f \<lparr>sw = v_stp (sw s), ext = ext s\<rparr> in (r, \<lparr>sw = (sw s)\<lparr>v_stp := sw u\<rparr>, ext = ext u\<rparr>))"

definition upd_cache :: "('c \<Rightarrow> 'c) \<Rightarrow> ('c, 'h) vlan_state \<Rightarrow> ('c, 'h) vlan_state" where
  "upd_cache f s = upd_sw (\<lambda>d. d\<lparr>v_cache := f (v_cache d)\<rparr>) s"

definition cache_call :: "('c \<Rightarrow> 'a \<times> 'c) \<Rightarrow> ('c, 'h) vlan_state \<Rightarrow> 'a \<times> ('c, 'h) vlan_state" where
  "cache_call f s = (let (r, c) = f (v_cache (sw s)) in (r, upd_cache (\<lambda>_. c) s))"

section \<open>VLANs\<close>

definition sai_is_vlan_id_available :: "('c, 'h) vlan_env \<Rightarrow> vlan_id \<Rightarrow> sai_status" where
  "sai_is_vlan_id_available e v =
     (if \<not> sai_is_valid_vlan_id e v then SAI_STATUS_INVALID_VLAN_ID
      else if sai_is_internal_vlan_id e v then SAI_STATUS_NOT_SUPPORTED
      else SAI_STATUS_SUCCESS)"

definition sai_is_vlan_configurable :: "('c, 'h) vlan_env \<Rightarrow> 'c \<Rightarrow> vlan_id \<Rightarrow> sai_status" where
  "sai_is_vlan_configurable e c v =
     (let ret_val = sai_is_vlan_id_available e v
      in if ret_val \<noteq> SAI_STATUS_SUCCESS then ret_val
         else if \<not> sai_is_vlan_created e c v then SAI_STATUS_ITEM_NOT_FOUND
         else SAI_STATUS_SUCCESS)"

definition sai_l2_delete_vlan :: "('c, 'h) vlan_env \<Rightarrow> vlan_id \<Rightarrow> ('c, 'h) vlan_state \<Rightarrow> sai_status \<times> ('c, 'h) vlan_state" where
  "sai_l2_delete_vlan e v s =
     (let (ret_val, s) = in_stp (sai_stp_vlan_destroy (vstp e) v) s
      in if ret_val \<noteq> SAI_STATUS_SUCCESS then (ret_val, s)
         else let (ret_val, s) = ext_call (npu_vlan_delete e v) s
              in if ret_val \<noteq> SAI_STATUS_SUCCESS then (ret_val, s)
                 else (ret_val, upd_cache (sai_remove_vlan_from_list e v) s))"

text \<open>A VLAN that could not be attached to the default STP instance stays created.\<close>

definition sai_l2_create_vlan :: "('c, 'h) vlan_env \<Rightarrow> vlan_id \<Rightarrow> ('c, 'h) vlan_state \<Rightarrow> sai_status \<times> ('c, 'h) vlan_state" where
  "sai_l2_create_vlan e v s =
     (let ret_val = sai_is_vlan_id_available e v
      in if ret_val \<noteq> SAI_STATUS_SUCCESS then (ret_val, s)
         else let (ret_val, s) = cache_call (sai_insert_vlan_in_list e v) s
              in if ret_val \<noteq> SAI_STATUS_SUCCESS then (ret_val, s)
                 else let (ret_val, s) = ext_call (npu_vlan_create e v) s
                      in if ret_val \<noteq> SAI_STATUS_SUCCESS \<and> ret_val \<noteq> SAI_STATUS_ITEM_ALREADY_EXISTS
                         then (ret_val, upd_cache (sai_remove_vlan_from_list e v) s)
                         else if v \<noteq> SAI_INIT_DEFAULT_VLAN (vstp e)
                         then in_stp (sai_stp_default_stp_vlan_update (vstp e) v) s
                         else (ret_val, s))"

definition sai_l2_remove_vlan :: "('c, 'h) vlan_env \<Rightarrow> vlan_id \<Rightarrow> ('c, 'h) vlan_state \<Rightarrow> sai_status \<times> ('c, 'h) vlan_state" where
  "sai_l2_remove_vlan e v s =
     (let ret_val = sai_is_vlan_configurable e (v_cache (sw s)) v
      in if ret_val \<noteq> SAI_STATUS_SUCCESS then (ret_val, s) else sai_l2_delete_vlan e v s)"

fun remove_vlans_loop :: "('c, 'h) vlan_env \<Rightarrow> vlan_id list \<Rightarrow> ('c, 'h) vlan_state \<Rightarrow> ('c, 'h) vlan_state" where
  "remove_vlans_loop e [] s = s"
| "remove_vlans_loop e (v # vs) s =
     remove_vlans_loop e vs
       (if sai_is_internal_vlan_id e v then s
        else if sai_is_vlan_created e (v_cache (sw s)) v then snd (sai_l2_delete_vlan e v s) else s)"

definition sai_l2_remove_all_vlans :: "('c, 'h) vlan_env \<Rightarrow> ('c, 'h) vlan_state \<Rightarrow> sai_status \<times> ('c, 'h) vlan_state" where
  "sai_l2_remove_all_vlans e s =
     (SAI_STATUS_SUCCESS, remove_vlans_loop e (map of_nat [SAI_MIN_VLAN_TAG_ID e..<Suc (SAI_MAX_VLAN_TAG_ID e)]) s)"

section \<open>Ports\<close>

definition sai_validate_vlan_port :: "('c, 'h) vlan_env \<Rightarrow> 'h \<Rightarrow> sai_vlan_port \<Rightarrow> sai_status" where
  "sai_validate_vlan_port e h p =
     (if lib_object_type (slib (vstp e)) (vp_port_id p) \<noteq> SAI_OBJECT_TYPE_PORT then SAI_STATUS_INVALID_OBJECT_TYPE
      else if \<not> sai_is_port_valid (vstp e) (vp_port_id p) h then SAI_STATUS_INVALID_OBJECT_ID
      else if \<not> sai_is_valid_vlan_tagging_mode e (vp_tagging_mode p) then SAI_STATUS_INVALID_PARAMETER
      else SAI_STATUS_SUCCESS)"

text \<open>
  The loop over the new ports: the ports it put in the list of new members, the last of which may not be
  in the cache. The forwarding mode keeps its value when the query does not write it.
\<close>

fun add_ports_loop ::
    "('c, 'h) vlan_env \<Rightarrow> vlan_id \<Rightarrow> sai_port_fwd_mode \<Rightarrow> sai_vlan_port list \<Rightarrow> sai_vlan_port list \<Rightarrow> ('c, 'h) vlan_state
     \<Rightarrow> sai_status \<times> sai_vlan_port list \<times> ('c, 'h) vlan_state" where
  "add_ports_loop e v fwd_mode non_dup [] s = (SAI_STATUS_SUCCESS, non_dup, s)"
| "add_ports_loop e v fwd_mode non_dup (p # ps) s =
     (let ret_val = sai_validate_vlan_port e (ext s) p
      in if ret_val \<noteq> SAI_STATUS_SUCCESS then (ret_val, non_dup, s)
         else let fwd_mode = (case sai_port_forward_mode_info e (vp_port_id p) (ext s) of None \<Rightarrow> fwd_mode | Some m \<Rightarrow> m)
              in if fwd_mode = SAI_PORT_FWD_MODE_ROUTING then (SAI_STATUS_OBJECT_IN_USE, non_dup, s)
                 else if sai_is_port_in_different_tagging_mode e (v_cache (sw s)) v p
                 then (SAI_STATUS_INVALID_PORT_MEMBER, non_dup, s)
                 else if sai_is_valid_vlan_port_member e (v_cache (sw s)) v p
                 then add_ports_loop e v fwd_mode non_dup ps s
                 else let (ret_val, s) = cache_call (sai_add_vlan_port_node e v p) s
                      in if ret_val \<noteq> SAI_STATUS_SUCCESS then (ret_val, non_dup @ [p], s)
                         else add_ports_loop e v fwd_mode (non_dup @ [p]) ps s)"

definition sai_l2_add_ports_to_vlan ::
    "('c, 'h) vlan_env \<Rightarrow> vlan_id \<Rightarrow> sai_vlan_port list \<Rightarrow> ('c, 'h) vlan_state \<Rightarrow> sai_status \<times> ('c, 'h) vlan_state" where
  "sai_l2_add_ports_to_vlan e v ports s =
     (let (ret_val, non_dup, s) =
            (if ports = [] then (SAI_STATUS_INVALID_PARAMETER, [], s)
             else let ret_val = sai_is_vlan_configurable e (v_cache (sw s)) v
                  in if ret_val \<noteq> SAI_STATUS_SUCCESS then (ret_val, [], s)
                     else add_ports_loop e v SAI_PORT_FWD_MODE_UNKNOWN [] ports s);
          (ret_val, s) = (if ret_val = SAI_STATUS_SUCCESS then ext_call (npu_add_ports_to_vlan e v non_dup) s
                          else (ret_val, s))
      in (ret_val, if ret_val \<noteq> SAI_STATUS_SUCCESS
                   then upd_cache (fold (sai_remove_vlan_port_node e v) non_dup) s else s))"

fun check_members :: "('c, 'h) vlan_env \<Rightarrow> vlan_id \<Rightarrow> 'c \<Rightarrow> 'h \<Rightarrow> sai_vlan_port list \<Rightarrow> sai_status" where
  "check_members e v c h [] = SAI_STATUS_SUCCESS"
| "check_members e v c h (p # ps) =
     (let ret_val = sai_validate_vlan_port e h p
      in if ret_val \<noteq> SAI_STATUS_SUCCESS then ret_val
         else if \<not> sai_is_valid_vlan_port_member e c v p then SAI_STATUS_INVALID_PORT_MEMBER
         else check_members e v c h ps)"

definition sai_l2_remove_ports_from_vlan ::
    "('c, 'h) vlan_env \<Rightarrow> vlan_id \<Rightarrow> sai_vlan_port list \<Rightarrow> ('c, 'h) vlan_state \<Rightarrow> sai_status \<times> ('c, 'h) vlan_state" where
  "sai_l2_remove_ports_from_vlan e v ports s =
     (if ports = [] then (SAI_STATUS_INVALID_PARAMETER, s)
      else let ret_val = sai_is_vlan_configurable e (v_cache (sw s)) v
           in if ret_val \<noteq> SAI_STATUS_SUCCESS then (ret_val, s)
              else let ret_val = check_members e v (v_cache (sw s)) (ext s) ports
                   in if ret_val \<noteq> SAI_STATUS_SUCCESS then (ret_val, s)
                      else let (ret_val, s) = ext_call (npu_remove_ports_from_vlan e v ports) s
                           in if ret_val \<noteq> SAI_STATUS_SUCCESS then (ret_val, s)
                              else (ret_val, upd_cache (fold (sai_remove_vlan_port_node e v) ports) s))"

section \<open>Attributes\<close>

definition sai_l2_set_vlan_attribute ::
    "('c, 'h) vlan_env \<Rightarrow> vlan_id \<Rightarrow> vlan_attr \<Rightarrow> ('c, 'h) vlan_state \<Rightarrow> sai_status \<times> ('c, 'h) vlan_state" where
  "sai_l2_set_vlan_attribute e v attr s =
     (if \<not> sai_is_valid_vlan_id e v then (SAI_STATUS_INVALID_VLAN_ID, s)
      else if \<not> sai_is_vlan_created e (v_cache (sw s)) v then (SAI_STATUS_ITEM_NOT_FOUND, s)
      else case attr of
             SAI_VLAN_ATTR_MAX_LEARNED_ADDRESSES n \<Rightarrow>
               (let (ret_val, s) = ext_call (npu_set_vlan_max_learned_address e v n) s
                in (ret_val, if ret_val = SAI_STATUS_SUCCESS
                             then upd_cache (sai_vlan_max_learn_adddress_cache_write e v n) s else s))
           | SAI_VLAN_ATTR_STP_INSTANCE i \<Rightarrow> in_stp (sai_stp_vlan_handle (vstp e) v i) s
           | SAI_VLAN_ATTR_PORT_LIST _ \<Rightarrow> (SAI_STATUS_INVALID_ATTRIBUTE_0, s)
           | SAI_VLAN_ATTR_LEARN_DISABLE b \<Rightarrow>
               (let (ret_val, s) = ext_call (npu_disable_vlan_learn_set e v b) s
                in (ret_val, if ret_val = SAI_STATUS_SUCCESS
                             then upd_cache (sai_vlan_learn_disable_cache_write e v b) s else s))
           | SAI_VLAN_ATTR_META_DATA n \<Rightarrow>
               (let (ret_val, s) = ext_call (npu_set_vlan_meta_data e v n) s
                in (ret_val, if ret_val = SAI_STATUS_SUCCESS
                             then upd_cache (sai_vlan_meta_data_cache_write e v n) s else s))
           | VLAN_ATTR_UNKNOWN _ \<Rightarrow> (SAI_STATUS_UNKNOWN_ATTRIBUTE_0, s))"

definition vlan_attr_get_one ::
    "('c, 'h) vlan_env \<Rightarrow> vlan_id \<Rightarrow> vlan_attr \<Rightarrow> ('c, 'h) vlan_state \<Rightarrow> (sai_status \<times> vlan_attr) \<times> ('c, 'h) vlan_state" where
  "vlan_attr_get_one e v attr s =
     (case attr of
        SAI_VLAN_ATTR_MAX_LEARNED_ADDRESSES _ \<Rightarrow>
          (let ((st, n), s) = ext_call (npu_get_vlan_max_learned_address e v) s
           in ((st, SAI_VLAN_ATTR_MAX_LEARNED_ADDRESSES n), s))
      | SAI_VLAN_ATTR_STP_INSTANCE i \<Rightarrow>
          (let ((st, out), s) = in_stp (sai_stp_vlan_stp_get (vstp e) v) s
           in ((st, SAI_VLAN_ATTR_STP_INSTANCE (case out of None \<Rightarrow> i | Some j \<Rightarrow> j)), s))
      | SAI_VLAN_ATTR_PORT_LIST l \<Rightarrow>
          (let (st, l) = sai_vlan_port_list_get e (v_cache (sw s)) v l in ((st, SAI_VLAN_ATTR_PORT_LIST l), s))
      | SAI_VLAN_ATTR_LEARN_DISABLE _ \<Rightarrow>
          (let ((st, b), s) = ext_call (npu_disable_vlan_learn_get e v) s in ((st, SAI_VLAN_ATTR_LEARN_DISABLE b), s))
      | SAI_VLAN_ATTR_META_DATA _ \<Rightarrow>
          (let ((st, n), s) = ext_call (npu_get_vlan_meta_data e v) s in ((st, SAI_VLAN_ATTR_META_DATA n), s))
      | VLAN_ATTR_UNKNOWN _ \<Rightarrow> ((SAI_STATUS_INVALID_ATTRIBUTE_0, attr), s))"

fun vlan_attr_get_loop ::
    "('c, 'h) vlan_env \<Rightarrow> vlan_id \<Rightarrow> nat \<Rightarrow> vlan_attr list \<Rightarrow> ('c, 'h) vlan_state
     \<Rightarrow> (sai_status \<times> vlan_attr list) \<times> ('c, 'h) vlan_state" where
  "vlan_attr_get_loop e v idx [] s = ((SAI_STATUS_SUCCESS, []), s)"
| "vlan_attr_get_loop e v idx (attr # attrs) s =
     (let ((st, attr), s) = vlan_attr_get_one e v attr s
      in if st \<noteq> SAI_STATUS_SUCCESS then ((lib_indexed_ret_val (slib (vstp e)) st idx, attr # attrs), s)
         else let ((st, attrs), s) = vlan_attr_get_loop e v (idx + 1) attrs s in ((st, attr # attrs), s))"

definition sai_l2_get_vlan_attribute ::
    "('c, 'h) vlan_env \<Rightarrow> vlan_id \<Rightarrow> vlan_attr list \<Rightarrow> ('c, 'h) vlan_state
     \<Rightarrow> (sai_status \<times> vlan_attr list) \<times> ('c, 'h) vlan_state" where
  "sai_l2_get_vlan_attribute e v attrs s =
     (if \<not> sai_is_valid_vlan_id e v then ((SAI_STATUS_INVALID_VLAN_ID, attrs), s)
      else if attrs = [] then ((SAI_STATUS_INVALID_PARAMETER, attrs), s)
      else if \<not> sai_is_vlan_created e (v_cache (sw s)) v then ((SAI_STATUS_ITEM_NOT_FOUND, attrs), s)
      else vlan_attr_get_loop e v 0 attrs s)"

definition sai_l2_get_vlan_stats ::
    "('c, 'h) vlan_env \<Rightarrow> vlan_id \<Rightarrow> int list \<Rightarrow> ('c, 'h) vlan_state \<Rightarrow> (sai_status \<times> u64 list) \<times> ('c, 'h) vlan_state" where
  "sai_l2_get_vlan_stats e v ids s =
     (if \<not> sai_is_valid_vlan_id e v then ((SAI_STATUS_INVALID_VLAN_ID, []), s)
      else ext_call (npu_get_vlan_stats e v ids) s)"

definition sai_l2_clear_vlan_stats ::
    "('c, 'h) vlan_env \<Rightarrow> vlan_id \<Rightarrow> int list \<Rightarrow> ('c, 'h) vlan_state \<Rightarrow> sai_status \<times> ('c, 'h) vlan_state" where
  "sai_l2_clear_vlan_stats e v ids s =
     (if \<not> sai_is_valid_vlan_id e v then (SAI_STATUS_INVALID_VLAN_ID, s)
      else ext_call (npu_clear_vlan_stats e v ids) s)"

section \<open>The default VLAN\<close>

definition default_vlan_port :: "('c, 'h) vlan_env \<Rightarrow> oid \<Rightarrow> sai_vlan_port" where
  "default_vlan_port e port_id = \<lparr>vp_port_id = port_id, vp_tagging_mode = SAI_DEF_VLAN_TAGGING_MODE e\<rparr>"

definition sai_vlan_port_default_init ::
    "('c, 'h) vlan_env \<Rightarrow> vlan_id \<Rightarrow> oid \<Rightarrow> ('c, 'h) vlan_state \<Rightarrow> sai_status \<times> ('c, 'h) vlan_state" where
  "sai_vlan_port_default_init e v port_id s =
     (let (ret_val, s) = sai_l2_add_ports_to_vlan e v [default_vlan_port e port_id] s
      in if ret_val \<noteq> SAI_STATUS_SUCCESS then (ret_val, s)
         else let (ret_val, s) = ext_call (sai_port_api_set_port_attribute e port_id (SAI_PORT_ATTR_PORT_VLAN_ID v)) s
              in if ret_val \<noteq> SAI_STATUS_SUCCESS
                 then (ret_val, snd (sai_l2_remove_ports_from_vlan e v [default_vlan_port e port_id] s))
                 else ext_call (sai_port_api_set_port_attribute e port_id
                        (SAI_PORT_ATTR_DEFAULT_VLAN_PRIORITY (SAI_DFLT_VLAN_PRIORITY e))) s)"

text \<open>The handler returns from within its loop at the first event that it handles.\<close>

fun sai_vlan_port_notification_handler ::
    "('c, 'h) vlan_env \<Rightarrow> (oid \<times> sai_port_event) list \<Rightarrow> ('c, 'h) vlan_state \<Rightarrow> sai_status \<times> ('c, 'h) vlan_state" where
  "sai_vlan_port_notification_handler e [] s = (SAI_STATUS_SUCCESS, s)"
| "sai_vlan_port_notification_handler e ((port_id, ev) # evs) s =
     (case ev of
        SAI_PORT_EVENT_ADD \<Rightarrow> sai_vlan_port_default_init e (SAI_INIT_DEFAULT_VLAN (vstp e)) port_id s
      | SAI_PORT_EVENT_DELETE \<Rightarrow>
          if sai_is_valid_vlan_port_member e (v_cache (sw s)) (SAI_INIT_DEFAULT_VLAN (vstp e)) (default_vlan_port e port_id)
          then sai_l2_remove_ports_from_vlan e (SAI_INIT_DEFAULT_VLAN (vstp e)) [default_vlan_port e port_id] s
          else sai_vlan_port_notification_handler e evs s
      | SAI_PORT_EVENT_OTHER _ \<Rightarrow> sai_vlan_port_notification_handler e evs s)"

text \<open>The buffer for the ports is filled with zeros before the cache writes the members into it.\<close>

definition sai_default_vlan_init_clean_up ::
    "('c, 'h) vlan_env \<Rightarrow> vlan_id \<Rightarrow> ('c, 'h) vlan_state \<Rightarrow> sai_status \<times> ('c, 'h) vlan_state" where
  "sai_default_vlan_init_clean_up e v s =
     (let n = sai_switch_get_max_lport e;
          zero = \<lparr>vp_port_id = 0, vp_tagging_mode = SAI_VLAN_PORT_UNTAGGED\<rparr>;
          (st, l) = sai_vlan_port_list_get e (v_cache (sw s)) v
                      \<lparr>sl_count = n, sl_list = Some (replicate (unat n) zero)\<rparr>
      in sai_l2_remove_ports_from_vlan e v (sl_elems l) s)"

fun default_ports_loop ::
    "('c, 'h) vlan_env \<Rightarrow> vlan_id \<Rightarrow> oid list \<Rightarrow> ('c, 'h) vlan_state \<Rightarrow> sai_status \<times> ('c, 'h) vlan_state" where
  "default_ports_loop e v [] s = (SAI_STATUS_SUCCESS, s)"
| "default_ports_loop e v (p # ps) s =
     (if \<not> sai_is_port_valid (vstp e) p (ext s) then default_ports_loop e v ps s
      else let (ret_val, s) = sai_vlan_port_default_init e v p s
           in if ret_val \<noteq> SAI_STATUS_SUCCESS then (ret_val, snd (sai_default_vlan_init_clean_up e v s))
              else default_ports_loop e v ps s)"

definition sai_l2_default_vlan_init ::
    "('c, 'h) vlan_env \<Rightarrow> vlan_id \<Rightarrow> ('c, 'h) vlan_state \<Rightarrow> sai_status \<times> ('c, 'h) vlan_state" where
  "sai_l2_default_vlan_init e v s =
     (let (ret_val, s) = sai_l2_create_vlan e v s
      in if ret_val \<noteq> SAI_STATUS_SUCCESS \<and> ret_val \<noteq> SAI_STATUS_ITEM_ALREADY_EXISTS then (ret_val, s)
         else default_ports_loop e v (sai_port_info_ids e (ext s)) s)"

definition sai_vlan_init :: "('c, 'h) vlan_env \<Rightarrow> ('c, 'h) vlan_state \<Rightarrow> sai_status \<times> ('c, 'h) vlan_state" where
  "sai_vlan_init e s =
     (let (ret_val, s) = cache_call (sai_vlan_cache_init e) s
      in if ret_val \<noteq> SAI_STATUS_SUCCESS then (ret_val, s)
         else let (ret_val, s) = ext_call (npu_vlan_init e) s
              in if ret_val \<noteq> SAI_STATUS_SUCCESS then (ret_val, s)
                 else let (ret_val, s) = sai_l2_default_vlan_init e (SAI_INIT_DEFAULT_VLAN (vstp e)) s
                      in if ret_val \<noteq> SAI_STATUS_SUCCESS then (ret_val, s)
                         else ext_call (sai_port_event_internal_notif_register e) s)"

end
