(* ===== verification/Vlan_Ops.thy ===== *)
theory Vlan_Ops
  imports Vlan_Api
begin

text \<open>
  What the operations on VLANs do to the members of the VLANs, under the documented behaviour of the
  cache.
\<close>

section \<open>The cache\<close>

text \<open>
  Documented behaviour of the cache of VLANs: an insertion adds a VLAN that is not there, a port node has
  one tagging mode, removing a node removes the port from that VLAN, a failed call changes nothing.
\<close>

definition vlan_cache_ok :: "('c, 'h) vlan_env \<Rightarrow> bool" where
  "vlan_cache_ok e \<longleftrightarrow>
     (\<forall>v c st c'. sai_insert_vlan_in_list e v c = (st, c') \<longrightarrow>
        (if st = SAI_STATUS_SUCCESS
         then \<not> sai_is_vlan_created e c v \<and> (\<forall>w. sai_is_vlan_created e c' w = (sai_is_vlan_created e c w \<or> w = v)) \<and>
           sai_is_valid_vlan_port_member e c' = sai_is_valid_vlan_port_member e c
         else c' = c)) \<and>
     (\<forall>v p c st c'. sai_add_vlan_port_node e v p c = (st, c') \<longrightarrow>
        (if st = SAI_STATUS_SUCCESS
         then sai_is_vlan_created e c' = sai_is_vlan_created e c \<and>
           (\<forall>w q. sai_is_valid_vlan_port_member e c' w q = (sai_is_valid_vlan_port_member e c w q \<or> w = v \<and> q = p))
         else c' = c)) \<and>
     (\<forall>v p c. sai_is_vlan_created e (sai_remove_vlan_port_node e v p c) = sai_is_vlan_created e c \<and>
        (\<forall>w q. sai_is_valid_vlan_port_member e (sai_remove_vlan_port_node e v p c) w q =
           (sai_is_valid_vlan_port_member e c w q \<and> \<not> (w = v \<and> vp_port_id q = vp_port_id p)))) \<and>
     (\<forall>c v p. sai_is_port_in_different_tagging_mode e c v p =
        (\<exists>q. sai_is_valid_vlan_port_member e c v q \<and> vp_port_id q = vp_port_id p \<and> q \<noteq> p))"

lemma vlan_cache_okD:
  assumes "vlan_cache_ok e"
  shows "sai_insert_vlan_in_list e v c = (st, c') \<Longrightarrow> st = SAI_STATUS_SUCCESS \<Longrightarrow> \<not> sai_is_vlan_created e c v"
    "sai_insert_vlan_in_list e v c = (st, c') \<Longrightarrow> st \<noteq> SAI_STATUS_SUCCESS \<Longrightarrow> c' = c"
    "sai_add_vlan_port_node e v p c = (SAI_STATUS_SUCCESS, c') \<Longrightarrow> sai_is_vlan_created e c' = sai_is_vlan_created e c"
    "sai_add_vlan_port_node e v p c = (SAI_STATUS_SUCCESS, c') \<Longrightarrow>
      sai_is_valid_vlan_port_member e c' w q = (sai_is_valid_vlan_port_member e c w q \<or> w = v \<and> q = p)"
    "sai_add_vlan_port_node e v p c = (st, c') \<Longrightarrow> st \<noteq> SAI_STATUS_SUCCESS \<Longrightarrow> c' = c"
    "sai_is_vlan_created e (sai_remove_vlan_port_node e v p c) = sai_is_vlan_created e c"
    "sai_is_valid_vlan_port_member e (sai_remove_vlan_port_node e v p c) w q =
      (sai_is_valid_vlan_port_member e c w q \<and> \<not> (w = v \<and> vp_port_id q = vp_port_id p))"
    "\<not> sai_is_port_in_different_tagging_mode e c v p \<Longrightarrow> sai_is_valid_vlan_port_member e c v q \<Longrightarrow>
      vp_port_id q = vp_port_id p \<Longrightarrow> q = p"
  using assms unfolding vlan_cache_ok_def by (auto split: if_splits)

section \<open>Updates\<close>

lemma upd_cache_sel [simp]:
  "v_cache (sw (upd_cache f s)) = f (v_cache (sw s))" "v_stp (sw (upd_cache f s)) = v_stp (sw s)"
  "ext (upd_cache f s) = ext s"
  by (simp_all add: upd_cache_def)

lemma cache_call_sel:
  assumes "cache_call f s = (r, s')"
  shows "f (v_cache (sw s)) = (r, v_cache (sw s'))" "v_stp (sw s') = v_stp (sw s)" "ext s' = ext s"
  using assms by (auto simp: cache_call_def split: prod.splits)

lemma in_stp_sel:
  assumes "in_stp f s = (r, s')"
  shows "f \<lparr>sw = v_stp (sw s), ext = ext s\<rparr> = (r, \<lparr>sw = v_stp (sw s'), ext = ext s'\<rparr>)" "v_cache (sw s') = v_cache (sw s)"
  using assms by (auto simp: in_stp_def split: prod.splits)

lemma vlan_db_eqI: "v_stp d' = v_stp d \<Longrightarrow> v_cache d' = v_cache d \<Longrightarrow> d' = (d :: 'c vlan_db)"
  by (cases d; cases d') simp

section \<open>Ports\<close>

abbreviation vlan_member :: "('c, 'h) vlan_env \<Rightarrow> ('c, 'h) vlan_state \<Rightarrow> vlan_id \<Rightarrow> sai_vlan_port \<Rightarrow> bool" where
  "vlan_member e s \<equiv> sai_is_valid_vlan_port_member e (v_cache (sw s))"

abbreviation vlan_created :: "('c, 'h) vlan_env \<Rightarrow> ('c, 'h) vlan_state \<Rightarrow> vlan_id \<Rightarrow> bool" where
  "vlan_created e s \<equiv> sai_is_vlan_created e (v_cache (sw s))"

text \<open>
  Only the cache moved, and only by members of one VLAN: the new members are listed, and none of their
  ports was a member before.
\<close>

definition ports_joined :: "('c, 'h) vlan_env \<Rightarrow> vlan_id \<Rightarrow> sai_vlan_port set \<Rightarrow> ('c, 'h) vlan_state \<Rightarrow> ('c, 'h) vlan_state \<Rightarrow> bool" where
  "ports_joined e v P s s' \<longleftrightarrow> v_stp (sw s') = v_stp (sw s) \<and> vlan_created e s' = vlan_created e s \<and>
     (\<forall>w q. vlan_member e s' w q = (vlan_member e s w q \<or> w = v \<and> q \<in> P))"

lemma ports_joined_refl [simp]: "ports_joined e v {} s s"
  by (simp add: ports_joined_def)

lemma ports_joined_trans: "ports_joined e v P s s1 \<Longrightarrow> ports_joined e v Q s1 s2 \<Longrightarrow> ports_joined e v (P \<union> Q) s s2"
  by (auto simp: ports_joined_def)

text \<open>The ports were new: no member of the VLAN had the same port.\<close>

definition ports_new :: "('c, 'h) vlan_env \<Rightarrow> vlan_id \<Rightarrow> sai_vlan_port set \<Rightarrow> ('c, 'h) vlan_state \<Rightarrow> bool" where
  "ports_new e v P s \<longleftrightarrow> (\<forall>p \<in> P. \<forall>q. vlan_member e s v q \<longrightarrow> vp_port_id q \<noteq> vp_port_id p)"

lemma add_ports_loop_result:
  assumes ok: "vlan_cache_ok e"
  shows "add_ports_loop e v m nd ps s = (st, nd', s') \<Longrightarrow>
    \<exists>xs. nd' = nd @ xs \<and> set xs \<subseteq> set ps \<and> ports_new e v (set xs) s \<and>
      (\<exists>P. P \<subseteq> set xs \<and> ports_joined e v P s s') \<and>
      (st = SAI_STATUS_SUCCESS \<longrightarrow> ports_joined e v (set xs) s s' \<and> (\<forall>p \<in> set ps. vlan_member e s' v p))"
proof (induction ps arbitrary: m nd s)
  case Nil
  then show ?case by (auto simp: ports_new_def intro: exI [where x = "{}"])
next
  case (Cons p ps)
  let ?m = "case sai_port_forward_mode_info e (vp_port_id p) (ext s) of None \<Rightarrow> m | Some m \<Rightarrow> m"
  have stop: ?case if "nd' = nd" "s' = s" "st \<noteq> SAI_STATUS_SUCCESS"
    using that by (intro exI [where x = "[]"]) (auto simp: ports_new_def intro: exI [where x = "{}"])
  consider "sai_validate_vlan_port e (ext s) p \<noteq> SAI_STATUS_SUCCESS \<or> ?m = SAI_PORT_FWD_MODE_ROUTING \<or>
        sai_is_port_in_different_tagging_mode e (v_cache (sw s)) v p"
    | (old) "sai_validate_vlan_port e (ext s) p = SAI_STATUS_SUCCESS" "?m \<noteq> SAI_PORT_FWD_MODE_ROUTING"
        "\<not> sai_is_port_in_different_tagging_mode e (v_cache (sw s)) v p" "vlan_member e s v p"
    | (new) "sai_validate_vlan_port e (ext s) p = SAI_STATUS_SUCCESS" "?m \<noteq> SAI_PORT_FWD_MODE_ROUTING"
        "\<not> sai_is_port_in_different_tagging_mode e (v_cache (sw s)) v p" "\<not> vlan_member e s v p" by blast
  then show ?case
  proof cases
    case 1
    then have "nd' = nd \<and> s' = s \<and> st \<noteq> SAI_STATUS_SUCCESS" using Cons.prems by (auto simp: Let_def split: if_splits)
    then show ?thesis using stop by blast
  next
    case old
    then have "add_ports_loop e v ?m nd ps s = (st, nd', s')" using Cons.prems by (simp add: Let_def)
    from Cons.IH [OF this] obtain xs P where x: "nd' = nd @ xs" "set xs \<subseteq> set ps" "ports_new e v (set xs) s"
      "P \<subseteq> set xs" "ports_joined e v P s s'"
      "st = SAI_STATUS_SUCCESS \<longrightarrow> ports_joined e v (set xs) s s' \<and> (\<forall>p \<in> set ps. vlan_member e s' v p)" by blast
    moreover have "vlan_member e s' v p" using x(5) old(4) by (simp add: ports_joined_def)
    ultimately show ?thesis by (intro exI [where x = xs]) auto
  next
    case new
    have single: "ports_new e v {p} s" using vlan_cache_okD(8) [OF ok new(3)] new(4) by (auto simp: ports_new_def)
    obtain st1 s1 where 1: "cache_call (sai_add_vlan_port_node e v p) s = (st1, s1)" by force
    note c1 = cache_call_sel [OF 1]
    show ?thesis
    proof (cases "st1 = SAI_STATUS_SUCCESS")
      case False
      then have "nd' = nd @ [p]" "s' = s1" "st = st1" using Cons.prems new 1 by (auto simp: Let_def)
      moreover have "ports_joined e v {} s s1" using c1 vlan_cache_okD(5) [OF ok c1(1) False] by (simp add: ports_joined_def)
      ultimately show ?thesis using single False by (intro exI [where x = "[p]"]) (auto intro: exI [where x = "{}"])
    next
      case True
      then have l: "add_ports_loop e v ?m (nd @ [p]) ps s1 = (st, nd', s')" using Cons.prems new 1 by (simp add: Let_def)
      have j: "ports_joined e v {p} s s1"
        using c1 True vlan_cache_okD(3,4) [OF ok c1(1) [unfolded True]] by (simp add: ports_joined_def)
      from Cons.IH [OF l] obtain xs P where x: "nd' = (nd @ [p]) @ xs" "set xs \<subseteq> set ps" "ports_new e v (set xs) s1"
        "P \<subseteq> set xs" "ports_joined e v P s1 s'"
        "st = SAI_STATUS_SUCCESS \<longrightarrow> ports_joined e v (set xs) s1 s' \<and> (\<forall>p \<in> set ps. vlan_member e s' v p)" by blast
      have "ports_new e v (set (p # xs)) s" using x(3) single j by (auto simp: ports_new_def ports_joined_def)
      moreover have "ports_joined e v (insert p P) s s'" using ports_joined_trans [OF j x(5)] by simp
      moreover have "ports_joined e v (set (p # xs)) s s'" if "st = SAI_STATUS_SUCCESS"
        using x(6) that ports_joined_trans [OF j, of "set xs" s'] by simp
      moreover have "vlan_member e s' v p" using j x(5) by (simp add: ports_joined_def)
      ultimately show ?thesis
        using x by (intro exI [where x = "p # xs"]) (auto intro!: exI [where x = "insert p P"])
    qed
  qed
qed

lemma fold_remove_nodes:
  assumes ok: "vlan_cache_ok e"
  shows "sai_is_vlan_created e (fold (sai_remove_vlan_port_node e v) ps c) = sai_is_vlan_created e c"
    "sai_is_valid_vlan_port_member e (fold (sai_remove_vlan_port_node e v) ps c) w q =
      (sai_is_valid_vlan_port_member e c w q \<and> \<not> (w = v \<and> vp_port_id q \<in> vp_port_id ` set ps))"
  by (induction ps arbitrary: c) (auto simp: vlan_cache_okD(6,7) [OF ok])

text \<open>An addition of ports happens as a whole or not at all.\<close>

lemma add_ports_result:
  assumes ok: "vlan_cache_ok e" and c: "sai_l2_add_ports_to_vlan e v ports s = (st, s')"
  shows "if st = SAI_STATUS_SUCCESS then ports_joined e v (set ports) s s' \<and> vlan_created e s v
    else ports_joined e v {} s s'"
proof -
  obtain st1 nd s1 where 1: "(if ports = [] then (SAI_STATUS_INVALID_PARAMETER, [], s)
             else let ret_val = sai_is_vlan_configurable e (v_cache (sw s)) v
                  in if ret_val \<noteq> SAI_STATUS_SUCCESS then (ret_val, [], s)
                     else add_ports_loop e v SAI_PORT_FWD_MODE_UNKNOWN [] ports s) = (st1, nd, s1)" by (metis prod_cases3)
  obtain st2 s2 where 2: "(if st1 = SAI_STATUS_SUCCESS then ext_call (npu_add_ports_to_vlan e v nd) s1 else (st1, s1)) = (st2, s2)"
    by force
  have s': "st = st2" "s' = (if st2 \<noteq> SAI_STATUS_SUCCESS then upd_cache (fold (sai_remove_vlan_port_node e v) nd) s2 else s2)"
    using c unfolding sai_l2_add_ports_to_vlan_def Let_def 1 [unfolded Let_def] by (auto simp: 2)
  have sw2: "sw s2 = sw s1" using 2 ext_call_sw by (auto split: if_splits)
  have loop: "set nd \<subseteq> set ports \<and> ports_new e v (set nd) s \<and> (\<exists>P. P \<subseteq> set nd \<and> ports_joined e v P s s1) \<and>
      (st1 = SAI_STATUS_SUCCESS \<longrightarrow> ports_joined e v (set nd) s s1 \<and> (\<forall>p \<in> set ports. vlan_member e s1 v p) \<and> vlan_created e s v)"
  proof (cases "ports \<noteq> [] \<and> sai_is_vlan_configurable e (v_cache (sw s)) v = SAI_STATUS_SUCCESS")
    case True
    then have "add_ports_loop e v SAI_PORT_FWD_MODE_UNKNOWN [] ports s = (st1, nd, s1)" using 1 by (simp add: Let_def)
    moreover have "vlan_created e s v" using True by (auto simp: sai_is_vlan_configurable_def Let_def split: if_splits)
    ultimately show ?thesis using add_ports_loop_result [OF ok, of v SAI_PORT_FWD_MODE_UNKNOWN "[]" ports s st1 nd s1]
      by (metis append_Nil)
  next
    case False
    then have "nd = []" "s1 = s" "st1 \<noteq> SAI_STATUS_SUCCESS" using 1 by (auto simp: Let_def split: if_splits)
    then show ?thesis by (auto simp: ports_new_def)
  qed
  show ?thesis
  proof (cases "st2 = SAI_STATUS_SUCCESS")
    case True
    then have st1: "st1 = SAI_STATUS_SUCCESS" using 2 by (auto split: if_splits)
    with loop have "ports_joined e v (set nd) s s1" "\<forall>p \<in> set ports. vlan_member e s1 v p" "set nd \<subseteq> set ports" "vlan_created e s v"
      by simp_all
    moreover from this have "ports_joined e v (set ports) s s1" unfolding ports_joined_def by (metis subsetD)
    ultimately show ?thesis using s' True sw2 by (simp add: ports_joined_def)
  next
    case False
    obtain P where P: "P \<subseteq> set nd" "ports_joined e v P s s1" using loop by blast
    have "vlan_member e s' w q = vlan_member e s w q" for w q
      using P loop s'(2) False sw2
      by (auto simp: fold_remove_nodes [OF ok] ports_joined_def ports_new_def)
    moreover have "vlan_created e s' = vlan_created e s" "v_stp (sw s') = v_stp (sw s)"
      using P(2) s'(2) False sw2 by (simp_all add: fold_remove_nodes [OF ok] ports_joined_def)
    ultimately show ?thesis using s'(1) False by (simp add: ports_joined_def)
  qed
qed

text \<open>A removal of ports removes the ports from that VLAN or changes nothing.\<close>

lemma remove_ports_result:
  assumes ok: "vlan_cache_ok e" and c: "sai_l2_remove_ports_from_vlan e v ports s = (st, s')"
  shows "v_stp (sw s') = v_stp (sw s) \<and> vlan_created e s' = vlan_created e s \<and>
    (\<forall>w q. vlan_member e s' w q = (vlan_member e s w q \<and>
       \<not> (st = SAI_STATUS_SUCCESS \<and> w = v \<and> vp_port_id q \<in> vp_port_id ` set ports)))"
  using c
  by (auto simp: sai_l2_remove_ports_from_vlan_def Let_def fold_remove_nodes [OF ok] split: if_splits prod.splits
      dest: ext_call_sw)

section \<open>VLANs without an STP instance\<close>

text \<open>A VLAN that is created and in no instance.\<close>

definition vlan_stranded :: "('c, 'h) vlan_env \<Rightarrow> ('c, 'h) vlan_state \<Rightarrow> vlan_id \<Rightarrow> bool" where
  "vlan_stranded e s v \<longleftrightarrow> vlan_created e s v \<and> stp_of (v_stp (sw s)) v = None"

lemma stranded_delete:
  assumes inv: "stp_inv (vstp e) (v_stp (sw s))" and no: "stp_of (v_stp (sw s)) v = None"
    and c: "sai_l2_delete_vlan e v s = (st, s')"
  shows "st \<noteq> SAI_STATUS_SUCCESS \<and> sw s' = sw s"
proof -
  obtain st1 s1 where 1: "in_stp (sai_stp_vlan_destroy (vstp e) v) s = (st1, s1)" by force
  note i = in_stp_sel [OF 1]
  have "st1 \<noteq> SAI_STATUS_SUCCESS" "v_stp (sw s1) = v_stp (sw s)"
    using stp_vlan_destroy_effect(3) [OF _ i(1)] inv no by (auto split: if_splits)
  then show ?thesis using c 1 i(2) by (auto simp: sai_l2_delete_vlan_def intro: vlan_db_eqI)
qed

lemma stranded_calls:
  assumes ok: "vlan_cache_ok e" and inv: "stp_inv (vstp e) (v_stp (sw s))" and v: "vlan_stranded e s v"
  shows "sai_l2_remove_vlan e v s = (st, s') \<Longrightarrow> st \<noteq> SAI_STATUS_SUCCESS \<and> sw s' = sw s"
    "sai_l2_create_vlan e v s = (st, s') \<Longrightarrow> st \<noteq> SAI_STATUS_SUCCESS \<and> sw s' = sw s"
    "sai_l2_set_vlan_attribute e v (SAI_VLAN_ATTR_STP_INSTANCE i) s = (st, s') \<Longrightarrow> st \<noteq> SAI_STATUS_SUCCESS \<and> sw s' = sw s"
proof -
  have no: "stp_of (v_stp (sw s)) v = None" and cr: "vlan_created e s v" using v by (auto simp: vlan_stranded_def)
  show "st \<noteq> SAI_STATUS_SUCCESS \<and> sw s' = sw s" if "sai_l2_remove_vlan e v s = (st, s')"
    using that stranded_delete [OF inv no] by (auto simp: sai_l2_remove_vlan_def Let_def split: if_splits)
  show "st \<noteq> SAI_STATUS_SUCCESS \<and> sw s' = sw s" if c: "sai_l2_create_vlan e v s = (st, s')"
  proof (cases "sai_is_vlan_id_available e v = SAI_STATUS_SUCCESS")
    case True
    obtain st1 s1 where 1: "cache_call (sai_insert_vlan_in_list e v) s = (st1, s1)" by force
    note c1 = cache_call_sel [OF 1]
    have f: "st1 \<noteq> SAI_STATUS_SUCCESS" using vlan_cache_okD(1) [OF ok c1(1)] cr by blast
    then have "sw s1 = sw s" using c1 vlan_cache_okD(2) [OF ok c1(1)] by (intro vlan_db_eqI) auto
    then show ?thesis using c True 1 f by (simp add: sai_l2_create_vlan_def)
  next
    case False
    then show ?thesis using c by (simp add: sai_l2_create_vlan_def Let_def)
  qed
  show "st \<noteq> SAI_STATUS_SUCCESS \<and> sw s' = sw s"
    if c: "sai_l2_set_vlan_attribute e v (SAI_VLAN_ATTR_STP_INSTANCE i) s = (st, s')"
  proof (cases "sai_is_valid_vlan_id e v")
    case True
    then have "in_stp (sai_stp_vlan_handle (vstp e) v i) s = (st, s')" using c cr by (simp add: sai_l2_set_vlan_attribute_def)
    note i = in_stp_sel [OF this]
    have "st \<noteq> SAI_STATUS_SUCCESS \<and> v_stp (sw s') = v_stp (sw s)"
      using stp_vlan_handle_effect(3) [OF _ i(1)] inv no by simp
    then show ?thesis using i(2) by (auto intro: vlan_db_eqI)
  next
    case False
    then show ?thesis using c by (auto simp: sai_l2_set_vlan_attribute_def)
  qed
qed

text \<open>A deletion that the hardware refuses comes after the VLAN has left its instance.\<close>

lemma refused_delete_strands:
  assumes inv: "stp_inv (vstp e) (v_stp (sw s))" and c: "sai_l2_remove_vlan e v s = (st, s')" "st \<noteq> SAI_STATUS_SUCCESS"
  shows "stp_inv (vstp e) (v_stp (sw s')) \<and> (sw s' = sw s \<or> vlan_stranded e s' v)"
proof (cases "sai_is_vlan_configurable e (v_cache (sw s)) v = SAI_STATUS_SUCCESS")
  case False
  then show ?thesis using c inv by (simp add: sai_l2_remove_vlan_def Let_def)
next
  case True
  then have cr: "vlan_created e s v" by (auto simp: sai_is_vlan_configurable_def Let_def split: if_splits)
  obtain st1 s1 where 1: "in_stp (sai_stp_vlan_destroy (vstp e) v) s = (st1, s1)" by force
  note i = in_stp_sel [OF 1]
  have inv1: "stp_inv (vstp e) (v_stp (sw s1))" using stp_vlan_destroy_effect(1) [OF _ i(1)] inv by simp
  show ?thesis
  proof (cases "st1 = SAI_STATUS_SUCCESS")
    case st1: True
    then have "stp_of (v_stp (sw s1)) v = None" using stp_vlan_destroy_effect(2) [OF _ i(1)] inv by (simp add: stp_moved_def)
    moreover have "sw s' = sw s1"
      using c True 1 st1 by (auto simp: sai_l2_remove_vlan_def sai_l2_delete_vlan_def Let_def split: if_splits prod.splits dest: ext_call_sw)
    ultimately show ?thesis using inv1 cr i(2) by (simp add: vlan_stranded_def)
  next
    case False
    then have "v_stp (sw s1) = v_stp (sw s)" using stp_vlan_destroy_effect(3) [OF _ i(1)] inv by simp
    then have "sw s1 = sw s" using i(2) by (intro vlan_db_eqI)
    moreover have "s' = s1" using c True 1 False by (auto simp: sai_l2_remove_vlan_def sai_l2_delete_vlan_def Let_def)
    ultimately show ?thesis using inv by simp
  qed
qed

section \<open>Port events\<close>

text \<open>The membership of the ports other than \<open>p\<close> is as before.\<close>

definition other_ports_same :: "('c, 'h) vlan_env \<Rightarrow> oid \<Rightarrow> ('c, 'h) vlan_state \<Rightarrow> ('c, 'h) vlan_state \<Rightarrow> bool" where
  "other_ports_same e p s s' \<longleftrightarrow> (\<forall>w q. vp_port_id q \<noteq> p \<longrightarrow> vlan_member e s' w q = vlan_member e s w q)"

lemma default_port_init_other:
  assumes ok: "vlan_cache_ok e" and c: "sai_vlan_port_default_init e v p s = (st, s')"
  shows "other_ports_same e p s s'"
proof -
  let ?port = "default_vlan_port e p"
  obtain st1 s1 where 1: "sai_l2_add_ports_to_vlan e v [?port] s = (st1, s1)" by force
  obtain st2 s2 where 2: "ext_call (sai_port_api_set_port_attribute e p (SAI_PORT_ATTR_PORT_VLAN_ID v)) s1 = (st2, s2)" by force
  obtain st3 s3 where 3: "sai_l2_remove_ports_from_vlan e v [?port] s2 = (st3, s3)" by force
  have a: "other_ports_same e p s s1"
    using add_ports_result [OF ok 1] by (auto simp: other_ports_same_def ports_joined_def default_vlan_port_def split: if_splits)
  have b: "other_ports_same e p s2 s3"
    using remove_ports_result [OF ok 3] by (auto simp: other_ports_same_def default_vlan_port_def)
  show ?thesis
    using c 1 2 3 a b ext_call_sw [OF 2]
    by (auto simp: sai_vlan_port_default_init_def other_ports_same_def split: if_splits dest: ext_call_sw)
qed

end
