(* ===== verification/Switching_Properties.thy ===== *)
theory Switching_Properties
  imports Vlan_Ops Sai_Demo
begin

text \<open>
  The properties of STP instances and VLANs (\<^verbatim>\<open>src/src/switching\<close>), each with its use on a concrete
  history.
\<close>

section \<open>A concrete environment\<close>

text \<open>
  The world is a script: a call of the hardware fails when the script says so, and succeeds when it is at
  its end. Instances are numbered by the lengths of what was created, the default VLAN is 1 and the
  internal one 4095.
\<close>

type_synonym script = "bool list \<times> u64"

definition scripted :: "script \<Rightarrow> sai_status \<times> script" where
  "scripted h = (case fst h of [] \<Rightarrow> (SAI_STATUS_SUCCESS, h)
                 | b # bs \<Rightarrow> (if b then SAI_STATUS_FAILURE else SAI_STATUS_SUCCESS, (bs, snd h)))"

definition demo_stp_env :: "script stp_env" where
  "demo_stp_env =
     \<lparr>slib = demo_lib,
      npu_stp_init = (\<lambda>h. ((SAI_STATUS_SUCCESS, 1, 2), h)),
      npu_instance_create = (\<lambda>(bs, n). ((SAI_STATUS_SUCCESS, n), (bs, n + 1))),
      npu_instance_remove = (\<lambda>i. scripted), npu_stp_vlan_add = (\<lambda>i v. scripted),
      npu_stp_vlan_remove = (\<lambda>i v h. (SAI_STATUS_SUCCESS, h)),
      npu_stp_attribute_get = (\<lambda>i attrs h. ((SAI_STATUS_SUCCESS, attrs), h)),
      npu_port_state_set = (\<lambda>i p ps. scripted),
      npu_port_state_get = (\<lambda>i p h. ((SAI_STATUS_SUCCESS, SAI_PORT_STP_STATE_BLOCKING), h)),
      npu_vlan_stp_get = (\<lambda>v h. ((SAI_STATUS_SUCCESS, 1), h)),
      npu_default_instance_get = (\<lambda>h. ((SAI_STATUS_SUCCESS, 1), h)),
      sai_is_port_valid = (\<lambda>p h. True), SAI_INIT_DEFAULT_VLAN = 1, sai_internal_vlan_id = 4095\<rparr>"

lemma demo_stp_env_ok: "stp_env_ok demo_stp_env"
proof -
  have "slib demo_stp_env = demo_lib" by (simp add: demo_stp_env_def)
  moreover have "\<not> sai_is_obj_id_stp_instance demo_stp_env 0"
    by (simp add: demo_stp_env_def sai_is_obj_id_stp_instance_def demo_lib_def code_type_def)
  ultimately show ?thesis by (simp add: stp_env_ok_def demo_lib_ok) (simp add: demo_stp_env_def)
qed

abbreviation demo_stp :: "u64 \<Rightarrow> oid" where "demo_stp n \<equiv> demo_oid SAI_OBJECT_TYPE_STP_INSTANCE n"

text \<open>The default instance has VLANs 1 and 10, instance 3 has none.\<close>

definition demo_stp_calls :: "stp_call list" where
  "demo_stp_calls = [StpInit, StpInstanceCreate, StpDefaultUpdate 10]"

fun stp_run :: "'h stp_env \<Rightarrow> stp_call list \<Rightarrow> 'h stp_state \<Rightarrow> 'h stp_state" where
  "stp_run e [] s = s"
| "stp_run e (c # cs) s = stp_run e cs (snd (stp_exec e c s))"

fun stp_run_enabled :: "'h stp_env \<Rightarrow> stp_call list \<Rightarrow> 'h stp_state \<Rightarrow> bool" where
  "stp_run_enabled e [] s = True"
| "stp_run_enabled e (c # cs) s =
     ((case c of StpInit \<Rightarrow> True | _ \<Rightarrow> stp_info_handle (sw s) = TreeLive) \<and> stp_run_enabled e cs (snd (stp_exec e c s)))"

lemma stp_run_reachable: "stp_reachable e s \<Longrightarrow> stp_run_enabled e cs s \<Longrightarrow> stp_reachable e (stp_run e cs s)"
proof (induction cs arbitrary: s)
  case (Cons c cs)
  then have "stp_enabled c (sw s)" by (cases c) (simp_all add: stp_enabled_def)
  from stp_step [OF Cons.prems(1) this surjective_pairing] Cons show ?case by simp
qed simp

definition demo_stp_state :: "bool list \<Rightarrow> script stp_state" where
  "demo_stp_state bs =
     (let s = stp_run demo_stp_env demo_stp_calls \<lparr>sw = stp_db_zero, ext = ([], 3)\<rparr> in s\<lparr>ext := (bs, snd (ext s))\<rparr>)"

lemma demo_stp_reachable: "stp_reachable demo_stp_env (demo_stp_state [])"
proof -
  let ?s = "\<lparr>sw = stp_db_zero, ext = ([], 3)\<rparr>"
  have "stp_reachable demo_stp_env ?s" by (rule stp_start) simp
  moreover have "stp_run_enabled demo_stp_env demo_stp_calls ?s" by code_simp
  moreover have "ext (stp_run demo_stp_env demo_stp_calls ?s) = ([], snd (ext (stp_run demo_stp_env demo_stp_calls ?s)))"
    by code_simp
  ultimately show ?thesis using stp_run_reachable by (metis (no_types, lifting) demo_stp_state_def comp.surjective comp.update_convs(2))
qed

lemma demo_stp_inv: "stp_inv demo_stp_env (sw (demo_stp_state bs))"
proof -
  have "sw (demo_stp_state bs) = sw (demo_stp_state [])" by (simp add: demo_stp_state_def Let_def)
  then show ?thesis using stp_reachable_inv [OF demo_stp_env_ok demo_stp_reachable] by simp
qed

section \<open>STP\<close>

text \<open>
  C23: whatever calls are made and whatever fails, each VLAN is in the tree of at most one STP instance,
  and then the table of the VLANs names that instance; every node has its own id and a tree.
\<close>

theorem stp_reachable_invariant:
  assumes "stp_env_ok e" and "stp_reachable e s"
  shows "stp_inv e (sw s) \<and> (\<forall>i j v. stp_attached (sw s) i v \<and> stp_attached (sw s) j v \<longrightarrow> i = j)"
  using stp_reachable_inv [OF assms] stp_invD(3) by blast

theorem stp_reachable_invariant_witness:
  "stp_inv demo_stp_env (sw (demo_stp_state [])) \<and> stp_attached (sw (demo_stp_state [])) (demo_stp 1) 10 \<and>
   \<not> stp_attached (sw (demo_stp_state [])) (demo_stp 3) 10"
proof -
  have "stp_attached (sw (demo_stp_state [])) (demo_stp 1) 10" "demo_stp 1 \<noteq> demo_stp 3" by code_simp+
  with stp_reachable_invariant [OF demo_stp_env_ok demo_stp_reachable] show ?thesis by blast
qed

text \<open>
  C24: seen as a table from VLANs to instances, setting the STP instance of a VLAN is one assignment: on
  success the VLAN is in the new instance, and a failed call leaves it where it was or, when the hardware
  refuses the way back too, in no instance. No other VLAN moves, and the instance itself is valid.
\<close>

theorem stp_vlan_handle_refines:
  assumes "stp_inv e (sw s)" and "sai_stp_vlan_handle e v i s = (st, s')"
  shows "stp_inv e (sw s') \<and>
    (if st = SAI_STATUS_SUCCESS then stp_of (sw s') = (stp_of (sw s))(v := Some i)
     else stp_of (sw s') = stp_of (sw s) \<or> stp_of (sw s') = (stp_of (sw s))(v := None))"
  using stp_vlan_handle_effect(1,2) [OF assms] by (simp add: stp_moved_def)

theorem stp_vlan_handle_refines_witness:
  "stp_of (sw (snd (sai_stp_vlan_handle demo_stp_env 10 (demo_stp 3) (demo_stp_state [])))) =
     (stp_of (sw (demo_stp_state [])))(10 := Some (demo_stp 3))"
proof -
  have "fst (sai_stp_vlan_handle demo_stp_env 10 (demo_stp 3) (demo_stp_state [])) = SAI_STATUS_SUCCESS" by code_simp
  with stp_vlan_handle_refines [OF demo_stp_inv surjective_pairing, of 10 "demo_stp 3" "[]"] show ?thesis by simp
qed

text \<open>
  C25: a VLAN that is in no instance while the table still names one, as after a move whose way back
  failed, is lost: whatever calls of the STP component follow, short of an initialisation, it stays in no
  instance, and moving, detaching and attaching it to the default instance all fail.
\<close>

theorem stp_vlan_lost_forever:
  assumes "stp_env_ok e" and "stp_inv e (sw s)" and "stp_lost (sw s) v"
    and "StpInit \<notin> set cs" and "stp_run_enabled e cs s" and "s' = stp_run e cs s"
  shows "stp_lost (sw s') v \<and> fst (sai_stp_vlan_destroy e v s') \<noteq> SAI_STATUS_SUCCESS \<and>
    fst (sai_stp_vlan_handle e v i s') \<noteq> SAI_STATUS_SUCCESS \<and>
    fst (sai_stp_default_stp_vlan_update e v s') \<noteq> SAI_STATUS_SUCCESS"
proof -
  have "stp_lost (sw (stp_run e cs s)) v \<and> stp_inv e (sw (stp_run e cs s))"
    using assms(2-5)
  proof (induction cs arbitrary: s)
    case (Cons c cs)
    have en: "stp_enabled c (sw s)" using Cons.prems(4) by (cases c) (simp_all add: stp_enabled_def)
    have "stp_inv e (sw (snd (stp_exec e c s)))"
      by (rule stp_exec_inv [OF assms(1) Cons.prems(1) en surjective_pairing])
    moreover have "stp_lost (sw (snd (stp_exec e c s))) v"
      using stp_exec_lost [OF assms(1) Cons.prems(1,2) surjective_pairing, of c] Cons.prems(3) by auto
    ultimately show ?case using Cons.IH Cons.prems(3,4) by simp
  qed simp
  then have l: "stp_lost (sw s') v" and inv: "stp_inv e (sw s')" using assms(6) by simp_all
  then show ?thesis
    using stp_vlan_destroy_effect(3) [OF inv surjective_pairing, of v]
      stp_vlan_handle_effect(3) [OF inv surjective_pairing, of v i]
      stp_default_update_effect(3) [OF assms(1) inv surjective_pairing, of v]
    by (auto simp: stp_lost_def split: if_splits)
qed

text \<open>At a move where the hardware refuses the new instance and then the old one.\<close>

definition demo_lost_state :: "script stp_state" where
  "demo_lost_state = snd (sai_stp_vlan_handle demo_stp_env 10 (demo_stp 3) (demo_stp_state [True, True]))"

theorem stp_vlan_lost_forever_witness:
  "let s' = stp_run demo_stp_env [StpInstanceRemove (demo_stp 3), StpInstanceCreate] demo_lost_state
   in stp_lost (sw s') 10 \<and> fst (sai_stp_vlan_handle demo_stp_env 10 (demo_stp 1) s') \<noteq> SAI_STATUS_SUCCESS"
proof -
  let ?cs = "[StpInstanceRemove (demo_stp 3), StpInstanceCreate]"
  have inv: "stp_inv demo_stp_env (sw demo_lost_state)"
    using stp_vlan_handle_effect(1) [OF demo_stp_inv surjective_pairing] by (simp add: demo_lost_state_def)
  have l: "stp_lost (sw demo_lost_state) 10" and en: "stp_run_enabled demo_stp_env ?cs demo_lost_state" by code_simp+
  have n: "StpInit \<notin> set ?cs" by simp
  from stp_vlan_lost_forever [OF demo_stp_env_ok inv l n en refl, of "demo_stp 1"] show ?thesis by (simp add: Let_def)
qed

section \<open>VLANs\<close>

text \<open>
  A cache with the documented behaviour: the VLANs that are created, and the port nodes. The hardware
  layer of the VLANs follows the script too.
\<close>

type_synonym demo_cache = "vlan_id list \<times> (vlan_id \<times> sai_vlan_port) list"

definition demo_vlan_env :: "(demo_cache, script) vlan_env" where
  "demo_vlan_env =
     \<lparr>vstp = demo_stp_env,
      sai_vlan_cache_init = (\<lambda>c. (SAI_STATUS_SUCCESS, ([], []))),
      sai_is_vlan_created = (\<lambda>c v. List.member (fst c) v),
      sai_insert_vlan_in_list = (\<lambda>v c. if List.member (fst c) v then (SAI_STATUS_ITEM_ALREADY_EXISTS, c)
        else (SAI_STATUS_SUCCESS, (v # fst c, snd c))),
      sai_remove_vlan_from_list = (\<lambda>v c. (removeAll v (fst c), filter (\<lambda>n. fst n \<noteq> v) (snd c))),
      sai_is_valid_vlan_port_member = (\<lambda>c v p. List.member (snd c) (v, p)),
      sai_is_port_in_different_tagging_mode = (\<lambda>c v p.
        list_ex (\<lambda>n. fst n = v \<and> vp_port_id (snd n) = vp_port_id p \<and> snd n \<noteq> p) (snd c)),
      sai_add_vlan_port_node = (\<lambda>v p c. (SAI_STATUS_SUCCESS, (fst c, (v, p) # snd c))),
      sai_remove_vlan_port_node = (\<lambda>v p c.
        (fst c, filter (\<lambda>n. \<not> (fst n = v \<and> vp_port_id (snd n) = vp_port_id p)) (snd c))),
      sai_vlan_port_list_get = (\<lambda>c v l. (SAI_STATUS_SUCCESS, l)),
      sai_vlan_max_learn_adddress_cache_write = (\<lambda>v n c. c), sai_vlan_learn_disable_cache_write = (\<lambda>v b c. c),
      sai_vlan_meta_data_cache_write = (\<lambda>v n c. c),
      sai_is_valid_vlan_id = (\<lambda>v. 0 < v \<and> v < 4096), sai_is_internal_vlan_id = (\<lambda>v. v = 4095),
      sai_is_valid_vlan_tagging_mode = (\<lambda>m. m = SAI_VLAN_PORT_UNTAGGED \<or> m = SAI_VLAN_PORT_TAGGED),
      sai_port_forward_mode_info = (\<lambda>p h. Some SAI_PORT_FWD_MODE_SWITCHING),
      sai_port_info_ids = (\<lambda>h. [demo_oid SAI_OBJECT_TYPE_PORT 1]),
      sai_port_api_set_port_attribute = (\<lambda>p a h. (SAI_STATUS_SUCCESS, h)),
      sai_port_event_internal_notif_register = (\<lambda>h. (SAI_STATUS_SUCCESS, h)),
      npu_vlan_init = (\<lambda>h. (SAI_STATUS_SUCCESS, h)), npu_vlan_create = (\<lambda>v h. (SAI_STATUS_SUCCESS, h)),
      npu_vlan_delete = (\<lambda>v. scripted), npu_add_ports_to_vlan = (\<lambda>v ps. scripted),
      npu_remove_ports_from_vlan = (\<lambda>v ps. scripted),
      npu_set_vlan_max_learned_address = (\<lambda>v n. scripted), npu_get_vlan_max_learned_address = (\<lambda>v h. ((SAI_STATUS_SUCCESS, 0), h)),
      npu_disable_vlan_learn_set = (\<lambda>v b. scripted), npu_disable_vlan_learn_get = (\<lambda>v h. ((SAI_STATUS_SUCCESS, False), h)),
      npu_set_vlan_meta_data = (\<lambda>v n. scripted), npu_get_vlan_meta_data = (\<lambda>v h. ((SAI_STATUS_SUCCESS, 0), h)),
      npu_get_vlan_stats = (\<lambda>v ids h. ((SAI_STATUS_SUCCESS, []), h)), npu_clear_vlan_stats = (\<lambda>v ids h. (SAI_STATUS_SUCCESS, h)),
      sai_switch_get_max_lport = 4, SAI_MIN_VLAN_TAG_ID = 1, SAI_MAX_VLAN_TAG_ID = 4095,
      SAI_DEF_VLAN_TAGGING_MODE = SAI_VLAN_PORT_UNTAGGED, SAI_DFLT_VLAN_PRIORITY = 0\<rparr>"

lemma demo_vlan_cache_ok: "vlan_cache_ok demo_vlan_env"
  unfolding vlan_cache_ok_def by (force simp: demo_vlan_env_def list_ex_iff fun_eq_iff split: if_splits)

lemma demo_vlan_stp [simp]: "vstp demo_vlan_env = demo_stp_env"
  by (simp add: demo_vlan_env_def)

abbreviation demo_member :: "u64 \<Rightarrow> sai_vlan_port" where
  "demo_member n \<equiv> \<lparr>vp_port_id = demo_oid SAI_OBJECT_TYPE_PORT n, vp_tagging_mode = SAI_VLAN_PORT_TAGGED\<rparr>"

text \<open>VLANs 1 and 10 are created, port 1 is a member of VLAN 10, and the script is to come.\<close>

definition demo_vlan_state :: "bool list \<Rightarrow> (demo_cache, script) vlan_state" where
  "demo_vlan_state bs =
     \<lparr>sw = \<lparr>v_stp = sw (demo_stp_state []), v_cache = ([1, 10], [(10, demo_member 1)])\<rparr>, ext = (bs, 5)\<rparr>"

lemma demo_vlan_inv: "stp_inv (vstp demo_vlan_env) (v_stp (sw (demo_vlan_state bs)))"
  using demo_stp_inv [of "[]"] by (simp add: demo_vlan_state_def)

text \<open>
  C26: a removal of a VLAN that the hardware refuses comes after the VLAN left its STP instance: the VLAN
  stays created, and from then on removing it, creating it and setting its STP instance all fail and
  change nothing.
\<close>

theorem vlan_refused_removal_strands:
  assumes "vlan_cache_ok e" and "stp_inv (vstp e) (v_stp (sw s))" and "sai_l2_remove_vlan e v s = (st, s')"
    and "st \<noteq> SAI_STATUS_SUCCESS" and "sw s' \<noteq> sw s" and "sw t = sw s'"
  shows "vlan_created e t v \<and> stp_of (v_stp (sw t)) v = None \<and>
    fst (sai_l2_remove_vlan e v t) \<noteq> SAI_STATUS_SUCCESS \<and> sw (snd (sai_l2_remove_vlan e v t)) = sw t \<and>
    fst (sai_l2_create_vlan e v t) \<noteq> SAI_STATUS_SUCCESS \<and> sw (snd (sai_l2_create_vlan e v t)) = sw t \<and>
    fst (sai_l2_set_vlan_attribute e v (SAI_VLAN_ATTR_STP_INSTANCE i) t) \<noteq> SAI_STATUS_SUCCESS \<and>
    sw (snd (sai_l2_set_vlan_attribute e v (SAI_VLAN_ATTR_STP_INSTANCE i) t)) = sw t"
proof -
  have "stp_inv (vstp e) (v_stp (sw t))" "vlan_stranded e t v"
    using refused_delete_strands [OF assms(2,3,4)] assms(5,6) by (auto simp: vlan_stranded_def)
  from stranded_calls [OF assms(1) this surjective_pairing] this(2) show ?thesis
    unfolding vlan_stranded_def by blast
qed

theorem vlan_refused_removal_strands_witness:
  "let t = snd (sai_l2_remove_vlan demo_vlan_env 10 (demo_vlan_state [True]))
   in vlan_created demo_vlan_env t 10 \<and> fst (sai_l2_remove_vlan demo_vlan_env 10 t) \<noteq> SAI_STATUS_SUCCESS"
proof -
  let ?r = "sai_l2_remove_vlan demo_vlan_env 10 (demo_vlan_state [True])"
  have f: "fst ?r = SAI_STATUS_FAILURE"
    and n: "stp_of (v_stp (sw (snd ?r))) 10 \<noteq> stp_of (v_stp (sw (demo_vlan_state [True]))) 10" by code_simp+
  have st: "fst ?r \<noteq> SAI_STATUS_SUCCESS" and ne: "sw (snd ?r) \<noteq> sw (demo_vlan_state [True])"
    using f n by auto
  from vlan_refused_removal_strands [OF demo_vlan_cache_ok demo_vlan_inv surjective_pairing st ne refl]
  show ?thesis by (simp add: Let_def)
qed

text \<open>
  C27: adding ports to a VLAN is all or nothing. On success exactly the ports of the list have joined
  that VLAN, whether or not the list repeats or already has members; when any port is not valid, is
  routed, is a member with another tagging mode, or a node or the hardware fails, the members of every
  VLAN are as before. Neither the VLANs nor their STP instances change.
\<close>

theorem vlan_add_ports_atomic:
  assumes "vlan_cache_ok e" and "sai_l2_add_ports_to_vlan e v ports s = (st, s')"
  shows "v_stp (sw s') = v_stp (sw s) \<and> vlan_created e s' = vlan_created e s \<and>
    (if st = SAI_STATUS_SUCCESS
     then vlan_created e s v \<and> (\<forall>w p. vlan_member e s' w p = (vlan_member e s w p \<or> w = v \<and> p \<in> set ports))
     else vlan_member e s' = vlan_member e s)"
  using add_ports_result [OF assms] by (auto simp: ports_joined_def fun_eq_iff split: if_splits)

theorem vlan_add_ports_atomic_witness:
  "vlan_member demo_vlan_env (snd (sai_l2_add_ports_to_vlan demo_vlan_env 10 [demo_member 2, demo_member 1, demo_member 2]
     (demo_vlan_state []))) 10 (demo_member 2) \<and>
   vlan_member demo_vlan_env (snd (sai_l2_add_ports_to_vlan demo_vlan_env 10 [demo_member 2] (demo_vlan_state [True]))) =
     vlan_member demo_vlan_env (demo_vlan_state [True])"
proof -
  let ?a = "sai_l2_add_ports_to_vlan demo_vlan_env 10 [demo_member 2, demo_member 1, demo_member 2] (demo_vlan_state [])"
  let ?b = "sai_l2_add_ports_to_vlan demo_vlan_env 10 [demo_member 2] (demo_vlan_state [True])"
  have "fst ?a = SAI_STATUS_SUCCESS" "fst ?b = SAI_STATUS_FAILURE" by code_simp+
  then show ?thesis
    using vlan_add_ports_atomic [OF demo_vlan_cache_ok surjective_pairing [of ?a]]
      vlan_add_ports_atomic [OF demo_vlan_cache_ok surjective_pairing [of ?b]] by simp
qed

text \<open>
  C28: a batch of port events changes the membership of at most one port: the handler returns at the
  first event that it handles, and the rest of the batch is dropped. A new port that comes after another
  new port does not join the default VLAN.
\<close>

theorem vlan_event_batch_one_port:
  assumes "vlan_cache_ok e" and "sai_vlan_port_notification_handler e evs s = (st, s')"
  shows "\<exists>p. other_ports_same e p s s'"
  using assms(2)
proof (induction evs)
  case Nil
  then show ?case by (auto simp: other_ports_same_def)
next
  case (Cons ev evs)
  obtain p k where ev: "ev = (p, k)" by force
  let ?v = "SAI_INIT_DEFAULT_VLAN (vstp e)" and ?port = "default_vlan_port e p"
  have add: ?case if "k = SAI_PORT_EVENT_ADD"
    using Cons.prems that ev by (auto intro!: exI [where x = p] default_port_init_other [OF assms(1)])
  have del: ?case if "k = SAI_PORT_EVENT_DELETE" "vlan_member e s ?v ?port"
  proof -
    have "sai_l2_remove_ports_from_vlan e ?v [?port] s = (st, s')" using Cons.prems that ev by simp
    from remove_ports_result [OF assms(1) this] show ?thesis
      by (intro exI [where x = p]) (auto simp: other_ports_same_def default_vlan_port_def)
  qed
  show ?case
    using Cons add del ev by (cases k) (auto split: if_splits)
qed

definition demo_events :: "(oid \<times> sai_port_event) list" where
  "demo_events = [(demo_oid SAI_OBJECT_TYPE_PORT 2, SAI_PORT_EVENT_ADD), (demo_oid SAI_OBJECT_TYPE_PORT 3, SAI_PORT_EVENT_ADD)]"

theorem vlan_event_batch_one_port_witness:
  "let s' = snd (sai_vlan_port_notification_handler demo_vlan_env demo_events (demo_vlan_state []))
   in vlan_member demo_vlan_env s' 1 (default_vlan_port demo_vlan_env (demo_oid SAI_OBJECT_TYPE_PORT 2)) \<and>
      \<not> vlan_member demo_vlan_env s' 1 (default_vlan_port demo_vlan_env (demo_oid SAI_OBJECT_TYPE_PORT 3))"
proof -
  let ?s' = "snd (sai_vlan_port_notification_handler demo_vlan_env demo_events (demo_vlan_state []))"
  let ?p = "\<lambda>n. default_vlan_port demo_vlan_env (demo_oid SAI_OBJECT_TYPE_PORT n)"
  have a: "vlan_member demo_vlan_env ?s' 1 (?p 2)" "\<not> vlan_member demo_vlan_env (demo_vlan_state []) 1 (?p 2)"
    "\<not> vlan_member demo_vlan_env (demo_vlan_state []) 1 (?p 3)" "vp_port_id (?p 3) \<noteq> vp_port_id (?p 2)" by code_simp+
  from vlan_event_batch_one_port [OF demo_vlan_cache_ok surjective_pairing [of "sai_vlan_port_notification_handler demo_vlan_env demo_events (demo_vlan_state [])"]] a
  show ?thesis unfolding Let_def other_ports_same_def by metis
qed

end
