(* ===== verification/Lag_Api.thy ===== *)
theory Lag_Api
  imports Sai_Lib
begin

text \<open>
  Link aggregation groups and their members (\<^verbatim>\<open>src/src/switching/sai_lag.c\<close>). The cache of LAGs belongs
  to another repository: its state has the type \<open>'c\<close> and its operations are parameters. The L3 component
  is told of changes through a callback.
\<close>

section \<open>State\<close>

datatype sai_lag_operation = SAI_LAG_OPER_ADD_PORTS | SAI_LAG_OPER_DEL_PORTS

datatype lag_attr = SAI_LAG_ATTR_PORT_LIST "oid sai_list" | LAG_ATTR_UNKNOWN int

datatype lag_member_attr =
    SAI_LAG_MEMBER_ATTR_LAG_ID oid
  | SAI_LAG_MEMBER_ATTR_PORT_ID oid
  | SAI_LAG_MEMBER_ATTR_EGRESS_DISABLE bool
  | SAI_LAG_MEMBER_ATTR_INGRESS_DISABLE bool
  | LAG_MEMBER_ATTR_UNKNOWN int

datatype sai_lag_port_mode = SAI_LAG_PORT_MODE_NORMAL | SAI_LAG_PORT_MODE_OTHER int

datatype lag_fwd_mode = LAG_FWD_MODE_UNKNOWN | LAG_FWD_MODE_SWITCHING | LAG_FWD_MODE_ROUTING

record 'c lag_db =
  lag_callback_set :: bool
  lag_cache :: 'c

type_synonym ('c, 'h) lag_state = "('c lag_db, 'h) comp"

text \<open>
  \<open>uninit_oid_list\<close> is what an uninitialised list variable happens to hold, \<open>uninit_fwd_mode\<close> an
  uninitialised mode.
\<close>

record ('c, 'h) lag_env =
  glib :: "'h sai_lib"
  sai_lag_cache_init :: "'c \<Rightarrow> 'c"
  sai_is_lag_created :: "'c \<Rightarrow> oid \<Rightarrow> bool"
  sai_lag_node_add :: "oid \<Rightarrow> 'c \<Rightarrow> sai_status \<times> 'c"
  sai_lag_node_remove :: "oid \<Rightarrow> 'c \<Rightarrow> sai_status \<times> 'c"
  sai_lag_get_rif_id :: "'c \<Rightarrow> oid \<Rightarrow> oid"
  sai_lag_port_count_get :: "'c \<Rightarrow> oid \<Rightarrow> sai_status \<times> u32"
  sai_lag_port_list_get :: "'c \<Rightarrow> oid \<Rightarrow> oid sai_list \<Rightarrow> sai_status \<times> oid sai_list"
  sai_lag_port_node_add :: "oid \<Rightarrow> oid \<Rightarrow> oid \<Rightarrow> 'c \<Rightarrow> sai_status \<times> 'c"
  sai_lag_port_node_remove :: "oid \<Rightarrow> oid \<Rightarrow> 'c \<Rightarrow> 'c"
  sai_remove_all_lag_port_nodes :: "oid \<Rightarrow> 'c \<Rightarrow> 'c"
  sai_is_port_lag_member :: "'c \<Rightarrow> oid \<Rightarrow> oid \<Rightarrow> bool"
  sai_is_port_part_of_different_lag :: "'c \<Rightarrow> oid \<Rightarrow> oid \<Rightarrow> bool"
  sai_lag_member_get_disable_status :: "'c \<Rightarrow> oid \<Rightarrow> oid \<Rightarrow> bool \<Rightarrow> sai_status \<times> bool"
  sai_lag_member_set_disable_status :: "oid \<Rightarrow> oid \<Rightarrow> bool \<Rightarrow> bool \<Rightarrow> 'c \<Rightarrow> 'c"
  sai_lag_get_info_from_member_id :: "'c \<Rightarrow> oid \<Rightarrow> sai_status + oid \<times> oid"
  lag_port_valid :: "oid \<Rightarrow> 'h \<Rightarrow> bool"
  sai_is_port_list_valid :: "oid list \<Rightarrow> 'h \<Rightarrow> bool"
  lag_port_forward_mode_info :: "oid \<Rightarrow> 'h \<Rightarrow> sai_status \<times> lag_fwd_mode option"
  rif_callback :: "oid \<Rightarrow> oid \<Rightarrow> oid sai_list \<Rightarrow> sai_lag_operation \<Rightarrow> 'h \<Rightarrow> sai_status \<times> 'h"
  npu_lag_init :: "'h \<Rightarrow> 'h"
  npu_lag_create :: "'h \<Rightarrow> (sai_status \<times> oid) \<times> 'h"
  npu_lag_remove :: "oid \<Rightarrow> 'h \<Rightarrow> sai_status \<times> 'h"
  npu_add_ports_to_lag :: "oid \<Rightarrow> oid list \<Rightarrow> 'h \<Rightarrow> (sai_status \<times> oid list) \<times> 'h"
  npu_remove_ports_from_lag :: "oid \<Rightarrow> oid list \<Rightarrow> 'h \<Rightarrow> sai_status \<times> 'h"
  npu_lag_port_mode_set :: "oid \<Rightarrow> oid \<Rightarrow> sai_lag_port_mode \<Rightarrow> 'h \<Rightarrow> sai_status \<times> 'h"
  npu_lag_port_mode_get :: "oid \<Rightarrow> oid \<Rightarrow> 'h \<Rightarrow> (sai_status \<times> sai_lag_port_mode) \<times> 'h"
  npu_lag_port_flag_set :: "oid \<Rightarrow> oid \<Rightarrow> bool \<Rightarrow> bool \<Rightarrow> 'h \<Rightarrow> sai_status \<times> 'h"
  uninit_oid_list :: "oid sai_list"
  uninit_fwd_mode :: lag_fwd_mode

definition upd_lag :: "('c \<Rightarrow> 'c) \<Rightarrow> ('c, 'h) lag_state \<Rightarrow> ('c, 'h) lag_state" where
  "upd_lag f s = upd_sw (\<lambda>d. d\<lparr>lag_cache := f (lag_cache d)\<rparr>) s"

definition lag_call :: "('c \<Rightarrow> 'a \<times> 'c) \<Rightarrow> ('c, 'h) lag_state \<Rightarrow> 'a \<times> ('c, 'h) lag_state" where
  "lag_call f s = (let (r, c) = f (lag_cache (sw s)) in (r, upd_lag (\<lambda>_. c) s))"

definition oid_list_of :: "oid list \<Rightarrow> oid sai_list" where
  "oid_list_of xs = \<lparr>sl_count = of_nat (length xs), sl_list = Some xs\<rparr>"

definition zero_oid_list :: "u32 \<Rightarrow> oid sai_list" where
  "zero_oid_list n = \<lparr>sl_count = n, sl_list = Some (replicate (unat n) 0)\<rparr>"

section \<open>Initialisation and the callback\<close>

definition sai_lag_init :: "('c, 'h) lag_env \<Rightarrow> ('c, 'h) lag_state \<Rightarrow> sai_status \<times> ('c, 'h) lag_state" where
  "sai_lag_init e s = (SAI_STATUS_SUCCESS, (upd_lag (sai_lag_cache_init e) s)\<lparr>ext := npu_lag_init e (ext s)\<rparr>)"

definition sai_lag_rif_callback_register :: "bool \<Rightarrow> ('c, 'h) lag_state \<Rightarrow> ('c, 'h) lag_state" where
  "sai_lag_rif_callback_register present s = upd_sw (\<lambda>d. d\<lparr>lag_callback_set := present\<rparr>) s"

definition sai_lag_rif_notify ::
    "('c, 'h) lag_env \<Rightarrow> oid \<Rightarrow> sai_lag_operation \<Rightarrow> oid sai_list \<Rightarrow> ('c, 'h) lag_state \<Rightarrow> sai_status \<times> ('c, 'h) lag_state" where
  "sai_lag_rif_notify e lag_id opr l s =
     (let rif_id = sai_lag_get_rif_id e (lag_cache (sw s)) lag_id
      in if lib_object_type (glib e) rif_id = SAI_OBJECT_TYPE_ROUTER_INTERFACE \<and> lag_callback_set (sw s)
         then ext_call (rif_callback e lag_id rif_id l opr) s else (SAI_STATUS_SUCCESS, s))"

section \<open>Members\<close>

definition sai_l2_remove_all_lag_ports :: "('c, 'h) lag_env \<Rightarrow> oid \<Rightarrow> ('c, 'h) lag_state \<Rightarrow> sai_status \<times> ('c, 'h) lag_state" where
  "sai_l2_remove_all_lag_ports e lag_id s =
     (let (ret_val, n) = sai_lag_port_count_get e (lag_cache (sw s)) lag_id
      in if ret_val \<noteq> SAI_STATUS_SUCCESS then (ret_val, s)
         else if n = 0 then (SAI_STATUS_SUCCESS, s)
         else let (ret_val, l) = sai_lag_port_list_get e (lag_cache (sw s)) lag_id (zero_oid_list n)
              in if ret_val \<noteq> SAI_STATUS_SUCCESS then (ret_val, s)
                 else let (ret_val, s) = ext_call (npu_remove_ports_from_lag e lag_id (sl_elems l)) s
                      in if ret_val \<noteq> SAI_STATUS_SUCCESS then (ret_val, s)
                         else (SAI_STATUS_SUCCESS, upd_lag (sai_remove_all_lag_port_nodes e lag_id) s))"

text \<open>The member id is written by the hardware layer; it is zero when that writes none.\<close>

definition sai_l2_add_lag_port ::
    "('c, 'h) lag_env \<Rightarrow> oid \<Rightarrow> oid \<Rightarrow> ('c, 'h) lag_state \<Rightarrow> sai_status \<times> oid \<times> ('c, 'h) lag_state" where
  "sai_l2_add_lag_port e lag_id port_id s =
     (let ((ret_val, ids), s) = ext_call (npu_add_ports_to_lag e lag_id [port_id]) s;
          member_id = (case ids of [] \<Rightarrow> 0 | i # _ \<Rightarrow> i)
      in if ret_val \<noteq> SAI_STATUS_SUCCESS then (ret_val, member_id, s)
         else let (ret_val, s) = lag_call (sai_lag_port_node_add e lag_id port_id member_id) s
              in if ret_val \<noteq> SAI_STATUS_SUCCESS
                 then (ret_val, member_id, snd (ext_call (npu_remove_ports_from_lag e lag_id [port_id]) s))
                 else (ret_val, member_id, s))"

definition sai_l2_remove_lag_port ::
    "('c, 'h) lag_env \<Rightarrow> oid \<Rightarrow> oid \<Rightarrow> ('c, 'h) lag_state \<Rightarrow> sai_status \<times> ('c, 'h) lag_state" where
  "sai_l2_remove_lag_port e lag_id port_id s =
     (let (ret_val, s) = ext_call (npu_remove_ports_from_lag e lag_id [port_id]) s
      in (ret_val, upd_lag (sai_lag_port_node_remove e lag_id port_id) s))"

text \<open>The forwarding mode keeps its value when the query does not write it, or is not made.\<close>

definition lag_mode_after :: "('c, 'h) lag_env \<Rightarrow> bool \<Rightarrow> oid \<Rightarrow> 'h \<Rightarrow> lag_fwd_mode \<Rightarrow> lag_fwd_mode" where
  "lag_mode_after e chk_mode p h m =
     (if chk_mode then case snd (lag_port_forward_mode_info e p h) of None \<Rightarrow> m | Some m \<Rightarrow> m else m)"

text \<open>
  The loop over a list of ports: the ports it put in the list of new members, the last of which may not
  be in the cache. With \<open>chk_mode\<close> it refuses routed ports, as \<open>sai_l2_add_ports_to_lag\<close> does. The status
  is that of the last addition, and the one from before the loop when there was none.
\<close>

fun lag_ports_loop ::
    "('c, 'h) lag_env \<Rightarrow> bool \<Rightarrow> oid \<Rightarrow> lag_fwd_mode \<Rightarrow> sai_status \<Rightarrow> oid list \<Rightarrow> oid list \<Rightarrow> ('c, 'h) lag_state
     \<Rightarrow> sai_status \<times> oid list \<times> ('c, 'h) lag_state" where
  "lag_ports_loop e chk_mode lag_id fwd_mode ret_val non_dup [] s = (ret_val, non_dup, s)"
| "lag_ports_loop e chk_mode lag_id fwd_mode ret_val non_dup (p # ps) s =
     (if sai_is_port_part_of_different_lag e (lag_cache (sw s)) lag_id p then (SAI_STATUS_INVALID_PORT_MEMBER, non_dup, s)
      else if chk_mode \<and> lag_mode_after e chk_mode p (ext s) fwd_mode = LAG_FWD_MODE_ROUTING
      then (SAI_STATUS_OBJECT_IN_USE, non_dup, s)
      else if sai_is_port_lag_member e (lag_cache (sw s)) lag_id p
      then lag_ports_loop e chk_mode lag_id (lag_mode_after e chk_mode p (ext s) fwd_mode) ret_val non_dup ps s
      else let m = lag_mode_after e chk_mode p (ext s) fwd_mode;
               (ret_val, s) = lag_call (sai_lag_port_node_add e lag_id p 0) s
           in if ret_val \<noteq> SAI_STATUS_SUCCESS then (ret_val, non_dup @ [p], s)
              else lag_ports_loop e chk_mode lag_id m ret_val (non_dup @ [p]) ps s)"

definition lag_rollback :: "('c, 'h) lag_env \<Rightarrow> oid \<Rightarrow> oid list \<Rightarrow> ('c, 'h) lag_state \<Rightarrow> ('c, 'h) lag_state" where
  "lag_rollback e lag_id ports s = upd_lag (fold (sai_lag_port_node_remove e lag_id) ports) s"

definition sai_l2_lag_port_list_set ::
    "('c, 'h) lag_env \<Rightarrow> oid \<Rightarrow> oid sai_list \<Rightarrow> ('c, 'h) lag_state \<Rightarrow> sai_status \<times> ('c, 'h) lag_state" where
  "sai_l2_lag_port_list_set e lag_id l s =
     (if \<not> sai_is_port_list_valid e (sl_elems l) (ext s) then (SAI_STATUS_INVALID_PARAMETER, s)
      else let (ret_val, non_dup, s) =
                 (if \<not> sai_is_lag_created e (lag_cache (sw s)) lag_id then (SAI_STATUS_ITEM_NOT_FOUND, [], s)
                  else let (ret_val, s) = sai_l2_remove_all_lag_ports e lag_id s
                       in if ret_val \<noteq> SAI_STATUS_SUCCESS then (ret_val, [], s)
                          else lag_ports_loop e False lag_id LAG_FWD_MODE_UNKNOWN ret_val [] (sl_elems l) s);
               (ret_val, s) =
                 (if ret_val \<noteq> SAI_STATUS_SUCCESS then (ret_val, s)
                  else let (ret_val, ports) = sai_lag_port_list_get e (lag_cache (sw s)) lag_id
                             (zero_oid_list (of_nat (length non_dup)))
                       in if ret_val \<noteq> SAI_STATUS_SUCCESS then (ret_val, s)
                          else let ((ret_val, _), s) = ext_call (npu_add_ports_to_lag e lag_id (sl_elems ports)) s
                               in (ret_val, s))
           in (ret_val, if ret_val \<noteq> SAI_STATUS_SUCCESS then lag_rollback e lag_id non_dup s else s))"

section \<open>LAGs\<close>

fun create_lag_attrs ::
    "('c, 'h) lag_env \<Rightarrow> oid \<Rightarrow> nat \<Rightarrow> lag_attr list \<Rightarrow> sai_status \<Rightarrow> ('c, 'h) lag_state \<Rightarrow> sai_status \<times> ('c, 'h) lag_state" where
  "create_lag_attrs e lag_id idx [] ret_val s = (ret_val, s)"
| "create_lag_attrs e lag_id idx (attr # attrs) ret_val s =
     (let (ret_val, s) =
            (case attr of
               SAI_LAG_ATTR_PORT_LIST l \<Rightarrow> sai_l2_lag_port_list_set e lag_id l s
             | LAG_ATTR_UNKNOWN _ \<Rightarrow> (lib_indexed_ret_val (glib e) SAI_STATUS_UNKNOWN_ATTRIBUTE_0 idx, s))
      in if ret_val \<noteq> SAI_STATUS_SUCCESS then (ret_val, s) else create_lag_attrs e lag_id (idx + 1) attrs ret_val s)"

text \<open>The creation goes on when the node of the LAG could not be added.\<close>

definition sai_l2_create_lag ::
    "('c, 'h) lag_env \<Rightarrow> lag_attr list \<Rightarrow> ('c, 'h) lag_state \<Rightarrow> sai_status \<times> oid \<times> ('c, 'h) lag_state" where
  "sai_l2_create_lag e attrs s =
     (let ((ret_val, lag_id), s) = ext_call (npu_lag_create e) s
      in if ret_val \<noteq> SAI_STATUS_SUCCESS then (ret_val, lag_id, s)
         else let (ret_val, s) = lag_call (sai_lag_node_add e lag_id) s;
                  s = (if ret_val \<noteq> SAI_STATUS_SUCCESS then snd (ext_call (npu_lag_remove e lag_id) s) else s);
                  (ret_val, s) = create_lag_attrs e lag_id 0 attrs ret_val s
              in (ret_val, lag_id,
                  if ret_val \<noteq> SAI_STATUS_SUCCESS
                  then let s = snd (ext_call (npu_lag_remove e lag_id) s);
                           s = upd_lag (sai_remove_all_lag_port_nodes e lag_id) s
                       in snd (lag_call (sai_lag_node_remove e lag_id) s)
                  else s))"

text \<open>When the hardware refuses, the node of the LAG is added again, without its members.\<close>

definition sai_l2_remove_lag :: "('c, 'h) lag_env \<Rightarrow> oid \<Rightarrow> ('c, 'h) lag_state \<Rightarrow> sai_status \<times> ('c, 'h) lag_state" where
  "sai_l2_remove_lag e lag_id s =
     (if \<not> sai_is_lag_created e (lag_cache (sw s)) lag_id then (SAI_STATUS_ITEM_NOT_FOUND, s)
      else if lib_object_type (glib e) (sai_lag_get_rif_id e (lag_cache (sw s)) lag_id) = SAI_OBJECT_TYPE_ROUTER_INTERFACE
      then (SAI_STATUS_OBJECT_IN_USE, s)
      else let s = upd_lag (sai_remove_all_lag_port_nodes e lag_id) s;
               (ret_val, s) = lag_call (sai_lag_node_remove e lag_id) s
           in if ret_val \<noteq> SAI_STATUS_SUCCESS then (ret_val, s)
              else let (ret_val, s) = ext_call (npu_lag_remove e lag_id) s
                   in (ret_val, if ret_val \<noteq> SAI_STATUS_SUCCESS then snd (lag_call (sai_lag_node_add e lag_id) s) else s))"

section \<open>Lists of ports\<close>

text \<open>When every port is a member already, the call fails: the status has its initial value FAILURE.\<close>

definition sai_l2_add_ports_to_lag ::
    "('c, 'h) lag_env \<Rightarrow> oid \<Rightarrow> oid sai_list \<Rightarrow> ('c, 'h) lag_state \<Rightarrow> sai_status \<times> ('c, 'h) lag_state" where
  "sai_l2_add_ports_to_lag e lag_id l s =
     (if \<not> sai_is_port_list_valid e (sl_elems l) (ext s) then (SAI_STATUS_INVALID_PARAMETER, s)
      else let (ret_val, non_dup, s) =
                 (if \<not> sai_is_lag_created e (lag_cache (sw s)) lag_id then (SAI_STATUS_ITEM_NOT_FOUND, [], s)
                  else lag_ports_loop e True lag_id LAG_FWD_MODE_UNKNOWN SAI_STATUS_FAILURE [] (sl_elems l) s);
               (ret_val, s) =
                 (if ret_val \<noteq> SAI_STATUS_SUCCESS then (ret_val, s)
                  else let ((ret_val, _), s) = ext_call (npu_add_ports_to_lag e lag_id non_dup) s
                       in if ret_val \<noteq> SAI_STATUS_SUCCESS then (ret_val, s)
                          else let (ret_val, s) = sai_lag_rif_notify e lag_id SAI_LAG_OPER_ADD_PORTS (oid_list_of non_dup) s
                               in (ret_val, if ret_val \<noteq> SAI_STATUS_SUCCESS
                                            then snd (ext_call (npu_remove_ports_from_lag e lag_id non_dup) s) else s))
           in (ret_val, if ret_val \<noteq> SAI_STATUS_SUCCESS then lag_rollback e lag_id non_dup s else s))"

definition sai_l2_remove_ports_from_lag ::
    "('c, 'h) lag_env \<Rightarrow> oid \<Rightarrow> oid sai_list \<Rightarrow> ('c, 'h) lag_state \<Rightarrow> sai_status \<times> ('c, 'h) lag_state" where
  "sai_l2_remove_ports_from_lag e lag_id l s =
     (if \<not> sai_is_port_list_valid e (sl_elems l) (ext s) then (SAI_STATUS_INVALID_PARAMETER, s)
      else if \<not> sai_is_lag_created e (lag_cache (sw s)) lag_id then (SAI_STATUS_ITEM_NOT_FOUND, s)
      else if \<not> list_all (sai_is_port_lag_member e (lag_cache (sw s)) lag_id) (sl_elems l)
      then (SAI_STATUS_INVALID_PORT_MEMBER, s)
      else let (ret_val, s) = ext_call (npu_remove_ports_from_lag e lag_id (sl_elems l)) s
           in if ret_val \<noteq> SAI_STATUS_SUCCESS then (ret_val, s)
              else let (ret_val, s) = sai_lag_rif_notify e lag_id SAI_LAG_OPER_DEL_PORTS l s
                   in if ret_val \<noteq> SAI_STATUS_SUCCESS
                      then (ret_val, snd (ext_call (npu_add_ports_to_lag e lag_id (sl_elems l)) s))
                      else (ret_val, lag_rollback e lag_id (sl_elems l) s))"

section \<open>Attributes of a LAG\<close>

text \<open>
  After the roll back the new list is set once more in every case. The old list is not initialised when
  the LAG had no port.
\<close>

definition lag_set_port_list :: "('c, 'h) lag_env \<Rightarrow> oid \<Rightarrow> oid sai_list \<Rightarrow> ('c, 'h) lag_state \<Rightarrow> sai_status \<times> ('c, 'h) lag_state" where
  "lag_set_port_list e lag_id l s =
     (let port_count = snd (sai_lag_port_count_get e (lag_cache (sw s)) lag_id);
          (ret_val, old) = (if port_count \<noteq> 0 then sai_lag_port_list_get e (lag_cache (sw s)) lag_id (zero_oid_list port_count)
                            else (SAI_STATUS_SUCCESS, uninit_oid_list e))
      in if ret_val \<noteq> SAI_STATUS_SUCCESS then (ret_val, s)
         else let (ret_val, s) = sai_l2_lag_port_list_set e lag_id l s;
                  s = (if ret_val \<noteq> SAI_STATUS_SUCCESS then s
                       else let (ret_val, s) = sai_lag_rif_notify e lag_id SAI_LAG_OPER_DEL_PORTS old s;
                                (ret_val, s) = (if ret_val = SAI_STATUS_SUCCESS
                                                then sai_lag_rif_notify e lag_id SAI_LAG_OPER_ADD_PORTS l s else (ret_val, s))
                            in if ret_val \<noteq> SAI_STATUS_SUCCESS
                               then snd (sai_l2_lag_port_list_set e lag_id old
                                          (snd (sai_lag_rif_notify e lag_id SAI_LAG_OPER_ADD_PORTS old s)))
                               else s)
              in sai_l2_lag_port_list_set e lag_id l s)"

definition sai_l2_set_lag_attribute ::
    "('c, 'h) lag_env \<Rightarrow> oid \<Rightarrow> lag_attr \<Rightarrow> ('c, 'h) lag_state \<Rightarrow> sai_status \<times> ('c, 'h) lag_state" where
  "sai_l2_set_lag_attribute e lag_id attr s =
     (if \<not> sai_is_lag_created e (lag_cache (sw s)) lag_id then (SAI_STATUS_ITEM_NOT_FOUND, s)
      else case attr of
             SAI_LAG_ATTR_PORT_LIST l \<Rightarrow> lag_set_port_list e lag_id l s
           | LAG_ATTR_UNKNOWN _ \<Rightarrow> (SAI_STATUS_UNKNOWN_ATTRIBUTE_0, s))"

text \<open>An empty list of attributes fails.\<close>

fun lag_attr_get_loop ::
    "('c, 'h) lag_env \<Rightarrow> 'c \<Rightarrow> oid \<Rightarrow> nat \<Rightarrow> lag_attr list \<Rightarrow> sai_status \<Rightarrow> sai_status \<times> lag_attr list" where
  "lag_attr_get_loop e c lag_id idx [] ret_val = (ret_val, [])"
| "lag_attr_get_loop e c lag_id idx (attr # attrs) ret_val =
     (let (ret_val, attr) =
            (case attr of
               SAI_LAG_ATTR_PORT_LIST l \<Rightarrow>
                 (let (st, l) = sai_lag_port_list_get e c lag_id l in (st, SAI_LAG_ATTR_PORT_LIST l))
             | LAG_ATTR_UNKNOWN _ \<Rightarrow> (lib_indexed_ret_val (glib e) SAI_STATUS_UNKNOWN_ATTRIBUTE_0 idx, attr))
      in if ret_val \<noteq> SAI_STATUS_SUCCESS then (ret_val, attr # attrs)
         else let (ret_val, attrs) = lag_attr_get_loop e c lag_id (idx + 1) attrs ret_val in (ret_val, attr # attrs))"

definition sai_l2_get_lag_attribute ::
    "('c, 'h) lag_env \<Rightarrow> oid \<Rightarrow> lag_attr list \<Rightarrow> ('c, 'h) lag_state \<Rightarrow> sai_status \<times> lag_attr list" where
  "sai_l2_get_lag_attribute e lag_id attrs s =
     (if \<not> sai_is_lag_created e (lag_cache (sw s)) lag_id then (SAI_STATUS_ITEM_NOT_FOUND, attrs)
      else lag_attr_get_loop e (lag_cache (sw s)) lag_id 0 attrs SAI_STATUS_FAILURE)"

section \<open>The mode of a port\<close>

definition sai_lag_port_validate :: "('c, 'h) lag_env \<Rightarrow> oid \<Rightarrow> oid \<Rightarrow> ('c, 'h) lag_state \<Rightarrow> sai_status" where
  "sai_lag_port_validate e lag_id port_id s =
     (if lib_object_type (glib e) lag_id \<noteq> SAI_OBJECT_TYPE_LAG then SAI_STATUS_INVALID_OBJECT_TYPE
      else if lib_object_type (glib e) port_id \<noteq> SAI_OBJECT_TYPE_PORT then SAI_STATUS_INVALID_OBJECT_TYPE
      else if \<not> lag_port_valid e port_id (ext s) then SAI_STATUS_INVALID_OBJECT_ID
      else if \<not> sai_is_lag_created e (lag_cache (sw s)) lag_id then SAI_STATUS_ITEM_NOT_FOUND
      else if \<not> sai_is_port_lag_member e (lag_cache (sw s)) lag_id port_id then SAI_STATUS_INVALID_PORT_MEMBER
      else SAI_STATUS_SUCCESS)"

definition sai_l2_lag_port_mode_set ::
    "('c, 'h) lag_env \<Rightarrow> oid \<Rightarrow> oid \<Rightarrow> sai_lag_port_mode \<Rightarrow> ('c, 'h) lag_state \<Rightarrow> sai_status \<times> ('c, 'h) lag_state" where
  "sai_l2_lag_port_mode_set e lag_id port_id mode s =
     (let ret_val = sai_lag_port_validate e lag_id port_id s
      in if ret_val \<noteq> SAI_STATUS_SUCCESS then (ret_val, s) else ext_call (npu_lag_port_mode_set e lag_id port_id mode) s)"

definition sai_l2_lag_port_mode_get ::
    "('c, 'h) lag_env \<Rightarrow> oid \<Rightarrow> oid \<Rightarrow> ('c, 'h) lag_state \<Rightarrow> (sai_status \<times> sai_lag_port_mode option) \<times> ('c, 'h) lag_state" where
  "sai_l2_lag_port_mode_get e lag_id port_id s =
     (let ret_val = sai_lag_port_validate e lag_id port_id s
      in if ret_val \<noteq> SAI_STATUS_SUCCESS then ((ret_val, None), s)
         else let ((ret_val, m), s) = ext_call (npu_lag_port_mode_get e lag_id port_id) s in ((ret_val, Some m), s))"

section \<open>Members one by one\<close>

definition sai_l2_lag_port_flag_set ::
    "('c, 'h) lag_env \<Rightarrow> oid \<Rightarrow> oid \<Rightarrow> bool \<Rightarrow> bool \<Rightarrow> ('c, 'h) lag_state \<Rightarrow> sai_status \<times> ('c, 'h) lag_state" where
  "sai_l2_lag_port_flag_set e lag port_id is_ingress v s =
     (let (rc, old_value) = sai_lag_member_get_disable_status e (lag_cache (sw s)) lag port_id is_ingress
      in if rc \<noteq> SAI_STATUS_SUCCESS then (rc, s)
         else if old_value = v then (SAI_STATUS_SUCCESS, s)
         else let (rc, s) = ext_call (npu_lag_port_flag_set e lag port_id is_ingress v) s
              in (rc, if rc = SAI_STATUS_SUCCESS then upd_lag (sai_lag_member_set_disable_status e lag port_id is_ingress v) s
                      else snd (ext_call (npu_lag_port_flag_set e lag port_id is_ingress old_value) s)))"

definition sai_l2_validate_lag_port_add :: "('c, 'h) lag_env \<Rightarrow> oid \<Rightarrow> oid \<Rightarrow> ('c, 'h) lag_state \<Rightarrow> sai_status" where
  "sai_l2_validate_lag_port_add e lag_id port_id s =
     (if \<not> lag_port_valid e port_id (ext s) then SAI_STATUS_INVALID_PARAMETER
      else if \<not> sai_is_lag_created e (lag_cache (sw s)) lag_id then SAI_STATUS_ITEM_NOT_FOUND
      else if sai_is_port_lag_member e (lag_cache (sw s)) lag_id port_id then SAI_STATUS_ITEM_ALREADY_EXISTS
      else if sai_is_port_part_of_different_lag e (lag_cache (sw s)) lag_id port_id then SAI_STATUS_INVALID_PORT_MEMBER
      else let (st, m) = lag_port_forward_mode_info e port_id (ext s)
           in if st \<noteq> SAI_STATUS_SUCCESS then SAI_STATUS_OBJECT_IN_USE
              else if (case m of None \<Rightarrow> uninit_fwd_mode e | Some m \<Rightarrow> m) = LAG_FWD_MODE_ROUTING then SAI_STATUS_OBJECT_IN_USE
              else SAI_STATUS_SUCCESS)"

text \<open>
  The attributes of a new member. A second LAG or port id that differs from the first is refused by a
  status that is not looked at: the first one counts.
\<close>

record member_attrs =
  ma_lag :: "oid option"
  ma_port :: "oid option"
  ma_ing_disable :: "bool option"
  ma_egr_disable :: "bool option"

fun member_attrs_loop :: "lag_member_attr list \<Rightarrow> member_attrs \<Rightarrow> sai_status + member_attrs" where
  "member_attrs_loop [] m = Inr m"
| "member_attrs_loop (attr # attrs) m =
     (case attr of
        SAI_LAG_MEMBER_ATTR_LAG_ID i \<Rightarrow>
          member_attrs_loop attrs (if ma_lag m = None then m\<lparr>ma_lag := Some i\<rparr> else m)
      | SAI_LAG_MEMBER_ATTR_PORT_ID i \<Rightarrow>
          member_attrs_loop attrs (if ma_port m = None then m\<lparr>ma_port := Some i\<rparr> else m)
      | SAI_LAG_MEMBER_ATTR_EGRESS_DISABLE b \<Rightarrow> member_attrs_loop attrs (m\<lparr>ma_egr_disable := Some b\<rparr>)
      | SAI_LAG_MEMBER_ATTR_INGRESS_DISABLE b \<Rightarrow> member_attrs_loop attrs (m\<lparr>ma_ing_disable := Some b\<rparr>)
      | LAG_MEMBER_ATTR_UNKNOWN _ \<Rightarrow> Inl SAI_STATUS_UNKNOWN_ATTRIBUTE_0)"

definition flag_set_if ::
    "('c, 'h) lag_env \<Rightarrow> oid \<Rightarrow> oid \<Rightarrow> bool \<Rightarrow> bool option \<Rightarrow> ('c, 'h) lag_state \<Rightarrow> sai_status \<times> ('c, 'h) lag_state" where
  "flag_set_if e lag port_id is_ingress v s =
     (case v of None \<Rightarrow> (SAI_STATUS_SUCCESS, s) | Some b \<Rightarrow> sai_l2_lag_port_flag_set e lag port_id is_ingress b s)"

definition sai_l2_create_lag_member ::
    "('c, 'h) lag_env \<Rightarrow> lag_member_attr list \<Rightarrow> ('c, 'h) lag_state \<Rightarrow> sai_status \<times> oid option \<times> ('c, 'h) lag_state" where
  "sai_l2_create_lag_member e attrs s =
     (case member_attrs_loop attrs \<lparr>ma_lag = None, ma_port = None, ma_ing_disable = None, ma_egr_disable = None\<rparr> of
        Inl st \<Rightarrow> (st, None, s)
      | Inr m \<Rightarrow>
          (case (ma_lag m, ma_port m) of
             (Some lag, Some port_id) \<Rightarrow>
               (let ret_val = sai_l2_validate_lag_port_add e lag port_id s
                in if ret_val \<noteq> SAI_STATUS_SUCCESS then (ret_val, None, s)
                   else let (ret_val, member_id, s) = sai_l2_add_lag_port e lag port_id s
                        in if ret_val \<noteq> SAI_STATUS_SUCCESS then (ret_val, Some member_id, s)
                           else let (ret_val, s) = flag_set_if e lag port_id True (ma_ing_disable m) s;
                                    (ret_val, s) = (if ret_val \<noteq> SAI_STATUS_SUCCESS then (ret_val, s)
                                                    else flag_set_if e lag port_id False (ma_egr_disable m) s);
                                    (ret_val, s) = (if ret_val \<noteq> SAI_STATUS_SUCCESS then (ret_val, s)
                                                    else sai_lag_rif_notify e lag SAI_LAG_OPER_ADD_PORTS (oid_list_of [port_id]) s)
                                in (ret_val, Some member_id,
                                    if ret_val \<noteq> SAI_STATUS_SUCCESS then snd (sai_l2_remove_lag_port e lag port_id s) else s))
           | _ \<Rightarrow> (SAI_STATUS_MANDATORY_ATTRIBUTE_MISSING, None, s)))"

text \<open>The hardware and the callback are told, and their status is not looked at.\<close>

definition sai_l2_remove_lag_member :: "('c, 'h) lag_env \<Rightarrow> oid \<Rightarrow> ('c, 'h) lag_state \<Rightarrow> sai_status \<times> ('c, 'h) lag_state" where
  "sai_l2_remove_lag_member e member_id s =
     (case sai_lag_get_info_from_member_id e (lag_cache (sw s)) member_id of
        Inl rc \<Rightarrow> (rc, s)
      | Inr (lag_id, port_id) \<Rightarrow>
          if \<not> lag_port_valid e port_id (ext s) then (SAI_STATUS_INVALID_PARAMETER, s)
          else if \<not> sai_is_lag_created e (lag_cache (sw s)) lag_id then (SAI_STATUS_ITEM_NOT_FOUND, s)
          else if \<not> sai_is_port_lag_member e (lag_cache (sw s)) lag_id port_id then (SAI_STATUS_ITEM_NOT_FOUND, s)
          else let s = snd (sai_l2_remove_lag_port e lag_id port_id s)
               in (SAI_STATUS_SUCCESS, snd (sai_lag_rif_notify e lag_id SAI_LAG_OPER_DEL_PORTS (oid_list_of [port_id]) s)))"

definition sai_l2_set_lag_member_attribute ::
    "('c, 'h) lag_env \<Rightarrow> oid \<Rightarrow> lag_member_attr \<Rightarrow> ('c, 'h) lag_state \<Rightarrow> sai_status \<times> ('c, 'h) lag_state" where
  "sai_l2_set_lag_member_attribute e member_id attr s =
     (case sai_lag_get_info_from_member_id e (lag_cache (sw s)) member_id of
        Inl rc \<Rightarrow> (rc, s)
      | Inr (lag_id, port_id) \<Rightarrow>
          (case attr of
             SAI_LAG_MEMBER_ATTR_LAG_ID _ \<Rightarrow> (SAI_STATUS_INVALID_ATTRIBUTE_0, s)
           | SAI_LAG_MEMBER_ATTR_PORT_ID _ \<Rightarrow> (SAI_STATUS_INVALID_ATTRIBUTE_0, s)
           | SAI_LAG_MEMBER_ATTR_EGRESS_DISABLE b \<Rightarrow> sai_l2_lag_port_flag_set e lag_id port_id False b s
           | SAI_LAG_MEMBER_ATTR_INGRESS_DISABLE b \<Rightarrow> sai_l2_lag_port_flag_set e lag_id port_id True b s
           | LAG_MEMBER_ATTR_UNKNOWN _ \<Rightarrow> (SAI_STATUS_UNKNOWN_ATTRIBUTE_0, s)))"

fun member_attr_get_loop ::
    "('c, 'h) lag_env \<Rightarrow> 'c \<Rightarrow> oid \<Rightarrow> oid \<Rightarrow> lag_member_attr list \<Rightarrow> sai_status \<times> lag_member_attr list" where
  "member_attr_get_loop e c lag_id port_id [] = (SAI_STATUS_SUCCESS, [])"
| "member_attr_get_loop e c lag_id port_id (attr # attrs) =
     (let (rc, attr) =
            (case attr of
               SAI_LAG_MEMBER_ATTR_LAG_ID _ \<Rightarrow> (SAI_STATUS_SUCCESS, SAI_LAG_MEMBER_ATTR_LAG_ID lag_id)
             | SAI_LAG_MEMBER_ATTR_PORT_ID _ \<Rightarrow> (SAI_STATUS_SUCCESS, SAI_LAG_MEMBER_ATTR_PORT_ID port_id)
             | SAI_LAG_MEMBER_ATTR_EGRESS_DISABLE _ \<Rightarrow>
                 (let (rc, b) = sai_lag_member_get_disable_status e c lag_id port_id False
                  in (rc, SAI_LAG_MEMBER_ATTR_EGRESS_DISABLE b))
             | SAI_LAG_MEMBER_ATTR_INGRESS_DISABLE _ \<Rightarrow>
                 (let (rc, b) = sai_lag_member_get_disable_status e c lag_id port_id True
                  in (rc, SAI_LAG_MEMBER_ATTR_INGRESS_DISABLE b))
             | LAG_MEMBER_ATTR_UNKNOWN _ \<Rightarrow> (SAI_STATUS_UNKNOWN_ATTRIBUTE_0, attr))
      in if rc \<noteq> SAI_STATUS_SUCCESS then (rc, attr # attrs)
         else let (rc, attrs) = member_attr_get_loop e c lag_id port_id attrs in (rc, attr # attrs))"

definition sai_l2_get_lag_member_attribute ::
    "('c, 'h) lag_env \<Rightarrow> oid \<Rightarrow> lag_member_attr list \<Rightarrow> ('c, 'h) lag_state \<Rightarrow> sai_status \<times> lag_member_attr list" where
  "sai_l2_get_lag_member_attribute e member_id attrs s =
     (case sai_lag_get_info_from_member_id e (lag_cache (sw s)) member_id of
        Inl rc \<Rightarrow> (rc, attrs)
      | Inr (lag_id, port_id) \<Rightarrow> member_attr_get_loop e (lag_cache (sw s)) lag_id port_id attrs)"

end
