(* ===== verification/Lag_Ops.thy ===== *)
theory Lag_Ops
  imports Lag_Api
begin

text \<open>
  What the operations on LAGs do to the members, under the documented behaviour of the cache, and the
  invariant that a port is a member of at most one LAG.
\<close>

section \<open>The cache\<close>

text \<open>
  Documented behaviour of the cache: a failed call changes nothing, the operations on port nodes change
  the members of one LAG as their names say, and the lookups agree with each other.
\<close>

abbreviation lag_mem :: "('c, 'h) lag_env \<Rightarrow> 'c \<Rightarrow> oid \<Rightarrow> oid \<Rightarrow> bool" where
  "lag_mem e c \<equiv> sai_is_port_lag_member e c"

definition lag_cache_ok :: "('c, 'h) lag_env \<Rightarrow> bool" where
  "lag_cache_ok e \<longleftrightarrow>
     (\<forall>c l p. \<not> lag_mem e (sai_lag_cache_init e c) l p) \<and>
     (\<forall>l c st c'. sai_lag_node_add e l c = (st, c') \<longrightarrow> lag_mem e c' = lag_mem e c) \<and>
     (\<forall>l c st c'. sai_lag_node_remove e l c = (st, c') \<longrightarrow> lag_mem e c' = lag_mem e c) \<and>
     (\<forall>l p m c st c'. sai_lag_port_node_add e l p m c = (st, c') \<longrightarrow>
        (if st = SAI_STATUS_SUCCESS then (\<forall>k q. lag_mem e c' k q = (lag_mem e c k q \<or> k = l \<and> q = p))
         else lag_mem e c' = lag_mem e c)) \<and>
     (\<forall>l p c k q. lag_mem e (sai_lag_port_node_remove e l p c) k q = (lag_mem e c k q \<and> \<not> (k = l \<and> q = p))) \<and>
     (\<forall>l c k q. lag_mem e (sai_remove_all_lag_port_nodes e l c) k q = (lag_mem e c k q \<and> k \<noteq> l)) \<and>
     (\<forall>l p i b c. lag_mem e (sai_lag_member_set_disable_status e l p i b c) = lag_mem e c) \<and>
     (\<forall>c l p. sai_is_port_part_of_different_lag e c l p = (\<exists>k. k \<noteq> l \<and> lag_mem e c k p)) \<and>
     (\<forall>c l. sai_lag_port_count_get e c l = (SAI_STATUS_SUCCESS, 0) \<longrightarrow> (\<forall>p. \<not> lag_mem e c l p))"

lemma lag_cache_okD:
  assumes "lag_cache_ok e"
  shows "\<not> lag_mem e (sai_lag_cache_init e c) l p"
    "sai_lag_node_add e l c = (st, c') \<Longrightarrow> lag_mem e c' = lag_mem e c"
    "sai_lag_node_remove e l c = (st, c') \<Longrightarrow> lag_mem e c' = lag_mem e c"
    "sai_lag_port_node_add e l p m c = (SAI_STATUS_SUCCESS, c') \<Longrightarrow> lag_mem e c' k q = (lag_mem e c k q \<or> k = l \<and> q = p)"
    "sai_lag_port_node_add e l p m c = (st, c') \<Longrightarrow> st \<noteq> SAI_STATUS_SUCCESS \<Longrightarrow> lag_mem e c' = lag_mem e c"
    "lag_mem e (sai_lag_port_node_remove e l p c) k q = (lag_mem e c k q \<and> \<not> (k = l \<and> q = p))"
    "lag_mem e (sai_remove_all_lag_port_nodes e l c) k q = (lag_mem e c k q \<and> k \<noteq> l)"
    "lag_mem e (sai_lag_member_set_disable_status e l p i b c) = lag_mem e c"
    "sai_is_port_part_of_different_lag e c l p = (\<exists>k. k \<noteq> l \<and> lag_mem e c k p)"
    "sai_lag_port_count_get e c l = (SAI_STATUS_SUCCESS, 0) \<Longrightarrow> \<not> lag_mem e c l p"
  using assms unfolding lag_cache_ok_def by (auto split: if_splits)

lemma lag_upd_sel [simp]: "lag_cache (sw (upd_lag f s)) = f (lag_cache (sw s))" "lag_callback_set (sw (upd_lag f s)) = lag_callback_set (sw s)"
  "ext (upd_lag f s) = ext s"
  by (simp_all add: upd_lag_def)

lemma lag_call_sel:
  assumes "lag_call f s = (r, s')"
  shows "f (lag_cache (sw s)) = (r, lag_cache (sw s'))"
  using assms by (auto simp: lag_call_def split: prod.splits)

lemma rif_notify_sw: "sai_lag_rif_notify e l opr xs s = (st, s') \<Longrightarrow> sw s' = sw s"
  by (auto simp: sai_lag_rif_notify_def Let_def split: if_splits dest: ext_call_sw)

section \<open>Members\<close>

abbreviation members :: "('c, 'h) lag_env \<Rightarrow> ('c, 'h) lag_state \<Rightarrow> oid \<Rightarrow> oid \<Rightarrow> bool" where
  "members e s \<equiv> lag_mem e (lag_cache (sw s))"

text \<open>The members of one LAG were changed to those that \<open>P\<close> holds of; no other LAG was touched.\<close>

definition members_set :: "('c, 'h) lag_env \<Rightarrow> oid \<Rightarrow> (oid \<Rightarrow> bool) \<Rightarrow> ('c, 'h) lag_state \<Rightarrow> ('c, 'h) lag_state \<Rightarrow> bool" where
  "members_set e l P s s' \<longleftrightarrow> members e s' = (members e s)(l := P)"

definition ports_single :: "('c, 'h) lag_env \<Rightarrow> ('c, 'h) lag_state \<Rightarrow> bool" where
  "ports_single e s \<longleftrightarrow> (\<forall>k l p. members e s k p \<longrightarrow> members e s l p \<longrightarrow> k = l)"

lemma ports_single_set:
  assumes "ports_single e s" "members_set e l P s s'" "\<And>k p. k \<noteq> l \<Longrightarrow> P p \<Longrightarrow> \<not> members e s k p"
  shows "ports_single e s'"
  using assms unfolding ports_single_def members_set_def by (metis fun_upd_apply)

lemma members_set_refl: "members_set e l (members e s l) s s"
  by (simp add: members_set_def)

lemma members_set_same: "members e s' = members e s \<Longrightarrow> members_set e l (members e s l) s s'"
  by (simp add: members_set_def)

lemma members_set_trans: "members_set e l P s s1 \<Longrightarrow> members_set e l Q s1 s2 \<Longrightarrow> members_set e l Q s s2"
  by (simp add: members_set_def)

lemma sw_cong:
  assumes "sw s' = sw s1"
  shows "members_set e l P s s1 \<Longrightarrow> members_set e l P s s'" "ports_single e s1 \<Longrightarrow> ports_single e s'"
  using assms by (simp_all add: members_set_def ports_single_def)

lemma lag_ports_loop_result:
  assumes ok: "lag_cache_ok e"
  shows "lag_ports_loop e chk l m r nd ps s = (st, nd', s') \<Longrightarrow>
    \<exists>xs P. nd' = nd @ xs \<and> set xs \<subseteq> set ps \<and> P \<subseteq> set xs \<and>
      members_set e l (\<lambda>q. members e s l q \<or> q \<in> P) s s' \<and>
      (\<forall>q \<in> set xs. \<not> members e s l q) \<and> (\<forall>q \<in> P. \<forall>k. k \<noteq> l \<longrightarrow> \<not> members e s k q) \<and>
      (st = SAI_STATUS_SUCCESS \<longrightarrow> (\<forall>q \<in> set ps. members e s' l q))"
proof (induction ps arbitrary: m r nd s)
  case Nil
  then show ?case by (intro exI [where x = "[]"] exI [where x = "{}"]) (auto simp: members_set_def)
next
  case (Cons p ps)
  let ?m = "lag_mode_after e chk p (ext s) m"
  let ?other = "sai_is_port_part_of_different_lag e (lag_cache (sw s)) l p"
  consider (stop) "?other \<or> chk \<and> ?m = LAG_FWD_MODE_ROUTING"
    | (old) "\<not> ?other" "\<not> (chk \<and> ?m = LAG_FWD_MODE_ROUTING)" "members e s l p"
    | (new) "\<not> ?other" "\<not> (chk \<and> ?m = LAG_FWD_MODE_ROUTING)" "\<not> members e s l p" by blast
  then show ?case
  proof cases
    case stop
    then have "nd' = nd \<and> s' = s \<and> st \<noteq> SAI_STATUS_SUCCESS" using Cons.prems by (auto simp: Let_def split: if_splits)
    then show ?thesis by (intro exI [where x = "[]"] exI [where x = "{}"]) (auto simp: members_set_def)
  next
    case old
    then have "lag_ports_loop e chk l ?m r nd ps s = (st, nd', s')" using Cons.prems by (cases chk) simp_all
    from Cons.IH [OF this] obtain xs P where x: "nd' = nd @ xs" "set xs \<subseteq> set ps" "P \<subseteq> set xs"
      "members_set e l (\<lambda>q. members e s l q \<or> q \<in> P) s s'" "\<forall>q \<in> set xs. \<not> members e s l q"
      "\<forall>q \<in> P. \<forall>k. k \<noteq> l \<longrightarrow> \<not> members e s k q" "st = SAI_STATUS_SUCCESS \<longrightarrow> (\<forall>q \<in> set ps. members e s' l q)" by blast
    moreover have "members e s' l p" using x(4) old(3) by (simp add: members_set_def)
    ultimately show ?thesis by (intro exI [where x = xs] exI [where x = P]) auto
  next
    case new
    have alone: "\<not> members e s k p" if "k \<noteq> l" for k using new(1) that lag_cache_okD(9) [OF ok] by blast
    obtain st1 s1 where 1: "lag_call (sai_lag_port_node_add e l p 0) s = (st1, s1)" by force
    note c1 = lag_call_sel [OF 1]
    show ?thesis
    proof (cases "st1 = SAI_STATUS_SUCCESS")
      case False
      then have "nd' = nd @ [p]" "s' = s1" "st = st1" using Cons.prems new 1 by (cases chk; simp add: Let_def)+
      moreover have "members e s1 = members e s" by (rule lag_cache_okD(5) [OF ok c1 False])
      ultimately show ?thesis using new(3) False
        by (intro exI [where x = "[p]"] exI [where x = "{}"]) (simp add: members_set_def)
    next
      case True
      then have loop: "lag_ports_loop e chk l ?m SAI_STATUS_SUCCESS (nd @ [p]) ps s1 = (st, nd', s')"
        using Cons.prems new 1 by (cases chk) (simp_all add: Let_def)
      have m1: "members e s1 k q = (members e s k q \<or> k = l \<and> q = p)" for k q
        using lag_cache_okD(4) [OF ok c1 [unfolded True]] .
      from Cons.IH [OF loop] obtain xs P where x: "nd' = (nd @ [p]) @ xs" "set xs \<subseteq> set ps" "P \<subseteq> set xs"
        "members_set e l (\<lambda>q. members e s1 l q \<or> q \<in> P) s1 s'" "\<forall>q \<in> set xs. \<not> members e s1 l q"
        "\<forall>q \<in> P. \<forall>k. k \<noteq> l \<longrightarrow> \<not> members e s1 k q" "st = SAI_STATUS_SUCCESS \<longrightarrow> (\<forall>q \<in> set ps. members e s' l q)" by blast
      have "members_set e l (\<lambda>q. members e s l q \<or> q \<in> insert p P) s s'"
        using x(4) by (auto simp: members_set_def fun_eq_iff m1)
      moreover have "\<forall>q \<in> set (p # xs). \<not> members e s l q" using x(5) new(3) by (auto simp: m1)
      moreover have "\<forall>q \<in> insert p P. \<forall>k. k \<noteq> l \<longrightarrow> \<not> members e s k q" using x(6) alone by (auto simp: m1)
      moreover have "members e s' l p" using x(4) by (simp add: members_set_def m1)
      ultimately show ?thesis
        using x(1-3,7) by (intro exI [where x = "p # xs"] exI [where x = "insert p P"]) auto
    qed
  qed
qed

lemma rollback_members:
  assumes ok: "lag_cache_ok e"
  shows "members e (lag_rollback e l ps s) k q = (members e s k q \<and> \<not> (k = l \<and> q \<in> set ps))"
proof -
  have "lag_mem e (fold (sai_lag_port_node_remove e l) ps c) k q = (lag_mem e c k q \<and> \<not> (k = l \<and> q \<in> set ps))" for c
    by (induction ps arbitrary: c) (auto simp: lag_cache_okD(6) [OF ok])
  then show ?thesis by (simp add: lag_rollback_def)
qed

text \<open>The loop and the roll back of everything it added.\<close>

lemma loop_rolled_back:
  assumes ok: "lag_cache_ok e" and c: "lag_ports_loop e chk l m r [] ps s = (st, nd, s1)" and "members e s2 = members e s1"
  shows "members e (lag_rollback e l nd s2) = members e s"
proof -
  obtain P where P: "P \<subseteq> set nd" "members_set e l (\<lambda>q. members e s l q \<or> q \<in> P) s s1" "\<forall>q \<in> set nd. \<not> members e s l q"
    using lag_ports_loop_result [OF ok c] by auto
  then show ?thesis using assms(3)
    by (auto simp: fun_eq_iff rollback_members [OF ok] members_set_def)
qed

section \<open>Additions\<close>

lemma add_ports_to_lag_result:
  assumes ok: "lag_cache_ok e" and one: "ports_single e s" and c: "sai_l2_add_ports_to_lag e l xs s = (st, s')"
  shows "ports_single e s' \<and> (if st = SAI_STATUS_SUCCESS then members_set e l (\<lambda>q. members e s l q \<or> q \<in> set (sl_elems xs)) s s'
    else members e s' = members e s)"
proof (cases "sai_is_port_list_valid e (sl_elems xs) (ext s) \<and> sai_is_lag_created e (lag_cache (sw s)) l")
  case False
  then have "members e s' = members e s \<and> st \<noteq> SAI_STATUS_SUCCESS"
    using c by (auto simp: sai_l2_add_ports_to_lag_def Let_def lag_rollback_def split: if_splits)
  then show ?thesis using one by (simp add: ports_single_def)
next
  case True
  obtain st1 nd s1 where 1: "lag_ports_loop e True l LAG_FWD_MODE_UNKNOWN SAI_STATUS_FAILURE [] (sl_elems xs) s = (st1, nd, s1)"
    by (metis prod_cases3)
  obtain st2 s2 where 2: "(if st1 \<noteq> SAI_STATUS_SUCCESS then (st1, s1)
                  else let ((ret_val, _), s) = ext_call (npu_add_ports_to_lag e l nd) s1
                       in if ret_val \<noteq> SAI_STATUS_SUCCESS then (ret_val, s)
                          else let (ret_val, s) = sai_lag_rif_notify e l SAI_LAG_OPER_ADD_PORTS (oid_list_of nd) s
                               in (ret_val, if ret_val \<noteq> SAI_STATUS_SUCCESS
                                            then snd (ext_call (npu_remove_ports_from_lag e l nd) s) else s)) = (st2, s2)" by force
  have sw2: "sw s2 = sw s1" and st2: "st2 = SAI_STATUS_SUCCESS \<Longrightarrow> st1 = SAI_STATUS_SUCCESS"
    using 2 by (auto split: if_splits prod.splits dest!: ext_call_sw rif_notify_sw)
  have s': "st = st2" "s' = (if st2 \<noteq> SAI_STATUS_SUCCESS then lag_rollback e l nd s2 else s2)"
    using c True unfolding sai_l2_add_ports_to_lag_def Let_def by (auto simp: 1 2 [unfolded Let_def])
  show ?thesis
  proof (cases "st2 = SAI_STATUS_SUCCESS")
    case st: True
    obtain P where P: "set nd \<subseteq> set (sl_elems xs)" "P \<subseteq> set nd" "members_set e l (\<lambda>q. members e s l q \<or> q \<in> P) s s1"
      "\<forall>q \<in> P. \<forall>k. k \<noteq> l \<longrightarrow> \<not> members e s k q" "\<forall>q \<in> set (sl_elems xs). members e s1 l q"
      using lag_ports_loop_result [OF ok 1] st2 [OF st] by auto
    then have all: "(members e s l q \<or> q \<in> P) = (members e s l q \<or> q \<in> set (sl_elems xs))" for q
      by (auto simp: members_set_def)
    have "ports_single e s1" using ports_single_set [OF one P(3)] P(4) one unfolding ports_single_def by blast
    moreover have "members_set e l (\<lambda>q. members e s l q \<or> q \<in> set (sl_elems xs)) s s1" using P(3) unfolding all .
    moreover have eq: "sw s' = sw s1" "st = SAI_STATUS_SUCCESS" using s' st sw2 by simp_all
    ultimately show ?thesis using sw_cong [OF eq(1)] by simp
  next
    case False
    then have "members e s' = members e s" using loop_rolled_back [OF ok 1] s' sw2 by simp
    then show ?thesis using one s' False by (simp add: ports_single_def)
  qed
qed

text \<open>A list is set after all members are gone: a failure leaves the LAG as it was or empty.\<close>

lemma remove_all_ports_result:
  assumes ok: "lag_cache_ok e" and c: "sai_l2_remove_all_lag_ports e l s = (st, s')"
  shows "if st = SAI_STATUS_SUCCESS then members_set e l (\<lambda>_. False) s s' else members e s' = members e s"
proof -
  obtain st1 n where 1: "sai_lag_port_count_get e (lag_cache (sw s)) l = (st1, n)" by force
  have zero: "members_set e l (\<lambda>_. False) s s" if "st1 = SAI_STATUS_SUCCESS" "n = 0"
    using lag_cache_okD(10) [OF ok, of "lag_cache (sw s)" l] 1 that by (auto simp: members_set_def fun_eq_iff)
  obtain st2 xs where 2: "sai_lag_port_list_get e (lag_cache (sw s)) l (zero_oid_list n) = (st2, xs)" by force
  obtain st3 s3 where 3: "ext_call (npu_remove_ports_from_lag e l (sl_elems xs)) s = (st3, s3)" by force
  have "members_set e l (\<lambda>_. False) s (upd_lag (sai_remove_all_lag_port_nodes e l) s3)"
    using ext_call_sw [OF 3] by (auto simp: members_set_def fun_eq_iff lag_cache_okD(7) [OF ok])
  with zero show ?thesis
    using c ext_call_sw [OF 3] by (auto simp: sai_l2_remove_all_lag_ports_def 1 2 3 split: if_splits)
qed

lemma port_list_set_result:
  assumes ok: "lag_cache_ok e" and one: "ports_single e s" and c: "sai_l2_lag_port_list_set e l xs s = (st, s')"
  shows "ports_single e s' \<and> (if st = SAI_STATUS_SUCCESS then members_set e l (\<lambda>q. q \<in> set (sl_elems xs)) s s'
    else members e s' = members e s \<or> members_set e l (\<lambda>_. False) s s')"
proof (cases "sai_is_port_list_valid e (sl_elems xs) (ext s) \<and> sai_is_lag_created e (lag_cache (sw s)) l")
  case False
  then have "members e s' = members e s \<and> st \<noteq> SAI_STATUS_SUCCESS"
    using c by (auto simp: sai_l2_lag_port_list_set_def Let_def lag_rollback_def split: if_splits)
  then show ?thesis using one by (simp add: ports_single_def)
next
  case True
  obtain st0 s0 where 0: "sai_l2_remove_all_lag_ports e l s = (st0, s0)" by force
  note r0 = remove_all_ports_result [OF ok 0]
  show ?thesis
  proof (cases "st0 = SAI_STATUS_SUCCESS")
    case False
    then have "st = st0" "s' = lag_rollback e l [] s0"
      using c True 0 by (auto simp: sai_l2_lag_port_list_set_def Let_def)
    then show ?thesis using r0 False one by (simp add: lag_rollback_def ports_single_def)
  next
    case st0: True
    then have e0: "members_set e l (\<lambda>_. False) s s0" using r0 by simp
    have one0: "ports_single e s0" using ports_single_set [OF one e0] by simp
    obtain st1 nd s1 where 1: "lag_ports_loop e False l LAG_FWD_MODE_UNKNOWN SAI_STATUS_SUCCESS [] (sl_elems xs) s0 = (st1, nd, s1)"
      by (metis prod_cases3)
    obtain st2 s2 where 2: "(if st1 \<noteq> SAI_STATUS_SUCCESS then (st1, s1)
                  else let (ret_val, ports) = sai_lag_port_list_get e (lag_cache (sw s1)) l (zero_oid_list (of_nat (length nd)))
                       in if ret_val \<noteq> SAI_STATUS_SUCCESS then (ret_val, s1)
                          else let ((ret_val, _), s) = ext_call (npu_add_ports_to_lag e l (sl_elems ports)) s1
                               in (ret_val, s)) = (st2, s2)" by force
    have sw2: "sw s2 = sw s1" and st2: "st2 = SAI_STATUS_SUCCESS \<Longrightarrow> st1 = SAI_STATUS_SUCCESS"
      using 2 by (auto split: if_splits prod.splits dest: ext_call_sw)
    have s': "st = st2" "s' = (if st2 \<noteq> SAI_STATUS_SUCCESS then lag_rollback e l nd s2 else s2)"
      using c True 0 st0 unfolding sai_l2_lag_port_list_set_def Let_def by (auto simp: 1 2 [unfolded Let_def])
    show ?thesis
    proof (cases "st2 = SAI_STATUS_SUCCESS")
      case st: True
      obtain P where P: "set nd \<subseteq> set (sl_elems xs)" "P \<subseteq> set nd" "members_set e l (\<lambda>q. members e s0 l q \<or> q \<in> P) s0 s1"
        "\<forall>q \<in> P. \<forall>k. k \<noteq> l \<longrightarrow> \<not> members e s0 k q" "\<forall>q \<in> set (sl_elems xs). members e s1 l q"
        using lag_ports_loop_result [OF ok 1] st2 [OF st] by auto
      then have all: "(members e s0 l q \<or> q \<in> P) = (q \<in> set (sl_elems xs))" for q
        using e0 by (auto simp: members_set_def)
      have "ports_single e s1" using ports_single_set [OF one0 P(3)] P(4) one0 unfolding ports_single_def by blast
      moreover have "members_set e l (\<lambda>q. q \<in> set (sl_elems xs)) s0 s1" using P(3) unfolding all .
      moreover have eq: "sw s' = sw s1" "st = SAI_STATUS_SUCCESS" using s' st sw2 by simp_all
      ultimately show ?thesis using sw_cong [OF eq(1)] members_set_trans [OF e0] by simp
    next
      case False
      then have eq: "members e s' = members e s0" using loop_rolled_back [OF ok 1] s' sw2 by simp
      then have "ports_single e s'" "members_set e l (\<lambda>_. False) s s'"
        using one0 e0 unfolding ports_single_def members_set_def by metis+
      then show ?thesis using s'(1) False by simp
    qed
  qed
qed

lemma ports_single_cong: "members e s' = members e s \<Longrightarrow> ports_single e s' = ports_single e s"
  by (simp add: ports_single_def)

section \<open>The other operations\<close>

lemma remove_lag_port_members:
  assumes "lag_cache_ok e"
  shows "members e (snd (sai_l2_remove_lag_port e l p s)) k q = (members e s k q \<and> \<not> (k = l \<and> q = p))"
  by (simp add: sai_l2_remove_lag_port_def lag_cache_okD(6) [OF assms] split: prod.splits) (metis ext_call_sw)

lemma flag_set_members: "lag_cache_ok e \<Longrightarrow> flag_set_if e l p i v s = (st, s') \<Longrightarrow> members e s' = members e s"
  by (auto simp: flag_set_if_def sai_l2_lag_port_flag_set_def lag_cache_okD(8) split: option.splits if_splits prod.splits
      dest!: ext_call_sw)

lemma member_attrs_loop_sub:
  "member_attrs_loop attrs m = Inr m' \<Longrightarrow>
    (ma_lag m' = Some l \<longrightarrow> ma_lag m = Some l \<or> SAI_LAG_MEMBER_ATTR_LAG_ID l \<in> set attrs) \<and>
    (ma_port m' = Some p \<longrightarrow> ma_port m = Some p \<or> SAI_LAG_MEMBER_ATTR_PORT_ID p \<in> set attrs)"
  by (induction attrs m rule: member_attrs_loop.induct) (auto split: lag_member_attr.splits if_splits)

text \<open>The steps after the port joined, and the removal of the port when one of them fails.\<close>

definition member_steps ::
    "('c, 'h) lag_env \<Rightarrow> member_attrs \<Rightarrow> oid \<Rightarrow> oid \<Rightarrow> ('c, 'h) lag_state \<Rightarrow> sai_status \<times> ('c, 'h) lag_state" where
  "member_steps e m lag port_id s =
     (let (ret_val, s) = flag_set_if e lag port_id True (ma_ing_disable m) s;
          (ret_val, s) = (if ret_val \<noteq> SAI_STATUS_SUCCESS then (ret_val, s)
                          else flag_set_if e lag port_id False (ma_egr_disable m) s)
      in if ret_val \<noteq> SAI_STATUS_SUCCESS then (ret_val, s)
         else sai_lag_rif_notify e lag SAI_LAG_OPER_ADD_PORTS (oid_list_of [port_id]) s)"

lemma member_steps_members:
  assumes ok: "lag_cache_ok e" and c: "member_steps e m l p s = (st, s')"
  shows "members e s' = members e s"
proof -
  obtain st1 s1 where 1: "flag_set_if e l p True (ma_ing_disable m) s = (st1, s1)" by force
  obtain st2 s2 where 2: "flag_set_if e l p False (ma_egr_disable m) s1 = (st2, s2)" by force
  note m = flag_set_members [OF ok 1] flag_set_members [OF ok 2]
  show ?thesis using c m unfolding member_steps_def Let_def by (auto simp: 1 2 split: if_splits dest: rif_notify_sw)
qed

lemma create_lag_member_cases:
  assumes "sai_l2_create_lag_member e attrs s = (st, out, s')"
  shows "st \<noteq> SAI_STATUS_SUCCESS \<and> s' = s \<or>
    (\<exists>m l p st1 i s1. SAI_LAG_MEMBER_ATTR_LAG_ID l \<in> set attrs \<and> SAI_LAG_MEMBER_ATTR_PORT_ID p \<in> set attrs \<and>
       sai_l2_validate_lag_port_add e l p s = SAI_STATUS_SUCCESS \<and> sai_l2_add_lag_port e l p s = (st1, i, s1) \<and>
       (if st1 \<noteq> SAI_STATUS_SUCCESS then st = st1 \<and> s' = s1
        else st = fst (member_steps e m l p s1) \<and>
          s' = (if st \<noteq> SAI_STATUS_SUCCESS then snd (sai_l2_remove_lag_port e l p (snd (member_steps e m l p s1)))
                else snd (member_steps e m l p s1))))"
proof (cases "member_attrs_loop attrs \<lparr>ma_lag = None, ma_port = None, ma_ing_disable = None, ma_egr_disable = None\<rparr>")
  case (Inl a)
  have "a \<noteq> SAI_STATUS_SUCCESS" if "member_attrs_loop attrs m = Inl a" for m
    using that by (induction attrs m rule: member_attrs_loop.induct) (auto split: lag_member_attr.splits)
  then show ?thesis using assms Inl by (auto simp: sai_l2_create_lag_member_def)
next
  case (Inr m)
  show ?thesis
  proof (cases "\<exists>l p. ma_lag m = Some l \<and> ma_port m = Some p \<and> sai_l2_validate_lag_port_add e l p s = SAI_STATUS_SUCCESS")
    case False
    then show ?thesis using assms Inr
      by (auto simp: sai_l2_create_lag_member_def Let_def split: option.splits if_splits)
  next
    case True
    then obtain l p where lp: "ma_lag m = Some l" "ma_port m = Some p" "sai_l2_validate_lag_port_add e l p s = SAI_STATUS_SUCCESS"
      by blast
    then have sub: "SAI_LAG_MEMBER_ATTR_LAG_ID l \<in> set attrs" "SAI_LAG_MEMBER_ATTR_PORT_ID p \<in> set attrs"
      using member_attrs_loop_sub [OF Inr] by auto
    obtain st1 i s1 where 1: "sai_l2_add_lag_port e l p s = (st1, i, s1)" by (metis prod_cases3)
    show ?thesis
    proof (cases "st1 = SAI_STATUS_SUCCESS")
      case False
      then have "st = st1 \<and> s' = s1" using assms Inr lp 1 by (simp add: sai_l2_create_lag_member_def)
      then show ?thesis using sub lp(3) 1 False
        by (intro disjI2 exI [where x = m] exI [where x = l] exI [where x = p] exI [where x = st1] exI [where x = i]
            exI [where x = s1]) simp
    next
      case True
      then have "st = fst (member_steps e m l p s1) \<and>
          s' = (if st \<noteq> SAI_STATUS_SUCCESS then snd (sai_l2_remove_lag_port e l p (snd (member_steps e m l p s1)))
                else snd (member_steps e m l p s1))"
        using assms Inr lp 1
        by (auto simp: sai_l2_create_lag_member_def member_steps_def Let_def split: prod.splits if_splits)
      then show ?thesis using sub lp(3) 1 True
        by (intro disjI2 exI [where x = m] exI [where x = l] exI [where x = p] exI [where x = st1] exI [where x = i]
            exI [where x = s1]) simp
    qed
  qed
qed

lemma add_lag_port_members:
  assumes ok: "lag_cache_ok e" and c: "sai_l2_add_lag_port e l p s = (st, i, s')"
  shows "if st = SAI_STATUS_SUCCESS then members_set e l (\<lambda>q. members e s l q \<or> q = p) s s' else members e s' = members e s"
proof -
  obtain st1 ids s1 where 1: "ext_call (npu_add_ports_to_lag e l [p]) s = ((st1, ids), s1)" by (metis surj_pair)
  let ?i = "case ids of [] \<Rightarrow> 0 | i # _ \<Rightarrow> i"
  obtain st2 s2 where 2: "lag_call (sai_lag_port_node_add e l p ?i) s1 = (st2, s2)" by force
  note c2 = lag_call_sel [OF 2]
  show ?thesis
  proof (cases "st1 = SAI_STATUS_SUCCESS")
    case False
    then show ?thesis using c 1 ext_call_sw [OF 1] by (auto simp: sai_l2_add_lag_port_def)
  next
    case st1: True
    show ?thesis
    proof (cases "st2 = SAI_STATUS_SUCCESS")
      case True
      then have "members_set e l (\<lambda>q. members e s l q \<or> q = p) s s2"
        using lag_cache_okD(4) [OF ok c2 [unfolded True]] ext_call_sw [OF 1] by (auto simp: members_set_def fun_eq_iff)
      then show ?thesis using c 1 2 st1 True by (auto simp: sai_l2_add_lag_port_def)
    next
      case False
      then show ?thesis
        using c 1 2 st1 lag_cache_okD(5) [OF ok c2 False] ext_call_sw [OF 1] by (auto simp: sai_l2_add_lag_port_def)
    qed
  qed
qed

text \<open>A member is created completely or not at all.\<close>

lemma create_lag_member_result:
  assumes ok: "lag_cache_ok e" and c: "sai_l2_create_lag_member e attrs s = (st, out, s')"
  shows "if st = SAI_STATUS_SUCCESS
    then \<exists>l p. SAI_LAG_MEMBER_ATTR_LAG_ID l \<in> set attrs \<and> SAI_LAG_MEMBER_ATTR_PORT_ID p \<in> set attrs \<and>
      sai_is_lag_created e (lag_cache (sw s)) l \<and> (\<forall>k. \<not> members e s k p) \<and>
      members_set e l (\<lambda>q. members e s l q \<or> q = p) s s'
    else members e s' = members e s"
proof -
  consider "st \<noteq> SAI_STATUS_SUCCESS" "s' = s"
    | (go) m l p st1 i s1 where "SAI_LAG_MEMBER_ATTR_LAG_ID l \<in> set attrs" "SAI_LAG_MEMBER_ATTR_PORT_ID p \<in> set attrs"
       "sai_l2_validate_lag_port_add e l p s = SAI_STATUS_SUCCESS" "sai_l2_add_lag_port e l p s = (st1, i, s1)"
       "if st1 \<noteq> SAI_STATUS_SUCCESS then st = st1 \<and> s' = s1
        else st = fst (member_steps e m l p s1) \<and>
          s' = (if st \<noteq> SAI_STATUS_SUCCESS then snd (sai_l2_remove_lag_port e l p (snd (member_steps e m l p s1)))
                else snd (member_steps e m l p s1))"
    using create_lag_member_cases [OF c] by blast
  then show ?thesis
  proof cases
    case go
    have new: "sai_is_lag_created e (lag_cache (sw s)) l" "\<not> members e s l p"
        "\<not> sai_is_port_part_of_different_lag e (lag_cache (sw s)) l p"
      using go(3) by (auto simp: sai_l2_validate_lag_port_add_def split: if_splits)
    have alone: "\<not> members e s k p" for k
      using new(2,3) lag_cache_okD(9) [OF ok, of "lag_cache (sw s)" l p] by (cases "k = l") auto
    note a = add_lag_port_members [OF ok go(4)]
    show ?thesis
    proof (cases "st1 = SAI_STATUS_SUCCESS")
      case False
      then show ?thesis using a go(5) by simp
    next
      case True
      then have m1: "members_set e l (\<lambda>q. members e s l q \<or> q = p) s s1" using a by simp
      have m2: "members e (snd (member_steps e m l p s1)) = members e s1"
        using member_steps_members [OF ok surjective_pairing] .
      show ?thesis
      proof (cases "st = SAI_STATUS_SUCCESS")
        case st: True
        then have "members e s' = members e s1" using go(5) True m2 by simp
        then show ?thesis using st m1 go(1,2) new(1) alone by (auto simp: members_set_def)
      next
        case False
        then have "members e s' k q = (members e s1 k q \<and> \<not> (k = l \<and> q = p))" for k q
          using go(5) True m2 by (simp add: remove_lag_port_members [OF ok])
        then show ?thesis using False m1 alone by (auto simp: members_set_def fun_eq_iff)
      qed
    qed
  qed simp
qed

section \<open>The component\<close>

datatype lag_api_call =
    LagInit
  | LagCallback bool
  | LagCreate "lag_attr list"
  | LagRemove oid
  | LagSet oid lag_attr
  | LagAddPorts oid "oid sai_list"
  | LagRemovePorts oid "oid sai_list"
  | LagPortModeSet oid oid sai_lag_port_mode
  | LagMemberCreate "lag_member_attr list"
  | LagMemberRemove oid
  | LagMemberSet oid lag_member_attr

definition lag_exec :: "('c, 'h) lag_env \<Rightarrow> lag_api_call \<Rightarrow> ('c, 'h) lag_state \<Rightarrow> sai_status \<times> ('c, 'h) lag_state" where
  "lag_exec e c s =
     (case c of
        LagInit \<Rightarrow> sai_lag_init e s
      | LagCallback b \<Rightarrow> (SAI_STATUS_SUCCESS, sai_lag_rif_callback_register b s)
      | LagCreate attrs \<Rightarrow> (let (st, i, s) = sai_l2_create_lag e attrs s in (st, s))
      | LagRemove l \<Rightarrow> sai_l2_remove_lag e l s
      | LagSet l attr \<Rightarrow> sai_l2_set_lag_attribute e l attr s
      | LagAddPorts l xs \<Rightarrow> sai_l2_add_ports_to_lag e l xs s
      | LagRemovePorts l xs \<Rightarrow> sai_l2_remove_ports_from_lag e l xs s
      | LagPortModeSet l p m \<Rightarrow> sai_l2_lag_port_mode_set e l p m s
      | LagMemberCreate attrs \<Rightarrow> (let (st, i, s) = sai_l2_create_lag_member e attrs s in (st, s))
      | LagMemberRemove i \<Rightarrow> sai_l2_remove_lag_member e i s
      | LagMemberSet i attr \<Rightarrow> sai_l2_set_lag_member_attribute e i attr s)"

inductive lag_reachable :: "('c, 'h) lag_env \<Rightarrow> ('c, 'h) lag_state \<Rightarrow> bool" for e where
  lag_start: "sai_lag_init e s0 = (st, s) \<Longrightarrow> lag_reachable e s"
| lag_step: "lag_reachable e s \<Longrightarrow> lag_exec e c s = (st, s') \<Longrightarrow> lag_reachable e s'"

inductive_cases lag_reachableE: "lag_reachable e s"

text \<open>Members that only leave keep ports single.\<close>

lemma ports_single_sub: "ports_single e s \<Longrightarrow> (\<And>k q. members e s' k q \<Longrightarrow> members e s k q) \<Longrightarrow> ports_single e s'"
  unfolding ports_single_def by blast

lemma create_lag_attrs_single:
  assumes ok: "lag_cache_ok e"
  shows "create_lag_attrs e l idx attrs r s = (st, s') \<Longrightarrow> ports_single e s \<Longrightarrow> ports_single e s'"
proof (induction attrs arbitrary: idx r s)
  case (Cons attr attrs)
  obtain st1 s1 where 1: "(case attr of
               SAI_LAG_ATTR_PORT_LIST xs \<Rightarrow> sai_l2_lag_port_list_set e l xs s
             | LAG_ATTR_UNKNOWN _ \<Rightarrow> (lib_indexed_ret_val (glib e) SAI_STATUS_UNKNOWN_ATTRIBUTE_0 idx, s)) = (st1, s1)" by force
  then have "ports_single e s1"
    using port_list_set_result [OF ok Cons.prems(2)] Cons.prems(2) by (auto split: lag_attr.splits)
  then show ?case using Cons 1 by (auto split: if_splits)
qed simp

lemma rif_notify_members [simp]: "members e (snd (sai_lag_rif_notify e l opr xs s)) = members e s"
  using rif_notify_sw [OF surjective_pairing, of e l opr xs s] by simp

lemma lag_create_single:
  assumes ok: "lag_cache_ok e" and one: "ports_single e s" and c: "sai_l2_create_lag e attrs s = (st, i, s')"
  shows "ports_single e s'"
proof -
  obtain st1 l s1 where 1: "ext_call (npu_lag_create e) s = ((st1, l), s1)" by (metis surj_pair)
  obtain st2 s2 where 2: "lag_call (sai_lag_node_add e l) s1 = (st2, s2)" by force
  let ?s3 = "if st2 \<noteq> SAI_STATUS_SUCCESS then snd (ext_call (npu_lag_remove e l) s2) else s2"
  obtain st4 s4 where 4: "create_lag_attrs e l 0 attrs st2 ?s3 = (st4, s4)" by force
  have "members e ?s3 = members e s" using lag_cache_okD(2) [OF ok lag_call_sel [OF 2]] ext_call_sw [OF 1] by simp
  then have "ports_single e ?s3" using ports_single_cong one by blast
  then have one4: "ports_single e s4" by (rule create_lag_attrs_single [OF ok 4])
  let ?s5 = "upd_lag (sai_remove_all_lag_port_nodes e l) (snd (ext_call (npu_lag_remove e l) s4))"
  have "members e (snd (lag_call (sai_lag_node_remove e l) ?s5)) = members e ?s5"
    using lag_cache_okD(3) [OF ok lag_call_sel [OF surjective_pairing]] .
  moreover have "members e ?s5 k q \<Longrightarrow> members e s4 k q" for k q by (simp add: lag_cache_okD(7) [OF ok])
  ultimately have one6: "ports_single e (snd (lag_call (sai_lag_node_remove e l) ?s5))"
    by (intro ports_single_sub [OF one4]) simp
  have "ports_single e s1" using one sw_cong(2) [OF ext_call_sw [OF 1]] by simp
  then show ?thesis
    using c one4 one6 unfolding sai_l2_create_lag_def Let_def by (auto simp: 1 2 4 split: if_splits)
qed

lemma lag_remove_members:
  assumes ok: "lag_cache_ok e" and c: "sai_l2_remove_lag e l s = (st, s')"
  shows "members e s' = members e s \<or> members_set e l (\<lambda>_. False) s s'"
proof -
  let ?s1 = "upd_lag (sai_remove_all_lag_port_nodes e l) s"
  have m1: "members_set e l (\<lambda>_. False) s ?s1" by (auto simp: members_set_def fun_eq_iff lag_cache_okD(7) [OF ok])
  obtain st2 s2 where 2: "lag_call (sai_lag_node_remove e l) ?s1 = (st2, s2)" by force
  have m2: "members e s2 = members e ?s1" by (rule lag_cache_okD(3) [OF ok lag_call_sel [OF 2]])
  obtain st3 s3 where 3: "ext_call (npu_lag_remove e l) s2 = (st3, s3)" by force
  have m4: "members e (snd (lag_call (sai_lag_node_add e l) s3)) = members e s3"
    using lag_cache_okD(2) [OF ok lag_call_sel [OF surjective_pairing]] .
  show ?thesis
    using c m1 m2 m4 ext_call_sw [OF 3] unfolding sai_l2_remove_lag_def Let_def
    by (auto simp: 2 3 members_set_def split: if_splits)
qed

lemma remove_ports_members:
  assumes ok: "lag_cache_ok e" and c: "sai_l2_remove_ports_from_lag e l xs s = (st, s')"
  shows "members e s' k q = (members e s k q \<and> \<not> (st = SAI_STATUS_SUCCESS \<and> k = l \<and> q \<in> set (sl_elems xs)))"
  using c
  by (auto simp: sai_l2_remove_ports_from_lag_def rollback_members [OF ok] split: if_splits prod.splits
      dest!: ext_call_sw rif_notify_sw)

lemma lag_set_port_list_result:
  assumes ok: "lag_cache_ok e" and one: "ports_single e s" and c: "lag_set_port_list e l xs s = (st, s')"
  shows "ports_single e s' \<and> (\<forall>k. k \<noteq> l \<longrightarrow> members e s' k = members e s k) \<and>
    (st = SAI_STATUS_SUCCESS \<longrightarrow> members e s' l = (\<lambda>q. q \<in> set (sl_elems xs)))"
proof -
  have keep: "ports_single e s2 \<and> (\<forall>k. k \<noteq> l \<longrightarrow> members e s2 k = members e s1 k)"
    if "ports_single e s1" "sai_l2_lag_port_list_set e l ys s1 = (st2, s2)" for s1 ys st2 s2
    using port_list_set_result [OF ok that] by (auto simp: members_set_def split: if_splits)
  let ?n = "snd (sai_lag_port_count_get e (lag_cache (sw s)) l)"
  obtain st0 old where 0: "(if ?n \<noteq> 0 then sai_lag_port_list_get e (lag_cache (sw s)) l (zero_oid_list ?n)
                            else (SAI_STATUS_SUCCESS, uninit_oid_list e)) = (st0, old)" by force
  obtain st1 s1 where 1: "sai_l2_lag_port_list_set e l xs s = (st1, s1)" by force
  obtain st2 s2 where 2: "sai_lag_rif_notify e l SAI_LAG_OPER_DEL_PORTS old s1 = (st2, s2)" by force
  obtain st3 s3 where 3: "(if st2 = SAI_STATUS_SUCCESS then sai_lag_rif_notify e l SAI_LAG_OPER_ADD_PORTS xs s2
                           else (st2, s2)) = (st3, s3)" by force
  let ?s4 = "snd (sai_lag_rif_notify e l SAI_LAG_OPER_ADD_PORTS old s3)"
  let ?s5 = "snd (sai_l2_lag_port_list_set e l old ?s4)"
  let ?s6 = "if st1 \<noteq> SAI_STATUS_SUCCESS then s1 else if st3 \<noteq> SAI_STATUS_SUCCESS then ?s5 else s3"
  obtain st7 s7 where 7: "sai_l2_lag_port_list_set e l xs ?s6 = (st7, s7)" by force
  have k1: "ports_single e s1" "\<forall>k. k \<noteq> l \<longrightarrow> members e s1 k = members e s k" using keep [OF one 1] by auto
  have m3: "members e s3 = members e s1" using 3 rif_notify_sw [OF 2] by (auto split: if_splits dest: rif_notify_sw)
  then have m4: "members e ?s4 = members e s1" by simp
  then have "ports_single e ?s4" using k1(1) ports_single_cong by blast
  from keep [OF this surjective_pairing] m4 k1(2)
  have k5: "ports_single e ?s5" "\<forall>k. k \<noteq> l \<longrightarrow> members e ?s5 k = members e s k" by auto
  have "ports_single e s3" using k1(1) m3 ports_single_cong by blast
  then have k6: "ports_single e ?s6" "\<forall>k. k \<noteq> l \<longrightarrow> members e ?s6 k = members e s k" using k1 k5 m3 by auto
  have r7: "ports_single e s7" "\<forall>k. k \<noteq> l \<longrightarrow> members e s7 k = members e s k"
    "st7 = SAI_STATUS_SUCCESS \<longrightarrow> members e s7 l = (\<lambda>q. q \<in> set (sl_elems xs))"
    using keep [OF k6(1) 7] k6(2) port_list_set_result [OF ok k6(1) 7] by (auto simp: members_set_def split: if_splits)
  have "(st, s') = (if st0 \<noteq> SAI_STATUS_SUCCESS then (st0, s) else (st7, s7))"
    using c 7 unfolding lag_set_port_list_def Let_def by (simp add: 0 1 2 3 split: if_splits)
  then show ?thesis using r7 one by (auto split: if_splits)
qed

lemma lag_exec_single:
  assumes ok: "lag_cache_ok e" and one: "ports_single e s" and c: "lag_exec e c s = (st, s')"
  shows "ports_single e s'"
proof (cases c)
  case LagInit
  then show ?thesis using c by (auto simp: lag_exec_def sai_lag_init_def ports_single_def lag_cache_okD(1) [OF ok])
next
  case (LagCallback b)
  then show ?thesis using c one by (auto simp: lag_exec_def sai_lag_rif_callback_register_def ports_single_def)
next
  case (LagCreate attrs)
  then show ?thesis using c lag_create_single [OF ok one] by (auto simp: lag_exec_def split: prod.splits)
next
  case (LagRemove l)
  then have "members e s' = members e s \<or> members_set e l (\<lambda>_. False) s s'"
    using c lag_remove_members [OF ok] by (simp add: lag_exec_def)
  then show ?thesis using ports_single_cong one ports_single_set [OF one] by blast
next
  case (LagSet l attr)
  then show ?thesis using c one lag_set_port_list_result [OF ok one]
    by (auto simp: lag_exec_def sai_l2_set_lag_attribute_def split: if_splits lag_attr.splits)
next
  case (LagAddPorts l xs)
  then show ?thesis using c add_ports_to_lag_result [OF ok one] by (simp add: lag_exec_def)
next
  case (LagRemovePorts l xs)
  then have "sai_l2_remove_ports_from_lag e l xs s = (st, s')" using c by (simp add: lag_exec_def)
  from remove_ports_members [OF ok this] show ?thesis by (intro ports_single_sub [OF one]) simp
next
  case (LagPortModeSet l p m)
  then have "sw s' = sw s" using c by (auto simp: lag_exec_def sai_l2_lag_port_mode_set_def Let_def split: if_splits dest: ext_call_sw)
  then show ?thesis using sw_cong(2) one by blast
next
  case (LagMemberCreate attrs)
  then obtain i where d: "sai_l2_create_lag_member e attrs s = (st, i, s')" using c by (auto simp: lag_exec_def split: prod.splits)
  show ?thesis
  proof (cases "st = SAI_STATUS_SUCCESS")
    case True
    then obtain l p where "\<forall>k. \<not> members e s k p" "members_set e l (\<lambda>q. members e s l q \<or> q = p) s s'"
      using create_lag_member_result [OF ok d] by auto
    then show ?thesis using ports_single_set [OF one] one unfolding ports_single_def by blast
  next
    case False
    then have "members e s' = members e s" using create_lag_member_result [OF ok d] by simp
    then show ?thesis using one ports_single_cong by blast
  qed
next
  case (LagMemberRemove i)
  then have "members e s' k q \<Longrightarrow> members e s k q" for k q
    using c by (auto simp: lag_exec_def sai_l2_remove_lag_member_def Let_def remove_lag_port_members [OF ok]
        split: sum.splits if_splits prod.splits)
  then show ?thesis using ports_single_sub [OF one] by blast
next
  case (LagMemberSet i attr)
  have "members e s1 = members e s" if "sai_l2_lag_port_flag_set e l p b v s = (st1, s1)" for l p b v st1 s1
    using flag_set_members [OF ok, of l p b "Some v" s st1 s1] that by (simp add: flag_set_if_def)
  then have "members e s' = members e s"
    using LagMemberSet c
    by (auto simp: lag_exec_def sai_l2_set_lag_member_attribute_def split: sum.splits prod.splits lag_member_attr.splits)
  then show ?thesis using ports_single_cong one by blast
qed

lemma lag_reachable_single:
  assumes "lag_cache_ok e"
  shows "lag_reachable e s \<Longrightarrow> ports_single e s"
proof (induction rule: lag_reachable.induct)
  case (lag_start s0 st s)
  then show ?case by (auto simp: sai_lag_init_def ports_single_def lag_cache_okD(1) [OF assms])
next
  case (lag_step s c st s')
  then show ?case using lag_exec_single [OF assms] by blast
qed

end
