(* ===== verification/Lag_Properties.thy ===== *)
theory Lag_Properties
  imports Lag_Ops Sai_Demo
begin

text \<open>
  The properties of LAGs and their members (\<^verbatim>\<open>src/src/switching/sai_lag.c\<close>), each with its use on a
  concrete history.
\<close>

section \<open>A concrete environment\<close>

text \<open>
  The cache is the list of the LAGs and the list of their port nodes: LAG, port and member id. The world
  is a script of failures of the hardware and of the L3 callback, with the index of the next LAG. Every
  LAG has a router interface when the cache says so; no port is routed.
\<close>

record demo_lags =
  dl_lags :: "oid list"
  dl_nodes :: "(oid \<times> oid \<times> oid) list"
  dl_rif :: oid

type_synonym lag_script = "bool list \<times> u64"

definition lag_scripted :: "lag_script \<Rightarrow> sai_status \<times> lag_script" where
  "lag_scripted h = (case fst h of [] \<Rightarrow> (SAI_STATUS_SUCCESS, h)
                     | b # bs \<Rightarrow> (if b then SAI_STATUS_FAILURE else SAI_STATUS_SUCCESS, (bs, snd h)))"

definition demo_ports :: "demo_lags \<Rightarrow> oid \<Rightarrow> oid list" where
  "demo_ports c l = map (\<lambda>(k, p, m). p) (filter (\<lambda>(k, p, m). k = l) (dl_nodes c))"

definition demo_lag_env :: "(demo_lags, lag_script) lag_env" where
  "demo_lag_env =
     \<lparr>glib = demo_lib,
      sai_lag_cache_init = (\<lambda>c. c\<lparr>dl_lags := [], dl_nodes := []\<rparr>),
      sai_is_lag_created = (\<lambda>c l. List.member (dl_lags c) l),
      sai_lag_node_add = (\<lambda>l c. (SAI_STATUS_SUCCESS, c\<lparr>dl_lags := l # dl_lags c\<rparr>)),
      sai_lag_node_remove = (\<lambda>l c. (SAI_STATUS_SUCCESS, c\<lparr>dl_lags := removeAll l (dl_lags c)\<rparr>)),
      sai_lag_get_rif_id = (\<lambda>c l. dl_rif c),
      sai_lag_port_count_get = (\<lambda>c l.
        if demo_ports c l = [] then (SAI_STATUS_SUCCESS, 0)
        else if of_nat (length (demo_ports c l)) = (0 :: u32) then (SAI_STATUS_FAILURE, 0)
        else (SAI_STATUS_SUCCESS, of_nat (length (demo_ports c l)))),
      sai_lag_port_list_get = (\<lambda>c l xs. (SAI_STATUS_SUCCESS, oid_list_of (demo_ports c l))),
      sai_lag_port_node_add = (\<lambda>l p m c. (SAI_STATUS_SUCCESS, c\<lparr>dl_nodes := (l, p, m) # dl_nodes c\<rparr>)),
      sai_lag_port_node_remove = (\<lambda>l p c. c\<lparr>dl_nodes := filter (\<lambda>(k, q, m). \<not> (k = l \<and> q = p)) (dl_nodes c)\<rparr>),
      sai_remove_all_lag_port_nodes = (\<lambda>l c. c\<lparr>dl_nodes := filter (\<lambda>(k, q, m). k \<noteq> l) (dl_nodes c)\<rparr>),
      sai_is_port_lag_member = (\<lambda>c l p. list_ex (\<lambda>(k, q, m). k = l \<and> q = p) (dl_nodes c)),
      sai_is_port_part_of_different_lag = (\<lambda>c l p. list_ex (\<lambda>(k, q, m). k \<noteq> l \<and> q = p) (dl_nodes c)),
      sai_lag_member_get_disable_status = (\<lambda>c l p i. (SAI_STATUS_SUCCESS, False)),
      sai_lag_member_set_disable_status = (\<lambda>l p i b c. c),
      sai_lag_get_info_from_member_id = (\<lambda>c i.
        case filter (\<lambda>(k, q, m). m = i) (dl_nodes c) of
          [] \<Rightarrow> Inl SAI_STATUS_ITEM_NOT_FOUND | n # _ \<Rightarrow> Inr (fst n, fst (snd n))),
      lag_port_valid = (\<lambda>p h. True), sai_is_port_list_valid = (\<lambda>ps h. True),
      lag_port_forward_mode_info = (\<lambda>p h. (SAI_STATUS_SUCCESS, Some LAG_FWD_MODE_SWITCHING)),
      rif_callback = (\<lambda>l r xs opr. lag_scripted),
      npu_lag_init = (\<lambda>h. h),
      npu_lag_create = (\<lambda>(bs, n). ((SAI_STATUS_SUCCESS, demo_oid SAI_OBJECT_TYPE_LAG n), (bs, n + 1))),
      npu_lag_remove = (\<lambda>l. lag_scripted),
      npu_add_ports_to_lag = (\<lambda>l ps h. let (st, h) = lag_scripted h
        in ((st, map (\<lambda>p. demo_oid SAI_OBJECT_TYPE_LAG_MEMBER p) ps), h)),
      npu_remove_ports_from_lag = (\<lambda>l ps. lag_scripted),
      npu_lag_port_mode_set = (\<lambda>l p m. lag_scripted),
      npu_lag_port_mode_get = (\<lambda>l p h. ((SAI_STATUS_SUCCESS, SAI_LAG_PORT_MODE_NORMAL), h)),
      npu_lag_port_flag_set = (\<lambda>l p i b. lag_scripted),
      uninit_oid_list = oid_list_of [], uninit_fwd_mode = LAG_FWD_MODE_UNKNOWN\<rparr>"

lemma demo_lag_cache_ok: "lag_cache_ok demo_lag_env"
proof -
  have mem: "lag_mem demo_lag_env c l p = (\<exists>m. (l, p, m) \<in> set (dl_nodes c))" for c l p
    by (auto simp: demo_lag_env_def list_ex_iff)
  have "sai_is_port_part_of_different_lag demo_lag_env c l p = (\<exists>k. k \<noteq> l \<and> lag_mem demo_lag_env c k p)" for c l p
    unfolding mem by (auto simp: demo_lag_env_def list_ex_iff)
  moreover have "\<not> lag_mem demo_lag_env c l p" if "sai_lag_port_count_get demo_lag_env c l = (SAI_STATUS_SUCCESS, 0)" for c l p
  proof -
    have "demo_ports c l = []" using that by (simp add: demo_lag_env_def split: if_splits)
    then show ?thesis unfolding mem by (auto simp: demo_ports_def filter_empty_conv)
  qed
  moreover have "lag_mem demo_lag_env (sai_lag_port_node_remove demo_lag_env l p c) k q = (lag_mem demo_lag_env c k q \<and> \<not> (k = l \<and> q = p))"
    "lag_mem demo_lag_env (sai_remove_all_lag_port_nodes demo_lag_env l c) k q = (lag_mem demo_lag_env c k q \<and> k \<noteq> l)"
    for l p c k q unfolding mem by (auto simp: demo_lag_env_def)
  moreover have "sai_lag_port_node_add demo_lag_env l p m c = (st, c') \<Longrightarrow> st = SAI_STATUS_SUCCESS \<and>
      (\<forall>k q. lag_mem demo_lag_env c' k q = (lag_mem demo_lag_env c k q \<or> k = l \<and> q = p))" for l p m c st c'
    unfolding mem by (auto simp: demo_lag_env_def)
  moreover have "\<not> lag_mem demo_lag_env (sai_lag_cache_init demo_lag_env c) l p" for c l p
    unfolding mem by (simp add: demo_lag_env_def)
  moreover have "sai_lag_node_add demo_lag_env l c = (st, c') \<Longrightarrow> lag_mem demo_lag_env c' = lag_mem demo_lag_env c"
    "sai_lag_node_remove demo_lag_env l c = (st, c') \<Longrightarrow> lag_mem demo_lag_env c' = lag_mem demo_lag_env c"
    "lag_mem demo_lag_env (sai_lag_member_set_disable_status demo_lag_env l p i b c) = lag_mem demo_lag_env c"
    for l p i b c st c' by (auto simp: fun_eq_iff mem) (auto simp: demo_lag_env_def)
  ultimately show ?thesis unfolding lag_cache_ok_def by simp
qed

abbreviation demo_lag :: "u64 \<Rightarrow> oid" where "demo_lag n \<equiv> demo_oid SAI_OBJECT_TYPE_LAG n"

text \<open>LAGs 1, with the ports 7 and 8, and 2, empty.\<close>

fun lag_run :: "('c, 'h) lag_env \<Rightarrow> lag_api_call list \<Rightarrow> ('c, 'h) lag_state \<Rightarrow> ('c, 'h) lag_state" where
  "lag_run e [] s = s"
| "lag_run e (c # cs) s = lag_run e cs (snd (lag_exec e c s))"

lemma lag_run_reachable: "lag_reachable e s \<Longrightarrow> lag_reachable e (lag_run e cs s)"
  by (induction cs arbitrary: s) (auto intro: lag_step [OF _ surjective_pairing])

definition lag_zero :: "bool list \<Rightarrow> (demo_lags, lag_script) lag_state" where
  "lag_zero bs = \<lparr>sw = \<lparr>lag_callback_set = False, lag_cache = \<lparr>dl_lags = [], dl_nodes = [],
     dl_rif = demo_oid SAI_OBJECT_TYPE_ROUTER_INTERFACE 1\<rparr>\<rparr>, ext = (bs, 1)\<rparr>"

definition demo_lag_state :: "bool list \<Rightarrow> (demo_lags, lag_script) lag_state" where
  "demo_lag_state bs =
     (let s = lag_run demo_lag_env [LagCallback True, LagCreate [], LagCreate [], LagAddPorts (demo_lag 1) (oid_list_of [7, 8])]
                (snd (sai_lag_init demo_lag_env (lag_zero [])))
      in s\<lparr>ext := (bs, snd (ext s))\<rparr>)"

lemma demo_lag_reachable: "lag_reachable demo_lag_env (demo_lag_state [])"
proof -
  let ?s = "lag_run demo_lag_env [LagCallback True, LagCreate [], LagCreate [], LagAddPorts (demo_lag 1) (oid_list_of [7, 8])]
                (snd (sai_lag_init demo_lag_env (lag_zero [])))"
  have "lag_reachable demo_lag_env ?s" by (rule lag_run_reachable [OF lag_start [OF surjective_pairing]])
  moreover have "fst (ext ?s) = []" by code_simp
  then have "?s\<lparr>ext := ([], snd (ext ?s))\<rparr> = ?s" by (cases ?s) (simp add: prod_eq_iff)
  ultimately show ?thesis by (simp add: demo_lag_state_def Let_def)
qed

lemma demo_lag_single: "ports_single demo_lag_env (demo_lag_state bs)"
proof -
  have "sw (demo_lag_state bs) = sw (demo_lag_state [])" by (simp add: demo_lag_state_def Let_def)
  then show ?thesis using lag_reachable_single [OF demo_lag_cache_ok demo_lag_reachable] sw_cong(2) by metis
qed

section \<open>Properties\<close>

text \<open>
  C29: whatever calls are made and whatever fails, a port is a member of at most one LAG: neither adding
  ports, setting the list of ports of a LAG nor creating a member moves a port out of another LAG or
  lets it join a second one.
\<close>

theorem lag_port_in_one_lag:
  assumes "lag_cache_ok e" and "lag_reachable e s" and "members e s k p" and "members e s l p"
  shows "k = l"
  using lag_reachable_single [OF assms(1,2)] assms(3,4) unfolding ports_single_def by blast

theorem lag_port_in_one_lag_witness:
  "members demo_lag_env (demo_lag_state []) (demo_lag 1) 7 \<and> \<not> members demo_lag_env (demo_lag_state []) (demo_lag 2) 7"
proof -
  have "members demo_lag_env (demo_lag_state []) (demo_lag 1) 7" "demo_lag 1 \<noteq> demo_lag 2" by code_simp+
  with lag_port_in_one_lag [OF demo_lag_cache_ok demo_lag_reachable] show ?thesis by blast
qed

text \<open>
  C30: the membership of a LAG changes completely or not at all. When a member is created, on success the port, which was in no LAG, is
  in the LAG that the attributes name, which exists; on any failure, of the validation, the hardware, the
  cache, the flags or the L3 component, no LAG has changed its members.
\<close>

theorem lag_member_create_atomic:
  assumes "lag_cache_ok e" and "sai_l2_create_lag_member e attrs s = (st, out, s')"
  shows "if st = SAI_STATUS_SUCCESS
    then \<exists>l p. SAI_LAG_MEMBER_ATTR_LAG_ID l \<in> set attrs \<and> SAI_LAG_MEMBER_ATTR_PORT_ID p \<in> set attrs \<and>
      sai_is_lag_created e (lag_cache (sw s)) l \<and> (\<forall>k. \<not> members e s k p) \<and>
      members_set e l (\<lambda>q. members e s l q \<or> q = p) s s'
    else members e s' = members e s"
  by (rule create_lag_member_result [OF assms])

text \<open>At a member that the hardware accepts and the L3 component refuses.\<close>

theorem lag_member_create_atomic_witness:
  "let c = sai_l2_create_lag_member demo_lag_env [SAI_LAG_MEMBER_ATTR_LAG_ID (demo_lag 2), SAI_LAG_MEMBER_ATTR_PORT_ID 9]
             (demo_lag_state [False, True])
   in fst c = SAI_STATUS_FAILURE \<and> members demo_lag_env (snd (snd c)) = members demo_lag_env (demo_lag_state [])"
proof -
  let ?c = "sai_l2_create_lag_member demo_lag_env [SAI_LAG_MEMBER_ATTR_LAG_ID (demo_lag 2), SAI_LAG_MEMBER_ATTR_PORT_ID 9]
             (demo_lag_state [False, True])"
  obtain st out s' where c: "?c = (st, out, s')" by (metis surj_pair)
  have "fst ?c = SAI_STATUS_FAILURE" by code_simp
  moreover have "sw (demo_lag_state [False, True]) = sw (demo_lag_state [])" by (simp add: demo_lag_state_def Let_def)
  ultimately show ?thesis using lag_member_create_atomic [OF demo_lag_cache_ok c] c by (simp add: Let_def)
qed

text \<open>
  Setting the list of ports of a LAG succeeds only when the LAG then has exactly these ports, and
  it never changes another LAG. The answer of the L3 component does not count: the list stays set when
  L3 refuses it.
\<close>

theorem lag_list_set_final:
  assumes "lag_cache_ok e" and "ports_single e s"
    and "sai_l2_set_lag_attribute e l (SAI_LAG_ATTR_PORT_LIST xs) s = (st, s')"
  shows "ports_single e s' \<and> (\<forall>k. k \<noteq> l \<longrightarrow> members e s' k = members e s k) \<and>
    (st = SAI_STATUS_SUCCESS \<longrightarrow> members e s' l = (\<lambda>q. q \<in> set (sl_elems xs)))"
proof (cases "sai_is_lag_created e (lag_cache (sw s)) l")
  case True
  then have "lag_set_port_list e l xs s = (st, s')" using assms(3) by (simp add: sai_l2_set_lag_attribute_def)
  then show ?thesis by (rule lag_set_port_list_result [OF assms(1,2)])
next
  case False
  then show ?thesis using assms(2,3) by (auto simp: sai_l2_set_lag_attribute_def)
qed

text \<open>L3 refuses that the ports 7 and 8 leave, which the hardware has done, and the status is SUCCESS.\<close>

theorem lag_list_set_final_witness:
  "let c = sai_l2_set_lag_attribute demo_lag_env (demo_lag 1) (SAI_LAG_ATTR_PORT_LIST (oid_list_of [9]))
             (demo_lag_state [False, False, True])
   in fst c = SAI_STATUS_SUCCESS \<and> members demo_lag_env (snd c) (demo_lag 1) = (\<lambda>q. q = 9)"
proof -
  let ?c = "sai_l2_set_lag_attribute demo_lag_env (demo_lag 1) (SAI_LAG_ATTR_PORT_LIST (oid_list_of [9]))
             (demo_lag_state [False, False, True])"
  have "fst ?c = SAI_STATUS_SUCCESS" by code_simp
  moreover have "sl_elems (oid_list_of [9]) = [9]" by (simp add: sl_elems_def oid_list_of_def)
  ultimately show ?thesis
    using lag_list_set_final [OF demo_lag_cache_ok demo_lag_single surjective_pairing,
        of "demo_lag 1" "oid_list_of [9]" "[False, False, True]"]
    by (simp add: Let_def)
qed

end
