(* ===== verification/Fdb_Api.thy ===== *)
theory Fdb_Api
  imports Sai_Lib
begin

text \<open>
  The forwarding database (\<^verbatim>\<open>src/src/switching/sai_fdb.c\<close>): the operations of the API and the handler of
  the events of the hardware. The cache of entries belongs to another repository: its state has the type
  \<open>'c\<close>, its nodes, which the code reads and writes through pointers, have the type \<open>'n\<close> and addresses.
\<close>

section \<open>State\<close>

type_synonym mac_addr = "u8 list"

type_synonym vlan_no = u16

record fdb_entry =
  fe_mac_address :: mac_addr
  fe_vlan_id :: vlan_no

datatype fdb_entry_type = SAI_FDB_ENTRY_DYNAMIC | SAI_FDB_ENTRY_STATIC | FDB_ENTRY_TYPE_OTHER int

datatype fdb_action = FDB_ACTION_ZERO | FDB_ACTION int

datatype fdb_attr =
    SAI_FDB_ENTRY_ATTR_PORT_ID oid
  | SAI_FDB_ENTRY_ATTR_TYPE fdb_entry_type
  | SAI_FDB_ENTRY_ATTR_PACKET_ACTION fdb_action
  | SAI_FDB_ENTRY_ATTR_META_DATA u32
  | FDB_ENTRY_ATTR_UNKNOWN int

datatype fdb_flush_type = SAI_FDB_FLUSH_ENTRY_DYNAMIC | SAI_FDB_FLUSH_ENTRY_STATIC | FDB_FLUSH_TYPE_OTHER int

datatype fdb_flush_attr =
    SAI_FDB_FLUSH_ATTR_PORT_ID oid
  | SAI_FDB_FLUSH_ATTR_VLAN_ID vlan_no
  | SAI_FDB_FLUSH_ATTR_ENTRY_TYPE fdb_flush_type
  | FDB_FLUSH_ATTR_UNKNOWN int

datatype fdb_event_type = SAI_FDB_EVENT_LEARNED | SAI_FDB_EVENT_AGED | SAI_FDB_EVENT_FLUSHED | FDB_EVENT_OTHER int

record fdb_event =
  ev_event_type :: fdb_event_type
  ev_fdb_entry :: fdb_entry
  ev_attr :: "fdb_attr list"

text \<open>An attribute of the switch that this component only hands on: its id and its value.\<close>

datatype fdb_switch_attr = FDB_SWITCH_ATTR int int

record 'c fdb_db =
  sai_l2_fdb_notification_fn :: bool
  fdb_cache :: 'c

type_synonym ('c, 'h) fdb_state = "('c fdb_db, 'h) comp"

text \<open>
  \<open>fdb_pipe_write\<close> wakes the thread of the internal notifications; \<open>fdb_notify\<close> is the callback of the
  client. The entry types and actions of an event that no attribute names are zero, \<open>fdb_type_zero\<close>.
\<close>

record ('c, 'n, 'h) fdb_env =
  flib :: "'h sai_lib"
  sai_init_fdb_tree :: "'c \<Rightarrow> sai_status \<times> 'c"
  fdb_node_addr :: "'c \<Rightarrow> fdb_entry \<Rightarrow> addr option"
  fdb_node_read :: "'c \<Rightarrow> addr \<Rightarrow> 'n"
  fdb_node_write :: "addr \<Rightarrow> 'n \<Rightarrow> 'c \<Rightarrow> 'c"
  sai_update_fdb_entry_node :: "addr \<Rightarrow> fdb_attr \<Rightarrow> 'c \<Rightarrow> 'c"
  sai_add_fdb_entry_node_in_global_tree :: "'n \<Rightarrow> 'c \<Rightarrow> addr option \<times> 'c"
  sai_insert_fdb_entry_node :: "fdb_entry \<Rightarrow> oid \<Rightarrow> fdb_entry_type \<Rightarrow> fdb_action \<Rightarrow> u32 \<Rightarrow> 'c \<Rightarrow> 'c"
  sai_delete_fdb_entry_node :: "fdb_entry \<Rightarrow> 'c \<Rightarrow> 'c"
  sai_delete_all_fdb_entry_nodes :: "bool \<Rightarrow> fdb_flush_type \<Rightarrow> 'c \<Rightarrow> 'c"
  sai_delete_fdb_entry_nodes_per_port :: "oid \<Rightarrow> bool \<Rightarrow> fdb_flush_type \<Rightarrow> 'c \<Rightarrow> 'c"
  sai_delete_fdb_entry_nodes_per_vlan :: "vlan_no \<Rightarrow> bool \<Rightarrow> fdb_flush_type \<Rightarrow> 'c \<Rightarrow> 'c"
  sai_delete_fdb_entry_nodes_per_port_vlan :: "oid \<Rightarrow> vlan_no \<Rightarrow> bool \<Rightarrow> fdb_flush_type \<Rightarrow> 'c \<Rightarrow> 'c"
  sai_fdb_is_notifications_pending :: "'c \<Rightarrow> bool"
  sai_fdb_send_internal_notifications :: "'c \<Rightarrow> 'h \<Rightarrow> 'c \<times> 'h"
  sai_fdb_write_registered_entry_into_cache :: "fdb_entry \<Rightarrow> 'c \<Rightarrow> sai_status \<times> 'c"
  sai_fdb_remove_registered_entry_from_cache :: "fdb_entry \<Rightarrow> 'c \<Rightarrow> sai_status \<times> 'c"
  sai_fdb_internal_callback_cache_update :: "bool \<Rightarrow> 'c \<Rightarrow> 'c"
  node_port_id :: "'n \<Rightarrow> oid"
  node_entry_type :: "'n \<Rightarrow> fdb_entry_type"
  node_action :: "'n \<Rightarrow> fdb_action"
  node_metadata :: "'n \<Rightarrow> u32"
  sai_is_valid_fdb_attribute_val :: "fdb_attr \<Rightarrow> 'h \<Rightarrow> sai_status"
  sai_is_valid_vlan_id :: "vlan_no \<Rightarrow> bool"
  fdb_lag_created :: "oid \<Rightarrow> 'h \<Rightarrow> bool"
  fdb_port_valid :: "oid \<Rightarrow> 'h \<Rightarrow> bool"
  VLAN_UNDEF :: vlan_no
  fdb_type_zero :: fdb_entry_type
  npu_fdb_init :: "'h \<Rightarrow> sai_status \<times> 'h"
  npu_flush_all_fdb_entries :: "oid \<Rightarrow> vlan_no \<Rightarrow> bool \<Rightarrow> fdb_flush_type \<Rightarrow> 'h \<Rightarrow> sai_status \<times> 'h"
  npu_flush_fdb_entry :: "fdb_entry \<Rightarrow> 'h \<Rightarrow> sai_status \<times> 'h"
  npu_create_fdb_entry :: "fdb_entry \<Rightarrow> oid \<Rightarrow> fdb_entry_type \<Rightarrow> fdb_action \<Rightarrow> u32 \<Rightarrow> 'h \<Rightarrow> sai_status \<times> 'h"
  npu_get_fdb_entry_from_hardware :: "fdb_entry \<Rightarrow> 'h \<Rightarrow> (sai_status \<times> 'n) \<times> 'h"
  npu_write_fdb_entry_to_hardware :: "'n \<Rightarrow> 'h \<Rightarrow> sai_status \<times> 'h"
  npu_fdb_register_callback :: "'h \<Rightarrow> sai_status \<times> 'h"
  npu_set_aging_time :: "u32 \<Rightarrow> 'h \<Rightarrow> sai_status \<times> 'h"
  npu_get_aging_time :: "'h \<Rightarrow> (sai_status \<times> u32) \<times> 'h"
  npu_set_switch_max_learned_address :: "u32 \<Rightarrow> 'h \<Rightarrow> sai_status \<times> 'h"
  npu_get_switch_max_learned_address :: "'h \<Rightarrow> (sai_status \<times> u32) \<times> 'h"
  npu_fdb_ucast_miss_action_set :: "fdb_switch_attr \<Rightarrow> 'h \<Rightarrow> sai_status \<times> 'h"
  npu_fdb_ucast_miss_action_get :: "fdb_switch_attr \<Rightarrow> 'h \<Rightarrow> (sai_status \<times> fdb_switch_attr) \<times> 'h"
  npu_fdb_mcast_miss_action_set :: "fdb_switch_attr \<Rightarrow> 'h \<Rightarrow> sai_status \<times> 'h"
  npu_fdb_mcast_miss_action_get :: "fdb_switch_attr \<Rightarrow> 'h \<Rightarrow> (sai_status \<times> fdb_switch_attr) \<times> 'h"
  npu_fdb_bcast_miss_action_set :: "fdb_switch_attr \<Rightarrow> 'h \<Rightarrow> sai_status \<times> 'h"
  npu_fdb_bcast_miss_action_get :: "fdb_switch_attr \<Rightarrow> 'h \<Rightarrow> (sai_status \<times> fdb_switch_attr) \<times> 'h"
  npu_mcast_cpu_flood_enable_set :: "bool \<Rightarrow> 'h \<Rightarrow> sai_status \<times> 'h"
  npu_mcast_cpu_flood_enable_get :: "'h \<Rightarrow> (sai_status \<times> bool) \<times> 'h"
  npu_bcast_cpu_flood_enable_set :: "bool \<Rightarrow> 'h \<Rightarrow> sai_status \<times> 'h"
  npu_bcast_cpu_flood_enable_get :: "'h \<Rightarrow> (sai_status \<times> bool) \<times> 'h"
  npu_get_fdb_table_size :: "fdb_switch_attr \<Rightarrow> 'h \<Rightarrow> (sai_status \<times> fdb_switch_attr) \<times> 'h"
  fdb_pipe_ok :: "'h \<Rightarrow> bool \<times> 'h"
  fdb_thread_create_ok :: "'h \<Rightarrow> bool \<times> 'h"
  fdb_pipe_write :: "'h \<Rightarrow> 'h"
  fdb_notify :: "fdb_event list \<Rightarrow> 'h \<Rightarrow> 'h"

definition upd_fdb :: "('c \<Rightarrow> 'c) \<Rightarrow> ('c, 'h) fdb_state \<Rightarrow> ('c, 'h) fdb_state" where
  "upd_fdb f s = upd_sw (\<lambda>d. d\<lparr>fdb_cache := f (fdb_cache d)\<rparr>) s"

definition fdb_call :: "('c \<Rightarrow> 'a \<times> 'c) \<Rightarrow> ('c, 'h) fdb_state \<Rightarrow> 'a \<times> ('c, 'h) fdb_state" where
  "fdb_call f s = (let (r, c) = f (fdb_cache (sw s)) in (r, upd_fdb (\<lambda>_. c) s))"

section \<open>Initialisation and internal notifications\<close>

text \<open>One round of the loop of the notification thread, after a byte was read from the pipe.\<close>

definition sai_fdb_internal_notif :: "('c, 'n, 'h) fdb_env \<Rightarrow> bool \<Rightarrow> ('c, 'h) fdb_state \<Rightarrow> ('c, 'h) fdb_state" where
  "sai_fdb_internal_notif e wake s =
     (if wake then let (c, h) = sai_fdb_send_internal_notifications e (fdb_cache (sw s)) (ext s)
                   in (upd_fdb (\<lambda>_. c) s)\<lparr>ext := h\<rparr>
      else s)"

definition sai_fdb_wake_notification_thread :: "('c, 'n, 'h) fdb_env \<Rightarrow> ('c, 'h) fdb_state \<Rightarrow> ('c, 'h) fdb_state" where
  "sai_fdb_wake_notification_thread e s =
     (if sai_fdb_is_notifications_pending e (fdb_cache (sw s)) then s\<lparr>ext := fdb_pipe_write e (ext s)\<rparr> else s)"

definition sai_fdb_init :: "('c, 'n, 'h) fdb_env \<Rightarrow> ('c, 'h) fdb_state \<Rightarrow> sai_status \<times> ('c, 'h) fdb_state" where
  "sai_fdb_init e s =
     (let (ret_val, s) = ext_call (npu_fdb_init e) s
      in if ret_val \<noteq> SAI_STATUS_SUCCESS then (ret_val, s)
         else let (ret_val, s) = fdb_call (sai_init_fdb_tree e) s
              in if ret_val \<noteq> SAI_STATUS_SUCCESS then (ret_val, s)
                 else let (ok, s) = ext_call (fdb_pipe_ok e) s
                      in if \<not> ok then (SAI_STATUS_FAILURE, s)
                         else let (ok, s) = ext_call (fdb_thread_create_ok e) s
                              in (if \<not> ok then SAI_STATUS_FAILURE else SAI_STATUS_SUCCESS, s))"

section \<open>Flush\<close>

record flush_args =
  fl_port_id :: oid
  fl_vlan_id :: vlan_no
  fl_type :: fdb_flush_type
  fl_delete_all :: bool

text \<open>The index of an unknown attribute is added to the status, by the parameter \<open>lib_indexed_ret_val\<close>.\<close>

fun flush_attrs_loop ::
    "('c, 'n, 'h) fdb_env \<Rightarrow> nat \<Rightarrow> fdb_flush_attr list \<Rightarrow> flush_args \<Rightarrow> sai_status + flush_args" where
  "flush_attrs_loop e idx [] a = Inr a"
| "flush_attrs_loop e idx (attr # attrs) a =
     (case attr of
        SAI_FDB_FLUSH_ATTR_PORT_ID p \<Rightarrow> flush_attrs_loop e (idx + 1) attrs (a\<lparr>fl_port_id := p\<rparr>)
      | SAI_FDB_FLUSH_ATTR_VLAN_ID v \<Rightarrow> flush_attrs_loop e (idx + 1) attrs (a\<lparr>fl_vlan_id := v\<rparr>)
      | SAI_FDB_FLUSH_ATTR_ENTRY_TYPE t \<Rightarrow>
          flush_attrs_loop e (idx + 1) attrs (a\<lparr>fl_type := t, fl_delete_all := False\<rparr>)
      | FDB_FLUSH_ATTR_UNKNOWN _ \<Rightarrow> Inl (lib_indexed_ret_val (flib e) SAI_STATUS_UNKNOWN_ATTRIBUTE_0 idx))"

definition flush_args_check :: "('c, 'n, 'h) fdb_env \<Rightarrow> flush_args \<Rightarrow> 'h \<Rightarrow> sai_status" where
  "flush_args_check e a h =
     (let ty = lib_object_type (flib e) (fl_port_id a)
      in if fl_port_id a \<noteq> 0 \<and> ty = SAI_OBJECT_TYPE_LAG \<and> \<not> fdb_lag_created e (fl_port_id a) h
         then SAI_STATUS_INVALID_OBJECT_ID
         else if fl_port_id a \<noteq> 0 \<and> ty = SAI_OBJECT_TYPE_PORT \<and> \<not> fdb_port_valid e (fl_port_id a) h
         then SAI_STATUS_INVALID_OBJECT_ID
         else if fl_port_id a \<noteq> 0 \<and> ty \<noteq> SAI_OBJECT_TYPE_LAG \<and> ty \<noteq> SAI_OBJECT_TYPE_PORT
         then SAI_STATUS_INVALID_OBJECT_TYPE
         else if fl_vlan_id a \<noteq> VLAN_UNDEF e \<and> \<not> sai_is_valid_vlan_id e (fl_vlan_id a)
         then SAI_STATUS_INVALID_VLAN_ID
         else case fl_type a of FDB_FLUSH_TYPE_OTHER _ \<Rightarrow> SAI_STATUS_INVALID_PARAMETER | _ \<Rightarrow> SAI_STATUS_SUCCESS)"

definition flush_args_init :: "('c, 'n, 'h) fdb_env \<Rightarrow> flush_args" where
  "flush_args_init e =
     \<lparr>fl_port_id = 0, fl_vlan_id = VLAN_UNDEF e, fl_type = SAI_FDB_FLUSH_ENTRY_DYNAMIC, fl_delete_all = True\<rparr>"

definition flush_cache :: "('c, 'n, 'h) fdb_env \<Rightarrow> flush_args \<Rightarrow> 'c \<Rightarrow> 'c" where
  "flush_cache e a =
     (let p = fl_port_id a; v = fl_vlan_id a
      in if p = 0 \<and> v = VLAN_UNDEF e then sai_delete_all_fdb_entry_nodes e (fl_delete_all a) (fl_type a)
         else if p \<noteq> 0 \<and> v = VLAN_UNDEF e then sai_delete_fdb_entry_nodes_per_port e p (fl_delete_all a) (fl_type a)
         else if p = 0 \<and> v \<noteq> VLAN_UNDEF e then sai_delete_fdb_entry_nodes_per_vlan e v (fl_delete_all a) (fl_type a)
         else sai_delete_fdb_entry_nodes_per_port_vlan e p v (fl_delete_all a) (fl_type a))"

definition sai_l2_flush_fdb_entry ::
    "('c, 'n, 'h) fdb_env \<Rightarrow> fdb_flush_attr list \<Rightarrow> ('c, 'h) fdb_state \<Rightarrow> sai_status \<times> ('c, 'h) fdb_state" where
  "sai_l2_flush_fdb_entry e attrs s =
     (case flush_attrs_loop e 0 attrs (flush_args_init e) of
        Inl st \<Rightarrow> (st, s)
      | Inr a \<Rightarrow>
          (let st = flush_args_check e a (ext s)
           in if st \<noteq> SAI_STATUS_SUCCESS then (st, s)
              else let (ret_val, s) =
                         ext_call (npu_flush_all_fdb_entries e (fl_port_id a) (fl_vlan_id a) (fl_delete_all a) (fl_type a)) s
                   in if ret_val \<noteq> SAI_STATUS_SUCCESS then (ret_val, s)
                      else (ret_val, sai_fdb_wake_notification_thread e (upd_fdb (flush_cache e a) s))))"

section \<open>Entries\<close>

definition sai_l2_remove_fdb_entry ::
    "('c, 'n, 'h) fdb_env \<Rightarrow> fdb_entry \<Rightarrow> ('c, 'h) fdb_state \<Rightarrow> sai_status \<times> ('c, 'h) fdb_state" where
  "sai_l2_remove_fdb_entry e x s =
     (if \<not> sai_is_valid_vlan_id e (fe_vlan_id x) then (SAI_STATUS_INVALID_VLAN_ID, s)
      else let (ret_val, s) = ext_call (npu_flush_fdb_entry e x) s;
               s = (if ret_val = SAI_STATUS_SUCCESS then upd_fdb (sai_delete_fdb_entry_node e x) s else s)
           in (ret_val, sai_fdb_wake_notification_thread e s))"

record fdb_attrs =
  fa_port :: "oid option"
  fa_type :: "fdb_entry_type option"
  fa_action :: "fdb_action option"
  fa_metadata :: u32

fun fdb_attr_store :: "fdb_attr \<Rightarrow> fdb_attrs \<Rightarrow> fdb_attrs" where
  "fdb_attr_store (SAI_FDB_ENTRY_ATTR_PORT_ID p) a = a\<lparr>fa_port := Some p\<rparr>"
| "fdb_attr_store (SAI_FDB_ENTRY_ATTR_TYPE t) a = a\<lparr>fa_type := Some t\<rparr>"
| "fdb_attr_store (SAI_FDB_ENTRY_ATTR_PACKET_ACTION x) a = a\<lparr>fa_action := Some x\<rparr>"
| "fdb_attr_store (SAI_FDB_ENTRY_ATTR_META_DATA m) a = a\<lparr>fa_metadata := m\<rparr>"
| "fdb_attr_store (FDB_ENTRY_ATTR_UNKNOWN _) a = a"

fun create_attrs_loop ::
    "('c, 'n, 'h) fdb_env \<Rightarrow> 'h \<Rightarrow> nat \<Rightarrow> fdb_attr list \<Rightarrow> fdb_attrs \<Rightarrow> sai_status + fdb_attrs" where
  "create_attrs_loop e h idx [] a = Inr a"
| "create_attrs_loop e h idx (attr # attrs) a =
     (let ret_val = sai_is_valid_fdb_attribute_val e attr h
      in if ret_val \<noteq> SAI_STATUS_SUCCESS then Inl (lib_indexed_ret_val (flib e) ret_val idx)
         else create_attrs_loop e h (idx + 1) attrs (fdb_attr_store attr a))"

definition sai_l2_create_fdb_entry ::
    "('c, 'n, 'h) fdb_env \<Rightarrow> fdb_entry \<Rightarrow> fdb_attr list \<Rightarrow> ('c, 'h) fdb_state \<Rightarrow> sai_status \<times> ('c, 'h) fdb_state" where
  "sai_l2_create_fdb_entry e x attrs s =
     (if attrs = [] then (SAI_STATUS_INVALID_PARAMETER, s)
      else if \<not> sai_is_valid_vlan_id e (fe_vlan_id x) then (SAI_STATUS_INVALID_VLAN_ID, s)
      else case create_attrs_loop e (ext s) 0 attrs \<lparr>fa_port = None, fa_type = None, fa_action = None, fa_metadata = 0\<rparr> of
             Inl st \<Rightarrow> (st, s)
           | Inr a \<Rightarrow>
               (case (fa_port a, fa_type a, fa_action a) of
                  (Some port_id, Some entry_type, Some act) \<Rightarrow>
                    (let (ret_val, s) = ext_call (npu_create_fdb_entry e x port_id entry_type act (fa_metadata a)) s;
                         s = (if ret_val = SAI_STATUS_SUCCESS
                              then upd_fdb (sai_insert_fdb_entry_node e x port_id entry_type act (fa_metadata a)) s else s)
                     in (ret_val, sai_fdb_wake_notification_thread e s))
                | _ \<Rightarrow> (SAI_STATUS_MANDATORY_ATTRIBUTE_MISSING, s)))"

definition sai_fdb_populate_node_from_hardware ::
    "('c, 'n, 'h) fdb_env \<Rightarrow> fdb_entry \<Rightarrow> ('c, 'h) fdb_state \<Rightarrow> addr option \<times> ('c, 'h) fdb_state" where
  "sai_fdb_populate_node_from_hardware e x s =
     (let (ok, s) = ext_call (lib_calloc_ok (flib e)) s
      in if \<not> ok then (None, s)
         else let ((st, n), s) = ext_call (npu_get_fdb_entry_from_hardware e x) s
              in if st \<noteq> SAI_STATUS_SUCCESS then (None, s)
                 else fdb_call (sai_add_fdb_entry_node_in_global_tree e n) s)"

text \<open>The node of an entry, read from the hardware when the cache has none.\<close>

definition fdb_node_lookup :: "('c, 'n, 'h) fdb_env \<Rightarrow> fdb_entry \<Rightarrow> ('c, 'h) fdb_state \<Rightarrow> addr option \<times> ('c, 'h) fdb_state" where
  "fdb_node_lookup e x s =
     (case fdb_node_addr e (fdb_cache (sw s)) x of
        Some a \<Rightarrow> (Some a, s)
      | None \<Rightarrow> sai_fdb_populate_node_from_hardware e x s)"

definition sai_l2_set_fdb_entry_attribute ::
    "('c, 'n, 'h) fdb_env \<Rightarrow> fdb_entry \<Rightarrow> fdb_attr \<Rightarrow> ('c, 'h) fdb_state \<Rightarrow> sai_status \<times> ('c, 'h) fdb_state" where
  "sai_l2_set_fdb_entry_attribute e x attr s =
     (if \<not> sai_is_valid_vlan_id e (fe_vlan_id x) then (SAI_STATUS_INVALID_VLAN_ID, s)
      else let ret_val = sai_is_valid_fdb_attribute_val e attr (ext s)
           in if ret_val \<noteq> SAI_STATUS_SUCCESS then (ret_val, s)
              else let (node, s) = fdb_node_lookup e x s
                   in case node of
                        None \<Rightarrow> (SAI_STATUS_ADDR_NOT_FOUND, s)
                      | Some a \<Rightarrow>
                          (let temp_node = fdb_node_read e (fdb_cache (sw s)) a;
                               s = upd_fdb (sai_update_fdb_entry_node e a attr) s;
                               (ret_val, s) = ext_call (npu_write_fdb_entry_to_hardware e (fdb_node_read e (fdb_cache (sw s)) a)) s;
                               s = (if ret_val \<noteq> SAI_STATUS_SUCCESS then upd_fdb (fdb_node_write e a temp_node) s else s)
                           in (ret_val, sai_fdb_wake_notification_thread e s)))"

fun fdb_known_attr :: "fdb_attr \<Rightarrow> bool" where
  "fdb_known_attr (FDB_ENTRY_ATTR_UNKNOWN _) = False"
| "fdb_known_attr _ = True"

fun get_attrs_check :: "('c, 'n, 'h) fdb_env \<Rightarrow> nat \<Rightarrow> fdb_attr list \<Rightarrow> sai_status" where
  "get_attrs_check e idx [] = SAI_STATUS_SUCCESS"
| "get_attrs_check e idx (attr # attrs) =
     (if fdb_known_attr attr then get_attrs_check e (idx + 1) attrs
      else lib_indexed_ret_val (flib e) SAI_STATUS_UNKNOWN_ATTRIBUTE_0 idx)"

fun fdb_attr_fill :: "('c, 'n, 'h) fdb_env \<Rightarrow> 'n \<Rightarrow> fdb_attr \<Rightarrow> fdb_attr" where
  "fdb_attr_fill e n (SAI_FDB_ENTRY_ATTR_PORT_ID _) = SAI_FDB_ENTRY_ATTR_PORT_ID (node_port_id e n)"
| "fdb_attr_fill e n (SAI_FDB_ENTRY_ATTR_TYPE _) = SAI_FDB_ENTRY_ATTR_TYPE (node_entry_type e n)"
| "fdb_attr_fill e n (SAI_FDB_ENTRY_ATTR_PACKET_ACTION _) = SAI_FDB_ENTRY_ATTR_PACKET_ACTION (node_action e n)"
| "fdb_attr_fill e n (SAI_FDB_ENTRY_ATTR_META_DATA _) = SAI_FDB_ENTRY_ATTR_META_DATA (node_metadata e n)"
| "fdb_attr_fill e n (FDB_ENTRY_ATTR_UNKNOWN i) = FDB_ENTRY_ATTR_UNKNOWN i"

definition sai_l2_get_fdb_entry_attribute ::
    "('c, 'n, 'h) fdb_env \<Rightarrow> fdb_entry \<Rightarrow> fdb_attr list \<Rightarrow> ('c, 'h) fdb_state
     \<Rightarrow> sai_status \<times> fdb_attr list \<times> ('c, 'h) fdb_state" where
  "sai_l2_get_fdb_entry_attribute e x attrs s =
     (if attrs = [] then (SAI_STATUS_INVALID_PARAMETER, attrs, s)
      else if \<not> sai_is_valid_vlan_id e (fe_vlan_id x) then (SAI_STATUS_INVALID_VLAN_ID, attrs, s)
      else let st = get_attrs_check e 0 attrs
           in if st \<noteq> SAI_STATUS_SUCCESS then (st, attrs, s)
              else let (node, s) = fdb_node_lookup e x s
                   in case node of
                        None \<Rightarrow> (SAI_STATUS_ADDR_NOT_FOUND, attrs, s)
                      | Some a \<Rightarrow>
                          (SAI_STATUS_SUCCESS, map (fdb_attr_fill e (fdb_node_read e (fdb_cache (sw s)) a)) attrs, s))"

section \<open>Events of the hardware\<close>

text \<open>The variables of the handler, which live for the whole batch.\<close>

record event_vars =
  var_port_id :: oid
  var_entry_type :: fdb_entry_type
  var_action :: fdb_action
  var_metadata :: u32

fun event_attr_store :: "fdb_attr \<Rightarrow> event_vars \<Rightarrow> event_vars" where
  "event_attr_store (SAI_FDB_ENTRY_ATTR_PORT_ID p) w = w\<lparr>var_port_id := p\<rparr>"
| "event_attr_store (SAI_FDB_ENTRY_ATTR_TYPE t) w = w\<lparr>var_entry_type := t\<rparr>"
| "event_attr_store (SAI_FDB_ENTRY_ATTR_PACKET_ACTION x) w = w\<lparr>var_action := x\<rparr>"
| "event_attr_store (SAI_FDB_ENTRY_ATTR_META_DATA m) w = w\<lparr>var_metadata := m\<rparr>"
| "event_attr_store (FDB_ENTRY_ATTR_UNKNOWN _) w = w"

definition event_apply :: "('c, 'n, 'h) fdb_env \<Rightarrow> fdb_event \<Rightarrow> event_vars \<Rightarrow> 'c \<Rightarrow> 'c" where
  "event_apply e ev w c =
     (case ev_event_type ev of
        SAI_FDB_EVENT_LEARNED \<Rightarrow>
          sai_insert_fdb_entry_node e (ev_fdb_entry ev) (var_port_id w) (var_entry_type w) (var_action w) (var_metadata w) c
      | FDB_EVENT_OTHER _ \<Rightarrow> c
      | _ \<Rightarrow> if fdb_node_addr e c (ev_fdb_entry ev) \<noteq> None then sai_delete_fdb_entry_node e (ev_fdb_entry ev) c else c)"

fun event_loop :: "('c, 'n, 'h) fdb_env \<Rightarrow> fdb_event list \<Rightarrow> event_vars \<Rightarrow> 'c \<Rightarrow> 'c" where
  "event_loop e [] w c = c"
| "event_loop e (ev # evs) w c =
     (let w = fold event_attr_store (ev_attr ev) w in event_loop e evs w (event_apply e ev w c))"

definition event_vars_init :: "('c, 'n, 'h) fdb_env \<Rightarrow> event_vars" where
  "event_vars_init e = \<lparr>var_port_id = 0, var_entry_type = fdb_type_zero e, var_action = FDB_ACTION_ZERO, var_metadata = 0\<rparr>"

definition sai_common_fdb_event_notification ::
    "('c, 'n, 'h) fdb_env \<Rightarrow> fdb_event list \<Rightarrow> ('c, 'h) fdb_state \<Rightarrow> ('c, 'h) fdb_state" where
  "sai_common_fdb_event_notification e evs s =
     (if evs = [] then s
      else let s = sai_fdb_wake_notification_thread e (upd_fdb (event_loop e evs (event_vars_init e)) s)
           in if sai_l2_fdb_notification_fn (sw s) then s\<lparr>ext := fdb_notify e evs (ext s)\<rparr> else s)"

section \<open>Callbacks and registered entries\<close>

definition sai_l2_fdb_register_callback ::
    "('c, 'n, 'h) fdb_env \<Rightarrow> bool \<Rightarrow> ('c, 'h) fdb_state \<Rightarrow> sai_status \<times> ('c, 'h) fdb_state" where
  "sai_l2_fdb_register_callback e present s =
     (let (ret_val, s) = ext_call (npu_fdb_register_callback e) s
      in (ret_val, if ret_val = SAI_STATUS_SUCCESS
                   then upd_sw (\<lambda>d. d\<lparr>sai_l2_fdb_notification_fn := present\<rparr>) s else s))"

definition sai_l2_register_fdb_entry ::
    "('c, 'n, 'h) fdb_env \<Rightarrow> fdb_entry \<Rightarrow> ('c, 'h) fdb_state \<Rightarrow> sai_status \<times> ('c, 'h) fdb_state" where
  "sai_l2_register_fdb_entry e x s = fdb_call (sai_fdb_write_registered_entry_into_cache e x) s"

definition sai_l2_deregister_fdb_entry ::
    "('c, 'n, 'h) fdb_env \<Rightarrow> fdb_entry \<Rightarrow> ('c, 'h) fdb_state \<Rightarrow> sai_status \<times> ('c, 'h) fdb_state" where
  "sai_l2_deregister_fdb_entry e x s = fdb_call (sai_fdb_remove_registered_entry_from_cache e x) s"

definition sai_l2_fdb_register_internal_callback ::
    "('c, 'n, 'h) fdb_env \<Rightarrow> bool \<Rightarrow> ('c, 'h) fdb_state \<Rightarrow> ('c, 'h) fdb_state" where
  "sai_l2_fdb_register_internal_callback e present s = upd_fdb (sai_fdb_internal_callback_cache_update e present) s"

section \<open>Calls that only reach the hardware layer\<close>

definition sai_l2_fdb_set_aging_time :: "('c, 'n, 'h) fdb_env \<Rightarrow> u32 \<Rightarrow> ('c, 'h) fdb_state \<Rightarrow> sai_status \<times> ('c, 'h) fdb_state" where
  "sai_l2_fdb_set_aging_time e x s = ext_call (npu_set_aging_time e x) s"

definition sai_l2_fdb_get_aging_time :: "('c, 'n, 'h) fdb_env \<Rightarrow> ('c, 'h) fdb_state \<Rightarrow> (sai_status \<times> u32) \<times> ('c, 'h) fdb_state" where
  "sai_l2_fdb_get_aging_time e s = ext_call (npu_get_aging_time e) s"

definition sai_l2_fdb_set_switch_max_learned_address :: "('c, 'n, 'h) fdb_env \<Rightarrow> u32 \<Rightarrow> ('c, 'h) fdb_state \<Rightarrow> sai_status \<times> ('c, 'h) fdb_state" where
  "sai_l2_fdb_set_switch_max_learned_address e x s = ext_call (npu_set_switch_max_learned_address e x) s"

definition sai_l2_fdb_get_switch_max_learned_address :: "('c, 'n, 'h) fdb_env \<Rightarrow> ('c, 'h) fdb_state \<Rightarrow> (sai_status \<times> u32) \<times> ('c, 'h) fdb_state" where
  "sai_l2_fdb_get_switch_max_learned_address e s = ext_call (npu_get_switch_max_learned_address e) s"

definition sai_l2_fdb_ucast_miss_action_set :: "('c, 'n, 'h) fdb_env \<Rightarrow> fdb_switch_attr \<Rightarrow> ('c, 'h) fdb_state \<Rightarrow> sai_status \<times> ('c, 'h) fdb_state" where
  "sai_l2_fdb_ucast_miss_action_set e x s = ext_call (npu_fdb_ucast_miss_action_set e x) s"

definition sai_l2_fdb_ucast_miss_action_get :: "('c, 'n, 'h) fdb_env \<Rightarrow> fdb_switch_attr \<Rightarrow> ('c, 'h) fdb_state \<Rightarrow> (sai_status \<times> fdb_switch_attr) \<times> ('c, 'h) fdb_state" where
  "sai_l2_fdb_ucast_miss_action_get e x s = ext_call (npu_fdb_ucast_miss_action_get e x) s"

definition sai_l2_fdb_mcast_miss_action_set :: "('c, 'n, 'h) fdb_env \<Rightarrow> fdb_switch_attr \<Rightarrow> ('c, 'h) fdb_state \<Rightarrow> sai_status \<times> ('c, 'h) fdb_state" where
  "sai_l2_fdb_mcast_miss_action_set e x s = ext_call (npu_fdb_mcast_miss_action_set e x) s"

definition sai_l2_fdb_mcast_miss_action_get :: "('c, 'n, 'h) fdb_env \<Rightarrow> fdb_switch_attr \<Rightarrow> ('c, 'h) fdb_state \<Rightarrow> (sai_status \<times> fdb_switch_attr) \<times> ('c, 'h) fdb_state" where
  "sai_l2_fdb_mcast_miss_action_get e x s = ext_call (npu_fdb_mcast_miss_action_get e x) s"

definition sai_l2_fdb_bcast_miss_action_set :: "('c, 'n, 'h) fdb_env \<Rightarrow> fdb_switch_attr \<Rightarrow> ('c, 'h) fdb_state \<Rightarrow> sai_status \<times> ('c, 'h) fdb_state" where
  "sai_l2_fdb_bcast_miss_action_set e x s = ext_call (npu_fdb_bcast_miss_action_set e x) s"

definition sai_l2_fdb_bcast_miss_action_get :: "('c, 'n, 'h) fdb_env \<Rightarrow> fdb_switch_attr \<Rightarrow> ('c, 'h) fdb_state \<Rightarrow> (sai_status \<times> fdb_switch_attr) \<times> ('c, 'h) fdb_state" where
  "sai_l2_fdb_bcast_miss_action_get e x s = ext_call (npu_fdb_bcast_miss_action_get e x) s"

definition sai_l2_mcast_cpu_flood_enable_set :: "('c, 'n, 'h) fdb_env \<Rightarrow> bool \<Rightarrow> ('c, 'h) fdb_state \<Rightarrow> sai_status \<times> ('c, 'h) fdb_state" where
  "sai_l2_mcast_cpu_flood_enable_set e x s = ext_call (npu_mcast_cpu_flood_enable_set e x) s"

definition sai_l2_mcast_cpu_flood_enable_get :: "('c, 'n, 'h) fdb_env \<Rightarrow> ('c, 'h) fdb_state \<Rightarrow> (sai_status \<times> bool) \<times> ('c, 'h) fdb_state" where
  "sai_l2_mcast_cpu_flood_enable_get e s = ext_call (npu_mcast_cpu_flood_enable_get e) s"

definition sai_l2_bcast_cpu_flood_enable_set :: "('c, 'n, 'h) fdb_env \<Rightarrow> bool \<Rightarrow> ('c, 'h) fdb_state \<Rightarrow> sai_status \<times> ('c, 'h) fdb_state" where
  "sai_l2_bcast_cpu_flood_enable_set e x s = ext_call (npu_bcast_cpu_flood_enable_set e x) s"

definition sai_l2_bcast_cpu_flood_enable_get :: "('c, 'n, 'h) fdb_env \<Rightarrow> ('c, 'h) fdb_state \<Rightarrow> (sai_status \<times> bool) \<times> ('c, 'h) fdb_state" where
  "sai_l2_bcast_cpu_flood_enable_get e s = ext_call (npu_bcast_cpu_flood_enable_get e) s"

definition sai_l2_get_fdb_table_size :: "('c, 'n, 'h) fdb_env \<Rightarrow> fdb_switch_attr \<Rightarrow> ('c, 'h) fdb_state \<Rightarrow> (sai_status \<times> fdb_switch_attr) \<times> ('c, 'h) fdb_state" where
  "sai_l2_get_fdb_table_size e x s = ext_call (npu_get_fdb_table_size e x) s"

end
