(* ===== verification/Fdb_Ops.thy ===== *)
theory Fdb_Ops
  imports Fdb_Api
begin

text \<open>
  The forwarding table that the cache of entries stands for, the documented behaviour of the cache on it,
  and what flushes, events and updates do to the table.
\<close>

section \<open>The table\<close>

type_synonym fdb_row = "oid \<times> fdb_entry_type \<times> fdb_action \<times> u32"

definition fdb_row_of :: "('c, 'n, 'h) fdb_env \<Rightarrow> 'n \<Rightarrow> fdb_row" where
  "fdb_row_of e n = (node_port_id e n, node_entry_type e n, node_action e n, node_metadata e n)"

definition fdb_table :: "('c, 'n, 'h) fdb_env \<Rightarrow> 'c \<Rightarrow> fdb_entry \<rightharpoonup> fdb_row" where
  "fdb_table e c x = map_option (\<lambda>a. fdb_row_of e (fdb_node_read e c a)) (fdb_node_addr e c x)"

fun flush_type_matches :: "fdb_flush_type \<Rightarrow> fdb_entry_type \<Rightarrow> bool" where
  "flush_type_matches SAI_FDB_FLUSH_ENTRY_DYNAMIC t = (t = SAI_FDB_ENTRY_DYNAMIC)"
| "flush_type_matches SAI_FDB_FLUSH_ENTRY_STATIC t = (t = SAI_FDB_ENTRY_STATIC)"
| "flush_type_matches (FDB_FLUSH_TYPE_OTHER i) t = (t = FDB_ENTRY_TYPE_OTHER i)"

text \<open>The rows of a table that a condition does not select.\<close>

definition table_drop :: "(fdb_entry \<Rightarrow> fdb_row \<Rightarrow> bool) \<Rightarrow> (fdb_entry \<rightharpoonup> fdb_row) \<Rightarrow> fdb_entry \<rightharpoonup> fdb_row" where
  "table_drop P t x = (case t x of None \<Rightarrow> None | Some r \<Rightarrow> if P x r then None else Some r)"

definition sel_type :: "bool \<Rightarrow> fdb_flush_type \<Rightarrow> fdb_row \<Rightarrow> bool" where
  "sel_type delete_all ty r \<longleftrightarrow> delete_all \<or> flush_type_matches ty (fst (snd r))"

text \<open>
  Documented behaviour of the cache: an insertion sets the row of its entry, a deletion removes it, the
  flushes remove the rows they name; an update changes the node it is given and no other one, and a copy
  to a node leaves its content there; a node added from the hardware leaves the others as they are.
\<close>

definition fdb_cache_ok :: "('c, 'n, 'h) fdb_env \<Rightarrow> bool" where
  "fdb_cache_ok e \<longleftrightarrow>
     (\<forall>x p t a m c. fdb_table e (sai_insert_fdb_entry_node e x p t a m c) = (fdb_table e c)(x := Some (p, t, a, m))) \<and>
     (\<forall>x c. fdb_table e (sai_delete_fdb_entry_node e x c) = (fdb_table e c)(x := None)) \<and>
     (\<forall>b ty c. fdb_table e (sai_delete_all_fdb_entry_nodes e b ty c) =
        table_drop (\<lambda>x r. sel_type b ty r) (fdb_table e c)) \<and>
     (\<forall>p b ty c. fdb_table e (sai_delete_fdb_entry_nodes_per_port e p b ty c) =
        table_drop (\<lambda>x r. fst r = p \<and> sel_type b ty r) (fdb_table e c)) \<and>
     (\<forall>v b ty c. fdb_table e (sai_delete_fdb_entry_nodes_per_vlan e v b ty c) =
        table_drop (\<lambda>x r. fe_vlan_id x = v \<and> sel_type b ty r) (fdb_table e c)) \<and>
     (\<forall>p v b ty c. fdb_table e (sai_delete_fdb_entry_nodes_per_port_vlan e p v b ty c) =
        table_drop (\<lambda>x r. fst r = p \<and> fe_vlan_id x = v \<and> sel_type b ty r) (fdb_table e c)) \<and>
     (\<forall>a attr c. fdb_node_addr e (sai_update_fdb_entry_node e a attr c) = fdb_node_addr e c \<and>
        (\<forall>b. b \<noteq> a \<longrightarrow> fdb_node_read e (sai_update_fdb_entry_node e a attr c) b = fdb_node_read e c b)) \<and>
     (\<forall>x a n c b. fdb_node_addr e c x = Some a \<longrightarrow> fdb_node_addr e (fdb_node_write e a n c) = fdb_node_addr e c \<and>
        fdb_node_read e (fdb_node_write e a n c) b = (if b = a then n else fdb_node_read e c b)) \<and>
     (\<forall>n c a c'. sai_add_fdb_entry_node_in_global_tree e n c = (Some a, c') \<longrightarrow> (\<exists>x. fdb_node_addr e c' x = Some a)) \<and>
     (\<forall>n c x a. fdb_node_addr e c x = Some a \<longrightarrow>
        fdb_node_addr e (snd (sai_add_fdb_entry_node_in_global_tree e n c)) x = Some a \<and>
        fdb_node_read e (snd (sai_add_fdb_entry_node_in_global_tree e n c)) a = fdb_node_read e c a)"

lemma fdb_cache_okD:
  assumes "fdb_cache_ok e"
  shows "fdb_table e (sai_insert_fdb_entry_node e x p t a m c) = (fdb_table e c)(x := Some (p, t, a, m))"
    "fdb_table e (sai_delete_fdb_entry_node e x c) = (fdb_table e c)(x := None)"
    "fdb_table e (sai_delete_all_fdb_entry_nodes e b ty c) = table_drop (\<lambda>x r. sel_type b ty r) (fdb_table e c)"
    "fdb_table e (sai_delete_fdb_entry_nodes_per_port e p b ty c) =
       table_drop (\<lambda>x r. fst r = p \<and> sel_type b ty r) (fdb_table e c)"
    "fdb_table e (sai_delete_fdb_entry_nodes_per_vlan e v b ty c) =
       table_drop (\<lambda>x r. fe_vlan_id x = v \<and> sel_type b ty r) (fdb_table e c)"
    "fdb_table e (sai_delete_fdb_entry_nodes_per_port_vlan e p v b ty c) =
       table_drop (\<lambda>x r. fst r = p \<and> fe_vlan_id x = v \<and> sel_type b ty r) (fdb_table e c)"
    "fdb_node_addr e (sai_update_fdb_entry_node e ad attr c) = fdb_node_addr e c"
    "bd \<noteq> ad \<Longrightarrow> fdb_node_read e (sai_update_fdb_entry_node e ad attr c) bd = fdb_node_read e c bd"
    "fdb_node_addr e c x = Some ad \<Longrightarrow> fdb_node_addr e (fdb_node_write e ad n c) = fdb_node_addr e c"
    "fdb_node_addr e c x = Some ad \<Longrightarrow> fdb_node_read e (fdb_node_write e ad n c) bd = (if bd = ad then n else fdb_node_read e c bd)"
    "fdb_node_addr e c x = Some ad \<Longrightarrow> fdb_node_addr e (snd (sai_add_fdb_entry_node_in_global_tree e n c)) x = Some ad"
    "fdb_node_addr e c x = Some ad \<Longrightarrow>
       fdb_node_read e (snd (sai_add_fdb_entry_node_in_global_tree e n c)) ad = fdb_node_read e c ad"
    "sai_add_fdb_entry_node_in_global_tree e n c = (Some ad, c') \<Longrightarrow> \<exists>x. fdb_node_addr e c' x = Some ad"
proof -
  note ok = assms [unfolded fdb_cache_ok_def]
  note o2 = ok [THEN conjunct2] note o3 = o2 [THEN conjunct2] note o4 = o3 [THEN conjunct2]
  note o5 = o4 [THEN conjunct2] note o6 = o5 [THEN conjunct2] note o7 = o6 [THEN conjunct2]
  note o8 = o7 [THEN conjunct2] note o9 = o8 [THEN conjunct2]
  note o10 = o9 [THEN conjunct2]
  show "fdb_table e (sai_insert_fdb_entry_node e x p t a m c) = (fdb_table e c)(x := Some (p, t, a, m))"
    using ok [THEN conjunct1] by blast
  show "fdb_table e (sai_delete_fdb_entry_node e x c) = (fdb_table e c)(x := None)" using o2 [THEN conjunct1] by blast
  show "fdb_table e (sai_delete_all_fdb_entry_nodes e b ty c) = table_drop (\<lambda>x r. sel_type b ty r) (fdb_table e c)"
    using o3 [THEN conjunct1] by blast
  show "fdb_table e (sai_delete_fdb_entry_nodes_per_port e p b ty c) =
       table_drop (\<lambda>x r. fst r = p \<and> sel_type b ty r) (fdb_table e c)" using o4 [THEN conjunct1] by blast
  show "fdb_table e (sai_delete_fdb_entry_nodes_per_vlan e v b ty c) =
       table_drop (\<lambda>x r. fe_vlan_id x = v \<and> sel_type b ty r) (fdb_table e c)" using o5 [THEN conjunct1] by blast
  show "fdb_table e (sai_delete_fdb_entry_nodes_per_port_vlan e p v b ty c) =
       table_drop (\<lambda>x r. fst r = p \<and> fe_vlan_id x = v \<and> sel_type b ty r) (fdb_table e c)" using o6 [THEN conjunct1] by blast
  show "fdb_node_addr e (sai_update_fdb_entry_node e ad attr c) = fdb_node_addr e c" using o7 [THEN conjunct1] by blast
  show "bd \<noteq> ad \<Longrightarrow> fdb_node_read e (sai_update_fdb_entry_node e ad attr c) bd = fdb_node_read e c bd"
    using o7 [THEN conjunct1] by blast
  show "fdb_node_addr e c x = Some ad \<Longrightarrow> fdb_node_addr e (fdb_node_write e ad n c) = fdb_node_addr e c" using o8 [THEN conjunct1] by blast
  show "fdb_node_addr e c x = Some ad \<Longrightarrow> fdb_node_read e (fdb_node_write e ad n c) bd = (if bd = ad then n else fdb_node_read e c bd)"
    using o8 [THEN conjunct1] by blast
  show "fdb_node_addr e c x = Some ad \<Longrightarrow> fdb_node_addr e (snd (sai_add_fdb_entry_node_in_global_tree e n c)) x = Some ad"
    "fdb_node_addr e c x = Some ad \<Longrightarrow>
       fdb_node_read e (snd (sai_add_fdb_entry_node_in_global_tree e n c)) ad = fdb_node_read e c ad" using o10 by blast+
  show "sai_add_fdb_entry_node_in_global_tree e n c = (Some ad, c') \<Longrightarrow> \<exists>x. fdb_node_addr e c' x = Some ad"
    using o9 [THEN conjunct1] by blast
qed

lemma fdb_upd_sel [simp]: "fdb_cache (sw (upd_fdb f s)) = f (fdb_cache (sw s))"
  "sai_l2_fdb_notification_fn (sw (upd_fdb f s)) = sai_l2_fdb_notification_fn (sw s)" "ext (upd_fdb f s) = ext s"
  by (simp_all add: upd_fdb_def)

lemma wake_sw [simp]: "sw (sai_fdb_wake_notification_thread e s) = sw s"
  by (simp add: sai_fdb_wake_notification_thread_def)

abbreviation table_of :: "('c, 'n, 'h) fdb_env \<Rightarrow> ('c, 'h) fdb_state \<Rightarrow> fdb_entry \<rightharpoonup> fdb_row" where
  "table_of e s \<equiv> fdb_table e (fdb_cache (sw s))"

section \<open>Flush\<close>

text \<open>The values that the attributes of a flush give, in their order.\<close>

definition flush_ports :: "fdb_flush_attr list \<Rightarrow> oid list" where
  "flush_ports = List.map_filter (\<lambda>a. case a of SAI_FDB_FLUSH_ATTR_PORT_ID p \<Rightarrow> Some p | _ \<Rightarrow> None)"

definition flush_vlans :: "fdb_flush_attr list \<Rightarrow> vlan_no list" where
  "flush_vlans = List.map_filter (\<lambda>a. case a of SAI_FDB_FLUSH_ATTR_VLAN_ID v \<Rightarrow> Some v | _ \<Rightarrow> None)"

definition flush_types :: "fdb_flush_attr list \<Rightarrow> fdb_flush_type list" where
  "flush_types = List.map_filter (\<lambda>a. case a of SAI_FDB_FLUSH_ATTR_ENTRY_TYPE t \<Rightarrow> Some t | _ \<Rightarrow> None)"

text \<open>What a flush selects: the last value of each attribute counts, and an attribute that is not given does not restrict.\<close>

definition flush_selects :: "('c, 'n, 'h) fdb_env \<Rightarrow> fdb_flush_attr list \<Rightarrow> fdb_entry \<Rightarrow> fdb_row \<Rightarrow> bool" where
  "flush_selects e attrs x r \<longleftrightarrow>
     (last (0 # flush_ports attrs) = 0 \<or> fst r = last (0 # flush_ports attrs)) \<and>
     (last (VLAN_UNDEF e # flush_vlans attrs) = VLAN_UNDEF e \<or> fe_vlan_id x = last (VLAN_UNDEF e # flush_vlans attrs)) \<and>
     (flush_types attrs = [] \<or> flush_type_matches (last (flush_types attrs)) (fst (snd r)))"

lemma flush_attrs_loop_result:
  "flush_attrs_loop e idx attrs a = Inr a' \<Longrightarrow>
    fl_port_id a' = last (fl_port_id a # flush_ports attrs) \<and> fl_vlan_id a' = last (fl_vlan_id a # flush_vlans attrs) \<and>
    fl_type a' = last (fl_type a # flush_types attrs) \<and> (fl_delete_all a' \<longleftrightarrow> fl_delete_all a \<and> flush_types attrs = [])"
  by (induction e idx attrs a rule: flush_attrs_loop.induct)
    (auto simp: flush_ports_def flush_vlans_def flush_types_def map_filter_simps split: fdb_flush_attr.splits)

lemma flush_cache_table:
  assumes ok: "fdb_cache_ok e" and a: "flush_attrs_loop e 0 attrs (flush_args_init e) = Inr a"
  shows "fdb_table e (flush_cache e a c) = table_drop (flush_selects e attrs) (fdb_table e c)"
proof -
  note v = flush_attrs_loop_result [OF a]
  have t: "sel_type (fl_delete_all a) (fl_type a) r \<longleftrightarrow>
      flush_types attrs = [] \<or> flush_type_matches (last (flush_types attrs)) (fst (snd r))" for r
    using v by (auto simp: sel_type_def flush_args_init_def)
  have "fl_port_id a = last (0 # flush_ports attrs)" "fl_vlan_id a = last (VLAN_UNDEF e # flush_vlans attrs)"
    using v by (simp_all add: flush_args_init_def)
  then show ?thesis unfolding flush_cache_def flush_selects_def Let_def
    by (simp only: fdb_cache_okD(3-6) [OF ok] t split: if_split) (auto intro!: arg_cong [where f = "\<lambda>P. table_drop P _"])
qed

lemma flush_result:
  assumes ok: "fdb_cache_ok e" and lib: "lib_ok (flib e)" and c: "sai_l2_flush_fdb_entry e attrs s = (st, s')"
  shows "table_of e s' = (if st = SAI_STATUS_SUCCESS then table_drop (flush_selects e attrs) (table_of e s) else table_of e s)"
proof (cases "flush_attrs_loop e 0 attrs (flush_args_init e)")
  case (Inl x)
  have "y \<noteq> SAI_STATUS_SUCCESS" if "flush_attrs_loop e idx attrs a = Inl y" for idx a y
    using that by (induction attrs arbitrary: idx a) (auto simp: lib_okD(2) [OF lib] split: fdb_flush_attr.splits)
  then show ?thesis using c Inl by (auto simp: sai_l2_flush_fdb_entry_def)
next
  case (Inr a)
  obtain st1 s1 where 1: "ext_call (npu_flush_all_fdb_entries e (fl_port_id a) (fl_vlan_id a) (fl_delete_all a) (fl_type a)) s = (st1, s1)"
    by force
  show ?thesis
    using c Inr ext_call_sw [OF 1] flush_cache_table [OF ok Inr]
    by (auto simp: sai_l2_flush_fdb_entry_def Let_def 1 split: if_splits)
qed

section \<open>Events\<close>

text \<open>
  One event on the table, with the attributes that the event itself carries: the last value of each.
\<close>

definition event_row :: "('c, 'n, 'h) fdb_env \<Rightarrow> fdb_event \<Rightarrow> fdb_row" where
  "event_row e ev =
     (let w = fold event_attr_store (ev_attr ev) (event_vars_init e)
      in (var_port_id w, var_entry_type w, var_action w, var_metadata w))"

definition event_step :: "('c, 'n, 'h) fdb_env \<Rightarrow> fdb_event \<Rightarrow> (fdb_entry \<rightharpoonup> fdb_row) \<Rightarrow> fdb_entry \<rightharpoonup> fdb_row" where
  "event_step e ev t =
     (case ev_event_type ev of
        SAI_FDB_EVENT_LEARNED \<Rightarrow> t(ev_fdb_entry ev := Some (event_row e ev))
      | FDB_EVENT_OTHER _ \<Rightarrow> t
      | _ \<Rightarrow> t(ev_fdb_entry ev := None))"

definition event_complete :: "fdb_event \<Rightarrow> bool" where
  "event_complete ev \<longleftrightarrow>
     list_ex (\<lambda>a. case a of SAI_FDB_ENTRY_ATTR_PORT_ID _ \<Rightarrow> True | _ \<Rightarrow> False) (ev_attr ev) \<and>
     list_ex (\<lambda>a. case a of SAI_FDB_ENTRY_ATTR_TYPE _ \<Rightarrow> True | _ \<Rightarrow> False) (ev_attr ev) \<and>
     list_ex (\<lambda>a. case a of SAI_FDB_ENTRY_ATTR_PACKET_ACTION _ \<Rightarrow> True | _ \<Rightarrow> False) (ev_attr ev) \<and>
     list_ex (\<lambda>a. case a of SAI_FDB_ENTRY_ATTR_META_DATA _ \<Rightarrow> True | _ \<Rightarrow> False) (ev_attr ev)"

text \<open>A variable that an attribute sets does not depend on its value before.\<close>

lemma event_vars_agree:
  "(var_port_id w = var_port_id w' \<or> list_ex (\<lambda>a. case a of SAI_FDB_ENTRY_ATTR_PORT_ID _ \<Rightarrow> True | _ \<Rightarrow> False) as \<Longrightarrow>
      var_port_id (fold event_attr_store as w) = var_port_id (fold event_attr_store as w'))"
  "(var_entry_type w = var_entry_type w' \<or> list_ex (\<lambda>a. case a of SAI_FDB_ENTRY_ATTR_TYPE _ \<Rightarrow> True | _ \<Rightarrow> False) as \<Longrightarrow>
      var_entry_type (fold event_attr_store as w) = var_entry_type (fold event_attr_store as w'))"
  "(var_action w = var_action w' \<or> list_ex (\<lambda>a. case a of SAI_FDB_ENTRY_ATTR_PACKET_ACTION _ \<Rightarrow> True | _ \<Rightarrow> False) as \<Longrightarrow>
      var_action (fold event_attr_store as w) = var_action (fold event_attr_store as w'))"
  "(var_metadata w = var_metadata w' \<or> list_ex (\<lambda>a. case a of SAI_FDB_ENTRY_ATTR_META_DATA _ \<Rightarrow> True | _ \<Rightarrow> False) as \<Longrightarrow>
      var_metadata (fold event_attr_store as w) = var_metadata (fold event_attr_store as w'))"
proof (induction as arbitrary: w w')
  case (Cons a as)
  { case 1 then show ?case by (cases a) (auto intro!: Cons.IH) }
  { case 2 then show ?case by (cases a) (auto intro!: Cons.IH) }
  { case 3 then show ?case by (cases a) (auto intro!: Cons.IH) }
  { case 4 then show ?case by (cases a) (auto intro!: Cons.IH) }
qed simp_all

lemma event_apply_table:
  assumes ok: "fdb_cache_ok e" and ev: "ev_event_type ev = SAI_FDB_EVENT_LEARNED \<longrightarrow> event_complete ev"
  shows "fdb_table e (event_apply e ev (fold event_attr_store (ev_attr ev) w) c) = event_step e ev (fdb_table e c)"
proof (cases "ev_event_type ev = SAI_FDB_EVENT_LEARNED")
  case True
  let ?w = "fold event_attr_store (ev_attr ev) w"
  have "event_row e ev = (var_port_id ?w, var_entry_type ?w, var_action ?w, var_metadata ?w)"
    using ev True event_vars_agree [of w "event_vars_init e" "ev_attr ev"]
    unfolding event_row_def event_complete_def Let_def by simp
  then show ?thesis using True by (simp add: event_apply_def event_step_def fdb_cache_okD(1) [OF ok])
next
  case False
  have "fdb_table e c = (fdb_table e c)(x := None)" if "fdb_node_addr e c x = None" for x
    using that by (auto simp: fdb_table_def fun_eq_iff)
  then show ?thesis using False
    by (auto simp: event_apply_def event_step_def fdb_cache_okD(2) [OF ok] split: fdb_event_type.splits)
qed

lemma event_loop_table:
  assumes "fdb_cache_ok e"
  shows "\<forall>ev \<in> set evs. ev_event_type ev = SAI_FDB_EVENT_LEARNED \<longrightarrow> event_complete ev \<Longrightarrow>
    fdb_table e (event_loop e evs w c) = fold (event_step e) evs (fdb_table e c)"
proof (induction evs arbitrary: w c)
  case (Cons ev evs)
  then show ?case using event_apply_table [OF assms, of ev w c] by (simp add: Let_def)
qed simp

lemma event_notification_table:
  assumes "fdb_cache_ok e" "\<forall>ev \<in> set evs. ev_event_type ev = SAI_FDB_EVENT_LEARNED \<longrightarrow> event_complete ev"
  shows "table_of e (sai_common_fdb_event_notification e evs s) = fold (event_step e) evs (table_of e s)"
  using event_loop_table [OF assms] by (simp add: sai_common_fdb_event_notification_def Let_def)

section \<open>Updates\<close>

text \<open>The nodes that were in the cache are there with the same content.\<close>

definition nodes_kept :: "('c, 'n, 'h) fdb_env \<Rightarrow> ('c, 'h) fdb_state \<Rightarrow> ('c, 'h) fdb_state \<Rightarrow> bool" where
  "nodes_kept e s s' \<longleftrightarrow> (\<forall>x a. fdb_node_addr e (fdb_cache (sw s)) x = Some a \<longrightarrow>
     fdb_node_addr e (fdb_cache (sw s')) x = Some a \<and>
     fdb_node_read e (fdb_cache (sw s')) a = fdb_node_read e (fdb_cache (sw s)) a)"

lemma nodes_kept_refl: "sw s' = sw s \<Longrightarrow> nodes_kept e s s'"
  by (simp add: nodes_kept_def)

lemma nodes_kept_trans: "nodes_kept e s s1 \<Longrightarrow> nodes_kept e s1 s' \<Longrightarrow> nodes_kept e s s'"
  unfolding nodes_kept_def by metis

lemma nodes_kept_table: "nodes_kept e s s' \<Longrightarrow> table_of e s x = Some r \<Longrightarrow> table_of e s' x = Some r"
  by (auto simp: nodes_kept_def fdb_table_def)

lemma populate_kept:
  assumes ok: "fdb_cache_ok e" and c: "sai_fdb_populate_node_from_hardware e x s = (a, s')"
  shows "nodes_kept e s s'"
proof -
  obtain b s1 where 1: "ext_call (lib_calloc_ok (flib e)) s = (b, s1)" by force
  obtain st n s2 where 2: "ext_call (npu_get_fdb_entry_from_hardware e x) s1 = ((st, n), s2)" by (metis surj_pair)
  have sw2: "sw s1 = sw s" "sw s2 = sw s" using ext_call_sw [OF 1] ext_call_sw [OF 2] by simp_all
  have "nodes_kept e s2 (snd (fdb_call (sai_add_fdb_entry_node_in_global_tree e n) s2))"
    by (simp add: nodes_kept_def fdb_call_def fdb_cache_okD(11,12) [OF ok] split: prod.splits)
      (metis fdb_cache_okD(11,12) [OF ok] snd_conv)
  then show ?thesis
    using c sw2 by (auto simp: sai_fdb_populate_node_from_hardware_def 1 2 nodes_kept_def split: if_splits)
qed

lemma lookup_valid:
  assumes ok: "fdb_cache_ok e" and c: "fdb_node_lookup e x s = (Some a, s')"
  shows "\<exists>y. fdb_node_addr e (fdb_cache (sw s')) y = Some a"
proof (cases "fdb_node_addr e (fdb_cache (sw s)) x")
  case None
  obtain b s1 where 1: "ext_call (lib_calloc_ok (flib e)) s = (b, s1)" by force
  obtain st n s2 where 2: "ext_call (npu_get_fdb_entry_from_hardware e x) s1 = ((st, n), s2)" by (metis surj_pair)
  have "fdb_call (sai_add_fdb_entry_node_in_global_tree e n) s2 = (Some a, s')"
    using c None by (auto simp: fdb_node_lookup_def sai_fdb_populate_node_from_hardware_def 1 2 split: if_splits)
  then have "sai_add_fdb_entry_node_in_global_tree e n (fdb_cache (sw s2)) = (Some a, fdb_cache (sw s'))"
    by (auto simp: fdb_call_def split: prod.splits)
  then show ?thesis by (rule fdb_cache_okD(13) [OF ok])
next
  case (Some b)
  then show ?thesis using c by (auto simp: fdb_node_lookup_def)
qed

lemma set_attribute_result:
  assumes ok: "fdb_cache_ok e" and c: "sai_l2_set_fdb_entry_attribute e x attr s = (st, s')" and st: "st \<noteq> SAI_STATUS_SUCCESS"
  shows "nodes_kept e s s'"
proof (cases "sai_is_valid_vlan_id e (fe_vlan_id x) \<and> sai_is_valid_fdb_attribute_val e attr (ext s) = SAI_STATUS_SUCCESS")
  case False
  then show ?thesis using c by (auto simp: sai_l2_set_fdb_entry_attribute_def Let_def nodes_kept_refl split: if_splits)
next
  case True
  obtain node s1 where 1: "fdb_node_lookup e x s = (node, s1)" by force
  have k1: "nodes_kept e s s1"
    using 1 populate_kept [OF ok] by (auto simp: fdb_node_lookup_def nodes_kept_refl split: option.splits)
  show ?thesis
  proof (cases node)
    case None
    then show ?thesis using c True 1 k1 by (simp add: sai_l2_set_fdb_entry_attribute_def)
  next
    case (Some a)
    let ?s2 = "upd_fdb (sai_update_fdb_entry_node e a attr) s1"
    obtain st3 s3 where 3: "ext_call (npu_write_fdb_entry_to_hardware e (fdb_node_read e (fdb_cache (sw ?s2)) a)) ?s2 = (st3, s3)"
      by force
    let ?s4 = "upd_fdb (fdb_node_write e a (fdb_node_read e (fdb_cache (sw s1)) a)) s3"
    let ?c = "fdb_cache (sw s1)"
    obtain y where y: "fdb_node_addr e ?c y = Some a" using lookup_valid [OF ok 1 [unfolded Some]] ..
    then have y2: "fdb_node_addr e (sai_update_fdb_entry_node e a attr ?c) y = Some a" by (simp add: fdb_cache_okD(7) [OF ok])
    have c3: "fdb_cache (sw s3) = sai_update_fdb_entry_node e a attr ?c" using ext_call_sw [OF 3] by simp
    have "fdb_node_addr e (fdb_cache (sw ?s4)) = fdb_node_addr e ?c"
      by (simp add: c3 fdb_cache_okD(9) [OF ok y2] fdb_cache_okD(7) [OF ok])
    moreover have "fdb_node_read e (fdb_cache (sw ?s4)) b = fdb_node_read e ?c b" for b
      by (simp add: c3 fdb_cache_okD(10) [OF ok y2] fdb_cache_okD(8) [OF ok])
    ultimately have "nodes_kept e s1 ?s4" unfolding nodes_kept_def by metis
    moreover have "sw s' = sw ?s4"
    proof -
      have v: "\<not> \<not> sai_is_valid_vlan_id e (fe_vlan_id x)" "\<not> sai_is_valid_fdb_attribute_val e attr (ext s) \<noteq> SAI_STATUS_SUCCESS"
        using True by auto
      have "(st, s') = (st3, sai_fdb_wake_notification_thread e (if st3 \<noteq> SAI_STATUS_SUCCESS then ?s4 else s3))"
        unfolding c [symmetric] sai_l2_set_fdb_entry_attribute_def Let_def if_not_P [OF v(1)] if_not_P [OF v(2)] 1 prod.case
          Some option.case 3 ..
      with st show ?thesis by (auto simp only: prod.inject wake_sw split: if_splits)
    qed
    ultimately have "nodes_kept e s1 s'" unfolding nodes_kept_def by metis
    then show ?thesis by (rule nodes_kept_trans [OF k1])
  qed
qed

end
