(* ===== verification/Fdb_Properties.thy ===== *)
theory Fdb_Properties
  imports Fdb_Ops Sai_Demo
begin

text \<open>
  The properties of the forwarding database (\<^verbatim>\<open>src/src/switching/sai_fdb.c\<close>), each with its use on a
  concrete table.
\<close>

section \<open>A concrete environment\<close>

text \<open>
  The cache is a list of entries with their rows; the address of a node is its place in the list. The
  world is a script of the failures of the hardware.
\<close>

type_synonym demo_fdb = "(fdb_entry \<times> fdb_row) list"

definition demo_slot :: "demo_fdb \<Rightarrow> fdb_entry \<Rightarrow> addr option" where
  "demo_slot c x = (if List.member (map fst c) x then Some (length (takeWhile (\<lambda>n. fst n \<noteq> x) c)) else None)"

fun demo_attr_update :: "fdb_attr \<Rightarrow> fdb_row \<Rightarrow> fdb_row" where
  "demo_attr_update (SAI_FDB_ENTRY_ATTR_PORT_ID p) (q, t, a, m) = (p, t, a, m)"
| "demo_attr_update (SAI_FDB_ENTRY_ATTR_TYPE u) (q, t, a, m) = (q, u, a, m)"
| "demo_attr_update (SAI_FDB_ENTRY_ATTR_PACKET_ACTION b) (q, t, a, m) = (q, t, b, m)"
| "demo_attr_update (SAI_FDB_ENTRY_ATTR_META_DATA n) (q, t, a, m) = (q, t, a, n)"
| "demo_attr_update (FDB_ENTRY_ATTR_UNKNOWN i) r = r"

definition demo_store :: "addr \<Rightarrow> (fdb_row \<Rightarrow> fdb_row) \<Rightarrow> demo_fdb \<Rightarrow> demo_fdb" where
  "demo_store a f c = (if a < length c then c[a := (fst (c ! a), f (snd (c ! a)))] else c)"

definition demo_drop :: "(fdb_entry \<Rightarrow> fdb_row \<Rightarrow> bool) \<Rightarrow> demo_fdb \<Rightarrow> demo_fdb" where
  "demo_drop P c = filter (\<lambda>n. \<not> P (fst n) (snd n) \<and> map_of c (fst n) = Some (snd n)) c"

definition fdb_scripted :: "bool list \<Rightarrow> sai_status \<times> bool list" where
  "fdb_scripted h = (case h of [] \<Rightarrow> (SAI_STATUS_SUCCESS, []) | b # bs \<Rightarrow> (if b then SAI_STATUS_FAILURE else SAI_STATUS_SUCCESS, bs))"

definition demo_fdb_env :: "(demo_fdb, fdb_row, bool list) fdb_env" where
  "demo_fdb_env =
     \<lparr>flib = demo_lib,
      sai_init_fdb_tree = (\<lambda>c. (SAI_STATUS_SUCCESS, [])),
      fdb_node_addr = demo_slot,
      fdb_node_read = (\<lambda>c a. if a < length c then snd (c ! a) else (0, SAI_FDB_ENTRY_DYNAMIC, FDB_ACTION_ZERO, 0)),
      fdb_node_write = (\<lambda>a n. demo_store a (\<lambda>_. n)),
      sai_update_fdb_entry_node = (\<lambda>a attr. demo_store a (demo_attr_update attr)),
      sai_add_fdb_entry_node_in_global_tree = (\<lambda>n c. (None, c)),
      sai_insert_fdb_entry_node = (\<lambda>x p t a m c. (x, p, t, a, m) # filter (\<lambda>n. fst n \<noteq> x) c),
      sai_delete_fdb_entry_node = (\<lambda>x. filter (\<lambda>n. fst n \<noteq> x)),
      sai_delete_all_fdb_entry_nodes = (\<lambda>b ty. demo_drop (\<lambda>x r. sel_type b ty r)),
      sai_delete_fdb_entry_nodes_per_port = (\<lambda>p b ty. demo_drop (\<lambda>x r. fst r = p \<and> sel_type b ty r)),
      sai_delete_fdb_entry_nodes_per_vlan = (\<lambda>v b ty. demo_drop (\<lambda>x r. fe_vlan_id x = v \<and> sel_type b ty r)),
      sai_delete_fdb_entry_nodes_per_port_vlan = (\<lambda>p v b ty.
        demo_drop (\<lambda>x r. fst r = p \<and> fe_vlan_id x = v \<and> sel_type b ty r)),
      sai_fdb_is_notifications_pending = (\<lambda>c. False),
      sai_fdb_send_internal_notifications = Pair,
      sai_fdb_write_registered_entry_into_cache = (\<lambda>x c. (SAI_STATUS_SUCCESS, c)),
      sai_fdb_remove_registered_entry_from_cache = (\<lambda>x c. (SAI_STATUS_SUCCESS, c)),
      sai_fdb_internal_callback_cache_update = (\<lambda>b c. c),
      node_port_id = fst, node_entry_type = (\<lambda>r. fst (snd r)), node_action = (\<lambda>r. fst (snd (snd r))),
      node_metadata = (\<lambda>r. snd (snd (snd r))),
      sai_is_valid_fdb_attribute_val = (\<lambda>a h. SAI_STATUS_SUCCESS),
      sai_is_valid_vlan_id = (\<lambda>v. 0 < v \<and> v < 4095),
      fdb_lag_created = (\<lambda>p h. True), fdb_port_valid = (\<lambda>p h. True), VLAN_UNDEF = 0,
      fdb_type_zero = SAI_FDB_ENTRY_DYNAMIC,
      npu_fdb_init = fdb_scripted, npu_flush_all_fdb_entries = (\<lambda>p v b t. fdb_scripted),
      npu_flush_fdb_entry = (\<lambda>x. fdb_scripted), npu_create_fdb_entry = (\<lambda>x p t a m. fdb_scripted),
      npu_get_fdb_entry_from_hardware = (\<lambda>x h. ((SAI_STATUS_FAILURE, (0, SAI_FDB_ENTRY_DYNAMIC, FDB_ACTION_ZERO, 0)), h)),
      npu_write_fdb_entry_to_hardware = (\<lambda>n. fdb_scripted), npu_fdb_register_callback = fdb_scripted,
      npu_set_aging_time = (\<lambda>v. fdb_scripted), npu_get_aging_time = Pair (SAI_STATUS_SUCCESS, 0),
      npu_set_switch_max_learned_address = (\<lambda>v. fdb_scripted),
      npu_get_switch_max_learned_address = Pair (SAI_STATUS_SUCCESS, 0),
      npu_fdb_ucast_miss_action_set = (\<lambda>a. fdb_scripted), npu_fdb_ucast_miss_action_get = (\<lambda>a. Pair (SAI_STATUS_SUCCESS, a)),
      npu_fdb_mcast_miss_action_set = (\<lambda>a. fdb_scripted), npu_fdb_mcast_miss_action_get = (\<lambda>a. Pair (SAI_STATUS_SUCCESS, a)),
      npu_fdb_bcast_miss_action_set = (\<lambda>a. fdb_scripted), npu_fdb_bcast_miss_action_get = (\<lambda>a. Pair (SAI_STATUS_SUCCESS, a)),
      npu_mcast_cpu_flood_enable_set = (\<lambda>b. fdb_scripted), npu_mcast_cpu_flood_enable_get = Pair (SAI_STATUS_SUCCESS, False),
      npu_bcast_cpu_flood_enable_set = (\<lambda>b. fdb_scripted), npu_bcast_cpu_flood_enable_get = Pair (SAI_STATUS_SUCCESS, False),
      npu_get_fdb_table_size = (\<lambda>a. Pair (SAI_STATUS_SUCCESS, a)),
      fdb_pipe_ok = Pair True, fdb_thread_create_ok = Pair True, fdb_pipe_write = (\<lambda>h. h), fdb_notify = (\<lambda>evs h. h)\<rparr>"

lemma demo_slot_read:
  "demo_slot c x = Some a \<Longrightarrow> a < length c \<and> map_of c x = Some (snd (c ! a))"
  by (induction c arbitrary: a) (auto simp: demo_slot_def split: if_splits)

lemma demo_table: "fdb_table demo_fdb_env c = map_of c"
proof
  fix x
  show "fdb_table demo_fdb_env c x = map_of c x"
  proof (cases "demo_slot c x")
    case None
    then have "x \<notin> fst ` set c" by (auto simp: demo_slot_def split: if_splits)
    then show ?thesis using None by (simp add: fdb_table_def demo_fdb_env_def) (metis map_of_eq_None_iff)
  next
    case (Some a)
    then show ?thesis using demo_slot_read [OF Some] by (simp add: fdb_table_def demo_fdb_env_def fdb_row_of_def)
  qed
qed

lemma map_of_demo_drop: "map_of (demo_drop P c) = table_drop P (map_of c)"
proof
  fix x
  have "map_of (filter (\<lambda>n. \<not> P (fst n) (snd n) \<and> m (fst n) = Some (snd n)) c) x =
      (case m x of None \<Rightarrow> None | Some r \<Rightarrow> if P x r \<or> (x, r) \<notin> set c then None else Some r)" for m
    by (induction c) (auto split: option.splits)
  moreover have "(x, r) \<in> set c" if "map_of c x = Some r" for r using that by (rule map_of_SomeD)
  ultimately show "map_of (demo_drop P c) x = table_drop P (map_of c) x"
    by (auto simp: demo_drop_def table_drop_def split: option.splits)
qed

lemma map_of_filter_key: "map_of (filter (\<lambda>n. fst n \<noteq> x) c) = (map_of c)(x := None)"
  by (induction c) (auto simp: fun_eq_iff)

lemma demo_store_slot: "demo_slot (demo_store a f c) = demo_slot c"
proof -
  have m: "map fst (demo_store a f c) = map fst c" by (simp add: demo_store_def map_update list_update_same_conv)
  have "length (takeWhile (\<lambda>n. fst n \<noteq> x) c') = length (takeWhile (\<lambda>y. y \<noteq> x) (map fst c'))" for c' :: demo_fdb and x
    by (simp add: takeWhile_map comp_def)
  then show ?thesis by (simp add: demo_slot_def fun_eq_iff m)
qed

lemma demo_fdb_cache_ok: "fdb_cache_ok demo_fdb_env"
proof -
  have upd: "fdb_node_addr demo_fdb_env (sai_update_fdb_entry_node demo_fdb_env a attr c) = fdb_node_addr demo_fdb_env c"
    "b \<noteq> a \<Longrightarrow> fdb_node_read demo_fdb_env (sai_update_fdb_entry_node demo_fdb_env a attr c) b = fdb_node_read demo_fdb_env c b"
    for a attr c b by (simp_all add: demo_fdb_env_def demo_store_slot) (simp add: demo_store_def)
  have wr: "fdb_node_addr demo_fdb_env (fdb_node_write demo_fdb_env a n c) = fdb_node_addr demo_fdb_env c"
    "fdb_node_addr demo_fdb_env c x = Some a \<Longrightarrow>
      fdb_node_read demo_fdb_env (fdb_node_write demo_fdb_env a n c) b = (if b = a then n else fdb_node_read demo_fdb_env c b)"
    for a n c x b using demo_slot_read [of c x a] by (simp_all add: demo_fdb_env_def demo_store_slot) (simp add: demo_store_def)
  have ins: "map_of (sai_insert_fdb_entry_node demo_fdb_env x p t a m c) = (map_of c)(x := Some (p, t, a, m))"
    "map_of (sai_delete_fdb_entry_node demo_fdb_env x c) = (map_of c)(x := None)" for x p t a m c
    by (simp_all add: demo_fdb_env_def map_of_filter_key)
  have fl: "map_of (sai_delete_all_fdb_entry_nodes demo_fdb_env b ty c) = table_drop (\<lambda>x r. sel_type b ty r) (map_of c)"
    "map_of (sai_delete_fdb_entry_nodes_per_port demo_fdb_env p b ty c) =
       table_drop (\<lambda>x r. fst r = p \<and> sel_type b ty r) (map_of c)"
    "map_of (sai_delete_fdb_entry_nodes_per_vlan demo_fdb_env v b ty c) =
       table_drop (\<lambda>x r. fe_vlan_id x = v \<and> sel_type b ty r) (map_of c)"
    "map_of (sai_delete_fdb_entry_nodes_per_port_vlan demo_fdb_env p v b ty c) =
       table_drop (\<lambda>x r. fst r = p \<and> fe_vlan_id x = v \<and> sel_type b ty r) (map_of c)" for b ty c p v
    by (simp_all add: demo_fdb_env_def map_of_demo_drop)
  have add: "sai_add_fdb_entry_node_in_global_tree demo_fdb_env n c = (None, c)" for n c by (simp add: demo_fdb_env_def)
  show ?thesis unfolding fdb_cache_ok_def demo_table by (intro conjI allI) (simp_all add: ins fl upd wr(1) add wr(2))
qed

lemma demo_fdb_lib: "lib_ok (flib demo_fdb_env)"
  using demo_lib_ok by (simp add: demo_fdb_env_def)

abbreviation fdb_key :: "u8 \<Rightarrow> vlan_no \<Rightarrow> fdb_entry" where
  "fdb_key m v \<equiv> \<lparr>fe_mac_address = [0, 0, 0, 0, 0, m], fe_vlan_id = v\<rparr>"

abbreviation demo_port_id :: "u64 \<Rightarrow> oid" where "demo_port_id n \<equiv> demo_oid SAI_OBJECT_TYPE_PORT n"

text \<open>Two learned entries on port 1, in VLANs 10 and 20, and a static one on port 2 in VLAN 10.\<close>

definition demo_fdb_state :: "bool list \<Rightarrow> (demo_fdb, bool list) fdb_state" where
  "demo_fdb_state bs = \<lparr>sw = \<lparr>sai_l2_fdb_notification_fn = False, fdb_cache =
     [(fdb_key 1 10, demo_port_id 1, SAI_FDB_ENTRY_DYNAMIC, FDB_ACTION 1, 0),
      (fdb_key 2 20, demo_port_id 1, SAI_FDB_ENTRY_DYNAMIC, FDB_ACTION 1, 0),
      (fdb_key 3 10, demo_port_id 2, SAI_FDB_ENTRY_STATIC, FDB_ACTION 1, 0)]\<rparr>, ext = bs\<rparr>"

section \<open>Properties\<close>

text \<open>
  C31: a flush that succeeds removes from the forwarding table exactly the entries that its attributes
  select: those on the port, in the VLAN and of the type given, where an attribute that is missing, or
  whose last value is the undefined one, does not restrict, and the last value of a repeated attribute
  counts. A flush that is refused removes nothing.
\<close>

theorem fdb_flush_exact:
  assumes "fdb_cache_ok e" and "lib_ok (flib e)" and "sai_l2_flush_fdb_entry e attrs s = (st, s')"
  shows "table_of e s' x =
    (case table_of e s x of None \<Rightarrow> None
     | Some r \<Rightarrow> if st = SAI_STATUS_SUCCESS \<and> flush_selects e attrs x r then None else Some r)"
  using flush_result [OF assms] by (auto simp: table_drop_def split: option.splits)

text \<open>The dynamic entries of VLAN 10 are flushed; the static one stays.\<close>

theorem fdb_flush_exact_witness:
  "let s' = snd (sai_l2_flush_fdb_entry demo_fdb_env
              [SAI_FDB_FLUSH_ATTR_VLAN_ID 10, SAI_FDB_FLUSH_ATTR_ENTRY_TYPE SAI_FDB_FLUSH_ENTRY_DYNAMIC] (demo_fdb_state []))
   in table_of demo_fdb_env s' (fdb_key 1 10) = None \<and> table_of demo_fdb_env s' (fdb_key 3 10) \<noteq> None \<and>
      table_of demo_fdb_env s' (fdb_key 2 20) \<noteq> None"
proof -
  let ?as = "[SAI_FDB_FLUSH_ATTR_VLAN_ID 10, SAI_FDB_FLUSH_ATTR_ENTRY_TYPE SAI_FDB_FLUSH_ENTRY_DYNAMIC]"
  have ok: "fst (sai_l2_flush_fdb_entry demo_fdb_env ?as (demo_fdb_state [])) = SAI_STATUS_SUCCESS" by code_simp
  note t = fdb_flush_exact [OF demo_fdb_cache_ok demo_fdb_lib surjective_pairing, of ?as "demo_fdb_state []", unfolded ok]
  have sel: "flush_selects demo_fdb_env ?as (fdb_key 1 10) (demo_port_id 1, SAI_FDB_ENTRY_DYNAMIC, FDB_ACTION 1, 0)"
    "\<not> flush_selects demo_fdb_env ?as (fdb_key 3 10) (demo_port_id 2, SAI_FDB_ENTRY_STATIC, FDB_ACTION 1, 0)"
    "\<not> flush_selects demo_fdb_env ?as (fdb_key 2 20) (demo_port_id 1, SAI_FDB_ENTRY_DYNAMIC, FDB_ACTION 1, 0)" by code_simp+
  have rows: "table_of demo_fdb_env (demo_fdb_state []) (fdb_key 1 10) = Some (demo_port_id 1, SAI_FDB_ENTRY_DYNAMIC, FDB_ACTION 1, 0)"
    "table_of demo_fdb_env (demo_fdb_state []) (fdb_key 3 10) = Some (demo_port_id 2, SAI_FDB_ENTRY_STATIC, FDB_ACTION 1, 0)"
    "table_of demo_fdb_env (demo_fdb_state []) (fdb_key 2 20) = Some (demo_port_id 1, SAI_FDB_ENTRY_DYNAMIC, FDB_ACTION 1, 0)"
    by (simp_all add: demo_table demo_fdb_state_def)
  show ?thesis unfolding Let_def t rows using sel by simp
qed

text \<open>
  C32: seen as a table from entries to their port, type, action and meta data, a batch of events is the
  composition of its events, one after the other: a learned entry gets the row that its own event gives,
  an aged or flushed one leaves the table, and any other event changes nothing. It holds for batches whose
  learned events give all four attributes; a learned event that does not would take what is missing from
  the events before it in the batch.
\<close>

theorem fdb_events_refine:
  assumes "fdb_cache_ok e" and "\<forall>ev \<in> set evs. ev_event_type ev = SAI_FDB_EVENT_LEARNED \<longrightarrow> event_complete ev"
  shows "table_of e (sai_common_fdb_event_notification e evs s) = fold (event_step e) evs (table_of e s)"
  by (rule event_notification_table [OF assms])

definition demo_events :: "fdb_event list" where
  "demo_events =
     [\<lparr>ev_event_type = SAI_FDB_EVENT_LEARNED, ev_fdb_entry = fdb_key 4 20,
       ev_attr = [SAI_FDB_ENTRY_ATTR_PORT_ID (demo_port_id 2), SAI_FDB_ENTRY_ATTR_TYPE SAI_FDB_ENTRY_DYNAMIC,
                  SAI_FDB_ENTRY_ATTR_PACKET_ACTION (FDB_ACTION 1), SAI_FDB_ENTRY_ATTR_META_DATA 7]\<rparr>,
      \<lparr>ev_event_type = SAI_FDB_EVENT_AGED, ev_fdb_entry = fdb_key 1 10, ev_attr = []\<rparr>]"

theorem fdb_events_refine_witness:
  "table_of demo_fdb_env (sai_common_fdb_event_notification demo_fdb_env demo_events (demo_fdb_state [])) =
     (table_of demo_fdb_env (demo_fdb_state []))
       (fdb_key 4 20 := Some (demo_port_id 2, SAI_FDB_ENTRY_DYNAMIC, FDB_ACTION 1, 7), fdb_key 1 10 := None)"
proof -
  have c: "\<forall>ev \<in> set demo_events. ev_event_type ev = SAI_FDB_EVENT_LEARNED \<longrightarrow> event_complete ev" by code_simp
  show ?thesis unfolding fdb_events_refine [OF demo_fdb_cache_ok c]
    by (simp add: demo_events_def event_step_def event_row_def Let_def)
qed

text \<open>
  C33: setting an attribute of an entry that fails, whatever refuses it, leaves every node of the cache in
  its place and with its content, and so every row of the table: when the hardware refuses the write, the
  copy taken before the update is put back. At most a node read from the hardware is new.
\<close>

theorem fdb_set_failure_restores:
  assumes "fdb_cache_ok e" and "sai_l2_set_fdb_entry_attribute e x attr s = (st, s')" and "st \<noteq> SAI_STATUS_SUCCESS"
  shows "nodes_kept e s s' \<and> (\<forall>y r. table_of e s y = Some r \<longrightarrow> table_of e s' y = Some r)"
  using set_attribute_result [OF assms] nodes_kept_table by blast

text \<open>The hardware refuses to move an entry to port 2.\<close>

theorem fdb_set_failure_restores_witness:
  "table_of demo_fdb_env (snd (sai_l2_set_fdb_entry_attribute demo_fdb_env (fdb_key 1 10)
      (SAI_FDB_ENTRY_ATTR_PORT_ID (demo_port_id 2)) (demo_fdb_state [True]))) (fdb_key 1 10) =
     Some (demo_port_id 1, SAI_FDB_ENTRY_DYNAMIC, FDB_ACTION 1, 0)"
proof -
  let ?c = "sai_l2_set_fdb_entry_attribute demo_fdb_env (fdb_key 1 10) (SAI_FDB_ENTRY_ATTR_PORT_ID (demo_port_id 2)) (demo_fdb_state [True])"
  have "fst ?c \<noteq> SAI_STATUS_SUCCESS" by code_simp
  moreover have "table_of demo_fdb_env (demo_fdb_state [True]) (fdb_key 1 10) =
     Some (demo_port_id 1, SAI_FDB_ENTRY_DYNAMIC, FDB_ACTION 1, 0)" by (simp add: demo_table demo_fdb_state_def)
  ultimately show ?thesis using fdb_set_failure_restores [OF demo_fdb_cache_ok surjective_pairing] by blast
qed

text \<open>
  A learned event that gives no port is stored with the port of the event before it, which was about
  another entry and was not even a learned one.
\<close>

lemma fdb_event_carries_port:
  "table_of demo_fdb_env
     (sai_common_fdb_event_notification demo_fdb_env
       [\<lparr>ev_event_type = SAI_FDB_EVENT_AGED, ev_fdb_entry = fdb_key 1 10, ev_attr = [SAI_FDB_ENTRY_ATTR_PORT_ID (demo_port_id 1)]\<rparr>,
        \<lparr>ev_event_type = SAI_FDB_EVENT_LEARNED, ev_fdb_entry = fdb_key 5 20, ev_attr = []\<rparr>] (demo_fdb_state [])) (fdb_key 5 20) =
     Some (demo_port_id 1, SAI_FDB_ENTRY_DYNAMIC, FDB_ACTION_ZERO, 0)"
  unfolding demo_table by code_simp

end
