(* ===== verification/Mirror_Api.thy ===== *)
theory Mirror_Api
  imports Sai_Lib
begin

text \<open>
  Mirror sessions (\<^verbatim>\<open>src/src/mirroring/sai_mirror_common.c\<close>) and the list of mirror sessions of a port
  (\<^verbatim>\<open>sai_mirror_port.c\<close>). A session has a tree of source ports, a port has a tree of sessions; both are
  keyed by the whole node, so they are sets of pairs. The lock is a flag: one path returns with the lock
  held, and a later call that needs it never returns, which is the result \<open>None\<close>.
\<close>

section \<open>Attributes\<close>

datatype mirror_ip = MIRROR_IP4 u32 | MIRROR_IP6 "128 word"

datatype sai_mirror_type =
  SAI_MIRROR_TYPE_LOCAL | SAI_MIRROR_TYPE_REMOTE | SAI_MIRROR_TYPE_ENHANCED_REMOTE | MIRROR_TYPE_OTHER int

datatype sai_mirror_direction = SAI_MIRROR_DIR_INGRESS | SAI_MIRROR_DIR_EGRESS

datatype mirror_attr =
    SAI_MIRROR_SESSION_ATTR_TYPE sai_mirror_type
  | SAI_MIRROR_SESSION_ATTR_MONITOR_PORT oid
  | SAI_MIRROR_SESSION_ATTR_TC u8
  | SAI_MIRROR_SESSION_ATTR_VLAN_TPID u16
  | SAI_MIRROR_SESSION_ATTR_VLAN_ID u16
  | SAI_MIRROR_SESSION_ATTR_VLAN_PRI u8
  | SAI_MIRROR_SESSION_ATTR_ENCAP_TYPE int
  | SAI_MIRROR_SESSION_ATTR_IPHDR_VERSION u8
  | SAI_MIRROR_SESSION_ATTR_TOS u8
  | SAI_MIRROR_SESSION_ATTR_TTL u8
  | SAI_MIRROR_SESSION_ATTR_SRC_IP_ADDRESS mirror_ip
  | SAI_MIRROR_SESSION_ATTR_DST_IP_ADDRESS mirror_ip
  | SAI_MIRROR_SESSION_ATTR_SRC_MAC_ADDRESS "u8 list"
  | SAI_MIRROR_SESSION_ATTR_DST_MAC_ADDRESS "u8 list"
  | SAI_MIRROR_SESSION_ATTR_GRE_PROTOCOL_TYPE u16
  | MIRROR_SESSION_ATTR_UNKNOWN int

text \<open>The bit that an attribute sets in the map of the attributes seen.\<close>

datatype mirror_attr_bit =
    MB_TYPE | MB_MONITOR_PORT | MB_TC | MB_VLAN_TPID | MB_VLAN_ID | MB_VLAN_PRI | MB_ENCAP_TYPE | MB_IPHDR_VERSION
  | MB_TOS | MB_TTL | MB_SRC_IP | MB_DST_IP | MB_SRC_MAC | MB_DST_MAC | MB_GRE_PROTOCOL | MB_OTHER int

fun mirror_attr_bit_of :: "mirror_attr \<Rightarrow> mirror_attr_bit" where
  "mirror_attr_bit_of (SAI_MIRROR_SESSION_ATTR_TYPE _) = MB_TYPE"
| "mirror_attr_bit_of (SAI_MIRROR_SESSION_ATTR_MONITOR_PORT _) = MB_MONITOR_PORT"
| "mirror_attr_bit_of (SAI_MIRROR_SESSION_ATTR_TC _) = MB_TC"
| "mirror_attr_bit_of (SAI_MIRROR_SESSION_ATTR_VLAN_TPID _) = MB_VLAN_TPID"
| "mirror_attr_bit_of (SAI_MIRROR_SESSION_ATTR_VLAN_ID _) = MB_VLAN_ID"
| "mirror_attr_bit_of (SAI_MIRROR_SESSION_ATTR_VLAN_PRI _) = MB_VLAN_PRI"
| "mirror_attr_bit_of (SAI_MIRROR_SESSION_ATTR_ENCAP_TYPE _) = MB_ENCAP_TYPE"
| "mirror_attr_bit_of (SAI_MIRROR_SESSION_ATTR_IPHDR_VERSION _) = MB_IPHDR_VERSION"
| "mirror_attr_bit_of (SAI_MIRROR_SESSION_ATTR_TOS _) = MB_TOS"
| "mirror_attr_bit_of (SAI_MIRROR_SESSION_ATTR_TTL _) = MB_TTL"
| "mirror_attr_bit_of (SAI_MIRROR_SESSION_ATTR_SRC_IP_ADDRESS _) = MB_SRC_IP"
| "mirror_attr_bit_of (SAI_MIRROR_SESSION_ATTR_DST_IP_ADDRESS _) = MB_DST_IP"
| "mirror_attr_bit_of (SAI_MIRROR_SESSION_ATTR_SRC_MAC_ADDRESS _) = MB_SRC_MAC"
| "mirror_attr_bit_of (SAI_MIRROR_SESSION_ATTR_DST_MAC_ADDRESS _) = MB_DST_MAC"
| "mirror_attr_bit_of (SAI_MIRROR_SESSION_ATTR_GRE_PROTOCOL_TYPE _) = MB_GRE_PROTOCOL"
| "mirror_attr_bit_of (MIRROR_SESSION_ATTR_UNKNOWN i) = MB_OTHER i"

section \<open>State\<close>

type_synonym mirror_source = "oid \<times> sai_mirror_direction"

record mirror_params =
  mp_encap_type :: int
  mp_ip_hdr_version :: u8
  mp_tos :: u8
  mp_ttl :: u8
  mp_src_ip :: mirror_ip
  mp_dst_ip :: mirror_ip
  mp_src_mac :: "u8 list"
  mp_dst_mac :: "u8 list"
  mp_gre_protocol :: u16
  mp_class_of_service :: u8
  mp_tpid :: u16
  mp_vlan_id :: u16
  mp_vlan_priority :: u8

text \<open>\<open>None\<close> is the NULL handle of a tree.\<close>

record mirror_session =
  ms_session_id :: oid
  ms_span_type :: sai_mirror_type
  ms_monitor_port :: oid
  ms_params :: mirror_params
  ms_source_ports :: "(mirror_source, unit) tree option"

text \<open>
  \<open>mirror_port_trees\<close> holds the tree of sessions in the application node of each port that has one.
\<close>

record mirror_db =
  mirror_sessions_tree :: "(oid, mirror_session) tree option"
  mirror_port_trees :: "(oid, (mirror_source, unit) tree) tree"
  mirror_locked :: bool

type_synonym 'h mirror_state = "(mirror_db, 'h) comp"

text \<open>
  \<open>mirror_walk\<close> is the order in which a tree of sessions is walked, \<open>mirror_zero\<close> the content of a node
  from \<open>calloc\<close>; the application nodes of ports, of \<open>sai_port_common\<close>, are made by \<open>port_app_get\<close> and given
  back by \<open>port_app_remove\<close>.
\<close>

record 'h mirror_env =
  mlib :: "'h sai_lib"
  mirror_walk :: "mirror_source list \<Rightarrow> mirror_source list"
  mirror_zero :: mirror_session
  mirror_vlan_valid :: "u16 \<Rightarrow> bool"
  mirror_vlan_created :: "u16 \<Rightarrow> 'h \<Rightarrow> bool"
  mirror_port_valid :: "oid \<Rightarrow> 'h \<Rightarrow> bool"
  mirror_lag_created :: "oid \<Rightarrow> 'h \<Rightarrow> bool"
  mirror_ip_zero :: "mirror_ip \<Rightarrow> bool"
  mirror_mac_zero :: "u8 list \<Rightarrow> bool"
  port_app_get :: "oid \<Rightarrow> 'h \<Rightarrow> bool \<times> 'h"
  port_app_remove :: "oid \<Rightarrow> 'h \<Rightarrow> 'h"
  npu_session_attribs_validate :: "oid \<Rightarrow> mirror_attr \<Rightarrow> nat \<Rightarrow> 'h \<Rightarrow> sai_status \<times> 'h"
  npu_session_create :: "mirror_session \<Rightarrow> 'h \<Rightarrow> (sai_status \<times> u64) \<times> 'h"
  npu_session_destroy :: "oid \<Rightarrow> 'h \<Rightarrow> sai_status \<times> 'h"
  npu_session_set :: "oid \<Rightarrow> sai_mirror_type \<Rightarrow> mirror_attr \<Rightarrow> 'h \<Rightarrow> sai_status \<times> 'h"
  npu_session_get :: "oid \<Rightarrow> sai_mirror_type \<Rightarrow> mirror_attr list \<Rightarrow> 'h \<Rightarrow> (sai_status \<times> mirror_attr list) \<times> 'h"
  npu_session_port_add :: "oid \<Rightarrow> oid \<Rightarrow> sai_mirror_direction \<Rightarrow> 'h \<Rightarrow> sai_status \<times> 'h"
  npu_session_port_remove :: "oid \<Rightarrow> oid \<Rightarrow> sai_mirror_direction \<Rightarrow> 'h \<Rightarrow> sai_status \<times> 'h"
  npu_mirror_init :: "'h \<Rightarrow> sai_status \<times> 'h"

definition with_mirror_lock :: "('h mirror_state \<Rightarrow> 'a) \<Rightarrow> 'h mirror_state \<Rightarrow> 'a option" where
  "with_mirror_lock body s = (if mirror_locked (sw s) then None else Some (body s))"

definition mirror_sessions_put :: "(oid, mirror_session) tree \<Rightarrow> 'h mirror_state \<Rightarrow> 'h mirror_state" where
  "mirror_sessions_put t s = upd_sw (\<lambda>d. d\<lparr>mirror_sessions_tree := Some t\<rparr>) s"

definition mirror_ports_put :: "(oid, (mirror_source, unit) tree) tree \<Rightarrow> 'h mirror_state \<Rightarrow> 'h mirror_state" where
  "mirror_ports_put t s = upd_sw (\<lambda>d. d\<lparr>mirror_port_trees := t\<rparr>) s"

text \<open>An exact lookup in the tree of sessions; a handle that is NULL has no node.\<close>

definition mirror_session_get :: "mirror_db \<Rightarrow> oid \<Rightarrow> mirror_session option" where
  "mirror_session_get d i = (case mirror_sessions_tree d of None \<Rightarrow> None | Some t \<Rightarrow> tree_get t i)"

definition mirror_session_put :: "oid \<Rightarrow> mirror_session \<Rightarrow> 'h mirror_state \<Rightarrow> 'h mirror_state" where
  "mirror_session_put i n s =
     (case mirror_sessions_tree (sw s) of None \<Rightarrow> s | Some t \<Rightarrow> mirror_sessions_put (tree_put i n t) s)"

definition is_obj_id_mirror_session :: "'h mirror_env \<Rightarrow> oid \<Rightarrow> bool" where
  "is_obj_id_mirror_session e i \<longleftrightarrow> lib_object_type (mlib e) i = SAI_OBJECT_TYPE_MIRROR"

section \<open>Filling a session from attributes\<close>

fun sai_mirror_is_span_type_valid :: "sai_mirror_type \<Rightarrow> bool" where
  "sai_mirror_is_span_type_valid SAI_MIRROR_TYPE_LOCAL = True"
| "sai_mirror_is_span_type_valid SAI_MIRROR_TYPE_REMOTE = True"
| "sai_mirror_is_span_type_valid SAI_MIRROR_TYPE_ENHANCED_REMOTE = True"
| "sai_mirror_is_span_type_valid (MIRROR_TYPE_OTHER _) = False"

definition sai_mirror_span_bitmap :: "mirror_attr_bit list" where
  "sai_mirror_span_bitmap = [MB_MONITOR_PORT, MB_TYPE]"

definition sai_mirror_rspan_bitmap :: "mirror_attr_bit list" where
  "sai_mirror_rspan_bitmap = [MB_MONITOR_PORT, MB_TYPE, MB_VLAN_TPID, MB_VLAN_ID, MB_VLAN_PRI]"

definition sai_mirror_erspan_bitmap :: "mirror_attr_bit list" where
  "sai_mirror_erspan_bitmap =
     [MB_MONITOR_PORT, MB_TYPE, MB_VLAN_TPID, MB_VLAN_ID, MB_VLAN_PRI, MB_ENCAP_TYPE, MB_IPHDR_VERSION, MB_TOS,
      MB_SRC_IP, MB_DST_IP, MB_SRC_MAC, MB_DST_MAC, MB_GRE_PROTOCOL]"

fun mirror_required :: "sai_mirror_type \<Rightarrow> mirror_attr_bit list" where
  "mirror_required SAI_MIRROR_TYPE_LOCAL = sai_mirror_span_bitmap"
| "mirror_required SAI_MIRROR_TYPE_REMOTE = sai_mirror_rspan_bitmap"
| "mirror_required SAI_MIRROR_TYPE_ENHANCED_REMOTE = sai_mirror_erspan_bitmap"
| "mirror_required (MIRROR_TYPE_OTHER _) = []"

definition sai_mirror_is_mandat_attribute_missing :: "mirror_attr_bit list \<Rightarrow> sai_mirror_type \<Rightarrow> bool" where
  "sai_mirror_is_mandat_attribute_missing seen ty = (\<not> list_all (\<lambda>b. List.member seen b) (mirror_required ty))"

abbreviation mirror_bad_value :: "'h mirror_env \<Rightarrow> nat \<Rightarrow> sai_status" where
  "mirror_bad_value e idx \<equiv> lib_indexed_ret_val (mlib e) SAI_STATUS_INVALID_ATTR_VALUE_0 idx"

definition set_params :: "(mirror_params \<Rightarrow> mirror_params) \<Rightarrow> mirror_session \<Rightarrow> mirror_session" where
  "set_params f n = n\<lparr>ms_params := f (ms_params n)\<rparr>"

fun sai_mirror_fill_erspan_attribute_params ::
    "'h mirror_env \<Rightarrow> mirror_session \<Rightarrow> mirror_attr \<Rightarrow> nat \<Rightarrow> sai_status \<times> mirror_session" where
  "sai_mirror_fill_erspan_attribute_params e n (SAI_MIRROR_SESSION_ATTR_ENCAP_TYPE v) idx =
     (SAI_STATUS_SUCCESS, set_params (\<lambda>p. p\<lparr>mp_encap_type := v\<rparr>) n)"
| "sai_mirror_fill_erspan_attribute_params e n (SAI_MIRROR_SESSION_ATTR_IPHDR_VERSION v) idx =
     (SAI_STATUS_SUCCESS, set_params (\<lambda>p. p\<lparr>mp_ip_hdr_version := v\<rparr>) n)"
| "sai_mirror_fill_erspan_attribute_params e n (SAI_MIRROR_SESSION_ATTR_TOS v) idx =
     (SAI_STATUS_SUCCESS, set_params (\<lambda>p. p\<lparr>mp_tos := v\<rparr>) n)"
| "sai_mirror_fill_erspan_attribute_params e n (SAI_MIRROR_SESSION_ATTR_TTL v) idx =
     (SAI_STATUS_SUCCESS, set_params (\<lambda>p. p\<lparr>mp_ttl := v\<rparr>) n)"
| "sai_mirror_fill_erspan_attribute_params e n (SAI_MIRROR_SESSION_ATTR_SRC_IP_ADDRESS v) idx =
     (if mirror_ip_zero e v then (mirror_bad_value e idx, n)
      else (SAI_STATUS_SUCCESS, set_params (\<lambda>p. p\<lparr>mp_src_ip := v\<rparr>) n))"
| "sai_mirror_fill_erspan_attribute_params e n (SAI_MIRROR_SESSION_ATTR_DST_IP_ADDRESS v) idx =
     (if mirror_ip_zero e v then (mirror_bad_value e idx, n)
      else (SAI_STATUS_SUCCESS, set_params (\<lambda>p. p\<lparr>mp_dst_ip := v\<rparr>) n))"
| "sai_mirror_fill_erspan_attribute_params e n (SAI_MIRROR_SESSION_ATTR_SRC_MAC_ADDRESS v) idx =
     (if mirror_mac_zero e v then (mirror_bad_value e idx, n)
      else (SAI_STATUS_SUCCESS, set_params (\<lambda>p. p\<lparr>mp_src_mac := v\<rparr>) n))"
| "sai_mirror_fill_erspan_attribute_params e n (SAI_MIRROR_SESSION_ATTR_DST_MAC_ADDRESS v) idx =
     (if mirror_mac_zero e v then (mirror_bad_value e idx, n)
      else (SAI_STATUS_SUCCESS, set_params (\<lambda>p. p\<lparr>mp_dst_mac := v\<rparr>) n))"
| "sai_mirror_fill_erspan_attribute_params e n (SAI_MIRROR_SESSION_ATTR_GRE_PROTOCOL_TYPE v) idx =
     (SAI_STATUS_SUCCESS, set_params (\<lambda>p. p\<lparr>mp_gre_protocol := v\<rparr>) n)"
| "sai_mirror_fill_erspan_attribute_params e n _ idx =
     (lib_indexed_ret_val (mlib e) SAI_STATUS_UNKNOWN_ATTRIBUTE_0 idx, n)"

definition mirror_monitor_valid :: "'h mirror_env \<Rightarrow> oid \<Rightarrow> 'h \<Rightarrow> bool" where
  "mirror_monitor_valid e p h =
     (if lib_object_type (mlib e) p = SAI_OBJECT_TYPE_PORT then mirror_port_valid e p h
      else lib_object_type (mlib e) p = SAI_OBJECT_TYPE_LAG \<and> mirror_lag_created e p h)"

text \<open>The type is stored before it is checked.\<close>

fun sai_mirror_fill_attribute_params ::
    "'h mirror_env \<Rightarrow> 'h \<Rightarrow> mirror_session \<Rightarrow> mirror_attr \<Rightarrow> nat \<Rightarrow> sai_status \<times> mirror_session" where
  "sai_mirror_fill_attribute_params e h n (SAI_MIRROR_SESSION_ATTR_TYPE v) idx =
     (if sai_mirror_is_span_type_valid v then SAI_STATUS_SUCCESS else mirror_bad_value e idx, n\<lparr>ms_span_type := v\<rparr>)"
| "sai_mirror_fill_attribute_params e h n (SAI_MIRROR_SESSION_ATTR_TC v) idx =
     (SAI_STATUS_SUCCESS, set_params (\<lambda>p. p\<lparr>mp_class_of_service := v\<rparr>) n)"
| "sai_mirror_fill_attribute_params e h n (SAI_MIRROR_SESSION_ATTR_VLAN_TPID v) idx =
     (SAI_STATUS_SUCCESS, set_params (\<lambda>p. p\<lparr>mp_tpid := v\<rparr>) n)"
| "sai_mirror_fill_attribute_params e h n (SAI_MIRROR_SESSION_ATTR_VLAN_ID v) idx =
     (if \<not> mirror_vlan_valid e v then (mirror_bad_value e idx, n)
      else if \<not> mirror_vlan_created e v h then (mirror_bad_value e idx, n)
      else (SAI_STATUS_SUCCESS, set_params (\<lambda>p. p\<lparr>mp_vlan_id := v\<rparr>) n))"
| "sai_mirror_fill_attribute_params e h n (SAI_MIRROR_SESSION_ATTR_VLAN_PRI v) idx =
     (SAI_STATUS_SUCCESS, set_params (\<lambda>p. p\<lparr>mp_vlan_priority := v\<rparr>) n)"
| "sai_mirror_fill_attribute_params e h n (SAI_MIRROR_SESSION_ATTR_MONITOR_PORT p) idx =
     (if mirror_monitor_valid e p h then (SAI_STATUS_SUCCESS, n\<lparr>ms_monitor_port := p\<rparr>) else (mirror_bad_value e idx, n))"
| "sai_mirror_fill_attribute_params e h n attr idx = sai_mirror_fill_erspan_attribute_params e n attr idx"

section \<open>Sessions\<close>

text \<open>The loop over the attributes of a creation, with the bits seen so far.\<close>

fun mirror_create_loop ::
    "'h mirror_env \<Rightarrow> nat \<Rightarrow> mirror_attr list \<Rightarrow> mirror_session \<Rightarrow> mirror_attr_bit list \<Rightarrow> 'h mirror_state
     \<Rightarrow> sai_status \<times> mirror_session \<times> mirror_attr_bit list \<times> 'h mirror_state" where
  "mirror_create_loop e idx [] n seen s = (SAI_STATUS_SUCCESS, n, seen, s)"
| "mirror_create_loop e idx (attr # attrs) n seen s =
     (let seen = mirror_attr_bit_of attr # seen;
          (st, n) = sai_mirror_fill_attribute_params e (ext s) n attr idx
      in if st \<noteq> SAI_STATUS_SUCCESS then (st, n, seen, s)
         else let (st, s) = ext_call (npu_session_attribs_validate e (ms_session_id n) attr idx) s
              in if st \<noteq> SAI_STATUS_SUCCESS then (st, n, seen, s)
                 else mirror_create_loop e (idx + 1) attrs n seen s)"

text \<open>From the creation in the hardware on: the node is inserted, then it gets its tree of source ports.\<close>

definition mirror_create_insert ::
    "'h mirror_env \<Rightarrow> (oid, mirror_session) tree \<Rightarrow> mirror_session \<Rightarrow> 'h mirror_state
     \<Rightarrow> sai_status \<times> oid option \<times> 'h mirror_state" where
  "mirror_create_insert e t n s =
     (let ((st, npu_object_id), s) = ext_call (npu_session_create e n) s
      in if st \<noteq> SAI_STATUS_SUCCESS then (st, None, s)
         else let i = lib_uoid_create (mlib e) SAI_OBJECT_TYPE_MIRROR npu_object_id;
                  n = n\<lparr>ms_session_id := i\<rparr>;
                  (ok, s) = lib_insert_ok (mlib e) t i s
              in if \<not> ok then (SAI_STATUS_FAILURE, None, snd (ext_call (npu_session_destroy e i) s))
                 else let s = mirror_sessions_put (tree_put i n t) s;
                          (ok, s) = ext_call (lib_rbtree_create_ok (mlib e)) s
                      in if \<not> ok then (SAI_STATUS_FAILURE, None,
                                       snd (ext_call (npu_session_destroy e i) (mirror_sessions_put (tree_del i t) s)))
                         else (SAI_STATUS_SUCCESS, Some i, mirror_session_put i (n\<lparr>ms_source_ports := Some []\<rparr>) s))"

definition mirror_create_steps ::
    "'h mirror_env \<Rightarrow> mirror_attr list \<Rightarrow> 'h mirror_state \<Rightarrow> sai_status \<times> oid option \<times> 'h mirror_state" where
  "mirror_create_steps e attrs s =
     (case mirror_sessions_tree (sw s) of
        None \<Rightarrow> (SAI_STATUS_FAILURE, None, s)
      | Some t \<Rightarrow>
          (let (ok, s) = ext_call (lib_calloc_ok (mlib e)) s
           in if \<not> ok then (SAI_STATUS_NO_MEMORY, None, s)
              else let (st, n, seen, s) = mirror_create_loop e 0 attrs (mirror_zero e) [] s
                   in if st \<noteq> SAI_STATUS_SUCCESS then (st, None, s)
                      else if sai_mirror_is_mandat_attribute_missing seen (ms_span_type n)
                      then (SAI_STATUS_MANDATORY_ATTRIBUTE_MISSING, None, s)
                      else mirror_create_insert e t n s))"

definition sai_mirror_session_create ::
    "'h mirror_env \<Rightarrow> mirror_attr list \<Rightarrow> 'h mirror_state \<Rightarrow> (sai_status \<times> oid option \<times> 'h mirror_state) option" where
  "sai_mirror_session_create e attrs s = with_mirror_lock (mirror_create_steps e attrs) s"

definition mirror_remove_steps :: "'h mirror_env \<Rightarrow> oid \<Rightarrow> 'h mirror_state \<Rightarrow> sai_status \<times> 'h mirror_state" where
  "mirror_remove_steps e i s =
     (case mirror_sessions_tree (sw s) of
        None \<Rightarrow> (SAI_STATUS_FAILURE, s)
      | Some t \<Rightarrow>
          (case tree_get t i of
             None \<Rightarrow> (SAI_STATUS_INVALID_OBJECT_ID, s)
           | Some n \<Rightarrow>
               if (case ms_source_ports n of None \<Rightarrow> False | Some ps \<Rightarrow> ps \<noteq> []) then (SAI_STATUS_OBJECT_IN_USE, s)
               else let (st, s) = ext_call (npu_session_destroy e (ms_session_id n)) s
                    in if st \<noteq> SAI_STATUS_SUCCESS then (st, s)
                       else (SAI_STATUS_SUCCESS, mirror_sessions_put (tree_del i t) s)))"

definition sai_mirror_session_remove :: "'h mirror_env \<Rightarrow> oid \<Rightarrow> 'h mirror_state \<Rightarrow> (sai_status \<times> 'h mirror_state) option" where
  "sai_mirror_session_remove e i s =
     (if \<not> is_obj_id_mirror_session e i then Some (SAI_STATUS_INVALID_OBJECT_TYPE, s)
      else with_mirror_lock (mirror_remove_steps e i) s)"

section \<open>Source ports\<close>

definition mirror_port_add_steps ::
    "'h mirror_env \<Rightarrow> oid \<Rightarrow> mirror_source \<Rightarrow> 'h mirror_state \<Rightarrow> sai_status \<times> 'h mirror_state" where
  "mirror_port_add_steps e i src s =
     (if \<not> mirror_port_valid e (fst src) (ext s) then (SAI_STATUS_INVALID_OBJECT_ID, s)
      else if mirror_sessions_tree (sw s) = None then (SAI_STATUS_FAILURE, s)
      else case mirror_session_get (sw s) i of
             None \<Rightarrow> (SAI_STATUS_INVALID_OBJECT_ID, s)
           | Some n \<Rightarrow>
               (case ms_source_ports n of
                  None \<Rightarrow> (SAI_STATUS_FAILURE, s)
                | Some ps \<Rightarrow>
                    if tree_get ps src \<noteq> None then (SAI_STATUS_ITEM_ALREADY_EXISTS, s)
                    else let (ok, s) = ext_call (lib_calloc_ok (mlib e)) s
                         in if \<not> ok then (SAI_STATUS_NO_MEMORY, s)
                            else let (st, s) = ext_call (npu_session_port_add e i (fst src) (snd src)) s
                                 in if st \<noteq> SAI_STATUS_SUCCESS then (st, s)
                                    else let (ok, s) = lib_insert_ok (mlib e) ps src s
                                         in if \<not> ok
                                            then (SAI_STATUS_FAILURE,
                                                  snd (ext_call (npu_session_port_remove e (ms_session_id n) (fst src) (snd src)) s))
                                            else (SAI_STATUS_SUCCESS,
                                                  mirror_session_put i (n\<lparr>ms_source_ports := Some (tree_put src () ps)\<rparr>) s)))"

definition sai_mirror_session_port_add ::
    "'h mirror_env \<Rightarrow> oid \<Rightarrow> mirror_source \<Rightarrow> 'h mirror_state \<Rightarrow> (sai_status \<times> 'h mirror_state) option" where
  "sai_mirror_session_port_add e i src s =
     (if \<not> is_obj_id_mirror_session e i then Some (SAI_STATUS_INVALID_OBJECT_TYPE, s)
      else with_mirror_lock (mirror_port_add_steps e i src) s)"

definition mirror_port_remove_steps ::
    "'h mirror_env \<Rightarrow> oid \<Rightarrow> mirror_source \<Rightarrow> 'h mirror_state \<Rightarrow> sai_status \<times> 'h mirror_state" where
  "mirror_port_remove_steps e i src s =
     (if \<not> mirror_port_valid e (fst src) (ext s) then (SAI_STATUS_INVALID_OBJECT_ID, s)
      else if mirror_sessions_tree (sw s) = None then (SAI_STATUS_FAILURE, s)
      else case mirror_session_get (sw s) i of
             None \<Rightarrow> (SAI_STATUS_INVALID_OBJECT_ID, s)
           | Some n \<Rightarrow>
               (case ms_source_ports n of
                  None \<Rightarrow> (SAI_STATUS_FAILURE, s)
                | Some ps \<Rightarrow>
                    if tree_get ps src = None then (SAI_STATUS_ITEM_NOT_FOUND, s)
                    else let (st, s) = ext_call (npu_session_port_remove e i (fst src) (snd src)) s
                         in if st \<noteq> SAI_STATUS_SUCCESS then (st, s)
                            else (SAI_STATUS_SUCCESS,
                                  mirror_session_put i (n\<lparr>ms_source_ports := Some (tree_del src ps)\<rparr>) s)))"

definition sai_mirror_session_port_remove ::
    "'h mirror_env \<Rightarrow> oid \<Rightarrow> mirror_source \<Rightarrow> 'h mirror_state \<Rightarrow> (sai_status \<times> 'h mirror_state) option" where
  "sai_mirror_session_port_remove e i src s =
     (if \<not> is_obj_id_mirror_session e i then Some (SAI_STATUS_INVALID_OBJECT_TYPE, s)
      else with_mirror_lock (mirror_port_remove_steps e i src) s)"

section \<open>Attributes of a session\<close>

text \<open>The copy taken before is put back when the hardware refuses, not when the attribute is refused.\<close>

definition mirror_set_steps :: "'h mirror_env \<Rightarrow> oid \<Rightarrow> mirror_attr \<Rightarrow> 'h mirror_state \<Rightarrow> sai_status \<times> 'h mirror_state" where
  "mirror_set_steps e i attr s =
     (case mirror_session_get (sw s) i of
        None \<Rightarrow> (SAI_STATUS_INVALID_OBJECT_ID, s)
      | Some orig \<Rightarrow>
          (let (st, n) = sai_mirror_fill_attribute_params e (ext s) orig attr 0;
               s = mirror_session_put i n s
           in if st \<noteq> SAI_STATUS_SUCCESS then (st, s)
              else let (st, s) = ext_call (npu_session_set e i (ms_span_type n) attr) s
                   in (st, if st \<noteq> SAI_STATUS_SUCCESS then mirror_session_put i orig s else s)))"

definition sai_mirror_session_attribute_set ::
    "'h mirror_env \<Rightarrow> oid \<Rightarrow> mirror_attr \<Rightarrow> 'h mirror_state \<Rightarrow> (sai_status \<times> 'h mirror_state) option" where
  "sai_mirror_session_attribute_set e i attr s =
     (if \<not> is_obj_id_mirror_session e i then Some (SAI_STATUS_INVALID_OBJECT_TYPE, s)
      else with_mirror_lock (mirror_set_steps e i attr) s)"

definition mirror_get_steps ::
    "'h mirror_env \<Rightarrow> oid \<Rightarrow> mirror_attr list \<Rightarrow> 'h mirror_state \<Rightarrow> (sai_status \<times> mirror_attr list) \<times> 'h mirror_state" where
  "mirror_get_steps e i attrs s =
     (case mirror_session_get (sw s) i of
        None \<Rightarrow> ((SAI_STATUS_INVALID_OBJECT_ID, attrs), s)
      | Some n \<Rightarrow> ext_call (npu_session_get e i (ms_span_type n) attrs) s)"

definition sai_mirror_session_attribute_get ::
    "'h mirror_env \<Rightarrow> oid \<Rightarrow> mirror_attr list \<Rightarrow> 'h mirror_state
     \<Rightarrow> ((sai_status \<times> mirror_attr list) \<times> 'h mirror_state) option" where
  "sai_mirror_session_attribute_get e i attrs s =
     (if \<not> is_obj_id_mirror_session e i then Some ((SAI_STATUS_INVALID_OBJECT_TYPE, attrs), s)
      else with_mirror_lock (mirror_get_steps e i attrs) s)"

definition sai_mirror_init :: "'h mirror_env \<Rightarrow> 'h mirror_state \<Rightarrow> sai_status \<times> 'h mirror_state" where
  "sai_mirror_init e s =
     (let s = upd_sw (\<lambda>d. d\<lparr>mirror_locked := False\<rparr>) s;
          (ok, s) = ext_call (lib_rbtree_create_ok (mlib e)) s
      in if \<not> ok then (SAI_STATUS_FAILURE, upd_sw (\<lambda>d. d\<lparr>mirror_sessions_tree := None\<rparr>) s)
         else ext_call (npu_mirror_init e) (mirror_sessions_put [] s))"

text \<open>A session that is not found is reported with the lock held.\<close>

definition sai_mirror_is_valid_mirror_session :: "oid \<Rightarrow> 'h mirror_state \<Rightarrow> (bool \<times> 'h mirror_state) option" where
  "sai_mirror_is_valid_mirror_session i s =
     (if mirror_locked (sw s) then None
      else if mirror_session_get (sw s) i = None then Some (False, upd_sw (\<lambda>d. d\<lparr>mirror_locked := True\<rparr>) s)
      else Some (True, s))"

section \<open>The sessions of a port\<close>

text \<open>The walk over the sessions of a port that are not in the new list.\<close>

fun mirror_remove_walk ::
    "'h mirror_env \<Rightarrow> oid \<Rightarrow> oid list \<Rightarrow> sai_mirror_direction \<Rightarrow> mirror_source list
     \<Rightarrow> (mirror_source, unit) tree \<Rightarrow> 'h mirror_state
     \<Rightarrow> (sai_status \<times> (mirror_source, unit) tree \<times> 'h mirror_state) option" where
  "mirror_remove_walk e p sessions dir [] t s = Some (SAI_STATUS_SUCCESS, t, s)"
| "mirror_remove_walk e p sessions dir ((i, d) # walk) t s =
     (if d \<noteq> dir \<or> List.member sessions i then mirror_remove_walk e p sessions dir walk t s
      else case sai_mirror_session_port_remove e i (p, dir) s of
             None \<Rightarrow> None
           | Some (st, s) \<Rightarrow>
               if st \<noteq> SAI_STATUS_SUCCESS then Some (st, t, s)
               else mirror_remove_walk e p sessions dir walk (tree_del (i, d) t) s)"

definition sai_mirror_remove_mirror_per_port ::
    "'h mirror_env \<Rightarrow> oid \<Rightarrow> oid list \<Rightarrow> sai_mirror_direction \<Rightarrow> 'h mirror_state \<Rightarrow> (sai_status \<times> 'h mirror_state) option" where
  "sai_mirror_remove_mirror_per_port e p sessions dir s =
     (let (ok, s) = ext_call (port_app_get e p) s
      in if \<not> ok then Some (SAI_STATUS_FAILURE, s)
         else case tree_get (mirror_port_trees (sw s)) p of
                None \<Rightarrow> Some (SAI_STATUS_FAILURE, s)
              | Some t \<Rightarrow>
                  (case mirror_remove_walk e p sessions dir (mirror_walk e (map fst t)) t s of
                     None \<Rightarrow> None
                   | Some (st, t, s) \<Rightarrow>
                       Some (st, if t = []
                                 then (mirror_ports_put (tree_del p (mirror_port_trees (sw s))) s)\<lparr>ext := port_app_remove e p (ext s)\<rparr>
                                 else mirror_ports_put (tree_put p t (mirror_port_trees (sw s))) s)))"

text \<open>
  The walk over the new list. A session that took the port stays in the hardware and in its tree when no
  node can be allocated for the tree of the port.
\<close>

fun mirror_add_walk ::
    "'h mirror_env \<Rightarrow> oid \<Rightarrow> sai_mirror_direction \<Rightarrow> oid list \<Rightarrow> (mirror_source, unit) tree \<Rightarrow> 'h mirror_state
     \<Rightarrow> (sai_status \<times> (mirror_source, unit) tree \<times> 'h mirror_state) option" where
  "mirror_add_walk e p dir [] t s = Some (SAI_STATUS_SUCCESS, t, s)"
| "mirror_add_walk e p dir (i # sessions) t s =
     (if tree_get t (i, dir) \<noteq> None then mirror_add_walk e p dir sessions t s
      else case sai_mirror_session_port_add e i (p, dir) s of
             None \<Rightarrow> None
           | Some (st, s) \<Rightarrow>
               if st \<noteq> SAI_STATUS_SUCCESS then Some (st, t, s)
               else let (ok, s) = ext_call (lib_calloc_ok (mlib e)) s
                    in if \<not> ok then Some (SAI_STATUS_NO_MEMORY, t, s)
                       else let (ok, s) = lib_insert_ok (mlib e) t (i, dir) s
                            in if \<not> ok
                               then (case sai_mirror_session_port_remove e i (p, dir) s of
                                       None \<Rightarrow> None | Some (_, s) \<Rightarrow> Some (SAI_STATUS_FAILURE, t, s))
                               else mirror_add_walk e p dir sessions (tree_put (i, dir) () t) s)"

definition mirror_port_tree_make ::
    "'h mirror_env \<Rightarrow> oid \<Rightarrow> 'h mirror_state \<Rightarrow> (mirror_source, unit) tree option \<times> 'h mirror_state" where
  "mirror_port_tree_make e p s =
     (case tree_get (mirror_port_trees (sw s)) p of
        Some t \<Rightarrow> (Some t, s)
      | None \<Rightarrow> (let (ok, s) = ext_call (lib_rbtree_create_ok (mlib e)) s
                 in if \<not> ok then (None, s) else (Some [], mirror_ports_put (tree_put p [] (mirror_port_trees (sw s))) s)))"

definition sai_mirror_handle_per_port ::
    "'h mirror_env \<Rightarrow> oid \<Rightarrow> oid list \<Rightarrow> sai_mirror_direction \<Rightarrow> 'h mirror_state \<Rightarrow> (sai_status \<times> 'h mirror_state) option" where
  "sai_mirror_handle_per_port e p sessions dir s =
     (let (ok, s) = ext_call (port_app_get e p) s
      in if \<not> ok then Some (SAI_STATUS_FAILURE, s)
         else case mirror_port_tree_make e p s of
                (None, s) \<Rightarrow> Some (SAI_STATUS_FAILURE, s)
              | (Some t, s) \<Rightarrow>
                  (case mirror_add_walk e p dir sessions t s of
                     None \<Rightarrow> None
                   | Some (st, t, s) \<Rightarrow>
                       (let s = mirror_ports_put (tree_put p t (mirror_port_trees (sw s))) s
                        in if st = SAI_STATUS_SUCCESS then sai_mirror_remove_mirror_per_port e p sessions dir s
                           else Some (st, s))))"

end
