(* ===== verification/Mirror_Ops.thy ===== *)
theory Mirror_Ops
  imports Mirror_Api
begin

text \<open>
  What the operations on mirror sessions do, seen as two relations: the source ports of each session, and
  the sessions of each port. The invariant that the second lies in the first, and a session that holds a
  port no list of a port names.
\<close>

section \<open>The two relations\<close>

definition srcs :: "mirror_db \<Rightarrow> oid \<rightharpoonup> mirror_source set" where
  "srcs d i = Option.bind (mirror_session_get d i) (\<lambda>n. map_option tree_dom (ms_source_ports n))"

definition apps :: "mirror_db \<Rightarrow> oid \<Rightarrow> mirror_source set" where
  "apps d p = (case tree_get (mirror_port_trees d) p of None \<Rightarrow> {} | Some t \<Rightarrow> tree_dom t)"

text \<open>Every stored session has its own id and a tree of source ports, and the trees of the ports are trees.\<close>

definition mirror_wf :: "mirror_db \<Rightarrow> bool" where
  "mirror_wf d \<longleftrightarrow>
     (\<forall>i n. mirror_session_get d i = Some n \<longrightarrow> ms_session_id n = i \<and> ms_source_ports n \<noteq> None) \<and>
     (\<forall>p t. tree_get (mirror_port_trees d) p = Some t \<longrightarrow> tree_wf t)"

definition mirror_consistent :: "mirror_db \<Rightarrow> bool" where
  "mirror_consistent d \<longleftrightarrow> (\<forall>p i dir. (i, dir) \<in> apps d p \<longrightarrow> (\<exists>P. srcs d i = Some P \<and> (p, dir) \<in> P))"

text \<open>The other direction: what a session mirrors is in the list of the port.\<close>

definition mirror_complete :: "mirror_db \<Rightarrow> bool" where
  "mirror_complete d \<longleftrightarrow> (\<forall>i P p dir. srcs d i = Some P \<longrightarrow> (p, dir) \<in> P \<longrightarrow> (i, dir) \<in> apps d p)"

definition mirror_env_ok :: "'h mirror_env \<Rightarrow> bool" where
  "mirror_env_ok e \<longleftrightarrow> lib_ok (mlib e) \<and> (\<forall>xs. mset (mirror_walk e xs) = mset xs)"

definition calloc_never_fails :: "'h sai_lib \<Rightarrow> bool" where
  "calloc_never_fails l \<longleftrightarrow> (\<forall>h. fst (lib_calloc_ok l h))"

lemma calloc_never_failsD: "calloc_never_fails l \<Longrightarrow> ext_call (lib_calloc_ok l) s = (ok, s') \<Longrightarrow> ok"
  unfolding calloc_never_fails_def ext_call_def by (metis (no_types, lifting) Pair_inject case_prod_beta)

lemma mirror_walk_perm:
  assumes "mirror_env_ok e"
  shows "set (mirror_walk e xs) = set xs" "distinct (mirror_walk e xs) = distinct xs"
proof -
  have "mset (mirror_walk e xs) = mset xs" using assms by (simp add: mirror_env_ok_def)
  then show "set (mirror_walk e xs) = set xs" "distinct (mirror_walk e xs) = distinct xs"
    by (metis set_mset_mset) (metis mset_eq_imp_distinct_iff \<open>mset (mirror_walk e xs) = mset xs\<close>)
qed

lemma mirror_put_sel [simp]:
  "mirror_sessions_tree (sw (mirror_sessions_put t s)) = Some t"
  "mirror_port_trees (sw (mirror_sessions_put t s)) = mirror_port_trees (sw s)"
  "mirror_locked (sw (mirror_sessions_put t s)) = mirror_locked (sw s)"
  "mirror_sessions_tree (sw (mirror_ports_put u s)) = mirror_sessions_tree (sw s)"
  "mirror_port_trees (sw (mirror_ports_put u s)) = u"
  "mirror_locked (sw (mirror_ports_put u s)) = mirror_locked (sw s)"
  "mirror_port_trees (sw (mirror_session_put i n s)) = mirror_port_trees (sw s)"
  "mirror_locked (sw (mirror_session_put i n s)) = mirror_locked (sw s)"
  by (simp_all add: mirror_sessions_put_def mirror_ports_put_def mirror_session_put_def split: option.splits)

lemma session_get_put: "mirror_session_get (sw s) j \<noteq> None \<Longrightarrow>
  mirror_session_get (sw (mirror_session_put i n s)) k = (if k = i then Some n else mirror_session_get (sw s) k)"
  by (auto simp: mirror_session_put_def mirror_sessions_put_def mirror_session_get_def split: option.splits)

lemma session_get_ports_put [simp]: "mirror_session_get (sw (mirror_ports_put u s)) k = mirror_session_get (sw s) k"
  by (simp add: mirror_session_get_def)

lemma srcs_ports_put [simp]: "srcs (sw (mirror_ports_put u s)) = srcs (sw s)"
  by (simp add: srcs_def fun_eq_iff)

lemma apps_cong: "mirror_port_trees d' = mirror_port_trees d \<Longrightarrow> apps d' = apps d"
  by (simp add: apps_def fun_eq_iff)

lemma apps_ports_put: "apps (sw (mirror_ports_put u s)) p = (case tree_get u p of None \<Rightarrow> {} | Some t \<Rightarrow> tree_dom t)"
  by (simp add: apps_def)

lemma srcs_put:
  assumes "mirror_session_get (sw s) j \<noteq> None"
  shows "srcs (sw (mirror_session_put i n s)) = (srcs (sw s))(i := map_option tree_dom (ms_source_ports n))"
  by (rule ext) (simp add: srcs_def session_get_put [OF assms])

lemma mirror_wfD: "mirror_wf d \<Longrightarrow> mirror_session_get d i = Some n \<Longrightarrow> ms_session_id n = i \<and> (\<exists>ps. ms_source_ports n = Some ps)"
  unfolding mirror_wf_def by blast

lemma session_get_tree: "mirror_session_get d i = Some n \<Longrightarrow> mirror_sessions_tree d \<noteq> None"
  by (cases "mirror_sessions_tree d") (simp_all add: mirror_session_get_def)

lemma srcs_None_iff: "mirror_wf d \<Longrightarrow> srcs d i = None \<longleftrightarrow> mirror_session_get d i = None"
  by (cases "mirror_session_get d i") (auto simp: srcs_def mirror_wf_def)

lemma mirror_wf_session_put:
  assumes "mirror_wf (sw s)" "mirror_session_get (sw s) j \<noteq> None" "ms_session_id n = i" "ms_source_ports n \<noteq> None"
  shows "mirror_wf (sw (mirror_session_put i n s))"
  using assms by (simp add: mirror_wf_def session_get_put [OF assms(2)])

section \<open>Sessions\<close>

lemma fill_keeps:
  "sai_mirror_fill_attribute_params e h n attr idx = (st, n') \<Longrightarrow>
    ms_session_id n' = ms_session_id n \<and> ms_source_ports n' = ms_source_ports n"
proof (cases attr)
  case (SAI_MIRROR_SESSION_ATTR_TYPE v)
  then show "sai_mirror_fill_attribute_params e h n attr idx = (st, n') \<Longrightarrow> ?thesis" by auto
qed (auto simp: set_params_def split: if_splits)

lemma create_loop_sw:
  "mirror_create_loop e idx attrs n seen s = (st, n', seen', s') \<Longrightarrow> sw s' = sw s"
proof (induction attrs arbitrary: idx n seen s)
  case (Cons attr attrs)
  obtain st1 n1 where 1: "sai_mirror_fill_attribute_params e (ext s) n attr idx = (st1, n1)" by force
  obtain st2 s2 where 2: "ext_call (npu_session_attribs_validate e (ms_session_id n1) attr idx) s = (st2, s2)" by force
  have "sw s2 = sw s" by (rule ext_call_sw [OF 2])
  then show ?case
    using Cons.prems Cons.IH [of "idx + 1" n1 "mirror_attr_bit_of attr # seen" s2]
    by (simp add: Let_def 1 2 split: if_splits)
qed simp

text \<open>On success one session is added, under an id that was not in use, without source ports.\<close>

lemma create_insert_result:
  assumes wf: "mirror_wf (sw s)" and t: "mirror_sessions_tree (sw s) = Some t" and c: "mirror_create_insert e t n s = (st, out, s')"
  shows "mirror_port_trees (sw s') = mirror_port_trees (sw s) \<and> mirror_locked (sw s') = mirror_locked (sw s) \<and>
    mirror_wf (sw s') \<and>
    (if st = SAI_STATUS_SUCCESS
     then \<exists>u. out = Some (lib_uoid_create (mlib e) SAI_OBJECT_TYPE_MIRROR u) \<and> srcs (sw s) (the out) = None \<and>
       srcs (sw s') = (srcs (sw s))(the out \<mapsto> {})
     else out = None \<and> sw s' = sw s)"
proof -
  obtain st1 u s1 where 1: "ext_call (npu_session_create e n) s = ((st1, u), s1)" by (metis surj_pair)
  let ?i = "lib_uoid_create (mlib e) SAI_OBJECT_TYPE_MIRROR u"
  let ?n = "n\<lparr>ms_session_id := ?i\<rparr>"
  obtain ok2 s2 where 2: "lib_insert_ok (mlib e) t ?i s1 = (ok2, s2)" by force
  let ?s3 = "mirror_sessions_put (tree_put ?i ?n t) s2"
  obtain ok4 s4 where 4: "ext_call (lib_rbtree_create_ok (mlib e)) ?s3 = (ok4, s4)" by force
  have sw2: "sw s1 = sw s" "sw s2 = sw s" "sw s4 = sw ?s3" using ext_call_sw [OF 1] lib_insert_okD [OF 2] ext_call_sw [OF 4] by simp_all
  have new: "ok2 \<Longrightarrow> tree_get t ?i = None" using lib_insert_okD [OF 2] by simp
  have r: "(st, out, s') =
      (if st1 \<noteq> SAI_STATUS_SUCCESS then (st1, None, s1)
       else if \<not> ok2 then (SAI_STATUS_FAILURE, None, snd (ext_call (npu_session_destroy e ?i) s2))
       else if \<not> ok4 then (SAI_STATUS_FAILURE, None, snd (ext_call (npu_session_destroy e ?i) (mirror_sessions_put (tree_del ?i (t)) s4)))
       else (SAI_STATUS_SUCCESS, Some ?i, mirror_session_put ?i (?n\<lparr>ms_source_ports := Some []\<rparr>) s4))"
    unfolding c [symmetric] mirror_create_insert_def Let_def 1 prod.case 2 4 ..
  have keep: "sw (mirror_sessions_put (tree_del ?i t) s4) = sw s" if "ok2"
    using sw2 t new [OF that] by (simp add: mirror_sessions_put_def tree_del_absent)
  consider (fail) "st \<noteq> SAI_STATUS_SUCCESS" "out = None" "sw s' = sw s"
    | (ok) "ok2" "ok4" "st = SAI_STATUS_SUCCESS" "out = Some ?i" "s' = mirror_session_put ?i (?n\<lparr>ms_source_ports := Some []\<rparr>) s4"
    using r sw2(1,2) keep by (cases "st1 = SAI_STATUS_SUCCESS"; cases ok2; cases ok4; simp)
  then show ?thesis
  proof cases
    case fail
    then show ?thesis using wf by simp
  next
    case ok
    have g4: "mirror_session_get (sw s4) k = (if k = ?i then Some ?n else mirror_session_get (sw s) k)" for k
      using sw2 t by (simp add: mirror_session_get_def)
    have g: "mirror_session_get (sw s') k = (if k = ?i then Some (?n\<lparr>ms_source_ports := Some []\<rparr>) else mirror_session_get (sw s) k)" for k
      unfolding ok(5) using session_get_put [of s4 ?i] g4 by simp
    have none: "mirror_session_get (sw s) ?i = None" using new [OF ok(1)] t by (simp add: mirror_session_get_def)
    have p: "mirror_port_trees (sw s') = mirror_port_trees (sw s)" "mirror_locked (sw s') = mirror_locked (sw s)"
      unfolding ok(5) using sw2 by simp_all
    have "mirror_wf (sw s')" using wf unfolding mirror_wf_def p g by simp
    moreover have "srcs (sw s') = (srcs (sw s))(?i \<mapsto> {})" by (rule ext) (simp add: srcs_def g tree_dom_def)
    ultimately show ?thesis using ok(3,4) p none by (auto simp: srcs_def)
  qed
qed

lemma create_result:
  assumes wf: "mirror_wf (sw s)" and c: "sai_mirror_session_create e attrs s = Some (st, out, s')"
  shows "mirror_port_trees (sw s') = mirror_port_trees (sw s) \<and> mirror_locked (sw s') = mirror_locked (sw s) \<and>
    mirror_wf (sw s') \<and>
    (if st = SAI_STATUS_SUCCESS
     then \<exists>u. out = Some (lib_uoid_create (mlib e) SAI_OBJECT_TYPE_MIRROR u) \<and> srcs (sw s) (the out) = None \<and>
       srcs (sw s') = (srcs (sw s))(the out \<mapsto> {})
     else out = None \<and> sw s' = sw s)"
proof (cases "mirror_sessions_tree (sw s)")
  case None
  then show ?thesis using wf c by (auto simp: sai_mirror_session_create_def with_mirror_lock_def mirror_create_steps_def split: if_splits)
next
  case (Some t)
  obtain ok1 s1 where 1: "ext_call (lib_calloc_ok (mlib e)) s = (ok1, s1)" by force
  obtain st2 n seen s2 where 2: "mirror_create_loop e 0 attrs (mirror_zero e) [] s1 = (st2, n, seen, s2)" by (metis surj_pair)
  have sw2: "sw s1 = sw s" "sw s2 = sw s" using ext_call_sw [OF 1] create_loop_sw [OF 2] by simp_all
  consider (fail) "st \<noteq> SAI_STATUS_SUCCESS" "out = None" "sw s' = sw s" | (go) "mirror_create_insert e t n s2 = (st, out, s')"
    using c sw2 unfolding sai_mirror_session_create_def with_mirror_lock_def mirror_create_steps_def Some option.case Let_def 1 prod.case 2
    by (auto split: if_splits)
  then show ?thesis
  proof cases
    case go
    then show ?thesis using create_insert_result [of s2 t e n st out s', unfolded sw2(2), OF wf Some] by blast
  qed (use wf in simp)
qed

lemma remove_result:
  assumes wf: "mirror_wf (sw s)" and c: "sai_mirror_session_remove e i s = Some (st, s')"
  shows "if st = SAI_STATUS_SUCCESS
    then srcs (sw s) i = Some {} \<and> srcs (sw s') = (srcs (sw s))(i := None) \<and> mirror_wf (sw s') \<and>
      mirror_port_trees (sw s') = mirror_port_trees (sw s) \<and> mirror_locked (sw s') = mirror_locked (sw s)
    else sw s' = sw s"
proof (cases "mirror_session_get (sw s) i")
  case None
  then show ?thesis using c
    by (auto simp: sai_mirror_session_remove_def with_mirror_lock_def mirror_remove_steps_def mirror_session_get_def
        split: if_splits option.splits)
next
  case (Some n)
  then obtain t where t: "mirror_sessions_tree (sw s) = Some t" "tree_get t i = Some n"
    by (auto simp: mirror_session_get_def split: option.splits)
  obtain ps where ps: "ms_source_ports n = Some ps" using mirror_wfD [OF wf Some] by blast
  obtain st1 s1 where 1: "ext_call (npu_session_destroy e (ms_session_id n)) s = (st1, s1)" by force
  note sw1 = ext_call_sw [OF 1]
  consider (fail) "st \<noteq> SAI_STATUS_SUCCESS" "sw s' = sw s"
    | (ok) "st = SAI_STATUS_SUCCESS" "ps = []" "s' = mirror_sessions_put (tree_del i t) s1"
    using c sw1 unfolding sai_mirror_session_remove_def with_mirror_lock_def mirror_remove_steps_def t option.case ps Let_def 1 prod.case
    by (auto split: if_splits)
  then show ?thesis
  proof cases
    case ok
    have g: "mirror_session_get (sw s') k = (if k = i then None else mirror_session_get (sw s) k)" for k
      unfolding ok(3) using t by (simp add: mirror_session_get_def)
    have p: "mirror_port_trees (sw s') = mirror_port_trees (sw s)" "mirror_locked (sw s') = mirror_locked (sw s)"
      unfolding ok(3) using sw1 by simp_all
    have "srcs (sw s') = (srcs (sw s))(i := None)" by (rule ext) (simp add: srcs_def g)
    moreover have "srcs (sw s) i = Some {}" using Some ps ok(2) by (simp add: srcs_def tree_dom_def)
    moreover have "mirror_wf (sw s')" using wf unfolding mirror_wf_def p g by simp
    ultimately show ?thesis using p ok(1) by simp
  qed simp
qed

lemma set_result:
  assumes wf: "mirror_wf (sw s)" and c: "sai_mirror_session_attribute_set e i attr s = Some (st, s')"
  shows "srcs (sw s') = srcs (sw s) \<and> mirror_wf (sw s') \<and> mirror_port_trees (sw s') = mirror_port_trees (sw s) \<and>
    mirror_locked (sw s') = mirror_locked (sw s)"
proof (cases "is_obj_id_mirror_session e i \<and> mirror_session_get (sw s) i \<noteq> None")
  case False
  then show ?thesis using c wf
    by (auto simp: sai_mirror_session_attribute_set_def with_mirror_lock_def mirror_set_steps_def split: if_splits)
next
  case True
  then obtain n0 where n0: "mirror_session_get (sw s) i = Some n0" by blast
  obtain st1 n where 1: "sai_mirror_fill_attribute_params e (ext s) n0 attr 0 = (st1, n)" by force
  let ?s1 = "mirror_session_put i n s"
  obtain st2 s2 where 2: "ext_call (npu_session_set e i (ms_span_type n) attr) ?s1 = (st2, s2)" by force
  note sw2 = ext_call_sw [OF 2] and k = fill_keeps [OF 1]
  have w0: "ms_session_id n0 = i" "ms_source_ports n0 \<noteq> None" using mirror_wfD [OF wf n0] by simp_all
  have w: "ms_session_id n = i" "ms_source_ports n \<noteq> None" using k w0 by simp_all
  have g: "mirror_session_get (sw s) i \<noteq> None" using n0 by simp
  have same: "(srcs (sw s))(i := map_option tree_dom (ms_source_ports n0)) = srcs (sw s)" using n0 by (auto simp: srcs_def fun_eq_iff)
  have r1: "srcs (sw ?s1) = srcs (sw s)" "mirror_wf (sw ?s1)"
    using srcs_put [OF g, of i n] same k mirror_wf_session_put [OF wf g w] by simp_all
  have g2: "mirror_session_get (sw s2) i \<noteq> None" using sw2 session_get_put [OF g, of i n i] by simp
  have r2: "srcs (sw s2) = srcs (sw s)" "mirror_wf (sw s2)" using r1 sw2 by simp_all
  let ?s3 = "mirror_session_put i n0 s2"
  have r3: "srcs (sw ?s3) = srcs (sw s)" "mirror_wf (sw ?s3)"
    using srcs_put [OF g2, of i n0] same r2 mirror_wf_session_put [OF r2(2) g2 w0] by simp_all
  have "s' \<in> {?s1, s2, ?s3}"
    using c True unfolding sai_mirror_session_attribute_set_def with_mirror_lock_def mirror_set_steps_def n0 option.case Let_def 1 prod.case 2
    by (auto split: if_splits)
  then show ?thesis using r1 r2 r3 sw2 by auto
qed

section \<open>Source ports\<close>

lemma port_add_result:
  assumes wf: "mirror_wf (sw s)" and c: "sai_mirror_session_port_add e i src s = Some (st, s')"
  shows "if st = SAI_STATUS_SUCCESS
    then \<exists>P. srcs (sw s) i = Some P \<and> src \<notin> P \<and> srcs (sw s') = (srcs (sw s))(i \<mapsto> insert src P) \<and> mirror_wf (sw s') \<and>
      mirror_port_trees (sw s') = mirror_port_trees (sw s) \<and> mirror_locked (sw s') = mirror_locked (sw s)
    else sw s' = sw s"
proof (cases "mirror_session_get (sw s) i")
  case None
  then show ?thesis using c
    by (auto simp: sai_mirror_session_port_add_def with_mirror_lock_def mirror_port_add_steps_def split: if_splits)
next
  case (Some n)
  then have t: "mirror_sessions_tree (sw s) \<noteq> None" by (rule session_get_tree)
  obtain ps where ps: "ms_source_ports n = Some ps" and id: "ms_session_id n = i" using mirror_wfD [OF wf Some] by blast
  obtain ok1 s1 where 1: "ext_call (lib_calloc_ok (mlib e)) s = (ok1, s1)" by force
  obtain st2 s2 where 2: "ext_call (npu_session_port_add e i (fst src) (snd src)) s1 = (st2, s2)" by force
  obtain ok3 s3 where 3: "lib_insert_ok (mlib e) ps src s2 = (ok3, s3)" by force
  have sw3: "sw s1 = sw s" "sw s2 = sw s" "sw s3 = sw s"
    using ext_call_sw [OF 1] ext_call_sw [OF 2] lib_insert_okD [OF 3] by simp_all
  consider (fail) "st \<noteq> SAI_STATUS_SUCCESS" "sw s' = sw s"
    | (ok) "st = SAI_STATUS_SUCCESS" "tree_get ps src = None" "s' = mirror_session_put i (n\<lparr>ms_source_ports := Some (tree_put src () ps)\<rparr>) s3"
    using c sw3 t unfolding sai_mirror_session_port_add_def with_mirror_lock_def mirror_port_add_steps_def Some option.case ps Let_def 1
      prod.case 2 3
    by (auto split: if_splits)
  then show ?thesis
  proof cases
    case ok
    have g: "mirror_session_get (sw s3) i \<noteq> None" using Some sw3 by simp
    have "srcs (sw s') = (srcs (sw s))(i \<mapsto> insert src (tree_dom ps))" unfolding ok(3) srcs_put [OF g] using sw3 by simp
    moreover have "mirror_wf (sw s')" unfolding ok(3) using mirror_wf_session_put [of s3 i _ i] wf sw3 g id by simp
    moreover have "srcs (sw s) i = Some (tree_dom ps)" "src \<notin> tree_dom ps" using Some ps ok(2) by (simp_all add: srcs_def tree_dom_def)
    ultimately show ?thesis using ok(1) sw3 unfolding ok(3) by simp
  qed simp
qed

lemma port_remove_result:
  assumes wf: "mirror_wf (sw s)" and c: "sai_mirror_session_port_remove e i src s = Some (st, s')"
  shows "if st = SAI_STATUS_SUCCESS
    then \<exists>P. srcs (sw s) i = Some P \<and> src \<in> P \<and> srcs (sw s') = (srcs (sw s))(i \<mapsto> P - {src}) \<and> mirror_wf (sw s') \<and>
      mirror_port_trees (sw s') = mirror_port_trees (sw s) \<and> mirror_locked (sw s') = mirror_locked (sw s)
    else sw s' = sw s"
proof (cases "mirror_session_get (sw s) i")
  case None
  then show ?thesis using c
    by (auto simp: sai_mirror_session_port_remove_def with_mirror_lock_def mirror_port_remove_steps_def split: if_splits)
next
  case (Some n)
  then have t: "mirror_sessions_tree (sw s) \<noteq> None" by (rule session_get_tree)
  obtain ps where ps: "ms_source_ports n = Some ps" and id: "ms_session_id n = i" using mirror_wfD [OF wf Some] by blast
  obtain st2 s2 where 2: "ext_call (npu_session_port_remove e i (fst src) (snd src)) s = (st2, s2)" by force
  note sw2 = ext_call_sw [OF 2]
  consider (fail) "st \<noteq> SAI_STATUS_SUCCESS" "sw s' = sw s"
    | (ok) "st = SAI_STATUS_SUCCESS" "tree_get ps src \<noteq> None" "s' = mirror_session_put i (n\<lparr>ms_source_ports := Some (tree_del src ps)\<rparr>) s2"
    using c sw2 t unfolding sai_mirror_session_port_remove_def with_mirror_lock_def mirror_port_remove_steps_def Some option.case ps Let_def
      prod.case 2
    by (auto split: if_splits)
  then show ?thesis
  proof cases
    case ok
    have g: "mirror_session_get (sw s2) i \<noteq> None" using Some sw2 by simp
    have "srcs (sw s') = (srcs (sw s))(i \<mapsto> tree_dom ps - {src})" unfolding ok(3) srcs_put [OF g] using sw2 by simp
    moreover have "mirror_wf (sw s')" unfolding ok(3) using mirror_wf_session_put [of s2 i _ i] wf sw2 g id by simp
    moreover have "srcs (sw s) i = Some (tree_dom ps)" "src \<in> tree_dom ps" using Some ps ok(2) by (simp_all add: srcs_def tree_dom_def)
    ultimately show ?thesis using ok(1) sw2 unfolding ok(3) by simp
  qed simp
qed

section \<open>The walks over the sessions of a port\<close>

text \<open>The sessions of \<open>A\<close> gain, or lose, one source port.\<close>

definition srcs_upd :: "(mirror_source set \<Rightarrow> mirror_source set) \<Rightarrow> oid set \<Rightarrow> (oid \<rightharpoonup> mirror_source set) \<Rightarrow> oid \<rightharpoonup> mirror_source set" where
  "srcs_upd f A m = (\<lambda>i. if i \<in> A then map_option f (m i) else m i)"

lemma srcs_upd_empty [simp]: "srcs_upd f {} m = m"
  by (simp add: srcs_upd_def)

lemma srcs_upd_one: "m i = Some P \<Longrightarrow> m(i \<mapsto> f P) = srcs_upd f {i} m"
  by (simp add: srcs_upd_def fun_eq_iff)

lemma srcs_upd_twice: "i \<notin> A \<Longrightarrow> srcs_upd f A (srcs_upd f {i} m) = srcs_upd f (insert i A) m"
  by (auto simp: srcs_upd_def fun_eq_iff)

definition frame :: "'h mirror_state \<Rightarrow> 'h mirror_state \<Rightarrow> bool" where
  "frame s s' \<longleftrightarrow> mirror_port_trees (sw s') = mirror_port_trees (sw s) \<and> mirror_locked (sw s') = mirror_locked (sw s)"

lemma frame_sw: "sw s' = sw s \<Longrightarrow> frame s s'"
  by (simp add: frame_def)

lemma frame_trans: "frame s s1 \<Longrightarrow> frame s1 s2 \<Longrightarrow> frame s s2"
  by (simp add: frame_def)

text \<open>
  The walk over the new list: \<open>A\<close> are the sessions that took the port, \<open>B\<close> those of them that came into
  the tree of the port.
\<close>

lemma add_walk_result:
  "mirror_wf (sw s) \<Longrightarrow> tree_wf t \<Longrightarrow> mirror_add_walk e p dir sessions t s = Some (st, t', s') \<Longrightarrow>
   \<exists>A B. B \<subseteq> A \<and> A \<subseteq> set sessions \<and> (\<forall>i \<in> A. (i, dir) \<notin> tree_dom t) \<and>
     (\<forall>i \<in> A. \<exists>P. srcs (sw s) i = Some P \<and> (p, dir) \<notin> P) \<and>
     srcs (sw s') = srcs_upd (insert (p, dir)) A (srcs (sw s)) \<and> tree_dom t' = tree_dom t \<union> (\<lambda>i. (i, dir)) ` B \<and>
     tree_wf t' \<and> mirror_wf (sw s') \<and> frame s s' \<and>
     (st = SAI_STATUS_SUCCESS \<longrightarrow> B = A \<and> (\<forall>i \<in> set sessions. (i, dir) \<in> tree_dom t')) \<and>
     (calloc_never_fails (mlib e) \<longrightarrow> insert_total (mlib e) \<longrightarrow> B = A)"
proof (induction sessions arbitrary: t s)
  case Nil
  then show ?case by (intro exI [where x = "{}"]) (auto simp: frame_def)
next
  case (Cons i sessions)
  show ?case
  proof (cases "tree_get t (i, dir) \<noteq> None")
    case True
    then have "mirror_add_walk e p dir sessions t s = Some (st, t', s')" using Cons.prems(3) by simp
    from Cons.IH [OF Cons.prems(1,2) this] obtain A B where ih: "B \<subseteq> A" "A \<subseteq> set sessions" "\<forall>i \<in> A. (i, dir) \<notin> tree_dom t"
      "\<forall>i \<in> A. \<exists>P. srcs (sw s) i = Some P \<and> (p, dir) \<notin> P" "srcs (sw s') = srcs_upd (insert (p, dir)) A (srcs (sw s))"
      "tree_dom t' = tree_dom t \<union> (\<lambda>i. (i, dir)) ` B" "tree_wf t'" "mirror_wf (sw s')" "frame s s'"
      "st = SAI_STATUS_SUCCESS \<longrightarrow> B = A \<and> (\<forall>i \<in> set sessions. (i, dir) \<in> tree_dom t')"
      "calloc_never_fails (mlib e) \<longrightarrow> insert_total (mlib e) \<longrightarrow> B = A" by (elim exE conjE) (rule that)
    moreover have "(i, dir) \<in> tree_dom t'" using True ih(6) by (simp add: tree_dom_iff)
    ultimately show ?thesis by (intro exI [where x = A] exI [where x = B]) auto
  next
    case False
    then have fresh: "(i, dir) \<notin> tree_dom t" by (simp add: tree_dom_iff)
    obtain st1 s1 where 1: "sai_mirror_session_port_add e i (p, dir) s = Some (st1, s1)"
      using Cons.prems(3) False by (cases "sai_mirror_session_port_add e i (p, dir) s") auto
    note a = port_add_result [OF Cons.prems(1) 1]
    show ?thesis
    proof (cases "st1 = SAI_STATUS_SUCCESS")
      case fail: False
      then have "st = st1" "t' = t" "s' = s1" using Cons.prems(3) False 1 by simp_all
      moreover have "sw s1 = sw s" using a fail by simp
      ultimately show ?thesis using fail Cons.prems(1,2) by (intro exI [where x = "{}"]) (simp add: frame_def)
    next
      case ok: True
      then obtain P where P: "srcs (sw s) i = Some P" "(p, dir) \<notin> P" "srcs (sw s1) = srcs_upd (insert (p, dir)) {i} (srcs (sw s))"
        "mirror_wf (sw s1)" "frame s s1"
        using a by (auto simp: frame_def srcs_upd_one)
      obtain ok2 s2 where 2: "ext_call (lib_calloc_ok (mlib e)) s1 = (ok2, s2)" by force
      obtain ok3 s3 where 3: "lib_insert_ok (mlib e) t (i, dir) s2 = (ok3, s3)" by force
      have sw23: "sw s2 = sw s1" "sw s3 = sw s1" using ext_call_sw [OF 2] lib_insert_okD [OF 3] by simp_all
      have walk: "(if \<not> ok2 then Some (SAI_STATUS_NO_MEMORY, t, s2)
          else if \<not> ok3 then (case sai_mirror_session_port_remove e i (p, dir) s3 of None \<Rightarrow> None | Some (_, s) \<Rightarrow> Some (SAI_STATUS_FAILURE, t, s))
          else mirror_add_walk e p dir sessions (tree_put (i, dir) () t) s3) = Some (st, t', s')"
        using Cons.prems(3) unfolding mirror_add_walk.simps if_not_P [OF False] 1 option.case prod.case
          if_not_P [OF not_not [THEN iffD2, OF ok]] Let_def 2 3 .
      have w1: "\<exists>P. srcs (sw s) j = Some P \<and> (p, dir) \<notin> P" if "j = i" for j using P that by simp
      consider (nomem) "\<not> ok2" "st = SAI_STATUS_NO_MEMORY" "t' = t" "s' = s2"
        | (undone) st4 where "ok2" "\<not> ok3" "sai_mirror_session_port_remove e i (p, dir) s3 = Some (st4, s')" "st = SAI_STATUS_FAILURE" "t' = t"
        | (go) "ok2" "ok3" "mirror_add_walk e p dir sessions (tree_put (i, dir) () t) s3 = Some (st, t', s')"
        using walk by (auto split: if_splits option.splits)
      then show ?thesis
      proof cases
        case nomem
        then have "\<not> calloc_never_fails (mlib e)" using calloc_never_failsD [OF _ 2] by blast
        then show ?thesis using nomem P sw23 fresh Cons.prems(2) unfolding frame_def
          by (intro exI [where x = "{i}"] exI [where x = "{}"]) simp
      next
        case undone
        have it: "\<not> insert_total (mlib e)" using lib_insert_okD [OF 3] False undone(2) by auto
        have "mirror_wf (sw s3)" using P(4) sw23 by simp
        note rm = port_remove_result [OF this undone(3)]
        have bk: "srcs (sw s') = srcs (sw s) \<or> srcs (sw s') = srcs (sw s1)" "mirror_wf (sw s')" "frame s s'"
        proof -
          have "(srcs (sw s1))(i \<mapsto> insert (p, dir) P - {(p, dir)}) = srcs (sw s)"
            using P(1-3) by (auto simp: srcs_upd_def fun_eq_iff)
          moreover have "srcs (sw s1) i = Some (insert (p, dir) P)" using P(1,3) by (simp add: srcs_upd_def)
          ultimately show "srcs (sw s') = srcs (sw s) \<or> srcs (sw s') = srcs (sw s1)"
            using rm sw23 by (cases "st4 = SAI_STATUS_SUCCESS") auto
          show "mirror_wf (sw s')" "frame s s'" using rm sw23 P(4,5) by (auto simp: frame_def split: if_splits)
        qed
        from bk(1) show ?thesis
        proof (elim disjE)
          assume "srcs (sw s') = srcs (sw s)"
          then show ?thesis using undone(4,5) bk(2,3) Cons.prems(2) by (intro exI [where x = "{}"]) simp
        next
          assume "srcs (sw s') = srcs (sw s1)"
          then show ?thesis using undone(4,5) bk(2,3) Cons.prems(2) P fresh it
            by (intro exI [where x = "{i}"] exI [where x = "{}"]) simp
        qed
      next
        case go
        have wf3: "mirror_wf (sw s3)" using P(4) sw23 by simp
        from Cons.IH [OF wf3 tree_wf_put [OF Cons.prems(2)] go(3)] obtain A B where ih: "B \<subseteq> A" "A \<subseteq> set sessions"
          "\<forall>j \<in> A. (j, dir) \<notin> tree_dom (tree_put (i, dir) () t)"
          "\<forall>j \<in> A. \<exists>P. srcs (sw s3) j = Some P \<and> (p, dir) \<notin> P" "srcs (sw s') = srcs_upd (insert (p, dir)) A (srcs (sw s3))"
          "tree_dom t' = tree_dom (tree_put (i, dir) () t) \<union> (\<lambda>i. (i, dir)) ` B" "tree_wf t'" "mirror_wf (sw s')" "frame s3 s'"
          "st = SAI_STATUS_SUCCESS \<longrightarrow> B = A \<and> (\<forall>i \<in> set sessions. (i, dir) \<in> tree_dom t')"
          "calloc_never_fails (mlib e) \<longrightarrow> insert_total (mlib e) \<longrightarrow> B = A" by (elim exE conjE) (rule that)
        have iA: "i \<notin> A" using ih(3) by auto
        have s3: "srcs (sw s3) = srcs_upd (insert (p, dir)) {i} (srcs (sw s))" using P(3) sw23 by simp
        have "srcs (sw s') = srcs_upd (insert (p, dir)) (insert i A) (srcs (sw s))" unfolding ih(5) s3 by (rule srcs_upd_twice [OF iA])
        moreover have "srcs (sw s3) j = srcs (sw s) j" if "j \<in> A" for j
          using that iA unfolding s3 by (auto simp: srcs_upd_def)
        then have "\<forall>j \<in> insert i A. \<exists>P. srcs (sw s) j = Some P \<and> (p, dir) \<notin> P" using ih(4) P(1,2) by auto
        moreover have "\<forall>j \<in> insert i A. (j, dir) \<notin> tree_dom t" using ih(3) fresh by auto
        moreover have "frame s s'" using frame_trans [OF P(5)] ih(9) sw23(2) by (simp add: frame_def)
        moreover have "tree_dom t' = tree_dom t \<union> (\<lambda>i. (i, dir)) ` insert i B" using ih(6) by auto
        ultimately show ?thesis using ih(1,2,7,8,10,11)
          by (intro exI [where x = "insert i A"] exI [where x = "insert i B"]) auto
      qed
    qed
  qed
qed

text \<open>The walk over the old list: \<open>R\<close> are the sessions that lost the port.\<close>

lemma remove_walk_result:
  "mirror_wf (sw s) \<Longrightarrow> tree_wf t \<Longrightarrow> distinct walk \<Longrightarrow> set walk \<subseteq> tree_dom t \<Longrightarrow>
   mirror_remove_walk e p sessions dir walk t s = Some (st, t', s') \<Longrightarrow>
   \<exists>R. R \<subseteq> {i. (i, dir) \<in> set walk \<and> i \<notin> set sessions} \<and>
     srcs (sw s') = srcs_upd (\<lambda>P. P - {(p, dir)}) R (srcs (sw s)) \<and> tree_dom t' = tree_dom t - (\<lambda>i. (i, dir)) ` R \<and>
     tree_wf t' \<and> mirror_wf (sw s') \<and> frame s s' \<and>
     (st = SAI_STATUS_SUCCESS \<longrightarrow> R = {i. (i, dir) \<in> set walk \<and> i \<notin> set sessions})"
proof (induction walk arbitrary: t s)
  case Nil
  then show ?case by (intro exI [where x = "{}"]) (simp add: frame_def)
next
  case (Cons x walk)
  obtain i d where x: "x = (i, d)" by force
  show ?case
  proof (cases "d \<noteq> dir \<or> List.member sessions i")
    case True
    then have "mirror_remove_walk e p sessions dir walk t s = Some (st, t', s')" using Cons.prems(5) by (simp add: x)
    moreover have "{j. (j, dir) \<in> set (x # walk) \<and> j \<notin> set sessions} = {j. (j, dir) \<in> set walk \<and> j \<notin> set sessions}"
      using True by (auto simp: x)
    ultimately show ?thesis using Cons.IH [OF Cons.prems(1,2)] Cons.prems(3,4) by simp
  next
    case False
    then have d: "d = dir" "i \<notin> set sessions" by simp_all
    obtain st1 s1 where 1: "sai_mirror_session_port_remove e i (p, dir) s = Some (st1, s1)"
      using Cons.prems(5) False x by (cases "sai_mirror_session_port_remove e i (p, dir) s") auto
    note a = port_remove_result [OF Cons.prems(1) 1]
    show ?thesis
    proof (cases "st1 = SAI_STATUS_SUCCESS")
      case fail: False
      then have "st = st1" "t' = t" "s' = s1" using Cons.prems(5) False 1 x by simp_all
      moreover have "sw s1 = sw s" using a fail by simp
      ultimately show ?thesis using fail Cons.prems(1,2) by (intro exI [where x = "{}"]) (simp add: frame_def)
    next
      case ok: True
      then obtain P where P: "srcs (sw s) i = Some P" "srcs (sw s1) = srcs_upd (\<lambda>P. P - {(p, dir)}) {i} (srcs (sw s))"
        "mirror_wf (sw s1)" "frame s s1"
        using a by (auto simp: frame_def srcs_upd_one [where f = "\<lambda>P. P - {(p, dir)}"])
      have go: "mirror_remove_walk e p sessions dir walk (tree_del (i, dir) t) s1 = Some (st, t', s')"
        using Cons.prems(5) False 1 ok x by simp
      have sub: "set walk \<subseteq> tree_dom (tree_del (i, dir) t)" "distinct walk" using Cons.prems(3,4) x d by auto
      from Cons.IH [OF P(3) tree_wf_del [OF Cons.prems(2)] sub(2,1) go] obtain R where ih:
        "R \<subseteq> {j. (j, dir) \<in> set walk \<and> j \<notin> set sessions}" "srcs (sw s') = srcs_upd (\<lambda>P. P - {(p, dir)}) R (srcs (sw s1))"
        "tree_dom t' = tree_dom (tree_del (i, dir) t) - (\<lambda>i. (i, dir)) ` R" "tree_wf t'" "mirror_wf (sw s')" "frame s1 s'"
        "st = SAI_STATUS_SUCCESS \<longrightarrow> R = {j. (j, dir) \<in> set walk \<and> j \<notin> set sessions}" by (elim exE conjE) (rule that)
      have iR: "i \<notin> R" using ih(1) Cons.prems(3) x d by auto
      have "srcs (sw s') = srcs_upd (\<lambda>P. P - {(p, dir)}) (insert i R) (srcs (sw s))"
        unfolding ih(2) P(2) by (rule srcs_upd_twice [OF iR])
      moreover have "tree_dom t' = tree_dom t - (\<lambda>i. (i, dir)) ` insert i R" using ih(3) by auto
      moreover have "frame s s'" by (rule frame_trans [OF P(4) ih(6)])
      moreover have "insert i R \<subseteq> {j. (j, dir) \<in> set (x # walk) \<and> j \<notin> set sessions}" using ih(1) x d by auto
      moreover have "st = SAI_STATUS_SUCCESS \<longrightarrow> insert i R = {j. (j, dir) \<in> set (x # walk) \<and> j \<notin> set sessions}"
        using ih(7) x d by auto
      ultimately show ?thesis using ih(4,5) by blast
    qed
  qed
qed

section \<open>The list of sessions of a port\<close>

lemma apps_upd:
  assumes "mirror_port_trees (sw s') = tree_put p t (mirror_port_trees (sw s))"
  shows "apps (sw s') = (apps (sw s))(p := tree_dom t)"
  by (rule ext) (simp add: apps_def assms)

lemma wf_ports_put:
  assumes "mirror_wf d" "tree_wf t" "mirror_sessions_tree d' = mirror_sessions_tree d" "mirror_port_trees d' = tree_put p t (mirror_port_trees d)"
  shows "mirror_wf d'"
  using assms by (auto simp: mirror_wf_def mirror_session_get_def)

lemma wf_ports_del:
  assumes "mirror_wf d" "mirror_sessions_tree d' = mirror_sessions_tree d" "mirror_port_trees d' = tree_del p (mirror_port_trees d)"
  shows "mirror_wf d'"
  using assms by (auto simp: mirror_wf_def mirror_session_get_def)

lemma tree_keys: "set (map fst t) = tree_dom t"
  by (induction t) (auto simp: tree_dom_def tree_get_Cons split: if_splits)

lemma remove_per_port_result:
  assumes e: "mirror_env_ok e" and wf: "mirror_wf (sw s)" and c: "sai_mirror_remove_mirror_per_port e p sessions dir s = Some (st, s')"
  shows "\<exists>R. R \<subseteq> {i. (i, dir) \<in> apps (sw s) p \<and> i \<notin> set sessions} \<and>
    srcs (sw s') = srcs_upd (\<lambda>P. P - {(p, dir)}) R (srcs (sw s)) \<and>
    apps (sw s') = (apps (sw s))(p := apps (sw s) p - (\<lambda>i. (i, dir)) ` R) \<and>
    mirror_wf (sw s') \<and> mirror_locked (sw s') = mirror_locked (sw s) \<and>
    (st = SAI_STATUS_SUCCESS \<longrightarrow> R = {i. (i, dir) \<in> apps (sw s) p \<and> i \<notin> set sessions})"
proof -
  obtain ok1 s1 where 1: "ext_call (port_app_get e p) s = (ok1, s1)" by force
  note sw1 = ext_call_sw [OF 1]
  show ?thesis
  proof (cases "ok1 \<and> tree_get (mirror_port_trees (sw s1)) p \<noteq> None")
    case False
    then have "st = SAI_STATUS_FAILURE" "s' = s1"
      using c unfolding sai_mirror_remove_mirror_per_port_def Let_def 1 prod.case by (auto split: if_splits option.splits)
    then show ?thesis using sw1 wf by (intro exI [where x = "{}"]) simp
  next
    case True
    then obtain t where t: "tree_get (mirror_port_trees (sw s1)) p = Some t" by blast
    then have ap: "apps (sw s) p = tree_dom t" using sw1 by (simp add: apps_def)
    have twf: "tree_wf t" using wf t sw1 by (simp add: mirror_wf_def)
    let ?w = "mirror_walk e (map fst t)"
    have w: "distinct ?w" "set ?w = tree_dom t" using mirror_walk_perm [OF e] twf tree_keys by (simp_all add: tree_wf_def)
    obtain st2 t2 s2 where 2: "mirror_remove_walk e p sessions dir ?w t s1 = Some (st2, t2, s2)"
      using c True unfolding sai_mirror_remove_mirror_per_port_def Let_def 1 prod.case t option.case by (auto split: option.splits)
    have res: "st = st2 \<and> sw s' = sw (if t2 = [] then mirror_ports_put (tree_del p (mirror_port_trees (sw s2))) s2
        else mirror_ports_put (tree_put p t2 (mirror_port_trees (sw s2))) s2)"
      using c True unfolding sai_mirror_remove_mirror_per_port_def Let_def 1 prod.case t option.case 2 by auto
    from remove_walk_result [OF _ twf w(1) _ 2] obtain R where R: "R \<subseteq> {i. (i, dir) \<in> set ?w \<and> i \<notin> set sessions}"
      "srcs (sw s2) = srcs_upd (\<lambda>P. P - {(p, dir)}) R (srcs (sw s1))" "tree_dom t2 = tree_dom t - (\<lambda>i. (i, dir)) ` R"
      "tree_wf t2" "mirror_wf (sw s2)" "frame s1 s2"
      "st2 = SAI_STATUS_SUCCESS \<longrightarrow> R = {i. (i, dir) \<in> set ?w \<and> i \<notin> set sessions}"
      using wf sw1 w(2) by auto
    have pt: "mirror_port_trees (sw s2) = mirror_port_trees (sw s)" using R(6) sw1 by (simp add: frame_def)
    have "apps (sw s') = (apps (sw s))(p := tree_dom t2)"
    proof (cases "t2 = []")
      case True
      then have "mirror_port_trees (sw s') = tree_del p (mirror_port_trees (sw s))" using res pt by simp
      then show ?thesis using True by (auto simp: apps_def fun_eq_iff tree_dom_def)
    next
      case False
      then have "mirror_port_trees (sw s') = tree_put p t2 (mirror_port_trees (sw s))" using res pt by simp
      then show ?thesis by (rule apps_upd)
    qed
    moreover have "mirror_wf (sw s')"
      using res by (cases "t2 = []") (auto intro: wf_ports_put [OF R(5,4)] wf_ports_del [OF R(5)])
    moreover have "srcs (sw s') = srcs (sw s2)" "mirror_locked (sw s') = mirror_locked (sw s2)" using res by auto
    ultimately show ?thesis
      using R(1-3,6,7) w(2) res sw1 ap by (intro exI [where x = R]) (simp add: frame_def)
  qed
qed

lemma tree_make_result:
  assumes wf: "mirror_wf (sw s)" and c: "mirror_port_tree_make e p s = (tr, s2)"
  shows "(tr = None \<longrightarrow> sw s2 = sw s) \<and> (\<forall>t. tr = Some t \<longrightarrow> tree_dom t = apps (sw s) p \<and> tree_wf t) \<and>
      srcs (sw s2) = srcs (sw s) \<and> apps (sw s2) = apps (sw s) \<and> mirror_wf (sw s2) \<and> mirror_locked (sw s2) = mirror_locked (sw s)"
proof -
  obtain ok3 s3 where 3: "ext_call (lib_rbtree_create_ok (mlib e)) s = (ok3, s3)" by force
  note sw3 = ext_call_sw [OF 3]
  show ?thesis
  proof (cases "tree_get (mirror_port_trees (sw s)) p")
    case (Some t)
    then have "tr = Some t" "s2 = s" using c by (simp_all add: mirror_port_tree_make_def)
    then show ?thesis using Some wf by (simp add: apps_def mirror_wf_def)
  next
    case None
    then have none: "apps (sw s) p = {}" by (simp add: apps_def)
    show ?thesis
    proof (cases ok3)
      case True
      then have t: "tr = Some []" "s2 = mirror_ports_put (tree_put p [] (mirror_port_trees (sw s3))) s3"
        using c None by (simp_all add: mirror_port_tree_make_def 3)
      have "mirror_port_trees (sw s2) = tree_put p [] (mirror_port_trees (sw s))" using t(2) sw3 by simp
      then have "apps (sw s2) = (apps (sw s))(p := {})" by (simp add: apps_upd tree_dom_def)
      then have "apps (sw s2) = apps (sw s)" using none by (metis fun_upd_triv)
      moreover have "mirror_wf (sw s2)" by (rule wf_ports_put [OF wf tree_wf_Nil]) (use t(2) sw3 in simp_all)
      moreover have "srcs (sw s2) = srcs (sw s)" "mirror_locked (sw s2) = mirror_locked (sw s)" using t(2) sw3 by simp_all
      ultimately show ?thesis using t(1) none by (simp add: tree_dom_def)
    next
      case False
      then have "tr = None" "s2 = s3" using c None by (simp_all add: mirror_port_tree_make_def 3)
      then show ?thesis using sw3 wf by simp
    qed
  qed
qed

text \<open>
  Setting the list of sessions of a port in one direction. \<open>A\<close> are the sessions that took the port, all but
  \<open>B\<close> of which are lost for the tree of the port, and \<open>R\<close> those that lost it.
\<close>

lemma handle_result:
  assumes e: "mirror_env_ok e" and wf: "mirror_wf (sw s)" and c: "sai_mirror_handle_per_port e p sessions dir s = Some (st, s')"
  shows "\<exists>A B R. B \<subseteq> A \<and> A \<subseteq> set sessions \<and> (\<forall>i \<in> A. (i, dir) \<notin> apps (sw s) p) \<and>
    (\<forall>i \<in> A. \<exists>P. srcs (sw s) i = Some P \<and> (p, dir) \<notin> P) \<and>
    R \<subseteq> {i. (i, dir) \<in> apps (sw s) p \<and> i \<notin> set sessions} \<and>
    srcs (sw s') = srcs_upd (\<lambda>P. P - {(p, dir)}) R (srcs_upd (insert (p, dir)) A (srcs (sw s))) \<and>
    apps (sw s') = (apps (sw s))(p := (apps (sw s) p \<union> (\<lambda>i. (i, dir)) ` B) - (\<lambda>i. (i, dir)) ` R) \<and>
    mirror_wf (sw s') \<and> mirror_locked (sw s') = mirror_locked (sw s) \<and>
    (st = SAI_STATUS_SUCCESS \<longrightarrow> B = A \<and> {i. (i, dir) \<in> apps (sw s') p} = set sessions) \<and>
    (calloc_never_fails (mlib e) \<longrightarrow> insert_total (mlib e) \<longrightarrow> B = A)"
proof -
  obtain ok1 s1 where 1: "ext_call (port_app_get e p) s = (ok1, s1)" by force
  note sw1 = ext_call_sw [OF 1]
  obtain tr s2 where 2: "mirror_port_tree_make e p s1 = (tr, s2)" by force
  note tr = tree_make_result [OF _ 2, unfolded sw1, OF wf]
  show ?thesis
  proof (cases "ok1 \<and> tr \<noteq> None")
    case False
    then have f: "st = SAI_STATUS_FAILURE \<and> sw s' = sw s"
      using c tr sw1 unfolding sai_mirror_handle_per_port_def Let_def 1 prod.case 2 by (auto split: if_splits option.splits)
    show ?thesis
      by (rule exI [where x = "{}"], rule exI [where x = "{}"], rule exI [where x = "{}"]) (use f wf in simp)
  next
    case True
    then obtain t where t: "tr = Some t" by blast
    have t2: "tree_dom t = apps (sw s) p" "tree_wf t" and
      s2: "srcs (sw s2) = srcs (sw s)" "apps (sw s2) = apps (sw s)" "mirror_wf (sw s2)" "mirror_locked (sw s2) = mirror_locked (sw s)"
      using tr t by simp_all
    obtain st4 t4 s4 where 4: "mirror_add_walk e p dir sessions t s2 = Some (st4, t4, s4)"
      using c True unfolding sai_mirror_handle_per_port_def Let_def 1 prod.case 2 t option.case by (auto split: option.splits)
    let ?s5 = "mirror_ports_put (tree_put p t4 (mirror_port_trees (sw s4))) s4"
    have res: "(if st4 = SAI_STATUS_SUCCESS then sai_mirror_remove_mirror_per_port e p sessions dir ?s5 else Some (st4, ?s5)) = Some (st, s')"
      using c True unfolding sai_mirror_handle_per_port_def Let_def 1 prod.case 2 t option.case 4 by simp
    from add_walk_result [OF s2(3) t2(2) 4] obtain A B where A: "B \<subseteq> A" "A \<subseteq> set sessions" "\<forall>i \<in> A. (i, dir) \<notin> tree_dom t"
      "\<forall>i \<in> A. \<exists>P. srcs (sw s2) i = Some P \<and> (p, dir) \<notin> P" "srcs (sw s4) = srcs_upd (insert (p, dir)) A (srcs (sw s2))"
      "tree_dom t4 = tree_dom t \<union> (\<lambda>i. (i, dir)) ` B" "tree_wf t4" "mirror_wf (sw s4)" "frame s2 s4"
      "st4 = SAI_STATUS_SUCCESS \<longrightarrow> B = A \<and> (\<forall>i \<in> set sessions. (i, dir) \<in> tree_dom t4)"
      "calloc_never_fails (mlib e) \<longrightarrow> insert_total (mlib e) \<longrightarrow> B = A" by (elim exE conjE) (rule that)
    have "mirror_port_trees (sw ?s5) = tree_put p t4 (mirror_port_trees (sw s2))" using A(9) by (simp add: frame_def)
    then have ap5: "apps (sw ?s5) = (apps (sw s))(p := apps (sw s) p \<union> (\<lambda>i. (i, dir)) ` B)"
      using apps_upd A(6) t2(1) s2(2) by metis
    have wf5: "mirror_wf (sw ?s5)" by (rule wf_ports_put [OF A(8,7)]) simp_all
    have l5: "mirror_locked (sw ?s5) = mirror_locked (sw s)" "srcs (sw ?s5) = srcs_upd (insert (p, dir)) A (srcs (sw s))"
      using A(5,9) s2 by (simp_all add: frame_def)
    note a = A(1,2) A(3) [unfolded t2(1)] A(4) [unfolded s2(1)]
    show ?thesis
    proof (cases "st4 = SAI_STATUS_SUCCESS")
      case False
      then have "st = st4" "s' = ?s5" using res by simp_all
      then show ?thesis using False a ap5 wf5 l5 A(11) by (intro exI [where x = A] exI [where x = B] exI [where x = "{}"]) simp
    next
      case st4: True
      then have "sai_mirror_remove_mirror_per_port e p sessions dir ?s5 = Some (st, s')" using res by simp
      from remove_per_port_result [OF e wf5 this] obtain R where R: "R \<subseteq> {i. (i, dir) \<in> apps (sw ?s5) p \<and> i \<notin> set sessions}"
        "srcs (sw s') = srcs_upd (\<lambda>P. P - {(p, dir)}) R (srcs (sw ?s5))"
        "apps (sw s') = (apps (sw ?s5))(p := apps (sw ?s5) p - (\<lambda>i. (i, dir)) ` R)" "mirror_wf (sw s')"
        "mirror_locked (sw s') = mirror_locked (sw ?s5)"
        "st = SAI_STATUS_SUCCESS \<longrightarrow> R = {i. (i, dir) \<in> apps (sw ?s5) p \<and> i \<notin> set sessions}" by (elim exE conjE) (rule that)
      have sub: "R \<subseteq> {i. (i, dir) \<in> apps (sw s) p \<and> i \<notin> set sessions}" using R(1) a(1,2) by (auto simp: ap5)
      have ap: "apps (sw s') = (apps (sw s))(p := (apps (sw s) p \<union> (\<lambda>i. (i, dir)) ` B) - (\<lambda>i. (i, dir)) ` R)"
        unfolding R(3) ap5 by simp
      have BA: "B = A" using A(10) st4 by blast
      have all: "\<forall>i \<in> set sessions. (i, dir) \<in> apps (sw s) p \<union> (\<lambda>i. (i, dir)) ` B"
        using A(10) st4 unfolding A(6) t2(1) by blast
      have "{i. (i, dir) \<in> apps (sw s') p} = set sessions" if "st = SAI_STATUS_SUCCESS"
        using R(6) that all unfolding ap ap5 by auto
      then show ?thesis using a sub R(2,4,5) l5 ap BA A(11)
        by (intro exI [where x = A] exI [where x = B] exI [where x = R]) simp
    qed
  qed
qed

end
