(* ===== verification/Mirror_Properties.thy ===== *)
theory Mirror_Properties
  imports Mirror_Ops Sai_Demo
begin

text \<open>
  The calls of the mirroring component as a step relation, and its properties, each with its use on a
  concrete history.
\<close>

section \<open>The component\<close>

datatype mirror_call =
    MirrorCreate "mirror_attr list"
  | MirrorRemove oid
  | MirrorSet oid mirror_attr
  | MirrorGet oid "mirror_attr list"
  | MirrorIsValid oid
  | MirrorHandlePort oid "oid list" sai_mirror_direction

text \<open>\<open>None\<close>: the call never returns.\<close>

definition mirror_exec :: "'h mirror_env \<Rightarrow> mirror_call \<Rightarrow> 'h mirror_state \<Rightarrow> 'h mirror_state option" where
  "mirror_exec e c s =
     (case c of
        MirrorCreate attrs \<Rightarrow> map_option (snd \<circ> snd) (sai_mirror_session_create e attrs s)
      | MirrorRemove i \<Rightarrow> map_option snd (sai_mirror_session_remove e i s)
      | MirrorSet i attr \<Rightarrow> map_option snd (sai_mirror_session_attribute_set e i attr s)
      | MirrorGet i attrs \<Rightarrow> map_option snd (sai_mirror_session_attribute_get e i attrs s)
      | MirrorIsValid i \<Rightarrow> map_option snd (sai_mirror_is_valid_mirror_session i s)
      | MirrorHandlePort p sessions dir \<Rightarrow> map_option snd (sai_mirror_handle_per_port e p sessions dir s))"

inductive mirror_reachable :: "'h mirror_env \<Rightarrow> 'h mirror_state \<Rightarrow> bool" for e where
  mirror_start: "mirror_port_trees (sw s0) = [] \<Longrightarrow> sai_mirror_init e s0 = (st, s) \<Longrightarrow> mirror_reachable e s"
| mirror_step: "mirror_reachable e s \<Longrightarrow> mirror_exec e c s = Some s' \<Longrightarrow> mirror_reachable e s'"

inductive_cases mirror_reachableE: "mirror_reachable e s"

lemma get_sw: "sai_mirror_session_attribute_get e i attrs s = Some (r, s') \<Longrightarrow> sw s' = sw s"
  by (auto simp: sai_mirror_session_attribute_get_def with_mirror_lock_def mirror_get_steps_def split: if_splits option.splits
      dest: ext_call_sw)

lemma is_valid_keeps:
  "sai_mirror_is_valid_mirror_session i s = Some (b, s') \<Longrightarrow>
    mirror_sessions_tree (sw s') = mirror_sessions_tree (sw s) \<and> mirror_port_trees (sw s') = mirror_port_trees (sw s)"
  by (auto simp: sai_mirror_is_valid_mirror_session_def split: if_splits)

lemma same_trees:
  assumes "mirror_sessions_tree d' = mirror_sessions_tree d" "mirror_port_trees d' = mirror_port_trees d"
  shows "srcs d' = srcs d" "apps d' = apps d" "mirror_wf d' = mirror_wf d"
  using assms by (simp_all add: srcs_def apps_def mirror_wf_def mirror_session_get_def fun_eq_iff)

lemma same_relations:
  assumes "srcs d' = srcs d" "apps d' = apps d"
  shows "mirror_consistent d' = mirror_consistent d" "mirror_complete d' = mirror_complete d"
  using assms by (simp_all add: mirror_consistent_def mirror_complete_def)

text \<open>One step, on the two relations.\<close>

definition handle_rel ::
    "'h mirror_env \<Rightarrow> oid \<Rightarrow> oid list \<Rightarrow> sai_mirror_direction \<Rightarrow> mirror_db \<Rightarrow> mirror_db \<Rightarrow> bool" where
  "handle_rel e p sessions dir d d' \<longleftrightarrow>
     (\<exists>A B R. B \<subseteq> A \<and> A \<subseteq> set sessions \<and> (\<forall>i \<in> A. (i, dir) \<notin> apps d p) \<and>
        (\<forall>i \<in> A. \<exists>P. srcs d i = Some P \<and> (p, dir) \<notin> P) \<and> R \<subseteq> {i. (i, dir) \<in> apps d p \<and> i \<notin> set sessions} \<and>
        srcs d' = srcs_upd (\<lambda>P. P - {(p, dir)}) R (srcs_upd (insert (p, dir)) A (srcs d)) \<and>
        apps d' = (apps d)(p := (apps d p \<union> (\<lambda>i. (i, dir)) ` B) - (\<lambda>i. (i, dir)) ` R) \<and>
        (calloc_never_fails (mlib e) \<longrightarrow> insert_total (mlib e) \<longrightarrow> B = A))"

lemma exec_step:
  assumes e: "mirror_env_ok e" and wf: "mirror_wf (sw s)" and c: "mirror_exec e c s = Some s'"
  shows "mirror_wf (sw s') \<and>
    (srcs (sw s') = srcs (sw s) \<and> apps (sw s') = apps (sw s) \<or>
     (\<exists>i. srcs (sw s) i = None \<and> srcs (sw s') = (srcs (sw s))(i \<mapsto> {}) \<and> apps (sw s') = apps (sw s)) \<or>
     (\<exists>i. srcs (sw s) i = Some {} \<and> srcs (sw s') = (srcs (sw s))(i := None) \<and> apps (sw s') = apps (sw s)) \<or>
     (\<exists>p sessions dir. handle_rel e p sessions dir (sw s) (sw s')))"
proof (cases c)
  case (MirrorCreate attrs)
  then obtain st out where d: "sai_mirror_session_create e attrs s = Some (st, out, s')" using c by (auto simp: mirror_exec_def)
  note r = create_result [OF wf d]
  show ?thesis
  proof (cases "st = SAI_STATUS_SUCCESS")
    case True
    then have "srcs (sw s) (the out) = None" "srcs (sw s') = (srcs (sw s))(the out \<mapsto> {})" "mirror_wf (sw s')" using r by simp_all
    moreover have "apps (sw s') = apps (sw s)" by (rule apps_cong) (use r in simp)
    ultimately show ?thesis by blast
  next
    case False
    then show ?thesis using r wf by simp
  qed
next
  case (MirrorRemove i)
  then obtain st where d: "sai_mirror_session_remove e i s = Some (st, s')" using c by (auto simp: mirror_exec_def)
  note r = remove_result [OF wf d]
  show ?thesis
  proof (cases "st = SAI_STATUS_SUCCESS")
    case True
    then have "srcs (sw s) i = Some {}" "srcs (sw s') = (srcs (sw s))(i := None)" "mirror_wf (sw s')" using r by simp_all
    moreover have "apps (sw s') = apps (sw s)" by (rule apps_cong) (use r True in simp)
    ultimately show ?thesis by blast
  next
    case False
    then show ?thesis using r wf by simp
  qed
next
  case (MirrorSet i attr)
  then obtain st where d: "sai_mirror_session_attribute_set e i attr s = Some (st, s')" using c by (auto simp: mirror_exec_def)
  show ?thesis using set_result [OF wf d] apps_cong by blast
next
  case (MirrorGet i attrs)
  then obtain r where "sai_mirror_session_attribute_get e i attrs s = Some (r, s')" using c by (auto simp: mirror_exec_def)
  then have "sw s' = sw s" by (rule get_sw)
  then show ?thesis using wf by simp
next
  case (MirrorIsValid i)
  then obtain b where "sai_mirror_is_valid_mirror_session i s = Some (b, s')" using c by (auto simp: mirror_exec_def)
  from is_valid_keeps [OF this] show ?thesis using same_trees [of "sw s'" "sw s"] wf by simp
next
  case (MirrorHandlePort p sessions dir)
  then obtain st where d: "sai_mirror_handle_per_port e p sessions dir s = Some (st, s')" using c by (auto simp: mirror_exec_def)
  note h = handle_result [OF e wf d]
  have "mirror_wf (sw s')" using h by (elim exE conjE)
  moreover have "handle_rel e p sessions dir (sw s) (sw s')"
    unfolding handle_rel_def using h by (elim exE conjE) (intro exI conjI)
  ultimately show ?thesis by blast
qed

text \<open>What one source port of one session becomes, and one session of one port.\<close>

lemma handle_relD:
  assumes "handle_rel e p sessions dir d d'"
  obtains A B R where "B \<subseteq> A" "A \<subseteq> set sessions" "\<And>i. i \<in> A \<Longrightarrow> \<exists>P. srcs d i = Some P \<and> (p, dir) \<notin> P"
    "R \<subseteq> {i. (i, dir) \<in> apps d p \<and> i \<notin> set sessions}" "\<And>i. i \<in> A \<Longrightarrow> (i, dir) \<notin> apps d p"
    "\<And>i. srcs d' i = (case srcs d i of None \<Rightarrow> None
       | Some P \<Rightarrow> Some {x. (x \<in> P \<or> i \<in> A \<and> x = (p, dir)) \<and> \<not> (i \<in> R \<and> x = (p, dir))})"
    "\<And>q i d2. (i, d2) \<in> apps d' q \<longleftrightarrow> ((i, d2) \<in> apps d q \<or> q = p \<and> d2 = dir \<and> i \<in> B) \<and> \<not> (q = p \<and> d2 = dir \<and> i \<in> R)"
    "calloc_never_fails (mlib e) \<Longrightarrow> insert_total (mlib e) \<Longrightarrow> B = A"
proof -
  from assms obtain A B R where a: "B \<subseteq> A" "A \<subseteq> set sessions" "\<forall>i \<in> A. (i, dir) \<notin> apps d p"
    "\<forall>i \<in> A. \<exists>P. srcs d i = Some P \<and> (p, dir) \<notin> P" "R \<subseteq> {i. (i, dir) \<in> apps d p \<and> i \<notin> set sessions}"
    "srcs d' = srcs_upd (\<lambda>P. P - {(p, dir)}) R (srcs_upd (insert (p, dir)) A (srcs d))"
    "apps d' = (apps d)(p := (apps d p \<union> (\<lambda>i. (i, dir)) ` B) - (\<lambda>i. (i, dir)) ` R)"
    "calloc_never_fails (mlib e) \<longrightarrow> insert_total (mlib e) \<longrightarrow> B = A"
    unfolding handle_rel_def by (elim exE conjE) (rule that)
  have "srcs d' i = (case srcs d i of None \<Rightarrow> None
       | Some P \<Rightarrow> Some {x. (x \<in> P \<or> i \<in> A \<and> x = (p, dir)) \<and> \<not> (i \<in> R \<and> x = (p, dir))})" for i
    unfolding a(6) srcs_upd_def by (auto split: option.splits)
  moreover have "(i, d2) \<in> apps d' q \<longleftrightarrow> ((i, d2) \<in> apps d q \<or> q = p \<and> d2 = dir \<and> i \<in> B) \<and> \<not> (q = p \<and> d2 = dir \<and> i \<in> R)" for q i d2
    unfolding a(7) by auto
  ultimately show thesis using a(1-5,8) by (intro that [of B A R]) blast+
qed

lemma step_consistent:
  assumes e: "mirror_env_ok e" and wf: "mirror_wf (sw s)" and c: "mirror_exec e c s = Some s'"
  shows "mirror_consistent (sw s) \<Longrightarrow> mirror_consistent (sw s')"
    "calloc_never_fails (mlib e) \<Longrightarrow> insert_total (mlib e) \<Longrightarrow> mirror_complete (sw s) \<Longrightarrow> mirror_complete (sw s')"
proof -
  consider (same) "srcs (sw s') = srcs (sw s)" "apps (sw s') = apps (sw s)"
    | (new) i where "srcs (sw s) i = None" "srcs (sw s') = (srcs (sw s))(i \<mapsto> {})" "apps (sw s') = apps (sw s)"
    | (gone) i where "srcs (sw s) i = Some {}" "srcs (sw s') = (srcs (sw s))(i := None)" "apps (sw s') = apps (sw s)"
    | (handle) p sessions dir where "handle_rel e p sessions dir (sw s) (sw s')"
    using exec_step [OF e wf c] by blast
  then have "(mirror_consistent (sw s) \<longrightarrow> mirror_consistent (sw s')) \<and>
    (calloc_never_fails (mlib e) \<longrightarrow> insert_total (mlib e) \<longrightarrow> mirror_complete (sw s) \<longrightarrow> mirror_complete (sw s'))"
  proof cases
    case same
    then show ?thesis using same_relations by blast
  next
    case new
    have "\<exists>P. srcs (sw s') j = Some P \<and> (p, dir) \<in> P" if con: "mirror_consistent (sw s)" and m: "(j, dir) \<in> apps (sw s') p" for p j dir
    proof -
      obtain P where P: "srcs (sw s) j = Some P" "(p, dir) \<in> P" using con m unfolding new(3) mirror_consistent_def by blast
      then have "j \<noteq> i" using new(1) by auto
      then show ?thesis using P new(2) by simp
    qed
    moreover have "(j, dir) \<in> apps (sw s') p" if "mirror_complete (sw s)" "srcs (sw s') j = Some P" "(p, dir) \<in> P" for p j dir P
    proof -
      have "srcs (sw s) j = Some P" using that(2,3) new(2) by (cases "j = i") auto
      then show ?thesis using that unfolding new(3) mirror_complete_def by blast
    qed
    ultimately show ?thesis unfolding mirror_consistent_def [of "sw s'"] mirror_complete_def [of "sw s'"] by blast
  next
    case gone
    have "\<exists>P. srcs (sw s') j = Some P \<and> (p, dir) \<in> P" if con: "mirror_consistent (sw s)" and m: "(j, dir) \<in> apps (sw s') p" for p j dir
    proof -
      obtain P where P: "srcs (sw s) j = Some P" "(p, dir) \<in> P" using con m unfolding gone(3) mirror_consistent_def by blast
      then have "j \<noteq> i" using gone(1) by auto
      then show ?thesis using P gone(2) by simp
    qed
    moreover have "(j, dir) \<in> apps (sw s') p" if "mirror_complete (sw s)" "srcs (sw s') j = Some P" "(p, dir) \<in> P" for p j dir P
    proof -
      have "srcs (sw s) j = Some P" using that(2,3) gone(2) by (cases "j = i") auto
      then show ?thesis using that unfolding gone(3) mirror_complete_def by blast
    qed
    ultimately show ?thesis unfolding mirror_consistent_def [of "sw s'"] mirror_complete_def [of "sw s'"] by blast
  next
    case handle
    obtain A B R where h: "B \<subseteq> A" "A \<subseteq> set sessions"
      "\<And>i. i \<in> A \<Longrightarrow> \<exists>P. srcs (sw s) i = Some P \<and> (p, dir) \<notin> P" "R \<subseteq> {i. (i, dir) \<in> apps (sw s) p \<and> i \<notin> set sessions}"
      "\<And>i. i \<in> A \<Longrightarrow> (i, dir) \<notin> apps (sw s) p"
      "\<And>i. srcs (sw s') i = (case srcs (sw s) i of None \<Rightarrow> None
         | Some P \<Rightarrow> Some {x. (x \<in> P \<or> i \<in> A \<and> x = (p, dir)) \<and> \<not> (i \<in> R \<and> x = (p, dir))})"
      "\<And>q i d2. (i, d2) \<in> apps (sw s') q \<longleftrightarrow> ((i, d2) \<in> apps (sw s) q \<or> q = p \<and> d2 = dir \<and> i \<in> B) \<and> \<not> (q = p \<and> d2 = dir \<and> i \<in> R)"
      "calloc_never_fails (mlib e) \<Longrightarrow> insert_total (mlib e) \<Longrightarrow> B = A" by (rule handle_relD [OF handle]) (rule that)
    have "\<exists>P. srcs (sw s') i = Some P \<and> (q, d2) \<in> P" if con: "mirror_consistent (sw s)" and m: "(i, d2) \<in> apps (sw s') q" for q i d2
    proof (cases "q = p \<and> d2 = dir \<and> i \<in> B")
      case True
      then obtain P where "srcs (sw s) i = Some P" using h(1,3) by blast
      then show ?thesis using True h(1,7) m by (auto simp: h(6))
    next
      case False
      then have "(i, d2) \<in> apps (sw s) q" "\<not> (q = p \<and> d2 = dir \<and> i \<in> R)" using m h(7) by auto
      then obtain P where "srcs (sw s) i = Some P" "(q, d2) \<in> P" using con unfolding mirror_consistent_def by blast
      then show ?thesis using \<open>\<not> (q = p \<and> d2 = dir \<and> i \<in> R)\<close> by (auto simp: h(6))
    qed
    moreover have "(i, d2) \<in> apps (sw s') q" if com: "mirror_complete (sw s)" and BA: "B = A"
      and m: "srcs (sw s') i = Some P" "(q, d2) \<in> P" for i P q d2
    proof -
      obtain P0 where P0: "srcs (sw s) i = Some P0" using m(1) h(6) [of i] by (cases "srcs (sw s) i") auto
      then have P: "P = {x. (x \<in> P0 \<or> i \<in> A \<and> x = (p, dir)) \<and> \<not> (i \<in> R \<and> x = (p, dir))}" using m(1) h(6) [of i] by simp
      show ?thesis unfolding h(7) using m(2) com P0 unfolding P BA mirror_complete_def by blast
    qed
    ultimately show ?thesis using h(8) unfolding mirror_consistent_def mirror_complete_def by blast
  qed
  then show "mirror_consistent (sw s) \<Longrightarrow> mirror_consistent (sw s')"
    "calloc_never_fails (mlib e) \<Longrightarrow> insert_total (mlib e) \<Longrightarrow> mirror_complete (sw s) \<Longrightarrow> mirror_complete (sw s')" by blast+
qed

lemma mirror_reachable_ok:
  assumes e: "mirror_env_ok e"
  shows "mirror_reachable e s \<Longrightarrow> mirror_wf (sw s) \<and> mirror_consistent (sw s) \<and>
    (calloc_never_fails (mlib e) \<longrightarrow> insert_total (mlib e) \<longrightarrow> mirror_complete (sw s))"
proof (induction rule: mirror_reachable.induct)
  case (mirror_start s0 st s)
  have "mirror_session_get (sw s) = (\<lambda>_. None) \<and> mirror_port_trees (sw s) = []"
    using mirror_start by (auto simp: sai_mirror_init_def Let_def mirror_session_get_def fun_eq_iff split: if_splits prod.splits
        dest!: ext_call_sw)
  then show ?case by (simp add: mirror_wf_def mirror_consistent_def mirror_complete_def srcs_def apps_def)
next
  case (mirror_step s c s')
  then show ?case using exec_step [OF e _ mirror_step.hyps(2)] step_consistent [OF e _ mirror_step.hyps(2)] by blast
qed

text \<open>A session holds a source port that the list of the port does not name.\<close>

definition stranded :: "mirror_db \<Rightarrow> oid \<Rightarrow> oid \<Rightarrow> sai_mirror_direction \<Rightarrow> bool" where
  "stranded d i p dir \<longleftrightarrow> (\<exists>P. srcs d i = Some P \<and> (p, dir) \<in> P) \<and> (i, dir) \<notin> apps d p"

lemma stranded_step:
  assumes e: "mirror_env_ok e" and wf: "mirror_wf (sw s)" and c: "mirror_exec e c s = Some s'" and st: "stranded (sw s) i p dir"
  shows "stranded (sw s') i p dir"
proof -
  obtain P where P: "srcs (sw s) i = Some P" "(p, dir) \<in> P" "(i, dir) \<notin> apps (sw s) p" using st by (auto simp: stranded_def)
  consider (same) "srcs (sw s') = srcs (sw s)" "apps (sw s') = apps (sw s)"
    | (new) j where "srcs (sw s) j = None" "srcs (sw s') = (srcs (sw s))(j \<mapsto> {})" "apps (sw s') = apps (sw s)"
    | (gone) j where "srcs (sw s) j = Some {}" "srcs (sw s') = (srcs (sw s))(j := None)" "apps (sw s') = apps (sw s)"
    | (handle) q sessions d2 where "handle_rel e q sessions d2 (sw s) (sw s')"
    using exec_step [OF e wf c] by blast
  then show ?thesis
  proof cases
    case same
    then show ?thesis using st by (simp add: stranded_def)
  next
    case new
    then have "j \<noteq> i" using P by auto
    then show ?thesis using P new by (simp add: stranded_def)
  next
    case gone
    then have "j \<noteq> i" using P by auto
    then show ?thesis using P gone by (simp add: stranded_def)
  next
    case handle
    obtain A B R where h: "B \<subseteq> A" "A \<subseteq> set sessions"
      "\<And>j. j \<in> A \<Longrightarrow> \<exists>P. srcs (sw s) j = Some P \<and> (q, d2) \<notin> P"
      "R \<subseteq> {j. (j, d2) \<in> apps (sw s) q \<and> j \<notin> set sessions}" "\<And>j. j \<in> A \<Longrightarrow> (j, d2) \<notin> apps (sw s) q"
      "\<And>j. srcs (sw s') j = (case srcs (sw s) j of None \<Rightarrow> None
         | Some P \<Rightarrow> Some {x. (x \<in> P \<or> j \<in> A \<and> x = (q, d2)) \<and> \<not> (j \<in> R \<and> x = (q, d2))})"
      "\<And>r j d3. (j, d3) \<in> apps (sw s') r \<longleftrightarrow> ((j, d3) \<in> apps (sw s) r \<or> r = q \<and> d3 = d2 \<and> j \<in> B) \<and> \<not> (r = q \<and> d3 = d2 \<and> j \<in> R)"
      "calloc_never_fails (mlib e) \<Longrightarrow> insert_total (mlib e) \<Longrightarrow> B = A"
      by (rule handle_relD [OF handle]) (rule that)
    have "\<not> (i \<in> R \<and> (p, dir) = (q, d2))" using h(4) P(3) by blast
    moreover have "i \<notin> A" if "(p, dir) = (q, d2)" using h(3) [of i] P(1,2) that by auto
    then have "\<not> (p = q \<and> dir = d2 \<and> i \<in> B)" using h(1) by blast
    ultimately show ?thesis using P by (auto simp: stranded_def h(6,7))
  qed
qed

fun mirror_run :: "'h mirror_env \<Rightarrow> mirror_call list \<Rightarrow> 'h mirror_state \<Rightarrow> 'h mirror_state option" where
  "mirror_run e [] s = Some s"
| "mirror_run e (c # cs) s = (case mirror_exec e c s of None \<Rightarrow> None | Some s \<Rightarrow> mirror_run e cs s)"

lemma mirror_run_reachable: "mirror_reachable e s \<Longrightarrow> mirror_run e cs s = Some s' \<Longrightarrow> mirror_reachable e s'"
  by (induction cs arbitrary: s) (auto split: option.splits intro: mirror_step)

lemma stranded_run:
  assumes e: "mirror_env_ok e"
  shows "mirror_wf (sw s) \<Longrightarrow> stranded (sw s) i p dir \<Longrightarrow> mirror_run e cs s = Some s' \<Longrightarrow> stranded (sw s') i p dir \<and> mirror_wf (sw s')"
proof (induction cs arbitrary: s)
  case (Cons c cs)
  then obtain s1 where 1: "mirror_exec e c s = Some s1" "mirror_run e cs s1 = Some s'" by (auto split: option.splits)
  show ?case using Cons.IH [OF _ _ 1(2)] exec_step [OF e Cons.prems(1) 1(1)] stranded_step [OF e Cons.prems(1) 1(1) Cons.prems(2)] by blast
qed simp

lemma stranded_fixed:
  assumes e: "mirror_env_ok e" and r: "stranded (sw s) i p dir" "mirror_wf (sw s)"
  shows "sai_mirror_session_remove e i s \<noteq> Some (SAI_STATUS_SUCCESS, s2)"
    "i \<in> set sessions \<Longrightarrow> sai_mirror_handle_per_port e p sessions dir s \<noteq> Some (SAI_STATUS_SUCCESS, s2)"
proof -
  from r(1) obtain P where P: "srcs (sw s) i = Some P" "(p, dir) \<in> P" by (auto simp: stranded_def)
  show "sai_mirror_session_remove e i s \<noteq> Some (SAI_STATUS_SUCCESS, s2)"
    using remove_result [OF r(2), of e i SAI_STATUS_SUCCESS s2] P by auto
  assume i: "i \<in> set sessions"
  show "sai_mirror_handle_per_port e p sessions dir s \<noteq> Some (SAI_STATUS_SUCCESS, s2)"
  proof
    assume c: "sai_mirror_handle_per_port e p sessions dir s = Some (SAI_STATUS_SUCCESS, s2)"
    have "mirror_exec e (MirrorHandlePort p sessions dir) s = Some s2" using c by (simp add: mirror_exec_def)
    then have "(i, dir) \<notin> apps (sw s2) p" using stranded_step [OF e r(2) _ r(1)] by (simp add: stranded_def)
    moreover have "{i. (i, dir) \<in> apps (sw s2) p} = set sessions" using handle_result [OF e r(2) c] by blast
    ultimately show False using i by blast
  qed
qed

text \<open>How a source port is stranded: the session took it, and the node for the list is not allocated.\<close>

lemma failed_node_strands:
  assumes wf: "mirror_wf (sw s)" and no: "(i, dir) \<notin> apps (sw s) p"
    and 0: "ext_call (port_app_get e p) s = (True, s0)" and 1: "mirror_port_tree_make e p s0 = (Some t, s1)"
    and 2: "sai_mirror_session_port_add e i (p, dir) s1 = Some (SAI_STATUS_SUCCESS, s2)"
    and 3: "ext_call (lib_calloc_ok (mlib e)) s2 = (False, s3)"
    and c: "sai_mirror_handle_per_port e p (i # rest) dir s = Some (st, s4)"
  shows "st = SAI_STATUS_NO_MEMORY \<and> stranded (sw s4) i p dir"
proof -
  note sw0 = ext_call_sw [OF 0] and sw3 = ext_call_sw [OF 3]
  have t: "tree_dom t = apps (sw s) p" "mirror_wf (sw s1)" using tree_make_result [OF _ 1] wf sw0 by simp_all
  then have none: "tree_get t (i, dir) = None" using no by (auto simp: tree_dom_iff)
  then have "mirror_add_walk e p dir (i # rest) t s1 = Some (SAI_STATUS_NO_MEMORY, t, s3)" by (simp add: 2 3)
  then have r: "st = SAI_STATUS_NO_MEMORY" "s4 = mirror_ports_put (tree_put p t (mirror_port_trees (sw s3))) s3"
    using c by (simp_all add: sai_mirror_handle_per_port_def 0 1)
  obtain P where "srcs (sw s2) i = Some (insert (p, dir) P)" using port_add_result [OF t(2) 2] by auto
  moreover have "(i, dir) \<notin> apps (sw s4) p" using none by (simp add: r(2) apps_ports_put tree_dom_iff)
  ultimately show ?thesis using r by (auto simp: stranded_def sw3)
qed

text \<open>The sessions that mirror a source port.\<close>

definition mirrored :: "mirror_db \<Rightarrow> mirror_source \<Rightarrow> oid set" where
  "mirrored d x = {i. \<exists>P. srcs d i = Some P \<and> x \<in> P}"

lemma handle_mirrored:
  assumes e: "mirror_env_ok e" and wf: "mirror_wf (sw s)" and con: "mirror_consistent (sw s)" and com: "mirror_complete (sw s)"
    and c: "sai_mirror_handle_per_port e p sessions dir s = Some (SAI_STATUS_SUCCESS, s')"
  shows "mirrored (sw s') = (mirrored (sw s))((p, dir) := set sessions)"
proof -
  have ex: "mirror_exec e (MirrorHandlePort p sessions dir) s = Some s'" using c by (simp add: mirror_exec_def)
  have con': "mirror_consistent (sw s')" by (rule step_consistent(1) [OF e wf ex con])
  from handle_result [OF e wf c] obtain A B R where h: "B \<subseteq> A" "A \<subseteq> set sessions" "\<forall>i \<in> A. (i, dir) \<notin> apps (sw s) p"
    "\<forall>i \<in> A. \<exists>P. srcs (sw s) i = Some P \<and> (p, dir) \<notin> P" "R \<subseteq> {i. (i, dir) \<in> apps (sw s) p \<and> i \<notin> set sessions}"
    "srcs (sw s') = srcs_upd (\<lambda>P. P - {(p, dir)}) R (srcs_upd (insert (p, dir)) A (srcs (sw s)))"
    "apps (sw s') = (apps (sw s))(p := (apps (sw s) p \<union> (\<lambda>i. (i, dir)) ` B) - (\<lambda>i. (i, dir)) ` R)"
    "mirror_wf (sw s')" "mirror_locked (sw s') = mirror_locked (sw s)"
    "SAI_STATUS_SUCCESS = SAI_STATUS_SUCCESS \<longrightarrow> B = A \<and> {i. (i, dir) \<in> apps (sw s') p} = set sessions"
    "calloc_never_fails (mlib e) \<longrightarrow> insert_total (mlib e) \<longrightarrow> B = A" by (elim exE conjE) (rule that)
  have set: "(i, dir) \<in> apps (sw s') p \<longleftrightarrow> i \<in> set sessions" for i using h(10) by blast
  have other: "i \<in> mirrored (sw s') x \<longleftrightarrow> i \<in> mirrored (sw s) x" if "x \<noteq> (p, dir)" for i x
    using that by (auto simp: mirrored_def h(6) srcs_upd_def split: if_splits)
  have "i \<in> set sessions" if m: "i \<in> mirrored (sw s') (p, dir)" for i
  proof -
    obtain P where P: "srcs (sw s') i = Some P" "(p, dir) \<in> P" using m by (auto simp: mirrored_def)
    then have iR: "i \<notin> R" by (auto simp: h(6) srcs_upd_def split: if_splits)
    show ?thesis
    proof (cases "i \<in> A")
      case False
      then have "srcs (sw s) i = Some P" using P(1) iR by (simp add: h(6) srcs_upd_def)
      then have "(i, dir) \<in> apps (sw s) p" using com P(2) unfolding mirror_complete_def by blast
      then show ?thesis unfolding set [symmetric] h(7) using iR by auto
    qed (use h(2) in blast)
  qed
  moreover have "i \<in> mirrored (sw s') (p, dir)" if "i \<in> set sessions" for i
    using con' set [of i] that unfolding mirror_consistent_def mirrored_def by blast
  ultimately have here: "i \<in> mirrored (sw s') (p, dir) \<longleftrightarrow> i \<in> set sessions" for i by blast
  show ?thesis
  proof
    fix x
    show "mirrored (sw s') x = ((mirrored (sw s))((p, dir) := set sessions)) x"
      using here other [of x] by (cases "x = (p, dir)") auto
  qed
qed

text \<open>Two paths that go wrong: a session that is not found leaves the lock held, and a refused type stays.\<close>

lemma mirror_lock_leaked:
  "sai_mirror_is_valid_mirror_session i s = Some (False, s') \<Longrightarrow> sai_mirror_session_create e attrs s' = None"
  by (auto simp: sai_mirror_is_valid_mirror_session_def sai_mirror_session_create_def with_mirror_lock_def split: if_splits)

lemma mirror_refused_type_stays:
  assumes "is_obj_id_mirror_session e i" "\<not> mirror_locked (sw s)" "mirror_session_get (sw s) i = Some n" "lib_ok (mlib e)"
  shows "\<exists>st s'. sai_mirror_session_attribute_set e i (SAI_MIRROR_SESSION_ATTR_TYPE (MIRROR_TYPE_OTHER k)) s = Some (st, s') \<and>
    st \<noteq> SAI_STATUS_SUCCESS \<and> map_option ms_span_type (mirror_session_get (sw s') i) = Some (MIRROR_TYPE_OTHER k)"
  using assms session_get_put [of s i i "n\<lparr>ms_span_type := MIRROR_TYPE_OTHER k\<rparr>" i]
  by (simp add: sai_mirror_session_attribute_set_def with_mirror_lock_def mirror_set_steps_def lib_okD(2))

section \<open>A concrete environment\<close>

text \<open>
  The world is a script of the allocations that fail, and the index of the next session. The hardware
  accepts everything, and trees are walked in the order of their lists.
\<close>

type_synonym mirror_script = "bool list \<times> u64"

definition mirror_demo_lib :: "mirror_script sai_lib" where
  "mirror_demo_lib = demo_lib\<lparr>lib_calloc_ok := (\<lambda>(bs, n). case bs of [] \<Rightarrow> (True, [], n) | b # bs \<Rightarrow> (\<not> b, bs, n))\<rparr>"

definition demo_mirror_env :: "mirror_script mirror_env" where
  "demo_mirror_env =
     \<lparr>mlib = mirror_demo_lib, mirror_walk = (\<lambda>xs. xs),
      mirror_zero = \<lparr>ms_session_id = 0, ms_span_type = SAI_MIRROR_TYPE_LOCAL, ms_monitor_port = 0,
        ms_params = \<lparr>mp_encap_type = 0, mp_ip_hdr_version = 0, mp_tos = 0, mp_ttl = 0, mp_src_ip = MIRROR_IP4 0,
          mp_dst_ip = MIRROR_IP4 0, mp_src_mac = [], mp_dst_mac = [], mp_gre_protocol = 0, mp_class_of_service = 0,
          mp_tpid = 0, mp_vlan_id = 0, mp_vlan_priority = 0\<rparr>, ms_source_ports = None\<rparr>,
      mirror_vlan_valid = (\<lambda>v. True), mirror_vlan_created = (\<lambda>v h. True), mirror_port_valid = (\<lambda>p h. True),
      mirror_lag_created = (\<lambda>p h. True), mirror_ip_zero = (\<lambda>a. False), mirror_mac_zero = (\<lambda>a. False),
      port_app_get = (\<lambda>p. Pair True), port_app_remove = (\<lambda>p h. h),
      npu_session_attribs_validate = (\<lambda>i a k. Pair SAI_STATUS_SUCCESS),
      npu_session_create = (\<lambda>n (bs, k). ((SAI_STATUS_SUCCESS, k), bs, k + 1)),
      npu_session_destroy = (\<lambda>i. Pair SAI_STATUS_SUCCESS), npu_session_set = (\<lambda>i t a. Pair SAI_STATUS_SUCCESS),
      npu_session_get = (\<lambda>i t as. Pair (SAI_STATUS_SUCCESS, as)),
      npu_session_port_add = (\<lambda>i p d. Pair SAI_STATUS_SUCCESS), npu_session_port_remove = (\<lambda>i p d. Pair SAI_STATUS_SUCCESS),
      npu_mirror_init = Pair SAI_STATUS_SUCCESS\<rparr>"

lemma demo_mirror_env_ok: "mirror_env_ok demo_mirror_env"
proof -
  have "lib_ok mirror_demo_lib" using demo_lib_ok [where 'a = mirror_script] by (simp add: lib_ok_def mirror_demo_lib_def)
  then show ?thesis by (simp add: mirror_env_ok_def demo_mirror_env_def)
qed

abbreviation demo_session :: "u64 \<Rightarrow> oid" where "demo_session n \<equiv> demo_oid SAI_OBJECT_TYPE_MIRROR n"

abbreviation mirror_demo_port :: "u64 \<Rightarrow> oid" where "mirror_demo_port n \<equiv> demo_oid SAI_OBJECT_TYPE_PORT n"

text \<open>Sessions 1 and 2; the ingress of port 7 goes to session 1. Of the allocations after that, those of \<open>bs\<close> fail.\<close>

definition demo_mirror_create :: mirror_call where
  "demo_mirror_create = MirrorCreate [SAI_MIRROR_SESSION_ATTR_TYPE SAI_MIRROR_TYPE_LOCAL,
     SAI_MIRROR_SESSION_ATTR_MONITOR_PORT (mirror_demo_port 9)]"

definition demo_mirror_start :: "bool list \<Rightarrow> mirror_script mirror_state" where
  "demo_mirror_start bs = snd (sai_mirror_init demo_mirror_env
     \<lparr>sw = \<lparr>mirror_sessions_tree = None, mirror_port_trees = [], mirror_locked = False\<rparr>, ext = (bs, 1)\<rparr>)"

definition demo_mirror_calls :: "mirror_call list" where
  "demo_mirror_calls = [demo_mirror_create, demo_mirror_create,
     MirrorHandlePort (mirror_demo_port 7) [demo_session 1] SAI_MIRROR_DIR_INGRESS]"

definition demo_mirror_state :: "bool list \<Rightarrow> mirror_script mirror_state" where
  "demo_mirror_state bs = the (mirror_run demo_mirror_env demo_mirror_calls (demo_mirror_start ([False, False, False, False] @ bs)))"

lemma demo_mirror_reachable: "mirror_reachable demo_mirror_env (demo_mirror_state [])"
proof -
  let ?s = "demo_mirror_start ([False, False, False, False] @ [])"
  have "mirror_reachable demo_mirror_env ?s" unfolding demo_mirror_start_def
    by (rule mirror_start [OF _ surjective_pairing]) simp
  moreover have "mirror_run demo_mirror_env demo_mirror_calls ?s \<noteq> None" by code_simp
  then have "mirror_run demo_mirror_env demo_mirror_calls ?s = Some (demo_mirror_state [])" by (auto simp: demo_mirror_state_def)
  ultimately show ?thesis by (rule mirror_run_reachable)
qed

lemma demo_mirror_ok:
  "mirror_wf (sw (demo_mirror_state [])) \<and> mirror_consistent (sw (demo_mirror_state []))"
  using mirror_reachable_ok [OF demo_mirror_env_ok demo_mirror_reachable] by blast

lemma demo_mirror_relations:
  "srcs (sw (demo_mirror_state [])) = [demo_session 1 \<mapsto> {(mirror_demo_port 7, SAI_MIRROR_DIR_INGRESS)}, demo_session 2 \<mapsto> {}]"
  "apps (sw (demo_mirror_state [])) = (\<lambda>_. {})(mirror_demo_port 7 := {(demo_session 1, SAI_MIRROR_DIR_INGRESS)})"
proof -
  have t: "map_option (map (\<lambda>(i, n). (i, ms_source_ports n))) (mirror_sessions_tree (sw (demo_mirror_state []))) =
      Some [(demo_session 1, Some [((mirror_demo_port 7, SAI_MIRROR_DIR_INGRESS), ())]), (demo_session 2, Some [])]"
    "mirror_port_trees (sw (demo_mirror_state [])) = [(mirror_demo_port 7, [((demo_session 1, SAI_MIRROR_DIR_INGRESS), ())])]"
    "demo_session 1 \<noteq> demo_session 2"
    by code_simp+
  let ?l = "[(demo_session 1, Some [((mirror_demo_port 7, SAI_MIRROR_DIR_INGRESS), ())]), (demo_session 2, Some [])]"
  obtain u where u: "mirror_sessions_tree (sw (demo_mirror_state [])) = Some u" "map (\<lambda>(i, n). (i, ms_source_ports n)) u = ?l"
    using t(1) by (cases "mirror_sessions_tree (sw (demo_mirror_state []))") simp_all
  have m: "map_option ms_source_ports (tree_get u i) = tree_get ?l i" for i
    unfolding u(2) [symmetric] tree_get_def map_of_map by simp
  have "srcs (sw (demo_mirror_state [])) i = Option.bind (tree_get ?l i) (map_option tree_dom)" for i
    unfolding m [symmetric] by (cases "tree_get u i") (simp_all add: srcs_def mirror_session_get_def u(1))
  then show "srcs (sw (demo_mirror_state [])) = [demo_session 1 \<mapsto> {(mirror_demo_port 7, SAI_MIRROR_DIR_INGRESS)}, demo_session 2 \<mapsto> {}]"
    using t(3) by (auto simp: fun_eq_iff tree_get_Cons tree_dom_def)
  show "apps (sw (demo_mirror_state [])) = (\<lambda>_. {})(mirror_demo_port 7 := {(demo_session 1, SAI_MIRROR_DIR_INGRESS)})"
    by (auto simp: fun_eq_iff apps_def t(2) tree_get_Cons tree_dom_def)
qed

section \<open>Properties\<close>

text \<open>
  C34: whatever calls are made and whatever fails, every session that the list of a port names exists and
  has the port, in that direction, among its source ports, so that a session with listed ports is never
  removed; and when no allocation fails, the list of each port names every session that has it.
\<close>

theorem mirror_lists_agree:
  assumes "mirror_env_ok e" and "mirror_reachable e s"
  shows "((i, dir) \<in> apps (sw s) p \<longrightarrow> (\<exists>P. srcs (sw s) i = Some P \<and> (p, dir) \<in> P)) \<and>
    (calloc_never_fails (mlib e) \<and> insert_total (mlib e) \<longrightarrow>
      srcs (sw s) i = Some P \<and> (p, dir) \<in> P \<longrightarrow> (i, dir) \<in> apps (sw s) p)"
  using mirror_reachable_ok [OF assms] unfolding mirror_consistent_def mirror_complete_def by blast

theorem mirror_lists_agree_witness:
  "(demo_session 1, SAI_MIRROR_DIR_INGRESS) \<in> apps (sw (demo_mirror_state [])) (mirror_demo_port 7) \<and>
   (\<exists>P. srcs (sw (demo_mirror_state [])) (demo_session 1) = Some P \<and> (mirror_demo_port 7, SAI_MIRROR_DIR_INGRESS) \<in> P)"
proof -
  have "(demo_session 1, SAI_MIRROR_DIR_INGRESS) \<in> apps (sw (demo_mirror_state [])) (mirror_demo_port 7)"
    by (simp add: demo_mirror_relations)
  with mirror_lists_agree [OF demo_mirror_env_ok demo_mirror_reachable] show ?thesis by blast
qed

text \<open>
  C35: when no session has a source port that is missing in the list of that port (no port is stranded,
  \<open>mirror_complete\<close>), a setting of the list of sessions of a port that succeeds is one assignment in the
  map from a port and a direction to the sessions that mirror it: exactly the sessions of the list mirror
  the port in this direction, and nothing else changes, not the other direction of the port and not other
  ports.
\<close>

theorem mirror_handle_refines:
  assumes "mirror_env_ok e" and "mirror_wf (sw s)" and "mirror_consistent (sw s)" and "mirror_complete (sw s)"
    and "sai_mirror_handle_per_port e p sessions dir s = Some (SAI_STATUS_SUCCESS, s')"
  shows "mirrored (sw s') = (mirrored (sw s))((p, dir) := set sessions)"
  by (rule handle_mirrored [OF assms])

text \<open>Session 2 takes the place of session 1 on the ingress of port 7.\<close>

theorem mirror_handle_refines_witness:
  "\<exists>s'. sai_mirror_handle_per_port demo_mirror_env (mirror_demo_port 7) [demo_session 2] SAI_MIRROR_DIR_INGRESS (demo_mirror_state []) =
      Some (SAI_STATUS_SUCCESS, s') \<and> mirrored (sw s') (mirror_demo_port 7, SAI_MIRROR_DIR_INGRESS) = {demo_session 2}"
proof -
  let ?c = "sai_mirror_handle_per_port demo_mirror_env (mirror_demo_port 7) [demo_session 2] SAI_MIRROR_DIR_INGRESS (demo_mirror_state [])"
  have "map_option fst ?c = Some SAI_STATUS_SUCCESS" by code_simp
  then obtain s' where s': "?c = Some (SAI_STATUS_SUCCESS, s')" by auto
  have "mirror_complete (sw (demo_mirror_state []))"
    unfolding mirror_complete_def demo_mirror_relations by auto
  from mirror_handle_refines [OF demo_mirror_env_ok demo_mirror_ok [THEN conjunct1] demo_mirror_ok [THEN conjunct2] this s']
  show ?thesis using s' by simp
qed

text \<open>
  C36: let a port be given a session that it does not have, let the session take the port, and let the
  allocation of the node for the list of the port fail then. The call fails with NO_MEMORY, and the session
  keeps the port for ever: whatever calls follow, the session still has it, the list of the port never
  names the session, no setting of the list that contains the session succeeds, and the session can not be
  removed.
\<close>

theorem mirror_stranded_forever:
  assumes "mirror_env_ok e" and "mirror_wf (sw s)" and "(i, dir) \<notin> apps (sw s) p"
    and "ext_call (port_app_get e p) s = (True, s0)" and "mirror_port_tree_make e p s0 = (Some t, s1)"
    and "sai_mirror_session_port_add e i (p, dir) s1 = Some (SAI_STATUS_SUCCESS, s2)"
    and "ext_call (lib_calloc_ok (mlib e)) s2 = (False, s3)"
    and "sai_mirror_handle_per_port e p (i # rest) dir s = Some (st, s4)" and "mirror_run e cs s4 = Some s'"
  shows "st = SAI_STATUS_NO_MEMORY \<and> stranded (sw s') i p dir \<and>
    sai_mirror_session_remove e i s' \<noteq> Some (SAI_STATUS_SUCCESS, s5) \<and>
    (i \<in> set sessions \<longrightarrow> sai_mirror_handle_per_port e p sessions dir s' \<noteq> Some (SAI_STATUS_SUCCESS, s5))"
proof -
  note f = failed_node_strands [OF assms(2-8)]
  have wf: "mirror_wf (sw s4)" using handle_result [OF assms(1,2,8)] by blast
  have "stranded (sw s') i p dir" "mirror_wf (sw s')"
    using stranded_run [OF assms(1) wf conjunct2 [OF f] assms(9)] by simp_all
  then show ?thesis using f stranded_fixed [OF assms(1)] by blast
qed

text \<open>The node for the tree of port 8 can not be allocated; removing session 2 after that fails.\<close>

definition demo_before_failure :: "mirror_script mirror_state" where
  "demo_before_failure = (demo_mirror_state [])\<lparr>ext := ([False, True], 3)\<rparr>"

definition demo_stranded_state :: "mirror_script mirror_state" where
  "demo_stranded_state =
     snd (the (sai_mirror_handle_per_port demo_mirror_env (mirror_demo_port 8) [demo_session 2] SAI_MIRROR_DIR_EGRESS
       demo_before_failure))"

theorem mirror_stranded_forever_witness:
  "\<exists>s'. mirror_run demo_mirror_env [MirrorHandlePort (mirror_demo_port 8) [] SAI_MIRROR_DIR_EGRESS] demo_stranded_state = Some s' \<and>
     stranded (sw s') (demo_session 2) (mirror_demo_port 8) SAI_MIRROR_DIR_EGRESS"
proof -
  let ?p = "mirror_demo_port 8" and ?i = "demo_session 2" and ?d = SAI_MIRROR_DIR_EGRESS
  let ?s0 = "snd (ext_call (port_app_get demo_mirror_env ?p) demo_before_failure)"
  let ?t = "mirror_port_tree_make demo_mirror_env ?p ?s0"
  let ?a = "sai_mirror_session_port_add demo_mirror_env ?i (?p, ?d) (snd ?t)"
  let ?call = "sai_mirror_handle_per_port demo_mirror_env ?p [?i] ?d demo_before_failure"
  let ?run = "mirror_run demo_mirror_env [MirrorHandlePort ?p [] ?d] demo_stranded_state"
  have "fst (ext_call (port_app_get demo_mirror_env ?p) demo_before_failure)" by code_simp
  then have 0: "ext_call (port_app_get demo_mirror_env ?p) demo_before_failure = (True, ?s0)" by (simp add: prod_eq_iff)
  have "fst ?t = Some []" by code_simp
  then have 1: "?t = (Some [], snd ?t)" by (simp add: prod_eq_iff)
  have "map_option fst ?a = Some SAI_STATUS_SUCCESS" by code_simp
  then have 2: "?a = Some (SAI_STATUS_SUCCESS, snd (the ?a))" by auto
  have "\<not> fst (ext_call (lib_calloc_ok (mlib demo_mirror_env)) (snd (the ?a)))" by code_simp
  then have 3: "ext_call (lib_calloc_ok (mlib demo_mirror_env)) (snd (the ?a)) =
      (False, snd (ext_call (lib_calloc_ok (mlib demo_mirror_env)) (snd (the ?a))))" by (simp add: prod_eq_iff)
  have "map_option fst ?call = Some SAI_STATUS_NO_MEMORY" by code_simp
  then have 4: "?call = Some (SAI_STATUS_NO_MEMORY, demo_stranded_state)" by (auto simp: demo_stranded_state_def)
  have "?run \<noteq> None" by code_simp
  then obtain s' where 5: "?run = Some s'" by auto
  have wf: "mirror_wf (sw demo_before_failure)" using demo_mirror_ok by (simp add: demo_before_failure_def)
  have no: "(?i, ?d) \<notin> apps (sw demo_before_failure) ?p"
  proof -
    have "tree_get (mirror_port_trees (sw demo_before_failure)) ?p = None" by code_simp
    then show ?thesis by (simp add: apps_def)
  qed
  show ?thesis using mirror_stranded_forever [OF demo_mirror_env_ok wf no 0 1 2 3 4 5] 5 by blast
qed

end
