(* ===== verification/Sample_Api.thy ===== *)
theory Sample_Api
  imports Sai_Lib
begin

text \<open>
  Sample packet sessions (\<^verbatim>\<open>src/src/samplepacket/sai_samplepacket_common.c\<close>), and their use by ports and by
  ACL rules (\<^verbatim>\<open>sai_samplepacket_port.c\<close>). A session has a tree of the ports it samples, and each node of it
  says whether the port itself or flows of ACL rules are sampled and counts the latter. The code can free
  a node that is still in the tree: such a node is kept and marked. An operation that reads the memory
  of a freed node, or of a NULL pointer, has no result: \<open>None\<close>. Which nodes of a tree an operation of the
  tree library reads is not in the repository: it is a parameter (\<open>sample_rb_path\<close>, \<open>sample_rb_fix\<close>,
  \<open>sample_rb_first\<close>), a function of the keys in the tree and of the world, which stands for its shape.
\<close>

section \<open>State\<close>

datatype sample_direction = SAI_SAMPLEPACKET_DIR_INGRESS | SAI_SAMPLEPACKET_DIR_EGRESS

datatype sample_mode = SAI_SAMPLEPACKET_MODE_PORT_BASED | SAI_SAMPLEPACKET_MODE_FLOW_BASED | SAMPLEPACKET_MODE_OTHER int

datatype sample_type = SAI_SAMPLEPACKET_SLOW_PATH | SAMPLEPACKET_TYPE_OTHER int

datatype sample_attr =
  SAI_SAMPLEPACKET_ATTR_TYPE sample_type | SAI_SAMPLEPACKET_ATTR_SAMPLE_RATE u32 | SAMPLEPACKET_ATTR_UNKNOWN int

type_synonym sample_port = "oid \<times> sample_direction"

type_synonym acl_key = "oid \<times> oid \<times> sample_direction"

text \<open>The two bits of the mode, and whether the memory of the node was freed.\<close>

record sample_node =
  sn_port_based :: bool
  sn_flow_based :: bool
  sn_ref_count :: u32
  sn_freed :: bool

definition sample_node_zero :: sample_node where
  "sample_node_zero = \<lparr>sn_port_based = False, sn_flow_based = False, sn_ref_count = 0, sn_freed = False\<rparr>"

record sample_session =
  ss_session_id :: oid
  ss_sampling_type :: sample_type
  ss_sample_rate :: u32
  ss_port_tree :: "(sample_port, sample_node) tree option"

text \<open>
  \<open>sample_objects\<close> is the session that each port and direction has in the application node of the port
  (no entry: the null object); \<open>sai_acl_info_per_port\<close> are the sessions that ACL rules put on ports, with
  the null object as the port for a rule on all ports.
\<close>

record sample_db =
  samplepacket_sessions_tree :: "(oid, sample_session) tree option"
  sample_objects :: "(sample_port, oid) tree"
  sai_acl_info_per_port :: "(acl_key, unit) tree option"

type_synonym 'h sample_state = "(sample_db, 'h) comp"

record 'h sample_env =
  plib :: "'h sai_lib"
  sample_session_zero :: sample_session
  sample_port_app_get :: "oid \<Rightarrow> 'h \<Rightarrow> bool \<times> 'h"
  sample_port_app_remove :: "oid \<Rightarrow> 'h \<Rightarrow> 'h"
  sample_all_ports :: "'h \<Rightarrow> oid list"
  sample_max_lport :: "'h \<Rightarrow> nat"
  sample_radix_create_ok :: "'h \<Rightarrow> bool \<times> 'h"
  sample_radix_insert_ok :: "'h \<Rightarrow> bool \<times> 'h"
  sample_rb_path :: "'h \<Rightarrow> sample_port list \<Rightarrow> sample_port \<Rightarrow> sample_port list"
  sample_rb_fix :: "'h \<Rightarrow> sample_port list \<Rightarrow> sample_port \<Rightarrow> sample_port list"
  sample_rb_first :: "'h \<Rightarrow> sample_port list \<Rightarrow> sample_port list"
  sample_acl_walk :: "acl_key list \<Rightarrow> acl_key \<Rightarrow> acl_key list"
  npu_sample_create :: "sample_session \<Rightarrow> 'h \<Rightarrow> (sai_status \<times> u64) \<times> 'h"
  npu_sample_destroy :: "oid \<Rightarrow> 'h \<Rightarrow> sai_status \<times> 'h"
  npu_sample_set :: "sample_session \<Rightarrow> sample_attr \<Rightarrow> 'h \<Rightarrow> sai_status \<times> 'h"
  npu_sample_get :: "sample_session \<Rightarrow> sample_attr list \<Rightarrow> 'h \<Rightarrow> (sai_status \<times> sample_attr list) \<times> 'h"
  npu_sample_port_add :: "sample_session \<Rightarrow> oid \<Rightarrow> sample_direction \<Rightarrow> 'h \<Rightarrow> sai_status \<times> 'h"
  npu_sample_port_remove :: "oid \<Rightarrow> oid \<Rightarrow> sample_direction \<Rightarrow> 'h \<Rightarrow> sai_status \<times> 'h"
  npu_sample_acl_port_add :: "sample_session \<Rightarrow> oid \<Rightarrow> sample_direction \<Rightarrow> 'h \<Rightarrow> sai_status \<times> 'h"
  npu_sample_acl_port_remove :: "oid \<Rightarrow> oid \<Rightarrow> sample_direction \<Rightarrow> 'h \<Rightarrow> sai_status \<times> 'h"
  npu_sample_init :: "'h \<Rightarrow> sai_status \<times> 'h"

definition sample_sessions_put :: "(oid, sample_session) tree \<Rightarrow> 'h sample_state \<Rightarrow> 'h sample_state" where
  "sample_sessions_put t s = upd_sw (\<lambda>d. d\<lparr>samplepacket_sessions_tree := Some t\<rparr>) s"

definition sample_session_get :: "sample_db \<Rightarrow> oid \<Rightarrow> sample_session option" where
  "sample_session_get d i = (case samplepacket_sessions_tree d of None \<Rightarrow> None | Some t \<Rightarrow> tree_get t i)"

definition sample_session_put :: "oid \<Rightarrow> sample_session \<Rightarrow> 'h sample_state \<Rightarrow> 'h sample_state" where
  "sample_session_put i n s =
     (case samplepacket_sessions_tree (sw s) of None \<Rightarrow> s | Some t \<Rightarrow> sample_sessions_put (tree_put i n t) s)"

definition sample_ports_put :: "oid \<Rightarrow> sample_session \<Rightarrow> (sample_port, sample_node) tree \<Rightarrow> 'h sample_state \<Rightarrow> 'h sample_state" where
  "sample_ports_put i n ps s = sample_session_put i (n\<lparr>ss_port_tree := Some ps\<rparr>) s"

text \<open>
  The nodes with the keys \<open>qs\<close> are read: a lookup reads the nodes on its path, an insertion or a removal
  those it relinks as well, and the first node is at the end of a path.
\<close>

definition reads_freed :: "(sample_port, sample_node) tree \<Rightarrow> sample_port list \<Rightarrow> bool" where
  "reads_freed ps qs = list_ex (\<lambda>q. case tree_get ps q of None \<Rightarrow> False | Some n \<Rightarrow> sn_freed n) qs"

definition lookup_defined :: "'h sample_env \<Rightarrow> (sample_port, sample_node) tree \<Rightarrow> sample_port \<Rightarrow> 'h sample_state \<Rightarrow> bool" where
  "lookup_defined e ps p s = (\<not> reads_freed ps (sample_rb_path e (ext s) (map fst ps) p))"

definition relink_defined :: "'h sample_env \<Rightarrow> (sample_port, sample_node) tree \<Rightarrow> sample_port \<Rightarrow> 'h sample_state \<Rightarrow> bool" where
  "relink_defined e ps p s = (\<not> reads_freed ps (sample_rb_fix e (ext s) (map fst ps) p))"

text \<open>The path of a key that is in the tree ends at its node.\<close>

definition sample_rb_ok :: "'h sample_env \<Rightarrow> bool" where
  "sample_rb_ok e \<longleftrightarrow> (\<forall>h ks p. p \<in> set ks \<longrightarrow> p \<in> set (sample_rb_path e h ks p))"

text \<open>Taking a node out of the tree.\<close>

definition sample_ports_del ::
    "'h sample_env \<Rightarrow> oid \<Rightarrow> sample_session \<Rightarrow> sample_port \<Rightarrow> (sample_port, sample_node) tree \<Rightarrow> 'h sample_state
     \<Rightarrow> 'h sample_state option" where
  "sample_ports_del e i n p ps s =
     (if relink_defined e ps p s then Some (sample_ports_put i n (tree_del p ps) s) else None)"

definition is_obj_id_samplepkt_session :: "'h sample_env \<Rightarrow> oid \<Rightarrow> bool" where
  "is_obj_id_samplepkt_session e i \<longleftrightarrow> lib_object_type (plib e) i = SAI_OBJECT_TYPE_SAMPLEPACKET"

section \<open>Sessions\<close>

text \<open>The only mandatory attribute is the rate.\<close>

definition sai_samplepacket_is_mandat_attribute_missing :: "sample_attr list \<Rightarrow> bool" where
  "sai_samplepacket_is_mandat_attribute_missing seen =
     (\<not> list_ex (\<lambda>a. case a of SAI_SAMPLEPACKET_ATTR_SAMPLE_RATE _ \<Rightarrow> True | _ \<Rightarrow> False) seen)"

fun sai_samplepacket_fill_attribute_params ::
    "'h sample_env \<Rightarrow> sample_session \<Rightarrow> sample_attr \<Rightarrow> nat \<Rightarrow> sai_status \<times> sample_session" where
  "sai_samplepacket_fill_attribute_params e n (SAI_SAMPLEPACKET_ATTR_TYPE v) idx =
     (if v \<noteq> SAI_SAMPLEPACKET_SLOW_PATH then (lib_indexed_ret_val (plib e) SAI_STATUS_INVALID_ATTR_VALUE_0 idx, n)
      else (SAI_STATUS_SUCCESS, n\<lparr>ss_sampling_type := v\<rparr>))"
| "sai_samplepacket_fill_attribute_params e n (SAI_SAMPLEPACKET_ATTR_SAMPLE_RATE v) idx =
     (if v = 0 then (lib_indexed_ret_val (plib e) SAI_STATUS_INVALID_ATTR_VALUE_0 idx, n)
      else (SAI_STATUS_SUCCESS, n\<lparr>ss_sample_rate := v\<rparr>))"
| "sai_samplepacket_fill_attribute_params e n (SAMPLEPACKET_ATTR_UNKNOWN i) idx =
     (lib_indexed_ret_val (plib e) SAI_STATUS_UNKNOWN_ATTRIBUTE_0 idx, n)"

fun sample_create_loop ::
    "'h sample_env \<Rightarrow> nat \<Rightarrow> sample_attr list \<Rightarrow> sample_session \<Rightarrow> sai_status \<times> sample_session" where
  "sample_create_loop e idx [] n = (SAI_STATUS_SUCCESS, n)"
| "sample_create_loop e idx (attr # attrs) n =
     (let (rc, n) = sai_samplepacket_fill_attribute_params e n attr idx
      in if rc \<noteq> SAI_STATUS_SUCCESS then (rc, n) else sample_create_loop e (idx + 1) attrs n)"

definition sample_create_insert ::
    "'h sample_env \<Rightarrow> (oid, sample_session) tree \<Rightarrow> sample_session \<Rightarrow> 'h sample_state
     \<Rightarrow> sai_status \<times> oid option \<times> 'h sample_state" where
  "sample_create_insert e t n s =
     (let ((rc, npu_object_id), s) = ext_call (npu_sample_create e n) s
      in if rc \<noteq> SAI_STATUS_SUCCESS then (rc, None, s)
         else let i = lib_uoid_create (plib e) SAI_OBJECT_TYPE_SAMPLEPACKET npu_object_id;
                  n = n\<lparr>ss_session_id := i\<rparr>;
                  (ok, s) = lib_insert_ok (plib e) t i s
              in if \<not> ok then (SAI_STATUS_FAILURE, None, snd (ext_call (npu_sample_destroy e i) s))
                 else let s = sample_sessions_put (tree_put i n t) s;
                          (ok, s) = ext_call (lib_rbtree_create_ok (plib e)) s
                      in if \<not> ok then (SAI_STATUS_FAILURE, None,
                                       snd (ext_call (npu_sample_destroy e i) (sample_sessions_put (tree_del i t) s)))
                         else (SAI_STATUS_SUCCESS, Some i, sample_ports_put i n [] s))"

definition sai_samplepacket_session_create ::
    "'h sample_env \<Rightarrow> sample_attr list \<Rightarrow> 'h sample_state \<Rightarrow> sai_status \<times> oid option \<times> 'h sample_state" where
  "sai_samplepacket_session_create e attrs s =
     (case samplepacket_sessions_tree (sw s) of
        None \<Rightarrow> (SAI_STATUS_FAILURE, None, s)
      | Some t \<Rightarrow>
          (let (ok, s) = ext_call (lib_calloc_ok (plib e)) s
           in if \<not> ok then (SAI_STATUS_NO_MEMORY, None, s)
              else let (rc, n) = sample_create_loop e 0 attrs (sample_session_zero e)
                   in if rc \<noteq> SAI_STATUS_SUCCESS then (rc, None, s)
                      else if sai_samplepacket_is_mandat_attribute_missing attrs
                      then (SAI_STATUS_MANDATORY_ATTRIBUTE_MISSING, None, s)
                      else sample_create_insert e t n s))"

definition sai_samplepacket_session_remove ::
    "'h sample_env \<Rightarrow> oid \<Rightarrow> 'h sample_state \<Rightarrow> (sai_status \<times> 'h sample_state) option" where
  "sai_samplepacket_session_remove e i s =
     (case samplepacket_sessions_tree (sw s) of
        None \<Rightarrow> Some (SAI_STATUS_FAILURE, s)
      | Some t \<Rightarrow>
          if \<not> is_obj_id_samplepkt_session e i then Some (SAI_STATUS_INVALID_OBJECT_TYPE, s)
          else case tree_get t i of
                 None \<Rightarrow> Some (SAI_STATUS_INVALID_OBJECT_ID, s)
               | Some n \<Rightarrow>
                   (let ps = (case ss_port_tree n of None \<Rightarrow> [] | Some ps \<Rightarrow> ps)
                    in if reads_freed ps (sample_rb_first e (ext s) (map fst ps)) then None
                       else if ps \<noteq> [] then Some (SAI_STATUS_OBJECT_IN_USE, s)
                       else let (rc, s) = ext_call (npu_sample_destroy e (ss_session_id n)) s
                            in if rc \<noteq> SAI_STATUS_SUCCESS then Some (rc, s)
                               else Some (SAI_STATUS_SUCCESS, sample_sessions_put (tree_del i t) s)))"

text \<open>The hardware is set before the attribute is checked.\<close>

definition sai_samplepacket_session_attribute_set ::
    "'h sample_env \<Rightarrow> oid \<Rightarrow> sample_attr \<Rightarrow> 'h sample_state \<Rightarrow> sai_status \<times> 'h sample_state" where
  "sai_samplepacket_session_attribute_set e i attr s =
     (if \<not> is_obj_id_samplepkt_session e i then (SAI_STATUS_INVALID_OBJECT_TYPE, s)
      else case sample_session_get (sw s) i of
             None \<Rightarrow> (SAI_STATUS_INVALID_OBJECT_ID, s)
           | Some n \<Rightarrow>
               (let (rc, s) = ext_call (npu_sample_set e n attr) s
                in if rc \<noteq> SAI_STATUS_SUCCESS then (rc, s)
                   else let (rc, n) = sai_samplepacket_fill_attribute_params e n attr 0
                        in (rc, sample_session_put i n s)))"

definition sai_samplepacket_session_attribute_get ::
    "'h sample_env \<Rightarrow> oid \<Rightarrow> sample_attr list \<Rightarrow> 'h sample_state \<Rightarrow> (sai_status \<times> sample_attr list) \<times> 'h sample_state" where
  "sai_samplepacket_session_attribute_get e i attrs s =
     (if \<not> is_obj_id_samplepkt_session e i then ((SAI_STATUS_INVALID_OBJECT_TYPE, attrs), s)
      else case sample_session_get (sw s) i of
             None \<Rightarrow> ((SAI_STATUS_INVALID_OBJECT_ID, attrs), s)
           | Some n \<Rightarrow> ext_call (npu_sample_get e n attrs) s)"

section \<open>Ports of a session\<close>

text \<open>The status of a call that failed with a node in hand: the node is freed, wherever it is.\<close>

definition sample_free_in :: "sample_port \<Rightarrow> (sample_port, sample_node) tree \<Rightarrow> (sample_port, sample_node) tree" where
  "sample_free_in p ps = (case tree_get ps p of None \<Rightarrow> ps | Some n \<Rightarrow> tree_put p (n\<lparr>sn_freed := True\<rparr>) ps)"

text \<open>From the node on: it is in the tree \<open>ps\<close> under \<open>p\<close> with content \<open>pn\<close>.\<close>

definition sample_add_node ::
    "'h sample_env \<Rightarrow> oid \<Rightarrow> sample_session \<Rightarrow> sample_port \<Rightarrow> sample_mode \<Rightarrow> (sample_port, sample_node) tree \<Rightarrow> sample_node
     \<Rightarrow> 'h sample_state \<Rightarrow> (sai_status \<times> 'h sample_state) option" where
  "sample_add_node e i n p mode ps pn s =
     (case mode of
        SAI_SAMPLEPACKET_MODE_PORT_BASED \<Rightarrow>
          (let (rc, s) = ext_call (npu_sample_port_add e n (fst p) (snd p)) s
           in if rc \<noteq> SAI_STATUS_SUCCESS
              then if sn_ref_count pn = 0 then map_option (Pair rc) (sample_ports_del e i n p ps s)
                   else Some (rc, sample_ports_put i n (sample_free_in p ps) s)
              else Some (SAI_STATUS_SUCCESS, sample_ports_put i n (tree_put p (pn\<lparr>sn_port_based := True\<rparr>) ps) s))
      | SAI_SAMPLEPACKET_MODE_FLOW_BASED \<Rightarrow>
          (let (rc, s) = ext_call (npu_sample_acl_port_add e n (fst p) (snd p)) s
           in if rc \<noteq> SAI_STATUS_SUCCESS
              then if \<not> sn_port_based pn \<and> sn_ref_count pn = 0 then map_option (Pair rc) (sample_ports_del e i n p ps s)
                   else Some (rc, sample_ports_put i n (sample_free_in p ps) s)
              else Some (SAI_STATUS_SUCCESS,
                    sample_ports_put i n (tree_put p (pn\<lparr>sn_ref_count := sn_ref_count pn + 1, sn_flow_based := True\<rparr>) ps) s))
      | SAMPLEPACKET_MODE_OTHER _ \<Rightarrow> Some (SAI_STATUS_FAILURE, sample_ports_put i n (sample_free_in p ps) s))"

definition sai_samplepacket_session_port_add ::
    "'h sample_env \<Rightarrow> oid \<Rightarrow> sample_port \<Rightarrow> sample_mode \<Rightarrow> 'h sample_state \<Rightarrow> (sai_status \<times> 'h sample_state) option" where
  "sai_samplepacket_session_port_add e i p mode s =
     (if \<not> is_obj_id_samplepkt_session e i then Some (SAI_STATUS_INVALID_OBJECT_TYPE, s)
      else if samplepacket_sessions_tree (sw s) = None then Some (SAI_STATUS_FAILURE, s)
      else case sample_session_get (sw s) i of
             None \<Rightarrow> Some (SAI_STATUS_INVALID_OBJECT_ID, s)
           | Some n \<Rightarrow>
               (case ss_port_tree n of
                  None \<Rightarrow> Some (SAI_STATUS_FAILURE, s)
                | Some ps \<Rightarrow>
                    if \<not> lookup_defined e ps p s then None
                    else case tree_get ps p of
                           None \<Rightarrow>
                             (let (ok, s) = ext_call (lib_calloc_ok (plib e)) s
                              in if \<not> ok then Some (SAI_STATUS_NO_MEMORY, s)
                                 else if \<not> relink_defined e ps p s then None
                                 else let (ok, s) = lib_insert_ok (plib e) ps p s
                                      in if \<not> ok then Some (SAI_STATUS_FAILURE, s)
                                         else sample_add_node e i n p mode (tree_put p sample_node_zero ps) sample_node_zero s)
                         | Some pn \<Rightarrow>
                             if mode = SAI_SAMPLEPACKET_MODE_PORT_BASED \<and> sn_port_based pn
                             then Some (SAI_STATUS_ITEM_ALREADY_EXISTS, s)
                             else if mode = SAI_SAMPLEPACKET_MODE_FLOW_BASED \<and> sn_flow_based pn
                             then Some (SAI_STATUS_SUCCESS,
                                        sample_ports_put i n (tree_put p (pn\<lparr>sn_ref_count := sn_ref_count pn + 1\<rparr>) ps) s)
                             else sample_add_node e i n p mode ps pn s))"

text \<open>
  The node leaves the tree when its count is zero, and it is freed in any case. A flow that is not the last
  one is counted down and reported as OBJECT_IN_USE.
\<close>

definition sample_drop_node ::
    "'h sample_env \<Rightarrow> oid \<Rightarrow> sample_session \<Rightarrow> sample_port \<Rightarrow> (sample_port, sample_node) tree \<Rightarrow> sample_node
     \<Rightarrow> 'h sample_state \<Rightarrow> (sai_status \<times> 'h sample_state) option" where
  "sample_drop_node e i n p ps pn s =
     (if sn_ref_count pn = 0 then map_option (Pair SAI_STATUS_SUCCESS) (sample_ports_del e i n p ps s)
      else Some (SAI_STATUS_SUCCESS, sample_ports_put i n (tree_put p (pn\<lparr>sn_freed := True\<rparr>) ps) s))"

definition sai_samplepacket_session_port_remove ::
    "'h sample_env \<Rightarrow> oid \<Rightarrow> sample_port \<Rightarrow> sample_mode \<Rightarrow> 'h sample_state \<Rightarrow> (sai_status \<times> 'h sample_state) option" where
  "sai_samplepacket_session_port_remove e i p mode s =
     (if \<not> is_obj_id_samplepkt_session e i then Some (SAI_STATUS_INVALID_OBJECT_TYPE, s)
      else if samplepacket_sessions_tree (sw s) = None then Some (SAI_STATUS_FAILURE, s)
      else case sample_session_get (sw s) i of
             None \<Rightarrow> Some (SAI_STATUS_INVALID_OBJECT_ID, s)
           | Some n \<Rightarrow>
               (case ss_port_tree n of
                  None \<Rightarrow> Some (SAI_STATUS_FAILURE, s)
                | Some ps \<Rightarrow>
                    if \<not> lookup_defined e ps p s then None
                    else case tree_get ps p of
                           None \<Rightarrow> Some (SAI_STATUS_ITEM_NOT_FOUND, s)
                         | Some pn \<Rightarrow>
                             (case mode of
                               SAI_SAMPLEPACKET_MODE_PORT_BASED \<Rightarrow>
                                 (let (rc, s) = ext_call (npu_sample_port_remove e i (fst p) (snd p)) s
                                  in if rc \<noteq> SAI_STATUS_SUCCESS then Some (rc, s) else sample_drop_node e i n p ps pn s)
                             | SAI_SAMPLEPACKET_MODE_FLOW_BASED \<Rightarrow>
                                 (let pn = pn\<lparr>sn_ref_count := sn_ref_count pn - 1\<rparr>;
                                      s = sample_ports_put i n (tree_put p pn ps) s
                                  in if sn_ref_count pn \<noteq> 0 then Some (SAI_STATUS_OBJECT_IN_USE, s)
                                     else let (rc, s) = ext_call (npu_sample_acl_port_remove e i (fst p) (snd p)) s
                                          in if rc \<noteq> SAI_STATUS_SUCCESS then Some (rc, s)
                                             else sample_drop_node e i n p ps (pn\<lparr>sn_flow_based := False\<rparr>) s)
                             | SAMPLEPACKET_MODE_OTHER _ \<Rightarrow> sample_drop_node e i n p ps pn s)))"

section \<open>The session of a port\<close>

definition sample_object_of :: "sample_db \<Rightarrow> sample_port \<Rightarrow> oid" where
  "sample_object_of d p = (case tree_get (sample_objects d) p of None \<Rightarrow> SAI_NULL_OBJECT_ID | Some i \<Rightarrow> i)"

definition sample_object_put :: "sample_port \<Rightarrow> oid \<Rightarrow> 'h sample_state \<Rightarrow> 'h sample_state" where
  "sample_object_put p i s = upd_sw (\<lambda>d. d\<lparr>sample_objects := tree_put p i (sample_objects d)\<rparr>) s"

definition sai_samplepacket_handle_per_port ::
    "'h sample_env \<Rightarrow> oid \<Rightarrow> oid \<Rightarrow> sample_direction \<Rightarrow> 'h sample_state \<Rightarrow> (sai_status \<times> 'h sample_state) option" where
  "sai_samplepacket_handle_per_port e port_id i dir s =
     (let (ok, s) = ext_call (sample_port_app_get e port_id) s
      in if \<not> ok then Some (SAI_STATUS_FAILURE, s)
         else if i \<noteq> SAI_NULL_OBJECT_ID
         then if sample_object_of (sw s) (port_id, dir) \<noteq> SAI_NULL_OBJECT_ID then Some (SAI_STATUS_OBJECT_IN_USE, s)
              else map_option (\<lambda>(ret, s). if ret \<noteq> SAI_STATUS_SUCCESS then (SAI_STATUS_FAILURE, s)
                                           else (ret, sample_object_put (port_id, dir) i s))
                     (sai_samplepacket_session_port_add e i (port_id, dir) SAI_SAMPLEPACKET_MODE_PORT_BASED s)
         else map_option (\<lambda>(ret, s). if ret \<noteq> SAI_STATUS_SUCCESS then (SAI_STATUS_FAILURE, s)
                                      else (ret, (sample_object_put (port_id, dir) SAI_NULL_OBJECT_ID s)
                                                   \<lparr>ext := sample_port_app_remove e port_id (ext s)\<rparr>))
                (sai_samplepacket_session_port_remove e (sample_object_of (sw s) (port_id, dir)) (port_id, dir)
                   SAI_SAMPLEPACKET_MODE_PORT_BASED s))"

section \<open>Sessions of ACL rules\<close>

definition sai_acl_samplepacket_init :: "'h sample_env \<Rightarrow> 'h sample_state \<Rightarrow> sai_status \<times> 'h sample_state" where
  "sai_acl_samplepacket_init e s =
     (let (ok, s) = ext_call (sample_radix_create_ok e) s
      in (SAI_STATUS_SUCCESS, upd_sw (\<lambda>d. d\<lparr>sai_acl_info_per_port := if ok then Some [] else None\<rparr>) s))"

definition sai_samplepacket_init :: "'h sample_env \<Rightarrow> 'h sample_state \<Rightarrow> sai_status \<times> 'h sample_state" where
  "sai_samplepacket_init e s =
     (let (ok, s) = ext_call (lib_rbtree_create_ok (plib e)) s
      in if \<not> ok then (SAI_STATUS_FAILURE, upd_sw (\<lambda>d. d\<lparr>samplepacket_sessions_tree := None\<rparr>) s)
         else ext_call (npu_sample_init e) (snd (sai_acl_samplepacket_init e (sample_sessions_put [] s))))"

text \<open>
  A port may have one session of ACL rules for each direction. The walk starts after the key with a null
  session and goes on while the port is the same. The order of the keys is that of their bytes, and the
  structure of the key is not declared in the repository: \<open>sample_acl_walk\<close> gives the keys that follow
  a key, in the order of the tree.
\<close>

definition sai_samplepacket_acl_is_same_sample_on_port ::
    "'h sample_env \<Rightarrow> (acl_key, unit) tree \<Rightarrow> oid \<Rightarrow> oid \<Rightarrow> sample_direction \<Rightarrow> sai_status" where
  "sai_samplepacket_acl_is_same_sample_on_port e t port_id i dir =
     (if tree_get t (port_id, SAI_NULL_OBJECT_ID, dir) \<noteq> None then SAI_STATUS_SUCCESS
      else if list_ex (\<lambda>(q, j, d). j \<noteq> i \<and> d = dir)
                (takeWhile (\<lambda>k. fst k = port_id) (sample_acl_walk e (map fst t) (port_id, SAI_NULL_OBJECT_ID, dir)))
      then SAI_STATUS_FAILURE
      else SAI_STATUS_SUCCESS)"

text \<open>The allocation is not checked, and the failed insertion frees NULL, not the node.\<close>

definition sai_samplepacket_check_and_insert_acl_info ::
    "'h sample_env \<Rightarrow> oid \<Rightarrow> oid \<Rightarrow> sample_direction \<Rightarrow> 'h sample_state \<Rightarrow> (sai_status \<times> 'h sample_state) option" where
  "sai_samplepacket_check_and_insert_acl_info e port_id i dir s =
     (case sai_acl_info_per_port (sw s) of
        None \<Rightarrow> Some (SAI_STATUS_FAILURE, s)
      | Some t \<Rightarrow>
          if tree_get t (port_id, i, dir) \<noteq> None then Some (SAI_STATUS_SUCCESS, s)
          else let (ok, s) = ext_call (lib_calloc_ok (plib e)) s
               in if \<not> ok then None
                  else let (ok, s) = ext_call (sample_radix_insert_ok e) s
                       in if \<not> ok then Some (SAI_STATUS_FAILURE, s)
                          else Some (SAI_STATUS_SUCCESS,
                                     upd_sw (\<lambda>d. d\<lparr>sai_acl_info_per_port := Some (tree_put (port_id, i, dir) () t)\<rparr>) s))"

text \<open>A walk in a tree that was never made reads the NULL handle.\<close>

fun sai_samplepacket_validate_object_on_portlist ::
    "'h sample_env \<Rightarrow> (acl_key, unit) tree option \<Rightarrow> oid list \<Rightarrow> oid \<Rightarrow> sample_direction \<Rightarrow> sai_status option" where
  "sai_samplepacket_validate_object_on_portlist e t [] i dir = Some SAI_STATUS_SUCCESS"
| "sai_samplepacket_validate_object_on_portlist e t (p # ps) i dir =
     (case t of
        None \<Rightarrow> None
      | Some u \<Rightarrow> (let rc = sai_samplepacket_acl_is_same_sample_on_port e u p i dir
                  in if rc \<noteq> SAI_STATUS_SUCCESS then Some rc
                     else sai_samplepacket_validate_object_on_portlist e t ps i dir))"

text \<open>A failed insertion is undone, and the loop goes on: the status is that of the last port.\<close>

fun sample_update_loop ::
    "'h sample_env \<Rightarrow> oid list \<Rightarrow> oid \<Rightarrow> sample_direction \<Rightarrow> sai_status \<Rightarrow> 'h sample_state
     \<Rightarrow> (sai_status \<times> 'h sample_state) option" where
  "sample_update_loop e [] i dir rc s = Some (rc, s)"
| "sample_update_loop e (p # ps) i dir rc s =
     (case sai_samplepacket_session_port_add e i (p, dir) SAI_SAMPLEPACKET_MODE_FLOW_BASED s of
        None \<Rightarrow> None
      | Some (rc, s) \<Rightarrow>
          if rc \<noteq> SAI_STATUS_SUCCESS then Some (rc, s)
          else case sai_samplepacket_check_and_insert_acl_info e p i dir s of
                 None \<Rightarrow> None
               | Some (rc, s) \<Rightarrow>
                   if rc \<noteq> SAI_STATUS_SUCCESS
                   then (case sai_samplepacket_session_port_remove e i (p, dir) SAI_SAMPLEPACKET_MODE_FLOW_BASED s of
                           None \<Rightarrow> None | Some (_, s) \<Rightarrow> sample_update_loop e ps i dir rc s)
                   else sample_update_loop e ps i dir rc s)"

definition sai_samplepacket_update_object_on_portlist ::
    "'h sample_env \<Rightarrow> oid list \<Rightarrow> oid \<Rightarrow> sample_direction \<Rightarrow> 'h sample_state \<Rightarrow> (sai_status \<times> 'h sample_state) option" where
  "sai_samplepacket_update_object_on_portlist e ps i dir s = sample_update_loop e ps i dir SAI_STATUS_SUCCESS s"

text \<open>Validation and update of a list of ports, each when asked for; a failed step ends it.\<close>

definition sample_validate_update ::
    "'h sample_env \<Rightarrow> oid list \<Rightarrow> oid \<Rightarrow> sample_direction \<Rightarrow> bool \<Rightarrow> bool \<Rightarrow> 'h sample_state
     \<Rightarrow> (sai_status \<times> 'h sample_state) option" where
  "sample_validate_update e ports i dir validate update s =
     (case (if validate then sai_samplepacket_validate_object_on_portlist e (sai_acl_info_per_port (sw s)) ports i dir
            else Some SAI_STATUS_SUCCESS) of
        None \<Rightarrow> None
      | Some rc \<Rightarrow>
          if rc \<noteq> SAI_STATUS_SUCCESS then Some (rc, s)
          else if update then sai_samplepacket_update_object_on_portlist e ports i dir s else Some (SAI_STATUS_SUCCESS, s))"

text \<open>
  The buffer for the list of all ports has room for \<open>sample_max_lport\<close> ports, and is filled before the number
  of ports is compared with it: more ports overrun it.
\<close>

definition sai_samplepacket_validate_object ::
    "'h sample_env \<Rightarrow> oid list option \<Rightarrow> oid \<Rightarrow> sample_direction \<Rightarrow> bool \<Rightarrow> bool \<Rightarrow> 'h sample_state
     \<Rightarrow> (sai_status \<times> 'h sample_state) option" where
  "sai_samplepacket_validate_object e portlist i dir validate update s =
     (if \<not> validate \<and> \<not> update then Some (SAI_STATUS_SUCCESS, s)
      else case portlist of
             Some ports \<Rightarrow> sample_validate_update e ports i dir validate update s
           | None \<Rightarrow>
               (let (ok, s) = ext_call (lib_calloc_ok (plib e)) s
                in if \<not> ok then Some (SAI_STATUS_NO_MEMORY, s)
                   else let ports = sample_all_ports e (ext s)
                        in if ports = [] then Some (SAI_STATUS_FAILURE, s)
                           else if length ports > sample_max_lport e (ext s) then None
                           else case sample_validate_update e ports i dir validate update s of
                                  None \<Rightarrow> None
                                | Some (rc, s) \<Rightarrow>
                                    if rc \<noteq> SAI_STATUS_SUCCESS then Some (rc, s)
                                    else if update
                                    then sai_samplepacket_check_and_insert_acl_info e SAI_NULL_OBJECT_ID i dir s
                                    else Some (rc, s)))"

definition acl_info_del :: "acl_key \<Rightarrow> 'h sample_state \<Rightarrow> 'h sample_state" where
  "acl_info_del k s = upd_sw (\<lambda>d. d\<lparr>sai_acl_info_per_port := map_option (tree_del k) (sai_acl_info_per_port d)\<rparr>) s"

fun sample_remove_loop ::
    "'h sample_env \<Rightarrow> oid list \<Rightarrow> oid \<Rightarrow> sample_direction \<Rightarrow> sai_status \<Rightarrow> 'h sample_state
     \<Rightarrow> (sai_status \<times> 'h sample_state) option" where
  "sample_remove_loop e [] i dir rc s = Some (rc, s)"
| "sample_remove_loop e (p # ps) i dir rc s =
     (if (case sai_acl_info_per_port (sw s) of None \<Rightarrow> True | Some t \<Rightarrow> tree_get t (p, i, dir) = None)
      then sample_remove_loop e ps i dir rc s
      else case sai_samplepacket_session_port_remove e i (p, dir) SAI_SAMPLEPACKET_MODE_FLOW_BASED s of
             None \<Rightarrow> None
           | Some (rc, s) \<Rightarrow>
               sample_remove_loop e ps i dir rc (if rc \<noteq> SAI_STATUS_SUCCESS then s else acl_info_del (p, i, dir) s))"

definition sai_samplepacket_remove_object ::
    "'h sample_env \<Rightarrow> oid list option \<Rightarrow> oid \<Rightarrow> sample_direction \<Rightarrow> 'h sample_state \<Rightarrow> (sai_status \<times> 'h sample_state) option" where
  "sai_samplepacket_remove_object e portlist i dir s =
     (if sai_acl_info_per_port (sw s) = None then Some (SAI_STATUS_FAILURE, s)
      else case portlist of
             Some ports \<Rightarrow> sample_remove_loop e ports i dir SAI_STATUS_SUCCESS s
           | None \<Rightarrow> (let s = acl_info_del (SAI_NULL_OBJECT_ID, i, dir) s
                     in sample_remove_loop e (sample_all_ports e (ext s)) i dir SAI_STATUS_SUCCESS s))"

end
