(* ===== verification/Sample_Ops.thy ===== *)
theory Sample_Ops
  imports Sample_Api
begin

text \<open>
  What adding and removing ports does to the nodes of a session, the two ways in which a port that is
  sampled both for itself and for flows goes wrong.
\<close>

section \<open>Nodes\<close>

definition port_tree_of :: "sample_db \<Rightarrow> oid \<Rightarrow> (sample_port, sample_node) tree option" where
  "port_tree_of d i = Option.bind (sample_session_get d i) ss_port_tree"

definition node_of :: "sample_db \<Rightarrow> oid \<Rightarrow> sample_port \<Rightarrow> sample_node option" where
  "node_of d i p = Option.bind (port_tree_of d i) (\<lambda>ps. tree_get ps p)"

text \<open>A node of a session is in use for the port or for flows, and counts the flows.\<close>

definition node_sane :: "sample_node \<Rightarrow> bool" where
  "node_sane n \<longleftrightarrow> \<not> sn_freed n \<and> (sn_flow_based n \<longleftrightarrow> sn_ref_count n \<noteq> 0) \<and> (sn_port_based n \<or> sn_flow_based n)"

lemma port_tree_ofE:
  assumes "port_tree_of d i = Some ps"
  obtains n where "sample_session_get d i = Some n" "ss_port_tree n = Some ps"
proof (cases "sample_session_get d i")
  case (Some n)
  then show ?thesis using assms that by (simp add: port_tree_of_def)
qed (use assms in \<open>simp add: port_tree_of_def\<close>)

lemma sample_session_get_tree: "sample_session_get d i = Some n \<Longrightarrow> samplepacket_sessions_tree d \<noteq> None"
  by (cases "samplepacket_sessions_tree d") (simp_all add: sample_session_get_def)

lemma sample_session_get_put:
  "sample_session_get (sw s) j \<noteq> None \<Longrightarrow>
    sample_session_get (sw (sample_session_put i n s)) k = (if k = i then Some n else sample_session_get (sw s) k)"
  by (auto simp: sample_session_put_def sample_sessions_put_def sample_session_get_def split: option.splits)

lemma port_tree_ports_put:
  assumes "sample_session_get (sw s) j \<noteq> None"
  shows "port_tree_of (sw (sample_ports_put i n ps s)) = (port_tree_of (sw s))(i \<mapsto> ps)"
  by (rule ext) (simp add: port_tree_of_def sample_ports_put_def sample_session_get_put [OF assms])

lemma ports_put_acl [simp]: "sai_acl_info_per_port (sw (sample_ports_put i n ps s)) = sai_acl_info_per_port (sw s)"
  "sample_objects (sw (sample_ports_put i n ps s)) = sample_objects (sw s)"
  by (simp_all add: sample_ports_put_def sample_session_put_def sample_sessions_put_def split: option.splits)

lemma ports_delD:
  "sample_ports_del e i n p ps s = Some s' \<Longrightarrow> s' = sample_ports_put i n (tree_del p ps) s"
  by (auto simp: sample_ports_del_def split: if_splits)

text \<open>A freed node that is in the tree is on the path to its own key.\<close>

lemma freed_lookup:
  assumes "sample_rb_ok e" "tree_get ps p = Some pn" "sn_freed pn"
  shows "\<not> lookup_defined e ps p s"
proof -
  have "p \<in> set (map fst ps)" using tree_get_in_set [OF assms(2)] by force
  then have "p \<in> set (sample_rb_path e (ext s) (map fst ps) p)" using assms(1) unfolding sample_rb_ok_def by blast
  then show ?thesis
    unfolding lookup_defined_def reads_freed_def list_ex_iff using assms(2,3) by force
qed

section \<open>Adding and removing\<close>

text \<open>What a successful addition does to the tree of the session.\<close>

lemma add_node_tree:
  assumes g: "sample_session_get (sw s) i \<noteq> None"
    and c: "sample_add_node e i n p SAI_SAMPLEPACKET_MODE_FLOW_BASED ps pn s = Some (SAI_STATUS_SUCCESS, s')"
  shows "port_tree_of (sw s') = (port_tree_of (sw s))(i \<mapsto>
    tree_put p (pn\<lparr>sn_ref_count := sn_ref_count pn + 1, sn_flow_based := True\<rparr>) ps)"
proof -
  obtain rc s1 where 1: "ext_call (npu_sample_acl_port_add e n (fst p) (snd p)) s = (rc, s1)" by force
  have g1: "sample_session_get (sw s1) i \<noteq> None" using g ext_call_sw [OF 1] by simp
  have "s' = sample_ports_put i n (tree_put p (pn\<lparr>sn_ref_count := sn_ref_count pn + 1, sn_flow_based := True\<rparr>) ps) s1"
    using c by (auto simp: sample_add_node_def 1 split: if_splits)
  then show ?thesis using port_tree_ports_put [OF g1] ext_call_sw [OF 1] by simp
qed

lemma port_add_flow:
  assumes c: "sai_samplepacket_session_port_add e i p SAI_SAMPLEPACKET_MODE_FLOW_BASED s = Some (SAI_STATUS_SUCCESS, s')"
  obtains ps pn where "port_tree_of (sw s) i = Some ps"
    "pn = (case tree_get ps p of None \<Rightarrow> sample_node_zero | Some n \<Rightarrow> n)"
    "port_tree_of (sw s') = (port_tree_of (sw s))(i \<mapsto> tree_put p (pn\<lparr>sn_ref_count := sn_ref_count pn + 1, sn_flow_based := True\<rparr>) ps)"
    "is_obj_id_samplepkt_session e i"
proof -
  obtain n ps where n: "sample_session_get (sw s) i = Some n" "ss_port_tree n = Some ps" "lookup_defined e ps p s"
    "is_obj_id_samplepkt_session e i"
    using c by (auto simp: sai_samplepacket_session_port_add_def split: if_splits option.splits)
  then have t: "samplepacket_sessions_tree (sw s) \<noteq> None" using sample_session_get_tree by blast
  have pt: "port_tree_of (sw s) i = Some ps" using n by (simp add: port_tree_of_def)
  show thesis
  proof (cases "tree_get ps p")
    case None
    obtain ok1 s1 where 1: "ext_call (lib_calloc_ok (plib e)) s = (ok1, s1)" by force
    obtain ok2 s2 where 2: "lib_insert_ok (plib e) ps p s1 = (ok2, s2)" by force
    have sw2: "sw s2 = sw s" using ext_call_sw [OF 1] lib_insert_okD [OF 2] by simp
    have d: "sample_add_node e i n p SAI_SAMPLEPACKET_MODE_FLOW_BASED (tree_put p sample_node_zero ps) sample_node_zero s2 =
        Some (SAI_STATUS_SUCCESS, s')"
      using c n t None by (auto simp: sai_samplepacket_session_port_add_def 1 2 split: if_splits)
    have g: "sample_session_get (sw s2) i \<noteq> None" using n(1) sw2 by simp
    from add_node_tree [OF g d] show thesis by (intro that [OF pt refl _ n(4)]) (simp add: None sw2)
  next
    case (Some pn)
    have g: "sample_session_get (sw s) i \<noteq> None" using n(1) by simp
    show thesis
    proof (cases "sn_flow_based pn")
      case True
      then have "s' = sample_ports_put i n (tree_put p (pn\<lparr>sn_ref_count := sn_ref_count pn + 1\<rparr>) ps) s"
        using c n t Some by (simp add: sai_samplepacket_session_port_add_def)
      moreover have "pn\<lparr>sn_ref_count := sn_ref_count pn + 1, sn_flow_based := True\<rparr> = pn\<lparr>sn_ref_count := sn_ref_count pn + 1\<rparr>"
        using True by (cases pn) simp
      ultimately show thesis by (intro that [OF pt refl _ n(4)]) (simp add: Some port_tree_ports_put [OF g])
    next
      case False
      then have d: "sample_add_node e i n p SAI_SAMPLEPACKET_MODE_FLOW_BASED ps pn s = Some (SAI_STATUS_SUCCESS, s')"
        using c n t Some by (simp add: sai_samplepacket_session_port_add_def)
      from add_node_tree [OF g d] show thesis by (intro that [OF pt refl _ n(4)]) (simp add: Some)
    qed
  qed
qed

text \<open>A removal from a session that has a tree, in terms of the node.\<close>

lemma port_remove_call:
  assumes pt: "port_tree_of (sw s) i = Some ps" and i: "is_obj_id_samplepkt_session e i"
  obtains n where "sample_session_get (sw s) i = Some n"
    "sai_samplepacket_session_port_remove e i p mode s =
       (if \<not> lookup_defined e ps p s then None
        else case tree_get ps p of None \<Rightarrow> Some (SAI_STATUS_ITEM_NOT_FOUND, s)
        | Some pn \<Rightarrow>
           (case mode of
              SAI_SAMPLEPACKET_MODE_PORT_BASED \<Rightarrow>
                (let (rc, s) = ext_call (npu_sample_port_remove e i (fst p) (snd p)) s
                 in if rc \<noteq> SAI_STATUS_SUCCESS then Some (rc, s) else sample_drop_node e i n p ps pn s)
            | SAI_SAMPLEPACKET_MODE_FLOW_BASED \<Rightarrow>
                (let pn = pn\<lparr>sn_ref_count := sn_ref_count pn - 1\<rparr>;
                     s = sample_ports_put i n (tree_put p pn ps) s
                 in if sn_ref_count pn \<noteq> 0 then Some (SAI_STATUS_OBJECT_IN_USE, s)
                    else let (rc, s) = ext_call (npu_sample_acl_port_remove e i (fst p) (snd p)) s
                         in if rc \<noteq> SAI_STATUS_SUCCESS then Some (rc, s)
                            else sample_drop_node e i n p ps (pn\<lparr>sn_flow_based := False\<rparr>) s)
            | SAMPLEPACKET_MODE_OTHER _ \<Rightarrow> sample_drop_node e i n p ps pn s))"
proof -
  from pt obtain n where n: "sample_session_get (sw s) i = Some n" "ss_port_tree n = Some ps" by (rule port_tree_ofE)
  have t: "samplepacket_sessions_tree (sw s) \<noteq> None" by (rule sample_session_get_tree [OF n(1)])
  show thesis by (rule that [OF n(1)]) (simp add: sai_samplepacket_session_port_remove_def n t i)
qed

text \<open>A flow that is added and removed again: the hardware is asked only for the last one.\<close>

lemma flow_add_remove:
  assumes c: "sai_samplepacket_session_port_add e i p SAI_SAMPLEPACKET_MODE_FLOW_BASED s = Some (SAI_STATUS_SUCCESS, s1)"
    and r: "sai_samplepacket_session_port_remove e i p SAI_SAMPLEPACKET_MODE_FLOW_BASED s1 = Some (st, s2)"
    and st: "st = SAI_STATUS_SUCCESS \<or> st = SAI_STATUS_OBJECT_IN_USE"
    and busy: "\<And>q d h. fst (npu_sample_acl_port_remove e i q d h) \<noteq> SAI_STATUS_OBJECT_IN_USE"
    and sane: "\<And>pn. node_of (sw s) i p = Some pn \<Longrightarrow> node_sane pn \<and> \<not> sn_port_based pn \<and> sn_ref_count pn + 1 \<noteq> 0"
  shows "node_of (sw s2) = node_of (sw s) \<and> (st = SAI_STATUS_SUCCESS \<longleftrightarrow> node_of (sw s) i p = None)"
proof -
  from port_add_flow [OF c] obtain ps pn where a: "port_tree_of (sw s) i = Some ps"
    "pn = (case tree_get ps p of None \<Rightarrow> sample_node_zero | Some n \<Rightarrow> n)"
    "port_tree_of (sw s1) = (port_tree_of (sw s))(i \<mapsto> tree_put p (pn\<lparr>sn_ref_count := sn_ref_count pn + 1, sn_flow_based := True\<rparr>) ps)"
    "is_obj_id_samplepkt_session e i" .
  let ?pn = "pn\<lparr>sn_ref_count := sn_ref_count pn + 1, sn_flow_based := True\<rparr>"
  let ?ps = "tree_put p ?pn ps"
  have no: "node_of (sw s) i p = tree_get ps p" using a(1) by (simp add: node_of_def)
  have pt1: "port_tree_of (sw s1) i = Some ?ps" using a(3) by simp
  obtain n where n: "sample_session_get (sw s1) i = Some n" and rem:
    "sai_samplepacket_session_port_remove e i p SAI_SAMPLEPACKET_MODE_FLOW_BASED s1 =
       (if \<not> lookup_defined e ?ps p s1 then None
        else let pn = ?pn\<lparr>sn_ref_count := sn_ref_count ?pn - 1\<rparr>;
                 s = sample_ports_put i n (tree_put p pn ?ps) s1
             in if sn_ref_count pn \<noteq> 0 then Some (SAI_STATUS_OBJECT_IN_USE, s)
                else let (rc, s) = ext_call (npu_sample_acl_port_remove e i (fst p) (snd p)) s
                     in if rc \<noteq> SAI_STATUS_SUCCESS then Some (rc, s)
                        else sample_drop_node e i n p ?ps (pn\<lparr>sn_flow_based := False\<rparr>) s)"
    by (rule port_remove_call [OF pt1 a(4), of p SAI_SAMPLEPACKET_MODE_FLOW_BASED]) (rule that, assumption, simp)
  let ?pn2 = "pn\<lparr>sn_flow_based := True\<rparr>"
  have pn2: "?pn\<lparr>sn_ref_count := sn_ref_count ?pn - 1\<rparr> = ?pn2" by (cases pn) simp
  let ?s3 = "sample_ports_put i n (tree_put p ?pn2 ?ps) s1"
  obtain rc s4 where 4: "ext_call (npu_sample_acl_port_remove e i (fst p) (snd p)) ?s3 = (rc, s4)" by force
  have rc: "rc \<noteq> SAI_STATUS_OBJECT_IN_USE" using 4 busy by (auto simp: ext_call_def split: prod.splits) (metis fst_conv)
  have res: "Some (st, s2) = (if sn_ref_count pn \<noteq> 0 then Some (SAI_STATUS_OBJECT_IN_USE, ?s3)
      else if rc \<noteq> SAI_STATUS_SUCCESS then Some (rc, s4) else sample_drop_node e i n p ?ps (?pn2\<lparr>sn_flow_based := False\<rparr>) s4)"
    using r unfolding rem pn2 Let_def 4 prod.case by (simp split: if_split_asm)
  have g: "sample_session_get (sw s1) i \<noteq> None" using n by simp
  have pt3: "port_tree_of (sw ?s3) = (port_tree_of (sw s))(i \<mapsto> tree_put p ?pn2 ps)"
    unfolding port_tree_ports_put [OF g] a(3) by simp
  show ?thesis
  proof (cases "sn_ref_count pn = 0")
    case False
    then have some: "tree_get ps p = Some pn" using a(2) by (cases "tree_get ps p") (auto simp: sample_node_zero_def)
    then have "sn_flow_based pn" using sane no False by (simp add: node_sane_def)
    then have "?pn2 = pn" by (cases pn) simp
    then have "tree_put p ?pn2 ps = ps" using some by (simp add: tree_put_same)
    then have "port_tree_of (sw s2) = port_tree_of (sw s)" using res False pt3 a(1) by auto
    then show ?thesis using res False no some by (simp add: node_of_def fun_eq_iff)
  next
    case True
    then have none: "tree_get ps p = None" using sane no a(2) by (cases "tree_get ps p") (auto simp: node_sane_def)
    have ok: "rc = SAI_STATUS_SUCCESS" using res True st rc by (auto split: if_splits)
    have g4: "sample_session_get (sw s4) i \<noteq> None"
      using ext_call_sw [OF 4] g by (simp add: sample_ports_put_def sample_session_get_put [OF g])
    have s2: "st = SAI_STATUS_SUCCESS" "s2 = sample_ports_put i n (tree_del p ?ps) s4"
      using res True ok unfolding sample_drop_node_def by (cases "sample_ports_del e i n p ?ps s4"; auto dest: ports_delD)+
    have "port_tree_of (sw s2) = (port_tree_of (sw s))(i \<mapsto> ps)"
      unfolding s2(2) port_tree_ports_put [OF g4] using ext_call_sw [OF 4] pt3 tree_del_absent [OF none] by simp
    also have "\<dots> = port_tree_of (sw s)" using a(1) by auto
    finally show ?thesis using s2(1) no none by (simp add: node_of_def fun_eq_iff)
  qed
qed

section \<open>A port sampled both ways\<close>

text \<open>
  The port gives up its own session while it has flows: its node is freed and stays in the tree, and every
  further call on this port and session looks it up.
\<close>

lemma mixed_port_removal:
  assumes pt: "port_tree_of (sw s) i = Some ps" "tree_get ps p = Some pn"
    and i: "is_obj_id_samplepkt_session e i" and ref: "sn_ref_count pn \<noteq> 0"
    and c: "sai_samplepacket_session_port_remove e i p SAI_SAMPLEPACKET_MODE_PORT_BASED s = Some (SAI_STATUS_SUCCESS, s')"
  shows "port_tree_of (sw s') i = Some (tree_put p (pn\<lparr>sn_freed := True\<rparr>) ps)"
proof -
  obtain n where n: "sample_session_get (sw s) i = Some n" and rem: "sai_samplepacket_session_port_remove e i p SAI_SAMPLEPACKET_MODE_PORT_BASED s =
       (if \<not> lookup_defined e ps p s then None
        else let (rc, s) = ext_call (npu_sample_port_remove e i (fst p) (snd p)) s
             in if rc \<noteq> SAI_STATUS_SUCCESS then Some (rc, s) else sample_drop_node e i n p ps pn s)"
    by (rule port_remove_call [OF pt(1) i, of p SAI_SAMPLEPACKET_MODE_PORT_BASED]) (rule that, assumption, simp add: pt(2))
  obtain rc s1 where 1: "ext_call (npu_sample_port_remove e i (fst p) (snd p)) s = (rc, s1)" by force
  have s': "s' = sample_ports_put i n (tree_put p (pn\<lparr>sn_freed := True\<rparr>) ps) s1"
    using c ref unfolding rem Let_def 1 prod.case by (auto simp: sample_drop_node_def split: if_splits)
  have g: "sample_session_get (sw s1) i \<noteq> None" using n ext_call_sw [OF 1] by simp
  show ?thesis unfolding s' port_tree_ports_put [OF g] by simp
qed

lemma freed_undefined:
  assumes "sample_rb_ok e" "port_tree_of (sw s) i = Some ps" "tree_get ps p = Some pn" "sn_freed pn"
    and "is_obj_id_samplepkt_session e i"
  shows "sai_samplepacket_session_port_add e i p mode s = None" "sai_samplepacket_session_port_remove e i p mode s = None"
proof -
  from assms(2) obtain n where n: "sample_session_get (sw s) i = Some n" "ss_port_tree n = Some ps" by (rule port_tree_ofE)
  have "samplepacket_sessions_tree (sw s) \<noteq> None" by (rule sample_session_get_tree [OF n(1)])
  then show "sai_samplepacket_session_port_add e i p mode s = None" "sai_samplepacket_session_port_remove e i p mode s = None"
    using n assms(5) freed_lookup [OF assms(1,3,4)]
    by (simp_all add: sai_samplepacket_session_port_add_def sai_samplepacket_session_port_remove_def)
qed

text \<open>The last flow that leaves takes the node of the port with it.\<close>

lemma mixed_flow_removal:
  assumes pt: "port_tree_of (sw s) i = Some ps" "tree_get ps p = Some pn"
    and i: "is_obj_id_samplepkt_session e i" and ref: "sn_ref_count pn = 1"
    and c: "sai_samplepacket_session_port_remove e i p SAI_SAMPLEPACKET_MODE_FLOW_BASED s = Some (SAI_STATUS_SUCCESS, s')"
  shows "port_tree_of (sw s') i = Some (tree_del p ps) \<and> sample_objects (sw s') = sample_objects (sw s)"
proof -
  obtain n where n: "sample_session_get (sw s) i = Some n" and rem:
    "sai_samplepacket_session_port_remove e i p SAI_SAMPLEPACKET_MODE_FLOW_BASED s =
       (if \<not> lookup_defined e ps p s then None
        else let pn = pn\<lparr>sn_ref_count := sn_ref_count pn - 1\<rparr>;
                 s = sample_ports_put i n (tree_put p pn ps) s
             in if sn_ref_count pn \<noteq> 0 then Some (SAI_STATUS_OBJECT_IN_USE, s)
                else let (rc, s) = ext_call (npu_sample_acl_port_remove e i (fst p) (snd p)) s
                     in if rc \<noteq> SAI_STATUS_SUCCESS then Some (rc, s)
                        else sample_drop_node e i n p ps (pn\<lparr>sn_flow_based := False\<rparr>) s)"
    by (rule port_remove_call [OF pt(1) i, of p SAI_SAMPLEPACKET_MODE_FLOW_BASED]) (rule that, assumption, simp add: pt(2))
  let ?s1 = "sample_ports_put i n (tree_put p (pn\<lparr>sn_ref_count := sn_ref_count pn - 1\<rparr>) ps) s"
  obtain rc s2 where 2: "ext_call (npu_sample_acl_port_remove e i (fst p) (snd p)) ?s1 = (rc, s2)" by force
  have s': "s' = sample_ports_put i n (tree_del p ps) s2"
    using c ref unfolding rem Let_def 2 prod.case by (auto simp: sample_drop_node_def split: if_splits dest!: ports_delD)
  have g: "sample_session_get (sw s) i \<noteq> None" using n by simp
  have g2: "sample_session_get (sw s2) i \<noteq> None"
    using ext_call_sw [OF 2] by (simp add: sample_ports_put_def sample_session_get_put [OF g])
  show ?thesis unfolding s' port_tree_ports_put [OF g2] using ext_call_sw [OF 2] by simp
qed

text \<open>The port still has the session in its application node: nothing that is asked of it succeeds.\<close>

lemma handle_stuck:
  assumes pt: "port_tree_of (sw s) i = Some ps" "tree_get ps (port, dir) = None"
    and i: "is_obj_id_samplepkt_session e i" "i \<noteq> SAI_NULL_OBJECT_ID"
    and o: "sample_object_of (sw s) (port, dir) = i"
    and c: "sai_samplepacket_handle_per_port e port j dir s = Some (st, s')"
  shows "st \<noteq> SAI_STATUS_SUCCESS \<and> sw s' = sw s"
proof -
  obtain ok s1 where 1: "ext_call (sample_port_app_get e port) s = (ok, s1)" by force
  have sw1: "sw s1 = sw s" using ext_call_sw [OF 1] by simp
  have "sai_samplepacket_session_port_remove e i (port, dir) SAI_SAMPLEPACKET_MODE_PORT_BASED s1 =
      (if \<not> lookup_defined e ps (port, dir) s1 then None else Some (SAI_STATUS_ITEM_NOT_FOUND, s1))"
    by (rule port_remove_call [of s1 i ps e "(port, dir)" SAI_SAMPLEPACKET_MODE_PORT_BASED])
       (simp_all add: sw1 pt i)
  then show ?thesis using c i(2) o sw1
    by (auto simp: sai_samplepacket_handle_per_port_def 1 split: if_splits)
qed

end
