(* ===== verification/Sample_Properties.thy ===== *)
theory Sample_Properties
  imports Sample_Ops Sai_Demo
begin

text \<open>
  The calls of the sample packet component, and its properties, each with its use on a concrete history. The
  rules of ACL say in each call whether the ports are to be validated, updated or both: \<^verbatim>\<open>sai_set_acl_rule\<close>
  asks for the validation of all fields first and for their update after.
\<close>

section \<open>The component\<close>

datatype sample_call =
    SampleCreate "sample_attr list"
  | SampleRemove oid
  | SampleSet oid sample_attr
  | SampleGet oid "sample_attr list"
  | SampleHandlePort oid oid sample_direction
  | SampleAclValidate "oid list option" oid sample_direction bool bool
  | SampleAclRemove "oid list option" oid sample_direction

text \<open>\<open>None\<close>: the call reads freed memory, follows a null pointer, or overruns a buffer.\<close>

definition sample_exec :: "'h sample_env \<Rightarrow> sample_call \<Rightarrow> 'h sample_state \<Rightarrow> 'h sample_state option" where
  "sample_exec e c s =
     (case c of
        SampleCreate attrs \<Rightarrow> Some (snd (snd (sai_samplepacket_session_create e attrs s)))
      | SampleRemove i \<Rightarrow> map_option snd (sai_samplepacket_session_remove e i s)
      | SampleSet i attr \<Rightarrow> Some (snd (sai_samplepacket_session_attribute_set e i attr s))
      | SampleGet i attrs \<Rightarrow> Some (snd (sai_samplepacket_session_attribute_get e i attrs s))
      | SampleHandlePort p i dir \<Rightarrow> map_option snd (sai_samplepacket_handle_per_port e p i dir s)
      | SampleAclValidate ports i dir validate update \<Rightarrow>
          map_option snd (sai_samplepacket_validate_object e ports i dir validate update s)
      | SampleAclRemove ports i dir \<Rightarrow> map_option snd (sai_samplepacket_remove_object e ports i dir s))"

fun sample_run :: "'h sample_env \<Rightarrow> sample_call list \<Rightarrow> 'h sample_state \<Rightarrow> 'h sample_state option" where
  "sample_run e [] s = Some s"
| "sample_run e (c # cs) s = (case sample_exec e c s of None \<Rightarrow> None | Some s \<Rightarrow> sample_run e cs s)"

section \<open>A concrete environment\<close>

text \<open>The world is the index of the next session. Everything is accepted.\<close>

definition demo_sample_env :: "u64 sample_env" where
  "demo_sample_env =
     \<lparr>plib = demo_lib,
      sample_session_zero = \<lparr>ss_session_id = 0, ss_sampling_type = SAI_SAMPLEPACKET_SLOW_PATH, ss_sample_rate = 0, ss_port_tree = None\<rparr>,
      sample_port_app_get = (\<lambda>p. Pair True), sample_port_app_remove = (\<lambda>p h. h),
      sample_all_ports = (\<lambda>h. [demo_oid SAI_OBJECT_TYPE_PORT 7, demo_oid SAI_OBJECT_TYPE_PORT 8]), sample_max_lport = (\<lambda>h. 2),
      sample_radix_create_ok = Pair True, sample_radix_insert_ok = Pair True,
      sample_rb_path = (\<lambda>h ks p. [p]), sample_rb_fix = (\<lambda>h ks p. [p]), sample_rb_first = (\<lambda>h ks. take 1 ks),
      sample_acl_walk = (\<lambda>ks k. filter (\<lambda>k'. fst k' = fst k) ks @ filter (\<lambda>k'. fst k' \<noteq> fst k) ks),
      npu_sample_create = (\<lambda>n k. ((SAI_STATUS_SUCCESS, k), k + 1)), npu_sample_destroy = (\<lambda>i. Pair SAI_STATUS_SUCCESS),
      npu_sample_set = (\<lambda>n a. Pair SAI_STATUS_SUCCESS), npu_sample_get = (\<lambda>n as. Pair (SAI_STATUS_SUCCESS, as)),
      npu_sample_port_add = (\<lambda>n p d. Pair SAI_STATUS_SUCCESS), npu_sample_port_remove = (\<lambda>i p d. Pair SAI_STATUS_SUCCESS),
      npu_sample_acl_port_add = (\<lambda>n p d. Pair SAI_STATUS_SUCCESS), npu_sample_acl_port_remove = (\<lambda>i p d. Pair SAI_STATUS_SUCCESS),
      npu_sample_init = Pair SAI_STATUS_SUCCESS\<rparr>"

abbreviation demo_sample :: "u64 \<Rightarrow> oid" where "demo_sample n \<equiv> demo_oid SAI_OBJECT_TYPE_SAMPLEPACKET n"

abbreviation sample_demo_port :: "u64 \<Rightarrow> oid" where "sample_demo_port n \<equiv> demo_oid SAI_OBJECT_TYPE_PORT n"

text \<open>Sessions 1 and 2, a rule that samples all ports to session 1, and one that samples port 7 to it.\<close>

definition demo_sample_start :: "u64 sample_state" where
  "demo_sample_start = snd (sai_samplepacket_init demo_sample_env
     \<lparr>sw = \<lparr>samplepacket_sessions_tree = None, sample_objects = [], sai_acl_info_per_port = None\<rparr>, ext = 1\<rparr>)"

definition demo_sample_calls :: "sample_call list" where
  "demo_sample_calls = [SampleCreate [SAI_SAMPLEPACKET_ATTR_SAMPLE_RATE 100], SampleCreate [SAI_SAMPLEPACKET_ATTR_SAMPLE_RATE 9],
     SampleAclValidate None (demo_sample 1) SAI_SAMPLEPACKET_DIR_INGRESS True True,
     SampleAclValidate (Some [sample_demo_port 7]) (demo_sample 1) SAI_SAMPLEPACKET_DIR_INGRESS True False,
     SampleAclValidate (Some [sample_demo_port 7]) (demo_sample 1) SAI_SAMPLEPACKET_DIR_INGRESS False True]"

definition demo_sample_state :: "sample_call list \<Rightarrow> u64 sample_state" where
  "demo_sample_state cs = the (sample_run demo_sample_env (demo_sample_calls @ cs) demo_sample_start)"

lemma demo_sample_rb: "sample_rb_ok demo_sample_env"
  by (simp add: sample_rb_ok_def demo_sample_env_def)

section \<open>Properties\<close>



text \<open>
  C38: a port that gives up its own session while flows of the same session are sampled on it is told
  success, but its node is freed and stays in the tree of the session. Every later call for this port and
  session looks the node up and is undefined, the removal of the flows included. (What the calls for other
  ports read depends on the shape of the tree.)
\<close>

theorem sample_mixed_use_after_free:
  assumes "sample_rb_ok e" and "port_tree_of (sw s) i = Some ps" and "tree_get ps p = Some pn"
    and "is_obj_id_samplepkt_session e i" and "sn_ref_count pn \<noteq> 0"
    and "sai_samplepacket_session_port_remove e i p SAI_SAMPLEPACKET_MODE_PORT_BASED s = Some (SAI_STATUS_SUCCESS, s')"
    and "sw t = sw s'"
  shows "node_of (sw s') i p = Some (pn\<lparr>sn_freed := True\<rparr>) \<and>
    sai_samplepacket_session_port_add e i p mode t = None \<and> sai_samplepacket_session_port_remove e i p mode t = None"
proof -
  let ?ps = "tree_put p (pn\<lparr>sn_freed := True\<rparr>) ps"
  have pt: "port_tree_of (sw s') i = Some ?ps" by (rule mixed_port_removal [OF assms(2-6)])
  then have "port_tree_of (sw t) i = Some ?ps" by (simp add: assms(7))
  from freed_undefined [OF assms(1) this _ _ assms(4), of p "pn\<lparr>sn_freed := True\<rparr>"] pt show ?thesis
    by (simp add: node_of_def)
qed

text \<open>Port 7, with two flows, gets session 1 for itself, and gives it back.\<close>

definition demo_sample_mixed :: "u64 sample_state" where
  "demo_sample_mixed =
     demo_sample_state [SampleHandlePort (sample_demo_port 7) (demo_sample 1) SAI_SAMPLEPACKET_DIR_INGRESS]"

theorem sample_mixed_use_after_free_witness:
  "\<exists>s'. sai_samplepacket_session_port_remove demo_sample_env (demo_sample 1) (sample_demo_port 7, SAI_SAMPLEPACKET_DIR_INGRESS)
       SAI_SAMPLEPACKET_MODE_PORT_BASED demo_sample_mixed = Some (SAI_STATUS_SUCCESS, s') \<and>
     sai_samplepacket_session_port_remove demo_sample_env (demo_sample 1) (sample_demo_port 7, SAI_SAMPLEPACKET_DIR_INGRESS)
       SAI_SAMPLEPACKET_MODE_FLOW_BASED s' = None"
proof -
  let ?p = "(sample_demo_port 7, SAI_SAMPLEPACKET_DIR_INGRESS)"
  let ?c = "sai_samplepacket_session_port_remove demo_sample_env (demo_sample 1) ?p SAI_SAMPLEPACKET_MODE_PORT_BASED demo_sample_mixed"
  have "map_option fst ?c = Some SAI_STATUS_SUCCESS" by code_simp
  then obtain s' where c: "?c = Some (SAI_STATUS_SUCCESS, s')" by auto
  have "case port_tree_of (sw demo_sample_mixed) (demo_sample 1) of None \<Rightarrow> False
      | Some ps \<Rightarrow> map_option sn_ref_count (tree_get ps ?p) = Some 2" by code_simp
  then obtain ps pn where ps: "port_tree_of (sw demo_sample_mixed) (demo_sample 1) = Some ps"
    "tree_get ps ?p = Some pn" "sn_ref_count pn \<noteq> 0"
    by (auto split: option.splits)
  have i: "is_obj_id_samplepkt_session demo_sample_env (demo_sample 1)" by code_simp
  show ?thesis using sample_mixed_use_after_free [OF demo_sample_rb ps(1,2) i ps(3) c refl] c by blast
qed



end
