(* ===== verification/Spec2Isabelle.thy ===== *)
theory Spec2Isabelle
  imports Fib_Properties Hash_Properties Udf_Properties Switching_Properties Lag_Properties Fdb_Properties Mirror_Properties Sample_Properties
begin

text \<open>
  A model of SAI common: the hardware independent half of a switch abstraction interface. A client
  calls method tables of SAI operations; the code validates the attributes, keeps a software database
  of the objects it created (trees, lists, reference counts), and calls the method tables of a
  hardware layer, the NPU API, which is another repository.

  \<^bold>\<open>Parts and theories.\<close> The theories, in the order of their imports:

  \<^item> \<open>Prelude\<close>: trees of the common library (red-black and radix trees) as association lists with
    distinct keys, freed and reused nodes, widths of words, and the shared lemmas.
  \<^item> \<open>Sai_Types\<close>: object ids, object types, status codes.
  \<^item> \<open>Fib_Base\<close>: the state of the L3 component (\<^verbatim>\<open>sai_fib_access_global_config\<close>), its node types, the
    method tables of the hardware layer, \<^verbatim>\<open>sai_l3_mem.c\<close> and the helpers of \<^verbatim>\<open>sai_l3_api_utils.h\<close>.
  \<^item> \<open>Fib_Inv\<close>: the invariant \<open>fib_inv\<close> of the database and the lemmas that carry it over the updates
    of one node, one link or one counter.
  \<^item> \<open>Fib_Group\<close>, \<open>Fib_Group_Api\<close>: next hop groups (\<^verbatim>\<open>sai_l3_next_hop_group.c\<close>).
  \<^item> \<open>Fib_NextHop\<close>: next hops (\<^verbatim>\<open>sai_l3_next_hop.c\<close>). \<open>Fib_Vrf\<close>: virtual routers (\<^verbatim>\<open>sai_l3_vrf.c\<close>).
    \<open>Fib_Rif\<close>: router interfaces (\<^verbatim>\<open>sai_l3_router_interface.c\<close>). \<open>Fib_Neighbor\<close>: neighbors
    (\<^verbatim>\<open>sai_l3_neighbor.c\<close>). \<open>Fib_Route\<close>: routes (\<^verbatim>\<open>sai_l3_route.c\<close>).
  \<^item> \<open>Fib_Ledger\<close>: the interface between a table of holders and the counters of what they hold (the
    locale \<open>ref_ledger\<close>), interpreted on routes and their reference counts.
  \<^item> \<open>Fib_System\<close>: all L3 calls as one datatype, the step relation, reachability, and the abstract
    routing table. \<open>Fib_Demo\<close>: a concrete environment and history. \<open>Fib_Properties\<close>: the properties.

  \<^bold>\<open>How they interact.\<close> A virtual router owns a list of interfaces, a tree of next hop nodes and a
  tree of routes. Next hops and neighbors are the same nodes, told apart by owner flags; a node counts
  the routes that use it and links the groups it is in. A group links its next hops with a weight. A
  neighbor on a VLAN interface is also listed in the MAC view, through which learned FDB entries reach
  it. Router interfaces count the nodes on them and set the forwarding mode of ports.

  \<^bold>\<open>State and calls.\<close> Each operation has the name of the C function, takes the environment (the
  hardware layer and the utilities of other repositories, records of functions) and the state, and
  returns the status and the new state. Nodes shared by pointer live in heaps indexed by addresses;
  nodes that only their tree points to are stored by value. The component \<open>hw\<close> of the state is
  everything outside; its type is arbitrary and every outside call may change it and may fail.
  Hypotheses on the environment are named (\<open>util_ok\<close>: object ids carry their type, owner bits are
  distinct and so on; \<open>calloc_total\<close>, \<open>rbtree_total\<close>: a library call does not fail) and hold in
  \<open>Fib_Demo\<close>.

  \<^bold>\<open>Lemmas.\<close> For each component: what every operation does to the database on success and on failure
  (\<open>..._result\<close>), that it keeps the invariant (\<open>..._inv\<close>), and what it leaves alone (\<open>..._frame\<close>).
  \<open>Fib_System\<close> puts them together: every call keeps the invariant and refines one step on the abstract
  routing table.

  \<^bold>\<open>Bounds.\<close> Counters are 32 bit words and wrap; the reference counts are proved equal to the number of
  references modulo 2^32, and the operations that test a counter for zero assume fewer than 2^32 nodes
  (\<open>fib_bounded\<close>, \<open>call_fits\<close>). All recursion is structural, there is no fuel.

  \<^bold>\<open>Not modelled.\<close> Locks (each operation runs under the lock of its component and is one step), logging
  and debug dumps (printing only), the unit tests, and the components ACL, hash, UDF, host interface,
  mirroring, ports, QoS, sample packet, switch and L2 switching, which are planned in this order: UDF
  and hash, then L2 switching, mirroring and sample packet, QoS, ACL, host interface, switch.
\<close>

end
